(* ===== verification/GoPrelude.thy ===== *)
theory GoPrelude
  imports Complex_Main "HOL-Library.AList"
begin

text \<open>
  Shared vocabulary of the development: how values of the Go language and of
  its standard library are represented, and the generic lemmas on lists,
  association lists and strings that every component uses.

  \<^item> A Go string is a \<open>string\<close> of bytes (UTF-8); \<open>len\<close> counts bytes.
  \<^item> A Go map is an association list with distinct keys; the order of the
    list stands for one iteration order of the map, which Go leaves open.
  \<^item> A \<open>time.Time\<close> is the number of nanoseconds since the zero time (1 January
    of year 1, UTC), so \<open>IsZero\<close> is equality with 0, \<open>Before\<close> is \<open><\<close> and \<open>Add\<close>
    is \<open>+\<close>; a \<open>time.Duration\<close> is a number of nanoseconds.
  \<^item> An \<open>int64\<close> that is computed with is an \<open>int\<close> whose result is wrapped to 64
    bits by \<open>wrap64\<close>.
\<close>

named_theorems go_simps "rewrite rules for the Go library model"

section \<open>Type names\<close>

type_synonym gotime = int
type_synonym duration = int
type_synonym bytes = string
type_synonym ('k, 'v) gomap = "('k \<times> 'v) list"

section \<open>Machine integers and time\<close>

definition wrap64 :: "int \<Rightarrow> int" where
  "wrap64 x = (x + 2 ^ 63) mod 2 ^ 64 - 2 ^ 63"

lemma wrap64_id [go_simps]: "- (2 ^ 63) \<le> x \<Longrightarrow> x < 2 ^ 63 \<Longrightarrow> wrap64 x = x"
  by (simp add: wrap64_def)

lemma wrap64_range: "- (2 ^ 63) \<le> wrap64 x" "wrap64 x < 2 ^ 63"
  by (simp_all add: wrap64_def)

definition isZeroTime :: "gotime \<Rightarrow> bool" where
  "isZeroTime t \<longleftrightarrow> t = 0"

text \<open>\<open>Time.Sub\<close> saturates at the least and the greatest duration.\<close>

definition timeSub :: "gotime \<Rightarrow> gotime \<Rightarrow> duration" where
  "timeSub a b = max (- (2 ^ 63)) (min (2 ^ 63 - 1) (a - b))"

lemma timeSub_ge_iff:
  "0 < d \<Longrightarrow> d < 2 ^ 63 \<Longrightarrow> d \<le> timeSub a b \<longleftrightarrow> b + d \<le> a"
  by (auto simp: timeSub_def)

abbreviation (input) nanosecond :: duration where "nanosecond \<equiv> 1"
abbreviation (input) millisecond :: duration where "millisecond \<equiv> 1000000"
abbreviation (input) second :: duration where "second \<equiv> 1000000000"
abbreviation (input) hour :: duration where "hour \<equiv> 3600000000000"

text \<open>Go's integer division truncates towards zero.\<close>

definition goDiv :: "int \<Rightarrow> int \<Rightarrow> int" where
  "goDiv a b = sgn a * sgn b * (\<bar>a\<bar> div \<bar>b\<bar>)"

lemma goDiv_nonneg [go_simps]: "0 \<le> a \<Longrightarrow> 0 < b \<Longrightarrow> goDiv a b = a div b"
  by (cases "a = 0") (auto simp: goDiv_def sgn_if)

lemma goDiv_neg: "a < 0 \<Longrightarrow> 0 < b \<Longrightarrow> goDiv a b \<le> 0"
  by (auto simp: goDiv_def sgn_if pos_imp_zdiv_nonneg_iff)

section \<open>Strings\<close>

subsection \<open>White space\<close>

text \<open>
  \<open>spaceLen s\<close> is the number of bytes of the white-space rune (\<open>unicode.IsSpace\<close>)
  that \<open>s\<close> starts with, 0 if there is none; \<open>spaceLenRev\<close> is the same for the
  end of a string, on the reversed bytes. The runes are the ASCII ones, U+0085,
  U+00A0, U+1680, U+2000 to U+200A, U+2028, U+2029, U+202F, U+205F and U+3000.
\<close>

definition asciiSpace :: "char \<Rightarrow> bool" where
  "asciiSpace c \<longleftrightarrow> c \<in> {CHR 0x09, CHR 0x0A, CHR 0x0B, CHR 0x0C, CHR 0x0D, CHR 0x20}"

definition space2 :: "char \<Rightarrow> char \<Rightarrow> bool" where
  "space2 a b \<longleftrightarrow> a = CHR 0xC2 \<and> b \<in> {CHR 0x85, CHR 0xA0}"

definition space3 :: "char \<Rightarrow> char \<Rightarrow> char \<Rightarrow> bool" where
  "space3 a b c \<longleftrightarrow>
     a = CHR 0xE1 \<and> b = CHR 0x9A \<and> c = CHR 0x80 \<or>
     a = CHR 0xE2 \<and> b = CHR 0x80 \<and>
       c \<in> {CHR 0x80, CHR 0x81, CHR 0x82, CHR 0x83, CHR 0x84, CHR 0x85, CHR 0x86, CHR 0x87,
            CHR 0x88, CHR 0x89, CHR 0x8A, CHR 0xA8, CHR 0xA9, CHR 0xAF} \<or>
     a = CHR 0xE2 \<and> b = CHR 0x81 \<and> c = CHR 0x9F \<or>
     a = CHR 0xE3 \<and> b = CHR 0x80 \<and> c = CHR 0x80"

fun spaceLen :: "string \<Rightarrow> nat" where
  "spaceLen [] = 0"
| "spaceLen (a # s) =
     (if asciiSpace a then 1
      else (case s of [] \<Rightarrow> 0
            | b # t \<Rightarrow> if space2 a b then 2
                     else (case t of [] \<Rightarrow> 0 | c # _ \<Rightarrow> if space3 a b c then 3 else 0)))"

fun spaceLenRev :: "string \<Rightarrow> nat" where
  "spaceLenRev [] = 0"
| "spaceLenRev (a # s) =
     (if asciiSpace a then 1
      else (case s of [] \<Rightarrow> 0
            | b # t \<Rightarrow> if space2 b a then 2
                     else (case t of [] \<Rightarrow> 0 | c # _ \<Rightarrow> if space3 c b a then 3 else 0)))"

text \<open>\<open>stripWhile f s\<close> drops \<open>f s\<close> bytes as long as \<open>f\<close> reports some.\<close>

function stripWhile :: "(string \<Rightarrow> nat) \<Rightarrow> string \<Rightarrow> string" where
  "stripWhile f s = (if s \<noteq> [] \<and> 0 < f s then stripWhile f (drop (f s) s) else s)"
  by pat_completeness auto
termination
  by (relation "measure (length \<circ> snd)") auto

declare stripWhile.simps [simp del]

definition trimLeft :: "string \<Rightarrow> string" where
  "trimLeft s = stripWhile spaceLen s"

definition trimRight :: "string \<Rightarrow> string" where
  "trimRight s = rev (stripWhile spaceLenRev (rev s))"

definition TrimSpace :: "string \<Rightarrow> string" where
  "TrimSpace s = trimRight (trimLeft s)"

lemma stripWhile_stop: "s = [] \<or> f s = 0 \<Longrightarrow> stripWhile f s = s"
  by (subst stripWhile.simps) auto

lemma stripWhile_fixed: "stripWhile f s = [] \<or> f (stripWhile f s) = 0"
proof (induction f s rule: stripWhile.induct)
  case (1 f s)
  then show ?case by (subst (1 2) stripWhile.simps) auto
qed

lemma stripWhile_suffix: "\<exists>p. s = p @ stripWhile f s"
proof (induction f s rule: stripWhile.induct)
  case (1 f s)
  show ?case
  proof (cases "s \<noteq> [] \<and> 0 < f s")
    case True
    with "1.IH" obtain p where "drop (f s) s = p @ stripWhile f (drop (f s) s)" by blast
    then have "s = (take (f s) s @ p) @ stripWhile f (drop (f s) s)"
      by (metis append_assoc append_take_drop_id)
    with True show ?thesis by (metis stripWhile.simps)
  next
    case False
    then show ?thesis by (simp add: stripWhile_stop)
  qed
qed

lemma stripWhile_idem [simp]: "stripWhile f (stripWhile f s) = stripWhile f s"
  using stripWhile_fixed [of f s] by (rule stripWhile_stop)

lemma spaceLen_append: "0 < spaceLen p \<Longrightarrow> 0 < spaceLen (p @ t)"
  by (cases p rule: spaceLen.cases) (auto split: list.splits if_splits)

lemma trimRight_prefix: "\<exists>t. s = trimRight s @ t"
proof -
  obtain p where "rev s = p @ stripWhile spaceLenRev (rev s)"
    using stripWhile_suffix by blast
  then have "rev (rev s) = rev (p @ stripWhile spaceLenRev (rev s))" by simp
  then have "s = trimRight s @ rev p" by (simp add: trimRight_def)
  then show ?thesis ..
qed

lemma trimLeft_trimRight_fixed:
  assumes "trimLeft s = s"
  shows "trimLeft (trimRight s) = trimRight s"
proof -
  obtain t where t: "s = trimRight s @ t" using trimRight_prefix by blast
  have "s = [] \<or> spaceLen s = 0"
    using stripWhile_fixed [of spaceLen s] assms by (simp add: trimLeft_def)
  then have "trimRight s = [] \<or> spaceLen (trimRight s) = 0"
    using t spaceLen_append [of "trimRight s" t] by auto
  then show ?thesis unfolding trimLeft_def by (rule stripWhile_stop)
qed

lemma TrimSpace_idem [simp]: "TrimSpace (TrimSpace s) = TrimSpace s"
  by (simp add: TrimSpace_def trimLeft_trimRight_fixed trimLeft_def trimRight_def
      trimLeft_trimRight_fixed [unfolded trimLeft_def trimRight_def])

lemma TrimSpace_Nil [simp]: "TrimSpace [] = []"
  by (simp add: TrimSpace_def trimLeft_def trimRight_def stripWhile_stop)

text \<open>A nonempty string without white space bytes at either end is already trimmed.\<close>

lemma TrimSpace_id:
  "spaceLen s = 0 \<Longrightarrow> spaceLenRev (rev s) = 0 \<Longrightarrow> TrimSpace s = s"
  by (simp add: TrimSpace_def trimLeft_def trimRight_def stripWhile_stop)

subsection \<open>Case folding\<close>

text \<open>
  \<open>strings.EqualFold\<close> against an ASCII literal. Besides the ASCII letters, the
  only runes in the simple-folding orbit of an ASCII letter are U+017F (long s)
  and U+212A (Kelvin sign); every other rune is equal to no ASCII string under
  folding, so folding these three cases decides the comparison exactly.
\<close>

definition asciiLower :: "char \<Rightarrow> char" where
  "asciiLower c =
     (let n = (of_char c :: nat) in if 65 \<le> n \<and> n \<le> 90 then char_of (n + 32) else c)"

fun foldRunes :: "string \<Rightarrow> string" where
  "foldRunes [] = []"
| "foldRunes [c] = [asciiLower c]"
| "foldRunes [c, d] =
     (if c = CHR 0xC5 \<and> d = CHR 0xBF then ''s'' else [asciiLower c, asciiLower d])"
| "foldRunes (c # d # e # s) =
     (if c = CHR 0xC5 \<and> d = CHR 0xBF then CHR ''s'' # foldRunes (e # s)
      else if c = CHR 0xE2 \<and> d = CHR 0x84 \<and> e = CHR 0xAA then CHR ''k'' # foldRunes s
      else asciiLower c # foldRunes (d # e # s))"

definition EqualFold :: "string \<Rightarrow> string \<Rightarrow> bool" where
  "EqualFold s t \<longleftrightarrow> foldRunes s = foldRunes t"

lemma EqualFold_refl [simp]: "EqualFold s s"
  by (simp add: EqualFold_def)

text \<open>
  \<open>strings.ToLower\<close> as far as ASCII results are concerned: besides the ASCII
  letters, U+212A maps to \<open>k\<close> and U+0130 to \<open>i\<close>; the model leaves every other
  rune as it is, where Go maps a non-ASCII letter to a non-ASCII letter.
\<close>

fun ToLower :: "string \<Rightarrow> string" where
  "ToLower [] = []"
| "ToLower [c] = [asciiLower c]"
| "ToLower [c, d] =
     (if c = CHR 0xC4 \<and> d = CHR 0xB0 then ''i'' else [asciiLower c, asciiLower d])"
| "ToLower (c # d # e # s) =
     (if c = CHR 0xC4 \<and> d = CHR 0xB0 then CHR ''i'' # ToLower (e # s)
      else if c = CHR 0xE2 \<and> d = CHR 0x84 \<and> e = CHR 0xAA then CHR ''k'' # ToLower s
      else asciiLower c # ToLower (d # e # s))"

subsection \<open>Prefixes and substrings\<close>

fun HasPrefix :: "string \<Rightarrow> string \<Rightarrow> bool" where
  "HasPrefix s [] = True"
| "HasPrefix [] (c # p) = False"
| "HasPrefix (d # s) (c # p) = (d = c \<and> HasPrefix s p)"

lemma HasPrefix_append [simp]: "HasPrefix (p @ s) p"
  by (induction p) auto

lemma HasPrefix_iff: "HasPrefix s p \<longleftrightarrow> (\<exists>t. s = p @ t)"
  by (induction s p rule: HasPrefix.induct) auto

section \<open>Go maps\<close>

text \<open>\<open>m[k]\<close> in Go gives the zero value for a missing key.\<close>

definition mapGet :: "'v \<Rightarrow> ('k, 'v) gomap \<Rightarrow> 'k \<Rightarrow> 'v" where
  "mapGet zero m k = (case map_of m k of None \<Rightarrow> zero | Some v \<Rightarrow> v)"

definition mapPut :: "'k \<Rightarrow> 'v \<Rightarrow> ('k, 'v) gomap \<Rightarrow> ('k, 'v) gomap" where
  "mapPut = AList.update"

definition mapDel :: "'k \<Rightarrow> ('k, 'v) gomap \<Rightarrow> ('k, 'v) gomap" where
  "mapDel = AList.delete"

definition wfMap :: "('k, 'v) gomap \<Rightarrow> bool" where
  "wfMap m \<longleftrightarrow> distinct (map fst m)"

lemma map_of_mapPut [simp]: "map_of (mapPut k v m) = (map_of m)(k \<mapsto> v)"
  by (simp add: mapPut_def update_conv')

lemma map_of_mapDel [simp]: "map_of (mapDel k m) = (map_of m)(k := None)"
  by (simp add: mapDel_def delete_conv')

lemma wfMap_Nil [simp]: "wfMap []"
  by (simp add: wfMap_def)

lemma wfMap_mapPut [simp]: "wfMap m \<Longrightarrow> wfMap (mapPut k v m)"
  by (simp add: wfMap_def mapPut_def distinct_update)

lemma wfMap_mapDel [simp]: "wfMap m \<Longrightarrow> wfMap (mapDel k m)"
  by (simp add: wfMap_def mapDel_def distinct_delete)

lemma wfMap_filter [simp]: "wfMap m \<Longrightarrow> wfMap (filter P m)"
  by (simp add: wfMap_def distinct_map_filter)

lemma wfMap_Cons [simp]: "wfMap ((k, v) # m) \<longleftrightarrow> k \<notin> fst ` set m \<and> wfMap m"
  by (auto simp: wfMap_def)

lemma wfMap_set: "wfMap m \<Longrightarrow> (k, v) \<in> set m \<longleftrightarrow> map_of m k = Some v"
  by (auto simp: wfMap_def)

lemma mapGet_mapPut [simp]: "mapGet z (mapPut k v m) k' = (if k' = k then v else mapGet z m k')"
  by (simp add: mapGet_def)

lemma map_of_filter_wf:
  "wfMap m \<Longrightarrow> map_of (filter P m) k =
     (case map_of m k of None \<Rightarrow> None | Some v \<Rightarrow> if P (k, v) then Some v else None)"
  by (induction m) (auto simp: map_of_eq_None_iff rev_image_eqI split: option.splits)

lemma set_mapDel: "set (mapDel k m) = {p \<in> set m. fst p \<noteq> k}"
  by (auto simp: mapDel_def AList.delete_eq)

lemma set_mapPut_subset: "set (mapPut k v m) \<subseteq> insert (k, v) (set m)"
  unfolding mapPut_def by (induction m) auto

lemma set_mapPut: "wfMap m \<Longrightarrow> set (mapPut k v m) = insert (k, v) {p \<in> set m. fst p \<noteq> k}"
  unfolding mapPut_def by (induction m) (auto simp: rev_image_eqI)

section \<open>Loops over slices\<close>

text \<open>
  A loop that acts on the first element satisfying a condition and returns is a
  case distinction on \<^const>\<open>List.extract\<close>: \<open>Some (us, x, vs)\<close> for the elements
  before the match, the match and the elements after it, \<open>None\<close> when the loop runs
  to the end.
\<close>

lemma extract_None: "List.extract P xs = None \<longleftrightarrow> (\<forall>x\<in>set xs. \<not> P x)"
  by (auto simp: extract_None_iff)

lemma extract_SomeD:
  assumes "List.extract P xs = Some (us, x, vs)"
  shows "xs = us @ x # vs" "P x" "\<forall>u\<in>set us. \<not> P u"
  using assms by (auto simp: extract_Some_iff)

lemma extract_first:
  "P x \<Longrightarrow> \<forall>u\<in>set us. \<not> P u \<Longrightarrow> List.extract P (us @ x # vs) = Some (us, x, vs)"
  by (auto simp: extract_Some_iff)

text \<open>
  A loop that remembers the index of the first eligible element with the least
  key (\<open>best := -1; for i := range xs \<dots>\<close>).
\<close>

definition bestStep :: "('a \<Rightarrow> bool) \<Rightarrow> ('a \<Rightarrow> int) \<Rightarrow> 'a list \<Rightarrow> nat option \<Rightarrow> nat \<Rightarrow> nat option" where
  "bestStep ok key xs best i =
     (if ok (xs ! i) \<and> (case best of None \<Rightarrow> True | Some b \<Rightarrow> key (xs ! i) < key (xs ! b))
      then Some i else best)"

definition selectBest :: "('a \<Rightarrow> bool) \<Rightarrow> ('a \<Rightarrow> int) \<Rightarrow> 'a list \<Rightarrow> nat option" where
  "selectBest ok key xs = foldl (bestStep ok key xs) None [0..<length xs]"

lemma selectBest_upto:
  assumes "n \<le> length xs"
  shows "case foldl (bestStep ok key xs) None [0..<n] of
      None \<Rightarrow> \<forall>j<n. \<not> ok (xs ! j)
    | Some b \<Rightarrow> b < n \<and> ok (xs ! b) \<and>
        (\<forall>j<n. ok (xs ! j) \<longrightarrow> key (xs ! b) \<le> key (xs ! j) \<and> (j < b \<longrightarrow> key (xs ! b) < key (xs ! j)))"
  using assms
proof (induction n)
  case 0
  then show ?case by simp
next
  case (Suc n)
  then show ?case
    by (auto simp: bestStep_def less_Suc_eq split: option.splits)
qed

lemma selectBest_None_iff: "selectBest ok key xs = None \<longleftrightarrow> (\<forall>x\<in>set xs. \<not> ok x)"
proof (cases "selectBest ok key xs")
  case None
  with selectBest_upto [of "length xs" xs ok key] show ?thesis
    by (simp add: selectBest_def all_set_conv_all_nth)
next
  case (Some b)
  with selectBest_upto [of "length xs" xs ok key] have "b < length xs" "ok (xs ! b)"
    by (simp_all add: selectBest_def)
  then have "xs ! b \<in> set xs \<and> ok (xs ! b)" by simp
  with Some show ?thesis by auto
qed

lemma selectBest_SomeD:
  assumes "selectBest ok key xs = Some b"
  shows "b < length xs" "ok (xs ! b)"
    "\<And>j. j < length xs \<Longrightarrow> ok (xs ! j) \<Longrightarrow> key (xs ! b) \<le> key (xs ! j)"
    "\<And>j. j < b \<Longrightarrow> ok (xs ! j) \<Longrightarrow> key (xs ! b) < key (xs ! j)"
  using selectBest_upto [of "length xs" xs ok key] assms
  by (auto simp: selectBest_def)

section \<open>Lists\<close>

lemma filter_list_update:
  assumes "i < length xs"
  shows "filter P (xs[i := y]) = filter P (take i xs) @ (if P y then [y] else []) @ filter P (drop (Suc i) xs)"
  using assms by (simp add: upd_conv_take_nth_drop)

lemma filter_nth_split:
  assumes "i < length xs"
  shows "filter P xs = filter P (take i xs) @ (if P (xs ! i) then [xs ! i] else []) @ filter P (drop (Suc i) xs)"
  by (subst id_take_nth_drop [OF assms]) simp

end
