(* ===== verification/RuntimeTypes.thy ===== *)
theory RuntimeTypes
  imports GoPrelude
begin

text \<open>
  The data model of the session runtime: the view types of
  \<^verbatim>\<open>internal/agent/view/uimessage.go\<close> that a live run carries, and the types,
  constants, sentinel errors and small value methods of
  \<^verbatim>\<open>internal/agent/runtime/session/types.go\<close>. Every struct is a record with the
  source's fields in the source's order, the field names carrying a prefix that
  names the struct; a pointer is an \<open>option\<close> and a slice a list (a nil and an
  empty slice are the same list). An \<open>any\<close> that travels as JSON is a \<open>json\<close>.
\<close>

section \<open>View types\<close>

datatype json =
    JNull
  | JBool bool
  | JNumber rat
  | JString string
  | JArray "json list"
  | JObject "(string \<times> json) list"

datatype UIMessageType =
    UIMessageText | UIMessageReasoning | UIMessageTool | UIMessageAttachments
  | UIMessageError | UIMessageCommand | UIMessageStatus | UIMessageNotice

record UIAttachment =
  ua_ID :: string
  ua_Type :: string
  ua_Path :: string
  ua_URL :: string
  ua_Base64 :: string
  ua_Name :: string
  ua_ContentHash :: string
  ua_BotID :: string
  ua_Mime :: string
  ua_Size :: int
  ua_StorageKey :: string
  ua_Metadata :: "(string \<times> json) list"

record UIReplyRef =
  ur_MessageID :: string
  ur_Sender :: string
  ur_Preview :: string
  ur_Attachments :: "UIAttachment list"

record UIForwardRef =
  uf_MessageID :: string
  uf_FromUserID :: string
  uf_FromConversationID :: string
  uf_Sender :: string
  uf_Date :: int

record UIToolApprovalOption =
  uo_ID :: string
  uo_Name :: string
  uo_Kind :: string

record UIToolApproval =
  up_ApprovalID :: string
  up_ShortID :: int
  up_Status :: string
  up_DecisionReason :: string
  up_CanApprove :: bool
  up_Options :: "UIToolApprovalOption list"
  up_SelectedOptionID :: string

text \<open>The questions and answers of a user-input block are carried as JSON.\<close>

record UIUserInput =
  ui_UserInputID :: string
  ui_ShortID :: int
  ui_Status :: string
  ui_Questions :: "json list"
  ui_Answers :: "json list"
  ui_CanRespond :: bool

record UIBackgroundTask =
  ub_TaskID :: string
  ub_Status :: string
  ub_Command :: string
  ub_AgentID :: string
  ub_AgentSessionID :: string
  ub_OutputFile :: string
  ub_ExitCode :: int
  ub_Duration :: string
  ub_OutputTail :: string
  ub_Stream :: string
  ub_Chunk :: string
  ub_Stalled :: bool

record UIExecutionLocation =
  ux_Kind :: string
  ux_Name :: string

record UIMessage =
  um_ID :: int
  um_Type :: UIMessageType
  um_Content :: string
  um_Name :: string
  um_Input :: "json option"
  um_Output :: "json option"
  um_ToolCallID :: string
  um_Running :: "bool option"
  um_Progress :: "json list"
  um_ElapsedTimeSeconds :: "rat option"
  um_Approval :: "UIToolApproval option"
  um_ExecutionLocation :: "UIExecutionLocation option"
  um_Diff :: string
  um_UserInput :: "UIUserInput option"
  um_Attachments :: "UIAttachment list"
  um_Background :: "UIBackgroundTask option"
  um_ReasoningTiming :: "int option"
  um_Code :: string
  um_Args :: "(string \<times> string) list"

record UITurn =
  ut_RuntimeForkable :: bool
  ut_TurnID :: string
  ut_TurnPosition :: "int option"
  ut_Role :: string
  ut_Kind :: string
  ut_Messages :: "UIMessage list"
  ut_Text :: string
  ut_UserMessageKind :: string
  ut_SkillActivation :: "json option"
  ut_Attachments :: "UIAttachment list"
  ut_Reply :: "UIReplyRef option"
  ut_Forward :: "UIForwardRef option"
  ut_BackgroundTask :: "UIBackgroundTask option"
  ut_Timestamp :: gotime
  ut_Platform :: string
  ut_SenderDisplayName :: string
  ut_SenderAvatarURL :: string
  ut_SenderUserID :: string
  ut_ExternalMessageID :: string
  ut_ID :: string

section \<open>Constants and errors\<close>

definition RunStatusRunning :: string where "RunStatusRunning = ''running''"
definition RunStatusAdmitting :: string where "RunStatusAdmitting = ''admitting''"
definition RunStatusWaitingDecision :: string where "RunStatusWaitingDecision = ''waiting_decision''"
definition RunStatusAborting :: string where "RunStatusAborting = ''aborting''"
definition RunStatusFinishing :: string where "RunStatusFinishing = ''finishing''"
definition RunStatusCompleted :: string where "RunStatusCompleted = ''completed''"
definition RunStatusAborted :: string where "RunStatusAborted = ''aborted''"
definition RunStatusErrored :: string where "RunStatusErrored = ''errored''"
definition RunStatusLost :: string where "RunStatusLost = ''lost''"
definition RunOperationRetry :: string where "RunOperationRetry = ''retry''"
definition RunOperationEdit :: string where "RunOperationEdit = ''edit''"
definition ResetScopeSession :: string where "ResetScopeSession = ''session''"
definition ResetScopeBot :: string where "ResetScopeBot = ''bot''"

lemmas run_status_defs =
  RunStatusRunning_def RunStatusAdmitting_def RunStatusWaitingDecision_def RunStatusAborting_def
  RunStatusFinishing_def RunStatusCompleted_def RunStatusAborted_def RunStatusErrored_def
  RunStatusLost_def

datatype RuntimeEventType =
    EventRuntimeSnapshot | EventRuntimeDelta | EventRuntimeDropped | EventDecisionOutput

text \<open>
  Sentinel errors by name; \<open>ErrorsNew\<close> is an error made at the place that
  returns it, \<open>ErrorfQ\<close> one made from a format with one quoted argument, and
  \<open>ContextErr\<close> the error of a cancelled or expired context.
\<close>

datatype GoError =
    ErrQueueSteerUnsupported
  | ErrQueueNoActiveRun
  | ErrQueueInvalidReference
  | ErrQueueNotPending
  | ErrQueueInvocationConflict
  | ErrQueueCapacityExceeded
  | ErrLiveQueueUnavailable
  | ErrRunOwnershipLost
  | ErrHistoryResetInProgress
  | ErrDecisionOutputSequenceGap
  | ErrorsNew string
  | ErrorfQ string string
  | ContextErr string

text \<open>\<open>contextError(ctx)\<close>: the error the context carries at that moment, if any.\<close>

type_synonym ctx = "GoError option"

section \<open>Keys, references and handles\<close>

record Key =
  k_BotID :: string
  k_SessionID :: string

definition Key_String :: "Key \<Rightarrow> string" where
  "Key_String k = TrimSpace (k_BotID k) @ '':'' @ TrimSpace (k_SessionID k)"

record RunRef =
  rr_BotID :: string
  rr_SessionID :: string
  rr_RunID :: string
  rr_OwnerID :: string
  rr_Generation :: string
  rr_FencingToken :: int

definition RunRef_identityMatches :: "RunRef \<Rightarrow> RunRef \<Rightarrow> bool" where
  "RunRef_identityMatches r other \<longleftrightarrow>
     TrimSpace (rr_BotID r) = TrimSpace (rr_BotID other) \<and>
     TrimSpace (rr_SessionID r) = TrimSpace (rr_SessionID other) \<and>
     TrimSpace (rr_RunID r) = TrimSpace (rr_RunID other) \<and>
     TrimSpace (rr_OwnerID r) = TrimSpace (rr_OwnerID other) \<and>
     TrimSpace (rr_Generation r) = TrimSpace (rr_Generation other)"

record RunHandle =
  rh_BotID :: string
  rh_SessionID :: string
  rh_RunID :: string
  rh_OwnerID :: string
  rh_TurnID :: string
  rh_Generation :: string
  rh_FencingToken :: int

definition RunHandle_normalized :: "RunHandle \<Rightarrow> RunHandle" where
  "RunHandle_normalized h = h\<lparr>
     rh_BotID := TrimSpace (rh_BotID h),
     rh_SessionID := TrimSpace (rh_SessionID h),
     rh_RunID := TrimSpace (rh_RunID h),
     rh_OwnerID := TrimSpace (rh_OwnerID h),
     rh_TurnID := TrimSpace (rh_TurnID h),
     rh_Generation := TrimSpace (rh_Generation h)\<rparr>"

definition RunHandle_valid :: "RunHandle \<Rightarrow> bool" where
  "RunHandle_valid h0 =
     (let h = RunHandle_normalized h0
      in rh_BotID h \<noteq> '''' \<and> rh_SessionID h \<noteq> '''' \<and> rh_RunID h \<noteq> '''' \<and> rh_Generation h \<noteq> '''')"

definition RunHandle_key :: "RunHandle \<Rightarrow> Key" where
  "RunHandle_key h0 =
     (let h = RunHandle_normalized h0 in \<lparr>k_BotID = rh_BotID h, k_SessionID = rh_SessionID h\<rparr>)"

lemma RunHandle_normalized_idem [simp]:
  "RunHandle_normalized (RunHandle_normalized h) = RunHandle_normalized h"
  by (simp add: RunHandle_normalized_def)

section \<open>History reset leases\<close>

record ResetScope =
  rs_BotID :: string
  rs_SessionID :: string

definition ResetScope_normalized :: "ResetScope \<Rightarrow> ResetScope" where
  "ResetScope_normalized s = s\<lparr>rs_BotID := TrimSpace (rs_BotID s), rs_SessionID := TrimSpace (rs_SessionID s)\<rparr>"

definition ResetScope_kind :: "ResetScope \<Rightarrow> string" where
  "ResetScope_kind s = (if TrimSpace (rs_SessionID s) = '''' then ResetScopeBot else ResetScopeSession)"

definition ResetScope_valid :: "ResetScope \<Rightarrow> bool" where
  "ResetScope_valid s \<longleftrightarrow> rs_BotID (ResetScope_normalized s) \<noteq> ''''"

record ResetLease =
  rl_Scope :: ResetScope
  rl_Token :: string
  rl_ExpiresAt :: gotime

definition ResetLease_valid :: "ResetLease \<Rightarrow> bool" where
  "ResetLease_valid l \<longleftrightarrow>
     ResetScope_valid (rl_Scope l) \<and> TrimSpace (rl_Token l) \<noteq> '''' \<and> \<not> isZeroTime (rl_ExpiresAt l)"

definition effectiveResetLease ::
    "ResetScope \<Rightarrow> ResetLease option \<Rightarrow> ResetLease list \<Rightarrow> ResetLease option" where
  "effectiveResetLease scope0 botLease sessions =
     (case botLease of
        Some l \<Rightarrow> Some l
      | None \<Rightarrow>
          (let scope = ResetScope_normalized scope0 in
           if rs_SessionID scope = '''' then
             (case sessions of [] \<Rightarrow> None | l # _ \<Rightarrow> Some l)
           else List.find (\<lambda>l. TrimSpace (rs_SessionID (rl_Scope l)) = rs_SessionID scope) sessions))"

lemma ResetScope_normalized_idem [simp]:
  "ResetScope_normalized (ResetScope_normalized s) = ResetScope_normalized s"
  by (simp add: ResetScope_normalized_def)

section \<open>The live view of a session\<close>

record RunRetryView =
  rv_Attempt :: int
  rv_MaxAttempt :: int
  rv_DelayMs :: int
  rv_Reason :: string
  rv_RetryAt :: gotime

record SteerTurnView =
  sv_ItemID :: string
  sv_Status :: string
  sv_Text :: string
  sv_TurnID :: string
  sv_TurnPosition :: int
  sv_AfterMessageID :: int
  sv_Timestamp :: gotime

record RunOperationView =
  ro_Kind :: string
  ro_ReplaceFromMessageID :: string
  ro_ReplacementUserTurn :: "UITurn option"

record RunAdmissionView =
  ra_ResumeTurn :: "UITurn option"
  ra_RequestUserTurn :: "UITurn option"
  ra_Operation :: "RunOperationView option"

record CurrentRunView =
  cr_ResumeTurn :: "UITurn option"
  cr_ConfigurationOnly :: bool
  cr_RunID :: string
  cr_TurnID :: string
  cr_TurnPosition :: int
  cr_InvocationID :: string
  cr_Generation :: string
  cr_Status :: string
  cr_OwnerID :: string
  cr_OwnerLeaseExpiresAt :: "gotime option"
  cr_StartedAt :: gotime
  cr_UpdatedAt :: gotime
  cr_Messages :: "UIMessage list"
  cr_UserTurns :: "UITurn list"
  cr_SteerSupported :: bool
  cr_FencingToken :: int
  cr_SteerTurns :: "SteerTurnView list"
  cr_ErrorCode :: string
  cr_ProposedTerminalStatus :: string
  cr_FinishProposedAt :: "gotime option"
  cr_Operation :: "RunOperationView option"
  cr_Retry :: "RunRetryView option"

record Snapshot =
  sn_BotID :: string
  sn_SessionID :: string
  sn_Epoch :: string
  sn_Seq :: int
  sn_CurrentRunView :: "CurrentRunView option"
  sn_UpdatedAt :: gotime

definition zeroSnapshot :: Snapshot where
  "zeroSnapshot = \<lparr>sn_BotID = '''', sn_SessionID = '''', sn_Epoch = '''', sn_Seq = 0,
     sn_CurrentRunView = None, sn_UpdatedAt = 0\<rparr>"

definition EmptySnapshot :: "string \<Rightarrow> string \<Rightarrow> Snapshot" where
  "EmptySnapshot botID sessionID =
     zeroSnapshot\<lparr>sn_BotID := TrimSpace botID, sn_SessionID := TrimSpace sessionID\<rparr>"

record Cursor =
  cu_Epoch :: string
  cu_Seq :: int

definition Snapshot_cursor :: "Snapshot \<Rightarrow> Cursor" where
  "Snapshot_cursor s = \<lparr>cu_Epoch = TrimSpace (sn_Epoch s), cu_Seq = sn_Seq s\<rparr>"

section \<open>Events and deltas\<close>

record CurrentRunPatch =
  cp_RunID :: string
  cp_Status :: "string option"
  cp_ErrorCode :: "string option"
  cp_UpdatedAt :: "gotime option"
  cp_OwnerLeaseExpiresAt :: "gotime option"
  cp_Retry :: "RunRetryView option"
  cp_ClearRetry :: bool

record RuntimeMessageAppend =
  ma_ID :: int
  ma_Type :: UIMessageType
  ma_Content :: string

record RuntimeProgressAppend =
  pa_ID :: int
  pa_Progress :: "json option"
  pa_Input :: "json option"

record RuntimeDelta =
  rd_CurrentRunView :: "CurrentRunView option"
  rd_Run :: "CurrentRunPatch option"
  rd_UserTurnUpserts :: "UITurn list"
  rd_SteerTurnUpserts :: "SteerTurnView list"
  rd_SteerTurnRemovals :: "string list"
  rd_MessageAppends :: "RuntimeMessageAppend list"
  rd_ProgressAppends :: "RuntimeProgressAppend list"
  rd_MessageUpserts :: "UIMessage list"
  rd_ResetMessages :: bool

definition emptyDelta :: RuntimeDelta where
  "emptyDelta = \<lparr>rd_CurrentRunView = None, rd_Run = None, rd_UserTurnUpserts = [],
     rd_SteerTurnUpserts = [], rd_SteerTurnRemovals = [], rd_MessageAppends = [],
     rd_ProgressAppends = [], rd_MessageUpserts = [], rd_ResetMessages = False\<rparr>"

record Event =
  ev_Type :: RuntimeEventType
  ev_BotID :: string
  ev_SessionID :: string
  ev_Epoch :: string
  ev_RunID :: string
  ev_Seq :: int
  ev_UpdatedAt :: "gotime option"
  ev_Snapshot :: "Snapshot option"
  ev_Delta :: "RuntimeDelta option"
  ev_Message :: string

section \<open>Decision targets\<close>

record DecisionTarget =
  dt_Type :: string
  dt_ID :: string
  dt_BotID :: string
  dt_SessionID :: string
  dt_RunID :: string
  dt_TurnID :: string
  dt_Status :: string
  dt_FencingToken :: int
  dt_ControlID :: string
  dt_PayloadHash :: string
  dt_SessionRuntime :: string
  dt_InlineDecision :: bool

definition DecisionTarget_normalized :: "DecisionTarget \<Rightarrow> DecisionTarget" where
  "DecisionTarget_normalized t = t\<lparr>
     dt_Type := TrimSpace (dt_Type t),
     dt_ID := TrimSpace (dt_ID t),
     dt_BotID := TrimSpace (dt_BotID t),
     dt_SessionID := TrimSpace (dt_SessionID t),
     dt_RunID := TrimSpace (dt_RunID t),
     dt_TurnID := TrimSpace (dt_TurnID t),
     dt_Status := TrimSpace (dt_Status t),
     dt_ControlID := TrimSpace (dt_ControlID t),
     dt_PayloadHash := TrimSpace (dt_PayloadHash t)\<rparr>"

definition DecisionTarget_runtimeOwned :: "DecisionTarget \<Rightarrow> bool" where
  "DecisionTarget_runtimeOwned t0 =
     (let t = DecisionTarget_normalized t0
      in dt_ID t \<noteq> '''' \<and> dt_BotID t \<noteq> '''' \<and> dt_SessionID t \<noteq> '''' \<and>
         dt_RunID t \<noteq> '''' \<and> dt_TurnID t \<noteq> '''' \<and> dt_FencingToken t > 0)"

end
