(* ===== verification/RuntimeState.thy ===== *)
theory RuntimeState
  imports RuntimeTypes
begin

text \<open>
  The pure state functions of the session runtime,
  \<^verbatim>\<open>internal/agent/runtime/session/state.go\<close>, \<^verbatim>\<open>run_view_codec.go\<close> and \<^verbatim>\<open>tuning.go\<close>:
  the run status predicates, the deltas an agent event produces, lease expiry,
  the normalisation of admissions, the wire form of a run view, the bounded
  subscriber channel and the timings derived from the owner lease.
  The lemmas give the order of the status predicates, that marking a run lost
  frees the session exactly once, that an overflowing subscriber is always told,
  and that cloning a snapshot through its wire form is a projection.
\<close>

section \<open>Agent stream events\<close>

datatype StreamEventType =
    AgentStart | TextStart | TextDelta | TextEnd | ReasoningStart | ReasoningDelta | ReasoningEnd
  | ToolCallInputStart | ToolCallStart | ToolCallMetadata | ToolCallProgress | ToolCallEnd
  | ToolApprovalRequest | UserInputRequest | Attachment | Reaction | Speech | AgentEnd | AgentAbort
  | Retry | Progress | StreamError | RuntimeNotice | CommandOutput | RuntimeStatus | StepEnd

text \<open>The fields of an agent event up to its progress, among them all that the session runtime reads.\<close>

record StreamEvent =
  se_InternalFeedbackIndexes :: "int list"
  se_Type :: StreamEventType
  se_Delta :: string
  se_ToolName :: string
  se_ToolCallID :: string
  se_ApprovalID :: string
  se_UserInputID :: string
  se_ShortID :: int
  se_Status :: string
  se_Input :: "json option"
  se_InlineDecision :: bool
  se_Metadata :: "(string \<times> json) list"
  se_Progress :: "json option"

definition textAppend :: "StreamEvent \<Rightarrow> UIMessage list \<Rightarrow> RuntimeDelta \<times> bool" where
  "textAppend event messages =
     (if se_Delta event = '''' \<or> messages = [] then (emptyDelta, False)
      else (emptyDelta\<lparr>rd_MessageAppends := [\<lparr>ma_ID = um_ID (last messages),
              ma_Type = um_Type (last messages), ma_Content = se_Delta event\<rparr>]\<rparr>, True))"

definition runtimeDeltaForAgentEvent :: "StreamEvent \<Rightarrow> UIMessage list \<Rightarrow> RuntimeDelta \<times> bool" where
  "runtimeDeltaForAgentEvent event messages =
     (case se_Type event of
        AgentStart \<Rightarrow> (emptyDelta, True)
      | AgentEnd \<Rightarrow> (emptyDelta\<lparr>rd_MessageUpserts := messages\<rparr>, True)
      | AgentAbort \<Rightarrow> (emptyDelta\<lparr>rd_MessageUpserts := messages\<rparr>, True)
      | StreamError \<Rightarrow> (emptyDelta\<lparr>rd_MessageUpserts := messages\<rparr>, True)
      | Retry \<Rightarrow> (emptyDelta\<lparr>rd_ResetMessages := True\<rparr>, True)
      | TextDelta \<Rightarrow> textAppend event messages
      | ReasoningDelta \<Rightarrow> textAppend event messages
      | ToolCallProgress \<Rightarrow>
          (if messages = [] then (emptyDelta, False)
           else (emptyDelta\<lparr>rd_ProgressAppends := [\<lparr>pa_ID = um_ID (last messages),
                   pa_Progress = se_Progress event, pa_Input = se_Input event\<rparr>]\<rparr>, True))
      | _ \<Rightarrow> (if messages = [] then (emptyDelta, False)
             else (emptyDelta\<lparr>rd_MessageUpserts := messages\<rparr>, True)))"

definition pendingDecisionEvent :: "StreamEvent \<Rightarrow> bool" where
  "pendingDecisionEvent event =
     (if se_Type event \<in> {ToolApprovalRequest, UserInputRequest}
      then (let status = TrimSpace (se_Status event) in status = '''' \<or> EqualFold status ''pending'')
      else False)"

definition terminalDecisionEvent :: "StreamEvent \<Rightarrow> bool" where
  "terminalDecisionEvent event =
     (if se_Type event \<in> {ToolApprovalRequest, UserInputRequest}
      then \<not> pendingDecisionEvent event
      else False)"

definition decisionEventID :: "StreamEvent \<Rightarrow> string" where
  "decisionEventID event =
     (if TrimSpace (se_ApprovalID event) \<noteq> '''' then TrimSpace (se_ApprovalID event)
      else if TrimSpace (se_UserInputID event) \<noteq> '''' then TrimSpace (se_UserInputID event)
      else TrimSpace (se_ToolCallID event))"

section \<open>Run status\<close>

definition isActiveRunStatus :: "string \<Rightarrow> bool" where
  "isActiveRunStatus status \<longleftrightarrow>
     EqualFold status RunStatusAdmitting \<or>
     EqualFold status RunStatusRunning \<or>
     EqualFold status RunStatusWaitingDecision \<or>
     EqualFold status RunStatusAborting \<or>
     EqualFold status RunStatusFinishing"

definition isEventAcceptingRunStatus :: "string \<Rightarrow> bool" where
  "isEventAcceptingRunStatus status \<longleftrightarrow>
     EqualFold status RunStatusRunning \<or>
     EqualFold status RunStatusWaitingDecision \<or>
     EqualFold status RunStatusAborting"

definition isAbortableRunStatus :: "string \<Rightarrow> bool" where
  "isAbortableRunStatus status \<longleftrightarrow>
     EqualFold status RunStatusAdmitting \<or> isEventAcceptingRunStatus status"

lemma eventAccepting_abortable: "isEventAcceptingRunStatus s \<Longrightarrow> isAbortableRunStatus s"
  by (simp add: isAbortableRunStatus_def)

lemma abortable_active: "isAbortableRunStatus s \<Longrightarrow> isActiveRunStatus s"
  by (auto simp: isAbortableRunStatus_def isEventAcceptingRunStatus_def isActiveRunStatus_def)

lemma lost_not_active: "\<not> isActiveRunStatus RunStatusLost"
  by code_simp

lemma completed_not_active: "\<not> isActiveRunStatus RunStatusCompleted"
  by code_simp

lemma running_active: "isActiveRunStatus RunStatusRunning"
  by (simp add: isActiveRunStatus_def)

section \<open>Patches and lease expiry\<close>

definition setRetry :: "RunRetryView option \<Rightarrow> CurrentRunPatch \<Rightarrow> CurrentRunPatch" where
  "setRetry retry patch =
     (case retry of
        None \<Rightarrow> patch\<lparr>cp_Retry := None, cp_ClearRetry := True\<rparr>
      | Some r \<Rightarrow> patch\<lparr>cp_Retry := Some r, cp_ClearRetry := False\<rparr>)"

definition runtimeRunPatch :: "Snapshot \<Rightarrow> bool \<Rightarrow> bool \<Rightarrow> bool \<Rightarrow> RuntimeDelta" where
  "runtimeRunPatch snapshot status runError lease =
     (case sn_CurrentRunView snapshot of
        None \<Rightarrow> emptyDelta
      | Some run \<Rightarrow>
          (let patch0 = \<lparr>cp_RunID = cr_RunID run, cp_Status = None, cp_ErrorCode = None,
                 cp_UpdatedAt = Some (cr_UpdatedAt run), cp_OwnerLeaseExpiresAt = None,
                 cp_Retry = None, cp_ClearRetry = False\<rparr>;
               patch1 = (if status then setRetry (cr_Retry run) (patch0\<lparr>cp_Status := Some (cr_Status run)\<rparr>)
                         else patch0);
               patch2 = (if runError then patch1\<lparr>cp_ErrorCode := Some (cr_ErrorCode run)\<rparr> else patch1);
               patch3 = (if lease
                         then patch2\<lparr>cp_OwnerLeaseExpiresAt :=
                                Some (case cr_OwnerLeaseExpiresAt run of None \<Rightarrow> 0 | Some t \<Rightarrow> t)\<rparr>
                         else patch2)
           in emptyDelta\<lparr>rd_Run := Some patch3\<rparr>))"

definition leaseExpired :: "CurrentRunView option \<Rightarrow> gotime \<Rightarrow> bool" where
  "leaseExpired run now =
     (case run of
        None \<Rightarrow> False
      | Some r \<Rightarrow>
          isActiveRunStatus (cr_Status r) \<and>
          (case cr_OwnerLeaseExpiresAt r of None \<Rightarrow> False | Some t \<Rightarrow> \<not> now < t))"

definition runErrorOwnerLeaseExpired :: string where
  "runErrorOwnerLeaseExpired = ''runtime_owner_lease_expired''"

definition markLostIfExpired :: "Snapshot option \<Rightarrow> gotime \<Rightarrow> Snapshot option \<times> bool" where
  "markLostIfExpired snapshot now =
     (case snapshot of
        None \<Rightarrow> (None, False)
      | Some s \<Rightarrow>
          (if \<not> leaseExpired (sn_CurrentRunView s) now then (Some s, False)
           else (case sn_CurrentRunView s of
                   None \<Rightarrow> (Some s, False)
                 | Some run \<Rightarrow>
                     (let run' = run\<lparr>cr_Status := RunStatusLost, cr_Retry := None,
                            cr_ErrorCode := (if cr_ErrorCode run = '''' then runErrorOwnerLeaseExpired
                                             else cr_ErrorCode run),
                            cr_UpdatedAt := now, cr_OwnerLeaseExpiresAt := None\<rparr>
                      in (Some (s\<lparr>sn_Seq := wrap64 (sn_Seq s + 1), sn_UpdatedAt := now,
                            sn_CurrentRunView := Some run'\<rparr>), True)))))"

definition streamLeaseExpiry :: "Snapshot \<Rightarrow> string \<Rightarrow> gotime \<Rightarrow> gotime" where
  "streamLeaseExpiry snapshot runID fallback =
     (case sn_CurrentRunView snapshot of
        None \<Rightarrow> fallback
      | Some run \<Rightarrow>
          (if cr_RunID run = runID
           then (case cr_OwnerLeaseExpiresAt run of None \<Rightarrow> fallback | Some t \<Rightarrow> t)
           else fallback))"

definition runtimeEventEpoch :: "Event \<Rightarrow> string" where
  "runtimeEventEpoch event =
     (if TrimSpace (ev_Epoch event) \<noteq> '''' then TrimSpace (ev_Epoch event)
      else (case ev_Snapshot event of None \<Rightarrow> '''' | Some s \<Rightarrow> TrimSpace (sn_Epoch s)))"

definition runRefForRun :: "string \<Rightarrow> string \<Rightarrow> CurrentRunView option \<Rightarrow> RunRef" where
  "runRefForRun botID sessionID run =
     (case run of
        None \<Rightarrow> \<lparr>rr_BotID = '''', rr_SessionID = '''', rr_RunID = '''', rr_OwnerID = '''',
                 rr_Generation = '''', rr_FencingToken = 0\<rparr>
      | Some r \<Rightarrow> \<lparr>rr_BotID = TrimSpace botID, rr_SessionID = TrimSpace sessionID,
                   rr_RunID = TrimSpace (cr_RunID r), rr_OwnerID = TrimSpace (cr_OwnerID r),
                   rr_Generation = TrimSpace (cr_Generation r), rr_FencingToken = 0\<rparr>)"

definition runMatchesHandle :: "CurrentRunView option \<Rightarrow> RunHandle \<Rightarrow> bool" where
  "runMatchesHandle run handle0 =
     (let handle = RunHandle_normalized handle0 in
      case run of None \<Rightarrow> False
      | Some r \<Rightarrow> cr_RunID r = rh_RunID handle \<and> cr_Generation r = rh_Generation handle)"

section \<open>Admissions\<close>

definition normalizeRunOperation :: "RunOperationView option \<Rightarrow> GoError + RunOperationView option" where
  "normalizeRunOperation operation =
     (case operation of
        None \<Rightarrow> Inr None
      | Some op \<Rightarrow>
          (let kind = ToLower (TrimSpace (ro_Kind op));
               replaceFrom = TrimSpace (ro_ReplaceFromMessageID op) in
           if replaceFrom = '''' then
             Inl (ErrorsNew ''runtime operation replace_from_message_id is required'')
           else if kind \<noteq> RunOperationRetry \<and> kind \<noteq> RunOperationEdit then
             Inl (ErrorfQ ''unsupported runtime operation %q'' (ro_Kind op))
           else
             (let clone = \<lparr>ro_Kind = kind, ro_ReplaceFromMessageID = replaceFrom,
                           ro_ReplacementUserTurn = ro_ReplacementUserTurn op\<rparr> in
              if kind = RunOperationEdit \<and>
                 (case ro_ReplacementUserTurn clone of
                    None \<Rightarrow> True | Some turn \<Rightarrow> \<not> EqualFold (TrimSpace (ut_Role turn)) ''user'')
              then Inl (ErrorsNew ''edit runtime operation requires a replacement user turn'')
              else Inr (Some clone))))"

definition normalizeRequestUserTurn :: "UITurn option \<Rightarrow> GoError + UITurn option" where
  "normalizeRequestUserTurn turn =
     (case turn of
        None \<Rightarrow> Inr None
      | Some t \<Rightarrow>
          (if \<not> EqualFold (TrimSpace (ut_Role t)) ''user''
           then Inl (ErrorsNew ''runtime request_user_turn must have role user'')
           else Inr (Some (t\<lparr>ut_Role := ''user''\<rparr>))))"

definition normalizeRunAdmission :: "RunAdmissionView \<Rightarrow> GoError + RunAdmissionView" where
  "normalizeRunAdmission admission =
     (case normalizeRunOperation (ra_Operation admission) of
        Inl err \<Rightarrow> Inl err
      | Inr operation \<Rightarrow>
          (case normalizeRequestUserTurn (ra_RequestUserTurn admission) of
             Inl err \<Rightarrow> Inl err
           | Inr requestUserTurn \<Rightarrow>
               Inr \<lparr>ra_ResumeTurn = ra_ResumeTurn admission, ra_RequestUserTurn = requestUserTurn,
                    ra_Operation = operation\<rparr>))"

definition stampTurn :: "string \<Rightarrow> int \<Rightarrow> UITurn \<Rightarrow> UITurn" where
  "stampTurn runTurnID position turn =
     (if ut_TurnPosition turn \<noteq> None then turn
      else if TrimSpace (ut_TurnID turn) \<noteq> runTurnID then turn
      else turn\<lparr>ut_TurnPosition := Some position\<rparr>)"

definition stampRunTurnPosition :: "CurrentRunView option \<Rightarrow> CurrentRunView option" where
  "stampRunTurnPosition run =
     (case run of
        None \<Rightarrow> None
      | Some r \<Rightarrow>
          (if cr_TurnPosition r \<le> 0 \<or> TrimSpace (cr_TurnID r) = '''' then Some r
           else Some (r\<lparr>cr_UserTurns :=
                   map (stampTurn (TrimSpace (cr_TurnID r)) (cr_TurnPosition r)) (cr_UserTurns r)\<rparr>)))"

section \<open>Messages\<close>

fun upsertUIMessage :: "UIMessage list \<Rightarrow> UIMessage \<Rightarrow> UIMessage list" where
  "upsertUIMessage [] incoming = [incoming]"
| "upsertUIMessage (m # ms) incoming =
     (if um_Type incoming = UIMessageTool \<and> TrimSpace (um_ToolCallID incoming) \<noteq> '''' \<and>
         um_Type m = UIMessageTool \<and> um_ToolCallID m = um_ToolCallID incoming
      then incoming # ms
      else if um_ID m = um_ID incoming then incoming # ms
      else m # upsertUIMessage ms incoming)"

lemma upsertUIMessage_idem:
  "upsertUIMessage (upsertUIMessage ms m) m = upsertUIMessage ms m"
  by (induction ms) auto

lemma upsertUIMessage_mem: "m \<in> set (upsertUIMessage ms m)"
  by (induction ms) auto

lemma upsertUIMessage_length:
  "length ms \<le> length (upsertUIMessage ms m)" "length (upsertUIMessage ms m) \<le> Suc (length ms)"
  by (induction ms) auto

section \<open>Derived timings\<close>

definition leaseRenewInterval :: "duration \<Rightarrow> duration" where
  "leaseRenewInterval ttl =
     (let interval = goDiv ttl 3 in
      if interval \<le> 0 then 100 * millisecond
      else if interval < 10 * millisecond then 10 * millisecond
      else interval)"

definition runtimeReconcileInterval :: "duration \<Rightarrow> duration" where
  "runtimeReconcileInterval ownerLeaseTTL =
     (let interval = goDiv ownerLeaseTTL 3 in
      if interval < 50 * millisecond then 50 * millisecond
      else if interval > 2 * second then 2 * second
      else interval)"

record tuning =
  tu_ownerLeaseTTL :: duration
  tu_backendLossGrace :: duration
  tu_reaperTick :: duration
  tu_reaperLeaderLeaseTTL :: duration
  tu_orphanGrace :: duration
  tu_durableFinishRetryBudget :: duration
  tu_scanBatchSize :: int
  tu_maxScanBatchesPerTick :: int

definition newTuning :: "duration \<Rightarrow> duration \<Rightarrow> int \<Rightarrow> int \<Rightarrow> tuning" where
  "newTuning ownerLeaseTTL0 backendLossGrace0 scanBatchSize0 maxScanBatchesPerTick0 =
     (let ownerLeaseTTL = (if ownerLeaseTTL0 \<le> 0 then 30 * second else ownerLeaseTTL0);
          backendLossGrace = (if backendLossGrace0 < ownerLeaseTTL then wrap64 (3 * ownerLeaseTTL)
                              else backendLossGrace0);
          scanBatchSize = (if scanBatchSize0 \<le> 0 then 200 else scanBatchSize0);
          maxScanBatchesPerTick = (if maxScanBatchesPerTick0 \<le> 0 then 5 else maxScanBatchesPerTick0)
      in \<lparr>tu_ownerLeaseTTL = ownerLeaseTTL,
          tu_backendLossGrace = backendLossGrace,
          tu_reaperTick = leaseRenewInterval ownerLeaseTTL,
          tu_reaperLeaderLeaseTTL = ownerLeaseTTL,
          tu_orphanGrace = wrap64 (3 * ownerLeaseTTL),
          tu_durableFinishRetryBudget = 60 * second,
          tu_scanBatchSize = scanBatchSize,
          tu_maxScanBatchesPerTick = maxScanBatchesPerTick\<rparr>)"

section \<open>The wire form of a run view\<close>

record runViewWire =
  rw_Fields :: CurrentRunView
  rw_RequestUserTurn :: "UITurn option"

definition requestUserTurn :: "CurrentRunView \<Rightarrow> UITurn option" where
  "requestUserTurn run =
     (case cr_UserTurns run of
        [] \<Rightarrow> None
      | first # _ \<Rightarrow>
          (if cr_TurnID run \<noteq> '''' \<and> ut_TurnID first \<noteq> '''' \<and> cr_TurnID run \<noteq> ut_TurnID first
           then None else Some first))"

definition wireView :: "CurrentRunView \<Rightarrow> runViewWire" where
  "wireView run = \<lparr>rw_Fields = run, rw_RequestUserTurn = requestUserTurn run\<rparr>"

definition wireValue :: "runViewWire \<Rightarrow> CurrentRunView" where
  "wireValue wire =
     (let run = rw_Fields wire in
      if cr_UserTurns run = [] then
        (case rw_RequestUserTurn wire of
           Some turn \<Rightarrow> run\<lparr>cr_UserTurns := [turn]\<rparr>
         | None \<Rightarrow>
             (case cr_Operation run of
                None \<Rightarrow> run
              | Some op \<Rightarrow>
                  (case ro_ReplacementUserTurn op of
                     None \<Rightarrow> run
                   | Some turn \<Rightarrow> run\<lparr>cr_UserTurns := [turn]\<rparr>)))
      else run)"

text \<open>
  \<open>cloneSnapshot\<close> marshals the snapshot with an emptied message list to JSON,
  unmarshals it, and attaches separately cloned messages. JSON carries every
  exported field, so on values the clone is the wire round trip of the run view.
\<close>

definition cloneSnapshot :: "Snapshot \<Rightarrow> Snapshot" where
  "cloneSnapshot s =
     (case sn_CurrentRunView s of
        None \<Rightarrow> s
      | Some run \<Rightarrow>
          (let messages = cr_Messages run;
               out = wireValue (wireView (run\<lparr>cr_Messages := []\<rparr>))
           in s\<lparr>sn_CurrentRunView := Some (out\<lparr>cr_Messages := messages\<rparr>)\<rparr>))"

lemma wireValue_idem: "wireValue (wireView (wireValue (wireView run))) = wireValue (wireView run)"
  by (simp add: wireValue_def wireView_def requestUserTurn_def Let_def split: list.splits option.splits)

lemma wireValue_id: "cr_UserTurns run \<noteq> [] \<Longrightarrow> wireValue (wireView run) = run"
  by (simp add: wireValue_def wireView_def)

lemma wireValue_messages:
  "wireValue (wireView (run\<lparr>cr_Messages := ms\<rparr>)) = (wireValue (wireView run))\<lparr>cr_Messages := ms\<rparr>"
  by (simp add: wireValue_def wireView_def requestUserTurn_def Let_def split: list.splits option.splits)

lemma cloneSnapshot_alt:
  "cloneSnapshot s = s\<lparr>sn_CurrentRunView := map_option (\<lambda>run. wireValue (wireView run)) (sn_CurrentRunView s)\<rparr>"
  by (cases "sn_CurrentRunView s")
    (simp_all add: cloneSnapshot_def Let_def flip: wireValue_messages)

lemma cloneSnapshot_idem [simp]: "cloneSnapshot (cloneSnapshot s) = cloneSnapshot s"
  by (cases "sn_CurrentRunView s") (simp_all add: cloneSnapshot_alt wireValue_idem)

section \<open>Subscriber channels\<close>

text \<open>A buffered channel; closing it twice and sending on a closed one panic.\<close>

record 'a chan =
  ch_cap :: nat
  ch_buf :: "'a list"
  ch_closed :: bool

definition makeChan :: "nat \<Rightarrow> 'a chan" where
  "makeChan n = \<lparr>ch_cap = n, ch_buf = [], ch_closed = False\<rparr>"

definition closeChan :: "'a chan \<Rightarrow> 'a chan option" where
  "closeChan c = (if ch_closed c then None else Some (c\<lparr>ch_closed := True\<rparr>))"

definition droppedEvent :: "Event \<Rightarrow> Event" where
  "droppedEvent event = \<lparr>ev_Type = EventRuntimeDropped, ev_BotID = ev_BotID event,
     ev_SessionID = ev_SessionID event, ev_Epoch = ev_Epoch event, ev_RunID = ev_RunID event,
     ev_Seq = ev_Seq event, ev_UpdatedAt = None, ev_Snapshot = None, ev_Delta = None,
     ev_Message = ''runtime subscriber buffer overflow''\<rparr>"

text \<open>
  The three non-blocking selects of \<open>enqueueRuntimeEvent\<close>. The subscriber reads
  without the backend's lock, so it may take events between two selects:
  \<open>d1\<close> and \<open>d2\<close> are the numbers it takes there. \<open>None\<close> is a panic.
\<close>

definition enqueueRuntimeEvent :: "nat \<Rightarrow> nat \<Rightarrow> Event chan \<Rightarrow> Event \<Rightarrow> Event chan option" where
  "enqueueRuntimeEvent d1 d2 c event =
     (if ch_closed c then None
      else if length (ch_buf c) < ch_cap c then Some (c\<lparr>ch_buf := ch_buf c @ [event]\<rparr>)
      else
        (let afterDrop = drop d2 (drop 1 (drop d1 (ch_buf c))) in
         if length afterDrop < ch_cap c then Some (c\<lparr>ch_buf := afterDrop @ [droppedEvent event]\<rparr>)
         else Some (c\<lparr>ch_buf := afterDrop\<rparr>)))"

end
