(* ===== verification/QueueOps.thy ===== *)
theory QueueOps
  imports RuntimeState "HOL-Library.Product_Lexorder" "HOL-Library.Multiset" "HOL-Library.Sublist"
begin

text \<open>
  The two generic algorithms of \<^verbatim>\<open>internal/agent/runtime/session/live_queue.go\<close>,
  polymorphic in the item type as in the source: \<open>compactQueueItems\<close>, which
  bounds the terminal items a queue retains, and \<open>reorderQueuePositions\<close>, which
  renumbers the pending items after a move. Compaction keeps every live item and
  the newest terminal ones in their order; a move is the list operation
  ``take the item out, put it back before the other one''.
\<close>

datatype QueueStatus =
    QueueAccepted | QueueClaimed | QueueApplied | QueueRejected | QueueExpired | QueueCanceled

definition QueueStatus_terminal :: "QueueStatus \<Rightarrow> bool" where
  "QueueStatus_terminal s \<longleftrightarrow> s \<in> {QueueApplied, QueueRejected, QueueExpired, QueueCanceled}"

lemma QueueStatus_terminal_simps [simp]:
  "\<not> QueueStatus_terminal QueueAccepted" "\<not> QueueStatus_terminal QueueClaimed"
  "QueueStatus_terminal QueueApplied" "QueueStatus_terminal QueueRejected"
  "QueueStatus_terminal QueueExpired" "QueueStatus_terminal QueueCanceled"
  by (simp_all add: QueueStatus_terminal_def)

definition MaxPendingQueueItems :: nat where "MaxPendingQueueItems = 64"
definition queueTerminalRetention :: nat where "queueTerminalRetention = 64"
definition terminalClaimRetention :: nat where "terminalClaimRetention = 4 * queueTerminalRetention"

section \<open>Compaction\<close>

definition terminalItem :: "('a \<Rightarrow> QueueStatus \<times> gotime \<times> int) \<Rightarrow> 'a \<Rightarrow> bool" where
  "terminalItem describe item = QueueStatus_terminal (fst (describe item))"

text \<open>The terminal items as \<open>(index, createdAt, position)\<close>, in slice order.\<close>

definition compactCandidates ::
    "('a \<Rightarrow> QueueStatus \<times> gotime \<times> int) \<Rightarrow> 'a list \<Rightarrow> (nat \<times> gotime \<times> int) list" where
  "compactCandidates describe items =
     map (\<lambda>(i, item). (i, snd (describe item)))
       (filter (\<lambda>(i, item). terminalItem describe item) (enumerate 0 items))"

definition compactQueueItems ::
    "('a \<Rightarrow> QueueStatus \<times> gotime \<times> int) \<Rightarrow> 'a list \<Rightarrow> 'a list" where
  "compactQueueItems describe items =
     (let terminal = length (filter (terminalItem describe) items) in
      if terminal \<le> queueTerminalRetention then items
      else
        (let candidates = sort_key snd (compactCandidates describe items);
             dropped = map fst (take (terminal - queueTerminalRetention) candidates)
         in map snd (filter (\<lambda>(i, item). i \<notin> set dropped) (enumerate 0 items))))"

section \<open>Reordering\<close>

text \<open>\<open>index := -1; for i := range xs { if p(xs[i]) { index = i } }\<close>\<close>

definition lastIndex :: "('a \<Rightarrow> bool) \<Rightarrow> 'a list \<Rightarrow> nat option" where
  "lastIndex p xs = foldl (\<lambda>acc (i, x). if p x then Some i else acc) None (enumerate 0 xs)"

definition pendingRefs :: "('a \<Rightarrow> QueueStatus) \<Rightarrow> ('a \<Rightarrow> int) \<Rightarrow> 'a list \<Rightarrow> nat list" where
  "pendingRefs status position items =
     sort_key (\<lambda>i. position (items ! i))
       (filter (\<lambda>i. status (items ! i) = QueueAccepted) [0..<length items])"

text \<open>\<open>*ref.position = int64(i + 1)\<close> for the references in their new order.\<close>

fun assignPositions :: "(int \<Rightarrow> 'a \<Rightarrow> 'a) \<Rightarrow> int \<Rightarrow> nat list \<Rightarrow> 'a list \<Rightarrow> 'a list" where
  "assignPositions setPosition n [] items = items"
| "assignPositions setPosition n (r # refs) items =
     assignPositions setPosition (n + 1) refs (items[r := setPosition n (items ! r)])"

definition reorderQueuePositions ::
    "('a \<Rightarrow> string) \<Rightarrow> ('a \<Rightarrow> QueueStatus) \<Rightarrow> ('a \<Rightarrow> int) \<Rightarrow> (int \<Rightarrow> 'a \<Rightarrow> 'a) \<Rightarrow>
     'a list \<Rightarrow> string \<Rightarrow> string \<Rightarrow> GoError + 'a list" where
  "reorderQueuePositions itemID status position setPosition items item before =
     (if item = '''' \<or> item = before then Inl ErrQueueInvalidReference
      else
        (let pending = pendingRefs status position items;
             itemIndex = lastIndex (\<lambda>r. itemID (items ! r) = item) pending;
             beforeIndex = lastIndex (\<lambda>r. itemID (items ! r) = before) pending
         in case itemIndex of
              None \<Rightarrow> Inl ErrQueueNotPending
            | Some k \<Rightarrow>
                (if before \<noteq> '''' \<and> beforeIndex = None then Inl ErrQueueNotPending
                 else
                   (let moving = pending ! k;
                        rest = take k pending @ drop (Suc k) pending;
                        target = (if before = '''' then length rest
                                  else (case beforeIndex of
                                          None \<Rightarrow> 0
                                        | Some b \<Rightarrow> if k < b then b - 1 else b));
                        order = take target rest @ [moving] @ drop target rest
                    in Inr (assignPositions setPosition 1 order items)))))"

section \<open>Facts about compaction\<close>

lemma filter_enumerate_nths:
  "map snd (filter (\<lambda>(i, x). i \<notin> D) (enumerate n xs)) = nths xs {i. i + n \<notin> D}"
proof (induction xs arbitrary: n)
  case Nil
  then show ?case by simp
next
  case (Cons x xs)
  have "{j. Suc j + n \<notin> D} = {j. j + Suc n \<notin> D}" by simp
  with Cons show ?case by (simp add: nths_Cons)
qed

lemma compactCandidates_set:
  "c \<in> set (compactCandidates describe items) \<longleftrightarrow>
     fst c < length items \<and> terminalItem describe (items ! fst c) \<and> snd c = snd (describe (items ! fst c))"
  by (cases c) (auto simp: compactCandidates_def in_set_enumerate_eq image_iff)

lemma compactCandidates_fst:
  "map fst (compactCandidates describe items) =
     filter (\<lambda>i. terminalItem describe (items ! i)) [0..<length items]"
proof -
  have eq: "map fst (filter (\<lambda>(i, x). p x) (enumerate n xs)) =
      filter (\<lambda>i. p (xs ! (i - n))) [n..<n + length xs]" for p :: "'b \<Rightarrow> bool" and n xs
  proof (induction xs arbitrary: n)
    case Nil
    then show ?case by simp
  next
    case (Cons x xs)
    have "filter (\<lambda>i. p (xs ! (i - Suc n))) [Suc n..<Suc n + length xs] =
        filter (\<lambda>i. p ((x # xs) ! (i - n))) [Suc n..<Suc n + length xs]"
      by (rule filter_cong) (auto simp: nth_Cons' Suc_le_eq)
    moreover have "[n..<n + length (x # xs)] = n # [Suc n..<Suc n + length xs]"
      by (subst upt_conv_Cons) (simp_all del: upt_Suc)
    ultimately show ?case using Cons [of "Suc n"] by simp
  qed
  have "map fst (compactCandidates describe items) =
      map fst (filter (\<lambda>(i, x). terminalItem describe x) (enumerate 0 items))"
    by (simp add: compactCandidates_def comp_def case_prod_unfold)
  then show ?thesis using eq [of "terminalItem describe" 0 items] by simp
qed

lemma compactCandidates_length:
  "length (compactCandidates describe items) = length (filter (terminalItem describe) items)"
proof -
  have "length (compactCandidates describe items) =
      length (filter (\<lambda>i. terminalItem describe (items ! i)) [0..<length items])"
    using arg_cong [OF compactCandidates_fst, of length describe items] by simp
  also have "\<dots> = length (filter (terminalItem describe) (map ((!) items) [0..<length items]))"
    by (simp add: filter_map comp_def)
  finally show ?thesis by (simp add: map_nth)
qed

text \<open>The full contract of compaction, over the set \<open>D\<close> of dropped indices.\<close>

definition compactDropped :: "('a \<Rightarrow> QueueStatus \<times> gotime \<times> int) \<Rightarrow> 'a list \<Rightarrow> nat set" where
  "compactDropped describe items =
     set (map fst (take (length (filter (terminalItem describe) items) - queueTerminalRetention)
       (sort_key snd (compactCandidates describe items))))"

lemma compactQueueItems_nths:
  "compactQueueItems describe items = nths items (- compactDropped describe items)"
proof (cases "length (filter (terminalItem describe) items) \<le> queueTerminalRetention")
  case True
  then show ?thesis by (simp add: compactQueueItems_def compactDropped_def nths_all)
next
  case False
  then show ?thesis
    using filter_enumerate_nths [of "compactDropped describe items" 0 items]
    by (simp add: compactQueueItems_def compactDropped_def Compl_eq)
qed

lemma compactDropped_terminal:
  assumes "d \<in> compactDropped describe items"
  shows "d < length items" "terminalItem describe (items ! d)"
  using assms by (auto simp: compactDropped_def compactCandidates_set dest!: in_set_takeD)

lemma compactDropped_card:
  "card (compactDropped describe items) =
     length (filter (terminalItem describe) items) - queueTerminalRetention"
proof -
  let ?s = "sort_key snd (compactCandidates describe items)"
  have "distinct (map fst (compactCandidates describe items))"
    by (simp add: compactCandidates_fst)
  moreover have "mset (map fst ?s) = mset (map fst (compactCandidates describe items))"
    by simp
  ultimately have "distinct (map fst ?s)" by (metis mset_eq_imp_distinct_iff)
  then have "distinct (map fst (take n ?s))" for n by (simp add: take_map [symmetric])
  then show ?thesis
    by (simp add: compactDropped_def distinct_card compactCandidates_length del: set_map)
qed

lemma compactDropped_oldest:
  assumes "d \<in> compactDropped describe items" "k < length items" "k \<notin> compactDropped describe items"
    "terminalItem describe (items ! k)"
  shows "snd (describe (items ! d)) \<le> snd (describe (items ! k))"
proof -
  let ?s = "sort_key snd (compactCandidates describe items)"
  let ?n = "length (filter (terminalItem describe) items) - queueTerminalRetention"
  from assms(1) obtain c where c: "c \<in> set (take ?n ?s)" "fst c = d"
    by (auto simp: compactDropped_def)
  let ?e = "(k, snd (describe (items ! k)))"
  have "?e \<in> set ?s" using assms(2,4) by (simp add: compactCandidates_set)
  moreover have "?e \<notin> set (take ?n ?s)"
  proof
    assume "?e \<in> set (take ?n ?s)"
    then have "fst ?e \<in> set (map fst (take ?n ?s))" unfolding set_map by (rule imageI)
    with assms(3) show False by (simp add: compactDropped_def)
  qed
  ultimately have e: "?e \<in> set (drop ?n ?s)"
    by (metis Un_iff append_take_drop_id set_append)
  have "sorted (map snd (take ?n ?s @ drop ?n ?s))" by simp
  then have "\<forall>x\<in>set (take ?n ?s). \<forall>y\<in>set (drop ?n ?s). snd x \<le> snd y"
    unfolding map_append sorted_append by simp
  then have "snd c \<le> snd ?e" using c(1) e by blast
  moreover have "snd c = snd (describe (items ! d))"
    using c in_set_takeD [OF c(1)] by (simp add: compactCandidates_set)
  ultimately show ?thesis by simp
qed

lemma nths_filter_out:
  assumes "\<And>d. d \<in> D \<Longrightarrow> d < length xs \<Longrightarrow> \<not> P (xs ! d)"
  shows "filter P (nths xs (- D)) = filter P xs"
  using assms
proof (induction xs arbitrary: D)
  case Nil
  then show ?case by simp
next
  case (Cons x xs)
  have "filter P (nths xs (- {j. Suc j \<in> D})) = filter P xs"
  proof (rule Cons.IH)
    fix d assume "d \<in> {j. Suc j \<in> D}" "d < length xs"
    with Cons.prems [of "Suc d"] show "\<not> P (xs ! d)" by simp
  qed
  moreover have "{j. Suc j \<in> - D} = - {j. Suc j \<in> D}" by auto
  ultimately show ?case using Cons.prems [of 0] by (auto simp: nths_Cons)
qed

lemma compact_live:
  "filter (\<lambda>x. \<not> terminalItem describe x) (compactQueueItems describe items) =
     filter (\<lambda>x. \<not> terminalItem describe x) items"
  unfolding compactQueueItems_nths
  by (rule nths_filter_out) (simp add: compactDropped_terminal)

lemma compact_filter_live:
  assumes "\<And>x. P x \<Longrightarrow> \<not> terminalItem describe x"
  shows "filter P (compactQueueItems describe items) = filter P items"
  unfolding compactQueueItems_nths
  by (rule nths_filter_out) (use assms compactDropped_terminal in blast)

lemma compact_subset: "set (compactQueueItems describe items) \<subseteq> set items"
  by (simp add: compactQueueItems_nths set_nths_subset)

lemma compact_distinct: "distinct (map f items) \<Longrightarrow> distinct (map f (compactQueueItems describe items))"
  by (simp add: compactQueueItems_nths nths_map [symmetric] distinct_nthsI)

lemma nths_subset_length:
  "D \<subseteq> {..<length xs} \<Longrightarrow> length (nths xs (- D)) = length xs - card D"
proof -
  assume D: "D \<subseteq> {..<length xs}"
  have "{i. i < length xs \<and> i \<in> - D} = {..<length xs} - D" by auto
  with D show ?thesis
    by (simp add: length_nths card_Diff_subset finite_subset [OF D])
qed

lemma compact_terminal_length:
  "length (filter (terminalItem describe) (compactQueueItems describe items)) =
     min (length (filter (terminalItem describe) items)) queueTerminalRetention"
proof -
  let ?T = "terminalItem describe" and ?c = "compactQueueItems describe items"
  let ?D = "compactDropped describe items"
  have sub: "?D \<subseteq> {..<length items}" using compactDropped_terminal(1) by auto
  have sum: "length (filter ?T xs) + length (filter (\<lambda>x. \<not> ?T x) xs) = length xs" for xs
    by (rule sum_length_filter_compl)
  have "length ?c = length items - card ?D"
    unfolding compactQueueItems_nths by (rule nths_subset_length [OF sub])
  moreover have "length (filter ?T items) \<le> length items" by simp
  ultimately show ?thesis
    using sum [of ?c] sum [of items] by (simp add: compact_live compactDropped_card)
qed

section \<open>Facts about reordering\<close>

lemma lastIndex_snoc: "lastIndex p (xs @ [x]) = (if p x then Some (length xs) else lastIndex p xs)"
  by (simp add: lastIndex_def enumerate_append_eq)

lemma lastIndex_Nil: "lastIndex p [] = None"
  by (simp add: lastIndex_def)

lemma lastIndex_None_iff: "lastIndex p xs = None \<longleftrightarrow> (\<forall>x\<in>set xs. \<not> p x)"
  by (induction xs rule: rev_induct) (auto simp: lastIndex_snoc lastIndex_Nil)

lemma lastIndex_SomeD: "lastIndex p xs = Some k \<Longrightarrow> k < length xs \<and> p (xs ! k)"
  by (induction xs rule: rev_induct)
    (auto simp: lastIndex_snoc lastIndex_Nil nth_append split: if_splits)

lemma assignPositions_length [simp]:
  "length (assignPositions setPosition n refs items) = length items"
  by (induction setPosition n refs items rule: assignPositions.induct) auto

lemma map_assignPositions:
  assumes "\<And>n x. f (setPosition n x) = f x"
  shows "map f (assignPositions setPosition n refs items) = map f items"
proof (induction refs arbitrary: n items)
  case Nil
  then show ?case by simp
next
  case (Cons r refs)
  have "(map f items)[r := f (items ! r)] = map f items"
    by (cases "r < length items") (simp_all add: list_update_same_conv list_update_beyond)
  with Cons show ?case by (simp add: map_update assms)
qed

lemma assignPositions_nth_other:
  "i \<notin> set refs \<Longrightarrow> assignPositions setPosition n refs items ! i = items ! i"
  by (induction setPosition n refs items rule: assignPositions.induct) auto

lemma assignPositions_nth:
  "distinct refs \<Longrightarrow> set refs \<subseteq> {..<length items} \<Longrightarrow> k < length refs \<Longrightarrow>
     assignPositions setPosition n refs items ! (refs ! k) = setPosition (n + int k) (items ! (refs ! k))"
proof (induction setPosition n refs items arbitrary: k rule: assignPositions.induct)
  case (1 setPosition n items)
  then show ?case by simp
next
  case (2 setPosition n r refs items)
  let ?items = "items[r := setPosition n (items ! r)]"
  show ?case
  proof (cases k)
    case 0
    with 2 show ?thesis by (simp add: assignPositions_nth_other)
  next
    case (Suc j)
    with "2.prems" have j: "j < length refs" "refs ! j \<noteq> r" using nth_mem by fastforce+
    have "assignPositions setPosition (n + 1) refs ?items ! (refs ! j) =
        setPosition (n + 1 + int j) (?items ! (refs ! j))"
      using 2 j by (intro "2.IH") auto
    with Suc j show ?thesis by (simp add: algebra_simps)
  qed
qed

lemma pendingRefs_distinct [simp]: "distinct (pendingRefs status position items)"
  by (simp add: pendingRefs_def)

lemma pendingRefs_set:
  "set (pendingRefs status position items) = {i. i < length items \<and> status (items ! i) = QueueAccepted}"
  by (auto simp: pendingRefs_def)

definition pendingIDs ::
    "('a \<Rightarrow> string) \<Rightarrow> ('a \<Rightarrow> QueueStatus) \<Rightarrow> ('a \<Rightarrow> int) \<Rightarrow> 'a list \<Rightarrow> string list" where
  "pendingIDs itemID status position items =
     map (\<lambda>r. itemID (items ! r)) (pendingRefs status position items)"

text \<open>The specification of a move on the pending order.\<close>

definition moveBefore :: "string \<Rightarrow> string \<Rightarrow> string list \<Rightarrow> string list" where
  "moveBefore item before ids =
     (let rest = removeAll item ids in
      if before = '''' then rest @ [item]
      else takeWhile (\<lambda>x. x \<noteq> before) rest @ item # dropWhile (\<lambda>x. x \<noteq> before) rest)"

lemma distinct_takeWhile_nth:
  assumes "distinct xs" "t < length xs"
  shows "takeWhile (\<lambda>x. x \<noteq> xs ! t) xs = take t xs" "dropWhile (\<lambda>x. x \<noteq> xs ! t) xs = drop t xs"
proof -
  show take: "takeWhile (\<lambda>x. x \<noteq> xs ! t) xs = take t xs"
    using assms by (intro takeWhile_eq_take_P_nth) (auto simp: nth_eq_iff_index_eq)
  show "dropWhile (\<lambda>x. x \<noteq> xs ! t) xs = drop t xs"
    using assms(2) by (simp add: dropWhile_eq_drop take)
qed

lemma removeAll_nth:
  assumes "distinct xs" "k < length xs"
  shows "removeAll (xs ! k) xs = take k xs @ drop (Suc k) xs"
proof -
  have eq: "xs = take k xs @ xs ! k # drop (Suc k) xs" by (rule id_take_nth_drop [OF assms(2)])
  have "distinct (take k xs @ xs ! k # drop (Suc k) xs)" using assms(1) eq by simp
  then have "xs ! k \<notin> set (take k xs)" "xs ! k \<notin> set (drop (Suc k) xs)" by auto
  then have "removeAll (xs ! k) (take k xs @ xs ! k # drop (Suc k) xs) = take k xs @ drop (Suc k) xs"
    by simp
  with eq show ?thesis by simp
qed

lemma nth_take_drop:
  assumes "k < length xs" "b < length xs" "b \<noteq> k"
  shows "(take k xs @ drop (Suc k) xs) ! (if k < b then b - 1 else b) = xs ! b"
    "(if k < b then b - 1 else b) < length (take k xs @ drop (Suc k) xs)"
  using assms by (auto simp: nth_append)

text \<open>
  The interface a queue item offers to reordering: its identity, status and
  position, and a position update that keeps the other two.
\<close>

locale queue_item =
  fixes itemID :: "'a \<Rightarrow> string"
    and status :: "'a \<Rightarrow> QueueStatus"
    and position :: "'a \<Rightarrow> int"
    and setPosition :: "int \<Rightarrow> 'a \<Rightarrow> 'a"
  assumes itemID_setPosition: "itemID (setPosition n x) = itemID x"
    and status_setPosition: "status (setPosition n x) = status x"
    and position_setPosition: "position (setPosition n x) = n"
begin

abbreviation "refs \<equiv> pendingRefs status position"
abbreviation "ids \<equiv> pendingIDs itemID status position"

lemma assign_frame:
  assumes "distinct rs" "set rs \<subseteq> {..<length items}" "i < length items"
  shows "itemID (assignPositions setPosition n rs items ! i) = itemID (items ! i)"
    "status (assignPositions setPosition n rs items ! i) = status (items ! i)"
proof -
  have "assignPositions setPosition n rs items ! i = items ! i \<or>
      (\<exists>m. assignPositions setPosition n rs items ! i = setPosition m (items ! i))"
  proof (cases "i \<in> set rs")
    case True
    then obtain k where "k < length rs" "rs ! k = i" by (auto simp: in_set_conv_nth)
    then show ?thesis using assignPositions_nth [OF assms(1,2)] by metis
  next
    case False
    then show ?thesis by (simp add: assignPositions_nth_other)
  qed
  then show "itemID (assignPositions setPosition n rs items ! i) = itemID (items ! i)"
    "status (assignPositions setPosition n rs items ! i) = status (items ! i)"
    by (auto simp: itemID_setPosition status_setPosition)
qed

lemma refs_assignPositions:
  assumes "distinct order" "set order = set (refs items)"
  defines "items' \<equiv> assignPositions setPosition 1 order items"
  shows "refs items' = order" "map (\<lambda>r. position (items' ! r)) order = map int [1..<Suc (length order)]"
proof -
  have sub: "set order \<subseteq> {..<length items}" using assms(2) by (auto simp: pendingRefs_set)
  have pos: "position (items' ! (order ! k)) = 1 + int k" if "k < length order" for k
    using that assignPositions_nth [OF assms(1) sub that, of setPosition 1]
    by (simp add: items'_def position_setPosition)
  show num: "map (\<lambda>r. position (items' ! r)) order = map int [1..<Suc (length order)]"
    by (rule nth_equalityI) (simp_all add: pos del: upt_Suc)
  have "sorted (map int [1..<Suc (length order)])" "distinct (map int [1..<Suc (length order)])"
    by (simp_all add: sorted_map distinct_map sorted_wrt_mono_rel [OF _ sorted_upt] del: upt_Suc)
  then have srt: "sorted (map (\<lambda>r. position (items' ! r)) order)"
    and dst: "distinct (map (\<lambda>r. position (items' ! r)) order)" by (simp_all only: num)
  have st: "status (items' ! i) = status (items ! i)" if "i < length items" for i
    unfolding items'_def by (rule assign_frame(2) [OF assms(1) sub that])
  have set: "set (refs items') = set order"
    unfolding assms(2) pendingRefs_set using st by (auto simp: items'_def)
  have "mset (refs items') = mset order"
    using set assms(1) by (simp add: set_eq_iff_mset_eq_distinct)
  then have "distinct (map (\<lambda>r. position (items' ! r)) (refs items'))"
    using dst by (metis mset_eq_imp_distinct_iff mset_map)
  moreover have "sorted (map (\<lambda>r. position (items' ! r)) (refs items'))"
    by (simp add: pendingRefs_def)
  moreover have "inj_on (\<lambda>r. position (items' ! r)) (set (refs items') \<union> set order)"
    using dst set by (simp add: distinct_map)
  ultimately show "refs items' = order"
    using srt dst set by (intro map_sorted_distinct_set_unique)
qed

lemma reorder_order:
  assumes "reorderQueuePositions itemID status position setPosition items item before = Inr items'"
    and "distinct (ids items)"
  obtains order where "items' = assignPositions setPosition 1 order items"
    "distinct order" "set order = set (refs items)"
    "map (\<lambda>r. itemID (items ! r)) order = moveBefore item before (ids items)"
    "item \<in> set (ids items)" "before = '''' \<or> before \<in> set (ids items)"
proof -
  let ?p = "refs items" and ?id = "\<lambda>r. itemID (items ! r)"
  from assms(1) obtain k where k: "lastIndex (\<lambda>r. ?id r = item) ?p = Some k" and ne: "item \<noteq> before"
    and b: "before \<noteq> '''' \<Longrightarrow> lastIndex (\<lambda>r. ?id r = before) ?p \<noteq> None"
    by (auto simp: reorderQueuePositions_def Let_def split: if_splits option.splits)
  have kp: "k < length ?p" "?id (?p ! k) = item" using lastIndex_SomeD [OF k] by auto
  then have kid: "k < length (ids items)" "ids items ! k = item" by (simp_all add: pendingIDs_def)
  let ?rest = "take k ?p @ drop (Suc k) ?p"
  define target where "target = (if before = '''' then length ?rest
     else (case lastIndex (\<lambda>r. ?id r = before) ?p of None \<Rightarrow> 0 | Some b \<Rightarrow> if k < b then b - 1 else b))"
  define order where "order = take target ?rest @ [?p ! k] @ drop target ?rest"
  have items': "items' = assignPositions setPosition 1 order items"
    using assms(1) k ne b unfolding order_def target_def reorderQueuePositions_def Let_def
    by (auto split: if_splits)
  have perm: "mset order = mset ?p"
  proof -
    have "mset order = mset (take target ?rest @ drop target ?rest) + {#?p ! k#}"
      unfolding order_def mset_append by simp
    also have "\<dots> = mset (take k ?p @ ?p ! k # drop (Suc k) ?p)" unfolding append_take_drop_id by simp
    finally show ?thesis using id_take_nth_drop [OF kp(1)] by simp
  qed
  have dist: "distinct order" and setp: "set order = set ?p"
    using perm by (metis mset_eq_imp_distinct_iff pendingRefs_distinct, metis mset_eq_setD)
  have rest: "map ?id ?rest = removeAll item (ids items)"
    using removeAll_nth [OF assms(2) kid(1)] kid(2)
    by (simp add: pendingIDs_def take_map drop_map)
  have bmem: "before = '''' \<or> before \<in> set (ids items)"
    using b lastIndex_SomeD [of "\<lambda>r. ?id r = before" ?p] by (fastforce simp: pendingIDs_def)
  have ids: "map ?id order = moveBefore item before (ids items)"
  proof (cases "before = ''''")
    case True
    then have "target = length ?rest" unfolding target_def by (rule if_P)
    then have "order = ?rest @ [?p ! k]" unfolding order_def by (metis append.right_neutral order_refl take_all drop_all)
    then have "map ?id order = map ?id ?rest @ [item]" using kp(2) by simp
    then show ?thesis unfolding rest using True by (simp add: moveBefore_def Let_def)
  next
    case False
    with b obtain b' where b': "lastIndex (\<lambda>r. ?id r = before) ?p = Some b'" by blast
    have bp: "b' < length ?p" "?id (?p ! b') = before" using lastIndex_SomeD [OF b'] by auto
    with kp ne have "b' \<noteq> k" by auto
    note t = nth_take_drop [OF kp(1) bp(1) this]
    have tgt: "target = (if k < b' then b' - 1 else b')" using False b' by (simp add: target_def)
    have "map ?id ?rest ! target = before" "target < length (map ?id ?rest)"
      using t bp(2) tgt by (simp_all del: map_append)
    moreover have "distinct (map ?id ?rest)" unfolding rest using assms(2) by (simp add: distinct_removeAll)
    ultimately have "takeWhile (\<lambda>x. x \<noteq> before) (map ?id ?rest) = take target (map ?id ?rest)"
      "dropWhile (\<lambda>x. x \<noteq> before) (map ?id ?rest) = drop target (map ?id ?rest)"
      using distinct_takeWhile_nth [of "map ?id ?rest" target] by blast+
    moreover have "map ?id order = take target (map ?id ?rest) @ [item] @ drop target (map ?id ?rest)"
      unfolding order_def map_append [of _ "take target ?rest"] take_map drop_map using kp(2) by simp
    ultimately show ?thesis using False unfolding rest by (simp add: moveBefore_def Let_def)
  qed
  show ?thesis
    by (rule that [OF items' dist setp ids _ bmem]) (use kid nth_mem in metis)
qed

lemma reorder_spec:
  assumes "reorderQueuePositions itemID status position setPosition items item before = Inr items'"
    and "distinct (ids items)"
  shows "ids items' = moveBefore item before (ids items)"
    and "map (\<lambda>r. position (items' ! r)) (refs items') = map int [1..<Suc (length (refs items))]"
    and "length items' = length items"
    and "\<And>i. i < length items \<Longrightarrow> itemID (items' ! i) = itemID (items ! i) \<and> status (items' ! i) = status (items ! i)"
    and "\<And>i. i < length items \<Longrightarrow> status (items ! i) \<noteq> QueueAccepted \<Longrightarrow> items' ! i = items ! i"
proof -
  obtain order where o: "items' = assignPositions setPosition 1 order items"
    "distinct order" "set order = set (refs items)"
    "map (\<lambda>r. itemID (items ! r)) order = moveBefore item before (ids items)"
    using reorder_order [OF assms] by metis
  have sub: "set order \<subseteq> {..<length items}" using o(3) by (auto simp: pendingRefs_set)
  have refs: "refs items' = order" and nums: "map (\<lambda>r. position (items' ! r)) order = map int [1..<Suc (length order)]"
    using refs_assignPositions [OF o(2,3)] o(1) by auto
  have len: "length order = length (refs items)"
    using o(2,3) by (metis distinct_card pendingRefs_distinct)
  show frame: "itemID (items' ! i) = itemID (items ! i) \<and> status (items' ! i) = status (items ! i)"
    if "i < length items" for i
    using assign_frame [OF o(2) sub that] o(1) by simp
  have "map (\<lambda>r. itemID (items' ! r)) order = map (\<lambda>r. itemID (items ! r)) order"
    using sub frame by (intro map_cong) auto
  then show "ids items' = moveBefore item before (ids items)"
    using o(4) refs by (simp add: pendingIDs_def)
  show "map (\<lambda>r. position (items' ! r)) (refs items') = map int [1..<Suc (length (refs items))]"
    using nums refs len by simp
  show "length items' = length items" using o(1) by simp
  show "items' ! i = items ! i" if "i < length items" "status (items ! i) \<noteq> QueueAccepted" for i
    unfolding o(1) by (rule assignPositions_nth_other) (use that o(3) in \<open>auto simp: pendingRefs_set\<close>)
qed

lemma reorder_ok_iff:
  "(\<exists>items'. reorderQueuePositions itemID status position setPosition items item before = Inr items') \<longleftrightarrow>
     item \<noteq> '''' \<and> item \<noteq> before \<and> item \<in> set (ids items) \<and> (before = '''' \<or> before \<in> set (ids items))"
proof -
  have mem: "lastIndex (\<lambda>r. itemID (items ! r) = x) (refs items) = None \<longleftrightarrow> x \<notin> set (ids items)" for x
    by (auto simp: lastIndex_None_iff pendingIDs_def)
  show ?thesis
  proof (cases "lastIndex (\<lambda>r. itemID (items ! r) = item) (refs items)")
    case None
    then show ?thesis using mem [of item] by (simp add: reorderQueuePositions_def Let_def)
  next
    case (Some k)
    then have "item \<in> set (ids items)" using mem [of item] by simp
    with Some show ?thesis using mem [of before] by (simp add: reorderQueuePositions_def Let_def)
  qed
qed

end

end
