(* ===== verification/LiveQueue.thy ===== *)
theory LiveQueue
  imports QueueOps
begin

text \<open>
  The steer queue and the follow-up queue of a session, from
  \<^verbatim>\<open>internal/agent/runtime/session/live_queue.go\<close> and the transitions of
  \<^verbatim>\<open>live_queue_transitions.go\<close>. A queue is a value; a method on a state
  pointer returns the new state with its results, and an error is returned
  instead of a state, since no transition mutates before it fails. Items are
  values, so the cloning helpers of the source are the identity here. The UUIDs
  the source draws for items and claims are arguments.
\<close>

section \<open>Items, references and queue states\<close>

definition QueueErrorTargetRunNotActive :: string where
  "QueueErrorTargetRunNotActive = ''queue_target_run_not_active''"
definition QueueErrorFollowUpCommandInvalid :: string where
  "QueueErrorFollowUpCommandInvalid = ''queue_follow_up_command_invalid''"

record SteerPendingRef =
  sp_ItemID :: string

record FollowUpPendingRef =
  fp_ItemID :: string

record SteerClaimRef =
  sc_ItemID :: string
  sc_RunID :: string
  sc_OwnerID :: string
  sc_Generation :: string
  sc_FencingToken :: int
  sc_ClaimToken :: string

record FollowUpClaimRef =
  fc_ItemID :: string
  fc_TriggerRunID :: string
  fc_ClaimToken :: string

record SteerItem =
  si_ID :: string
  si_BotID :: string
  si_SessionID :: string
  si_TargetRunID :: string
  si_InvocationID :: string
  si_Payload :: bytes
  si_Status :: QueueStatus
  si_Position :: int
  si_Claim :: "SteerClaimRef option"
  si_ErrorCode :: string
  si_CreatedAt :: gotime

record FollowUpItem =
  fi_ID :: string
  fi_BotID :: string
  fi_SessionID :: string
  fi_EnqueuedDuringRunID :: string
  fi_InvocationID :: string
  fi_Payload :: bytes
  fi_Status :: QueueStatus
  fi_Position :: int
  fi_Claim :: "FollowUpClaimRef option"
  fi_ErrorCode :: string
  fi_CreatedAt :: gotime

record PromoteFollowUpResult =
  pr_FollowUp :: FollowUpPendingRef
  pr_Steer :: SteerItem

record steerQueueState =
  sq_Items :: "SteerItem list"
  sq_PromotedFollowUpItems :: "(string, string) gomap"
  sq_ClosedRunID :: string
  sq_UpdatedAt :: gotime

record followUpQueueState =
  fq_Items :: "FollowUpItem list"
  fq_TerminalClaims :: "(string, string) gomap"
  fq_UpdatedAt :: gotime

section \<open>Guards on runs and references\<close>

definition SteerRunAvailable :: "CurrentRunView option \<Rightarrow> bool" where
  "SteerRunAvailable run \<longleftrightarrow>
     (case run of
        None \<Rightarrow> False
      | Some r \<Rightarrow> cr_SteerSupported r \<and> (cr_Status r = RunStatusRunning \<or> cr_Status r = RunStatusWaitingDecision))"

definition activeRun :: "Snapshot option \<Rightarrow> CurrentRunView option" where
  "activeRun snapshot =
     (case snapshot of
        None \<Rightarrow> None
      | Some s \<Rightarrow>
          (case sn_CurrentRunView s of
             None \<Rightarrow> None
           | Some r \<Rightarrow> if isActiveRunStatus (cr_Status r) then Some r else None))"

definition validateQueueKey :: "Key \<Rightarrow> GoError option" where
  "validateQueueKey key =
     (if TrimSpace (k_BotID key) = '''' \<or> TrimSpace (k_SessionID key) = '''' then Some ErrQueueInvalidReference
      else None)"

definition validatePayload :: "bytes \<Rightarrow> GoError option" where
  "validatePayload payload = (if payload = [] then Some ErrQueueInvalidReference else None)"

definition validateSteerClaim :: "Key \<Rightarrow> SteerClaimRef \<Rightarrow> GoError option" where
  "validateSteerClaim key ref =
     (case validateQueueKey key of
        Some err \<Rightarrow> Some err
      | None \<Rightarrow>
          (if sc_ItemID ref = '''' \<or> TrimSpace (sc_RunID ref) = '''' \<or> TrimSpace (sc_OwnerID ref) = '''' \<or>
              TrimSpace (sc_Generation ref) = '''' \<or> sc_FencingToken ref \<le> 0 \<or> TrimSpace (sc_ClaimToken ref) = ''''
           then Some ErrQueueInvalidReference else None))"

definition validateFollowUpClaim :: "Key \<Rightarrow> FollowUpClaimRef \<Rightarrow> GoError option" where
  "validateFollowUpClaim key ref =
     (case validateQueueKey key of
        Some err \<Rightarrow> Some err
      | None \<Rightarrow>
          (if fc_ItemID ref = '''' \<or> TrimSpace (fc_TriggerRunID ref) = '''' \<or> TrimSpace (fc_ClaimToken ref) = ''''
           then Some ErrQueueInvalidReference else None))"

text \<open>\<open>Some item'\<close> when the claim moved to the handle's execution identity.\<close>

definition advanceSteerClaim :: "SteerItem \<Rightarrow> RunHandle \<Rightarrow> SteerItem option" where
  "advanceSteerClaim item handle =
     (case si_Claim item of
        None \<Rightarrow> None
      | Some claim \<Rightarrow>
          (if si_Status item \<noteq> QueueClaimed \<or> sc_RunID claim \<noteq> rh_RunID handle then None
           else if sc_OwnerID claim = rh_OwnerID handle \<and> sc_Generation claim = rh_Generation handle \<and>
                   sc_FencingToken claim = rh_FencingToken handle then None
           else Some (item\<lparr>si_Claim := Some (claim\<lparr>
                  sc_OwnerID := rh_OwnerID handle,
                  sc_Generation := rh_Generation handle,
                  sc_FencingToken := rh_FencingToken handle\<rparr>)\<rparr>)))"

definition runViewOwnedBy :: "CurrentRunView option \<Rightarrow> string \<Rightarrow> bool" where
  "runViewOwnedBy run ownerID =
     (case run of
        None \<Rightarrow> False
      | Some r \<Rightarrow> TrimSpace (cr_OwnerID r) = '''' \<or> TrimSpace (cr_OwnerID r) = TrimSpace ownerID)"

definition runMatchesSteerClaim :: "CurrentRunView option \<Rightarrow> SteerClaimRef \<Rightarrow> bool" where
  "runMatchesSteerClaim run ref =
     (case run of
        None \<Rightarrow> False
      | Some r \<Rightarrow> cr_RunID r = sc_RunID ref \<and> runViewOwnedBy run (sc_OwnerID ref) \<and>
          cr_Generation r = sc_Generation ref \<and> isActiveRunStatus (cr_Status r))"

section \<open>Reading a queue\<close>

definition limited :: "int \<Rightarrow> 'a list \<Rightarrow> 'a list" where
  "limited limit items = (if 0 < limit \<and> limit < int (length items) then take (nat limit) items else items)"

definition pendingSteers :: "steerQueueState \<Rightarrow> int \<Rightarrow> SteerItem list" where
  "pendingSteers state limit =
     limited limit (sort_key si_Position (filter (\<lambda>item. si_Status item = QueueAccepted) (sq_Items state)))"

definition pendingFollowUps :: "followUpQueueState \<Rightarrow> int \<Rightarrow> FollowUpItem list" where
  "pendingFollowUps state limit =
     limited limit (sort_key fi_Position (filter (\<lambda>item. fi_Status item = QueueAccepted) (fq_Items state)))"

definition countPendingSteers :: "steerQueueState \<Rightarrow> nat" where
  "countPendingSteers state = length (filter (\<lambda>item. si_Status item = QueueAccepted) (sq_Items state))"

definition countPendingFollowUps :: "followUpQueueState \<Rightarrow> nat" where
  "countPendingFollowUps state = length (filter (\<lambda>item. fi_Status item = QueueAccepted) (fq_Items state))"

definition nextSteerPosition :: "steerQueueState \<Rightarrow> int" where
  "nextSteerPosition state =
     wrap64 (foldl (\<lambda>position item. if position < si_Position item then si_Position item else position) 0 (sq_Items state) + 1)"

definition nextFollowUpPosition :: "followUpQueueState \<Rightarrow> int" where
  "nextFollowUpPosition state =
     wrap64 (foldl (\<lambda>position item. if position < fi_Position item then fi_Position item else position) 0 (fq_Items state) + 1)"

text \<open>The \<open>bool\<close> and \<open>error\<close> of the source: \<open>None\<close> when no item carries the invocation.\<close>

definition replaySteer :: "steerQueueState \<Rightarrow> string \<Rightarrow> bytes \<Rightarrow> (GoError + SteerItem) option" where
  "replaySteer state invocationID payload =
     (case List.find (\<lambda>item. si_InvocationID item = invocationID) (sq_Items state) of
        None \<Rightarrow> None
      | Some item \<Rightarrow> Some (if si_Payload item \<noteq> payload then Inl ErrQueueInvocationConflict else Inr item))"

definition replayFollowUp :: "followUpQueueState \<Rightarrow> string \<Rightarrow> bytes \<Rightarrow> (GoError + FollowUpItem) option" where
  "replayFollowUp state invocationID payload =
     (case List.find (\<lambda>item. fi_InvocationID item = invocationID) (fq_Items state) of
        None \<Rightarrow> None
      | Some item \<Rightarrow> Some (if fi_Payload item \<noteq> payload then Inl ErrQueueInvocationConflict else Inr item))"

section \<open>Compaction, closing and reordering\<close>

definition describeSteer :: "SteerItem \<Rightarrow> QueueStatus \<times> gotime \<times> int" where
  "describeSteer item = (si_Status item, si_CreatedAt item, si_Position item)"

definition describeFollowUp :: "FollowUpItem \<Rightarrow> QueueStatus \<times> gotime \<times> int" where
  "describeFollowUp item = (fi_Status item, fi_CreatedAt item, fi_Position item)"

definition steer_compact :: "steerQueueState \<Rightarrow> steerQueueState" where
  "steer_compact state0 =
     (let state = state0\<lparr>sq_Items := compactQueueItems describeSteer (sq_Items state0)\<rparr>
      in if sq_PromotedFollowUpItems state = [] then state
         else state\<lparr>sq_PromotedFollowUpItems :=
                filter (\<lambda>(followUpID, steerID). steerID \<in> si_ID ` set (sq_Items state)) (sq_PromotedFollowUpItems state)\<rparr>)"

definition followUp_compact :: "followUpQueueState \<Rightarrow> followUpQueueState" where
  "followUp_compact state0 =
     (let state = state0\<lparr>fq_Items := compactQueueItems describeFollowUp (fq_Items state0)\<rparr>
      in if length (fq_TerminalClaims state) \<le> terminalClaimRetention then state
         else state\<lparr>fq_TerminalClaims :=
                filter (\<lambda>(runID, itemID). itemID \<in> fi_ID ` set (fq_Items state)) (fq_TerminalClaims state)\<rparr>)"

definition closeMatches :: "string \<Rightarrow> SteerItem \<Rightarrow> bool" where
  "closeMatches runID item \<longleftrightarrow>
     si_TargetRunID item = runID \<and> (si_Status item = QueueAccepted \<or> si_Status item = QueueClaimed)"

definition closeItem :: "string \<Rightarrow> SteerItem \<Rightarrow> SteerItem" where
  "closeItem runID item =
     (if closeMatches runID item
      then item\<lparr>si_Status := QueueRejected, si_ErrorCode := QueueErrorTargetRunNotActive, si_Claim := None\<rparr>
      else item)"

text \<open>The flag is the \<open>changed\<close> result of the source.\<close>

definition closeSteerRun :: "steerQueueState \<Rightarrow> string \<Rightarrow> gotime \<Rightarrow> steerQueueState \<times> bool" where
  "closeSteerRun state runID now =
     (let changed = (\<exists>item \<in> set (sq_Items state). closeMatches runID item) \<or> sq_ClosedRunID state \<noteq> runID;
          state' = state\<lparr>sq_Items := map (closeItem runID) (sq_Items state), sq_ClosedRunID := runID\<rparr>
      in (if changed then state'\<lparr>sq_UpdatedAt := now\<rparr> else state', changed))"

abbreviation setSteerPosition :: "int \<Rightarrow> SteerItem \<Rightarrow> SteerItem" where
  "setSteerPosition n item \<equiv> item\<lparr>si_Position := n\<rparr>"

abbreviation setFollowUpPosition :: "int \<Rightarrow> FollowUpItem \<Rightarrow> FollowUpItem" where
  "setFollowUpPosition n item \<equiv> item\<lparr>fi_Position := n\<rparr>"

definition reorderSteerState ::
    "steerQueueState \<Rightarrow> SteerPendingRef \<Rightarrow> SteerPendingRef \<Rightarrow> GoError + steerQueueState \<times> SteerItem list" where
  "reorderSteerState state itemRef beforeRef =
     (case reorderQueuePositions si_ID si_Status si_Position setSteerPosition (sq_Items state)
             (sp_ItemID itemRef) (sp_ItemID beforeRef) of
        Inl err \<Rightarrow> Inl err
      | Inr items \<Rightarrow> (let state' = state\<lparr>sq_Items := items\<rparr> in Inr (state', pendingSteers state' 0)))"

definition reorderFollowUpState ::
    "followUpQueueState \<Rightarrow> FollowUpPendingRef \<Rightarrow> FollowUpPendingRef \<Rightarrow> GoError + followUpQueueState \<times> FollowUpItem list" where
  "reorderFollowUpState state itemRef beforeRef =
     (case reorderQueuePositions fi_ID fi_Status fi_Position setFollowUpPosition (fq_Items state)
             (fp_ItemID itemRef) (fp_ItemID beforeRef) of
        Inl err \<Rightarrow> Inl err
      | Inr items \<Rightarrow> (let state' = state\<lparr>fq_Items := items\<rparr> in Inr (state', pendingFollowUps state' 0)))"

section \<open>Transitions of the steer queue\<close>

definition steerHeldBy :: "string \<Rightarrow> SteerItem \<Rightarrow> bool" where
  "steerHeldBy runID item \<longleftrightarrow>
     si_Status item = QueueClaimed \<and> (case si_Claim item of None \<Rightarrow> False | Some c \<Rightarrow> sc_RunID c = runID)"

definition steerEligible :: "string \<Rightarrow> SteerItem \<Rightarrow> bool" where
  "steerEligible runID item \<longleftrightarrow> si_Status item = QueueAccepted \<and> si_TargetRunID item = runID"

text \<open>
  \<open>token\<close> is the UUID of a new claim. The result is \<open>None\<close> for the source's
  \<open>(SteerItem{}, SteerClaimRef{}, false)\<close>.
\<close>

definition steer_claimNext ::
    "string \<Rightarrow> steerQueueState \<Rightarrow> RunHandle \<Rightarrow> bool \<Rightarrow> gotime \<Rightarrow> steerQueueState \<times> (SteerItem \<times> SteerClaimRef) option" where
  "steer_claimNext token state handle sealIfEmpty now =
     (case List.extract (steerHeldBy (rh_RunID handle)) (sq_Items state) of
        Some (us, item, vs) \<Rightarrow>
          (case advanceSteerClaim item handle of
             Some item' \<Rightarrow> (state\<lparr>sq_Items := us @ item' # vs, sq_UpdatedAt := now\<rparr>, Some (item', the (si_Claim item')))
           | None \<Rightarrow> (state, Some (item, the (si_Claim item))))
      | None \<Rightarrow>
          (case selectBest (steerEligible (rh_RunID handle)) si_Position (sq_Items state) of
             None \<Rightarrow>
               (if sealIfEmpty then state\<lparr>sq_ClosedRunID := rh_RunID handle, sq_UpdatedAt := now\<rparr> else state, None)
           | Some best \<Rightarrow>
               (let claim = \<lparr>sc_ItemID = si_ID (sq_Items state ! best), sc_RunID = rh_RunID handle,
                             sc_OwnerID = rh_OwnerID handle, sc_Generation = rh_Generation handle,
                             sc_FencingToken = rh_FencingToken handle, sc_ClaimToken = token\<rparr>;
                    item = (sq_Items state ! best)\<lparr>si_Status := QueueClaimed, si_Claim := Some claim\<rparr>
                in (state\<lparr>sq_Items := (sq_Items state)[best := item], sq_UpdatedAt := now\<rparr>, Some (item, claim)))))"

definition steerClaimedAs :: "SteerClaimRef \<Rightarrow> SteerItem \<Rightarrow> bool" where
  "steerClaimedAs ref item \<longleftrightarrow> si_ID item = sc_ItemID ref \<and> si_Status item = QueueClaimed \<and> si_Claim item = Some ref"

definition steer_apply :: "steerQueueState \<Rightarrow> SteerClaimRef \<Rightarrow> gotime \<Rightarrow> GoError + steerQueueState" where
  "steer_apply state ref now =
     (case List.extract (steerClaimedAs ref) (sq_Items state) of
        None \<Rightarrow> Inl ErrQueueInvalidReference
      | Some (us, item, vs) \<Rightarrow>
          Inr (steer_compact (state\<lparr>sq_Items := us @ item\<lparr>si_Status := QueueApplied\<rparr> # vs, sq_UpdatedAt := now\<rparr>)))"

definition steer_release :: "steerQueueState \<Rightarrow> SteerClaimRef \<Rightarrow> gotime \<Rightarrow> GoError + steerQueueState" where
  "steer_release state ref now =
     (case List.extract (steerClaimedAs ref) (sq_Items state) of
        None \<Rightarrow> Inl ErrQueueInvalidReference
      | Some (us, item, vs) \<Rightarrow>
          Inr (state\<lparr>sq_Items := us @ item\<lparr>si_Status := QueueAccepted, si_Claim := None\<rparr> # vs, sq_UpdatedAt := now\<rparr>))"

definition steerPendingAs :: "string \<Rightarrow> SteerItem \<Rightarrow> bool" where
  "steerPendingAs itemID item \<longleftrightarrow> si_ID item = itemID \<and> si_Status item = QueueAccepted"

definition steer_edit :: "steerQueueState \<Rightarrow> string \<Rightarrow> bytes \<Rightarrow> gotime \<Rightarrow> GoError + steerQueueState \<times> SteerItem" where
  "steer_edit state itemID payload now =
     (case List.extract (steerPendingAs itemID) (sq_Items state) of
        None \<Rightarrow> Inl ErrQueueNotPending
      | Some (us, item, vs) \<Rightarrow>
          (let item' = item\<lparr>si_Payload := payload\<rparr>
           in Inr (state\<lparr>sq_Items := us @ item' # vs, sq_UpdatedAt := now\<rparr>, item')))"

definition steer_cancel :: "steerQueueState \<Rightarrow> string \<Rightarrow> gotime \<Rightarrow> GoError + steerQueueState" where
  "steer_cancel state itemID now =
     (case List.extract (steerPendingAs itemID) (sq_Items state) of
        None \<Rightarrow> Inl ErrQueueNotPending
      | Some (us, item, vs) \<Rightarrow>
          Inr (steer_compact (state\<lparr>sq_Items := us @ item\<lparr>si_Status := QueueCanceled\<rparr> # vs, sq_UpdatedAt := now\<rparr>)))"

definition steer_enqueue ::
    "steerQueueState \<Rightarrow> Key \<Rightarrow> string \<Rightarrow> string \<Rightarrow> string \<Rightarrow> bytes \<Rightarrow> gotime \<Rightarrow> GoError + steerQueueState \<times> SteerItem" where
  "steer_enqueue state key itemID invocationID runID payload now =
     (if MaxPendingQueueItems \<le> countPendingSteers state then Inl ErrQueueCapacityExceeded
      else
        (let item = \<lparr>si_ID = itemID, si_BotID = k_BotID key, si_SessionID = k_SessionID key,
                     si_TargetRunID = runID, si_InvocationID = invocationID, si_Payload = payload,
                     si_Status = QueueAccepted, si_Position = nextSteerPosition state, si_Claim = None,
                     si_ErrorCode = '''', si_CreatedAt = now\<rparr>;
             state' = state\<lparr>sq_Items := sq_Items state @ [item], sq_UpdatedAt := now\<rparr>
         in Inr (if sq_ClosedRunID state' \<noteq> '''' \<and> sq_ClosedRunID state' \<noteq> runID
                 then state'\<lparr>sq_ClosedRunID := ''''\<rparr> else state', item)))"

section \<open>Transitions of the follow-up queue\<close>

definition followUpHeld :: "string \<Rightarrow> FollowUpItem \<Rightarrow> bool" where
  "followUpHeld itemID item \<longleftrightarrow> fi_ID item = itemID \<and> fi_Status item = QueueClaimed \<and> fi_Claim item \<noteq> None"

abbreviation followUpAccepted :: "FollowUpItem \<Rightarrow> bool" where
  "followUpAccepted item \<equiv> fi_Status item = QueueAccepted"

definition followUp_claimNext ::
    "string \<Rightarrow> followUpQueueState \<Rightarrow> string \<Rightarrow> gotime \<Rightarrow> followUpQueueState \<times> (FollowUpItem \<times> FollowUpClaimRef) option" where
  "followUp_claimNext token state triggerRunID now =
     (let itemID = mapGet '''' (fq_TerminalClaims state) triggerRunID in
      if itemID \<noteq> '''' then
        (case List.find (followUpHeld itemID) (fq_Items state) of
           Some item \<Rightarrow> (state, Some (item, the (fi_Claim item)))
         | None \<Rightarrow> (state, None))
      else
        (case selectBest followUpAccepted fi_Position (fq_Items state) of
           None \<Rightarrow> (state, None)
         | Some best \<Rightarrow>
             (let claim = \<lparr>fc_ItemID = fi_ID (fq_Items state ! best), fc_TriggerRunID = triggerRunID, fc_ClaimToken = token\<rparr>;
                  item = (fq_Items state ! best)\<lparr>fi_Status := QueueClaimed, fi_Claim := Some claim\<rparr>
              in (state\<lparr>fq_Items := (fq_Items state)[best := item],
                       fq_TerminalClaims := mapPut triggerRunID (fi_ID item) (fq_TerminalClaims state),
                       fq_UpdatedAt := now\<rparr>, Some (item, claim)))))"

definition followUpClaimedAs :: "FollowUpClaimRef \<Rightarrow> FollowUpItem \<Rightarrow> bool" where
  "followUpClaimedAs ref item \<longleftrightarrow> fi_ID item = fc_ItemID ref \<and> fi_Status item = QueueClaimed \<and> fi_Claim item = Some ref"

definition followUp_apply :: "followUpQueueState \<Rightarrow> FollowUpClaimRef \<Rightarrow> gotime \<Rightarrow> GoError + followUpQueueState" where
  "followUp_apply state ref now =
     (case List.extract (followUpClaimedAs ref) (fq_Items state) of
        None \<Rightarrow> Inl ErrQueueInvalidReference
      | Some (us, item, vs) \<Rightarrow>
          Inr (followUp_compact (state\<lparr>fq_Items := us @ item\<lparr>fi_Status := QueueApplied\<rparr> # vs, fq_UpdatedAt := now\<rparr>)))"

definition followUp_release :: "followUpQueueState \<Rightarrow> FollowUpClaimRef \<Rightarrow> gotime \<Rightarrow> GoError + followUpQueueState" where
  "followUp_release state ref now =
     (case List.extract (followUpClaimedAs ref) (fq_Items state) of
        None \<Rightarrow> Inl ErrQueueInvalidReference
      | Some (us, item, vs) \<Rightarrow>
          Inr (state\<lparr>fq_Items := us @ item\<lparr>fi_Status := QueueAccepted, fi_Claim := None\<rparr> # vs,
                     fq_TerminalClaims := mapDel (fc_TriggerRunID ref) (fq_TerminalClaims state),
                     fq_UpdatedAt := now\<rparr>))"

definition followUp_reject ::
    "followUpQueueState \<Rightarrow> FollowUpClaimRef \<Rightarrow> string \<Rightarrow> gotime \<Rightarrow> GoError + followUpQueueState" where
  "followUp_reject state ref errorCode now =
     (case List.extract (followUpClaimedAs ref) (fq_Items state) of
        None \<Rightarrow> Inl ErrQueueInvalidReference
      | Some (us, item, vs) \<Rightarrow>
          Inr (followUp_compact (state\<lparr>
                 fq_Items := us @ item\<lparr>fi_Status := QueueRejected, fi_ErrorCode := errorCode, fi_Claim := None\<rparr> # vs,
                 fq_TerminalClaims := mapDel (fc_TriggerRunID ref) (fq_TerminalClaims state),
                 fq_UpdatedAt := now\<rparr>)))"

definition followUpPendingAs :: "string \<Rightarrow> FollowUpItem \<Rightarrow> bool" where
  "followUpPendingAs itemID item \<longleftrightarrow> fi_ID item = itemID \<and> fi_Status item = QueueAccepted"

definition followUp_edit ::
    "followUpQueueState \<Rightarrow> string \<Rightarrow> bytes \<Rightarrow> gotime \<Rightarrow> GoError + followUpQueueState \<times> FollowUpItem" where
  "followUp_edit state itemID payload now =
     (case List.extract (followUpPendingAs itemID) (fq_Items state) of
        None \<Rightarrow> Inl ErrQueueNotPending
      | Some (us, item, vs) \<Rightarrow>
          (let item' = item\<lparr>fi_Payload := payload\<rparr>
           in Inr (state\<lparr>fq_Items := us @ item' # vs, fq_UpdatedAt := now\<rparr>, item')))"

definition followUp_cancel :: "followUpQueueState \<Rightarrow> string \<Rightarrow> gotime \<Rightarrow> GoError + followUpQueueState" where
  "followUp_cancel state itemID now =
     (case List.extract (followUpPendingAs itemID) (fq_Items state) of
        None \<Rightarrow> Inl ErrQueueNotPending
      | Some (us, item, vs) \<Rightarrow>
          Inr (followUp_compact (state\<lparr>fq_Items := us @ item\<lparr>fi_Status := QueueCanceled\<rparr> # vs, fq_UpdatedAt := now\<rparr>)))"

definition followUp_enqueue ::
    "followUpQueueState \<Rightarrow> Key \<Rightarrow> string \<Rightarrow> string \<Rightarrow> string \<Rightarrow> bytes \<Rightarrow> gotime \<Rightarrow> GoError + followUpQueueState \<times> FollowUpItem" where
  "followUp_enqueue state key itemID invocationID runID payload now =
     (if MaxPendingQueueItems \<le> countPendingFollowUps state then Inl ErrQueueCapacityExceeded
      else
        (let item = \<lparr>fi_ID = itemID, fi_BotID = k_BotID key, fi_SessionID = k_SessionID key,
                     fi_EnqueuedDuringRunID = runID, fi_InvocationID = invocationID, fi_Payload = payload,
                     fi_Status = QueueAccepted, fi_Position = nextFollowUpPosition state, fi_Claim = None,
                     fi_ErrorCode = '''', fi_CreatedAt = now\<rparr>
         in Inr (state\<lparr>fq_Items := fq_Items state @ [item], fq_UpdatedAt := now\<rparr>, item)))"

section \<open>Promotion of a follow-up to a steer\<close>

definition queue_promote ::
    "steerQueueState \<Rightarrow> followUpQueueState \<Rightarrow> Key \<Rightarrow> string \<Rightarrow> FollowUpPendingRef \<Rightarrow> gotime \<Rightarrow> string \<Rightarrow>
     GoError + (steerQueueState \<times> followUpQueueState) \<times> PromoteFollowUpResult" where
  "queue_promote steers follows key runID ref now newID =
     (let steerID = mapGet '''' (sq_PromotedFollowUpItems steers) (fp_ItemID ref) in
      if steerID \<noteq> '''' then
        (case List.find (\<lambda>existing. si_ID existing = steerID) (sq_Items steers) of
           Some existing \<Rightarrow> Inr ((steers, follows), \<lparr>pr_FollowUp = ref, pr_Steer = existing\<rparr>)
         | None \<Rightarrow> Inl ErrQueueInvalidReference)
      else
        (case List.extract (followUpPendingAs (fp_ItemID ref)) (fq_Items follows) of
           None \<Rightarrow> Inl ErrQueueNotPending
         | Some (us, item, vs) \<Rightarrow>
             (if MaxPendingQueueItems \<le> countPendingSteers steers then Inl ErrQueueCapacityExceeded
              else
                (let steer = \<lparr>si_ID = newID, si_BotID = k_BotID key, si_SessionID = k_SessionID key,
                              si_TargetRunID = runID, si_InvocationID = ''promote:'' @ fp_ItemID ref,
                              si_Payload = fi_Payload item, si_Status = QueueAccepted,
                              si_Position = nextSteerPosition steers, si_Claim = None,
                              si_ErrorCode = '''', si_CreatedAt = now\<rparr>;
                     steers' = steers\<lparr>
                       sq_Items := sq_Items steers @ [steer],
                       sq_PromotedFollowUpItems := mapPut (fp_ItemID ref) newID (sq_PromotedFollowUpItems steers),
                       sq_UpdatedAt := now\<rparr>;
                     follows' = followUp_compact (follows\<lparr>
                       fq_Items := us @ item\<lparr>fi_Status := QueueCanceled\<rparr> # vs, fq_UpdatedAt := now\<rparr>)
                 in Inr ((steers', follows'), \<lparr>pr_FollowUp = ref, pr_Steer = steer\<rparr>)))))"

end
