(* ===== verification/ClaimLedger.thy ===== *)
theory ClaimLedger
  imports QueueOps
begin

text \<open>
  What the steer queue and the follow-up queue have in common. A \<open>queue_cell\<close>
  is the part of an item that claims are about: its ID, its status and, when it
  is claimed, the claim's item, the run whose slot it occupies and its token.
  \<open>cellsOK\<close> is the well-formedness of a queue in these terms, with the lemmas that
  carry it through the three shapes of update the transitions have. The second
  half is the contract of exactly-once consumption as the locale \<open>claim_ledger\<close>:
  from what single steps do to the outstanding claims it derives what holds of
  every run of a queue.
\<close>

section \<open>Cells\<close>

record claim_info =
  ci_ItemID :: string
  ci_Slot :: string
  ci_Token :: string

record queue_cell =
  qc_ID :: string
  qc_Status :: QueueStatus
  qc_Claim :: "claim_info option"

definition liveCell :: "queue_cell \<Rightarrow> bool" where
  "liveCell c \<longleftrightarrow> \<not> QueueStatus_terminal (qc_Status c)"

definition heldCell :: "queue_cell \<Rightarrow> claim_info option" where
  "heldCell c = (if qc_Status c = QueueClaimed then qc_Claim c else None)"

definition heldCells :: "queue_cell list \<Rightarrow> claim_info list" where
  "heldCells cs = List.map_filter heldCell cs"

definition cellOK :: "queue_cell \<Rightarrow> bool" where
  "cellOK c \<longleftrightarrow> qc_ID c \<noteq> '''' \<and>
     (qc_Status c = QueueClaimed \<longrightarrow> (\<exists>i. qc_Claim c = Some i \<and> ci_ItemID i = qc_ID c)) \<and>
     (qc_Claim c \<noteq> None \<longrightarrow> qc_Status c = QueueClaimed \<or> qc_Status c = QueueApplied)"

definition cellsOK :: "queue_cell list \<Rightarrow> bool" where
  "cellsOK cs \<longleftrightarrow> (\<forall>c\<in>set cs. cellOK c) \<and> distinct (map qc_ID cs) \<and>
     distinct (map ci_Slot (heldCells cs)) \<and> distinct (map ci_Token (heldCells cs))"

definition terminalCells :: "queue_cell list \<Rightarrow> nat" where
  "terminalCells cs = length (filter (\<lambda>c. \<not> liveCell c) cs)"

lemma heldCells_simps [simp]:
  "heldCells [] = []"
  "heldCells (c # cs) = (case heldCell c of None \<Rightarrow> heldCells cs | Some i \<Rightarrow> i # heldCells cs)"
  "heldCells (cs @ ds) = heldCells cs @ heldCells ds"
  by (simp_all add: heldCells_def List.map_filter_def split: option.splits)

lemma heldCells_set: "i \<in> set (heldCells cs) \<longleftrightarrow> (\<exists>c\<in>set cs. qc_Status c = QueueClaimed \<and> qc_Claim c = Some i)"
  by (induction cs) (auto simp: heldCell_def split: if_splits option.splits)

lemma heldCells_live: "heldCells (filter liveCell cs) = heldCells cs"
  by (induction cs) (auto simp: heldCell_def liveCell_def split: option.splits)

lemma terminalCells_simps [simp]:
  "terminalCells [] = 0"
  "terminalCells (c # cs) = (if liveCell c then terminalCells cs else Suc (terminalCells cs))"
  "terminalCells (cs @ ds) = terminalCells cs + terminalCells ds"
  by (simp_all add: terminalCells_def)

text \<open>A new accepted item at the end of the queue.\<close>

lemma cellsOK_snoc:
  assumes "cellsOK cs" "qc_Status c = QueueAccepted" "qc_Claim c = None" "qc_ID c \<noteq> ''''" "qc_ID c \<notin> qc_ID ` set cs"
  shows "cellsOK (cs @ [c])" "heldCells (cs @ [c]) = heldCells cs" "terminalCells (cs @ [c]) = terminalCells cs"
  using assms by (auto simp: cellsOK_def cellOK_def heldCell_def liveCell_def)

text \<open>One item changed in place without a claim, or with a claim on free slot and token.\<close>

lemma cellsOK_update:
  assumes "cellsOK (us @ c # vs)" "qc_ID d = qc_ID c" "cellOK d"
    and "\<And>i. heldCell d = Some i \<Longrightarrow>
      ci_Slot i \<notin> ci_Slot ` set (heldCells (us @ vs)) \<and> ci_Token i \<notin> ci_Token ` set (heldCells (us @ vs))"
  shows "cellsOK (us @ d # vs)"
  using assms by (cases "heldCell d"; cases "heldCell c") (auto simp: cellsOK_def)

lemma cellsOK_unclaim:
  assumes "cellsOK (us @ c # vs)" "qc_ID d = qc_ID c" "cellOK d" "qc_Status d \<noteq> QueueClaimed"
  shows "cellsOK (us @ d # vs)"
  by (rule cellsOK_update [OF assms(1-3)]) (use assms(4) in \<open>simp add: heldCell_def\<close>)

lemma heldCells_update:
  assumes "heldCell c = Some i" "cellsOK (us @ c # vs)" "heldCell d = None"
  shows "ci_Token ` set (heldCells (us @ d # vs)) = ci_Token ` set (heldCells (us @ c # vs)) - {ci_Token i}"
  using assms by (fastforce simp: cellsOK_def rev_image_eqI)

text \<open>Removal of terminal items.\<close>

definition thins :: "queue_cell list \<Rightarrow> queue_cell list \<Rightarrow> bool" where
  "thins cs cs' \<longleftrightarrow> subseq cs' cs \<and> filter liveCell cs' = filter liveCell cs"

lemma thins_refl [simp]: "thins cs cs"
  by (simp add: thins_def)

lemma thins_held: "thins cs cs' \<Longrightarrow> heldCells cs' = heldCells cs"
  by (metis thins_def heldCells_live)

lemma thins_subset: "thins cs cs' \<Longrightarrow> set cs' \<subseteq> set cs"
  by (auto simp: thins_def dest: list_emb_set)

lemma subseq_distinct: "subseq xs ys \<Longrightarrow> distinct ys \<Longrightarrow> distinct xs"
  by (metis subseq_conv_nths distinct_nthsI)

lemma thins_cellsOK:
  assumes "thins cs cs'" "cellsOK cs"
  shows "cellsOK cs'"
proof -
  have "subseq (map qc_ID cs') (map qc_ID cs)" using assms(1) by (simp add: thins_def subseq_map)
  then have "distinct (map qc_ID cs')" using assms(2) subseq_distinct by (auto simp: cellsOK_def)
  then show ?thesis
    using assms thins_held [OF assms(1)] thins_subset [OF assms(1)] by (auto simp: cellsOK_def)
qed

text \<open>Items rejected in place: the claims that stay are a part of the claims there were.\<close>

lemma heldCells_map:
  assumes "\<And>x. x \<in> set xs \<Longrightarrow> h x = g x \<or> heldCell (h x) = None"
  shows "subseq (heldCells (map h xs)) (heldCells (map g xs))"
  using assms
proof (induction xs)
  case Nil
  then show ?case by simp
next
  case (Cons x xs)
  then have ih: "subseq (heldCells (map h xs)) (heldCells (map g xs))" by simp
  from Cons.prems [of x] consider "h x = g x" | "heldCell (h x) = None" by auto
  then show ?case
    by cases (use ih in \<open>simp_all add: list_emb_Cons split: option.split\<close>)
qed

lemma cellsOK_map:
  assumes "cellsOK (map g xs)" "\<And>x. x \<in> set xs \<Longrightarrow> h x = g x \<or> (cellOK (h x) \<and> heldCell (h x) = None)"
    "\<And>x. qc_ID (h x) = qc_ID (g x)"
  shows "cellsOK (map h xs)"
proof -
  have sub: "subseq (heldCells (map h xs)) (heldCells (map g xs))"
    by (rule heldCells_map, drule assms(2)) (elim disjE conjE, simp_all)
  have "distinct (map ci_Slot (heldCells (map h xs)))" "distinct (map ci_Token (heldCells (map h xs)))"
    by (rule subseq_distinct [OF subseq_map [OF sub]], use assms(1) in \<open>simp add: cellsOK_def\<close>)+
  moreover have "map qc_ID (map h xs) = map qc_ID (map g xs)" by (simp add: assms(3))
  moreover have "\<forall>x\<in>set xs. cellOK (h x)"
    by (intro ballI, frule assms(2)) (use assms(1) in \<open>auto simp: cellsOK_def\<close>)
  moreover have "distinct (map qc_ID (map g xs))" using assms(1) by (simp only: cellsOK_def)
  ultimately show ?thesis unfolding cellsOK_def by (metis (no_types, lifting) image_iff image_set)
qed

section \<open>Exactly-once consumption\<close>

text \<open>
  A step of a queue hands out a new claim token, settles one (applied, released
  or rejected), or does neither. A run only ever issues tokens it did not issue
  before: the source draws them as random UUIDs.
\<close>

datatype claim_event = Issue string | Settle string | Quiet

definition issued :: "claim_event list \<Rightarrow> string set" where
  "issued tr = {t. Issue t \<in> set tr}"

definition settled :: "claim_event list \<Rightarrow> string set" where
  "settled tr = {t. Settle t \<in> set tr}"

definition freshEvent :: "claim_event list \<Rightarrow> claim_event \<Rightarrow> bool" where
  "freshEvent tr e = (case e of Issue t \<Rightarrow> t \<notin> issued tr | _ \<Rightarrow> True)"

inductive ledger_run :: "('q \<Rightarrow> claim_event \<Rightarrow> 'q \<Rightarrow> bool) \<Rightarrow> 'q \<Rightarrow> claim_event list \<Rightarrow> 'q \<Rightarrow> bool"
  for step :: "'q \<Rightarrow> claim_event \<Rightarrow> 'q \<Rightarrow> bool" and q0 :: 'q where
  run_nil: "ledger_run step q0 [] q0"
| run_snoc: "ledger_run step q0 tr q \<Longrightarrow> step q e q' \<Longrightarrow> freshEvent tr e \<Longrightarrow> ledger_run step q0 (tr @ [e]) q'"

inductive_cases ledger_run_snocE: "ledger_run step q0 (tr @ [e]) q"

definition settledOnce :: "claim_event list \<Rightarrow> bool" where
  "settledOnce tr \<longleftrightarrow>
     (\<forall>us t vs. tr = us @ Settle t # vs \<longrightarrow> t \<in> issued us \<and> t \<notin> settled us)"

lemma settledOnce_Nil: "settledOnce []"
  by (simp add: settledOnce_def)

lemma settledOnce_snoc:
  "settledOnce tr \<Longrightarrow> (\<And>t. e = Settle t \<Longrightarrow> t \<in> issued tr \<and> t \<notin> settled tr) \<Longrightarrow> settledOnce (tr @ [e])"
  unfolding settledOnce_def by (auto simp: append_eq_append_conv2 append_eq_Cons_conv Cons_eq_append_conv)

locale claim_ledger =
  fixes inv :: "'q \<Rightarrow> bool"
    and outstanding :: "'q \<Rightarrow> string set"
    and step :: "'q \<Rightarrow> claim_event \<Rightarrow> 'q \<Rightarrow> bool"
  assumes step_inv: "inv q \<Longrightarrow> step q e q' \<Longrightarrow> (\<And>t. e = Issue t \<Longrightarrow> t \<notin> outstanding q) \<Longrightarrow> inv q'"
    and step_issue: "inv q \<Longrightarrow> step q (Issue t) q' \<Longrightarrow> t \<notin> outstanding q \<Longrightarrow> outstanding q' \<subseteq> insert t (outstanding q)"
    and step_settle: "inv q \<Longrightarrow> step q (Settle t) q' \<Longrightarrow> t \<in> outstanding q \<and> outstanding q' \<subseteq> outstanding q - {t}"
    and step_quiet: "inv q \<Longrightarrow> step q Quiet q' \<Longrightarrow> outstanding q' \<subseteq> outstanding q"
begin

lemma run_facts:
  assumes "ledger_run step q0 tr q" "inv q0" "outstanding q0 = {}"
  shows "inv q \<and> outstanding q \<subseteq> issued tr - settled tr \<and> settled tr \<subseteq> issued tr \<and> settledOnce tr"
  using assms
proof (induction rule: ledger_run.induct)
  case run_nil
  then show ?case by (simp add: settledOnce_Nil issued_def settled_def)
next
  case (run_snoc tr q e q')
  then have ih: "inv q" "outstanding q \<subseteq> issued tr - settled tr" "settled tr \<subseteq> issued tr" "settledOnce tr"
    by auto
  have "inv q'"
    by (rule step_inv [OF ih(1) run_snoc.hyps(2)]) (use run_snoc.hyps(3) ih(2) in \<open>auto simp: freshEvent_def\<close>)
  moreover have "settledOnce (tr @ [e])"
    by (rule settledOnce_snoc [OF ih(4)]) (use step_settle [OF ih(1)] run_snoc.hyps(2) ih(2) in blast)
  moreover have "outstanding q' \<subseteq> issued (tr @ [e]) - settled (tr @ [e]) \<and> settled (tr @ [e]) \<subseteq> issued (tr @ [e])"
  proof (cases e)
    case (Issue t)
    then have "t \<notin> issued tr" using run_snoc.hyps(3) by (simp add: freshEvent_def)
    moreover from this have "outstanding q' \<subseteq> insert t (outstanding q)"
      using step_issue [OF ih(1)] run_snoc.hyps(2) Issue ih(2) by blast
    ultimately show ?thesis using Issue ih(2,3) by (auto simp: issued_def settled_def)
  next
    case (Settle t)
    then show ?thesis
      using step_settle [OF ih(1)] run_snoc.hyps(2) ih(2,3) by (fastforce simp: issued_def settled_def)
  next
    case Quiet
    then show ?thesis
      using step_quiet [OF ih(1)] run_snoc.hyps(2) ih(2,3) by (fastforce simp: issued_def settled_def)
  qed
  ultimately show ?case by blast
qed

lemmas run_inv = run_facts [THEN conjunct1]
lemmas run_settledOnce = run_facts [THEN conjunct2, THEN conjunct2, THEN conjunct2]

end

end
