(* ===== verification/LiveQueueInv.thy ===== *)
theory LiveQueueInv
  imports LiveQueue ClaimLedger
begin

text \<open>
  The invariants of the two session queues, that every transition keeps them, and
  what each transition does to the outstanding claims.
\<close>

section \<open>Invariants\<close>

definition steerCell :: "SteerItem \<Rightarrow> queue_cell" where
  "steerCell item = \<lparr>qc_ID = si_ID item, qc_Status = si_Status item,
     qc_Claim = map_option (\<lambda>c. \<lparr>ci_ItemID = sc_ItemID c, ci_Slot = sc_RunID c, ci_Token = sc_ClaimToken c\<rparr>) (si_Claim item)\<rparr>"

definition followUpCell :: "FollowUpItem \<Rightarrow> queue_cell" where
  "followUpCell item = \<lparr>qc_ID = fi_ID item, qc_Status = fi_Status item,
     qc_Claim = map_option (\<lambda>c. \<lparr>ci_ItemID = fc_ItemID c, ci_Slot = fc_TriggerRunID c, ci_Token = fc_ClaimToken c\<rparr>) (fi_Claim item)\<rparr>"

abbreviation steerCells :: "steerQueueState \<Rightarrow> queue_cell list" where
  "steerCells s \<equiv> map steerCell (sq_Items s)"

abbreviation followUpCells :: "followUpQueueState \<Rightarrow> queue_cell list" where
  "followUpCells f \<equiv> map followUpCell (fq_Items f)"

text \<open>A steer in the hands of a run is a steer for that run.\<close>

definition steerTargetOK :: "SteerItem \<Rightarrow> bool" where
  "steerTargetOK item \<longleftrightarrow>
     (si_Status item = QueueClaimed \<longrightarrow> (\<exists>c. si_Claim item = Some c \<and> sc_RunID c = si_TargetRunID item))"

definition steer_inv :: "steerQueueState \<Rightarrow> bool" where
  "steer_inv s \<longleftrightarrow> cellsOK (steerCells s) \<and> terminalCells (steerCells s) \<le> queueTerminalRetention \<and>
     (\<forall>item\<in>set (sq_Items s). steerTargetOK item) \<and>
     wfMap (sq_PromotedFollowUpItems s) \<and> snd ` set (sq_PromotedFollowUpItems s) \<subseteq> si_ID ` set (sq_Items s)"

text \<open>The claim record names, for each claimed item, that item under its trigger run.\<close>

definition followUpRecorded :: "(string, string) gomap \<Rightarrow> FollowUpItem \<Rightarrow> bool" where
  "followUpRecorded claims item \<longleftrightarrow>
     (fi_Status item = QueueClaimed \<longrightarrow>
       (\<exists>c. fi_Claim item = Some c \<and> map_of claims (fc_TriggerRunID c) = Some (fi_ID item)))"

definition followUp_inv :: "followUpQueueState \<Rightarrow> bool" where
  "followUp_inv f \<longleftrightarrow> cellsOK (followUpCells f) \<and> terminalCells (followUpCells f) \<le> queueTerminalRetention \<and>
     wfMap (fq_TerminalClaims f) \<and> '''' \<notin> snd ` set (fq_TerminalClaims f) \<and>
     (\<forall>item\<in>set (fq_Items f). followUpRecorded (fq_TerminalClaims f) item)"

definition steerTokens :: "steerQueueState \<Rightarrow> string set" where
  "steerTokens s = ci_Token ` set (heldCells (steerCells s))"

definition followUpTokens :: "followUpQueueState \<Rightarrow> string set" where
  "followUpTokens f = ci_Token ` set (heldCells (followUpCells f))"

lemma steerCell_simps [simp]:
  "qc_ID (steerCell x) = si_ID x" "qc_Status (steerCell x) = si_Status x"
  "qc_Claim (steerCell x) = None \<longleftrightarrow> si_Claim x = None"
  by (simp_all add: steerCell_def)

lemma followUpCell_simps [simp]:
  "qc_ID (followUpCell x) = fi_ID x" "qc_Status (followUpCell x) = fi_Status x"
  "qc_Claim (followUpCell x) = None \<longleftrightarrow> fi_Claim x = None"
  by (simp_all add: followUpCell_def)

lemma map_qc_ID [simp]:
  "map qc_ID (map steerCell xs) = map si_ID xs" "map qc_ID (map followUpCell ys) = map fi_ID ys"
  by simp_all

lemma image_qc_ID [simp]:
  "qc_ID ` steerCell ` A = si_ID ` A" "qc_ID ` followUpCell ` B = fi_ID ` B"
  by (simp_all add: image_image)

named_theorems queue_inv

section \<open>Compaction\<close>

lemma compact_subseq: "subseq (compactQueueItems describe items) items"
  unfolding compactQueueItems_nths by (auto simp: subseq_conv_nths)

lemma compact_thins:
  assumes "\<And>x. qc_Status (cell x) = fst (describe x)"
  shows "thins (map cell items) (map cell (compactQueueItems describe items))"
    "terminalCells (map cell (compactQueueItems describe items)) \<le> queueTerminalRetention"
proof -
  have "filter (liveCell \<circ> cell) (compactQueueItems describe items) = filter (liveCell \<circ> cell) items"
    by (rule compact_filter_live) (simp add: liveCell_def terminalItem_def assms)
  then show "thins (map cell items) (map cell (compactQueueItems describe items))"
    by (simp only: thins_def filter_map subseq_map [OF compact_subseq] simp_thms)
  have "(\<lambda>c. \<not> liveCell c) \<circ> cell = terminalItem describe"
    by (auto simp: liveCell_def terminalItem_def assms)
  then show "terminalCells (map cell (compactQueueItems describe items)) \<le> queueTerminalRetention"
    by (simp add: terminalCells_def filter_map compact_terminal_length)
qed

lemma steer_thins:
  "thins (map steerCell items) (map steerCell (compactQueueItems describeSteer items))"
  "terminalCells (map steerCell (compactQueueItems describeSteer items)) \<le> queueTerminalRetention"
  by (rule compact_thins, simp add: describeSteer_def)+

lemma followUp_thins:
  "thins (map followUpCell items) (map followUpCell (compactQueueItems describeFollowUp items))"
  "terminalCells (map followUpCell (compactQueueItems describeFollowUp items)) \<le> queueTerminalRetention"
  by (rule compact_thins, simp add: describeFollowUp_def)+

text \<open>The invariants up to the bounds that compaction restores.\<close>

definition steer_pre :: "steerQueueState \<Rightarrow> bool" where
  "steer_pre s \<longleftrightarrow> cellsOK (steerCells s) \<and> (\<forall>item\<in>set (sq_Items s). steerTargetOK item) \<and>
     wfMap (sq_PromotedFollowUpItems s)"

definition followUp_pre :: "followUpQueueState \<Rightarrow> bool" where
  "followUp_pre f \<longleftrightarrow> cellsOK (followUpCells f) \<and> wfMap (fq_TerminalClaims f) \<and>
     '''' \<notin> snd ` set (fq_TerminalClaims f) \<and>
     (\<forall>item\<in>set (fq_Items f). followUpRecorded (fq_TerminalClaims f) item)"

lemma steer_compact_items: "sq_Items (steer_compact s) = compactQueueItems describeSteer (sq_Items s)"
  by (simp add: steer_compact_def Let_def)

lemma followUp_compact_items: "fq_Items (followUp_compact f) = compactQueueItems describeFollowUp (fq_Items f)"
  by (simp add: followUp_compact_def Let_def)

lemma steer_compact_inv [queue_inv]: "steer_pre s \<Longrightarrow> steer_inv (steer_compact s)"
  unfolding steer_inv_def steer_pre_def steer_compact_items
  using steer_thins [of "sq_Items s"] compact_subset [of describeSteer "sq_Items s"]
  by (auto simp: steer_compact_def Let_def intro: thins_cellsOK)

lemma steer_compact_tokens: "steerTokens (steer_compact s) = steerTokens s"
  unfolding steerTokens_def steer_compact_items by (simp add: thins_held [OF steer_thins(1)])

text \<open>Pruning the claim record never drops the entry of a claimed item.\<close>

lemma followUp_compact_recorded:
  assumes "followUp_pre f" "item \<in> set (compactQueueItems describeFollowUp (fq_Items f))"
  shows "followUpRecorded (fq_TerminalClaims (followUp_compact f)) item"
proof -
  have rec: "followUpRecorded (fq_TerminalClaims f) item"
    using assms compact_subset by (fastforce simp: followUp_pre_def)
  moreover have "wfMap (fq_TerminalClaims f)" using assms(1) by (simp add: followUp_pre_def)
  ultimately show ?thesis
    using assms(2) by (fastforce simp: followUp_compact_def Let_def followUpRecorded_def map_of_filter_wf)
qed

lemma followUp_compact_inv [queue_inv]:
  assumes "followUp_pre f"
  shows "followUp_inv (followUp_compact f)"
proof -
  have "cellsOK (followUpCells (followUp_compact f))"
    using thins_cellsOK [OF followUp_thins(1)] assms by (simp add: followUp_compact_items followUp_pre_def)
  moreover have "wfMap (fq_TerminalClaims (followUp_compact f))"
      "'''' \<notin> snd ` set (fq_TerminalClaims (followUp_compact f))"
    using assms by (auto simp: followUp_pre_def followUp_compact_def Let_def)
  ultimately show ?thesis
    using followUp_compact_recorded [OF assms] followUp_thins(2)
    by (simp add: followUp_inv_def followUp_compact_items)
qed

lemma followUp_compact_tokens: "followUpTokens (followUp_compact f) = followUpTokens f"
  unfolding followUpTokens_def followUp_compact_items by (simp add: thins_held [OF followUp_thins(1)])

section \<open>The steer queue\<close>

text \<open>One steer changed in place, keeping its ID and ending up unclaimed.\<close>

lemma steer_pre_update:
  assumes "steer_inv s" "sq_Items s = us @ x # vs" "si_ID y = si_ID x" "si_Status y \<noteq> QueueClaimed"
    and "si_Claim y \<noteq> None \<Longrightarrow> si_Status y = QueueApplied"
  shows "steer_pre (s\<lparr>sq_Items := us @ y # vs, sq_UpdatedAt := now\<rparr>)"
proof -
  have "cellsOK (map steerCell us @ steerCell x # map steerCell vs)"
    using assms(1,2) by (simp add: steer_inv_def)
  moreover have "si_ID x \<noteq> ''''" using assms(1,2) by (simp add: steer_inv_def cellsOK_def cellOK_def)
  ultimately have "cellsOK (map steerCell us @ steerCell y # map steerCell vs)"
    by (rule_tac cellsOK_unclaim) (use assms(3-5) in \<open>auto simp: cellOK_def\<close>)
  then show ?thesis
    using assms by (simp add: steer_pre_def steer_inv_def steerTargetOK_def)
qed

lemma steer_inv_update:
  assumes "steer_inv s" "sq_Items s = us @ x # vs" "si_ID y = si_ID x" "\<not> QueueStatus_terminal (si_Status y)"
    and "si_Status y \<noteq> QueueClaimed" "si_Claim y = None"
  shows "steer_inv (s\<lparr>sq_Items := us @ y # vs, sq_UpdatedAt := now\<rparr>)"
proof -
  have "steer_pre (s\<lparr>sq_Items := us @ y # vs, sq_UpdatedAt := now\<rparr>)"
    by (rule steer_pre_update) (use assms in simp_all)
  then show ?thesis
    using assms by (auto simp: steer_pre_def steer_inv_def liveCell_def split: if_splits)
qed

lemma steer_held_cell:
  "steerClaimedAs ref x \<Longrightarrow> heldCell (steerCell x) =
     Some \<lparr>ci_ItemID = sc_ItemID ref, ci_Slot = sc_RunID ref, ci_Token = sc_ClaimToken ref\<rparr>"
  by (simp add: heldCell_def steerClaimedAs_def steerCell_def)

lemma steer_token_held:
  "sq_Items s = us @ x # vs \<Longrightarrow> steerClaimedAs ref x \<Longrightarrow> sc_ClaimToken ref \<in> steerTokens s"
  by (simp add: steerTokens_def steer_held_cell)

lemma steer_tokens_update:
  assumes "steer_inv s" "sq_Items s = us @ x # vs" "steerClaimedAs ref x" "si_Status y \<noteq> QueueClaimed"
  shows "steerTokens (s\<lparr>sq_Items := us @ y # vs, sq_UpdatedAt := now\<rparr>) = steerTokens s - {sc_ClaimToken ref}"
proof -
  have "cellsOK (map steerCell us @ steerCell x # map steerCell vs)" "heldCell (steerCell y) = None"
    using assms by (simp_all add: steer_inv_def heldCell_def)
  from heldCells_update [OF steer_held_cell [OF assms(3)] this] show ?thesis
    by (simp add: steerTokens_def assms(2))
qed

lemma steer_applyD:
  assumes "steer_apply s ref now = Inr s'" "steer_inv s"
  shows "steer_inv s'" "steerTokens s' = steerTokens s - {sc_ClaimToken ref}" "sc_ClaimToken ref \<in> steerTokens s"
proof -
  from assms(1) obtain us x vs where x: "sq_Items s = us @ x # vs" "steerClaimedAs ref x"
    and s': "s' = steer_compact (s\<lparr>sq_Items := us @ x\<lparr>si_Status := QueueApplied\<rparr> # vs, sq_UpdatedAt := now\<rparr>)"
    by (auto simp: steer_apply_def split: option.splits dest: extract_SomeD)
  have "steer_pre (s\<lparr>sq_Items := us @ x\<lparr>si_Status := QueueApplied\<rparr> # vs, sq_UpdatedAt := now\<rparr>)"
    by (rule steer_pre_update [OF assms(2) x(1)]) simp_all
  then show "steer_inv s'" unfolding s' by (rule steer_compact_inv)
  show "steerTokens s' = steerTokens s - {sc_ClaimToken ref}" "sc_ClaimToken ref \<in> steerTokens s"
    using steer_tokens_update [OF assms(2) x, of "x\<lparr>si_Status := QueueApplied\<rparr>" now] steer_token_held [OF x]
    by (simp_all add: s' steer_compact_tokens)
qed

lemma steer_releaseD:
  assumes "steer_release s ref now = Inr s'" "steer_inv s"
  shows "steer_inv s'" "steerTokens s' = steerTokens s - {sc_ClaimToken ref}" "sc_ClaimToken ref \<in> steerTokens s"
proof -
  from assms(1) obtain us x vs where x: "sq_Items s = us @ x # vs" "steerClaimedAs ref x"
    and s': "s' = s\<lparr>sq_Items := us @ x\<lparr>si_Status := QueueAccepted, si_Claim := None\<rparr> # vs, sq_UpdatedAt := now\<rparr>"
    by (auto simp: steer_release_def split: option.splits dest: extract_SomeD)
  show "steer_inv s'" unfolding s' by (rule steer_inv_update [OF assms(2) x(1)]) simp_all
  show "steerTokens s' = steerTokens s - {sc_ClaimToken ref}" "sc_ClaimToken ref \<in> steerTokens s"
    using steer_tokens_update [OF assms(2) x, of "x\<lparr>si_Status := QueueAccepted, si_Claim := None\<rparr>" now] steer_token_held [OF x]
    by (simp_all add: s')
qed

lemma steer_tokens_pending:
  assumes "sq_Items s = us @ x # vs" "si_Status x = QueueAccepted" "si_Status y \<noteq> QueueClaimed"
  shows "steerTokens (s\<lparr>sq_Items := us @ y # vs, sq_UpdatedAt := now\<rparr>) = steerTokens s"
  using assms by (simp add: steerTokens_def heldCell_def)

lemma steer_pending_unclaimed:
  "steer_inv s \<Longrightarrow> x \<in> set (sq_Items s) \<Longrightarrow> si_Status x = QueueAccepted \<Longrightarrow> si_Claim x = None"
  by (auto simp: steer_inv_def cellsOK_def cellOK_def)

lemma steer_editD:
  assumes "steer_edit s itemID payload now = Inr (s', item)" "steer_inv s"
  shows "steer_inv s'" "steerTokens s' = steerTokens s"
proof -
  from assms(1) obtain us x vs where x: "sq_Items s = us @ x # vs" "steerPendingAs itemID x"
    and s': "s' = s\<lparr>sq_Items := us @ x\<lparr>si_Payload := payload\<rparr> # vs, sq_UpdatedAt := now\<rparr>"
    by (auto simp: steer_edit_def Let_def split: option.splits dest: extract_SomeD)
  have "si_Status x = QueueAccepted" using x(2) by (simp add: steerPendingAs_def)
  moreover from this have "si_Claim x = None" using steer_pending_unclaimed [OF assms(2)] x(1) by simp
  ultimately show "steer_inv s'" "steerTokens s' = steerTokens s"
    unfolding s' by (auto intro!: steer_inv_update [OF assms(2) x(1)] steer_tokens_pending [OF x(1)])
qed

lemma steer_cancelD:
  assumes "steer_cancel s itemID now = Inr s'" "steer_inv s"
  shows "steer_inv s'" "steerTokens s' = steerTokens s"
proof -
  from assms(1) obtain us x vs where x: "sq_Items s = us @ x # vs" "steerPendingAs itemID x"
    and s': "s' = steer_compact (s\<lparr>sq_Items := us @ x\<lparr>si_Status := QueueCanceled\<rparr> # vs, sq_UpdatedAt := now\<rparr>)"
    by (auto simp: steer_cancel_def split: option.splits dest: extract_SomeD)
  have st: "si_Status x = QueueAccepted" using x(2) by (simp add: steerPendingAs_def)
  then have "si_Claim x = None" using steer_pending_unclaimed [OF assms(2)] x(1) by simp
  then have "steer_pre (s\<lparr>sq_Items := us @ x\<lparr>si_Status := QueueCanceled\<rparr> # vs, sq_UpdatedAt := now\<rparr>)"
    by (intro steer_pre_update [OF assms(2) x(1)]) simp_all
  then show "steer_inv s'" "steerTokens s' = steerTokens s"
    using steer_tokens_pending [OF x(1) st, of "x\<lparr>si_Status := QueueCanceled\<rparr>" now]
    by (simp_all add: s' steer_compact_inv steer_compact_tokens)
qed

lemma steer_snoc:
  assumes "steer_inv s" "si_Status x = QueueAccepted" "si_Claim x = None" "si_ID x \<noteq> ''''"
    "si_ID x \<notin> si_ID ` set (sq_Items s)" "wfMap m"
    "snd ` set m \<subseteq> insert (si_ID x) (snd ` set (sq_PromotedFollowUpItems s))"
  shows "steer_inv (s\<lparr>sq_Items := sq_Items s @ [x], sq_PromotedFollowUpItems := m, sq_ClosedRunID := r, sq_UpdatedAt := now\<rparr>)"
    "steerTokens (s\<lparr>sq_Items := sq_Items s @ [x], sq_PromotedFollowUpItems := m, sq_ClosedRunID := r, sq_UpdatedAt := now\<rparr>) = steerTokens s"
proof -
  have "cellsOK (steerCells s @ [steerCell x])" "heldCells (steerCells s @ [steerCell x]) = heldCells (steerCells s)"
    "terminalCells (steerCells s @ [steerCell x]) = terminalCells (steerCells s)"
    using assms by (intro cellsOK_snoc; simp add: steer_inv_def)+
  moreover have "snd ` set m \<subseteq> insert (si_ID x) (si_ID ` set (sq_Items s))"
    by (rule subset_trans [OF assms(7)]) (use assms(1) in \<open>auto simp: steer_inv_def\<close>)
  ultimately show "steer_inv (s\<lparr>sq_Items := sq_Items s @ [x], sq_PromotedFollowUpItems := m, sq_ClosedRunID := r, sq_UpdatedAt := now\<rparr>)"
    "steerTokens (s\<lparr>sq_Items := sq_Items s @ [x], sq_PromotedFollowUpItems := m, sq_ClosedRunID := r, sq_UpdatedAt := now\<rparr>) = steerTokens s"
    using assms(1-6) by (simp_all add: steer_inv_def steerTokens_def steerTargetOK_def)
qed

lemma steer_enqueueD:
  assumes "steer_enqueue s key itemID invocationID runID payload now = Inr (s', item)" "steer_inv s"
    "itemID \<noteq> ''''" "itemID \<notin> si_ID ` set (sq_Items s)"
  shows "steer_inv s'" "steerTokens s' = steerTokens s"
proof -
  have item: "si_Status item = QueueAccepted" "si_Claim item = None" "si_ID item = itemID"
    and s': "s' = s\<lparr>sq_Items := sq_Items s @ [item], sq_PromotedFollowUpItems := sq_PromotedFollowUpItems s,
      sq_ClosedRunID := (if sq_ClosedRunID s \<noteq> '''' \<and> sq_ClosedRunID s \<noteq> runID then '''' else sq_ClosedRunID s), sq_UpdatedAt := now\<rparr>"
    using assms(1) by (auto simp: steer_enqueue_def Let_def split: if_splits)
  show "steer_inv s'" "steerTokens s' = steerTokens s"
    unfolding s' by (rule steer_snoc; use assms item in \<open>auto simp: steer_inv_def\<close>)+
qed

text \<open>
  Reordering and advancing a claim leave the cells of a queue alone.
\<close>

lemma steer_inv_cong:
  assumes "steer_inv s" "map steerCell items = steerCells s" "map si_TargetRunID items = map si_TargetRunID (sq_Items s)"
  shows "steer_inv (s\<lparr>sq_Items := items, sq_UpdatedAt := now\<rparr>)"
    "steerTokens (s\<lparr>sq_Items := items, sq_UpdatedAt := now\<rparr>) = steerTokens s"
proof -
  have len: "length items = length (sq_Items s)" using assms(2) map_eq_imp_length_eq by blast
  have "map si_ID items = map si_ID (sq_Items s)" using assms(2) by (metis map_qc_ID(1))
  then have ids: "si_ID ` set items = si_ID ` set (sq_Items s)" by (metis set_map)
  have "steerTargetOK (items ! i)" if "i < length items" for i
  proof -
    have "steerCell (items ! i) = steerCell (sq_Items s ! i)" "si_TargetRunID (items ! i) = si_TargetRunID (sq_Items s ! i)"
      using that len assms(2,3) by (metis nth_map)+
    moreover have "steerTargetOK (sq_Items s ! i)" using that len assms(1) by (simp add: steer_inv_def)
    ultimately show ?thesis by (fastforce simp: steerTargetOK_def steerCell_def)
  qed
  then have "\<forall>item\<in>set items. steerTargetOK item" by (simp add: all_set_conv_all_nth)
  then show "steer_inv (s\<lparr>sq_Items := items, sq_UpdatedAt := now\<rparr>)"
    "steerTokens (s\<lparr>sq_Items := items, sq_UpdatedAt := now\<rparr>) = steerTokens s"
    using assms(1,2) ids by (simp_all add: steer_inv_def steerTokens_def)
qed

interpretation steer_view: queue_item si_ID si_Status si_Position setSteerPosition
  by unfold_locales simp_all

interpretation followUp_view: queue_item fi_ID fi_Status fi_Position setFollowUpPosition
  by unfold_locales simp_all

lemma steer_reorderD:
  assumes "reorderSteerState s itemRef beforeRef = Inr (s', items)" "steer_inv s"
  shows "steer_inv (s'\<lparr>sq_UpdatedAt := now\<rparr>)" "steerTokens (s'\<lparr>sq_UpdatedAt := now\<rparr>) = steerTokens s"
proof -
  obtain xs where xs: "reorderQueuePositions si_ID si_Status si_Position setSteerPosition (sq_Items s)
      (sp_ItemID itemRef) (sp_ItemID beforeRef) = Inr xs" and s': "s' = s\<lparr>sq_Items := xs\<rparr>"
    using assms(1) by (auto simp: reorderSteerState_def Let_def split: sum.splits)
  obtain order where "xs = assignPositions setSteerPosition 1 order (sq_Items s)"
    using xs by (auto simp: reorderQueuePositions_def Let_def split: if_splits option.splits)
  moreover have "steerCell (setSteerPosition n x) = steerCell x" for n x by (simp add: steerCell_def)
  ultimately show "steer_inv (s'\<lparr>sq_UpdatedAt := now\<rparr>)" "steerTokens (s'\<lparr>sq_UpdatedAt := now\<rparr>) = steerTokens s"
    using steer_inv_cong [OF assms(2), of xs now] by (simp_all add: s' map_assignPositions)
qed

lemma steer_closeD:
  assumes "steer_inv s" "closeSteerRun s runID now = (s', changed)"
  shows "steer_inv (steer_compact s')" "steerTokens (steer_compact s') \<subseteq> steerTokens s"
proof -
  let ?items = "map (closeItem runID) (sq_Items s)"
  have items: "sq_Items s' = ?items" "sq_PromotedFollowUpItems s' = sq_PromotedFollowUpItems s"
    using assms(2) by (auto simp: closeSteerRun_def Let_def split: if_splits)
  have cl: "steerCell (closeItem runID x) = steerCell x \<or>
      (cellOK (steerCell (closeItem runID x)) \<and> heldCell (steerCell (closeItem runID x)) = None)"
    if "x \<in> set (sq_Items s)" for x
    using that assms(1) by (auto simp: closeItem_def cellOK_def heldCell_def steer_inv_def cellsOK_def)
  have "cellsOK (map (steerCell \<circ> closeItem runID) (sq_Items s))"
    by (rule cellsOK_map [of steerCell]) (use assms(1) cl in \<open>auto simp: steer_inv_def closeItem_def\<close>)
  moreover have "steerTargetOK (closeItem runID x)" if "x \<in> set (sq_Items s)" for x
    using that assms(1) by (auto simp: closeItem_def steerTargetOK_def steer_inv_def)
  ultimately have "steer_pre s'" using assms(1) by (auto simp: steer_pre_def steer_inv_def items)
  then show "steer_inv (steer_compact s')" by (rule steer_compact_inv)
  have "subseq (heldCells (map (steerCell \<circ> closeItem runID) (sq_Items s))) (heldCells (steerCells s))"
    by (rule heldCells_map, drule cl) auto
  then show "steerTokens (steer_compact s') \<subseteq> steerTokens s"
    unfolding steer_compact_tokens by (auto simp: steerTokens_def items dest: list_emb_set)
qed

text \<open>The outcomes of \<open>claimNext\<close>: the run's outstanding claim, a new one, or none.\<close>

lemma steer_claimNext_held:
  assumes "List.extract (steerHeldBy (rh_RunID handle)) (sq_Items s) = Some (us, x, vs)" "steer_inv s"
    "steer_claimNext token s handle sealIfEmpty now = (s', res)"
  obtains y c where "res = Some (y, c)" "sq_Items s' = us @ y # vs" "si_Claim y = Some c" "steerCell y = steerCell x"
    "steer_inv s'" "steerTokens s' = steerTokens s" "sc_ClaimToken c \<in> steerTokens s"
    "sc_RunID c = rh_RunID handle" "sc_OwnerID c = rh_OwnerID handle"
    "sc_Generation c = rh_Generation handle" "sc_FencingToken c = rh_FencingToken handle"
    "s' = s\<lparr>sq_Items := us @ y # vs, sq_UpdatedAt := sq_UpdatedAt s'\<rparr>"
proof -
  note x = extract_SomeD [OF assms(1)]
  obtain c where c: "si_Claim x = Some c" "sc_RunID c = rh_RunID handle" "si_Status x = QueueClaimed"
    using x(2) by (auto simp: steerHeldBy_def split: option.splits)
  define c' where "c' = c\<lparr>sc_OwnerID := rh_OwnerID handle, sc_Generation := rh_Generation handle, sc_FencingToken := rh_FencingToken handle\<rparr>"
  define y where "y = x\<lparr>si_Claim := Some c'\<rparr>"
  have cell: "steerCell y = steerCell x" by (simp add: y_def c'_def steerCell_def c)
  have s': "s' = s\<lparr>sq_Items := us @ y # vs, sq_UpdatedAt := sq_UpdatedAt s'\<rparr>" and res: "res = Some (y, c')"
    using assms(1,3) c x(1) by (auto simp: steer_claimNext_def advanceSteerClaim_def y_def c'_def split: if_splits)
  have items: "sq_Items s' = us @ y # vs" by (subst s') simp
  have inv: "steer_inv s'" "steerTokens s' = steerTokens s"
    using steer_inv_cong [OF assms(2), of "us @ y # vs" "sq_UpdatedAt s'", folded s'] cell x(1) by (simp_all add: y_def)
  have tok: "sc_ClaimToken c' \<in> steerTokens s"
    using c x(1) by (auto simp: steerTokens_def heldCell_def steerCell_def c'_def)
  show ?thesis
    by (rule that [OF res items _ cell inv tok _ _ _ _ s']) (simp_all add: y_def c'_def c(2))
qed

lemma steer_claimNext_new:
  assumes "List.extract (steerHeldBy (rh_RunID handle)) (sq_Items s) = None" "steer_inv s"
    "selectBest (steerEligible (rh_RunID handle)) si_Position (sq_Items s) = Some best"
    "steer_claimNext token s handle sealIfEmpty now = (s', res)" "token \<notin> steerTokens s"
  shows "steer_inv s'" "steerTokens s' = insert token (steerTokens s)"
proof -
  let ?x = "sq_Items s ! best" and ?us = "take best (sq_Items s)" and ?vs = "drop (Suc best) (sq_Items s)"
  define c where "c = \<lparr>sc_ItemID = si_ID ?x, sc_RunID = rh_RunID handle, sc_OwnerID = rh_OwnerID handle,
    sc_Generation = rh_Generation handle, sc_FencingToken = rh_FencingToken handle, sc_ClaimToken = token\<rparr>"
  define y where "y = ?x\<lparr>si_Status := QueueClaimed, si_Claim := Some c\<rparr>"
  have b: "best < length (sq_Items s)" "si_Status ?x = QueueAccepted" "si_TargetRunID ?x = rh_RunID handle"
    using selectBest_SomeD [OF assms(3)] by (auto simp: steerEligible_def)
  have items: "sq_Items s = ?us @ ?x # ?vs" by (rule id_take_nth_drop [OF b(1)])
  have s': "s' = s\<lparr>sq_Items := ?us @ y # ?vs, sq_UpdatedAt := now\<rparr>"
    using assms(1,3,4) b(1) by (simp add: steer_claimNext_def Let_def y_def c_def upd_conv_take_nth_drop)
  have ok: "cellsOK (map steerCell ?us @ steerCell ?x # map steerCell ?vs)"
    using assms(2) items by (metis list.simps(9) map_append steer_inv_def)
  have held: "heldCell (steerCell y) = Some \<lparr>ci_ItemID = si_ID ?x, ci_Slot = rh_RunID handle, ci_Token = token\<rparr>"
    by (simp add: heldCell_def y_def c_def steerCell_def)
  have free: "rh_RunID handle \<notin> ci_Slot ` set (heldCells (map steerCell (sq_Items s)))"
    using assms(1) by (fastforce simp: extract_None heldCells_set steerHeldBy_def steerCell_def)
  have hx: "heldCell (steerCell ?x) = None" using b(2) by (simp add: heldCell_def)
  have split: "heldCells (steerCells s) = heldCells (map steerCell ?us @ map steerCell ?vs)"
    using hx by (subst items) simp
  have "cellsOK (map steerCell ?us @ steerCell y # map steerCell ?vs)"
    by (rule cellsOK_update [OF ok])
      (use ok held free assms(5) split in \<open>auto simp: y_def c_def cellOK_def cellsOK_def steerCell_def steerTokens_def\<close>)
  moreover have "steerTargetOK y" using b(3) by (simp add: steerTargetOK_def y_def c_def)
  moreover have "si_ID y = si_ID ?x" by (simp add: y_def)
  moreover have "\<forall>item\<in>set ?us \<union> set ?vs. steerTargetOK item"
    using assms(2) by (auto simp: steer_inv_def dest: in_set_takeD in_set_dropD)
  moreover have "si_ID ` set (sq_Items s) = si_ID ` set (?us @ ?x # ?vs)" using items by simp
  moreover have "terminalCells (steerCells s) = terminalCells (map steerCell ?us) + terminalCells (map steerCell ?vs)"
    by (subst items) (simp add: liveCell_def b(2))
  moreover have "liveCell (steerCell y)" by (simp add: liveCell_def y_def)
  ultimately show "steer_inv s'" using assms(2) by (auto simp: steer_inv_def s')
  show "steerTokens s' = insert token (steerTokens s)"
    using held split by (auto simp: steerTokens_def s')
qed

lemma steer_claimNext_empty:
  assumes "List.extract (steerHeldBy (rh_RunID handle)) (sq_Items s) = None"
    "selectBest (steerEligible (rh_RunID handle)) si_Position (sq_Items s) = None"
    "steer_claimNext token s handle sealIfEmpty now = (s', res)" "steer_inv s"
  shows "res = None" "steer_inv s'" "steerTokens s' = steerTokens s"
  using assms by (auto simp: steer_claimNext_def steerTokens_def split: if_splits) (simp add: steer_inv_def)

end
