(* ===== verification/QueueLedger.thy ===== *)
theory QueueLedger
  imports LiveQueueInv
begin

text \<open>
  The transitions of the follow-up queue and the promotion keep the invariants;
  the step relation of the pair of queues; and the interpretation of
  \<open>claim_ledger\<close> on it.
\<close>

section \<open>The follow-up queue\<close>

lemma followUp_held_cell:
  "followUpClaimedAs ref x \<Longrightarrow> heldCell (followUpCell x) =
     Some \<lparr>ci_ItemID = fc_ItemID ref, ci_Slot = fc_TriggerRunID ref, ci_Token = fc_ClaimToken ref\<rparr>"
  by (simp add: heldCell_def followUpClaimedAs_def followUpCell_def)

lemma followUp_token_held:
  "fq_Items f = us @ x # vs \<Longrightarrow> followUpClaimedAs ref x \<Longrightarrow> fc_ClaimToken ref \<in> followUpTokens f"
  by (simp add: followUpTokens_def followUp_held_cell)

lemma followUp_tokens_update:
  assumes "followUp_inv f" "fq_Items f = us @ x # vs" "followUpClaimedAs ref x" "fi_Status y \<noteq> QueueClaimed"
  shows "followUpTokens (f\<lparr>fq_Items := us @ y # vs, fq_TerminalClaims := m, fq_UpdatedAt := now\<rparr>) =
    followUpTokens f - {fc_ClaimToken ref}"
proof -
  have "cellsOK (map followUpCell us @ followUpCell x # map followUpCell vs)" "heldCell (followUpCell y) = None"
    using assms by (simp_all add: followUp_inv_def heldCell_def)
  from heldCells_update [OF followUp_held_cell [OF assms(3)] this] show ?thesis
    by (simp add: followUpTokens_def assms(2))
qed

lemma followUp_tokens_pending:
  assumes "fq_Items f = us @ x # vs" "fi_Status x = QueueAccepted" "fi_Status y \<noteq> QueueClaimed"
  shows "followUpTokens (f\<lparr>fq_Items := us @ y # vs, fq_UpdatedAt := now\<rparr>) = followUpTokens f"
  using assms by (simp add: followUpTokens_def heldCell_def)

text \<open>
  One follow-up changed in place and left unclaimed. The claim record may lose
  the entry of the run that held it, since no other item is held by that run.
\<close>

definition dropsSlot :: "(string, string) gomap \<Rightarrow> (string, string) gomap \<Rightarrow> FollowUpItem \<Rightarrow> bool" where
  "dropsSlot m m' x \<longleftrightarrow> m' = m \<or>
     (\<exists>c. fi_Status x = QueueClaimed \<and> fi_Claim x = Some c \<and> m' = mapDel (fc_TriggerRunID c) m)"

lemma followUp_pre_update:
  assumes "followUp_inv f" "fq_Items f = us @ x # vs" "fi_ID y = fi_ID x" "fi_Status y \<noteq> QueueClaimed"
    and "fi_Claim y \<noteq> None \<Longrightarrow> fi_Status y = QueueApplied"
    and "dropsSlot (fq_TerminalClaims f) m x"
  shows "followUp_pre (f\<lparr>fq_Items := us @ y # vs, fq_TerminalClaims := m, fq_UpdatedAt := now\<rparr>)"
proof -
  have ok: "cellsOK (map followUpCell us @ followUpCell x # map followUpCell vs)"
    using assms(1,2) by (simp add: followUp_inv_def)
  moreover have "fi_ID x \<noteq> ''''" using assms(1,2) by (simp add: followUp_inv_def cellsOK_def cellOK_def)
  ultimately have "cellsOK (map followUpCell us @ followUpCell y # map followUpCell vs)"
    by (rule_tac cellsOK_unclaim) (use assms(3-5) in \<open>auto simp: cellOK_def\<close>)
  moreover have "followUpRecorded m z" if z: "z \<in> set us \<union> set vs" for z
  proof -
    have "fi_ID x \<notin> fi_ID ` (set us \<union> set vs)"
      using ok by (auto simp: cellsOK_def image_Un rev_image_eqI)
    then have "fi_ID z \<noteq> fi_ID x" using z by (metis image_eqI)
    moreover have "followUpRecorded (fq_TerminalClaims f) z" "followUpRecorded (fq_TerminalClaims f) x"
      using assms(1,2) z by (auto simp: followUp_inv_def)
    ultimately show ?thesis using assms(6) by (auto simp: dropsSlot_def followUpRecorded_def)
  qed
  moreover have "followUpRecorded m y" using assms(4) by (simp add: followUpRecorded_def)
  moreover have "wfMap m" "'''' \<notin> snd ` set m"
    using assms(1,6) by (auto simp: dropsSlot_def followUp_inv_def set_mapDel)
  ultimately show ?thesis by (auto simp: followUp_pre_def)
qed

lemma followUp_inv_update:
  assumes "followUp_inv f" "fq_Items f = us @ x # vs" "fi_ID y = fi_ID x" "\<not> QueueStatus_terminal (fi_Status y)"
    and "fi_Status y \<noteq> QueueClaimed" "fi_Claim y = None" "dropsSlot (fq_TerminalClaims f) m x"
  shows "followUp_inv (f\<lparr>fq_Items := us @ y # vs, fq_TerminalClaims := m, fq_UpdatedAt := now\<rparr>)"
proof -
  have "followUp_pre (f\<lparr>fq_Items := us @ y # vs, fq_TerminalClaims := m, fq_UpdatedAt := now\<rparr>)"
    by (rule followUp_pre_update) (use assms in simp_all)
  then show ?thesis
    using assms(1,2,4) by (auto simp: followUp_pre_def followUp_inv_def liveCell_def split: if_splits)
qed

lemma followUp_pending_unclaimed:
  "followUp_inv f \<Longrightarrow> x \<in> set (fq_Items f) \<Longrightarrow> fi_Status x = QueueAccepted \<Longrightarrow> fi_Claim x = None"
  by (auto simp: followUp_inv_def cellsOK_def cellOK_def)

lemma followUp_applyD:
  assumes "followUp_apply f ref now = Inr f'" "followUp_inv f"
  shows "followUp_inv f'" "followUpTokens f' = followUpTokens f - {fc_ClaimToken ref}" "fc_ClaimToken ref \<in> followUpTokens f"
proof -
  from assms(1) obtain us x vs where x: "fq_Items f = us @ x # vs" "followUpClaimedAs ref x"
    and f': "f' = followUp_compact (f\<lparr>fq_Items := us @ x\<lparr>fi_Status := QueueApplied\<rparr> # vs,
      fq_TerminalClaims := fq_TerminalClaims f, fq_UpdatedAt := now\<rparr>)"
    by (auto simp: followUp_apply_def split: option.splits dest: extract_SomeD)
  show "followUp_inv f'" unfolding f'
    by (rule followUp_compact_inv, rule followUp_pre_update [OF assms(2) x(1)]) (simp_all add: dropsSlot_def)
  show "fc_ClaimToken ref \<in> followUpTokens f" by (rule followUp_token_held [OF x])
  show "followUpTokens f' = followUpTokens f - {fc_ClaimToken ref}"
    unfolding f' followUp_compact_tokens by (rule followUp_tokens_update [OF assms(2) x]) simp
qed

lemma followUp_releaseD:
  assumes "followUp_release f ref now = Inr f'" "followUp_inv f"
  shows "followUp_inv f'" "followUpTokens f' = followUpTokens f - {fc_ClaimToken ref}" "fc_ClaimToken ref \<in> followUpTokens f"
proof -
  from assms(1) obtain us x vs where x: "fq_Items f = us @ x # vs" "followUpClaimedAs ref x"
    and f': "f' = f\<lparr>fq_Items := us @ x\<lparr>fi_Status := QueueAccepted, fi_Claim := None\<rparr> # vs,
      fq_TerminalClaims := mapDel (fc_TriggerRunID ref) (fq_TerminalClaims f), fq_UpdatedAt := now\<rparr>"
    by (auto simp: followUp_release_def split: option.splits dest: extract_SomeD)
  have "dropsSlot (fq_TerminalClaims f) (mapDel (fc_TriggerRunID ref) (fq_TerminalClaims f)) x"
    using x(2) by (auto simp: dropsSlot_def followUpClaimedAs_def)
  then show "followUp_inv f'" unfolding f'
    by (intro followUp_inv_update [OF assms(2) x(1)]) simp_all
  show "fc_ClaimToken ref \<in> followUpTokens f" by (rule followUp_token_held [OF x])
  show "followUpTokens f' = followUpTokens f - {fc_ClaimToken ref}"
    unfolding f' by (rule followUp_tokens_update [OF assms(2) x]) simp
qed

lemma followUp_rejectD:
  assumes "followUp_reject f ref code now = Inr f'" "followUp_inv f"
  shows "followUp_inv f'" "followUpTokens f' = followUpTokens f - {fc_ClaimToken ref}" "fc_ClaimToken ref \<in> followUpTokens f"
proof -
  from assms(1) obtain us x vs where x: "fq_Items f = us @ x # vs" "followUpClaimedAs ref x"
    and f': "f' = followUp_compact (f\<lparr>
      fq_Items := us @ x\<lparr>fi_Status := QueueRejected, fi_ErrorCode := code, fi_Claim := None\<rparr> # vs,
      fq_TerminalClaims := mapDel (fc_TriggerRunID ref) (fq_TerminalClaims f), fq_UpdatedAt := now\<rparr>)"
    by (auto simp: followUp_reject_def split: option.splits dest: extract_SomeD)
  have "dropsSlot (fq_TerminalClaims f) (mapDel (fc_TriggerRunID ref) (fq_TerminalClaims f)) x"
    using x(2) by (auto simp: dropsSlot_def followUpClaimedAs_def)
  then show "followUp_inv f'" unfolding f'
    by (intro followUp_compact_inv followUp_pre_update [OF assms(2) x(1)]) simp_all
  show "fc_ClaimToken ref \<in> followUpTokens f" by (rule followUp_token_held [OF x])
  show "followUpTokens f' = followUpTokens f - {fc_ClaimToken ref}"
    unfolding f' followUp_compact_tokens by (rule followUp_tokens_update [OF assms(2) x]) simp
qed

lemma followUp_editD:
  assumes "followUp_edit f itemID payload now = Inr (f', item)" "followUp_inv f"
  shows "followUp_inv f'" "followUpTokens f' = followUpTokens f"
proof -
  from assms(1) obtain us x vs where x: "fq_Items f = us @ x # vs" "followUpPendingAs itemID x"
    and f': "f' = f\<lparr>fq_Items := us @ x\<lparr>fi_Payload := payload\<rparr> # vs, fq_UpdatedAt := now\<rparr>"
    by (auto simp: followUp_edit_def Let_def split: option.splits dest: extract_SomeD)
  have st: "fi_Status x = QueueAccepted" using x(2) by (simp add: followUpPendingAs_def)
  moreover from this have "fi_Claim x = None" using followUp_pending_unclaimed [OF assms(2)] x(1) by simp
  ultimately show "followUp_inv f'"
    using followUp_inv_update [OF assms(2) x(1), of "x\<lparr>fi_Payload := payload\<rparr>" "fq_TerminalClaims f" now]
    by (simp add: f' dropsSlot_def)
  show "followUpTokens f' = followUpTokens f" unfolding f' by (rule followUp_tokens_pending [OF x(1) st]) (simp add: st)
qed

text \<open>Cancelling is what both \<open>cancel\<close> and \<open>promote\<close> do to the follow-up queue.\<close>

lemma followUp_canceled:
  assumes "followUp_inv f" "fq_Items f = us @ x # vs" "followUpPendingAs itemID x"
  and f'_def: "f' = followUp_compact (f\<lparr>fq_Items := us @ x\<lparr>fi_Status := QueueCanceled\<rparr> # vs, fq_UpdatedAt := now\<rparr>)"
  shows "followUp_inv f'" "followUpTokens f' = followUpTokens f"
proof -
  have st: "fi_Status x = QueueAccepted" using assms(3) by (simp add: followUpPendingAs_def)
  then have "fi_Claim x = None" using followUp_pending_unclaimed [OF assms(1)] assms(2) by simp
  then have "followUp_pre (f\<lparr>fq_Items := us @ x\<lparr>fi_Status := QueueCanceled\<rparr> # vs, fq_UpdatedAt := now\<rparr>)"
    using followUp_pre_update [OF assms(1,2), of "x\<lparr>fi_Status := QueueCanceled\<rparr>" "fq_TerminalClaims f" now]
    by (simp add: dropsSlot_def)
  then show "followUp_inv f'" unfolding f'_def by (rule followUp_compact_inv)
  show "followUpTokens f' = followUpTokens f"
    unfolding f'_def followUp_compact_tokens by (rule followUp_tokens_pending [OF assms(2) st]) simp
qed

lemma followUp_cancelD:
  assumes "followUp_cancel f itemID now = Inr f'" "followUp_inv f"
  shows "followUp_inv f'" "followUpTokens f' = followUpTokens f"
proof -
  from assms(1) obtain us x vs where x: "fq_Items f = us @ x # vs" "followUpPendingAs itemID x"
    and f': "f' = followUp_compact (f\<lparr>fq_Items := us @ x\<lparr>fi_Status := QueueCanceled\<rparr> # vs, fq_UpdatedAt := now\<rparr>)"
    by (auto simp: followUp_cancel_def split: option.splits dest: extract_SomeD)
  show "followUp_inv f'" "followUpTokens f' = followUpTokens f"
    by (rule followUp_canceled [OF assms(2) x f'])+
qed

lemma followUp_enqueueD:
  assumes "followUp_enqueue f key itemID invocationID runID payload now = Inr (f', item)" "followUp_inv f"
    "itemID \<noteq> ''''" "itemID \<notin> fi_ID ` set (fq_Items f)"
  shows "followUp_inv f'" "followUpTokens f' = followUpTokens f"
proof -
  have item: "fi_Status item = QueueAccepted" "fi_Claim item = None" "fi_ID item = itemID"
    and f': "f' = f\<lparr>fq_Items := fq_Items f @ [item], fq_UpdatedAt := now\<rparr>"
    using assms(1) by (auto simp: followUp_enqueue_def Let_def split: if_splits)
  have "cellsOK (followUpCells f @ [followUpCell item])"
    "heldCells (followUpCells f @ [followUpCell item]) = heldCells (followUpCells f)"
    "terminalCells (followUpCells f @ [followUpCell item]) = terminalCells (followUpCells f)"
    using assms(2-4) item by (intro cellsOK_snoc; simp add: followUp_inv_def)+
  then show "followUp_inv f'" "followUpTokens f' = followUpTokens f"
    using assms(2) item by (simp_all add: followUp_inv_def followUpTokens_def followUpRecorded_def f')
qed

lemma followUp_reorderD:
  assumes "reorderFollowUpState f itemRef beforeRef = Inr (f', items)" "followUp_inv f"
  shows "followUp_inv (f'\<lparr>fq_UpdatedAt := now\<rparr>)" "followUpTokens (f'\<lparr>fq_UpdatedAt := now\<rparr>) = followUpTokens f"
proof -
  let ?key = "\<lambda>x. (followUpCell x, fi_Claim x)"
  obtain xs order where xs: "xs = assignPositions setFollowUpPosition 1 order (fq_Items f)" and f': "f' = f\<lparr>fq_Items := xs\<rparr>"
    using assms(1)
    by (auto simp: reorderFollowUpState_def reorderQueuePositions_def Let_def split: sum.splits if_splits option.splits)
  have key: "map ?key xs = map ?key (fq_Items f)" unfolding xs by (rule map_assignPositions) (simp add: followUpCell_def)
  then have cells: "map followUpCell xs = followUpCells f" by (metis (no_types, lifting) fst_conv map_eq_conv map_map comp_apply)
  have "\<exists>y\<in>set (fq_Items f). ?key y = ?key x" if "x \<in> set xs" for x
    using key that by (metis (no_types, lifting) image_iff image_set)
  moreover have "followUpRecorded m x = followUpRecorded m y" if "?key y = ?key x" for x y m
    using that by (simp add: followUpRecorded_def followUpCell_def)
  ultimately have "\<forall>x\<in>set xs. followUpRecorded (fq_TerminalClaims f) x"
    using assms(2) unfolding followUp_inv_def by metis
  then show "followUp_inv (f'\<lparr>fq_UpdatedAt := now\<rparr>)" "followUpTokens (f'\<lparr>fq_UpdatedAt := now\<rparr>) = followUpTokens f"
    using assms(2) cells by (simp_all add: f' followUp_inv_def followUpTokens_def)
qed

lemma followUp_claimNext_new:
  assumes "mapGet '''' (fq_TerminalClaims f) trigger = ''''" "followUp_inv f"
    "selectBest followUpAccepted fi_Position (fq_Items f) = Some best"
    "followUp_claimNext token f trigger now = (f', res)" "token \<notin> followUpTokens f"
  shows "followUp_inv f'" "followUpTokens f' = insert token (followUpTokens f)"
proof -
  let ?x = "fq_Items f ! best" and ?us = "take best (fq_Items f)" and ?vs = "drop (Suc best) (fq_Items f)"
  define c where "c = \<lparr>fc_ItemID = fi_ID ?x, fc_TriggerRunID = trigger, fc_ClaimToken = token\<rparr>"
  define y where "y = ?x\<lparr>fi_Status := QueueClaimed, fi_Claim := Some c\<rparr>"
  let ?m = "mapPut trigger (fi_ID ?x) (fq_TerminalClaims f)"
  have b: "best < length (fq_Items f)" "fi_Status ?x = QueueAccepted"
    using selectBest_SomeD [OF assms(3)] by auto
  have items: "fq_Items f = ?us @ ?x # ?vs" by (rule id_take_nth_drop [OF b(1)])
  have f': "f' = f\<lparr>fq_Items := ?us @ y # ?vs, fq_TerminalClaims := ?m, fq_UpdatedAt := now\<rparr>"
    using assms(1,3,4) b(1) by (simp add: followUp_claimNext_def Let_def y_def c_def upd_conv_take_nth_drop)
  have ok: "cellsOK (map followUpCell ?us @ followUpCell ?x # map followUpCell ?vs)"
    using assms(2) items by (metis list.simps(9) map_append followUp_inv_def)
  have wf: "wfMap (fq_TerminalClaims f)" "'''' \<notin> snd ` set (fq_TerminalClaims f)"
    and rec: "\<forall>item\<in>set (fq_Items f). followUpRecorded (fq_TerminalClaims f) item"
    using assms(2) by (auto simp: followUp_inv_def)
  have unrec: "map_of (fq_TerminalClaims f) trigger = None"
    using assms(1) wf by (force simp: mapGet_def wfMap_set [symmetric] split: option.splits)
  have held: "heldCell (followUpCell y) = Some \<lparr>ci_ItemID = fi_ID ?x, ci_Slot = trigger, ci_Token = token\<rparr>"
    by (simp add: heldCell_def y_def c_def followUpCell_def)
  have slot: "ci_Slot i \<noteq> trigger" if "i \<in> set (heldCells (followUpCells f))" for i
    using that rec unrec by (fastforce simp: heldCells_set followUpRecorded_def followUpCell_def)
  have split: "heldCells (followUpCells f) = heldCells (map followUpCell ?us @ map followUpCell ?vs)"
    using b(2) by (subst items) (simp add: heldCell_def)
  have "cellsOK (map followUpCell ?us @ followUpCell y # map followUpCell ?vs)"
    by (rule cellsOK_update [OF ok])
      (use ok held slot assms(5) split in \<open>auto simp: y_def c_def cellOK_def cellsOK_def followUpCell_def followUpTokens_def\<close>)
  moreover have "followUpRecorded ?m y" by (simp add: followUpRecorded_def y_def c_def)
  moreover have "\<forall>z\<in>set ?us \<union> set ?vs. followUpRecorded ?m z"
    using rec unrec by (fastforce simp: followUpRecorded_def dest: in_set_takeD in_set_dropD)
  moreover have "wfMap ?m" "'''' \<notin> snd ` set ?m"
    using wf ok set_mapPut_subset [of trigger "fi_ID ?x" "fq_TerminalClaims f"]
    by (auto simp: cellsOK_def cellOK_def)
  moreover have "terminalCells (followUpCells f) = terminalCells (map followUpCell ?us) + terminalCells (map followUpCell ?vs)"
    by (subst items) (simp add: liveCell_def b(2))
  moreover have "liveCell (followUpCell y)" by (simp add: liveCell_def y_def)
  ultimately show "followUp_inv f'" using assms(2) by (auto simp: followUp_inv_def f')
  show "followUpTokens f' = insert token (followUpTokens f)"
    using held split by (auto simp: followUpTokens_def f')
qed

lemma followUp_claimNext_same:
  assumes "mapGet '''' (fq_TerminalClaims f) trigger \<noteq> '''' \<or> selectBest followUpAccepted fi_Position (fq_Items f) = None"
    "followUp_claimNext token f trigger now = (f', res)"
  shows "f' = f"
  using assms by (auto simp: followUp_claimNext_def Let_def split: option.splits if_splits)

section \<open>Promotion\<close>

lemma promoteD:
  assumes "queue_promote s f key runID ref now newID = Inr ((s', f'), result)" "steer_inv s" "followUp_inv f"
    "newID \<noteq> ''''" "newID \<notin> si_ID ` set (sq_Items s)"
  shows "steer_inv s' \<and> followUp_inv f' \<and> steerTokens s' = steerTokens s \<and> followUpTokens f' = followUpTokens f"
proof (cases "mapGet '''' (sq_PromotedFollowUpItems s) (fp_ItemID ref) = ''''")
  case False
  then show ?thesis using assms by (auto simp: queue_promote_def Let_def split: option.splits)
next
  case True
  let ?m = "mapPut (fp_ItemID ref) newID (sq_PromotedFollowUpItems s)"
  obtain us x vs where e: "List.extract (followUpPendingAs (fp_ItemID ref)) (fq_Items f) = Some (us, x, vs)"
    using True assms(1) by (auto simp: queue_promote_def Let_def split: option.splits)
  note x = extract_SomeD(1,2) [OF e]
  have f': "f' = followUp_compact (f\<lparr>fq_Items := us @ x\<lparr>fi_Status := QueueCanceled\<rparr> # vs, fq_UpdatedAt := now\<rparr>)"
    and steer: "si_Status (pr_Steer result) = QueueAccepted" "si_Claim (pr_Steer result) = None" "si_ID (pr_Steer result) = newID"
    and s': "s' = s\<lparr>sq_Items := sq_Items s @ [pr_Steer result], sq_PromotedFollowUpItems := ?m,
      sq_ClosedRunID := sq_ClosedRunID s, sq_UpdatedAt := now\<rparr>"
    using True assms(1) e by (auto simp: queue_promote_def Let_def split: if_splits)
  have m: "wfMap ?m" "snd ` set ?m \<subseteq> insert (si_ID (pr_Steer result)) (snd ` set (sq_PromotedFollowUpItems s))"
    using assms(2) set_mapPut_subset [of "fp_ItemID ref" newID "sq_PromotedFollowUpItems s"]
    by (auto simp: steer_inv_def steer(3))
  show ?thesis
    using steer_snoc [OF assms(2) steer(1,2) _ _ m, where r = "sq_ClosedRunID s" and now = now] assms(4,5)
      followUp_canceled [OF assms(3) x f'] by (simp add: s' steer(3))
qed

section \<open>Steps of a session's queues\<close>

text \<open>
  The transitions the backends run on the two queues of one session, each atomic:
  the backends serialise them. Items are enqueued under IDs that are not in use.
\<close>

inductive queue_step ::
    "steerQueueState \<times> followUpQueueState \<Rightarrow> claim_event \<Rightarrow> steerQueueState \<times> followUpQueueState \<Rightarrow> bool" where
  enqueueSteer: "steer_enqueue s key itemID invocationID runID payload now = Inr (s', item) \<Longrightarrow>
    itemID \<noteq> '''' \<Longrightarrow> itemID \<notin> si_ID ` set (sq_Items s) \<Longrightarrow> queue_step (s, f) Quiet (s', f)"
| enqueueFollowUp: "followUp_enqueue f key itemID invocationID runID payload now = Inr (f', fitem) \<Longrightarrow>
    itemID \<noteq> '''' \<Longrightarrow> itemID \<notin> fi_ID ` set (fq_Items f) \<Longrightarrow> queue_step (s, f) Quiet (s, f')"
| editSteer: "steer_edit s itemID payload now = Inr (s', item) \<Longrightarrow> queue_step (s, f) Quiet (s', f)"
| editFollowUp: "followUp_edit f itemID payload now = Inr (f', fitem) \<Longrightarrow> queue_step (s, f) Quiet (s, f')"
| cancelSteer: "steer_cancel s itemID now = Inr s' \<Longrightarrow> queue_step (s, f) Quiet (s', f)"
| cancelFollowUp: "followUp_cancel f itemID now = Inr f' \<Longrightarrow> queue_step (s, f) Quiet (s, f')"
| reorderSteer: "reorderSteerState s itemRef beforeRef = Inr (s', items) \<Longrightarrow>
    queue_step (s, f) Quiet (s'\<lparr>sq_UpdatedAt := now\<rparr>, f)"
| reorderFollowUp: "reorderFollowUpState f fitemRef fbeforeRef = Inr (f', fitems) \<Longrightarrow>
    queue_step (s, f) Quiet (s, f'\<lparr>fq_UpdatedAt := now\<rparr>)"
| promote: "queue_promote s f key runID ref now newID = Inr ((s', f'), result) \<Longrightarrow>
    newID \<noteq> '''' \<Longrightarrow> newID \<notin> si_ID ` set (sq_Items s) \<Longrightarrow> queue_step (s, f) Quiet (s', f')"
| closeRun: "closeSteerRun s runID now = (s', changed) \<Longrightarrow> queue_step (s, f) Quiet (steer_compact s', f)"
| claimSteerNew: "steer_claimNext token s handle sealIfEmpty now = (s', Some (item, claim)) \<Longrightarrow>
    \<not> (\<exists>x\<in>set (sq_Items s). steerHeldBy (rh_RunID handle) x) \<Longrightarrow> queue_step (s, f) (Issue token) (s', f)"
| claimSteerAgain: "steer_claimNext token s handle sealIfEmpty now = (s', Some (item, claim)) \<Longrightarrow>
    \<exists>x\<in>set (sq_Items s). steerHeldBy (rh_RunID handle) x \<Longrightarrow> queue_step (s, f) Quiet (s', f)"
| claimSteerNone: "steer_claimNext token s handle sealIfEmpty now = (s', None) \<Longrightarrow> queue_step (s, f) Quiet (s', f)"
| applySteer: "steer_apply s sref now = Inr s' \<Longrightarrow> queue_step (s, f) (Settle (sc_ClaimToken sref)) (s', f)"
| releaseSteer: "steer_release s sref now = Inr s' \<Longrightarrow> queue_step (s, f) (Settle (sc_ClaimToken sref)) (s', f)"
| claimFollowUpNew: "followUp_claimNext token f trigger now = (f', Some (fitem, fclaim)) \<Longrightarrow>
    mapGet '''' (fq_TerminalClaims f) trigger = '''' \<Longrightarrow> queue_step (s, f) (Issue token) (s, f')"
| claimFollowUpAgain: "followUp_claimNext token f trigger now = (f', fres) \<Longrightarrow>
    mapGet '''' (fq_TerminalClaims f) trigger \<noteq> '''' \<or> fres = None \<Longrightarrow> queue_step (s, f) Quiet (s, f')"
| applyFollowUp: "followUp_apply f fref now = Inr f' \<Longrightarrow> queue_step (s, f) (Settle (fc_ClaimToken fref)) (s, f')"
| releaseFollowUp: "followUp_release f fref now = Inr f' \<Longrightarrow> queue_step (s, f) (Settle (fc_ClaimToken fref)) (s, f')"
| rejectFollowUp: "followUp_reject f fref code now = Inr f' \<Longrightarrow> queue_step (s, f) (Settle (fc_ClaimToken fref)) (s, f')"

definition queues_inv :: "steerQueueState \<times> followUpQueueState \<Rightarrow> bool" where
  "queues_inv q \<longleftrightarrow> steer_inv (fst q) \<and> followUp_inv (snd q) \<and> steerTokens (fst q) \<inter> followUpTokens (snd q) = {}"

definition queues_tokens :: "steerQueueState \<times> followUpQueueState \<Rightarrow> string set" where
  "queues_tokens q = steerTokens (fst q) \<union> followUpTokens (snd q)"

text \<open>What one step does, by the kind of event it is.\<close>

definition ledger_effect :: "string set \<Rightarrow> string set \<Rightarrow> claim_event \<Rightarrow> string set \<Rightarrow> string set \<Rightarrow> bool" where
  "ledger_effect s f e s' f' =
     (case e of
        Quiet \<Rightarrow> s' \<subseteq> s \<and> f' \<subseteq> f
      | Issue t \<Rightarrow> (s' = insert t s \<and> f' = f) \<or> (s' = s \<and> f' = insert t f)
      | Settle t \<Rightarrow> (t \<in> s \<and> s' = s - {t} \<and> f' = f) \<or> (t \<in> f \<and> f' = f - {t} \<and> s' = s))"

lemma steer_claimNext_result:
  assumes "steer_claimNext token s handle sealIfEmpty now = (s', res)" "steer_inv s"
    and "res \<noteq> None \<Longrightarrow> \<not> (\<exists>x\<in>set (sq_Items s). steerHeldBy (rh_RunID handle) x) \<Longrightarrow> token \<notin> steerTokens s"
  shows "steer_inv s' \<and> steerTokens s' =
    (if res \<noteq> None \<and> \<not> (\<exists>x\<in>set (sq_Items s). steerHeldBy (rh_RunID handle) x)
     then insert token (steerTokens s) else steerTokens s)"
proof (cases "List.extract (steerHeldBy (rh_RunID handle)) (sq_Items s)")
  case (Some t)
  then obtain us x vs where e: "List.extract (steerHeldBy (rh_RunID handle)) (sq_Items s) = Some (us, x, vs)"
    by (cases t) auto
  have "\<exists>x\<in>set (sq_Items s). steerHeldBy (rh_RunID handle) x" using extract_SomeD [OF e] by auto
  then show ?thesis using steer_claimNext_held [OF e assms(2,1)] by (metis (full_types))
next
  case None
  note free = None [unfolded extract_None]
  show ?thesis
  proof (cases "selectBest (steerEligible (rh_RunID handle)) si_Position (sq_Items s)")
    case None': None
    then show ?thesis using steer_claimNext_empty [OF None None' assms(1,2)] by simp
  next
    case (Some best)
    then have "res \<noteq> None" using assms(1) None by (auto simp: steer_claimNext_def Let_def)
    moreover from this have "token \<notin> steerTokens s" using assms(3) free by blast
    ultimately show ?thesis using steer_claimNext_new [OF None assms(2) Some assms(1)] free by auto
  qed
qed

lemma queue_step_effect:
  assumes "queue_step q e q'" "queues_inv q" "\<And>t. e = Issue t \<Longrightarrow> t \<notin> queues_tokens q"
  shows "steer_inv (fst q') \<and> followUp_inv (snd q') \<and>
    ledger_effect (steerTokens (fst q)) (followUpTokens (snd q)) e (steerTokens (fst q')) (followUpTokens (snd q'))"
  using assms
proof (induction rule: queue_step.induct)
  case (claimFollowUpNew token f trigger now f' fitem fclaim s)
  then obtain best where "selectBest followUpAccepted fi_Position (fq_Items f) = Some best"
    by (auto simp: followUp_claimNext_def Let_def split: option.splits)
  then show ?case
    using followUp_claimNext_new [OF claimFollowUpNew.hyps(2) _ _ claimFollowUpNew.hyps(1)] claimFollowUpNew.prems
    by (simp add: ledger_effect_def queues_inv_def queues_tokens_def)
next
  case (claimFollowUpAgain token f trigger now f' fres s)
  then have "f' = f"
    by (intro followUp_claimNext_same) (auto simp: followUp_claimNext_def Let_def split: option.splits)
  then show ?case using claimFollowUpAgain.prems by (simp add: ledger_effect_def queues_inv_def)
next
  case (promote s f key runID ref now newID s' f' result)
  then show ?case
    using promoteD [OF promote.hyps(1) _ _ promote.hyps(2,3)] by (simp add: ledger_effect_def queues_inv_def)
next
  case (closeRun s runID now s' changed f)
  then show ?case using steer_closeD [OF _ closeRun.hyps] by (simp add: ledger_effect_def queues_inv_def)
next
  case (claimSteerNew token s handle sealIfEmpty now s' item claim f)
  then show ?case
    using steer_claimNext_result [OF claimSteerNew.hyps(1)] by (simp add: ledger_effect_def queues_inv_def queues_tokens_def)
next
  case (claimSteerAgain token s handle sealIfEmpty now s' item claim f)
  then show ?case
    using steer_claimNext_result [OF claimSteerAgain.hyps(1)] by (simp add: ledger_effect_def queues_inv_def)
next
  case (claimSteerNone token s handle sealIfEmpty now s' f)
  then show ?case
    using steer_claimNext_result [OF claimSteerNone.hyps(1)] by (simp add: ledger_effect_def queues_inv_def)
qed (simp_all add: ledger_effect_def queues_inv_def steer_enqueueD followUp_enqueueD steer_editD followUp_editD
    steer_cancelD followUp_cancelD steer_reorderD followUp_reorderD
    steer_applyD steer_releaseD followUp_applyD followUp_releaseD followUp_rejectD)

lemma queue_step_inv:
  assumes "queue_step q e q'" "queues_inv q" "\<And>t. e = Issue t \<Longrightarrow> t \<notin> queues_tokens q"
  shows "queues_inv q'"
  using queue_step_effect [OF assms] assms(2,3)
  by (auto simp: queues_inv_def queues_tokens_def ledger_effect_def split: claim_event.splits)

interpretation queues: claim_ledger queues_inv queues_tokens queue_step
proof unfold_locales
  fix q t q'
  assume "queues_inv q" "queue_step q (Issue t) q'" "t \<notin> queues_tokens q"
  then show "queues_tokens q' \<subseteq> insert t (queues_tokens q)"
    using queue_step_effect [of q "Issue t" q'] by (auto simp: ledger_effect_def queues_tokens_def)
next
  fix q t q'
  assume "queues_inv q" "queue_step q (Settle t) q'"
  then show "t \<in> queues_tokens q \<and> queues_tokens q' \<subseteq> queues_tokens q - {t}"
    using queue_step_effect [of q "Settle t" q']
    by (auto simp: ledger_effect_def queues_tokens_def queues_inv_def)
next
  fix q q'
  assume "queues_inv q" "queue_step q Quiet q'"
  then show "queues_tokens q' \<subseteq> queues_tokens q"
    using queue_step_effect [of q Quiet q'] by (auto simp: ledger_effect_def queues_tokens_def)
qed (rule queue_step_inv)

definition emptySteerQueue :: steerQueueState where
  "emptySteerQueue = \<lparr>sq_Items = [], sq_PromotedFollowUpItems = [], sq_ClosedRunID = '''', sq_UpdatedAt = 0\<rparr>"

definition emptyFollowUpQueue :: followUpQueueState where
  "emptyFollowUpQueue = \<lparr>fq_Items = [], fq_TerminalClaims = [], fq_UpdatedAt = 0\<rparr>"

lemma empty_queues:
  "steer_inv emptySteerQueue" "followUp_inv emptyFollowUpQueue"
  "queues_inv (emptySteerQueue, emptyFollowUpQueue)" "queues_tokens (emptySteerQueue, emptyFollowUpQueue) = {}"
  by (simp_all add: emptySteerQueue_def emptyFollowUpQueue_def queues_inv_def steer_inv_def followUp_inv_def
      cellsOK_def queues_tokens_def steerTokens_def followUpTokens_def)

end
