(* ===== verification/MemoryBackend.thy ===== *)
theory MemoryBackend
  imports QueueLedger
begin

text \<open>
  The in-process backend, \<^verbatim>\<open>internal/agent/runtime/session/memory.go\<close>:
  snapshots with lazy expiry, history reset leases and event subscriptions. Every
  method holds the backend's mutex for the part modelled here, so an operation is a
  function from state to state. Its clock readings, the errors the context
  carries when the method looks at it, the update callbacks and the draining of
  channels by their readers are arguments. Go maps are association lists: the
  order in which a range visits them is the order of the list, which the theorems
  leave arbitrary.
\<close>

section \<open>State\<close>

record memoryDecisionOutput =
  do_events :: "bytes list"
  do_bytes :: nat
  do_done :: bool
  do_failed :: bool
  do_claimed :: bool

text \<open>
  Channels live in a heap: an entry holds the address of its channel.
  \<open>en_stop\<close> says whether a stop function for the context watch is recorded.
\<close>

record subscriberEntry =
  en_ch :: nat
  en_stop :: bool

record subscriberSet =
  ss_nextID :: int
  ss_subs :: "(string, (int, subscriberEntry) gomap) gomap"
  ss_chans :: "Event chan list"

record MemoryBackend =
  mb_stateTTL :: duration
  mb_nextCleanup :: gotime
  mb_snapshots :: "(string, Snapshot) gomap"
  mb_snapshotExpiresAt :: "(string, gotime) gomap"
  mb_decisionOutputs :: "(string, memoryDecisionOutput) gomap"
  mb_decisionOutputExpiresAt :: "(string, gotime) gomap"
  mb_historyResets :: "(string, ResetLease) gomap"
  mb_steerQueues :: "(string, steerQueueState) gomap"
  mb_followUpQueues :: "(string, followUpQueueState) gomap"
  mb_subscribers :: subscriberSet
  mb_closed :: bool
  mb_generation :: string

definition newSubscriberSet :: subscriberSet where
  "newSubscriberSet = \<lparr>ss_nextID = 0, ss_subs = [], ss_chans = []\<rparr>"

definition NewMemoryBackendWithTTL :: "string \<Rightarrow> duration \<Rightarrow> MemoryBackend" where
  "NewMemoryBackendWithTTL uuid stateTTL =
     \<lparr>mb_stateTTL = (if stateTTL \<le> 0 then 24 * hour else stateTTL), mb_nextCleanup = 0,
      mb_snapshots = [], mb_snapshotExpiresAt = [], mb_decisionOutputs = [], mb_decisionOutputExpiresAt = [],
      mb_historyResets = [], mb_steerQueues = [], mb_followUpQueues = [],
      mb_subscribers = newSubscriberSet, mb_closed = False, mb_generation = uuid\<rparr>"

definition NewMemoryBackend :: "string \<Rightarrow> MemoryBackend" where
  "NewMemoryBackend uuid = NewMemoryBackendWithTTL uuid (24 * hour)"

section \<open>Subscriber sets\<close>

definition subs_register :: "subscriberSet \<Rightarrow> string \<Rightarrow> subscriberSet \<times> int \<times> nat" where
  "subs_register s key =
     (let subID = wrap64 (ss_nextID s + 1);
          ch = length (ss_chans s);
          entries = mapPut subID \<lparr>en_ch = ch, en_stop = False\<rparr> (mapGet [] (ss_subs s) key)
      in (s\<lparr>ss_nextID := subID, ss_subs := mapPut key entries (ss_subs s), ss_chans := ss_chans s @ [makeChan 64]\<rparr>, subID, ch))"

definition subs_setContextWatch :: "subscriberSet \<Rightarrow> string \<Rightarrow> int \<Rightarrow> subscriberSet \<times> bool" where
  "subs_setContextWatch s key subID =
     (let entries = mapGet [] (ss_subs s) key in
      case map_of entries subID of
        None \<Rightarrow> (s, False)
      | Some e \<Rightarrow> (s\<lparr>ss_subs := mapPut key (mapPut subID (e\<lparr>en_stop := True\<rparr>) entries) (ss_subs s)\<rparr>, True))"

definition closeAt :: "nat \<Rightarrow> Event chan list \<Rightarrow> Event chan list option" where
  "closeAt ch chans =
     (case closeChan (chans ! ch) of None \<Rightarrow> None | Some c \<Rightarrow> Some (chans[ch := c]))"

text \<open>\<open>None\<close> is the panic of closing a closed channel.\<close>

definition subs_unregister :: "subscriberSet \<Rightarrow> string \<Rightarrow> int \<Rightarrow> subscriberSet option" where
  "subs_unregister s key subID =
     (case map_of (ss_subs s) key of
        None \<Rightarrow> Some s
      | Some entries \<Rightarrow>
          (case (case map_of entries subID of
                   None \<Rightarrow> Some (entries, ss_chans s)
                 | Some e \<Rightarrow>
                     (case closeAt (en_ch e) (ss_chans s) of
                        None \<Rightarrow> None
                      | Some chans \<Rightarrow> Some (mapDel subID entries, chans))) of
             None \<Rightarrow> None
           | Some (entries', chans) \<Rightarrow>
               Some (s\<lparr>ss_subs := (if entries' = [] then mapDel key (ss_subs s) else mapPut key entries' (ss_subs s)),
                       ss_chans := chans\<rparr>)))"

fun closeChans :: "nat list \<Rightarrow> Event chan list \<Rightarrow> Event chan list option" where
  "closeChans [] chans = Some chans"
| "closeChans (ch # chs) chans =
     (case closeAt ch chans of None \<Rightarrow> None | Some chans' \<Rightarrow> closeChans chs chans')"

definition subs_addresses :: "subscriberSet \<Rightarrow> nat list" where
  "subs_addresses s = concat (map (\<lambda>(key, entries). map (\<lambda>(subID, e). en_ch e) entries) (ss_subs s))"

definition subs_closeAll :: "subscriberSet \<Rightarrow> subscriberSet option" where
  "subs_closeAll s =
     (case closeChans (subs_addresses s) (ss_chans s) of
        None \<Rightarrow> None
      | Some chans \<Rightarrow> Some (s\<lparr>ss_subs := [], ss_chans := chans\<rparr>))"

text \<open>
  \<open>drain ch\<close> is what the reader of channel \<open>ch\<close> takes between the selects of
  \<open>enqueueRuntimeEvent\<close>.
\<close>

fun deliver :: "(nat \<Rightarrow> nat \<times> nat) \<Rightarrow> Event \<Rightarrow> nat list \<Rightarrow> Event chan list \<Rightarrow> Event chan list option" where
  "deliver drain event [] chans = Some chans"
| "deliver drain event (ch # chs) chans =
     (case enqueueRuntimeEvent (fst (drain ch)) (snd (drain ch)) (chans ! ch) event of
        None \<Rightarrow> None
      | Some c \<Rightarrow> deliver drain event chs (chans[ch := c]))"

section \<open>Expiry\<close>

text \<open>One round of a purge loop over an expiry map: what stays, and the next cleanup.\<close>

definition earlier :: "gotime \<Rightarrow> gotime \<Rightarrow> gotime" where
  "earlier nextCleanup expiresAt =
     (if isZeroTime nextCleanup \<or> expiresAt < nextCleanup then expiresAt else nextCleanup)"

definition scheduleCleanupLocked :: "gotime \<Rightarrow> MemoryBackend \<Rightarrow> MemoryBackend" where
  "scheduleCleanupLocked expiresAt b =
     (if isZeroTime expiresAt then b else b\<lparr>mb_nextCleanup := earlier (mb_nextCleanup b) expiresAt\<rparr>)"

definition runIsActive :: "Snapshot option \<Rightarrow> bool" where
  "runIsActive snapshot =
     (case snapshot of
        None \<Rightarrow> False
      | Some s \<Rightarrow> (case sn_CurrentRunView s of None \<Rightarrow> False | Some run \<Rightarrow> isActiveRunStatus (cr_Status run)))"

definition purgeDecisionStep :: "gotime \<Rightarrow> string \<times> gotime \<Rightarrow> MemoryBackend \<times> gotime \<Rightarrow> MemoryBackend \<times> gotime" where
  "purgeDecisionStep now kv st =
     (case (kv, st) of ((key, expiresAt), (b, nextCleanup)) \<Rightarrow>
        if \<not> now < expiresAt then
          (b\<lparr>mb_decisionOutputs := mapDel key (mb_decisionOutputs b),
             mb_decisionOutputExpiresAt := mapDel key (mb_decisionOutputExpiresAt b)\<rparr>, nextCleanup)
        else (b, earlier nextCleanup expiresAt))"

definition purgeSnapshotStep :: "gotime \<Rightarrow> string \<times> gotime \<Rightarrow> MemoryBackend \<times> gotime \<Rightarrow> MemoryBackend \<times> gotime" where
  "purgeSnapshotStep now kv st =
     (case (kv, st) of ((key, expiresAt), (b, nextCleanup)) \<Rightarrow>
        if \<not> now < expiresAt then
          (if runIsActive (map_of (mb_snapshots b) key)
           then (b\<lparr>mb_snapshotExpiresAt := mapDel key (mb_snapshotExpiresAt b)\<rparr>, nextCleanup)
           else (b\<lparr>mb_snapshots := mapDel key (mb_snapshots b),
                   mb_snapshotExpiresAt := mapDel key (mb_snapshotExpiresAt b)\<rparr>, nextCleanup))
        else (b, earlier nextCleanup expiresAt))"

definition purgeExpiredLocked :: "gotime \<Rightarrow> MemoryBackend \<Rightarrow> MemoryBackend" where
  "purgeExpiredLocked now b =
     (if \<not> isZeroTime (mb_nextCleanup b) \<and> now < mb_nextCleanup b then b
      else
        (let st1 = fold (purgeDecisionStep now) (mb_decisionOutputExpiresAt b) (b, 0);
             st2 = fold (purgeSnapshotStep now) (mb_snapshotExpiresAt (fst st1)) st1
         in (fst st2)\<lparr>mb_nextCleanup := snd st2\<rparr>))"

section \<open>History resets\<close>

definition historyResetKey :: "ResetScope \<Rightarrow> string" where
  "historyResetKey scope0 =
     (let scope = ResetScope_normalized scope0 in
      if rs_SessionID scope = '''' then ''bot:'' @ rs_BotID scope
      else ''session:'' @ rs_BotID scope @ '':'' @ rs_SessionID scope)"

definition purgeHistoryResetsLocked :: "gotime \<Rightarrow> MemoryBackend \<Rightarrow> MemoryBackend" where
  "purgeHistoryResetsLocked now b =
     b\<lparr>mb_historyResets := filter (\<lambda>(key, lease). now < rl_ExpiresAt lease) (mb_historyResets b)\<rparr>"

definition sessionLeases :: "string \<Rightarrow> (string, ResetLease) gomap \<Rightarrow> ResetLease list" where
  "sessionLeases botID resets =
     map snd (filter (\<lambda>(key, lease). HasPrefix key (''session:'' @ botID @ '':'')) resets)"

definition effectiveHistoryResetLocked :: "(string, ResetLease) gomap \<Rightarrow> ResetScope \<Rightarrow> ResetLease option" where
  "effectiveHistoryResetLocked resets scope0 =
     (let scope = ResetScope_normalized scope0;
          botLease = map_of resets (historyResetKey \<lparr>rs_BotID = rs_BotID scope, rs_SessionID = ''''\<rparr>)
      in effectiveResetLease scope botLease (sessionLeases (rs_BotID scope) resets))"

definition oppositeHistoryResetLocked :: "(string, ResetLease) gomap \<Rightarrow> ResetScope \<Rightarrow> ResetLease option" where
  "oppositeHistoryResetLocked resets scope0 =
     (let scope = ResetScope_normalized scope0 in
      if rs_SessionID scope \<noteq> '''' then
        map_of resets (historyResetKey \<lparr>rs_BotID = rs_BotID scope, rs_SessionID = ''''\<rparr>)
      else (case sessionLeases (rs_BotID scope) resets of [] \<Rightarrow> None | lease # _ \<Rightarrow> Some lease))"

text \<open>\<open>Inr None\<close> is \<open>(ResetLease{}, false, nil)\<close>.\<close>

definition AcquireHistoryReset ::
    "ctx \<Rightarrow> gotime \<Rightarrow> ResetScope \<Rightarrow> string \<Rightarrow> duration \<Rightarrow> MemoryBackend \<Rightarrow> MemoryBackend \<times> (GoError + ResetLease option)" where
  "AcquireHistoryReset ctx now scope0 token0 ttl b =
     (case ctx of
        Some err \<Rightarrow> (b, Inl err)
      | None \<Rightarrow>
          (let scope = ResetScope_normalized scope0; token = TrimSpace token0 in
           if \<not> ResetScope_valid scope \<or> token = '''' \<or> ttl \<le> 0 then
             (b, Inl (ErrorsNew ''reset scope, token, and positive ttl are required''))
           else
             (let b' = purgeHistoryResetsLocked now b in
              case effectiveHistoryResetLocked (mb_historyResets b') scope of
                Some _ \<Rightarrow> (b', Inr None)
              | None \<Rightarrow>
                  (let lease = \<lparr>rl_Scope = scope, rl_Token = token, rl_ExpiresAt = now + ttl\<rparr>
                   in (b'\<lparr>mb_historyResets := mapPut (historyResetKey scope) lease (mb_historyResets b')\<rparr>, Inr (Some lease))))))"

definition RenewHistoryReset ::
    "ctx \<Rightarrow> gotime \<Rightarrow> ResetLease \<Rightarrow> duration \<Rightarrow> MemoryBackend \<Rightarrow> MemoryBackend \<times> (GoError + ResetLease option)" where
  "RenewHistoryReset ctx now lease ttl b =
     (case ctx of
        Some err \<Rightarrow> (b, Inl err)
      | None \<Rightarrow>
          (if \<not> ResetLease_valid lease \<or> ttl \<le> 0 then
             (b, Inl (ErrorsNew ''valid reset lease and positive ttl are required''))
           else
             (let b' = purgeHistoryResetsLocked now b; key = historyResetKey (rl_Scope lease) in
              case map_of (mb_historyResets b') key of
                None \<Rightarrow> (b', Inr None)
              | Some current \<Rightarrow>
                  (if rl_Token current \<noteq> TrimSpace (rl_Token lease) then (b', Inr None)
                   else if oppositeHistoryResetLocked (mb_historyResets b') (rl_Scope lease) \<noteq> None then (b', Inr None)
                   else
                     (let current' = current\<lparr>rl_ExpiresAt := now + ttl\<rparr>
                      in (b'\<lparr>mb_historyResets := mapPut key current' (mb_historyResets b')\<rparr>, Inr (Some current')))))))"

definition ReleaseHistoryReset :: "ctx \<Rightarrow> ResetLease \<Rightarrow> MemoryBackend \<Rightarrow> MemoryBackend \<times> (GoError + bool)" where
  "ReleaseHistoryReset ctx lease b =
     (case ctx of
        Some err \<Rightarrow> (b, Inl err)
      | None \<Rightarrow>
          (if \<not> ResetScope_valid (rl_Scope lease) \<or> TrimSpace (rl_Token lease) = '''' then (b, Inr False)
           else
             (let key = historyResetKey (rl_Scope lease) in
              case map_of (mb_historyResets b) key of
                None \<Rightarrow> (b, Inr False)
              | Some current \<Rightarrow>
                  (if rl_Token current \<noteq> TrimSpace (rl_Token lease) then (b, Inr False)
                   else (b\<lparr>mb_historyResets := mapDel key (mb_historyResets b)\<rparr>, Inr True)))))"

definition EffectiveHistoryReset ::
    "ctx \<Rightarrow> gotime \<Rightarrow> ResetScope \<Rightarrow> MemoryBackend \<Rightarrow> MemoryBackend \<times> (GoError + ResetLease option)" where
  "EffectiveHistoryReset ctx now scope0 b =
     (case ctx of
        Some err \<Rightarrow> (b, Inl err)
      | None \<Rightarrow>
          (let scope = ResetScope_normalized scope0 in
           if \<not> ResetScope_valid scope then (b, Inr None)
           else
             (let b' = purgeHistoryResetsLocked now b
              in (b', Inr (effectiveHistoryResetLocked (mb_historyResets b') scope)))))"

section \<open>Snapshots\<close>

definition Backend_Now :: "ctx \<Rightarrow> gotime \<Rightarrow> GoError + gotime" where
  "Backend_Now ctx now = (case ctx of Some err \<Rightarrow> Inl err | None \<Rightarrow> Inr now)"

text \<open>\<open>ctx2\<close> is the context's error once the lock is held.\<close>

definition Load :: "ctx \<Rightarrow> ctx \<Rightarrow> gotime \<Rightarrow> Key \<Rightarrow> MemoryBackend \<Rightarrow> MemoryBackend \<times> (GoError + Snapshot option)" where
  "Load ctx1 ctx2 now key b =
     (case ctx1 of Some err \<Rightarrow> (b, Inl err) | None \<Rightarrow>
      case ctx2 of Some err \<Rightarrow> (b, Inl err) | None \<Rightarrow>
        (let b' = purgeExpiredLocked now b
         in (b', Inr (map_option cloneSnapshot (map_of (mb_snapshots b') (Key_String key))))))"

type_synonym SnapshotUpdate = "Snapshot \<Rightarrow> bool \<Rightarrow> Snapshot \<times> bool \<times> GoError option"

definition storeSnapshot :: "gotime \<Rightarrow> string \<Rightarrow> Snapshot \<Rightarrow> MemoryBackend \<Rightarrow> MemoryBackend" where
  "storeSnapshot now k next b =
     scheduleCleanupLocked (now + mb_stateTTL b)
       (b\<lparr>mb_snapshots := mapPut k (cloneSnapshot next) (mb_snapshots b),
          mb_snapshotExpiresAt := mapPut k (now + mb_stateTTL b) (mb_snapshotExpiresAt b)\<rparr>)"

definition Update ::
    "ctx \<Rightarrow> ctx \<Rightarrow> gotime \<Rightarrow> Key \<Rightarrow> SnapshotUpdate option \<Rightarrow> MemoryBackend \<Rightarrow>
     MemoryBackend \<times> Snapshot \<times> bool \<times> GoError option" where
  "Update ctx1 ctx2 now key update b =
     (case update of
        None \<Rightarrow> (b, zeroSnapshot, False, Some (ErrorsNew ''snapshot update is required''))
      | Some f \<Rightarrow>
          (case ctx1 of Some err \<Rightarrow> (b, zeroSnapshot, False, Some err) | None \<Rightarrow>
           case ctx2 of Some err \<Rightarrow> (b, zeroSnapshot, False, Some err) | None \<Rightarrow>
             (let b' = purgeExpiredLocked now b;
                  k = Key_String key;
                  current = cloneSnapshot (mapGet zeroSnapshot (mb_snapshots b') k)
              in case f current (map_of (mb_snapshots b') k \<noteq> None) of
                   (next, changed, err) \<Rightarrow>
                     (if err \<noteq> None \<or> \<not> changed then (b', next, changed, err)
                      else (storeSnapshot now k next b', next, True, None)))))"

definition StartRunIfNoHistoryReset ::
    "ctx \<Rightarrow> gotime \<Rightarrow> Key \<Rightarrow> SnapshotUpdate option \<Rightarrow> MemoryBackend \<Rightarrow>
     MemoryBackend \<times> Snapshot \<times> bool \<times> GoError option" where
  "StartRunIfNoHistoryReset ctx now key update b =
     (case update of
        None \<Rightarrow> (b, zeroSnapshot, False, Some (ErrorsNew ''snapshot update is required''))
      | Some f \<Rightarrow>
          (case ctx of Some err \<Rightarrow> (b, zeroSnapshot, False, Some err) | None \<Rightarrow>
             (let b1 = purgeHistoryResetsLocked now b in
              case effectiveHistoryResetLocked (mb_historyResets b1)
                     \<lparr>rs_BotID = k_BotID key, rs_SessionID = k_SessionID key\<rparr> of
                Some _ \<Rightarrow> (b1, zeroSnapshot, False, Some ErrHistoryResetInProgress)
              | None \<Rightarrow>
                  (let b2 = purgeExpiredLocked now b1;
                       k = Key_String key;
                       stored = mapGet zeroSnapshot (mb_snapshots b2) k
                   in case f (cloneSnapshot stored) (sn_SessionID stored \<noteq> '''') of
                        (next, changed, err) \<Rightarrow>
                          (if err \<noteq> None \<or> \<not> changed then (b2, next, changed, err)
                           else (storeSnapshot now k next b2, next, True, None))))))"

section \<open>Events\<close>

text \<open>
  Cloning an event through JSON is the identity on values. The outer \<open>None\<close> is a
  panic; the inner \<open>GoError option\<close> is the error.
\<close>

definition Publish ::
    "ctx \<Rightarrow> ctx \<Rightarrow> (nat \<Rightarrow> nat \<times> nat) \<Rightarrow> Event \<Rightarrow> MemoryBackend \<Rightarrow> (MemoryBackend \<times> GoError option) option" where
  "Publish ctx1 ctx2 drain event b =
     (case ctx1 of Some err \<Rightarrow> Some (b, Some err) | None \<Rightarrow>
      case ctx2 of Some err \<Rightarrow> Some (b, Some err) | None \<Rightarrow>
        (let subs = mb_subscribers b;
             entries = mapGet [] (ss_subs subs) (Key_String \<lparr>k_BotID = ev_BotID event, k_SessionID = ev_SessionID event\<rparr>)
         in case deliver drain event (map (\<lambda>(subID, e). en_ch e) entries) (ss_chans subs) of
              None \<Rightarrow> None
            | Some chans \<Rightarrow> Some (b\<lparr>mb_subscribers := subs\<lparr>ss_chans := chans\<rparr>\<rparr>, None)))"

text \<open>
  \<open>Subscribe\<close> takes the lock twice, so it is two steps: the registration, which
  gives the subscriber's ID and channel (\<open>None\<close> for a closed backend, where the
  caller gets a closed channel of its own), and the recording of the context watch.
\<close>

definition Subscribe_register :: "ctx \<Rightarrow> Key \<Rightarrow> MemoryBackend \<Rightarrow> MemoryBackend \<times> (GoError + (int \<times> nat) option)" where
  "Subscribe_register ctx key b =
     (case ctx of Some err \<Rightarrow> (b, Inl err) | None \<Rightarrow>
        if mb_closed b then (b, Inr None)
        else
          (case subs_register (mb_subscribers b) (Key_String key) of
             (subs, subID, ch) \<Rightarrow> (b\<lparr>mb_subscribers := subs\<rparr>, Inr (Some (subID, ch)))))"

definition Subscribe_watch :: "Key \<Rightarrow> int \<Rightarrow> MemoryBackend \<Rightarrow> MemoryBackend \<times> bool" where
  "Subscribe_watch key subID b =
     (case subs_setContextWatch (mb_subscribers b) (Key_String key) subID of
        (subs, registered) \<Rightarrow> (b\<lparr>mb_subscribers := subs\<rparr>, registered))"

definition Subscription_unregister :: "Key \<Rightarrow> int \<Rightarrow> MemoryBackend \<Rightarrow> MemoryBackend option" where
  "Subscription_unregister key subID b =
     (case subs_unregister (mb_subscribers b) (Key_String key) subID of
        None \<Rightarrow> None
      | Some subs \<Rightarrow> Some (b\<lparr>mb_subscribers := subs\<rparr>))"

definition Backend_Close :: "MemoryBackend \<Rightarrow> MemoryBackend option" where
  "Backend_Close b =
     (if mb_closed b then Some b
      else
        (case subs_closeAll (mb_subscribers b) of
           None \<Rightarrow> None
         | Some subs \<Rightarrow> Some (b\<lparr>mb_closed := True, mb_subscribers := subs\<rparr>)))"

end
