(* ===== verification/MemoryExpiry.thy ===== *)
theory MemoryExpiry
  imports MemoryBackend
begin

text \<open>
  The expiry of snapshots and decision outputs. \<open>purgeExpiredLocked\<close> looks at the
  maps only when the recorded next cleanup has come; \<open>expiry_inv\<close> is what makes this
  enough. Under it a purge has the effect of an eager one, key by key.
\<close>

section \<open>The scheduling invariant\<close>

definition dueAfter :: "gotime \<Rightarrow> (string, gotime) gomap \<Rightarrow> bool" where
  "dueAfter n m \<longleftrightarrow> (\<forall>(k, e)\<in>set m. 0 < n \<and> n \<le> e)"

definition expiry_inv :: "MemoryBackend \<Rightarrow> bool" where
  "expiry_inv b \<longleftrightarrow> 0 < mb_stateTTL b \<and> 0 \<le> mb_nextCleanup b \<and>
     wfMap (mb_snapshots b) \<and> wfMap (mb_snapshotExpiresAt b) \<and>
     wfMap (mb_decisionOutputs b) \<and> wfMap (mb_decisionOutputExpiresAt b) \<and>
     dueAfter (mb_nextCleanup b) (mb_snapshotExpiresAt b) \<and>
     dueAfter (mb_nextCleanup b) (mb_decisionOutputExpiresAt b)"

definition expiredAt :: "gotime \<Rightarrow> (string, gotime) gomap \<Rightarrow> string \<Rightarrow> bool" where
  "expiredAt now m k = (case map_of m k of None \<Rightarrow> False | Some e \<Rightarrow> e \<le> now)"

section \<open>The purge loops\<close>

lemma earlier_fold:
  assumes "\<forall>e\<in>set es. 0 < e" "0 \<le> n"
  defines "r \<equiv> fold (\<lambda>e n. earlier n e) es n"
  shows "0 \<le> r \<and> (\<forall>e\<in>set es. 0 < r \<and> r \<le> e) \<and> (n \<noteq> 0 \<longrightarrow> 0 < r \<and> r \<le> n)"
  using assms(1,2) unfolding r_def
proof (induction es arbitrary: n)
  case Nil
  then show ?case by simp
next
  case (Cons e es)
  have "0 < earlier n e" "earlier n e \<le> e" "n = 0 \<or> earlier n e \<le> n"
    using Cons.prems by (auto simp: earlier_def isZeroTime_def)
  with Cons.IH [of "earlier n e"] Cons.prems show ?case by fastforce
qed

definition dueKeys :: "gotime \<Rightarrow> (string, gotime) gomap \<Rightarrow> string list" where
  "dueKeys now m = map fst (filter (\<lambda>(k, e). e \<le> now) m)"

abbreviation nextDue :: "gotime \<Rightarrow> (string, gotime) gomap \<Rightarrow> gotime \<Rightarrow> gotime" where
  "nextDue now m \<equiv> fold (\<lambda>e n. earlier n e) (filter (\<lambda>e. now < e) (map snd m))"

lemma map_of_fold_mapDel: "map_of (fold mapDel ks m) k = (if k \<in> set ks then None else map_of m k)"
  by (induction ks arbitrary: m) auto

lemma wfMap_fold_mapDel: "wfMap m \<Longrightarrow> wfMap (fold mapDel ks m)"
  by (induction ks arbitrary: m) auto

lemma set_fold_mapDel: "set (fold mapDel ks m) = {p \<in> set m. fst p \<notin> set ks}"
  by (induction ks arbitrary: m) (auto simp: set_mapDel)

lemma purgeDecision_fold:
  "fold (purgeDecisionStep now) xs (b, n) =
     (b\<lparr>mb_decisionOutputs := fold mapDel (dueKeys now xs) (mb_decisionOutputs b),
        mb_decisionOutputExpiresAt := fold mapDel (dueKeys now xs) (mb_decisionOutputExpiresAt b)\<rparr>, nextDue now xs n)"
  by (induction xs arbitrary: b n) (auto simp: purgeDecisionStep_def dueKeys_def not_less)

lemma purgeSnapshot_fold:
  assumes "distinct (map fst xs)"
  shows "fold (purgeSnapshotStep now) xs (b, n) =
     (b\<lparr>mb_snapshots := fold mapDel (filter (\<lambda>k. \<not> runIsActive (map_of (mb_snapshots b) k)) (dueKeys now xs)) (mb_snapshots b),
        mb_snapshotExpiresAt := fold mapDel (dueKeys now xs) (mb_snapshotExpiresAt b)\<rparr>, nextDue now xs n)"
  using assms
proof (induction xs arbitrary: b n)
  case Nil
  then show ?case by (simp add: dueKeys_def)
next
  case (Cons x xs)
  obtain k e where x: "x = (k, e)" by (cases x)
  have "k \<notin> set (dueKeys now xs)" using Cons.prems x by (auto simp: dueKeys_def rev_image_eqI)
  then have other: "filter (\<lambda>k'. \<not> runIsActive (if k' = k then None else map_of (mb_snapshots b) k')) (dueKeys now xs) =
      filter (\<lambda>k'. \<not> runIsActive (map_of (mb_snapshots b) k')) (dueKeys now xs)"
    by (intro filter_cong) auto
  have due: "dueKeys now ((k, e) # xs) = (if e \<le> now then k # dueKeys now xs else dueKeys now xs)"
    by (simp add: dueKeys_def)
  show ?case
    using Cons other unfolding x due by (auto simp: purgeSnapshotStep_def not_less fun_upd_def)
qed

lemma dueKeys_iff: "wfMap m \<Longrightarrow> k \<in> set (dueKeys now m) \<longleftrightarrow> expiredAt now m k"
  by (auto simp: dueKeys_def expiredAt_def image_iff wfMap_set split: option.splits)

text \<open>A purge that is skipped would have found nothing to do.\<close>

lemma nothing_due: "dueAfter n m \<Longrightarrow> now < n \<Longrightarrow> wfMap m \<Longrightarrow> \<not> expiredAt now m k"
  by (force simp: expiredAt_def dueAfter_def wfMap_set [symmetric] split: option.splits)

lemma purge_scan:
  assumes "\<not> (mb_nextCleanup b \<noteq> 0 \<and> now < mb_nextCleanup b)" "wfMap (mb_snapshotExpiresAt b)"
  shows "purgeExpiredLocked now b = b\<lparr>
    mb_decisionOutputs := fold mapDel (dueKeys now (mb_decisionOutputExpiresAt b)) (mb_decisionOutputs b),
    mb_decisionOutputExpiresAt := fold mapDel (dueKeys now (mb_decisionOutputExpiresAt b)) (mb_decisionOutputExpiresAt b),
    mb_snapshots := fold mapDel (filter (\<lambda>k. \<not> runIsActive (map_of (mb_snapshots b) k)) (dueKeys now (mb_snapshotExpiresAt b))) (mb_snapshots b),
    mb_snapshotExpiresAt := fold mapDel (dueKeys now (mb_snapshotExpiresAt b)) (mb_snapshotExpiresAt b),
    mb_nextCleanup := nextDue now (mb_snapshotExpiresAt b) (nextDue now (mb_decisionOutputExpiresAt b) 0)\<rparr>"
  using assms by (auto simp: purgeExpiredLocked_def isZeroTime_def purgeDecision_fold purgeSnapshot_fold wfMap_def Let_def)

lemma purge_effect:
  assumes "expiry_inv b"
  shows "map_of (mb_snapshots (purgeExpiredLocked now b)) k =
      (if expiredAt now (mb_snapshotExpiresAt b) k \<and> \<not> runIsActive (map_of (mb_snapshots b) k)
       then None else map_of (mb_snapshots b) k)"
    "map_of (mb_snapshotExpiresAt (purgeExpiredLocked now b)) k =
      (if expiredAt now (mb_snapshotExpiresAt b) k then None else map_of (mb_snapshotExpiresAt b) k)"
    "map_of (mb_decisionOutputs (purgeExpiredLocked now b)) k =
      (if expiredAt now (mb_decisionOutputExpiresAt b) k then None else map_of (mb_decisionOutputs b) k)"
    "map_of (mb_decisionOutputExpiresAt (purgeExpiredLocked now b)) k =
      (if expiredAt now (mb_decisionOutputExpiresAt b) k then None else map_of (mb_decisionOutputExpiresAt b) k)"
  using assms nothing_due [of "mb_nextCleanup b" _ now k]
  by (auto simp: purgeExpiredLocked_def expiry_inv_def isZeroTime_def purgeDecision_fold purgeSnapshot_fold
      Let_def map_of_fold_mapDel dueKeys_iff wfMap_def [symmetric])

lemma purge_frame:
  "wfMap (mb_snapshotExpiresAt b) \<Longrightarrow>
   purgeExpiredLocked now b = b\<lparr>mb_nextCleanup := mb_nextCleanup (purgeExpiredLocked now b),
     mb_snapshots := mb_snapshots (purgeExpiredLocked now b),
     mb_snapshotExpiresAt := mb_snapshotExpiresAt (purgeExpiredLocked now b),
     mb_decisionOutputs := mb_decisionOutputs (purgeExpiredLocked now b),
     mb_decisionOutputExpiresAt := mb_decisionOutputExpiresAt (purgeExpiredLocked now b)\<rparr>"
  by (simp add: purgeExpiredLocked_def purgeDecision_fold purgeSnapshot_fold Let_def wfMap_def)

lemma purge_inv [simp]:
  assumes "expiry_inv b"
  shows "expiry_inv (purgeExpiredLocked now b)"
proof (cases "mb_nextCleanup b \<noteq> 0 \<and> now < mb_nextCleanup b")
  case True
  with assms show ?thesis by (simp add: purgeExpiredLocked_def isZeroTime_def)
next
  case False
  let ?d = "mb_decisionOutputExpiresAt b" and ?s = "mb_snapshotExpiresAt b"
  have wf: "wfMap ?s" using assms by (simp add: expiry_inv_def)
  define n1 where "n1 = nextDue now ?d 0"
  define n2 where "n2 = nextDue now ?s n1"
  have pos: "\<forall>e\<in>set (filter (\<lambda>e. now < e) (map snd ?d)). 0 < e" "\<forall>e\<in>set (filter (\<lambda>e. now < e) (map snd ?s)). 0 < e"
    using assms by (auto simp: expiry_inv_def dueAfter_def)
  have n1: "0 \<le> n1" "\<forall>e\<in>set (filter (\<lambda>e. now < e) (map snd ?d)). 0 < n1 \<and> n1 \<le> e"
    unfolding n1_def using earlier_fold [OF pos(1), of 0] by auto
  have n2: "0 \<le> n2" "\<forall>e\<in>set (filter (\<lambda>e. now < e) (map snd ?s)). 0 < n2 \<and> n2 \<le> e" "n1 \<noteq> 0 \<longrightarrow> 0 < n2 \<and> n2 \<le> n1"
    unfolding n2_def using earlier_fold [OF pos(2) n1(1)] by auto
  have late: "e \<in> set (filter (\<lambda>e. now < e) (map snd m))" if "(k, e) \<in> set (fold mapDel (dueKeys now m) m)" for k e m
    using that by (force simp: dueKeys_def set_fold_mapDel)
  have "0 < n2 \<and> n2 \<le> e" if "(k, e) \<in> set (fold mapDel (dueKeys now ?d) ?d)" for k e
    using bspec [OF n1(2) late [OF that]] bspec [OF pos(1) late [OF that]] n2(3) by auto
  then have "dueAfter n2 (fold mapDel (dueKeys now ?d) ?d)" by (auto simp: dueAfter_def)
  moreover have "0 < n2 \<and> n2 \<le> e" if "(k, e) \<in> set (fold mapDel (dueKeys now ?s) ?s)" for k e
    using bspec [OF n2(2) late [OF that]] bspec [OF pos(2) late [OF that]] by auto
  then have "dueAfter n2 (fold mapDel (dueKeys now ?s) ?s)" by (auto simp: dueAfter_def)
  ultimately show ?thesis
    using assms n2(1) unfolding purge_scan [OF False wf] n1_def [symmetric] n2_def [symmetric]
    by (simp add: expiry_inv_def wfMap_fold_mapDel)
qed

lemma dueAfter_earlier: "dueAfter n m \<Longrightarrow> 0 \<le> n \<Longrightarrow> 0 < e \<Longrightarrow> dueAfter (earlier n e) m"
  by (fastforce simp: dueAfter_def earlier_def isZeroTime_def)

lemma schedule_inv:
  assumes "expiry_inv b" "0 < e"
  shows "expiry_inv (scheduleCleanupLocked e b)"
    "0 < mb_nextCleanup (scheduleCleanupLocked e b) \<and> mb_nextCleanup (scheduleCleanupLocked e b) \<le> e"
  using assms by (simp_all add: expiry_inv_def scheduleCleanupLocked_def isZeroTime_def dueAfter_earlier)
    (auto simp: earlier_def isZeroTime_def)

lemma dueAfter_mapPut: "dueAfter n m \<Longrightarrow> 0 < n \<Longrightarrow> n \<le> e \<Longrightarrow> dueAfter n (mapPut k e m)"
  using set_mapPut_subset [of k e m] by (auto simp: dueAfter_def)

lemma storeSnapshot_inv:
  assumes "expiry_inv b" "0 \<le> now"
  shows "expiry_inv (storeSnapshot now k next b)"
proof -
  let ?e = "now + mb_stateTTL b"
  have e: "0 < ?e" using assms by (simp add: expiry_inv_def)
  have "storeSnapshot now k next b = (scheduleCleanupLocked ?e b)\<lparr>
      mb_snapshots := mapPut k (cloneSnapshot next) (mb_snapshots b),
      mb_snapshotExpiresAt := mapPut k ?e (mb_snapshotExpiresAt b)\<rparr>"
    by (simp add: storeSnapshot_def scheduleCleanupLocked_def)
  moreover have "mb_snapshots (scheduleCleanupLocked ?e b) = mb_snapshots b"
    "mb_snapshotExpiresAt (scheduleCleanupLocked ?e b) = mb_snapshotExpiresAt b"
    by (simp_all add: scheduleCleanupLocked_def)
  ultimately show ?thesis
    using schedule_inv [OF assms(1) e] by (simp add: expiry_inv_def dueAfter_mapPut)
qed

section \<open>The operations\<close>

lemma Load_inv: "expiry_inv b \<Longrightarrow> Load c1 c2 now key b = (b', r) \<Longrightarrow> expiry_inv b'"
  by (auto simp: Load_def Let_def split: option.splits)

lemma Update_inv: "expiry_inv b \<Longrightarrow> 0 \<le> now \<Longrightarrow> Update c1 c2 now key f b = (b', r) \<Longrightarrow> expiry_inv b'"
  by (auto simp: Update_def Let_def storeSnapshot_inv split: option.splits prod.splits if_splits)

lemma purgeHistoryResets_inv [simp]: "expiry_inv (purgeHistoryResetsLocked now b) = expiry_inv b"
  by (simp add: expiry_inv_def purgeHistoryResetsLocked_def)

lemma StartRun_inv:
  "expiry_inv b \<Longrightarrow> 0 \<le> now \<Longrightarrow> StartRunIfNoHistoryReset c now key f b = (b', r) \<Longrightarrow> expiry_inv b'"
  by (auto simp: StartRunIfNoHistoryReset_def Let_def storeSnapshot_inv split: option.splits prod.splits if_splits)

lemma NewMemoryBackend_inv: "expiry_inv (NewMemoryBackendWithTTL uuid ttl)"
  by (simp add: expiry_inv_def NewMemoryBackendWithTTL_def dueAfter_def)

end
