(* ===== verification/LiveQueueBackend.thy ===== *)
theory LiveQueueBackend
  imports MemoryExpiry
begin

text \<open>
  The live queue methods of the in-process backend,
  \<^verbatim>\<open>internal/agent/runtime/session/memory_live_queue.go\<close>: the guards that relate a
  queue operation to the session's current run, around the transitions of
  \<open>LiveQueue\<close>. Operations that read the clock twice take two times; UUIDs are
  arguments.
\<close>

section \<open>Operations\<close>

definition steersOf :: "MemoryBackend \<Rightarrow> Key \<Rightarrow> steerQueueState" where
  "steersOf b key = mapGet emptySteerQueue (mb_steerQueues b) (Key_String key)"

definition followsOf :: "MemoryBackend \<Rightarrow> Key \<Rightarrow> followUpQueueState" where
  "followsOf b key = mapGet emptyFollowUpQueue (mb_followUpQueues b) (Key_String key)"

definition putSteers :: "Key \<Rightarrow> steerQueueState \<Rightarrow> MemoryBackend \<Rightarrow> MemoryBackend" where
  "putSteers key state b = b\<lparr>mb_steerQueues := mapPut (Key_String key) state (mb_steerQueues b)\<rparr>"

definition putFollows :: "Key \<Rightarrow> followUpQueueState \<Rightarrow> MemoryBackend \<Rightarrow> MemoryBackend" where
  "putFollows key state b = b\<lparr>mb_followUpQueues := mapPut (Key_String key) state (mb_followUpQueues b)\<rparr>"

definition queueExpired :: "duration \<Rightarrow> gotime \<Rightarrow> gotime \<Rightarrow> bool" where
  "queueExpired ttl now updatedAt \<longleftrightarrow> \<not> isZeroTime updatedAt \<and> ttl \<le> timeSub now updatedAt"

definition purgeLiveQueuesLocked :: "gotime \<Rightarrow> MemoryBackend \<Rightarrow> MemoryBackend" where
  "purgeLiveQueuesLocked now b =
     b\<lparr>mb_steerQueues := filter (\<lambda>(key, state). \<not> queueExpired (mb_stateTTL b) now (sq_UpdatedAt state)) (mb_steerQueues b),
       mb_followUpQueues := filter (\<lambda>(key, state). \<not> queueExpired (mb_stateTTL b) now (fq_UpdatedAt state)) (mb_followUpQueues b)\<rparr>"

definition liveSnapshotLocked :: "Key \<Rightarrow> gotime \<Rightarrow> MemoryBackend \<Rightarrow> MemoryBackend \<times> Snapshot option" where
  "liveSnapshotLocked key now b =
     (let b' = purgeExpiredLocked now b in (b', map_of (mb_snapshots b') (Key_String key)))"

definition EnqueueSteer ::
    "ctx \<Rightarrow> gotime \<Rightarrow> Key \<Rightarrow> string \<Rightarrow> string \<Rightarrow> bytes \<Rightarrow> MemoryBackend \<Rightarrow> MemoryBackend \<times> (GoError + SteerItem)" where
  "EnqueueSteer ctx now key itemID invocationID payload b =
     (case ctx of Some err \<Rightarrow> (b, Inl err) | None \<Rightarrow>
      if validateQueueKey key \<noteq> None \<or> TrimSpace itemID = '''' \<or> TrimSpace invocationID = '''' \<or> payload = []
      then (b, Inl ErrQueueInvalidReference)
      else if mb_closed b then (b, Inl ErrLiveQueueUnavailable)
      else
        (let b1 = purgeLiveQueuesLocked now b; state = steersOf b1 key in
         case replaySteer state invocationID payload of
           Some result \<Rightarrow> (b1, result)
         | None \<Rightarrow>
             (case liveSnapshotLocked key now b1 of (b2, snapshot) \<Rightarrow>
                (case activeRun snapshot of
                   None \<Rightarrow> (b2, Inl ErrQueueNoActiveRun)
                 | Some run \<Rightarrow>
                     (if sq_ClosedRunID state = cr_RunID run then (b2, Inl ErrQueueNoActiveRun)
                      else if \<not> SteerRunAvailable (Some run) then (b2, Inl ErrQueueSteerUnsupported)
                      else
                        (case steer_enqueue state key itemID invocationID (cr_RunID run) payload now of
                           Inl err \<Rightarrow> (b2, Inl err)
                         | Inr (state', item) \<Rightarrow> (putSteers key state' b2, Inr item)))))))"

definition EnqueueFollowUp ::
    "ctx \<Rightarrow> gotime \<Rightarrow> Key \<Rightarrow> string \<Rightarrow> string \<Rightarrow> bytes \<Rightarrow> MemoryBackend \<Rightarrow> MemoryBackend \<times> (GoError + FollowUpItem)" where
  "EnqueueFollowUp ctx now key itemID invocationID payload b =
     (case ctx of Some err \<Rightarrow> (b, Inl err) | None \<Rightarrow>
      if validateQueueKey key \<noteq> None \<or> TrimSpace itemID = '''' \<or> TrimSpace invocationID = '''' \<or> validatePayload payload \<noteq> None
      then (b, Inl ErrQueueInvalidReference)
      else if mb_closed b then (b, Inl ErrLiveQueueUnavailable)
      else
        (let b1 = purgeLiveQueuesLocked now b; state = followsOf b1 key in
         case replayFollowUp state invocationID payload of
           Some result \<Rightarrow> (b1, result)
         | None \<Rightarrow>
             (case liveSnapshotLocked key now b1 of (b2, snapshot) \<Rightarrow>
                (case activeRun snapshot of
                   None \<Rightarrow> (b2, Inl ErrQueueNoActiveRun)
                 | Some run \<Rightarrow>
                     (case followUp_enqueue state key itemID invocationID (cr_RunID run) payload now of
                        Inl err \<Rightarrow> (b2, Inl err)
                      | Inr (state', item) \<Rightarrow> (putFollows key state' b2, Inr item))))))"

definition PendingQueues ::
    "ctx \<Rightarrow> gotime \<Rightarrow> Key \<Rightarrow> int \<Rightarrow> MemoryBackend \<Rightarrow> MemoryBackend \<times> (GoError + SteerItem list \<times> FollowUpItem list)" where
  "PendingQueues ctx now key limit b =
     (case ctx of Some err \<Rightarrow> (b, Inl err) | None \<Rightarrow>
      case validateQueueKey key of Some err \<Rightarrow> (b, Inl err) | None \<Rightarrow>
        if mb_closed b then (b, Inl ErrLiveQueueUnavailable)
        else
          (let b' = purgeLiveQueuesLocked now b
           in (b', Inr (pendingSteers (steersOf b' key) limit, pendingFollowUps (followsOf b' key) limit))))"

definition ReorderSteer ::
    "ctx \<Rightarrow> gotime \<Rightarrow> Key \<Rightarrow> SteerPendingRef \<Rightarrow> SteerPendingRef \<Rightarrow> MemoryBackend \<Rightarrow> MemoryBackend \<times> (GoError + SteerItem list)" where
  "ReorderSteer ctx now key item before b =
     (case ctx of Some err \<Rightarrow> (b, Inl err) | None \<Rightarrow>
      if mb_closed b then (b, Inl ErrLiveQueueUnavailable)
      else
        (let b1 = purgeLiveQueuesLocked now b in
         case validateQueueKey key of Some err \<Rightarrow> (b1, Inl err) | None \<Rightarrow>
           (case reorderSteerState (steersOf b1 key) item before of
              Inl err \<Rightarrow> (b1, Inl err)
            | Inr (state, items) \<Rightarrow> (putSteers key (state\<lparr>sq_UpdatedAt := now\<rparr>) b1, Inr items))))"

definition ReorderFollowUp ::
    "ctx \<Rightarrow> gotime \<Rightarrow> Key \<Rightarrow> FollowUpPendingRef \<Rightarrow> FollowUpPendingRef \<Rightarrow> MemoryBackend \<Rightarrow> MemoryBackend \<times> (GoError + FollowUpItem list)" where
  "ReorderFollowUp ctx now key item before b =
     (case ctx of Some err \<Rightarrow> (b, Inl err) | None \<Rightarrow>
      if mb_closed b then (b, Inl ErrLiveQueueUnavailable)
      else
        (let b1 = purgeLiveQueuesLocked now b in
         case validateQueueKey key of Some err \<Rightarrow> (b1, Inl err) | None \<Rightarrow>
           (case reorderFollowUpState (followsOf b1 key) item before of
              Inl err \<Rightarrow> (b1, Inl err)
            | Inr (state, items) \<Rightarrow> (putFollows key (state\<lparr>fq_UpdatedAt := now\<rparr>) b1, Inr items))))"

definition UpdateSteer ::
    "ctx \<Rightarrow> gotime \<Rightarrow> Key \<Rightarrow> string \<Rightarrow> bytes \<Rightarrow> MemoryBackend \<Rightarrow> MemoryBackend \<times> (GoError + SteerItem)" where
  "UpdateSteer ctx now key itemID payload b =
     (case ctx of Some err \<Rightarrow> (b, Inl err) | None \<Rightarrow>
      if mb_closed b then (b, Inl ErrLiveQueueUnavailable)
      else if validateQueueKey key \<noteq> None \<or> itemID = '''' \<or> validatePayload payload \<noteq> None
      then (b, Inl ErrQueueInvalidReference)
      else
        (case steer_edit (steersOf b key) itemID payload now of
           Inl err \<Rightarrow> (b, Inl err)
         | Inr (state, item) \<Rightarrow> (putSteers key state b, Inr item)))"

definition UpdateFollowUp ::
    "ctx \<Rightarrow> gotime \<Rightarrow> Key \<Rightarrow> string \<Rightarrow> bytes \<Rightarrow> MemoryBackend \<Rightarrow> MemoryBackend \<times> (GoError + FollowUpItem)" where
  "UpdateFollowUp ctx now key itemID payload b =
     (case ctx of Some err \<Rightarrow> (b, Inl err) | None \<Rightarrow>
      if mb_closed b then (b, Inl ErrLiveQueueUnavailable)
      else if validateQueueKey key \<noteq> None \<or> itemID = '''' \<or> validatePayload payload \<noteq> None
      then (b, Inl ErrQueueInvalidReference)
      else
        (case followUp_edit (followsOf b key) itemID payload now of
           Inl err \<Rightarrow> (b, Inl err)
         | Inr (state, item) \<Rightarrow> (putFollows key state b, Inr item)))"

definition CancelSteer :: "ctx \<Rightarrow> gotime \<Rightarrow> Key \<Rightarrow> string \<Rightarrow> MemoryBackend \<Rightarrow> MemoryBackend \<times> GoError option" where
  "CancelSteer ctx now key itemID b =
     (case ctx of Some err \<Rightarrow> (b, Some err) | None \<Rightarrow>
      if mb_closed b then (b, Some ErrLiveQueueUnavailable)
      else if validateQueueKey key \<noteq> None \<or> itemID = '''' then (b, Some ErrQueueInvalidReference)
      else
        (case steer_cancel (steersOf b key) itemID now of
           Inl err \<Rightarrow> (b, Some err)
         | Inr state \<Rightarrow> (putSteers key state b, None)))"

definition CloseSteerRun :: "ctx \<Rightarrow> gotime \<Rightarrow> Key \<Rightarrow> string \<Rightarrow> MemoryBackend \<Rightarrow> MemoryBackend \<times> GoError option" where
  "CloseSteerRun ctx now key runID0 b =
     (case ctx of Some err \<Rightarrow> (b, Some err) | None \<Rightarrow>
      (let runID = TrimSpace runID0 in
       if validateQueueKey key \<noteq> None \<or> runID = '''' then (b, Some ErrQueueInvalidReference)
       else if mb_closed b then (b, Some ErrLiveQueueUnavailable)
       else
         (case map_of (mb_steerQueues b) (Key_String key) of
            None \<Rightarrow> (b, None)
          | Some state \<Rightarrow>
              (case closeSteerRun state runID now of
                 (state', changed) \<Rightarrow> (if changed then putSteers key (steer_compact state') b else b, None)))))"

definition CancelFollowUp :: "ctx \<Rightarrow> gotime \<Rightarrow> Key \<Rightarrow> string \<Rightarrow> MemoryBackend \<Rightarrow> MemoryBackend \<times> GoError option" where
  "CancelFollowUp ctx now key itemID b =
     (case ctx of Some err \<Rightarrow> (b, Some err) | None \<Rightarrow>
      if mb_closed b then (b, Some ErrLiveQueueUnavailable)
      else if validateQueueKey key \<noteq> None \<or> itemID = '''' then (b, Some ErrQueueInvalidReference)
      else
        (case followUp_cancel (followsOf b key) itemID now of
           Inl err \<Rightarrow> (b, Some err)
         | Inr state \<Rightarrow> (putFollows key state b, None)))"

definition PromoteFollowUpToSteer ::
    "ctx \<Rightarrow> gotime \<Rightarrow> string \<Rightarrow> Key \<Rightarrow> FollowUpPendingRef \<Rightarrow> MemoryBackend \<Rightarrow>
     MemoryBackend \<times> (GoError + PromoteFollowUpResult)" where
  "PromoteFollowUpToSteer ctx now uuid key ref b =
     (case ctx of Some err \<Rightarrow> (b, Inl err) | None \<Rightarrow>
      if mb_closed b then (b, Inl ErrLiveQueueUnavailable)
      else if validateQueueKey key \<noteq> None \<or> fp_ItemID ref = '''' then (b, Inl ErrQueueInvalidReference)
      else
        (case liveSnapshotLocked key now b of (b1, snapshot) \<Rightarrow>
           (let steers = steersOf b1 key in
            case activeRun snapshot of
              None \<Rightarrow> (b1, Inl ErrQueueNoActiveRun)
            | Some run \<Rightarrow>
                (if sq_ClosedRunID steers = cr_RunID run then (b1, Inl ErrQueueNoActiveRun)
                 else if \<not> SteerRunAvailable (Some run) then (b1, Inl ErrQueueSteerUnsupported)
                 else
                   (case queue_promote steers (followsOf b1 key) key (cr_RunID run) ref now uuid of
                      Inl err \<Rightarrow> (b1, Inl err)
                    | Inr ((steers', follows'), result) \<Rightarrow>
                        (putFollows key follows' (putSteers key steers' b1), Inr result))))))"

definition ClaimNextSteer ::
    "ctx \<Rightarrow> gotime \<Rightarrow> string \<Rightarrow> RunHandle \<Rightarrow> bool \<Rightarrow> MemoryBackend \<Rightarrow>
     MemoryBackend \<times> (GoError + (SteerItem \<times> SteerClaimRef) option)" where
  "ClaimNextSteer ctx now uuid handle0 sealIfEmpty b =
     (case ctx of Some err \<Rightarrow> (b, Inl err) | None \<Rightarrow>
      (let handle = RunHandle_normalized handle0 in
       if \<not> RunHandle_valid handle \<or> rh_OwnerID handle = '''' \<or> rh_FencingToken handle \<le> 0
       then (b, Inl ErrQueueInvalidReference)
       else if mb_closed b then (b, Inl ErrLiveQueueUnavailable)
       else
         (case liveSnapshotLocked (RunHandle_key handle) now b of (b1, snapshot) \<Rightarrow>
            (let run = Option.bind snapshot sn_CurrentRunView in
             if snapshot = None \<or> \<not> runMatchesHandle run handle \<or> \<not> runViewOwnedBy run (rh_OwnerID handle) \<or>
                \<not> (case run of None \<Rightarrow> False | Some r \<Rightarrow> isActiveRunStatus (cr_Status r))
             then (b1, Inl ErrRunOwnershipLost)
             else if \<not> SteerRunAvailable run then (b1, Inl ErrQueueSteerUnsupported)
             else
               (case steer_claimNext uuid (steersOf b1 (RunHandle_key handle)) handle sealIfEmpty now of
                  (state, result) \<Rightarrow> (putSteers (RunHandle_key handle) state b1, Inr result))))))"

definition steerClaimGuard :: "gotime \<Rightarrow> Key \<Rightarrow> SteerClaimRef \<Rightarrow> MemoryBackend \<Rightarrow> MemoryBackend \<times> GoError option" where
  "steerClaimGuard now key ref b =
     (if mb_closed b then (b, Some ErrLiveQueueUnavailable)
      else
        (case validateSteerClaim key ref of
           Some err \<Rightarrow> (b, Some err)
         | None \<Rightarrow>
             (case liveSnapshotLocked key now b of (b1, snapshot) \<Rightarrow>
                (if snapshot = None \<or> \<not> runMatchesSteerClaim (Option.bind snapshot sn_CurrentRunView) ref
                 then (b1, Some ErrRunOwnershipLost) else (b1, None)))))"

definition ApplySteer :: "ctx \<Rightarrow> gotime \<Rightarrow> gotime \<Rightarrow> Key \<Rightarrow> SteerClaimRef \<Rightarrow> MemoryBackend \<Rightarrow> MemoryBackend \<times> GoError option" where
  "ApplySteer ctx now1 now2 key ref b =
     (case ctx of Some err \<Rightarrow> (b, Some err) | None \<Rightarrow>
      (case steerClaimGuard now1 key ref b of
         (b1, Some err) \<Rightarrow> (b1, Some err)
       | (b1, None) \<Rightarrow>
           (case steer_apply (steersOf b1 key) ref now2 of
              Inl err \<Rightarrow> (b1, Some err)
            | Inr state \<Rightarrow> (putSteers key state b1, None))))"

definition ReleaseSteer :: "ctx \<Rightarrow> gotime \<Rightarrow> gotime \<Rightarrow> Key \<Rightarrow> SteerClaimRef \<Rightarrow> MemoryBackend \<Rightarrow> MemoryBackend \<times> GoError option" where
  "ReleaseSteer ctx now1 now2 key ref b =
     (case ctx of Some err \<Rightarrow> (b, Some err) | None \<Rightarrow>
      (case steerClaimGuard now1 key ref b of
         (b1, Some err) \<Rightarrow> (b1, Some err)
       | (b1, None) \<Rightarrow>
           (case steer_release (steersOf b1 key) ref now2 of
              Inl err \<Rightarrow> (b1, Some err)
            | Inr state \<Rightarrow> (putSteers key state b1, None))))"

definition ClaimNextFollowUp ::
    "ctx \<Rightarrow> gotime \<Rightarrow> string \<Rightarrow> Key \<Rightarrow> string \<Rightarrow> MemoryBackend \<Rightarrow>
     MemoryBackend \<times> (GoError + (FollowUpItem \<times> FollowUpClaimRef) option)" where
  "ClaimNextFollowUp ctx now uuid key triggerRunID0 b =
     (case ctx of Some err \<Rightarrow> (b, Inl err) | None \<Rightarrow>
      (let triggerRunID = TrimSpace triggerRunID0 in
       if triggerRunID = '''' then (b, Inl ErrQueueInvalidReference)
       else if mb_closed b then (b, Inl ErrLiveQueueUnavailable)
       else
         (case validateQueueKey key of Some err \<Rightarrow> (b, Inl err) | None \<Rightarrow>
            (case followUp_claimNext uuid (followsOf b key) triggerRunID now of
               (state, result) \<Rightarrow> (putFollows key state b, Inr result)))))"

definition followUpClaimOp ::
    "ctx \<Rightarrow> Key \<Rightarrow> FollowUpClaimRef \<Rightarrow> GoError option \<Rightarrow> (followUpQueueState \<Rightarrow> GoError + followUpQueueState) \<Rightarrow>
     MemoryBackend \<Rightarrow> MemoryBackend \<times> GoError option" where
  "followUpClaimOp ctx key ref invalid transition b =
     (case ctx of Some err \<Rightarrow> (b, Some err) | None \<Rightarrow>
      if mb_closed b then (b, Some ErrLiveQueueUnavailable)
      else
        (case validateFollowUpClaim key ref of Some err \<Rightarrow> (b, Some err) | None \<Rightarrow>
         case invalid of Some err \<Rightarrow> (b, Some err) | None \<Rightarrow>
           (case transition (followsOf b key) of
              Inl err \<Rightarrow> (b, Some err)
            | Inr state \<Rightarrow> (putFollows key state b, None))))"

definition ApplyFollowUp :: "ctx \<Rightarrow> gotime \<Rightarrow> Key \<Rightarrow> FollowUpClaimRef \<Rightarrow> MemoryBackend \<Rightarrow> MemoryBackend \<times> GoError option" where
  "ApplyFollowUp ctx now key ref b = followUpClaimOp ctx key ref None (\<lambda>state. followUp_apply state ref now) b"

definition ReleaseFollowUp :: "ctx \<Rightarrow> gotime \<Rightarrow> Key \<Rightarrow> FollowUpClaimRef \<Rightarrow> MemoryBackend \<Rightarrow> MemoryBackend \<times> GoError option" where
  "ReleaseFollowUp ctx now key ref b = followUpClaimOp ctx key ref None (\<lambda>state. followUp_release state ref now) b"

definition RejectFollowUp ::
    "ctx \<Rightarrow> gotime \<Rightarrow> Key \<Rightarrow> FollowUpClaimRef \<Rightarrow> string \<Rightarrow> MemoryBackend \<Rightarrow> MemoryBackend \<times> GoError option" where
  "RejectFollowUp ctx now key ref errorCode b =
     followUpClaimOp ctx key ref (if TrimSpace errorCode = '''' then Some ErrQueueInvalidReference else None)
       (\<lambda>state. followUp_reject state ref errorCode now) b"

end
