(* ===== verification/BackendLedger.thy ===== *)
theory BackendLedger
  imports LiveQueueBackend
begin

text \<open>
  The backend's live queue operations on one session, seen through the session's
  two queues: each is an expiry of a queue, if at all, followed by at most one
  transition of \<open>queue_step\<close>. The contract of \<open>claim_ledger\<close> therefore holds of the
  backend operations too.
\<close>

section \<open>The queues of a session\<close>

definition queuesOf :: "MemoryBackend \<Rightarrow> Key \<Rightarrow> steerQueueState \<times> followUpQueueState" where
  "queuesOf b key = (steersOf b key, followsOf b key)"

definition expires :: "steerQueueState \<times> followUpQueueState \<Rightarrow> steerQueueState \<times> followUpQueueState \<Rightarrow> bool" where
  "expires q q' \<longleftrightarrow> fst q' \<in> {fst q, emptySteerQueue} \<and> snd q' \<in> {snd q, emptyFollowUpQueue}"

lemma expires_refl [simp]: "expires q q"
  by (simp add: expires_def)

lemma queuesOf_put [simp]:
  "queuesOf (putSteers key s b) key = (s, snd (queuesOf b key))"
  "queuesOf (putFollows key f b) key = (fst (queuesOf b key), f)"
  by (simp_all add: queuesOf_def steersOf_def followsOf_def putSteers_def putFollows_def)

lemma queuesOf_put_other:
  "Key_String key' \<noteq> Key_String key \<Longrightarrow> queuesOf (putSteers key' s b) key = queuesOf b key"
  "Key_String key' \<noteq> Key_String key \<Longrightarrow> queuesOf (putFollows key' f b) key = queuesOf b key"
  by (simp_all add: queuesOf_def steersOf_def followsOf_def putSteers_def putFollows_def)

lemma purgeExpired_queues [simp]:
  "mb_steerQueues (purgeExpiredLocked now b) = mb_steerQueues b"
  "mb_followUpQueues (purgeExpiredLocked now b) = mb_followUpQueues b"
proof -
  have "mb_steerQueues (fst (fold (purgeDecisionStep now) xs st)) = mb_steerQueues (fst st) \<and>
      mb_followUpQueues (fst (fold (purgeDecisionStep now) xs st)) = mb_followUpQueues (fst st)" for xs st
    by (induction xs arbitrary: st) (auto simp: purgeDecisionStep_def split: prod.splits)
  moreover have "mb_steerQueues (fst (fold (purgeSnapshotStep now) xs st)) = mb_steerQueues (fst st) \<and>
      mb_followUpQueues (fst (fold (purgeSnapshotStep now) xs st)) = mb_followUpQueues (fst st)" for xs st
    by (induction xs arbitrary: st) (auto simp: purgeSnapshotStep_def split: prod.splits)
  ultimately show "mb_steerQueues (purgeExpiredLocked now b) = mb_steerQueues b"
    "mb_followUpQueues (purgeExpiredLocked now b) = mb_followUpQueues b"
    by (simp_all add: purgeExpiredLocked_def Let_def)
qed

lemma queuesOf_live: "liveSnapshotLocked key' now b = (b', snap) \<Longrightarrow> queuesOf b' key = queuesOf b key"
  by (auto simp: liveSnapshotLocked_def Let_def queuesOf_def steersOf_def followsOf_def)

definition queues_wf :: "MemoryBackend \<Rightarrow> bool" where
  "queues_wf b \<longleftrightarrow> wfMap (mb_steerQueues b) \<and> wfMap (mb_followUpQueues b)"

lemma queues_wf_put [simp]:
  "queues_wf b \<Longrightarrow> queues_wf (putSteers key s b)" "queues_wf b \<Longrightarrow> queues_wf (putFollows key f b)"
  "queues_wf b \<Longrightarrow> queues_wf (purgeLiveQueuesLocked now b)"
  by (simp_all add: queues_wf_def putSteers_def putFollows_def purgeLiveQueuesLocked_def)

lemma queues_wf_live: "queues_wf b \<Longrightarrow> liveSnapshotLocked key now b = (b', snap) \<Longrightarrow> queues_wf b'"
  by (auto simp: liveSnapshotLocked_def Let_def queues_wf_def)

lemma purge_expires: "queues_wf b \<Longrightarrow> expires (queuesOf b key) (queuesOf (purgeLiveQueuesLocked now b) key)"
  by (auto simp: queues_wf_def expires_def queuesOf_def steersOf_def followsOf_def mapGet_def
      purgeLiveQueuesLocked_def map_of_filter_wf split: option.splits)

section \<open>Steps\<close>

definition settles :: "GoError option \<Rightarrow> string \<Rightarrow> claim_event" where
  "settles err token = (if err = None then Settle token else Quiet)"

definition issues :: "(GoError + ('i \<times> 'c) option) \<Rightarrow> ('c \<Rightarrow> string) \<Rightarrow> string \<Rightarrow> claim_event" where
  "issues r token uuid =
     (case r of Inr (Some (item, claim)) \<Rightarrow> if token claim = uuid then Issue uuid else Quiet | _ \<Rightarrow> Quiet)"

inductive backend_step :: "Key \<Rightarrow> MemoryBackend \<Rightarrow> claim_event \<Rightarrow> MemoryBackend \<Rightarrow> bool" for key where
  EnqueueSteer: "EnqueueSteer ctx now key itemID invocationID payload b = (b', r) \<Longrightarrow>
    itemID \<notin> si_ID ` set (sq_Items (steersOf b key)) \<Longrightarrow> backend_step key b Quiet b'"
| EnqueueFollowUp: "EnqueueFollowUp ctx now key itemID invocationID payload b = (b', fr) \<Longrightarrow>
    itemID \<notin> fi_ID ` set (fq_Items (followsOf b key)) \<Longrightarrow> backend_step key b Quiet b'"
| PendingQueues: "PendingQueues ctx now key limit b = (b', pr) \<Longrightarrow> backend_step key b Quiet b'"
| ReorderSteer: "ReorderSteer ctx now key item before b = (b', sr) \<Longrightarrow> backend_step key b Quiet b'"
| ReorderFollowUp: "ReorderFollowUp ctx now key fitem fbefore b = (b', frr) \<Longrightarrow> backend_step key b Quiet b'"
| UpdateSteer: "UpdateSteer ctx now key itemID payload b = (b', ur) \<Longrightarrow> backend_step key b Quiet b'"
| UpdateFollowUp: "UpdateFollowUp ctx now key itemID payload b = (b', fur) \<Longrightarrow> backend_step key b Quiet b'"
| CancelSteer: "CancelSteer ctx now key itemID b = (b', err) \<Longrightarrow> backend_step key b Quiet b'"
| CancelFollowUp: "CancelFollowUp ctx now key itemID b = (b', err) \<Longrightarrow> backend_step key b Quiet b'"
| CloseSteerRun: "CloseSteerRun ctx now key runID b = (b', err) \<Longrightarrow> backend_step key b Quiet b'"
| Promote: "PromoteFollowUpToSteer ctx now uuid key ref b = (b', prr) \<Longrightarrow> uuid \<noteq> '''' \<Longrightarrow>
    uuid \<notin> si_ID ` set (sq_Items (steersOf b key)) \<Longrightarrow> backend_step key b Quiet b'"
| ClaimNextSteer: "ClaimNextSteer ctx now uuid handle sealIfEmpty b = (b', cr) \<Longrightarrow>
    RunHandle_key handle = key \<Longrightarrow> backend_step key b (issues cr sc_ClaimToken uuid) b'"
| ApplySteer: "ApplySteer ctx now1 now2 key sref b = (b', err) \<Longrightarrow> backend_step key b (settles err (sc_ClaimToken sref)) b'"
| ReleaseSteer: "ReleaseSteer ctx now1 now2 key sref b = (b', err) \<Longrightarrow> backend_step key b (settles err (sc_ClaimToken sref)) b'"
| ClaimNextFollowUp: "ClaimNextFollowUp ctx now uuid key trigger b = (b', fcr) \<Longrightarrow>
    backend_step key b (issues fcr fc_ClaimToken uuid) b'"
| ApplyFollowUp: "ApplyFollowUp ctx now key fref b = (b', err) \<Longrightarrow> backend_step key b (settles err (fc_ClaimToken fref)) b'"
| ReleaseFollowUp: "ReleaseFollowUp ctx now key fref b = (b', err) \<Longrightarrow> backend_step key b (settles err (fc_ClaimToken fref)) b'"
| RejectFollowUp: "RejectFollowUp ctx now key fref code b = (b', err) \<Longrightarrow> backend_step key b (settles err (fc_ClaimToken fref)) b'"

text \<open>What a backend step is on the session's queues.\<close>

definition queue_move ::
    "steerQueueState \<times> followUpQueueState \<Rightarrow> claim_event \<Rightarrow> steerQueueState \<times> followUpQueueState \<Rightarrow> bool" where
  "queue_move q e q' \<longleftrightarrow> (\<exists>q1. expires q q1 \<and> (e = Quiet \<and> q' = q1 \<or> queue_step q1 e q'))"

lemma move_expire: "expires q q' \<Longrightarrow> queue_move q Quiet q'"
  unfolding queue_move_def by blast

lemma move_same: "queue_move q Quiet q"
  by (rule move_expire) simp

lemma move_expire_step: "expires q q1 \<Longrightarrow> queue_step q1 e q' \<Longrightarrow> queue_move q e q'"
  unfolding queue_move_def by blast

lemmas move_step = move_expire_step [OF expires_refl]

lemma expires_ids:
  "expires q q' \<Longrightarrow> i \<notin> si_ID ` set (sq_Items (fst q)) \<Longrightarrow> i \<notin> si_ID ` set (sq_Items (fst q'))"
  "expires q q' \<Longrightarrow> i \<notin> fi_ID ` set (fq_Items (snd q)) \<Longrightarrow> i \<notin> fi_ID ` set (fq_Items (snd q'))"
  by (auto simp: expires_def emptySteerQueue_def emptyFollowUpQueue_def)

lemma steersOf_fst: "steersOf b key = fst (queuesOf b key)" and followsOf_snd: "followsOf b key = snd (queuesOf b key)"
  by (simp_all add: queuesOf_def)

lemma EnqueueSteer_move:
  assumes "EnqueueSteer ctx now key itemID invocationID payload b = (b', r)" "queues_wf b"
    "itemID \<notin> si_ID ` set (sq_Items (steersOf b key))"
  shows "queue_move (queuesOf b key) Quiet (queuesOf b' key) \<and> queues_wf b'"
proof -
  let ?b1 = "purgeLiveQueuesLocked now b"
  obtain b2 snap where live: "liveSnapshotLocked key now ?b1 = (b2, snap)" by fastforce
  have ex: "expires (queuesOf b key) (queuesOf ?b1 key)" by (rule purge_expires [OF assms(2)])
  have q2: "queuesOf b2 key = queuesOf ?b1 key" "queues_wf b2"
    using queuesOf_live [OF live] queues_wf_live [OF _ live] assms(2) by simp_all
  have "b' = b \<or> b' = ?b1 \<or> b' = b2 \<or> (\<exists>s' item runID. b' = putSteers key s' b2 \<and> TrimSpace itemID \<noteq> '''' \<and>
      steer_enqueue (steersOf ?b1 key) key itemID invocationID runID payload now = Inr (s', item))"
    using assms(1) live by (auto simp: EnqueueSteer_def Let_def split: option.splits if_splits sum.splits)
  then consider "b' = b" | "b' = ?b1" | "b' = b2"
    | s' item runID where "b' = putSteers key s' b2" "TrimSpace itemID \<noteq> ''''"
      "steer_enqueue (steersOf ?b1 key) key itemID invocationID runID payload now = Inr (s', item)"
    by blast
  then show ?thesis
  proof cases
    case 4
    have ne: "itemID \<noteq> ''''" using 4(2) by auto
    have "queue_step (queuesOf ?b1 key) Quiet (s', snd (queuesOf ?b1 key))"
      using queue_step.enqueueSteer [OF 4(3), of "snd (queuesOf ?b1 key)"] expires_ids(1) [OF ex] ne assms(3)
      by (auto simp: queuesOf_def)
    then show ?thesis using move_expire_step [OF ex] q2 4(1) by simp
  qed (use ex q2 assms(2) in \<open>auto simp: move_same move_expire\<close>)
qed

lemma EnqueueFollowUp_move:
  assumes "EnqueueFollowUp ctx now key itemID invocationID payload b = (b', r)" "queues_wf b"
    "itemID \<notin> fi_ID ` set (fq_Items (followsOf b key))"
  shows "queue_move (queuesOf b key) Quiet (queuesOf b' key) \<and> queues_wf b'"
proof -
  let ?b1 = "purgeLiveQueuesLocked now b"
  obtain b2 snap where live: "liveSnapshotLocked key now ?b1 = (b2, snap)" by fastforce
  have ex: "expires (queuesOf b key) (queuesOf ?b1 key)" by (rule purge_expires [OF assms(2)])
  have q2: "queuesOf b2 key = queuesOf ?b1 key" "queues_wf b2"
    using queuesOf_live [OF live] queues_wf_live [OF _ live] assms(2) by simp_all
  have "b' = b \<or> b' = ?b1 \<or> b' = b2 \<or> (\<exists>f' item runID. b' = putFollows key f' b2 \<and> TrimSpace itemID \<noteq> '''' \<and>
      followUp_enqueue (followsOf ?b1 key) key itemID invocationID runID payload now = Inr (f', item))"
    using assms(1) live by (auto simp: EnqueueFollowUp_def Let_def split: option.splits if_splits sum.splits)
  then consider "b' = b" | "b' = ?b1" | "b' = b2"
    | f' item runID where "b' = putFollows key f' b2" "TrimSpace itemID \<noteq> ''''"
      "followUp_enqueue (followsOf ?b1 key) key itemID invocationID runID payload now = Inr (f', item)"
    by blast
  then show ?thesis
  proof cases
    case 4
    have ne: "itemID \<noteq> ''''" using 4(2) by auto
    have "queue_step (queuesOf ?b1 key) Quiet (fst (queuesOf ?b1 key), f')"
      using queue_step.enqueueFollowUp [OF 4(3), of "fst (queuesOf ?b1 key)"] expires_ids(2) [OF ex] ne assms(3)
      by (auto simp: queuesOf_def)
    then show ?thesis using move_expire_step [OF ex] q2 4(1) by simp
  qed (use ex q2 assms(2) in \<open>auto simp: move_same move_expire\<close>)
qed

lemma Reorder_move:
  assumes "queues_wf b"
  shows "ReorderSteer ctx now key item before b = (b', r) \<Longrightarrow> queue_move (queuesOf b key) Quiet (queuesOf b' key) \<and> queues_wf b'"
    "ReorderFollowUp ctx now key fitem fbefore b = (b', fr) \<Longrightarrow> queue_move (queuesOf b key) Quiet (queuesOf b' key) \<and> queues_wf b'"
    "PendingQueues ctx now key limit b = (b', pr) \<Longrightarrow> queue_move (queuesOf b key) Quiet (queuesOf b' key) \<and> queues_wf b'"
  using assms purge_expires [OF assms, of key now]
  by (auto simp: ReorderSteer_def ReorderFollowUp_def PendingQueues_def Let_def move_same move_expire
      steersOf_fst followsOf_snd split: option.splits if_splits sum.splits
      intro!: move_expire_step queue_step.reorderSteer queue_step.reorderFollowUp)
    (metis move_expire_step prod.collapse queue_step.reorderSteer queue_step.reorderFollowUp)+

text \<open>An operation that stores at most one of the queues, after a transition of it.\<close>

lemma put_move:
  assumes "(b' = b \<and> e = Quiet) \<or>
      (\<exists>s'. b' = putSteers key s' b \<and> queue_step (steersOf b key, followsOf b key) e (s', followsOf b key)) \<or>
      (\<exists>f'. b' = putFollows key f' b \<and> queue_step (steersOf b key, followsOf b key) e (steersOf b key, f'))"
    "queues_wf b"
  shows "queue_move (queuesOf b key) e (queuesOf b' key) \<and> queues_wf b'"
  using assms by (elim disjE exE conjE) (simp_all add: move_same, simp_all add: queuesOf_def move_step)

lemma Edit_move:
  assumes "queues_wf b"
  shows "UpdateSteer ctx now key itemID payload b = (b', r) \<Longrightarrow> queue_move (queuesOf b key) Quiet (queuesOf b' key) \<and> queues_wf b'"
    "UpdateFollowUp ctx now key itemID payload b = (b', fr) \<Longrightarrow> queue_move (queuesOf b key) Quiet (queuesOf b' key) \<and> queues_wf b'"
    "CancelSteer ctx now key itemID b = (b', err) \<Longrightarrow> queue_move (queuesOf b key) Quiet (queuesOf b' key) \<and> queues_wf b'"
    "CancelFollowUp ctx now key itemID b = (b', err) \<Longrightarrow> queue_move (queuesOf b key) Quiet (queuesOf b' key) \<and> queues_wf b'"
  by (rule put_move [OF _ assms], (auto simp: UpdateSteer_def UpdateFollowUp_def CancelSteer_def CancelFollowUp_def
      split: option.splits if_splits sum.splits
      intro: queue_step.editSteer queue_step.editFollowUp queue_step.cancelSteer queue_step.cancelFollowUp) [1])+

lemma settle_move:
  assumes "queues_wf b"
  shows "ApplyFollowUp ctx now key fref b = (b', err) \<Longrightarrow>
      queue_move (queuesOf b key) (settles err (fc_ClaimToken fref)) (queuesOf b' key) \<and> queues_wf b'"
    "ReleaseFollowUp ctx now key fref b = (b', err) \<Longrightarrow>
      queue_move (queuesOf b key) (settles err (fc_ClaimToken fref)) (queuesOf b' key) \<and> queues_wf b'"
    "RejectFollowUp ctx now key fref code b = (b', err) \<Longrightarrow>
      queue_move (queuesOf b key) (settles err (fc_ClaimToken fref)) (queuesOf b' key) \<and> queues_wf b'"
  by (rule put_move [OF _ assms], (auto simp: ApplyFollowUp_def ReleaseFollowUp_def RejectFollowUp_def
      followUpClaimOp_def settles_def split: option.splits if_splits sum.splits
      intro: queue_step.applyFollowUp queue_step.releaseFollowUp queue_step.rejectFollowUp) [1])+

lemma steerClaimGuard_queues:
  "steerClaimGuard now key ref b = (b1, err) \<Longrightarrow> queuesOf b1 key = queuesOf b key \<and> (queues_wf b \<longrightarrow> queues_wf b1)"
  by (auto simp: steerClaimGuard_def queuesOf_live split: if_splits option.splits prod.splits dest: queues_wf_live)

lemma settle_steer_move:
  assumes "queues_wf b"
  shows "ApplySteer ctx now1 now2 key ref b = (b', err) \<Longrightarrow>
      queue_move (queuesOf b key) (settles err (sc_ClaimToken ref)) (queuesOf b' key) \<and> queues_wf b'" (is "?A \<Longrightarrow> _")
    "ReleaseSteer ctx now1 now2 key ref b = (b', err) \<Longrightarrow>
      queue_move (queuesOf b key) (settles err (sc_ClaimToken ref)) (queuesOf b' key) \<and> queues_wf b'" (is "?R \<Longrightarrow> _")
proof -
  obtain b1 g where guard: "steerClaimGuard now1 key ref b = (b1, g)" by fastforce
  have q1: "queuesOf b1 key = queuesOf b key" "queues_wf b1" using steerClaimGuard_queues [OF guard] assms by auto
  have "queue_move (queuesOf b1 key) (settles err (sc_ClaimToken ref)) (queuesOf b' key) \<and> queues_wf b'"
    if "?A \<or> ?R" "ctx = None"
    by (rule put_move [OF _ q1(2)])
      (use that guard in \<open>auto simp: ApplySteer_def ReleaseSteer_def settles_def split: option.splits sum.splits
        intro: queue_step.applySteer queue_step.releaseSteer\<close>)
  moreover have "b' = b \<and> err \<noteq> None" if "?A \<or> ?R" "ctx \<noteq> None"
    using that by (auto simp: ApplySteer_def ReleaseSteer_def)
  ultimately show "?A \<Longrightarrow> queue_move (queuesOf b key) (settles err (sc_ClaimToken ref)) (queuesOf b' key) \<and> queues_wf b'"
    "?R \<Longrightarrow> queue_move (queuesOf b key) (settles err (sc_ClaimToken ref)) (queuesOf b' key) \<and> queues_wf b'"
    using q1 assms by (cases "ctx = None"; auto simp: settles_def move_same)+
qed

lemma CloseSteerRun_move:
  assumes "CloseSteerRun ctx now key runID b = (b', err)" "queues_wf b"
  shows "queue_move (queuesOf b key) Quiet (queuesOf b' key) \<and> queues_wf b'"
proof -
  have "b' = b \<or> (\<exists>s s' changed. map_of (mb_steerQueues b) (Key_String key) = Some s \<and>
      closeSteerRun s (TrimSpace runID) now = (s', changed) \<and> b' = putSteers key (steer_compact s') b)"
    using assms(1) by (auto simp: CloseSteerRun_def Let_def split: option.splits if_splits prod.splits)
  then consider "b' = b" | s s' changed where "map_of (mb_steerQueues b) (Key_String key) = Some s"
      "closeSteerRun s (TrimSpace runID) now = (s', changed)" "b' = putSteers key (steer_compact s') b" by blast
  then show ?thesis
  proof cases
    case 2
    then have "steersOf b key = s" by (simp add: steersOf_def mapGet_def)
    then have "queue_step (queuesOf b key) Quiet (queuesOf b' key)"
      using queue_step.closeRun [OF 2(2), of "followsOf b key"] by (simp add: 2(3)) (simp add: queuesOf_def)
    then show ?thesis using move_step assms(2) 2(3) by simp
  qed (use assms(2) in \<open>simp add: move_same\<close>)
qed

lemma Promote_move:
  assumes "PromoteFollowUpToSteer ctx now uuid key ref b = (b', r)" "queues_wf b" "uuid \<noteq> ''''"
    "uuid \<notin> si_ID ` set (sq_Items (steersOf b key))"
  shows "queue_move (queuesOf b key) Quiet (queuesOf b' key) \<and> queues_wf b'"
proof -
  obtain b1 snap where live: "liveSnapshotLocked key now b = (b1, snap)" by fastforce
  have q1: "queuesOf b1 key = queuesOf b key" "queues_wf b1"
    using queuesOf_live [OF live] queues_wf_live [OF assms(2) live] by simp_all
  then have of1: "steersOf b1 key = steersOf b key" "followsOf b1 key = followsOf b key" by (simp_all add: queuesOf_def)
  have "b' = b \<or> b' = b1 \<or> (\<exists>s' f' result runID. b' = putFollows key f' (putSteers key s' b1) \<and>
      queue_promote (steersOf b key) (followsOf b key) key runID ref now uuid = Inr ((s', f'), result))"
    using assms(1) live of1
    by (auto simp: PromoteFollowUpToSteer_def Let_def split: option.splits if_splits sum.splits)
  then consider "b' = b" | "b' = b1" | s' f' result runID where "b' = putFollows key f' (putSteers key s' b1)"
      "queue_promote (steersOf b key) (followsOf b key) key runID ref now uuid = Inr ((s', f'), result)" by blast
  then show ?thesis
  proof cases
    case 3
    have "queue_step (queuesOf b key) Quiet (s', f')"
      using queue_step.promote [OF 3(2) assms(3,4)] by (simp add: queuesOf_def)
    then show ?thesis using move_step q1 3(1) by simp
  qed (use q1 assms(2) in \<open>simp_all add: move_same\<close>)
qed

lemma steer_claim_step:
  assumes "steer_claimNext uuid s h sealIfEmpty now = (s', res)" "steer_inv s"
    "\<And>t. issues (Inr res :: GoError + (SteerItem \<times> SteerClaimRef) option) sc_ClaimToken uuid = Issue t \<Longrightarrow> t \<notin> steerTokens s"
  shows "queue_step (s, f) (issues (Inr res :: GoError + (SteerItem \<times> SteerClaimRef) option) sc_ClaimToken uuid) (s', f)"
proof (cases res)
  case None
  then show ?thesis using queue_step.claimSteerNone assms(1) by (simp add: issues_def)
next
  case (Some p)
  obtain item claim where p: "p = (item, claim)" by (cases p)
  show ?thesis
  proof (cases "\<exists>x\<in>set (sq_Items s). steerHeldBy (rh_RunID h) x")
    case True
    then obtain us x vs where e: "List.extract (steerHeldBy (rh_RunID h)) (sq_Items s) = Some (us, x, vs)"
      by (metis extract_None option.exhaust prod_cases3)
    have "sc_ClaimToken claim \<in> steerTokens s"
      using steer_claimNext_held [OF e assms(2,1)] Some p by (metis option.inject prod.inject)
    then have "sc_ClaimToken claim \<noteq> uuid" using assms(3) Some p by (auto simp: issues_def)
    then show ?thesis using queue_step.claimSteerAgain [OF _ True] assms(1) Some p by (simp add: issues_def)
  next
    case False
    then have "List.extract (steerHeldBy (rh_RunID h)) (sq_Items s) = None" by (auto simp: extract_None)
    then have "sc_ClaimToken claim = uuid"
      using assms(1) Some p by (auto simp: steer_claimNext_def Let_def split: option.splits if_splits)
    then show ?thesis using queue_step.claimSteerNew [OF _ False] assms(1) Some p by (simp add: issues_def)
  qed
qed

lemma followUp_claim_step:
  assumes "followUp_claimNext uuid f trigger now = (f', res)" "followUp_inv f"
    "\<And>t. issues (Inr res :: GoError + (FollowUpItem \<times> FollowUpClaimRef) option) fc_ClaimToken uuid = Issue t \<Longrightarrow> t \<notin> followUpTokens f"
  shows "queue_step (s, f) (issues (Inr res :: GoError + (FollowUpItem \<times> FollowUpClaimRef) option) fc_ClaimToken uuid) (s, f')"
proof (cases res)
  case None
  then show ?thesis using queue_step.claimFollowUpAgain assms(1) by (simp add: issues_def)
next
  case (Some p)
  obtain item claim where p: "p = (item, claim)" by (cases p)
  show ?thesis
  proof (cases "mapGet '''' (fq_TerminalClaims f) trigger = ''''")
    case False
    then have "item \<in> set (fq_Items f)" "fi_Status item = QueueClaimed" "fi_Claim item = Some claim"
      using assms(1) Some p
      by (auto simp: followUp_claimNext_def Let_def followUpHeld_def find_Some_iff split: option.splits)
    then have "fc_ClaimToken claim \<in> followUpTokens f"
      by (force simp: followUpTokens_def heldCells_set followUpCell_def)
    then have "fc_ClaimToken claim \<noteq> uuid" using assms(3) Some p by (auto simp: issues_def)
    then show ?thesis using queue_step.claimFollowUpAgain [OF assms(1)] False Some p by (simp add: issues_def)
  next
    case True
    then have "fc_ClaimToken claim = uuid"
      using assms(1) Some p by (auto simp: followUp_claimNext_def Let_def split: option.splits)
    then show ?thesis using queue_step.claimFollowUpNew [OF _ True] assms(1) Some p by (simp add: issues_def)
  qed
qed

lemma ClaimNextSteer_move:
  assumes "ClaimNextSteer ctx now uuid handle sealIfEmpty b = (b', r)" "queues_wf b" "RunHandle_key handle = key"
    "queues_inv (queuesOf b key)" "\<And>t. issues r sc_ClaimToken uuid = Issue t \<Longrightarrow> t \<notin> queues_tokens (queuesOf b key)"
  shows "queue_move (queuesOf b key) (issues r sc_ClaimToken uuid) (queuesOf b' key) \<and> queues_wf b'"
proof -
  let ?h = "RunHandle_normalized handle"
  have key: "RunHandle_key ?h = key" using assms(3) by (simp add: RunHandle_key_def)
  obtain b1 snap where live: "liveSnapshotLocked key now b = (b1, snap)" by fastforce
  have q1: "queuesOf b1 key = queuesOf b key" "queues_wf b1"
    using queuesOf_live [OF live] queues_wf_live [OF assms(2) live] by simp_all
  then have of1: "steersOf b1 key = steersOf b key" by (simp add: queuesOf_def)
  have "((b' = b \<or> b' = b1) \<and> (\<exists>err. r = Inl err)) \<or> (\<exists>s' res. b' = putSteers key s' b1 \<and> r = Inr res \<and>
      steer_claimNext uuid (steersOf b key) ?h sealIfEmpty now = (s', res))"
    using assms(1) live of1 key by (auto simp: ClaimNextSteer_def Let_def split: option.splits if_splits prod.splits)
  then consider "b' = b \<or> b' = b1" "issues r sc_ClaimToken uuid = Quiet"
    | s' res where "b' = putSteers key s' b1" "r = Inr res" "steer_claimNext uuid (steersOf b key) ?h sealIfEmpty now = (s', res)"
    by (auto simp: issues_def)
  then show ?thesis
  proof cases
    case 2
    have "queue_step (steersOf b key, followsOf b key) (issues r sc_ClaimToken uuid) (s', followsOf b key)"
      unfolding 2(2) by (rule steer_claim_step [OF 2(3)])
        (use assms(4,5) 2(2) in \<open>auto simp: queues_inv_def queuesOf_def queues_tokens_def\<close>)
    then show ?thesis using move_step q1 by (simp add: 2(1)) (simp add: queuesOf_def)
  qed (use q1 assms(2) in \<open>auto simp: move_same\<close>)
qed

lemma ClaimNextFollowUp_move:
  assumes "ClaimNextFollowUp ctx now uuid key trigger b = (b', r)" "queues_wf b"
    "queues_inv (queuesOf b key)" "\<And>t. issues r fc_ClaimToken uuid = Issue t \<Longrightarrow> t \<notin> queues_tokens (queuesOf b key)"
  shows "queue_move (queuesOf b key) (issues r fc_ClaimToken uuid) (queuesOf b' key) \<and> queues_wf b'"
proof -
  have "(b' = b \<and> (\<exists>err. r = Inl err)) \<or> (\<exists>f' res. b' = putFollows key f' b \<and> r = Inr res \<and>
      followUp_claimNext uuid (followsOf b key) (TrimSpace trigger) now = (f', res))"
    using assms(1) by (auto simp: ClaimNextFollowUp_def Let_def split: option.splits if_splits prod.splits)
  then consider "b' = b" "issues r fc_ClaimToken uuid = Quiet"
    | f' res where "b' = putFollows key f' b" "r = Inr res" "followUp_claimNext uuid (followsOf b key) (TrimSpace trigger) now = (f', res)"
    by (auto simp: issues_def)
  then show ?thesis
  proof cases
    case 2
    have "queue_step (steersOf b key, followsOf b key) (issues r fc_ClaimToken uuid) (steersOf b key, f')"
      unfolding 2(2) by (rule followUp_claim_step [OF 2(3)])
        (use assms(3,4) 2(2) in \<open>auto simp: queues_inv_def queuesOf_def queues_tokens_def\<close>)
    then show ?thesis using move_step assms(2) by (simp add: 2(1)) (simp add: queuesOf_def)
  qed (use assms(2) in \<open>auto simp: move_same\<close>)
qed

section \<open>The ledger of the backend\<close>

lemma backend_moves:
  assumes "backend_step key b e b'" "queues_wf b" "queues_inv (queuesOf b key)"
    "\<And>t. e = Issue t \<Longrightarrow> t \<notin> queues_tokens (queuesOf b key)"
  shows "queue_move (queuesOf b key) e (queuesOf b' key) \<and> queues_wf b'"
  using assms
proof (induction rule: backend_step.induct)
  case (ClaimNextSteer ctx now uuid handle sealIfEmpty b b' cr)
  then show ?case by (intro ClaimNextSteer_move)
next
  case (ClaimNextFollowUp ctx now uuid trigger b b' fcr)
  then show ?case by (intro ClaimNextFollowUp_move)
qed (rule EnqueueSteer_move EnqueueFollowUp_move Reorder_move Edit_move CloseSteerRun_move Promote_move
    settle_move settle_steer_move; assumption)+

lemma expires_inv:
  assumes "expires q q'" "queues_inv q"
  shows "queues_inv q'" "queues_tokens q' \<subseteq> queues_tokens q"
proof -
  have "steerTokens emptySteerQueue = {}" "followUpTokens emptyFollowUpQueue = {}"
    using empty_queues(4) by (simp_all add: queues_tokens_def)
  with assms empty_queues(1,2) show "queues_inv q'" "queues_tokens q' \<subseteq> queues_tokens q"
    by (auto simp: expires_def queues_inv_def queues_tokens_def)
qed

lemma move_ledger:
  assumes "queue_move q e q'" "queues_inv q" "\<And>t. e = Issue t \<Longrightarrow> t \<notin> queues_tokens q"
  shows "queues_inv q'" "e = Quiet \<Longrightarrow> queues_tokens q' \<subseteq> queues_tokens q"
    "e = Settle t \<Longrightarrow> t \<in> queues_tokens q \<and> queues_tokens q' \<subseteq> queues_tokens q - {t}"
    "e = Issue t \<Longrightarrow> queues_tokens q' \<subseteq> insert t (queues_tokens q)"
proof -
  obtain q1 where q1: "expires q q1" "e = Quiet \<and> q' = q1 \<or> queue_step q1 e q'"
    using assms(1) by (auto simp: queue_move_def)
  note E = expires_inv [OF q1(1) assms(2)]
  have fresh: "t \<notin> queues_tokens q1" if "e = Issue t" for t using E(2) assms(3) that by blast
  show "queues_inv q'" using q1(2) E(1) queue_step_inv [OF _ E(1)] fresh by blast
  show "e = Quiet \<Longrightarrow> queues_tokens q' \<subseteq> queues_tokens q"
    using q1(2) E queues.step_quiet [OF E(1)] by blast
  show "e = Settle t \<Longrightarrow> t \<in> queues_tokens q \<and> queues_tokens q' \<subseteq> queues_tokens q - {t}"
    using q1(2) E queues.step_settle [OF E(1)] by blast
  show "e = Issue t \<Longrightarrow> queues_tokens q' \<subseteq> insert t (queues_tokens q)"
    using q1(2) E queues.step_issue [OF E(1)] fresh by blast
qed

definition session_inv :: "Key \<Rightarrow> MemoryBackend \<Rightarrow> bool" where
  "session_inv key b \<longleftrightarrow> queues_wf b \<and> queues_inv (queuesOf b key)"

definition session_tokens :: "Key \<Rightarrow> MemoryBackend \<Rightarrow> string set" where
  "session_tokens key b = queues_tokens (queuesOf b key)"

interpretation session: claim_ledger "session_inv key" "session_tokens key" "backend_step key" for key
proof unfold_locales
  fix b e b'
  assume *: "session_inv key b" "backend_step key b e b'" "\<And>t. e = Issue t \<Longrightarrow> t \<notin> session_tokens key b"
  then have m: "queue_move (queuesOf b key) e (queuesOf b' key) \<and> queues_wf b'"
    by (intro backend_moves) (simp_all add: session_inv_def session_tokens_def)
  then show "session_inv key b'"
    using move_ledger(1) [of "queuesOf b key" e] * by (simp add: session_inv_def session_tokens_def)
next
  fix b t b'
  assume *: "session_inv key b" "backend_step key b (Issue t) b'" "t \<notin> session_tokens key b"
  then have "queue_move (queuesOf b key) (Issue t) (queuesOf b' key)"
    using backend_moves [OF *(2)] by (simp add: session_inv_def session_tokens_def)
  then show "session_tokens key b' \<subseteq> insert t (session_tokens key b)"
    using move_ledger(4) [of "queuesOf b key" "Issue t"] * by (simp add: session_inv_def session_tokens_def)
next
  fix b t b'
  assume *: "session_inv key b" "backend_step key b (Settle t) b'"
  then have "queue_move (queuesOf b key) (Settle t) (queuesOf b' key)"
    using backend_moves [OF *(2)] by (simp add: session_inv_def)
  then show "t \<in> session_tokens key b \<and> session_tokens key b' \<subseteq> session_tokens key b - {t}"
    using move_ledger(3) [of "queuesOf b key" "Settle t"] * by (simp add: session_inv_def session_tokens_def)
next
  fix b b'
  assume *: "session_inv key b" "backend_step key b Quiet b'"
  then have "queue_move (queuesOf b key) Quiet (queuesOf b' key)"
    using backend_moves [OF *(2)] by (simp add: session_inv_def)
  then show "session_tokens key b' \<subseteq> session_tokens key b"
    using move_ledger(2) [of "queuesOf b key" Quiet] * by (simp add: session_inv_def session_tokens_def)
qed

lemma session_start: "session_inv key (NewMemoryBackendWithTTL uuid ttl)" "session_tokens key (NewMemoryBackendWithTTL uuid ttl) = {}"
  using empty_queues
  by (simp_all add: session_inv_def session_tokens_def NewMemoryBackendWithTTL_def queues_wf_def queuesOf_def
      steersOf_def followsOf_def mapGet_def)

end
