(* ===== verification/QueueOrder.thy ===== *)
theory QueueOrder
  imports QueueLedger
begin

text \<open>
  The order of service. The contract \<open>fifo\<close> says what an enqueue and a take do to
  the list of pending items; from it, any interleaving of the two hands items out
  in the order in which they came. Both session queues meet the contract, the
  steer queue for each run on its own.
\<close>

section \<open>Sorting facts\<close>

lemma insort_key_snoc: "f y \<le> f x \<Longrightarrow> insort_key f y (zs @ [x]) = insort_key f y zs @ [x]"
  by (induction zs) auto

lemma sort_key_snoc: "\<forall>y\<in>set ys. f y \<le> f x \<Longrightarrow> sort_key f (ys @ [x]) = sort_key f ys @ [x]"
  by (induction ys) (auto simp: insort_key_snoc)

lemma sort_key_first:
  assumes "\<forall>u\<in>set us. f x < f u" "\<forall>v\<in>set vs. f x \<le> f v"
  shows "sort_key f (us @ x # vs) = x # sort_key f (us @ vs)"
  using assms(1)
proof (induction us)
  case Nil
  have "insort_key f x (sort_key f vs) = x # sort_key f vs" by (rule insort_is_Cons) (use assms(2) in simp)
  then show ?case by simp
next
  case (Cons u us)
  then show ?case by (auto simp: not_less [symmetric])
qed

text \<open>The choice of the claiming loops is the head of the pending list.\<close>

lemma selectBest_sort:
  assumes "selectBest ok f xs = Some b" "\<not> ok y"
  shows "sort_key f (filter ok xs) = xs ! b # sort_key f (filter ok (xs[b := y]))"
proof -
  note B = selectBest_SomeD [OF assms(1)]
  let ?us = "filter ok (take b xs)" and ?vs = "filter ok (drop (Suc b) xs)"
  have us: "\<forall>u\<in>set ?us. f (xs ! b) < f u"
    using B(1,4) by (auto simp: in_set_conv_nth)
  have vs: "\<forall>v\<in>set ?vs. f (xs ! b) \<le> f v"
    using B(1,3) by (auto simp: in_set_conv_nth)
  have "filter ok xs = ?us @ xs ! b # ?vs" using filter_nth_split [OF B(1), of ok] B(2) by simp
  moreover have "filter ok (xs[b := y]) = ?us @ ?vs" using filter_list_update [OF B(1), of ok y] assms(2) by simp
  ultimately show ?thesis using sort_key_first [OF us vs] by (simp only:)
qed

section \<open>First in, first out\<close>

inductive fifo_run :: "('i \<Rightarrow> 'q \<Rightarrow> 'q \<Rightarrow> bool) \<Rightarrow> ('q \<Rightarrow> 'i \<Rightarrow> 'q \<Rightarrow> bool) \<Rightarrow> 'q \<Rightarrow> 'i list \<Rightarrow> 'i list \<Rightarrow> 'q \<Rightarrow> bool"
  for enq :: "'i \<Rightarrow> 'q \<Rightarrow> 'q \<Rightarrow> bool" and deq :: "'q \<Rightarrow> 'i \<Rightarrow> 'q \<Rightarrow> bool" and q0 :: 'q where
  fifo_start: "fifo_run enq deq q0 [] [] q0"
| fifo_enq: "fifo_run enq deq q0 ins outs q \<Longrightarrow> enq x q q' \<Longrightarrow> fifo_run enq deq q0 (ins @ [x]) outs q'"
| fifo_deq: "fifo_run enq deq q0 ins outs q \<Longrightarrow> deq q x q' \<Longrightarrow> fifo_run enq deq q0 ins (outs @ [x]) q'"

locale fifo =
  fixes inv :: "'q \<Rightarrow> bool" and pend :: "'q \<Rightarrow> 'i list"
    and enq :: "'i \<Rightarrow> 'q \<Rightarrow> 'q \<Rightarrow> bool" and deq :: "'q \<Rightarrow> 'i \<Rightarrow> 'q \<Rightarrow> bool"
  assumes enq_law: "inv q \<Longrightarrow> enq x q q' \<Longrightarrow> inv q' \<and> pend q' = pend q @ [x]"
    and deq_law: "inv q \<Longrightarrow> deq q x q' \<Longrightarrow> inv q' \<and> pend q = x # pend q'"
begin

lemma run_order:
  assumes "fifo_run enq deq q0 ins outs q" "inv q0"
  shows "inv q \<and> pend q0 @ ins = outs @ pend q"
  using assms
proof (induction rule: fifo_run.induct)
  case (fifo_enq ins outs q x q')
  then show ?case using enq_law by (metis append.assoc)
next
  case (fifo_deq ins outs q x q')
  then show ?case using deq_law by fastforce
qed simp

end

subsection \<open>The follow-up queue\<close>

definition followUpPending :: "followUpQueueState \<Rightarrow> string list" where
  "followUpPending f = map fi_ID (pendingFollowUps f 0)"

text \<open>Enqueues of new items, while positions are below the largest \<open>int64\<close>.\<close>

definition followUpEnq :: "string \<Rightarrow> followUpQueueState \<Rightarrow> followUpQueueState \<Rightarrow> bool" where
  "followUpEnq itemID f f' \<longleftrightarrow>
     (\<exists>key invocationID runID payload now item.
        followUp_enqueue f key itemID invocationID runID payload now = Inr (f', item)) \<and>
     itemID \<noteq> '''' \<and> itemID \<notin> fi_ID ` set (fq_Items f) \<and> (\<forall>x\<in>set (fq_Items f). fi_Position x < 2 ^ 63 - 1)"

text \<open>A claim for a run that has none yet.\<close>

definition followUpDeq :: "followUpQueueState \<Rightarrow> string \<Rightarrow> followUpQueueState \<Rightarrow> bool" where
  "followUpDeq f itemID f' \<longleftrightarrow>
     (\<exists>token trigger now item claim.
        followUp_claimNext token f trigger now = (f', Some (item, claim)) \<and> fi_ID item = itemID \<and>
        mapGet '''' (fq_TerminalClaims f) trigger = '''' \<and> token \<notin> followUpTokens f)"

lemma next_position:
  fixes key :: "'a \<Rightarrow> int"
  assumes "\<forall>x\<in>set xs. key x < 2 ^ 63 - 1"
  defines "p \<equiv> wrap64 (foldl (\<lambda>position item. if position < key item then key item else position) 0 xs + 1)"
  shows "\<forall>x\<in>set xs. key x < p" "0 < p"
proof -
  let ?m = "foldl (\<lambda>position item. if position < key item then key item else position) 0 xs"
  have fold: "m \<le> foldl (\<lambda>position item. if position < key item then key item else position) m xs \<and>
      (\<forall>x\<in>set xs. key x \<le> foldl (\<lambda>position item. if position < key item then key item else position) m xs) \<and>
      (m < 2 ^ 63 - 1 \<longrightarrow> foldl (\<lambda>position item. if position < key item then key item else position) m xs < 2 ^ 63 - 1)" for m
    using assms(1)
  proof (induction xs arbitrary: m)
    case Nil
    then show ?case by simp
  next
    case (Cons x xs)
    let ?n = "if m < key x then key x else m"
    have "m \<le> ?n" "key x \<le> ?n" "m < 2 ^ 63 - 1 \<longrightarrow> ?n < 2 ^ 63 - 1" using Cons.prems by auto
    moreover have "\<forall>x\<in>set xs. key x < 2 ^ 63 - 1" using Cons.prems by simp
    ultimately show ?case using Cons.IH [of ?n] by (simp del: if_split)
  qed
  have "0 \<le> ?m" "?m < 2 ^ 63 - 1" "\<forall>x\<in>set xs. key x \<le> ?m" using fold [of 0] by auto
  moreover from this have "p = ?m + 1" unfolding p_def by (simp add: wrap64_id)
  ultimately show "\<forall>x\<in>set xs. key x < p" "0 < p" by auto
qed

lemma followUp_enqueue_pending:
  assumes "followUp_enqueue f key itemID invocationID runID payload now = Inr (f', item)"
    "\<forall>x\<in>set (fq_Items f). fi_Position x < 2 ^ 63 - 1"
  shows "pendingFollowUps f' 0 = pendingFollowUps f 0 @ [item]" "fi_ID item = itemID"
proof -
  have item: "fi_Status item = QueueAccepted" "fi_Position item = nextFollowUpPosition f" "fq_Items f' = fq_Items f @ [item]"
    "fi_ID item = itemID"
    using assms(1) by (auto simp: followUp_enqueue_def Let_def split: if_splits)
  show "fi_ID item = itemID" by (rule item)
  have "\<forall>x\<in>set (fq_Items f). fi_Position x < fi_Position item"
    using next_position(1) [OF assms(2)] by (simp add: item(2) nextFollowUpPosition_def)
  then have "\<forall>x\<in>set (filter followUpAccepted (fq_Items f)). fi_Position x \<le> fi_Position item" by (auto intro: less_imp_le)
  from sort_key_snoc [OF this] show "pendingFollowUps f' 0 = pendingFollowUps f 0 @ [item]"
    using item by (simp add: pendingFollowUps_def limited_def)
qed

lemma followUp_claim_pending:
  assumes "followUp_claimNext token f trigger now = (f', Some (item, claim))" "mapGet '''' (fq_TerminalClaims f) trigger = ''''"
  obtains best where "selectBest followUpAccepted fi_Position (fq_Items f) = Some best"
    "item = (fq_Items f ! best)\<lparr>fi_Status := QueueClaimed, fi_Claim := Some claim\<rparr>"
    "fq_Items f' = (fq_Items f)[best := item]"
    "pendingFollowUps f 0 = fq_Items f ! best # pendingFollowUps f' 0"
proof -
  obtain best where best: "selectBest followUpAccepted fi_Position (fq_Items f) = Some best"
    and item: "item = (fq_Items f ! best)\<lparr>fi_Status := QueueClaimed, fi_Claim := Some claim\<rparr>"
    "fq_Items f' = (fq_Items f)[best := item]"
    using assms by (auto simp: followUp_claimNext_def Let_def split: option.splits)
  have "pendingFollowUps f 0 = fq_Items f ! best # pendingFollowUps f' 0"
    using selectBest_sort [OF best, of item] item by (simp add: pendingFollowUps_def limited_def)
  then show ?thesis using that best item by blast
qed

interpretation followUpFifo: fifo followUp_inv followUpPending followUpEnq followUpDeq
proof unfold_locales
  fix f itemID f' assume "followUp_inv f" "followUpEnq itemID f f'"
  then show "followUp_inv f' \<and> followUpPending f' = followUpPending f @ [itemID]"
    by (auto simp: followUpEnq_def followUpPending_def followUp_enqueue_pending followUp_enqueueD(1))
next
  fix f itemID f' assume "followUp_inv f" "followUpDeq f itemID f'"
  then obtain token trigger now item claim where *: "followUp_claimNext token f trigger now = (f', Some (item, claim))"
    "fi_ID item = itemID" "mapGet '''' (fq_TerminalClaims f) trigger = ''''" "token \<notin> followUpTokens f"
    by (auto simp: followUpDeq_def)
  obtain best where best: "selectBest followUpAccepted fi_Position (fq_Items f) = Some best"
    "item = (fq_Items f ! best)\<lparr>fi_Status := QueueClaimed, fi_Claim := Some claim\<rparr>"
    "pendingFollowUps f 0 = fq_Items f ! best # pendingFollowUps f' 0"
    using followUp_claim_pending [OF *(1,3)] by metis
  have "followUp_inv f'" using followUp_claimNext_new(1) [OF *(3) \<open>followUp_inv f\<close> best(1) *(1,4)] .
  then show "followUp_inv f' \<and> followUpPending f = itemID # followUpPending f'"
    using best(2,3) *(2) by (auto simp: followUpPending_def)
qed

subsection \<open>The steer queue of a run\<close>

definition steerPending :: "string \<Rightarrow> steerQueueState \<Rightarrow> string list" where
  "steerPending runID s = map si_ID (filter (\<lambda>x. si_TargetRunID x = runID) (pendingSteers s 0))"

definition steerEnq :: "string \<Rightarrow> string \<Rightarrow> steerQueueState \<Rightarrow> steerQueueState \<Rightarrow> bool" where
  "steerEnq runID itemID s s' \<longleftrightarrow>
     (\<exists>key invocationID payload now item. steer_enqueue s key itemID invocationID runID payload now = Inr (s', item)) \<and>
     itemID \<noteq> '''' \<and> itemID \<notin> si_ID ` set (sq_Items s) \<and> (\<forall>x\<in>set (sq_Items s). si_Position x < 2 ^ 63 - 1)"

text \<open>The run's executor claims a steer it does not hold yet and applies it.\<close>

definition steerDeq :: "string \<Rightarrow> steerQueueState \<Rightarrow> string \<Rightarrow> steerQueueState \<Rightarrow> bool" where
  "steerDeq runID s itemID s' \<longleftrightarrow>
     (\<exists>token handle sealIfEmpty now item claim s1 now'.
        rh_RunID handle = runID \<and> \<not> (\<exists>x\<in>set (sq_Items s). steerHeldBy runID x) \<and> token \<notin> steerTokens s \<and>
        steer_claimNext token s handle sealIfEmpty now = (s1, Some (item, claim)) \<and> si_ID item = itemID \<and>
        steer_apply s1 claim now' = Inr s')"

lemma steerPending_sort:
  "steerPending runID s = map si_ID (sort_key si_Position (filter (steerEligible runID) (sq_Items s)))"
proof -
  have "filter (\<lambda>x. si_TargetRunID x = runID) (filter (\<lambda>x. si_Status x = QueueAccepted) (sq_Items s)) =
      filter (steerEligible runID) (sq_Items s)"
    unfolding filter_filter by (rule filter_cong) (auto simp: steerEligible_def)
  then show ?thesis by (simp add: steerPending_def pendingSteers_def limited_def filter_sort)
qed

lemma steer_enqueue_pending:
  assumes "steer_enqueue s key itemID invocationID runID payload now = Inr (s', item)"
    "\<forall>x\<in>set (sq_Items s). si_Position x < 2 ^ 63 - 1"
  shows "pendingSteers s' 0 = pendingSteers s 0 @ [item]" "si_ID item = itemID" "si_TargetRunID item = runID"
proof -
  have item: "si_Status item = QueueAccepted" "si_Position item = nextSteerPosition s" "sq_Items s' = sq_Items s @ [item]"
    "si_ID item = itemID" "si_TargetRunID item = runID"
    using assms(1) by (auto simp: steer_enqueue_def Let_def split: if_splits)
  show "si_ID item = itemID" "si_TargetRunID item = runID" by (rule item)+
  have "\<forall>x\<in>set (sq_Items s). si_Position x < si_Position item"
    using next_position(1) [OF assms(2)] by (simp add: item(2) nextSteerPosition_def)
  then have "\<forall>x\<in>set (filter (\<lambda>x. si_Status x = QueueAccepted) (sq_Items s)). si_Position x \<le> si_Position item"
    by (auto intro: less_imp_le)
  from sort_key_snoc [OF this] show "pendingSteers s' 0 = pendingSteers s 0 @ [item]"
    using item by (simp add: pendingSteers_def limited_def)
qed

lemma steer_claim_pending:
  assumes "steer_claimNext token s handle sealIfEmpty now = (s', Some (item, claim))"
    "\<not> (\<exists>x\<in>set (sq_Items s). steerHeldBy (rh_RunID handle) x)"
  obtains best where "selectBest (steerEligible (rh_RunID handle)) si_Position (sq_Items s) = Some best"
    "item = (sq_Items s ! best)\<lparr>si_Status := QueueClaimed, si_Claim := Some claim\<rparr>"
    "sq_Items s' = (sq_Items s)[best := item]"
    "steerPending (rh_RunID handle) s = si_ID item # steerPending (rh_RunID handle) s'"
proof -
  have "List.extract (steerHeldBy (rh_RunID handle)) (sq_Items s) = None" using assms(2) by (auto simp: extract_None)
  then obtain best where best: "selectBest (steerEligible (rh_RunID handle)) si_Position (sq_Items s) = Some best"
    and item: "item = (sq_Items s ! best)\<lparr>si_Status := QueueClaimed, si_Claim := Some claim\<rparr>"
    "sq_Items s' = (sq_Items s)[best := item]"
    using assms(1) by (auto simp: steer_claimNext_def Let_def split: option.splits if_splits)
  have "\<not> steerEligible (rh_RunID handle) item" by (simp add: item(1) steerEligible_def)
  from selectBest_sort [OF best this] have "steerPending (rh_RunID handle) s = si_ID item # steerPending (rh_RunID handle) s'"
    using item by (simp add: steerPending_sort)
  then show ?thesis using that best item by blast
qed

lemma steer_apply_pending:
  assumes "steer_apply s ref now = Inr s'"
  shows "steerPending runID s' = steerPending runID s"
proof -
  obtain us x vs where x: "sq_Items s = us @ x # vs" "steerClaimedAs ref x"
    and s': "s' = steer_compact (s\<lparr>sq_Items := us @ x\<lparr>si_Status := QueueApplied\<rparr> # vs, sq_UpdatedAt := now\<rparr>)"
    using assms by (auto simp: steer_apply_def split: option.splits dest: extract_SomeD)
  have "filter (steerEligible runID) (sq_Items s') = filter (steerEligible runID) (us @ x\<lparr>si_Status := QueueApplied\<rparr> # vs)"
    using compact_filter_live [of "steerEligible runID" describeSteer "us @ x\<lparr>si_Status := QueueApplied\<rparr> # vs"]
    by (simp add: s' steer_compact_items) (auto simp: steerEligible_def terminalItem_def describeSteer_def)
  also have "\<dots> = filter (steerEligible runID) (sq_Items s)"
    using x by (simp add: steerEligible_def steerClaimedAs_def)
  finally show ?thesis by (simp add: steerPending_sort)
qed

interpretation steerFifo: fifo steer_inv "steerPending runID" "steerEnq runID" "steerDeq runID" for runID
proof unfold_locales
  fix s itemID s' assume "steer_inv s" "steerEnq runID itemID s s'"
  then show "steer_inv s' \<and> steerPending runID s' = steerPending runID s @ [itemID]"
    by (auto simp: steerEnq_def steerPending_def steer_enqueue_pending steer_enqueueD(1))
next
  fix s itemID s' assume "steer_inv s" "steerDeq runID s itemID s'"
  then obtain token handle sealIfEmpty now item claim s1 now' where *: "rh_RunID handle = runID"
    "\<not> (\<exists>x\<in>set (sq_Items s). steerHeldBy (rh_RunID handle) x)" "token \<notin> steerTokens s"
    "steer_claimNext token s handle sealIfEmpty now = (s1, Some (item, claim))" "si_ID item = itemID"
    "steer_apply s1 claim now' = Inr s'"
    by (auto simp: steerDeq_def)
  have "steer_inv s1" using steer_claimNext_result [OF *(4) \<open>steer_inv s\<close>] *(3) by blast
  then have "steer_inv s'" using steer_applyD(1) [OF *(6)] by blast
  moreover have "steerPending runID s = itemID # steerPending runID s1"
    using steer_claim_pending [OF *(4,2)] *(1,5) by metis
  ultimately show "steer_inv s' \<and> steerPending runID s = itemID # steerPending runID s'"
    using steer_apply_pending [OF *(6)] by simp
qed

end
