(* ===== verification/QueueProps.thy ===== *)
theory QueueProps
  imports QueueOrder
begin

text \<open>
  The properties of the session queues: exactly-once consumption, what holds in
  every reachable state, the order of service, reordering, compaction, ownership
  of claims, promotion and closing. A small worked session supplies the concrete
  inputs on which the properties are applied.
\<close>

section \<open>A worked session\<close>

definition demoKey :: Key where "demoKey = \<lparr>k_BotID = ''bot'', k_SessionID = ''session''\<rparr>"

definition demoHandle :: "string \<Rightarrow> int \<Rightarrow> RunHandle" where
  "demoHandle owner fence = \<lparr>rh_BotID = ''bot'', rh_SessionID = ''session'', rh_RunID = ''run'', rh_OwnerID = owner,
     rh_TurnID = ''turn'', rh_Generation = ''gen'', rh_FencingToken = fence\<rparr>"

text \<open>Two steers enqueued, the first one claimed and applied; two follow-ups, the first one claimed.\<close>

definition steers1 :: steerQueueState where
  "steers1 = fst (projr (steer_enqueue emptySteerQueue demoKey ''a'' ''inv-a'' ''run'' ''pa'' 10))"
definition steers2 :: steerQueueState where
  "steers2 = fst (projr (steer_enqueue steers1 demoKey ''b'' ''inv-b'' ''run'' ''pb'' 11))"
definition steers3 :: steerQueueState where
  "steers3 = fst (steer_claimNext ''t1'' steers2 (demoHandle ''o1'' 1) False 12)"
definition claim1 :: SteerClaimRef where
  "claim1 = snd (the (snd (steer_claimNext ''t1'' steers2 (demoHandle ''o1'' 1) False 12)))"
definition steers4 :: steerQueueState where
  "steers4 = projr (steer_apply steers3 claim1 13)"

definition follows1 :: followUpQueueState where
  "follows1 = fst (projr (followUp_enqueue emptyFollowUpQueue demoKey ''f'' ''inv-f'' ''run'' ''pf'' 10))"
definition follows2 :: followUpQueueState where
  "follows2 = fst (projr (followUp_enqueue follows1 demoKey ''g'' ''inv-g'' ''run'' ''pg'' 11))"
definition follows3 :: followUpQueueState where
  "follows3 = fst (followUp_claimNext ''u1'' follows2 ''run'' 12)"
definition fclaim1 :: FollowUpClaimRef where
  "fclaim1 = snd (the (snd (followUp_claimNext ''u1'' follows2 ''run'' 12)))"

lemma demo_steers:
  "steer_enqueue emptySteerQueue demoKey ''a'' ''inv-a'' ''run'' ''pa'' 10 = Inr (steers1, hd (sq_Items steers1))"
  "steer_enqueue steers1 demoKey ''b'' ''inv-b'' ''run'' ''pb'' 11 = Inr (steers2, sq_Items steers2 ! 1)"
  "steer_claimNext ''t1'' steers2 (demoHandle ''o1'' 1) False 12 = (steers3, Some (sq_Items steers3 ! 0, claim1))"
  "steer_apply steers3 claim1 13 = Inr steers4"
  by code_simp+

lemma demo_follows:
  "followUp_enqueue emptyFollowUpQueue demoKey ''f'' ''inv-f'' ''run'' ''pf'' 10 = Inr (follows1, hd (fq_Items follows1))"
  "followUp_enqueue follows1 demoKey ''g'' ''inv-g'' ''run'' ''pg'' 11 = Inr (follows2, fq_Items follows2 ! 1)"
  "followUp_claimNext ''u1'' follows2 ''run'' 12 = (follows3, Some (fq_Items follows3 ! 0, fclaim1))"
  by code_simp+

text \<open>The invariants in a form that evaluates.\<close>

lemma invariant_code [code]:
  "cellOK c \<longleftrightarrow> qc_ID c \<noteq> '''' \<and>
     (case qc_Claim c of
        None \<Rightarrow> qc_Status c \<noteq> QueueClaimed
      | Some i \<Rightarrow> (qc_Status c = QueueClaimed \<and> ci_ItemID i = qc_ID c) \<or> qc_Status c = QueueApplied)"
  "steerTargetOK item \<longleftrightarrow>
     si_Status item \<noteq> QueueClaimed \<or> (case si_Claim item of None \<Rightarrow> False | Some c \<Rightarrow> sc_RunID c = si_TargetRunID item)"
  "followUpRecorded claims fitem \<longleftrightarrow>
     fi_Status fitem \<noteq> QueueClaimed \<or>
     (case fi_Claim fitem of None \<Rightarrow> False | Some c \<Rightarrow> map_of claims (fc_TriggerRunID c) = Some (fi_ID fitem))"
  by (auto simp: cellOK_def steerTargetOK_def followUpRecorded_def split: option.splits)

lemma demo_inv: "steer_inv steers2" "steer_inv steers3" "followUp_inv follows2" "followUp_inv follows3"
  by code_simp+

lemma demo_fresh:
  "''b'' \<notin> si_ID ` set (sq_Items steers1)" "\<not> (\<exists>x\<in>set (sq_Items steers2). steerHeldBy (rh_RunID (demoHandle ''o1'' 1)) x)"
  "sc_ClaimToken claim1 = ''t1''"
  by code_simp+

lemma demo_run:
  "ledger_run queue_step (emptySteerQueue, emptyFollowUpQueue) [Quiet, Quiet, Issue ''t1'', Settle ''t1'']
     (steers4, emptyFollowUpQueue)"
proof -
  let ?run = "ledger_run queue_step (emptySteerQueue, emptyFollowUpQueue)"
  have start: "?run [] (emptySteerQueue, emptyFollowUpQueue)"
    by (rule run_nil)
  have "?run ([] @ [Quiet]) (steers1, emptyFollowUpQueue)"
    by (rule run_snoc [OF start enqueueSteer [OF demo_steers(1)]]) (simp_all add: freshEvent_def emptySteerQueue_def)
  then have "?run (([] @ [Quiet]) @ [Quiet]) (steers2, emptyFollowUpQueue)"
    by (rule run_snoc) (rule enqueueSteer [OF demo_steers(2)], simp_all add: freshEvent_def demo_fresh)
  then have "?run ((([] @ [Quiet]) @ [Quiet]) @ [Issue ''t1'']) (steers3, emptyFollowUpQueue)"
    by (rule run_snoc) (rule claimSteerNew [OF demo_steers(3) demo_fresh(2)], simp add: freshEvent_def issued_def)
  then have "?run (((([] @ [Quiet]) @ [Quiet]) @ [Issue ''t1'']) @ [Settle (sc_ClaimToken claim1)]) (steers4, emptyFollowUpQueue)"
    by (rule run_snoc) (rule applySteer [OF demo_steers(4)], simp add: freshEvent_def)
  then show ?thesis by (simp add: demo_fresh)
qed

section \<open>Exactly-once consumption\<close>

lemma settledOnce_split:
  assumes "settledOnce tr" "tr = us @ Settle t # vs"
  shows "Issue t \<in> set us \<and> Settle t \<notin> set us \<and> Settle t \<notin> set vs"
proof -
  have once: "t \<in> issued xs \<and> t \<notin> settled xs" if "tr = xs @ Settle t # ys" for xs ys
    using assms(1) that by (auto simp: settledOnce_def)
  have "Settle t \<notin> set vs"
  proof
    assume "Settle t \<in> set vs"
    then obtain xs ys where "vs = xs @ Settle t # ys" by (meson split_list)
    then have "tr = (us @ Settle t # xs) @ Settle t # ys" using assms(2) by simp
    from once [OF this] show False by (simp add: settled_def)
  qed
  then show ?thesis using once [OF assms(2)] by (simp add: issued_def settled_def)
qed

text \<open>
  C1 (queue_exactly_once): in any sequence of queue operations on a session that
  started empty, every settlement of a claim (applied, released or rejected)
  follows the issue of that claim and there is no other settlement of the same
  claim, before or after; the claims that are out at the end were issued and not
  settled.
\<close>

theorem queue_exactly_once:
  assumes "ledger_run queue_step (emptySteerQueue, emptyFollowUpQueue) tr (s, f)"
  shows "(\<forall>us t vs. tr = us @ Settle t # vs \<longrightarrow> Issue t \<in> set us \<and> Settle t \<notin> set us \<and> Settle t \<notin> set vs) \<and>
    (\<forall>t\<in>steerTokens s \<union> followUpTokens f. Issue t \<in> set tr \<and> Settle t \<notin> set tr)"
proof -
  from queues.run_facts [OF assms empty_queues(3,4)]
  have once: "settledOnce tr" and out: "queues_tokens (s, f) \<subseteq> issued tr - settled tr" by auto
  show ?thesis
    using settledOnce_split [OF once] out by (auto simp: queues_tokens_def issued_def settled_def)
qed

theorem queue_exactly_once_witness:
  "Issue ''t1'' \<in> set [Quiet, Quiet, Issue ''t1''] \<and> Settle ''t1'' \<notin> set [Quiet, Quiet, Issue ''t1'']"
  using queue_exactly_once [OF demo_run, THEN conjunct1, rule_format, of "[Quiet, Quiet, Issue ''t1'']" "''t1''" "[]"] by simp

section \<open>Reachable states\<close>

text \<open>Two cells that hold claims on the same slot are the same cell.\<close>

lemma held_slot_inj:
  assumes "cellsOK (map cell xs)" "distinct (map ID xs)" "\<And>x. qc_ID (cell x) = ID x"
    "x \<in> set xs" "y \<in> set xs" "heldCell (cell x) = Some i" "heldCell (cell y) = Some j" "ci_Slot i = ci_Slot j"
  shows "x = y"
proof -
  have "i \<in> set (heldCells (map cell xs))" "j \<in> set (heldCells (map cell xs))"
    using assms(4-7) by (auto simp: heldCells_set heldCell_def split: if_splits)
  moreover have "inj_on ci_Slot (set (heldCells (map cell xs)))"
    using assms(1) by (simp add: cellsOK_def distinct_map)
  ultimately have "i = j" using assms(8) by (auto dest: inj_onD)
  moreover have "ci_ItemID i = ID x" "ci_ItemID j = ID y"
    using assms(1,3-7) by (auto simp: cellsOK_def cellOK_def heldCell_def split: if_splits)
  ultimately show ?thesis using assms(2,4,5) by (auto simp: distinct_map dest: inj_onD)
qed

lemma steer_held_unique:
  assumes "steer_inv s" "x \<in> set (sq_Items s)" "y \<in> set (sq_Items s)"
    "si_Status x = QueueClaimed" "si_Status y = QueueClaimed" "si_TargetRunID x = si_TargetRunID y"
  shows "x = y"
proof -
  have slot: "\<exists>i. heldCell (steerCell z) = Some i \<and> ci_Slot i = si_TargetRunID z"
    if "z \<in> set (sq_Items s)" "si_Status z = QueueClaimed" for z
    using assms(1) that by (fastforce simp: steer_inv_def steerTargetOK_def heldCell_def steerCell_def)
  obtain i j where "heldCell (steerCell x) = Some i" "heldCell (steerCell y) = Some j" "ci_Slot i = ci_Slot j"
    using slot [OF assms(2,4)] slot [OF assms(3,5)] assms(6) by metis
  moreover have "cellsOK (steerCells s)" "distinct (map si_ID (sq_Items s))"
    using assms(1) by (simp_all add: steer_inv_def cellsOK_def comp_def)
  ultimately show ?thesis
    using held_slot_inj [of steerCell "sq_Items s" si_ID x y i j] assms(2,3) by simp
qed

text \<open>
  C10 (reachable_queues): in every state a session's queues reach from empty,
  items have distinct IDs, a run holds at most one claimed steer and only a steer
  addressed to it, every claim names the item that carries it, a claimed
  follow-up is recorded under its trigger run, and at most 64 terminal items are
  retained on each side.
\<close>

theorem reachable_queues:
  assumes "ledger_run queue_step (emptySteerQueue, emptyFollowUpQueue) tr (s, f)"
  shows "distinct (map si_ID (sq_Items s)) \<and> distinct (map fi_ID (fq_Items f)) \<and>
    (\<forall>x\<in>set (sq_Items s). si_Status x = QueueClaimed \<longrightarrow>
       (\<exists>c. si_Claim x = Some c \<and> sc_ItemID c = si_ID x \<and> sc_RunID c = si_TargetRunID x) \<and>
       (\<forall>y\<in>set (sq_Items s). si_Status y = QueueClaimed \<and> si_TargetRunID y = si_TargetRunID x \<longrightarrow> y = x)) \<and>
    (\<forall>x\<in>set (fq_Items f). fi_Status x = QueueClaimed \<longrightarrow>
       (\<exists>c. fi_Claim x = Some c \<and> fc_ItemID c = fi_ID x \<and> mapGet '''' (fq_TerminalClaims f) (fc_TriggerRunID c) = fi_ID x)) \<and>
    length (filter (\<lambda>x. QueueStatus_terminal (si_Status x)) (sq_Items s)) \<le> 64 \<and>
    length (filter (\<lambda>x. QueueStatus_terminal (fi_Status x)) (fq_Items f)) \<le> 64"
proof -
  have inv: "steer_inv s" "followUp_inv f"
    using queues.run_inv [OF assms empty_queues(3,4)] by (auto simp: queues_inv_def)
  have "\<exists>c. si_Claim x = Some c \<and> sc_ItemID c = si_ID x \<and> sc_RunID c = si_TargetRunID x"
    if "x \<in> set (sq_Items s)" "si_Status x = QueueClaimed" for x
    using inv(1) that by (force simp: steer_inv_def cellsOK_def cellOK_def steerTargetOK_def steerCell_def)
  moreover have "\<exists>c. fi_Claim x = Some c \<and> fc_ItemID c = fi_ID x \<and> mapGet '''' (fq_TerminalClaims f) (fc_TriggerRunID c) = fi_ID x"
    if "x \<in> set (fq_Items f)" "fi_Status x = QueueClaimed" for x
    using inv(2) that by (force simp: followUp_inv_def cellsOK_def cellOK_def followUpRecorded_def followUpCell_def mapGet_def)
  moreover have "distinct (map si_ID (sq_Items s))" "distinct (map fi_ID (fq_Items f))"
    using inv by (simp_all add: steer_inv_def followUp_inv_def cellsOK_def comp_def)
  moreover have "length (filter (\<lambda>x. QueueStatus_terminal (si_Status x)) (sq_Items s)) \<le> 64"
    "length (filter (\<lambda>x. QueueStatus_terminal (fi_Status x)) (fq_Items f)) \<le> 64"
    using inv by (simp_all add: steer_inv_def followUp_inv_def terminalCells_def filter_map comp_def liveCell_def queueTerminalRetention_def)
  ultimately show ?thesis using steer_held_unique [OF inv(1)] by blast
qed

theorem reachable_queues_witness:
  "distinct (map si_ID (sq_Items steers4)) \<and> length (filter (\<lambda>x. QueueStatus_terminal (si_Status x)) (sq_Items steers4)) \<le> 64"
  using reachable_queues [OF demo_run] by blast

section \<open>Terminal items are final\<close>

text \<open>Every item of the new list is new or descends from an old one, unchanged if that was terminal.\<close>

definition descends :: "('a \<Rightarrow> string) \<Rightarrow> ('a \<Rightarrow> QueueStatus) \<Rightarrow> 'a list \<Rightarrow> 'a list \<Rightarrow> bool" where
  "descends itemID status xs ys \<longleftrightarrow>
     (\<forall>y\<in>set ys. itemID y \<notin> itemID ` set xs \<or>
        (\<exists>x\<in>set xs. itemID x = itemID y \<and> (QueueStatus_terminal (status x) \<longrightarrow> y = x)))"

lemma descends_final:
  assumes "descends itemID status xs ys" "distinct (map itemID xs)" "x \<in> set xs" "QueueStatus_terminal (status x)"
    "y \<in> set ys" "itemID y = itemID x"
  shows "y = x"
proof -
  obtain z where "z \<in> set xs" "itemID z = itemID y" "QueueStatus_terminal (status z) \<longrightarrow> y = z"
    using assms(1,3,5,6) by (fastforce simp: descends_def)
  then show ?thesis using assms(2-4,6) by (metis (no_types, lifting) distinct_map inj_onD)
qed

lemma descends_refl [simp]: "descends itemID status xs xs"
  by (auto simp: descends_def)

lemma descends_update:
  "xs = us @ x # vs \<Longrightarrow> \<not> QueueStatus_terminal (status x) \<Longrightarrow> itemID y = itemID x \<Longrightarrow> set ys \<subseteq> set (us @ y # vs) \<Longrightarrow>
   descends itemID status xs ys"
  by (auto simp: descends_def)

lemma descends_snoc: "itemID y \<notin> itemID ` set xs \<Longrightarrow> descends itemID status xs (xs @ [y])"
  by (auto simp: descends_def)

lemma descends_list_update:
  "b < length xs \<Longrightarrow> \<not> QueueStatus_terminal (status (xs ! b)) \<Longrightarrow> itemID y = itemID (xs ! b) \<Longrightarrow>
   descends itemID status xs (xs[b := y])"
  by (rule descends_update [where us = "take b xs" and x = "xs ! b" and vs = "drop (Suc b) xs" and y = y])
    (simp_all add: upd_conv_take_nth_drop id_take_nth_drop [symmetric])

lemma descends_reorder:
  assumes "queue_item itemID status position setPosition"
    "reorderQueuePositions itemID status position setPosition xs item before = Inr ys" "distinct (map itemID xs)"
  shows "descends itemID status xs ys"
proof -
  have "distinct (pendingIDs itemID status position xs)"
    using assms(3) unfolding pendingIDs_def distinct_map [of _ "pendingRefs _ _ _"]
    by (auto simp: inj_on_def pendingRefs_set) (metis distinct_map inj_onD nth_eq_iff_index_eq nth_mem)
  then obtain order where ys: "ys = assignPositions setPosition 1 order xs"
    and order: "set order = set (pendingRefs status position xs)"
    using queue_item.reorder_order [OF assms(1,2)] by metis
  have "itemID (ys ! i) = itemID (xs ! i) \<and> (QueueStatus_terminal (status (xs ! i)) \<longrightarrow> ys ! i = xs ! i)" if "i < length xs" for i
  proof
    have "map itemID ys = map itemID xs"
      unfolding ys by (rule map_assignPositions) (rule queue_item.itemID_setPosition [OF assms(1)])
    then show "itemID (ys ! i) = itemID (xs ! i)" using that by (metis nth_map length_map)
    show "QueueStatus_terminal (status (xs ! i)) \<longrightarrow> ys ! i = xs ! i"
    proof
      assume "QueueStatus_terminal (status (xs ! i))"
      then have "i \<notin> set order" by (auto simp: order pendingRefs_set)
      then show "ys ! i = xs ! i" by (simp add: ys assignPositions_nth_other)
    qed
  qed
  moreover have "length ys = length xs" by (simp add: ys)
  ultimately have "\<exists>x\<in>set xs. itemID x = itemID y \<and> (QueueStatus_terminal (status x) \<longrightarrow> y = x)" if "y \<in> set ys" for y
    using that by (metis in_set_conv_nth)
  then show ?thesis by (auto simp: descends_def)
qed

lemma descends_extract:
  assumes "List.extract p xs = Some (us, x, vs)" "\<And>z. p z \<Longrightarrow> \<not> QueueStatus_terminal (status z)" "itemID y = itemID x"
  shows "descends itemID status xs (us @ y # vs)" "descends itemID status xs (compactQueueItems describe (us @ y # vs))"
  using extract_SomeD [OF assms(1)] assms(2,3) compact_subset [of describe "us @ y # vs"]
  by (blast intro: descends_update)+

lemma steer_claimNext_descends:
  assumes "steer_claimNext token s handle sealIfEmpty now = (s', res)"
  shows "descends si_ID si_Status (sq_Items s) (sq_Items s')"
proof (cases "List.extract (steerHeldBy (rh_RunID handle)) (sq_Items s)")
  case (Some t)
  then obtain us x vs where e: "List.extract (steerHeldBy (rh_RunID handle)) (sq_Items s) = Some (us, x, vs)" by (cases t) auto
  have "\<not> QueueStatus_terminal (si_Status z)" if "steerHeldBy r z" for z r using that by (simp add: steerHeldBy_def)
  from descends_extract(1) [OF e this] show ?thesis
    using assms e by (auto simp: steer_claimNext_def advanceSteerClaim_def split: option.splits if_splits)
next
  case None
  have "descends si_ID si_Status (sq_Items s) ((sq_Items s)[b := y])"
    if "selectBest (steerEligible (rh_RunID handle)) si_Position (sq_Items s) = Some b" "si_ID y = si_ID (sq_Items s ! b)" for b y
    using selectBest_SomeD [OF that(1)] that(2) by (intro descends_list_update) (auto simp: steerEligible_def)
  then show ?thesis
    using assms None by (auto simp: steer_claimNext_def Let_def split: option.splits if_splits)
qed

lemma followUp_claimNext_descends:
  assumes "followUp_claimNext token f trigger now = (f', res)"
  shows "descends fi_ID fi_Status (fq_Items f) (fq_Items f')"
proof -
  have "descends fi_ID fi_Status (fq_Items f) ((fq_Items f)[b := y])"
    if "selectBest followUpAccepted fi_Position (fq_Items f) = Some b" "fi_ID y = fi_ID (fq_Items f ! b)" for b y
    using selectBest_SomeD [OF that(1)] that(2) by (intro descends_list_update) auto
  then show ?thesis
    using assms by (auto simp: followUp_claimNext_def Let_def split: option.splits if_splits)
qed

lemma closeItem_descends: "descends si_ID si_Status xs (compactQueueItems describe (map (closeItem runID) xs))"
proof -
  have "\<exists>x\<in>set xs. si_ID x = si_ID y \<and> (QueueStatus_terminal (si_Status x) \<longrightarrow> y = x)"
    if "y \<in> set (map (closeItem runID) xs)" for y
    using that by (auto simp: closeItem_def closeMatches_def split: if_splits)
  then show ?thesis using compact_subset [of describe "map (closeItem runID) xs"] by (fastforce simp: descends_def)
qed

lemma steer_step_descends:
  assumes "queue_step q e q'" "distinct (map si_ID (sq_Items (fst q)))"
  shows "descends si_ID si_Status (sq_Items (fst q)) (sq_Items (fst q'))"
  using assms
proof (cases rule: queue_step.cases)
  case (reorderSteer s itemRef beforeRef s' items f now)
  then show ?thesis
    using assms(2) descends_reorder [OF steer_view.queue_item_axioms]
    by (auto simp: reorderSteerState_def Let_def split: sum.splits)
next
  case (closeRun s runID now s' changed f)
  then show ?thesis
    using closeItem_descends by (auto simp: closeSteerRun_def Let_def steer_compact_items split: if_splits)
qed (auto simp: steer_enqueue_def steer_edit_def steer_cancel_def steer_apply_def steer_release_def queue_promote_def Let_def
      steer_compact_items steerPendingAs_def steerClaimedAs_def
      intro!: descends_snoc descends_extract dest: steer_claimNext_descends split: if_splits option.splits)

lemma followUp_step_descends:
  assumes "queue_step q e q'" "distinct (map fi_ID (fq_Items (snd q)))"
  shows "descends fi_ID fi_Status (fq_Items (snd q)) (fq_Items (snd q'))"
  using assms
proof (cases rule: queue_step.cases)
  case (reorderFollowUp f fitemRef fbeforeRef f' fitems s now)
  then show ?thesis
    using assms(2) descends_reorder [OF followUp_view.queue_item_axioms]
    by (auto simp: reorderFollowUpState_def Let_def split: sum.splits)
qed (auto simp: followUp_enqueue_def followUp_edit_def followUp_cancel_def followUp_apply_def followUp_release_def
      followUp_reject_def queue_promote_def Let_def followUp_compact_items followUpPendingAs_def followUpClaimedAs_def
      intro!: descends_snoc descends_extract dest: followUp_claimNext_descends split: if_splits option.splits)

text \<open>
  C11 (terminal_final): an item that was applied, canceled or rejected never
  changes again. Whatever operation follows in a reachable state, the item is
  either still there exactly as it was or it has been compacted away; so an
  applied item is never handed out a second time.
\<close>

theorem terminal_final:
  assumes "ledger_run queue_step (emptySteerQueue, emptyFollowUpQueue) tr (s, f)" "queue_step (s, f) e (s', f')"
  shows "(\<forall>x\<in>set (sq_Items s). QueueStatus_terminal (si_Status x) \<longrightarrow> (\<forall>y\<in>set (sq_Items s'). si_ID y = si_ID x \<longrightarrow> y = x)) \<and>
    (\<forall>x\<in>set (fq_Items f). QueueStatus_terminal (fi_Status x) \<longrightarrow> (\<forall>y\<in>set (fq_Items f'). fi_ID y = fi_ID x \<longrightarrow> y = x))"
proof -
  have "distinct (map si_ID (sq_Items s))" "distinct (map fi_ID (fq_Items f))"
    using queues.run_inv [OF assms(1) empty_queues(3,4)]
    by (simp_all add: queues_inv_def steer_inv_def followUp_inv_def cellsOK_def comp_def)
  then show ?thesis
    using steer_step_descends [OF assms(2)] followUp_step_descends [OF assms(2)]
    by (auto intro: descends_final)
qed

lemma demo_edit:
  "steer_edit steers4 ''b'' ''pc'' 14 = Inr (fst (projr (steer_edit steers4 ''b'' ''pc'' 14)), snd (projr (steer_edit steers4 ''b'' ''pc'' 14)))"
  "map (\<lambda>x. (si_ID x, si_Status x)) (sq_Items steers4) = [(''a'', QueueApplied), (''b'', QueueAccepted)]"
  by code_simp+

theorem terminal_final_witness:
  "sq_Items (fst (projr (steer_edit steers4 ''b'' ''pc'' 14))) ! 0 = sq_Items steers4 ! 0"
proof -
  let ?y = "sq_Items (fst (projr (steer_edit steers4 ''b'' ''pc'' 14))) ! 0"
  have "QueueStatus_terminal (si_Status (sq_Items steers4 ! 0))" "sq_Items steers4 ! 0 \<in> set (sq_Items steers4)"
    "?y \<in> set (sq_Items (fst (projr (steer_edit steers4 ''b'' ''pc'' 14))))" "si_ID ?y = si_ID (sq_Items steers4 ! 0)"
    by code_simp+
  then show ?thesis
    using terminal_final [OF demo_run editSteer [OF demo_edit(1)]] by blast
qed

section \<open>Order of service\<close>

text \<open>
  C12 (followUp_fifo): whatever the interleaving of enqueues and claims, the
  follow-ups handed out, followed by those still pending, are those pending at
  the start followed by the enqueued ones, in that order.
\<close>

theorem followUp_fifo:
  assumes "fifo_run followUpEnq followUpDeq f0 ins outs f" "followUp_inv f0"
  shows "map fi_ID (pendingFollowUps f0 0) @ ins = outs @ map fi_ID (pendingFollowUps f 0)"
  using followUpFifo.run_order [OF assms] by (simp add: followUpPending_def)

lemma demo_fifo: "fifo_run followUpEnq followUpDeq emptyFollowUpQueue [''f'', ''g''] [''f''] follows3"
proof -
  let ?run = "fifo_run followUpEnq followUpDeq emptyFollowUpQueue"
  have fresh: "''f'' \<notin> fi_ID ` set (fq_Items emptyFollowUpQueue)" "''g'' \<notin> fi_ID ` set (fq_Items follows1)"
    "\<forall>x\<in>set (fq_Items emptyFollowUpQueue). fi_Position x < 2 ^ 63 - 1" "\<forall>x\<in>set (fq_Items follows1). fi_Position x < 2 ^ 63 - 1"
    "mapGet '''' (fq_TerminalClaims follows2) ''run'' = ''''" "''u1'' \<notin> followUpTokens follows2" "fi_ID (fq_Items follows3 ! 0) = ''f''"
    by code_simp+
  have "?run ([] @ [''f'']) [] follows1"
    by (rule fifo_enq [OF fifo_start]) (use demo_follows(1) fresh in \<open>auto simp: followUpEnq_def\<close>)
  then have "?run (([] @ [''f'']) @ [''g'']) [] follows2"
    by (rule fifo_enq) (use demo_follows(2) fresh in \<open>auto simp: followUpEnq_def\<close>)
  then have "?run (([] @ [''f'']) @ [''g'']) ([] @ [''f'']) follows3"
    by (rule fifo_deq) (use demo_follows(3) fresh in \<open>unfold followUpDeq_def, metis\<close>)
  then show ?thesis by simp
qed

theorem followUp_fifo_witness:
  "map fi_ID (pendingFollowUps emptyFollowUpQueue 0) @ [''f'', ''g''] = [''f''] @ map fi_ID (pendingFollowUps follows3 0)"
  by (rule followUp_fifo [OF demo_fifo empty_queues(2)])

text \<open>
  For each run, steers are claimed and applied in the order in
  which they were enqueued for it; steers for other runs do not matter.
\<close>

theorem steer_fifo:
  assumes "fifo_run (steerEnq runID) (steerDeq runID) s0 ins outs s" "steer_inv s0"
  shows "map si_ID (filter (\<lambda>x. si_TargetRunID x = runID) (pendingSteers s0 0)) @ ins =
    outs @ map si_ID (filter (\<lambda>x. si_TargetRunID x = runID) (pendingSteers s 0))"
  using steerFifo.run_order [OF assms] by (simp add: steerPending_def)

lemma demo_steer_fifo: "fifo_run (steerEnq ''run'') (steerDeq ''run'') emptySteerQueue [''a'', ''b''] [''a''] steers4"
proof -
  let ?run = "fifo_run (steerEnq ''run'') (steerDeq ''run'') emptySteerQueue"
  have fresh: "''a'' \<notin> si_ID ` set (sq_Items emptySteerQueue)"
    "\<forall>x\<in>set (sq_Items emptySteerQueue). si_Position x < 2 ^ 63 - 1" "\<forall>x\<in>set (sq_Items steers1). si_Position x < 2 ^ 63 - 1"
    "''t1'' \<notin> steerTokens steers2" "si_ID (sq_Items steers3 ! 0) = ''a''" "rh_RunID (demoHandle ''o1'' 1) = ''run''"
    by code_simp+
  have "?run ([] @ [''a'']) [] steers1"
    by (rule fifo_enq [OF fifo_start]) (use demo_steers(1) fresh in \<open>auto simp: steerEnq_def\<close>)
  then have "?run (([] @ [''a'']) @ [''b'']) [] steers2"
    by (rule fifo_enq) (use demo_steers(2) fresh demo_fresh(1) in \<open>auto simp: steerEnq_def\<close>)
  then have "?run (([] @ [''a'']) @ [''b'']) ([] @ [''a'']) steers4"
    by (rule fifo_deq) (use demo_steers(3,4) fresh demo_fresh(2) in \<open>unfold steerDeq_def, metis\<close>)
  then show ?thesis by simp
qed

theorem steer_fifo_witness:
  "map si_ID (filter (\<lambda>x. si_TargetRunID x = ''run'') (pendingSteers emptySteerQueue 0)) @ [''a'', ''b''] =
     [''a''] @ map si_ID (filter (\<lambda>x. si_TargetRunID x = ''run'') (pendingSteers steers4 0))"
  by (rule steer_fifo [OF demo_steer_fifo empty_queues(1)])

end
