(* ===== verification/QueueContracts.thy ===== *)
theory QueueContracts
  imports QueueProps
begin

text \<open>
  The contracts of single queue operations: releasing undoes claiming, a new
  owner of a run takes over its claim and fences the old one, a terminal run
  starts one follow-up, reordering is the move it promises, promotion moves one
  item between the queues, closing a run settles its steers.
\<close>

section \<open>Claim and release\<close>

lemma extract_list_update:
  assumes "b < length xs" "p y" "\<forall>i<length xs. i \<noteq> b \<longrightarrow> \<not> p (xs ! i)"
  shows "List.extract p (xs[b := y]) = Some (take b xs, y, drop (Suc b) xs)"
proof -
  have "\<forall>u\<in>set (take b xs). \<not> p u" using assms(1,3) by (auto simp: in_set_conv_nth)
  then show ?thesis using assms(1,2) by (simp add: upd_conv_take_nth_drop extract_Some_iff)
qed

lemma mapDel_mapPut_new:
  assumes "map_of m k = None"
  shows "mapDel k (mapPut k v m) = m"
proof -
  have "k \<notin> fst ` set m" using assms by (simp add: map_of_eq_None_iff)
  then show ?thesis
    unfolding mapDel_def mapPut_def AList.delete_eq
    by (induction m) (auto simp: filter_id_conv)
qed

lemma take_drop_restore: "b < length xs \<Longrightarrow> y = xs ! b \<Longrightarrow> take b xs @ y # drop (Suc b) xs = xs"
  by (simp add: id_take_nth_drop [symmetric])

lemma steer_claim_state:
  assumes "steer_claimNext token s handle sealIfEmpty now = (s', Some (item, claim))"
    "\<not> (\<exists>x\<in>set (sq_Items s). steerHeldBy (rh_RunID handle) x)"
  obtains best where "best < length (sq_Items s)" "si_Status (sq_Items s ! best) = QueueAccepted"
    "si_TargetRunID (sq_Items s ! best) = rh_RunID handle"
    "claim = \<lparr>sc_ItemID = si_ID (sq_Items s ! best), sc_RunID = rh_RunID handle, sc_OwnerID = rh_OwnerID handle,
       sc_Generation = rh_Generation handle, sc_FencingToken = rh_FencingToken handle, sc_ClaimToken = token\<rparr>"
    "item = (sq_Items s ! best)\<lparr>si_Status := QueueClaimed, si_Claim := Some claim\<rparr>"
    "s' = s\<lparr>sq_Items := (sq_Items s)[best := item], sq_UpdatedAt := now\<rparr>"
proof -
  have "List.extract (steerHeldBy (rh_RunID handle)) (sq_Items s) = None" using assms(2) by (auto simp: extract_None)
  then obtain best where best: "selectBest (steerEligible (rh_RunID handle)) si_Position (sq_Items s) = Some best"
    and c: "claim = \<lparr>sc_ItemID = si_ID (sq_Items s ! best), sc_RunID = rh_RunID handle, sc_OwnerID = rh_OwnerID handle,
       sc_Generation = rh_Generation handle, sc_FencingToken = rh_FencingToken handle, sc_ClaimToken = token\<rparr>"
    and i: "item = (sq_Items s ! best)\<lparr>si_Status := QueueClaimed, si_Claim := Some claim\<rparr>"
    and s': "s' = s\<lparr>sq_Items := (sq_Items s)[best := item], sq_UpdatedAt := now\<rparr>"
    using assms(1) by (auto simp: steer_claimNext_def Let_def split: option.splits if_splits)
  show ?thesis
    by (rule that [OF _ _ _ c i s']) (use selectBest_SomeD [OF best] in \<open>auto simp: steerEligible_def\<close>)
qed

text \<open>
  Releasing a steer right after claiming it restores
  the queue: every item is as it was, at its place and position, and only the
  update time differs.
\<close>

theorem steer_claim_release:
  assumes "steer_inv s" "steer_claimNext token s handle sealIfEmpty now = (s', Some (item, claim))"
    "\<not> (\<exists>x\<in>set (sq_Items s). steerHeldBy (rh_RunID handle) x)"
  shows "steer_release s' claim now' = Inr (s\<lparr>sq_UpdatedAt := now'\<rparr>)"
proof -
  obtain best where b: "best < length (sq_Items s)" "si_Status (sq_Items s ! best) = QueueAccepted"
    and c: "sc_ItemID claim = si_ID (sq_Items s ! best)" "sc_RunID claim = rh_RunID handle"
    and i: "item = (sq_Items s ! best)\<lparr>si_Status := QueueClaimed, si_Claim := Some claim\<rparr>"
    and s': "s' = s\<lparr>sq_Items := (sq_Items s)[best := item], sq_UpdatedAt := now\<rparr>"
    by (rule steer_claim_state [OF assms(2,3)]) auto
  have "si_Claim (sq_Items s ! best) = None" using steer_pending_unclaimed [OF assms(1)] b by simp
  then have restored: "item\<lparr>si_Status := QueueAccepted, si_Claim := None\<rparr> = sq_Items s ! best" using b(2) i by simp
  have others: "\<not> steerClaimedAs claim (sq_Items s ! k)" if "k < length (sq_Items s)" for k
    using assms(3) that c(2) by (auto simp: steerClaimedAs_def steerHeldBy_def)
  have "List.extract (steerClaimedAs claim) (sq_Items s') =
      Some (take best (sq_Items s), item, drop (Suc best) (sq_Items s))"
    using extract_list_update [OF b(1), of "steerClaimedAs claim" item] others c(1) i by (simp add: s' steerClaimedAs_def)
  then show ?thesis
    using take_drop_restore [OF b(1)] by (simp add: steer_release_def restored s')
qed

theorem steer_claim_release_witness:
  "steer_release steers3 claim1 13 = Inr (steers2\<lparr>sq_UpdatedAt := 13\<rparr>)"
  by (rule steer_claim_release [OF demo_inv(1) demo_steers(3) demo_fresh(2)])

lemma followUp_claim_state:
  assumes "followUp_claimNext token f trigger now = (f', Some (item, claim))" "mapGet '''' (fq_TerminalClaims f) trigger = ''''"
  obtains best where "best < length (fq_Items f)" "fi_Status (fq_Items f ! best) = QueueAccepted"
    "claim = \<lparr>fc_ItemID = fi_ID (fq_Items f ! best), fc_TriggerRunID = trigger, fc_ClaimToken = token\<rparr>"
    "item = (fq_Items f ! best)\<lparr>fi_Status := QueueClaimed, fi_Claim := Some claim\<rparr>"
    "f' = f\<lparr>fq_Items := (fq_Items f)[best := item],
       fq_TerminalClaims := mapPut trigger (fi_ID item) (fq_TerminalClaims f), fq_UpdatedAt := now\<rparr>"
proof -
  obtain best where best: "selectBest followUpAccepted fi_Position (fq_Items f) = Some best"
    and c: "claim = \<lparr>fc_ItemID = fi_ID (fq_Items f ! best), fc_TriggerRunID = trigger, fc_ClaimToken = token\<rparr>"
    and i: "item = (fq_Items f ! best)\<lparr>fi_Status := QueueClaimed, fi_Claim := Some claim\<rparr>"
    and f': "f' = f\<lparr>fq_Items := (fq_Items f)[best := item],
       fq_TerminalClaims := mapPut trigger (fi_ID item) (fq_TerminalClaims f), fq_UpdatedAt := now\<rparr>"
    using assms by (auto simp: followUp_claimNext_def Let_def split: option.splits)
  show ?thesis
    by (rule that [OF _ _ c i f']) (use selectBest_SomeD [OF best] in auto)
qed

lemma followUp_unrecorded:
  assumes "followUp_inv f" "mapGet '''' (fq_TerminalClaims f) trigger = ''''"
  shows "map_of (fq_TerminalClaims f) trigger = None"
  using assms by (force simp: followUp_inv_def mapGet_def wfMap_set [symmetric] split: option.splits)

text \<open>
  Releasing a follow-up right after claiming it
  restores the queue and the record of claims, so the trigger run may claim again.
\<close>

theorem followUp_claim_release:
  assumes "followUp_inv f" "followUp_claimNext token f trigger now = (f', Some (item, claim))"
    "mapGet '''' (fq_TerminalClaims f) trigger = ''''"
  shows "followUp_release f' claim now' = Inr (f\<lparr>fq_UpdatedAt := now'\<rparr>)"
proof -
  obtain best where b: "best < length (fq_Items f)" "fi_Status (fq_Items f ! best) = QueueAccepted"
    and c: "fc_ItemID claim = fi_ID (fq_Items f ! best)" "fc_TriggerRunID claim = trigger"
    and i: "item = (fq_Items f ! best)\<lparr>fi_Status := QueueClaimed, fi_Claim := Some claim\<rparr>"
    and f': "f' = f\<lparr>fq_Items := (fq_Items f)[best := item],
       fq_TerminalClaims := mapPut trigger (fi_ID item) (fq_TerminalClaims f), fq_UpdatedAt := now\<rparr>"
    by (rule followUp_claim_state [OF assms(2,3)]) auto
  note free = followUp_unrecorded [OF assms(1,3)]
  have "fi_Claim (fq_Items f ! best) = None" using followUp_pending_unclaimed [OF assms(1)] b by simp
  then have restored: "item\<lparr>fi_Status := QueueAccepted, fi_Claim := None\<rparr> = fq_Items f ! best" using b(2) i by simp
  have others: "\<not> followUpClaimedAs claim (fq_Items f ! k)" if "k < length (fq_Items f)" for k
    using assms(1) that c(2) free by (auto simp: followUpClaimedAs_def followUp_inv_def followUpRecorded_def dest: nth_mem)
  have "List.extract (followUpClaimedAs claim) (fq_Items f') =
      Some (take best (fq_Items f), item, drop (Suc best) (fq_Items f))"
    using extract_list_update [OF b(1), of "followUpClaimedAs claim" item] others c(1) i by (simp add: f' followUpClaimedAs_def)
  moreover have "mapDel trigger (mapPut trigger v (fq_TerminalClaims f)) = fq_TerminalClaims f" for v
    using free by (rule mapDel_mapPut_new)
  ultimately show ?thesis
    using take_drop_restore [OF b(1)] by (simp add: followUp_release_def restored f' c(2))
qed

section \<open>Ownership of claims\<close>

lemma steer_claim_held:
  assumes "steer_inv s" "steer_claimNext token s handle sealIfEmpty now = (s', Some (item, claim))" "token \<notin> steerTokens s"
  shows "steer_inv s'" "item \<in> set (sq_Items s')" "si_Status item = QueueClaimed" "si_Claim item = Some claim"
    "si_TargetRunID item = rh_RunID handle" "sc_ItemID claim = si_ID item" "sc_RunID claim = rh_RunID handle"
    "sc_OwnerID claim = rh_OwnerID handle" "sc_Generation claim = rh_Generation handle"
    "sc_FencingToken claim = rh_FencingToken handle"
proof -
  show inv: "steer_inv s'" using steer_claimNext_result [OF assms(2,1)] assms(3) by blast
  have held: "item \<in> set (sq_Items s') \<and> si_Status item = QueueClaimed \<and> si_Claim item = Some claim \<and>
    sc_RunID claim = rh_RunID handle \<and> sc_OwnerID claim = rh_OwnerID handle \<and>
    sc_Generation claim = rh_Generation handle \<and> sc_FencingToken claim = rh_FencingToken handle"
  proof (cases "List.extract (steerHeldBy (rh_RunID handle)) (sq_Items s)")
    case None
    then have "\<not> (\<exists>x\<in>set (sq_Items s). steerHeldBy (rh_RunID handle) x)" by (simp add: extract_None)
    then show ?thesis
      by (rule steer_claim_state [OF assms(2)]) (simp add: set_update_memI)
  next
    case (Some t)
    then obtain us x vs where e: "List.extract (steerHeldBy (rh_RunID handle)) (sq_Items s) = Some (us, x, vs)"
      by (cases t) auto
    have st: "si_Status x = QueueClaimed" using extract_SomeD(2) [OF e] by (simp add: steerHeldBy_def)
    from steer_claimNext_held [OF e assms(1,2)] obtain y c where y: "(item, claim) = (y, c)" "sq_Items s' = us @ y # vs"
      "si_Claim y = Some c" "steerCell y = steerCell x" "sc_RunID c = rh_RunID handle" "sc_OwnerID c = rh_OwnerID handle"
      "sc_Generation c = rh_Generation handle" "sc_FencingToken c = rh_FencingToken handle" by (metis option.inject)
    moreover have "si_Status y = QueueClaimed" using y(4) st by (metis steerCell_simps(2))
    ultimately show ?thesis by simp
  qed
  then show "item \<in> set (sq_Items s')" "si_Status item = QueueClaimed" "si_Claim item = Some claim"
    "sc_RunID claim = rh_RunID handle" "sc_OwnerID claim = rh_OwnerID handle" "sc_Generation claim = rh_Generation handle"
    "sc_FencingToken claim = rh_FencingToken handle" by auto
  show "si_TargetRunID item = rh_RunID handle" "sc_ItemID claim = si_ID item"
    using inv held by (fastforce simp: steer_inv_def steerTargetOK_def cellsOK_def cellOK_def steerCell_def)+
qed

lemma steer_settle_ok:
  assumes "x \<in> set (sq_Items s)" "steerClaimedAs ref x"
  shows "\<exists>s'. steer_apply s ref now = Inr s'" "\<exists>s'. steer_release s ref now = Inr s'"
proof -
  obtain us y vs where "List.extract (steerClaimedAs ref) (sq_Items s) = Some (us, y, vs)"
    using assms extract_None [of "steerClaimedAs ref" "sq_Items s"] by (cases "List.extract (steerClaimedAs ref) (sq_Items s)") auto
  then show "\<exists>s'. steer_apply s ref now = Inr s'" "\<exists>s'. steer_release s ref now = Inr s'"
    by (simp_all add: steer_apply_def steer_release_def)
qed

lemma steer_settle_refused:
  assumes "\<And>x. x \<in> set (sq_Items s) \<Longrightarrow> \<not> steerClaimedAs ref x"
  shows "steer_apply s ref now = Inl ErrQueueInvalidReference" "steer_release s ref now = Inl ErrQueueInvalidReference"
proof -
  have "List.extract (steerClaimedAs ref) (sq_Items s) = None" using assms by (simp add: extract_None)
  then show "steer_apply s ref now = Inl ErrQueueInvalidReference" "steer_release s ref now = Inl ErrQueueInvalidReference"
    by (simp_all add: steer_apply_def steer_release_def)
qed

text \<open>A claim request of a run that holds a steer is answered with that steer, now held for the requester.\<close>

lemma steer_reclaim:
  assumes "steer_inv s" "item \<in> set (sq_Items s)" "si_Status item = QueueClaimed" "si_Claim item = Some claim"
    "sc_RunID claim = rh_RunID handle" "si_TargetRunID item = rh_RunID handle"
  obtains item' claim' s' where "steer_claimNext token s handle sealIfEmpty now = (s', Some (item', claim'))"
    "item' \<in> set (sq_Items s')" "si_Claim item' = Some claim'" "steerCell item' = steerCell item" "steer_inv s'"
    "sc_OwnerID claim' = rh_OwnerID handle" "sc_Generation claim' = rh_Generation handle"
    "sc_FencingToken claim' = rh_FencingToken handle" "sc_RunID claim' = rh_RunID handle"
proof -
  have "steerHeldBy (rh_RunID handle) item" using assms(3-5) by (simp add: steerHeldBy_def)
  then obtain us x vs where e: "List.extract (steerHeldBy (rh_RunID handle)) (sq_Items s) = Some (us, x, vs)"
    using assms(2) extract_None [of "steerHeldBy (rh_RunID handle)" "sq_Items s"]
    by (cases "List.extract (steerHeldBy (rh_RunID handle)) (sq_Items s)") auto
  note x = extract_SomeD [OF e]
  have st: "si_Status x = QueueClaimed" "x \<in> set (sq_Items s)" using x by (simp_all add: steerHeldBy_def)
  have "si_TargetRunID x = rh_RunID handle"
    using x(2) st assms(1) by (fastforce simp: steerHeldBy_def steer_inv_def steerTargetOK_def)
  then have xi: "x = item" using steer_held_unique [OF assms(1) st(2) assms(2) st(1) assms(3)] assms(6) by simp
  obtain s' res where r: "steer_claimNext token s handle sealIfEmpty now = (s', res)" by fastforce
  from steer_claimNext_held [OF e assms(1) r] obtain y c where y: "res = Some (y, c)" "sq_Items s' = us @ y # vs"
    "si_Claim y = Some c" "steerCell y = steerCell x" "steer_inv s'" "sc_RunID c = rh_RunID handle" "sc_OwnerID c = rh_OwnerID handle"
    "sc_Generation c = rh_Generation handle" "sc_FencingToken c = rh_FencingToken handle" by metis
  show ?thesis
    by (rule that [of s' y c]) (use r xi y in simp_all)
qed

text \<open>
  C35 (steer_takeover): when another owner, generation or fencing token takes a
  run over and asks for its next steer, it gets the very steer the run holds,
  under the same claim token but its own execution identity. From then on the
  previous owner's reference neither applies nor releases the steer, and the new
  one does.
\<close>

theorem steer_takeover:
  assumes "steer_inv s" "token \<notin> steerTokens s" "steer_claimNext token s old sealIfEmpty now = (s1, Some (item, claim))"
    "rh_RunID new = rh_RunID old"
    "rh_OwnerID new \<noteq> rh_OwnerID old \<or> rh_Generation new \<noteq> rh_Generation old \<or> rh_FencingToken new \<noteq> rh_FencingToken old"
  shows "\<exists>item' claim' s2. steer_claimNext token' s1 new sealIfEmpty' now' = (s2, Some (item', claim')) \<and>
    si_ID item' = si_ID item \<and> sc_ClaimToken claim' = sc_ClaimToken claim \<and> sc_OwnerID claim' = rh_OwnerID new \<and>
    sc_Generation claim' = rh_Generation new \<and> sc_FencingToken claim' = rh_FencingToken new \<and>
    steer_apply s2 claim now'' = Inl ErrQueueInvalidReference \<and> steer_release s2 claim now'' = Inl ErrQueueInvalidReference \<and>
    (\<exists>s3. steer_apply s2 claim' now'' = Inr s3)"
proof -
  note h = steer_claim_held [OF assms(1,3,2)]
  obtain item' claim' s2 where r: "steer_claimNext token' s1 new sealIfEmpty' now' = (s2, Some (item', claim'))"
    "item' \<in> set (sq_Items s2)" "si_Claim item' = Some claim'" "steerCell item' = steerCell item" "steer_inv s2"
    "sc_OwnerID claim' = rh_OwnerID new" "sc_Generation claim' = rh_Generation new"
    "sc_FencingToken claim' = rh_FencingToken new" "sc_RunID claim' = rh_RunID new"
    using steer_reclaim [OF h(1-4), of new token' sealIfEmpty' now'] h(5,7) assms(4) by metis
  have cell: "si_ID item' = si_ID item" "si_Status item' = QueueClaimed" "sc_ClaimToken claim' = sc_ClaimToken claim"
      "sc_ItemID claim' = si_ID item'"
    using r(3,4) h(3,4,6) by (auto simp: steerCell_def)
  have differ: "claim \<noteq> claim'" using r(6-8) h(8-10) assms(5) by auto
  have target: "si_TargetRunID x = sc_RunID c" if "x \<in> set (sq_Items s2)" "si_Status x = QueueClaimed" "si_Claim x = Some c" for x c
    using r(5) that by (fastforce simp: steer_inv_def steerTargetOK_def)
  have "\<not> steerClaimedAs claim x" if "x \<in> set (sq_Items s2)" for x
  proof
    assume "steerClaimedAs claim x"
    then have x: "si_Status x = QueueClaimed" "si_Claim x = Some claim" by (auto simp: steerClaimedAs_def)
    have "x = item'"
      using steer_held_unique [OF r(5) that r(2) x(1) cell(2)] target [OF that x] target [OF r(2) cell(2) r(3)]
        r(9) h(7) assms(4) by simp
    then show False using x(2) r(3) differ by simp
  qed
  from steer_settle_refused [OF this] r(1,6-8) cell steer_settle_ok(1) [OF r(2), of claim' now''] r(3)
  show ?thesis by (auto simp: steerClaimedAs_def)
qed

theorem steer_takeover_witness:
  "\<exists>item' claim' s2. steer_claimNext ''t2'' steers3 (demoHandle ''o2'' 2) False 13 = (s2, Some (item', claim')) \<and>
    si_ID item' = ''a'' \<and> sc_ClaimToken claim' = ''t1'' \<and> steer_apply s2 claim1 14 = Inl ErrQueueInvalidReference"
proof -
  have "''t1'' \<notin> steerTokens steers2" "rh_RunID (demoHandle ''o2'' 2) = rh_RunID (demoHandle ''o1'' 1)"
    "rh_OwnerID (demoHandle ''o2'' 2) \<noteq> rh_OwnerID (demoHandle ''o1'' 1)" "si_ID (sq_Items steers3 ! 0) = ''a''"
    by code_simp+
  then show ?thesis
    using steer_takeover [OF demo_inv(1) _ demo_steers(3), of "demoHandle ''o2'' 2" "''t2''" False 13 14] demo_fresh(3) by metis
qed

section \<open>One follow-up per terminal run\<close>

lemma find_unique:
  assumes "x \<in> set xs" "p x" "\<And>y. y \<in> set xs \<Longrightarrow> p y \<Longrightarrow> y = x"
  shows "List.find p xs = Some x"
  using assms by (metis find_None_iff find_Some_iff nth_mem option.exhaust)

lemma followUp_ids: "followUp_inv f \<Longrightarrow> x \<in> set (fq_Items f) \<Longrightarrow> y \<in> set (fq_Items f) \<Longrightarrow> fi_ID x = fi_ID y \<Longrightarrow> x = y"
  by (auto simp: followUp_inv_def cellsOK_def distinct_map comp_def dest: inj_onD)

lemma followUp_ids_nonempty: "followUp_inv f \<Longrightarrow> x \<in> set (fq_Items f) \<Longrightarrow> fi_ID x \<noteq> ''''"
  by (auto simp: followUp_inv_def cellsOK_def cellOK_def)

text \<open>
  A terminal run starts one follow-up. Asking again
  with the claim outstanding returns the same item and claim; asking again after
  the claim was applied returns nothing, however many follow-ups are pending. The
  record of claims holds 256 entries before it is pruned.
\<close>

theorem followUp_once_per_run:
  assumes "followUp_inv f" "token \<notin> followUpTokens f" "mapGet '''' (fq_TerminalClaims f) trigger = ''''"
    "followUp_claimNext token f trigger now = (f1, Some (item, claim))"
    "followUp_apply f1 claim now1 = Inr f2" "length (fq_TerminalClaims f1) \<le> terminalClaimRetention"
  shows "followUp_claimNext token' f1 trigger now' = (f1, Some (item, claim)) \<and> followUp_claimNext token' f2 trigger now' = (f2, None)"
proof -
  obtain best where b: "best < length (fq_Items f)" "fi_Status (fq_Items f ! best) = QueueAccepted"
    and c: "claim = \<lparr>fc_ItemID = fi_ID (fq_Items f ! best), fc_TriggerRunID = trigger, fc_ClaimToken = token\<rparr>"
    and i: "item = (fq_Items f ! best)\<lparr>fi_Status := QueueClaimed, fi_Claim := Some claim\<rparr>"
    and f1: "f1 = f\<lparr>fq_Items := (fq_Items f)[best := item],
       fq_TerminalClaims := mapPut trigger (fi_ID item) (fq_TerminalClaims f), fq_UpdatedAt := now\<rparr>"
    by (rule followUp_claim_state [OF assms(4,3)])
  obtain best' where "selectBest followUpAccepted fi_Position (fq_Items f) = Some best'"
    using followUp_claim_pending [OF assms(4,3)] by metis
  then have inv: "followUp_inv f1" using followUp_claimNext_new(1) [OF assms(3,1) _ assms(4,2)] by simp
  have mem: "item \<in> set (fq_Items f1)" using b(1) by (simp add: f1 set_update_memI)
  have id: "fi_ID item \<noteq> ''''" by (rule followUp_ids_nonempty [OF inv mem])
  have "List.find (followUpHeld (fi_ID item)) (fq_Items f1) = Some item"
    by (rule find_unique [OF mem]) (use followUp_ids [OF inv _ mem] i in \<open>auto simp: followUpHeld_def\<close>)
  then have again: "followUp_claimNext token' f1 trigger now' = (f1, Some (item, claim))"
    using id i by (simp add: followUp_claimNext_def f1)
  from assms(5) obtain us x vs where x: "fq_Items f1 = us @ x # vs" "followUpClaimedAs claim x"
    and f2: "f2 = followUp_compact (f1\<lparr>fq_Items := us @ x\<lparr>fi_Status := QueueApplied\<rparr> # vs, fq_UpdatedAt := now1\<rparr>)"
    by (auto simp: followUp_apply_def split: option.splits dest: extract_SomeD)
  have xi: "x = item" using followUp_ids [OF inv _ mem, of x] x c i by (simp add: followUpClaimedAs_def)
  have "\<not> followUpHeld (fi_ID item) y" if "y \<in> set (fq_Items f2)" for y
  proof -
    have "y \<in> set (us @ x\<lparr>fi_Status := QueueApplied\<rparr> # vs)"
      using that compact_subset unfolding f2 followUp_compact_items by fastforce
    moreover have "fi_ID z \<noteq> fi_ID item" if "z \<in> set us \<union> set vs" for z
      using inv that x(1) xi by (auto simp: followUp_inv_def cellsOK_def image_iff)
    ultimately show ?thesis by (auto simp: followUpHeld_def xi)
  qed
  then have "List.find (followUpHeld (fi_ID item)) (fq_Items f2) = None" by (simp add: find_None_iff)
  moreover have "fq_TerminalClaims f2 = fq_TerminalClaims f1"
    using assms(6) by (simp add: f2 followUp_compact_def Let_def)
  ultimately have "followUp_claimNext token' f2 trigger now' = (f2, None)"
    using id by (simp add: followUp_claimNext_def f1)
  with again show ?thesis by simp
qed

theorem followUp_once_per_run_witness:
  "followUp_claimNext ''u2'' (projr (followUp_apply follows3 fclaim1 13)) ''run'' 14 = (projr (followUp_apply follows3 fclaim1 13), None)"
proof -
  have "''u1'' \<notin> followUpTokens follows2" "mapGet '''' (fq_TerminalClaims follows2) ''run'' = ''''"
    "followUp_apply follows3 fclaim1 13 = Inr (projr (followUp_apply follows3 fclaim1 13))"
    "length (fq_TerminalClaims follows3) \<le> terminalClaimRetention"
    by code_simp+
  then show ?thesis using followUp_once_per_run [OF demo_inv(3) _ _ demo_follows(3)] by blast
qed

section \<open>Reordering\<close>

lemma map_insort_key: "map h (insort_key (\<lambda>x. g (h x)) x xs) = insort_key g (h x) (map h xs)"
  by (induction xs) auto

lemma map_sort_key: "map h (sort_key (\<lambda>x. g (h x)) xs) = sort_key g (map h xs)"
  by (induction xs) (simp_all add: map_insort_key)

lemma map_pendingRefs:
  "map ((!) items) (pendingRefs status position items) = sort_key position (filter (\<lambda>x. status x = QueueAccepted) items)"
proof -
  have "map ((!) items) (pendingRefs status position items) =
      sort_key position (map ((!) items) (filter (\<lambda>i. status (items ! i) = QueueAccepted) [0..<length items]))"
    unfolding pendingRefs_def by (rule map_sort_key)
  also have "map ((!) items) (filter (\<lambda>i. status (items ! i) = QueueAccepted) [0..<length items]) =
      filter (\<lambda>x. status x = QueueAccepted) (map ((!) items) [0..<length items])"
    by (simp add: filter_map comp_def)
  finally show ?thesis by (simp add: map_nth)
qed

lemma pendingIDs_sorted:
  "pendingIDs itemID status position items = map itemID (sort_key position (filter (\<lambda>x. status x = QueueAccepted) items))"
  unfolding map_pendingRefs [symmetric] pendingIDs_def by simp

lemma pending_views:
  "pendingIDs si_ID si_Status si_Position (sq_Items s) = map si_ID (pendingSteers s 0)"
  "pendingIDs fi_ID fi_Status fi_Position (fq_Items f) = map fi_ID (pendingFollowUps f 0)"
  by (simp_all add: pendingIDs_sorted pendingSteers_def pendingFollowUps_def limited_def)

lemma positions_sorted:
  "map (\<lambda>r. position (items ! r)) (pendingRefs status position items) =
     map position (sort_key position (filter (\<lambda>x. status x = QueueAccepted) items))"
  unfolding map_pendingRefs [symmetric] by simp

lemma distinct_pendingIDs: "distinct (map itemID items) \<Longrightarrow> distinct (pendingIDs itemID status position items)"
  by (simp add: pendingIDs_sorted distinct_map inj_on_def)

lemma filter_nth_cong:
  assumes "length ys = length xs" "\<And>i. i < length xs \<Longrightarrow> p (ys ! i) = p (xs ! i)" "\<And>i. i < length xs \<Longrightarrow> p (xs ! i) \<Longrightarrow> ys ! i = xs ! i"
  shows "filter p ys = filter p xs"
  using assms
proof (induction ys xs rule: list_induct2)
  case (Cons y ys x xs)
  have "p y = p x" "p x \<Longrightarrow> y = x" using Cons.prems(1,2) [of 0] by simp_all
  moreover have "filter p ys = filter p xs"
    by (rule Cons.IH) (use Cons.prems(1,2) [of "Suc _"] in simp_all)
  ultimately show ?case by auto
qed simp

context queue_item
begin

lemma reorder_error:
  assumes "reorderQueuePositions itemID status position setPosition items item before = Inl err"
  shows "err = (if item = '''' \<or> item = before then ErrQueueInvalidReference else ErrQueueNotPending)"
    "\<not> (item \<noteq> '''' \<and> item \<noteq> before \<and> item \<in> set (ids items) \<and> (before = '''' \<or> before \<in> set (ids items)))"
proof -
  show "err = (if item = '''' \<or> item = before then ErrQueueInvalidReference else ErrQueueNotPending)"
    using assms by (auto simp: reorderQueuePositions_def Let_def split: if_splits option.splits)
  show "\<not> (item \<noteq> '''' \<and> item \<noteq> before \<and> item \<in> set (ids items) \<and> (before = '''' \<or> before \<in> set (ids items)))"
    using reorder_ok_iff [of items item before] assms by auto
qed

lemma reorder_result:
  assumes "reorderQueuePositions itemID status position setPosition items item before = Inr items'" "distinct (map itemID items)"
  shows "item \<in> set (ids items) \<and> item \<noteq> before \<and> (before = '''' \<or> before \<in> set (ids items))"
    "ids items' = moveBefore item before (ids items)"
    "map position (sort_key position (filter (\<lambda>x. status x = QueueAccepted) items')) = map int [1..<Suc (length (ids items))]"
    "filter (\<lambda>x. status x \<noteq> QueueAccepted) items' = filter (\<lambda>x. status x \<noteq> QueueAccepted) items"
proof -
  note spec = reorder_spec [OF assms(1) distinct_pendingIDs [OF assms(2)]]
  show "item \<in> set (ids items) \<and> item \<noteq> before \<and> (before = '''' \<or> before \<in> set (ids items))"
    using reorder_ok_iff [of items item before] assms(1) by blast
  show "ids items' = moveBefore item before (ids items)" by (rule spec)
  show "map position (sort_key position (filter (\<lambda>x. status x = QueueAccepted) items')) = map int [1..<Suc (length (ids items))]"
    using spec(2) unfolding positions_sorted by (simp add: pendingIDs_def)
  show "filter (\<lambda>x. status x \<noteq> QueueAccepted) items' = filter (\<lambda>x. status x \<noteq> QueueAccepted) items"
    by (rule filter_nth_cong) (use spec(3-5) in auto)
qed

end

text \<open>
  Reordering moves the named pending item before the other
  one, or to the end, keeps the order of the rest, renumbers the pending items
  from 1 and leaves every other item alone. It is refused exactly when the item
  is unnamed or moved before itself, or one of the two is not pending.
\<close>

theorem steer_reorder:
  assumes "steer_inv s"
  shows "case reorderSteerState s itemRef beforeRef of
      Inl err \<Rightarrow>
        (if sp_ItemID itemRef = '''' \<or> sp_ItemID itemRef = sp_ItemID beforeRef then err = ErrQueueInvalidReference
         else err = ErrQueueNotPending \<and>
           (sp_ItemID itemRef \<notin> set (map si_ID (pendingSteers s 0)) \<or>
            sp_ItemID beforeRef \<noteq> '''' \<and> sp_ItemID beforeRef \<notin> set (map si_ID (pendingSteers s 0))))
    | Inr (s', items) \<Rightarrow>
        sp_ItemID itemRef \<in> set (map si_ID (pendingSteers s 0)) \<and>
        (sp_ItemID beforeRef = '''' \<or> sp_ItemID beforeRef \<in> set (map si_ID (pendingSteers s 0))) \<and>
        items = pendingSteers s' 0 \<and>
        map si_ID items = moveBefore (sp_ItemID itemRef) (sp_ItemID beforeRef) (map si_ID (pendingSteers s 0)) \<and>
        map si_Position items = map int [1..<Suc (length (pendingSteers s 0))] \<and>
        filter (\<lambda>x. si_Status x \<noteq> QueueAccepted) (sq_Items s') = filter (\<lambda>x. si_Status x \<noteq> QueueAccepted) (sq_Items s)"
proof (cases "reorderQueuePositions si_ID si_Status si_Position setSteerPosition (sq_Items s) (sp_ItemID itemRef) (sp_ItemID beforeRef)")
  case (Inl err)
  then show ?thesis
    using steer_view.reorder_error [OF Inl] unfolding pending_views by (auto simp: reorderSteerState_def)
next
  case (Inr items)
  have dist: "distinct (map si_ID (sq_Items s))" using assms by (simp add: steer_inv_def cellsOK_def comp_def)
  have ids: "map si_ID (pendingSteers (s\<lparr>sq_Items := items\<rparr>) 0) = pendingIDs si_ID si_Status si_Position items"
    by (subst pending_views(1) [symmetric]) simp
  have pend: "sort_key si_Position (filter (\<lambda>x. si_Status x = QueueAccepted) items) = pendingSteers (s\<lparr>sq_Items := items\<rparr>) 0"
    by (simp add: pendingSteers_def limited_def)
  note result = steer_view.reorder_result [OF Inr dist, unfolded pending_views pend ids [symmetric] length_map]
  show ?thesis
    using result(1,2,4) by (simp add: reorderSteerState_def Let_def Inr result(3) del: upt_Suc)
qed

theorem steer_reorder_witness:
  "map si_ID (pendingSteers (fst (projr (reorderSteerState steers2 \<lparr>sp_ItemID = ''b''\<rparr> \<lparr>sp_ItemID = ''a''\<rparr>))) 0) = [''b'', ''a'']"
proof -
  let ?r = "reorderSteerState steers2 \<lparr>sp_ItemID = ''b''\<rparr> \<lparr>sp_ItemID = ''a''\<rparr>"
  have "?r = Inr (fst (projr ?r), snd (projr ?r))"
    "moveBefore ''b'' ''a'' (map si_ID (pendingSteers steers2 0)) = [''b'', ''a'']" by code_simp+
  then show ?thesis
    using steer_reorder [OF demo_inv(1), of "\<lparr>sp_ItemID = ''b''\<rparr>" "\<lparr>sp_ItemID = ''a''\<rparr>"] by (auto split: sum.splits)
qed

section \<open>Compaction\<close>

text \<open>
  Compaction removes only terminal items, just as many as
  exceed 64, and always the oldest by creation time and then position; all other
  items keep their order.
\<close>

theorem steer_compaction:
  "\<exists>D. D \<subseteq> {..<length (sq_Items s)} \<and> sq_Items (steer_compact s) = nths (sq_Items s) (- D) \<and>
     card D = length (filter (\<lambda>x. QueueStatus_terminal (si_Status x)) (sq_Items s)) - 64 \<and>
     (\<forall>d\<in>D. QueueStatus_terminal (si_Status (sq_Items s ! d)) \<and>
        (\<forall>k<length (sq_Items s). k \<notin> D \<and> QueueStatus_terminal (si_Status (sq_Items s ! k)) \<longrightarrow>
           si_CreatedAt (sq_Items s ! d) < si_CreatedAt (sq_Items s ! k) \<or>
           si_CreatedAt (sq_Items s ! d) = si_CreatedAt (sq_Items s ! k) \<and>
           si_Position (sq_Items s ! d) \<le> si_Position (sq_Items s ! k)))"
proof -
  let ?D = "compactDropped describeSteer (sq_Items s)"
  have T: "terminalItem describeSteer = (\<lambda>x. QueueStatus_terminal (si_Status x))"
    by (simp add: fun_eq_iff terminalItem_def describeSteer_def)
  have oldest: "si_CreatedAt (sq_Items s ! d) < si_CreatedAt (sq_Items s ! k) \<or>
      si_CreatedAt (sq_Items s ! d) = si_CreatedAt (sq_Items s ! k) \<and> si_Position (sq_Items s ! d) \<le> si_Position (sq_Items s ! k)"
    if "d \<in> ?D" "k < length (sq_Items s)" "k \<notin> ?D" "QueueStatus_terminal (si_Status (sq_Items s ! k))" for d k
    using compactDropped_oldest [OF that(1-3)] that(4) unfolding T
    by (auto simp: describeSteer_def less_eq_prod_def)
  show ?thesis
    by (rule exI [of _ ?D], intro conjI ballI allI impI)
      (use compactDropped_terminal [of _ describeSteer "sq_Items s"] compactDropped_card [of describeSteer "sq_Items s"] oldest
        in \<open>auto simp: T steer_compact_items compactQueueItems_nths queueTerminalRetention_def\<close>)
qed

theorem steer_compaction_witness: "sq_Items (steer_compact steers4) = sq_Items steers4"
proof -
  have "length (filter (\<lambda>x. QueueStatus_terminal (si_Status x)) (sq_Items steers4)) = 1" by code_simp
  then obtain D where "D \<subseteq> {..<length (sq_Items steers4)}" "card D = 0" "sq_Items (steer_compact steers4) = nths (sq_Items steers4) (- D)"
    using steer_compaction [of steers4] by auto
  then show ?thesis by (simp add: finite_subset nths_all card_eq_0_iff)
qed

section \<open>Promotion\<close>

lemma sort_key_removeAll: "removeAll x (sort_key f xs) = sort_key f (removeAll x xs)"
  by (simp add: removeAll_filter_not_eq filter_sort)

lemma pendingFollowUps_canceled:
  assumes "fq_Items f = us @ x # vs" "fi_Status x = QueueAccepted" "distinct (fq_Items f)"
    "f' = followUp_compact (f\<lparr>fq_Items := us @ x\<lparr>fi_Status := QueueCanceled\<rparr> # vs, fq_UpdatedAt := now\<rparr>)"
  shows "pendingFollowUps f' 0 = removeAll x (pendingFollowUps f 0)"
proof -
  have "filter followUpAccepted (fq_Items f') = filter followUpAccepted (us @ x\<lparr>fi_Status := QueueCanceled\<rparr> # vs)"
    unfolding assms(4) followUp_compact_items followUpQueueState.simps
    by (simp del: filter_append, rule compact_filter_live) (simp add: terminalItem_def describeFollowUp_def)
  also have "\<dots> = removeAll x (filter followUpAccepted (us @ x # vs))"
    using assms(1-3) by (simp add: removeAll_id)
  finally show ?thesis
    using assms(1) by (simp add: pendingFollowUps_def limited_def sort_key_removeAll)
qed

text \<open>
  Promoting a follow-up takes exactly that item off the
  pending follow-ups and appends one steer with its payload to the pending
  steers, for the given run. Promoting it again, at any time before the steer is
  gone and under whatever new ID, changes nothing and returns the same steer.
\<close>

theorem promote_moves:
  assumes "followUp_inv f" "newID \<noteq> ''''" "newID \<notin> si_ID ` set (sq_Items s)"
    "\<forall>x\<in>set (sq_Items s). si_Position x < 2 ^ 63 - 1" "mapGet '''' (sq_PromotedFollowUpItems s) (fp_ItemID ref) = ''''"
    "queue_promote s f key runID ref now newID = Inr ((s', f'), result)"
  shows "(\<exists>x\<in>set (pendingFollowUps f 0). fi_ID x = fp_ItemID ref \<and> pendingFollowUps f' 0 = removeAll x (pendingFollowUps f 0) \<and>
      si_Payload (pr_Steer result) = fi_Payload x) \<and>
    pendingSteers s' 0 = pendingSteers s 0 @ [pr_Steer result] \<and> si_TargetRunID (pr_Steer result) = runID \<and>
    si_ID (pr_Steer result) = newID \<and>
    queue_promote s' f' key' runID' ref now' newID' = Inr ((s', f'), result)"
proof -
  obtain us x vs where e: "List.extract (followUpPendingAs (fp_ItemID ref)) (fq_Items f) = Some (us, x, vs)"
    using assms(5,6) by (auto simp: queue_promote_def Let_def split: option.splits)
  note x = extract_SomeD(1,2) [OF e]
  have f': "f' = followUp_compact (f\<lparr>fq_Items := us @ x\<lparr>fi_Status := QueueCanceled\<rparr> # vs, fq_UpdatedAt := now\<rparr>)"
    and s': "sq_Items s' = sq_Items s @ [pr_Steer result]"
      "sq_PromotedFollowUpItems s' = mapPut (fp_ItemID ref) newID (sq_PromotedFollowUpItems s)"
    and steer: "si_Status (pr_Steer result) = QueueAccepted" "si_ID (pr_Steer result) = newID"
      "si_Payload (pr_Steer result) = fi_Payload x" "si_TargetRunID (pr_Steer result) = runID"
      "si_Position (pr_Steer result) = nextSteerPosition s" "pr_FollowUp result = ref"
    using assms(5,6) e by (auto simp: queue_promote_def Let_def split: if_splits)
  have xs: "fi_ID x = fp_ItemID ref" "fi_Status x = QueueAccepted" using x(2) by (simp_all add: followUpPendingAs_def)
  have "distinct (fq_Items f)" using assms(1) by (auto simp: followUp_inv_def cellsOK_def distinct_map comp_def)
  from pendingFollowUps_canceled [OF x(1) xs(2) this f']
  have "\<exists>x\<in>set (pendingFollowUps f 0). fi_ID x = fp_ItemID ref \<and> pendingFollowUps f' 0 = removeAll x (pendingFollowUps f 0) \<and>
      si_Payload (pr_Steer result) = fi_Payload x"
    using xs steer(3) x(1) by (intro bexI [of _ x]) (auto simp: pendingFollowUps_def limited_def)
  moreover have "pendingSteers s' 0 = pendingSteers s 0 @ [pr_Steer result]"
  proof -
    have "\<forall>y\<in>set (filter (\<lambda>x. si_Status x = QueueAccepted) (sq_Items s)). si_Position y \<le> si_Position (pr_Steer result)"
      using next_position(1) [OF assms(4)] by (auto simp: steer(5) nextSteerPosition_def intro: less_imp_le)
    from sort_key_snoc [OF this] show ?thesis by (simp add: pendingSteers_def limited_def s'(1) steer(1))
  qed
  moreover have "queue_promote s' f' key' runID' ref now' newID' = Inr ((s', f'), result)"
  proof -
    have "List.find (\<lambda>existing. si_ID existing = newID) (sq_Items s') = Some (pr_Steer result)"
      by (rule find_unique) (use s'(1) steer(2) assms(3) in auto)
    moreover have "\<lparr>pr_FollowUp = ref, pr_Steer = pr_Steer result\<rparr> = result" using steer(6) by simp
    ultimately show ?thesis using assms(2) by (simp add: queue_promote_def s'(2))
  qed
  ultimately show ?thesis using steer by blast
qed

theorem promote_moves_witness:
  "\<exists>s' f' result. queue_promote steers2 follows2 demoKey ''run'' \<lparr>fp_ItemID = ''g''\<rparr> 13 ''n'' = Inr ((s', f'), result) \<and>
     queue_promote s' f' demoKey ''run'' \<lparr>fp_ItemID = ''g''\<rparr> 14 ''m'' = Inr ((s', f'), result)"
proof -
  let ?r = "queue_promote steers2 follows2 demoKey ''run'' \<lparr>fp_ItemID = ''g''\<rparr> 13 ''n''"
  have "?r = Inr ((fst (fst (projr ?r)), snd (fst (projr ?r))), snd (projr ?r))" "''n'' \<notin> si_ID ` set (sq_Items steers2)"
    "\<forall>x\<in>set (sq_Items steers2). si_Position x < 2 ^ 63 - 1"
    "mapGet '''' (sq_PromotedFollowUpItems steers2) (fp_ItemID \<lparr>fp_ItemID = ''g''\<rparr>) = ''''" "''n'' \<noteq> ''''"
    by code_simp+
  then show ?thesis using promote_moves [OF demo_inv(3)] by blast
qed

section \<open>Closing a run\<close>

lemma closeItem_others:
  "filter (\<lambda>x. si_TargetRunID x \<noteq> runID \<and> \<not> QueueStatus_terminal (si_Status x)) (map (closeItem runID) xs) =
     filter (\<lambda>x. si_TargetRunID x \<noteq> runID \<and> \<not> QueueStatus_terminal (si_Status x)) xs"
  by (induction xs) (auto simp: closeItem_def closeMatches_def)

text \<open>
  Closing a run leaves it no pending or claimed steer:
  each one it had is rejected with the code of an inactive target and its claim
  is gone, and a later claim request of the run finds nothing. Live steers of
  other runs stay as they are, in order.
\<close>

theorem close_settles_run:
  assumes "steer_inv s" "closeSteerRun s runID now = (s', changed)" "s'' = steer_compact s'" "rh_RunID handle = runID"
  shows "(\<forall>x\<in>set (sq_Items s''). si_TargetRunID x = runID \<longrightarrow> QueueStatus_terminal (si_Status x)) \<and>
    (\<forall>x\<in>set (sq_Items s). \<forall>y\<in>set (sq_Items s''). closeMatches runID x \<and> si_ID y = si_ID x \<longrightarrow>
       si_Status y = QueueRejected \<and> si_ErrorCode y = QueueErrorTargetRunNotActive \<and> si_Claim y = None) \<and>
    filter (\<lambda>x. si_TargetRunID x \<noteq> runID \<and> \<not> QueueStatus_terminal (si_Status x)) (sq_Items s'') =
      filter (\<lambda>x. si_TargetRunID x \<noteq> runID \<and> \<not> QueueStatus_terminal (si_Status x)) (sq_Items s) \<and>
    sq_ClosedRunID s'' = runID \<and> snd (steer_claimNext token s'' handle sealIfEmpty now') = None"
proof -
  have items: "sq_Items s'' = compactQueueItems describeSteer (map (closeItem runID) (sq_Items s))"
    and closed: "sq_ClosedRunID s'' = runID"
    using assms(2,3) by (auto simp: closeSteerRun_def Let_def steer_compact_def split: if_splits)
  have origin: "\<exists>x\<in>set (sq_Items s). y = closeItem runID x" if "y \<in> set (sq_Items s'')" for y
    using that compact_subset [of describeSteer "map (closeItem runID) (sq_Items s)"] by (auto simp: items)
  have final: "QueueStatus_terminal (si_Status y)" if "y \<in> set (sq_Items s'')" "si_TargetRunID y = runID" for y
  proof -
    from origin [OF that(1)] obtain x where "y = closeItem runID x" by blast
    then show ?thesis using that(2) by (cases "si_Status x") (simp_all add: closeItem_def closeMatches_def split: if_splits)
  qed
  have inj: "x = z" if "x \<in> set (sq_Items s)" "z \<in> set (sq_Items s)" "si_ID x = si_ID z" for x z
  proof -
    have "inj_on si_ID (set (sq_Items s))" using assms(1) by (simp add: steer_inv_def cellsOK_def distinct_map comp_def)
    then show ?thesis using that by (simp add: inj_on_def)
  qed
  have rejected: "si_Status y = QueueRejected \<and> si_ErrorCode y = QueueErrorTargetRunNotActive \<and> si_Claim y = None"
    if x: "x \<in> set (sq_Items s)" and y: "y \<in> set (sq_Items s'')" and m: "closeMatches runID x" "si_ID y = si_ID x" for x y
  proof -
    obtain z where z: "z \<in> set (sq_Items s)" "y = closeItem runID z" using origin [OF y] by blast
    moreover have "si_ID z = si_ID y" using z(2) by (simp add: closeItem_def)
    ultimately have "z = x" using inj x m(2) by simp
    then show ?thesis using z(2) m(1) by (simp add: closeItem_def)
  qed
  have "filter (\<lambda>x. si_TargetRunID x \<noteq> runID \<and> \<not> QueueStatus_terminal (si_Status x)) (sq_Items s'') =
      filter (\<lambda>x. si_TargetRunID x \<noteq> runID \<and> \<not> QueueStatus_terminal (si_Status x)) (map (closeItem runID) (sq_Items s))"
    unfolding items by (rule compact_filter_live) (simp add: terminalItem_def describeSteer_def)
  also have "\<dots> = filter (\<lambda>x. si_TargetRunID x \<noteq> runID \<and> \<not> QueueStatus_terminal (si_Status x)) (sq_Items s)"
    by (rule closeItem_others)
  finally have others: "filter (\<lambda>x. si_TargetRunID x \<noteq> runID \<and> \<not> QueueStatus_terminal (si_Status x)) (sq_Items s'') =
      filter (\<lambda>x. si_TargetRunID x \<noteq> runID \<and> \<not> QueueStatus_terminal (si_Status x)) (sq_Items s)" .
  have inv: "steer_inv s''" using steer_closeD(1) [OF assms(1,2)] assms(3) by simp
  have "\<not> steerHeldBy runID y" if "y \<in> set (sq_Items s'')" for y
    using final [OF that] inv that by (fastforce simp: steerHeldBy_def steer_inv_def steerTargetOK_def split: option.splits)
  moreover have "\<not> steerEligible runID y" if "y \<in> set (sq_Items s'')" for y
    using final [OF that] by (auto simp: steerEligible_def)
  ultimately have "snd (steer_claimNext token s'' handle sealIfEmpty now') = None"
    using selectBest_None_iff [of "steerEligible runID" si_Position "sq_Items s''"]
      extract_None [of "steerHeldBy runID" "sq_Items s''"] assms(4) by (simp add: steer_claimNext_def)
  with final rejected others closed show ?thesis by blast
qed

theorem close_settles_run_witness:
  "snd (steer_claimNext ''t2'' (steer_compact (fst (closeSteerRun steers3 ''run'' 13))) (demoHandle ''o1'' 1) False 14) = None"
  using close_settles_run [OF demo_inv(2) surjective_pairing refl, of "demoHandle ''o1'' 1" "''run''"] by (simp add: demoHandle_def)

section \<open>The bound on pending items\<close>

abbreviation queue_run :: "claim_event list \<Rightarrow> steerQueueState \<Rightarrow> bool" where
  "queue_run tr s \<equiv> ledger_run queue_step (emptySteerQueue, emptyFollowUpQueue) tr (s, emptyFollowUpQueue)"

lemma fresh_id: "\<exists>itemID. itemID \<noteq> '''' \<and> itemID \<notin> si_ID ` set (sq_Items s)"
proof -
  have "finite (insert '''' (si_ID ` set (sq_Items s)))" by simp
  then have "\<exists>itemID. itemID \<notin> insert '''' (si_ID ` set (sq_Items s))"
    by (rule ex_new_if_finite [OF infinite_UNIV_listI])
  then show ?thesis by blast
qed

text \<open>One more steer for the run \<open>''run''\<close>, while there is room.\<close>

lemma run_enqueue:
  assumes "queue_run tr s" "countPendingSteers s < MaxPendingQueueItems"
  obtains s' item where "queue_run (tr @ [Quiet]) s'" "sq_Items s' = sq_Items s @ [item]" "si_Status item = QueueAccepted"
    "si_TargetRunID item = ''run''" "countPendingSteers s' = Suc (countPendingSteers s)"
proof -
  obtain itemID where fresh: "itemID \<noteq> ''''" "itemID \<notin> si_ID ` set (sq_Items s)" using fresh_id by blast
  obtain s' item where e: "steer_enqueue s demoKey itemID '''' ''run'' '''' 0 = Inr (s', item)"
    using assms(2) by (auto simp: steer_enqueue_def Let_def)
  have "queue_run (tr @ [Quiet]) s'"
    by (rule run_snoc [OF assms(1)], rule enqueueSteer [OF e fresh]) (simp add: freshEvent_def)
  moreover have "sq_Items s' = sq_Items s @ [item]" "si_Status item = QueueAccepted" "si_TargetRunID item = ''run''"
    using e by (auto simp: steer_enqueue_def Let_def split: if_splits)
  ultimately show ?thesis using that by (simp add: countPendingSteers_def)
qed

lemma run_fill:
  "n \<le> MaxPendingQueueItems \<Longrightarrow> \<exists>s. queue_run (replicate n Quiet) s \<and> countPendingSteers s = n \<and> length (sq_Items s) = n \<and>
     (\<forall>x\<in>set (sq_Items s). si_Status x = QueueAccepted \<and> si_TargetRunID x = ''run'')"
proof (induction n)
  case 0
  have "queue_run [] emptySteerQueue" by (rule run_nil)
  then show ?case by (auto simp: countPendingSteers_def emptySteerQueue_def)
next
  case (Suc n)
  then obtain s where s: "queue_run (replicate n Quiet) s" "countPendingSteers s = n" "length (sq_Items s) = n"
    "\<forall>x\<in>set (sq_Items s). si_Status x = QueueAccepted \<and> si_TargetRunID x = ''run''" by auto
  from run_enqueue [OF s(1)] s(2) Suc.prems obtain s' item where "queue_run (replicate n Quiet @ [Quiet]) s'"
    "sq_Items s' = sq_Items s @ [item]" "si_Status item = QueueAccepted" "si_TargetRunID item = ''run''"
    "countPendingSteers s' = Suc (countPendingSteers s)" by (metis Suc_le_eq)
  then show ?case using s(2-4) by (intro exI [of _ s']) (simp add: replicate_append_same)
qed

lemma count_update:
  "b < length (sq_Items s) \<Longrightarrow> countPendingSteers (s\<lparr>sq_Items := (sq_Items s)[b := y], sq_UpdatedAt := now\<rparr>) +
     (if si_Status (sq_Items s ! b) = QueueAccepted then 1 else 0) = countPendingSteers s + (if si_Status y = QueueAccepted then 1 else 0)"
  unfolding countPendingSteers_def
  by (subst (3) id_take_nth_drop [of b "sq_Items s"]) (simp_all add: upd_conv_take_nth_drop)

lemma steer_release_count:
  assumes "steer_release s ref now = Inr s'"
  shows "countPendingSteers s' = Suc (countPendingSteers s)"
proof -
  from assms obtain us x vs where "sq_Items s = us @ x # vs" "steerClaimedAs ref x"
    and "s' = s\<lparr>sq_Items := us @ x\<lparr>si_Status := QueueAccepted, si_Claim := None\<rparr> # vs, sq_UpdatedAt := now\<rparr>"
    by (auto simp: steer_release_def split: option.splits dest: extract_SomeD)
  then show ?thesis by (simp add: countPendingSteers_def steerClaimedAs_def)
qed

text \<open>
  The bound of 64 pending items is a bound on
  enqueueing only. From an empty session one can reach a queue with 64 pending
  steers and one claimed, and releasing that claim gives 65 pending steers.
\<close>

theorem release_over_capacity:
  "\<exists>tr s ref s'. ledger_run queue_step (emptySteerQueue, emptyFollowUpQueue) tr (s, emptyFollowUpQueue) \<and>
     countPendingSteers s = MaxPendingQueueItems \<and> steer_release s ref now = Inr s' \<and>
     countPendingSteers s' = MaxPendingQueueItems + 1"
proof -
  let ?h = "demoHandle ''o1'' 1"
  have run: "rh_RunID ?h = ''run''" by (simp add: demoHandle_def)
  obtain s where s: "queue_run (replicate MaxPendingQueueItems Quiet) s" "countPendingSteers s = MaxPendingQueueItems"
    "length (sq_Items s) = MaxPendingQueueItems" "\<forall>x\<in>set (sq_Items s). si_Status x = QueueAccepted \<and> si_TargetRunID x = ''run''"
    using run_fill by blast
  have free: "\<not> (\<exists>x\<in>set (sq_Items s). steerHeldBy (rh_RunID ?h) x)" using s(4) by (auto simp: steerHeldBy_def)
  have "\<exists>x\<in>set (sq_Items s). steerEligible ''run'' x"
    using s(3,4) by (cases "sq_Items s") (auto simp: steerEligible_def MaxPendingQueueItems_def)
  then have "selectBest (steerEligible ''run'') si_Position (sq_Items s) \<noteq> None" by (auto simp: selectBest_None_iff)
  moreover have "List.extract (steerHeldBy ''run'') (sq_Items s) = None" using free by (simp add: extract_None run)
  ultimately obtain s1 item claim where c: "steer_claimNext ''t1'' s ?h False 11 = (s1, Some (item, claim))"
    by (auto simp: steer_claimNext_def run Let_def)
  have inv: "steer_inv s" using queues.run_inv [OF s(1) empty_queues(3,4)] by (simp add: queues_inv_def)
  obtain best where b: "best < length (sq_Items s)" "si_Status (sq_Items s ! best) = QueueAccepted"
    "item = (sq_Items s ! best)\<lparr>si_Status := QueueClaimed, si_Claim := Some claim\<rparr>"
    "sc_ItemID claim = si_ID (sq_Items s ! best)" "s1 = s\<lparr>sq_Items := (sq_Items s)[best := item], sq_UpdatedAt := 11\<rparr>"
    by (rule steer_claim_state [OF c free]) auto
  have r1: "queue_run (replicate MaxPendingQueueItems Quiet @ [Issue ''t1'']) s1"
    by (rule run_snoc [OF s(1)], rule claimSteerNew [OF c free]) (simp add: freshEvent_def issued_def)
  have "Suc (countPendingSteers s1) = MaxPendingQueueItems"
    using count_update [OF b(1), where y = item and now = 11] s(2) b by simp
  then obtain s2 new where s2: "queue_run ((replicate MaxPendingQueueItems Quiet @ [Issue ''t1'']) @ [Quiet]) s2"
    "sq_Items s2 = sq_Items s1 @ [new]" "countPendingSteers s2 = MaxPendingQueueItems"
    using run_enqueue [OF r1] by (metis lessI)
  have "item \<in> set (sq_Items s2)" "steerClaimedAs claim item"
    using b by (auto simp: s2(2) set_update_memI steerClaimedAs_def)
  then obtain s' where "steer_release s2 claim now = Inr s'" using steer_settle_ok(2) by blast
  with s2 steer_release_count show ?thesis by (metis Suc_eq_plus1)
qed

end
