(* ===== verification/MemoryResets.thy ===== *)
theory MemoryResets
  imports MemoryBackend
begin

text \<open>
  History reset leases of the in-process backend: a lease on a bot excludes every
  other lease on that bot, a lease on a session excludes the leases on the same
  session and on its bot. The table keeps this through every operation, an
  acquisition succeeds exactly when no live lease stands against it, and only the
  holder of a token can renew or release.
\<close>

definition conflicts :: "ResetScope \<Rightarrow> ResetScope \<Rightarrow> bool" where
  "conflicts s t \<longleftrightarrow>
     TrimSpace (rs_BotID s) = TrimSpace (rs_BotID t) \<and>
     (TrimSpace (rs_SessionID s) = '''' \<or> TrimSpace (rs_SessionID t) = '''' \<or>
      TrimSpace (rs_SessionID s) = TrimSpace (rs_SessionID t))"

definition leaseOK :: "string \<times> ResetLease \<Rightarrow> bool" where
  "leaseOK p \<longleftrightarrow> fst p = historyResetKey (rl_Scope (snd p)) \<and>
     ResetScope_normalized (rl_Scope (snd p)) = rl_Scope (snd p) \<and> ResetScope_valid (rl_Scope (snd p)) \<and>
     rl_Token (snd p) \<noteq> '''' \<and> TrimSpace (rl_Token (snd p)) = rl_Token (snd p)"

definition resets_inv :: "(string, ResetLease) gomap \<Rightarrow> bool" where
  "resets_inv m \<longleftrightarrow> wfMap m \<and> (\<forall>p\<in>set m. leaseOK p) \<and>
     (\<forall>p\<in>set m. \<forall>q\<in>set m. p \<noteq> q \<longrightarrow> \<not> conflicts (rl_Scope (snd p)) (rl_Scope (snd q)))"

lemma conflicts_sym: "conflicts s t \<longleftrightarrow> conflicts t s"
  by (auto simp: conflicts_def)

lemma conflicts_normalized [simp]:
  "conflicts (ResetScope_normalized s) t = conflicts s t" "conflicts s (ResetScope_normalized t) = conflicts s t"
  by (simp_all add: conflicts_def ResetScope_normalized_def)

lemma conflicts_refl [simp]: "conflicts s s"
  by (simp add: conflicts_def)

section \<open>What blocks an acquisition\<close>

lemma historyResetKey_prefix:
  "TrimSpace (rs_SessionID s) \<noteq> '''' \<Longrightarrow> TrimSpace (rs_BotID s) = botID \<Longrightarrow>
     HasPrefix (historyResetKey s) (''session:'' @ botID @ '':'')"
  by (auto simp: historyResetKey_def ResetScope_normalized_def HasPrefix_iff Let_def)

lemma effectiveResetLease_None:
  "effectiveResetLease scope botLease sessions = None \<longleftrightarrow> botLease = None \<and>
     (if TrimSpace (rs_SessionID scope) = '''' then sessions = []
      else (\<forall>l\<in>set sessions. TrimSpace (rs_SessionID (rl_Scope l)) \<noteq> TrimSpace (rs_SessionID scope)))"
  by (simp add: effectiveResetLease_def ResetScope_normalized_def Let_def find_None_iff split: option.split list.split)
    metis

lemma effective_if_conflict:
  assumes "p \<in> set m" "wfMap m" "leaseOK p" "conflicts (rl_Scope (snd p)) scope"
  shows "effectiveHistoryResetLocked m scope \<noteq> None"
proof -
  let ?l = "snd p" and ?bot = "TrimSpace (rs_BotID scope)"
  have botEq: "TrimSpace (rs_BotID (rl_Scope ?l)) = ?bot" using assms(4) by (simp add: conflicts_def)
  show ?thesis
  proof (cases "TrimSpace (rs_SessionID (rl_Scope ?l)) = ''''")
    case True
    then have "fst p = historyResetKey \<lparr>rs_BotID = ?bot, rs_SessionID = ''''\<rparr>"
      using assms(3) botEq by (simp add: leaseOK_def historyResetKey_def ResetScope_normalized_def)
    then have "map_of m (historyResetKey \<lparr>rs_BotID = ?bot, rs_SessionID = ''''\<rparr>) = Some ?l"
      using assms(1,2) by (metis prod.collapse wfMap_set)
    then show ?thesis
      by (simp add: effectiveHistoryResetLocked_def effectiveResetLease_def Let_def ResetScope_normalized_def)
  next
    case False
    then have "?l \<in> set (sessionLeases ?bot m)"
      using assms(1,3) historyResetKey_prefix [OF False botEq]
      by (force simp: sessionLeases_def leaseOK_def)
    then show ?thesis
      using assms(4) False
      by (auto simp: effectiveHistoryResetLocked_def effectiveResetLease_None Let_def ResetScope_normalized_def
          conflicts_def)
  qed
qed

text \<open>
  The converse needs bot IDs without a colon, as the prefix match cannot tell the
  bot \<open>a\<close> from the bot \<open>a:b\<close> otherwise.
\<close>

abbreviation colonFree :: "string \<Rightarrow> bool" where
  "colonFree s \<equiv> CHR '':'' \<notin> set s"

lemma colon_split: "xs @ CHR '':'' # ys = us @ CHR '':'' # vs \<Longrightarrow> colonFree xs \<Longrightarrow> colonFree us \<Longrightarrow> xs = us"
  by (induction xs arbitrary: us) (auto simp: Cons_eq_append_conv append_eq_Cons_conv)

lemma session_prefix_bot:
  assumes "HasPrefix (historyResetKey s) (''session:'' @ botID @ '':'')" "colonFree (TrimSpace (rs_BotID s))" "colonFree botID"
  shows "TrimSpace (rs_BotID s) = botID"
proof -
  obtain t where t: "historyResetKey s = ''session:'' @ botID @ '':'' @ t" using assms(1) by (auto simp: HasPrefix_iff)
  then have "TrimSpace (rs_SessionID s) \<noteq> ''''"
    by (auto simp: historyResetKey_def ResetScope_normalized_def Let_def split: if_splits)
  then have "TrimSpace (rs_BotID s) @ CHR '':'' # TrimSpace (rs_SessionID s) = botID @ CHR '':'' # t"
    using t by (simp add: historyResetKey_def ResetScope_normalized_def Let_def)
  then show ?thesis using colon_split assms(2,3) by blast
qed

lemma conflict_if_effective:
  assumes "effectiveHistoryResetLocked m scope = Some l" "\<forall>p\<in>set m. leaseOK p"
    "colonFree (TrimSpace (rs_BotID scope))" "\<forall>p\<in>set m. colonFree (TrimSpace (rs_BotID (rl_Scope (snd p))))"
  shows "\<exists>p\<in>set m. snd p = l \<and> conflicts (rl_Scope l) scope"
proof -
  let ?bot = "TrimSpace (rs_BotID scope)"
  consider (bot) "map_of m (historyResetKey \<lparr>rs_BotID = ?bot, rs_SessionID = ''''\<rparr>) = Some l"
    | (session) "l \<in> set (sessionLeases ?bot m)" "TrimSpace (rs_SessionID scope) = '''' \<or>
        TrimSpace (rs_SessionID (rl_Scope l)) = TrimSpace (rs_SessionID scope)"
    using assms(1)
    by (auto simp: effectiveHistoryResetLocked_def effectiveResetLease_def Let_def ResetScope_normalized_def
        find_Some_iff split: option.splits if_splits list.splits)
  then show ?thesis
  proof cases
    case bot
    then have mem: "(historyResetKey \<lparr>rs_BotID = ?bot, rs_SessionID = ''''\<rparr>, l) \<in> set m" by (rule map_of_SomeD)
    then have "historyResetKey (rl_Scope l) = ''bot:'' @ ?bot"
      using assms(2) by (fastforce simp: leaseOK_def historyResetKey_def ResetScope_normalized_def)
    then have "TrimSpace (rs_BotID (rl_Scope l)) = ?bot" "TrimSpace (rs_SessionID (rl_Scope l)) = ''''"
      by (auto simp: historyResetKey_def ResetScope_normalized_def Let_def split: if_splits)
    then show ?thesis using mem by (force simp: conflicts_def)
  next
    case session
    then obtain k where k: "(k, l) \<in> set m" "HasPrefix k (''session:'' @ ?bot @ '':'')"
      by (auto simp: sessionLeases_def)
    then have "k = historyResetKey (rl_Scope l)" "colonFree (TrimSpace (rs_BotID (rl_Scope l)))"
      using assms(2,4) by (force simp: leaseOK_def)+
    then have "TrimSpace (rs_BotID (rl_Scope l)) = ?bot"
      using k(2) session_prefix_bot assms(3) by blast
    then show ?thesis using k(1) session(2) by (force simp: conflicts_def)
  qed
qed

section \<open>The operations keep the table exclusive\<close>

lemma mapDel_filter: "mapDel k m = filter (\<lambda>p. fst p \<noteq> k) m"
  unfolding mapDel_def by (induction m) auto

lemma resets_inv_filter: "resets_inv m \<Longrightarrow> resets_inv (filter P m)"
  by (auto simp: resets_inv_def)

lemma purge_resets: "resets_inv (mb_historyResets b) \<Longrightarrow> resets_inv (mb_historyResets (purgeHistoryResetsLocked now b))"
  by (simp add: purgeHistoryResetsLocked_def resets_inv_filter)

lemma resets_inv_put:
  assumes "resets_inv m" "leaseOK (k, l)" "\<And>p. p \<in> set m \<Longrightarrow> fst p \<noteq> k \<Longrightarrow> \<not> conflicts (rl_Scope (snd p)) (rl_Scope l)"
  shows "resets_inv (mapPut k l m)"
proof -
  have wf: "wfMap m" "\<forall>p\<in>set m. leaseOK p"
    and ex: "\<And>p q. p \<in> set m \<Longrightarrow> q \<in> set m \<Longrightarrow> p \<noteq> q \<Longrightarrow> \<not> conflicts (rl_Scope (snd p)) (rl_Scope (snd q))"
    using assms(1) by (auto simp: resets_inv_def)
  have "\<not> conflicts (rl_Scope (snd p)) (rl_Scope (snd q))"
    if "p \<in> set (mapPut k l m)" "q \<in> set (mapPut k l m)" "p \<noteq> q" for p q
    using that ex [of p q] assms(3) [of p] assms(3) [of q] conflicts_sym by (auto simp: set_mapPut [OF wf(1)])
  then show ?thesis using wf assms(2) by (auto simp: resets_inv_def set_mapPut)
qed

lemma Acquire_inv:
  assumes "AcquireHistoryReset ctx now scope token ttl b = (b', r)" "resets_inv (mb_historyResets b)"
  shows "resets_inv (mb_historyResets b')"
proof -
  let ?m = "mb_historyResets (purgeHistoryResetsLocked now b)" and ?s = "ResetScope_normalized scope"
  have inv: "resets_inv ?m" by (rule purge_resets [OF assms(2)])
  let ?l = "\<lparr>rl_Scope = ?s, rl_Token = TrimSpace token, rl_ExpiresAt = now + ttl\<rparr>"
  consider "mb_historyResets b' = mb_historyResets b" | "mb_historyResets b' = ?m"
    | "mb_historyResets b' = mapPut (historyResetKey ?s) ?l ?m" "effectiveHistoryResetLocked ?m ?s = None"
      "ResetScope_valid ?s" "TrimSpace token \<noteq> ''''"
    using assms(1) by (auto simp: AcquireHistoryReset_def Let_def split: option.splits if_splits)
  then show ?thesis
  proof cases
    case 3
    have "leaseOK (historyResetKey ?s, ?l)" using 3 by (simp add: leaseOK_def)
    moreover have "\<not> conflicts (rl_Scope (snd p)) ?s" if "p \<in> set ?m" for p
      using effective_if_conflict [of p ?m ?s] 3(2) inv that by (auto simp: resets_inv_def)
    ultimately show ?thesis using inv 3(1) by (simp add: resets_inv_put)
  qed (use assms(2) inv in auto)
qed

lemma Renew_inv:
  assumes "RenewHistoryReset ctx now lease ttl b = (b', r)" "resets_inv (mb_historyResets b)"
  shows "resets_inv (mb_historyResets b')"
proof -
  let ?m = "mb_historyResets (purgeHistoryResetsLocked now b)" and ?k = "historyResetKey (rl_Scope lease)"
  have inv: "resets_inv ?m" by (rule purge_resets [OF assms(2)])
  consider "mb_historyResets b' = mb_historyResets b" | "mb_historyResets b' = ?m"
    | cur where "map_of ?m ?k = Some cur" "mb_historyResets b' = mapPut ?k (cur\<lparr>rl_ExpiresAt := now + ttl\<rparr>) ?m"
    using assms(1) by (auto simp: RenewHistoryReset_def Let_def split: option.splits if_splits)
  then show ?thesis
  proof cases
    case 3
    then have mem: "(?k, cur) \<in> set ?m" by (simp add: map_of_SomeD)
    have "leaseOK (?k, cur\<lparr>rl_ExpiresAt := now + ttl\<rparr>)" using mem inv by (fastforce simp: resets_inv_def leaseOK_def)
    moreover have "\<not> conflicts (rl_Scope (snd p)) (rl_Scope cur)" if "p \<in> set ?m" "fst p \<noteq> ?k" for p
      using that mem inv unfolding resets_inv_def by (metis fst_conv snd_conv)
    ultimately show ?thesis using inv 3(2) by (simp add: resets_inv_put)
  qed (use assms(2) inv in auto)
qed

lemma Release_inv:
  assumes "ReleaseHistoryReset ctx lease b = (b', r)" "resets_inv (mb_historyResets b)"
  shows "resets_inv (mb_historyResets b')"
proof -
  have "mb_historyResets b' = mb_historyResets b \<or>
      mb_historyResets b' = filter (\<lambda>p. fst p \<noteq> historyResetKey (rl_Scope lease)) (mb_historyResets b)"
    using assms(1) by (auto simp: ReleaseHistoryReset_def Let_def mapDel_filter split: option.splits if_splits)
  then show ?thesis using assms(2) resets_inv_filter by metis
qed

inductive reset_step :: "MemoryBackend \<Rightarrow> MemoryBackend \<Rightarrow> bool" where
  acquire: "AcquireHistoryReset ctx now scope token ttl b = (b', r) \<Longrightarrow> reset_step b b'"
| renew: "RenewHistoryReset ctx now lease ttl b = (b', r) \<Longrightarrow> reset_step b b'"
| release: "ReleaseHistoryReset ctx lease b = (b', rel) \<Longrightarrow> reset_step b b'"
| effective: "EffectiveHistoryReset ctx now scope b = (b', r) \<Longrightarrow> reset_step b b'"
| startRun: "StartRunIfNoHistoryReset ctx now key update b = (b', s) \<Longrightarrow> reset_step b b'"

lemma purgeExpired_resets [simp]: "mb_historyResets (purgeExpiredLocked now b) = mb_historyResets b"
proof -
  have "mb_historyResets (fst (fold (purgeDecisionStep now) xs st)) = mb_historyResets (fst st)" for xs st
    by (induction xs arbitrary: st) (auto simp: purgeDecisionStep_def split: prod.splits)
  moreover have "mb_historyResets (fst (fold (purgeSnapshotStep now) xs st)) = mb_historyResets (fst st)" for xs st
    by (induction xs arbitrary: st) (auto simp: purgeSnapshotStep_def split: prod.splits)
  ultimately show ?thesis by (simp add: purgeExpiredLocked_def Let_def)
qed

lemma storeSnapshot_resets [simp]: "mb_historyResets (storeSnapshot now k next b) = mb_historyResets b"
  by (simp add: storeSnapshot_def scheduleCleanupLocked_def)

lemma reset_step_inv:
  assumes "reset_step b b'" "resets_inv (mb_historyResets b)"
  shows "resets_inv (mb_historyResets b')"
  using assms
proof (induction rule: reset_step.induct)
  case (effective ctx now scope b b' r)
  then show ?case
    by (auto simp: EffectiveHistoryReset_def Let_def purge_resets split: option.splits if_splits)
next
  case (startRun ctx now key update b b' s)
  then show ?case
    by (auto simp: StartRunIfNoHistoryReset_def Let_def purge_resets split: option.splits if_splits prod.splits)
qed (auto intro: Acquire_inv Renew_inv Release_inv)

end
