(* ===== verification/MemorySubs.thy ===== *)
theory MemorySubs
  imports MemoryBackend
begin

text \<open>
  Event subscriptions of the in-process backend. The invariant of the subscriber
  set is that the registered channels are distinct, open and within their buffer;
  under it no operation panics, and a publication reaches every subscriber of its
  session either as the event or as the marker of a dropped event.
\<close>

section \<open>The invariant\<close>

definition subEntry :: "subscriberSet \<Rightarrow> string \<Rightarrow> int \<Rightarrow> subscriberEntry option" where
  "subEntry s key subID = (case map_of (ss_subs s) key of None \<Rightarrow> None | Some m \<Rightarrow> map_of m subID)"

definition chanOK :: "Event chan \<Rightarrow> bool" where
  "chanOK c \<longleftrightarrow> ch_cap c = 64 \<and> length (ch_buf c) \<le> 64"

definition subs_inv :: "subscriberSet \<Rightarrow> bool" where
  "subs_inv s \<longleftrightarrow> 0 \<le> ss_nextID s \<and> wfMap (ss_subs s) \<and> (\<forall>(key, m)\<in>set (ss_subs s). wfMap m) \<and>
     (\<forall>c\<in>set (ss_chans s). chanOK c) \<and>
     (\<forall>key subID e. subEntry s key subID = Some e \<longrightarrow>
        subID \<le> ss_nextID s \<and> en_ch e < length (ss_chans s) \<and> \<not> ch_closed (ss_chans s ! en_ch e)) \<and>
     (\<forall>key subID e key' subID' e'. subEntry s key subID = Some e \<longrightarrow> subEntry s key' subID' = Some e' \<longrightarrow>
        en_ch e = en_ch e' \<longrightarrow> key = key' \<and> subID = subID')"

lemma subs_invD:
  assumes "subs_inv s"
  shows "0 \<le> ss_nextID s" "wfMap (ss_subs s)" "\<And>key m. map_of (ss_subs s) key = Some m \<Longrightarrow> wfMap m"
    "\<And>c. c \<in> set (ss_chans s) \<Longrightarrow> chanOK c"
    "\<And>key subID e. subEntry s key subID = Some e \<Longrightarrow>
        subID \<le> ss_nextID s \<and> en_ch e < length (ss_chans s) \<and> \<not> ch_closed (ss_chans s ! en_ch e)"
    "\<And>key subID e key' subID' e'. subEntry s key subID = Some e \<Longrightarrow> subEntry s key' subID' = Some e' \<Longrightarrow>
        en_ch e = en_ch e' \<Longrightarrow> key = key' \<and> subID = subID'"
  using assms by (auto simp: subs_inv_def dest: map_of_SomeD; blast)+

lemma subs_invI:
  assumes "0 \<le> ss_nextID s" "wfMap (ss_subs s)" "\<And>key m. map_of (ss_subs s) key = Some m \<Longrightarrow> wfMap m"
    "\<And>c. c \<in> set (ss_chans s) \<Longrightarrow> chanOK c"
    "\<And>key subID e. subEntry s key subID = Some e \<Longrightarrow>
        subID \<le> ss_nextID s \<and> en_ch e < length (ss_chans s) \<and> \<not> ch_closed (ss_chans s ! en_ch e)"
    "\<And>key subID e key' subID' e'. subEntry s key subID = Some e \<Longrightarrow> subEntry s key' subID' = Some e' \<Longrightarrow>
        en_ch e = en_ch e' \<Longrightarrow> key = key' \<and> subID = subID'"
  shows "subs_inv s"
  unfolding subs_inv_def using assms by (fastforce simp: wfMap_set)

lemma newSubscriberSet_inv: "subs_inv newSubscriberSet"
  by (rule subs_invI) (simp_all add: newSubscriberSet_def subEntry_def)

section \<open>Registration\<close>

lemma register_inv:
  assumes "subs_inv s" "subs_register s key = (s', subID, ch)" "ss_nextID s < 2 ^ 63 - 1"
  shows "subs_inv s'" "ch = length (ss_chans s)" "subEntry s' key subID = Some \<lparr>en_ch = ch, en_stop = False\<rparr>"
    "\<And>k i. (k, i) \<noteq> (key, subID) \<Longrightarrow> subEntry s' k i = subEntry s k i"
proof -
  note D = subs_invD [OF assms(1)]
  have w: "wrap64 (ss_nextID s + 1) = ss_nextID s + 1" using D(1) assms(3) by (simp add: wrap64_id)
  have s': "s' = s\<lparr>ss_nextID := ss_nextID s + 1,
      ss_subs := mapPut key (mapPut (ss_nextID s + 1) \<lparr>en_ch = ch, en_stop = False\<rparr> (mapGet [] (ss_subs s) key)) (ss_subs s),
      ss_chans := ss_chans s @ [makeChan 64]\<rparr>"
    and ids: "subID = ss_nextID s + 1" and ch: "ch = length (ss_chans s)"
    using assms(2) by (auto simp: subs_register_def Let_def w)
  show "ch = length (ss_chans s)" by (rule ch)
  have entry: "subEntry s' k i = (if (k, i) = (key, subID) then Some \<lparr>en_ch = ch, en_stop = False\<rparr> else subEntry s k i)" for k i
    by (simp add: s' ids subEntry_def mapGet_def split: option.split)
  then show "subEntry s' key subID = Some \<lparr>en_ch = ch, en_stop = False\<rparr>"
    "\<And>k i. (k, i) \<noteq> (key, subID) \<Longrightarrow> subEntry s' k i = subEntry s k i" by auto
  show "subs_inv s'"
  proof (rule subs_invI)
    fix k i e assume "subEntry s' k i = Some e"
    then show "i \<le> ss_nextID s' \<and> en_ch e < length (ss_chans s') \<and> \<not> ch_closed (ss_chans s' ! en_ch e)"
      using D(5) [of k i e] unfolding entry by (auto simp: s' ids ch nth_append makeChan_def split: if_splits)
  next
    fix k i e k' i' e' assume "subEntry s' k i = Some e" "subEntry s' k' i' = Some e'" "en_ch e = en_ch e'"
    then show "k = k' \<and> i = i'"
      using D(5) [of k i e] D(5) [of k' i' e'] D(6) [of k i e k' i' e']
      by (cases "(k, i) = (key, subID)"; cases "(k', i') = (key, subID)") (simp_all only: entry ch if_True if_False, auto)
  next
    fix k m assume "map_of (ss_subs s') k = Some m"
    then show "wfMap m" using D(3) by (auto simp: s' mapGet_def split: if_splits option.splits)
  qed (use D(1,2,4) in \<open>auto simp: s' chanOK_def makeChan_def\<close>)
qed

lemma setContextWatch_inv:
  assumes "subs_inv s" "subs_setContextWatch s key subID = (s', ok)"
  shows "subs_inv s'" "ss_chans s' = ss_chans s"
    "map_option en_ch (subEntry s' k i) = map_option en_ch (subEntry s k i)"
proof -
  note D = subs_invD [OF assms(1)]
  have entry: "map_option en_ch (subEntry s' k i) = map_option en_ch (subEntry s k i)" for k i
    using assms(2)
    by (auto simp: subs_setContextWatch_def subEntry_def Let_def mapGet_def split: option.splits if_splits)
  then show "map_option en_ch (subEntry s' k i) = map_option en_ch (subEntry s k i)" .
  have old: "\<exists>e0. subEntry s k i = Some e0 \<and> en_ch e0 = en_ch e" if "subEntry s' k i = Some e" for k i e
    using entry [of k i] that by (cases "subEntry s k i") auto
  have same: "ss_chans s' = ss_chans s" "ss_nextID s' = ss_nextID s"
    using assms(2) by (auto simp: subs_setContextWatch_def Let_def split: option.splits)
  show "ss_chans s' = ss_chans s" by (rule same)
  show "subs_inv s'"
  proof (rule subs_invI)
    fix k i e assume "subEntry s' k i = Some e"
    with old obtain e0 where "subEntry s k i = Some e0" "en_ch e0 = en_ch e" by blast
    then show "i \<le> ss_nextID s' \<and> en_ch e < length (ss_chans s') \<and> \<not> ch_closed (ss_chans s' ! en_ch e)"
      using D(5) [of k i e0] by (simp add: same)
  next
    fix k i e k' i' e' assume *: "subEntry s' k i = Some e" "subEntry s' k' i' = Some e'" "en_ch e = en_ch e'"
    from old [OF *(1)] obtain e0 where e0: "subEntry s k i = Some e0" "en_ch e0 = en_ch e" by blast
    from old [OF *(2)] obtain e1 where e1: "subEntry s k' i' = Some e1" "en_ch e1 = en_ch e'" by blast
    show "k = k' \<and> i = i'" by (rule D(6) [OF e0(1) e1(1)]) (simp add: e0(2) e1(2) *(3))
  next
    fix k m assume "map_of (ss_subs s') k = Some m"
    then show "wfMap m"
      using D(3) assms(2) by (auto simp: subs_setContextWatch_def Let_def mapGet_def split: option.splits if_splits)
  next
    show "wfMap (ss_subs s')"
      using D(2) assms(2) by (auto simp: subs_setContextWatch_def Let_def split: option.splits)
  qed (use D(1,4) same in auto)
qed

section \<open>Closing\<close>

lemma closeAt_open:
  "ch < length chans \<Longrightarrow> \<not> ch_closed (chans ! ch) \<Longrightarrow> closeAt ch chans = Some (chans[ch := (chans ! ch)\<lparr>ch_closed := True\<rparr>])"
  by (simp add: closeAt_def closeChan_def)

text \<open>A set that lost entries and closed only their channels is still well formed.\<close>

lemma subs_inv_shrink:
  assumes "subs_inv s" "wfMap (ss_subs s')" "\<And>k m. map_of (ss_subs s') k = Some m \<Longrightarrow> wfMap m"
    and "ss_nextID s' = ss_nextID s" "length (ss_chans s') = length (ss_chans s)" "\<And>c. c \<in> set (ss_chans s') \<Longrightarrow> chanOK c"
    and "\<And>k i e. subEntry s' k i = Some e \<Longrightarrow> subEntry s k i = Some e \<and>
      ch_closed (ss_chans s' ! en_ch e) = ch_closed (ss_chans s ! en_ch e)"
  shows "subs_inv s'"
proof (rule subs_invI)
  fix k i e assume "subEntry s' k i = Some e"
  then show "i \<le> ss_nextID s' \<and> en_ch e < length (ss_chans s') \<and> \<not> ch_closed (ss_chans s' ! en_ch e)"
    using assms(7) [of k i e] subs_invD(5) [OF assms(1), of k i e] by (simp add: assms(4,5))
next
  fix k i e k' i' e' assume "subEntry s' k i = Some e" "subEntry s' k' i' = Some e'" "en_ch e = en_ch e'"
  then show "k = k' \<and> i = i'"
    using assms(7) [of k i e] assms(7) [of k' i' e'] subs_invD(6) [OF assms(1), of k i e k' i' e'] by blast
qed (use assms(2-6) subs_invD(1) [OF assms(1)] in auto)

lemma unregister_ok:
  assumes "subs_inv s"
  shows "\<exists>s'. subs_unregister s key subID = Some s' \<and> subs_inv s' \<and> subEntry s' key subID = None \<and>
    (\<forall>e. subEntry s key subID = Some e \<longrightarrow> ch_closed (ss_chans s' ! en_ch e)) \<and>
    (\<forall>k i. (k, i) \<noteq> (key, subID) \<longrightarrow> subEntry s' k i = subEntry s k i)"
proof (cases "subEntry s key subID")
  case None
  note D = subs_invD [OF assms]
  show ?thesis
  proof (cases "map_of (ss_subs s) key")
    case None': None
    then show ?thesis using assms None by (simp add: subs_unregister_def)
  next
    case (Some m)
    then have m: "map_of m subID = None" using None by (simp add: subEntry_def)
    define s' where "s' = s\<lparr>ss_subs := (if m = [] then mapDel key (ss_subs s) else mapPut key m (ss_subs s)), ss_chans := ss_chans s\<rparr>"
    have run: "subs_unregister s key subID = Some s'" using Some m by (simp add: subs_unregister_def s'_def)
    have entry: "subEntry s' k i = subEntry s k i" for k i
      using Some by (auto simp: s'_def subEntry_def)
    have "subs_inv s'"
      by (rule subs_inv_shrink [OF assms]) (use D(2-4) Some entry in \<open>auto simp: s'_def split: if_splits\<close>)
    then show ?thesis using run entry None by auto
  qed
next
  case (Some e)
  note D = subs_invD [OF assms]
  obtain m where m: "map_of (ss_subs s) key = Some m" "map_of m subID = Some e"
    using Some by (auto simp: subEntry_def split: option.splits)
  have e: "en_ch e < length (ss_chans s)" "\<not> ch_closed (ss_chans s ! en_ch e)" using D(5) [OF Some] by auto
  define chans where "chans = (ss_chans s)[en_ch e := (ss_chans s ! en_ch e)\<lparr>ch_closed := True\<rparr>]"
  define s' where "s' = s\<lparr>ss_subs := (if mapDel subID m = [] then mapDel key (ss_subs s) else mapPut key (mapDel subID m) (ss_subs s)),
    ss_chans := chans\<rparr>"
  have run: "subs_unregister s key subID = Some s'"
    using m e by (simp add: subs_unregister_def closeAt_open s'_def chans_def)
  have emptyDel: "map_of m i = None" if "mapDel subID m = []" "i \<noteq> subID" for i
    using that map_of_mapDel [of subID m] by (metis fun_upd_other map_of.simps(1))
  have entry: "subEntry s' k i = (if (k, i) = (key, subID) then None else subEntry s k i)" for k i
    using m emptyDel by (auto simp: s'_def subEntry_def)
  have "subs_inv s'"
  proof (rule subs_inv_shrink [OF assms])
    fix k i e' assume *: "subEntry s' k i = Some e'"
    then have "subEntry s k i = Some e'" "(k, i) \<noteq> (key, subID)" unfolding entry by (auto split: if_splits)
    moreover from this have "en_ch e' \<noteq> en_ch e" using D(6) [OF _ Some] by blast
    ultimately show "subEntry s k i = Some e' \<and> ch_closed (ss_chans s' ! en_ch e') = ch_closed (ss_chans s ! en_ch e')"
      by (simp add: s'_def chans_def)
  next
    fix c assume "c \<in> set (ss_chans s')"
    then show "chanOK c"
      using D(4) e(1) set_update_subset_insert by (fastforce simp: s'_def chans_def chanOK_def)
  qed (use D(2,3) m in \<open>auto simp: s'_def chans_def split: if_splits\<close>)
  then show ?thesis using run entry Some e(1) by (auto simp: s'_def chans_def)
qed

lemma closeChans_ok:
  assumes "distinct chs" "\<forall>ch\<in>set chs. ch < length chans \<and> \<not> ch_closed (chans ! ch)"
  shows "\<exists>chans'. closeChans chs chans = Some chans' \<and> length chans' = length chans \<and>
    (\<forall>i<length chans. chans' ! i = (if i \<in> set chs then (chans ! i)\<lparr>ch_closed := True\<rparr> else chans ! i))"
  using assms
proof (induction chs arbitrary: chans)
  case Nil
  then show ?case by simp
next
  case (Cons ch chs)
  let ?chans = "chans[ch := (chans ! ch)\<lparr>ch_closed := True\<rparr>]"
  have "\<forall>c\<in>set chs. c < length ?chans \<and> \<not> ch_closed (?chans ! c)" using Cons.prems by (auto simp: nth_list_update)
  with Cons.IH [of ?chans] Cons.prems(1) obtain chans' where "closeChans chs ?chans = Some chans'" "length chans' = length ?chans"
    "\<forall>i<length ?chans. chans' ! i = (if i \<in> set chs then (?chans ! i)\<lparr>ch_closed := True\<rparr> else ?chans ! i)"
    by auto
  then show ?case using Cons.prems by (auto simp: closeAt_open nth_list_update)
qed

lemma addresses_concat:
  assumes "wfMap subs" "\<forall>(k, m)\<in>set subs. wfMap m"
    "\<And>k m i e k' m' i' e'. (k, m) \<in> set subs \<Longrightarrow> (i, e) \<in> set m \<Longrightarrow> (k', m') \<in> set subs \<Longrightarrow> (i', e') \<in> set m' \<Longrightarrow>
      en_ch e = en_ch e' \<Longrightarrow> k = k' \<and> i = i'"
  shows "distinct (concat (map (\<lambda>(key, entries). map (\<lambda>(subID, e). en_ch e) entries) subs))"
  using assms
proof (induction subs)
  case Nil
  then show ?case by simp
next
  case (Cons p subs)
  obtain k m where p: "p = (k, m)" by (cases p)
  have "distinct (map (\<lambda>(subID, e). en_ch e) m)"
  proof -
    have "distinct (map fst m)" using Cons.prems(2) by (simp add: p wfMap_def)
    then have "distinct m" by (simp add: distinct_map)
    moreover have "inj_on (\<lambda>(subID, e). en_ch e) (set m)"
    proof (rule inj_onI, clarify)
      fix i e i' e' assume *: "(i, e) \<in> set m" "(i', e') \<in> set m" "en_ch e = en_ch e'"
      then have "i = i'" using Cons.prems(3) [of k m i e k m i' e'] p by simp
      then show "i = i' \<and> e = e'" using * Cons.prems(2) by (simp add: p wfMap_set)
    qed
    ultimately show ?thesis by (simp add: distinct_map)
  qed
  moreover have "distinct (concat (map (\<lambda>(key, entries). map (\<lambda>(subID, e). en_ch e) entries) subs))"
  proof (rule Cons.IH)
    show "wfMap subs" "\<forall>(k, m)\<in>set subs. wfMap m" using Cons.prems(1,2) p by simp_all
    show "k = k' \<and> i = i'" if "(k, m) \<in> set subs" "(i, e) \<in> set m" "(k', m') \<in> set subs" "(i', e') \<in> set m'"
      "en_ch e = en_ch e'" for k m i e k' m' i' e'
      by (rule Cons.prems(3) [of k m i e k' m' i' e']) (use that in simp_all)
  qed
  moreover have "k \<notin> fst ` set subs" using Cons.prems(1) by (simp add: p)
  moreover have "en_ch e \<noteq> en_ch e'" if "(i, e) \<in> set m" "(k', m') \<in> set subs" "(i', e') \<in> set m'" for i e k' m' i' e'
    using Cons.prems(3) [of k m i e k' m' i' e'] that \<open>k \<notin> fst ` set subs\<close> p by force
  ultimately show ?case by (auto simp: p)
qed

lemma subEntry_iff:
  assumes "subs_inv s"
  shows "subEntry s key subID = Some e \<longleftrightarrow> (\<exists>m. (key, m) \<in> set (ss_subs s) \<and> (subID, e) \<in> set m)"
proof -
  have wf: "wfMap (ss_subs s)" "\<And>k m. (k, m) \<in> set (ss_subs s) \<Longrightarrow> wfMap m"
    using assms by (auto simp: subs_inv_def)
  show ?thesis
  proof
    assume "subEntry s key subID = Some e"
    then obtain m where "map_of (ss_subs s) key = Some m" "map_of m subID = Some e"
      by (auto simp: subEntry_def split: option.splits)
    then show "\<exists>m. (key, m) \<in> set (ss_subs s) \<and> (subID, e) \<in> set m" using map_of_SomeD by metis
  next
    assume "\<exists>m. (key, m) \<in> set (ss_subs s) \<and> (subID, e) \<in> set m"
    then obtain m where m: "(key, m) \<in> set (ss_subs s)" "(subID, e) \<in> set m" by blast
    then have "map_of m subID = Some e" using wf(2) by (simp add: wfMap_set)
    then show "subEntry s key subID = Some e" using m(1) wf(1) by (simp add: subEntry_def wfMap_set)
  qed
qed

lemma addresses_entry:
  "subs_inv s \<Longrightarrow> ch \<in> set (subs_addresses s) \<longleftrightarrow> (\<exists>key subID e. subEntry s key subID = Some e \<and> en_ch e = ch)"
  by (force simp: subs_addresses_def subEntry_iff)

lemma closeAll_ok:
  assumes "subs_inv s"
  shows "\<exists>s'. subs_closeAll s = Some s' \<and> subs_inv s' \<and> ss_subs s' = [] \<and>
    (\<forall>key subID e. subEntry s key subID = Some e \<longrightarrow> ch_closed (ss_chans s' ! en_ch e))"
proof -
  note D = subs_invD [OF assms]
  have wf: "wfMap (ss_subs s)" "\<forall>(k, m)\<in>set (ss_subs s). wfMap m" using assms by (auto simp: subs_inv_def)
  have "distinct (subs_addresses s)" unfolding subs_addresses_def
  proof (rule addresses_concat [OF wf])
    fix k m i e k' m' i' e'
    assume "(k, m) \<in> set (ss_subs s)" "(i, e) \<in> set m" "(k', m') \<in> set (ss_subs s)" "(i', e') \<in> set m'" "en_ch e = en_ch e'"
    then show "k = k' \<and> i = i'"
      using subEntry_iff [OF assms] by (intro D(6) [of k i e k' i' e']) auto
  qed
  moreover have "\<forall>ch\<in>set (subs_addresses s). ch < length (ss_chans s) \<and> \<not> ch_closed (ss_chans s ! ch)"
    using D(5) addresses_entry [OF assms] by metis
  ultimately obtain chans where run: "closeChans (subs_addresses s) (ss_chans s) = Some chans"
    and len: "length chans = length (ss_chans s)"
    and nth: "\<forall>i<length (ss_chans s). chans ! i = (if i \<in> set (subs_addresses s) then (ss_chans s ! i)\<lparr>ch_closed := True\<rparr> else ss_chans s ! i)"
    using closeChans_ok by blast
  have "chanOK (chans ! i)" if "i < length chans" for i
    using nth len that D(4) [of "ss_chans s ! i"] by (simp add: chanOK_def)
  then have "subs_inv (s\<lparr>ss_subs := [], ss_chans := chans\<rparr>)"
    using D(1) by (intro subs_invI) (auto simp: subEntry_def in_set_conv_nth)
  moreover have "ch_closed (chans ! en_ch e)" if "subEntry s key subID = Some e" for key subID e
    using nth D(5) [OF that] that addresses_entry [OF assms, of "en_ch e"] by auto
  ultimately show ?thesis using run by (simp add: subs_closeAll_def)
qed

section \<open>Publication\<close>

text \<open>What a subscriber finds last in its buffer: the event, or the marker that it was dropped.\<close>

definition received :: "Event \<Rightarrow> Event chan \<Rightarrow> bool" where
  "received event c \<longleftrightarrow> ch_buf c \<noteq> [] \<and> (last (ch_buf c) = event \<or> last (ch_buf c) = droppedEvent event)"

lemma enqueue_ok:
  assumes "chanOK c" "\<not> ch_closed c"
  shows "\<exists>c'. enqueueRuntimeEvent d1 d2 c event = Some c' \<and> chanOK c' \<and> \<not> ch_closed c' \<and> received event c'"
  using assms by (auto simp: enqueueRuntimeEvent_def chanOK_def received_def Let_def)

lemma deliver_ok:
  assumes "distinct chs" "\<forall>ch\<in>set chs. ch < length chans \<and> \<not> ch_closed (chans ! ch)" "\<forall>c\<in>set chans. chanOK c"
  shows "\<exists>chans'. deliver drain event chs chans = Some chans' \<and> length chans' = length chans \<and>
    (\<forall>c\<in>set chans'. chanOK c) \<and> (\<forall>i<length chans. ch_closed (chans' ! i) = ch_closed (chans ! i)) \<and>
    (\<forall>i<length chans. i \<notin> set chs \<longrightarrow> chans' ! i = chans ! i) \<and> (\<forall>ch\<in>set chs. received event (chans' ! ch))"
  using assms
proof (induction chs arbitrary: chans)
  case Nil
  then show ?case by simp
next
  case (Cons ch chs)
  have ch: "ch < length chans" "\<not> ch_closed (chans ! ch)" "chanOK (chans ! ch)" using Cons.prems by simp_all
  obtain c where c: "enqueueRuntimeEvent (fst (drain ch)) (snd (drain ch)) (chans ! ch) event = Some c"
    "chanOK c" "\<not> ch_closed c" "received event c" using enqueue_ok [OF ch(3,2)] by blast
  have "\<forall>x\<in>set chs. x < length (chans[ch := c]) \<and> \<not> ch_closed (chans[ch := c] ! x)"
    using Cons.prems by (auto simp: nth_list_update)
  moreover have "\<forall>x\<in>set (chans[ch := c]). chanOK x"
    using Cons.prems(3) c(2) set_update_subset_insert by fastforce
  ultimately obtain chans' where IH: "deliver drain event chs (chans[ch := c]) = Some chans'" "length chans' = length chans"
    "\<forall>c\<in>set chans'. chanOK c" "\<forall>i<length chans. ch_closed (chans' ! i) = ch_closed (chans[ch := c] ! i)"
    "\<forall>i<length chans. i \<notin> set chs \<longrightarrow> chans' ! i = chans[ch := c] ! i" "\<forall>ch\<in>set chs. received event (chans' ! ch)"
    using Cons.IH [of "chans[ch := c]"] Cons.prems(1) by auto
  have "chans' ! ch = c" using IH(5) ch(1) Cons.prems(1) by simp
  moreover have "\<forall>i<length chans. ch_closed (chans' ! i) = ch_closed (chans ! i)"
    using IH(4) ch c(3) by (auto simp: nth_list_update)
  moreover have "\<forall>i<length chans. i \<notin> set (ch # chs) \<longrightarrow> chans' ! i = chans ! i" using IH(5) by auto
  ultimately show ?case using IH c by simp
qed

lemma entries_addresses:
  assumes "subs_inv s" "m = mapGet [] (ss_subs s) key"
  shows "distinct (map (\<lambda>(subID, e). en_ch e) m)"
    "ch \<in> set (map (\<lambda>(subID, e). en_ch e) m) \<longleftrightarrow> (\<exists>subID e. subEntry s key subID = Some e \<and> en_ch e = ch)"
proof -
  note D = subs_invD [OF assms(1)]
  have wf: "wfMap m" using D(3) by (auto simp: assms(2) mapGet_def split: option.splits)
  have entry: "(i, e) \<in> set m \<longleftrightarrow> subEntry s key i = Some e" for i e
    using wf by (auto simp: assms(2) mapGet_def subEntry_def wfMap_set split: option.splits)
  then show "ch \<in> set (map (\<lambda>(subID, e). en_ch e) m) \<longleftrightarrow> (\<exists>subID e. subEntry s key subID = Some e \<and> en_ch e = ch)"
    by force
  have "inj_on (\<lambda>(subID, e). en_ch e) (set m)"
  proof (rule inj_onI, clarify)
    fix i e i' e' assume *: "(i, e) \<in> set m" "(i', e') \<in> set m" "en_ch e = en_ch e'"
    then show "i = i' \<and> e = e'" using D(6) [of key i e key i' e'] entry by auto
  qed
  moreover have "distinct m" using wf by (simp add: wfMap_def distinct_map)
  ultimately show "distinct (map (\<lambda>(subID, e). en_ch e) m)" by (simp add: distinct_map)
qed

text \<open>The channels after a publication, as seen through the entries of the set.\<close>

lemma Publish_ok:
  assumes "subs_inv (mb_subscribers b)"
    "k = Key_String \<lparr>k_BotID = ev_BotID event, k_SessionID = ev_SessionID event\<rparr>"
  shows "\<exists>b'. Publish None None drain event b = Some (b', None) \<and> subs_inv (mb_subscribers b') \<and>
    ss_subs (mb_subscribers b') = ss_subs (mb_subscribers b) \<and>
    (\<forall>subID e. subEntry (mb_subscribers b) k subID = Some e \<longrightarrow> received event (ss_chans (mb_subscribers b') ! en_ch e)) \<and>
    (\<forall>key subID e. subEntry (mb_subscribers b) key subID = Some e \<longrightarrow> key \<noteq> k \<longrightarrow>
       ss_chans (mb_subscribers b') ! en_ch e = ss_chans (mb_subscribers b) ! en_ch e)"
proof -
  let ?s = "mb_subscribers b"
  let ?m = "mapGet [] (ss_subs ?s) k" and ?chs = "map (\<lambda>(subID, e). en_ch e) (mapGet [] (ss_subs ?s) k)"
  note D = subs_invD [OF assms(1)]
  note A = entries_addresses [OF assms(1), where key = k, OF refl]
  have "\<forall>ch\<in>set ?chs. ch < length (ss_chans ?s) \<and> \<not> ch_closed (ss_chans ?s ! ch)" using A(2) D(5) by metis
  then obtain chans where run: "deliver drain event ?chs (ss_chans ?s) = Some chans" "length chans = length (ss_chans ?s)"
    "\<forall>c\<in>set chans. chanOK c" "\<forall>i<length (ss_chans ?s). ch_closed (chans ! i) = ch_closed (ss_chans ?s ! i)"
    "\<forall>i<length (ss_chans ?s). i \<notin> set ?chs \<longrightarrow> chans ! i = ss_chans ?s ! i" "\<forall>ch\<in>set ?chs. received event (chans ! ch)"
    using deliver_ok [OF A(1)] D(4) by blast
  let ?s' = "?s\<lparr>ss_chans := chans\<rparr>"
  have same: "subEntry ?s' = subEntry ?s" by (simp add: subEntry_def fun_eq_iff)
  have "subs_inv ?s'"
    by (rule subs_inv_shrink [OF assms(1)]) (use D(2,3,5) run same in auto)
  moreover have "received event (chans ! en_ch e)" if "subEntry ?s k subID = Some e" for subID e
    using run(6) A(2) [of "en_ch e"] that by blast
  moreover have "chans ! en_ch e = ss_chans ?s ! en_ch e" if "subEntry ?s key subID = Some e" "key \<noteq> k" for key subID e
    using run(5) A(2) [of "en_ch e"] D(5) [OF that(1)] D(6) [OF that(1)] that(2) by metis
  ultimately show ?thesis using run(1) by (simp add: Publish_def Let_def assms(2))
qed

section \<open>Runs\<close>

text \<open>
  The steps that touch the subscriptions, in any order: the two halves of
  \<open>Subscribe\<close>, a subscription's \<open>Close\<close> or its context's end, a publication, the
  backend's \<open>Close\<close>, and a reader taking events from its channel.
\<close>

inductive subs_step :: "MemoryBackend \<Rightarrow> MemoryBackend \<Rightarrow> bool" where
  subscribe: "Subscribe_register ctx key b = (b', r) \<Longrightarrow> ss_nextID (mb_subscribers b) < 2 ^ 63 - 1 \<Longrightarrow> subs_step b b'"
| watch: "Subscribe_watch key subID b = (b', ok) \<Longrightarrow> subs_step b b'"
| unregister: "Subscription_unregister key subID b = Some b' \<Longrightarrow> subs_step b b'"
| publish: "Publish ctx1 ctx2 drain event b = Some (b', err) \<Longrightarrow> subs_step b b'"
| close: "Backend_Close b = Some b' \<Longrightarrow> subs_step b b'"
| read: "ch < length (ss_chans s) \<Longrightarrow> s = mb_subscribers b \<Longrightarrow> c = ss_chans s ! ch \<Longrightarrow>
    subs_step b (b\<lparr>mb_subscribers := s\<lparr>ss_chans := (ss_chans s)[ch := c\<lparr>ch_buf := drop n (ch_buf c)\<rparr>]\<rparr>\<rparr>)"

lemma read_inv:
  assumes "subs_inv s" "ch < length (ss_chans s)"
  shows "subs_inv (s\<lparr>ss_chans := (ss_chans s)[ch := (ss_chans s ! ch)\<lparr>ch_buf := drop n (ch_buf (ss_chans s ! ch))\<rparr>]\<rparr>)"
proof (rule subs_inv_shrink [OF assms(1)])
  note D = subs_invD [OF assms(1)]
  fix c
  assume "c \<in> set (ss_chans (s\<lparr>ss_chans := (ss_chans s)[ch := (ss_chans s ! ch)\<lparr>ch_buf := drop n (ch_buf (ss_chans s ! ch))\<rparr>]\<rparr>))"
  then have "c = (ss_chans s ! ch)\<lparr>ch_buf := drop n (ch_buf (ss_chans s ! ch))\<rparr> \<or> c \<in> set (ss_chans s)"
    using set_update_subset_insert by fastforce
  then show "chanOK c" using D(4) [of "ss_chans s ! ch"] D(4) [of c] assms(2) by (auto simp: chanOK_def)
qed (use subs_invD(2,3) [OF assms(1)] assms(2) in \<open>auto simp: subEntry_def nth_list_update\<close>)

lemma subs_step_inv:
  assumes "subs_step b b'" "subs_inv (mb_subscribers b)"
  shows "subs_inv (mb_subscribers b')"
  using assms
proof (induction rule: subs_step.induct)
  case (subscribe ctx key b b' r)
  then show ?case
    by (auto simp: Subscribe_register_def split: option.splits if_splits prod.splits intro: register_inv(1))
next
  case (watch key subID b b' ok)
  then show ?case by (auto simp: Subscribe_watch_def split: prod.splits intro: setContextWatch_inv(1))
next
  case (unregister key subID b b')
  then show ?case
    using unregister_ok [of "mb_subscribers b" "Key_String key" subID] by (auto simp: Subscription_unregister_def)
next
  case (publish ctx1 ctx2 drain event b b' err)
  then show ?case
    using Publish_ok [of b _ event drain]
    by (cases ctx1; cases ctx2) (auto simp: Publish_def [of "Some _"] Publish_def [of None "Some _"])
next
  case (close b b')
  then show ?case using closeAll_ok [of "mb_subscribers b"] by (auto simp: Backend_Close_def split: if_splits)
next
  case (read ch s b c n)
  then show ?case by (simp add: read_inv)
qed

end
