(* ===== verification/BackendProps.thy ===== *)
theory BackendProps
  imports BackendLedger QueueContracts MemoryResets MemorySubs
begin

text \<open>
  The backend as a service to one session: its own queue operations among those
  of other sessions and among the snapshot, reset and event operations, in any
  order. Sessions do not touch each other's queues, and exactly-once consumption
  holds of the whole service.
\<close>

section \<open>Isolation of sessions\<close>

text \<open>What an operation on one session may do to the queues of another.\<close>

definition aside :: "Key \<Rightarrow> MemoryBackend \<Rightarrow> MemoryBackend \<Rightarrow> bool" where
  "aside key b b' \<longleftrightarrow> (queues_wf b \<longrightarrow> queues_wf b' \<and> expires (queuesOf b key) (queuesOf b' key))"

lemma expires_trans: "expires q q1 \<Longrightarrow> expires q1 q2 \<Longrightarrow> expires q q2"
  by (auto simp: expires_def)

lemma aside_refl [simp]: "aside key b b"
  by (simp add: aside_def)

lemma aside_trans: "aside key b b1 \<Longrightarrow> aside key b1 b2 \<Longrightarrow> aside key b b2"
  by (auto simp: aside_def intro: expires_trans)

lemma aside_purge: "aside key b (purgeLiveQueuesLocked now b)"
  by (simp add: aside_def purge_expires)

lemma aside_live: "liveSnapshotLocked key' now b = (b', snap) \<Longrightarrow> aside key b b'"
  by (simp add: aside_def queuesOf_live queues_wf_live)

lemma aside_put:
  assumes "Key_String key' \<noteq> Key_String key"
  shows "aside key b b1 \<Longrightarrow> aside key b (putSteers key' s b1)" "aside key b b1 \<Longrightarrow> aside key b (putFollows key' f b1)"
  using assms by (simp_all add: aside_def queuesOf_put_other)

lemma aside_guard: "steerClaimGuard now key' ref b = (b1, err) \<Longrightarrow> aside key b b1"
  by (auto simp: steerClaimGuard_def aside_live split: if_splits option.splits prod.splits)

lemma aside_purge_live: "liveSnapshotLocked key' now (purgeLiveQueuesLocked now b) = (b', snap) \<Longrightarrow> aside key b b'"
  by (rule aside_trans [OF aside_purge aside_live])

lemma backend_step_aside:
  assumes "backend_step key' b e b'" "Key_String key' \<noteq> Key_String key"
  shows "aside key b b'"
  using assms(1)
proof cases
  case (EnqueueSteer ctx now itemID invocationID payload r)
  then show ?thesis
    by (auto simp: EnqueueSteer_def Let_def split: option.splits if_splits sum.splits prod.splits
        intro: aside_put [OF assms(2)] aside_purge aside_purge_live)
next
  case (EnqueueFollowUp ctx now itemID invocationID payload fr)
  then show ?thesis
    by (auto simp: EnqueueFollowUp_def Let_def split: option.splits if_splits sum.splits prod.splits
        intro: aside_put [OF assms(2)] aside_purge aside_purge_live)
next
  case (Promote ctx now uuid ref prr)
  then show ?thesis
    by (auto simp: PromoteFollowUpToSteer_def Let_def split: option.splits if_splits sum.splits prod.splits
        intro: aside_put [OF assms(2)] aside_live)
next
  case (ClaimNextSteer ctx now uuid handle sealIfEmpty cr)
  have "RunHandle_key (RunHandle_normalized handle) = RunHandle_key handle" by (simp add: RunHandle_key_def)
  with ClaimNextSteer assms(2) show ?thesis
    by (auto simp: ClaimNextSteer_def Let_def split: option.splits if_splits prod.splits
        intro: aside_put aside_live)
next
  case (ApplySteer ctx now1 now2 sref err)
  then show ?thesis
    by (auto simp: ApplySteer_def split: option.splits sum.splits prod.splits intro: aside_put [OF assms(2)] aside_guard)
next
  case (ReleaseSteer ctx now1 now2 sref err)
  then show ?thesis
    by (auto simp: ReleaseSteer_def split: option.splits sum.splits prod.splits intro: aside_put [OF assms(2)] aside_guard)
qed (auto simp: PendingQueues_def ReorderSteer_def ReorderFollowUp_def UpdateSteer_def UpdateFollowUp_def CancelSteer_def
    CancelFollowUp_def CloseSteerRun_def ClaimNextFollowUp_def ApplyFollowUp_def ReleaseFollowUp_def RejectFollowUp_def
    followUpClaimOp_def Let_def split: option.splits if_splits sum.splits prod.splits
    intro: aside_put [OF assms(2)] aside_purge)

section \<open>The service\<close>

text \<open>
  Everything that happens on a backend, as one session sees it. Queue operations
  of other sessions and the operations on snapshots, reset leases and events are
  quiet for it.
\<close>

inductive service_step :: "Key \<Rightarrow> MemoryBackend \<Rightarrow> claim_event \<Rightarrow> MemoryBackend \<Rightarrow> bool" for key where
  own: "backend_step key b e b' \<Longrightarrow> service_step key b e b'"
| other: "backend_step key' b e b' \<Longrightarrow> Key_String key' \<noteq> Key_String key \<Longrightarrow> service_step key b Quiet b'"
| load: "Load c1 c2 now key' b = (b', lr) \<Longrightarrow> service_step key b Quiet b'"
| update: "Update c1 c2 now key' f b = (b', ur) \<Longrightarrow> service_step key b Quiet b'"
| start: "StartRunIfNoHistoryReset c1 now key' f b = (b', ur) \<Longrightarrow> service_step key b Quiet b'"
| acquire: "AcquireHistoryReset c1 now scope token ttl b = (b', ar) \<Longrightarrow> service_step key b Quiet b'"
| renew: "RenewHistoryReset c1 now lease ttl b = (b', ar) \<Longrightarrow> service_step key b Quiet b'"
| release: "ReleaseHistoryReset c1 lease b = (b', rr) \<Longrightarrow> service_step key b Quiet b'"
| publish: "Publish c1 c2 drain event b = Some (b', err) \<Longrightarrow> service_step key b Quiet b'"
| subscribe: "Subscribe_register c1 key' b = (b', sr) \<Longrightarrow> service_step key b Quiet b'"
| unsubscribe: "Subscription_unregister key' subID b = Some b' \<Longrightarrow> service_step key b Quiet b'"
| close: "Backend_Close b = Some b' \<Longrightarrow> service_step key b Quiet b'"

lemma same_queues:
  "mb_steerQueues b' = mb_steerQueues b \<Longrightarrow> mb_followUpQueues b' = mb_followUpQueues b \<Longrightarrow> aside key b b'"
  by (simp add: aside_def queuesOf_def steersOf_def followsOf_def queues_wf_def)

lemma store_queues [simp]:
  "mb_steerQueues (storeSnapshot now k next b) = mb_steerQueues b"
  "mb_followUpQueues (storeSnapshot now k next b) = mb_followUpQueues b"
  "mb_steerQueues (purgeHistoryResetsLocked now b) = mb_steerQueues b"
  "mb_followUpQueues (purgeHistoryResetsLocked now b) = mb_followUpQueues b"
  by (simp_all add: storeSnapshot_def scheduleCleanupLocked_def purgeHistoryResetsLocked_def)

lemma service_aside:
  assumes "service_step key b e b'" "\<not> backend_step key b e b'"
  shows "e = Quiet" "aside key b b'"
  using assms
  by (cases rule: service_step.cases; simp add: backend_step_aside; auto simp: Load_def Update_def StartRunIfNoHistoryReset_def
      AcquireHistoryReset_def RenewHistoryReset_def ReleaseHistoryReset_def Publish_def Subscribe_register_def
      Subscription_unregister_def Backend_Close_def Let_def
      split: option.splits if_splits prod.splits intro!: same_queues)+

lemma aside_session:
  assumes "aside key b b'" "session_inv key b"
  shows "session_inv key b'" "session_tokens key b' \<subseteq> session_tokens key b"
  using assms move_ledger(1,2) [of "queuesOf b key" Quiet "queuesOf b' key"]
  by (auto simp: aside_def session_inv_def session_tokens_def move_expire)

interpretation service: claim_ledger "session_inv key" "session_tokens key" "service_step key" for key
proof unfold_locales
  fix b e b'
  assume *: "session_inv key b" "service_step key b e b'" "\<And>t. e = Issue t \<Longrightarrow> t \<notin> session_tokens key b"
  then show "session_inv key b'"
    using session.step_inv [OF *(1) _ *(3)] aside_session(1) [OF _ *(1)] service_aside(2) [OF *(2)] by blast
next
  fix b t b'
  assume *: "session_inv key b" "service_step key b (Issue t) b'" "t \<notin> session_tokens key b"
  then show "session_tokens key b' \<subseteq> insert t (session_tokens key b)"
    using session.step_issue [OF *(1)] service_aside(1) [OF *(2)] by blast
next
  fix b t b'
  assume *: "session_inv key b" "service_step key b (Settle t) b'"
  then show "t \<in> session_tokens key b \<and> session_tokens key b' \<subseteq> session_tokens key b - {t}"
    using session.step_settle [OF *(1)] service_aside(1) [OF *(2)] by blast
next
  fix b b'
  assume *: "session_inv key b" "service_step key b Quiet b'"
  then show "session_tokens key b' \<subseteq> session_tokens key b"
    using session.step_quiet [OF *(1)] aside_session(2) [OF _ *(1)] service_aside(2) [OF *(2)] by blast
qed

section \<open>A worked backend\<close>

definition demoRun :: CurrentRunView where
  "demoRun = \<lparr>cr_ResumeTurn = None, cr_ConfigurationOnly = False, cr_RunID = ''run'', cr_TurnID = ''turn'', cr_TurnPosition = 1,
     cr_InvocationID = ''inv'', cr_Generation = ''gen'', cr_Status = RunStatusRunning, cr_OwnerID = ''o1'',
     cr_OwnerLeaseExpiresAt = None, cr_StartedAt = 1, cr_UpdatedAt = 1, cr_Messages = [], cr_UserTurns = [],
     cr_SteerSupported = True, cr_FencingToken = 1, cr_SteerTurns = [], cr_ErrorCode = '''', cr_ProposedTerminalStatus = '''',
     cr_FinishProposedAt = None, cr_Operation = None, cr_Retry = None\<rparr>"

definition demoUpdate :: SnapshotUpdate where
  "demoUpdate current ok = ((EmptySnapshot ''bot'' ''session'')\<lparr>sn_CurrentRunView := Some demoRun\<rparr>, True, None)"

definition backend0 :: MemoryBackend where "backend0 = NewMemoryBackend ''generation''"
definition backend1 :: MemoryBackend where "backend1 = fst (Update None None 5 demoKey (Some demoUpdate) backend0)"
definition backend2 :: MemoryBackend where "backend2 = fst (EnqueueSteer None 10 demoKey ''a'' ''inv-a'' ''pa'' backend1)"
definition backend3 :: MemoryBackend where "backend3 = fst (ClaimNextSteer None 12 ''t1'' (demoHandle ''o1'' 1) False backend2)"
definition backend4 :: MemoryBackend where "backend4 = fst (ApplySteer None 13 13 demoKey claim1 backend3)"

lemma demo_backend:
  "Update None None 5 demoKey (Some demoUpdate) backend0 = (backend1, snd (Update None None 5 demoKey (Some demoUpdate) backend0))"
  "EnqueueSteer None 10 demoKey ''a'' ''inv-a'' ''pa'' backend1 = (backend2, Inr (hd (sq_Items (steersOf backend2 demoKey))))"
  "ClaimNextSteer None 12 ''t1'' (demoHandle ''o1'' 1) False backend2 =
     (backend3, Inr (Some (hd (sq_Items (steersOf backend3 demoKey)), claim1)))"
  "ApplySteer None 13 13 demoKey claim1 backend3 = (backend4, None)"
  by code_simp+

section \<open>Exactly-once consumption through the backend\<close>

text \<open>
  C13 (backend_exactly_once): on a backend that started empty, among any
  operations of this and other sessions, a successful apply, release or reject of
  a claim of the session follows the claim request that issued it, and no claim
  is settled twice; expiry and closing can only end claims.
\<close>

theorem backend_exactly_once:
  assumes "ledger_run (service_step key) (NewMemoryBackendWithTTL uuid ttl) tr b"
  shows "(\<forall>us t vs. tr = us @ Settle t # vs \<longrightarrow> Issue t \<in> set us \<and> Settle t \<notin> set us \<and> Settle t \<notin> set vs) \<and>
    (\<forall>t\<in>steerTokens (steersOf b key) \<union> followUpTokens (followsOf b key). Issue t \<in> set tr \<and> Settle t \<notin> set tr)"
proof -
  from service.run_facts [OF assms session_start]
  have once: "settledOnce tr" and out: "session_tokens key b \<subseteq> issued tr - settled tr" by auto
  show ?thesis
    using settledOnce_split [OF once] out by (auto simp: session_tokens_def queuesOf_def queues_tokens_def issued_def settled_def)
qed

lemma demo_service: "ledger_run (service_step demoKey) (NewMemoryBackendWithTTL ''generation'' (24 * hour)) [Quiet, Quiet, Issue ''t1'', Settle ''t1''] backend4"
proof -
  let ?run = "ledger_run (service_step demoKey) (NewMemoryBackendWithTTL ''generation'' (24 * hour))"
  have facts: "''a'' \<notin> si_ID ` set (sq_Items (steersOf backend1 demoKey))" "RunHandle_key (demoHandle ''o1'' 1) = demoKey"
    "sc_ClaimToken claim1 = ''t1''"
    by code_simp+
  have claim: "issues (Inr (Some (x, claim1)) :: GoError + (SteerItem \<times> SteerClaimRef) option) sc_ClaimToken ''t1'' = Issue ''t1''" for x
    by (simp add: issues_def facts(3))
  have "?run [] backend0" unfolding backend0_def NewMemoryBackend_def by (rule run_nil)
  then have "?run ([] @ [Quiet]) backend1"
    by (rule run_snoc) (rule service_step.update [OF demo_backend(1)], simp add: freshEvent_def)
  then have "?run (([] @ [Quiet]) @ [Quiet]) backend2"
    by (rule run_snoc) (rule own [OF backend_step.EnqueueSteer [OF demo_backend(2) facts(1)]], simp add: freshEvent_def)
  then have "?run ((([] @ [Quiet]) @ [Quiet]) @ [Issue ''t1'']) backend3"
    by (rule run_snoc) (rule own [OF backend_step.ClaimNextSteer [OF demo_backend(3) facts(2), unfolded claim]],
      simp add: freshEvent_def issued_def)
  then have "?run (((([] @ [Quiet]) @ [Quiet]) @ [Issue ''t1'']) @ [settles None (sc_ClaimToken claim1)]) backend4"
    by (rule run_snoc) (rule own [OF backend_step.ApplySteer [OF demo_backend(4)]], simp add: freshEvent_def settles_def)
  then show ?thesis by (simp add: settles_def facts(3))
qed

theorem backend_exactly_once_witness:
  "Issue ''t1'' \<in> set [Quiet, Quiet, Issue ''t1''] \<and> Settle ''t1'' \<notin> set [Quiet, Quiet, Issue ''t1'']"
  using backend_exactly_once [OF demo_service, THEN conjunct1, rule_format, of "[Quiet, Quiet, Issue ''t1'']" "''t1''" "[]"] by simp

text \<open>
  A queue operation of one session leaves both queues of
  every other session as they are, except that it may drop them as expired.
\<close>

theorem session_isolation:
  assumes "backend_step key' b e b'" "Key_String key' \<noteq> Key_String key" "wfMap (mb_steerQueues b)" "wfMap (mb_followUpQueues b)"
  shows "(steersOf b' key = steersOf b key \<or> steersOf b' key = emptySteerQueue) \<and>
    (followsOf b' key = followsOf b key \<or> followsOf b' key = emptyFollowUpQueue)"
  using backend_step_aside [OF assms(1,2)] assms(3,4) by (auto simp: aside_def expires_def queuesOf_def queues_wf_def)

section \<open>Admission of steers\<close>

lemma purge_steers:
  assumes "wfMap (mb_steerQueues b)" "\<not> queueExpired (mb_stateTTL b) now (sq_UpdatedAt (steersOf b key))"
  shows "steersOf (purgeLiveQueuesLocked now b) key = steersOf b key"
  using assms by (auto simp: steersOf_def mapGet_def purgeLiveQueuesLocked_def map_of_filter_wf split: option.splits)

lemma purgeExpired_closed: "mb_closed (purgeExpiredLocked now b) = mb_closed b"
proof -
  have "mb_closed (fst (fold (purgeDecisionStep now) xs st)) = mb_closed (fst st)" for xs st
    by (induction xs arbitrary: st) (auto simp: purgeDecisionStep_def split: prod.splits)
  moreover have "mb_closed (fst (fold (purgeSnapshotStep now) xs st)) = mb_closed (fst st)" for xs st
    by (induction xs arbitrary: st) (auto simp: purgeSnapshotStep_def split: prod.splits)
  ultimately show ?thesis by (simp add: purgeExpiredLocked_def Let_def)
qed

lemma live_steers:
  "liveSnapshotLocked key' now b = (b', snap) \<Longrightarrow> steersOf b' key = steersOf b key \<and> mb_closed b' = mb_closed b \<and>
     mb_steerQueues b' = mb_steerQueues b"
  by (auto simp: liveSnapshotLocked_def Let_def steersOf_def purgeExpired_closed)

text \<open>An admitted steer is the one its invocation finds from then on.\<close>

lemma EnqueueSteer_ok:
  assumes "EnqueueSteer None now key itemID invocationID payload b = (b1, Inr item)" "wfMap (mb_steerQueues b)"
  shows "replaySteer (steersOf b1 key) invocationID payload = Some (Inr item)" "\<not> mb_closed b1" "wfMap (mb_steerQueues b1)"
    "validateQueueKey key = None" "TrimSpace invocationID \<noteq> ''''"
proof -
  let ?b = "purgeLiveQueuesLocked now b"
  obtain b2 snap where live: "liveSnapshotLocked key now ?b = (b2, snap)" by fastforce
  note L = live_steers [OF live, of key]
  have wf: "wfMap (mb_steerQueues ?b)" "mb_closed ?b = mb_closed b"
    using assms(2) by (simp_all add: purgeLiveQueuesLocked_def)
  have cases: "validateQueueKey key = None \<and> TrimSpace invocationID \<noteq> '''' \<and> \<not> mb_closed b \<and>
    (b1 = ?b \<and> replaySteer (steersOf ?b key) invocationID payload = Some (Inr item) \<or>
     (\<exists>s' runID. b1 = putSteers key s' b2 \<and> replaySteer (steersOf ?b key) invocationID payload = None \<and>
        steer_enqueue (steersOf ?b key) key itemID invocationID runID payload now = Inr (s', item)))"
    using assms(1) live by (auto simp: EnqueueSteer_def Let_def split: option.splits if_splits sum.splits prod.splits)
  then show "validateQueueKey key = None" "TrimSpace invocationID \<noteq> ''''" by auto
  have new: "replaySteer s' invocationID payload = Some (Inr item)"
    if "replaySteer s invocationID payload = None" "steer_enqueue s key itemID invocationID runID payload now = Inr (s', item)" for s s' runID
  proof -
    have "sq_Items s' = sq_Items s @ [item]" "si_InvocationID item = invocationID" "si_Payload item = payload"
      using that(2) by (auto simp: steer_enqueue_def Let_def split: if_splits)
    moreover have "\<forall>x\<in>set (sq_Items s). si_InvocationID x \<noteq> invocationID"
      using that(1) by (auto simp: replaySteer_def find_None_iff split: option.splits)
    moreover have "List.find p (xs @ [y]) = Some y" if "\<forall>x\<in>set xs. \<not> p x" "p y" for p xs and y :: SteerItem
      using that by (induction xs) auto
    ultimately show ?thesis by (simp add: replaySteer_def)
  qed
  show "replaySteer (steersOf b1 key) invocationID payload = Some (Inr item)"
    using cases new by (auto simp: steersOf_def putSteers_def)
  show "\<not> mb_closed b1" "wfMap (mb_steerQueues b1)" using cases wf L by (auto simp: putSteers_def)
qed

text \<open>
  An invocation admits one steer. A retry with the
  same payload, under whatever item ID, returns the item that was admitted; one
  with another payload is refused as a conflict; neither changes the queue.
\<close>

theorem steer_enqueue_idempotent:
  assumes "EnqueueSteer None now key itemID invocationID payload b = (b1, Inr item)" "wfMap (mb_steerQueues b)"
    "\<not> queueExpired (mb_stateTTL b1) now' (sq_UpdatedAt (steersOf b1 key))" "TrimSpace itemID' \<noteq> ''''" "payload' \<noteq> []"
  shows "\<exists>b2. EnqueueSteer None now' key itemID' invocationID payload' b1 =
      (b2, if payload' = payload then Inr item else Inl ErrQueueInvocationConflict) \<and> steersOf b2 key = steersOf b1 key"
proof -
  note ok = EnqueueSteer_ok [OF assms(1,2)]
  have keep: "steersOf (purgeLiveQueuesLocked now' b1) key = steersOf b1 key" by (rule purge_steers [OF ok(3) assms(3)])
  have "replaySteer (steersOf b1 key) invocationID payload' =
      Some (if payload' = payload then Inr item else Inl ErrQueueInvocationConflict)"
    using ok(1) by (auto simp: replaySteer_def split: option.splits if_splits)
  then show ?thesis
    using ok(2,4,5) assms(4,5) keep by (simp add: EnqueueSteer_def Let_def)
qed

theorem steer_enqueue_idempotent_witness:
  "\<exists>b2. EnqueueSteer None 11 demoKey ''z'' ''inv-a'' ''other'' backend2 = (b2, Inl ErrQueueInvocationConflict) \<and>
     steersOf b2 demoKey = steersOf backend2 demoKey"
proof -
  have "wfMap (mb_steerQueues backend1)" "\<not> queueExpired (mb_stateTTL backend2) 11 (sq_UpdatedAt (steersOf backend2 demoKey))"
    "TrimSpace ''z'' \<noteq> ''''" by code_simp+
  then show ?thesis
    using steer_enqueue_idempotent [OF demo_backend(2), of 11 "''z''" "''other''"] by simp
qed

text \<open>
  Once a run of a session that has a steer queue is
  closed, no new steer is admitted for it, even while the session's snapshot still
  shows the run as active.
\<close>

theorem closed_run_sealed:
  assumes "CloseSteerRun None now key runID b = (b1, None)" "map_of (mb_steerQueues b) (Key_String key) = Some state"
    "wfMap (mb_steerQueues b)" "\<not> queueExpired (mb_stateTTL b1) now' (sq_UpdatedAt (steersOf b1 key))"
    "replaySteer (steersOf b1 key) invocationID payload = None"
    "\<forall>run. activeRun (snd (liveSnapshotLocked key now' (purgeLiveQueuesLocked now' b1))) = Some run \<longrightarrow> cr_RunID run = TrimSpace runID"
    "TrimSpace itemID \<noteq> ''''" "TrimSpace invocationID \<noteq> ''''" "payload \<noteq> []"
  shows "sq_ClosedRunID (steersOf b1 key) = TrimSpace runID \<and>
    snd (EnqueueSteer None now' key itemID invocationID payload b1) = Inl ErrQueueNoActiveRun"
proof -
  obtain s' changed where cl: "closeSteerRun state (TrimSpace runID) now = (s', changed)" by fastforce
  have b1: "b1 = (if changed then putSteers key (steer_compact s') b else b)" "validateQueueKey key = None" "\<not> mb_closed b"
    using assms(1,2) cl by (auto simp: CloseSteerRun_def Let_def split: if_splits option.splits)
  have "sq_ClosedRunID (steer_compact s') = TrimSpace runID" "\<not> changed \<Longrightarrow> sq_ClosedRunID state = TrimSpace runID"
    using cl by (auto simp: closeSteerRun_def steer_compact_def Let_def split: if_splits)
  then have closed: "sq_ClosedRunID (steersOf b1 key) = TrimSpace runID"
    using b1(1) assms(2) by (auto simp: steersOf_def putSteers_def mapGet_def)
  have wf: "wfMap (mb_steerQueues b1)" "\<not> mb_closed b1" using b1 assms(3) by (auto simp: putSteers_def)
  note keep = purge_steers [OF wf(1) assms(4)]
  obtain b2 snap where live: "liveSnapshotLocked key now' (purgeLiveQueuesLocked now' b1) = (b2, snap)" by fastforce
  show ?thesis
    using closed wf(2) keep b1(2) assms(5-9) live
    by (auto simp: EnqueueSteer_def Let_def split: option.splits)
qed

theorem closed_run_sealed_witness:
  "snd (EnqueueSteer None 14 demoKey ''c'' ''inv-c'' ''pc'' (fst (CloseSteerRun None 13 demoKey ''run'' backend2))) = Inl ErrQueueNoActiveRun"
proof -
  let ?b1 = "fst (CloseSteerRun None 13 demoKey ''run'' backend2)"
  have "CloseSteerRun None 13 demoKey ''run'' backend2 = (?b1, None)"
    "map_of (mb_steerQueues backend2) (Key_String demoKey) = Some (steersOf backend2 demoKey)" "wfMap (mb_steerQueues backend2)"
    "\<not> queueExpired (mb_stateTTL ?b1) 14 (sq_UpdatedAt (steersOf ?b1 demoKey))"
    "replaySteer (steersOf ?b1 demoKey) ''inv-c'' ''pc'' = None" "TrimSpace ''c'' \<noteq> ''''" "TrimSpace ''inv-c'' \<noteq> ''''" "''pc'' \<noteq> []"
    by code_simp+
  moreover have "activeRun (snd (liveSnapshotLocked demoKey 14 (purgeLiveQueuesLocked 14 ?b1))) = Some demoRun"
    "cr_RunID demoRun = TrimSpace ''run''" by code_simp+
  ultimately show ?thesis using closed_run_sealed by (metis option.inject)
qed

text \<open>
  The seal needs a queue to be recorded in. When no
  steer was ever admitted for the session, closing a run that the snapshot still
  shows as active succeeds and a steer for that very run is admitted afterwards.
\<close>

theorem close_without_queue:
  "\<exists>b b1 b2 item run. CloseSteerRun None 6 demoKey ''run'' b = (b1, None) \<and>
     activeRun (map_of (mb_snapshots b) (Key_String demoKey)) = Some run \<and> cr_RunID run = ''run'' \<and>
     EnqueueSteer None 10 demoKey ''a'' ''inv-a'' ''pa'' b1 = (b2, Inr item) \<and> si_TargetRunID item = ''run''"
proof -
  have "CloseSteerRun None 6 demoKey ''run'' backend1 = (backend1, None)" by code_simp
  moreover have "activeRun (map_of (mb_snapshots backend1) (Key_String demoKey)) = Some demoRun" "cr_RunID demoRun = ''run''"
    "si_TargetRunID (hd (sq_Items (steersOf backend2 demoKey))) = ''run''" by code_simp+
  ultimately show ?thesis using demo_backend(2) by blast
qed

end
