(* ===== verification/DecisionOutput.thy ===== *)
theory DecisionOutput
  imports MemoryExpiry
begin

text \<open>
  The per-command decision output logs: the types of
  \<^verbatim>\<open>internal/agent/runtime/session/types.go\<close> and the in-process store of
  \<^verbatim>\<open>memory_decision_output.go\<close>. A log is append-only by sequence number, closed
  by an empty payload or failed by its limits, forwarded by one claimant, and read
  from a cursor. Lengths are natural numbers: a log is bounded by the memory it
  sits in, far below the range of Go's \<open>int\<close>.
\<close>

section \<open>Types\<close>

record DecisionOutputRef =
  dr_BotID :: string
  dr_CommandID :: string

definition DecisionOutputRef_topic :: "DecisionOutputRef \<Rightarrow> Key" where
  "DecisionOutputRef_topic r = \<lparr>k_BotID = dr_BotID r, k_SessionID = ''decision-output/'' @ dr_CommandID r\<rparr>"

definition DecisionOutputRef_String :: "DecisionOutputRef \<Rightarrow> string" where
  "DecisionOutputRef_String r = Key_String (DecisionOutputRef_topic r)"

record DecisionOutputLimits =
  dl_MaxBytes :: int
  dl_MaxEvents :: int

record DecisionOutputState =
  ds_Exists :: bool
  ds_Length :: nat
  ds_Bytes :: nat
  ds_Done :: bool
  ds_Failed :: bool
  ds_Claimed :: bool
  ds_Applied :: bool
  ds_Exceeded :: bool

record DecisionOutputPage =
  dp_State :: DecisionOutputState
  dp_Events :: "bytes list"

definition zeroDecisionOutputState :: DecisionOutputState where
  "zeroDecisionOutputState = \<lparr>ds_Exists = False, ds_Length = 0, ds_Bytes = 0, ds_Done = False,
     ds_Failed = False, ds_Claimed = False, ds_Applied = False, ds_Exceeded = False\<rparr>"

definition emptyDecisionOutput :: memoryDecisionOutput where
  "emptyDecisionOutput = \<lparr>do_events = [], do_bytes = 0, do_done = False, do_failed = False, do_claimed = False\<rparr>"

definition memoryDecisionOutput_state :: "memoryDecisionOutput \<Rightarrow> DecisionOutputState" where
  "memoryDecisionOutput_state l =
     \<lparr>ds_Exists = True, ds_Length = length (do_events l), ds_Bytes = do_bytes l, ds_Done = do_done l,
      ds_Failed = do_failed l, ds_Claimed = do_claimed l, ds_Applied = False, ds_Exceeded = False\<rparr>"

section \<open>Operations\<close>

definition exceedsDecisionOutputLimits :: "nat \<Rightarrow> nat \<Rightarrow> nat \<Rightarrow> DecisionOutputLimits \<Rightarrow> bool" where
  "exceedsDecisionOutputLimits nbytes events next limits \<longleftrightarrow>
     (0 < dl_MaxBytes limits \<and> dl_MaxBytes limits < int (nbytes + next)) \<or>
     (0 < dl_MaxEvents limits \<and> dl_MaxEvents limits \<le> int events)"

text \<open>
  The log under \<open>ref\<close>, created when it is missing, and its expiry moved on. The
  source returns a pointer into the map; callers here put the changed log back.
\<close>

definition putDecisionOutput :: "DecisionOutputRef \<Rightarrow> memoryDecisionOutput \<Rightarrow> MemoryBackend \<Rightarrow> MemoryBackend" where
  "putDecisionOutput ref dlog b =
     b\<lparr>mb_decisionOutputs := mapPut (DecisionOutputRef_String ref) dlog (mb_decisionOutputs b)\<rparr>"

definition decisionOutputLocked ::
    "DecisionOutputRef \<Rightarrow> gotime \<Rightarrow> MemoryBackend \<Rightarrow> MemoryBackend \<times> memoryDecisionOutput" where
  "decisionOutputLocked ref now b =
     (let k = DecisionOutputRef_String ref;
          dlog = mapGet emptyDecisionOutput (mb_decisionOutputs b) k;
          b1 = putDecisionOutput ref dlog b;
          expiresAt = now + mb_stateTTL b
      in (scheduleCleanupLocked expiresAt
            (b1\<lparr>mb_decisionOutputExpiresAt := mapPut k expiresAt (mb_decisionOutputExpiresAt b1)\<rparr>), dlog))"

text \<open>\<open>payload = None\<close> is the \<open>nil\<close> payload that closes the log.\<close>

definition appendLog ::
    "int \<Rightarrow> bytes option \<Rightarrow> DecisionOutputLimits \<Rightarrow> memoryDecisionOutput \<Rightarrow>
     memoryDecisionOutput \<times> DecisionOutputState \<times> GoError option" where
  "appendLog seqNo payload limits dlog =
     (let state = memoryDecisionOutput_state dlog in
      if do_done dlog \<or> do_failed dlog then (dlog, state, None)
      else if seqNo \<le> int (length (do_events dlog)) then (dlog, state, None)
      else if seqNo \<noteq> int (length (do_events dlog)) + 1 then (dlog, state, Some ErrDecisionOutputSequenceGap)
      else
        (case payload of
           None \<Rightarrow>
             (let dlog' = dlog\<lparr>do_done := True\<rparr>
              in (dlog', (memoryDecisionOutput_state dlog')\<lparr>ds_Applied := True\<rparr>, None))
         | Some p \<Rightarrow>
             (if exceedsDecisionOutputLimits (do_bytes dlog) (length (do_events dlog)) (length p) limits then
                (let dlog' = dlog\<lparr>do_failed := True\<rparr>
                 in (dlog', (memoryDecisionOutput_state dlog')\<lparr>ds_Applied := True, ds_Exceeded := True\<rparr>, None))
              else
                (let dlog' = dlog\<lparr>do_events := do_events dlog @ [p], do_bytes := do_bytes dlog + length p\<rparr>
                 in (dlog', (memoryDecisionOutput_state dlog')\<lparr>ds_Applied := True\<rparr>, None)))))"

definition AppendDecisionOutput ::
    "ctx \<Rightarrow> gotime \<Rightarrow> DecisionOutputRef \<Rightarrow> int \<Rightarrow> bytes option \<Rightarrow> DecisionOutputLimits \<Rightarrow> MemoryBackend \<Rightarrow>
     MemoryBackend \<times> DecisionOutputState \<times> GoError option" where
  "AppendDecisionOutput ctx now ref seqNo payload limits b =
     (case ctx of
        Some err \<Rightarrow> (b, zeroDecisionOutputState, Some err)
      | None \<Rightarrow>
          (case decisionOutputLocked ref now (purgeExpiredLocked now b) of
             (b', dlog) \<Rightarrow>
               (case appendLog seqNo payload limits dlog of
                  (dlog', state, err) \<Rightarrow> (putDecisionOutput ref dlog' b', state, err))))"

definition ReadDecisionOutput ::
    "ctx \<Rightarrow> gotime \<Rightarrow> DecisionOutputRef \<Rightarrow> int \<Rightarrow> MemoryBackend \<Rightarrow> MemoryBackend \<times> (GoError + DecisionOutputPage)" where
  "ReadDecisionOutput ctx now ref from0 b =
     (case ctx of
        Some err \<Rightarrow> (b, Inl err)
      | None \<Rightarrow>
          (let b' = purgeExpiredLocked now b in
           case map_of (mb_decisionOutputs b') (DecisionOutputRef_String ref) of
             None \<Rightarrow> (b', Inr \<lparr>dp_State = zeroDecisionOutputState, dp_Events = []\<rparr>)
           | Some dlog \<Rightarrow>
               (let from = (if from0 < 0 then 0 else from0);
                    start = min (nat from) (length (do_events dlog))
                in (b', Inr \<lparr>dp_State = memoryDecisionOutput_state dlog, dp_Events = drop start (do_events dlog)\<rparr>))))"

definition ClaimDecisionOutput ::
    "ctx \<Rightarrow> gotime \<Rightarrow> DecisionOutputRef \<Rightarrow> MemoryBackend \<Rightarrow> MemoryBackend \<times> (GoError + bool)" where
  "ClaimDecisionOutput ctx now ref b =
     (case ctx of
        Some err \<Rightarrow> (b, Inl err)
      | None \<Rightarrow>
          (case decisionOutputLocked ref now (purgeExpiredLocked now b) of
             (b', dlog) \<Rightarrow>
               (if do_claimed dlog then (b', Inr False)
                else (putDecisionOutput ref (dlog\<lparr>do_claimed := True\<rparr>) b', Inr True))))"

definition ReleaseDecisionOutput :: "ctx \<Rightarrow> DecisionOutputRef \<Rightarrow> MemoryBackend \<Rightarrow> MemoryBackend \<times> GoError option" where
  "ReleaseDecisionOutput ctx ref b =
     (case ctx of
        Some err \<Rightarrow> (b, Some err)
      | None \<Rightarrow>
          (case map_of (mb_decisionOutputs b) (DecisionOutputRef_String ref) of
             None \<Rightarrow> (b, None)
           | Some dlog \<Rightarrow> (putDecisionOutput ref (dlog\<lparr>do_events := [], do_bytes := 0\<rparr>) b, None)))"

section \<open>The log under a reference\<close>

text \<open>The log an operation at time \<open>now\<close> finds: expired logs are gone.\<close>

definition visibleLog :: "gotime \<Rightarrow> DecisionOutputRef \<Rightarrow> MemoryBackend \<Rightarrow> memoryDecisionOutput option" where
  "visibleLog now ref b =
     (if expiredAt now (mb_decisionOutputExpiresAt b) (DecisionOutputRef_String ref) then None
      else map_of (mb_decisionOutputs b) (DecisionOutputRef_String ref))"

definition log_inv :: "memoryDecisionOutput \<Rightarrow> bool" where
  "log_inv l \<longleftrightarrow> do_bytes l = sum_list (map length (do_events l))"

definition output_inv :: "MemoryBackend \<Rightarrow> bool" where
  "output_inv b \<longleftrightarrow> expiry_inv b \<and> (\<forall>(k, l)\<in>set (mb_decisionOutputs b). log_inv l)"

lemma expiry_inv_putOutput [simp]: "expiry_inv b \<Longrightarrow> expiry_inv (putDecisionOutput ref dlog b)"
  by (simp add: expiry_inv_def putDecisionOutput_def)

lemma schedule_outputs [simp]:
  "mb_decisionOutputs (scheduleCleanupLocked e b) = mb_decisionOutputs b"
  "mb_decisionOutputExpiresAt (scheduleCleanupLocked e b) = mb_decisionOutputExpiresAt b"
  by (simp_all add: scheduleCleanupLocked_def)

lemma decisionOutputLocked_facts:
  assumes "expiry_inv b" "0 \<le> now" "decisionOutputLocked ref now b = (b', dlog)"
  shows "expiry_inv b'" "dlog = mapGet emptyDecisionOutput (mb_decisionOutputs b) (DecisionOutputRef_String ref)"
    "mb_decisionOutputs b' = mapPut (DecisionOutputRef_String ref) dlog (mb_decisionOutputs b)"
    "map_of (mb_decisionOutputExpiresAt b') (DecisionOutputRef_String ref) = Some (now + mb_stateTTL b)"
    "\<And>k. k \<noteq> DecisionOutputRef_String ref \<Longrightarrow> map_of (mb_decisionOutputExpiresAt b') k = map_of (mb_decisionOutputExpiresAt b) k"
proof -
  let ?e = "now + mb_stateTTL b" and ?k = "DecisionOutputRef_String ref"
  let ?l = "mapGet emptyDecisionOutput (mb_decisionOutputs b) ?k"
  have b': "b' = (scheduleCleanupLocked ?e b)\<lparr>mb_decisionOutputs := mapPut ?k ?l (mb_decisionOutputs b),
      mb_decisionOutputExpiresAt := mapPut ?k ?e (mb_decisionOutputExpiresAt b)\<rparr>" and dlog: "dlog = ?l"
    using assms(3) by (auto simp: decisionOutputLocked_def putDecisionOutput_def scheduleCleanupLocked_def Let_def)
  have e: "0 < ?e" using assms(1,2) by (simp add: expiry_inv_def)
  show "expiry_inv b'"
    using schedule_inv [OF assms(1) e] unfolding b' by (simp add: expiry_inv_def dueAfter_mapPut)
  show "dlog = ?l" "mb_decisionOutputs b' = mapPut ?k dlog (mb_decisionOutputs b)"
    "map_of (mb_decisionOutputExpiresAt b') ?k = Some ?e"
    "\<And>k. k \<noteq> ?k \<Longrightarrow> map_of (mb_decisionOutputExpiresAt b') k = map_of (mb_decisionOutputExpiresAt b) k"
    using dlog by (auto simp: b')
qed

lemma purged_log:
  "expiry_inv b \<Longrightarrow> map_of (mb_decisionOutputs (purgeExpiredLocked now b)) (DecisionOutputRef_String ref) = visibleLog now ref b"
  by (simp add: purge_effect visibleLog_def)

lemma purge_ttl [simp]: "wfMap (mb_snapshotExpiresAt b) \<Longrightarrow> mb_stateTTL (purgeExpiredLocked now b) = mb_stateTTL b"
  by (subst purge_frame) simp_all

text \<open>
  An append works on the visible log, or a new one, and what it leaves is visible
  until the expiry it set.
\<close>

lemma Append_effect:
  assumes "expiry_inv b" "0 \<le> now"
    "AppendDecisionOutput None now ref seqNo payload limits b = (b', state, err)"
    "dlog = (case visibleLog now ref b of None \<Rightarrow> emptyDecisionOutput | Some l \<Rightarrow> l)"
  shows "expiry_inv b'" "\<And>t. t < now + mb_stateTTL b \<Longrightarrow> visibleLog t ref b' = Some (fst (appendLog seqNo payload limits dlog))"
    "state = fst (snd (appendLog seqNo payload limits dlog))" "err = snd (snd (appendLog seqNo payload limits dlog))"
proof -
  let ?b = "purgeExpiredLocked now b"
  obtain b1 log1 where d: "decisionOutputLocked ref now ?b = (b1, log1)" by fastforce
  have ttl: "mb_stateTTL ?b = mb_stateTTL b" using assms(1) by (simp add: expiry_inv_def)
  note D = decisionOutputLocked_facts [OF purge_inv [OF assms(1)] assms(2) d]
  have dlog: "log1 = dlog" using D(2) assms(4) by (simp add: mapGet_def purged_log [OF assms(1)])
  have run: "b' = putDecisionOutput ref (fst (appendLog seqNo payload limits dlog)) b1"
    "state = fst (snd (appendLog seqNo payload limits dlog))" "err = snd (snd (appendLog seqNo payload limits dlog))"
    using assms(3) d dlog by (auto simp: AppendDecisionOutput_def split: prod.splits)
  show "state = fst (snd (appendLog seqNo payload limits dlog))" "err = snd (snd (appendLog seqNo payload limits dlog))"
    by (rule run)+
  show "expiry_inv b'" using D(1) by (simp add: run)
  show "visibleLog t ref b' = Some (fst (appendLog seqNo payload limits dlog))" if "t < now + mb_stateTTL b" for t
    using that D(4) by (simp add: run visibleLog_def putDecisionOutput_def expiredAt_def ttl)
qed

lemma appendLog_inv: "log_inv l \<Longrightarrow> log_inv (fst (appendLog seqNo payload limits l))"
  by (simp add: appendLog_def log_inv_def Let_def split: option.split)

end
