(* ===== verification/StoreProps.thy ===== *)
theory StoreProps
  imports BackendProps DecisionOutput
begin

text \<open>
  The properties of the in-process store apart from the live queues: expiry of
  snapshots, exclusion by reset leases, delivery of events to subscribers and the
  decision output logs.
\<close>

section \<open>Snapshots\<close>

inductive store_step :: "MemoryBackend \<Rightarrow> MemoryBackend \<Rightarrow> bool" where
  load: "Load c1 c2 now key b = (b', lr) \<Longrightarrow> store_step b b'"
| update: "Update c1 c2 now key f b = (b', ur) \<Longrightarrow> 0 \<le> now \<Longrightarrow> store_step b b'"
| start: "StartRunIfNoHistoryReset c1 now key f b = (b', ur) \<Longrightarrow> 0 \<le> now \<Longrightarrow> store_step b b'"
| append: "AppendDecisionOutput c1 now ref seqNo payload limits b = (b', ar) \<Longrightarrow> 0 \<le> now \<Longrightarrow> store_step b b'"
| readOutput: "ReadDecisionOutput c1 now ref from b = (b', rr) \<Longrightarrow> store_step b b'"
| claimOutput: "ClaimDecisionOutput c1 now ref b = (b', cr) \<Longrightarrow> 0 \<le> now \<Longrightarrow> store_step b b'"
| releaseOutput: "ReleaseDecisionOutput c1 ref b = (b', err) \<Longrightarrow> store_step b b'"

lemma Append_inv:
  assumes "expiry_inv b" "0 \<le> now" "AppendDecisionOutput c1 now ref seqNo payload limits b = (b', r)"
  shows "expiry_inv b'"
  using assms decisionOutputLocked_facts(1) [OF purge_inv [OF assms(1)] assms(2)]
  by (auto simp: AppendDecisionOutput_def split: option.splits prod.splits)

lemma Claim_inv:
  assumes "expiry_inv b" "0 \<le> now" "ClaimDecisionOutput c1 now ref b = (b', r)"
  shows "expiry_inv b'"
  using assms decisionOutputLocked_facts(1) [OF purge_inv [OF assms(1)] assms(2)]
  by (auto simp: ClaimDecisionOutput_def split: option.splits prod.splits if_splits)

lemma store_step_inv:
  assumes "store_step b b'" "expiry_inv b"
  shows "expiry_inv b'"
  using assms(1)
proof cases
  case (load c1 c2 now key lr)
  then show ?thesis using Load_inv assms(2) by blast
next
  case (update c1 c2 now key f ur)
  then show ?thesis using Update_inv assms(2) by blast
next
  case (start c1 now key f ur)
  then show ?thesis using StartRun_inv assms(2) by blast
next
  case (append c1 now ref seqNo payload limits ar)
  then show ?thesis using Append_inv assms(2) by blast
next
  case (claimOutput c1 now ref cr)
  then show ?thesis using Claim_inv assms(2) by blast
qed (use assms(2) in \<open>auto simp: ReadDecisionOutput_def ReleaseDecisionOutput_def Let_def split: option.splits\<close>)

lemma store_reachable: "store_step\<^sup>*\<^sup>* (NewMemoryBackendWithTTL uuid ttl) b \<Longrightarrow> expiry_inv b"
  by (induction rule: rtranclp_induct) (auto intro: NewMemoryBackend_inv store_step_inv)

text \<open>
  C14 (load_eager): although the store looks for expired entries only when the
  recorded next cleanup is due, a load in any reachable state answers as if every
  expired snapshot were dropped at once: an expired snapshot is not returned,
  unless its run is still active, and every other one is.
\<close>

theorem load_eager:
  assumes "store_step\<^sup>*\<^sup>* (NewMemoryBackendWithTTL uuid ttl) b"
  shows "snd (Load None None now key b) =
    Inr (case map_of (mb_snapshots b) (Key_String key) of
           None \<Rightarrow> None
         | Some s \<Rightarrow>
             if (case map_of (mb_snapshotExpiresAt b) (Key_String key) of None \<Rightarrow> False | Some e \<Rightarrow> e \<le> now) \<and> \<not> runIsActive (Some s)
             then None else Some (cloneSnapshot s))"
  using purge_effect(1) [OF store_reachable [OF assms], of now "Key_String key"]
  by (simp add: Load_def Let_def expiredAt_def split: option.splits)

text \<open>
  A snapshot stored by an update is what every load of that
  session returns until its lifetime is over, and longer while its run is active;
  other sessions' snapshots are not affected by the update.
\<close>

theorem update_load:
  assumes "store_step\<^sup>*\<^sup>* (NewMemoryBackendWithTTL uuid ttl) b" "0 \<le> now"
    "Update None None now key (Some f) b = (b', next, True, None)"
    "now' < now + mb_stateTTL b \<or> runIsActive (Some (cloneSnapshot next))"
  shows "snd (Load None None now' key b') = Inr (Some (cloneSnapshot next)) \<and>
    (Key_String key' \<noteq> Key_String key \<longrightarrow>
       map_of (mb_snapshots b') (Key_String key') = map_of (mb_snapshots (purgeExpiredLocked now b)) (Key_String key'))"
proof -
  note inv = store_reachable [OF assms(1)]
  have wf: "wfMap (mb_snapshotExpiresAt b)" using inv by (simp add: expiry_inv_def)
  have b': "b' = storeSnapshot now (Key_String key) next (purgeExpiredLocked now b)"
    using assms(3) by (auto simp: Update_def Let_def split: prod.splits if_splits)
  have inv': "expiry_inv b'" unfolding b' by (rule storeSnapshot_inv) (use inv assms(2) in simp_all)
  have stored: "map_of (mb_snapshots b') = (map_of (mb_snapshots (purgeExpiredLocked now b)))(Key_String key \<mapsto> cloneSnapshot next)"
    "map_of (mb_snapshotExpiresAt b') (Key_String key) = Some (now + mb_stateTTL b)"
    using wf by (simp_all add: b' storeSnapshot_def scheduleCleanupLocked_def)
  then show ?thesis
    using purge_effect(1) [OF inv', of now' "Key_String key"] assms(4)
    by (auto simp: Load_def Let_def expiredAt_def)
qed

lemma demo_store: "store_step\<^sup>*\<^sup>* (NewMemoryBackendWithTTL ''generation'' (24 * hour)) backend1"
proof -
  have "store_step backend0 backend1" by (rule store_step.update [OF demo_backend(1)]) simp
  then show ?thesis by (simp add: backend0_def NewMemoryBackend_def r_into_rtranclp)
qed

theorem load_eager_witness: "snd (Load None None 9 demoKey backend1) = Inr (Some (cloneSnapshot (fst (demoUpdate zeroSnapshot False))))"
proof -
  have "map_of (mb_snapshots backend1) (Key_String demoKey) = Some (cloneSnapshot (fst (demoUpdate zeroSnapshot False)))"
    "runIsActive (Some (cloneSnapshot (fst (demoUpdate zeroSnapshot False))))" by code_simp+
  then show ?thesis using load_eager [OF demo_store, of 9 demoKey] by simp
qed

section \<open>Reset leases\<close>

lemma resets_reachable: "reset_step\<^sup>*\<^sup>* (NewMemoryBackendWithTTL uuid ttl) b \<Longrightarrow> resets_inv (mb_historyResets b)"
proof (induction rule: rtranclp_induct)
  case base
  then show ?case by (simp add: resets_inv_def NewMemoryBackendWithTTL_def)
next
  case (step y z)
  then show ?case by (blast intro: reset_step_inv)
qed

text \<open>
  C15 (reset_exclusive): in every reachable state the leases in the table exclude
  each other: no two are for the same session, and a lease on a bot stands alone
  among the leases on that bot and its sessions.
\<close>

theorem reset_exclusive:
  assumes "reset_step\<^sup>*\<^sup>* (NewMemoryBackendWithTTL uuid ttl) b"
    "(k1, l1) \<in> set (mb_historyResets b)" "(k2, l2) \<in> set (mb_historyResets b)"
    "rs_BotID (rl_Scope l1) = rs_BotID (rl_Scope l2)"
    "rs_SessionID (rl_Scope l1) = '''' \<or> rs_SessionID (rl_Scope l1) = rs_SessionID (rl_Scope l2)"
  shows "k1 = k2 \<and> l1 = l2"
proof -
  have "resets_inv (mb_historyResets b)" by (rule resets_reachable [OF assms(1)])
  moreover have "conflicts (rl_Scope l1) (rl_Scope l2)" using assms(4,5) by (auto simp: conflicts_def)
  ultimately show ?thesis using assms(2,3) unfolding resets_inv_def by (metis prod.inject snd_conv)
qed

definition demoScope :: "string \<Rightarrow> ResetScope" where "demoScope sessionID = \<lparr>rs_BotID = ''bot'', rs_SessionID = sessionID\<rparr>"
definition resets1 :: MemoryBackend where "resets1 = fst (AcquireHistoryReset None 10 (demoScope ''session'') ''tok'' 100 backend0)"
definition lease1 :: ResetLease where "lease1 = \<lparr>rl_Scope = demoScope ''session'', rl_Token = ''tok'', rl_ExpiresAt = 110\<rparr>"

lemma demo_resets:
  "AcquireHistoryReset None 10 (demoScope ''session'') ''tok'' 100 backend0 = (resets1, Inr (Some lease1))"
  "mb_historyResets resets1 = [(historyResetKey (demoScope ''session''), lease1)]"
  by code_simp+

lemma demo_reset_reachable: "reset_step\<^sup>*\<^sup>* (NewMemoryBackendWithTTL ''generation'' (24 * hour)) resets1"
proof -
  have "reset_step backend0 resets1" by (rule reset_step.acquire [OF demo_resets(1)])
  then show ?thesis by (simp add: backend0_def NewMemoryBackend_def r_into_rtranclp)
qed

theorem reset_exclusive_witness:
  "fst (hd (mb_historyResets resets1)) = fst (last (mb_historyResets resets1)) \<and>
   snd (hd (mb_historyResets resets1)) = snd (last (mb_historyResets resets1))"
  by (rule reset_exclusive [OF demo_reset_reachable]) (simp_all add: demo_resets(2))

text \<open>
  In a reachable state an acquisition succeeds exactly when
  no lease that has not expired is for the same bot as a whole or for the same
  session (or, for a bot, for any of its sessions). Bot IDs are taken to contain
  no colon, as UUIDs do not: the keys of the table are joined by colons.
\<close>

theorem acquire_iff_free:
  assumes "reset_step\<^sup>*\<^sup>* (NewMemoryBackendWithTTL uuid0 ttl0) b" "ResetScope_valid scope" "TrimSpace token \<noteq> ''''" "0 < ttl"
    "colonFree (TrimSpace (rs_BotID scope))" "\<forall>(k, l)\<in>set (mb_historyResets b). colonFree (TrimSpace (rs_BotID (rl_Scope l)))"
  shows "(\<exists>b' lease. AcquireHistoryReset None now scope token ttl b = (b', Inr (Some lease))) \<longleftrightarrow>
    \<not> (\<exists>(k, l)\<in>set (mb_historyResets b). now < rl_ExpiresAt l \<and> conflicts (rl_Scope l) scope)"
proof -
  let ?s = "ResetScope_normalized scope" and ?m = "filter (\<lambda>(key, lease). now < rl_ExpiresAt lease) (mb_historyResets b)"
  have inv: "resets_inv (mb_historyResets b)" by (rule resets_reachable [OF assms(1)])
  then have m: "resets_inv ?m" by (rule resets_inv_filter)
  have "(\<exists>b' lease. AcquireHistoryReset None now scope token ttl b = (b', Inr (Some lease))) \<longleftrightarrow>
      effectiveHistoryResetLocked ?m ?s = None"
    using assms(2-4) by (auto simp: AcquireHistoryReset_def Let_def purgeHistoryResetsLocked_def ResetScope_valid_def split: option.splits)
  also have "\<dots> \<longleftrightarrow> \<not> (\<exists>p\<in>set ?m. conflicts (rl_Scope (snd p)) ?s)"
  proof
    assume none: "effectiveHistoryResetLocked ?m ?s = None"
    show "\<not> (\<exists>p\<in>set ?m. conflicts (rl_Scope (snd p)) ?s)"
    proof
      assume "\<exists>p\<in>set ?m. conflicts (rl_Scope (snd p)) ?s"
      then obtain p where "p \<in> set ?m" "conflicts (rl_Scope (snd p)) ?s" by blast
      then show False using effective_if_conflict [of p ?m ?s] m none unfolding resets_inv_def by blast
    qed
  next
    assume free: "\<not> (\<exists>p\<in>set ?m. conflicts (rl_Scope (snd p)) ?s)"
    show "effectiveHistoryResetLocked ?m ?s = None"
    proof (rule ccontr)
      assume "effectiveHistoryResetLocked ?m ?s \<noteq> None"
      then obtain l where l: "effectiveHistoryResetLocked ?m ?s = Some l" by blast
      have "colonFree (TrimSpace (rs_BotID ?s))" using assms(5) by (simp add: ResetScope_normalized_def)
      moreover have "\<forall>p\<in>set ?m. colonFree (TrimSpace (rs_BotID (rl_Scope (snd p))))" using assms(6) by auto
      ultimately show False using conflict_if_effective [OF l] m free by (auto simp: resets_inv_def)
    qed
  qed
  also have "\<dots> \<longleftrightarrow> \<not> (\<exists>(k, l)\<in>set (mb_historyResets b). now < rl_ExpiresAt l \<and> conflicts (rl_Scope l) scope)" by auto
  finally show ?thesis .
qed

theorem acquire_iff_free_witness:
  "\<not> (\<exists>b' lease. AcquireHistoryReset None 20 (demoScope '''') ''tok2'' 50 resets1 = (b', Inr (Some lease)))"
proof -
  have "ResetScope_valid (demoScope '''')" "TrimSpace ''tok2'' \<noteq> ''''" "colonFree (TrimSpace (rs_BotID (demoScope '''')))"
    "\<forall>(k, l)\<in>set (mb_historyResets resets1). colonFree (TrimSpace (rs_BotID (rl_Scope l)))"
    "\<exists>(k, l)\<in>set (mb_historyResets resets1). 20 < rl_ExpiresAt l \<and> conflicts (rl_Scope l) (demoScope '''')" by code_simp+
  then show ?thesis using acquire_iff_free [OF demo_reset_reachable, of "demoScope ''''" "''tok2''" 50 20] by simp
qed

text \<open>
  While an unexpired lease covers a session, no run is
  started on it: the call fails with the reset-in-progress error without asking
  the update function, and the session's snapshot stays as it is.
\<close>

theorem start_excluded:
  assumes "reset_step\<^sup>*\<^sup>* (NewMemoryBackendWithTTL uuid0 ttl0) b" "(k, l) \<in> set (mb_historyResets b)" "now < rl_ExpiresAt l"
    "conflicts (rl_Scope l) \<lparr>rs_BotID = k_BotID key, rs_SessionID = k_SessionID key\<rparr>"
    "StartRunIfNoHistoryReset None now key (Some f) b = (b', r)"
  shows "r = (zeroSnapshot, False, Some ErrHistoryResetInProgress) \<and> mb_snapshots b' = mb_snapshots b"
proof -
  let ?m = "filter (\<lambda>(key, lease). now < rl_ExpiresAt lease) (mb_historyResets b)"
  have inv: "resets_inv (mb_historyResets b)" by (rule resets_reachable [OF assms(1)])
  have "(k, l) \<in> set ?m" "resets_inv ?m" using assms(2,3) resets_inv_filter [OF inv] by auto
  then have "effectiveHistoryResetLocked ?m \<lparr>rs_BotID = k_BotID key, rs_SessionID = k_SessionID key\<rparr> \<noteq> None"
    using effective_if_conflict [of "(k, l)" ?m] assms(4) unfolding resets_inv_def by auto
  then show ?thesis
    using assms(5) by (auto simp: StartRunIfNoHistoryReset_def Let_def purgeHistoryResetsLocked_def)
qed

theorem start_excluded_witness:
  "snd (StartRunIfNoHistoryReset None 20 demoKey (Some demoUpdate) resets1) = (zeroSnapshot, False, Some ErrHistoryResetInProgress)"
proof -
  have "(historyResetKey (demoScope ''session''), lease1) \<in> set (mb_historyResets resets1)" by (simp add: demo_resets(2))
  moreover have "20 < rl_ExpiresAt lease1"
    "conflicts (rl_Scope lease1) \<lparr>rs_BotID = k_BotID demoKey, rs_SessionID = k_SessionID demoKey\<rparr>" by code_simp+
  ultimately show ?thesis using start_excluded [OF demo_reset_reachable _ _ _ surjective_pairing] by blast
qed

text \<open>
  Only the holder of a lease's token can prolong or end
  it. A renewal or release with another token reports failure and leaves every
  unexpired lease in place; a release with the token removes exactly that lease.
\<close>

theorem reset_token_holder:
  assumes "reset_step\<^sup>*\<^sup>* (NewMemoryBackendWithTTL uuid0 ttl0) b" "(historyResetKey (rl_Scope lease), current) \<in> set (mb_historyResets b)"
    "ResetLease_valid lease" "0 < ttl"
  shows "if rl_Token current = TrimSpace (rl_Token lease)
    then ReleaseHistoryReset None lease b =
      (b\<lparr>mb_historyResets := filter (\<lambda>p. fst p \<noteq> historyResetKey (rl_Scope lease)) (mb_historyResets b)\<rparr>, Inr True)
    else ReleaseHistoryReset None lease b = (b, Inr False) \<and>
      RenewHistoryReset None now lease ttl b =
        (b\<lparr>mb_historyResets := filter (\<lambda>(key, lease). now < rl_ExpiresAt lease) (mb_historyResets b)\<rparr>, Inr None)"
proof -
  let ?k = "historyResetKey (rl_Scope lease)" and ?m = "filter (\<lambda>(key, lease). now < rl_ExpiresAt lease) (mb_historyResets b)"
  have wf: "wfMap (mb_historyResets b)" using resets_reachable [OF assms(1)] by (simp add: resets_inv_def)
  then have cur: "map_of (mb_historyResets b) ?k = Some current" using assms(2) by (simp add: wfMap_set)
  then have "map_of ?m ?k = (if now < rl_ExpiresAt current then Some current else None)"
    using wf by (simp add: map_of_filter_wf)
  then show ?thesis
    using assms(3,4) cur
    by (auto simp: ReleaseHistoryReset_def RenewHistoryReset_def ResetLease_valid_def purgeHistoryResetsLocked_def Let_def mapDel_filter)
qed

theorem reset_token_holder_witness:
  "ReleaseHistoryReset None (lease1\<lparr>rl_Token := ''stolen''\<rparr>) resets1 = (resets1, Inr False)"
proof -
  have "(historyResetKey (rl_Scope (lease1\<lparr>rl_Token := ''stolen''\<rparr>)), lease1) \<in> set (mb_historyResets resets1)"
    by (simp add: demo_resets(2) lease1_def)
  moreover have "ResetLease_valid (lease1\<lparr>rl_Token := ''stolen''\<rparr>)"
    "rl_Token lease1 \<noteq> TrimSpace (rl_Token (lease1\<lparr>rl_Token := ''stolen''\<rparr>))" by code_simp+
  ultimately show ?thesis
    using reset_token_holder [OF demo_reset_reachable, of "lease1\<lparr>rl_Token := ''stolen''\<rparr>" lease1 100] by simp
qed

section \<open>Events\<close>

lemma subs_reachable: "subs_step\<^sup>*\<^sup>* (NewMemoryBackendWithTTL uuid ttl) b \<Longrightarrow> subs_inv (mb_subscribers b)"
proof (induction rule: rtranclp_induct)
  case base
  then show ?case by (simp add: NewMemoryBackendWithTTL_def newSubscriberSet_inv)
next
  case (step y z)
  then show ?case by (blast intro: subs_step_inv)
qed

lemma Publish_total: "subs_inv (mb_subscribers b) \<Longrightarrow> Publish c1 c2 drain event b \<noteq> None"
  using Publish_ok [OF _ refl, of b drain event] by (cases c1; cases c2) (auto simp: Publish_def)

lemma Close_ok:
  assumes "subs_inv (mb_subscribers b)"
  obtains b' where "Backend_Close b = Some b'" "mb_closed b'"
    "\<And>key subID e. \<not> mb_closed b \<Longrightarrow> subEntry (mb_subscribers b) key subID = Some e \<Longrightarrow> ch_closed (ss_chans (mb_subscribers b') ! en_ch e)"
proof (cases "mb_closed b")
  case True
  show ?thesis by (rule that [of b]) (use True in \<open>simp_all add: Backend_Close_def\<close>)
next
  case False
  obtain s' where "subs_closeAll (mb_subscribers b) = Some s'"
    "\<forall>key subID e. subEntry (mb_subscribers b) key subID = Some e \<longrightarrow> ch_closed (ss_chans s' ! en_ch e)"
    using closeAll_ok [OF assms] by blast
  then show ?thesis
    using False by (intro that [of "b\<lparr>mb_closed := True, mb_subscribers := s'\<rparr>"]) (auto simp: Backend_Close_def)
qed

text \<open>
  C16 (subscriptions_safe): in every state reached by subscribing, watching,
  unregistering, publishing, reading and closing in any order, no channel is
  closed twice and none is sent to after its close: publishing, unregistering any
  subscription, repeatedly too, and closing the backend never panic.
\<close>

theorem subscriptions_safe:
  assumes "subs_step\<^sup>*\<^sup>* (NewMemoryBackendWithTTL uuid ttl) b"
  shows "Publish c1 c2 drain event b \<noteq> None \<and> Subscription_unregister key subID b \<noteq> None \<and> Backend_Close b \<noteq> None"
proof -
  have inv: "subs_inv (mb_subscribers b)" by (rule subs_reachable [OF assms])
  obtain s' where "subs_unregister (mb_subscribers b) (Key_String key) subID = Some s'" using unregister_ok [OF inv] by blast
  then have "Subscription_unregister key subID b \<noteq> None" by (simp add: Subscription_unregister_def)
  moreover obtain b' where "Backend_Close b = Some b'" by (rule Close_ok [OF inv])
  ultimately show ?thesis using Publish_total [OF inv] by simp
qed

definition subs1 :: MemoryBackend where "subs1 = fst (Subscribe_register None demoKey backend0)"

lemma demo_subs: "Subscribe_register None demoKey backend0 = (subs1, Inr (Some (1, 0)))"
  "subEntry (mb_subscribers subs1) (Key_String demoKey) 1 = Some \<lparr>en_ch = 0, en_stop = False\<rparr>"
  by code_simp+

lemma demo_subs_reachable: "subs_step\<^sup>*\<^sup>* (NewMemoryBackendWithTTL ''generation'' (24 * hour)) subs1"
proof -
  have "ss_nextID (mb_subscribers backend0) < 2 ^ 63 - 1" by code_simp
  then have "subs_step backend0 subs1" by (rule subs_step.subscribe [OF demo_subs(1)])
  then show ?thesis by (simp add: backend0_def NewMemoryBackend_def r_into_rtranclp)
qed

theorem subscriptions_safe_witness: "Subscription_unregister demoKey 1 subs1 \<noteq> None"
  using subscriptions_safe [OF demo_subs_reachable] by blast

lemma deliver_result:
  assumes "deliver drain event chs chans = Some chans'" "distinct chs" "\<forall>c\<in>set chs. c < length chans" "ch \<in> set chs"
  shows "enqueueRuntimeEvent (fst (drain ch)) (snd (drain ch)) (chans ! ch) event = Some (chans' ! ch)"
proof -
  have frame: "chans' ! i = chans ! i" if "deliver drain event chs chans = Some chans'" "i \<notin> set chs" for i chs and chans chans' :: "Event chan list"
    using that by (induction chs arbitrary: chans) (auto split: option.splits)
  show ?thesis
    using assms
  proof (induction chs arbitrary: chans)
    case (Cons c chs)
    then obtain d where d: "enqueueRuntimeEvent (fst (drain c)) (snd (drain c)) (chans ! c) event = Some d"
      "deliver drain event chs (chans[c := d]) = Some chans'"
      by (auto split: option.splits)
    show ?case
    proof (cases "ch = c")
      case True
      then show ?thesis using d(1) frame [OF d(2), of c] Cons.prems(2,3) by simp
    next
      case False
      then show ?thesis using Cons.IH [OF d(2)] Cons.prems(2-4) by simp
    qed
  qed simp
qed

text \<open>
  A published event reaches every subscriber of its session
  and no other: a subscriber with room gets it appended to what waits in its
  channel; where the channel was full the last waiting item is the event or the
  marker telling that events were dropped. A channel never holds more than 64
  items.
\<close>

theorem publish_delivers:
  assumes "subs_step\<^sup>*\<^sup>* (NewMemoryBackendWithTTL uuid ttl) b" "subEntry (mb_subscribers b) key subID = Some e"
    "old = ss_chans (mb_subscribers b) ! en_ch e"
  shows "\<exists>b' new. Publish None None drain event b = Some (b', None) \<and> new = ss_chans (mb_subscribers b') ! en_ch e \<and>
    length (ch_buf new) \<le> 64 \<and>
    (if key = Key_String \<lparr>k_BotID = ev_BotID event, k_SessionID = ev_SessionID event\<rparr>
     then if length (ch_buf old) < 64 then ch_buf new = ch_buf old @ [event]
       else ch_buf new \<noteq> [] \<and> (last (ch_buf new) = event \<or> last (ch_buf new) = droppedEvent event)
     else new = old)"
proof -
  let ?s = "mb_subscribers b" and ?k = "Key_String \<lparr>k_BotID = ev_BotID event, k_SessionID = ev_SessionID event\<rparr>"
  have inv: "subs_inv ?s" by (rule subs_reachable [OF assms(1)])
  obtain b' where b': "Publish None None drain event b = Some (b', None)" "subs_inv (mb_subscribers b')"
    "ss_subs (mb_subscribers b') = ss_subs ?s"
    "\<forall>subID e. subEntry ?s ?k subID = Some e \<longrightarrow> received event (ss_chans (mb_subscribers b') ! en_ch e)"
    "\<forall>key subID e. subEntry ?s key subID = Some e \<longrightarrow> key \<noteq> ?k \<longrightarrow> ss_chans (mb_subscribers b') ! en_ch e = ss_chans ?s ! en_ch e"
    using Publish_ok [OF inv refl, of drain event] by blast
  let ?new = "ss_chans (mb_subscribers b') ! en_ch e"
  have "subEntry (mb_subscribers b') key subID = Some e" using assms(2) b'(3) by (simp add: subEntry_def)
  then have "?new \<in> set (ss_chans (mb_subscribers b'))" using subs_invD(5) [OF b'(2)] by simp
  then have small: "length (ch_buf ?new) \<le> 64" using subs_invD(4) [OF b'(2)] by (simp add: chanOK_def)
  show ?thesis
  proof (cases "key = ?k")
    case True
    let ?chs = "map (\<lambda>(subID, e). en_ch e) (mapGet [] (ss_subs ?s) ?k)"
    have del: "deliver drain event ?chs (ss_chans ?s) = Some (ss_chans (mb_subscribers b'))"
      using b'(1) by (auto simp: Publish_def Let_def split: option.splits)
    have "distinct ?chs" "en_ch e \<in> set ?chs" "\<forall>c\<in>set ?chs. c < length (ss_chans ?s)"
      using entries_addresses [OF inv refl, where key = ?k] assms(2) True subs_invD(5) [OF inv] by metis+
    from deliver_result [OF del this(1,3,2)]
    have enq: "enqueueRuntimeEvent (fst (drain (en_ch e))) (snd (drain (en_ch e))) old event = Some ?new" by (simp add: assms(3))
    have "old \<in> set (ss_chans ?s)" using subs_invD(5) [OF inv assms(2)] by (simp add: assms(3))
    then have "ch_cap old = 64" using subs_invD(4) [OF inv] by (simp add: chanOK_def)
    then have "length (ch_buf old) < 64 \<Longrightarrow> ch_buf ?new = ch_buf old @ [event]"
      using enq by (auto simp: enqueueRuntimeEvent_def split: if_splits dest: arg_cong [of _ _ ch_buf])
    moreover have "received event ?new" using b'(4) assms(2) True by blast
    ultimately show ?thesis using True small b'(1) unfolding received_def by (intro exI [of _ b'] exI [of _ ?new]) simp
  next
    case False
    then show ?thesis using b'(5) assms(2,3) small b'(1) by (intro exI [of _ b'] exI [of _ ?new]) simp
  qed
qed

theorem publish_delivers_witness:
  "\<exists>b'. Publish None None (\<lambda>_. (0, 0)) (\<lparr>ev_Type = EventRuntimeDelta, ev_BotID = ''bot'', ev_SessionID = ''session'', ev_Epoch = '''',
      ev_RunID = ''run'', ev_Seq = 1, ev_UpdatedAt = None, ev_Snapshot = None, ev_Delta = None, ev_Message = ''''\<rparr>) subs1 = Some (b', None) \<and>
     ch_buf (ss_chans (mb_subscribers b') ! 0) \<noteq> []"
  using publish_delivers [OF demo_subs_reachable demo_subs(2) refl, of "\<lambda>_. (0, 0)" "\<lparr>ev_Type = EventRuntimeDelta, ev_BotID = ''bot'', ev_SessionID = ''session'',
      ev_Epoch = '''', ev_RunID = ''run'', ev_Seq = 1, ev_UpdatedAt = None, ev_Snapshot = None, ev_Delta = None, ev_Message = ''''\<rparr>"]
  by (auto simp: demoKey_def split: if_splits)

text \<open>
  Closing the backend closes the channel of every
  subscriber; a second close changes nothing, a subscription made afterwards gets
  a channel that is already closed, and the queue operations report that they
  are unavailable.
\<close>

theorem close_ends_service:
  assumes "subs_step\<^sup>*\<^sup>* (NewMemoryBackendWithTTL uuid ttl) b" "\<not> mb_closed b" "subEntry (mb_subscribers b) key subID = Some e"
  shows "\<exists>b'. Backend_Close b = Some b' \<and> ch_closed (ss_chans (mb_subscribers b') ! en_ch e) \<and> Backend_Close b' = Some b' \<and>
    Subscribe_register None key' b' = (b', Inr None) \<and> CancelSteer None now key' itemID b' = (b', Some ErrLiveQueueUnavailable) \<and>
    ReorderFollowUp None now key' ref before b' = (b', Inl ErrLiveQueueUnavailable)"
proof (rule Close_ok [OF subs_reachable [OF assms(1)]])
  fix b'
  assume b': "Backend_Close b = Some b'" "mb_closed b'"
    "\<And>key subID e. \<not> mb_closed b \<Longrightarrow> subEntry (mb_subscribers b) key subID = Some e \<Longrightarrow> ch_closed (ss_chans (mb_subscribers b') ! en_ch e)"
  show ?thesis
    by (rule exI [of _ b'])
      (use b' assms(2,3) in \<open>simp add: Backend_Close_def Subscribe_register_def CancelSteer_def ReorderFollowUp_def\<close>)
qed

end
