(* ===== verification/DecisionProps.thy ===== *)
theory DecisionProps
  imports StoreProps
begin

text \<open>
  The decision output logs. A producer numbers the payloads of a stream from 1 and
  closes it with one more number; its appends may be repeated, reordered or lost.
\<close>

section \<open>A producer and its log\<close>

definition produce :: "bytes list \<Rightarrow> DecisionOutputLimits \<Rightarrow> memoryDecisionOutput \<Rightarrow> nat \<Rightarrow> memoryDecisionOutput" where
  "produce ps limits dlog i = fst (appendLog (int i) (if i \<le> length ps then Some (ps ! (i - 1)) else None) limits dlog)"

definition produced :: "bytes list \<Rightarrow> DecisionOutputLimits \<Rightarrow> memoryDecisionOutput \<Rightarrow> bool" where
  "produced ps limits l \<longleftrightarrow> prefix (do_events l) ps \<and> (do_done l \<longrightarrow> do_events l = ps) \<and>
     do_bytes l = sum_list (map length (do_events l)) \<and>
     (0 < dl_MaxBytes limits \<longrightarrow> int (do_bytes l) \<le> dl_MaxBytes limits) \<and>
     (0 < dl_MaxEvents limits \<longrightarrow> int (length (do_events l)) \<le> dl_MaxEvents limits)"

lemma prefix_snoc_nth: "prefix xs ps \<Longrightarrow> length xs < length ps \<Longrightarrow> prefix (xs @ [ps ! length xs]) ps"
  by (auto simp: prefix_def nth_append neq_Nil_conv)

lemma prefix_full: "prefix xs ps \<Longrightarrow> length ps \<le> length xs \<Longrightarrow> xs = ps"
  by (auto simp: prefix_def)

text \<open>The effect of one append on a log that holds the first \<open>n\<close> payloads.\<close>

lemma produce_cases:
  assumes "produced ps limits l"
  obtains "produce ps limits l i = l"
  | "i = Suc (length (do_events l))" "i \<le> length ps" "\<not> do_done l" "\<not> do_failed l"
    "produce ps limits l i = l\<lparr>do_events := do_events l @ [ps ! length (do_events l)], do_bytes := do_bytes l + length (ps ! length (do_events l))\<rparr>"
    "\<not> exceedsDecisionOutputLimits (do_bytes l) (length (do_events l)) (length (ps ! length (do_events l))) limits"
  | "i = Suc (length (do_events l))" "i \<le> length ps" "produce ps limits l i = l\<lparr>do_failed := True\<rparr>"
    "exceedsDecisionOutputLimits (do_bytes l) (length (do_events l)) (length (ps ! length (do_events l))) limits"
  | "i = Suc (length (do_events l))" "do_events l = ps" "produce ps limits l i = l\<lparr>do_done := True\<rparr>"
proof -
  let ?n = "length (do_events l)"
  have events: "prefix (do_events l) ps" using assms by (simp add: produced_def)
  show ?thesis
  proof (cases "do_done l \<or> do_failed l \<or> i \<noteq> Suc ?n")
    case True
    then have "produce ps limits l i = l" by (auto simp: produce_def appendLog_def Let_def)
    then show ?thesis by (rule that(1))
  next
    case fresh: False
    show ?thesis
    proof (cases "i \<le> length ps")
      case False
      then have "do_events l = ps" using fresh prefix_full [OF events] by simp
      then show ?thesis using fresh by (intro that(4)) (auto simp: produce_def appendLog_def Let_def)
    next
      case True
      then show ?thesis using fresh that(2,3) by (auto simp: produce_def appendLog_def Let_def)
    qed
  qed
qed

lemma produce_produced:
  assumes "produced ps limits l"
  shows "produced ps limits (produce ps limits l i)"
proof (rule produce_cases [OF assms, of i])
  assume i: "i = Suc (length (do_events l))" "i \<le> length ps" "\<not> do_done l"
    and eq: "produce ps limits l i = l\<lparr>do_events := do_events l @ [ps ! length (do_events l)],
      do_bytes := do_bytes l + length (ps ! length (do_events l))\<rparr>"
    and room: "\<not> exceedsDecisionOutputLimits (do_bytes l) (length (do_events l)) (length (ps ! length (do_events l))) limits"
  show ?thesis
    using assms i room prefix_snoc_nth [of "do_events l" ps] unfolding eq
    by (auto simp: produced_def exceedsDecisionOutputLimits_def)
qed (use assms in \<open>auto simp: produced_def\<close>)

lemma produce_all: "produced ps limits l \<Longrightarrow> produced ps limits (foldl (produce ps limits) l seqs)"
  by (induction seqs arbitrary: l) (auto intro: produce_produced)

lemma produced_empty: "produced ps limits emptyDecisionOutput"
  by (simp add: produced_def emptyDecisionOutput_def)

text \<open>
  C23 (decision_log_prefix): whatever appends of a stream arrive, in whatever order
  and however often, the log holds a prefix of the stream, within the limits; and
  if it is closed it holds the whole stream.
\<close>

theorem decision_log_prefix:
  "let l = foldl (produce ps limits) emptyDecisionOutput seqs in
     prefix (do_events l) ps \<and> (do_done l \<longrightarrow> do_events l = ps) \<and>
     (0 < dl_MaxBytes limits \<longrightarrow> int (sum_list (map length (do_events l))) \<le> dl_MaxBytes limits) \<and>
     (0 < dl_MaxEvents limits \<longrightarrow> int (length (do_events l)) \<le> dl_MaxEvents limits)"
  using produce_all [OF produced_empty, of ps limits seqs] unfolding produced_def Let_def by metis

theorem decision_log_prefix_witness:
  "do_events (foldl (produce [''a'', ''b''] \<lparr>dl_MaxBytes = 9, dl_MaxEvents = 9\<rparr>) emptyDecisionOutput [2, 1, 1, 2, 3]) = [''a'', ''b'']"
proof -
  let ?l = "foldl (produce [''a'', ''b''] \<lparr>dl_MaxBytes = 9, dl_MaxEvents = 9\<rparr>) emptyDecisionOutput [2, 1, 1, 2, 3]"
  have "do_done ?l" by code_simp
  then show ?thesis
    using decision_log_prefix [of "[''a'', ''b'']" "\<lparr>dl_MaxBytes = 9, dl_MaxEvents = 9\<rparr>" "[2, 1, 1, 2, 3]"] by (simp add: Let_def)
qed

text \<open>How far a log has come: its payloads, and one more once it is closed.\<close>

definition progressOf :: "memoryDecisionOutput \<Rightarrow> nat" where
  "progressOf l = length (do_events l) + (if do_done l then 1 else 0)"

lemma sum_prefix_le:
  "prefix xs ps \<Longrightarrow> length xs < length ps \<Longrightarrow> sum_list (map length xs) + length (ps ! length xs) \<le> sum_list (map length ps)"
  by (auto simp: prefix_def nth_append neq_Nil_conv)

lemma produce_progress:
  assumes "produced ps limits l" "\<not> do_failed l"
    "dl_MaxBytes limits \<le> 0 \<or> int (sum_list (map length ps)) \<le> dl_MaxBytes limits"
    "dl_MaxEvents limits \<le> 0 \<or> int (length ps) \<le> dl_MaxEvents limits"
  shows "\<not> do_failed (produce ps limits l i)" "progressOf l \<le> progressOf (produce ps limits l i)"
    "i = Suc (progressOf l) \<Longrightarrow> i \<le> Suc (length ps) \<Longrightarrow> progressOf (produce ps limits l i) = i"
proof -
  let ?n = "length (do_events l)"
  have l: "prefix (do_events l) ps" "do_bytes l = sum_list (map length (do_events l))"
    using assms(1) by (simp_all add: produced_def)
  have fits: "\<not> exceedsDecisionOutputLimits (do_bytes l) ?n (length (ps ! ?n)) limits" if "?n < length ps"
    using assms(3,4) sum_prefix_le [OF l(1) that] that by (auto simp: exceedsDecisionOutputLimits_def l(2))
  show "\<not> do_failed (produce ps limits l i)" "progressOf l \<le> progressOf (produce ps limits l i)"
    by (rule produce_cases [OF assms(1), of i]; use assms(2) fits in \<open>simp add: progressOf_def\<close>)+
  show "progressOf (produce ps limits l i) = i" if i: "i = Suc (progressOf l)" "i \<le> Suc (length ps)"
  proof -
    have "\<not> do_done l" using i assms(1) by (auto simp: progressOf_def produced_def)
    then have "i = Suc ?n" using i(1) by (simp add: progressOf_def)
    then show ?thesis
      using \<open>\<not> do_done l\<close> assms(2) i(2) fits by (auto simp: produce_def appendLog_def Let_def progressOf_def)
  qed
qed

lemma produce_complete:
  assumes "subseq [Suc n..<length ps + 2] seqs" "produced ps limits l" "\<not> do_failed l" "n \<le> progressOf l"
    "dl_MaxBytes limits \<le> 0 \<or> int (sum_list (map length ps)) \<le> dl_MaxBytes limits"
    "dl_MaxEvents limits \<le> 0 \<or> int (length ps) \<le> dl_MaxEvents limits"
  shows "length ps < progressOf (foldl (produce ps limits) l seqs)"
  using assms(1-4)
proof (induction seqs arbitrary: n l rule: list.induct)
  case Nil
  then show ?case by (simp split: if_splits)
next
  case (Cons i seqs)
  let ?l = "produce ps limits l i"
  note P = produce_progress [OF Cons.prems(2,3) assms(5,6), of i]
  have l: "produced ps limits ?l" "\<not> do_failed ?l" using produce_produced [OF Cons.prems(2)] P(1) by simp_all
  show ?case
  proof (cases "subseq [Suc n..<length ps + 2] seqs")
    case True
    then show ?thesis using Cons.IH [OF True l] Cons.prems(4) P(2) by simp
  next
    case False
    then have "[Suc n..<length ps + 2] \<noteq> []" by (metis list_emb_Nil)
    then have "[Suc n..<length ps + 2] = Suc n # [Suc (Suc n)..<length ps + 2]"
      by (metis upt_eq_Nil_conv upt_conv_Cons le_less_linear)
    with Cons.prems(1) False have i: "i = Suc n" "subseq [Suc (Suc n)..<length ps + 2] seqs"
      by (metis subseq_Cons2_neq subseq_Cons2_iff)+
    have "Suc n \<le> progressOf ?l"
    proof (cases "progressOf l = n")
      case True
      then show ?thesis using P(3) i(1) \<open>[Suc n..<length ps + 2] \<noteq> []\<close> by (simp split: if_splits)
    next
      case False
      then show ?thesis using Cons.prems(4) P(2) by simp
    qed
    then show ?thesis using Cons.IH [OF i(2) l] by simp
  qed
qed

text \<open>
  C24 (decision_log_complete): if the appends of a stream that fits the limits
  arrive in order at least once each, with any repetitions and stale appends in
  between, the log ends up closed and holds the whole stream.
\<close>

theorem decision_log_complete:
  assumes "subseq [1..<length ps + 2] seqs"
    "dl_MaxBytes limits \<le> 0 \<or> int (sum_list (map length ps)) \<le> dl_MaxBytes limits"
    "dl_MaxEvents limits \<le> 0 \<or> int (length ps) \<le> dl_MaxEvents limits"
  shows "do_done (foldl (produce ps limits) emptyDecisionOutput seqs) \<and>
    do_events (foldl (produce ps limits) emptyDecisionOutput seqs) = ps"
proof -
  let ?l = "foldl (produce ps limits) emptyDecisionOutput seqs"
  have "length ps < progressOf ?l"
    by (rule produce_complete [of 0, OF _ produced_empty _ _ assms(2,3)])
      (use assms(1) in \<open>simp_all add: emptyDecisionOutput_def\<close>)
  moreover have "produced ps limits ?l" by (rule produce_all [OF produced_empty])
  ultimately show ?thesis by (auto simp: progressOf_def produced_def split: if_splits dest: prefix_length_le)
qed

theorem decision_log_complete_witness:
  "do_done (foldl (produce [''a'', ''b''] \<lparr>dl_MaxBytes = 2, dl_MaxEvents = 2\<rparr>) emptyDecisionOutput [2, 1, 3, 2, 1, 3])"
proof -
  have "subseq [1..<length [''a'', ''b''] + 2] [2, 1, 3, 2, 1, 3]" by code_simp
  from decision_log_complete [OF this, of "\<lparr>dl_MaxBytes = 2, dl_MaxEvents = 2\<rparr>"] show ?thesis by simp
qed

section \<open>Reading and forwarding\<close>

text \<open>
  A reader that continues from the number of events it
  has seen gets exactly what it has not: after an append, a read from any cursor
  returns the earlier events and the new payload, if it was taken, from there on.
\<close>

theorem decision_append_read:
  assumes "store_step\<^sup>*\<^sup>* (NewMemoryBackendWithTTL uuid ttl) b" "0 \<le> now" "now' < now + mb_stateTTL b"
    "snd (ReadDecisionOutput None now ref 0 b) = Inr page"
    "AppendDecisionOutput None now ref seqNo (Some p) limits b = (b', state, err)"
    "snd (ReadDecisionOutput None now' ref (int n) b') = Inr page'"
  shows "dp_Events page' =
    drop n (dp_Events page @ (if err = None \<and> ds_Applied state \<and> \<not> ds_Exceeded state then [p] else []))"
proof -
  have inv: "expiry_inv b" by (rule store_reachable [OF assms(1)])
  define dlog where "dlog = (case visibleLog now ref b of None \<Rightarrow> emptyDecisionOutput | Some l \<Rightarrow> l)"
  note A = Append_effect [OF inv assms(2,5) dlog_def]
  have read: "dp_Events page = do_events dlog"
    using assms(4) purged_log [OF inv, of now ref]
    by (auto simp: ReadDecisionOutput_def Let_def dlog_def emptyDecisionOutput_def split: option.splits)
  have "dp_Events page' = drop n (do_events (fst (appendLog seqNo (Some p) limits dlog)))"
    using assms(6) purged_log [OF A(1), of now' ref] A(2) [OF assms(3)]
    by (auto simp: ReadDecisionOutput_def Let_def min_def)
  then show ?thesis
    unfolding read A(3,4) by (auto simp: appendLog_def memoryDecisionOutput_state_def Let_def)
qed

definition demoRef :: DecisionOutputRef where "demoRef = \<lparr>dr_BotID = ''bot'', dr_CommandID = ''cmd''\<rparr>"
definition demoLimits :: DecisionOutputLimits where "demoLimits = \<lparr>dl_MaxBytes = 100, dl_MaxEvents = 10\<rparr>"

text \<open>
  Forwarding of a log has one claimant. After a
  claim request, granted or not, another one is granted only when the log has
  expired in between.
\<close>

theorem decision_claim_exclusive:
  assumes "store_step\<^sup>*\<^sup>* (NewMemoryBackendWithTTL uuid ttl) b" "0 \<le> now"
    "ClaimDecisionOutput None now ref b = (b1, Inr granted)"
  shows "snd (ClaimDecisionOutput None now' ref b1) = Inr (now + mb_stateTTL b \<le> now')"
proof -
  let ?b = "purgeExpiredLocked now b" and ?k = "DecisionOutputRef_String ref"
  have inv: "expiry_inv b" by (rule store_reachable [OF assms(1)])
  have ttl: "mb_stateTTL ?b = mb_stateTTL b" using inv by (simp add: expiry_inv_def)
  obtain b2 l where d: "decisionOutputLocked ref now ?b = (b2, l)" by fastforce
  note D = decisionOutputLocked_facts [OF purge_inv [OF inv] assms(2) d]
  obtain l' where l': "map_of (mb_decisionOutputs b1) ?k = Some l'" "do_claimed l'"
    and same: "mb_decisionOutputExpiresAt b1 = mb_decisionOutputExpiresAt b2" "expiry_inv b1"
    using assms(3) d D(1,3) by (auto simp: ClaimDecisionOutput_def putDecisionOutput_def expiry_inv_def split: if_splits)
  have "visibleLog now' ref b1 = (if now + mb_stateTTL b \<le> now' then None else Some l')"
    using l' D(4) by (simp add: visibleLog_def expiredAt_def same(1) ttl)
  then have "snd (decisionOutputLocked ref now' (purgeExpiredLocked now' b1)) = (if now + mb_stateTTL b \<le> now' then emptyDecisionOutput else l')"
    using purged_log [OF same(2), of now' ref] by (simp add: decisionOutputLocked_def Let_def mapGet_def)
  then show ?thesis
    using l'(2) by (auto simp: ClaimDecisionOutput_def emptyDecisionOutput_def split: prod.splits if_splits)
qed

end
