(* ===== verification/RunLifecycle.thy ===== *)
theory RunLifecycle
  imports MemoryBackend
begin

text \<open>
  The life of a run in the session's snapshot: the updates that the session manager
  (\<^verbatim>\<open>session/manager.go\<close>, \<^verbatim>\<open>commands.go\<close>, \<^verbatim>\<open>live_queue_manager.go\<close>, \<^verbatim>\<open>user_turns.go\<close>,
  \<^verbatim>\<open>reset.go\<close>) passes to the backend. Each is a function from the snapshot to the new
  snapshot, whether it changed, and an error, as the closures of the source are; what
  they read of the manager is an argument: \<open>owner\<close> is \<open>None\<close> without a distributed
  backend and the manager's owner ID with one.
\<close>

section \<open>Ownership\<close>

definition runOwnerMatches :: "string option \<Rightarrow> CurrentRunView \<Rightarrow> bool" where
  "runOwnerMatches owner run =
     (case owner of
        None \<Rightarrow> TrimSpace (cr_OwnerID run) = '''' \<and> cr_OwnerLeaseExpiresAt run = None
      | Some ownerID \<Rightarrow> TrimSpace (cr_OwnerID run) = ownerID)"

text \<open>\<open>ErrManagerClosed\<close> and \<open>context.Canceled\<close>\<close>

definition ErrManagerClosed :: GoError where
  "ErrManagerClosed = ErrorsNew ''session runtime manager is closed''"

definition contextCanceled :: GoError where
  "contextCanceled = ContextErr ''context canceled''"

text \<open>The snapshot with its run replaced, its sequence advanced and both stamped.\<close>

definition advance :: "gotime \<Rightarrow> CurrentRunView \<Rightarrow> Snapshot \<Rightarrow> Snapshot" where
  "advance now run s =
     s\<lparr>sn_Seq := wrap64 (sn_Seq s + 1), sn_UpdatedAt := now, sn_CurrentRunView := Some (run\<lparr>cr_UpdatedAt := now\<rparr>)\<rparr>"

type_synonym RunUpdate = "CurrentRunView \<Rightarrow> Snapshot \<Rightarrow> gotime \<Rightarrow> Snapshot \<times> bool \<times> GoError option"

section \<open>Claiming and activating\<close>

record runStart =
  st_botID :: string
  st_sessionID :: string
  st_runID :: string
  st_turnID :: string
  st_turnPosition :: int
  st_invocationID :: string
  st_configurationOnly :: bool
  st_fencingToken :: int

definition claimedRun :: "string option \<Rightarrow> runStart \<Rightarrow> string \<Rightarrow> gotime \<Rightarrow> duration \<Rightarrow> CurrentRunView" where
  "claimedRun owner start gen now ttl =
     \<lparr>cr_ResumeTurn = None, cr_ConfigurationOnly = st_configurationOnly start, cr_RunID = st_runID start,
      cr_TurnID = st_turnID start, cr_TurnPosition = st_turnPosition start, cr_InvocationID = st_invocationID start,
      cr_Generation = gen, cr_Status = RunStatusAdmitting,
      cr_OwnerID = (case owner of None \<Rightarrow> '''' | Some ownerID \<Rightarrow> ownerID),
      cr_OwnerLeaseExpiresAt = (case owner of None \<Rightarrow> None | Some _ \<Rightarrow> Some (now + ttl)),
      cr_StartedAt = now, cr_UpdatedAt = now, cr_Messages = [], cr_UserTurns = [], cr_SteerSupported = False,
      cr_FencingToken = st_fencingToken start, cr_SteerTurns = [], cr_ErrorCode = '''', cr_ProposedTerminalStatus = '''',
      cr_FinishProposedAt = None, cr_Operation = None, cr_Retry = None\<rparr>"

definition claimRun ::
    "string option \<Rightarrow> runStart \<Rightarrow> string \<Rightarrow> string \<Rightarrow> gotime \<Rightarrow> duration \<Rightarrow> Snapshot \<Rightarrow> bool \<Rightarrow> Snapshot \<times> bool \<times> GoError option" where
  "claimRun owner start gen epoch now ttl s0 exists =
     (let taken = (case sn_CurrentRunView s0 of
                     None \<Rightarrow> False
                   | Some run \<Rightarrow> isActiveRunStatus (cr_Status run) \<and> cr_RunID run \<noteq> st_runID start);
          (marked, lost) = (if taken \<and> owner \<noteq> None then markLostIfExpired (Some s0) now else (Some s0, False))
      in if taken \<and> \<not> lost then (s0, False, Some (ErrorfQ ''session %q already has an active runtime run'' (st_sessionID start)))
         else
           (let s = (case marked of None \<Rightarrow> s0 | Some m \<Rightarrow> m)
            in (s\<lparr>sn_BotID := st_botID start, sn_SessionID := st_sessionID start,
                  sn_Epoch := (if TrimSpace (sn_Epoch s) = '''' then epoch else sn_Epoch s),
                  sn_Seq := wrap64 (sn_Seq s + 1), sn_UpdatedAt := now,
                  sn_CurrentRunView := Some (claimedRun owner start gen now ttl)\<rparr>, True, None)))"

text \<open>
  A run recovered while it waits for a decision is reserved for the new owner: a view
  the backend kept stays as it was, otherwise the run is shown from the \<open>messages\<close> it
  persisted. \<open>LedgerRun\<close> has the fields of the ledger's run that this reads beside
  those of the handle.
\<close>

record LedgerRun =
  lr_TurnID :: string
  lr_TurnPosition :: int
  lr_InvocationID :: string
  lr_CreatedAt :: gotime

definition restoredRun :: "RunHandle \<Rightarrow> LedgerRun \<Rightarrow> UIMessage list \<Rightarrow> CurrentRunView" where
  "restoredRun handle run messages =
     \<lparr>cr_ResumeTurn = None, cr_ConfigurationOnly = False, cr_RunID = rh_RunID handle,
      cr_TurnID = lr_TurnID run, cr_TurnPosition = lr_TurnPosition run, cr_InvocationID = lr_InvocationID run,
      cr_Generation = '''', cr_Status = '''', cr_OwnerID = '''', cr_OwnerLeaseExpiresAt = None,
      cr_StartedAt = lr_CreatedAt run, cr_UpdatedAt = 0, cr_Messages = messages, cr_UserTurns = [],
      cr_SteerSupported = False, cr_FencingToken = 0, cr_SteerTurns = [], cr_ErrorCode = '''',
      cr_ProposedTerminalStatus = '''', cr_FinishProposedAt = None, cr_Operation = None, cr_Retry = None\<rparr>"

definition recoverRun ::
    "string option \<Rightarrow> RunHandle \<Rightarrow> LedgerRun \<Rightarrow> UIMessage list \<Rightarrow> string \<Rightarrow> gotime \<Rightarrow> duration \<Rightarrow>
     Snapshot \<Rightarrow> bool \<Rightarrow> Snapshot \<times> bool \<times> GoError option" where
  "recoverRun owner handle run messages epoch now ttl s0 exists =
     (let s = (if exists then s0 else EmptySnapshot (rh_BotID handle) (rh_SessionID handle));
          taken = (case sn_CurrentRunView s of
                     None \<Rightarrow> False
                   | Some view \<Rightarrow> cr_RunID view \<noteq> rh_RunID handle \<and> isActiveRunStatus (cr_Status view))
      in if taken then (s, False, Some (ErrorsNew ''another runtime run is active during decision recovery''))
         else
           (let kept = (case sn_CurrentRunView s of
                          None \<Rightarrow> restoredRun handle run messages
                        | Some view \<Rightarrow> if cr_RunID view \<noteq> rh_RunID handle then restoredRun handle run messages else view);
                view = kept\<lparr>cr_RunID := rh_RunID handle, cr_TurnID := lr_TurnID run, cr_TurnPosition := lr_TurnPosition run,
                            cr_Generation := rh_Generation handle, cr_FencingToken := rh_FencingToken handle,
                            cr_Status := RunStatusWaitingDecision,
                            cr_OwnerID := (case owner of None \<Rightarrow> '''' | Some ownerID \<Rightarrow> ownerID),
                            cr_OwnerLeaseExpiresAt := (case owner of None \<Rightarrow> None | Some _ \<Rightarrow> Some (now + ttl)),
                            cr_UpdatedAt := now\<rparr>
            in (s\<lparr>sn_BotID := rh_BotID handle, sn_SessionID := rh_SessionID handle,
                  sn_Epoch := (if TrimSpace (sn_Epoch s) = '''' then epoch else sn_Epoch s),
                  sn_Seq := wrap64 (sn_Seq s + 1), sn_UpdatedAt := now, sn_CurrentRunView := Some view\<rparr>, True, None)))"

text \<open>\<open>isClosed\<close> and \<open>held\<close>: the manager is closed, and its control for the run is still this one.\<close>

definition activateRun :: "string option \<Rightarrow> bool \<Rightarrow> bool \<Rightarrow> string \<Rightarrow> RunAdmissionView \<Rightarrow> RunUpdate" where
  "activateRun owner isClosed held runID admission run s now =
     (if isClosed then (s, False, Some ErrManagerClosed)
      else if \<not> held then (s, False, Some ErrRunOwnershipLost)
      else if cr_RunID run = runID \<and> runOwnerMatches owner run \<and> EqualFold (cr_Status run) RunStatusAborting
      then (s, False, Some contextCanceled)
      else if cr_RunID run \<noteq> runID \<or> \<not> runOwnerMatches owner run \<or> \<not> EqualFold (cr_Status run) RunStatusAdmitting
      then (s, False, Some (ErrorsNew ''reserved runtime run is no longer owned by this manager''))
      else
        (let turns = (case ra_RequestUserTurn admission of
                        Some turn \<Rightarrow> [turn]
                      | None \<Rightarrow>
                          (case ra_Operation admission of
                             Some op \<Rightarrow> (case ro_ReplacementUserTurn op of Some turn \<Rightarrow> [turn] | None \<Rightarrow> cr_UserTurns run)
                           | None \<Rightarrow> cr_UserTurns run));
             run' = run\<lparr>cr_Status := RunStatusRunning, cr_Operation := ra_Operation admission,
                        cr_ResumeTurn := ra_ResumeTurn admission, cr_UserTurns := turns\<rparr>
         in (advance now (the (stampRunTurnPosition (Some run'))) s, True, None)))"

section \<open>Events\<close>

text \<open>The fields of an agent event that only the manager reads.\<close>

record AgentEvent = StreamEvent +
  se_Code :: string
  se_Attempt :: int
  se_MaxAttempt :: int
  se_RetryDelayMs :: int
  se_RetryReason :: string

record agentTerminalProposal =
  tp_prepared :: bool
  tp_status :: string
  tp_at :: gotime

definition runErrorRunFailed :: string where
  "runErrorRunFailed = ''runtime_run_failed''"

definition retryView :: "AgentEvent \<Rightarrow> gotime \<Rightarrow> RunRetryView" where
  "retryView event now =
     \<lparr>rv_Attempt = se_Attempt event, rv_MaxAttempt = se_MaxAttempt event, rv_DelayMs = se_RetryDelayMs event,
      rv_Reason = se_RetryReason event, rv_RetryAt = now + wrap64 (se_RetryDelayMs event * millisecond)\<rparr>"

definition enterFinishing :: "agentTerminalProposal \<Rightarrow> gotime \<Rightarrow> CurrentRunView \<Rightarrow> CurrentRunView" where
  "enterFinishing proposal now run =
     (if \<not> tp_prepared proposal then run
      else run\<lparr>cr_Status := RunStatusFinishing, cr_ProposedTerminalStatus := tp_status proposal,
               cr_FinishProposedAt := Some (if isZeroTime (tp_at proposal) then now else tp_at proposal)\<rparr>)"

definition eventStatus :: "AgentEvent \<Rightarrow> agentTerminalProposal \<Rightarrow> bool \<Rightarrow> gotime \<Rightarrow> CurrentRunView \<Rightarrow> CurrentRunView" where
  "eventStatus event proposal resumeLive now run =
     (case se_Type event of
        ToolApprovalRequest \<Rightarrow>
          (if pendingDecisionEvent (StreamEvent.truncate event) then run\<lparr>cr_Status := RunStatusWaitingDecision\<rparr>
           else if resumeLive \<and> EqualFold (cr_Status run) RunStatusWaitingDecision then run\<lparr>cr_Status := RunStatusRunning\<rparr>
           else run)
      | UserInputRequest \<Rightarrow>
          (if pendingDecisionEvent (StreamEvent.truncate event) then run\<lparr>cr_Status := RunStatusWaitingDecision\<rparr>
           else if resumeLive \<and> EqualFold (cr_Status run) RunStatusWaitingDecision then run\<lparr>cr_Status := RunStatusRunning\<rparr>
           else run)
      | AgentStart \<Rightarrow> if EqualFold (cr_Status run) RunStatusWaitingDecision then run\<lparr>cr_Status := RunStatusRunning\<rparr> else run
      | AgentEnd \<Rightarrow> enterFinishing proposal now run
      | AgentAbort \<Rightarrow> enterFinishing proposal now run
      | StreamError \<Rightarrow> run\<lparr>cr_ErrorCode := (if TrimSpace (se_Code event) = '''' then runErrorRunFailed else TrimSpace (se_Code event))\<rparr>
      | _ \<Rightarrow> run)"

text \<open>
  The update of \<open>handleAgentEvent\<close>: \<open>messages\<close> are the visible messages of the event,
  \<open>proposal\<close> the terminal proposal the ledger accepted, \<open>resumeLive\<close> that no inline
  decision is open any more.
\<close>

definition agentEventUpdate ::
    "string option \<Rightarrow> RunHandle \<Rightarrow> AgentEvent \<Rightarrow> UIMessage list \<Rightarrow> agentTerminalProposal \<Rightarrow> bool \<Rightarrow> RunUpdate" where
  "agentEventUpdate owner handle event messages proposal resumeLive run s now =
     (if \<not> runMatchesHandle (Some run) handle \<or> \<not> runOwnerMatches owner run \<or>
         \<not> (isEventAcceptingRunStatus (cr_Status run) \<or>
            (EqualFold (cr_Status run) RunStatusFinishing \<and> terminalDecisionEvent (StreamEvent.truncate event)))
      then (s, False, None)
      else
        (let run1 = (if se_Type event = Retry then run\<lparr>cr_Messages := [], cr_Retry := Some (retryView event now)\<rparr>
                     else run\<lparr>cr_Retry := None\<rparr>);
             run2 = run1\<lparr>cr_Messages := foldl upsertUIMessage (cr_Messages run1) messages\<rparr>
         in (advance now (eventStatus event proposal resumeLive now run2) s, True, None)))"

section \<open>Abort, steering and the end\<close>

definition requestAbort :: "string option \<Rightarrow> string \<Rightarrow> RunUpdate" where
  "requestAbort owner runID run s now =
     (if cr_RunID run \<noteq> runID \<or> \<not> runOwnerMatches owner run \<or> \<not> isAbortableRunStatus (cr_Status run) then (s, False, None)
      else if EqualFold (cr_Status run) RunStatusAborting then (s, False, None)
      else (advance now (run\<lparr>cr_Status := RunStatusAborting\<rparr>) s, True, None))"

definition setSteerEnabled :: "string option \<Rightarrow> RunHandle \<Rightarrow> bool \<Rightarrow> RunUpdate" where
  "setSteerEnabled owner handle enabled run s now =
     (if \<not> runMatchesHandle (Some run) handle \<or> \<not> runOwnerMatches owner run \<or>
         (cr_Status run \<noteq> RunStatusRunning \<and> cr_Status run \<noteq> RunStatusWaitingDecision)
      then (s, False, Some ErrRunOwnershipLost)
      else if cr_SteerSupported run = enabled then (s, False, None)
      else (advance now (run\<lparr>cr_SteerSupported := enabled\<rparr>) s, True, None))"

definition finalStatus :: "string \<Rightarrow> CurrentRunView \<Rightarrow> string" where
  "finalStatus status run =
     (if status \<noteq> '''' then status
      else if EqualFold (cr_Status run) RunStatusAborting then RunStatusAborted
      else if TrimSpace (cr_ErrorCode run) \<noteq> '''' then RunStatusErrored
      else RunStatusCompleted)"

definition finishRunState :: "string option \<Rightarrow> string \<Rightarrow> string \<Rightarrow> RunUpdate" where
  "finishRunState owner status errorCode run s now =
     (if \<not> isActiveRunStatus (cr_Status run) then (s, False, None)
      else if \<not> runOwnerMatches owner run then (s, False, Some ErrRunOwnershipLost)
      else
        (let final = finalStatus status run;
             code = (if errorCode \<noteq> '''' then errorCode else cr_ErrorCode run)
         in (advance now (run\<lparr>cr_Status := final,
                 cr_ErrorCode := (if final = RunStatusCompleted \<or> final = RunStatusAborted then '''' else code),
                 cr_OwnerLeaseExpiresAt := None, cr_ProposedTerminalStatus := '''', cr_FinishProposedAt := None,
                 cr_Retry := None\<rparr>) s, True, None)))"

section \<open>User turns\<close>

record QueueUserTurnUpdate =
  qu_PersistedTurns :: "UITurn list"
  qu_AppliedSteerItemID :: string
  qu_AppliedSteerTurn :: "UITurn option"
  qu_ClaimedSteerItemID :: string
  qu_ClaimedSteerText :: string
  qu_ClaimedSteerTimestamp :: gotime
  qu_ClaimedSteerTurnID :: string
  qu_ClaimedSteerTurnPosition :: int

text \<open>The turns are normalized before the update; a turn must carry its ID.\<close>

definition namedTurn :: "string \<Rightarrow> UITurn \<Rightarrow> GoError + UITurn" where
  "namedTurn message turn =
     (case normalizeRequestUserTurn (Some turn) of
        Inl err \<Rightarrow> Inl err
      | Inr None \<Rightarrow> Inl (ErrorsNew message)
      | Inr (Some t) \<Rightarrow> if TrimSpace (ut_TurnID t) = '''' then Inl (ErrorsNew message) else Inr t)"

fun namedTurns :: "UITurn list \<Rightarrow> GoError + UITurn list" where
  "namedTurns [] = Inr []"
| "namedTurns (turn # turns) =
     (case namedTurn ''persisted runtime user turn requires turn_id'' turn of
        Inl err \<Rightarrow> Inl err
      | Inr t \<Rightarrow> (case namedTurns turns of Inl err \<Rightarrow> Inl err | Inr ts \<Rightarrow> Inr (t # ts)))"

fun upsertUserTurn :: "UITurn list \<Rightarrow> UITurn \<Rightarrow> UITurn list" where
  "upsertUserTurn [] incoming = [incoming]"
| "upsertUserTurn (t # ts) incoming =
     (if TrimSpace (ut_TurnID t) = TrimSpace (ut_TurnID incoming) then incoming # ts else t # upsertUserTurn ts incoming)"

text \<open>A turn that is already there as it is does not count as a change.\<close>

definition turnChanges :: "UITurn list \<Rightarrow> UITurn \<Rightarrow> bool" where
  "turnChanges turns incoming \<longleftrightarrow>
     List.find (\<lambda>t. TrimSpace (ut_TurnID t) = TrimSpace (ut_TurnID incoming)) turns \<noteq> Some incoming"

definition upsertTurns :: "UITurn list \<Rightarrow> UITurn list \<Rightarrow> UITurn list \<times> UITurn list" where
  "upsertTurns turns incoming =
     foldl (\<lambda>(ts, published) t. if turnChanges ts t then (upsertUserTurn ts t, published @ [t]) else (ts, published))
       (turns, []) incoming"

definition maxRuntimeMessageID :: "UIMessage list \<Rightarrow> int" where
  "maxRuntimeMessageID messages = foldl (\<lambda>maximum m. if maximum < um_ID m then um_ID m else maximum) (- 1) messages"

definition steerTurnIndex :: "SteerTurnView list \<Rightarrow> string \<Rightarrow> nat option" where
  "steerTurnIndex turns itemID =
     (case List.find (\<lambda>i. TrimSpace (sv_ItemID (turns ! i)) = itemID) [0..<length turns] of None \<Rightarrow> None | Some i \<Rightarrow> Some i)"

definition steerTurnID :: "UITurn option \<Rightarrow> string" where
  "steerTurnID turn = (case turn of None \<Rightarrow> '''' | Some t \<Rightarrow> TrimSpace (ut_TurnID t))"

definition steerTurnText :: "UITurn option \<Rightarrow> string" where
  "steerTurnText turn = (case turn of None \<Rightarrow> '''' | Some t \<Rightarrow> TrimSpace (ut_Text t))"

definition applySteerTurn ::
    "string \<Rightarrow> UITurn option \<Rightarrow> CurrentRunView \<Rightarrow> gotime \<Rightarrow> SteerTurnView list \<Rightarrow> SteerTurnView list \<times> SteerTurnView list" where
  "applySteerTurn itemID appliedTurn run now turns =
     (if itemID = '''' then (turns, [])
      else
        (case steerTurnIndex turns itemID of
           None \<Rightarrow>
             (let v = \<lparr>sv_ItemID = itemID, sv_Status = ''applied'', sv_Text = steerTurnText appliedTurn,
                       sv_TurnID = steerTurnID appliedTurn, sv_TurnPosition = 0,
                       sv_AfterMessageID = maxRuntimeMessageID (cr_Messages run), sv_Timestamp = now\<rparr>
              in (turns @ [v], [v]))
         | Some i \<Rightarrow>
             (let v0 = (turns ! i)\<lparr>sv_Status := ''applied''\<rparr>;
                  v = (case appliedTurn of
                         None \<Rightarrow> v0
                       | Some t \<Rightarrow> v0\<lparr>sv_TurnID := TrimSpace (ut_TurnID t),
                                      sv_TurnPosition := (case ut_TurnPosition t of None \<Rightarrow> sv_TurnPosition v0 | Some p \<Rightarrow> p),
                                      sv_Timestamp := ut_Timestamp t\<rparr>)
              in (turns[i := v], [v]))))"

definition claimSteerTurn ::
    "QueueUserTurnUpdate \<Rightarrow> CurrentRunView \<Rightarrow> gotime \<Rightarrow> SteerTurnView list \<Rightarrow> SteerTurnView list \<times> SteerTurnView list" where
  "claimSteerTurn update run now turns =
     (let itemID = TrimSpace (qu_ClaimedSteerItemID update) in
      if itemID = '''' then (turns, [])
      else
        (let v0 = \<lparr>sv_ItemID = itemID, sv_Status = ''claimed'', sv_Text = TrimSpace (qu_ClaimedSteerText update),
                   sv_TurnID = TrimSpace (qu_ClaimedSteerTurnID update), sv_TurnPosition = qu_ClaimedSteerTurnPosition update,
                   sv_AfterMessageID = maxRuntimeMessageID (cr_Messages run),
                   sv_Timestamp = (if isZeroTime (qu_ClaimedSteerTimestamp update) then now else qu_ClaimedSteerTimestamp update)\<rparr>
         in case steerTurnIndex turns itemID of
              None \<Rightarrow> (turns @ [v0], [v0])
            | Some i \<Rightarrow>
                (let old = turns ! i;
                     v1 = v0\<lparr>sv_AfterMessageID := sv_AfterMessageID old\<rparr>;
                     v = (if sv_TurnID v1 = '''' then v1\<lparr>sv_TurnID := sv_TurnID old, sv_TurnPosition := sv_TurnPosition old\<rparr> else v1)
                 in (turns[i := v], [v]))))"

text \<open>The update of \<open>PublishQueueUserTurns\<close>, on the normalized turns.\<close>

definition publishUserTurns ::
    "string option \<Rightarrow> RunHandle \<Rightarrow> QueueUserTurnUpdate \<Rightarrow> UITurn list \<Rightarrow> UITurn option \<Rightarrow> RunUpdate" where
  "publishUserTurns owner handle update normalized appliedTurn run s now =
     (if \<not> runMatchesHandle (Some run) handle \<or> \<not> runOwnerMatches owner run \<or> \<not> isActiveRunStatus (cr_Status run)
      then (s, False, Some ErrRunOwnershipLost)
      else
        (case upsertTurns (cr_UserTurns run) normalized of (userTurns, published) \<Rightarrow>
         case applySteerTurn (TrimSpace (qu_AppliedSteerItemID update)) appliedTurn run now (cr_SteerTurns run) of (steers1, applied) \<Rightarrow>
         case claimSteerTurn update run now steers1 of (steers2, claimed) \<Rightarrow>
           if published = [] \<and> applied = [] \<and> claimed = [] then (s, False, None)
           else (advance now (the (stampRunTurnPosition (Some (run\<lparr>cr_UserTurns := userTurns, cr_SteerTurns := steers2\<rparr>)))) s, True, None)))"

section \<open>The session's snapshot\<close>

text \<open>The update of \<open>liveSnapshot\<close> that gives a session its epoch.\<close>

definition ensureEpoch :: "Key \<Rightarrow> string \<Rightarrow> gotime \<Rightarrow> Snapshot \<Rightarrow> bool \<Rightarrow> Snapshot \<times> bool \<times> GoError option" where
  "ensureEpoch key epoch now s exists =
     (if exists \<and> TrimSpace (sn_Epoch s) \<noteq> '''' then (s, False, None)
      else
        (let s1 = (if exists then s else EmptySnapshot (k_BotID key) (k_SessionID key))
         in (s1\<lparr>sn_BotID := k_BotID key, sn_SessionID := k_SessionID key, sn_Epoch := epoch, sn_UpdatedAt := now\<rparr>, True, None)))"

text \<open>The update of \<open>invalidateHistoryResetSnapshots\<close>.\<close>

definition invalidateSnapshot :: "bool \<Rightarrow> string \<Rightarrow> gotime \<Rightarrow> Snapshot \<Rightarrow> bool \<Rightarrow> Snapshot \<times> bool \<times> GoError option" where
  "invalidateSnapshot beforeDeletion epoch now s exists =
     (if \<not> exists then (s, False, None)
      else if (beforeDeletion \<and> sn_CurrentRunView s = None) \<or>
              (\<not> beforeDeletion \<and> (case sn_CurrentRunView s of None \<Rightarrow> False | Some run \<Rightarrow> isActiveRunStatus (cr_Status run)))
      then (s, False, None)
      else (s\<lparr>sn_CurrentRunView := None, sn_Epoch := epoch, sn_Seq := 0, sn_UpdatedAt := now\<rparr>, True, None))"

section \<open>Updating the active run\<close>

text \<open>
  The guard of \<open>updateActiveAndPublish\<close> on the in-process backend; \<open>now\<close> is what
  the backend's clock gives inside the update.
\<close>

definition guardActive :: "ctx \<Rightarrow> gotime \<Rightarrow> RunHandle \<Rightarrow> RunUpdate \<Rightarrow> SnapshotUpdate" where
  "guardActive ctx now handle update s exists =
     (case sn_CurrentRunView s of
        None \<Rightarrow> (s, False, Some ErrRunOwnershipLost)
      | Some run \<Rightarrow>
          (if \<not> exists \<or> \<not> runMatchesHandle (Some run) handle \<or> \<not> isActiveRunStatus (cr_Status run)
           then (s, False, Some ErrRunOwnershipLost)
           else (case Backend_Now ctx now of
                   Inl err \<Rightarrow> (s, False, Some err)
                 | Inr t \<Rightarrow> update run s t)))"

definition updateActive ::
    "ctx \<Rightarrow> ctx \<Rightarrow> ctx \<Rightarrow> gotime \<Rightarrow> gotime \<Rightarrow> RunHandle \<Rightarrow> RunUpdate \<Rightarrow> MemoryBackend \<Rightarrow>
     MemoryBackend \<times> Snapshot \<times> bool \<times> GoError option" where
  "updateActive ctx1 ctx2 ctx3 now1 now2 handle0 update b =
     (let handle = RunHandle_normalized handle0 in
      if \<not> RunHandle_valid handle then (b, zeroSnapshot, False, Some ErrRunOwnershipLost)
      else Update ctx1 ctx2 now1 (RunHandle_key handle) (Some (guardActive ctx3 now2 handle update)) b)"

text \<open>The event \<open>publishRuntimeDelta\<close> publishes for a changed snapshot.\<close>

definition runtimeDeltaEvent :: "Snapshot \<Rightarrow> string \<Rightarrow> RuntimeDelta \<Rightarrow> Event" where
  "runtimeDeltaEvent s runID delta =
     \<lparr>ev_Type = EventRuntimeDelta, ev_BotID = sn_BotID s, ev_SessionID = sn_SessionID s, ev_Epoch = sn_Epoch s,
      ev_RunID = (if TrimSpace runID = '''' then (case sn_CurrentRunView s of None \<Rightarrow> '''' | Some run \<Rightarrow> cr_RunID run) else TrimSpace runID),
      ev_Seq = sn_Seq s, ev_UpdatedAt = Some (sn_UpdatedAt s), ev_Snapshot = None, ev_Delta = Some delta, ev_Message = ''''\<rparr>"

end
