(* ===== verification/LifecycleProps.thy ===== *)
theory LifecycleProps
  imports RunLifecycle StoreProps
begin

text \<open>
  The run of a session as a state machine, on the in-process backend: which status may
  follow which, that a run that ended stays ended, that a session has one active run,
  that the cursor of its snapshot advances, and that a handle of an earlier run or
  generation changes nothing.
\<close>

section \<open>Statuses\<close>

definition terminalStatuses :: "string list" where
  "terminalStatuses = [RunStatusCompleted, RunStatusAborted, RunStatusErrored, RunStatusLost]"

definition runStatuses :: "string list" where
  "runStatuses = [RunStatusAdmitting, RunStatusRunning, RunStatusWaitingDecision, RunStatusAborting, RunStatusFinishing] @ terminalStatuses"

text \<open>The changes of status a run can make while it is active.\<close>

definition activeMoves :: "(string \<times> string) list" where
  "activeMoves =
     [(RunStatusAdmitting, RunStatusRunning), (RunStatusAdmitting, RunStatusAborting),
      (RunStatusRunning, RunStatusWaitingDecision), (RunStatusRunning, RunStatusAborting), (RunStatusRunning, RunStatusFinishing),
      (RunStatusWaitingDecision, RunStatusRunning), (RunStatusWaitingDecision, RunStatusAborting),
      (RunStatusWaitingDecision, RunStatusFinishing),
      (RunStatusAborting, RunStatusWaitingDecision), (RunStatusAborting, RunStatusFinishing)]"

definition run_move :: "string \<Rightarrow> string \<Rightarrow> bool" where
  "run_move a b \<longleftrightarrow> isActiveRunStatus a \<and> (a = b \<or> (a, b) \<in> set activeMoves \<or> b \<in> set terminalStatuses)"

lemma status_fold: "\<forall>a\<in>set runStatuses. \<forall>b\<in>set runStatuses. EqualFold a b = (a = b)"
  by code_simp

lemma status_facts:
  "\<forall>a\<in>set runStatuses. isActiveRunStatus a = (a \<notin> set terminalStatuses)" "set terminalStatuses \<subseteq> set runStatuses"
  "RunStatusAdmitting \<in> set runStatuses" "RunStatusRunning \<in> set runStatuses" "RunStatusWaitingDecision \<in> set runStatuses"
  "RunStatusAborting \<in> set runStatuses" "RunStatusFinishing \<in> set runStatuses"
  by code_simp+

lemma fold_status [simp]:
  assumes "a \<in> set runStatuses"
  shows "EqualFold a RunStatusAdmitting = (a = RunStatusAdmitting)" "EqualFold a RunStatusRunning = (a = RunStatusRunning)"
    "EqualFold a RunStatusWaitingDecision = (a = RunStatusWaitingDecision)" "EqualFold a RunStatusAborting = (a = RunStatusAborting)"
    "EqualFold a RunStatusFinishing = (a = RunStatusFinishing)"
  using assms status_fold status_facts by blast+

section \<open>Steps\<close>

inductive run_update :: "RunUpdate \<Rightarrow> bool" where
  activate: "run_update (activateRun None isClosed held runID admission)"
| event: "run_update (agentEventUpdate None handle ev messages proposal resumeLive)"
| abort: "run_update (requestAbort None runID)"
| steer: "run_update (setSteerEnabled None handle enabled)"
| turns: "run_update (publishUserTurns None handle update normalized appliedTurn)"
| finish: "status = '''' \<or> status \<in> set terminalStatuses \<Longrightarrow> run_update (finishRunState None status errorCode)"

text \<open>
  The state is the stored snapshot with the IDs drawn so far, generations and epochs: a
  claim or a recovery draws a new generation, and an epoch. An update stores the clone
  of its result. A snapshot without an active run may expire.
\<close>

inductive life_step :: "string set \<times> Snapshot \<Rightarrow> string set \<times> Snapshot \<Rightarrow> bool" where
  claim: "claimRun None start gen ep now ttl s exists = (s', True, None) \<Longrightarrow> gen \<notin> used \<Longrightarrow> ep \<notin> insert gen used \<Longrightarrow>
    life_step (used, s) (insert ep (insert gen used), cloneSnapshot s')"
| recover: "recoverRun None handle run messages ep now ttl s exists = (s', True, None) \<Longrightarrow> exists \<or> s = zeroSnapshot \<Longrightarrow>
    rh_Generation handle \<notin> used \<Longrightarrow> ep \<notin> insert (rh_Generation handle) used \<Longrightarrow>
    life_step (used, s) (insert ep (insert (rh_Generation handle) used), cloneSnapshot s')"
| active: "run_update upd \<Longrightarrow> guardActive ctx now handle upd s True = (s', True, None) \<Longrightarrow> life_step (used, s) (used, cloneSnapshot s')"
| epoch: "ensureEpoch key ep now s exists = (s', True, None) \<Longrightarrow> exists \<or> s = zeroSnapshot \<Longrightarrow> ep \<notin> used \<Longrightarrow>
    life_step (used, s) (insert ep used, cloneSnapshot s')"
| reset: "invalidateSnapshot beforeDeletion ep now s True = (s', True, None) \<Longrightarrow> ep \<notin> used \<Longrightarrow>
    life_step (used, s) (insert ep used, cloneSnapshot s')"
| expire: "\<not> runIsActive (Some s) \<Longrightarrow> life_step (used, s) (used, zeroSnapshot)"

lemma wireValue_fields [simp]:
  "cr_Status (wireValue (wireView r)) = cr_Status r" "cr_RunID (wireValue (wireView r)) = cr_RunID r"
  "cr_Generation (wireValue (wireView r)) = cr_Generation r" "cr_FencingToken (wireValue (wireView r)) = cr_FencingToken r"
  by (simp_all add: wireValue_def wireView_def Let_def split: option.split)

lemma clone_fields [simp]:
  "sn_Seq (cloneSnapshot s) = sn_Seq s" "sn_Epoch (cloneSnapshot s) = sn_Epoch s"
  "sn_CurrentRunView (cloneSnapshot s) = map_option (\<lambda>r. wireValue (wireView r)) (sn_CurrentRunView s)"
  by (simp_all add: cloneSnapshot_alt)

lemma stamp_fields [simp]:
  "cr_Status (the (stampRunTurnPosition (Some r))) = cr_Status r" "cr_RunID (the (stampRunTurnPosition (Some r))) = cr_RunID r"
  "cr_Generation (the (stampRunTurnPosition (Some r))) = cr_Generation r"
  "cr_FencingToken (the (stampRunTurnPosition (Some r))) = cr_FencingToken r"
  by (simp_all add: stampRunTurnPosition_def)

text \<open>What every update of the active run does.\<close>

definition advances :: "CurrentRunView \<Rightarrow> Snapshot \<Rightarrow> Snapshot \<Rightarrow> bool" where
  "advances run s s' \<longleftrightarrow> sn_Seq s' = wrap64 (sn_Seq s + 1) \<and> sn_Epoch s' = sn_Epoch s \<and>
     (\<exists>run'. sn_CurrentRunView s' = Some run' \<and> cr_RunID run' = cr_RunID run \<and> cr_Generation run' = cr_Generation run \<and>
        cr_FencingToken run' = cr_FencingToken run \<and> cr_Status run' \<in> set runStatuses \<and> run_move (cr_Status run) (cr_Status run'))"

lemma advances_advance:
  assumes "cr_RunID run' = cr_RunID run" "cr_Generation run' = cr_Generation run" "cr_FencingToken run' = cr_FencingToken run"
    "cr_Status run' \<in> set runStatuses" "run_move (cr_Status run) (cr_Status run')"
  shows "advances run s (advance now run' s)"
  using assms by (simp add: advances_def advance_def)

lemma move_facts:
  "isActiveRunStatus a \<Longrightarrow> run_move a a"
  "isActiveRunStatus a \<Longrightarrow> b \<in> set terminalStatuses \<Longrightarrow> run_move a b"
  "isActiveRunStatus a \<Longrightarrow> (a, b) \<in> set activeMoves \<Longrightarrow> run_move a b"
  by (simp_all add: run_move_def)

lemma active_status [simp]:
  "isActiveRunStatus RunStatusAdmitting" "isActiveRunStatus RunStatusRunning" "isActiveRunStatus RunStatusWaitingDecision"
  "isActiveRunStatus RunStatusAborting" "isActiveRunStatus RunStatusFinishing"
  by (simp_all add: isActiveRunStatus_def)

lemma active_moves [simp]:
  "run_move RunStatusRunning RunStatusWaitingDecision" "run_move RunStatusRunning RunStatusFinishing"
  "run_move RunStatusWaitingDecision RunStatusRunning" "run_move RunStatusWaitingDecision RunStatusFinishing"
  "run_move RunStatusAborting RunStatusWaitingDecision" "run_move RunStatusAborting RunStatusFinishing"
  "run_move RunStatusAdmitting RunStatusRunning" "run_move RunStatusAdmitting RunStatusAborting"
  "run_move RunStatusRunning RunStatusAborting" "run_move RunStatusWaitingDecision RunStatusAborting"
  by (simp_all add: run_move_def activeMoves_def)

lemma enterFinishing_fields [simp]:
  "cr_RunID (enterFinishing p now run) = cr_RunID run" "cr_Generation (enterFinishing p now run) = cr_Generation run"
  "cr_FencingToken (enterFinishing p now run) = cr_FencingToken run"
  "cr_Status (enterFinishing p now run) = (if tp_prepared p then RunStatusFinishing else cr_Status run)"
  by (simp_all add: enterFinishing_def)

lemma eventStatus_fields:
  "cr_RunID (eventStatus ev p live now run) = cr_RunID run"
  "cr_Generation (eventStatus ev p live now run) = cr_Generation run"
  "cr_FencingToken (eventStatus ev p live now run) = cr_FencingToken run"
  by (simp_all add: eventStatus_def split: StreamEventType.split)

text \<open>A decision event that a finishing run accepts leaves its status.\<close>

lemma eventStatus_finishing:
  assumes "cr_Status run = RunStatusFinishing" "terminalDecisionEvent (StreamEvent.truncate ev)"
  shows "cr_Status (eventStatus ev p live now run) = RunStatusFinishing"
proof -
  have "\<not> EqualFold RunStatusFinishing RunStatusWaitingDecision" by code_simp
  then show ?thesis using assms
    by (auto simp: eventStatus_def terminalDecisionEvent_def split: StreamEventType.split if_splits)
qed

lemma eventStatus_accepting:
  assumes "cr_Status run \<in> {RunStatusRunning, RunStatusWaitingDecision, RunStatusAborting}"
  shows "run_move (cr_Status run) (cr_Status (eventStatus ev p live now run))"
    "cr_Status (eventStatus ev p live now run) \<in> set runStatuses"
proof -
  have run: "cr_Status run \<in> set runStatuses" using assms status_facts by auto
  have same: "run_move (cr_Status run) (cr_Status run)" using assms by (auto intro: move_facts)
  show "run_move (cr_Status run) (cr_Status (eventStatus ev p live now run))"
    using assms run same by (auto simp: eventStatus_def split: StreamEventType.split)
  show "cr_Status (eventStatus ev p live now run) \<in> set runStatuses"
    using run status_facts(3-) by (auto simp: eventStatus_def split: StreamEventType.split)
qed

section \<open>The updates of an active run\<close>

lemma finalStatus_terminal: "status = '''' \<or> status \<in> set terminalStatuses \<Longrightarrow> finalStatus status run \<in> set terminalStatuses"
  by (auto simp: finalStatus_def terminalStatuses_def)

lemma update_advances:
  assumes "run_update upd" "upd run s t = (s', True, None)" "isActiveRunStatus (cr_Status run)" "cr_Status run \<in> set runStatuses"
  shows "advances run s s'"
  using assms
proof (induction rule: run_update.induct)
  case (activate isClosed held runID admission)
  then have "cr_Status run = RunStatusAdmitting"
    by (simp add: activateRun_def Let_def split: if_splits option.splits)
  with activate show ?case
    by (auto simp: activateRun_def Let_def status_facts simp del: fold_status intro!: advances_advance split: if_splits)
next
  case (event handle ev messages proposal resumeLive)
  then have acc: "cr_Status run \<in> {RunStatusRunning, RunStatusWaitingDecision, RunStatusAborting} \<or>
      cr_Status run = RunStatusFinishing \<and> terminalDecisionEvent (StreamEvent.truncate ev)"
    by (auto simp: agentEventUpdate_def isEventAcceptingRunStatus_def Let_def split: if_splits)
  define run1 where "run1 = (if se_Type ev = Retry then run\<lparr>cr_Messages := [], cr_Retry := Some (retryView ev t)\<rparr> else run\<lparr>cr_Retry := None\<rparr>)"
  define run2 where "run2 = run1\<lparr>cr_Messages := foldl upsertUIMessage (cr_Messages run1) messages\<rparr>"
  have run2: "cr_Status run2 = cr_Status run" "cr_RunID run2 = cr_RunID run" "cr_Generation run2 = cr_Generation run"
      "cr_FencingToken run2 = cr_FencingToken run" "s' = advance t (eventStatus ev proposal resumeLive t run2) s"
    using event by (auto simp: run1_def run2_def agentEventUpdate_def Let_def split: if_splits)
  have "run_move (cr_Status run) (cr_Status (eventStatus ev proposal resumeLive t run2)) \<and>
      cr_Status (eventStatus ev proposal resumeLive t run2) \<in> set runStatuses"
    using acc
  proof
    assume "cr_Status run \<in> {RunStatusRunning, RunStatusWaitingDecision, RunStatusAborting}"
    then show ?thesis using eventStatus_accepting [of run2] run2 by simp
  next
    assume "cr_Status run = RunStatusFinishing \<and> terminalDecisionEvent (StreamEvent.truncate ev)"
    then show ?thesis using eventStatus_finishing [of run2 ev] run2 status_facts by (simp add: run_move_def)
  qed
  then show ?case using run2 by (auto intro!: advances_advance simp: eventStatus_fields)
next
  case (abort runID)
  then show ?case
    by (auto simp: requestAbort_def isAbortableRunStatus_def isEventAcceptingRunStatus_def status_facts
        intro!: advances_advance split: if_splits)
next
  case (steer handle enabled)
  then show ?case
    by (auto simp: setSteerEnabled_def intro!: advances_advance move_facts(1) split: if_splits)
next
  case (turns handle update normalized appliedTurn)
  then show ?case
    by (auto simp: publishUserTurns_def intro!: advances_advance move_facts(1) split: if_splits prod.splits)
next
  case (finish status errorCode)
  then show ?case
    using finalStatus_terminal [of status run] status_facts(2)
    by (auto simp: finishRunState_def Let_def intro!: advances_advance move_facts(2) split: if_splits)
qed

lemma guard_advances:
  assumes "run_update upd" "guardActive ctx now handle upd s True = (s', True, None)"
    "\<And>run. sn_CurrentRunView s = Some run \<Longrightarrow> cr_Status run \<in> set runStatuses"
  shows "\<exists>run. sn_CurrentRunView s = Some run \<and> runMatchesHandle (Some run) handle \<and> isActiveRunStatus (cr_Status run) \<and> advances run s s'"
  using assms update_advances [OF assms(1)]
  by (auto simp: guardActive_def split: option.splits if_splits sum.splits)

section \<open>What a step does\<close>

text \<open>What the runs and the cursor of a session satisfy, and how a step changes them.\<close>

definition life_ok :: "string set \<Rightarrow> Snapshot \<Rightarrow> bool" where
  "life_ok used s \<longleftrightarrow> (TrimSpace (sn_Epoch s) = '''' \<or> sn_Epoch s \<in> used) \<and>
     (\<forall>run. sn_CurrentRunView s = Some run \<longrightarrow> cr_Status run \<in> set runStatuses \<and> cr_Generation run \<in> used)"

definition same_run :: "CurrentRunView \<Rightarrow> CurrentRunView \<Rightarrow> bool" where
  "same_run run run' \<longleftrightarrow> cr_RunID run' = cr_RunID run \<and> cr_Generation run' = cr_Generation run \<and>
     cr_FencingToken run' = cr_FencingToken run \<and> (cr_Status run' = cr_Status run \<or> run_move (cr_Status run) (cr_Status run'))"

definition runs_step :: "string set \<Rightarrow> Snapshot \<Rightarrow> Snapshot \<Rightarrow> bool" where
  "runs_step used s s' \<longleftrightarrow>
     (case sn_CurrentRunView s' of
        None \<Rightarrow> \<not> runIsActive (Some s) \<or> sn_Seq s' = 0 \<and> sn_Epoch s' \<notin> used
      | Some run' \<Rightarrow>
          (case sn_CurrentRunView s of
             None \<Rightarrow> cr_Generation run' \<notin> used
           | Some run \<Rightarrow> same_run run run' \<or>
               cr_Generation run' \<notin> used \<and> (cr_RunID run' = cr_RunID run \<or> \<not> isActiveRunStatus (cr_Status run))))"

definition cursor_step :: "string set \<Rightarrow> Snapshot \<Rightarrow> Snapshot \<Rightarrow> bool" where
  "cursor_step used s s' \<longleftrightarrow> TrimSpace (sn_Epoch s') = '''' \<or> sn_Epoch s' \<notin> used \<or>
     sn_Epoch s' = sn_Epoch s \<and> sn_Seq s' = wrap64 (sn_Seq s + 1)"

lemma runIsActive_view [simp]:
  "runIsActive (Some s) = (case sn_CurrentRunView s of None \<Rightarrow> False | Some run \<Rightarrow> isActiveRunStatus (cr_Status run))"
  by (simp add: runIsActive_def split: option.splits)

lemma claim_steps:
  assumes "claimRun None start gen ep now ttl s exists = (s', True, None)" "gen \<notin> used" "ep \<notin> insert gen used" "life_ok used s"
  shows "life_ok (insert ep (insert gen used)) (cloneSnapshot s')" "runs_step used s (cloneSnapshot s')" "cursor_step used s (cloneSnapshot s')"
  using assms
  by (auto simp: claimRun_def claimedRun_def Let_def life_ok_def runs_step_def cursor_step_def status_facts simp del: fold_status split: if_splits option.splits)

lemma recover_steps:
  assumes "recoverRun None handle run messages ep now ttl s exists = (s', True, None)" "exists \<or> s = zeroSnapshot"
    "rh_Generation handle \<notin> used" "ep \<notin> insert (rh_Generation handle) used" "life_ok used s"
  shows "life_ok (insert ep (insert (rh_Generation handle) used)) (cloneSnapshot s')" "runs_step used s (cloneSnapshot s')"
    "cursor_step used s (cloneSnapshot s')"
proof -
  have "life_ok (insert ep (insert (rh_Generation handle) used)) (cloneSnapshot s') \<and> runs_step used s (cloneSnapshot s') \<and>
      cursor_step used s (cloneSnapshot s')"
  proof (cases exists)
    case True
    then show ?thesis using assms
      by (auto simp: recoverRun_def restoredRun_def Let_def life_ok_def runs_step_def cursor_step_def status_facts simp del: fold_status
          split: if_splits option.splits)
  next
    case False
    then show ?thesis using assms
      by (auto simp: recoverRun_def restoredRun_def EmptySnapshot_def zeroSnapshot_def Let_def life_ok_def runs_step_def cursor_step_def
          status_facts simp del: fold_status split: if_splits)
  qed
  then show "life_ok (insert ep (insert (rh_Generation handle) used)) (cloneSnapshot s')" "runs_step used s (cloneSnapshot s')"
    "cursor_step used s (cloneSnapshot s')" by simp_all
qed

lemma active_steps:
  assumes "run_update upd" "guardActive ctx now handle upd s True = (s', True, None)" "life_ok used s"
  shows "life_ok used (cloneSnapshot s')" "runs_step used s (cloneSnapshot s')" "cursor_step used s (cloneSnapshot s')"
proof -
  obtain run where run: "sn_CurrentRunView s = Some run" "isActiveRunStatus (cr_Status run)" "advances run s s'"
    using guard_advances [OF assms(1,2)] assms(3) by (auto simp: life_ok_def)
  then show "life_ok used (cloneSnapshot s')" "runs_step used s (cloneSnapshot s')" "cursor_step used s (cloneSnapshot s')"
    using assms(3) by (auto simp: advances_def life_ok_def runs_step_def cursor_step_def same_run_def)
qed

lemma epoch_steps:
  assumes "ensureEpoch key ep now s exists = (s', True, None)" "exists \<or> s = zeroSnapshot" "ep \<notin> used" "life_ok used s"
  shows "life_ok (insert ep used) (cloneSnapshot s')" "runs_step used s (cloneSnapshot s')" "cursor_step used s (cloneSnapshot s')"
  using assms
  by (auto simp: ensureEpoch_def EmptySnapshot_def zeroSnapshot_def Let_def life_ok_def runs_step_def cursor_step_def same_run_def
      split: if_splits option.splits)

lemma reset_steps:
  assumes "invalidateSnapshot beforeDeletion ep now s True = (s', True, None)" "ep \<notin> used" "life_ok used s"
  shows "life_ok (insert ep used) (cloneSnapshot s')" "runs_step used s (cloneSnapshot s')" "cursor_step used s (cloneSnapshot s')"
  using assms
  by (auto simp: invalidateSnapshot_def life_ok_def runs_step_def cursor_step_def split: if_splits)

lemma life_step_facts:
  assumes "life_step (used, s) (used', s')" "life_ok used s"
  shows "life_ok used' s'" "used \<subseteq> used'" "runs_step used s s'" "cursor_step used s s'"
proof -
  from assms(1) have "life_ok used' s' \<and> used \<subseteq> used' \<and> runs_step used s s' \<and> cursor_step used s s'"
  proof (cases rule: life_step.cases)
    case claim
    then show ?thesis using claim_steps [OF claim(3-5) assms(2)] by auto
  next
    case recover
    then show ?thesis using recover_steps [OF recover(3-6) assms(2)] by auto
  next
    case active
    then show ?thesis using active_steps [OF active(3,4) assms(2)] by auto
  next
    case epoch
    then show ?thesis using epoch_steps [OF epoch(3-5) assms(2)] by auto
  next
    case reset
    then show ?thesis using reset_steps [OF reset(3,4) assms(2)] by auto
  next
    case expire
    have "TrimSpace '''' = ''''" by code_simp
    with expire show ?thesis
      by (auto simp: life_ok_def runs_step_def cursor_step_def zeroSnapshot_def)
  qed
  then show "life_ok used' s'" "used \<subseteq> used'" "runs_step used s s'" "cursor_step used s s'" by simp_all
qed

lemma life_zero: "life_ok {} zeroSnapshot"
proof -
  have "TrimSpace '''' = ''''" by code_simp
  then show ?thesis by (simp add: life_ok_def zeroSnapshot_def)
qed

lemma life_reachable: "life_step\<^sup>*\<^sup>* a b \<Longrightarrow> life_ok (fst a) (snd a) \<Longrightarrow> life_ok (fst b) (snd b)"
  by (induction rule: rtranclp_induct) (auto dest: life_step_facts(1))

section \<open>Properties\<close>

text \<open>A session with a run that is claimed, activated and finished.\<close>

definition demoStart :: runStart where
  "demoStart = \<lparr>st_botID = ''bot'', st_sessionID = ''session'', st_runID = ''run'', st_turnID = ''turn'', st_turnPosition = 1,
     st_invocationID = ''inv'', st_configurationOnly = False, st_fencingToken = 0\<rparr>"

definition demoActivate :: RunUpdate where
  "demoActivate = activateRun None False True ''run'' \<lparr>ra_ResumeTurn = None, ra_RequestUserTurn = None, ra_Operation = None\<rparr>"

definition life1 :: Snapshot where "life1 = cloneSnapshot (fst (claimRun None demoStart ''gen'' ''epoch'' 5 0 zeroSnapshot False))"
definition life2 :: Snapshot where "life2 = cloneSnapshot (fst (guardActive None 6 (demoHandle '''' 0) demoActivate life1 True))"
definition life3 :: Snapshot where "life3 = cloneSnapshot (fst (guardActive None 7 (demoHandle '''' 0) (finishRunState None '''' '''') life2 True))"

lemma demo_claim: "claimRun None demoStart ''gen'' ''epoch'' 5 0 zeroSnapshot False =
    (fst (claimRun None demoStart ''gen'' ''epoch'' 5 0 zeroSnapshot False), True, None)"
  by (simp add: claimRun_def zeroSnapshot_def)

lemma demo_activate: "guardActive None 6 (demoHandle '''' 0) demoActivate life1 True =
    (fst (guardActive None 6 (demoHandle '''' 0) demoActivate life1 True), True, None)"
  by code_simp

lemma demo_finish: "guardActive None 7 (demoHandle '''' 0) (finishRunState None '''' '''') life2 True =
    (fst (guardActive None 7 (demoHandle '''' 0) (finishRunState None '''' '''') life2 True), True, None)"
  by code_simp

lemma demo_life:
  "life_step ({}, zeroSnapshot) ({''epoch'', ''gen''}, life1)" "life_step ({''epoch'', ''gen''}, life1) ({''epoch'', ''gen''}, life2)"
  "life_step ({''epoch'', ''gen''}, life2) ({''epoch'', ''gen''}, life3)"
proof -
  show "life_step ({}, zeroSnapshot) ({''epoch'', ''gen''}, life1)"
    unfolding life1_def by (rule life_step.claim [OF demo_claim]) simp_all
  show "life_step ({''epoch'', ''gen''}, life1) ({''epoch'', ''gen''}, life2)"
    unfolding life2_def by (rule life_step.active [OF _ demo_activate]) (simp add: demoActivate_def run_update.activate)
  show "life_step ({''epoch'', ''gen''}, life2) ({''epoch'', ''gen''}, life3)"
    unfolding life3_def by (rule life_step.active [OF _ demo_finish]) (simp add: run_update.finish)
qed

lemma demo_runs:
  "map_option cr_Status (sn_CurrentRunView life1) = Some RunStatusAdmitting"
  "map_option cr_Status (sn_CurrentRunView life2) = Some RunStatusRunning"
  "map_option cr_Status (sn_CurrentRunView life3) = Some RunStatusCompleted"
  "sn_Seq life1 = 1" "sn_Seq life3 = 3" "sn_Epoch life1 = ''epoch''" "sn_Epoch life3 = ''epoch''"
  by code_simp+

text \<open>
  C3 (run_lifecycle): in every state a session can reach, a step that keeps the
  generation of the run keeps its ID and its fencing token, its status stays one of
  the nine, and it changes only along \<open>activeMoves\<close> or, from an active status, to a
  terminal one: no terminal status is ever left and nothing returns to admitting.
\<close>

theorem run_lifecycle:
  assumes "life_step\<^sup>*\<^sup>* ({}, zeroSnapshot) (used, s)" "life_step (used, s) (used', s')"
    "sn_CurrentRunView s = Some run" "sn_CurrentRunView s' = Some run'" "cr_Generation run' = cr_Generation run"
  shows "cr_RunID run' = cr_RunID run \<and> cr_FencingToken run' = cr_FencingToken run \<and> cr_Status run' \<in> set runStatuses \<and>
    (cr_Status run' = cr_Status run \<or> run_move (cr_Status run) (cr_Status run'))"
proof -
  have ok: "life_ok used s" using life_reachable [OF assms(1)] life_zero by simp
  then have "same_run run run'" using life_step_facts(3) [OF assms(2) ok] assms(3-5)
    by (auto simp: runs_step_def life_ok_def)
  then show ?thesis using life_step_facts(1) [OF assms(2) ok] assms(4) by (auto simp: same_run_def life_ok_def)
qed

theorem run_lifecycle_witness:
  "cr_Status (the (sn_CurrentRunView life2)) \<in> set runStatuses"
proof -
  have r: "life_step\<^sup>*\<^sup>* ({}, zeroSnapshot) ({''epoch'', ''gen''}, life1)" using demo_life(1) by blast
  have 1: "sn_CurrentRunView life1 = Some (the (sn_CurrentRunView life1))" by code_simp
  have 2: "sn_CurrentRunView life2 = Some (the (sn_CurrentRunView life2))" by code_simp
  have "cr_Generation (the (sn_CurrentRunView life2)) = cr_Generation (the (sn_CurrentRunView life1))" by code_simp
  from run_lifecycle [OF r demo_life(2) 1 2 this] show ?thesis by simp
qed

definition ownsActive :: "string \<Rightarrow> Snapshot \<Rightarrow> bool" where
  "ownsActive gen s = (case sn_CurrentRunView s of None \<Rightarrow> False | Some run \<Rightarrow> cr_Generation run = gen \<and> isActiveRunStatus (cr_Status run))"

lemma ended_step:
  assumes "life_step (used, s) (used', s')" "life_ok used s" "gen \<in> used" "\<not> ownsActive gen s"
  shows "\<not> ownsActive gen s'"
  using life_step_facts(3) [OF assms(1,2)] assms(3,4)
  by (auto simp: runs_step_def same_run_def run_move_def ownsActive_def split: option.splits)

text \<open>
  C2 (ended_run_final): a generation that was claimed and does not own the active run
  of its session never owns it again, whatever happens to the session.
\<close>

theorem ended_run_final:
  assumes "life_step\<^sup>*\<^sup>* ({}, zeroSnapshot) (used, s)" "gen \<in> used" "\<not> ownsActive gen s"
    "life_step\<^sup>*\<^sup>* (used, s) (used', s')"
  shows "\<not> ownsActive gen s'"
proof -
  have ok: "life_ok used s" using life_reachable [OF assms(1)] life_zero by simp
  have "life_ok (fst x) (snd x) \<and> gen \<in> fst x \<and> \<not> ownsActive gen (snd x)" if "life_step\<^sup>*\<^sup>* (used, s) x" for x
    using that
  proof (induction rule: rtranclp_induct)
    case base
    then show ?case using ok assms(2,3) by simp
  next
    case (step y z)
    then show ?case using life_step_facts(1,2) [of "fst y" "snd y" "fst z" "snd z"] ended_step [of "fst y" "snd y" "fst z" "snd z" gen]
      by auto
  qed
  from this [OF assms(4)] show ?thesis by simp
qed

theorem ended_run_final_witness: "\<not> ownsActive ''gen'' zeroSnapshot"
proof -
  have r: "life_step\<^sup>*\<^sup>* ({}, zeroSnapshot) ({''epoch'', ''gen''}, life3)"
    using demo_life by (meson rtranclp.rtrancl_into_rtrancl rtranclp.rtrancl_refl)
  have "\<not> runIsActive (Some life3)" by code_simp
  then have e: "life_step\<^sup>*\<^sup>* ({''epoch'', ''gen''}, life3) ({''epoch'', ''gen''}, zeroSnapshot)"
    by (blast intro: life_step.expire)
  have "\<not> ownsActive ''gen'' life3" by code_simp
  from ended_run_final [OF r _ this e] show ?thesis by simp
qed

lemma wrap64_step: "wrap64 (wrap64 x + 1) = wrap64 (x + 1)"
proof -
  have "wrap64 x + 1 + 2 ^ 63 = (x + 2 ^ 63) mod 2 ^ 64 + 1" by (simp add: wrap64_def)
  then show ?thesis by (simp add: wrap64_def mod_simps algebra_simps)
qed

text \<open>
  Within one epoch the cursor of a session counts the steps: after
  \<open>n\<close> of them the sequence number is \<open>n\<close> larger, as a Go \<open>int64\<close>. A subscriber that
  knows the epoch and the number therefore sees every change it missed as a gap.
\<close>

theorem run_cursor:
  assumes "life_step\<^sup>*\<^sup>* ({}, zeroSnapshot) (used, s)" "(life_step ^^ Suc n) (used, s) (used', s')"
    "TrimSpace (sn_Epoch s) \<noteq> ''''" "sn_Epoch s' = sn_Epoch s"
  shows "sn_Seq s' = wrap64 (sn_Seq s + int (Suc n))"
proof -
  have ok: "life_ok used s" using life_reachable [OF assms(1)] life_zero by simp
  have "life_ok used' s' \<and> used \<subseteq> used' \<and> (sn_Epoch s' = sn_Epoch s \<longrightarrow> sn_Seq s' = wrap64 (sn_Seq s + int (Suc n)))"
    using assms(2)
  proof (induction n arbitrary: used' s')
    case 0
    then have "life_step (used, s) (used', s')" by (simp add: eq_OO)
    from life_step_facts [OF this ok] show ?case using ok assms(3) by (auto simp: cursor_step_def life_ok_def)
  next
    case (Suc n)
    then obtain u t where t: "(life_step ^^ Suc n) (used, s) (u, t)" "life_step (u, t) (used', s')"
      by (metis relpowp_Suc_E surj_pair)
    note IH = Suc.IH [OF t(1)]
    then have step: "life_ok used' s'" "u \<subseteq> used'" "cursor_step u t s'" using life_step_facts [OF t(2)] by auto
    have "sn_Epoch s \<in> u" using IH ok assms(3) by (auto simp: life_ok_def)
    then have "sn_Epoch s' = sn_Epoch s \<longrightarrow> sn_Epoch t = sn_Epoch s \<and> sn_Seq s' = wrap64 (sn_Seq t + 1)"
      using step(3) assms(3) by (auto simp: cursor_step_def)
    then have "sn_Epoch s' = sn_Epoch s \<longrightarrow> sn_Seq s' = wrap64 (sn_Seq s + int (Suc (Suc n)))"
      using IH wrap64_step [of "sn_Seq s + int (Suc n)"] by (auto simp: algebra_simps)
    then show ?case using IH step by blast
  qed
  then show ?thesis using assms(4) by blast
qed

theorem run_cursor_witness: "sn_Seq life3 = wrap64 (sn_Seq life1 + 2)"
proof -
  have r: "life_step\<^sup>*\<^sup>* ({}, zeroSnapshot) ({''epoch'', ''gen''}, life1)" using demo_life(1) by blast
  have p: "(life_step ^^ Suc 1) ({''epoch'', ''gen''}, life1) ({''epoch'', ''gen''}, life3)"
    using demo_life(2,3) by (auto intro: relcomppI)
  have "TrimSpace (sn_Epoch life1) \<noteq> ''''" by code_simp
  from run_cursor [OF r p this] show ?thesis using demo_runs by simp
qed

text \<open>
  C5 (single_active_run): while a session has an active run, every step leaves that
  run in place, or drops it for a history reset, which restarts the cursor in an epoch
  never used before; and a claim for another run is refused without a change.
\<close>

theorem single_active_run:
  assumes "life_step\<^sup>*\<^sup>* ({}, zeroSnapshot) (used, s)" "sn_CurrentRunView s = Some run" "isActiveRunStatus (cr_Status run)"
    "life_step (used, s) (used', s')" "st_runID start \<noteq> cr_RunID run"
  shows "((\<exists>run'. sn_CurrentRunView s' = Some run' \<and> cr_RunID run' = cr_RunID run) \<or>
      (sn_CurrentRunView s' = None \<and> sn_Seq s' = 0 \<and> sn_Epoch s' \<notin> used)) \<and>
    claimRun None start gen ep now ttl s exists =
      (s, False, Some (ErrorfQ ''session %q already has an active runtime run'' (st_sessionID start)))"
proof -
  have ok: "life_ok used s" using life_reachable [OF assms(1)] life_zero by simp
  have "claimRun None start gen ep now ttl s exists =
      (s, False, Some (ErrorfQ ''session %q already has an active runtime run'' (st_sessionID start)))"
    using assms(2,3,5) by (simp add: claimRun_def)
  then show ?thesis
    using life_step_facts(3) [OF assms(4) ok] assms(2,3)
    by (auto simp: runs_step_def same_run_def split: option.splits)
qed

theorem single_active_run_witness:
  "snd (snd (claimRun None (demoStart\<lparr>st_runID := ''other''\<rparr>) ''gen2'' ''epoch2'' 9 0 life1 True)) \<noteq> None"
proof -
  have r: "life_step\<^sup>*\<^sup>* ({}, zeroSnapshot) ({''epoch'', ''gen''}, life1)" using demo_life(1) by blast
  have v: "sn_CurrentRunView life1 = Some (the (sn_CurrentRunView life1))" by code_simp
  have a: "isActiveRunStatus (cr_Status (the (sn_CurrentRunView life1)))" by code_simp
  have "st_runID (demoStart\<lparr>st_runID := ''other''\<rparr>) \<noteq> cr_RunID (the (sn_CurrentRunView life1))" by code_simp
  from single_active_run [OF r v a demo_life(2) this] show ?thesis by simp
qed

section \<open>The updates on the backend\<close>

text \<open>The snapshot an update of a session reads: a clone of what is stored, or the zero value.\<close>

definition liveView :: "MemoryBackend \<Rightarrow> Key \<Rightarrow> Snapshot" where
  "liveView b key = cloneSnapshot (mapGet zeroSnapshot (mb_snapshots b) (Key_String key))"

lemma clone_zero [simp]: "cloneSnapshot zeroSnapshot = zeroSnapshot"
  by (simp add: cloneSnapshot_alt zeroSnapshot_def)

lemma liveView_store: "liveView (storeSnapshot now (Key_String key) s b) key = cloneSnapshot s"
  by (simp add: liveView_def storeSnapshot_def scheduleCleanupLocked_def)

text \<open>Whether the handle is the one of the active run of its session.\<close>

definition ownsRun :: "RunHandle \<Rightarrow> MemoryBackend \<Rightarrow> bool" where
  "ownsRun handle b \<longleftrightarrow> RunHandle_valid handle \<and>
     map_of (mb_snapshots b) (Key_String (RunHandle_key (RunHandle_normalized handle))) \<noteq> None \<and>
     (let s = liveView b (RunHandle_key (RunHandle_normalized handle))
      in runMatchesHandle (sn_CurrentRunView s) handle \<and> runIsActive (Some s))"

lemma handle_normalized [simp]:
  "RunHandle_valid (RunHandle_normalized h) = RunHandle_valid h" "RunHandle_key (RunHandle_normalized h) = RunHandle_key h"
  "runMatchesHandle run (RunHandle_normalized h) = runMatchesHandle run h"
  by (simp_all add: RunHandle_valid_def RunHandle_key_def runMatchesHandle_def)

lemma guard_owns:
  assumes "b1 = purgeExpiredLocked now1 b" "RunHandle_valid handle"
  shows "guardActive ctx now (RunHandle_normalized handle) upd (liveView b1 (RunHandle_key handle))
      (map_of (mb_snapshots b1) (Key_String (RunHandle_key handle)) \<noteq> None) =
    (if ownsRun handle b1 then guardActive ctx now handle upd (liveView b1 (RunHandle_key handle)) True
     else (liveView b1 (RunHandle_key handle), False, Some ErrRunOwnershipLost))"
  using assms(2) by (auto simp: guardActive_def ownsRun_def Let_def runMatchesHandle_def split: option.splits)

lemma updateActive_alt:
  assumes "RunHandle_valid handle"
  shows "updateActive None None ctx now1 now2 handle upd b =
    (let b1 = purgeExpiredLocked now1 b; key = RunHandle_key handle in
     case (if ownsRun handle b1 then guardActive ctx now2 handle upd (liveView b1 key) True
           else (liveView b1 key, False, Some ErrRunOwnershipLost)) of
       (s, changed, err) \<Rightarrow>
         if err \<noteq> None \<or> \<not> changed then (b1, s, changed, err) else (storeSnapshot now1 (Key_String key) s b1, s, True, None))"
  using assms guard_owns [OF refl assms, of ctx now2 upd now1 b]
  by (simp add: updateActive_def Update_def Let_def flip: liveView_def)

text \<open>
  An update of a run through a handle that does not own the
  active run of its session, because the run ended, expired or was claimed anew, fails
  with \<open>ErrRunOwnershipLost\<close> and changes nothing but the expiry every access performs.
\<close>

theorem stale_owner_fenced:
  assumes "\<not> ownsRun handle (purgeExpiredLocked now1 b)"
  shows "fst (updateActive None None ctx now1 now2 handle upd b) \<in> {b, purgeExpiredLocked now1 b} \<and>
    snd (snd (updateActive None None ctx now1 now2 handle upd b)) = (False, Some ErrRunOwnershipLost)"
proof (cases "RunHandle_valid handle")
  case True
  then show ?thesis using assms by (simp add: updateActive_alt Let_def)
next
  case False
  then show ?thesis by (simp add: updateActive_def)
qed

theorem stale_owner_fenced_witness:
  "snd (snd (updateActive None None None 6 6 ((demoHandle ''o1'' 1)\<lparr>rh_Generation := ''old''\<rparr>) demoActivate backend1)) =
    (False, Some ErrRunOwnershipLost)"
proof -
  have "\<not> ownsRun ((demoHandle ''o1'' 1)\<lparr>rh_Generation := ''old''\<rparr>) (purgeExpiredLocked 6 backend1)" by code_simp
  from stale_owner_fenced [OF this] show ?thesis by simp
qed

text \<open>
  C4 (active_update_refines): an update of the active run that the backend reports as
  done was made by the owner, and it is a step of the session's run: the backend with
  its expiry, clone and store refines \<open>life_step\<close>.
\<close>

theorem active_update_refines:
  assumes "run_update upd" "updateActive None None ctx now1 now2 handle upd b = (b', s', True, None)"
  shows "ownsRun handle (purgeExpiredLocked now1 b) \<and>
    life_step (used, liveView (purgeExpiredLocked now1 b) (RunHandle_key handle)) (used, liveView b' (RunHandle_key handle))"
proof -
  have valid: "RunHandle_valid handle" using assms(2) by (auto simp: updateActive_def Let_def split: if_splits)
  let ?s = "liveView (purgeExpiredLocked now1 b) (RunHandle_key handle)"
  have "ownsRun handle (purgeExpiredLocked now1 b)" "guardActive ctx now2 handle upd ?s True = (s', True, None)"
    "b' = storeSnapshot now1 (Key_String (RunHandle_key handle)) s' (purgeExpiredLocked now1 b)"
    using assms(2) by (auto simp: updateActive_alt [OF valid] Let_def split: if_splits prod.splits)
  then show ?thesis using life_step.active [OF assms(1)] by (auto simp: liveView_store)
qed

definition demoLive :: MemoryBackend where
  "demoLive = fst (Update None None 5 demoKey (Some (claimRun None demoStart ''gen'' ''epoch'' 5 0)) backend0)"

lemma demo_active: "updateActive None None None 6 6 (demoHandle '''' 0) demoActivate demoLive =
    (fst (updateActive None None None 6 6 (demoHandle '''' 0) demoActivate demoLive),
     fst (snd (updateActive None None None 6 6 (demoHandle '''' 0) demoActivate demoLive)), True, None)"
  by code_simp

theorem active_update_refines_witness: "ownsRun (demoHandle '''' 0) (purgeExpiredLocked 6 demoLive)"
proof -
  have "run_update demoActivate" by (simp add: demoActivate_def run_update.activate)
  from active_update_refines [OF this demo_active] show ?thesis by simp
qed


end
