(* ===== verification/Utf8.thy ===== *)
theory Utf8
  imports GoPrelude
begin

text \<open>
  The part of Go's \<^verbatim>\<open>unicode/utf8\<close> that the text utilities use, on byte strings:
  the length of the well-formed rune at the head of a string, rune starts, validity,
  and the facts that joining and cutting at rune starts keep validity.
\<close>

section \<open>Runes\<close>

abbreviation byteVal :: "char \<Rightarrow> nat" where
  "byteVal c \<equiv> of_char c"

text \<open>\<open>utf8.RuneStart\<close>: the two top bits are not \<open>10\<close>.\<close>

definition RuneStart :: "char \<Rightarrow> bool" where
  "RuneStart c \<longleftrightarrow> \<not> (128 \<le> byteVal c \<and> byteVal c < 192)"

text \<open>
  By the first byte of a rune: its number of bytes, 0 when no rune starts so, and the
  range of its second byte.
\<close>

definition runeShape :: "nat \<Rightarrow> nat \<times> nat \<times> nat" where
  "runeShape n =
     (if n < 128 then (1, 0, 0)
      else if n < 194 then (0, 0, 0)
      else if n < 224 then (2, 128, 191)
      else if n = 224 then (3, 160, 191)
      else if n = 237 then (3, 128, 159)
      else if n < 240 then (3, 128, 191)
      else if n = 240 then (4, 144, 191)
      else if n < 244 then (4, 128, 191)
      else if n = 244 then (4, 128, 143)
      else (0, 0, 0))"

text \<open>The bytes of the well-formed rune a string starts with, 0 if there is none.\<close>

fun runeLen :: "string \<Rightarrow> nat" where
  "runeLen [] = 0"
| "runeLen (a # s) =
     (case runeShape (byteVal a) of (len, lo, hi) \<Rightarrow>
        if len \<le> 1 then len
        else if len - 1 \<le> length s \<and> lo \<le> byteVal (s ! 0) \<and> byteVal (s ! 0) \<le> hi \<and>
                list_all (\<lambda>c. \<not> RuneStart c) (take (len - 1) s)
        then len else 0)"

text \<open>The width \<open>utf8.DecodeRuneInString\<close> reports: an ill-formed byte counts as one rune.\<close>

definition runeWidth :: "string \<Rightarrow> nat" where
  "runeWidth s = max 1 (runeLen s)"

text \<open>\<open>utf8.ValidString\<close>\<close>

function validUTF8 :: "string \<Rightarrow> bool" where
  "validUTF8 [] = True"
| "validUTF8 (a # s) = (0 < runeLen (a # s) \<and> validUTF8 (drop (runeWidth (a # s)) (a # s)))"
  by pat_completeness auto
termination
  by (relation "measure length") (auto simp: runeWidth_def)

declare runeLen.simps(2) [simp del] validUTF8.simps(2) [simp del]

section \<open>Facts\<close>

lemma runeShape_size: "runeShape n = (len, lo, hi) \<Longrightarrow> len \<le> 4"
  by (auto simp: runeShape_def split: if_splits)

lemma runeLen_le: "runeLen s \<le> length s"
  by (cases s) (auto simp: runeLen.simps(2) split: prod.split)

lemma runeLen_ascii [simp]: "byteVal a < 128 \<Longrightarrow> runeLen (a # s) = 1"
  by (simp add: runeLen.simps(2) runeShape_def)

lemma runeWidth_ascii [simp]: "byteVal a < 128 \<Longrightarrow> runeWidth (a # s) = 1"
  by (simp add: runeWidth_def)

lemma runeLen_start:
  assumes "0 < runeLen (a # s)"
  shows "RuneStart a"
  using assms by (auto simp: runeLen.simps(2) RuneStart_def runeShape_def split: if_splits)

text \<open>Inside a rune there are only continuation bytes.\<close>

lemma runeLen_inner:
  assumes "0 < i" "i < runeLen s"
  shows "\<not> RuneStart (s ! i)"
proof (cases s)
  case (Cons a t)
  then obtain len lo hi where sh: "runeShape (byteVal a) = (len, lo, hi)" by (cases "runeShape (byteVal a)") auto
  then have "i < len" "list_all (\<lambda>c. \<not> RuneStart c) (take (len - 1) t)" "len - 1 \<le> length t"
    using assms Cons by (auto simp: runeLen.simps(2) split: if_splits)
  then have "\<not> RuneStart (t ! (i - 1))" using assms(1) by (auto simp: list_all_length)
  then show ?thesis using Cons assms(1) by simp
qed (use assms in simp)

text \<open>A rune does not depend on what follows it.\<close>

lemma runeLen_append: "0 < runeLen s \<Longrightarrow> runeLen (s @ t) = runeLen s"
proof (cases s)
  case (Cons a u)
  assume "0 < runeLen s"
  obtain len lo hi where sh: "runeShape (byteVal a) = (len, lo, hi)" by (cases "runeShape (byteVal a)") auto
  then have "len \<le> 1 \<or> (2 \<le> len \<and> len - 1 \<le> length u)"
    using \<open>0 < runeLen s\<close> Cons by (auto simp: runeLen.simps(2) split: if_splits)
  then show ?thesis using sh Cons by (auto simp: runeLen.simps(2) nth_append)
qed simp

lemma runeLen_take:
  assumes "runeLen s \<le> n"
  shows "runeLen (take n s) = runeLen s"
proof (cases "0 < runeLen (take n s)")
  case True
  then show ?thesis using runeLen_append [OF True, of "drop n s"] by simp
next
  case False
  show ?thesis
  proof (cases s)
    case (Cons a t)
    show ?thesis
    proof (cases n)
      case (Suc m)
      obtain len lo hi where sh: "runeShape (byteVal a) = (len, lo, hi)" by (cases "runeShape (byteVal a)") auto
      show ?thesis
      proof (cases "runeLen s = 0")
        case False
        then have "len \<le> 1 \<or> (len - 1 \<le> length t \<and> len - 1 \<le> m \<and> 2 \<le> len)"
          using assms sh Cons Suc by (auto simp: runeLen.simps(2) split: if_splits)
        then show ?thesis using sh Cons Suc by (auto simp: runeLen.simps(2) min_absorb1)
      qed (use False in simp)
    qed (use assms in simp)
  qed simp
qed

lemma valid_step: "s \<noteq> [] \<Longrightarrow> validUTF8 s \<longleftrightarrow> 0 < runeLen s \<and> validUTF8 (drop (runeLen s) s)"
proof (cases s)
  case (Cons a t)
  have "runeWidth s = runeLen s" if "0 < runeLen s" using that by (simp add: runeWidth_def)
  then show ?thesis using Cons by (auto simp: validUTF8.simps(2))
qed simp

lemma valid_induct [consumes 1, case_names Nil rune]:
  assumes "validUTF8 s" "P []"
    "\<And>s. s \<noteq> [] \<Longrightarrow> 0 < runeLen s \<Longrightarrow> validUTF8 (drop (runeLen s) s) \<Longrightarrow> P (drop (runeLen s) s) \<Longrightarrow> P s"
  shows "P s"
  using assms(1)
proof (induction "length s" arbitrary: s rule: less_induct)
  case less
  show ?case
  proof (cases "s = []")
    case False
    then have v: "0 < runeLen s" "validUTF8 (drop (runeLen s) s)" using less.prems valid_step by auto
    then have "length (drop (runeLen s) s) < length s" using False by simp
    then show ?thesis using assms(3) [OF False v less.hyps [OF _ v(2)]] by blast
  qed (use assms(2) in simp)
qed

lemma valid_append: "validUTF8 s \<Longrightarrow> validUTF8 t \<Longrightarrow> validUTF8 (s @ t)"
proof (induction s rule: valid_induct)
  case (rune s)
  then have "runeLen (s @ t) = runeLen s" "runeLen s \<le> length s" by (simp_all add: runeLen_append runeLen_le)
  then show ?case using rune by (simp add: valid_step [of "s @ t"])
qed simp

lemma valid_ascii_Cons [simp]: "byteVal a < 128 \<Longrightarrow> validUTF8 (a # s) \<longleftrightarrow> validUTF8 s"
  by (simp add: valid_step)

text \<open>A valid string cut where a rune starts gives two valid strings.\<close>

lemma valid_cut:
  assumes "validUTF8 s" "n \<le> length s" "n = length s \<or> RuneStart (s ! n)"
  shows "validUTF8 (take n s)" "validUTF8 (drop n s)"
proof -
  have "validUTF8 (take n s) \<and> validUTF8 (drop n s)"
    using assms
  proof (induction arbitrary: n rule: valid_induct)
    case (rune s)
    let ?w = "runeLen s"
    have w: "?w \<le> length s" by (rule runeLen_le)
    show ?case
    proof (cases "n = 0")
      case False
      have "?w \<le> n"
        using False rune.prems w runeLen_inner [of n s] by (metis linorder_not_less neq0_conv)
      have cut: "n - ?w \<le> length (drop ?w s)" "n - ?w = length (drop ?w s) \<or> RuneStart (drop ?w s ! (n - ?w))"
        using rune.prems \<open>?w \<le> n\<close> w by auto
      have IH: "validUTF8 (take (n - ?w) (drop ?w s))" "validUTF8 (drop (n - ?w) (drop ?w s))"
        using rune.IH [OF cut] by auto
      have t: "take n s \<noteq> []" "runeLen (take n s) = ?w"
        using False rune.hyps(1) runeLen_take [OF \<open>?w \<le> n\<close>] by auto
      have "drop ?w (take n s) = take (n - ?w) (drop ?w s)" by (rule drop_take)
      then show ?thesis using IH t rune.hyps(2) \<open>?w \<le> n\<close> valid_step [OF t(1)] by simp
    qed (use rune in \<open>simp add: valid_step\<close>)
  qed simp
  then show "validUTF8 (take n s)" "validUTF8 (drop n s)" by auto
qed

lemma RuneStart_ascii [simp]: "byteVal a < 128 \<Longrightarrow> RuneStart a"
  by (simp add: RuneStart_def)

end
