(* ===== verification/Prune.thy ===== *)
theory Prune
  imports Utf8 "HOL-Library.Sublist"
begin

text \<open>
  Pruning of long texts, \<^verbatim>\<open>internal/prune/text.go\<close>, and the limits built on it in
  \<^verbatim>\<open>internal/agent/context/limit\<close> (\<open>Tier.LimitString\<close> and the configuration that a
  tool-output limit gives). A text over its budget of bytes and lines is replaced by a
  header, its beginning and its end, shrunk until everything fits.
\<close>

section \<open>Lines\<close>

abbreviation newline :: char where "newline \<equiv> CHR 0x0A"

definition CountLines :: "string \<Rightarrow> int" where
  "CountLines s = (if s = '''' then 0 else int (count_list s newline) + 1)"

definition Exceeds :: "string \<Rightarrow> int \<Rightarrow> int \<Rightarrow> bool" where
  "Exceeds s maxBytes maxLines \<longleftrightarrow> maxBytes < int (length s) \<or> maxLines < CountLines s"

text \<open>\<open>strings.Split(s, "\n")\<close> and \<open>strings.Join(lines, "\n")\<close>\<close>

fun splitLines :: "string \<Rightarrow> string list" where
  "splitLines [] = [[]]"
| "splitLines (c # s) =
     (if c = newline then [] # splitLines s
      else (case splitLines s of l # ls \<Rightarrow> (c # l) # ls | [] \<Rightarrow> [[c]]))"

fun joinLines :: "string list \<Rightarrow> string" where
  "joinLines [] = ''''"
| "joinLines [l] = l"
| "joinLines (l # ls) = l @ newline # joinLines ls"

definition limitLinesPrefix :: "string \<Rightarrow> int \<Rightarrow> string" where
  "limitLinesPrefix s maxLines =
     (if maxLines \<le> 0 \<or> s = '''' then ''''
      else (let lines = splitLines s in
            if int (length lines) \<le> maxLines then s else joinLines (take (nat maxLines) lines)))"

definition limitLinesSuffix :: "string \<Rightarrow> int \<Rightarrow> string" where
  "limitLinesSuffix s maxLines =
     (if maxLines \<le> 0 \<or> s = '''' then ''''
      else (let lines = splitLines s in
            if int (length lines) \<le> maxLines then s else joinLines (drop (length lines - nat maxLines) lines)))"

section \<open>Cutting\<close>

text \<open>\<open>for cut > 0 && cut < len(s) && !utf8.RuneStart(s[cut]) { cut-- }\<close>\<close>

fun cutBack :: "string \<Rightarrow> nat \<Rightarrow> nat" where
  "cutBack s 0 = 0"
| "cutBack s (Suc n) = (if Suc n < length s \<and> \<not> RuneStart (s ! Suc n) then cutBack s n else Suc n)"

definition safeUTF8Prefix :: "string \<Rightarrow> int \<Rightarrow> string" where
  "safeUTF8Prefix s maxBytes =
     (if maxBytes \<le> 0 \<or> s = '''' then ''''
      else if int (length s) \<le> maxBytes then s
      else take (cutBack s (nat maxBytes)) s)"

text \<open>\<open>for start < len(s) && !utf8.RuneStart(s[start]) { start++ }\<close> and the rest from there.\<close>

definition safeUTF8Suffix :: "string \<Rightarrow> int \<Rightarrow> string" where
  "safeUTF8Suffix s maxBytes =
     (if maxBytes \<le> 0 \<or> s = '''' then ''''
      else if int (length s) \<le> maxBytes then s
      else dropWhile (\<lambda>c. \<not> RuneStart c) (drop (length s - nat maxBytes) s))"

definition boundedPrefix :: "string \<Rightarrow> int \<Rightarrow> int \<Rightarrow> string" where
  "boundedPrefix s maxBytes maxLines =
     (if s = '''' \<or> maxBytes \<le> 0 \<or> maxLines \<le> 0 then ''''
      else limitLinesPrefix (safeUTF8Prefix s (min maxBytes (int (length s)))) maxLines)"

definition boundedSuffix :: "string \<Rightarrow> int \<Rightarrow> int \<Rightarrow> string" where
  "boundedSuffix s maxBytes maxLines =
     (if s = '''' \<or> maxBytes \<le> 0 \<or> maxLines \<le> 0 then ''''
      else limitLinesSuffix (safeUTF8Suffix s (min maxBytes (int (length s)))) maxLines)"

section \<open>Budgets\<close>

record PruneConfig =
  pr_MaxBytes :: int
  pr_MaxLines :: int
  pr_HeadBytes :: int
  pr_TailBytes :: int
  pr_HeadLines :: int
  pr_TailLines :: int
  pr_Marker :: string

definition DefaultMarker :: string where "DefaultMarker = ''[memoh pruned]''"
definition DefaultMaxBytes :: int where "DefaultMaxBytes = 64 * 1024"
definition DefaultMaxLines :: int where "DefaultMaxLines = 2000"

definition normalizeConfig :: "PruneConfig \<Rightarrow> PruneConfig" where
  "normalizeConfig cfg =
     \<lparr>pr_MaxBytes = (if pr_MaxBytes cfg \<le> 0 then DefaultMaxBytes else pr_MaxBytes cfg),
      pr_MaxLines = (if pr_MaxLines cfg \<le> 0 then DefaultMaxLines else pr_MaxLines cfg),
      pr_HeadBytes = max 0 (pr_HeadBytes cfg), pr_TailBytes = max 0 (pr_TailBytes cfg),
      pr_HeadLines = max 0 (pr_HeadLines cfg), pr_TailLines = max 0 (pr_TailLines cfg),
      pr_Marker = (if pr_Marker cfg = '''' then DefaultMarker else pr_Marker cfg)\<rparr>"

definition fitBudget :: "string \<Rightarrow> PruneConfig \<Rightarrow> string" where
  "fitBudget s cfg =
     (if \<not> Exceeds s (pr_MaxBytes cfg) (pr_MaxLines cfg) then s
      else (let trimmed = boundedPrefix s (pr_MaxBytes cfg) (pr_MaxLines cfg)
            in if trimmed = '''' then pr_Marker cfg else trimmed))"

definition fitBudgetPreserveSuffix :: "string \<Rightarrow> string \<Rightarrow> PruneConfig \<Rightarrow> string" where
  "fitBudgetPreserveSuffix pre suf cfg =
     (if \<not> Exceeds (pre @ suf) (pr_MaxBytes cfg) (pr_MaxLines cfg) then pre @ suf
      else
        (let prefixBudget = goDiv (pr_MaxBytes cfg) 2;
             prefixLines = (let n = goDiv (pr_MaxLines cfg) 2 in if n \<le> 0 then 1 else n);
             trimmedPrefix = boundedPrefix pre prefixBudget prefixLines;
             remainingBytes = pr_MaxBytes cfg - int (length trimmedPrefix)
         in if remainingBytes \<le> 0 then fitBudget pre cfg
            else
              (let remainingLines = (let n = pr_MaxLines cfg - CountLines trimmedPrefix in if n \<le> 0 then 1 else n);
                   trimmedSuffix = boundedSuffix suf remainingBytes remainingLines
               in if trimmedSuffix = '''' then fitBudget pre cfg
                  else
                    (let candidate = trimmedPrefix @ trimmedSuffix in
                     if \<not> Exceeds candidate (pr_MaxBytes cfg) (pr_MaxLines cfg) then candidate
                     else fitBudget candidate cfg))))"

definition reducePositive :: "int \<Rightarrow> int" where
  "reducePositive n = (if n \<le> 1 then 0 else (let nxt = goDiv (wrap64 (n * 3)) 4 in if n \<le> nxt then n - 1 else nxt))"

definition reduceLines :: "int \<Rightarrow> int" where
  "reduceLines n = (if n \<le> 1 then 1 else reducePositive n)"

definition shrinkPrefix :: "string \<Rightarrow> string" where
  "shrinkPrefix s = boundedPrefix s (reducePositive (int (length s))) (reduceLines (CountLines s))"

definition shrinkSuffix :: "string \<Rightarrow> string" where
  "shrinkSuffix s = boundedSuffix s (reducePositive (int (length s))) (reduceLines (CountLines s))"

definition shrinkHeadTail :: "string \<Rightarrow> string \<Rightarrow> string \<times> string" where
  "shrinkHeadTail head tail =
     (if length head = 0 \<and> length tail = 0 then (head, tail)
      else if length tail \<le> length head \<and> (1 < length head \<or> 1 < CountLines head) then (shrinkPrefix head, tail)
      else if 1 < length tail \<or> 1 < CountLines tail then (head, shrinkSuffix tail)
      else if 0 < length head then ('''', tail)
      else (head, ''''))"

definition headTailSeparator :: string where
  "headTailSeparator = [newline, newline] @ ''[...snip...]'' @ [newline, newline]"

section \<open>Shrinking ends\<close>

lemma cutBack_le: "cutBack s n \<le> n"
  by (induction s n rule: cutBack.induct) auto

lemma joinLines_take: "prefix (joinLines (take n ls)) (joinLines ls)"
proof (induction ls arbitrary: n rule: joinLines.induct)
  case (2 l)
  then show ?case by (cases n) auto
next
  case (3 l m ls)
  show ?case
  proof (cases n)
    case (Suc k)
    show ?thesis
    proof (cases k)
      case 0
      then show ?thesis using Suc by (simp add: prefix_def)
    next
      case (Suc j)
      then have "joinLines (take n (l # m # ls)) = l @ newline # joinLines (take k (m # ls))"
        using \<open>n = Suc k\<close> by simp
      then show ?thesis using 3 [of k] by simp
    qed
  qed simp
qed simp

lemma joinLines_drop: "suffix (joinLines (drop n ls)) (joinLines ls)"
proof (induction ls arbitrary: n rule: joinLines.induct)
  case (2 l)
  then show ?case by (cases n) auto
next
  case (3 l m ls)
  show ?case
  proof (cases n)
    case (Suc k)
    then show ?thesis using 3 [of k] by (auto simp: suffix_def)
  qed simp
qed simp

lemma splitLines_ne [simp]: "splitLines s \<noteq> []"
  by (induction s) (auto split: list.split)

lemma joinLines_Cons: "ls \<noteq> [] \<Longrightarrow> joinLines (l # ls) = l @ newline # joinLines ls"
  by (cases ls) auto

lemma join_split [simp]: "joinLines (splitLines s) = s"
proof (induction s)
  case (Cons c s)
  obtain l ls where sp: "splitLines s = l # ls" by (cases "splitLines s") auto
  then show ?case using Cons by (cases ls) (auto simp: joinLines_Cons)
qed simp

lemma limitLinesPrefix_prefix: "prefix (limitLinesPrefix s n) s"
  using joinLines_take [of "nat n" "splitLines s"] by (auto simp: limitLinesPrefix_def Let_def)

lemma limitLinesSuffix_suffix: "suffix (limitLinesSuffix s n) s"
  using joinLines_drop [of "length (splitLines s) - nat n" "splitLines s"] by (auto simp: limitLinesSuffix_def Let_def)

lemma safeUTF8Prefix_prefix: "prefix (safeUTF8Prefix s n) s"
  by (simp add: safeUTF8Prefix_def take_is_prefix)

lemma safeUTF8Suffix_suffix: "suffix (safeUTF8Suffix s n) s"
  using suffix_dropWhile suffix_drop suffix_order.trans by (fastforce simp: safeUTF8Suffix_def)

lemma boundedPrefix_prefix: "prefix (boundedPrefix s m n) s"
  using limitLinesPrefix_prefix safeUTF8Prefix_prefix prefix_order.trans unfolding boundedPrefix_def by (simp split: if_split) blast

lemma boundedSuffix_suffix: "suffix (boundedSuffix s m n) s"
  using limitLinesSuffix_suffix safeUTF8Suffix_suffix suffix_order.trans unfolding boundedSuffix_def by (simp split: if_split) blast

lemma safeUTF8Prefix_length: "int (length (safeUTF8Prefix s n)) \<le> max 0 n"
  using cutBack_le [of s "nat n"] by (auto simp: safeUTF8Prefix_def)

lemma length_dropWhile_drop: "length (dropWhile P (drop n s)) \<le> length s - n"
  by (metis length_dropWhile_le length_drop)

lemma safeUTF8Suffix_length: "int (length (safeUTF8Suffix s n)) \<le> max 0 n"
  using length_dropWhile_drop [of "\<lambda>c. \<not> RuneStart c" "length s - nat n" s] by (auto simp: safeUTF8Suffix_def)

lemma boundedPrefix_length: "int (length (boundedPrefix s m n)) \<le> max 0 m"
  using prefix_length_le [OF limitLinesPrefix_prefix [of "safeUTF8Prefix s (min m (int (length s)))" n]]
    safeUTF8Prefix_length [of s "min m (int (length s))"] by (auto simp: boundedPrefix_def)

lemma boundedSuffix_length: "int (length (boundedSuffix s m n)) \<le> max 0 m"
  using suffix_length_le [OF limitLinesSuffix_suffix [of "safeUTF8Suffix s (min m (int (length s)))" n]]
    safeUTF8Suffix_length [of s "min m (int (length s))"] by (auto simp: boundedSuffix_def)

lemma reducePositive_less: "0 < n \<Longrightarrow> reducePositive n < n"
  by (auto simp: reducePositive_def Let_def)

text \<open>Every round changes nothing or makes the two parts shorter.\<close>

lemma shrinkPrefix_shorter: "s \<noteq> '''' \<Longrightarrow> length (shrinkPrefix s) < length s"
  using boundedPrefix_length [of s "reducePositive (int (length s))" "reduceLines (CountLines s)"]
    reducePositive_less [of "int (length s)"] by (cases "length s") (auto simp: shrinkPrefix_def)

lemma shrinkSuffix_shorter: "s \<noteq> '''' \<Longrightarrow> length (shrinkSuffix s) < length s"
  using boundedSuffix_length [of s "reducePositive (int (length s))" "reduceLines (CountLines s)"]
    reducePositive_less [of "int (length s)"] by (cases "length s") (auto simp: shrinkSuffix_def)

lemma shrinkHeadTail_shorter:
  assumes "shrinkHeadTail head tail = (head', tail')"
  shows "(head' = head \<and> tail' = tail \<and> head = '''' \<and> tail = '''') \<or> length head' + length tail' < length head + length tail"
  using assms shrinkPrefix_shorter [of head] shrinkSuffix_shorter [of tail]
  by (cases "head = ''''"; cases "tail = ''''")
    (auto simp: shrinkHeadTail_def CountLines_def split: if_splits)

function fitHeadTailLoop :: "string \<Rightarrow> string \<Rightarrow> string \<Rightarrow> PruneConfig \<Rightarrow> string" where
  "fitHeadTailLoop header head tail cfg =
     (let candidate = header @ head @ headTailSeparator @ tail in
      if \<not> Exceeds candidate (pr_MaxBytes cfg) (pr_MaxLines cfg) then candidate
      else
        (let (nextHead, nextTail) = shrinkHeadTail head tail in
         if nextHead = head \<and> nextTail = tail then fitBudgetPreserveSuffix (header @ head @ headTailSeparator) tail cfg
         else fitHeadTailLoop header nextHead nextTail cfg))"
  by pat_completeness auto
termination
proof (relation "measure (\<lambda>(header, head, tail, cfg). length head + length tail)")
  fix header head tail :: string and cfg :: PruneConfig and candidate p x y
  assume "candidate = header @ head @ headTailSeparator @ tail" "p = shrinkHeadTail head tail" "(x, y) = p"
    "\<not> (x = head \<and> y = tail)"
  then show "((header, x, y, cfg), (header, head, tail, cfg)) \<in> measure (\<lambda>(header, head, tail, cfg). length head + length tail)"
    using shrinkHeadTail_shorter [of head tail x y] by auto
qed simp

declare fitHeadTailLoop.simps [simp del]

definition fitHeadTailBudget :: "string \<Rightarrow> string \<Rightarrow> string \<Rightarrow> PruneConfig \<Rightarrow> string" where
  "fitHeadTailBudget header head tail cfg =
     (if tail = '''' then fitBudget (header @ head) cfg else fitHeadTailLoop header head tail cfg)"

section \<open>Pruning\<close>

text \<open>\<open>%d\<close> of a length.\<close>

fun decimal :: "nat \<Rightarrow> string" where
  "decimal n = (if n < 10 then [char_of (48 + n)] else decimal (n div 10) @ [char_of (48 + n mod 10)])"

declare decimal.simps [simp del]

definition sizeNote :: "string \<Rightarrow> string" where
  "sizeNote s = ''(bytes='' @ decimal (length s) @ '', lines='' @ decimal (nat (CountLines s)) @ '')''"

definition omittedText :: "string \<Rightarrow> string \<Rightarrow> PruneConfig \<Rightarrow> string" where
  "omittedText s label cfg = pr_Marker cfg @ '' '' @ label @ '' omitted '' @ sizeNote s"

definition headerText :: "string \<Rightarrow> string \<Rightarrow> PruneConfig \<Rightarrow> string" where
  "headerText s label cfg =
     pr_Marker cfg @ '' '' @ label @ '' too long '' @ sizeNote s @ '', showing head/tail'' @ [newline, newline]"

definition PruneWithEdges :: "string \<Rightarrow> string \<Rightarrow> PruneConfig \<Rightarrow> string" where
  "PruneWithEdges s label cfg0 =
     (let cfg = normalizeConfig cfg0 in
      if length s = 0 then s
      else if wrap64 (pr_HeadBytes cfg + pr_TailBytes cfg) \<le> 0 \<or> wrap64 (pr_HeadLines cfg + pr_TailLines cfg) \<le> 0
      then fitBudget (omittedText s label cfg) cfg
      else if \<not> Exceeds s (pr_MaxBytes cfg) (pr_MaxLines cfg) then s
      else
        (let head = boundedPrefix s (min (pr_HeadBytes cfg) (int (length s))) (pr_HeadLines cfg);
             tail = (if 0 < pr_TailBytes cfg \<and> 0 < pr_TailLines cfg
                     then boundedSuffix s (min (pr_TailBytes cfg) (int (length s))) (pr_TailLines cfg) else '''')
         in fitHeadTailBudget (headerText s label cfg) head tail cfg))"

end
