(* ===== verification/TextUtil.thy ===== *)
theory TextUtil
  imports Utf8
begin

text \<open>
  The text helpers of \<^verbatim>\<open>internal/textutil\<close>: making text storable
  (\<^verbatim>\<open>storage.go\<close>, \<open>StorageText\<close>) and truncating it by runes (\<^verbatim>\<open>truncate.go\<close>).
\<close>

section \<open>Storable text\<close>

text \<open>The UTF-8 bytes of U+FFFD.\<close>

definition replacementRune :: string where
  "replacementRune = [CHR 0xEF, CHR 0xBF, CHR 0xBD]"

text \<open>
  \<open>strings.ToValidUTF8\<close>: a run of ill-formed bytes becomes one replacement; the flag
  says that the previous byte was ill-formed.
\<close>

function toValidFrom :: "bool \<Rightarrow> string \<Rightarrow> string" where
  "toValidFrom bad [] = []"
| "toValidFrom bad (a # s) =
     (let w = runeLen (a # s) in
      if w = 0 then (if bad then '''' else replacementRune) @ toValidFrom True s
      else take w (a # s) @ toValidFrom False (drop (runeWidth (a # s)) (a # s)))"
  by pat_completeness auto
termination
  by (relation "measure (length \<circ> snd)") (auto simp: runeWidth_def)

definition ToValidUTF8 :: "string \<Rightarrow> string" where
  "ToValidUTF8 s = toValidFrom False s"

definition StorageText :: "string \<Rightarrow> string" where
  "StorageText text0 =
     concat (map (\<lambda>c. if c = CHR 0x00 then [CHR 0x5C, CHR ''x'', CHR ''0'', CHR ''0''] else [c]) (ToValidUTF8 text0))"

section \<open>Truncation\<close>

text \<open>\<open>utf8.RuneCountInString\<close>\<close>

function RuneCountInString :: "string \<Rightarrow> nat" where
  "RuneCountInString [] = 0"
| "RuneCountInString (a # s) = Suc (RuneCountInString (drop (runeWidth (a # s)) (a # s)))"
  by pat_completeness auto
termination
  by (relation "measure length") (auto simp: runeWidth_def)

text \<open>The byte index at which the rune with the given number starts.\<close>

function runeIndex :: "string \<Rightarrow> nat \<Rightarrow> nat option" where
  "runeIndex [] k = None"
| "runeIndex (a # s) k =
     (if k = 0 then Some 0
      else map_option ((+) (runeWidth (a # s))) (runeIndex (drop (runeWidth (a # s)) (a # s)) (k - 1)))"
  by pat_completeness auto
termination
  by (relation "measure (length \<circ> fst)") (auto simp: runeWidth_def)

declare RuneCountInString.simps(2) [simp del] runeIndex.simps(2) [simp del] toValidFrom.simps(2) [simp del]

definition byteIndexAfterRunes :: "string \<Rightarrow> int \<Rightarrow> nat \<times> bool" where
  "byteIndexAfterRunes s maxRunes =
     (if maxRunes \<le> 0 \<or> s = '''' then (0, 0 < length s)
      else (case runeIndex s (nat maxRunes) of Some i \<Rightarrow> (i, True) | None \<Rightarrow> (length s, False)))"

definition TruncateRunes :: "string \<Rightarrow> int \<Rightarrow> string" where
  "TruncateRunes s maxRunes =
     (if maxRunes \<le> 0 \<or> s = '''' then ''''
      else (case byteIndexAfterRunes s maxRunes of (cutAt, truncated) \<Rightarrow> if \<not> truncated then s else take cutAt s))"

definition TruncateRunesWithSuffix :: "string \<Rightarrow> int \<Rightarrow> string \<Rightarrow> string" where
  "TruncateRunesWithSuffix s maxRunes suffix =
     (if maxRunes \<le> 0 \<or> s = '''' then ''''
      else if \<not> snd (byteIndexAfterRunes s maxRunes) then s
      else if suffix = '''' then TruncateRunes s maxRunes
      else
        (let suffixRunes = int (RuneCountInString suffix) in
         if maxRunes \<le> suffixRunes then TruncateRunes s maxRunes
         else (case byteIndexAfterRunes s (maxRunes - suffixRunes) of (cutAt, truncated) \<Rightarrow>
                 if \<not> truncated then s else take cutAt s @ suffix)))"

section \<open>Facts\<close>

lemma valid_replacement: "validUTF8 replacementRune"
  by code_simp

lemma valid_rune: "0 < runeLen s \<Longrightarrow> validUTF8 (take (runeLen s) s)"
  using runeLen_le [of s] runeLen_take [of s "runeLen s"] by (cases s) (auto simp: valid_step)

lemma toValid_valid: "validUTF8 (toValidFrom bad s)"
proof (induction bad s rule: toValidFrom.induct)
  case (2 bad a s)
  then show ?case
    by (auto simp: toValidFrom.simps(2) Let_def intro!: valid_append valid_replacement valid_rune)
qed simp

lemma toValid_id: "validUTF8 s \<Longrightarrow> toValidFrom bad s = s"
proof (induction s arbitrary: bad rule: valid_induct)
  case (rune s)
  then obtain a t where s: "s = a # t" by (cases s) auto
  then have "runeWidth s = runeLen s" using rune.hyps(2) by (simp add: runeWidth_def)
  then show ?case using rune s by (simp add: toValidFrom.simps(2) Let_def)
qed simp

abbreviation nulSafe :: "char \<Rightarrow> string" where
  "nulSafe c \<equiv> (if c = CHR 0x00 then [CHR 0x5C, CHR ''x'', CHR ''0'', CHR ''0''] else [c])"

lemma concat_nulSafe_id: "CHR 0x00 \<notin> set s \<Longrightarrow> concat (map nulSafe s) = s"
  by (induction s) auto

lemma nulSafe_rune:
  assumes "0 < runeLen s" "hd s \<noteq> CHR 0x00"
  shows "concat (map nulSafe (take (runeLen s) s)) = take (runeLen s) s"
proof -
  have "s ! i \<noteq> CHR 0x00" if "i < runeLen s" for i
  proof (cases "i = 0")
    case False
    then show ?thesis using runeLen_inner [of i s] that by (auto simp: RuneStart_def)
  qed (use assms in \<open>cases s; simp\<close>)
  then have "CHR 0x00 \<notin> set (take (runeLen s) s)" by (auto simp: in_set_conv_nth)
  then show ?thesis by (rule concat_nulSafe_id)
qed

lemma nulSafe_valid: "validUTF8 s \<Longrightarrow> validUTF8 (concat (map nulSafe s))"
proof (induction s rule: valid_induct)
  case (rune s)
  have split: "concat (map nulSafe s) = concat (map nulSafe (take (runeLen s) s)) @ concat (map nulSafe (drop (runeLen s) s))"
    by (metis append_take_drop_id concat_append map_append)
  show ?case
  proof (cases "hd s = CHR 0x00")
    case True
    then obtain t where s: "s = CHR 0x00 # t" using rune.hyps(1) by (cases s) auto
    then show ?thesis using rune.IH by simp
  next
    case False
    have "validUTF8 (concat (map nulSafe (take (runeLen s) s)))"
      using nulSafe_rune [OF rune.hyps(2) False] valid_rune [OF rune.hyps(2)] by simp
    then show ?thesis unfolding split using rune.IH by (rule valid_append)
  qed
qed simp

lemma StorageText_facts:
  "validUTF8 (StorageText s)" "CHR 0x00 \<notin> set (StorageText s)"
  "validUTF8 s \<Longrightarrow> CHR 0x00 \<notin> set s \<Longrightarrow> StorageText s = s"
proof -
  show "validUTF8 (StorageText s)"
    using nulSafe_valid [OF toValid_valid] by (simp add: StorageText_def ToValidUTF8_def)
  show "CHR 0x00 \<notin> set (StorageText s)" by (auto simp: StorageText_def split: if_splits)
  assume "validUTF8 s" "CHR 0x00 \<notin> set s"
  then show "StorageText s = s" by (simp add: StorageText_def ToValidUTF8_def toValid_id concat_nulSafe_id)
qed

lemma runeCount_step: "s \<noteq> [] \<Longrightarrow> RuneCountInString s = Suc (RuneCountInString (drop (runeWidth s) s))"
  by (cases s) (simp_all add: RuneCountInString.simps(2))

lemma runeCount_append: "validUTF8 s \<Longrightarrow> RuneCountInString (s @ t) = RuneCountInString s + RuneCountInString t"
proof (induction s rule: valid_induct)
  case (rune s)
  then have "runeLen (s @ t) = runeLen s" "runeLen s \<le> length s" "runeWidth s = runeLen s"
    by (simp_all add: runeLen_append runeLen_le runeWidth_def)
  then show ?case using rune by (simp add: runeCount_step [of "s @ t"] runeCount_step [of s] runeWidth_def)
qed simp

text \<open>
  The start of rune number \<open>k\<close> splits a valid string into \<open>k\<close> runes and the rest;
  there is none exactly when the string has no more than \<open>k\<close> runes.
\<close>

lemma runeIndex_valid:
  "validUTF8 s \<Longrightarrow> case runeIndex s k of
     None \<Rightarrow> RuneCountInString s \<le> k
   | Some i \<Rightarrow> k < RuneCountInString s \<and> i < length s \<and> validUTF8 (take i s) \<and> RuneCountInString (take i s) = k"
proof (induction s arbitrary: k rule: valid_induct)
  case (rune s)
  then obtain a t where s: "s = a # t" by (cases s) auto
  have w: "runeWidth s = runeLen s" "runeLen s \<le> length s" using rune.hyps(2) by (simp_all add: runeWidth_def runeLen_le)
  have c: "RuneCountInString s = Suc (RuneCountInString (drop (runeLen s) s))"
    using runeCount_step [OF rune.hyps(1)] w by simp
  show ?case
  proof (cases k)
    case 0
    then show ?thesis using s c by (simp add: runeIndex.simps(2))
  next
    case (Suc m)
    have r: "runeIndex s k = map_option ((+) (runeLen s)) (runeIndex (drop (runeLen s) s) m)"
      using s Suc w by (simp add: runeIndex.simps(2))
    show ?thesis
    proof (cases "runeIndex (drop (runeLen s) s) m")
      case None
      then show ?thesis using r c Suc rune.IH [of m] by simp
    next
      case (Some j)
      have IH: "m < RuneCountInString (drop (runeLen s) s)" "j < length (drop (runeLen s) s)"
        "validUTF8 (take j (drop (runeLen s) s))" "RuneCountInString (take j (drop (runeLen s) s)) = m"
        using rune.IH [of m] Some by auto
      have t: "take (runeLen s + j) s = take (runeLen s) s @ take j (drop (runeLen s) s)" by (rule take_add)
      have one: "RuneCountInString (take (runeLen s) s) = 1"
        using rune.hyps(1,2) runeLen_take [of s "runeLen s"] w
        by (subst runeCount_step) (auto simp: runeWidth_def)
      have "validUTF8 (take (runeLen s + j) s)"
        unfolding t by (rule valid_append [OF valid_rune [OF rune.hyps(2)] IH(3)])
      moreover have "RuneCountInString (take (runeLen s + j) s) = k"
        unfolding t using runeCount_append [OF valid_rune [OF rune.hyps(2)]] one IH(4) Suc by simp
      ultimately show ?thesis using r Some c Suc IH(1,2) by auto
    qed
  qed
qed simp

lemma TruncateRunes_valid:
  assumes "validUTF8 s" "0 < m"
  shows "validUTF8 (TruncateRunes s m)" "int (RuneCountInString (TruncateRunes s m)) = min m (int (RuneCountInString s))"
    "int (RuneCountInString s) \<le> m \<Longrightarrow> TruncateRunes s m = s"
  using assms runeIndex_valid [OF assms(1), of "nat m"]
  by (auto simp: TruncateRunes_def byteIndexAfterRunes_def split: option.splits)

end
