(* ===== verification/ContextLimit.thy ===== *)
theory ContextLimit
  imports Prune TextUtil
begin

text \<open>
  The output limits of \<^verbatim>\<open>internal/agent/context/limit\<close> on strings (\<^verbatim>\<open>output.go\<close> and
  \<^verbatim>\<open>tier.go\<close>), and the facts about pruning that the limits rest on: every result
  is within its budget of bytes and lines, and cuts never split a rune.
\<close>

section \<open>Limits\<close>

definition toolOutputHeadBytes :: int where "toolOutputHeadBytes = 32 * 1024"
definition toolOutputTailBytes :: int where "toolOutputTailBytes = 8 * 1024"
definition toolOutputHeadLines :: int where "toolOutputHeadLines = 500"
definition toolOutputTailLines :: int where "toolOutputTailLines = 100"
definition minToolOutputMaxBytes :: int where "minToolOutputMaxBytes = 256"

record ToolOutputLimit =
  to_MaxBytes :: int
  to_MaxLines :: int

definition fitHeadTail :: "int \<Rightarrow> int \<Rightarrow> int \<Rightarrow> int \<times> int" where
  "fitHeadTail maxValue head tail =
     (if maxValue \<le> 0 then (head, tail)
      else if wrap64 (head + tail) \<le> maxValue then (head, tail)
      else
        (let head' = goDiv (wrap64 (maxValue * 3)) 4; tail' = wrap64 (maxValue - head')
         in if head' \<le> 0 then (maxValue, 0) else (head', tail')))"

definition toolOutputPruneConfig :: "ToolOutputLimit \<Rightarrow> PruneConfig" where
  "toolOutputPruneConfig limit =
     (let maxBytes = (if to_MaxBytes limit \<le> 0 then DefaultMaxBytes
                      else if to_MaxBytes limit < minToolOutputMaxBytes then minToolOutputMaxBytes
                      else to_MaxBytes limit);
          maxLines = (if to_MaxLines limit \<le> 0 then DefaultMaxLines else to_MaxLines limit);
          (headBytes, tailBytes) = fitHeadTail maxBytes toolOutputHeadBytes toolOutputTailBytes;
          (headLines, tailLines) = fitHeadTail maxLines toolOutputHeadLines toolOutputTailLines
      in \<lparr>pr_MaxBytes = maxBytes, pr_MaxLines = maxLines, pr_HeadBytes = headBytes, pr_TailBytes = tailBytes,
          pr_HeadLines = headLines, pr_TailLines = tailLines, pr_Marker = DefaultMarker\<rparr>)"

definition NormalizedLimit :: "ToolOutputLimit \<Rightarrow> ToolOutputLimit" where
  "NormalizedLimit limit =
     \<lparr>to_MaxBytes = pr_MaxBytes (toolOutputPruneConfig limit), to_MaxLines = pr_MaxLines (toolOutputPruneConfig limit)\<rparr>"

definition LimitString :: "string \<Rightarrow> string \<Rightarrow> ToolOutputLimit \<Rightarrow> string" where
  "LimitString text0 label limit = PruneWithEdges (StorageText text0) label (toolOutputPruneConfig limit)"

text \<open>A tier is a configuration; the two predefined ones.\<close>

definition Tier_LimitString :: "PruneConfig \<Rightarrow> string \<Rightarrow> string \<Rightarrow> string" where
  "Tier_LimitString t s label = PruneWithEdges s label t"

definition GatewayResultTier :: PruneConfig where
  "GatewayResultTier = \<lparr>pr_MaxBytes = DefaultMaxBytes, pr_MaxLines = DefaultMaxLines, pr_HeadBytes = 6 * 1024,
     pr_TailBytes = 2 * 1024, pr_HeadLines = 180, pr_TailLines = 50, pr_Marker = DefaultMarker\<rparr>"

definition GatewayArgsTier :: PruneConfig where
  "GatewayArgsTier = \<lparr>pr_MaxBytes = DefaultMaxBytes, pr_MaxLines = DefaultMaxLines, pr_HeadBytes = 4 * 1024,
     pr_TailBytes = 2 * 1024, pr_HeadLines = 180, pr_TailLines = 50, pr_Marker = DefaultMarker\<rparr>"

section \<open>Lines\<close>

lemma splitLines_no_newline: "l \<in> set (splitLines s) \<Longrightarrow> newline \<notin> set l"
  by (induction s arbitrary: l) (auto split: list.splits if_splits)

lemma splitLines_length: "length (splitLines s) = count_list s newline + 1"
  by (induction s) (auto split: list.split)

lemma count_joinLines:
  "\<forall>l\<in>set ls. newline \<notin> set l \<Longrightarrow> count_list (joinLines ls) newline = length ls - 1"
  by (induction ls rule: joinLines.induct) auto

lemma CountLines_join:
  assumes "ls \<noteq> []" "set ls \<subseteq> set (splitLines s)"
  shows "CountLines (joinLines ls) \<le> int (length ls)"
  using assms splitLines_no_newline [of _ s] count_joinLines [of ls]
  by (cases "length ls") (auto simp: CountLines_def)

lemma CountLines_split: "s \<noteq> '''' \<Longrightarrow> CountLines s = int (length (splitLines s))"
  by (simp add: CountLines_def splitLines_length)

lemma limitLinesPrefix_lines: "CountLines (limitLinesPrefix s n) \<le> max 0 n"
proof (cases "0 < n \<and> s \<noteq> '''' \<and> n < int (length (splitLines s))")
  case True
  then have "take (nat n) (splitLines s) \<noteq> []" by simp
  then have "CountLines (joinLines (take (nat n) (splitLines s))) \<le> int (length (take (nat n) (splitLines s)))"
    by (rule CountLines_join) (rule set_take_subset)
  also have "\<dots> \<le> n" using True by (simp add: min_def) linarith
  finally show ?thesis using True by (simp add: limitLinesPrefix_def Let_def)
qed (auto simp: limitLinesPrefix_def Let_def CountLines_split CountLines_def [of "''''"])

lemma limitLinesSuffix_lines: "CountLines (limitLinesSuffix s n) \<le> max 0 n"
proof (cases "0 < n \<and> s \<noteq> '''' \<and> n < int (length (splitLines s))")
  case True
  let ?ls = "drop (length (splitLines s) - nat n) (splitLines s)"
  have "length (splitLines s) - nat n < length (splitLines s)" using True by (intro diff_less) auto
  then have "?ls \<noteq> []" by simp
  then have "CountLines (joinLines ?ls) \<le> int (length ?ls)"
    by (rule CountLines_join) (rule set_drop_subset)
  also have "\<dots> \<le> n" using True by simp linarith
  finally show ?thesis using True by (simp add: limitLinesSuffix_def Let_def)
qed (auto simp: limitLinesSuffix_def Let_def CountLines_split CountLines_def [of "''''"])

lemma boundedPrefix_lines: "CountLines (boundedPrefix s m n) \<le> max 0 n"
  using limitLinesPrefix_lines [of "safeUTF8Prefix s (min m (int (length s)))" n] by (auto simp: boundedPrefix_def CountLines_def [of "''''"])

lemma boundedSuffix_lines: "CountLines (boundedSuffix s m n) \<le> max 0 n"
  using limitLinesSuffix_lines [of "safeUTF8Suffix s (min m (int (length s)))" n] by (auto simp: boundedSuffix_def CountLines_def [of "''''"])

lemma CountLines_append:
  "CountLines (s @ t) = (if s = '''' then CountLines t else if t = '''' then CountLines s else CountLines s + CountLines t - 1)"
  by (simp add: CountLines_def)

lemma CountLines_nonneg [simp]: "0 \<le> CountLines s"
  by (simp add: CountLines_def)

lemma CountLines_rest:
  assumes "CountLines s \<le> m" "CountLines t \<le> (let n = m - CountLines s in if n \<le> 0 then 1 else n)" "0 < m"
  shows "CountLines (s @ t) \<le> m"
  using assms by (cases "s = ''''"; cases "t = ''''") (auto simp: CountLines_append CountLines_def [of "''''"] Let_def split: if_splits)

section \<open>Within the budget\<close>

abbreviation fits :: "string \<Rightarrow> PruneConfig \<Rightarrow> bool" where
  "fits s cfg \<equiv> \<not> Exceeds s (pr_MaxBytes cfg) (pr_MaxLines cfg)"

text \<open>
  A string from which a prefix of at least one byte can be cut: its first byte is an
  ASCII byte other than a newline, and no rune goes on in the second.
\<close>

definition plainStart :: "string \<Rightarrow> bool" where
  "plainStart s \<longleftrightarrow> (case s of [] \<Rightarrow> False | c # t \<Rightarrow> c \<noteq> newline \<and> (case t of [] \<Rightarrow> True | d # _ \<Rightarrow> RuneStart d))"

lemma cutBack_pos: "plainStart s \<Longrightarrow> 0 < n \<Longrightarrow> 0 < cutBack s n"
proof (induction s n rule: cutBack.induct)
  case (2 s n)
  show ?case
  proof (cases n)
    case 0
    then show ?thesis using 2 by (auto simp: plainStart_def split: list.splits)
  qed (use 2 in simp)
qed simp

lemma boundedPrefix_nonempty:
  assumes "plainStart s" "0 < m" "0 < n"
  shows "boundedPrefix s m n \<noteq> ''''"
proof -
  obtain c t where s: "s = c # t" "c \<noteq> newline" using assms(1) by (auto simp: plainStart_def split: list.splits)
  let ?p = "safeUTF8Prefix s (min m (int (length s)))"
  have "0 < cutBack s (nat (min m (int (length s))))" using cutBack_pos [OF assms(1)] assms(2) s by simp
  then have "?p \<noteq> ''''" using s assms(2) by (auto simp: safeUTF8Prefix_def min_def split: if_splits)
  then obtain p where p: "?p = c # p" using safeUTF8Prefix_prefix [of s "min m (int (length s))"] s
    by (cases ?p) auto
  obtain l ls where "splitLines ?p = (c # l) # ls" using s p by (cases "splitLines p") auto
  then have "hd (joinLines (take (nat n) (splitLines ?p))) = c \<and> joinLines (take (nat n) (splitLines ?p)) \<noteq> ''''"
    using assms(3) by (cases "nat n"; cases "take (nat n - 1) ls") (auto simp: joinLines_Cons)
  then show ?thesis using assms s p by (auto simp: boundedPrefix_def limitLinesPrefix_def Let_def)
qed

lemma fitBudget_within:
  assumes "plainStart s" "0 < pr_MaxBytes cfg" "0 < pr_MaxLines cfg"
  shows "fits (fitBudget s cfg) cfg"
  using boundedPrefix_nonempty [OF assms] boundedPrefix_length [of s "pr_MaxBytes cfg" "pr_MaxLines cfg"]
    boundedPrefix_lines [of s "pr_MaxBytes cfg" "pr_MaxLines cfg"] assms(2,3)
  by (auto simp: fitBudget_def Let_def Exceeds_def)

lemma fitBudgetPreserveSuffix_within:
  assumes "plainStart pre" "0 < pr_MaxBytes cfg" "0 < pr_MaxLines cfg"
  shows "fits (fitBudgetPreserveSuffix pre suf cfg) cfg"
proof -
  let ?B = "pr_MaxBytes cfg" and ?L = "pr_MaxLines cfg"
  let ?pl = "let n = goDiv ?L 2 in if n \<le> 0 then 1 else n"
  let ?tp = "boundedPrefix pre (goDiv ?B 2) ?pl"
  let ?rl = "let n = ?L - CountLines ?tp in if n \<le> 0 then 1 else n"
  let ?ts = "boundedSuffix suf (?B - int (length ?tp)) ?rl"
  have pl: "?pl \<le> ?L" "0 < ?pl" using assms(3) by (auto simp: Let_def goDiv_nonneg)
  have "int (length ?tp) \<le> ?B" using boundedPrefix_length [of pre "goDiv ?B 2" ?pl] assms(2) by (auto simp: goDiv_nonneg)
  then have b: "int (length (?tp @ ?ts)) \<le> ?B" using boundedSuffix_length [of suf "?B - int (length ?tp)" ?rl] by auto
  have "CountLines ?tp \<le> ?L" using boundedPrefix_lines [of pre "goDiv ?B 2" ?pl] pl by linarith
  moreover have "CountLines ?ts \<le> ?rl"
    using boundedSuffix_lines [of suf "?B - int (length ?tp)" ?rl] by (rule order.trans) (simp add: Let_def)
  ultimately have "CountLines (?tp @ ?ts) \<le> ?L" using assms(3) by (rule CountLines_rest)
  then have "fits (?tp @ ?ts) cfg" using b by (simp add: Exceeds_def)
  then show ?thesis
    using fitBudget_within [OF assms] by (simp add: fitBudgetPreserveSuffix_def Let_def)
qed

lemma fitHeadTailLoop_within:
  assumes "plainStart header" "1 < length header" "0 < pr_MaxBytes cfg" "0 < pr_MaxLines cfg"
  shows "fits (fitHeadTailLoop header head tail cfg) cfg"
  using assms
proof (induction header head tail cfg rule: fitHeadTailLoop.induct)
  case (1 header head tail cfg)
  have plain: "plainStart (header @ x)" for x
    using "1.prems"(1,2) by (auto simp: plainStart_def split: list.splits)
  show ?case
    using 1 fitBudgetPreserveSuffix_within [OF plain "1.prems"(3,4)]
    by (subst fitHeadTailLoop.simps) (auto simp: Let_def split: prod.split)
qed

lemma plainStart_append: "plainStart m \<Longrightarrow> plainStart (m @ CHR '' '' # x)"
  by (auto simp: plainStart_def split: list.splits)

lemma normalizeConfig_pos: "0 < pr_MaxBytes (normalizeConfig cfg)" "0 < pr_MaxLines (normalizeConfig cfg)"
  by (simp_all add: normalizeConfig_def DefaultMaxBytes_def DefaultMaxLines_def)

lemma headerText_plain:
  assumes "plainStart (pr_Marker cfg)"
  shows "plainStart (headerText s label cfg)" "1 < length (headerText s label cfg)" "plainStart (omittedText s label cfg)"
  using plainStart_append [OF assms] by (simp_all add: headerText_def omittedText_def)

lemma PruneWithEdges_within:
  assumes "plainStart (pr_Marker (normalizeConfig cfg))"
  shows "fits (PruneWithEdges s label cfg) (normalizeConfig cfg)"
proof -
  let ?c = "normalizeConfig cfg"
  note pos = normalizeConfig_pos [of cfg] and h = headerText_plain [OF assms, of s label]
  have "plainStart (headerText s label ?c @ x)" for x
    using h(1,2) by (auto simp: plainStart_def split: list.splits)
  then have "fits (fitHeadTailBudget (headerText s label ?c) head tail ?c) ?c" for head tail
    using fitBudget_within fitHeadTailLoop_within [OF h(1,2)] pos by (simp add: fitHeadTailBudget_def)
  moreover have "fits '''' ?c" using pos by (simp add: Exceeds_def CountLines_def)
  ultimately show ?thesis
    using fitBudget_within [OF h(3)] pos by (simp add: PruneWithEdges_def Let_def)
qed

section \<open>Runes stay whole\<close>

lemma cutBack_start: "n \<le> length s \<Longrightarrow> cutBack s n = 0 \<or> cutBack s n = length s \<or> RuneStart (s ! cutBack s n)"
  by (induction s n rule: cutBack.induct) auto

lemma safeUTF8Prefix_valid:
  assumes "validUTF8 s"
  shows "validUTF8 (safeUTF8Prefix s n)"
proof (cases "0 < n \<and> n < int (length s)")
  case True
  let ?k = "cutBack s (nat n)"
  have k: "?k \<le> length s" "?k = 0 \<or> ?k = length s \<or> RuneStart (s ! ?k)"
    using cutBack_start [of "nat n" s] cutBack_le [of s "nat n"] True by auto
  then have "validUTF8 (take ?k s)" using valid_cut(1) [OF assms k(1)] by auto
  then show ?thesis using True by (simp add: safeUTF8Prefix_def)
qed (use assms in \<open>auto simp: safeUTF8Prefix_def\<close>)

lemma safeUTF8Suffix_valid:
  assumes "validUTF8 s"
  shows "validUTF8 (safeUTF8Suffix s n)"
proof -
  let ?t = "dropWhile (\<lambda>c. \<not> RuneStart c) (drop (length s - nat n) s)"
  have "suffix ?t s" using suffix_dropWhile suffix_drop suffix_order.trans by blast
  then obtain u where u: "s = u @ ?t" by (auto simp: suffix_def)
  have "?t = [] \<or> RuneStart (hd ?t)" using hd_dropWhile [of "\<lambda>c. \<not> RuneStart c" "drop (length s - nat n) s"] by blast
  then have "length u = length s \<or> RuneStart (s ! length u)" using u by (metis append_Nil2 hd_conv_nth nth_append_length_plus add.right_neutral)
  then have "validUTF8 (drop (length u) s)" using u by (intro valid_cut(2) [OF assms]) (metis le_add1 length_append)
  then have "validUTF8 ?t" using u by (metis append_eq_conv_conj)
  then show ?thesis using assms by (simp add: safeUTF8Suffix_def)
qed

lemma joinLines_cut:
  assumes "0 < n" "n < length ls"
  shows "joinLines ls = joinLines (take n ls) @ newline # joinLines (drop n ls)"
  using assms
proof (induction ls arbitrary: n rule: joinLines.induct)
  case (3 l m ls)
  then show ?case by (cases n; cases "n = 1") (auto simp: joinLines_Cons)
qed auto

lemma lines_valid:
  assumes "validUTF8 s"
  shows "validUTF8 (limitLinesPrefix s n)" "validUTF8 (limitLinesSuffix s n)"
proof -
  have cut: "validUTF8 (joinLines (take k (splitLines s)))" "validUTF8 (joinLines (drop k (splitLines s)))"
    if "0 < k" "k < length (splitLines s)" for k
  proof -
    let ?u = "joinLines (take k (splitLines s))" and ?v = "joinLines (drop k (splitLines s))"
    have s: "s = ?u @ newline # ?v" using joinLines_cut [OF that] by simp
    then have "s ! length ?u = newline" "length ?u \<le> length s" by (metis nth_append_length) (metis le_add1 length_append s)
    then have "validUTF8 (take (length ?u) s)" "validUTF8 (drop (length ?u) s)"
      using valid_cut [OF assms, of "length ?u"] by auto
    then have "validUTF8 ?u" "validUTF8 (newline # ?v)" using s by (metis append_eq_conv_conj)+
    then show "validUTF8 ?u" "validUTF8 ?v" by simp_all
  qed
  show "validUTF8 (limitLinesPrefix s n)" using assms cut(1) [of "nat n"] by (auto simp: limitLinesPrefix_def Let_def)
  show "validUTF8 (limitLinesSuffix s n)"
    using assms cut(2) [of "length (splitLines s) - nat n"] by (auto simp: limitLinesSuffix_def Let_def)
qed

lemma bounded_valid:
  assumes "validUTF8 s"
  shows "validUTF8 (boundedPrefix s m n)" "validUTF8 (boundedSuffix s m n)"
  using assms by (simp_all add: boundedPrefix_def boundedSuffix_def lines_valid safeUTF8Prefix_valid safeUTF8Suffix_valid)

lemma fitBudget_valid: "validUTF8 s \<Longrightarrow> validUTF8 (pr_Marker cfg) \<Longrightarrow> validUTF8 (fitBudget s cfg)"
  by (simp add: fitBudget_def Let_def bounded_valid)

lemma fitBudgetPreserveSuffix_valid:
  "validUTF8 pre \<Longrightarrow> validUTF8 suf \<Longrightarrow> validUTF8 (pr_Marker cfg) \<Longrightarrow> validUTF8 (fitBudgetPreserveSuffix pre suf cfg)"
  by (simp add: fitBudgetPreserveSuffix_def Let_def bounded_valid fitBudget_valid valid_append)

lemma shrinkHeadTail_valid:
  "validUTF8 head \<Longrightarrow> validUTF8 tail \<Longrightarrow> shrinkHeadTail head tail = (head', tail') \<Longrightarrow> validUTF8 head' \<and> validUTF8 tail'"
  by (auto simp: shrinkHeadTail_def shrinkPrefix_def shrinkSuffix_def bounded_valid split: if_splits)

lemma valid_separator: "validUTF8 headTailSeparator"
  by code_simp

lemma fitHeadTailLoop_valid:
  assumes "validUTF8 header" "validUTF8 head" "validUTF8 tail" "validUTF8 (pr_Marker cfg)"
  shows "validUTF8 (fitHeadTailLoop header head tail cfg)"
  using assms
proof (induction header head tail cfg rule: fitHeadTailLoop.induct)
  case (1 header head tail cfg)
  obtain h t where ht: "shrinkHeadTail head tail = (h, t)" by (cases "shrinkHeadTail head tail")
  have v: "validUTF8 h" "validUTF8 t" using shrinkHeadTail_valid [OF "1.prems"(2,3) ht] by auto
  have IH: "validUTF8 (fitHeadTailLoop header h t cfg)"
    if "\<not> fits (header @ head @ headTailSeparator @ tail) cfg" "\<not> (h = head \<and> t = tail)"
    using "1.IH" [OF refl _ ht [symmetric] refl] that "1.prems" v by simp
  show ?case
    using IH "1.prems" ht
    by (subst fitHeadTailLoop.simps) (simp add: Let_def valid_append valid_separator fitBudgetPreserveSuffix_valid)
qed

lemma decimal_ascii: "c \<in> set (decimal n) \<Longrightarrow> byteVal c < 128"
proof (induction n rule: decimal.induct)
  case (1 n)
  have d: "of_char (char_of (48 + k) :: char) < (128 :: nat)" if "k < 10" for k :: nat
    using that by simp
  show ?case
  proof (cases "n < 10")
    case True
    then show ?thesis using "1.prems" d by (subst (asm) decimal.simps) auto
  next
    case False
    then have "c \<in> set (decimal (n div 10)) \<or> c = char_of (48 + n mod 10)"
      using "1.prems" by (subst (asm) decimal.simps) auto
    then show ?thesis using "1.IH" [OF False] d [of "n mod 10"] by auto
  qed
qed

lemma ascii_valid: "(\<And>c. c \<in> set s \<Longrightarrow> byteVal c < 128) \<Longrightarrow> validUTF8 s"
  by (induction s) auto

lemma sizeNote_valid: "validUTF8 (sizeNote s)"
  by (auto simp: sizeNote_def intro!: ascii_valid dest: decimal_ascii)

lemma PruneWithEdges_valid:
  assumes "validUTF8 s" "validUTF8 label" "validUTF8 (pr_Marker cfg)"
  shows "validUTF8 (PruneWithEdges s label cfg)"
proof -
  let ?c = "normalizeConfig cfg"
  have m: "validUTF8 (pr_Marker ?c)"
    using assms(3) by (auto simp: normalizeConfig_def DefaultMarker_def intro!: ascii_valid)
  have t: "validUTF8 (headerText s label ?c)" "validUTF8 (omittedText s label ?c)"
    using m assms(2) sizeNote_valid [of s] by (auto simp: headerText_def omittedText_def intro!: valid_append)
  show ?thesis
    using assms(1) m t
    by (simp add: PruneWithEdges_def Let_def fitHeadTailBudget_def fitBudget_valid fitHeadTailLoop_valid bounded_valid valid_append)
qed

end
