(* ===== verification/ToolOutput.thy ===== *)
theory ToolOutput
  imports ContextLimit "HOL-Library.List_Lexorder" "HOL-Library.Char_ord"
begin

text \<open>
  Limiting structured tool output, \<^verbatim>\<open>internal/agent/context/limit/output.go\<close>. A value
  of type \<open>any\<close> is one of the shapes the code distinguishes; every other value is kept
  as it is and enters only through its JSON encoding. The encoder is that of
  \<^verbatim>\<open>encoding/json\<close>: object keys sorted, HTML characters, control characters and
  ill-formed bytes escaped.
\<close>

section \<open>Values and their encoding\<close>

datatype anyval =
    AString string
  | AStrings "string list"
  | AList "anyval list"
  | AMaps "(string \<times> anyval) list list"
  | AStringMap "(string \<times> string) list"
  | AMap "(string \<times> anyval) list"
  | ABool bool
  | AOther bytes

definition hexDigit :: "nat \<Rightarrow> char" where
  "hexDigit n = (if n < 10 then char_of (48 + n) else char_of (87 + n))"

abbreviation backslash :: char where "backslash \<equiv> CHR 0x5C"
abbreviation quotmark :: char where "quotmark \<equiv> CHR 0x22"

definition jsonByte :: "char \<Rightarrow> string" where
  "jsonByte c =
     (if c = quotmark \<or> c = backslash then [backslash, c]
      else if c = CHR 0x08 then [backslash, CHR ''b'']
      else if c = CHR 0x0C then [backslash, CHR ''f'']
      else if c = CHR 0x0A then [backslash, CHR ''n'']
      else if c = CHR 0x0D then [backslash, CHR ''r'']
      else if c = CHR 0x09 then [backslash, CHR ''t'']
      else if byteVal c < 32 \<or> c \<in> {CHR ''<'', CHR ''>'', CHR ''&''}
      then [backslash, CHR ''u'', CHR ''0'', CHR ''0'', hexDigit (byteVal c div 16), hexDigit (byteVal c mod 16)]
      else [c])"

function jsonChars :: "string \<Rightarrow> string" where
  "jsonChars [] = []"
| "jsonChars (a # s) =
     (if byteVal a < 128 then jsonByte a @ jsonChars s
      else if runeLen (a # s) = 0 then (backslash # ''ufffd'') @ jsonChars s
      else
        (let rune = take (runeLen (a # s)) (a # s); rest = drop (runeWidth (a # s)) (a # s) in
         (if rune = [CHR 0xE2, CHR 0x80, CHR 0xA8] then backslash # ''u2028''
          else if rune = [CHR 0xE2, CHR 0x80, CHR 0xA9] then backslash # ''u2029''
          else rune) @ jsonChars rest))"
  by pat_completeness auto
termination
  by (relation "measure length") (auto simp: runeWidth_def)

declare jsonChars.simps(2) [simp del]

definition jsonString :: "string \<Rightarrow> string" where
  "jsonString s = quotmark # jsonChars s @ [quotmark]"

definition jsonSeq :: "char \<Rightarrow> char \<Rightarrow> string list \<Rightarrow> string" where
  "jsonSeq l r items = l # concat (map2 (\<lambda>i item. (if i = 0 then [] else [CHR '','']) @ item) [0..<length items] items) @ [r]"

definition jsonArray :: "string list \<Rightarrow> string" where
  "jsonArray items = jsonSeq (CHR ''['') (CHR '']'') items"

definition jsonObject :: "(string \<times> string) list \<Rightarrow> string" where
  "jsonObject kvs =
     jsonSeq (CHR 0x7B) (CHR 0x7D) (map (\<lambda>(k, v). jsonString k @ CHR '':'' # v) (sort_key fst kvs))"

fun MarshalString :: "anyval \<Rightarrow> string" and marshalList :: "anyval list \<Rightarrow> string list"
  and marshalMaps :: "(string \<times> anyval) list list \<Rightarrow> string list"
  and marshalFields :: "(string \<times> anyval) list \<Rightarrow> (string \<times> string) list" where
  "MarshalString (AString s) = jsonString s"
| "MarshalString (AStrings xs) = jsonArray (map jsonString xs)"
| "MarshalString (AList xs) = jsonArray (marshalList xs)"
| "MarshalString (AMaps ms) = jsonArray (marshalMaps ms)"
| "MarshalString (AStringMap m) = jsonObject (map (\<lambda>(k, v). (k, jsonString v)) m)"
| "MarshalString (AMap m) = jsonObject (marshalFields m)"
| "MarshalString (ABool b) = (if b then ''true'' else ''false'')"
| "MarshalString (AOther enc) = enc"
| "marshalList [] = []"
| "marshalList (x # xs) = MarshalString x # marshalList xs"
| "marshalMaps [] = []"
| "marshalMaps (m # ms) = jsonObject (marshalFields m) # marshalMaps ms"
| "marshalFields [] = []"
| "marshalFields ((k, v) # m) = (k, MarshalString v) # marshalFields m"

section \<open>Limiting\<close>

definition toolOutputChildLabel :: "string \<Rightarrow> string \<Rightarrow> string" where
  "toolOutputChildLabel label key0 =
     (let key = TrimSpace key0 in if key = '''' then label else label @ ''.'' @ key)"

definition indexLabel :: "string \<Rightarrow> nat \<Rightarrow> string" where
  "indexLabel label i = label @ ''['' @ decimal i @ '']''"

definition limitText :: "string \<Rightarrow> string \<Rightarrow> PruneConfig \<Rightarrow> string" where
  "limitText s label cfg = PruneWithEdges (StorageText s) label cfg"

fun limitToolOutputValue :: "anyval \<Rightarrow> string \<Rightarrow> PruneConfig \<Rightarrow> anyval"
  and limitList :: "anyval list \<Rightarrow> nat \<Rightarrow> string \<Rightarrow> PruneConfig \<Rightarrow> anyval list"
  and limitMaps :: "(string \<times> anyval) list list \<Rightarrow> nat \<Rightarrow> string \<Rightarrow> PruneConfig \<Rightarrow> (string \<times> anyval) list list"
  and limitFields :: "(string \<times> anyval) list \<Rightarrow> string \<Rightarrow> PruneConfig \<Rightarrow> (string \<times> anyval) list" where
  "limitToolOutputValue (AString s) label cfg = AString (limitText s label cfg)"
| "limitToolOutputValue (AStrings xs) label cfg =
     AStrings (map2 (\<lambda>i s. limitText s (indexLabel label i) cfg) [0..<length xs] xs)"
| "limitToolOutputValue (AList xs) label cfg = AList (limitList xs 0 label cfg)"
| "limitToolOutputValue (AMaps ms) label cfg = AMaps (limitMaps ms 0 label cfg)"
| "limitToolOutputValue (AStringMap m) label cfg =
     AStringMap (map (\<lambda>(k, v). (k, limitText v (toolOutputChildLabel label k) cfg)) m)"
| "limitToolOutputValue (AMap m) label cfg = AMap (limitFields m label cfg)"
| "limitToolOutputValue (ABool b) label cfg = ABool b"
| "limitToolOutputValue (AOther enc) label cfg = AOther enc"
| "limitList [] i label cfg = []"
| "limitList (x # xs) i label cfg = limitToolOutputValue x (indexLabel label i) cfg # limitList xs (i + 1) label cfg"
| "limitMaps [] i label cfg = []"
| "limitMaps (m # ms) i label cfg = limitFields m (indexLabel label i) cfg # limitMaps ms (i + 1) label cfg"
| "limitFields [] label cfg = []"
| "limitFields ((k, v) # m) label cfg =
     (k, limitToolOutputValue v (toolOutputChildLabel label k) cfg) # limitFields m label cfg"

definition toolOutputExceeds :: "anyval \<Rightarrow> PruneConfig \<Rightarrow> bool" where
  "toolOutputExceeds v cfg = Exceeds (MarshalString v) (pr_MaxBytes cfg) (pr_MaxLines cfg)"

definition EncodedExceeds :: "anyval \<Rightarrow> ToolOutputLimit \<Rightarrow> bool" where
  "EncodedExceeds v limit = toolOutputExceeds v (toolOutputPruneConfig limit)"

fun countStringLeaves :: "anyval \<Rightarrow> nat" and countList :: "anyval list \<Rightarrow> nat"
  and countMaps :: "(string \<times> anyval) list list \<Rightarrow> nat" and countFields :: "(string \<times> anyval) list \<Rightarrow> nat" where
  "countStringLeaves (AString s) = 1"
| "countStringLeaves (AStrings xs) = length xs"
| "countStringLeaves (AList xs) = countList xs"
| "countStringLeaves (AMaps ms) = countMaps ms"
| "countStringLeaves (AStringMap m) = length m"
| "countStringLeaves (AMap m) = countFields m"
| "countStringLeaves (ABool b) = 0"
| "countStringLeaves (AOther enc) = 0"
| "countList [] = 0"
| "countList (x # xs) = countStringLeaves x + countList xs"
| "countMaps [] = 0"
| "countMaps (m # ms) = countFields m + countMaps ms"
| "countFields [] = 0"
| "countFields ((k, v) # m) = countStringLeaves v + countFields m"

text \<open>One round of the loop over the divisors.\<close>

definition fitAttempt :: "anyval \<Rightarrow> string \<Rightarrow> PruneConfig \<Rightarrow> int \<Rightarrow> anyval option" where
  "fitAttempt v label cfg divisor =
     (if divisor \<le> 0 then None
      else
        (let budget = goDiv (pr_MaxBytes cfg) divisor in
         if budget < int (length DefaultMarker) then None
         else
           (let fitted = limitToolOutputValue v label (toolOutputPruneConfig \<lparr>to_MaxBytes = budget, to_MaxLines = pr_MaxLines cfg\<rparr>)
            in if \<not> toolOutputExceeds fitted cfg then Some fitted else None)))"

definition fitToolOutputValue :: "anyval \<Rightarrow> string \<Rightarrow> PruneConfig \<Rightarrow> anyval option" where
  "fitToolOutputValue v label cfg =
     (let stringLeaves = int (countStringLeaves v) in
      if stringLeaves = 0 then None
      else
        (case List.find (\<lambda>d. fitAttempt v label cfg d \<noteq> None)
                [wrap64 (stringLeaves + 1), wrap64 (stringLeaves * 2 + 2), wrap64 (stringLeaves * 4 + 4)] of
           None \<Rightarrow> None
         | Some d \<Rightarrow> fitAttempt v label cfg d))"

definition isErrorResultMap :: "anyval \<Rightarrow> bool" where
  "isErrorResultMap v = (case v of AMap m \<Rightarrow> map_of m ''isError'' = Some (ABool True) | _ \<Rightarrow> False)"

definition truncatedWrapper :: "string \<Rightarrow> anyval" where
  "truncatedWrapper content = AMap [(''_memoh_truncated'', ABool True), (''content'', AString content)]"

lemma threeQuarters_less:
  assumes "0 < n"
  shows "goDiv (wrap64 (n * 3)) 4 < n"
proof (cases "0 \<le> wrap64 (n * 3)")
  case True
  have "wrap64 (n * 3) div 4 < n"
  proof (cases "n * 3 < 2 ^ 63")
    case True
    then show ?thesis using assms wrap64_id [of "n * 3"] by simp
  next
    case False
    then show ?thesis using wrap64_range(2) [of "n * 3"] by simp
  qed
  then show ?thesis using True by (simp add: goDiv_nonneg)
next
  case False
  then show ?thesis using goDiv_neg [of "wrap64 (n * 3)" 4] assms by simp
qed

function contentLoop :: "int \<Rightarrow> string \<Rightarrow> string \<Rightarrow> PruneConfig \<Rightarrow> string" where
  "contentLoop contentBudget raw label cfg =
     (if contentBudget \<le> 0 then DefaultMarker
      else
        (let contentCfg = toolOutputPruneConfig \<lparr>to_MaxBytes = contentBudget, to_MaxLines = pr_MaxLines cfg\<rparr>;
             content = PruneWithEdges raw label contentCfg
         in if \<not> toolOutputExceeds (truncatedWrapper content) cfg then content
            else contentLoop (goDiv (wrap64 (contentBudget * 3)) 4) raw label cfg))"
  by pat_completeness auto
termination
  by (relation "measure (\<lambda>(n, raw, label, cfg). nat n)") (auto simp: threeQuarters_less)

declare contentLoop.simps [simp del]

text \<open>The empty wrapper, \<^verbatim>\<open>{"_memoh_truncated":true,"content":""}\<close>, has 38 bytes.\<close>

definition fallbackContentString :: "string \<Rightarrow> string \<Rightarrow> PruneConfig \<Rightarrow> string" where
  "fallbackContentString raw label cfg =
     (let contentBudget = pr_MaxBytes cfg - 38 in
      if contentBudget \<le> 0 then DefaultMarker else contentLoop contentBudget raw label cfg)"

definition fallbackErrorToolOutput :: "anyval \<Rightarrow> string \<Rightarrow> PruneConfig \<Rightarrow> anyval" where
  "fallbackErrorToolOutput v label cfg =
     AMap [(''isError'', ABool True), (''content'', AString (fallbackContentString (MarshalString v) label cfg))]"

definition fallbackToolOutput :: "anyval \<Rightarrow> string \<Rightarrow> PruneConfig \<Rightarrow> anyval" where
  "fallbackToolOutput v label cfg = truncatedWrapper (fallbackContentString (MarshalString v) label cfg)"

definition LimitToolOutput :: "anyval \<Rightarrow> string \<Rightarrow> ToolOutputLimit \<Rightarrow> anyval" where
  "LimitToolOutput output label limit =
     (let cfg = toolOutputPruneConfig limit; limited = limitToolOutputValue output label cfg in
      if \<not> toolOutputExceeds limited cfg then limited
      else
        (case fitToolOutputValue output label cfg of
           Some fitted \<Rightarrow> fitted
         | None \<Rightarrow> if isErrorResultMap limited then fallbackErrorToolOutput limited label cfg
                   else fallbackToolOutput limited label cfg))"

end
