(* ===== verification/FoldTypes.thy ===== *)
theory FoldTypes
  imports ToolOutput
begin

text \<open>
  What compaction (\<^verbatim>\<open>internal/agent/context/compaction\<close>) works on: the messages of a
  request, their price in tokens (\<^verbatim>\<open>internal/agent/context/fragment/tokens.go\<close>), the place of a
  summary among them (\<^verbatim>\<open>internal/agent/turn/summary.go\<close>) and the compaction event
  (\<^verbatim>\<open>compaction/fold.go\<close>, \<^verbatim>\<open>types.go\<close>). Messages and their parts are types of the
  model SDK, a module outside the repository: the parts are told apart as the code tells
  them apart, with what it reads of them, and the SDK's encodings and constructors are
  the fields of a record \<open>Sdk\<close> that the functions take as an argument.
\<close>

section \<open>Messages\<close>

type_synonym ToolArguments = string

text \<open>A tool's output is a text or a JSON document; what encodes the document is kept beside it.\<close>

datatype ToolOutput = TextOutput string | JSONOutput bytes

text \<open>The last argument of a part is what else it carries.\<close>

datatype MessagePart =
    TextPart string bytes
  | ReasoningPart string bytes
  | ImagePart bytes
  | FilePart string bytes
  | ToolCallPart string string ToolArguments bytes
  | ToolResultPart string string ToolOutput bytes
  | OtherPart bytes

record SdkMessage =
  ms_Role :: string
  ms_Content :: "MessagePart list"

record ToolDefinition =
  td_Name :: string
  td_Description :: string
  td_Parameters :: bytes

text \<open>
  The SDK: \<open>json.Marshal\<close> of its types as the length of the encoding (\<open>None\<close> when it
  fails), its constructors, and the readings of a tool's output and of a call's
  arguments. The code relies on \<open>UserMessage\<close> being a message with one text part.
\<close>

record Sdk =
  sdk_marshalPart :: "MessagePart \<Rightarrow> int option"
  sdk_marshalMessage :: "SdkMessage \<Rightarrow> int option"
  sdk_marshalTool :: "ToolDefinition \<Rightarrow> int option"
  sdk_UserMessage :: "string \<Rightarrow> SdkMessage"
  sdk_RoleTool :: string
  sdk_outputString :: "ToolOutput \<Rightarrow> string"
  sdk_unmarshalOutput :: "bytes \<Rightarrow> anyval option"
  sdk_JSONOutput :: "anyval \<Rightarrow> ToolOutput option"
  sdk_argumentsString :: "ToolArguments \<Rightarrow> string"
  sdk_argumentsObject :: "ToolArguments \<Rightarrow> anyval"
  sdk_unmarshalArguments :: "ToolArguments \<Rightarrow> anyval option"
  sdk_marshalValue :: "anyval \<Rightarrow> string option"
  sdk_ParseToolArguments :: "string \<Rightarrow> ToolArguments"

section \<open>Prices\<close>

definition EstimateBytesPerToken :: int where "EstimateBytesPerToken = 4"
definition ProviderBudgetSafetyFactorPercent :: int where "ProviderBudgetSafetyFactorPercent = 125"
definition EstimateImageTokens :: int where "EstimateImageTokens = 1500"

definition TokensFromBytes :: "int \<Rightarrow> int" where
  "TokensFromBytes n = (if n \<le> 0 then 0 else n div EstimateBytesPerToken)"

definition ProviderBudgetBytesForTokens :: "int \<Rightarrow> int" where
  "ProviderBudgetBytesForTokens tokens = max 0 tokens * 100 div ProviderBudgetSafetyFactorPercent * EstimateBytesPerToken"

definition ProviderBudgetTokensFromBytes :: "int \<Rightarrow> int" where
  "ProviderBudgetTokensFromBytes n =
     (if n \<le> 0 then 0
      else
        (let ceiling = n div EstimateBytesPerToken + (if n mod EstimateBytesPerToken \<noteq> 0 then 1 else 0)
         in ceiling * ProviderBudgetSafetyFactorPercent div 100))"

fun partEstimate :: "Sdk \<Rightarrow> MessagePart \<Rightarrow> int \<times> int" where
  "partEstimate sdk (TextPart t r) = (int (length t), 0)"
| "partEstimate sdk (ReasoningPart t r) = (int (length t), 0)"
| "partEstimate sdk (ImagePart r) = (0, 1)"
| "partEstimate sdk part = (case sdk_marshalPart sdk part of None \<Rightarrow> (0, 0) | Some n \<Rightarrow> (n, 0))"

definition sdkMessageEstimate :: "Sdk \<Rightarrow> SdkMessage \<Rightarrow> int \<times> int" where
  "sdkMessageEstimate sdk msg =
     (sum_list (map (fst \<circ> partEstimate sdk) (ms_Content msg)), sum_list (map (snd \<circ> partEstimate sdk) (ms_Content msg)))"

definition messageTokens :: "Sdk \<Rightarrow> SdkMessage \<Rightarrow> int" where
  "messageTokens sdk msg =
     (case sdkMessageEstimate sdk msg of (n, images) \<Rightarrow> ProviderBudgetTokensFromBytes n + images * EstimateImageTokens)"

definition ToolDefinitionTokens :: "Sdk \<Rightarrow> ToolDefinition \<Rightarrow> int" where
  "ToolDefinitionTokens sdk tool =
     (let n = (case sdk_marshalTool sdk tool of
                 None \<Rightarrow> int (length (td_Name tool)) + int (length (td_Description tool))
               | Some m \<Rightarrow> m)
      in max (TokensFromBytes n) (ProviderBudgetTokensFromBytes n))"

definition ProviderEnvelopeTokens :: "Sdk \<Rightarrow> string \<Rightarrow> SdkMessage list \<Rightarrow> ToolDefinition list \<Rightarrow> int" where
  "ProviderEnvelopeTokens sdk system messages tools =
     ProviderBudgetTokensFromBytes (int (length system)) + sum_list (map (messageTokens sdk) messages) +
     sum_list (map (ToolDefinitionTokens sdk) tools)"

lemma ProviderBudgetTokensFromBytes_nonneg [simp]: "0 \<le> ProviderBudgetTokensFromBytes n"
  by (simp add: ProviderBudgetTokensFromBytes_def EstimateBytesPerToken_def ProviderBudgetSafetyFactorPercent_def Let_def
      pos_imp_zdiv_nonneg_iff)

lemma ProviderBudgetTokensFromBytes_pos: "0 < n \<Longrightarrow> ProviderBudgetTokensFromBytes n = (n + 3) div 4 * 125 div 100"
proof -
  have "k div 4 + (if k mod 4 \<noteq> 0 then 1 else 0) = (k + 3) div 4" for k :: int
    by (cases "k mod 4 = 0") presburger+
  from this [of n] show "0 < n \<Longrightarrow> ?thesis"
    by (simp add: ProviderBudgetTokensFromBytes_def EstimateBytesPerToken_def ProviderBudgetSafetyFactorPercent_def Let_def del: mod_eq_0_iff_dvd)
qed

lemma ProviderBudgetTokensFromBytes_mono: "m \<le> n \<Longrightarrow> ProviderBudgetTokensFromBytes m \<le> ProviderBudgetTokensFromBytes n"
proof (cases "0 < m")
  case True
  assume "m \<le> n"
  then have "(m + 3) div 4 * 125 div 100 \<le> (n + 3) div 4 * 125 div 100"
    by (intro zdiv_mono1 mult_right_mono) simp_all
  with True \<open>m \<le> n\<close> show ?thesis by (simp add: ProviderBudgetTokensFromBytes_pos)
next
  case False
  then have "ProviderBudgetTokensFromBytes m = 0" by (simp add: ProviderBudgetTokensFromBytes_def)
  then show ?thesis by simp
qed

lemma images_nonneg: "0 \<le> snd (partEstimate sdk p)"
  by (cases p) (auto split: option.split)

lemma messageTokens_nonneg [simp]: "0 \<le> messageTokens sdk msg"
proof -
  have "0 \<le> sum_list (map (snd \<circ> partEstimate sdk) (ms_Content msg))"
    by (rule sum_list_nonneg) (auto simp: images_nonneg)
  then show ?thesis by (simp add: messageTokens_def sdkMessageEstimate_def EstimateImageTokens_def)
qed

section \<open>The place of a summary\<close>

definition summaryPreamble :: string where
  "summaryPreamble = ''The summary below stands for earlier messages of this conversation that are no longer shown; the messages shown verbatim before it and everything after it take precedence over it.''"

definition SummaryText :: "string \<Rightarrow> string" where
  "SummaryText summary =
     summaryPreamble @ [newline] @ ''<summary>'' @ [newline] @ TrimSpace summary @ [newline] @ ''</summary>''"

text \<open>The position after the last covered item, 0 when none is covered.\<close>

fun afterLast :: "('a \<Rightarrow> bool) \<Rightarrow> 'a list \<Rightarrow> nat" where
  "afterLast covered [] = 0"
| "afterLast covered (x # xs) =
     (let n = afterLast covered xs in if n > 0 then Suc n else if covered x then 1 else 0)"

text \<open>The second loop: the kept items, and the summary once the last covered one is passed.\<close>

fun placeFrom :: "'a \<Rightarrow> ('a \<Rightarrow> bool) \<Rightarrow> nat \<Rightarrow> 'a list \<Rightarrow> 'a list" where
  "placeFrom summary covered n [] = []"
| "placeFrom summary covered n (x # xs) =
     (if covered x then [] else [x]) @ (if n = 1 then [summary] else []) @ placeFrom summary covered (n - 1) xs"

definition PlaceSummary :: "'a list \<Rightarrow> 'a \<Rightarrow> ('a \<Rightarrow> bool) \<Rightarrow> 'a list \<times> bool" where
  "PlaceSummary items summary covered =
     (let n = afterLast covered items
      in if n = 0 then (items, False) else (placeFrom summary covered n items, True))"

lemma afterLast_zero: "afterLast covered xs = 0 \<longleftrightarrow> (\<forall>x\<in>set xs. \<not> covered x)"
  by (induction xs) (auto simp: Let_def)

lemma placeFrom_zero: "placeFrom s covered 0 xs = filter (\<lambda>x. \<not> covered x) xs"
  by (induction xs) auto

lemma placeFrom_split:
  "0 < n \<Longrightarrow> n \<le> length xs \<Longrightarrow>
    placeFrom s covered n xs = filter (\<lambda>x. \<not> covered x) (take n xs) @ [s] @ filter (\<lambda>x. \<not> covered x) (drop n xs)"
proof (induction xs arbitrary: n)
  case (Cons x xs)
  then show ?case by (cases "n = 1") (auto simp: placeFrom_zero gr0_conv_Suc)
qed simp

lemma afterLast_le: "afterLast covered xs \<le> length xs"
  by (induction xs) (auto simp: Let_def)

lemma afterLast_last: "afterLast covered xs = Suc i \<Longrightarrow> covered (xs ! i)"
  by (induction xs arbitrary: i) (auto simp: Let_def nth_Cons split: if_splits nat.split)

lemma afterLast_rest: "x \<in> set (drop (afterLast covered xs) xs) \<Longrightarrow> \<not> covered x"
  by (induction xs) (auto simp: Let_def afterLast_zero split: if_splits)

text \<open>The kept items in their order, the summary after those inside the covered span.\<close>

lemma PlaceSummary_eq:
  assumes "\<exists>x\<in>set xs. covered x"
  shows "PlaceSummary xs s covered =
    (filter (\<lambda>x. \<not> covered x) (take (afterLast covered xs) xs) @ s # drop (afterLast covered xs) xs, True)"
proof -
  have pos: "0 < afterLast covered xs" using assms afterLast_zero [of covered xs] by blast
  have "filter (\<lambda>x. \<not> covered x) (drop (afterLast covered xs) xs) = drop (afterLast covered xs) xs"
    using afterLast_rest [of _ covered xs] by (simp add: filter_id_conv)
  then show ?thesis
    using placeFrom_split [OF pos afterLast_le] pos by (simp add: PlaceSummary_def Let_def)
qed

end
