(* ===== verification/FoldEvent.thy ===== *)
theory FoldEvent
  imports FoldTypes
begin

text \<open>
  A compaction event and what it keeps verbatim: \<^verbatim>\<open>compaction/fold.go\<close> (\<open>Event\<close>, \<open>Source\<close>)
  and the first half of \<^verbatim>\<open>compaction/fold_plan.go\<close> (budgets and \<open>retain\<close>). A Go
  \<open>map[int]bool\<close> over the messages is a predicate on their indices. Token counts are far
  below the range of a Go \<open>int\<close> and are \<open>int\<close>s here.
\<close>

section \<open>Events\<close>

record ContextMessageSource =
  cs_Kind :: string
  cs_ID :: string
  cs_Current :: bool

text \<open>The key the code makes of a source: its kind and ID.\<close>

type_synonym sourceId = "string \<times> string"

definition sourceKey :: "ContextMessageSource \<Rightarrow> sourceId" where
  "sourceKey s = (cs_Kind s, cs_ID s)"

record Source =
  so_Sources :: "ContextMessageSource list"
  so_Anchor :: bool

datatype AnchorPolicy = AnchorsCapped | AnchorsFirst

record retention =
  rt_cut :: nat
  rt_anchors :: "sourceId list"
  rt_keptGroups :: int
  rt_latestGroupTokens :: int

text \<open>The request of an event is its system prompt, its messages and its tools.\<close>

record FoldEvent =
  fe_System :: string
  fe_Messages :: "SdkMessage list"
  fe_Tools :: "ToolDefinition list"
  fe_Sources :: "Source list"
  fe_Current :: "SdkMessage list"
  fe_AnchorPolicy :: AnchorPolicy
  fe_Window :: int
  fe_MaxOutputTokens :: int
  fe_Allowance :: int
  fe_FixedOutput :: bool
  fe_retention :: retention

abbreviation fe_cut :: "FoldEvent \<Rightarrow> nat" where "fe_cut ev \<equiv> rt_cut (fe_retention ev)"

definition isSummarySource :: "Source \<Rightarrow> bool" where
  "isSummarySource source = (case so_Sources source of [] \<Rightarrow> False | s # _ \<Rightarrow> cs_Kind s = ''summary'')"

definition hasSource :: "FoldEvent \<Rightarrow> nat \<Rightarrow> bool" where
  "hasSource ev i = (so_Sources (fe_Sources ev ! i) \<noteq> [])"

definition forkTokens :: "Sdk \<Rightarrow> string \<Rightarrow> SdkMessage list \<Rightarrow> ToolDefinition list \<Rightarrow> int" where
  "forkTokens sdk system messages tools = ProviderEnvelopeTokens sdk system messages tools"

section \<open>Budgets\<close>

definition roomShare :: int where "roomShare = 4"
definition verbatimCapTokens :: int where "verbatimCapTokens = 32000"
definition minForkOutputTokens :: int where "minForkOutputTokens = 1024"
definition instructionNumberSlack :: int where "instructionNumberSlack = 8"
definition forkInstructionReserve :: int where "forkInstructionReserve = 1024"
definition minSummaryTokens :: int where "minSummaryTokens = 32"

text \<open>The messages at the indices that satisfy a predicate.\<close>

definition messagesAt :: "FoldEvent \<Rightarrow> nat list \<Rightarrow> (nat \<Rightarrow> bool) \<Rightarrow> SdkMessage list" where
  "messagesAt ev is P = map ((!) (fe_Messages ev)) (filter P is)"

definition fixedRoom :: "Sdk \<Rightarrow> FoldEvent \<Rightarrow> int" where
  "fixedRoom sdk ev =
     fe_Allowance ev - forkTokens sdk (fe_System ev) (messagesAt ev [0..<length (fe_Messages ev)] (\<lambda>i. \<not> hasSource ev i)) (fe_Tools ev)"

definition verbatimBudget :: "Sdk \<Rightarrow> FoldEvent \<Rightarrow> int" where
  "verbatimBudget sdk ev = min verbatimCapTokens (goDiv (fixedRoom sdk ev) roomShare)"

definition summaryBudget :: "Sdk \<Rightarrow> FoldEvent \<Rightarrow> int" where
  "summaryBudget sdk ev = goDiv (fixedRoom sdk ev) roomShare"

definition keepTokens :: "Sdk \<Rightarrow> SdkMessage \<Rightarrow> int" where
  "keepTokens sdk message =
     (let tokens = forkTokens sdk '''' [message] []
      in case sdk_marshalMessage sdk message of None \<Rightarrow> tokens | Some n \<Rightarrow> max tokens (TokensFromBytes n))"

section \<open>Call groups\<close>

definition isToolResult :: "MessagePart \<Rightarrow> bool" where
  "isToolResult part = (case part of ToolResultPart _ _ _ _ \<Rightarrow> True | _ \<Rightarrow> False)"

definition foldBoundary :: "SdkMessage list \<Rightarrow> nat \<Rightarrow> bool" where
  "foldBoundary messages n =
     (if n = 0 \<or> length messages < n then False
      else if n = length messages then True
      else \<not> list_ex isToolResult (ms_Content (messages ! n)))"

text \<open>Where the group that ends before a position starts: the backwards search of \<open>retain\<close>.\<close>

fun groupStart :: "SdkMessage list \<Rightarrow> nat \<Rightarrow> nat" where
  "groupStart messages 0 = 0"
| "groupStart messages (Suc n) = (if 0 < n \<and> \<not> foldBoundary messages n then groupStart messages n else n)"

lemma groupStart_less [simp]: "0 < n \<Longrightarrow> groupStart messages n < n"
  by (induction n) (auto intro: less_SucI)

section \<open>What an event keeps\<close>

definition retentionKeeps :: "sourceId list \<Rightarrow> Source \<Rightarrow> bool" where
  "retentionKeeps anchors source \<longleftrightarrow> so_Anchor source \<and> list_ex (\<lambda>s. sourceKey s \<in> set anchors) (so_Sources source)"

text \<open>Messages that cost a fold nothing: runtime context and what no context row holds.\<close>

definition fixedAt :: "FoldEvent \<Rightarrow> (nat \<Rightarrow> bool) \<Rightarrow> nat \<Rightarrow> bool" where
  "fixedAt ev unfoldable i \<longleftrightarrow> \<not> hasSource ev i \<or> unfoldable i"

definition keepCost :: "Sdk \<Rightarrow> FoldEvent \<Rightarrow> (nat \<Rightarrow> bool) \<Rightarrow> nat \<Rightarrow> nat \<Rightarrow> int" where
  "keepCost sdk ev unfoldable lo hi =
     sum_list (map (\<lambda>i. keepTokens sdk (fe_Messages ev ! i)) (filter (\<lambda>i. \<not> fixedAt ev unfoldable i) [lo..<hi]))"

text \<open>The index after the last one that does not satisfy the predicate.\<close>

fun skipBack :: "(nat \<Rightarrow> bool) \<Rightarrow> nat \<Rightarrow> nat" where
  "skipBack P 0 = 0"
| "skipBack P (Suc n) = (if P n then skipBack P n else Suc n)"

fun anchorLoop ::
    "Sdk \<Rightarrow> FoldEvent \<Rightarrow> (nat \<Rightarrow> bool) \<Rightarrow> int \<Rightarrow> nat \<Rightarrow> int \<Rightarrow> sourceId list \<Rightarrow> int \<times> sourceId list" where
  "anchorLoop sdk ev unfoldable budget 0 used anchors = (used, anchors)"
| "anchorLoop sdk ev unfoldable budget (Suc i) used anchors =
     (if \<not> so_Anchor (fe_Sources ev ! i) \<or> fixedAt ev unfoldable i then anchorLoop sdk ev unfoldable budget i used anchors
      else
        (let tokens = keepCost sdk ev unfoldable i (Suc i)
         in if budget < used + tokens then (used, anchors)
            else anchorLoop sdk ev unfoldable budget i (used + tokens) (anchors @ map sourceKey (so_Sources (fe_Sources ev ! i)))))"

text \<open>The two flags of the scan over a group: something to keep, something that stops.\<close>

definition groupStops :: "FoldEvent \<Rightarrow> (nat \<Rightarrow> bool) \<Rightarrow> sourceId list \<Rightarrow> nat \<Rightarrow> nat \<Rightarrow> bool" where
  "groupStops ev unfoldable anchors lo hi =
     list_ex (\<lambda>i. \<not> (fixedAt ev unfoldable i \<or> retentionKeeps anchors (fe_Sources ev ! i)) \<and>
        (isSummarySource (fe_Sources ev ! i) \<or> so_Anchor (fe_Sources ev ! i))) [lo..<hi]"

definition groupCounts :: "FoldEvent \<Rightarrow> (nat \<Rightarrow> bool) \<Rightarrow> sourceId list \<Rightarrow> nat \<Rightarrow> nat \<Rightarrow> bool" where
  "groupCounts ev unfoldable anchors lo hi =
     list_ex (\<lambda>i. \<not> (fixedAt ev unfoldable i \<or> retentionKeeps anchors (fe_Sources ev ! i)) \<and>
        \<not> (isSummarySource (fe_Sources ev ! i) \<or> so_Anchor (fe_Sources ev ! i))) [lo..<hi]"

text \<open>The loop over the groups, newest first. \<open>latest\<close>: no group was priced yet.\<close>

function groupLoop ::
    "Sdk \<Rightarrow> FoldEvent \<Rightarrow> (nat \<Rightarrow> bool) \<Rightarrow> nat \<Rightarrow> int \<Rightarrow> bool \<Rightarrow> retention \<Rightarrow> retention" where
  "groupLoop sdk ev unfoldable n budget latest r =
     (if n = 0 then r
      else
        (let start = groupStart (fe_Messages ev) n in
         if groupStops ev unfoldable (rt_anchors r) start n then r
         else if groupCounts ev unfoldable (rt_anchors r) start n then
           (let tokens = keepCost sdk ev unfoldable start n;
                r' = (if latest then r\<lparr>rt_latestGroupTokens := tokens\<rparr> else r)
            in if budget < tokens then r'
               else groupLoop sdk ev unfoldable start (budget - tokens) False
                      (r'\<lparr>rt_keptGroups := rt_keptGroups r' + 1, rt_cut := start\<rparr>))
         else groupLoop sdk ev unfoldable start budget latest r))"
  by auto
termination by (relation "measure (\<lambda>(_, _, _, n, _). n)") simp_all

declare groupLoop.simps [simp del]

definition retain :: "Sdk \<Rightarrow> FoldEvent \<Rightarrow> (nat \<Rightarrow> bool) \<Rightarrow> retention" where
  "retain sdk ev unfoldable =
     (let n = length (fe_Messages ev);
          capped = (fe_AnchorPolicy ev = AnchorsCapped);
          forced = sum_list (map (\<lambda>i. keepTokens sdk (fe_Messages ev ! i)) (filter (\<lambda>i. hasSource ev i \<and> unfoldable i) [0..<n]));
          cut0 = (if capped then skipBack (\<lambda>i. fixedAt ev unfoldable i \<or> so_Anchor (fe_Sources ev ! i)) n else n);
          budget = verbatimBudget sdk ev - forced - (if capped then keepCost sdk ev unfoldable cut0 n else 0);
          room = fixedRoom sdk ev;
          anchorBudget = (if capped then budget else room - goDiv room 10);
          (used, anchors) = anchorLoop sdk ev unfoldable anchorBudget cut0 0 []
      in groupLoop sdk ev unfoldable cut0 (budget - used) True
           \<lparr>rt_cut = cut0, rt_anchors = anchors, rt_keptGroups = 0, rt_latestGroupTokens = 0\<rparr>)"

end
