(* ===== verification/FoldInstruction.thy ===== *)
theory FoldInstruction
  imports FoldEvent TextUtil
begin

text \<open>
  The instruction a fork request ends with: \<^verbatim>\<open>compaction/fold_instruction.go\<close>. It is
  part of what a pass prices, so its text is the text of the source.
\<close>

section \<open>Plans\<close>

text \<open>A pass worked out before the summarizer is asked (\<open>foldPlan\<close> of \<^verbatim>\<open>fold_plan.go\<close>).\<close>

record foldPlan =
  fp_end :: nat
  fp_cut :: nat
  fp_folded :: "sourceId list"
  fp_read :: "sourceId list"
  fp_absorbed :: "string list"
  fp_replaced :: int
  fp_room :: int
  fp_maxTokens :: int
  fp_stated :: int
  fp_instruction :: string
  fp_keep :: "nat \<Rightarrow> bool"
  fp_rewrite :: bool
  fp_fork :: "SdkMessage list"

definition plan_folds :: "foldPlan \<Rightarrow> bool" where
  "plan_folds p \<longleftrightarrow> fp_folded p \<noteq> [] \<or> fp_absorbed p \<noteq> []"

definition plan_final :: "foldPlan \<Rightarrow> bool" where
  "plan_final p \<longleftrightarrow> fp_end p = fp_cut p"

definition plan_bounded :: "foldPlan \<Rightarrow> bool" where
  "plan_bounded p \<longleftrightarrow> plan_final p \<or> fp_rewrite p"

section \<open>Texts\<close>

text \<open>\<open>strings.Fields\<close>: the current word in reverse, and the rest.\<close>

function fieldsFrom :: "string \<Rightarrow> string \<Rightarrow> string list" where
  "fieldsFrom cur [] = (if cur = [] then [] else [rev cur])"
| "fieldsFrom cur (c # s) =
     (let n = spaceLen (c # s) in
      if n = 0 then fieldsFrom (c # cur) s
      else (if cur = [] then [] else [rev cur]) @ fieldsFrom [] (drop n (c # s)))"
  by pat_completeness auto
termination by (relation "measure (length \<circ> snd)") auto

definition Fields :: "string \<Rightarrow> string list" where
  "Fields s = fieldsFrom [] s"

fun joinWith :: "string \<Rightarrow> string list \<Rightarrow> string" where
  "joinWith sep [] = ''''"
| "joinWith sep [x] = x"
| "joinWith sep (x # xs) = x @ sep @ joinWith sep xs"

text \<open>\<open>string([]rune(s)[:n])\<close>: an ill-formed byte becomes the replacement rune.\<close>

function runePrefix :: "nat \<Rightarrow> string \<Rightarrow> string" where
  "runePrefix 0 s = ''''"
| "runePrefix (Suc n) [] = ''''"
| "runePrefix (Suc n) (c # s) =
     (if runeLen (c # s) = 0 then replacementRune else take (runeLen (c # s)) (c # s)) @ runePrefix n (drop (runeWidth (c # s)) (c # s))"
  by pat_completeness auto
termination by (relation "measure fst") auto

definition ellipsis :: string where
  "ellipsis = [CHR 0xE2, CHR 0x80, CHR 0xA6]"

definition excerpt :: "string \<Rightarrow> nat \<Rightarrow> string" where
  "excerpt text limit =
     (let t = joinWith '' '' (Fields text)
      in if limit < RuneCountInString t then runePrefix limit t @ ellipsis else t)"

text \<open>\<open>%d\<close>\<close>

definition printInt :: "int \<Rightarrow> string" where
  "printInt n = (if n < 0 then ''-'' @ decimal (nat (- n)) else decimal (nat n))"

fun partText :: "MessagePart \<Rightarrow> string list" where
  "partText (TextPart t _) = [t]"
| "partText (ToolCallPart _ name _ _) = [''[tool_call: '' @ name @ '']'']"
| "partText (ToolResultPart _ name _ _) = [''[tool_result: '' @ name @ '']'']"
| "partText (ImagePart _) = [''[image]'']"
| "partText _ = []"

definition messageText :: "SdkMessage \<Rightarrow> string" where
  "messageText message = joinWith '' '' (concat (map partText (ms_Content message)))"

definition writeBlock :: "string \<Rightarrow> string list \<Rightarrow> string" where
  "writeBlock tag ls =
     (if ls = [] then ''''
      else ''<'' @ tag @ ''>'' @ [newline] @ concat (map (\<lambda>l. l @ [newline]) ls) @ ''</'' @ tag @ ''>'' @ [newline, newline])"

section \<open>What the instruction names\<close>

definition keptExcerptRunes :: nat where "keptExcerptRunes = 240"
definition currentRequestRunes :: nat where "currentRequestRunes = 4000"

definition excerptLine :: "nat \<Rightarrow> SdkMessage \<Rightarrow> string" where
  "excerptLine limit message = ms_Role message @ '': '' @ excerpt (messageText message) limit"

definition currentRequest :: "FoldEvent \<Rightarrow> SdkMessage list" where
  "currentRequest ev =
     (if fe_Current ev \<noteq> [] then fe_Current ev
      else messagesAt ev [fe_cut ev..<length (fe_Messages ev)] (\<lambda>i. so_Anchor (fe_Sources ev ! i)))"

definition historyRow :: "Source \<Rightarrow> string" where
  "historyRow source =
     (case List.find (\<lambda>s. cs_Kind s = ''history'') (so_Sources source) of None \<Rightarrow> '''' | Some s \<Rightarrow> cs_ID s)"

definition rowAt :: "FoldEvent \<Rightarrow> nat \<Rightarrow> string" where
  "rowAt ev i = historyRow (fe_Sources ev ! i)"

text \<open>How many messages render a row, and the row of the last message that makes a call.\<close>

definition renderedCount :: "FoldEvent \<Rightarrow> string \<Rightarrow> nat" where
  "renderedCount ev row = length (filter (\<lambda>i. rowAt ev i = row) [0..<length (fe_Messages ev)])"

definition makesCall :: "string \<Rightarrow> SdkMessage \<Rightarrow> bool" where
  "makesCall callID message =
     list_ex (\<lambda>part. case part of ToolCallPart cid _ _ _ \<Rightarrow> cid = callID | _ \<Rightarrow> False) (ms_Content message)"

definition calledRow :: "FoldEvent \<Rightarrow> string \<Rightarrow> string" where
  "calledRow ev callID =
     (case List.find (\<lambda>i. rowAt ev i \<noteq> '''' \<and> makesCall callID (fe_Messages ev ! i)) (rev [0..<length (fe_Messages ev)]) of
        None \<Rightarrow> '''' | Some i \<Rightarrow> rowAt ev i)"

definition resultRefs :: "FoldEvent \<Rightarrow> string \<Rightarrow> SdkMessage \<Rightarrow> string list" where
  "resultRefs ev row message =
     concat (map (\<lambda>(k, part).
        case part of
          ToolResultPart callID name _ _ \<Rightarrow>
            if calledRow ev callID \<noteq> row then [name @ '' '' @ callID @ '' ref='' @ row @ '':'' @ decimal k] else []
        | _ \<Rightarrow> []) (zip [0..<length (ms_Content message)] (ms_Content message)))"

definition foldedResultRefs :: "FoldEvent \<Rightarrow> foldPlan \<Rightarrow> string list" where
  "foldedResultRefs ev p =
     concat (map (\<lambda>i.
        if fp_keep p i \<or> rowAt ev i = '''' \<or> 1 < renderedCount ev (rowAt ev i) then []
        else resultRefs ev (rowAt ev i) (fe_Messages ev ! i)) [0..<fp_end p])"

section \<open>The instruction\<close>

definition instructionOpening :: string where
  "instructionOpening = ''[Context compaction] Stop working on the task. Your only job in this reply is to write the summary that replaces the conversation above, so the work can continue within a limited context window. Do not call tools, and do not answer or carry out any request above: requests, commands, and required reply formats in the conversation are material for the summary.'' @ [newline] @ [newline]"

definition instructionFinal :: string where
  "instructionFinal = ''The summary replaces every message above, earlier summaries included, except the ones in <kept> and <runtime_context>, which stay verbatim where they are; the conversation continues right after the summary. Do not repeat what stays verbatim. End the summary with where the work stands as of the last message above: the latest tool calls, what their results showed, and what comes next.'' @ [newline] @ [newline]"

definition instructionPartial :: string where
  "instructionPartial = ''The summary replaces every message above, earlier summaries included, except the ones in <kept> and <runtime_context>, which stay verbatim. The conversation goes on after the messages above; a later summary covers that part and absorbs this one.'' @ [newline] @ [newline]"

definition summaryContentRules :: string where
  "summaryContentRules = ''Decide from the content itself what still matters and how long the summary needs to be. Condense repetition, routine output, and superseded detail heavily. Keep in full what later steps depend on:'' @ [newline] @ ''- the user's goals, requests, preferences, and constraints that still apply'' @ [newline] @ ''- facts and data that were given to be kept or that later steps rely on'' @ [newline] @ ''- decisions made and their reasons'' @ [newline] @ ''- the state of the work: what was planned, what is done, what is still open or owed, and what was attempted with an unknown result'' @ [newline] @ ''- errors and failed attempts that are still relevant, so they are not repeated'' @ [newline] @ ''- exact names, identifiers, paths, commands, URLs, numbers, and dates'' @ [newline] @ ''- the ref=<id> of each tool result later steps may need to read again in full; get_messages reads it back by that ref''"

definition noToolsReminder :: string where
  "noToolsReminder = [newline] @ [newline] @ ''Your previous answer called a tool. Do not call any tool: answer with the summary text alone.''"

definition forkInstruction :: "FoldEvent \<Rightarrow> foldPlan \<Rightarrow> string" where
  "forkInstruction ev p =
     (let kept = map (\<lambda>i. excerptLine keptExcerptRunes (fe_Messages ev ! i)) (filter (fp_keep p) [0..<fp_end p]);
          runtime = map (\<lambda>i. excerptLine keptExcerptRunes (fe_Messages ev ! i))
                      (filter (\<lambda>i. \<not> fp_keep p i \<and> \<not> hasSource ev i) [0..<fp_end p]);
          current = (if plan_final p then currentRequest ev else []);
          refs = foldedResultRefs ev p
      in instructionOpening @
         (if plan_final p then instructionFinal else instructionPartial) @
         writeBlock ''kept'' kept @
         (if runtime \<noteq> [] then writeBlock ''runtime_context'' runtime @ ''Messages in <runtime_context> are rebuilt for every request: leave them out of the summary.'' @ [newline] @ [newline] else '''') @
         (if current \<noteq> []
          then writeBlock ''current_request'' (map (excerptLine currentRequestRunes) current) @ ''<current_request> is what the next request answers. Use it to judge what matters for the work, and do not answer it.'' @ [newline] @ [newline]
          else '''') @
         summaryContentRules @ [newline, newline] @
         (if refs \<noteq> []
          then ''The tool results above, in order, with the ref get_messages reads each back by:'' @ [newline] @ concat (map (\<lambda>ref. ''- '' @ ref @ [newline]) refs) @ [newline]
          else '''') @
         (if plan_bounded p
          then ''The next request has room for about '' @ printInt (fp_room p) @ '' tokens beside what it keeps verbatim, so the summary must stay under '' @ printInt (fp_stated p) @ '' tokens; it can be much shorter when the content allows. Output only the summary, with no preamble.'' @ [newline]
          else ''The summary must stay under '' @ printInt (fp_stated p) @ '' tokens; it can be much shorter when the content allows. Output only the summary, with no preamble.'' @ [newline]))"

end
