(* ===== verification/FoldRead.thy ===== *)
theory FoldRead
  imports FoldInstruction
begin

text \<open>
  What a pass sends its summarizer of the request: \<^verbatim>\<open>compaction/fold_read.go\<close>. A call
  group too large for a fork is cut, again and again shorter, until it fits.
\<close>

section \<open>Shares\<close>

fun partBytes :: "Sdk \<Rightarrow> MessagePart \<Rightarrow> int option" where
  "partBytes sdk (TextPart t _) = Some (int (length t))"
| "partBytes sdk (ToolResultPart _ _ result _) = Some (int (length (sdk_outputString sdk result)))"
| "partBytes sdk (ToolCallPart _ _ args _) = Some (int (length (sdk_argumentsString sdk args)))"
| "partBytes sdk _ = None"

fun partShareLoop :: "int \<Rightarrow> int list \<Rightarrow> int \<Rightarrow> int" where
  "partShareLoop budget [] left = budget"
| "partShareLoop budget (n # ns) left =
     (let share = goDiv left (int (length (n # ns)))
      in if share < n then share else partShareLoop budget ns (left - n))"

definition partShare :: "int list \<Rightarrow> int \<Rightarrow> int" where
  "partShare sizes budget = partShareLoop budget (sort sizes) budget"

section \<open>Cuts\<close>

definition cutOutput :: "Sdk \<Rightarrow> ToolOutput \<Rightarrow> ToolOutputLimit \<Rightarrow> ToolOutput" where
  "cutOutput sdk result limit =
     (let v = (case result of
                 TextOutput t \<Rightarrow> AString t
               | JSONOutput raw \<Rightarrow> (case sdk_unmarshalOutput sdk raw of Some v \<Rightarrow> v | None \<Rightarrow> AString raw));
          limited = LimitToolOutput v ''tool result'' limit
      in case limited of
           AString t \<Rightarrow> TextOutput t
         | _ \<Rightarrow> (case sdk_JSONOutput sdk limited of Some document \<Rightarrow> document | None \<Rightarrow> TextOutput (MarshalString limited)))"

definition cutArguments :: "Sdk \<Rightarrow> ToolArguments \<Rightarrow> ToolOutputLimit \<Rightarrow> ToolArguments" where
  "cutArguments sdk arguments limit =
     (if \<not> EncodedExceeds (sdk_argumentsObject sdk arguments) limit then arguments
      else
        (let v = (case sdk_unmarshalArguments sdk arguments of Some v \<Rightarrow> v | None \<Rightarrow> AString (sdk_argumentsString sdk arguments));
             limited = LimitToolOutput v ''tool call arguments'' limit;
             object = (case limited of AMap _ \<Rightarrow> limited | _ \<Rightarrow> AMap [(''truncated_arguments'', limited)])
         in case sdk_marshalValue sdk object of None \<Rightarrow> arguments | Some encoded \<Rightarrow> sdk_ParseToolArguments sdk encoded))"

fun cutPart :: "Sdk \<Rightarrow> bool \<Rightarrow> ToolOutputLimit \<Rightarrow> MessagePart \<Rightarrow> MessagePart list" where
  "cutPart sdk fromTool limit (TextPart t r) = [TextPart (LimitString t ''message'' limit) r]"
| "cutPart sdk fromTool limit (ToolResultPart callID name result r) = [ToolResultPart callID name (cutOutput sdk result limit) r]"
| "cutPart sdk fromTool limit (ToolCallPart callID name args r) = [ToolCallPart callID name (cutArguments sdk args limit) r]"
| "cutPart sdk fromTool limit (ImagePart r) = (if fromTool then [] else [TextPart ''[media]'' ''''])"
| "cutPart sdk fromTool limit (FilePart f r) = (if fromTool then [] else [TextPart ''[media]'' ''''])"
| "cutPart sdk fromTool limit (ReasoningPart t r) = [ReasoningPart t r]"
| "cutPart sdk fromTool limit (OtherPart r) = [OtherPart r]"

definition cutParts :: "Sdk \<Rightarrow> SdkMessage \<Rightarrow> ToolOutputLimit \<Rightarrow> SdkMessage" where
  "cutParts sdk message limit =
     message\<lparr>ms_Content := concat (map (cutPart sdk (ms_Role message = sdk_RoleTool sdk) limit) (ms_Content message))\<rparr>"

definition isReasoning :: "MessagePart \<Rightarrow> bool" where
  "isReasoning part = (case part of ReasoningPart _ _ \<Rightarrow> True | _ \<Rightarrow> False)"

definition reasoningOf :: "SdkMessage \<Rightarrow> SdkMessage list" where
  "reasoningOf message =
     (let kept = filter isReasoning (ms_Content message)
      in if kept = [] then [] else [\<lparr>ms_Role = ms_Role message, ms_Content = kept\<rparr>])"

definition maxInt :: int where "maxInt = 2 ^ 63 - 1"

text \<open>The limit of a cut within a budget: a quarter of it is left for the envelopes.\<close>

definition cutLimit :: "int list \<Rightarrow> int \<Rightarrow> ToolOutputLimit" where
  "cutLimit sizes budget = NormalizedLimit \<lparr>to_MaxBytes = partShare sizes (goDiv (budget * 3) 4), to_MaxLines = 0\<rparr>"

lemma cutLimit_pos: "0 < to_MaxBytes (cutLimit sizes budget)"
  by (simp add: cutLimit_def NormalizedLimit_def toolOutputPruneConfig_def DefaultMaxBytes_def minToolOutputMaxBytes_def Let_def split: prod.split)

function cutLoop :: "Sdk \<Rightarrow> SdkMessage list \<Rightarrow> int list \<Rightarrow> int \<Rightarrow> int \<Rightarrow> int \<Rightarrow> SdkMessage list option" where
  "cutLoop sdk grp sizes capTokens shortest budget =
     (let limit = cutLimit sizes budget in
      if shortest \<le> to_MaxBytes limit then None
      else
        (let read = map (\<lambda>message. cutParts sdk message limit) grp; tokens = forkTokens sdk '''' read []
         in if tokens \<le> capTokens then Some read
            else cutLoop sdk grp sizes capTokens (to_MaxBytes limit) (goDiv (goDiv (budget * capTokens) tokens * 9) 10)))"
  by auto
termination
proof (relation "measure (\<lambda>(_, _, _, _, shortest, _). nat shortest)")
  fix sdk grp sizes capTokens shortest budget limit read tokens
  assume "limit = cutLimit sizes budget" "\<not> shortest \<le> to_MaxBytes limit"
  then show "((sdk, grp, sizes, capTokens, to_MaxBytes limit, goDiv (goDiv (budget * capTokens) tokens * 9) 10),
      sdk, grp, sizes, capTokens, shortest, budget) \<in> measure (\<lambda>(_, _, _, _, shortest, _). nat shortest)"
    using cutLimit_pos [of sizes budget] by simp
qed simp

declare cutLoop.simps [simp del]

definition cutGroup :: "Sdk \<Rightarrow> SdkMessage list \<Rightarrow> int \<Rightarrow> SdkMessage list option" where
  "cutGroup sdk grp capTokens =
     (let sizes = concat (map (\<lambda>m. concat (map (\<lambda>p. case partBytes sdk p of None \<Rightarrow> [] | Some n \<Rightarrow> [n]) (ms_Content m))) grp);
          reasoning = concat (map reasoningOf grp);
          room = capTokens - (if reasoning \<noteq> [] then forkTokens sdk '''' reasoning [] else 0)
      in if room \<le> 0 then None
         else cutLoop sdk grp sizes capTokens maxInt (ProviderBudgetBytesForTokens room))"

section \<open>Reading\<close>

definition leastOutput :: "FoldEvent \<Rightarrow> int" where
  "leastOutput ev = (if fe_FixedOutput ev then fe_MaxOutputTokens ev else min (fe_MaxOutputTokens ev) minForkOutputTokens)"

definition forkGroupCap :: "Sdk \<Rightarrow> FoldEvent \<Rightarrow> int" where
  "forkGroupCap sdk ev =
     (let envelope = forkTokens sdk (fe_System ev) (messagesAt ev [0..<fe_cut ev] (\<lambda>i. \<not> hasSource ev i)) (fe_Tools ev)
      in max (fe_Window ev - envelope - summaryBudget sdk ev - forkInstructionReserve - leastOutput ev) minForkOutputTokens)"

text \<open>The first boundary after a position; there is one at the end of the messages.\<close>

function groupEnd :: "SdkMessage list \<Rightarrow> nat \<Rightarrow> nat" where
  "groupEnd messages n = (if length messages \<le> n \<or> foldBoundary messages n then n else groupEnd messages (Suc n))"
  by auto
termination by (relation "measure (\<lambda>(messages, n). length messages - n)") auto

declare groupEnd.simps [simp del]

lemma groupEnd_bounds: "n \<le> groupEnd messages n" "n \<le> length messages \<Longrightarrow> groupEnd messages n \<le> length messages"
  by (induction messages n rule: groupEnd.induct) (subst groupEnd.simps, fastforce)+

datatype FoldReason =
    ReasonSummarizerFailed | ReasonTruncated | ReasonEmpty | ReasonIneffective | ReasonStaleSource
  | ReasonInputOverflow | ReasonStillOver | ReasonProtectedOverflow

text \<open>A failed pass has the reason it reports; its text is left out.\<close>

definition readOne :: "Sdk \<Rightarrow> FoldEvent \<Rightarrow> int \<Rightarrow> nat \<Rightarrow> nat \<Rightarrow> SdkMessage list \<Rightarrow> SdkMessage list option" where
  "readOne sdk ev capTokens lo hi read =
     (let at' = filter (hasSource ev) [lo..<hi]; grp = map ((!) (fe_Messages ev)) at'
      in if forkTokens sdk '''' grp [] \<le> capTokens then Some read
         else (case cutGroup sdk grp capTokens of
                 None \<Rightarrow> None
               | Some shorter \<Rightarrow> Some (foldl (\<lambda>ms (i, m). ms[i := m]) read (zip at' shorter))))"

function forkReadFrom :: "Sdk \<Rightarrow> FoldEvent \<Rightarrow> int \<Rightarrow> nat \<Rightarrow> SdkMessage list \<Rightarrow> FoldReason + SdkMessage list" where
  "forkReadFrom sdk ev capTokens start read =
     (let messages = take (fe_cut ev) (fe_Messages ev) in
      if length messages \<le> start then Inr read
      else
        (let hi = groupEnd messages (Suc start)
         in case readOne sdk ev capTokens start hi read of
              None \<Rightarrow> Inl ReasonInputOverflow
            | Some read' \<Rightarrow> forkReadFrom sdk ev capTokens hi read'))"
  by auto
termination
proof (relation "measure (\<lambda>(sdk, ev, _, start, _). length (fe_Messages ev) - start)")
  fix sdk ev capTokens start read messages hi read'
  assume "messages = take (fe_cut ev) (fe_Messages ev)" "\<not> length messages \<le> start" "hi = groupEnd messages (Suc start)"
  then show "((sdk, ev, capTokens, hi, read'), sdk, ev, capTokens, start, read)
      \<in> measure (\<lambda>(sdk, ev, _, start, _). length (fe_Messages ev) - start)"
    using groupEnd_bounds(1) [of "Suc start" messages] by (auto simp: min_def split: if_splits)
qed simp

declare forkReadFrom.simps [simp del]

definition forkRead :: "Sdk \<Rightarrow> FoldEvent \<Rightarrow> FoldReason + SdkMessage list" where
  "forkRead sdk ev = forkReadFrom sdk ev (forkGroupCap sdk ev) 0 (take (fe_cut ev) (fe_Messages ev))"

text \<open>A fork reads as many messages as the request has before the cut.\<close>

lemma update_all_length: "length (foldl (\<lambda>ms (i, m). ms[i := m]) read us) = length read"
  by (induction us arbitrary: read) auto

lemma forkReadFrom_length: "forkReadFrom sdk ev capTokens start read = Inr out \<Longrightarrow> length out = length read"
proof (induction sdk ev capTokens start read rule: forkReadFrom.induct)
  case (1 sdk ev capTokens start read)
  show ?case
  proof (cases "length (take (fe_cut ev) (fe_Messages ev)) \<le> start")
    case True
    with 1(2) show ?thesis by (simp add: forkReadFrom.simps [of _ _ _ start])
  next
    case False
    then obtain read' where r: "readOne sdk ev capTokens start (groupEnd (take (fe_cut ev) (fe_Messages ev)) (Suc start)) read = Some read'"
        "forkReadFrom sdk ev capTokens (groupEnd (take (fe_cut ev) (fe_Messages ev)) (Suc start)) read' = Inr out"
      using 1(2) by (auto simp: forkReadFrom.simps [of _ _ _ start] Let_def split: option.splits if_splits)
    have "length read' = length read" using r(1) by (auto simp: readOne_def Let_def update_all_length split: if_splits option.splits)
    moreover have "length out = length read'" using 1(1) [OF refl False refl r] by simp
    ultimately show ?thesis by simp
  qed
qed

end
