(* ===== verification/FoldPlan.thy ===== *)
theory FoldPlan
  imports FoldRead
begin

text \<open>
  Planning one pass of a compaction event: \<^verbatim>\<open>compaction/fold_plan.go\<close> (\<open>planFold\<close>,
  \<open>spanPlan\<close>, \<open>size\<close>, \<open>order\<close>) and \<^verbatim>\<open>compaction/summary.go\<close>.
\<close>

section \<open>Summaries\<close>

definition SummaryMessage :: "Sdk \<Rightarrow> string \<Rightarrow> SdkMessage" where
  "SummaryMessage sdk summary = sdk_UserMessage sdk (SummaryText summary)"

definition summaryReplayTokens :: "Sdk \<Rightarrow> string \<Rightarrow> int" where
  "summaryReplayTokens sdk summary = ProviderEnvelopeTokens sdk '''' [SummaryMessage sdk summary] []"

text \<open>The binary search starts at 0, so the sum it halves is never negative.\<close>

function summaryLimitLoop :: "Sdk \<Rightarrow> int \<Rightarrow> int \<Rightarrow> int \<Rightarrow> int" where
  "summaryLimitLoop sdk replayBudget low high =
     (if \<not> low < high then low
      else
        (let mid = (low + high + 1) div 2 in
         if summaryReplayTokens sdk (replicate (nat ((mid + 1) * EstimateBytesPerToken)) (CHR ''x'')) \<le> replayBudget
         then summaryLimitLoop sdk replayBudget mid high
         else summaryLimitLoop sdk replayBudget low (mid - 1)))"
  by auto
termination by (relation "measure (\<lambda>(_, _, low, high). nat (high - low))") auto

declare summaryLimitLoop.simps [simp del]

definition summaryOutputLimit :: "Sdk \<Rightarrow> int \<Rightarrow> int \<Rightarrow> int" where
  "summaryOutputLimit sdk replayBudget modelLimit = summaryLimitLoop sdk replayBudget 0 (min modelLimit replayBudget)"

section \<open>What a pass folds\<close>

definition appendKey :: "'a list \<Rightarrow> 'a \<Rightarrow> 'a list" where
  "appendKey xs x = (if x \<in> set xs then xs else xs @ [x])"

definition emptyPlan :: foldPlan where
  "emptyPlan = \<lparr>fp_end = 0, fp_cut = 0, fp_folded = [], fp_read = [], fp_absorbed = [], fp_replaced = 0, fp_room = 0,
     fp_maxTokens = 0, fp_stated = 0, fp_instruction = '''', fp_keep = (\<lambda>_. False), fp_rewrite = False, fp_fork = []\<rparr>"

definition spanStep :: "FoldEvent \<Rightarrow> (nat \<Rightarrow> bool) \<Rightarrow> foldPlan \<Rightarrow> nat \<Rightarrow> foldPlan" where
  "spanStep ev kept plan i =
     (let source = fe_Sources ev ! i; keys = map sourceKey (so_Sources source) in
      if so_Sources source = [] then plan
      else if isSummarySource source then plan\<lparr>fp_absorbed := fp_absorbed plan @ [cs_ID (hd (so_Sources source))]\<rparr>
      else
        (let plan1 = plan\<lparr>fp_read := foldl appendKey (fp_read plan) keys\<rparr> in
         if kept i then plan1\<lparr>fp_keep := (fp_keep plan1)(i := True)\<rparr>
         else plan1\<lparr>fp_folded := foldl appendKey (fp_folded plan1) keys\<rparr>))"

definition spanPlan :: "FoldEvent \<Rightarrow> (nat \<Rightarrow> bool) \<Rightarrow> nat \<Rightarrow> foldPlan" where
  "spanPlan ev kept n = foldl (spanStep ev kept) (emptyPlan\<lparr>fp_end := n, fp_cut := fe_cut ev\<rparr>) [0..<n]"

text \<open>A pass replaces the messages it reads that render a source and that it does not keep.\<close>

definition plan_covers :: "FoldEvent \<Rightarrow> foldPlan \<Rightarrow> nat \<Rightarrow> bool" where
  "plan_covers ev p i \<longleftrightarrow> i < fp_end p \<and> hasSource ev i \<and> \<not> fp_keep p i"

text \<open>The order of the request after the pass; \<open>None\<close> is the summary's place (\<open>-1\<close> in the source).\<close>

definition plan_order :: "FoldEvent \<Rightarrow> foldPlan \<Rightarrow> nat option list \<times> nat" where
  "plan_order ev p =
     (let order = fst (PlaceSummary (map Some [0..<length (fe_Messages ev)]) None
                    (\<lambda>x. case x of None \<Rightarrow> False | Some i \<Rightarrow> plan_covers ev p i));
          cut = (case List.find (\<lambda>k. order ! k = Some (fe_cut ev)) [0..<length order] of None \<Rightarrow> length order | Some k \<Rightarrow> k)
      in (order, cut))"

section \<open>Pricing a pass\<close>

definition instructionTokens :: "Sdk \<Rightarrow> string \<Rightarrow> int" where
  "instructionTokens sdk instruction = forkTokens sdk '''' [sdk_UserMessage sdk instruction] []"

text \<open>What the pass replaces and leaves room for, its output cap and the length it asks for.\<close>

definition plan_price :: "Sdk \<Rightarrow> FoldEvent \<Rightarrow> foldPlan \<Rightarrow> foldPlan" where
  "plan_price sdk ev p0 =
     (let capability = fe_MaxOutputTokens ev;
          n = length (fe_Messages ev);
          p1 = p0\<lparr>fp_replaced := forkTokens sdk '''' (messagesAt ev [0..<n] (plan_covers ev p0)) [],
                  fp_room := fe_Allowance ev -
                    forkTokens sdk (fe_System ev) (messagesAt ev [0..<n] (\<lambda>i. \<not> plan_covers ev p0 i)) (fe_Tools ev)\<rparr>;
          prefix = forkTokens sdk (fe_System ev) (fp_fork p0) (fe_Tools ev);
          p2 = p1\<lparr>fp_instruction := forkInstruction ev p1\<rparr>;
          maxTokens = min capability
            (fe_Window ev - prefix - instructionTokens sdk (fp_instruction p2 @ noToolsReminder) - instructionNumberSlack);
          stated0 = min (goDiv (maxTokens * 3) 4)
            (min (summaryBudget sdk ev) (summaryOutputLimit sdk (fp_replaced p2 - 1) capability));
          stated = (if plan_bounded p2 then min stated0 (summaryOutputLimit sdk (fp_room p2) capability) else stated0)
      in p2\<lparr>fp_maxTokens := maxTokens, fp_stated := stated\<rparr>)"

definition plan_size :: "Sdk \<Rightarrow> FoldEvent \<Rightarrow> foldPlan \<Rightarrow> foldPlan \<times> FoldReason option" where
  "plan_size sdk ev p0 =
     (let p = plan_price sdk ev p0 in
      if plan_bounded p \<and> summaryOutputLimit sdk (fp_room p) (fe_MaxOutputTokens ev) < minSummaryTokens
      then (p, Some ReasonProtectedOverflow)
      else if fp_stated p < minSummaryTokens \<and> minForkOutputTokens \<le> fp_maxTokens p then (p, Some ReasonIneffective)
      else (p\<lparr>fp_instruction := forkInstruction ev p\<rparr>, None))"

definition plan_answers :: "Sdk \<Rightarrow> FoldEvent \<Rightarrow> foldPlan \<Rightarrow> bool" where
  "plan_answers sdk ev p =
     (let need = (if fe_FixedOutput ev then fe_MaxOutputTokens ev
                  else min (fe_MaxOutputTokens ev) (max minForkOutputTokens (goDiv (min (summaryBudget sdk ev) (fp_replaced p)) 2)))
      in need \<le> fp_maxTokens p)"

section \<open>Choosing the read\<close>

text \<open>\<open>sort.Search\<close>\<close>

function sortSearch :: "(nat \<Rightarrow> bool) \<Rightarrow> nat \<Rightarrow> nat \<Rightarrow> nat" where
  "sortSearch f i j =
     (if \<not> i < j then i
      else (let h = (i + j) div 2 in if \<not> f h then sortSearch f (h + 1) j else sortSearch f i h))"
  by auto
termination by (relation "measure (\<lambda>(_, i, j). j - i)") auto

declare sortSearch.simps [simp del]

lemma sortSearch_bounds: "i \<le> j \<Longrightarrow> i \<le> sortSearch f i j \<and> sortSearch f i j \<le> j"
proof (induction f i j rule: sortSearch.induct)
  case (1 f i j)
  show ?case
  proof (cases "i < j")
    case True
    then have "(i + j) div 2 + 1 \<le> j" "i \<le> (i + j) div 2" by auto
    with 1 True show ?thesis by (subst (1 2) sortSearch.simps) (auto simp: Let_def)
  next
    case False
    with 1(3) show ?thesis by (simp add: sortSearch.simps)
  qed
qed

definition keptBefore :: "FoldEvent \<Rightarrow> (nat \<Rightarrow> bool) \<Rightarrow> nat \<Rightarrow> bool" where
  "keptBefore ev unfoldable i \<longleftrightarrow>
     i < fe_cut ev \<and> (unfoldable i \<or> retentionKeeps (rt_anchors (fe_retention ev)) (fe_Sources ev ! i))"

definition firstFolded :: "FoldEvent \<Rightarrow> (nat \<Rightarrow> bool) \<Rightarrow> nat" where
  "firstFolded ev kept =
     (case List.find (\<lambda>i. isSummarySource (fe_Sources ev ! i) \<or> hasSource ev i \<and> \<not> kept i) [0..<fe_cut ev] of
        None \<Rightarrow> fe_cut ev | Some i \<Rightarrow> i)"

definition summariesEnd :: "FoldEvent \<Rightarrow> nat" where
  "summariesEnd ev = afterLast (\<lambda>i. isSummarySource (fe_Sources ev ! i)) [0..<fe_cut ev]"

definition planEnds :: "FoldEvent \<Rightarrow> (nat \<Rightarrow> bool) \<Rightarrow> nat list" where
  "planEnds ev kept =
     filter (foldBoundary (fe_Messages ev)) [max (firstFolded ev kept + 1) (summariesEnd ev)..<fe_cut ev + 1]"

definition planAt :: "Sdk \<Rightarrow> FoldEvent \<Rightarrow> (nat \<Rightarrow> bool) \<Rightarrow> bool \<Rightarrow> SdkMessage list \<Rightarrow> nat \<Rightarrow> foldPlan \<times> FoldReason option" where
  "planAt sdk ev kept rewrite read n =
     plan_size sdk ev ((spanPlan ev kept n)\<lparr>fp_rewrite := rewrite, fp_fork := take n read\<rparr>)"

text \<open>The end of \<open>planFold\<close>: an error counts only while the request does not fit.\<close>

definition planResult :: "Sdk \<Rightarrow> FoldEvent \<Rightarrow> foldPlan \<times> FoldReason option \<Rightarrow> FoldReason + foldPlan" where
  "planResult sdk ev pe =
     (case pe of
        (pass, None) \<Rightarrow> Inr pass
      | (pass, Some err) \<Rightarrow>
          if forkTokens sdk (fe_System ev) (fe_Messages ev) (fe_Tools ev) \<le> fe_Allowance ev then Inr emptyPlan else Inl err)"

definition planFold :: "Sdk \<Rightarrow> FoldEvent \<Rightarrow> (nat \<Rightarrow> bool) \<Rightarrow> FoldReason + foldPlan" where
  "planFold sdk ev unfoldable =
     (let kept = keptBefore ev unfoldable;
          ends = planEnds ev kept
      in if ends = [] then Inr emptyPlan
         else
           (let rewrite = (fp_folded (spanPlan ev kept (fe_cut ev)) = [])
            in case forkRead sdk ev of
                 Inl err \<Rightarrow> Inl err
               | Inr read \<Rightarrow>
                   (let plan = planAt sdk ev kept rewrite read;
                        (pass, err) = plan (last ends)
                    in if err = Some ReasonProtectedOverflow then Inl ReasonProtectedOverflow
                       else if rewrite \<and> fp_replaced pass \<le> fp_room pass then Inr emptyPlan
                       else if err = None \<and> \<not> plan_answers sdk ev pass then
                         (let answering = sortSearch (\<lambda>i. \<not> plan_answers sdk ev (fst (plan (ends ! i)))) 0 (length ends - 1);
                              (pass', err') = plan (ends ! (answering - 1))
                          in if err' = None \<and> answering = 0 then Inl ReasonInputOverflow
                             else planResult sdk ev (pass', err'))
                       else planResult sdk ev (pass, err))))"

section \<open>Facts\<close>

lemma plan_price_fields [simp]:
  "fp_end (plan_price sdk ev p) = fp_end p" "fp_cut (plan_price sdk ev p) = fp_cut p" "fp_keep (plan_price sdk ev p) = fp_keep p"
  "fp_folded (plan_price sdk ev p) = fp_folded p" "fp_read (plan_price sdk ev p) = fp_read p"
  "fp_absorbed (plan_price sdk ev p) = fp_absorbed p" "fp_rewrite (plan_price sdk ev p) = fp_rewrite p"
  "fp_fork (plan_price sdk ev p) = fp_fork p"
  "fp_replaced (plan_price sdk ev p) = forkTokens sdk '''' (messagesAt ev [0..<length (fe_Messages ev)] (plan_covers ev p)) []"
  "fp_room (plan_price sdk ev p) = fe_Allowance ev -
    forkTokens sdk (fe_System ev) (messagesAt ev [0..<length (fe_Messages ev)] (\<lambda>i. \<not> plan_covers ev p i)) (fe_Tools ev)"
  by (simp_all add: plan_price_def Let_def)

lemma plan_size_cases:
  "fst (plan_size sdk ev p0) = plan_price sdk ev p0 \<or>
   fst (plan_size sdk ev p0) = (plan_price sdk ev p0)\<lparr>fp_instruction := forkInstruction ev (plan_price sdk ev p0)\<rparr>"
  by (simp add: plan_size_def Let_def)

lemma plan_size_fields:
  assumes "plan_size sdk ev p0 = (p, err)"
  shows "fp_end p = fp_end p0" "fp_cut p = fp_cut p0" "fp_keep p = fp_keep p0" "fp_folded p = fp_folded p0" "fp_read p = fp_read p0"
    "fp_absorbed p = fp_absorbed p0" "fp_rewrite p = fp_rewrite p0" "fp_fork p = fp_fork p0"
    "fp_replaced p = forkTokens sdk '''' (messagesAt ev [0..<length (fe_Messages ev)] (plan_covers ev p0)) []"
    "fp_room p = fe_Allowance ev -
      forkTokens sdk (fe_System ev) (messagesAt ev [0..<length (fe_Messages ev)] (\<lambda>i. \<not> plan_covers ev p0 i)) (fe_Tools ev)"
  using plan_size_cases [of sdk ev p0] assms by auto

lemma spanStep_fields:
  "fp_end (spanStep ev kept plan i) = fp_end plan" "fp_cut (spanStep ev kept plan i) = fp_cut plan"
  by (simp_all add: spanStep_def Let_def)

lemma spanPlan_fields [simp]: "fp_end (spanPlan ev kept n) = n" "fp_cut (spanPlan ev kept n) = fe_cut ev"
proof -
  have "fp_end (foldl (spanStep ev kept) p is) = fp_end p \<and> fp_cut (foldl (spanStep ev kept) p is) = fp_cut p" for p "is"
    by (induction "is" arbitrary: p) (simp_all add: spanStep_fields)
  then show "fp_end (spanPlan ev kept n) = n" "fp_cut (spanPlan ev kept n) = fe_cut ev" by (simp_all add: spanPlan_def)
qed

end
