(* ===== verification/Fold.thy ===== *)
theory Fold
  imports FoldPlan
begin

text \<open>
  Running a compaction event: the passes of \<^verbatim>\<open>compaction/fold.go\<close>, the splice of
  \<^verbatim>\<open>compaction/synthesize.go\<close> and the checkpoint a pass commits
  (\<^verbatim>\<open>internal/chat/checkpoint/commit.go\<close>). The database's answers, the summarizer and the
  state of the context are arguments (\<open>passEnv\<close>); what the compaction log records is left out.
\<close>

section \<open>Checkpoints\<close>

record HistoryPosition =
  hp_Turn :: int
  hp_Seq :: int

definition HistoryPosition_Before :: "HistoryPosition \<Rightarrow> HistoryPosition \<Rightarrow> bool" where
  "HistoryPosition_Before p other \<longleftrightarrow> hp_Turn p < hp_Turn other \<or> hp_Turn p = hp_Turn other \<and> hp_Seq p < hp_Seq other"

record CheckpointItem =
  it_RowID :: string
  it_SummaryID :: string
  it_Summary :: string

record Checkpoint =
  ck_ID :: string
  ck_ParentID :: string
  ck_Position :: HistoryPosition
  ck_Items :: "CheckpointItem list"

definition Checkpoint_RowIDs :: "Checkpoint \<Rightarrow> string list" where
  "Checkpoint_RowIDs c = map it_RowID (filter (\<lambda>item. it_RowID item \<noteq> '''') (ck_Items c))"

definition Checkpoint_SummaryIDs :: "Checkpoint \<Rightarrow> string list" where
  "Checkpoint_SummaryIDs c = map it_SummaryID (filter (\<lambda>item. it_SummaryID item \<noteq> '''') (ck_Items c))"

record HistoryRow =
  hr_ID :: string
  hr_Position :: HistoryPosition

record Fold =
  fo_Parent :: Checkpoint
  fo_SummaryID :: string
  fo_Summary :: string
  fo_Folded :: "HistoryRow list"
  fo_Read :: "string list"

text \<open>The position the new checkpoint accounts for, and the rows its span names beside the range.\<close>

definition commit_through :: "Fold \<Rightarrow> HistoryPosition" where
  "commit_through fd =
     foldl (\<lambda>through row. if HistoryPosition_Before through (hr_Position row) then hr_Position row else through)
       (ck_Position (fo_Parent fd)) (fo_Folded fd)"

definition commit_ids :: "Fold \<Rightarrow> string list" where
  "commit_ids fd = map hr_ID (fo_Folded fd) @ Checkpoint_RowIDs (fo_Parent fd)"

definition rowItem :: "string \<Rightarrow> CheckpointItem" where
  "rowItem r = \<lparr>it_RowID = r, it_SummaryID = '''', it_Summary = ''''\<rparr>"

definition commit_items :: "Fold \<Rightarrow> string list \<Rightarrow> CheckpointItem list" where
  "commit_items fd found =
     (let folded = (\<lambda>r. r \<in> set (map hr_ID (fo_Folded fd))); read = (\<lambda>r. r \<in> set (fo_Read fd))
      in map rowItem (filter (\<lambda>r. \<not> folded r \<and> read r) found) @
         [\<lparr>it_RowID = '''', it_SummaryID = fo_SummaryID fd, it_Summary = fo_Summary fd\<rparr>] @
         map rowItem (filter (\<lambda>r. \<not> folded r \<and> \<not> read r) found))"

text \<open>A pass fails with a reason, or with an error that has none.\<close>

datatype PassError = Failed FoldReason | OtherError

datatype CommitError = ErrMoved | ErrStale | ErrNoRows | CommitOther

definition staleSource :: "CommitError \<Rightarrow> PassError" where
  "staleSource err = (if err = ErrMoved \<or> err = ErrStale \<or> err = ErrNoRows then Failed ReasonStaleSource else OtherError)"

text \<open>
  \<open>spanRows\<close> answers the query for the span; \<open>create\<close> writes the checkpoint while its
  parent is the active one and gives its ID.
\<close>

definition Commit ::
    "(HistoryPosition \<Rightarrow> HistoryPosition \<Rightarrow> string list \<Rightarrow> CommitError + string list) \<Rightarrow>
     (Checkpoint \<Rightarrow> HistoryPosition \<Rightarrow> CheckpointItem list \<Rightarrow> CommitError + string) \<Rightarrow> Fold \<Rightarrow> CommitError + Checkpoint" where
  "Commit spanRows create fd =
     (let through = commit_through fd in
      case spanRows (ck_Position (fo_Parent fd)) through (commit_ids fd) of
        Inl err \<Rightarrow> Inl err
      | Inr found \<Rightarrow>
          (let items = commit_items fd found in
           case create (fo_Parent fd) through items of
             Inl err \<Rightarrow> Inl err
           | Inr newID \<Rightarrow> Inr \<lparr>ck_ID = newID, ck_ParentID = ck_ID (fo_Parent fd), ck_Position = through, ck_Items = items\<rparr>))"

section \<open>The rows of a request\<close>

text \<open>A row found for the sources of a request, with the message it was written from.\<close>

record FoundRow =
  fr_ID :: string
  fr_Position :: HistoryPosition
  fr_SourceMessageID :: string

type_synonym rowsOf = "sourceId \<Rightarrow> HistoryRow list"

definition requestRows :: "FoundRow list \<Rightarrow> rowsOf" where
  "requestRows found key =
     concat (map (\<lambda>row. let held = \<lparr>hr_ID = fr_ID row, hr_Position = fr_Position row\<rparr>; message = TrimSpace (fr_SourceMessageID row)
        in (if key = (''history'', fr_ID row) then [held] else []) @
           (if message \<noteq> '''' \<and> (key = (''external'', message) \<or> key = (''self'', message)) then [held] else [])) found)"

definition unfoldable :: "rowsOf \<Rightarrow> FoldEvent \<Rightarrow> nat \<Rightarrow> bool" where
  "unfoldable rows ev i \<longleftrightarrow>
     i < length (fe_Sources ev) \<and> \<not> isSummarySource (fe_Sources ev ! i) \<and>
     list_ex (\<lambda>s. rows (sourceKey s) = []) (so_Sources (fe_Sources ev ! i))"

text \<open>The first row of each ID among those the sources name.\<close>

definition distinctRows :: "HistoryRow list \<Rightarrow> HistoryRow list" where
  "distinctRows rows = foldl (\<lambda>out row. if hr_ID row \<in> set (map hr_ID out) then out else out @ [row]) [] rows"

definition rows_of :: "rowsOf \<Rightarrow> foldPlan \<Rightarrow> HistoryRow list \<times> string list" where
  "rows_of rows plan =
     (distinctRows (concat (map rows (fp_folded plan))), map hr_ID (distinctRows (concat (map rows (fp_read plan)))))"

definition renderedSummaries :: "FoldEvent \<Rightarrow> string list" where
  "renderedSummaries ev =
     map cs_ID (filter (\<lambda>s. cs_Kind s = ''summary'') (concat (map so_Sources (fe_Sources ev))))"

definition rendersCheckpoint :: "FoldEvent \<Rightarrow> Checkpoint \<Rightarrow> bool" where
  "rendersCheckpoint ev parent \<longleftrightarrow>
     length (remdups (renderedSummaries ev)) = length (Checkpoint_SummaryIDs parent) \<and>
     list_all (\<lambda>i. i \<in> set (renderedSummaries ev)) (Checkpoint_SummaryIDs parent)"

section \<open>One pass\<close>

record ModelResult =
  mr_Text :: string
  mr_ToolCalls :: nat
  mr_StoppedNaturally :: bool

text \<open>
  What a pass meets: the active checkpoint, the ID of its log, the summarizer (with its
  retries), whether the context is done, the two queries of the commit, and the error of
  completing the log, which undoes the commit. The rows' IDs are ones the database gave,
  so they parse.
\<close>

record passEnv =
  pe_Active :: "PassError + Checkpoint"
  pe_OpenLog :: "PassError + string"
  pe_ask :: "SdkMessage list \<Rightarrow> ModelResult option"
  pe_ContextDone :: bool
  pe_spanRows :: "HistoryPosition \<Rightarrow> HistoryPosition \<Rightarrow> string list \<Rightarrow> CommitError + string list"
  pe_create :: "Checkpoint \<Rightarrow> HistoryPosition \<Rightarrow> CheckpointItem list \<Rightarrow> CommitError + string"
  pe_CompleteLog :: "CommitError option"

definition summarize :: "Sdk \<Rightarrow> passEnv \<Rightarrow> SdkMessage list \<Rightarrow> string \<Rightarrow> PassError + ModelResult" where
  "summarize sdk env fork instruction =
     (let first = pe_ask env fork;
          result = (case first of
                      Some r \<Rightarrow> if 0 < mr_ToolCalls r then pe_ask env (butlast fork @ [sdk_UserMessage sdk (instruction @ noToolsReminder)])
                                else first
                    | None \<Rightarrow> first)
      in case result of
           None \<Rightarrow> Inl (if pe_ContextDone env then OtherError else Failed ReasonSummarizerFailed)
         | Some r \<Rightarrow>
             if 0 < mr_ToolCalls r then Inl (Failed ReasonSummarizerFailed)
             else if TrimSpace (mr_Text r) = '''' then Inl (Failed ReasonEmpty)
             else if \<not> mr_StoppedNaturally r then Inl (Failed ReasonTruncated)
             else Inr r)"

record Pass =
  ps_SummaryID :: string
  ps_Summary :: string
  ps_Order :: "nat option list"
  ps_cut :: nat
  ps_More :: bool

text \<open>The checks of a summary, its commit and the pass it makes.\<close>

definition commitPass ::
    "Sdk \<Rightarrow> passEnv \<Rightarrow> rowsOf \<Rightarrow> FoldEvent \<Rightarrow> Checkpoint \<Rightarrow> string \<Rightarrow> foldPlan \<Rightarrow> string \<Rightarrow> PassError + Pass" where
  "commitPass sdk env rows ev parent logID plan summary =
     (let replay = summaryReplayTokens sdk summary in
      if fp_replaced plan \<le> replay then Inl (Failed ReasonIneffective)
      else if plan_bounded plan \<and> fp_room plan < replay then Inl (Failed ReasonStillOver)
      else
        (let (folded, read) = rows_of rows plan;
             fd = \<lparr>fo_Parent = parent, fo_SummaryID = logID, fo_Summary = summary, fo_Folded = folded, fo_Read = read\<rparr>
         in if pe_ContextDone env then Inl OtherError
            else (case Commit (pe_spanRows env) (pe_create env) fd of
                    Inl err \<Rightarrow> Inl (staleSource err)
                  | Inr _ \<Rightarrow>
                      (case pe_CompleteLog env of
                         Some err \<Rightarrow> Inl (staleSource err)
                       | None \<Rightarrow>
                           (let (order, cut) = plan_order ev plan
                            in Inr \<lparr>ps_SummaryID = logID, ps_Summary = summary, ps_Order = order, ps_cut = cut,
                                  ps_More = \<not> plan_final plan\<rparr>)))))"

text \<open>\<open>None\<close> when nothing before the messages the event keeps can be folded.\<close>

definition foldPass :: "Sdk \<Rightarrow> passEnv \<Rightarrow> rowsOf \<Rightarrow> FoldEvent \<Rightarrow> PassError + Pass option" where
  "foldPass sdk env rows ev =
     (case pe_Active env of
        Inl err \<Rightarrow> Inl err
      | Inr parent \<Rightarrow>
          (if \<not> rendersCheckpoint ev parent then Inl (Failed ReasonStaleSource)
           else
             (case planFold sdk ev (unfoldable rows ev) of
                Inl reason \<Rightarrow> Inl (Failed reason)
              | Inr plan \<Rightarrow>
                  (if \<not> plan_folds plan then Inr None
                   else
                     (case pe_OpenLog env of
                        Inl err \<Rightarrow> Inl err
                      | Inr logID \<Rightarrow>
                          (case summarize sdk env (fp_fork plan @ [sdk_UserMessage sdk (fp_instruction plan)]) (fp_instruction plan) of
                             Inl err \<Rightarrow> Inl err
                           | Inr result \<Rightarrow>
                               map_sum id Some (commitPass sdk env rows ev parent logID plan (TrimSpace (mr_Text result)))))))))"

section \<open>Splicing\<close>

definition splice :: "Sdk \<Rightarrow> SdkMessage list \<Rightarrow> Source list \<Rightarrow> Pass \<Rightarrow> SdkMessage list \<times> Source list" where
  "splice sdk messages sources pass =
     (map (\<lambda>x. case x of None \<Rightarrow> SummaryMessage sdk (ps_Summary pass) | Some i \<Rightarrow> messages ! i) (ps_Order pass),
      map (\<lambda>x. case x of
             None \<Rightarrow> \<lparr>so_Sources = [\<lparr>cs_Kind = ''summary'', cs_ID = ps_SummaryID pass, cs_Current = False\<rparr>], so_Anchor = False\<rparr>
           | Some i \<Rightarrow> sources ! i) (ps_Order pass))"

definition applyPass :: "Sdk \<Rightarrow> FoldEvent \<Rightarrow> Pass \<Rightarrow> FoldEvent" where
  "applyPass sdk ev pass =
     (case splice sdk (fe_Messages ev) (fe_Sources ev) pass of
        (messages, sources) \<Rightarrow>
          ev\<lparr>fe_Messages := messages, fe_Sources := sources, fe_retention := (fe_retention ev)\<lparr>rt_cut := ps_cut pass\<rparr>\<rparr>)"

section \<open>Facts on passes\<close>

abbreviation eventTokens :: "Sdk \<Rightarrow> FoldEvent \<Rightarrow> int" where
  "eventTokens sdk ev \<equiv> forkTokens sdk (fe_System ev) (fe_Messages ev) (fe_Tools ev)"

lemma forkTokens_split:
  "forkTokens sdk system ms tools = forkTokens sdk system [] tools + sum_list (map (messageTokens sdk) ms)"
  by (simp add: forkTokens_def ProviderEnvelopeTokens_def)

lemma forkTokens_plain: "forkTokens sdk '''' ms [] = sum_list (map (messageTokens sdk) ms)"
  by (simp add: forkTokens_def ProviderEnvelopeTokens_def ProviderBudgetTokensFromBytes_def)

lemma messagesTokens_nonneg: "0 \<le> sum_list (map (messageTokens sdk) ms)"
  by (rule sum_list_nonneg) auto

lemma forkTokens_nonneg: "0 \<le> forkTokens sdk system ms tools"
proof -
  have "0 \<le> ToolDefinitionTokens sdk t" for t by (simp add: ToolDefinitionTokens_def Let_def le_max_iff_disj)
  then have "0 \<le> sum_list (map (ToolDefinitionTokens sdk) tools)" by (intro sum_list_nonneg) auto
  then show ?thesis using messagesTokens_nonneg [of sdk ms] by (simp add: forkTokens_def ProviderEnvelopeTokens_def)
qed

text \<open>A plan that folds is one \<open>planAt\<close> made, at a boundary, without an error.\<close>

lemma planFold_cases:
  assumes "planFold sdk ev uf = Inr p" "plan_folds p"
  obtains n read where "n \<in> set (planEnds ev (keptBefore ev uf))" "forkRead sdk ev = Inr read"
    "planAt sdk ev (keptBefore ev uf) (fp_folded (spanPlan ev (keptBefore ev uf) (fe_cut ev)) = []) read n = (p, None)"
proof -
  have empty: "\<not> plan_folds emptyPlan" by (simp add: plan_folds_def emptyPlan_def)
  let ?kept = "keptBefore ev uf" and ?ends = "planEnds ev (keptBefore ev uf)"
  from assms empty obtain read where ends: "?ends \<noteq> []" and read: "forkRead sdk ev = Inr read"
    by (auto simp: planFold_def Let_def split: if_splits sum.splits)
  let ?plan = "planAt sdk ev ?kept (fp_folded (spanPlan ev ?kept (fe_cut ev)) = []) read"
  have result: "planResult sdk ev pe = Inr p \<Longrightarrow> pe = (p, None)" for pe
    using assms(2) empty by (cases pe) (auto simp: planResult_def split: option.splits if_splits)
  obtain n where n: "n \<in> set ?ends" "?plan n = (p, None)"
  proof (cases "planResult sdk ev (?plan (last ?ends)) = Inr p")
    case True
    then show ?thesis using that [of "last ?ends"] result ends by simp
  next
    case False
    let ?a = "sortSearch (\<lambda>i. \<not> plan_answers sdk ev (fst (?plan (?ends ! i)))) 0 (length ?ends - 1)"
    have "?a \<le> length ?ends - 1" using sortSearch_bounds [of 0 "length ?ends - 1"] by simp
    then have "?ends ! (?a - 1) \<in> set ?ends" using ends by (intro nth_mem) (cases "?ends", auto)
    moreover have "planResult sdk ev (?plan (?ends ! (?a - 1))) = Inr p"
      using assms empty False ends read by (auto simp: planFold_def Let_def split: if_splits prod.splits)
    ultimately show ?thesis using that result by blast
  qed
  then show thesis using that read by blast
qed

lemma planAt_priced:
  assumes "planAt sdk ev kept rewrite read n = (p, err)"
  shows "fp_replaced p = sum_list (map (messageTokens sdk) (messagesAt ev [0..<length (fe_Messages ev)] (plan_covers ev p)))"
    "fp_room p = fe_Allowance ev - forkTokens sdk (fe_System ev) [] (fe_Tools ev) -
      sum_list (map (messageTokens sdk) (messagesAt ev [0..<length (fe_Messages ev)] (\<lambda>i. \<not> plan_covers ev p i)))"
    "fp_end p = n" "fp_cut p = fe_cut ev"
proof -
  note f = plan_size_fields [OF assms [unfolded planAt_def]]
  have c: "plan_covers ev p = plan_covers ev ((spanPlan ev kept n)\<lparr>fp_rewrite := rewrite, fp_fork := take n read\<rparr>)"
    by (intro ext) (simp add: plan_covers_def f)
  show "fp_replaced p = sum_list (map (messageTokens sdk) (messagesAt ev [0..<length (fe_Messages ev)] (plan_covers ev p)))"
    unfolding c f(9) by (rule forkTokens_plain)
  show "fp_room p = fe_Allowance ev - forkTokens sdk (fe_System ev) [] (fe_Tools ev) -
      sum_list (map (messageTokens sdk) (messagesAt ev [0..<length (fe_Messages ev)] (\<lambda>i. \<not> plan_covers ev p i)))"
    unfolding c f(10) by (subst forkTokens_split) simp
  show "fp_end p = n" "fp_cut p = fe_cut ev" by (simp_all add: f)
qed

lemma covered_split:
  "sum_list (map (messageTokens sdk) (messagesAt ev is P)) + sum_list (map (messageTokens sdk) (messagesAt ev is (\<lambda>i. \<not> P i))) =
   sum_list (map (\<lambda>i. messageTokens sdk (fe_Messages ev ! i)) is)"
  by (induction "is") (auto simp: messagesAt_def)

lemma all_messages: "map ((!) (fe_Messages ev)) [0..<length (fe_Messages ev)] = fe_Messages ev"
  by (rule map_nth)

abbreviation placeCovered :: "FoldEvent \<Rightarrow> foldPlan \<Rightarrow> nat option \<Rightarrow> bool" where
  "placeCovered ev p \<equiv> \<lambda>x. case x of None \<Rightarrow> False | Some i \<Rightarrow> plan_covers ev p i"

lemma order_shape:
  assumes "\<exists>i<length (fe_Messages ev). plan_covers ev p i"
  obtains k where "k \<le> length (fe_Messages ev)"
    "fst (plan_order ev p) = map Some (filter (\<lambda>i. \<not> plan_covers ev p i) [0..<k]) @ None # map Some [k..<length (fe_Messages ev)]"
    "\<And>i. k \<le> i \<Longrightarrow> i < length (fe_Messages ev) \<Longrightarrow> \<not> plan_covers ev p i" "0 < k" "plan_covers ev p (k - 1)"
proof -
  let ?xs = "map Some [0..<length (fe_Messages ev)]" and ?c = "placeCovered ev p"
  let ?k = "afterLast ?c ?xs"
  have le: "?k \<le> length (fe_Messages ev)" using afterLast_le [of ?c ?xs] by simp
  have ex: "\<exists>x\<in>set ?xs. ?c x" using assms by auto
  have tk: "take ?k ?xs = map Some [0..<?k]" "drop ?k ?xs = map Some [?k..<length (fe_Messages ev)]"
    using le by (simp_all add: take_map drop_map)
  have "fst (plan_order ev p) = filter (\<lambda>x. \<not> ?c x) (take ?k ?xs) @ None # drop ?k ?xs"
    by (simp add: plan_order_def Let_def PlaceSummary_eq [OF ex])
  also have "\<dots> = map Some (filter (\<lambda>i. \<not> plan_covers ev p i) [0..<?k]) @ None # map Some [?k..<length (fe_Messages ev)]"
    by (simp only: tk filter_map comp_def option.case)
  finally have 1: "fst (plan_order ev p) = \<dots>" .
  have 2: "\<not> plan_covers ev p i" if "?k \<le> i" "i < length (fe_Messages ev)" for i
    using afterLast_rest [of "Some i" ?c ?xs] that unfolding tk by auto
  have 3: "0 < ?k" using ex afterLast_zero [of ?c ?xs] by blast
  then have 4: "plan_covers ev p (?k - 1)" using afterLast_last [of ?c ?xs "?k - 1"] le by simp
  from that [OF le 1 2 3 4] show thesis .
qed

lemma order_tokens:
  assumes "\<exists>i<length (fe_Messages ev). plan_covers ev p i"
  shows "sum_list (map (\<lambda>x. case x of None \<Rightarrow> a | Some i \<Rightarrow> messageTokens sdk (fe_Messages ev ! i)) (fst (plan_order ev p))) =
    a + sum_list (map (messageTokens sdk) (messagesAt ev [0..<length (fe_Messages ev)] (\<lambda>i. \<not> plan_covers ev p i)))"
proof -
  obtain k where k: "k \<le> length (fe_Messages ev)"
      "fst (plan_order ev p) = map Some (filter (\<lambda>i. \<not> plan_covers ev p i) [0..<k]) @ None # map Some [k..<length (fe_Messages ev)]"
      "\<And>i. k \<le> i \<Longrightarrow> i < length (fe_Messages ev) \<Longrightarrow> \<not> plan_covers ev p i"
    using order_shape [OF assms] by metis
  have "[0..<length (fe_Messages ev)] = [0..<k] @ [k..<length (fe_Messages ev)]" using k(1) upt_add_eq_append [of 0 k] by (metis le_add_diff_inverse zero_le)
  moreover have "filter (\<lambda>i. \<not> plan_covers ev p i) [k..<length (fe_Messages ev)] = [k..<length (fe_Messages ev)]"
    using k(3) by (auto simp: filter_id_conv)
  ultimately have "filter (\<lambda>i. \<not> plan_covers ev p i) [0..<length (fe_Messages ev)] =
      filter (\<lambda>i. \<not> plan_covers ev p i) [0..<k] @ [k..<length (fe_Messages ev)]" by simp
  then show ?thesis by (simp add: k(2) messagesAt_def o_def)
qed

text \<open>What a committed pass did: its plan, its summary and the sizes.\<close>

lemma map_sum_Some: "map_sum f Some x = Inr (Some y) \<longleftrightarrow> x = Inr y"
  by (cases x) auto

lemma foldPass_cases:
  assumes "foldPass sdk env rows ev = Inr (Some pass)"
  shows "\<exists>p logID parent summary. planFold sdk ev (unfoldable rows ev) = Inr p \<and> plan_folds p \<and>
    commitPass sdk env rows ev parent logID p summary = Inr pass"
  using assms by (auto simp: foldPass_def map_sum_Some split: sum.splits if_splits)

lemma foldPass_plan:
  assumes "foldPass sdk env rows ev = Inr (Some pass)"
  obtains p n read where "planFold sdk ev (unfoldable rows ev) = Inr p" "plan_folds p" "n \<in> set (planEnds ev (keptBefore ev (unfoldable rows ev)))"
    "planAt sdk ev (keptBefore ev (unfoldable rows ev))
       (fp_folded (spanPlan ev (keptBefore ev (unfoldable rows ev)) (fe_cut ev)) = []) read n = (p, None)"
    "summaryReplayTokens sdk (ps_Summary pass) < fp_replaced p"
    "plan_bounded p \<Longrightarrow> summaryReplayTokens sdk (ps_Summary pass) \<le> fp_room p"
    "ps_Order pass = fst (plan_order ev p)" "ps_cut pass = snd (plan_order ev p)" "ps_More pass = (\<not> plan_final p)"
proof -
  obtain p logID parent summary where p: "planFold sdk ev (unfoldable rows ev) = Inr p" "plan_folds p"
      "commitPass sdk env rows ev parent logID p summary = Inr pass"
    using foldPass_cases [OF assms] by blast
  obtain n read where n: "n \<in> set (planEnds ev (keptBefore ev (unfoldable rows ev)))"
      "planAt sdk ev (keptBefore ev (unfoldable rows ev))
         (fp_folded (spanPlan ev (keptBefore ev (unfoldable rows ev)) (fe_cut ev)) = []) read n = (p, None)"
    using planFold_cases [OF p(1,2)] by metis
  have "summaryReplayTokens sdk (ps_Summary pass) < fp_replaced p"
    "plan_bounded p \<Longrightarrow> summaryReplayTokens sdk (ps_Summary pass) \<le> fp_room p"
    "ps_Order pass = fst (plan_order ev p)" "ps_cut pass = snd (plan_order ev p)" "ps_More pass = (\<not> plan_final p)"
    using p(3) by (auto simp: commitPass_def Let_def split: if_splits sum.splits prod.splits option.splits)
  from that [OF p(1,2) n this] show thesis .
qed

lemma applyPass_tokens:
  assumes "ps_Order pass = fst (plan_order ev p)" "\<exists>i<length (fe_Messages ev). plan_covers ev p i"
  shows "eventTokens sdk (applyPass sdk ev pass) = forkTokens sdk (fe_System ev) [] (fe_Tools ev) + summaryReplayTokens sdk (ps_Summary pass) +
    sum_list (map (messageTokens sdk) (messagesAt ev [0..<length (fe_Messages ev)] (\<lambda>i. \<not> plan_covers ev p i)))"
proof -
  have s: "summaryReplayTokens sdk (ps_Summary pass) = messageTokens sdk (SummaryMessage sdk (ps_Summary pass))"
    by (simp add: summaryReplayTokens_def ProviderEnvelopeTokens_def ProviderBudgetTokensFromBytes_def)
  have "map (messageTokens sdk) (fe_Messages (applyPass sdk ev pass)) =
      map (\<lambda>x. case x of None \<Rightarrow> summaryReplayTokens sdk (ps_Summary pass) | Some i \<Rightarrow> messageTokens sdk (fe_Messages ev ! i)) (fst (plan_order ev p))"
    by (auto simp: applyPass_def splice_def assms(1) s split: option.split)
  then show ?thesis
    using order_tokens [OF assms(2), of "summaryReplayTokens sdk (ps_Summary pass)" sdk]
    by (subst forkTokens_split) (simp add: applyPass_def splice_def)
qed

lemma replaced_covers:
  assumes "fp_replaced p = sum_list (map (messageTokens sdk) (messagesAt ev [0..<length (fe_Messages ev)] (plan_covers ev p)))" "0 < fp_replaced p"
  shows "\<exists>i<length (fe_Messages ev). plan_covers ev p i"
proof (rule ccontr)
  assume "\<not> ?thesis"
  then have "filter (plan_covers ev p) [0..<length (fe_Messages ev)] = []" by (auto simp: filter_empty_conv)
  with assms show False by (simp add: messagesAt_def)
qed

lemma replay_nonneg: "0 \<le> summaryReplayTokens sdk summary"
  by (simp add: summaryReplayTokens_def ProviderEnvelopeTokens_def)

text \<open>A committed pass makes the request smaller, and one that must fit the allowance makes it fit.\<close>

lemma foldPass_tokens:
  assumes "foldPass sdk env rows ev = Inr (Some pass)"
  shows "eventTokens sdk (applyPass sdk ev pass) < eventTokens sdk ev"
    "\<not> ps_More pass \<Longrightarrow> eventTokens sdk (applyPass sdk ev pass) \<le> fe_Allowance ev"
proof -
  obtain p n read where pl: "planAt sdk ev (keptBefore ev (unfoldable rows ev))
       (fp_folded (spanPlan ev (keptBefore ev (unfoldable rows ev)) (fe_cut ev)) = []) read n = (p, None)"
    and s: "summaryReplayTokens sdk (ps_Summary pass) < fp_replaced p"
      "plan_bounded p \<Longrightarrow> summaryReplayTokens sdk (ps_Summary pass) \<le> fp_room p"
      "ps_Order pass = fst (plan_order ev p)" "ps_More pass = (\<not> plan_final p)"
    using foldPass_plan [OF assms] by metis
  note f = planAt_priced [OF pl]
  have "0 < fp_replaced p" using s(1) replay_nonneg [of sdk "ps_Summary pass"] by linarith
  then have c: "\<exists>i<length (fe_Messages ev). plan_covers ev p i" using replaced_covers [OF f(1)] by blast
  note t = applyPass_tokens [OF s(3) c, of sdk]
  have "eventTokens sdk ev = forkTokens sdk (fe_System ev) [] (fe_Tools ev) +
      sum_list (map (\<lambda>i. messageTokens sdk (fe_Messages ev ! i)) [0..<length (fe_Messages ev)])"
    by (subst forkTokens_split) (metis (no_types, lifting) all_messages comp_apply map_eq_conv map_map)
  with t s(1) f(1) covered_split [of sdk ev "[0..<length (fe_Messages ev)]" "plan_covers ev p"]
  show "eventTokens sdk (applyPass sdk ev pass) < eventTokens sdk ev" by linarith
  show "eventTokens sdk (applyPass sdk ev pass) \<le> fe_Allowance ev" if "\<not> ps_More pass"
    using that s(2,4) f(2) t by (simp add: plan_bounded_def)
qed

section \<open>All passes of an event\<close>

text \<open>\<open>env k\<close> is what the pass with that number meets. The passes committed, and the error that ended the event.\<close>

function foldPasses :: "Sdk \<Rightarrow> (nat \<Rightarrow> passEnv) \<Rightarrow> rowsOf \<Rightarrow> nat \<Rightarrow> FoldEvent \<Rightarrow> Pass list \<times> PassError option" where
  "foldPasses sdk env rows k ev =
     (case foldPass sdk (env k) rows ev of
        Inl err \<Rightarrow> ([], Some err)
      | Inr None \<Rightarrow> ([], None)
      | Inr (Some pass) \<Rightarrow>
          (if \<not> ps_More pass then ([pass], None)
           else (case foldPasses sdk env rows (Suc k) (applyPass sdk ev pass) of (passes, err) \<Rightarrow> (pass # passes, err))))"
  by auto
termination
proof (relation "measure (\<lambda>(sdk, _, _, _, ev). nat (eventTokens sdk ev))")
  fix sdk rows ev a pass and env :: "nat \<Rightarrow> passEnv" and k :: nat
  assume "foldPass sdk (env k) rows ev = Inr a" "a = Some pass"
  then have "eventTokens sdk (applyPass sdk ev pass) < eventTokens sdk ev" using foldPass_tokens(1) by blast
  moreover have "0 \<le> eventTokens sdk (applyPass sdk ev pass)" by (rule forkTokens_nonneg)
  ultimately show "((sdk, env, rows, Suc k, applyPass sdk ev pass), sdk, env, rows, k, ev) \<in> measure (\<lambda>(sdk, _, _, _, ev). nat (eventTokens sdk ev))"
    by simp
qed simp

declare foldPasses.simps [simp del]

definition passes :: "Sdk \<Rightarrow> (nat \<Rightarrow> passEnv) \<Rightarrow> FoundRow list \<Rightarrow> FoldEvent \<Rightarrow> Pass list \<times> PassError option" where
  "passes sdk env found ev =
     (if length (fe_Sources ev) \<noteq> length (fe_Messages ev) then ([], Some OtherError)
      else (let rows = requestRows found
            in foldPasses sdk env rows 0 (ev\<lparr>fe_retention := retain sdk ev (unfoldable rows ev)\<rparr>)))"

end
