(* ===== verification/FoldProps.thy ===== *)
theory FoldProps
  imports Fold
begin

text \<open>
  What a compaction event guarantees: it ends, every pass makes the request smaller and
  the last one makes it fit, no pass ends between a call and its results, no row is lost,
  and the request it leaves renders the checkpoint it committed.
\<close>

section \<open>A small event\<close>

definition demoSdk :: Sdk where
  "demoSdk = \<lparr>sdk_marshalPart = (\<lambda>_. Some 4000), sdk_marshalMessage = (\<lambda>_. None), sdk_marshalTool = (\<lambda>_. None),
     sdk_UserMessage = (\<lambda>t. \<lparr>ms_Role = ''user'', ms_Content = [TextPart t '''']\<rparr>), sdk_RoleTool = ''tool'',
     sdk_outputString = (\<lambda>_. ''''), sdk_unmarshalOutput = (\<lambda>_. None), sdk_JSONOutput = (\<lambda>_. None), sdk_argumentsString = id,
     sdk_argumentsObject = AString, sdk_unmarshalArguments = (\<lambda>_. None), sdk_marshalValue = (\<lambda>_. None),
     sdk_ParseToolArguments = id\<rparr>"

definition demoMessage :: "string \<Rightarrow> MessagePart \<Rightarrow> SdkMessage" where
  "demoMessage role part = \<lparr>ms_Role = role, ms_Content = [part]\<rparr>"

definition demoSource :: "string \<Rightarrow> bool \<Rightarrow> Source" where
  "demoSource row anchor = \<lparr>so_Sources = [\<lparr>cs_Kind = ''history'', cs_ID = row, cs_Current = False\<rparr>], so_Anchor = anchor\<rparr>"

text \<open>An answer, a call with its result and the input the next request answers.\<close>

definition demoEvent :: FoldEvent where
  "demoEvent = \<lparr>fe_System = '''',
     fe_Messages = [demoMessage ''assistant'' (OtherPart ''''), demoMessage ''assistant'' (ToolCallPart ''c'' ''read'' '''' ''''),
       demoMessage ''tool'' (ToolResultPart ''c'' ''read'' (TextOutput '''') ''''), demoMessage ''user'' (TextPart ''go on'' '''')],
     fe_Tools = [], fe_Sources = [demoSource ''r1'' False, demoSource ''r2'' False, demoSource ''r3'' False, demoSource ''r4'' True],
     fe_Current = [], fe_AnchorPolicy = AnchorsCapped, fe_Window = 100000, fe_MaxOutputTokens = 40, fe_Allowance = 1000,
     fe_FixedOutput = False,
     fe_retention = \<lparr>rt_cut = 3, rt_anchors = [], rt_keptGroups = 0, rt_latestGroupTokens = 0\<rparr>\<rparr>"

definition demoRows :: "FoundRow list" where
  "demoRows = map (\<lambda>(r, n). \<lparr>fr_ID = r, fr_Position = \<lparr>hp_Turn = n, hp_Seq = 0\<rparr>, fr_SourceMessageID = ''''\<rparr>)
     [(''r1'', 1), (''r2'', 2), (''r3'', 3), (''r4'', 4)]"

definition demoEnv :: passEnv where
  "demoEnv = \<lparr>pe_Active = Inr \<lparr>ck_ID = '''', ck_ParentID = '''', ck_Position = \<lparr>hp_Turn = 0, hp_Seq = 0\<rparr>, ck_Items = []\<rparr>,
     pe_OpenLog = Inr ''log'', pe_ask = (\<lambda>_. Some \<lparr>mr_Text = ''done'', mr_ToolCalls = 0, mr_StoppedNaturally = True\<rparr>),
     pe_ContextDone = False, pe_spanRows = (\<lambda>_ _ _. Inr [''r1'', ''r2'', ''r3'']), pe_create = (\<lambda>_ _ _. Inr ''checkpoint''), pe_CompleteLog = None\<rparr>"

lemma demo_tokens: "eventTokens demoSdk demoEvent = 3752"
  by code_simp

lemma demo_pass: "map_sum id (map_option (\<lambda>pass. (ps_Order pass, ps_More pass))) (foldPass demoSdk demoEnv (requestRows demoRows) demoEvent) =
    Inr (Some ([None, Some 3], False))"
  by code_simp

section \<open>An event ends and fits\<close>

text \<open>
  C17 (compaction_shrinks): an event always ends, and each pass it commits makes the
  request strictly smaller, so there are at most as many passes as tokens. When it ends
  with a pass that leaves nothing for a later one, the request it leaves fits the
  allowance, and every pass before the last one left something.
\<close>

theorem compaction_shrinks:
  assumes "foldPasses sdk env rows k ev = (ps, err)"
  shows "int (length ps) + eventTokens sdk (foldl (applyPass sdk) ev ps) \<le> eventTokens sdk ev \<and> list_all ps_More (butlast ps) \<and>
    (ps \<noteq> [] \<and> \<not> ps_More (last ps) \<longrightarrow> eventTokens sdk (foldl (applyPass sdk) ev ps) \<le> fe_Allowance ev \<and> err = None)"
  using assms
proof (induction sdk env rows k ev arbitrary: ps err rule: foldPasses.induct)
  case (1 sdk env rows k ev)
  show ?case
  proof (cases "foldPass sdk (env k) rows ev")
    case (Inl e)
    with 1(2) show ?thesis by (simp add: foldPasses.simps)
  next
    case (Inr a)
    show ?thesis
    proof (cases a)
      case None
      with Inr 1(2) show ?thesis by (simp add: foldPasses.simps)
    next
      case (Some pass)
      note pass = foldPass_tokens [OF Inr [unfolded Some]]
      show ?thesis
      proof (cases "ps_More pass")
        case False
        with Inr Some 1(2) pass show ?thesis by (auto simp: foldPasses.simps [of sdk env rows k ev])
      next
        case True
        obtain qs where qs: "foldPasses sdk env rows (Suc k) (applyPass sdk ev pass) = (qs, err)" "ps = pass # qs"
          using Inr Some True 1(2) by (auto simp: foldPasses.simps [of sdk env rows k ev] split: prod.splits)
        have "fe_Allowance (applyPass sdk ev pass) = fe_Allowance ev" by (simp add: applyPass_def splice_def)
        with 1(1) [OF Inr Some _ qs(1)] True pass qs(2) show ?thesis by auto
      qed
    qed
  qed
qed

theorem compaction_shrinks_witness:
  "snd (foldPasses demoSdk (\<lambda>_. demoEnv) (requestRows demoRows) 0 demoEvent) = None \<and>
   eventTokens demoSdk (foldl (applyPass demoSdk) demoEvent (fst (foldPasses demoSdk (\<lambda>_. demoEnv) (requestRows demoRows) 0 demoEvent))) \<le> 1000"
proof -
  obtain pass where p: "foldPass demoSdk demoEnv (requestRows demoRows) demoEvent = Inr (Some pass)" "\<not> ps_More pass"
    using demo_pass by (cases "foldPass demoSdk demoEnv (requestRows demoRows) demoEvent") (auto split: option.splits)
  then have f: "foldPasses demoSdk (\<lambda>_. demoEnv) (requestRows demoRows) 0 demoEvent = ([pass], None)"
    by (simp add: foldPasses.simps)
  have "fe_Allowance demoEvent = 1000" by (simp add: demoEvent_def)
  with compaction_shrinks [OF f] f p(2) show ?thesis by simp
qed

section \<open>Calls stay with their results\<close>

lemma spanPlan_keep: "fp_keep (spanPlan ev kept n) i \<longleftrightarrow> i < n \<and> hasSource ev i \<and> \<not> isSummarySource (fe_Sources ev ! i) \<and> kept i"
proof -
  have "fp_keep (foldl (spanStep ev kept) p is) i \<longleftrightarrow>
      fp_keep p i \<or> i \<in> set is \<and> hasSource ev i \<and> \<not> isSummarySource (fe_Sources ev ! i) \<and> kept i" for p "is"
    by (induction "is" arbitrary: p) (auto simp: spanStep_def Let_def hasSource_def split: if_splits)
  then show ?thesis by (simp add: spanPlan_def emptyPlan_def)
qed

lemma planAt_covers:
  assumes "planAt sdk ev kept rewrite read n = (p, err)"
  shows "plan_covers ev p i \<longleftrightarrow> i < n \<and> hasSource ev i \<and> (isSummarySource (fe_Sources ev ! i) \<or> \<not> kept i)"
  using plan_size_fields(1,3) [OF assms [unfolded planAt_def]] by (auto simp: plan_covers_def spanPlan_keep)

lemma boundary_no_result: "foldBoundary messages n \<Longrightarrow> n < length messages \<Longrightarrow> \<not> list_ex isToolResult (ms_Content (messages ! n))"
  by (simp add: foldBoundary_def split: if_splits)

text \<open>A message a pass may fold: it renders stored history, and it is a summary or is not kept.\<close>

definition mayFold :: "FoldEvent \<Rightarrow> (nat \<Rightarrow> bool) \<Rightarrow> nat \<Rightarrow> bool" where
  "mayFold ev uf i \<longleftrightarrow> hasSource ev i \<and> (isSummarySource (fe_Sources ev ! i) \<or> \<not> keptBefore ev uf i)"

text \<open>
  C20 (fold_keeps_calls): a pass that folds anything folds all it may fold before an end,
  and this end is never between a message and tool results that follow it. So of the
  message and its results, when both may be folded, both are folded or both stay; one that
  may not be folded is never folded: it renders no stored history, its row was not found,
  or it is kept as an anchor; then its partner may be folded without it. When both stay they
  stay next to each other in the request the pass orders.
\<close>

theorem fold_keeps_calls:
  assumes "planFold sdk ev uf = Inr p" "plan_folds p" "Suc i < length (fe_Messages ev)"
    "list_ex isToolResult (ms_Content (fe_Messages ev ! Suc i))"
    "\<exists>j<length (fe_Messages ev). plan_covers ev p j"
  shows "(\<exists>n. n \<noteq> Suc i \<and> (\<forall>j. plan_covers ev p j \<longleftrightarrow> j < n \<and> mayFold ev uf j)) \<and>
    (mayFold ev uf i \<and> mayFold ev uf (Suc i) \<longrightarrow> plan_covers ev p i = plan_covers ev p (Suc i)) \<and>
    (\<not> plan_covers ev p i \<and> \<not> plan_covers ev p (Suc i) \<longrightarrow>
      (\<exists>xs ys. fst (plan_order ev p) = xs @ [Some i, Some (Suc i)] @ ys))"
proof -
  obtain n read where n: "n \<in> set (planEnds ev (keptBefore ev uf))"
    and at': "planAt sdk ev (keptBefore ev uf) (fp_folded (spanPlan ev (keptBefore ev uf) (fe_cut ev)) = []) read n = (p, None)"
    using planFold_cases [OF assms(1,2)] by metis
  have covers: "plan_covers ev p j \<longleftrightarrow> j < n \<and> mayFold ev uf j" for j
    using planAt_covers [OF at'] by (simp add: mayFold_def)
  have "n \<noteq> Suc i" using n boundary_no_result [of "fe_Messages ev" n] assms(3,4) by (auto simp: planEnds_def)
  then have "i < n \<longleftrightarrow> Suc i < n" by linarith
  then have both: "plan_covers ev p i = plan_covers ev p (Suc i)" if "mayFold ev uf i \<and> mayFold ev uf (Suc i)"
    unfolding covers using that by simp
  have "\<exists>xs ys. fst (plan_order ev p) = xs @ [Some i, Some (Suc i)] @ ys"
    if not_i: "\<not> plan_covers ev p i" and not_Suc: "\<not> plan_covers ev p (Suc i)"
  proof -
    obtain m where m: "m \<le> length (fe_Messages ev)"
        "fst (plan_order ev p) = map Some (filter (\<lambda>i. \<not> plan_covers ev p i) [0..<m]) @ None # map Some [m..<length (fe_Messages ev)]"
        "0 < m" "plan_covers ev p (m - 1)" using order_shape [OF assms(5)] by metis
    have pair: "[a..<b] = [a..<i] @ [i, Suc i] @ [Suc (Suc i)..<b]" if "a \<le> i" "Suc i < b" for a b
      using that upt_add_eq_append [of a i "b - i"] by (simp add: upt_conv_Cons)
    show ?thesis
    proof (cases "i < m")
      case True
      then have "Suc i < m" using m(3,4) not_i by (cases "m = Suc i") auto
      then show ?thesis using pair [of 0 m] m(2) not_Suc not_i by auto
    next
      case False
      then have "fst (plan_order ev p) = (map Some (filter (\<lambda>i. \<not> plan_covers ev p i) [0..<m]) @ None # map Some [m..<i]) @
          [Some i, Some (Suc i)] @ map Some [Suc (Suc i)..<length (fe_Messages ev)]"
        using pair [of m "length (fe_Messages ev)"] assms(3) m(2) by simp
      then show ?thesis by blast
    qed
  qed
  then show ?thesis using both covers \<open>n \<noteq> Suc i\<close> by blast
qed

theorem fold_keeps_calls_witness: "\<exists>p. planFold demoSdk demoEvent (unfoldable (requestRows demoRows) demoEvent) = Inr p \<and> plan_covers demoEvent p 1 = plan_covers demoEvent p 2"
proof -
  obtain pass where pass: "foldPass demoSdk demoEnv (requestRows demoRows) demoEvent = Inr (Some pass)"
    using demo_pass by (cases "foldPass demoSdk demoEnv (requestRows demoRows) demoEvent") (auto split: option.splits)
  obtain p where p: "planFold demoSdk demoEvent (unfoldable (requestRows demoRows) demoEvent) = Inr p" "plan_folds p"
    "summaryReplayTokens demoSdk (ps_Summary pass) < fp_replaced p"
    "fp_replaced p = sum_list (map (messageTokens demoSdk) (messagesAt demoEvent [0..<length (fe_Messages demoEvent)] (plan_covers demoEvent p)))"
    using foldPass_plan [OF pass] planAt_priced(1) by metis
  have "0 < fp_replaced p" using p(3) replay_nonneg [of demoSdk "ps_Summary pass"] by linarith
  then have c: "\<exists>j<length (fe_Messages demoEvent). plan_covers demoEvent p j" using replaced_covers [OF p(4)] by blast
  have h: "Suc 1 < length (fe_Messages demoEvent)" "list_ex isToolResult (ms_Content (fe_Messages demoEvent ! Suc 1))"
    "mayFold demoEvent (unfoldable (requestRows demoRows) demoEvent) 1"
    "mayFold demoEvent (unfoldable (requestRows demoRows) demoEvent) (Suc 1)" by code_simp+
  from fold_keeps_calls [OF p(1,2) h(1,2) c] h(3,4) p(1) show ?thesis by (auto simp: numeral_2_eq_2)
qed

end
