(* ===== verification/FoldRetain.thy ===== *)
theory FoldRetain
  imports FoldProps
begin

text \<open>
  What a compaction event keeps verbatim (\<open>retain\<close>): its cost stays within the budget,
  and no rendered summary is among the newest messages it keeps.
\<close>

section \<open>The anchors\<close>

definition anchorAt :: "FoldEvent \<Rightarrow> (nat \<Rightarrow> bool) \<Rightarrow> nat \<Rightarrow> bool" where
  "anchorAt ev uf i \<longleftrightarrow> so_Anchor (fe_Sources ev ! i) \<and> \<not> fixedAt ev uf i"

text \<open>The price of the messages that satisfy a predicate.\<close>

definition costOf :: "Sdk \<Rightarrow> FoldEvent \<Rightarrow> (nat \<Rightarrow> bool) \<Rightarrow> nat \<Rightarrow> nat \<Rightarrow> int" where
  "costOf sdk ev P lo hi = sum_list (map (\<lambda>i. keepTokens sdk (fe_Messages ev ! i)) (filter P [lo..<hi]))"

lemma keepTokens_nonneg: "0 \<le> keepTokens sdk m"
  using forkTokens_nonneg [of sdk "''''" "[m]" "[]"] by (auto simp: keepTokens_def Let_def split: option.split)

lemma costOf_nonneg: "0 \<le> costOf sdk ev P lo hi"
  unfolding costOf_def by (rule sum_list_nonneg) (auto simp: keepTokens_nonneg)

lemma costOf_split: "lo \<le> mid \<Longrightarrow> mid \<le> hi \<Longrightarrow> costOf sdk ev P lo hi = costOf sdk ev P lo mid + costOf sdk ev P mid hi"
  using upt_add_eq_append [of lo mid "hi - mid"] by (simp add: costOf_def)

lemma costOf_cong: "(\<And>i. lo \<le> i \<Longrightarrow> i < hi \<Longrightarrow> P i = Q i) \<Longrightarrow> costOf sdk ev P lo hi = costOf sdk ev Q lo hi"
  unfolding costOf_def by (metis (mono_tags, lifting) atLeastLessThan_iff filter_cong set_upt)

lemma costOf_or:
  "(\<And>i. lo \<le> i \<Longrightarrow> i < hi \<Longrightarrow> \<not> (P i \<and> Q i)) \<Longrightarrow> costOf sdk ev (\<lambda>i. P i \<or> Q i) lo hi = costOf sdk ev P lo hi + costOf sdk ev Q lo hi"
proof -
  assume disj: "\<And>i. lo \<le> i \<Longrightarrow> i < hi \<Longrightarrow> \<not> (P i \<and> Q i)"
  have "\<forall>i\<in>set is. \<not> (P i \<and> Q i) \<Longrightarrow> sum_list (map f (filter (\<lambda>i. P i \<or> Q i) is)) = sum_list (map f (filter P is)) + sum_list (map f (filter Q is))"
    for f :: "nat \<Rightarrow> int" and "is" by (induction "is") auto
  from this [of "[lo..<hi]"] disj show ?thesis by (simp add: costOf_def)
qed

lemma costOf_mono: "(\<And>i. lo \<le> i \<Longrightarrow> i < hi \<Longrightarrow> P i \<Longrightarrow> Q i) \<Longrightarrow> costOf sdk ev P lo hi \<le> costOf sdk ev Q lo hi"
proof -
  assume sub: "\<And>i. lo \<le> i \<Longrightarrow> i < hi \<Longrightarrow> P i \<Longrightarrow> Q i"
  have "costOf sdk ev Q lo hi = costOf sdk ev (\<lambda>i. P i \<or> Q i \<and> \<not> P i) lo hi" using sub by (intro costOf_cong) auto
  also have "\<dots> = costOf sdk ev P lo hi + costOf sdk ev (\<lambda>i. Q i \<and> \<not> P i) lo hi" by (rule costOf_or) simp
  finally show ?thesis using costOf_nonneg [of sdk ev "\<lambda>i. Q i \<and> \<not> P i" lo hi] by linarith
qed

lemma keepCost_costOf: "keepCost sdk ev uf lo hi = costOf sdk ev (\<lambda>i. \<not> fixedAt ev uf i) lo hi"
  by (simp add: keepCost_def costOf_def)

lemma anchorLoop_spec:
  assumes "anchorLoop sdk ev uf budget i used anchors = (u, as)"
  shows "\<exists>j\<le>i. set as = set anchors \<union> (\<Union>x\<in>{x. j \<le> x \<and> x < i \<and> anchorAt ev uf x}. sourceKey ` set (so_Sources (fe_Sources ev ! x))) \<and>
    u = used + costOf sdk ev (anchorAt ev uf) j i \<and> (u \<le> budget \<or> u = used \<and> set as = set anchors)"
  using assms
proof (induction sdk ev uf budget i used anchors rule: anchorLoop.induct)
  case (1 sdk ev uf budget used anchors)
  then show ?case by (simp add: costOf_def)
next
  case (2 sdk ev uf budget i used anchors)
  let ?c = "keepCost sdk ev uf i (Suc i)"
  show ?case
  proof (cases "anchorAt ev uf i")
    case False
    then have na: "\<not> so_Anchor (fe_Sources ev ! i) \<or> fixedAt ev uf i" by (simp add: anchorAt_def)
    then have step: "anchorLoop sdk ev uf budget i used anchors = (u, as)" using 2(3) by auto
    obtain j where j: "j \<le> i"
        "set as = set anchors \<union> (\<Union>x\<in>{x. j \<le> x \<and> x < i \<and> anchorAt ev uf x}. sourceKey ` set (so_Sources (fe_Sources ev ! x)))"
        "u = used + costOf sdk ev (anchorAt ev uf) j i" "u \<le> budget \<or> u = used \<and> set as = set anchors"
      using 2(1) [OF na step] by blast
    have "{x. j \<le> x \<and> x < Suc i \<and> anchorAt ev uf x} = {x. j \<le> x \<and> x < i \<and> anchorAt ev uf x}" using False by (auto simp: less_Suc_eq)
    moreover have "costOf sdk ev (anchorAt ev uf) j (Suc i) = costOf sdk ev (anchorAt ev uf) j i" using False j(1) by (simp add: costOf_def)
    ultimately show ?thesis using j by (intro exI [of _ j]) simp
  next
    case True
    then have a: "so_Anchor (fe_Sources ev ! i)" "\<not> fixedAt ev uf i" by (simp_all add: anchorAt_def)
    show ?thesis
    proof (cases "budget < used + ?c")
      case True
      then have "u = used" "as = anchors" using 2(3) a by (simp_all add: Let_def)
      then show ?thesis by (intro exI [of _ "Suc i"]) (auto simp: costOf_def)
    next
      case False
      then have step: "anchorLoop sdk ev uf budget i (used + ?c) (anchors @ map sourceKey (so_Sources (fe_Sources ev ! i))) = (u, as)"
        using 2(3) a by (simp add: Let_def)
      from 2(2) [OF _ refl False step] a obtain j where j: "j \<le> i"
          "set as = set (anchors @ map sourceKey (so_Sources (fe_Sources ev ! i))) \<union>
             (\<Union>x\<in>{x. j \<le> x \<and> x < i \<and> anchorAt ev uf x}. sourceKey ` set (so_Sources (fe_Sources ev ! x)))"
          "u = used + ?c + costOf sdk ev (anchorAt ev uf) j i"
          "u \<le> budget \<or> u = used + ?c" by auto
      have "{x. j \<le> x \<and> x < Suc i \<and> anchorAt ev uf x} = insert i {x. j \<le> x \<and> x < i \<and> anchorAt ev uf x}" using \<open>anchorAt ev uf i\<close> j(1) by (auto simp: less_Suc_eq)
      moreover have "costOf sdk ev (anchorAt ev uf) j (Suc i) = costOf sdk ev (anchorAt ev uf) j i + ?c"
        using \<open>anchorAt ev uf i\<close> a(2) j(1) by (simp add: costOf_def keepCost_def)
      ultimately show ?thesis using j False by (intro exI [of _ j]) (auto simp: Un_assoc)
    qed
  qed
qed

section \<open>The newest groups\<close>

text \<open>What a group adds to the price of the anchors kept.\<close>

definition otherAt :: "FoldEvent \<Rightarrow> (nat \<Rightarrow> bool) \<Rightarrow> sourceId list \<Rightarrow> nat \<Rightarrow> bool" where
  "otherAt ev uf anchors i \<longleftrightarrow> \<not> (fixedAt ev uf i \<or> retentionKeeps anchors (fe_Sources ev ! i))"

lemma group_flags:
  "groupStops ev uf anchors lo hi \<longleftrightarrow>
     (\<exists>i\<in>{lo..<hi}. otherAt ev uf anchors i \<and> (isSummarySource (fe_Sources ev ! i) \<or> so_Anchor (fe_Sources ev ! i)))"
  "groupCounts ev uf anchors lo hi \<longleftrightarrow>
     (\<exists>i\<in>{lo..<hi}. otherAt ev uf anchors i \<and> \<not> (isSummarySource (fe_Sources ev ! i) \<or> so_Anchor (fe_Sources ev ! i)))"
  by (simp_all only: groupStops_def groupCounts_def otherAt_def list_ex_iff set_upt)

lemma groupLoop_spec:
  assumes "costOf sdk ev (otherAt ev uf (rt_anchors r)) n (rt_cut r) = 0" "n \<le> rt_cut r"
    "\<forall>i. n \<le> i \<and> i < rt_cut r \<longrightarrow> \<not> otherAt ev uf (rt_anchors r) i"
  shows "rt_anchors (groupLoop sdk ev uf n budget latest r) = rt_anchors r \<and>
    rt_cut (groupLoop sdk ev uf n budget latest r) \<le> rt_cut r \<and>
    (rt_cut (groupLoop sdk ev uf n budget latest r) = rt_cut r \<or>
      costOf sdk ev (otherAt ev uf (rt_anchors r)) (rt_cut (groupLoop sdk ev uf n budget latest r)) (rt_cut r) \<le> budget) \<and>
    (\<forall>i. rt_cut (groupLoop sdk ev uf n budget latest r) \<le> i \<and> i < rt_cut r \<and> otherAt ev uf (rt_anchors r) i \<longrightarrow>
      \<not> isSummarySource (fe_Sources ev ! i))"
  using assms
proof (induction sdk ev uf n budget latest r rule: groupLoop.induct)
  case (1 sdk ev uf n budget latest r)
  let ?start = "groupStart (fe_Messages ev) n" and ?o = "otherAt ev uf (rt_anchors r)"
  show ?case
  proof (cases "n = 0 \<or> groupStops ev uf (rt_anchors r) ?start n")
    case True
    then have "groupLoop sdk ev uf n budget latest r = r" by (subst groupLoop.simps) (auto simp: Let_def)
    then show ?thesis by auto
  next
    case False
    then have n: "0 < n" "\<not> groupStops ev uf (rt_anchors r) ?start n" "?start < n" by auto
    have nosum: "\<not> isSummarySource (fe_Sources ev ! i)" if "?start \<le> i" "i < n" "?o i" for i
      using n(2) that unfolding group_flags by auto
    show ?thesis
    proof (cases "groupCounts ev uf (rt_anchors r) ?start n")
      case False
      have none: "\<not> ?o i" if "?start \<le> i" "i < n" for i
        using False n(2) that unfolding group_flags by auto
      have step: "groupLoop sdk ev uf n budget latest r = groupLoop sdk ev uf ?start budget latest r"
        using n(1,2) False by (subst groupLoop.simps) (simp add: Let_def)
      have all: "\<forall>i. ?start \<le> i \<and> i < rt_cut r \<longrightarrow> \<not> ?o i" using none 1(5) by (meson not_le)
      have "costOf sdk ev ?o ?start (rt_cut r) = 0" using all by (simp add: costOf_def filter_empty_conv)
      with 1(2) [OF _ refl _ False _ _ all] n 1(4) show ?thesis unfolding step by simp
    next
      case True
      let ?t = "keepCost sdk ev uf ?start n"
      let ?r1 = "if latest then r\<lparr>rt_latestGroupTokens := ?t\<rparr> else r"
      let ?r2 = "?r1\<lparr>rt_keptGroups := rt_keptGroups ?r1 + 1, rt_cut := ?start\<rparr>"
      have r1: "rt_anchors ?r1 = rt_anchors r" "rt_cut ?r1 = rt_cut r" by simp_all
      show ?thesis
      proof (cases "budget < ?t")
        case over: True
        have "groupLoop sdk ev uf n budget latest r = ?r1" using n(1,2) True over by (subst groupLoop.simps) (simp add: Let_def)
        then show ?thesis using r1 by auto
      next
        case fits: False
        have step: "groupLoop sdk ev uf n budget latest r = groupLoop sdk ev uf ?start (budget - ?t) False ?r2"
          using n(1,2) True fits by (subst groupLoop.simps) (simp add: Let_def)
        define r2 where "r2 = ?r2"
        have r2: "rt_anchors r2 = rt_anchors r" "rt_cut r2 = ?start" by (simp_all add: r2_def)
        let ?c = "rt_cut (groupLoop sdk ev uf ?start (budget - ?t) False r2)"
        have p: "costOf sdk ev (otherAt ev uf (rt_anchors r2)) ?start (rt_cut r2) = 0" "?start \<le> rt_cut r2"
          "\<forall>i. ?start \<le> i \<and> i < rt_cut r2 \<longrightarrow> \<not> otherAt ev uf (rt_anchors r2) i" by (auto simp: costOf_def r2)
        have n0: "n \<noteq> 0" using n(1) by simp
        note all = 1(1) [OF n0 refl n(2) True refl refl fits, folded r2_def, OF p, unfolded r2]
        have ih: "rt_anchors (groupLoop sdk ev uf ?start (budget - ?t) False r2) = rt_anchors r" "?c \<le> ?start"
            "?c = ?start \<or> costOf sdk ev ?o ?c ?start \<le> budget - ?t"
            "\<And>i. ?c \<le> i \<Longrightarrow> i < ?start \<Longrightarrow> ?o i \<Longrightarrow> \<not> isSummarySource (fe_Sources ev ! i)"
          using all by blast+
        note step = step [folded r2_def]
        have "costOf sdk ev ?o ?start n \<le> ?t" unfolding keepCost_costOf by (rule costOf_mono) (simp add: otherAt_def)
        moreover have "costOf sdk ev ?o ?c (rt_cut r) = costOf sdk ev ?o ?c ?start + (costOf sdk ev ?o ?start n + costOf sdk ev ?o n (rt_cut r))"
          using costOf_split [of ?c ?start "rt_cut r" sdk ev ?o] costOf_split [of ?start n "rt_cut r" sdk ev ?o] ih(2) n(3) 1(4) by simp
        moreover have "costOf sdk ev ?o ?start ?start = 0" by (simp add: costOf_def)
        ultimately have "costOf sdk ev ?o ?c (rt_cut r) \<le> budget" using ih(3) fits 1(3) by (elim disjE) (simp, linarith)
        moreover have "\<not> isSummarySource (fe_Sources ev ! i)" if "?c \<le> i" "i < rt_cut r" "?o i" for i
          using ih(4) nosum 1(5) that by (meson not_le)
        ultimately show ?thesis unfolding step using ih(1,2) n(3) 1(4) by auto
      qed
    qed
  qed
qed

section \<open>The budget of an event\<close>

text \<open>Two anchors that a fold may keep render different sources.\<close>

definition anchorsDistinct :: "FoldEvent \<Rightarrow> (nat \<Rightarrow> bool) \<Rightarrow> bool" where
  "anchorsDistinct ev uf \<longleftrightarrow>
     list_all (\<lambda>i. list_all (\<lambda>j. i = j \<or> \<not> so_Anchor (fe_Sources ev ! i) \<or> \<not> so_Anchor (fe_Sources ev ! j) \<or>
         sourceKey ` set (so_Sources (fe_Sources ev ! i)) \<inter> sourceKey ` set (so_Sources (fe_Sources ev ! j)) = {})
       [0..<length (fe_Messages ev)]) [0..<length (fe_Messages ev)]"

text \<open>What an event keeps of the messages it could fold: what follows the cut, and its anchors.\<close>

definition keptAt :: "FoldEvent \<Rightarrow> (nat \<Rightarrow> bool) \<Rightarrow> retention \<Rightarrow> nat \<Rightarrow> bool" where
  "keptAt ev uf r i \<longleftrightarrow> \<not> fixedAt ev uf i \<and> (rt_cut r \<le> i \<or> retentionKeeps (rt_anchors r) (fe_Sources ev ! i))"

text \<open>Where the trailing anchors start, and the budget without what stays whatever it takes.\<close>

definition trailing :: "FoldEvent \<Rightarrow> (nat \<Rightarrow> bool) \<Rightarrow> nat" where
  "trailing ev uf = skipBack (\<lambda>i. fixedAt ev uf i \<or> so_Anchor (fe_Sources ev ! i)) (length (fe_Messages ev))"

definition forcedTokens :: "Sdk \<Rightarrow> FoldEvent \<Rightarrow> (nat \<Rightarrow> bool) \<Rightarrow> int" where
  "forcedTokens sdk ev uf = costOf sdk ev (\<lambda>i. hasSource ev i \<and> uf i) 0 (length (fe_Messages ev))"

lemma skipBack_le: "skipBack P n \<le> n"
  by (induction n) auto

lemma skipBack_rest: "skipBack P n \<le> i \<Longrightarrow> i < n \<Longrightarrow> P i"
  by (induction n) (auto split: if_splits simp: less_Suc_eq)

lemma anchors_kept:
  assumes "anchorsDistinct ev uf" "n \<le> length (fe_Messages ev)"
    "set as = (\<Union>x\<in>{x. j \<le> x \<and> x < n \<and> anchorAt ev uf x}. sourceKey ` set (so_Sources (fe_Sources ev ! x)))"
    "i < n" "\<not> fixedAt ev uf i"
  shows "retentionKeeps as (fe_Sources ev ! i) \<longleftrightarrow> j \<le> i \<and> anchorAt ev uf i"
proof
  assume k: "retentionKeeps as (fe_Sources ev ! i)"
  then obtain s where s: "so_Anchor (fe_Sources ev ! i)" "s \<in> set (so_Sources (fe_Sources ev ! i))" "sourceKey s \<in> set as"
    by (auto simp: retentionKeeps_def list_ex_iff)
  then obtain x where x: "j \<le> x" "x < n" "anchorAt ev uf x" "sourceKey s \<in> sourceKey ` set (so_Sources (fe_Sources ev ! x))"
    using assms(3) by auto
  moreover have "x = i \<or> sourceKey ` set (so_Sources (fe_Sources ev ! x)) \<inter> sourceKey ` set (so_Sources (fe_Sources ev ! i)) = {}"
    using assms(1,2,4) x(2,3) s(1) by (auto simp: anchorsDistinct_def list_all_iff anchorAt_def)
  ultimately show "j \<le> i \<and> anchorAt ev uf i" using s(2) by auto
next
  assume a: "j \<le> i \<and> anchorAt ev uf i"
  then obtain s where "s \<in> set (so_Sources (fe_Sources ev ! i))"
    using assms(5) by (auto simp: fixedAt_def hasSource_def) (meson list.set_sel(1))
  then show "retentionKeeps as (fe_Sources ev ! i)"
    using a assms(3,4) by (auto simp: retentionKeeps_def list_ex_iff anchorAt_def)
qed

text \<open>
  C21 (retain_budget): with anchors capped, what an event keeps of the messages it could
  fold takes no more than its budget less what no fold can remove, or only the trailing
  anchors when these alone exceed it.
\<close>

theorem retain_budget:
  assumes "fe_AnchorPolicy ev = AnchorsCapped" "anchorsDistinct ev uf" "r = retain sdk ev uf"
  shows "rt_cut r \<le> trailing ev uf \<and>
    costOf sdk ev (keptAt ev uf r) 0 (length (fe_Messages ev)) \<le>
      max (verbatimBudget sdk ev - forcedTokens sdk ev uf) (costOf sdk ev (anchorAt ev uf) (trailing ev uf) (length (fe_Messages ev)))"
proof -
  let ?n = "length (fe_Messages ev)" and ?c0 = "trailing ev uf" and ?f = "\<lambda>i. \<not> fixedAt ev uf i"
  let ?tail = "costOf sdk ev ?f ?c0 ?n"
  let ?budget = "verbatimBudget sdk ev - forcedTokens sdk ev uf - ?tail"
  have c0: "?c0 \<le> ?n" by (simp add: trailing_def skipBack_le)
  have tail: "?tail = costOf sdk ev (anchorAt ev uf) ?c0 ?n"
    using skipBack_rest [of "\<lambda>i. fixedAt ev uf i \<or> so_Anchor (fe_Sources ev ! i)" ?n] unfolding trailing_def
    by (intro costOf_cong) (auto simp: anchorAt_def)
  obtain used anchors where loop: "anchorLoop sdk ev uf ?budget ?c0 0 [] = (used, anchors)" by fastforce
  define r0 where "r0 = \<lparr>rt_cut = ?c0, rt_anchors = anchors, rt_keptGroups = 0, rt_latestGroupTokens = 0\<rparr>"
  have r: "r = groupLoop sdk ev uf ?c0 (?budget - used) True r0"
    using assms(1,3) loop by (simp add: retain_def trailing_def forcedTokens_def keepCost_costOf r0_def costOf_def Let_def)
  obtain j where j: "j \<le> ?c0"
      "set anchors = (\<Union>x\<in>{x. j \<le> x \<and> x < ?c0 \<and> anchorAt ev uf x}. sourceKey ` set (so_Sources (fe_Sources ev ! x)))"
      "used = costOf sdk ev (anchorAt ev uf) j ?c0" "used \<le> ?budget \<or> used = 0 \<and> set anchors = {}"
    using anchorLoop_spec [OF loop] by auto
  note kept = anchors_kept [OF assms(2) c0 j(2)]
  have g: "rt_anchors r = anchors" "rt_cut r \<le> ?c0"
      "rt_cut r = ?c0 \<or> costOf sdk ev (otherAt ev uf anchors) (rt_cut r) ?c0 \<le> ?budget - used"
  proof -
    have z: "rt_cut r0 = ?c0" "rt_anchors r0 = anchors" by (simp_all add: r0_def)
    have "costOf sdk ev (otherAt ev uf (rt_anchors r0)) ?c0 (rt_cut r0) = 0" "?c0 \<le> rt_cut r0"
      "\<forall>i. ?c0 \<le> i \<and> i < rt_cut r0 \<longrightarrow> \<not> otherAt ev uf (rt_anchors r0) i" by (auto simp: costOf_def z)
    from groupLoop_spec [OF this, of "?budget - used" True]
    show "rt_anchors r = anchors" "rt_cut r \<le> ?c0"
      "rt_cut r = ?c0 \<or> costOf sdk ev (otherAt ev uf anchors) (rt_cut r) ?c0 \<le> ?budget - used"
      unfolding r z by simp_all
  qed
  have "costOf sdk ev (keptAt ev uf r) ?c0 ?n = ?tail" using g(2) by (intro costOf_cong) (auto simp: keptAt_def)
  moreover have "costOf sdk ev (keptAt ev uf r) 0 ?c0 =
      costOf sdk ev (\<lambda>i. (?f i \<and> retentionKeeps anchors (fe_Sources ev ! i)) \<or> (rt_cut r \<le> i \<and> otherAt ev uf anchors i)) 0 ?c0"
    by (intro costOf_cong) (auto simp: keptAt_def otherAt_def g(1))
  moreover have "\<dots> = costOf sdk ev (\<lambda>i. ?f i \<and> retentionKeeps anchors (fe_Sources ev ! i)) 0 ?c0 +
      costOf sdk ev (\<lambda>i. rt_cut r \<le> i \<and> otherAt ev uf anchors i) 0 ?c0"
    by (rule costOf_or) (auto simp: otherAt_def)
  moreover have "costOf sdk ev (\<lambda>i. rt_cut r \<le> i \<and> otherAt ev uf anchors i) 0 ?c0 = costOf sdk ev (otherAt ev uf anchors) (rt_cut r) ?c0"
    using costOf_split [of 0 "rt_cut r" ?c0 sdk ev "\<lambda>i. rt_cut r \<le> i \<and> otherAt ev uf anchors i"] g(2)
    by (simp add: costOf_def [of _ _ _ 0 "rt_cut r"] filter_empty_conv costOf_cong [of "rt_cut r" ?c0 "\<lambda>i. rt_cut r \<le> i \<and> otherAt ev uf anchors i"])
  moreover have "costOf sdk ev (\<lambda>i. ?f i \<and> retentionKeeps anchors (fe_Sources ev ! i)) 0 ?c0 = used"
  proof -
    have "costOf sdk ev (\<lambda>i. ?f i \<and> retentionKeeps anchors (fe_Sources ev ! i)) 0 ?c0 = costOf sdk ev (\<lambda>i. j \<le> i \<and> anchorAt ev uf i) 0 ?c0"
      using kept by (intro costOf_cong) (auto simp: anchorAt_def)
    also have "\<dots> = costOf sdk ev (anchorAt ev uf) j ?c0"
      using costOf_split [of 0 j ?c0 sdk ev "\<lambda>i. j \<le> i \<and> anchorAt ev uf i"] j(1)
      by (simp add: costOf_def [of _ _ _ 0 j] filter_empty_conv costOf_cong [of j ?c0 "\<lambda>i. j \<le> i \<and> anchorAt ev uf i"])
    finally show ?thesis using j(3) by simp
  qed
  ultimately have total: "costOf sdk ev (keptAt ev uf r) 0 ?n = used + costOf sdk ev (otherAt ev uf anchors) (rt_cut r) ?c0 + ?tail"
    using costOf_split [OF zero_le c0] by simp
  have o: "costOf sdk ev (otherAt ev uf anchors) ?c0 ?c0 = 0" by (simp add: costOf_def)
  have "used + costOf sdk ev (otherAt ev uf anchors) (rt_cut r) ?c0 \<le> max ?budget 0"
    using g(3) j(4) o costOf_nonneg [of sdk ev "otherAt ev uf anchors" "rt_cut r" ?c0] by auto
  then show ?thesis using g(2) total tail by linarith
qed

theorem retain_budget_witness:
  "costOf demoSdk demoEvent (keptAt demoEvent (unfoldable (requestRows demoRows) demoEvent)
     (retain demoSdk demoEvent (unfoldable (requestRows demoRows) demoEvent))) 0 4 \<le> 250"
proof -
  have h: "fe_AnchorPolicy demoEvent = AnchorsCapped" "anchorsDistinct demoEvent (unfoldable (requestRows demoRows) demoEvent)" by code_simp+
  have v: "max (verbatimBudget demoSdk demoEvent - forcedTokens demoSdk demoEvent (unfoldable (requestRows demoRows) demoEvent))
      (costOf demoSdk demoEvent (anchorAt demoEvent (unfoldable (requestRows demoRows) demoEvent))
        (trailing demoEvent (unfoldable (requestRows demoRows) demoEvent)) (length (fe_Messages demoEvent))) = 250"
    "length (fe_Messages demoEvent) = 4" by code_simp+
  show ?thesis using retain_budget [OF h refl, of demoSdk] unfolding v(1) unfolding v(2) by blast
qed

section \<open>No summary is kept\<close>

text \<open>A message that renders a summary renders nothing else and is no anchor.\<close>

definition summariesAlone :: "FoldEvent \<Rightarrow> bool" where
  "summariesAlone ev \<longleftrightarrow> length (fe_Sources ev) = length (fe_Messages ev) \<and>
     list_all (\<lambda>s. list_ex (\<lambda>c. cs_Kind c = ''summary'') (so_Sources s) \<longrightarrow>
       \<not> so_Anchor s \<and> list_all (\<lambda>c. cs_Kind c = ''summary'') (so_Sources s)) (fe_Sources ev)"

lemma summaryAlone:
  assumes "list_ex (\<lambda>c. cs_Kind c = ''summary'') (so_Sources s) \<longrightarrow>
    \<not> so_Anchor s \<and> list_all (\<lambda>c. cs_Kind c = ''summary'') (so_Sources s)"
  shows "isSummarySource s \<Longrightarrow> \<not> so_Anchor s \<and> so_Sources s \<noteq> []"
    "c \<in> set (so_Sources s) \<Longrightarrow> cs_Kind c = ''summary'' \<longleftrightarrow> isSummarySource s"
proof -
  obtain cs where cs: "so_Sources s = cs" by blast
  show "isSummarySource s \<Longrightarrow> \<not> so_Anchor s \<and> so_Sources s \<noteq> []"
    using assms unfolding isSummarySource_def cs by (cases cs) simp_all
  show "c \<in> set (so_Sources s) \<Longrightarrow> cs_Kind c = ''summary'' \<longleftrightarrow> isSummarySource s"
    using assms unfolding isSummarySource_def cs by (cases cs) (simp, auto simp only: list_ex_iff list_all_iff list.case list.set insert_iff)
qed

lemma summariesAlone_at:
  assumes "summariesAlone ev" "i < length (fe_Messages ev)"
  shows "isSummarySource (fe_Sources ev ! i) \<Longrightarrow> \<not> so_Anchor (fe_Sources ev ! i) \<and> hasSource ev i"
    "c \<in> set (so_Sources (fe_Sources ev ! i)) \<Longrightarrow> cs_Kind c = ''summary'' \<longleftrightarrow> isSummarySource (fe_Sources ev ! i)"
proof -
  have "fe_Sources ev ! i \<in> set (fe_Sources ev)" using assms by (simp add: summariesAlone_def)
  then have s: "list_ex (\<lambda>c. cs_Kind c = ''summary'') (so_Sources (fe_Sources ev ! i)) \<longrightarrow>
      \<not> so_Anchor (fe_Sources ev ! i) \<and> list_all (\<lambda>c. cs_Kind c = ''summary'') (so_Sources (fe_Sources ev ! i))"
    using assms(1) unfolding summariesAlone_def list_all_iff [of _ "fe_Sources ev"] by blast
  show "isSummarySource (fe_Sources ev ! i) \<Longrightarrow> \<not> so_Anchor (fe_Sources ev ! i) \<and> hasSource ev i"
    using summaryAlone(1) [OF s] unfolding hasSource_def .
  show "c \<in> set (so_Sources (fe_Sources ev ! i)) \<Longrightarrow> cs_Kind c = ''summary'' \<longleftrightarrow> isSummarySource (fe_Sources ev ! i)"
    by (rule summaryAlone(2) [OF s])
qed

text \<open>Every summary a request renders is before the cut of its event.\<close>

definition summariesFold :: "FoldEvent \<Rightarrow> bool" where
  "summariesFold ev \<longleftrightarrow> fe_cut ev \<le> length (fe_Messages ev) \<and>
     list_all (\<lambda>i. isSummarySource (fe_Sources ev ! i) \<longrightarrow> i < fe_cut ev) [0..<length (fe_Messages ev)]"

lemma retain_groupLoop:
  "\<exists>b as. retain sdk ev uf =
    (let c0 = (if fe_AnchorPolicy ev = AnchorsCapped then trailing ev uf else length (fe_Messages ev))
     in groupLoop sdk ev uf c0 b True \<lparr>rt_cut = c0, rt_anchors = as, rt_keptGroups = 0, rt_latestGroupTokens = 0\<rparr>)"
  unfolding retain_def Let_def trailing_def case_prod_unfold by (rule exI, rule exI, rule refl)

lemma retain_summaries:
  assumes "summariesAlone ev" "r = retain sdk ev (unfoldable rows ev)"
  shows "summariesFold (ev\<lparr>fe_retention := r\<rparr>)"
proof -
  let ?n = "length (fe_Messages ev)" and ?uf = "unfoldable rows ev"
  define c0 where "c0 = (if fe_AnchorPolicy ev = AnchorsCapped then trailing ev ?uf else ?n)"
  have c0: "c0 \<le> ?n" by (simp add: c0_def trailing_def skipBack_le)
  obtain b as where r: "r = groupLoop sdk ev ?uf c0 b True \<lparr>rt_cut = c0, rt_anchors = as, rt_keptGroups = 0, rt_latestGroupTokens = 0\<rparr>"
    using retain_groupLoop [of sdk ev ?uf] unfolding assms(2) Let_def c0_def by blast
  define r0 where "r0 = \<lparr>rt_cut = c0, rt_anchors = as, rt_keptGroups = 0, rt_latestGroupTokens = 0\<rparr>"
  have z: "rt_cut r0 = c0" "rt_anchors r0 = as" by (simp_all add: r0_def)
  have p: "costOf sdk ev (otherAt ev ?uf (rt_anchors r0)) c0 (rt_cut r0) = 0" "c0 \<le> rt_cut r0"
    "\<forall>i. c0 \<le> i \<and> i < rt_cut r0 \<longrightarrow> \<not> otherAt ev ?uf (rt_anchors r0) i" by (auto simp: costOf_def z)
  note g = groupLoop_spec [OF p, of b True, folded r0_def, folded r [folded r0_def], unfolded z]
  have "i < rt_cut r" if i: "i < ?n" "isSummarySource (fe_Sources ev ! i)" for i
  proof (rule ccontr)
    assume "\<not> i < rt_cut r"
    have s: "\<not> so_Anchor (fe_Sources ev ! i)" "hasSource ev i" using summariesAlone_at(1) [OF assms(1) i] by simp_all
    have "\<not> ?uf i" using i(2) by (simp add: unfoldable_def)
    then have nf: "\<not> fixedAt ev ?uf i" using s by (simp add: fixedAt_def)
    have "c0 \<le> i"
    proof (rule ccontr)
      assume "\<not> c0 \<le> i"
      moreover have "otherAt ev ?uf as i" using nf s by (simp add: otherAt_def retentionKeeps_def)
      ultimately show False using g \<open>\<not> i < rt_cut r\<close> i(2) by (metis not_le)
    qed
    then show False using skipBack_rest [of "\<lambda>i. fixedAt ev ?uf i \<or> so_Anchor (fe_Sources ev ! i)" ?n i] nf s i(1)
      by (simp add: c0_def trailing_def split: if_splits)
  qed
  moreover have "rt_cut r \<le> ?n" using g c0 by simp
  ultimately show ?thesis by (simp add: summariesFold_def list_all_iff)
qed

end
