(* ===== verification/FoldRows.thy ===== *)
theory FoldRows
  imports FoldRetain
begin

text \<open>
  What a pass leaves in the history: no row is lost, and the request it leaves renders
  the checkpoint it committed.
\<close>

section \<open>The checkpoint of a pass\<close>

lemma foldPass_commit:
  assumes "foldPass sdk env rows ev = Inr (Some pass)"
  obtains p fd cp where "planFold sdk ev (unfoldable rows ev) = Inr p" "plan_folds p" "pe_Active env = Inr (fo_Parent fd)"
    "Commit (pe_spanRows env) (pe_create env) fd = Inr cp" "fo_SummaryID fd = ps_SummaryID pass" "fo_Summary fd = ps_Summary pass"
    "fo_Folded fd = fst (rows_of rows p)" "fo_Read fd = snd (rows_of rows p)"
proof -
  obtain p logID parent summary where p: "planFold sdk ev (unfoldable rows ev) = Inr p" "plan_folds p" "pe_Active env = Inr parent"
      "commitPass sdk env rows ev parent logID p summary = Inr pass"
    using assms by (auto simp: foldPass_def map_sum_Some split: sum.splits if_splits)
  define fd where "fd = \<lparr>fo_Parent = parent, fo_SummaryID = logID, fo_Summary = summary, fo_Folded = fst (rows_of rows p), fo_Read = snd (rows_of rows p)\<rparr>"
  have "\<exists>cp. Commit (pe_spanRows env) (pe_create env) fd = Inr cp" "ps_SummaryID pass = logID" "ps_Summary pass = summary"
    using p(4) by (auto simp: commitPass_def Let_def fd_def split: if_splits sum.splits prod.splits option.splits)
  with that [of p fd] p(1-3) show thesis by (auto simp: fd_def)
qed

lemma Commit_cases:
  assumes "Commit spanRows create fd = Inr cp"
  obtains found newID where "spanRows (ck_Position (fo_Parent fd)) (commit_through fd) (commit_ids fd) = Inr found"
    "cp = \<lparr>ck_ID = newID, ck_ParentID = ck_ID (fo_Parent fd), ck_Position = commit_through fd, ck_Items = commit_items fd found\<rparr>"
  using assms by (auto simp: Commit_def Let_def split: sum.splits)

lemma rowItem_ids:
  "map it_SummaryID (filter (\<lambda>item. it_SummaryID item \<noteq> '''') (map rowItem xs)) = []"
  "map it_RowID (filter (\<lambda>item. it_RowID item \<noteq> '''') (map rowItem xs)) = filter (\<lambda>r. r \<noteq> '''') xs"
  by (induction xs) (simp_all add: rowItem_def)

lemma commit_items_ids:
  "map it_SummaryID (filter (\<lambda>item. it_SummaryID item \<noteq> '''') (commit_items fd found)) = (if fo_SummaryID fd = '''' then [] else [fo_SummaryID fd])"
  "map it_RowID (filter (\<lambda>item. it_RowID item \<noteq> '''') (commit_items fd found)) =
     filter (\<lambda>r. r \<noteq> '''') (filter (\<lambda>r. r \<notin> set (map hr_ID (fo_Folded fd)) \<and> r \<in> set (fo_Read fd)) found @
       filter (\<lambda>r. r \<notin> set (map hr_ID (fo_Folded fd)) \<and> r \<notin> set (fo_Read fd)) found)"
  unfolding commit_items_def Let_def filter_append map_append rowItem_ids by simp_all

lemma commit_through_last:
  "row \<in> set (fo_Folded fd) \<Longrightarrow> \<not> HistoryPosition_Before (commit_through fd) (hr_Position row)"
  "\<not> HistoryPosition_Before (commit_through fd) (ck_Position (fo_Parent fd))"
proof -
  let ?step = "\<lambda>through row. if HistoryPosition_Before through (hr_Position row) then hr_Position row else through"
  have irr: "\<not> HistoryPosition_Before p p" for p by (simp add: HistoryPosition_Before_def)
  have total: "\<not> HistoryPosition_Before p q \<Longrightarrow> \<not> HistoryPosition_Before q r \<Longrightarrow> \<not> HistoryPosition_Before p r" for p q r
    by (auto simp: HistoryPosition_Before_def)
  have "\<not> HistoryPosition_Before (foldl ?step p xs) p \<and> (\<forall>row\<in>set xs. \<not> HistoryPosition_Before (foldl ?step p xs) (hr_Position row))" for p xs
  proof (induction xs arbitrary: p)
    case (Cons x xs)
    define q where "q = ?step p x"
    let ?last = "foldl ?step q xs"
    have q: "\<not> HistoryPosition_Before q p" "\<not> HistoryPosition_Before q (hr_Position x)"
      using irr by (auto simp: q_def HistoryPosition_Before_def)
    have "\<not> HistoryPosition_Before ?last q" "\<forall>row\<in>set xs. \<not> HistoryPosition_Before ?last (hr_Position row)" using Cons [of q] by blast+
    then have all: "\<not> HistoryPosition_Before ?last p \<and> (\<forall>row\<in>set (x # xs). \<not> HistoryPosition_Before ?last (hr_Position row))"
      using total [of ?last q] q unfolding set_simps by blast
    have eq: "foldl ?step p (x # xs) = ?last" by (simp add: q_def)
    show ?case unfolding eq by (rule all)
  qed (simp add: irr)
  then show "row \<in> set (fo_Folded fd) \<Longrightarrow> \<not> HistoryPosition_Before (commit_through fd) (hr_Position row)"
    "\<not> HistoryPosition_Before (commit_through fd) (ck_Position (fo_Parent fd))" by (auto simp: commit_through_def)
qed

section \<open>The rows of a plan\<close>

lemma distinctRows_set: "set (map hr_ID (distinctRows rows)) = set (map hr_ID rows)" "set (distinctRows rows) \<subseteq> set rows"
proof -
  let ?step = "\<lambda>out row. if hr_ID row \<in> set (map hr_ID out) then out else out @ [row]"
  have "set (map hr_ID (foldl ?step out rows)) = set (map hr_ID out) \<union> set (map hr_ID rows) \<and> set (foldl ?step out rows) \<subseteq> set out \<union> set rows" for out
  proof (induction rows arbitrary: out)
    case (Cons row rows)
    from Cons [of "?step out row"] show ?case by (cases "hr_ID row \<in> set (map hr_ID out)") auto
  qed simp
  from this [of "[]"] show "set (map hr_ID (distinctRows rows)) = set (map hr_ID rows)" "set (distinctRows rows) \<subseteq> set rows"
    by (simp_all add: distinctRows_def)
qed

lemma appendKey_set: "set (foldl appendKey xs ys) = set xs \<union> set ys"
  by (induction ys arbitrary: xs) (auto simp: appendKey_def)

text \<open>The sources of a message.\<close>

abbreviation sourcesAt :: "FoldEvent \<Rightarrow> nat \<Rightarrow> sourceId set" where
  "sourcesAt ev i \<equiv> sourceKey ` set (so_Sources (fe_Sources ev ! i))"

lemma spanPlan_sources:
  "set (fp_read (spanPlan ev kept n)) = (\<Union>i\<in>{i. i < n \<and> \<not> isSummarySource (fe_Sources ev ! i)}. sourcesAt ev i)"
  "set (fp_folded (spanPlan ev kept n)) = (\<Union>i\<in>{i. i < n \<and> \<not> isSummarySource (fe_Sources ev ! i) \<and> \<not> kept i}. sourcesAt ev i)"
proof -
  have "set (fp_read (foldl (spanStep ev kept) p is)) =
      set (fp_read p) \<union> (\<Union>i\<in>{i \<in> set is. \<not> isSummarySource (fe_Sources ev ! i)}. sourcesAt ev i) \<and>
    set (fp_folded (foldl (spanStep ev kept) p is)) =
      set (fp_folded p) \<union> (\<Union>i\<in>{i \<in> set is. \<not> isSummarySource (fe_Sources ev ! i) \<and> \<not> kept i}. sourcesAt ev i)" for p "is"
  proof (induction "is" arbitrary: p)
    case (Cons i "is")
    have "set (fp_read (spanStep ev kept p i)) = set (fp_read p) \<union> (if isSummarySource (fe_Sources ev ! i) then {} else sourcesAt ev i)"
      "set (fp_folded (spanStep ev kept p i)) =
         set (fp_folded p) \<union> (if isSummarySource (fe_Sources ev ! i) \<or> kept i then {} else sourcesAt ev i)"
      by (auto simp: spanStep_def Let_def appendKey_set isSummarySource_def)
    with Cons [of "spanStep ev kept p i"] show ?case by (auto split: if_splits)
  qed simp
  from this [of "emptyPlan\<lparr>fp_end := n, fp_cut := fe_cut ev\<rparr>" "[0..<n]"]
  show "set (fp_read (spanPlan ev kept n)) = (\<Union>i\<in>{i. i < n \<and> \<not> isSummarySource (fe_Sources ev ! i)}. sourcesAt ev i)"
    "set (fp_folded (spanPlan ev kept n)) = (\<Union>i\<in>{i. i < n \<and> \<not> isSummarySource (fe_Sources ev ! i) \<and> \<not> kept i}. sourcesAt ev i)"
    by (auto simp: spanPlan_def emptyPlan_def)
qed

text \<open>The rows a fold drops are rendered by messages the pass takes out of the request.\<close>

lemma order_without:
  assumes "plan_covers ev p i" "i < length (fe_Messages ev)"
  shows "Some i \<notin> set (fst (plan_order ev p))"
proof -
  obtain k where "fst (plan_order ev p) = map Some (filter (\<lambda>i. \<not> plan_covers ev p i) [0..<k]) @ None # map Some [k..<length (fe_Messages ev)]"
      "\<And>i. k \<le> i \<Longrightarrow> i < length (fe_Messages ev) \<Longrightarrow> \<not> plan_covers ev p i"
    using order_shape [of ev p] assms by metis
  then show ?thesis using assms by auto
qed

lemma planEnds_le: "n \<in> set (planEnds ev kept) \<Longrightarrow> n \<le> length (fe_Messages ev) \<and> n \<le> fe_cut ev"
  by (auto simp: planEnds_def foldBoundary_def split: if_splits)

lemma folded_rows:
  assumes "planFold sdk ev uf = Inr p" "plan_folds p" "row \<in> set (fst (rows_of rows p))"
  obtains i where "i < length (fe_Messages ev)" "plan_covers ev p i" "row \<in> (\<Union>key\<in>sourcesAt ev i. set (rows key))"
proof -
  obtain n read where n: "n \<in> set (planEnds ev (keptBefore ev uf))"
    and at': "planAt sdk ev (keptBefore ev uf) (fp_folded (spanPlan ev (keptBefore ev uf) (fe_cut ev)) = []) read n = (p, None)"
    using planFold_cases [OF assms(1,2)] by metis
  have "fp_folded p = fp_folded (spanPlan ev (keptBefore ev uf) n)" using plan_size_fields(4) [OF at' [unfolded planAt_def]] by simp
  moreover have "row \<in> (\<Union>key\<in>set (fp_folded p). set (rows key))" using assms(3) distinctRows_set(2) by (fastforce simp: rows_of_def)
  ultimately have "row \<in> (\<Union>key\<in>set (fp_folded (spanPlan ev (keptBefore ev uf) n)). set (rows key))" by simp
  then obtain i where i: "i < n" "\<not> isSummarySource (fe_Sources ev ! i)" "\<not> keptBefore ev uf i" "row \<in> (\<Union>key\<in>sourcesAt ev i. set (rows key))"
    unfolding spanPlan_sources by blast
  then have "hasSource ev i" by (auto simp: hasSource_def)
  with i planAt_covers [OF at', of i] planEnds_le [OF n] that [of i] show thesis by simp
qed

section \<open>No row is lost\<close>

text \<open>
  C18 (fold_loses_no_row): the checkpoint a pass commits names every row of its span, or a
  message the pass took out of the request rendered the row. It names no row the summary
  folds, and every folded row lies in the history it accounts for, which never shrinks.
\<close>

theorem fold_loses_no_row:
  assumes "foldPass sdk env rows ev = Inr (Some pass)"
  shows "\<exists>fd cp found. pe_Active env = Inr (fo_Parent fd) \<and> Commit (pe_spanRows env) (pe_create env) fd = Inr cp \<and>
    pe_spanRows env (ck_Position (fo_Parent fd)) (ck_Position cp) (commit_ids fd) = Inr found \<and>
    (\<forall>r\<in>set found. r = '''' \<or> r \<in> set (Checkpoint_RowIDs cp) \<or>
       (\<exists>i<length (fe_Messages ev). Some i \<notin> set (ps_Order pass) \<and> r \<in> hr_ID ` (\<Union>key\<in>sourcesAt ev i. set (rows key)))) \<and>
    set (Checkpoint_RowIDs cp) \<inter> hr_ID ` set (fo_Folded fd) = {} \<and>
    (\<forall>row\<in>set (fo_Folded fd). \<not> HistoryPosition_Before (ck_Position cp) (hr_Position row)) \<and>
    \<not> HistoryPosition_Before (ck_Position cp) (ck_Position (fo_Parent fd))"
proof -
  obtain p fd cp where p: "planFold sdk ev (unfoldable rows ev) = Inr p" "plan_folds p" "pe_Active env = Inr (fo_Parent fd)"
      "Commit (pe_spanRows env) (pe_create env) fd = Inr cp" "fo_Folded fd = fst (rows_of rows p)"
    by (rule foldPass_commit [OF assms])
  obtain found newID where found: "pe_spanRows env (ck_Position (fo_Parent fd)) (commit_through fd) (commit_ids fd) = Inr found"
      "cp = \<lparr>ck_ID = newID, ck_ParentID = ck_ID (fo_Parent fd), ck_Position = commit_through fd, ck_Items = commit_items fd found\<rparr>"
    using Commit_cases [OF p(4)] by blast
  have ids: "set (Checkpoint_RowIDs cp) = {r \<in> set found. r \<noteq> '''' \<and> r \<notin> hr_ID ` set (fo_Folded fd)}"
    unfolding Checkpoint_RowIDs_def found(2) by (auto simp: commit_items_ids)
  obtain q where q: "planFold sdk ev (unfoldable rows ev) = Inr q" "ps_Order pass = fst (plan_order ev q)"
    using foldPass_plan [OF assms] by metis
  have gone: "\<exists>i<length (fe_Messages ev). Some i \<notin> set (ps_Order pass) \<and> r \<in> hr_ID ` (\<Union>key\<in>sourcesAt ev i. set (rows key))"
    if r: "r \<in> hr_ID ` set (fo_Folded fd)" for r
  proof -
    obtain row where row: "row \<in> set (fst (rows_of rows p))" "r = hr_ID row" using r p(5) by auto
    obtain i where "i < length (fe_Messages ev)" "plan_covers ev p i" "row \<in> (\<Union>key\<in>sourcesAt ev i. set (rows key))"
      using folded_rows [OF p(1,2) row(1)] by blast
    with order_without [of ev p i] q p(1) row(2) show ?thesis by auto
  qed
  show ?thesis
  proof (intro exI [of _ fd] exI [of _ cp] exI [of _ found] conjI ballI)
    show "r = '''' \<or> r \<in> set (Checkpoint_RowIDs cp) \<or>
       (\<exists>i<length (fe_Messages ev). Some i \<notin> set (ps_Order pass) \<and> r \<in> hr_ID ` (\<Union>key\<in>sourcesAt ev i. set (rows key)))"
      if "r \<in> set found" for r using gone [of r] that unfolding ids by blast
    show "set (Checkpoint_RowIDs cp) \<inter> hr_ID ` set (fo_Folded fd) = {}" unfolding ids by blast
    show "\<not> HistoryPosition_Before (ck_Position cp) (hr_Position row)" if "row \<in> set (fo_Folded fd)" for row
      using commit_through_last(1) [OF that] found(2) by simp
    show "\<not> HistoryPosition_Before (ck_Position cp) (ck_Position (fo_Parent fd))" using commit_through_last(2) found(2) by simp
  qed (use p(3,4) found in simp_all)
qed

theorem fold_loses_no_row_witness:
  "\<exists>pass fd cp. foldPass demoSdk demoEnv (requestRows demoRows) demoEvent = Inr (Some pass) \<and>
    Commit (pe_spanRows demoEnv) (pe_create demoEnv) fd = Inr cp \<and> set (Checkpoint_RowIDs cp) \<inter> hr_ID ` set (fo_Folded fd) = {}"
proof -
  obtain pass where pass: "foldPass demoSdk demoEnv (requestRows demoRows) demoEvent = Inr (Some pass)"
    using demo_pass by (cases "foldPass demoSdk demoEnv (requestRows demoRows) demoEvent") (auto split: option.splits)
  with fold_loses_no_row [OF pass] show ?thesis by blast
qed

section \<open>The next request renders the checkpoint\<close>

lemma applyPass_fields [simp]:
  "length (fe_Messages (applyPass sdk ev pass)) = length (ps_Order pass)" "length (fe_Sources (applyPass sdk ev pass)) = length (ps_Order pass)"
  "fe_cut (applyPass sdk ev pass) = ps_cut pass"
  by (simp_all add: applyPass_def splice_def)

lemma applyPass_source:
  "k < length (ps_Order pass) \<Longrightarrow> fe_Sources (applyPass sdk ev pass) ! k =
     (case ps_Order pass ! k of
        None \<Rightarrow> \<lparr>so_Sources = [\<lparr>cs_Kind = ''summary'', cs_ID = ps_SummaryID pass, cs_Current = False\<rparr>], so_Anchor = False\<rparr>
      | Some i \<Rightarrow> fe_Sources ev ! i)"
  by (simp add: applyPass_def splice_def)

text \<open>Every summary the request rendered is replaced.\<close>

lemma summaries_covered:
  assumes "summariesAlone ev" "summariesFold ev" "planFold sdk ev uf = Inr p" "plan_folds p"
    "i < length (fe_Messages ev)" "isSummarySource (fe_Sources ev ! i)"
  shows "plan_covers ev p i"
proof -
  obtain n read where n: "n \<in> set (planEnds ev (keptBefore ev uf))"
    and at': "planAt sdk ev (keptBefore ev uf) (fp_folded (spanPlan ev (keptBefore ev uf) (fe_cut ev)) = []) read n = (p, None)"
    using planFold_cases [OF assms(3,4)] by metis
  have "i < fe_cut ev" using assms(2,5,6) by (simp add: summariesFold_def list_all_iff)
  then have "i < summariesEnd ev"
    using afterLast_rest [of i "\<lambda>i. isSummarySource (fe_Sources ev ! i)" "[0..<fe_cut ev]"] assms(6)
      set_drop_subset by (cases "summariesEnd ev \<le> i") (auto simp: summariesEnd_def drop_upt)
  moreover have "summariesEnd ev \<le> n" using n by (auto simp: planEnds_def)
  ultimately show ?thesis using planAt_covers [OF at', of i] assms(6) summariesAlone_at(1) [OF assms(1,5,6)] by simp
qed

text \<open>The cut of the request a pass leaves is after its summary.\<close>

lemma order_cut:
  assumes "planFold sdk ev uf = Inr p" "plan_folds p" "\<exists>j<length (fe_Messages ev). plan_covers ev p j"
  shows "snd (plan_order ev p) \<le> length (fst (plan_order ev p))"
    "k < length (fst (plan_order ev p)) \<Longrightarrow> fst (plan_order ev p) ! k = None \<Longrightarrow> k < snd (plan_order ev p)"
proof -
  obtain n read where n: "n \<in> set (planEnds ev (keptBefore ev uf))"
    and at': "planAt sdk ev (keptBefore ev uf) (fp_folded (spanPlan ev (keptBefore ev uf) (fe_cut ev)) = []) read n = (p, None)"
    using planFold_cases [OF assms(1,2)] by metis
  obtain m where m: "fst (plan_order ev p) = map Some (filter (\<lambda>i. \<not> plan_covers ev p i) [0..<m]) @ None # map Some [m..<length (fe_Messages ev)]"
      "0 < m" "plan_covers ev p (m - 1)" using order_shape [OF assms(3)] by metis
  have m_le: "m \<le> fe_cut ev" using m(2,3) planAt_covers [OF at', of "m - 1"] planEnds_le [OF n] by auto
  let ?order = "fst (plan_order ev p)" and ?l = "length (filter (\<lambda>i. \<not> plan_covers ev p i) [0..<m])"
  define found where "found = List.find (\<lambda>k. ?order ! k = Some (fe_cut ev)) [0..<length ?order]"
  have cut: "snd (plan_order ev p) = (case found of None \<Rightarrow> length ?order | Some k \<Rightarrow> k)"
    by (simp add: plan_order_def Let_def found_def cong: option.case_cong)
  have hit: "k < length ?order \<and> ?order ! k = Some (fe_cut ev)" if "found = Some k" for k
    using that unfolding found_def find_Some_iff by auto
  show "snd (plan_order ev p) \<le> length ?order" using cut hit by (auto split: option.split)
  show "k < snd (plan_order ev p)" if k: "k < length ?order" "?order ! k = None"
  proof -
    have "k = ?l" using k unfolding m(1) by (auto simp: nth_append nth_Cons split: if_splits nat.splits)
    have "\<not> c \<le> ?l" if "found = Some c" for c
    proof
      assume "c \<le> ?l"
      then have "?order ! c \<in> set (map Some (filter (\<lambda>i. \<not> plan_covers ev p i) [0..<m]) @ [None])" unfolding m(1)
        using nth_mem [of c "filter (\<lambda>i. \<not> plan_covers ev p i) [0..<m]"] by (cases "c < ?l") (auto simp: nth_append)
      then show False using hit [OF that] m_le by auto
    qed
    then show ?thesis using cut k \<open>k = ?l\<close> by (auto split: option.split)
  qed
qed

text \<open>
  C19 (fold_recomposes): the request a pass leaves renders exactly the summaries of the
  checkpoint it committed, so the next pass does not find it stale. Nothing the pass kept
  renders a summary, and the new one is again in what a later pass folds.
\<close>

theorem fold_recomposes:
  assumes "foldPass sdk env rows ev = Inr (Some pass)" "summariesAlone ev" "summariesFold ev" "ps_SummaryID pass \<noteq> ''''"
  shows "\<exists>fd cp. pe_Active env = Inr (fo_Parent fd) \<and> Commit (pe_spanRows env) (pe_create env) fd = Inr cp \<and>
    rendersCheckpoint (applyPass sdk ev pass) cp \<and> summariesAlone (applyPass sdk ev pass) \<and> summariesFold (applyPass sdk ev pass)"
proof -
  obtain p fd cp where p: "planFold sdk ev (unfoldable rows ev) = Inr p" "plan_folds p" "pe_Active env = Inr (fo_Parent fd)"
      "Commit (pe_spanRows env) (pe_create env) fd = Inr cp" "fo_SummaryID fd = ps_SummaryID pass"
    by (rule foldPass_commit [OF assms(1)])
  obtain q where q: "planFold sdk ev (unfoldable rows ev) = Inr q" "summaryReplayTokens sdk (ps_Summary pass) < fp_replaced q"
      "fp_replaced q = sum_list (map (messageTokens sdk) (messagesAt ev [0..<length (fe_Messages ev)] (plan_covers ev q)))"
      "ps_Order pass = fst (plan_order ev q)"
    using foldPass_plan [OF assms(1)] planAt_priced(1) by metis
  have "q = p" using q(1) p(1) by simp
  have "0 < fp_replaced q" using q(2) replay_nonneg [of sdk "ps_Summary pass"] by linarith
  then have c: "\<exists>j<length (fe_Messages ev). plan_covers ev p j" using replaced_covers [OF q(3)] \<open>q = p\<close> by blast
  obtain k where k: "k \<le> length (fe_Messages ev)"
      "ps_Order pass = map Some (filter (\<lambda>i. \<not> plan_covers ev p i) [0..<k]) @ None # map Some [k..<length (fe_Messages ev)]"
      "\<And>i. k \<le> i \<Longrightarrow> i < length (fe_Messages ev) \<Longrightarrow> \<not> plan_covers ev p i"
    using order_shape [OF c] q(4) \<open>q = p\<close> by metis
  let ?new = "\<lparr>so_Sources = [\<lparr>cs_Kind = ''summary'', cs_ID = ps_SummaryID pass, cs_Current = False\<rparr>], so_Anchor = False\<rparr>"
  let ?ev = "applyPass sdk ev pass"
  have old: "\<not> plan_covers ev p i \<and> i < length (fe_Messages ev)" if "Some i \<in> set (ps_Order pass)" for i using that k by auto
  have plain: "\<forall>s\<in>set (so_Sources (fe_Sources ev ! i)). cs_Kind s \<noteq> ''summary''" if "Some i \<in> set (ps_Order pass)" for i
    using summariesAlone_at(2) [OF assms(2)] summaries_covered [OF assms(2,3) p(1,2)] old [OF that] by blast
  have srcs: "fe_Sources ?ev = map (\<lambda>x. case x of None \<Rightarrow> ?new | Some i \<Rightarrow> fe_Sources ev ! i) (ps_Order pass)"
    by (simp add: applyPass_def splice_def)
  have "set (renderedSummaries ?ev) = {ps_SummaryID pass}"
  proof
    show "set (renderedSummaries ?ev) \<subseteq> {ps_SummaryID pass}"
      using plain by (auto simp: renderedSummaries_def srcs split: option.splits)
    have "None \<in> set (ps_Order pass)" by (simp add: k(2))
    then have "?new \<in> set (fe_Sources ?ev)" unfolding srcs by force
    then show "{ps_SummaryID pass} \<subseteq> set (renderedSummaries ?ev)" by (force simp: renderedSummaries_def)
  qed
  then have one: "length (remdups (renderedSummaries ?ev)) = 1" by (simp add: length_remdups_card_conv)
  obtain found newID where "cp = \<lparr>ck_ID = newID, ck_ParentID = ck_ID (fo_Parent fd), ck_Position = commit_through fd, ck_Items = commit_items fd found\<rparr>"
    using Commit_cases [OF p(4)] by blast
  then have "Checkpoint_SummaryIDs cp = [ps_SummaryID pass]"
    unfolding Checkpoint_SummaryIDs_def using assms(4) p(5) by (simp add: commit_items_ids)
  then have r: "rendersCheckpoint ?ev cp"
    using one \<open>set (renderedSummaries ?ev) = {ps_SummaryID pass}\<close> by (simp add: rendersCheckpoint_def)
  have "summariesAlone ?ev"
    unfolding summariesAlone_def srcs using plain by (auto simp: list_all_iff list_ex_iff split: option.splits)
  moreover have "summariesFold ?ev"
  proof -
    have cut: "ps_cut pass = snd (plan_order ev p)" using foldPass_plan [OF assms(1)] p(1) by (metis sum.inject(2))
    note oc = order_cut [OF p(1,2) c]
    have "k < ps_cut pass" if k': "k < length (ps_Order pass)" "isSummarySource (fe_Sources ?ev ! k)" for k
    proof (cases "ps_Order pass ! k")
      case None
      then show ?thesis using oc(2) k'(1) q(4) \<open>q = p\<close> cut by simp
    next
      case (Some i)
      then have "Some i \<in> set (ps_Order pass)" using k'(1) by (metis nth_mem)
      moreover have "isSummarySource (fe_Sources ev ! i)" using k' Some applyPass_source [OF k'(1)] by simp
      ultimately show ?thesis using plain by (auto simp: isSummarySource_def split: list.splits)
    qed
    then show ?thesis using oc(1) q(4) \<open>q = p\<close> cut by (simp add: summariesFold_def list_all_iff)
  qed
  ultimately show ?thesis using p(3,4) r by blast
qed

theorem fold_recomposes_witness:
  "\<exists>pass cp. foldPass demoSdk demoEnv (requestRows demoRows) demoEvent = Inr (Some pass) \<and> rendersCheckpoint (applyPass demoSdk demoEvent pass) cp"
proof -
  have "map_sum id (map_option ps_SummaryID) (foldPass demoSdk demoEnv (requestRows demoRows) demoEvent) = Inr (Some ''log'')"
    by code_simp
  then obtain pass where pass: "foldPass demoSdk demoEnv (requestRows demoRows) demoEvent = Inr (Some pass)" "ps_SummaryID pass \<noteq> ''''"
    by (cases "foldPass demoSdk demoEnv (requestRows demoRows) demoEvent") auto
  have "summariesAlone demoEvent" "summariesFold demoEvent" by code_simp+
  from fold_recomposes [OF pass(1) this pass(2)] pass(1) show ?thesis by blast
qed

end
