(* ===== verification/FoldBudget.thy ===== *)
theory FoldBudget
  imports FoldProps
begin

text \<open>
  The length a compaction event asks a summary for: \<open>summaryOutputLimit\<close> searches the
  longest one whose rendering stays within a budget.
\<close>

section \<open>The search\<close>

lemma space_x: "spaceLen (CHR ''x'' # s) = 0" "spaceLenRev (CHR ''x'' # s) = 0"
  by (auto simp: asciiSpace_def space2_def space3_def split: list.split)

lemma TrimSpace_x: "TrimSpace (replicate n (CHR ''x'')) = replicate n (CHR ''x'')"
proof (cases n)
  case (Suc m)
  then show ?thesis
    by (intro TrimSpace_id) (simp_all only: rev_replicate, simp_all only: replicate_Suc space_x)
qed simp

lemma summaryReplay_length:
  assumes "\<forall>t. \<exists>r. ms_Content (sdk_UserMessage sdk t) = [TextPart t r]"
  shows "summaryReplayTokens sdk s = ProviderBudgetTokensFromBytes (int (length (SummaryText '''') + length (TrimSpace s)))"
proof -
  obtain r where "ms_Content (sdk_UserMessage sdk (SummaryText s)) = [TextPart (SummaryText s) r]" using assms by blast
  then show ?thesis
    by (simp add: summaryReplayTokens_def ProviderEnvelopeTokens_def SummaryMessage_def messageTokens_def sdkMessageEstimate_def
        SummaryText_def ProviderBudgetTokensFromBytes_def [of 0])
qed

definition xFits :: "Sdk \<Rightarrow> int \<Rightarrow> int \<Rightarrow> bool" where
  "xFits sdk budget m \<longleftrightarrow> summaryReplayTokens sdk (replicate (nat ((m + 1) * EstimateBytesPerToken)) (CHR ''x'')) \<le> budget"

lemma xFits_mono:
  assumes "\<forall>t. \<exists>r. ms_Content (sdk_UserMessage sdk t) = [TextPart t r]" "xFits sdk budget m" "k \<le> m"
  shows "xFits sdk budget k"
proof -
  have "nat ((k + 1) * EstimateBytesPerToken) \<le> nat ((m + 1) * EstimateBytesPerToken)"
    using assms(3) by (intro nat_mono) (simp add: EstimateBytesPerToken_def)
  then have "ProviderBudgetTokensFromBytes (int (length (SummaryText '''') + nat ((k + 1) * EstimateBytesPerToken)))
      \<le> ProviderBudgetTokensFromBytes (int (length (SummaryText '''') + nat ((m + 1) * EstimateBytesPerToken)))"
    by (intro ProviderBudgetTokensFromBytes_mono) (simp only: of_nat_le_iff add_le_cancel_left)
  then show ?thesis using assms(2) by (simp add: xFits_def summaryReplay_length [OF assms(1)] TrimSpace_x)
qed

lemma summaryLimitLoop_spec:
  assumes "\<forall>t. \<exists>r. ms_Content (sdk_UserMessage sdk t) = [TextPart t r]" "0 \<le> low" "low = 0 \<or> low \<le> high"
    "0 < low \<Longrightarrow> xFits sdk budget low"
  shows "0 \<le> summaryLimitLoop sdk budget low high \<and>
    (0 < summaryLimitLoop sdk budget low high \<longrightarrow>
       summaryLimitLoop sdk budget low high \<le> high \<and> xFits sdk budget (summaryLimitLoop sdk budget low high)) \<and>
    (\<forall>k. summaryLimitLoop sdk budget low high < k \<and> k \<le> high \<longrightarrow> \<not> xFits sdk budget k)"
  using assms
proof (induction sdk budget low high rule: summaryLimitLoop.induct)
  case (1 sdk budget low high)
  show ?case
  proof (cases "low < high")
    case False
    then show ?thesis using 1(4-6) by (auto simp: summaryLimitLoop.simps)
  next
    case True
    define mid where "mid = (low + high + 1) div 2"
    have mid: "low < mid" "mid \<le> high" using True by (auto simp: mid_def)
    show ?thesis
    proof (cases "xFits sdk budget mid")
      case True
      then have s: "summaryLimitLoop sdk budget low high = summaryLimitLoop sdk budget mid high"
        using \<open>low < high\<close> by (subst summaryLimitLoop.simps) (simp add: xFits_def Let_def mid_def)
      have "0 < mid" using mid 1(4) by simp
      with 1(1) [OF _ mid_def] True mid 1(3) \<open>low < high\<close> show ?thesis unfolding s by (simp add: xFits_def)
    next
      case False
      then have s: "summaryLimitLoop sdk budget low high = summaryLimitLoop sdk budget low (mid - 1)"
        using \<open>low < high\<close> by (subst summaryLimitLoop.simps) (simp add: xFits_def Let_def mid_def)
      have over: "\<not> xFits sdk budget k" if "mid - 1 < k" for k
      proof
        assume "xFits sdk budget k"
        moreover have "mid \<le> k" using that by simp
        ultimately show False using xFits_mono [OF 1(3)] False by blast
      qed
      have m': "low \<le> mid - 1" "mid - 1 \<le> high" using mid by simp_all
      let ?r = "summaryLimitLoop sdk budget low (mid - 1)"
      have r: "0 \<le> ?r" "0 < ?r \<Longrightarrow> ?r \<le> mid - 1 \<and> xFits sdk budget ?r" "\<And>k. ?r < k \<Longrightarrow> k \<le> mid - 1 \<Longrightarrow> \<not> xFits sdk budget k"
        using 1(2) [OF _ mid_def] False m'(1) 1(3,4,6) \<open>low < high\<close> by (simp_all add: xFits_def)
      have "\<not> xFits sdk budget k" if "?r < k" for k using r(3) [OF that] over by force
      then show ?thesis unfolding s using r(1,2) m'(2) by force
    qed
  qed
qed

text \<open>
  C22 (summary_limit): the length the instruction asks for is the best there is. A summary
  within it, with a token to spare, takes no more than the budget when a request renders
  it, and every longer limit within the model's would let a summary overrun the budget.
\<close>

theorem summary_limit:
  assumes "\<forall>t. \<exists>r. ms_Content (sdk_UserMessage sdk t) = [TextPart t r]"
  shows "0 \<le> summaryOutputLimit sdk budget cap \<and>
    (0 < summaryOutputLimit sdk budget cap \<longrightarrow> summaryOutputLimit sdk budget cap \<le> cap \<and>
       (\<forall>summary. int (length (TrimSpace summary)) \<le> (summaryOutputLimit sdk budget cap + 1) * EstimateBytesPerToken \<longrightarrow>
          summaryReplayTokens sdk summary \<le> budget)) \<and>
    (\<forall>k. summaryOutputLimit sdk budget cap < k \<and> k \<le> min cap budget \<longrightarrow>
       (\<exists>summary. int (length (TrimSpace summary)) \<le> (k + 1) * EstimateBytesPerToken \<and> budget < summaryReplayTokens sdk summary))"
proof -
  let ?m = "summaryOutputLimit sdk budget cap"
  have m: "0 \<le> ?m" "0 < ?m \<Longrightarrow> ?m \<le> min cap budget \<and> xFits sdk budget ?m"
    "\<And>k. ?m < k \<Longrightarrow> k \<le> min cap budget \<Longrightarrow> \<not> xFits sdk budget k"
    using summaryLimitLoop_spec [OF assms, of 0 "min cap budget" budget] by (auto simp: summaryOutputLimit_def)
  have "summaryReplayTokens sdk summary \<le> budget"
    if "0 < ?m" "int (length (TrimSpace summary)) \<le> (?m + 1) * EstimateBytesPerToken" for summary
  proof -
    have "length (TrimSpace summary) \<le> nat ((?m + 1) * EstimateBytesPerToken)"
      using that(2) by (subst le_nat_iff) (simp_all add: EstimateBytesPerToken_def)
    then have "ProviderBudgetTokensFromBytes (int (length (SummaryText '''') + length (TrimSpace summary)))
        \<le> ProviderBudgetTokensFromBytes (int (length (SummaryText '''') + nat ((?m + 1) * EstimateBytesPerToken)))"
      by (intro ProviderBudgetTokensFromBytes_mono) (simp only: of_nat_le_iff add_le_cancel_left)
    then show ?thesis using m(2) that(1) by (simp add: xFits_def summaryReplay_length [OF assms] TrimSpace_x)
  qed
  moreover have "\<exists>summary. int (length (TrimSpace summary)) \<le> (k + 1) * EstimateBytesPerToken \<and> budget < summaryReplayTokens sdk summary"
    if "?m < k" "k \<le> min cap budget" for k
    using m(1) m(3) [OF that] that(1)
    by (intro exI [of _ "replicate (nat ((k + 1) * EstimateBytesPerToken)) (CHR ''x'')"])
      (simp add: xFits_def TrimSpace_x EstimateBytesPerToken_def)
  ultimately show ?thesis using m(1,2) by auto
qed

theorem summary_limit_witness:
  "summaryOutputLimit demoSdk 150 40 = 40 \<and> summaryReplayTokens demoSdk (replicate 164 (CHR ''x'')) \<le> 150"
proof -
  have h: "\<forall>t. \<exists>r. ms_Content (sdk_UserMessage demoSdk t) = [TextPart t r]" by (simp add: demoSdk_def)
  have v: "summaryOutputLimit demoSdk 150 40 = 40" by code_simp
  have "int (length (TrimSpace (replicate 164 (CHR ''x'')))) \<le> (40 + 1) * EstimateBytesPerToken"
    unfolding TrimSpace_x by (simp add: EstimateBytesPerToken_def)
  then show ?thesis using summary_limit [OF h, of 150 40] unfolding v by simp
qed

end
