(* ===== verification/Reasoning.thy ===== *)
theory Reasoning
  imports GoPrelude "HOL-Library.Product_Lexorder"
begin

text \<open>
  The reasoning-effort decisions of \<^verbatim>\<open>internal/reasoning\<close>: the vocabulary of
  efforts, the thinking mode of a model, what a user may select for it
  (\<open>OptionsFor\<close>), what a stored choice becomes when the model changes
  (\<open>ReconcileStored\<close>) and what a call sends upstream (\<open>ResolveConfig\<close>). Strings are
  byte strings; the version pattern of Claude model IDs is a direct matcher.
\<close>

section \<open>Vocabulary\<close>

definition EffortMinimal :: string where "EffortMinimal = ''minimal''"
definition EffortLow :: string where "EffortLow = ''low''"
definition EffortMedium :: string where "EffortMedium = ''medium''"
definition EffortHigh :: string where "EffortHigh = ''high''"
definition EffortXHigh :: string where "EffortXHigh = ''xhigh''"
definition EffortMax :: string where "EffortMax = ''max''"
definition EffortDisable :: string where "EffortDisable = ''disable''"
definition EffortEnabled :: string where "EffortEnabled = ''enabled''"
definition EffortNone :: string where "EffortNone = ''none''"

lemmas effort_defs = EffortMinimal_def EffortLow_def EffortMedium_def EffortHigh_def EffortXHigh_def
  EffortMax_def EffortDisable_def EffortEnabled_def EffortNone_def

definition orderedEfforts :: "string list" where
  "orderedEfforts = [EffortMinimal, EffortLow, EffortMedium, EffortHigh, EffortXHigh, EffortMax]"

definition declarableEfforts :: "string list" where
  "declarableEfforts = [EffortDisable, EffortEnabled, EffortMinimal, EffortLow, EffortMedium, EffortHigh, EffortXHigh, EffortMax]"

definition IsDisabled :: "string \<Rightarrow> bool" where
  "IsDisabled effort \<longleftrightarrow> TrimSpace effort = EffortDisable \<or> TrimSpace effort = EffortNone"

definition IsDeclarable :: "string \<Rightarrow> bool" where
  "IsDeclarable effort \<longleftrightarrow> effort \<in> set declarableEfforts"

text \<open>\<open>if !slices.Contains(out, e) { out = append(out, e) }\<close>\<close>

definition appendNew :: "string \<Rightarrow> string list \<Rightarrow> string list" where
  "appendNew e out = (if e \<in> set out then out else out @ [e])"

definition NormalizeAdvertised :: "string list \<Rightarrow> string list" where
  "NormalizeAdvertised efforts =
     (if efforts = [] then efforts
      else fold (\<lambda>effort. appendNew (if TrimSpace effort = EffortNone then EffortDisable else effort)) efforts [])"

text \<open>\<open>slices.Index\<close>\<close>

fun slicesIndex :: "string list \<Rightarrow> string \<Rightarrow> int" where
  "slicesIndex [] e = - 1"
| "slicesIndex (x # xs) e =
     (if x = e then 0 else (let i = slicesIndex xs e in if i < 0 then - 1 else i + 1))"

definition nearestStep :: "string \<Rightarrow> string \<times> int \<times> int \<Rightarrow> string \<times> int \<times> int" where
  "nearestStep level st =
     (case st of (best, bestIdx, bestDistance) \<Rightarrow>
        (let idx = slicesIndex orderedEfforts level in
         if idx < 0 then st
         else
           (let distance = \<bar>idx - slicesIndex orderedEfforts EffortMedium\<bar> in
            if best = '''' \<or> distance < bestDistance \<or> (distance = bestDistance \<and> idx < bestIdx)
            then (level, idx, distance) else st)))"

definition NearestToMedium :: "string list \<Rightarrow> string" where
  "NearestToMedium levels = fst (fold nearestStep levels ('''', 0, 0))"

abbreviation hasEffort :: "string list \<Rightarrow> string \<Rightarrow> bool" where
  "hasEffort levels effort \<equiv> effort \<in> set levels"

definition OffSupportUnset :: string where "OffSupportUnset = ''''"
definition OffSupportAccepted :: string where "OffSupportAccepted = ''accepted''"
definition OffSupportLowEffortOnly :: string where "OffSupportLowEffortOnly = ''low_effort_only''"
definition OffSupportRejected :: string where "OffSupportRejected = ''rejected''"

definition IsValidOffSupport :: "string \<Rightarrow> bool" where
  "IsValidOffSupport support \<longleftrightarrow>
     support \<in> {OffSupportUnset, OffSupportAccepted, OffSupportLowEffortOnly, OffSupportRejected}"

definition IsValidDialect :: "string \<Rightarrow> bool" where
  "IsValidDialect dialect \<longleftrightarrow> dialect = '''' \<or> dialect \<in> {''tier'', ''toggle'', ''budget'', ''adaptive''}"

text \<open>A nil pointer is \<open>None\<close>.\<close>

definition DefaultOn :: "bool option \<Rightarrow> bool" where
  "DefaultOn defaultOn = (case defaultOn of None \<Rightarrow> False | Some on \<Rightarrow> on)"

definition effortExceedsHigh :: "string \<Rightarrow> bool" where
  "effortExceedsHigh effort \<longleftrightarrow> TrimSpace effort = EffortXHigh \<or> TrimSpace effort = EffortMax"

section \<open>Modes\<close>

definition ModeAdaptive :: string where "ModeAdaptive = ''adaptive''"
definition ModeToggle :: string where "ModeToggle = ''toggle''"
definition ModeAlways :: string where "ModeAlways = ''always''"
definition ModeNone :: string where "ModeNone = ''none''"

lemmas mode_defs = ModeAdaptive_def ModeToggle_def ModeAlways_def ModeNone_def

definition IsValidMode :: "string \<Rightarrow> bool" where
  "IsValidMode mode \<longleftrightarrow> mode \<in> {ModeAdaptive, ModeToggle, ModeAlways, ModeNone}"

text \<open>
  The pattern \<^verbatim>\<open>claude-(?:[a-z]+-)?(\d+)(?:[.-](\d{1,2}))?(?:[.:@-]|$)\<close>. A run of
  letters or digits is followed by a character outside its class, so the greedy
  choice is the only one that can succeed, except for the one or two digits of the
  minor version, which are tried in that order. \<open>Some (major, minor)\<close> are the two
  groups, \<open>minor\<close> empty when its group did not take part.
\<close>

definition isDigit :: "char \<Rightarrow> bool" where
  "isDigit c \<longleftrightarrow> 48 \<le> (of_char c :: nat) \<and> (of_char c :: nat) \<le> 57"

definition isLower :: "char \<Rightarrow> bool" where
  "isLower c \<longleftrightarrow> 97 \<le> (of_char c :: nat) \<and> (of_char c :: nat) \<le> 122"

definition patternEnd :: "string \<Rightarrow> bool" where
  "patternEnd s = (case s of [] \<Rightarrow> True | c # _ \<Rightarrow> c \<in> {CHR ''.'', CHR '':'', CHR ''@'', CHR ''-''})"

definition minorAt :: "string \<Rightarrow> string option" where
  "minorAt s =
     (case s of
        [] \<Rightarrow> None
      | c # t \<Rightarrow>
          (if c \<noteq> CHR ''.'' \<and> c \<noteq> CHR ''-'' then None
           else if 2 \<le> length (takeWhile isDigit t) \<and> patternEnd (drop 2 t) then Some (take 2 t)
           else if 1 \<le> length (takeWhile isDigit t) \<and> patternEnd (drop 1 t) then Some (take 1 t)
           else None))"

definition versionAt :: "string \<Rightarrow> (string \<times> string) option" where
  "versionAt s =
     (let major = takeWhile isDigit s; rest = dropWhile isDigit s in
      if major = '''' then None
      else
        (case minorAt rest of
           Some minor \<Rightarrow> Some (major, minor)
         | None \<Rightarrow> if patternEnd rest then Some (major, '''') else None))"

definition claudeMatchAt :: "string \<Rightarrow> (string \<times> string) option" where
  "claudeMatchAt s =
     (if \<not> HasPrefix s ''claude-'' then None
      else
        (let t = drop 7 s; family = takeWhile isLower t; rest = dropWhile isLower t in
         if family \<noteq> '''' \<and> HasPrefix rest ''-'' then versionAt (drop 1 rest) else versionAt t))"

fun claudeVersion :: "string \<Rightarrow> (string \<times> string) option" where
  "claudeVersion [] = None"
| "claudeVersion (c # s) = (case claudeMatchAt (c # s) of Some m \<Rightarrow> Some m | None \<Rightarrow> claudeVersion s)"

fun containsStr :: "string \<Rightarrow> string \<Rightarrow> bool" where
  "containsStr [] p = (p = [])"
| "containsStr (c # s) p = (HasPrefix (c # s) p \<or> containsStr s p)"

text \<open>\<open>strconv.Atoi\<close> on a string of decimal digits: an error beyond the range of a 64-bit \<open>int\<close>.\<close>

definition digitsValue :: "string \<Rightarrow> int" where
  "digitsValue s = foldl (\<lambda>n c. 10 * n + (int (of_char c) - 48)) 0 s"

definition AtoiDigits :: "string \<Rightarrow> int option" where
  "AtoiDigits s = (if digitsValue s < 2 ^ 63 then Some (digitsValue s) else None)"

definition claudeReadsAdaptive :: "string \<Rightarrow> bool" where
  "claudeReadsAdaptive modelID =
     (let ident = ToLower (TrimSpace modelID) in
      if \<not> containsStr ident ''claude'' then False
      else
        (case claudeVersion ident of
           None \<Rightarrow> True
         | Some (majorDigits, minorDigits) \<Rightarrow>
             (case AtoiDigits majorDigits of
                None \<Rightarrow> True
              | Some major \<Rightarrow>
                  (let minor = (if minorDigits \<noteq> '''' then (case AtoiDigits minorDigits of None \<Rightarrow> 0 | Some m \<Rightarrow> m) else 0)
                   in 5 \<le> major \<or> (major = 4 \<and> 6 \<le> minor)))))"

definition ResolveMode :: "string \<Rightarrow> bool \<Rightarrow> string \<Rightarrow> string" where
  "ResolveMode declared hasReasoningCompat modelID =
     (if declared \<in> {ModeToggle, ModeAdaptive, ModeAlways, ModeNone} then declared
      else if \<not> hasReasoningCompat then ModeNone
      else if claudeReadsAdaptive modelID then ModeAdaptive
      else ModeToggle)"

definition Supported :: "string \<Rightarrow> bool" where
  "Supported mode \<longleftrightarrow> mode \<noteq> ModeNone \<and> mode \<noteq> ''''"

section \<open>Options\<close>

record Options =
  op_Supported :: bool
  op_CanDisable :: bool
  op_Efforts :: "string list"
  op_DefaultEffort :: string
  op_EffortsWithoutOff :: "string list"
  op_DefaultOff :: bool

definition zeroOptions :: Options where
  "zeroOptions = \<lparr>op_Supported = False, op_CanDisable = False, op_Efforts = [], op_DefaultEffort = '''',
     op_EffortsWithoutOff = [], op_DefaultOff = False\<rparr>"

definition DefaultSelection :: "Options \<Rightarrow> string" where
  "DefaultSelection opts = (if op_DefaultOff opts \<and> op_CanDisable opts then EffortDisable else op_DefaultEffort opts)"

definition ClientTypeAnthropicMessages :: string where
  "ClientTypeAnthropicMessages = ''anthropic-messages''"

definition OffByOmission :: "string \<Rightarrow> bool" where
  "OffByOmission clientType \<longleftrightarrow> clientType = ClientTypeAnthropicMessages"

definition pickEffort :: "string \<Rightarrow> string \<Rightarrow> string list \<Rightarrow> string" where
  "pickEffort requested stored levels =
     (if TrimSpace requested \<noteq> '''' \<and> TrimSpace requested \<noteq> EffortDisable \<and> hasEffort levels (TrimSpace requested)
      then TrimSpace requested
      else if TrimSpace stored \<noteq> '''' \<and> \<not> IsDisabled (TrimSpace stored) \<and> hasEffort levels (TrimSpace stored)
      then TrimSpace stored
      else if hasEffort levels EffortEnabled then EffortEnabled
      else if hasEffort levels EffortMedium then EffortMedium
      else if NearestToMedium levels \<noteq> '''' then NearestToMedium levels
      else EffortMedium)"

definition effectiveEfforts :: "string list \<Rightarrow> string list" where
  "effectiveEfforts advertised =
     (let levels = (if advertised = [] then [EffortLow, EffortMedium, EffortHigh] else advertised)
      in fold appendNew levels [])"

definition offEffortFor :: "string list \<Rightarrow> string" where
  "offEffortFor levels = (if hasEffort levels EffortDisable then EffortNone else '''')"

definition canDisable :: "string \<Rightarrow> string list \<Rightarrow> string \<Rightarrow> string \<Rightarrow> bool" where
  "canDisable mode levels clientType offSupport =
     (if mode = ModeAlways then False
      else if offSupport = OffSupportAccepted \<or> offSupport = OffSupportLowEffortOnly then True
      else if offSupport = OffSupportRejected then False
      else if hasEffort levels EffortDisable then True
      else mode = ModeToggle \<and> OffByOmission clientType)"

definition OptionsFor :: "string \<Rightarrow> string list \<Rightarrow> string \<Rightarrow> string \<Rightarrow> Options" where
  "OptionsFor mode advertised clientType offSupport =
     (if \<not> Supported mode then zeroOptions
      else if mode = ModeAlways then zeroOptions\<lparr>op_Supported := True\<rparr>
      else
        (let levels = effectiveEfforts advertised;
             tiers = filter (\<lambda>e. e \<noteq> EffortDisable) levels;
             conflicting = (if offSupport = OffSupportLowEffortOnly then filter effortExceedsHigh tiers else []);
             defaultEffort = (if tiers \<noteq> [] then pickEffort '''' '''' levels else '''')
         in \<lparr>op_Supported = True, op_CanDisable = canDisable mode levels clientType offSupport, op_Efforts = tiers,
             op_DefaultEffort = defaultEffort, op_EffortsWithoutOff = conflicting, op_DefaultOff = False\<rparr>))"

definition ReconcileStored :: "string \<Rightarrow> Options \<Rightarrow> string" where
  "ReconcileStored stored opts =
     (if \<not> op_Supported opts then ''''
      else if \<not> op_CanDisable opts \<and> op_Efforts opts = [] then
        (if IsDisabled stored then EffortDisable else TrimSpace stored)
      else if IsDisabled stored then (if op_CanDisable opts then EffortDisable else op_DefaultEffort opts)
      else if hasEffort (op_Efforts opts) stored then stored
      else DefaultSelection opts)"

definition NormalizeSelection :: "string \<Rightarrow> Options \<Rightarrow> string option" where
  "NormalizeSelection selection0 opts =
     (let selection = ToLower (TrimSpace selection0) in
      if \<not> op_Supported opts \<or> selection = '''' then None
      else if selection = ''off'' \<or> IsDisabled selection then
        (if op_CanDisable opts then Some EffortDisable else None)
      else if hasEffort (op_Efforts opts) selection then Some selection
      else None)"

section \<open>What a call sends\<close>

record Config =
  cf_Active :: bool
  cf_Disabled :: bool
  cf_Adaptive :: bool
  cf_Effort :: string
  cf_OffEffort :: string

definition ResolveConfig :: "string \<Rightarrow> string list \<Rightarrow> Options \<Rightarrow> string \<Rightarrow> string \<Rightarrow> Config option" where
  "ResolveConfig mode advertised options stored requested =
     (if \<not> Supported mode \<or> \<not> op_Supported options then None
      else if mode = ModeAlways \<or> (\<not> op_CanDisable options \<and> op_Efforts options = []) then None
      else
        (let levels = effectiveEfforts advertised;
             offEffort = offEffortFor levels;
             req = TrimSpace requested;
             active = (\<lambda>requestedEffort. Some \<lparr>cf_Active = True, cf_Disabled = False, cf_Adaptive = (mode = ModeAdaptive),
                         cf_Effort = pickEffort requestedEffort stored levels, cf_OffEffort = offEffort\<rparr>);
             off = Some \<lparr>cf_Active = False, cf_Disabled = True, cf_Adaptive = False, cf_Effort = '''', cf_OffEffort = offEffort\<rparr>
         in if IsDisabled req \<and> op_CanDisable options then off
            else if IsDisabled req then active ''''
            else if req \<noteq> '''' then active req
            else if IsDisabled stored \<and> op_CanDisable options then off
            else active ''''))"

section \<open>Merging\<close>

definition capabilityEfforts :: "string list" where
  "capabilityEfforts = [EffortDisable, EffortEnabled]"

text \<open>\<open>discovered = None\<close> is the nil slice.\<close>

definition MergeTiers :: "string list \<Rightarrow> string list option \<Rightarrow> string list" where
  "MergeTiers declared discovered =
     (case discovered of
        None \<Rightarrow> declared
      | Some found \<Rightarrow>
          filter (\<lambda>token. hasEffort declared token \<and> \<not> hasEffort found token) capabilityEfforts @ found)"

section \<open>Facts\<close>

lemma set_fold_appendNew: "set (fold appendNew xs out) = set out \<union> set xs"
  by (induction xs arbitrary: out) (auto simp: appendNew_def)

lemma distinct_fold_appendNew: "distinct out \<Longrightarrow> distinct (fold appendNew xs out)"
  by (induction xs arbitrary: out) (auto simp: appendNew_def)

lemma fold_appendNew_id: "distinct (out @ xs) \<Longrightarrow> fold appendNew xs out = out @ xs"
  by (induction xs arbitrary: out) (auto simp: appendNew_def)

lemma effectiveEfforts_set:
  "set (effectiveEfforts advertised) = (if advertised = [] then {EffortLow, EffortMedium, EffortHigh} else set advertised)"
  by (auto simp: effectiveEfforts_def set_fold_appendNew)

lemma trimmed_efforts [simp]:
  "TrimSpace EffortDisable = EffortDisable" "TrimSpace EffortNone = EffortNone" "TrimSpace EffortMedium = EffortMedium"
  "TrimSpace EffortEnabled = EffortEnabled" "TrimSpace EffortMinimal = EffortMinimal" "TrimSpace EffortLow = EffortLow"
  "TrimSpace EffortHigh = EffortHigh" "TrimSpace EffortXHigh = EffortXHigh" "TrimSpace EffortMax = EffortMax"
  by code_simp+

lemma efforts_distinct [simp]: "distinct [EffortDisable, EffortEnabled, EffortNone, EffortMinimal, EffortLow, EffortMedium, EffortHigh, EffortXHigh, EffortMax]"
  by (simp add: effort_defs)

lemma IsDisabled_simps [simp]: "IsDisabled EffortDisable" "IsDisabled EffortNone" "\<not> IsDisabled ''''" "IsDisabled (TrimSpace e) = IsDisabled e"
  by (simp_all add: IsDisabled_def) (simp_all add: effort_defs)

lemma active_not_disabled [simp]:
  "\<not> IsDisabled EffortMinimal" "\<not> IsDisabled EffortLow" "\<not> IsDisabled EffortMedium" "\<not> IsDisabled EffortHigh"
  "\<not> IsDisabled EffortXHigh" "\<not> IsDisabled EffortMax" "\<not> IsDisabled EffortEnabled"
  by (simp_all add: IsDisabled_def) (simp_all add: effort_defs)

lemma ordered_active:
  assumes "e \<in> set orderedEfforts"
  shows "\<not> IsDisabled e" "e \<noteq> EffortDisable" "e \<noteq> EffortEnabled" "e \<noteq> ''''"
proof -
  have e: "e \<in> {EffortMinimal, EffortLow, EffortMedium, EffortHigh, EffortXHigh, EffortMax}"
    using assms by (simp add: orderedEfforts_def)
  then show "\<not> IsDisabled e" by auto
  then show "e \<noteq> EffortDisable" "e \<noteq> ''''" using e by (auto simp: effort_defs)
  show "e \<noteq> EffortEnabled" using e by (auto simp: effort_defs)
qed

subsection \<open>The nearest tier\<close>

abbreviation tierIndex :: "string \<Rightarrow> int" where
  "tierIndex e \<equiv> slicesIndex orderedEfforts e"

definition tierRank :: "string \<Rightarrow> int \<times> int" where
  "tierRank e = (\<bar>tierIndex e - 2\<bar>, tierIndex e)"

lemma slicesIndex_neg: "slicesIndex xs e < 0 \<longleftrightarrow> e \<notin> set xs"
  by (induction xs) (auto simp: Let_def)

lemma tierIndex_values [simp]:
  "tierIndex EffortMinimal = 0" "tierIndex EffortLow = 1" "tierIndex EffortMedium = 2" "tierIndex EffortHigh = 3"
  "tierIndex EffortXHigh = 4" "tierIndex EffortMax = 5"
  by (simp_all add: orderedEfforts_def effort_defs)

lemma tierRank_inj: "e \<in> set orderedEfforts \<Longrightarrow> f \<in> set orderedEfforts \<Longrightarrow> tierRank e = tierRank f \<Longrightarrow> e = f"
  unfolding tierRank_def by (auto simp: orderedEfforts_def effort_defs)

text \<open>The loop's state after a prefix: nothing yet, or the best tier so far with its index and distance.\<close>

definition nearestOK :: "string list \<Rightarrow> string \<times> int \<times> int \<Rightarrow> bool" where
  "nearestOK levels st \<longleftrightarrow>
     (if fst st = '''' then set levels \<inter> set orderedEfforts = {}
      else fst st \<in> set levels \<inter> set orderedEfforts \<and> (snd (snd st), fst (snd st)) = tierRank (fst st) \<and>
        (\<forall>e\<in>set levels \<inter> set orderedEfforts. tierRank (fst st) \<le> tierRank e))"

lemma nearestStep_rank:
  "nearestStep level st =
     (if level \<notin> set orderedEfforts then st
      else if fst st = '''' \<or> tierRank level < (snd (snd st), fst (snd st))
      then (level, tierIndex level, \<bar>tierIndex level - 2\<bar>) else st)"
  by (cases st) (auto simp: nearestStep_def slicesIndex_neg tierRank_def Let_def)

lemma nearestOK_step:
  assumes "nearestOK levels st"
  shows "nearestOK (levels @ [level]) (nearestStep level st)"
proof (cases "level \<in> set orderedEfforts \<and> (fst st = '''' \<or> tierRank level < tierRank (fst st))")
  case True
  then have "level \<noteq> ''''" using ordered_active(4) by blast
  moreover have "nearestStep level st = (level, tierIndex level, \<bar>tierIndex level - 2\<bar>)"
    using True assms by (auto simp: nearestStep_rank nearestOK_def)
  moreover have "tierRank level \<le> tierRank e" if "e \<in> set levels \<inter> set orderedEfforts" for e
    using that True assms by (auto simp: nearestOK_def split: if_splits intro: less_imp_le order.trans)
  ultimately show ?thesis using True by (auto simp: nearestOK_def tierRank_def)
next
  case False
  then have "nearestStep level st = st" using assms by (auto simp: nearestStep_rank nearestOK_def)
  then show ?thesis using False assms by (auto simp: nearestOK_def not_less)
qed

lemma nearest_fold: "nearestOK levels (fold nearestStep levels ('''', 0, 0))"
  by (induction levels rule: rev_induct) (simp_all add: nearestOK_def [of "[]"] nearestOK_step)

lemma nearest_empty: "NearestToMedium levels = '''' \<Longrightarrow> set levels \<inter> set orderedEfforts = {}"
  and nearest_mem: "NearestToMedium levels \<noteq> '''' \<Longrightarrow> NearestToMedium levels \<in> set levels \<inter> set orderedEfforts"
  and nearest_least: "NearestToMedium levels \<noteq> '''' \<Longrightarrow> e \<in> set levels \<inter> set orderedEfforts \<Longrightarrow>
    tierRank (NearestToMedium levels) \<le> tierRank e"
  using nearest_fold [of levels] unfolding NearestToMedium_def nearestOK_def by (auto split: if_splits)

text \<open>The result is a function of the set of levels.\<close>

lemma nearest_set:
  assumes "set levels = set levels'"
  shows "NearestToMedium levels = NearestToMedium levels'"
proof (cases "set levels \<inter> set orderedEfforts = {}")
  case True
  then show ?thesis using assms nearest_mem [of levels] nearest_mem [of levels'] by (metis empty_iff)
next
  case False
  then have ne: "NearestToMedium levels \<noteq> ''''" "NearestToMedium levels' \<noteq> ''''"
    using assms nearest_empty by auto
  note m = nearest_mem [OF ne(1)] nearest_mem [OF ne(2)]
  have "tierRank (NearestToMedium levels) = tierRank (NearestToMedium levels')"
    using m assms by (intro order.antisym nearest_least ne) auto
  then show ?thesis using tierRank_inj m by blast
qed

subsection \<open>The effort of an active call\<close>

lemma pickEffort_cases:
  "pickEffort requested stored levels \<in> set levels \<or>
   (set levels \<inter> set orderedEfforts = {} \<and> pickEffort requested stored levels = EffortMedium)"
  using nearest_empty [of levels] nearest_mem [of levels] unfolding pickEffort_def by (simp split: if_split)

lemma pickEffort_active:
  assumes "TrimSpace requested \<noteq> EffortNone"
  shows "\<not> IsDisabled (pickEffort requested stored levels)"
proof -
  have "\<not> IsDisabled (TrimSpace requested)" if "TrimSpace requested \<noteq> EffortDisable"
    using that assms by (simp add: IsDisabled_def)
  then show ?thesis
    using nearest_mem [of levels] ordered_active(1) [of "NearestToMedium levels"]
    unfolding pickEffort_def by (simp split: if_split)
qed

lemma ResolveConfig_Some:
  assumes "ResolveConfig mode advertised options stored requested = Some c"
  shows "Supported mode" "op_Supported options" "mode \<noteq> ModeAlways" "op_CanDisable options \<or> op_Efforts options \<noteq> []"
    "(cf_Disabled c \<and> \<not> cf_Active c \<and> op_CanDisable options \<and> cf_Effort c = '''') \<or>
     (cf_Active c \<and> \<not> cf_Disabled c \<and> cf_Effort c = pickEffort '''' stored (effectiveEfforts advertised)) \<or>
     (cf_Active c \<and> \<not> cf_Disabled c \<and> \<not> IsDisabled requested \<and>
        cf_Effort c = pickEffort (TrimSpace requested) stored (effectiveEfforts advertised))"
proof -
  show g: "Supported mode" "op_Supported options" "mode \<noteq> ModeAlways" "op_CanDisable options \<or> op_Efforts options \<noteq> []"
    using assms by (auto simp: ResolveConfig_def split: if_splits)
  show "(cf_Disabled c \<and> \<not> cf_Active c \<and> op_CanDisable options \<and> cf_Effort c = '''') \<or>
     (cf_Active c \<and> \<not> cf_Disabled c \<and> cf_Effort c = pickEffort '''' stored (effectiveEfforts advertised)) \<or>
     (cf_Active c \<and> \<not> cf_Disabled c \<and> \<not> IsDisabled requested \<and>
        cf_Effort c = pickEffort (TrimSpace requested) stored (effectiveEfforts advertised))"
    using assms unfolding ResolveConfig_def Let_def
    using g by (cases "IsDisabled requested"; cases "op_CanDisable options"; cases "TrimSpace requested = ''''";
      cases "IsDisabled stored") auto
qed

section \<open>What a model declares\<close>

text \<open>
  What a model declares about its reasoning, \<^verbatim>\<open>internal/models/types.go\<close>, and how the
  declaration becomes the input of the decisions above, \<^verbatim>\<open>internal/models/model_reasoning.go\<close>:
  its mode, its advertised tiers, the options its picker shows, and the decision of a call.
\<close>

record ReasoningBudget =
  rb_Min :: "int option"
  rb_Max :: "int option"

record ReasoningDefault =
  rd_Enabled :: "bool option"
  rd_Effort :: string
  rd_Budget :: "int option"

record ReasoningReplay =
  rr_Field :: string
  rr_Required :: bool

record ModelReasoning =
  mr_Toggle :: bool
  mr_Efforts :: "string list"
  mr_Budget :: "ReasoningBudget option"
  mr_Off :: string
  mr_Dialect :: string
  mr_Default :: "ReasoningDefault option"
  mr_Replay :: "ReasoningReplay option"

text \<open>The field that a write is refused for.\<close>

definition validateBudget :: "ReasoningBudget \<Rightarrow> string option" where
  "validateBudget b =
     (if (case rb_Min b of Some m \<Rightarrow> m < 0 | None \<Rightarrow> False) then Some ''config.reasoning.budget.min''
      else if (case rb_Max b of Some m \<Rightarrow> m \<le> 0 | None \<Rightarrow> False) then Some ''config.reasoning.budget.max''
      else (case (rb_Min b, rb_Max b) of
              (Some lo, Some hi) \<Rightarrow> if hi < lo then Some ''config.reasoning.budget'' else None
            | _ \<Rightarrow> None))"

definition validateDefault :: "ReasoningDefault \<Rightarrow> string option" where
  "validateDefault d =
     (if rd_Effort d \<noteq> '''' \<and> rd_Effort d \<notin> set orderedEfforts then Some ''config.reasoning.default.effort''
      else (case rd_Budget d of
              Some n \<Rightarrow> if n < 0 then Some ''config.reasoning.default.budget'' else None
            | None \<Rightarrow> None))"

definition validateReplay :: "ReasoningReplay \<Rightarrow> string option" where
  "validateReplay p =
     (if rr_Field p \<in> {'''', ''reasoning_content'', ''reasoning_details'', ''reasoning''} then None
      else Some ''config.reasoning.replay.field'')"

definition orNext :: "string option \<Rightarrow> string option \<Rightarrow> string option" where
  "orNext e next = (case e of Some err \<Rightarrow> Some err | None \<Rightarrow> next)"

definition validateModelReasoning :: "ModelReasoning option \<Rightarrow> string option" where
  "validateModelReasoning reasoning =
     (case reasoning of
        None \<Rightarrow> None
      | Some r \<Rightarrow>
          if \<not> list_all (hasEffort orderedEfforts) (mr_Efforts r) then Some ''config.reasoning.efforts''
          else if \<not> IsValidDialect (mr_Dialect r) then Some ''config.reasoning.dialect''
          else if \<not> IsValidOffSupport (mr_Off r) then Some ''config.reasoning.off''
          else orNext (Option.bind (mr_Budget r) validateBudget)
                 (orNext (Option.bind (mr_Default r) validateDefault) (Option.bind (mr_Replay r) validateReplay)))"

section \<open>The projection of a declaration\<close>

definition Controllable :: "ModelReasoning \<Rightarrow> bool" where
  "Controllable r \<longleftrightarrow> mr_Toggle r \<or> mr_Efforts r \<noteq> [] \<or> mr_Budget r \<noteq> None"

definition CanTurnOff :: "ModelReasoning \<Rightarrow> bool" where
  "CanTurnOff r \<longleftrightarrow>
     (if mr_Off r = OffSupportAccepted \<or> mr_Off r = OffSupportLowEffortOnly then True
      else if mr_Off r = OffSupportRejected then False
      else mr_Toggle r)"

definition DialectAdaptive :: string where "DialectAdaptive = ''adaptive''"

definition ThinkingMode :: "ModelReasoning option \<Rightarrow> string" where
  "ThinkingMode reasoning =
     (case reasoning of
        None \<Rightarrow> ModeNone
      | Some r \<Rightarrow>
          if mr_Dialect r = DialectAdaptive then ModeAdaptive
          else if Controllable r \<or> CanTurnOff r then ModeToggle
          else ModeAlways)"

definition ReasoningEfforts :: "ModelReasoning option \<Rightarrow> string list" where
  "ReasoningEfforts reasoning =
     (case reasoning of
        None \<Rightarrow> []
      | Some r \<Rightarrow>
          mr_Efforts r @
          (if mr_Toggle r \<and> mr_Efforts r = [] \<and> mr_Budget r = None then [EffortEnabled] else []) @
          (if mr_Toggle r \<and> mr_Off r \<noteq> OffSupportRejected then [EffortDisable] else []))"

definition ReasoningDialect :: "ModelReasoning option \<Rightarrow> string" where
  "ReasoningDialect reasoning =
     (case reasoning of None \<Rightarrow> '''' | Some r \<Rightarrow> if mr_Dialect r = DialectAdaptive then '''' else mr_Dialect r)"

definition ReasoningOffSupport :: "ModelReasoning option \<Rightarrow> string" where
  "ReasoningOffSupport reasoning = (case reasoning of None \<Rightarrow> '''' | Some r \<Rightarrow> mr_Off r)"

section \<open>The picker\<close>

definition withDeclaredDefaults :: "Options \<Rightarrow> ModelReasoning option \<Rightarrow> Options" where
  "withDeclaredDefaults opts reasoning =
     (case Option.bind reasoning mr_Default of
        None \<Rightarrow> opts
      | Some d \<Rightarrow>
          if \<not> op_Supported opts then opts
          else
            (let opts1 = (if rd_Effort d \<noteq> '''' \<and> hasEffort (op_Efforts opts) (rd_Effort d)
                          then opts\<lparr>op_DefaultEffort := rd_Effort d\<rparr> else opts)
             in if rd_Enabled d = Some False \<and> op_CanDisable opts1 then opts1\<lparr>op_DefaultOff := True\<rparr> else opts1))"

definition ClientTypeGoogleGenerativeAI :: string where
  "ClientTypeGoogleGenerativeAI = ''google-generative-ai''"

definition ReasoningOptions :: "ModelReasoning option \<Rightarrow> string \<Rightarrow> Options" where
  "ReasoningOptions reasoning clientType =
     (let mode = ThinkingMode reasoning in
      if clientType = ClientTypeGoogleGenerativeAI \<and> mode \<noteq> ModeAlways \<and> mode \<noteq> ModeNone \<and> ReasoningDialect reasoning = ''''
      then zeroOptions\<lparr>op_Supported := True\<rparr>
      else withDeclaredDefaults
             (OptionsFor mode (ReasoningEfforts reasoning) clientType (ReasoningOffSupport reasoning)) reasoning)"

section \<open>The call\<close>

text \<open>The choice of the session stands above the one stored for the bot.\<close>

definition resolveReasoningConfig :: "ModelReasoning option \<Rightarrow> string \<Rightarrow> string \<Rightarrow> string \<Rightarrow> string \<Rightarrow> Config option" where
  "resolveReasoningConfig reasoning botEffort requestedEffort sessionEffort clientType =
     (let stored = (if TrimSpace sessionEffort \<noteq> '''' then TrimSpace sessionEffort else botEffort)
      in ResolveConfig (ThinkingMode reasoning) (ReasoningEfforts reasoning) (ReasoningOptions reasoning clientType)
           stored requestedEffort)"

section \<open>Facts on declarations\<close>

text \<open>The declared default only changes what is selected at first.\<close>

lemma declared_defaults [simp]:
  "op_Supported (withDeclaredDefaults opts reasoning) = op_Supported opts"
  "op_CanDisable (withDeclaredDefaults opts reasoning) = op_CanDisable opts"
  "op_Efforts (withDeclaredDefaults opts reasoning) = op_Efforts opts"
  by (simp_all add: withDeclaredDefaults_def Let_def split: option.split)

lemma no_declared_default: "Option.bind reasoning mr_Default = None \<Longrightarrow> withDeclaredDefaults opts reasoning = opts"
  by (simp add: withDeclaredDefaults_def)

text \<open>The same declaration without a default.\<close>

definition undeclared :: "ModelReasoning option \<Rightarrow> ModelReasoning option" where
  "undeclared reasoning = map_option (\<lambda>r. r\<lparr>mr_Default := None\<rparr>) reasoning"

lemma undeclared_simps [simp]:
  "ThinkingMode (undeclared reasoning) = ThinkingMode reasoning"
  "ReasoningEfforts (undeclared reasoning) = ReasoningEfforts reasoning"
  "ReasoningDialect (undeclared reasoning) = ReasoningDialect reasoning"
  "ReasoningOffSupport (undeclared reasoning) = ReasoningOffSupport reasoning"
  "withDeclaredDefaults opts (undeclared reasoning) = opts"
  by (cases reasoning; simp add: undeclared_def ThinkingMode_def Controllable_def CanTurnOff_def ReasoningEfforts_def ReasoningDialect_def
      ReasoningOffSupport_def withDeclaredDefaults_def)+

lemma valid_efforts:
  "validateModelReasoning reasoning = None \<Longrightarrow> \<forall>e\<in>set (ReasoningEfforts reasoning). IsDeclarable e"
  by (auto simp: validateModelReasoning_def ReasoningEfforts_def IsDeclarable_def declarableEfforts_def orderedEfforts_def
      list_all_iff split: option.splits if_splits)

text \<open>Where the picker offers anything, the model is controllable and the options are those of its mode.\<close>

lemma offered_controllable:
  assumes "op_Efforts (ReasoningOptions reasoning clientType) \<noteq> [] \<or> op_CanDisable (ReasoningOptions reasoning clientType)"
  shows "Supported (ThinkingMode reasoning)" "ThinkingMode reasoning \<noteq> ModeAlways"
    "ReasoningOptions reasoning clientType =
      withDeclaredDefaults (OptionsFor (ThinkingMode reasoning) (ReasoningEfforts reasoning) clientType (ReasoningOffSupport reasoning)) reasoning"
    "ReasoningOptions (undeclared reasoning) clientType =
      OptionsFor (ThinkingMode reasoning) (ReasoningEfforts reasoning) clientType (ReasoningOffSupport reasoning)"
  using assms unfolding ReasoningOptions_def Let_def undeclared_simps
  by (auto simp: OptionsFor_def zeroOptions_def split: if_splits)

end
