(* ===== verification/ReasoningProps.thy ===== *)
theory ReasoningProps
  imports Reasoning
begin

text \<open>
  The properties of the reasoning decisions: the tier a model without medium falls
  back to, what a call may send, the agreement between the picker and the wire, and
  the fate of a stored choice when the model changes.
\<close>

section \<open>The nearest tier\<close>

text \<open>The tiers in the order of preference: close to medium first, the weaker of two equally close ones first.\<close>

definition tierPreference :: "string list" where
  "tierPreference = [EffortMedium, EffortLow, EffortHigh, EffortMinimal, EffortXHigh, EffortMax]"

definition preferredTier :: "string list \<Rightarrow> string" where
  "preferredTier levels = (case find (hasEffort levels) tierPreference of None \<Rightarrow> '''' | Some e \<Rightarrow> e)"

lemma tierPreference_set: "set tierPreference = set orderedEfforts"
  by (auto simp: tierPreference_def orderedEfforts_def)

lemma tierPreference_ranked: "sorted_wrt (\<lambda>e f. tierRank e < tierRank f) tierPreference"
  by (simp add: tierPreference_def tierRank_def)

lemma find_least:
  assumes "sorted_wrt (\<lambda>e f. tierRank e < tierRank f) xs" "e \<in> set xs" "P e"
    "\<forall>f\<in>set xs. P f \<longrightarrow> tierRank e \<le> tierRank f"
  shows "find P xs = Some e"
  using assms
proof (induction xs)
  case (Cons x xs)
  show ?case
  proof (cases "P x")
    case True
    then have "\<not> tierRank x < tierRank e" using Cons.prems(4) by auto
    then show ?thesis using True Cons.prems(1,2) by auto
  qed (use Cons in auto)
qed simp

text \<open>The fallback tier found by the loop is the first advertised tier in the
  order medium, low, high, minimal, xhigh, max, and empty when none is advertised: it depends on
  neither the order of the advertised list nor on tokens that are not tiers.\<close>

theorem nearest_preferred: "NearestToMedium levels = preferredTier levels"
proof (cases "NearestToMedium levels = ''''")
  case True
  then have "set levels \<inter> set tierPreference = {}" using nearest_empty by (simp add: tierPreference_set)
  then have "find (hasEffort levels) tierPreference = None" by (auto simp: find_None_iff)
  then show ?thesis using True by (simp add: preferredTier_def)
next
  case False
  have "find (hasEffort levels) tierPreference = Some (NearestToMedium levels)"
    using nearest_mem [OF False] nearest_least [OF False]
    by (intro find_least tierPreference_ranked) (auto simp: tierPreference_set)
  then show ?thesis by (simp add: preferredTier_def)
qed

section \<open>What a call may send\<close>

text \<open>A decision is either on or off. It is off only on a model that can be
  turned off, and then carries no tier. It is on only with a tier that never spells off and that the
  model advertises, unless the model advertises no tier at all, when medium is sent.\<close>

theorem resolve_safe:
  assumes "ResolveConfig mode advertised options stored requested = Some c"
  shows "cf_Active c \<noteq> cf_Disabled c \<and>
    (cf_Disabled c \<longrightarrow> op_CanDisable options \<and> cf_Effort c = '''') \<and>
    (cf_Active c \<longrightarrow> \<not> IsDisabled (cf_Effort c) \<and>
      (cf_Effort c \<in> set (effectiveEfforts advertised) \<or>
       (set (effectiveEfforts advertised) \<inter> set orderedEfforts = {} \<and> cf_Effort c = EffortMedium)))"
proof -
  have "TrimSpace '''' \<noteq> EffortNone" by (simp add: EffortNone_def)
  moreover have "TrimSpace (TrimSpace requested) \<noteq> EffortNone" if "\<not> IsDisabled requested"
    using that by (auto simp: IsDisabled_def)
  ultimately consider (off) "cf_Disabled c" "\<not> cf_Active c" "op_CanDisable options" "cf_Effort c = ''''"
    | (on) r where "cf_Active c" "\<not> cf_Disabled c" "TrimSpace r \<noteq> EffortNone"
        "cf_Effort c = pickEffort r stored (effectiveEfforts advertised)"
    using ResolveConfig_Some(5) [OF assms] by blast
  then show ?thesis
  proof cases
    case on
    then show ?thesis
      using pickEffort_active [OF on(3), of stored "effectiveEfforts advertised"]
        pickEffort_cases [of r stored "effectiveEfforts advertised"] by simp
  qed simp
qed

section \<open>The picker and the wire\<close>

definition onConfig :: "string \<Rightarrow> string list \<Rightarrow> string \<Rightarrow> Config" where
  "onConfig mode advertised effort = \<lparr>cf_Active = True, cf_Disabled = False, cf_Adaptive = (mode = ModeAdaptive),
     cf_Effort = effort, cf_OffEffort = offEffortFor (effectiveEfforts advertised)\<rparr>"

definition offConfig :: "string list \<Rightarrow> Config" where
  "offConfig advertised = \<lparr>cf_Active = False, cf_Disabled = True, cf_Adaptive = False, cf_Effort = '''',
     cf_OffEffort = offEffortFor (effectiveEfforts advertised)\<rparr>"

text \<open>A well-formed tier token.\<close>

definition plainTier :: "string \<Rightarrow> bool" where
  "plainTier e \<longleftrightarrow> e \<noteq> '''' \<and> TrimSpace e = e \<and> \<not> IsDisabled e"

lemma plainTier_ne_disable [simp]: "plainTier e \<Longrightarrow> e \<noteq> EffortDisable"
  by (auto simp: plainTier_def)

lemma declarable_plain: "IsDeclarable e \<Longrightarrow> e \<noteq> EffortDisable \<Longrightarrow> plainTier e"
  by (auto simp: IsDeclarable_def declarableEfforts_def plainTier_def) (simp_all add: effort_defs)

lemma pickEffort_requested: "plainTier e \<Longrightarrow> hasEffort levels e \<Longrightarrow> pickEffort e stored levels = e"
  using plainTier_ne_disable [of e] by (simp add: pickEffort_def plainTier_def)

lemma pickEffort_stored: "plainTier e \<Longrightarrow> hasEffort levels e \<Longrightarrow> pickEffort '''' e levels = e"
  by (simp add: pickEffort_def plainTier_def)

lemma pickEffort_unusable: "TrimSpace stored = '''' \<or> IsDisabled stored \<Longrightarrow> pickEffort '''' stored levels = pickEffort '''' '''' levels"
  by (auto simp: pickEffort_def)

lemma OptionsFor_controllable:
  assumes "Supported mode" "mode \<noteq> ModeAlways"
  shows "op_Supported (OptionsFor mode advertised clientType offSupport)"
    "op_Efforts (OptionsFor mode advertised clientType offSupport) = filter (\<lambda>e. e \<noteq> EffortDisable) (effectiveEfforts advertised)"
    "op_CanDisable (OptionsFor mode advertised clientType offSupport) = canDisable mode (effectiveEfforts advertised) clientType offSupport"
    "\<not> op_DefaultOff (OptionsFor mode advertised clientType offSupport)"
    "op_Efforts (OptionsFor mode advertised clientType offSupport) \<noteq> [] \<Longrightarrow>
       op_DefaultEffort (OptionsFor mode advertised clientType offSupport) = pickEffort '''' '''' (effectiveEfforts advertised)"
    "op_Efforts (OptionsFor mode advertised clientType offSupport) = [] \<Longrightarrow>
       op_DefaultEffort (OptionsFor mode advertised clientType offSupport) = ''''"
  using assms by (simp_all add: OptionsFor_def Let_def)

lemma ResolveConfig_on:
  assumes "Supported mode" "mode \<noteq> ModeAlways" "op_Supported options" "op_CanDisable options \<or> op_Efforts options \<noteq> []"
  shows "plainTier e \<Longrightarrow> ResolveConfig mode advertised options stored e =
      Some (onConfig mode advertised (pickEffort e stored (effectiveEfforts advertised)))"
    "\<not> (IsDisabled stored \<and> op_CanDisable options) \<Longrightarrow> ResolveConfig mode advertised options stored '''' =
      Some (onConfig mode advertised (pickEffort '''' stored (effectiveEfforts advertised)))"
  using assms by (auto simp: ResolveConfig_def onConfig_def plainTier_def Let_def)

lemma ResolveConfig_off:
  assumes "Supported mode" "mode \<noteq> ModeAlways" "op_Supported options" "op_CanDisable options"
  shows "IsDisabled e \<Longrightarrow> ResolveConfig mode advertised options stored e = Some (offConfig advertised)"
    "IsDisabled stored \<Longrightarrow> ResolveConfig mode advertised options stored '''' = Some (offConfig advertised)"
  using assms by (simp_all add: ResolveConfig_def offConfig_def Let_def)

lemma default_offered:
  assumes "Supported mode" "mode \<noteq> ModeAlways" "options = OptionsFor mode advertised clientType offSupport"
    "\<forall>e\<in>set advertised. IsDeclarable e" "op_Efforts options \<noteq> []"
  shows "op_DefaultEffort options \<in> set (op_Efforts options)"
proof -
  note o = OptionsFor_controllable [OF assms(1,2), of advertised clientType offSupport, folded assms(3)]
  let ?L = "effectiveEfforts advertised"
  obtain e where e: "e \<in> set ?L" "e \<noteq> EffortDisable" using assms(5) unfolding o(2) by (auto simp: filter_empty_conv)
  have d: "\<forall>e\<in>set ?L. IsDeclarable e"
    using assms(4) by (auto simp: effectiveEfforts_set IsDeclarable_def declarableEfforts_def)
  then have "e = EffortEnabled \<or> e \<in> set orderedEfforts"
    using e by (auto simp: IsDeclarable_def declarableEfforts_def orderedEfforts_def)
  then have "pickEffort '''' '''' ?L \<in> set ?L"
  proof
    assume "e = EffortEnabled"
    then show ?thesis using e(1) by (simp add: pickEffort_def)
  next
    assume "e \<in> set orderedEfforts"
    then show ?thesis using e(1) pickEffort_cases [of "''''" "''''" ?L] by blast
  qed
  moreover have "pickEffort '''' '''' ?L \<noteq> EffortDisable"
    using pickEffort_active [of "''''" "''''" ?L] by (auto simp: EffortNone_def)
  ultimately show ?thesis unfolding o(5) [OF assms(5)] unfolding o(2) by simp
qed

lemma offered_plain:
  assumes "Supported mode" "mode \<noteq> ModeAlways" "\<forall>e\<in>set advertised. IsDeclarable e"
    "e \<in> set (op_Efforts (OptionsFor mode advertised clientType offSupport))"
  shows "plainTier e" "hasEffort (effectiveEfforts advertised) e"
proof -
  note o = OptionsFor_controllable(2) [OF assms(1,2), of advertised clientType offSupport]
  show "hasEffort (effectiveEfforts advertised) e" using assms(4) by (simp add: o)
  show "plainTier e"
  proof (rule declarable_plain)
    show "IsDeclarable e" using assms(3,4) unfolding o
      by (auto simp: effectiveEfforts_set IsDeclarable_def declarableEfforts_def split: if_splits)
    show "e \<noteq> EffortDisable" using assms(4) unfolding o by simp
  qed
qed

lemma stored_choice:
  "TrimSpace sessionEffort = '''' \<Longrightarrow> resolveReasoningConfig reasoning held requested sessionEffort clientType =
     ResolveConfig (ThinkingMode reasoning) (ReasoningEfforts reasoning) (ReasoningOptions reasoning clientType) held requested"
  "TrimSpace sessionEffort \<noteq> '''' \<Longrightarrow> resolveReasoningConfig reasoning held requested sessionEffort clientType =
     ResolveConfig (ThinkingMode reasoning) (ReasoningEfforts reasoning) (ReasoningOptions reasoning clientType) (TrimSpace sessionEffort) requested"
  by (simp_all add: resolveReasoningConfig_def)

text \<open>With no tier to pick, medium is sent.\<close>

lemma pickEffort_none: "\<forall>e\<in>set levels. e = EffortDisable \<Longrightarrow> pickEffort '''' '''' levels = EffortMedium"
proof -
  assume l: "\<forall>e\<in>set levels. e = EffortDisable"
  have "EffortDisable \<notin> set orderedEfforts" "EffortEnabled \<noteq> EffortDisable" "EffortMedium \<noteq> EffortDisable"
    by (simp_all add: orderedEfforts_def effort_defs)
  note ne = this
  have out: "e \<notin> set orderedEfforts \<and> e \<noteq> EffortEnabled \<and> e \<noteq> EffortMedium" if "e \<in> set levels" for e
    using bspec [OF l that] ne by simp
  then have "set levels \<inter> set orderedEfforts = {}" by (simp add: disjoint_iff)
  then have "NearestToMedium levels = ''''" using nearest_mem [of levels] by (cases "NearestToMedium levels = ''''") simp_all
  moreover have "EffortEnabled \<notin> set levels" "EffortMedium \<notin> set levels"
    using out [of EffortEnabled] out [of EffortMedium] by blast+
  ultimately show ?thesis by (simp add: pickEffort_def)
qed

text \<open>C38 (picker_wire): What the picker of a model with a valid declaration offers is what the wire gets. An offered
  tier is sent as it is, whether it is asked for in the message or stored for the session or the bot;
  off, where offered, turns the call off; and a model that offers neither gets no reasoning control,
  whatever is stored or asked. With nothing chosen the call ignores the default that the model
  declares: it sends the offered tier that the picker would show if the model declared none, which is
  the shown default exactly where the declaration does not change it, and medium on a model that
  offers nothing but off.\<close>

theorem picker_wire:
  assumes "validateModelReasoning reasoning = None" "options = ReasoningOptions reasoning clientType"
    "undeclaredOptions = ReasoningOptions (undeclared reasoning) clientType"
    "sends = onConfig (ThinkingMode reasoning) (ReasoningEfforts reasoning)"
    "turnsOff = offConfig (ReasoningEfforts reasoning)"
  shows "(e \<in> set (op_Efforts options) \<longrightarrow>
      resolveReasoningConfig reasoning held e sessionEffort clientType = Some (sends e) \<and>
      resolveReasoningConfig reasoning held '''' e clientType = Some (sends e) \<and>
      resolveReasoningConfig reasoning e '''' '''' clientType = Some (sends e)) \<and>
    (op_CanDisable options \<longrightarrow>
      resolveReasoningConfig reasoning held EffortDisable sessionEffort clientType = Some turnsOff \<and>
      resolveReasoningConfig reasoning held '''' EffortDisable clientType = Some turnsOff \<and>
      resolveReasoningConfig reasoning EffortDisable '''' '''' clientType = Some turnsOff) \<and>
    (op_Efforts options \<noteq> [] \<longrightarrow>
      op_DefaultEffort undeclaredOptions \<in> set (op_Efforts options) \<and>
      resolveReasoningConfig reasoning '''' '''' '''' clientType = Some (sends (op_DefaultEffort undeclaredOptions))) \<and>
    (op_Efforts options = [] \<longrightarrow> op_CanDisable options \<longrightarrow>
      resolveReasoningConfig reasoning '''' '''' '''' clientType = Some (sends EffortMedium)) \<and>
    (op_Efforts options = [] \<longrightarrow> \<not> op_CanDisable options \<longrightarrow>
      resolveReasoningConfig reasoning held e sessionEffort clientType = None)"
proof (cases "op_Efforts options \<noteq> [] \<or> op_CanDisable options")
  case True
  let ?mode = "ThinkingMode reasoning" and ?levels = "ReasoningEfforts reasoning"
  note c = offered_controllable [OF True [unfolded assms(2)]]
  note o = OptionsFor_controllable [OF c(1,2), of ?levels clientType "ReasoningOffSupport reasoning"]
  have opts: "op_Supported options" "op_Efforts options = filter (\<lambda>e. e \<noteq> EffortDisable) (effectiveEfforts ?levels)"
    by (simp_all add: assms(2) c(3) o)
  have un: "undeclaredOptions = OptionsFor ?mode ?levels clientType (ReasoningOffSupport reasoning)" by (simp add: assms(3) c(4))
  have same: "op_Efforts undeclaredOptions = op_Efforts options" by (simp add: un assms(2) c(3))
  note valid = valid_efforts [OF assms(1)]
  have g: "op_CanDisable options \<or> op_Efforts options \<noteq> []" using True by blast
  note on = ResolveConfig_on [OF c(1,2) opts(1) g]
  note off = ResolveConfig_off [OF c(1,2) opts(1)]
  have tier: "plainTier e \<and> hasEffort (effectiveEfforts ?levels) e" if "e \<in> set (op_Efforts options)" for e
    using offered_plain [OF c(1,2) valid] that same un by metis
  have dis: "IsDisabled EffortDisable" "TrimSpace EffortDisable = EffortDisable" "EffortDisable \<noteq> ''''" by code_simp+
  have blank: "TrimSpace '''' = ''''" "\<not> IsDisabled ''''" by (simp, code_simp)
  have asked: "ResolveConfig ?mode ?levels options s e = Some (sends e)" if "e \<in> set (op_Efforts options)" for s
  proof -
    have "pickEffort e s (effectiveEfforts ?levels) = e" using tier [OF that] pickEffort_requested by blast
    then show ?thesis using tier [OF that] on(1) [of e ?levels s] by (simp add: assms(4))
  qed
  have stored: "ResolveConfig ?mode ?levels options e '''' = Some (sends e)" if "e \<in> set (op_Efforts options)"
    using tier [OF that] on(2) [of e] pickEffort_stored [of e] by (auto simp: plainTier_def assms(4))
  have offs: "ResolveConfig ?mode ?levels options s EffortDisable = Some turnsOff"
    "ResolveConfig ?mode ?levels options EffortDisable '''' = Some turnsOff" if "op_CanDisable options" for s
    using off that dis by (simp_all add: assms(5))
  have plain: "ResolveConfig ?mode ?levels options '''' '''' = Some (sends (pickEffort '''' '''' (effectiveEfforts ?levels)))"
    using on(2) [of "''''"] blank by (simp add: assms(4))
  have default: "op_DefaultEffort undeclaredOptions \<in> set (op_Efforts options)"
    "op_DefaultEffort undeclaredOptions = pickEffort '''' '''' (effectiveEfforts ?levels)" if "op_Efforts options \<noteq> []"
    using default_offered [OF c(1,2) un valid] same that o(5) un by simp_all
  have medium: "pickEffort '''' '''' (effectiveEfforts ?levels) = EffortMedium" if "op_Efforts options = []"
    using that pickEffort_none unfolding opts(2) filter_empty_conv by simp
  have session: "TrimSpace e = e \<and> e \<noteq> ''''" if "e \<in> set (op_Efforts options)"
    using tier [OF that] by (simp add: plainTier_def)
  show ?thesis
    using asked stored offs plain default medium session dis blank True
    by (auto simp: resolveReasoningConfig_def assms(2) [symmetric] Let_def)
next
  case False
  then show ?thesis by (simp add: resolveReasoningConfig_def ResolveConfig_def assms(2) Let_def)
qed

text \<open>A model that declares to start on high: high is shown, medium is sent.\<close>

definition demoReasoning :: "ModelReasoning option" where
  "demoReasoning = Some \<lparr>mr_Toggle = True, mr_Efforts = [EffortLow, EffortMedium, EffortHigh], mr_Budget = None, mr_Off = '''',
     mr_Dialect = ''tier'', mr_Default = Some \<lparr>rd_Enabled = None, rd_Effort = EffortHigh, rd_Budget = None\<rparr>, mr_Replay = None\<rparr>"

theorem picker_wire_witness:
  "DefaultSelection (ReasoningOptions demoReasoning ''openai-responses'') = EffortHigh \<and>
   resolveReasoningConfig demoReasoning '''' '''' '''' ''openai-responses'' =
     Some (onConfig ModeToggle (ReasoningEfforts demoReasoning) EffortMedium) \<and>
   resolveReasoningConfig demoReasoning EffortLow EffortHigh '''' ''openai-responses'' =
     Some (onConfig ModeToggle (ReasoningEfforts demoReasoning) EffortHigh)"
proof -
  have v: "validateModelReasoning demoReasoning = None" by code_simp
  have h: "ThinkingMode demoReasoning = ModeToggle" "EffortHigh \<in> set (op_Efforts (ReasoningOptions demoReasoning ''openai-responses''))"
    "op_Efforts (ReasoningOptions demoReasoning ''openai-responses'') \<noteq> []"
    "op_DefaultEffort (ReasoningOptions (undeclared demoReasoning) ''openai-responses'') = EffortMedium"
    "DefaultSelection (ReasoningOptions demoReasoning ''openai-responses'') = EffortHigh"
    by code_simp+
  from picker_wire [OF v refl refl refl refl, of EffortHigh "''openai-responses''" EffortLow "''''"] h show ?thesis by simp
qed

section \<open>A stored choice under a new model\<close>

text \<open>Moving a stored choice to a controllable model that declares its tiers
  properly lands on something the model offers, does so once and for all, and the next call sends it:
  off where off is offered, or one of the offered tiers; only a model that offers nothing but off may
  leave the choice empty.\<close>

theorem reconciled_is_sent:
  assumes "Supported mode" "mode \<noteq> ModeAlways" "options = OptionsFor mode advertised clientType offSupport"
    "\<forall>e\<in>set advertised. IsDeclarable e" "op_CanDisable options \<or> op_Efforts options \<noteq> []"
    "held = ReconcileStored stored options"
  shows "ReconcileStored held options = held \<and>
    ((held = EffortDisable \<and> op_CanDisable options \<and>
        ResolveConfig mode advertised options held '''' = Some (offConfig advertised)) \<or>
     (held \<in> set (op_Efforts options) \<and>
        ResolveConfig mode advertised options held '''' = Some (onConfig mode advertised held)) \<or>
     (op_Efforts options = [] \<and> held = ''''))"
proof -
  note o = OptionsFor_controllable [OF assms(1,2), of advertised clientType offSupport, folded assms(3)]
  have r: "ReconcileStored s options =
      (if IsDisabled s \<and> op_CanDisable options then EffortDisable
       else if \<not> IsDisabled s \<and> s \<in> set (op_Efforts options) then s else op_DefaultEffort options)" for s
    using assms(5) o(1,4) by (auto simp: ReconcileStored_def DefaultSelection_def)
  have plain: "plainTier e" if "e \<in> set (op_Efforts options)" for e
  proof (rule declarable_plain)
    show "IsDeclarable e" using that assms(4) unfolding o(2)
      by (auto simp: effectiveEfforts_set IsDeclarable_def declarableEfforts_def split: if_splits)
    show "e \<noteq> EffortDisable" using that unfolding o(2) by simp
  qed
  consider (off) "held = EffortDisable" "op_CanDisable options"
    | (tier) "held \<in> set (op_Efforts options)" | (empty) "op_Efforts options = []" "held = ''''"
    using r [of stored] default_offered [OF assms(1-4)] o(6) assms(6) by (auto split: if_splits)
  then show ?thesis
  proof cases
    case off
    then show ?thesis using r [of held] ResolveConfig_off(2) [OF assms(1,2) o(1)] by simp
  next
    case tier
    then have "\<not> IsDisabled held" "hasEffort (effectiveEfforts advertised) held" "plainTier held"
      using plain [OF tier] tier o(2) by (simp_all add: plainTier_def)
    then show ?thesis
      using tier r [of held] ResolveConfig_on(2) [OF assms(1,2) o(1) assms(5)] pickEffort_stored by simp
  next
    case empty
    then show ?thesis using r [of held] o(6) by simp
  qed
qed

text \<open>A stored off moves to an adaptive model that cannot be turned off and has no medium tier.\<close>

theorem reconciled_is_sent_witness:
  "ReconcileStored EffortDisable (OptionsFor ModeAdaptive [EffortMax, EffortXHigh] '''' OffSupportRejected) = EffortXHigh \<and>
   ResolveConfig ModeAdaptive [EffortMax, EffortXHigh] (OptionsFor ModeAdaptive [EffortMax, EffortXHigh] '''' OffSupportRejected)
     EffortXHigh '''' = Some (onConfig ModeAdaptive [EffortMax, EffortXHigh] EffortXHigh)"
proof -
  have h: "Supported ModeAdaptive" "ModeAdaptive \<noteq> ModeAlways"
    "\<forall>e\<in>set [EffortMax, EffortXHigh]. IsDeclarable e"
    "op_CanDisable (OptionsFor ModeAdaptive [EffortMax, EffortXHigh] '''' OffSupportRejected) \<or>
     op_Efforts (OptionsFor ModeAdaptive [EffortMax, EffortXHigh] '''' OffSupportRejected) \<noteq> []"
    "EffortXHigh = ReconcileStored EffortDisable (OptionsFor ModeAdaptive [EffortMax, EffortXHigh] '''' OffSupportRejected)"
    "\<not> op_CanDisable (OptionsFor ModeAdaptive [EffortMax, EffortXHigh] '''' OffSupportRejected)"
    "op_Efforts (OptionsFor ModeAdaptive [EffortMax, EffortXHigh] '''' OffSupportRejected) \<noteq> []"
    by code_simp+
  show ?thesis
    using reconciled_is_sent [OF h(1,2) refl h(3,4,5)] h(5-7) by metis
qed

text \<open>A toggle model that advertises only off is not kept on off. Its options
  offer no tier and no default, a stored tier reconciles to the empty choice, and with the empty
  choice the call is made with reasoning on at medium, a tier the model does not offer.\<close>

theorem off_only_active:
  "op_CanDisable (OptionsFor ModeToggle [EffortDisable] clientType OffSupportUnset) \<and>
   op_Efforts (OptionsFor ModeToggle [EffortDisable] clientType OffSupportUnset) = [] \<and>
   ReconcileStored EffortHigh (OptionsFor ModeToggle [EffortDisable] clientType OffSupportUnset) = '''' \<and>
   ResolveConfig ModeToggle [EffortDisable] (OptionsFor ModeToggle [EffortDisable] clientType OffSupportUnset) '''' '''' =
     Some (onConfig ModeToggle [EffortDisable] EffortMedium)"
proof -
  have m: "Supported ModeToggle" "ModeToggle \<noteq> ModeAlways" by code_simp+
  note o = OptionsFor_controllable [OF m, of "[EffortDisable]" clientType OffSupportUnset]
  have e: "effectiveEfforts [EffortDisable] = [EffortDisable]" by code_simp
  have p: "pickEffort '''' '''' [EffortDisable] = EffortMedium" by code_simp
  have d: "op_CanDisable (OptionsFor ModeToggle [EffortDisable] clientType OffSupportUnset)"
    unfolding o(3) e by (simp add: canDisable_def m(2) OffSupportUnset_def OffSupportAccepted_def OffSupportLowEffortOnly_def OffSupportRejected_def)
  have t: "op_Efforts (OptionsFor ModeToggle [EffortDisable] clientType OffSupportUnset) = []" by (simp add: o(2) e)
  have "ReconcileStored EffortHigh (OptionsFor ModeToggle [EffortDisable] clientType OffSupportUnset) = ''''"
    using d t o(1,4) o(6) [OF t] by (simp add: ReconcileStored_def DefaultSelection_def)
  then show ?thesis
    using d t ResolveConfig_on(2) [OF m o(1), where stored = "''''" and advertised = "[EffortDisable]"] by (simp add: e p)
qed

end
