(* ===== verification/CommandSyntax.thy ===== *)
theory CommandSyntax
  imports GoPrelude "HOL-Library.Sublist"
begin

text \<open>
  The slash-command parser, \<^verbatim>\<open>internal/commandsyntax/parser.go\<close>, and the name
  predicates of \<^verbatim>\<open>internal/slash/classifier.go\<close>. Commands are byte strings;
  lower-casing is modelled for ASCII (and the two runes that fold into it), so the
  model speaks of commands whose names are ASCII.
\<close>

section \<open>Tokens\<close>

record tokenizer =
  tz_tokens :: "string list"
  tz_current :: string
  tz_quote :: "char option"

abbreviation dquote :: char where "dquote \<equiv> CHR 0x22"
abbreviation squote :: char where "squote \<equiv> CHR 0x27"

definition flush :: "tokenizer \<Rightarrow> tokenizer" where
  "flush z = (if tz_current z \<noteq> '''' then z\<lparr>tz_tokens := tz_tokens z @ [tz_current z], tz_current := ''''\<rparr> else z)"

definition tokenStep :: "char \<Rightarrow> tokenizer \<Rightarrow> tokenizer" where
  "tokenStep ch z =
     (case tz_quote z of
        Some q \<Rightarrow> if ch = q then z\<lparr>tz_quote := None\<rparr> else z\<lparr>tz_current := tz_current z @ [ch]\<rparr>
      | None \<Rightarrow>
          (if ch = dquote \<or> ch = squote then z\<lparr>tz_quote := Some ch\<rparr>
           else if ch = CHR '' '' \<or> ch = CHR 0x09 then flush z
           else z\<lparr>tz_current := tz_current z @ [ch]\<rparr>))"

definition Tokenize :: "string \<Rightarrow> string list" where
  "Tokenize input = tz_tokens (flush (fold tokenStep input \<lparr>tz_tokens = [], tz_current = '''', tz_quote = None\<rparr>))"

section \<open>Flags\<close>

record parsedFlags =
  pf_page :: int
  pf_prov :: int
  pf_rangeKey :: string
  pf_selectID :: string

definition noFlags :: parsedFlags where
  "noFlags = \<lparr>pf_page = 0, pf_prov = - 1, pf_rangeKey = '''', pf_selectID = ''''\<rparr>"

text \<open>\<open>strconv.Atoi\<close>: an optional sign and decimal digits, within 64 bits.\<close>

definition decimalDigit :: "char \<Rightarrow> bool" where
  "decimalDigit c \<longleftrightarrow> 48 \<le> (of_char c :: nat) \<and> (of_char c :: nat) \<le> 57"

definition decimalValue :: "string \<Rightarrow> int" where
  "decimalValue s = foldl (\<lambda>n c. 10 * n + (int (of_char c) - 48)) 0 s"

definition Atoi :: "string \<Rightarrow> int option" where
  "Atoi s =
     (let neg = HasPrefix s ''-'';
          digits = (if neg \<or> HasPrefix s ''+'' then drop 1 s else s);
          n = (if neg then - decimalValue digits else decimalValue digits)
      in if digits = '''' \<or> \<not> list_all decimalDigit digits \<or> n < - (2 ^ 63) \<or> 2 ^ 63 \<le> n then None else Some n)"

definition setIntFlag :: "string \<Rightarrow> string \<Rightarrow> parsedFlags \<Rightarrow> parsedFlags" where
  "setIntFlag flag v flags =
     (case Atoi v of
        None \<Rightarrow> flags
      | Some n \<Rightarrow>
          (if 0 \<le> n then (if flag = ''--page'' then flags\<lparr>pf_page := n\<rparr> else flags\<lparr>pf_prov := n\<rparr>) else flags))"

fun extractFlags :: "string list \<Rightarrow> parsedFlags \<Rightarrow> string list \<times> parsedFlags" where
  "extractFlags [] flags = ([], flags)"
| "extractFlags [t] flags = (if t = ''--page'' \<or> t = ''--prov'' then ([], flags) else ([t], flags))"
| "extractFlags (t # v # rest) flags =
     (if t = ''--range'' then extractFlags rest (flags\<lparr>pf_rangeKey := v\<rparr>)
      else if t = ''--id'' then extractFlags rest (flags\<lparr>pf_selectID := v\<rparr>)
      else if t = ''--page'' \<or> t = ''--prov'' then
        (if \<not> HasPrefix v ''--'' then extractFlags rest (setIntFlag t v flags) else extractFlags (v # rest) flags)
      else (case extractFlags (v # rest) flags of (out, flags') \<Rightarrow> (t # out, flags')))"

section \<open>Commands\<close>

record ParsedCommand =
  pc_Resource :: string
  pc_Action :: string
  pc_Args :: "string list"
  pc_Page :: int
  pc_Prov :: int
  pc_SelectID :: string
  pc_Range :: string

datatype parse_error = CommandMustStartWithSlash | EmptyCommand

definition shouldExtractGlobalFlags :: "string \<Rightarrow> string \<Rightarrow> bool" where
  "shouldExtractGlobalFlags resource action \<longleftrightarrow>
     \<not> (resource = ''schedule'' \<and> (action = ''create'' \<or> action = ''update''))"

text \<open>The resource of a token: lower case, without a Telegram bot suffix.\<close>

definition stripBot :: "string \<Rightarrow> string" where
  "stripBot resource =
     (let name = takeWhile (\<lambda>c. c \<noteq> CHR ''@'') resource
      in if length name < length resource \<and> 0 < length name then name else resource)"

definition resourceOf :: "string list \<Rightarrow> string" where
  "resourceOf tokens = stripBot (ToLower (hd tokens))"

definition actionOf :: "string list \<Rightarrow> string" where
  "actionOf tokens = (if 1 < length tokens then ToLower (tokens ! 1) else '''')"

definition Parse :: "string \<Rightarrow> parse_error + ParsedCommand" where
  "Parse text0 =
     (let trimmed = TrimSpace text0 in
      if \<not> HasPrefix trimmed ''/'' then Inl CommandMustStartWithSlash
      else
        (let tokens0 = Tokenize (drop 1 trimmed) in
         if tokens0 = [] then Inl EmptyCommand
         else
           (let extract = shouldExtractGlobalFlags (resourceOf tokens0) (actionOf tokens0);
                tokens = (if extract then fst (extractFlags tokens0 noFlags) else tokens0);
                flags = (if extract then snd (extractFlags tokens0 noFlags) else noFlags)
            in if tokens = [] then Inl EmptyCommand
               else Inr \<lparr>pc_Resource = resourceOf tokens, pc_Action = actionOf tokens, pc_Args = drop 2 tokens,
                         pc_Page = pf_page flags, pc_Prov = pf_prov flags, pc_SelectID = pf_selectID flags,
                         pc_Range = pf_rangeKey flags\<rparr>)))"

fun spaceSlash :: "string \<Rightarrow> string option" where
  "spaceSlash (c # d # s) = (if c = CHR '' '' \<and> d = CHR ''/'' then Some (d # s) else spaceSlash (d # s))"
| "spaceSlash s = None"

definition ExtractCommandText :: "string \<Rightarrow> string" where
  "ExtractCommandText text0 =
     (let trimmed = TrimSpace text0 in
      if HasPrefix trimmed ''/'' then trimmed
      else (case spaceSlash trimmed of None \<Rightarrow> '''' | Some rest \<Rightarrow> TrimSpace rest))"

section \<open>Names\<close>

definition isLetter :: "char \<Rightarrow> bool" where
  "isLetter c \<longleftrightarrow> (let n = (of_char c :: nat) in (97 \<le> n \<and> n \<le> 122) \<or> (65 \<le> n \<and> n \<le> 90))"

definition isRemovedModeCommand :: "string \<Rightarrow> bool" where
  "isRemovedModeCommand resource \<longleftrightarrow> resource \<in> {''now'', ''btw'', ''next'', ''followup''}"

definition isCommandName :: "string \<Rightarrow> bool" where
  "isCommandName name \<longleftrightarrow> name \<noteq> '''' \<and> length name \<le> 32 \<and>
     list_all (\<lambda>(i, c). isLetter c \<or> (0 < i \<and> (decimalDigit c \<or> c = CHR ''_'' \<or> c = CHR ''-''))) (enumerate 0 name)"

fun hasDotDot :: "string \<Rightarrow> bool" where
  "hasDotDot (c # d # s) \<longleftrightarrow> (c = CHR ''.'' \<and> d = CHR ''.'') \<or> hasDotDot (d # s)"
| "hasDotDot s \<longleftrightarrow> False"

definition isValidSkillSelector :: "string \<Rightarrow> bool" where
  "isValidSkillSelector name \<longleftrightarrow> name \<noteq> '''' \<and> name \<noteq> ''.'' \<and> name \<noteq> ''..'' \<and>
     \<not> HasPrefix name ''.'' \<and> \<not> hasDotDot name \<and>
     list_all (\<lambda>c. isLetter c \<or> decimalDigit c \<or> c = CHR ''-'' \<or> c = CHR ''_'' \<or> c = CHR ''.'') name"

section \<open>Facts\<close>

lemma tokenStep_quoted:
  "dquote \<notin> set t \<Longrightarrow> tz_quote z = Some dquote \<Longrightarrow> fold tokenStep t z = z\<lparr>tz_current := tz_current z @ t\<rparr>"
  by (induction t arbitrary: z) (auto simp: tokenStep_def)

text \<open>A double-quoted token followed by a blank.\<close>

definition quoteToken :: "string \<Rightarrow> string" where
  "quoteToken t = dquote # t @ [dquote, CHR '' '']"

lemma fold_quoteToken:
  assumes "dquote \<notin> set t" "t \<noteq> ''''" "tz_quote z = None" "tz_current z = ''''"
  shows "fold tokenStep (quoteToken t) z = z\<lparr>tz_tokens := tz_tokens z @ [t]\<rparr>"
proof -
  have "fold tokenStep t (z\<lparr>tz_quote := Some dquote\<rparr>) = z\<lparr>tz_quote := Some dquote, tz_current := t\<rparr>"
    using tokenStep_quoted [OF assms(1), of "z\<lparr>tz_quote := Some dquote\<rparr>"] assms(4) by simp
  then show ?thesis
    using assms(2-4) by (simp add: quoteToken_def tokenStep_def flush_def)
qed

lemma fold_quoteTokens:
  assumes "\<forall>t\<in>set ts. dquote \<notin> set t \<and> t \<noteq> ''''" "tz_quote z = None" "tz_current z = ''''"
  shows "fold tokenStep (concat (map quoteToken ts)) z = z\<lparr>tz_tokens := tz_tokens z @ ts\<rparr>"
  using assms by (induction ts arbitrary: z) (auto simp: fold_quoteToken)

lemma Tokenize_quoteTokens:
  "\<forall>t\<in>set ts. dquote \<notin> set t \<and> t \<noteq> '''' \<Longrightarrow> Tokenize (concat (map quoteToken ts)) = ts"
  by (simp add: Tokenize_def fold_quoteTokens flush_def)

lemma tokens_nonempty:
  assumes "'''' \<notin> set (tz_tokens z)"
  shows "'''' \<notin> set (tz_tokens (fold tokenStep s z))"
  using assms
  by (induction s arbitrary: z) (auto simp: tokenStep_def flush_def split: option.splits)

text \<open>
  What is left of the flags: no integer flag, and a string flag only as the last
  token, where it has no value to take.
\<close>

definition flagFree :: "string list \<Rightarrow> bool" where
  "flagFree ts \<longleftrightarrow> set (butlast ts) \<inter> {''--range'', ''--id'', ''--page'', ''--prov''} = {} \<and>
     ''--page'' \<notin> set ts \<and> ''--prov'' \<notin> set ts"

lemma flagFree_Cons:
  "flagFree (t # ts) \<longleftrightarrow> t \<noteq> ''--page'' \<and> t \<noteq> ''--prov'' \<and>
     (ts = [] \<or> (t \<noteq> ''--range'' \<and> t \<noteq> ''--id'')) \<and> flagFree ts"
  by (cases ts) (auto simp: flagFree_def)

lemma flagFree_Nil [simp]: "flagFree []"
  by (simp add: flagFree_def)

lemma extractFlags_flagFree: "flagFree (fst (extractFlags ts flags))"
proof (induction ts flags rule: extractFlags.induct)
  case (3 t v rest flags)
  consider "t = ''--range''" | "t = ''--id''" | "t = ''--page'' \<or> t = ''--prov''"
    | "t \<noteq> ''--range''" "t \<noteq> ''--id''" "t \<noteq> ''--page''" "t \<noteq> ''--prov''" by blast
  then show ?case
  proof cases
    case 4
    then show ?thesis using 3(5) by (simp add: flagFree_Cons split: prod.split) (metis fst_conv)
  qed (use 3 in \<open>auto split: if_splits\<close>)
qed (simp_all add: flagFree_Cons)

lemma extractFlags_stable: "flagFree ts \<Longrightarrow> extractFlags ts flags = (ts, flags)"
proof (induction ts flags rule: extractFlags.induct)
  case (3 t v rest flags)
  then have "t \<noteq> ''--range''" "t \<noteq> ''--id''" "t \<noteq> ''--page''" "t \<noteq> ''--prov''" "flagFree (v # rest)"
    by (simp_all add: flagFree_Cons [of t])
  then show ?case using 3(5) by simp
qed (simp_all add: flagFree_Cons)

text \<open>What remains are tokens of the input in their order.\<close>

lemma extractFlags_subseq: "subseq (fst (extractFlags ts flags)) ts"
proof (induction ts flags rule: extractFlags.induct)
  case (3 t v rest flags)
  have skip: "subseq us rest \<Longrightarrow> subseq us (t # v # rest)" "subseq us (v # rest) \<Longrightarrow> subseq us (t # v # rest)"
    "subseq us (v # rest) \<Longrightarrow> subseq (t # us) (t # v # rest)" for us
    by (auto intro: list_emb_Cons)
  consider "t = ''--range''" | "t = ''--id''" | "t = ''--page'' \<or> t = ''--prov''" "HasPrefix v ''--''"
    | "t = ''--page'' \<or> t = ''--prov''" "\<not> HasPrefix v ''--''"
    | "t \<noteq> ''--range''" "t \<noteq> ''--id''" "t \<noteq> ''--page''" "t \<noteq> ''--prov''" by blast
  then show ?case
  proof cases
    case 1
    then show ?thesis using skip(1) [OF 3(1)] by simp
  next
    case 2
    then show ?thesis using skip(1) [OF 3(2)] by simp
  next
    case 3: 3
    then show ?thesis using skip(2) [OF "3.IH"(4)] by auto
  next
    case 4
    then show ?thesis using skip(1) [OF "3.IH"(3)] by auto
  next
    case 5
    then show ?thesis using skip(3) [OF "3.IH"(5)] by (cases "extractFlags (v # rest) flags") simp
  qed
qed simp_all

end
