(* ===== verification/Decimals.thy ===== *)
theory Decimals
  imports CommandSyntax Prune
begin

text \<open>
  Facts on printed decimal numbers, \<open>%d\<close> and \<open>strconv.Itoa\<close>: \<open>strconv.Atoi\<close> reads them
  back, they are nonempty digits, and a text that ends in one has no blank at its end.
\<close>

section \<open>Decimal numbers\<close>

lemma digit_value: "k < 10 \<Longrightarrow> (of_char (char_of (48 + k :: nat) :: char) :: nat) = 48 + k"
  by simp

lemma decimal_nonempty [simp]: "decimal n \<noteq> []"
  by (subst decimal.simps) simp

lemma decimal_value: "decimalValue (decimal n) = int n"
proof (induction n rule: decimal.induct)
  case (1 n)
  show ?case
  proof (cases "n < 10")
    case True
    then show ?thesis by (subst decimal.simps) (simp add: decimalValue_def)
  next
    case False
    have "decimalValue (decimal n) = 10 * decimalValue (decimal (n div 10)) + int (n mod 10)"
      using False by (subst decimal.simps) (simp add: decimalValue_def)
    also have "... = 10 * int (n div 10) + int (n mod 10)" using 1 [OF False] by simp
    also have "... = int n" by (metis mult_div_mod_eq of_nat_add of_nat_mult of_nat_numeral)
    finally show ?thesis .
  qed
qed

lemma decimal_inj [simp]: "decimal m = decimal n \<longleftrightarrow> m = n"
  using decimal_value by (metis of_nat_eq_iff)

lemma decimal_digits: "list_all decimalDigit (decimal n)"
proof (induction n rule: decimal.induct)
  case (1 n)
  have d: "decimalDigit (char_of (48 + k))" if "k < 10" for k :: nat
    using that by (simp add: decimalDigit_def)
  show ?case
    by (cases "n < 10") (subst decimal.simps, simp add: d "1.IH")+
qed

lemma digit_no_space: "decimalDigit c \<Longrightarrow> spaceLenRev (c # s) = 0"
proof -
  assume d: "decimalDigit c"
  have "\<not> asciiSpace c" using d by (auto simp: decimalDigit_def asciiSpace_def)
  moreover have "\<not> space2 b c" for b using d by (auto simp: decimalDigit_def space2_def)
  moreover have "\<not> space3 a b c" for a b using d by (auto simp: decimalDigit_def space3_def)
  ultimately show ?thesis by (simp split: list.split)
qed

lemma decimal_end_trimmed: "spaceLen (x @ decimal n) = 0 \<Longrightarrow> TrimSpace (x @ decimal n) = x @ decimal n"
proof (rule TrimSpace_id)
  obtain c s where cs: "rev (decimal n) = c # s" by (cases "rev (decimal n)") auto
  then have "decimalDigit c" using decimal_digits [of n] by (metis list.set_intros(1) list_all_iff set_rev)
  then show "spaceLenRev (rev (x @ decimal n)) = 0" using cs digit_no_space by simp
qed

end
