(* ===== verification/CommandFallback.thy ===== *)
theory CommandFallback
  imports Decimals
begin

text \<open>
  How commands are printed: the slash command of a hint and of a tapped button,
  \<^verbatim>\<open>internal/command/fallback.go\<close> and \<^verbatim>\<open>internal/command/callback.go\<close>, and how the
  tokenizer of \<^verbatim>\<open>internal/commandsyntax/parser.go\<close> reads a printed command.
\<close>

section \<open>Printing\<close>

text \<open>\<open>strings.ContainsAny(arg, " \t\n\r")\<close> and the replacer of \<open>quoteArgIfNeeded\<close>.\<close>

definition hasBlank :: "string \<Rightarrow> bool" where
  "hasBlank arg \<longleftrightarrow> list_ex (\<lambda>c. c \<in> {CHR '' '', CHR 0x09, CHR 0x0A, CHR 0x0D}) arg"

definition cleanChar :: "char \<Rightarrow> char" where
  "cleanChar c = (if c = CHR 0x0A \<or> c = CHR 0x0D then CHR '' '' else if c = dquote then squote else c)"

definition quoteArgIfNeeded :: "string \<Rightarrow> string" where
  "quoteArgIfNeeded arg = (if \<not> hasBlank arg then arg else dquote # map cleanChar arg @ [dquote])"

definition formatArg :: "bool \<Rightarrow> string \<Rightarrow> string" where
  "formatArg quote arg =
     (let trimmed = TrimSpace arg in
      if trimmed = '''' then '''' else '' '' @ (if quote then quoteArgIfNeeded trimmed else trimmed))"

definition formatSlashCommand :: "string \<Rightarrow> string \<Rightarrow> string list \<Rightarrow> bool \<Rightarrow> string" where
  "formatSlashCommand resource0 action0 args quote =
     (let resource = TrimSpace resource0;
          action = TrimSpace action0
      in if resource = '''' \<or> action = '''' then ''''
         else ''/'' @ resource @ '' '' @ action @ concat (map (formatArg quote) args))"

text \<open>The command of an action, none for a nil action.\<close>

record ItemAction =
  ia_Resource :: string
  ia_Action :: string
  ia_Args :: "string list"

definition Typeable :: "ItemAction option \<Rightarrow> string" where
  "Typeable a = (case a of None \<Rightarrow> '''' | Some a \<Rightarrow> formatSlashCommand (ia_Resource a) (ia_Action a) (ia_Args a) True)"

section \<open>Callbacks\<close>

datatype callbackKind = ListPage | ModelProvider | ModelSelect | RangeKind | ConfirmNew | SkillActivate | Dismiss | Noop

record ParsedCallback =
  cb_Kind :: callbackKind
  cb_Resource :: string
  cb_Action :: string
  cb_Args :: "string list"
  cb_Page :: int
  cb_ProviderIndex :: int
  cb_SelectID :: string
  cb_Range :: string

definition Itoa :: "int \<Rightarrow> string" where
  "Itoa n = (if n < 0 then ''-'' @ decimal (nat (- n)) else decimal (nat n))"

definition SyntheticCommand :: "ParsedCallback \<Rightarrow> string" where
  "SyntheticCommand p =
     (case cb_Kind p of
        ListPage \<Rightarrow>
          (let base = formatSlashCommand (cb_Resource p) (cb_Action p) (cb_Args p) True in
           if base = '''' then '''' else base @ '' --page '' @ Itoa (cb_Page p))
      | ModelProvider \<Rightarrow> ''/model list --prov '' @ Itoa (cb_ProviderIndex p) @ '' --page '' @ Itoa (cb_Page p)
      | ModelSelect \<Rightarrow> ''/model set --id '' @ cb_SelectID p
      | RangeKind \<Rightarrow> ''/'' @ cb_Resource p @ '' '' @ cb_Action p @ '' --range '' @ cb_Range p
      | ConfirmNew \<Rightarrow> ''/new '' @ cb_Action p @ '' --confirm''
      | SkillActivate \<Rightarrow> (let name = TrimSpace (cb_SelectID p) in if name = '''' then '''' else ''/'' @ name)
      | Dismiss \<Rightarrow> ''''
      | Noop \<Rightarrow> '''')"

end
