(* ===== verification/CommandProps.thy ===== *)
theory CommandProps
  imports CommandFallback
begin

text \<open>
  The properties of the command parser: a command that a hint or a button prints is
  parsed back, except for a stray quote in an argument, flags never leak into the arguments, and every parsed command is in range.
\<close>

section \<open>Names and arguments\<close>

definition lowerChar :: "char \<Rightarrow> bool" where
  "lowerChar c \<longleftrightarrow> 97 \<le> (of_char c :: nat) \<and> (of_char c :: nat) \<le> 122"

definition lowerName :: "string \<Rightarrow> bool" where
  "lowerName s \<longleftrightarrow> s \<noteq> '''' \<and> list_all lowerChar s"

definition flagNames :: "string set" where
  "flagNames = {''--range'', ''--id'', ''--page'', ''--prov''}"

definition quoteFree :: "string \<Rightarrow> bool" where
  "quoteFree s \<longleftrightarrow> dquote \<notin> set s \<and> squote \<notin> set s"

text \<open>
  The arguments that are printed, and what the tokenizer reads for one of them. An argument
  without a blank is printed as it is, so it must be free of quotes to be read as one token.
\<close>

definition trimmedArgs :: "string list \<Rightarrow> string list" where
  "trimmedArgs args = filter (\<lambda>a. a \<noteq> '''') (map TrimSpace args)"

definition readBack :: "string \<Rightarrow> string" where
  "readBack a = (if hasBlank a then map cleanChar a else a)"

definition readable :: "string \<Rightarrow> bool" where
  "readable a \<longleftrightarrow> hasBlank a \<or> quoteFree a"

text \<open>An argument that comes back unchanged.\<close>

definition plainArg :: "string \<Rightarrow> bool" where
  "plainArg a \<longleftrightarrow> a \<noteq> '''' \<and> TrimSpace a = a \<and> CHR 0x0A \<notin> set a \<and> CHR 0x0D \<notin> set a \<and> dquote \<notin> set a"

lemma readBack_plain: "plainArg a \<Longrightarrow> readBack a = a"
  by (auto simp: plainArg_def readBack_def cleanChar_def intro!: map_idI)

lemma readBack_nonempty: "a \<noteq> '''' \<Longrightarrow> readBack a \<noteq> ''''"
  by (simp add: readBack_def)

lemma shown_plain: "\<forall>a\<in>set args. plainArg a \<Longrightarrow> map readBack (trimmedArgs args) = args"
  proof (induction args)
  case (Cons a args)
  then have a: "plainArg a" "TrimSpace a = a" "a \<noteq> ''''" by (auto simp: plainArg_def)
  then show ?case using Cons by (simp add: trimmedArgs_def readBack_plain)
qed (simp add: trimmedArgs_def)

lemma trimmedArgs_elem: "a \<in> set (trimmedArgs args) \<Longrightarrow> a \<noteq> '''' \<and> TrimSpace a = a"
  by (auto simp: trimmedArgs_def)

lemma lowerChar_simps:
  assumes "lowerChar c"
  shows "asciiLower c = c" "c \<noteq> CHR 0xC4" "c \<noteq> CHR 0xE2" "c \<noteq> CHR ''@''" "c \<noteq> CHR ''-''" "c \<noteq> dquote" "c \<noteq> squote"
    "c \<noteq> CHR '' ''" "c \<noteq> CHR 0x09" "\<not> asciiSpace c" "c \<noteq> CHR 0x85" "c \<noteq> CHR 0xA0"
  using assms by (auto simp: lowerChar_def asciiLower_def asciiSpace_def)

lemma ToLower_lower: "list_all lowerChar s \<Longrightarrow> ToLower s = s"
  by (induction s rule: ToLower.induct) (auto simp: lowerChar_simps)

lemma stripBot_lower: "list_all lowerChar s \<Longrightarrow> stripBot s = s"
proof -
  assume "list_all lowerChar s"
  then have "takeWhile (\<lambda>c. c \<noteq> CHR ''@'') s = s"
    by (induction s) (auto simp: lowerChar_simps)
  then show ?thesis by (simp only: stripBot_def Let_def less_irrefl simp_thms if_False)
qed

lemma resource_action:
  assumes "lowerName resource" "lowerName action"
  shows "resourceOf (resource # action # args) = resource" "actionOf (resource # action # args) = action"
  using assms by (simp_all add: resourceOf_def actionOf_def lowerName_def ToLower_lower stripBot_lower)

lemma lowerName_no_flag: "lowerName s \<Longrightarrow> s \<notin> flagNames"
  by (auto simp: lowerName_def lowerChar_def flagNames_def)

section \<open>Blanks at the ends\<close>

lemma space_multibyte:
  "space2 a b \<Longrightarrow> 128 \<le> (of_char b :: nat)" "space3 a b c \<Longrightarrow> 128 \<le> (of_char c :: nat)"
  by (auto simp: space2_def space3_def)

lemma spaceLenRev_ascii: "\<not> asciiSpace c \<Longrightarrow> (of_char c :: nat) < 128 \<Longrightarrow> spaceLenRev (c # s) = 0"
  using space_multibyte by (force split: list.split)

lemma spaceLenRev_lower: "lowerChar c \<Longrightarrow> spaceLenRev (c # s) = 0"
  and spaceLenRev_dquote: "spaceLenRev (dquote # s) = 0"
  and spaceLenRev_digit: "decimalDigit c \<Longrightarrow> spaceLenRev (c # s) = 0"
  by (rule spaceLenRev_ascii; auto simp: lowerChar_def decimalDigit_def asciiSpace_def)+

text \<open>A word after a blank ends a command without a blank if the word itself does.\<close>

lemma spaceLenRev_word: "s \<noteq> [] \<Longrightarrow> spaceLenRev s = 0 \<Longrightarrow> spaceLenRev (s @ CHR '' '' # y) = 0"
  by (cases s rule: spaceLenRev.cases) (auto simp: space2_def space3_def split: list.splits if_splits)

definition endsWord :: "string \<Rightarrow> bool" where
  "endsWord s \<longleftrightarrow> s \<noteq> '''' \<and> spaceLenRev (rev s) = 0"

lemma TrimSpace_printed:
  assumes "endsWord s"
  shows "TrimSpace (CHR ''/'' # x @ CHR '' '' # s) = CHR ''/'' # x @ CHR '' '' # s"
proof (rule TrimSpace_id)
  show "spaceLen (CHR ''/'' # x @ CHR '' '' # s) = 0"
    by (simp add: asciiSpace_def space2_def space3_def split: list.splits)
  show "spaceLenRev (rev (CHR ''/'' # x @ CHR '' '' # s)) = 0"
    using spaceLenRev_word [of "rev s"] assms by (simp add: endsWord_def)
qed

lemma endsWord_lower: "lowerName s \<Longrightarrow> endsWord s"
  by (cases s rule: rev_exhaust) (auto simp: lowerName_def endsWord_def spaceLenRev_lower simp del: spaceLenRev.simps)

lemma endsWord_decimal: "endsWord (x @ decimal n)"
proof -
  obtain c s where cs: "rev (decimal n) = c # s" by (cases "rev (decimal n)") auto
  then have "decimalDigit c" using decimal_digits [of n] by (metis list.set_intros(1) list_all_iff set_rev)
  then show ?thesis using cs by (simp add: endsWord_def spaceLenRev_digit del: spaceLenRev.simps)
qed

lemma endsWord_Itoa: "endsWord (x @ Itoa n)"
  using endsWord_decimal [of x] endsWord_decimal [of "x @ ''-''"] by (simp add: Itoa_def)

lemma endsWord_trimmed: "a \<noteq> '''' \<Longrightarrow> TrimSpace a = a \<Longrightarrow> endsWord a"
proof -
  assume a: "a \<noteq> ''''" "TrimSpace a = a"
  have "TrimSpace a = rev (stripWhile spaceLenRev (rev (trimLeft a)))"
    by (simp add: TrimSpace_def trimRight_def)
  then have "rev a = stripWhile spaceLenRev (rev (trimLeft a))" using a(2) by (metis rev_rev_ident)
  then have "rev a = [] \<or> spaceLenRev (rev a) = 0" using stripWhile_fixed by metis
  then show ?thesis using a(1) by (simp add: endsWord_def)
qed

lemma endsWord_quoteArg: "a \<noteq> '''' \<Longrightarrow> TrimSpace a = a \<Longrightarrow> endsWord (quoteArgIfNeeded a)"
  using endsWord_trimmed [of a]
  by (simp add: quoteArgIfNeeded_def endsWord_def spaceLenRev_dquote del: spaceLenRev.simps)

section \<open>Tokens of a printed command\<close>

text \<open>The printed arguments, each after a blank.\<close>

definition printArg :: "string \<Rightarrow> string" where
  "printArg a = CHR '' '' # quoteArgIfNeeded a"

lemma TrimSpace_lower: "lowerName s \<Longrightarrow> TrimSpace s = s"
proof (rule TrimSpace_id)
  assume s: "lowerName s"
  then obtain c t where c: "s = c # t" "lowerChar c" by (cases s) (auto simp: lowerName_def)
  have "c \<notin> {CHR 0xC2, CHR 0xE1, CHR 0xE2, CHR 0xE3}" using c(2) by (auto simp: lowerChar_def)
  then show "spaceLen s = 0"
    using c(1) lowerChar_simps(10) [OF c(2)] by (simp add: space2_def space3_def split: list.split)
  show "spaceLenRev (rev s) = 0" using endsWord_lower [OF s] by (simp add: endsWord_def)
qed

lemma formatSlashCommand_lower:
  assumes "lowerName resource" "lowerName action"
  shows "formatSlashCommand resource action args True =
    CHR ''/'' # resource @ CHR '' '' # action @ concat (map printArg (trimmedArgs args))"
proof -
  have "concat (map (formatArg True) args) = concat (map printArg (trimmedArgs args))"
    by (induction args) (simp_all add: formatArg_def printArg_def trimmedArgs_def Let_def)
  then show ?thesis
    using assms by (simp add: formatSlashCommand_def TrimSpace_lower Let_def) (simp add: lowerName_def)
qed

lemma fold_bare:
  "quoteFree s \<Longrightarrow> CHR '' '' \<notin> set s \<Longrightarrow> CHR 0x09 \<notin> set s \<Longrightarrow> tz_quote z = None \<Longrightarrow>
    fold tokenStep s z = z\<lparr>tz_current := tz_current z @ s\<rparr>"
  by (induction s arbitrary: z) (auto simp: tokenStep_def quoteFree_def)

lemma fold_lower: "list_all lowerChar s \<Longrightarrow> tz_quote z = None \<Longrightarrow> fold tokenStep s z = z\<lparr>tz_current := tz_current z @ s\<rparr>"
  by (rule fold_bare) (auto simp: list_all_iff quoteFree_def dest: lowerChar_simps)

lemma fold_printArg:
  assumes "readable a" "tz_quote z = None"
  shows "fold tokenStep (printArg a) z = (flush z)\<lparr>tz_current := readBack a\<rparr>"
proof -
  have f: "tz_current (flush z) = ''''" "tz_quote (flush z) = None" using assms(2) by (simp_all add: flush_def)
  have b: "tokenStep (CHR '' '') z = flush z" using assms(2) by (simp add: tokenStep_def)
  show ?thesis
  proof (cases "hasBlank a")
    case True
    have "dquote \<notin> set (map cleanChar a)" by (auto simp: cleanChar_def split: if_splits)
    then have "fold tokenStep (map cleanChar a) ((flush z)\<lparr>tz_quote := Some dquote\<rparr>) =
        (flush z)\<lparr>tz_quote := Some dquote, tz_current := map cleanChar a\<rparr>"
      using tokenStep_quoted [of "map cleanChar a" "(flush z)\<lparr>tz_quote := Some dquote\<rparr>"] f by simp
    then show ?thesis
      using True assms(2) f by (simp add: printArg_def quoteArgIfNeeded_def readBack_def tokenStep_def)
  next
    case False
    then have "quoteFree a" "CHR '' '' \<notin> set a" "CHR 0x09 \<notin> set a"
      using assms(1) by (auto simp: readable_def hasBlank_def list_ex_iff)
    then have "fold tokenStep a (flush z) = (flush z)\<lparr>tz_current := a\<rparr>" using f by (simp add: fold_bare)
    then show ?thesis using False b by (simp add: printArg_def quoteArgIfNeeded_def readBack_def)
  qed
qed

text \<open>After the arguments: their tokens, the last of them still open.\<close>

lemma fold_printArgs:
  assumes "\<forall>a\<in>set as. readable a \<and> a \<noteq> ''''" "tz_quote z = None"
  shows "tz_quote (fold tokenStep (concat (map printArg as)) z) = None \<and>
    tz_tokens (flush (fold tokenStep (concat (map printArg as)) z)) = tz_tokens (flush z) @ map readBack as"
  using assms
proof (induction as arbitrary: z)
  case (Cons a as)
  have e: "fold tokenStep (concat (map printArg (a # as))) z =
      fold tokenStep (concat (map printArg as)) ((flush z)\<lparr>tz_current := readBack a\<rparr>)"
    using Cons.prems by (simp add: fold_printArg)
  have "tz_quote ((flush z)\<lparr>tz_current := readBack a\<rparr>) = None" using Cons.prems(2) by (simp add: flush_def)
  then show ?case
    unfolding e using Cons.IH [of "(flush z)\<lparr>tz_current := readBack a\<rparr>"] Cons.prems(1)
    by (simp add: flush_def readBack_nonempty)
qed simp

definition openCommand :: "string \<Rightarrow> string \<Rightarrow> tokenizer" where
  "openCommand resource action = \<lparr>tz_tokens = [resource], tz_current = action, tz_quote = None\<rparr>"

lemma Tokenize_open:
  assumes "lowerName resource" "lowerName action"
  shows "Tokenize (resource @ CHR '' '' # action @ s) = tz_tokens (flush (fold tokenStep s (openCommand resource action)))"
  using assms by (simp add: Tokenize_def fold_lower lowerName_def tokenStep_def flush_def openCommand_def)

lemma flush_open: "lowerName action \<Longrightarrow> tz_tokens (flush (openCommand resource action)) = [resource, action]"
  by (simp add: flush_def openCommand_def lowerName_def)

lemma Tokenize_print:
  assumes "lowerName resource" "lowerName action" "\<forall>a\<in>set as. readable a \<and> a \<noteq> ''''"
  shows "Tokenize (resource @ CHR '' '' # action @ concat (map printArg as)) = resource # action # map readBack as"
  using fold_printArgs [of as "openCommand resource action"] assms
  by (simp add: Tokenize_open flush_open) (simp add: openCommand_def)

text \<open>A page flag after the arguments, and a number that is read back.\<close>

lemma decimal_bare: "quoteFree (decimal n) \<and> CHR '' '' \<notin> set (decimal n) \<and> CHR 0x09 \<notin> set (decimal n)"
  using decimal_digits [of n] by (auto simp: list_all_iff decimalDigit_def quoteFree_def)

lemma Tokenize_page:
  assumes "lowerName resource" "lowerName action" "\<forall>a\<in>set as. readable a \<and> a \<noteq> ''''"
  shows "Tokenize (resource @ CHR '' '' # action @ concat (map printArg as) @ '' --page '' @ decimal n) =
    resource # action # map readBack as @ [''--page'', decimal n]"
proof -
  let ?z = "fold tokenStep (concat (map printArg as)) (openCommand resource action)"
  have z: "tz_quote ?z = None" "tz_tokens (flush ?z) = resource # action # map readBack as"
    using fold_printArgs [of as "openCommand resource action"] assms
    by (simp_all add: flush_open) (simp_all add: openCommand_def)
  have f: "tz_current (flush ?z) = ''''" "tz_quote (flush ?z) = None" using z(1) by (simp_all add: flush_def)
  have "fold tokenStep ('' --page '' @ decimal n) ?z =
      (flush ?z)\<lparr>tz_tokens := tz_tokens (flush ?z) @ [''--page''], tz_current := decimal n\<rparr>"
    using z(1) f decimal_bare [of n] by (simp add: tokenStep_def fold_bare) (simp add: flush_def fold_bare)
  then show ?thesis
    using assms z(2) by (simp add: Tokenize_open) (simp add: flush_def)
qed

lemma Atoi_decimal: "int n < 2 ^ 63 \<Longrightarrow> Atoi (decimal n) = Some (int n)"
proof -
  assume n: "int n < 2 ^ 63"
  have d: "list_all decimalDigit (decimal n)" by (rule decimal_digits)
  have "\<not> HasPrefix (decimal n) ''-''" "\<not> HasPrefix (decimal n) ''+''"
    using d by (cases "decimal n"; simp add: decimalDigit_def; force)+
  then show ?thesis using n d decimal_value [of n] by (simp add: Atoi_def Let_def)
qed

lemma extractFlags_page:
  "set ts \<inter> flagNames = {} \<Longrightarrow> \<not> HasPrefix v ''--'' \<Longrightarrow>
    extractFlags (ts @ [''--page'', v]) flags = (ts, setIntFlag ''--page'' v flags)"
proof (induction ts)
  case (Cons t ts)
  then have t: "t \<noteq> ''--range''" "t \<noteq> ''--id''" "t \<noteq> ''--page''" "t \<noteq> ''--prov''"
    and ih: "extractFlags (ts @ [''--page'', v]) flags = (ts, setIntFlag ''--page'' v flags)"
    by (auto simp: flagNames_def)
  obtain w ws where w: "ts @ [''--page'', v] = w # ws" by (cases "ts @ [''--page'', v]") auto
  have "extractFlags (t # w # ws) flags = (t # ts, setIntFlag ''--page'' v flags)" using t ih w by simp
  then show ?case using w by simp
qed simp

lemma decimal_no_flag: "\<not> HasPrefix (decimal n) ''--''"
  using decimal_digits [of n] by (cases "decimal n") (auto simp: decimalDigit_def)

section \<open>Printing and parsing\<close>

lemma parse_print:
  assumes "lowerName resource" "lowerName action" "TrimSpace (CHR ''/'' # body) = CHR ''/'' # body"
    "Tokenize body = resource # action # ts"
    "if shouldExtractGlobalFlags resource action then extractFlags (resource # action # ts) noFlags = (resource # action # out, flags)
     else out = ts \<and> flags = noFlags"
  shows "Parse (CHR ''/'' # body) =
    Inr \<lparr>pc_Resource = resource, pc_Action = action, pc_Args = out, pc_Page = pf_page flags, pc_Prov = pf_prov flags,
         pc_SelectID = pf_selectID flags, pc_Range = pf_rangeKey flags\<rparr>"
  using assms(5) unfolding Parse_def Let_def assms(3)
  by (cases "shouldExtractGlobalFlags resource action")
    (simp_all add: assms(4) resource_action [OF assms(1,2)] del: extractFlags.simps)

lemma TrimSpace_words:
  "endsWord s \<Longrightarrow> TrimSpace (CHR ''/'' # resource @ CHR '' '' # action @ p @ CHR '' '' # s) =
    CHR ''/'' # resource @ CHR '' '' # action @ p @ CHR '' '' # s"
  using TrimSpace_printed [of s "resource @ CHR '' '' # action @ p"] by simp

text \<open>The page callback of a list.\<close>

definition listPage :: "string \<Rightarrow> string \<Rightarrow> string list \<Rightarrow> int \<Rightarrow> ParsedCallback" where
  "listPage resource action args page =
     \<lparr>cb_Kind = ListPage, cb_Resource = resource, cb_Action = action, cb_Args = args, cb_Page = page,
      cb_ProviderIndex = 0, cb_SelectID = '''', cb_Range = ''''\<rparr>"

lemma SyntheticCommand_page:
  assumes "lowerName resource" "lowerName action"
  shows "SyntheticCommand (listPage resource action args page) =
    formatSlashCommand resource action args True @ '' --page '' @ Itoa page"
  using formatSlashCommand_lower [OF assms, of args] by (simp add: SyntheticCommand_def listPage_def Let_def)

lemma names_no_flags:
  "lowerName resource \<Longrightarrow> lowerName action \<Longrightarrow> set ts \<inter> flagNames = {} \<Longrightarrow>
    set (resource # action # ts) \<inter> flagNames = {}"
  using lowerName_no_flag by auto

lemma no_flags_free: "set ts \<inter> flagNames = {} \<Longrightarrow> flagFree ts"
  by (auto simp: flagFree_def flagNames_def dest: in_set_butlastD)

lemma Parse_format:
  assumes "lowerName resource" "lowerName action" "\<forall>a\<in>set (trimmedArgs args). readable a"
    "set (map readBack (trimmedArgs args)) \<inter> flagNames = {} \<or> \<not> shouldExtractGlobalFlags resource action"
  shows "Parse (formatSlashCommand resource action args True) =
    Inr \<lparr>pc_Resource = resource, pc_Action = action, pc_Args = map readBack (trimmedArgs args), pc_Page = 0,
         pc_Prov = - 1, pc_SelectID = '''', pc_Range = ''''\<rparr>"
proof -
  let ?as = "trimmedArgs args"
  have r: "\<forall>a\<in>set ?as. readable a \<and> a \<noteq> ''''" using assms(3) trimmedArgs_elem by blast
  note tk = Tokenize_print [OF assms(1,2) r]
  have x: "if shouldExtractGlobalFlags resource action
      then extractFlags (resource # action # map readBack ?as) noFlags = (resource # action # map readBack ?as, noFlags)
      else map readBack ?as = map readBack ?as \<and> noFlags = noFlags"
    using extractFlags_stable [OF no_flags_free [OF names_no_flags [OF assms(1,2)]]] assms(4)
    by (auto simp del: extractFlags.simps)
  show ?thesis
  proof (cases ?as rule: rev_exhaust)
    case Nil
    have t: "TrimSpace (CHR ''/'' # resource @ CHR '' '' # action) = CHR ''/'' # resource @ CHR '' '' # action"
      by (rule TrimSpace_printed [OF endsWord_lower [OF assms(2)]])
    show ?thesis
      using parse_print [OF assms(1,2) t _ x] tk Nil
      by (simp add: formatSlashCommand_lower [OF assms(1,2)] noFlags_def del: extractFlags.simps)
  next
    case (snoc as a)
    have "endsWord (quoteArgIfNeeded a)"
      using trimmedArgs_elem [of a args] snoc by (simp add: endsWord_quoteArg)
    from parse_print [OF assms(1,2) TrimSpace_words [OF this, of resource action "concat (map printArg as)"] _ x] tk snoc show ?thesis
      by (simp add: formatSlashCommand_lower [OF assms(1,2)] printArg_def noFlags_def)
  qed
qed

lemma Parse_page:
  assumes "lowerName resource" "lowerName action" "\<forall>a\<in>set (trimmedArgs args). readable a"
    "set (map readBack (trimmedArgs args)) \<inter> flagNames = {}" "shouldExtractGlobalFlags resource action" "n < 2 ^ 63"
  shows "Parse (SyntheticCommand (listPage resource action args (int n))) =
    Inr \<lparr>pc_Resource = resource, pc_Action = action, pc_Args = map readBack (trimmedArgs args), pc_Page = int n,
         pc_Prov = - 1, pc_SelectID = '''', pc_Range = ''''\<rparr>"
proof -
  let ?as = "trimmedArgs args"
  have r: "\<forall>a\<in>set ?as. readable a \<and> a \<noteq> ''''" using assms(3) trimmedArgs_elem by blast
  have i: "Itoa (int n) = decimal n" by (simp add: Itoa_def)
  have "setIntFlag ''--page'' (decimal n) noFlags = noFlags\<lparr>pf_page := int n\<rparr>"
    using assms(6) by (simp add: setIntFlag_def Atoi_decimal)
  then have x: "if shouldExtractGlobalFlags resource action
      then extractFlags (resource # action # map readBack ?as @ [''--page'', decimal n]) noFlags =
        (resource # action # map readBack ?as, noFlags\<lparr>pf_page := int n\<rparr>)
      else map readBack ?as = map readBack ?as @ [''--page'', decimal n] \<and> noFlags\<lparr>pf_page := int n\<rparr> = noFlags"
    using extractFlags_page [OF names_no_flags [OF assms(1,2,4)] decimal_no_flag, of n noFlags] assms(5)
    by (simp del: extractFlags.simps)
  have e: "endsWord (decimal n)" using endsWord_decimal [of "''''"] by simp
  from parse_print [OF assms(1,2) TrimSpace_words [OF e, of resource action "concat (map printArg ?as) @ '' --page''"] _ x] Tokenize_page [OF assms(1,2) r]
  show ?thesis
    by (simp add: SyntheticCommand_page [OF assms(1,2)] formatSlashCommand_lower [OF assms(1,2)] i noFlags_def)
qed

text \<open>C39 (command_roundtrip): The command printed for a hint or a tapped button parses back to the
  resource, the action and the arguments it was printed from, and the command of a page button also to
  its page. The arguments come back trimmed, empty ones dropped, and in one with a blank the line breaks
  read as blanks and double quotes as single ones; an argument that is trimmed, not empty and free of
  line breaks and double quotes comes back as it is. The resource and the action are lower-case
  letters, no argument without a blank has a quote in it, and none is a flag of the parser: a scheduled
  command, whose arguments hold another command, may have flags, but then no page.\<close>

theorem command_roundtrip:
  assumes "lowerName resource" "lowerName action" "\<forall>a\<in>set (trimmedArgs args). readable a"
    "set (map readBack (trimmedArgs args)) \<inter> flagNames = {} \<or> \<not> shouldExtractGlobalFlags resource action"
  shows "Parse (formatSlashCommand resource action args True) =
      Inr \<lparr>pc_Resource = resource, pc_Action = action, pc_Args = map readBack (trimmedArgs args), pc_Page = 0,
           pc_Prov = - 1, pc_SelectID = '''', pc_Range = ''''\<rparr> \<and>
    (shouldExtractGlobalFlags resource action \<longrightarrow> n < 2 ^ 63 \<longrightarrow>
      Parse (SyntheticCommand (listPage resource action args (int n))) =
      Inr \<lparr>pc_Resource = resource, pc_Action = action, pc_Args = map readBack (trimmedArgs args), pc_Page = int n,
           pc_Prov = - 1, pc_SelectID = '''', pc_Range = ''''\<rparr>) \<and>
    ((\<forall>a\<in>set args. plainArg a) \<longrightarrow> map readBack (trimmedArgs args) = args)"
  using Parse_format [OF assms] Parse_page [OF assms(1-3)] assms(4) shown_plain by blast

text \<open>A row with a blank and a quote in its name, and one of its pages.\<close>

theorem command_roundtrip_witness:
  "Parse (formatSlashCommand ''mcp'' ''get'' [''Joe's Server'', ''all''] True) =
      Inr \<lparr>pc_Resource = ''mcp'', pc_Action = ''get'', pc_Args = [''Joe's Server'', ''all''], pc_Page = 0,
           pc_Prov = - 1, pc_SelectID = '''', pc_Range = ''''\<rparr> \<and>
   Parse (SyntheticCommand (listPage ''mcp'' ''get'' [''Joe's Server'', ''all''] (int 12))) =
      Inr \<lparr>pc_Resource = ''mcp'', pc_Action = ''get'', pc_Args = [''Joe's Server'', ''all''], pc_Page = int 12,
           pc_Prov = - 1, pc_SelectID = '''', pc_Range = ''''\<rparr>"
proof -
  have p: "\<forall>a\<in>set [''Joe's Server'', ''all'']. plainArg a" by code_simp
  have "lowerName ''mcp''" "lowerName ''get''"
    "\<forall>a\<in>set (trimmedArgs [''Joe's Server'', ''all'']). readable a"
    "set (map readBack (trimmedArgs [''Joe's Server'', ''all''])) \<inter> flagNames = {}"
    "shouldExtractGlobalFlags ''mcp'' ''get''"
    by code_simp+
  then show ?thesis
    using command_roundtrip [of "''mcp''" "''get''" "[''Joe's Server'', ''all'']" 12] p by simp
qed

section \<open>A stray quote\<close>

lemma fold_quoted:
  "q \<notin> set s \<Longrightarrow> tz_quote z = Some q \<Longrightarrow> fold tokenStep s z = z\<lparr>tz_current := tz_current z @ s\<rparr>"
  by (induction s arbitrary: z) (auto simp: tokenStep_def)

lemma Tokenize_stray:
  assumes "lowerName resource" "lowerName action" "q = dquote \<or> q = squote" "quoteFree u" "CHR '' '' \<notin> set u"
    "CHR 0x09 \<notin> set u" "q \<notin> set v" "u @ v \<noteq> ''''"
  shows "Tokenize (resource @ CHR '' '' # action @ CHR '' '' # u @ q # v) = [resource, action, u @ v]"
proof -
  let ?z = "flush (openCommand resource action)"
  have z: "tz_quote ?z = None" "tz_current ?z = ''''" "tz_tokens ?z = [resource, action]"
    using assms(2) by (simp_all add: flush_def openCommand_def lowerName_def)
  have "tokenStep (CHR '' '') (openCommand resource action) = ?z" by (simp add: tokenStep_def openCommand_def)
  moreover have "fold tokenStep u ?z = ?z\<lparr>tz_current := u\<rparr>" using assms(4-6) z by (simp add: fold_bare)
  moreover have "tokenStep q (?z\<lparr>tz_current := u\<rparr>) = ?z\<lparr>tz_current := u, tz_quote := Some q\<rparr>"
    using assms(3) z by (auto simp: tokenStep_def)
  moreover have "fold tokenStep v (?z\<lparr>tz_current := u, tz_quote := Some q\<rparr>) =
      ?z\<lparr>tz_current := u @ v, tz_quote := Some q\<rparr>"
    using assms(7) by (simp add: fold_quoted)
  ultimately have "fold tokenStep (CHR '' '' # u @ q # v) (openCommand resource action) =
      ?z\<lparr>tz_current := u @ v, tz_quote := Some q\<rparr>" by simp
  then show ?thesis using assms(8) z(3) by (simp only: Tokenize_open [OF assms(1,2)]) (simp add: flush_def)
qed

lemma decimal_chars: "c \<in> set (Itoa n) \<Longrightarrow> c \<noteq> dquote \<and> c \<noteq> squote"
  using decimal_bare by (auto simp: Itoa_def quoteFree_def split: if_splits)

text \<open>C40 (stray_quote): An argument with a single quote mark and no blank is printed bare, so it does
  not come back: the parser drops the quote mark and reads everything after it, the page of a page
  button included, as part of the argument, and the page stays 0. The argument is trimmed, has
  something besides the mark and, without the mark, is no flag; the resource and the action are
  lower-case letters.\<close>

theorem stray_quote:
  assumes "lowerName resource" "lowerName action" "q = dquote \<or> q = squote" "quoteFree u" "quoteFree v"
    "\<not> hasBlank (u @ v)" "TrimSpace (u @ q # v) = u @ q # v" "u @ v \<noteq> ''''" "flagFree [u @ v]"
  shows "Parse (formatSlashCommand resource action [u @ q # v] True) =
      Inr \<lparr>pc_Resource = resource, pc_Action = action, pc_Args = [u @ v], pc_Page = 0, pc_Prov = - 1,
           pc_SelectID = '''', pc_Range = ''''\<rparr> \<and>
    Parse (SyntheticCommand (listPage resource action [u @ q # v] page)) =
      Inr \<lparr>pc_Resource = resource, pc_Action = action, pc_Args = [u @ v @ '' --page '' @ Itoa page], pc_Page = 0,
           pc_Prov = - 1, pc_SelectID = '''', pc_Range = ''''\<rparr>"
proof -
  have b: "CHR '' '' \<notin> set u" "CHR 0x09 \<notin> set u" "q \<notin> set v" "\<not> hasBlank (u @ q # v)"
    using assms(3,5,6) by (auto simp: hasBlank_def list_ex_iff quoteFree_def)
  have f: "formatSlashCommand resource action [u @ q # v] True =
      CHR ''/'' # resource @ CHR '' '' # action @ CHR '' '' # u @ q # v"
    using assms(7) b(4) by (simp add: formatSlashCommand_lower [OF assms(1,2)] trimmedArgs_def printArg_def quoteArgIfNeeded_def)
  have x: "if shouldExtractGlobalFlags resource action
      then extractFlags (resource # action # [w]) noFlags = (resource # action # [w], noFlags)
      else [w] = [w] \<and> noFlags = noFlags" if "flagFree [w]" for w
    using that lowerName_no_flag [OF assms(1)] lowerName_no_flag [OF assms(2)]
    by (simp add: extractFlags_stable flagFree_Cons flagNames_def del: extractFlags.simps)
  have "q \<notin> set (v @ '' --page '' @ Itoa page)" using assms(3) b(3) decimal_chars by auto
  note t1 = Tokenize_stray [OF assms(1-4) b(1-3) assms(8)]
    and t2 = Tokenize_stray [OF assms(1-4) b(1,2) this]
  have "flagFree [u @ v @ '' --page '' @ Itoa page]"
  proof -
    have "CHR '' '' \<in> set (u @ v @ '' --page '' @ Itoa page)" by simp
    moreover have "CHR '' '' \<notin> set ''--page''" "CHR '' '' \<notin> set ''--prov''" by simp_all
    ultimately have "u @ v @ '' --page '' @ Itoa page \<noteq> ''--page''" "u @ v @ '' --page '' @ Itoa page \<noteq> ''--prov''"
      by metis+
    then show ?thesis by (simp add: flagFree_def)
  qed
  note x2 = x [OF this]
  have e: "endsWord (u @ q # v)" using assms(7) by (intro endsWord_trimmed) simp_all
  have p1: "Parse (formatSlashCommand resource action [u @ q # v] True) =
      Inr \<lparr>pc_Resource = resource, pc_Action = action, pc_Args = [u @ v], pc_Page = 0, pc_Prov = - 1,
           pc_SelectID = '''', pc_Range = ''''\<rparr>"
    using parse_print [OF assms(1,2) TrimSpace_words [OF e, of resource action "[]"] _ x [OF assms(9)]] t1 by (simp add: f noFlags_def)
  have e2: "endsWord (Itoa page)" using endsWord_Itoa [of "''''"] by simp
  have p2: "Parse (SyntheticCommand (listPage resource action [u @ q # v] page)) =
      Inr \<lparr>pc_Resource = resource, pc_Action = action, pc_Args = [u @ v @ '' --page '' @ Itoa page], pc_Page = 0,
           pc_Prov = - 1, pc_SelectID = '''', pc_Range = ''''\<rparr>"
    using parse_print [OF assms(1,2) TrimSpace_words [OF e2, of resource action "CHR '' '' # (u @ q # v) @ '' --page''"] _ x2] t2 
    by (simp add: SyntheticCommand_page [OF assms(1,2)] f noFlags_def)
  show ?thesis using p1 p2 ..
qed

text \<open>The name O'Brien on a page button of a list.\<close>

theorem stray_quote_witness:
  "Parse (SyntheticCommand (listPage ''memory'' ''list'' [''O'Brien''] 2)) =
    Inr \<lparr>pc_Resource = ''memory'', pc_Action = ''list'', pc_Args = [''OBrien --page 2''], pc_Page = 0, pc_Prov = - 1,
         pc_SelectID = '''', pc_Range = ''''\<rparr>"
proof -
  have h: "lowerName ''memory''" "lowerName ''list''" "quoteFree ''O''" "quoteFree ''Brien''" "\<not> hasBlank (''O'' @ ''Brien'')"
    "TrimSpace (''O'' @ squote # ''Brien'') = ''O'' @ squote # ''Brien''" "flagFree [''O'' @ ''Brien'']"
    by code_simp+
  have "Itoa 2 = ''2''" by code_simp
  then show ?thesis
    using stray_quote [OF h(1,2) disjI2 [OF refl] h(3-6) _ h(7), of 2] by simp
qed

section \<open>Flags\<close>

text \<open>The flag sweep leaves no integer flag, and a string flag only as the last
  token, where it has no value; what it leaves are tokens of the input in their order; and sweeping
  again changes nothing.\<close>

theorem flags_extracted:
  "flagFree (fst (extractFlags ts flags)) \<and> subseq (fst (extractFlags ts flags)) ts \<and>
   extractFlags (fst (extractFlags ts flags)) flags' = (fst (extractFlags ts flags), flags')"
  using extractFlags_flagFree extractFlags_subseq extractFlags_stable by blast

section \<open>Parsed commands\<close>

definition flagsInRange :: "parsedFlags \<Rightarrow> bool" where
  "flagsInRange flags \<longleftrightarrow> 0 \<le> pf_page flags \<and> pf_page flags < 2 ^ 63 \<and> - 1 \<le> pf_prov flags \<and> pf_prov flags < 2 ^ 63"

lemma setIntFlag_range: "flagsInRange flags \<Longrightarrow> flagsInRange (setIntFlag flag v flags)"
  by (auto simp: setIntFlag_def flagsInRange_def Atoi_def Let_def split: option.splits if_splits)

lemma extractFlags_range: "flagsInRange flags \<Longrightarrow> flagsInRange (snd (extractFlags ts flags))"
proof (induction ts flags rule: extractFlags.induct)
  case (3 t v rest flags)
  have s: "flagsInRange (flags\<lparr>pf_rangeKey := v\<rparr>)" "flagsInRange (flags\<lparr>pf_selectID := v\<rparr>)"
    using "3.prems" by (simp_all add: flagsInRange_def)
  show ?case
    using "3.IH" "3.prems" s setIntFlag_range [OF "3.prems"] by (auto split: prod.split if_split)
qed simp_all

lemma noFlags_range: "flagsInRange noFlags"
  by (simp add: flagsInRange_def noFlags_def)

lemma flagFree_drop: "flagFree ts \<Longrightarrow> flagFree (drop n ts)"
  by (induction ts arbitrary: n) (auto simp: drop_Cons flagFree_Cons split: nat.split)

text \<open>Every input parses to an error or to a command in range: a missing slash
  is reported only for a trimmed text without one, and an empty command only when nothing but flags follows it; the page is a non-negative 64-bit number,
  the provider likewise or -1, and outside of scheduled commands no flag is left among the arguments.\<close>

theorem parsed_in_range:
  "case Parse s of
     Inl CommandMustStartWithSlash \<Rightarrow> \<not> HasPrefix (TrimSpace s) ''/''
   | Inl EmptyCommand \<Rightarrow> HasPrefix (TrimSpace s) ''/'' \<and>
       fst (extractFlags (Tokenize (drop 1 (TrimSpace s))) noFlags) = []
   | Inr c \<Rightarrow> HasPrefix (TrimSpace s) ''/'' \<and>
       0 \<le> pc_Page c \<and> pc_Page c < 2 ^ 63 \<and> - 1 \<le> pc_Prov c \<and> pc_Prov c < 2 ^ 63 \<and>
       (flagFree (pc_Args c) \<or> \<not> shouldExtractGlobalFlags (pc_Resource c) (pc_Action c))"
proof -
  let ?ts = "Tokenize (drop 1 (TrimSpace s))"
  have r: "flagsInRange (snd (extractFlags ?ts noFlags))" by (rule extractFlags_range [OF noFlags_range])
  have f: "flagFree (drop 2 (fst (extractFlags ?ts noFlags)))"
    by (rule flagFree_drop [OF extractFlags_flagFree])
  show ?thesis
    using r f noFlags_range by (simp add: Parse_def Let_def flagsInRange_def)
qed

end
