(* ===== verification/TextProps.thy ===== *)
theory TextProps
  imports ToolOutput
begin

text \<open>
  The properties of text limiting: pruned text is within its budget and shows the
  header, a beginning and an end of the original; what is limited for storage can be
  stored; limited tool output never exceeds its limit; truncation counts runes.
\<close>

section \<open>Pruning\<close>

definition showsEdges :: "PruneConfig \<Rightarrow> bool" where
  "showsEdges cfg \<longleftrightarrow> 0 < wrap64 (pr_HeadBytes cfg + pr_TailBytes cfg) \<and> 0 < wrap64 (pr_HeadLines cfg + pr_TailLines cfg)"

lemma Prune_unchanged:
  "fits s (normalizeConfig cfg) \<Longrightarrow> showsEdges (normalizeConfig cfg) \<Longrightarrow> PruneWithEdges s label cfg = s"
  by (simp add: PruneWithEdges_def showsEdges_def Let_def)

lemma Prune_omitted:
  "\<not> showsEdges (normalizeConfig cfg) \<Longrightarrow> PruneWithEdges s label cfg =
    (if s = '''' then '''' else fitBudget (omittedText s label (normalizeConfig cfg)) (normalizeConfig cfg))"
  by (auto simp: PruneWithEdges_def showsEdges_def Let_def)

text \<open>C26 (prune_budget): Pruned text never exceeds the configured number of bytes and lines, whatever the
  text and the label, for a marker that starts with a plain ASCII character. When the configuration
  shows an edge (HeadBytes + TailBytes and HeadLines + TailLines are positive), text within the budget is
  returned as it is and pruning twice is pruning once. When it shows none, the empty text is returned and
  every other text, short or long, is replaced by the omission note, cut to the budget.\<close>

theorem prune_budget:
  assumes "plainStart (pr_Marker (normalizeConfig cfg))"
  shows "int (length (PruneWithEdges s label cfg)) \<le> pr_MaxBytes (normalizeConfig cfg) \<and>
    CountLines (PruneWithEdges s label cfg) \<le> pr_MaxLines (normalizeConfig cfg) \<and>
    (showsEdges (normalizeConfig cfg) \<longrightarrow>
       (fits s (normalizeConfig cfg) \<longrightarrow> PruneWithEdges s label cfg = s) \<and>
       PruneWithEdges (PruneWithEdges s label cfg) label' cfg = PruneWithEdges s label cfg) \<and>
    (\<not> showsEdges (normalizeConfig cfg) \<longrightarrow>
       PruneWithEdges s label cfg =
         (if s = '''' then '''' else fitBudget (omittedText s label (normalizeConfig cfg)) (normalizeConfig cfg)))"
  using PruneWithEdges_within [OF assms, of s label] Prune_unchanged [of _ cfg] Prune_omitted [of cfg s label]
  by (auto simp: Exceeds_def [of "PruneWithEdges s label cfg"])

definition smallPrune :: PruneConfig where
  "smallPrune = \<lparr>pr_MaxBytes = 90, pr_MaxLines = 12, pr_HeadBytes = 8, pr_TailBytes = 4, pr_HeadLines = 2, pr_TailLines = 2, pr_Marker = ''''\<rparr>"

definition longText :: string where
  "longText = replicate 60 (CHR ''a'') @ newline # replicate 60 (CHR ''z'')"

theorem prune_budget_witness:
  "int (length (PruneWithEdges longText ''log'' smallPrune)) \<le> 90 \<and> CountLines (PruneWithEdges longText ''log'' smallPrune) \<le> 12 \<and>
   PruneWithEdges (PruneWithEdges longText ''log'' smallPrune) ''again'' smallPrune = PruneWithEdges longText ''log'' smallPrune"
proof -
  have c: "pr_MaxBytes (normalizeConfig smallPrune) = 90" "pr_MaxLines (normalizeConfig smallPrune) = 12"
    "plainStart (pr_Marker (normalizeConfig smallPrune))" "showsEdges (normalizeConfig smallPrune)"
    by code_simp+
  show ?thesis using prune_budget [OF c(3), of longText "''log''" "''again''"] c by simp
qed

text \<open>The loop ends with a whole header, a beginning of the head and an end of the tail.\<close>

lemma shrinkHeadTail_edges:
  assumes "shrinkHeadTail head tail = (head', tail')"
  shows "prefix head' head" "suffix tail' tail"
  using assms boundedPrefix_prefix boundedSuffix_suffix
  by (auto simp: shrinkHeadTail_def shrinkPrefix_def shrinkSuffix_def split: if_splits)

lemma fitHeadTailLoop_edges:
  assumes "fits (header @ headTailSeparator) cfg"
  shows "\<exists>h t. prefix h head \<and> suffix t tail \<and> fitHeadTailLoop header head tail cfg = header @ h @ headTailSeparator @ t"
  using assms
proof (induction header head tail cfg rule: fitHeadTailLoop.induct)
  case (1 header head tail cfg)
  obtain h t where ht: "shrinkHeadTail head tail = (h, t)" by (cases "shrinkHeadTail head tail")
  show ?case
  proof (cases "fits (header @ head @ headTailSeparator @ tail) cfg")
    case True
    then show ?thesis by (subst fitHeadTailLoop.simps) (auto simp: Let_def)
  next
    case False
    then have ne: "\<not> (h = head \<and> t = tail)"
      using shrinkHeadTail_shorter [OF ht] "1.prems" by auto
    then obtain h' t' where "prefix h' h" "suffix t' t"
        "fitHeadTailLoop header h t cfg = header @ h' @ headTailSeparator @ t'"
      using "1.IH" [OF refl _ ht [symmetric] refl ne] False "1.prems" by auto
    moreover have "fitHeadTailLoop header head tail cfg = fitHeadTailLoop header h t cfg"
      using False ne ht by (subst fitHeadTailLoop.simps) (auto simp: Let_def)
    ultimately show ?thesis
      using shrinkHeadTail_edges [OF ht] by (metis prefix_order.trans suffix_order.trans)
  qed
qed

text \<open>Text over the budget is shown as the header with its sizes, a beginning of the text,
  the separator and an end of the text, nothing else, as long as the header and the separator fit the
  budget and an end is to be shown.\<close>

theorem prune_edges:
  assumes "cfg = normalizeConfig cfg0" "showsEdges cfg" "\<not> fits s cfg"
    "0 < pr_TailBytes cfg" "0 < pr_TailLines cfg" "boundedSuffix s (pr_TailBytes cfg) (pr_TailLines cfg) \<noteq> ''''"
    "fits (headerText s label cfg @ headTailSeparator) cfg"
  shows "\<exists>h t. prefix h s \<and> suffix t s \<and> PruneWithEdges s label cfg0 = headerText s label cfg @ h @ headTailSeparator @ t"
proof -
  let ?h = "boundedPrefix s (min (pr_HeadBytes cfg) (int (length s))) (pr_HeadLines cfg)"
  let ?t = "boundedSuffix s (min (pr_TailBytes cfg) (int (length s))) (pr_TailLines cfg)"
  have s: "s \<noteq> ''''" using assms(6) by (auto simp: boundedSuffix_def)
  have "?t \<noteq> ''''" using assms(4,6) s by (auto simp: boundedSuffix_def min_le_iff_disj split: if_splits)
  then have "PruneWithEdges s label cfg0 = fitHeadTailLoop (headerText s label cfg) ?h ?t cfg"
    using assms(1-5) s unfolding PruneWithEdges_def showsEdges_def Let_def fitHeadTailBudget_def by (simp del: assms(1))
  then show ?thesis
    using fitHeadTailLoop_edges [OF assms(7), of ?h ?t] boundedPrefix_prefix boundedSuffix_suffix
    by (metis prefix_order.trans suffix_order.trans)
qed

theorem prune_edges_witness:
  "\<exists>h t. prefix h longText \<and> suffix t longText \<and> PruneWithEdges longText ''log'' smallPrune =
     headerText longText ''log'' (normalizeConfig smallPrune) @ h @ headTailSeparator @ t"
proof -
  have h: "showsEdges (normalizeConfig smallPrune)" "\<not> fits longText (normalizeConfig smallPrune)"
    "0 < pr_TailBytes (normalizeConfig smallPrune)" "0 < pr_TailLines (normalizeConfig smallPrune)"
    "boundedSuffix longText (pr_TailBytes (normalizeConfig smallPrune)) (pr_TailLines (normalizeConfig smallPrune)) \<noteq> ''''"
    "fits (headerText longText ''log'' (normalizeConfig smallPrune) @ headTailSeparator) (normalizeConfig smallPrune)"
    by code_simp+
  show ?thesis by (rule prune_edges [OF refl h])
qed

section \<open>Storable text\<close>

lemma bounded_set: "set (boundedPrefix s m n) \<subseteq> set s" "set (boundedSuffix s m n) \<subseteq> set s"
  by (rule set_mono_prefix [OF boundedPrefix_prefix], rule set_mono_suffix [OF boundedSuffix_suffix])

lemma fitBudget_set: "set (fitBudget s cfg) \<subseteq> set s \<union> set (pr_Marker cfg)"
  using bounded_set(1) by (auto simp: fitBudget_def Let_def)

lemma fitBudgetPreserveSuffix_set:
  "set (fitBudgetPreserveSuffix pre suf cfg) \<subseteq> set pre \<union> set suf \<union> set (pr_Marker cfg)"
proof -
  have "set (fitBudget (boundedPrefix pre a b @ boundedSuffix suf c d) cfg) \<subseteq> set pre \<union> set suf \<union> set (pr_Marker cfg)" for a b c d
    using fitBudget_set [of "boundedPrefix pre a b @ boundedSuffix suf c d" cfg] bounded_set(1) [of pre a b]
      bounded_set(2) [of suf c d] by auto
  moreover have "set (fitBudget pre cfg) \<subseteq> set pre \<union> set suf \<union> set (pr_Marker cfg)" using fitBudget_set by blast
  moreover have "set (boundedPrefix pre a b @ boundedSuffix suf c d) \<subseteq> set pre \<union> set suf \<union> set (pr_Marker cfg)" for a b c d
    using bounded_set(1) [of pre a b] bounded_set(2) [of suf c d] by auto
  ultimately show ?thesis unfolding fitBudgetPreserveSuffix_def Let_def by (simp split: if_split)
qed

lemma fitHeadTailLoop_set:
  "set (fitHeadTailLoop header head tail cfg) \<subseteq>
     set header \<union> set head \<union> set tail \<union> set headTailSeparator \<union> set (pr_Marker cfg)"
proof (induction header head tail cfg rule: fitHeadTailLoop.induct)
  case (1 header head tail cfg)
  obtain h t where ht: "shrinkHeadTail head tail = (h, t)" by (cases "shrinkHeadTail head tail")
  note e = set_mono_prefix [OF shrinkHeadTail_edges(1) [OF ht]] set_mono_suffix [OF shrinkHeadTail_edges(2) [OF ht]]
  show ?case
  proof (cases "fits (header @ head @ headTailSeparator @ tail) cfg \<or> h = head \<and> t = tail")
    case True
    then show ?thesis
      using ht fitBudgetPreserveSuffix_set [of "header @ head @ headTailSeparator" tail cfg]
      by (subst fitHeadTailLoop.simps) (auto simp: Let_def)
  next
    case False
    then show ?thesis
      using "1.IH" [OF refl _ ht [symmetric] refl] e ht
      by (subst fitHeadTailLoop.simps) (auto simp: Let_def)
  qed
qed

lemma decimal_no_nul: "CHR 0x00 \<notin> set (decimal n)"
proof (induction n rule: decimal.induct)
  case (1 n)
  have d: "char_of (48 + k) \<noteq> CHR 0x00" if "k < 10" for k :: nat
  proof
    assume "char_of (48 + k) = CHR 0x00"
    then have "of_char (char_of (48 + k) :: char) = (of_char (CHR 0x00) :: nat)" by (rule arg_cong)
    then show False using that by simp
  qed
  show ?case
  proof (cases "n < 10")
    case True
    then show ?thesis using d [of n] by (subst decimal.simps) auto
  next
    case False
    then show ?thesis using 1 d [of "n mod 10"] by (subst decimal.simps) auto
  qed
qed

lemma Prune_no_nul:
  assumes "CHR 0x00 \<notin> set s" "CHR 0x00 \<notin> set label" "CHR 0x00 \<notin> set (pr_Marker cfg)"
  shows "CHR 0x00 \<notin> set (PruneWithEdges s label cfg)"
proof -
  let ?c = "normalizeConfig cfg"
  have m: "CHR 0x00 \<notin> set (pr_Marker ?c)" using assms(3) by (simp add: normalizeConfig_def DefaultMarker_def)
  have t: "CHR 0x00 \<notin> set (headerText s label ?c)" "CHR 0x00 \<notin> set (omittedText s label ?c)"
    using m assms(2) decimal_no_nul by (auto simp: headerText_def omittedText_def sizeNote_def)
  have sep: "CHR 0x00 \<notin> set headTailSeparator" by (simp add: headTailSeparator_def)
  have "CHR 0x00 \<notin> set (fitBudget (headerText s label ?c @ boundedPrefix s a b) ?c)" for a b
    using fitBudget_set [of "headerText s label ?c @ boundedPrefix s a b" ?c] bounded_set(1) [of s a b] m t(1) assms(1) by auto
  moreover have "CHR 0x00 \<notin> set (fitHeadTailLoop (headerText s label ?c) (boundedPrefix s a b) (boundedSuffix s e d) ?c)" for a b e d
    using fitHeadTailLoop_set [of "headerText s label ?c" "boundedPrefix s a b" "boundedSuffix s e d" ?c]
      bounded_set(1) [of s a b] bounded_set(2) [of s e d] m t(1) assms(1) sep by auto
  moreover have "CHR 0x00 \<notin> set (fitBudget (omittedText s label ?c) ?c)"
    using fitBudget_set [of "omittedText s label ?c" ?c] m t(2) by auto
  ultimately show ?thesis
    using assms(1) by (simp add: PruneWithEdges_def fitHeadTailBudget_def Let_def split: if_split)
qed

lemma toolOutputPruneConfig_facts:
  "pr_Marker (toolOutputPruneConfig limit) = DefaultMarker" "minToolOutputMaxBytes \<le> pr_MaxBytes (toolOutputPruneConfig limit)"
  "1 \<le> pr_MaxLines (toolOutputPruneConfig limit)"
  by (auto simp: toolOutputPruneConfig_def Let_def DefaultMaxBytes_def DefaultMaxLines_def minToolOutputMaxBytes_def split: prod.split)

lemma normalize_toolOutput:
  "pr_MaxBytes (normalizeConfig (toolOutputPruneConfig limit)) = pr_MaxBytes (toolOutputPruneConfig limit)"
  "pr_MaxLines (normalizeConfig (toolOutputPruneConfig limit)) = pr_MaxLines (toolOutputPruneConfig limit)"
  "pr_Marker (normalizeConfig (toolOutputPruneConfig limit)) = DefaultMarker"
  using toolOutputPruneConfig_facts [of limit]
  by (auto simp: normalizeConfig_def minToolOutputMaxBytes_def DefaultMarker_def)

lemma DefaultMarker_plain: "plainStart DefaultMarker" "validUTF8 DefaultMarker" "CHR 0x00 \<notin> set DefaultMarker"
  by code_simp+

text \<open>Whatever bytes a tool produced, the limited string is valid UTF-8, has no
  NUL byte and is within the normalized limit, for a label that is valid and free of NUL; and making
  text storable is idempotent.\<close>

theorem limit_string_storable:
  assumes "validUTF8 label" "CHR 0x00 \<notin> set label"
  shows "validUTF8 (LimitString text0 label limit) \<and> CHR 0x00 \<notin> set (LimitString text0 label limit) \<and>
    int (length (LimitString text0 label limit)) \<le> to_MaxBytes (NormalizedLimit limit) \<and>
    CountLines (LimitString text0 label limit) \<le> to_MaxLines (NormalizedLimit limit) \<and>
    StorageText (StorageText text0) = StorageText text0"
proof -
  note n = normalize_toolOutput [of limit] and f = toolOutputPruneConfig_facts [of limit]
  have "fits (LimitString text0 label limit) (normalizeConfig (toolOutputPruneConfig limit))"
    unfolding LimitString_def by (rule PruneWithEdges_within) (simp add: n DefaultMarker_plain)
  then show ?thesis
    using StorageText_facts [of text0] StorageText_facts(3) [of "StorageText text0"] assms f(1) DefaultMarker_plain
      PruneWithEdges_valid [of "StorageText text0" label "toolOutputPruneConfig limit"]
      Prune_no_nul [of "StorageText text0" label "toolOutputPruneConfig limit"]
    by (simp add: LimitString_def NormalizedLimit_def Exceeds_def n)
qed

theorem limit_string_storable_witness:
  "validUTF8 (LimitString [CHR 0x61, CHR 0x00, CHR 0xFF, CHR 0xFE, CHR 0xC3, CHR 0xA9] ''exec'' \<lparr>to_MaxBytes = 0, to_MaxLines = 0\<rparr>) \<and>
   LimitString [CHR 0x61, CHR 0x00, CHR 0xFF, CHR 0xFE, CHR 0xC3, CHR 0xA9] ''exec'' \<lparr>to_MaxBytes = 0, to_MaxLines = 0\<rparr> =
     [CHR 0x61, CHR 0x5C, CHR ''x'', CHR ''0'', CHR ''0'', CHR 0xEF, CHR 0xBF, CHR 0xBD, CHR 0xC3, CHR 0xA9]"
proof
  have l: "validUTF8 ''exec''" "CHR 0x00 \<notin> set ''exec''" by code_simp+
  show "validUTF8 (LimitString [CHR 0x61, CHR 0x00, CHR 0xFF, CHR 0xFE, CHR 0xC3, CHR 0xA9] ''exec'' \<lparr>to_MaxBytes = 0, to_MaxLines = 0\<rparr>)"
    using limit_string_storable [OF l] by blast
  show "LimitString [CHR 0x61, CHR 0x00, CHR 0xFF, CHR 0xFE, CHR 0xC3, CHR 0xA9] ''exec'' \<lparr>to_MaxBytes = 0, to_MaxLines = 0\<rparr> =
     [CHR 0x61, CHR 0x5C, CHR ''x'', CHR ''0'', CHR ''0'', CHR 0xEF, CHR 0xBF, CHR 0xBD, CHR 0xC3, CHR 0xA9]"
    by code_simp
qed

section \<open>Structured output\<close>

lemma jsonByte_no_newline: "newline \<notin> set (jsonByte c)"
proof -
  have h: "hexDigit n \<noteq> newline" if "n < 16" for n
  proof
    assume "hexDigit n = newline"
    then have "of_char (hexDigit n) = (of_char newline :: nat)" by (rule arg_cong)
    then show False using that by (auto simp: hexDigit_def split: if_splits)
  qed
  have "(byteVal c div 16) < 16"
    using nat_of_char_less_256 [of c] by (simp add: less_mult_imp_div_less)
  then have "newline \<noteq> hexDigit (byteVal c div 16)" "newline \<noteq> hexDigit (byteVal c mod 16)"
    using h [THEN not_sym] by simp_all
  then show ?thesis unfolding jsonByte_def by (simp split: if_split)
qed

lemma rune_no_newline:
  assumes "\<not> byteVal a < 128"
  shows "newline \<notin> set (take (runeLen (a # s)) (a # s))"
proof
  assume "newline \<in> set (take (runeLen (a # s)) (a # s))"
  then obtain i where i: "i < runeLen (a # s)" "(a # s) ! i = newline" by (auto simp: in_set_conv_nth)
  show False
  proof (cases "i = 0")
    case True
    then show ?thesis using i assms by auto
  next
    case False
    then have "\<not> RuneStart newline" using runeLen_inner [of i "a # s"] i by auto
    then show ?thesis by (simp add: RuneStart_def)
  qed
qed

lemma jsonChars_no_newline: "newline \<notin> set (jsonChars s)"
proof (induction s rule: jsonChars.induct)
  case (2 a s)
  show ?case
  proof (cases "byteVal a < 128 \<or> runeLen (a # s) = 0")
    case True
    then show ?thesis using 2 jsonByte_no_newline [of a] by (auto simp: jsonChars.simps(2))
  next
    case False
    then show ?thesis
      using 2(3) rune_no_newline [of a s] by (auto simp: jsonChars.simps(2) Let_def simp del: take_Suc_Cons)
  qed
qed simp

text \<open>The two wrappers, with their keys in order; the error wrapper is the shorter one.\<close>

lemma wrapper_json:
  "MarshalString (truncatedWrapper content) =
     CHR 0x7B # jsonString ''_memoh_truncated'' @ '':true,'' @ jsonString ''content'' @ '':'' @ jsonString content @ [CHR 0x7D]"
  "MarshalString (AMap [(''isError'', ABool True), (''content'', AString content)]) =
     CHR 0x7B # jsonString ''content'' @ '':'' @ jsonString content @ '','' @ jsonString ''isError'' @ '':true'' @ [CHR 0x7D]"
proof -
  have k: "sort_key fst [(''_memoh_truncated'', a), (''content'', b)] = [(''_memoh_truncated'', a), (''content'', b)]"
    "sort_key fst [(''isError'', a), (''content'', b)] = [(''content'', b), (''isError'', a)]" for a b :: string
    by simp_all
  show "MarshalString (truncatedWrapper content) =
     CHR 0x7B # jsonString ''_memoh_truncated'' @ '':true,'' @ jsonString ''content'' @ '':'' @ jsonString content @ [CHR 0x7D]"
    by (simp add: truncatedWrapper_def jsonObject_def k jsonSeq_def upt_rec)
  show "MarshalString (AMap [(''isError'', ABool True), (''content'', AString content)]) =
     CHR 0x7B # jsonString ''content'' @ '':'' @ jsonString content @ '','' @ jsonString ''isError'' @ '':true'' @ [CHR 0x7D]"
    by (simp add: jsonObject_def k jsonSeq_def upt_rec)
qed

lemma key_lengths: "length (jsonString ''_memoh_truncated'') = 18" "length (jsonString ''content'') = 9" "length (jsonString ''isError'') = 9"
  by code_simp+

lemma one_line: "newline \<notin> set s \<Longrightarrow> CountLines s \<le> 1"
  by (simp add: CountLines_def)

lemma wrapper_fits:
  assumes "int (length (jsonString content)) + 36 \<le> pr_MaxBytes cfg" "1 \<le> pr_MaxLines cfg"
  shows "\<not> toolOutputExceeds (truncatedWrapper content) cfg"
    "\<not> toolOutputExceeds (AMap [(''isError'', ABool True), (''content'', AString content)]) cfg"
proof -
  have "newline \<notin> set (jsonString x)" for x using jsonChars_no_newline [of x] by (simp add: jsonString_def)
  then have "newline \<notin> set (MarshalString (truncatedWrapper content))"
    "newline \<notin> set (MarshalString (AMap [(''isError'', ABool True), (''content'', AString content)]))"
    unfolding wrapper_json by auto
  note l = this [THEN one_line]
  show "\<not> toolOutputExceeds (truncatedWrapper content) cfg"
    "\<not> toolOutputExceeds (AMap [(''isError'', ABool True), (''content'', AString content)]) cfg"
    using l assms unfolding toolOutputExceeds_def Exceeds_def wrapper_json by (auto simp: key_lengths)
qed

lemma wrapper_needs: "\<not> toolOutputExceeds (truncatedWrapper content) cfg \<Longrightarrow> int (length (jsonString content)) + 36 \<le> pr_MaxBytes cfg"
  unfolding toolOutputExceeds_def Exceeds_def wrapper_json by (simp add: key_lengths)

lemma DefaultMarker_json: "length (jsonString DefaultMarker) = 16"
  by code_simp

lemma contentLoop_fits:
  assumes "minToolOutputMaxBytes \<le> pr_MaxBytes cfg"
  shows "int (length (jsonString (contentLoop n raw label cfg))) + 36 \<le> pr_MaxBytes cfg"
  using assms
proof (induction n raw label cfg rule: contentLoop.induct)
  case (1 n raw label cfg)
  have m: "int (length (jsonString DefaultMarker)) + 36 \<le> pr_MaxBytes cfg"
    using "1.prems" by (simp add: DefaultMarker_json minToolOutputMaxBytes_def)
  show ?case
    using 1 m wrapper_needs by (subst contentLoop.simps) (simp add: Let_def split: if_split)
qed

lemma fallbackContent_fits:
  assumes "minToolOutputMaxBytes \<le> pr_MaxBytes cfg"
  shows "int (length (jsonString (fallbackContentString raw label cfg))) + 36 \<le> pr_MaxBytes cfg"
  using contentLoop_fits [OF assms] assms
  by (simp add: fallbackContentString_def Let_def DefaultMarker_json minToolOutputMaxBytes_def)

lemma fitToolOutputValue_fits:
  assumes "fitToolOutputValue v label cfg = Some r"
  shows "\<not> toolOutputExceeds r cfg \<and> (\<exists>c. r = limitToolOutputValue v label c)"
proof -
  obtain d where "fitAttempt v label cfg d = Some r"
    using assms by (auto simp: fitToolOutputValue_def Let_def split: if_splits option.splits)
  then show ?thesis by (auto simp: fitAttempt_def Let_def split: if_splits)
qed

lemma limitFields_lookup: "map_of (limitFields m label cfg) k = map_option (\<lambda>v. limitToolOutputValue v (toolOutputChildLabel label k) cfg) (map_of m k)"
  by (induction m) auto

lemma limit_isBool: "limitToolOutputValue v label cfg = ABool b \<longleftrightarrow> v = ABool b"
  by (cases v) auto

lemma limit_isError: "isErrorResultMap (limitToolOutputValue v label cfg) = isErrorResultMap v"
  by (cases v) (auto simp: isErrorResultMap_def limitFields_lookup limit_isBool)

text \<open>C25 (limit_tool_output): Whatever a tool returns, the JSON encoding of the limited output is within the
  normalized limit of bytes and lines, and an error result stays an error result while no other
  becomes one.\<close>

theorem limit_tool_output:
  "\<not> EncodedExceeds (LimitToolOutput v label limit) limit \<and>
   isErrorResultMap (LimitToolOutput v label limit) = isErrorResultMap v"
proof -
  let ?c = "toolOutputPruneConfig limit" and ?l = "limitToolOutputValue v label (toolOutputPruneConfig limit)"
  note f = toolOutputPruneConfig_facts(2,3) [of limit]
  note w = wrapper_fits [OF fallbackContent_fits [OF f(1)] f(2)]
  have e: "isErrorResultMap (fallbackErrorToolOutput u label ?c)" "\<not> isErrorResultMap (fallbackToolOutput u label ?c)" for u
    by (simp_all add: isErrorResultMap_def fallbackErrorToolOutput_def fallbackToolOutput_def truncatedWrapper_def)
  have "\<not> toolOutputExceeds (LimitToolOutput v label limit) ?c"
    using w fitToolOutputValue_fits [of v label ?c]
    by (auto simp: LimitToolOutput_def Let_def fallbackErrorToolOutput_def fallbackToolOutput_def split: option.split)
  moreover have "isErrorResultMap (LimitToolOutput v label limit) = isErrorResultMap v"
    using e fitToolOutputValue_fits [of v label ?c] limit_isError
    by (auto simp: LimitToolOutput_def Let_def split: option.split)
  ultimately show ?thesis by (simp add: EncodedExceeds_def)
qed

section \<open>Truncation\<close>

text \<open>Truncating a valid string to a positive number of runes gives a valid string of at
  most that many runes: the string itself when it is short enough, and otherwise exactly that many,
  the suffix included, whether or not the suffix fits.\<close>

theorem truncate_runes:
  assumes "validUTF8 s" "validUTF8 ending" "0 < maxRunes"
  shows "validUTF8 (TruncateRunesWithSuffix s maxRunes ending) \<and>
    int (RuneCountInString (TruncateRunesWithSuffix s maxRunes ending)) = min maxRunes (int (RuneCountInString s)) \<and>
    (int (RuneCountInString s) \<le> maxRunes \<longrightarrow> TruncateRunesWithSuffix s maxRunes ending = s)"
proof (cases "s \<noteq> '''' \<and> maxRunes < int (RuneCountInString s) \<and> int (RuneCountInString ending) < maxRunes")
  case True
  let ?k = "maxRunes - int (RuneCountInString ending)"
  obtain i where i: "runeIndex s (nat maxRunes) = Some i"
    using runeIndex_valid [OF assms(1), of "nat maxRunes"] True by (cases "runeIndex s (nat maxRunes)") auto
  obtain j where j: "runeIndex s (nat ?k) = Some j" "validUTF8 (take j s)" "RuneCountInString (take j s) = nat ?k"
    using runeIndex_valid [OF assms(1), of "nat ?k"] True by (cases "runeIndex s (nat ?k)") auto
  have "TruncateRunesWithSuffix s maxRunes ending = (if ending = '''' then TruncateRunes s maxRunes else take j s @ ending)"
    using True assms(3) i j(1) by (simp add: TruncateRunesWithSuffix_def byteIndexAfterRunes_def)
  moreover have "validUTF8 (take j s @ ending)" "int (RuneCountInString (take j s @ ending)) = maxRunes"
    using valid_append [OF j(2) assms(2)] runeCount_append [OF j(2)] j(3) True by simp_all
  ultimately show ?thesis using TruncateRunes_valid [OF assms(1,3)] True by auto
next
  case False
  have "TruncateRunesWithSuffix s maxRunes ending = TruncateRunes s maxRunes"
    using False assms(3) runeIndex_valid [OF assms(1), of "nat maxRunes"]
    by (auto simp: TruncateRunesWithSuffix_def TruncateRunes_def byteIndexAfterRunes_def split: option.splits)
  then show ?thesis using TruncateRunes_valid [OF assms(1,3)] by simp
qed

text \<open>Four runes of two bytes cut to three with an ellipsis.\<close>

theorem truncate_runes_witness:
  "validUTF8 (TruncateRunesWithSuffix (concat (replicate 4 [CHR 0xC3, CHR 0xA9])) 3 [CHR 0xE2, CHR 0x80, CHR 0xA6]) \<and>
   RuneCountInString (TruncateRunesWithSuffix (concat (replicate 4 [CHR 0xC3, CHR 0xA9])) 3 [CHR 0xE2, CHR 0x80, CHR 0xA6]) = 3"
proof -
  have h: "validUTF8 (concat (replicate 4 [CHR 0xC3, CHR 0xA9]))" "validUTF8 [CHR 0xE2, CHR 0x80, CHR 0xA6]"
    "RuneCountInString (concat (replicate 4 [CHR 0xC3, CHR 0xA9])) = 4"
    by code_simp+
  show ?thesis using truncate_runes [OF h(1,2), of 3] h(3) by simp
qed

end
