(* ===== verification/ModelRetry.thy ===== *)
theory ModelRetry
  imports GoPrelude
begin

text \<open>
  Retrying of model calls, \<^verbatim>\<open>internal/models/modelretry/modelretry.go\<close>. A failed call is
  known by what \<open>errors.Is\<close> and \<open>errors.As\<close> find in its error chain; the outcomes of the
  calls, the state of the context, the sleeps and the random jitter are arguments.
  Logging is left out.
\<close>

section \<open>Failures\<close>

text \<open>The kinds of a provider's answer that matter here, and every other one.\<close>

datatype APIKind = KindRateLimited | KindServerError | KindOther string

record APIError =
  ae_Kind :: APIKind
  ae_RetryAfter :: "duration option"

record CallError =
  ce_Canceled :: bool
  ce_DeadlineExceeded :: bool
  ce_API :: "APIError option"
  ce_StreamIncomplete :: bool
  ce_UnexpectedEOF :: bool
  ce_Net :: bool

datatype Reason = ReasonRateLimited | ReasonServerError | ReasonStreamIncomplete | ReasonNetwork

type_synonym Classifier = "CallError \<Rightarrow> Reason option"

definition Retryable :: Classifier where
  "Retryable err =
     (if ce_Canceled err \<or> ce_DeadlineExceeded err then None
      else
        (case ce_API err of
           Some apiErr \<Rightarrow>
             (case ae_Kind apiErr of
                KindRateLimited \<Rightarrow> Some ReasonRateLimited
              | KindServerError \<Rightarrow> Some ReasonServerError
              | KindOther _ \<Rightarrow> None)
         | None \<Rightarrow>
             (if ce_StreamIncomplete err \<or> ce_UnexpectedEOF err then Some ReasonStreamIncomplete
              else if ce_Net err then Some ReasonNetwork
              else None)))"

definition RateLimited :: Classifier where
  "RateLimited err = (if Retryable err = Some ReasonRateLimited then Some ReasonRateLimited else None)"

section \<open>Decisions\<close>

record RetryConfig =
  rc_MaxAttempts :: int
  rc_FastAttempts :: int
  rc_BaseDelay :: duration
  rc_MaxDelay :: duration

definition DefaultConfig :: RetryConfig where
  "DefaultConfig = \<lparr>rc_MaxAttempts = 5, rc_FastAttempts = 1, rc_BaseDelay = 1 * second, rc_MaxDelay = 8 * second\<rparr>"

definition MaxRetryAfter :: duration where
  "MaxRetryAfter = 60 * second"

record Retry =
  rt_Attempt :: int
  rt_MaxAttempts :: int
  rt_Delay :: duration
  rt_Reason :: Reason

definition orDefault :: "RetryConfig \<Rightarrow> RetryConfig" where
  "orDefault c = (if rc_MaxAttempts c \<le> 0 then DefaultConfig else c)"

definition retryAfterOf :: "CallError \<Rightarrow> duration option" where
  "retryAfterOf err =
     (case ce_API err of
        None \<Rightarrow> None
      | Some apiErr \<Rightarrow> (case ae_RetryAfter apiErr of Some after \<Rightarrow> if after \<le> MaxRetryAfter then Some after else None | None \<Rightarrow> None))"

text \<open>
  \<open>rand n\<close> stands for \<open>rand.Int64N(n)\<close>, called with a positive argument only. The shift
  is by at most 20 and is never negative where it is reached.
\<close>

definition retryDelay :: "(int \<Rightarrow> int) \<Rightarrow> RetryConfig \<Rightarrow> int \<Rightarrow> CallError \<Rightarrow> duration" where
  "retryDelay rand c attempt err =
     (case retryAfterOf err of
        Some after \<Rightarrow> after
      | None \<Rightarrow>
          (if attempt < rc_FastAttempts c then 0
           else
             (let backoffIdx = min 20 (wrap64 (attempt - rc_FastAttempts c));
                  delay = min (wrap64 (rc_BaseDelay c * 2 ^ nat backoffIdx)) (rc_MaxDelay c);
                  half = goDiv delay 2
              in if half \<le> 0 then 0 else half + rand half)))"

definition Next :: "(int \<Rightarrow> int) \<Rightarrow> RetryConfig \<Rightarrow> int \<Rightarrow> CallError \<Rightarrow> Classifier option \<Rightarrow> Retry option" where
  "Next rand c0 retries err retryable =
     (let c = orDefault c0; classify = (case retryable of None \<Rightarrow> Retryable | Some f \<Rightarrow> f) in
      case classify err of
        None \<Rightarrow> None
      | Some reason \<Rightarrow>
          (if rc_MaxAttempts c \<le> retries then None
           else Some \<lparr>rt_Attempt = retries + 1, rt_MaxAttempts = rc_MaxAttempts c,
                      rt_Delay = retryDelay rand c retries err, rt_Reason = reason\<rparr>))"

section \<open>The retry loop\<close>

text \<open>
  What a caller gets: the result of a call, the failure of a call, or the error of the
  context that ended a wait. \<open>call n\<close> is the outcome of the call number \<open>n\<close>, from 0;
  \<open>ctxDone n\<close> says that the context had ended when that call failed, \<open>wait n\<close> whether it had
  ended when the wait after it began and whether it ended before the timer fired. The
  number is the number of calls made.
\<close>

datatype 'a outcome = Returned 'a | Failed CallError | Interrupted

definition Sleep :: "bool \<Rightarrow> bool \<Rightarrow> duration \<Rightarrow> bool" where
  "Sleep ended endsFirst d = (if d \<le> 0 then \<not> ended else \<not> endsFirst)"

lemma Next_Some: "Next rand c retries err retryable = Some r \<Longrightarrow> retries < rc_MaxAttempts (orDefault c)"
  by (auto simp: Next_def Let_def split: option.splits if_splits)

function doFrom ::
    "(int \<Rightarrow> int) \<Rightarrow> RetryConfig \<Rightarrow> Classifier option \<Rightarrow> (int \<Rightarrow> CallError + 'a) \<Rightarrow> (int \<Rightarrow> bool) \<Rightarrow> (int \<Rightarrow> bool \<times> bool) \<Rightarrow>
     int \<Rightarrow> 'a outcome \<times> int" where
  "doFrom rand cfg retryable call ctxDone wait retries =
     (case call retries of
        Inr res \<Rightarrow> (Returned res, retries + 1)
      | Inl err \<Rightarrow>
          (case Next rand cfg retries err retryable of
             None \<Rightarrow> (Failed err, retries + 1)
           | Some retry \<Rightarrow>
               (if ctxDone retries then (Failed err, retries + 1)
                else if \<not> Sleep (fst (wait retries)) (snd (wait retries)) (rt_Delay retry) then (Interrupted, retries + 1)
                else doFrom rand cfg retryable call ctxDone wait (retries + 1))))"
  by pat_completeness auto
termination
  by (relation "measure (\<lambda>(rand, cfg, retryable, call, ctxDone, wait, retries). nat (rc_MaxAttempts (orDefault cfg) - retries))")
    (auto dest!: Next_Some)

declare doFrom.simps [simp del]

definition Do ::
    "(int \<Rightarrow> int) \<Rightarrow> RetryConfig \<Rightarrow> Classifier option \<Rightarrow> (int \<Rightarrow> CallError + 'a) \<Rightarrow> (int \<Rightarrow> bool) \<Rightarrow> (int \<Rightarrow> bool \<times> bool) \<Rightarrow>
     'a outcome \<times> int" where
  "Do rand cfg retryable call ctxDone wait = doFrom rand cfg retryable call ctxDone wait 0"

section \<open>Properties\<close>

abbreviation classifier :: "Classifier option \<Rightarrow> Classifier" where
  "classifier retryable \<equiv> (case retryable of None \<Rightarrow> Retryable | Some f \<Rightarrow> f)"

lemma MaxAttempts_pos: "0 < rc_MaxAttempts (orDefault c)"
  by (simp add: orDefault_def DefaultConfig_def)

text \<open>What the loop did from a given retry on.\<close>

lemma doFrom_calls:
  assumes "doFrom rand cfg retryable call ctxDone wait k = (out, n)" "k \<le> rc_MaxAttempts (orDefault cfg)"
  shows "k < n \<and> n \<le> rc_MaxAttempts (orDefault cfg) + 1 \<and>
    (\<forall>i\<in>{k..<n - 1}. \<exists>e. call i = Inl e \<and> classifier retryable e \<noteq> None) \<and>
    (case out of
       Returned res \<Rightarrow> call (n - 1) = Inr res
     | Failed e \<Rightarrow> call (n - 1) = Inl e \<and>
         (classifier retryable e = None \<or> n = rc_MaxAttempts (orDefault cfg) + 1 \<or> ctxDone (n - 1))
     | Interrupted \<Rightarrow> (\<exists>e. call (n - 1) = Inl e) \<and> (fst (wait (n - 1)) \<or> snd (wait (n - 1))))"
  using assms
proof (induction rand cfg retryable call ctxDone wait k rule: doFrom.induct)
  case (1 rand cfg retryable call ctxDone wait k)
  note d = "1.prems"(1) [unfolded doFrom.simps [of rand cfg retryable call ctxDone wait k]]
  show ?case
  proof (cases "call k")
    case (Inr res)
    then show ?thesis using d "1.prems"(2) by auto
  next
    case (Inl err)
    show ?thesis
    proof (cases "Next rand cfg k err retryable")
      case None
      then have "classifier retryable err = None \<or> rc_MaxAttempts (orDefault cfg) \<le> k"
        by (auto simp: Next_def Let_def split: option.splits if_splits)
      then show ?thesis using d Inl None "1.prems"(2) by auto
    next
      case (Some r)
      have cl: "classifier retryable err \<noteq> None" using Some by (auto simp: Next_def Let_def split: option.splits)
      have lt: "k < rc_MaxAttempts (orDefault cfg)" using Next_Some [OF Some] .
      consider "ctxDone k" | "\<not> ctxDone k" "\<not> Sleep (fst (wait k)) (snd (wait k)) (rt_Delay r)"
        | (again) "\<not> ctxDone k" "Sleep (fst (wait k)) (snd (wait k)) (rt_Delay r)" by blast
      then show ?thesis
      proof cases
        case again
        then have rec: "doFrom rand cfg retryable call ctxDone wait (k + 1) = (out, n)" using d Inl Some by simp
        note IH = "1.IH" [OF Inl Some again(1) _ rec]
        have split: "{k..<n - 1} = insert k {k + 1..<n - 1}" if "k + 1 < n" using that by auto
        show ?thesis using IH again lt Inl cl split by auto
      qed (use d Inl Some lt in \<open>auto simp: Sleep_def split: if_splits\<close>)
    qed
  qed
qed

text \<open>C36 (retry_calls): The retry loop ends after at most one call more than the configured number of
  retries. It repeats a call only after failures that the classifier accepts; what it returns is the
  outcome of the last call, and it gives up only on a failure that is final, at the last attempt, or
  when the context has ended.\<close>

theorem retry_calls:
  assumes "Do rand cfg retryable call ctxDone wait = (out, n)"
  shows "1 \<le> n \<and> n \<le> rc_MaxAttempts (orDefault cfg) + 1 \<and>
    (\<forall>i\<in>{0..<n - 1}. \<exists>e. call i = Inl e \<and> classifier retryable e \<noteq> None) \<and>
    (case out of
       Returned res \<Rightarrow> call (n - 1) = Inr res
     | Failed e \<Rightarrow> call (n - 1) = Inl e \<and>
         (classifier retryable e = None \<or> n = rc_MaxAttempts (orDefault cfg) + 1 \<or> ctxDone (n - 1))
     | Interrupted \<Rightarrow> (\<exists>e. call (n - 1) = Inl e) \<and> (fst (wait (n - 1)) \<or> snd (wait (n - 1))))"
  using doFrom_calls [OF assms [unfolded Do_def]] MaxAttempts_pos [of cfg] by simp

definition overloadError :: CallError where
  "overloadError = \<lparr>ce_Canceled = False, ce_DeadlineExceeded = False,
     ce_API = Some \<lparr>ae_Kind = KindServerError, ae_RetryAfter = None\<rparr>, ce_StreamIncomplete = False,
     ce_UnexpectedEOF = False, ce_Net = False\<rparr>"

text \<open>Two failures of an overloaded provider and then an answer.\<close>

theorem retry_calls_witness:
  "Do (\<lambda>h. 0) DefaultConfig None (\<lambda>i. if i < 2 then Inl overloadError else Inr ''answer'') (\<lambda>i. False) (\<lambda>i. (False, False)) =
     (Returned ''answer'', 3) \<and> (3 :: int) \<le> rc_MaxAttempts (orDefault DefaultConfig) + 1"
proof -
  have d: "Do (\<lambda>h. 0) DefaultConfig None (\<lambda>i. if i < 2 then Inl overloadError else Inr ''answer'') (\<lambda>i. False) (\<lambda>i. (False, False)) =
     (Returned ''answer'', 3)"
    by code_simp
  show ?thesis using retry_calls [OF d] d by simp
qed

text \<open>A retry waits as long as the provider asked for, if that is at most a minute. Otherwise
  the wait is never negative and never longer than the configured maximum, a fast attempt does not
  wait, and for a base delay under \<open>2 ^ 43\<close> nanoseconds (about two and a half hours) every other one
  waits at least half of the capped exponential backoff and less than all of it.\<close>

theorem retry_delay:
  assumes "Next rand cfg retries err retryable = Some r" "c = orDefault cfg"
    "\<forall>h. 0 < h \<longrightarrow> 0 \<le> rand h \<and> rand h < h"
    "0 \<le> rc_BaseDelay c" "rc_BaseDelay c < 2 ^ 43" "0 \<le> retries" "retries < 2 ^ 62" "- (2 ^ 62) < rc_FastAttempts c" 
    "backoff = min (rc_BaseDelay c * 2 ^ nat (min 20 (retries - rc_FastAttempts c))) (rc_MaxDelay c)"
  shows "rt_Attempt r = retries + 1 \<and> rt_Attempt r \<le> rc_MaxAttempts c \<and>
    (case retryAfterOf err of
       Some after \<Rightarrow> rt_Delay r = after \<and> after \<le> MaxRetryAfter
     | None \<Rightarrow>
         0 \<le> rt_Delay r \<and> rt_Delay r \<le> max 0 (rc_MaxDelay c) \<and>
         (retries < rc_FastAttempts c \<longrightarrow> rt_Delay r = 0) \<and>
         (rc_FastAttempts c \<le> retries \<and> 2 \<le> backoff \<longrightarrow> backoff div 2 \<le> rt_Delay r \<and> rt_Delay r < backoff))"
proof -
  have r: "rt_Attempt r = retries + 1" "retries < rc_MaxAttempts c" "rt_Delay r = retryDelay rand c retries err"
    using assms(1,2) by (auto simp: Next_def Let_def split: option.splits if_splits)
  show ?thesis
  proof (cases "retryAfterOf err")
    case (Some after)
    then have "after \<le> MaxRetryAfter" by (auto simp: retryAfterOf_def split: option.splits if_splits)
    then show ?thesis using r Some by (simp add: retryDelay_def)
  next
    case None
    show ?thesis
    proof (cases "retries < rc_FastAttempts c")
      case True
      then show ?thesis using r None by (simp add: retryDelay_def)
    next
      case False
      let ?idx = "min 20 (retries - rc_FastAttempts c)"
      have idx: "wrap64 (retries - rc_FastAttempts c) = retries - rc_FastAttempts c"
        using False assms(6-8) by (intro wrap64_id) auto
      have p: "(2 :: int) ^ nat ?idx \<le> 2 ^ 20" by (intro power_increasing) auto
      have "rc_BaseDelay c * 2 ^ nat ?idx < 2 ^ 43 * 2 ^ 20"
        using assms(4,5) p by (intro mult_less_le_imp_less) auto
      then have w: "wrap64 (rc_BaseDelay c * 2 ^ nat ?idx) = rc_BaseDelay c * 2 ^ nat ?idx"
        using mult_nonneg_nonneg [OF assms(4), of "2 ^ nat ?idx"] by (intro wrap64_id) auto
      have dl: "rt_Delay r = (if goDiv backoff 2 \<le> 0 then 0 else goDiv backoff 2 + rand (goDiv backoff 2))"
        using r(3) None False by (simp add: retryDelay_def Let_def idx w assms(9))
      show ?thesis
      proof (cases "2 \<le> backoff")
        case True
        then have h: "goDiv backoff 2 = backoff div 2" "0 < backoff div 2" by (auto simp: goDiv_nonneg)
        then have "0 \<le> rand (backoff div 2)" "rand (backoff div 2) < backoff div 2" using assms(3) by auto
        moreover have "backoff div 2 + backoff div 2 \<le> backoff" by presburger
        moreover have "backoff \<le> rc_MaxDelay c" by (simp add: assms(9))
        ultimately show ?thesis using dl h r False None by auto
      next
        case False': False
        have "goDiv backoff 2 \<le> 0" using False' goDiv_neg [of backoff 2] goDiv_nonneg [of backoff 2] by (cases "backoff < 0") auto
        then show ?thesis using dl r False False' None by auto
      qed
    qed
  qed
qed

text \<open>The third retry of the default configuration after an overload.\<close>

theorem retry_delay_witness:
  "\<exists>r. Next (\<lambda>h. h div 3) DefaultConfig 2 overloadError None = Some r \<and> rt_Attempt r = 3 \<and>
     1000000000 \<le> rt_Delay r \<and> rt_Delay r < 2000000000"
proof -
  let ?r = "\<lparr>rt_Attempt = 3, rt_MaxAttempts = 5, rt_Delay = 1333333333, rt_Reason = ReasonServerError\<rparr>"
  have n: "Next (\<lambda>h. h div 3) DefaultConfig 2 overloadError None = Some ?r" by code_simp
  have o: "orDefault DefaultConfig = DefaultConfig" "retryAfterOf overloadError = None"
    by (simp_all add: orDefault_def DefaultConfig_def retryAfterOf_def overloadError_def)
  have rnd: "\<forall>h::int. 0 < h \<longrightarrow> 0 \<le> h div 3 \<and> h div 3 < h" by auto
  show ?thesis
    using retry_delay [OF n refl rnd _ _ _ _ _ refl] n o by (auto simp: DefaultConfig_def)
qed

end
