(* ===== verification/Invocation.thy ===== *)
theory Invocation
  imports CommandSyntax Utf8
begin

text \<open>
  The interpretation of one slash-command message,
  \<^verbatim>\<open>internal/commandsyntax/invocation.go\<close>: which part of a message is the command,
  whether it addresses this bot, and the command with the mentions of this bot taken
  out. Positions are byte offsets, as in the source. Names compare by
  \<open>EqualFold\<close>, exact for ASCII names.
\<close>

section \<open>Mentions\<close>

text \<open>
  The delimiters after a mention: ASCII punctuation and its full-width forms. The
  number of bytes of the delimiter at the head of a string, 0 if there is none; the
  second function reads the reversed bytes.
\<close>

definition asciiDelimiter :: "char \<Rightarrow> bool" where
  "asciiDelimiter c \<longleftrightarrow> c \<in> {CHR '','', CHR ''.'', CHR '':'', CHR '';'', CHR ''!'', CHR ''?''}"

definition wideDelimiter :: "char \<Rightarrow> char \<Rightarrow> char \<Rightarrow> bool" where
  "wideDelimiter a b c \<longleftrightarrow>
     (a = CHR 0xEF \<and> b = CHR 0xBC \<and> c \<in> {CHR 0x8C, CHR 0x9A, CHR 0x9B, CHR 0x81, CHR 0x9F}) \<or>
     (a = CHR 0xE3 \<and> b = CHR 0x80 \<and> c = CHR 0x82)"

fun delimLen :: "string \<Rightarrow> nat" where
  "delimLen (a # b # c # s) = (if asciiDelimiter a then 1 else if wideDelimiter a b c then 3 else 0)"
| "delimLen (a # s) = (if asciiDelimiter a then 1 else 0)"
| "delimLen [] = 0"

fun delimLenRev :: "string \<Rightarrow> nat" where
  "delimLenRev (c # b # a # s) = (if asciiDelimiter c then 1 else if wideDelimiter a b c then 3 else 0)"
| "delimLenRev (c # s) = (if asciiDelimiter c then 1 else 0)"
| "delimLenRev [] = 0"

definition trimDelimiters :: "string \<Rightarrow> string" where
  "trimDelimiters s = rev (stripWhile delimLenRev (rev s))"

definition mentionDelimiterSuffix :: "string \<Rightarrow> bool" where
  "mentionDelimiterSuffix v \<longleftrightarrow> stripWhile delimLen v = ''''"

text \<open>\<open>strings.IndexByte\<close>, \<open>None\<close> for -1.\<close>

definition IndexByte :: "string \<Rightarrow> char \<Rightarrow> nat option" where
  "IndexByte s c = (if c \<in> set s then Some (length (takeWhile (\<lambda>d. d \<noteq> c) s)) else None)"

definition LastIndexByte :: "string \<Rightarrow> char \<Rightarrow> nat option" where
  "LastIndexByte s c = (if c \<in> set s then Some (length s - 1 - length (takeWhile (\<lambda>d. d \<noteq> c) (rev s))) else None)"

text \<open>The end of an angle mention: \<open>IndexByte(value, '>')\<close>, if it is over 2 and only delimiters follow.\<close>

definition angleEnd :: "string \<Rightarrow> nat option" where
  "angleEnd v =
     (case IndexByte v (CHR ''>'') of
        Some e \<Rightarrow> if 2 < e \<and> mentionDelimiterSuffix (drop (e + 1) v) then Some e else None
      | None \<Rightarrow> None)"

definition isMentionToken :: "string \<Rightarrow> bool" where
  "isMentionToken value0 =
     (let v = TrimSpace value0 in
      if HasPrefix v ''<@'' then angleEnd v \<noteq> None
      else if \<not> HasPrefix v ''@'' then False
      else trimDelimiters (drop 1 v) \<noteq> '''')"

definition trimBang :: "string \<Rightarrow> string" where
  "trimBang s = (if HasPrefix s ''!'' then drop 1 s else s)"

text \<open>\<open>strings.Trim(s, "@")\<close>\<close>

definition trimAts :: "string \<Rightarrow> string" where
  "trimAts s = rev (dropWhile (\<lambda>c. c = CHR ''@'') (rev (dropWhile (\<lambda>c. c = CHR ''@'') s)))"

definition normalizeInvocationAlias :: "string \<Rightarrow> string" where
  "normalizeInvocationAlias value0 =
     (let v = TrimSpace value0 in
      if HasPrefix v ''<@'' \<and> HasPrefix (rev v) ''>''
      then TrimSpace (trimBang (butlast (drop 2 v)))
      else trimAts (TrimSpace v))"

definition normalizeInvocationMentionCandidates :: "string \<Rightarrow> string list" where
  "normalizeInvocationMentionCandidates value0 =
     (let v = TrimSpace value0;
          angle = (if HasPrefix v ''<@'' then
                     (case angleEnd v of
                        Some e \<Rightarrow> TrimSpace (trimBang (take (e - 2) (drop 2 v)))
                      | None \<Rightarrow> '''')
                   else '''')
      in if angle \<noteq> '''' then [angle]
         else
           (let identity = normalizeInvocationAlias v in
            if identity = '''' then []
            else if HasPrefix v ''@'' \<and> trimDelimiters identity \<noteq> '''' \<and> trimDelimiters identity \<noteq> identity
            then [identity, trimDelimiters identity] else [identity]))"

definition aliasMatchesInvocation :: "string \<Rightarrow> string list \<Rightarrow> bool" where
  "aliasMatchesInvocation v aliases \<longleftrightarrow>
     list_ex (\<lambda>alias. normalizeInvocationAlias alias \<noteq> '''' \<and>
       list_ex (\<lambda>candidate. EqualFold candidate (normalizeInvocationAlias alias)) (normalizeInvocationMentionCandidates v)) aliases"

section \<open>Tokens\<close>

record invocationToken =
  it_Start :: nat
  it_End :: nat
  it_Value :: string
  it_Quoted :: bool

record textRange =
  tr_Start :: nat
  tr_End :: nat

record lexer =
  lx_tokens :: "invocationToken list"
  lx_start :: "nat option"
  lx_quoted :: bool
  lx_quote :: "char option"
  lx_value :: string

definition lexFlush :: "nat \<Rightarrow> lexer \<Rightarrow> lexer" where
  "lexFlush e z =
     (case lx_start z of
        None \<Rightarrow> z
      | Some start \<Rightarrow> z\<lparr>lx_tokens := lx_tokens z @ [\<lparr>it_Start = start, it_End = e, it_Value = lx_value z, it_Quoted = lx_quoted z\<rparr>],
          lx_start := None, lx_quoted := False, lx_value := ''''\<rparr>)"

text \<open>The bytes \<open>WriteRune\<close> writes for the rune at the head: U+FFFD for an ill-formed byte.\<close>

definition runeBytes :: "string \<Rightarrow> string" where
  "runeBytes s = (if runeLen s = 0 then [CHR 0xEF, CHR 0xBF, CHR 0xBD] else take (runeLen s) s)"

text \<open>One round of the loop, at byte \<open>pos\<close> with the rest \<open>s\<close> of the input.\<close>

definition lexStep :: "string \<Rightarrow> nat \<Rightarrow> lexer \<Rightarrow> lexer" where
  "lexStep s pos z =
     (case lx_quote z of
        Some q \<Rightarrow> if hd s = q then z\<lparr>lx_quote := None\<rparr> else z\<lparr>lx_value := lx_value z @ runeBytes s\<rparr>
      | None \<Rightarrow>
          (if 0 < spaceLen s then lexFlush pos z
           else
             (let z1 = (if lx_start z = None then z\<lparr>lx_start := Some pos\<rparr> else z) in
              if hd s = squote \<or> hd s = dquote then z1\<lparr>lx_quote := Some (hd s), lx_quoted := True\<rparr>
              else z1\<lparr>lx_value := lx_value z1 @ runeBytes s\<rparr>)))"

function lexFrom :: "string \<Rightarrow> nat \<Rightarrow> lexer \<Rightarrow> lexer" where
  "lexFrom [] pos z = lexFlush pos z"
| "lexFrom (a # s) pos z =
     lexFrom (drop (runeWidth (a # s)) (a # s)) (pos + runeWidth (a # s)) (lexStep (a # s) pos z)"
  by pat_completeness auto
termination
  by (relation "measure (length \<circ> fst)") (auto simp: runeWidth_def)

definition lexInvocationTokens :: "string \<Rightarrow> invocationToken list" where
  "lexInvocationTokens input =
     lx_tokens (lexFrom input 0 \<lparr>lx_tokens = [], lx_start = None, lx_quoted = False, lx_quote = None, lx_value = ''''\<rparr>)"

section \<open>Ranges\<close>

definition spanSpaces :: "(string \<Rightarrow> nat) \<Rightarrow> string \<Rightarrow> nat" where
  "spanSpaces f s = length s - length (stripWhile f s)"

definition mentionRemovalRange :: "string \<Rightarrow> invocationToken \<Rightarrow> textRange" where
  "mentionRemovalRange txt token =
     (let e = it_End token + spanSpaces spaceLen (drop (it_End token) txt);
          b = (if e = length txt then it_Start token - spanSpaces spaceLenRev (rev (take (it_Start token) txt)) else it_Start token)
      in \<lparr>tr_Start = b, tr_End = e\<rparr>)"

definition removeStep :: "string \<Rightarrow> textRange \<Rightarrow> string \<times> nat \<Rightarrow> string \<times> nat" where
  "removeStep txt item st =
     (case st of (out, cursor) \<Rightarrow>
        if tr_Start item < cursor \<or> length txt < tr_End item \<or> tr_End item \<le> tr_Start item then st
        else (out @ take (tr_Start item - cursor) (drop cursor txt), tr_End item))"

definition removeTextRanges :: "string \<Rightarrow> textRange list \<Rightarrow> string" where
  "removeTextRanges txt ranges =
     (if ranges = [] then txt
      else (case fold (removeStep txt) (sort_key tr_Start ranges) ('''', 0) of (out, cursor) \<Rightarrow> out @ drop cursor txt))"

section \<open>Invocations\<close>

datatype invocation_error = ErrNotCommand | ErrCommandForOtherBot | ErrParse parse_error

record InvocationInput =
  ii_Text :: string
  ii_BotAliases :: "string list"
  ii_Directed :: bool

record Invocation =
  iv_RawText :: string
  iv_CommandText :: string
  iv_Selector :: string
  iv_Rest :: string
  iv_Parsed :: ParsedCommand
  iv_Directed :: bool
  iv_Addressed :: bool
  iv_Addressing :: "string list"

text \<open>The first loop: the command token and the mentions before it, or \<open>ErrNotCommand\<close>.\<close>

fun findCommand :: "string list \<Rightarrow> invocationToken list \<Rightarrow> string list \<Rightarrow> (invocationToken \<times> bool \<times> string list) option" where
  "findCommand aliases [] addressing = None"
| "findCommand aliases (token # tokens) addressing =
     (if HasPrefix (it_Value token) ''/'' then Some (token, addressing \<noteq> [], addressing)
      else if it_Quoted token \<or> \<not> isMentionToken (it_Value token) then None
      else findCommand aliases tokens
             (if aliasMatchesInvocation (it_Value token) aliases then addressing @ [it_Value token] else addressing))"

text \<open>What an argument token adds: the range to remove and the mention that addresses the bot.\<close>

definition argumentMention :: "string list \<Rightarrow> string \<Rightarrow> invocationToken \<Rightarrow> (textRange \<times> string) option" where
  "argumentMention aliases commandText token =
     (if it_Quoted token then None
      else if isMentionToken (it_Value token) \<and> aliasMatchesInvocation (it_Value token) aliases
      then Some (mentionRemovalRange commandText token, it_Value token)
      else
        (case LastIndexByte (it_Value token) (CHR ''@'') of
           Some i \<Rightarrow>
             if 0 < i \<and> aliasMatchesInvocation (drop (i + 1) (it_Value token)) aliases
             then Some (\<lparr>tr_Start = it_Start token + i, tr_End = it_End token\<rparr>, CHR ''@'' # drop (i + 1) (it_Value token))
             else None
         | None \<Rightarrow> None))"

text \<open>
  The head of the command, \<open>/name\<close> or \<open>/name@bot\<close>: the selector, the range of the
  suffix and the mention.
\<close>

definition headSelector :: "string list \<Rightarrow> invocationToken \<Rightarrow> invocation_error + string \<times> (textRange \<times> string) list" where
  "headSelector aliases head =
     (let selector = drop 1 (it_Value head) in
      case IndexByte selector (CHR ''@'') of
        None \<Rightarrow> if selector = '''' then Inl ErrNotCommand else Inr (selector, [])
      | Some i \<Rightarrow>
          (if take i selector = '''' \<or> \<not> aliasMatchesInvocation (drop (i + 1) selector) aliases
           then Inl ErrCommandForOtherBot
           else Inr (take i selector,
                     [(\<lparr>tr_Start = it_Start head + (i + 1), tr_End = it_End head\<rparr>, CHR ''@'' # drop (i + 1) selector)])))"

definition ParseInvocation :: "InvocationInput \<Rightarrow> invocation_error + Invocation" where
  "ParseInvocation input =
     (let raw = TrimSpace (ii_Text input); aliases = ii_BotAliases input; tokens = lexInvocationTokens raw in
      if raw = '''' \<or> tokens = [] then Inl ErrNotCommand
      else
        (case findCommand aliases tokens [] of
           None \<Rightarrow> Inl ErrNotCommand
         | Some (token, addressed0, addressing0) \<Rightarrow>
             (if token \<noteq> hd tokens \<and> \<not> addressed0 then Inl ErrCommandForOtherBot
              else
                (let commandText0 = TrimSpace (drop (it_Start token) raw); commandTokens = lexInvocationTokens commandText0 in
                 if commandTokens = [] \<or> \<not> HasPrefix (it_Value (hd commandTokens)) ''/'' then Inl ErrNotCommand
                 else
                   (case headSelector aliases (hd commandTokens) of
                      Inl err \<Rightarrow> Inl err
                    | Inr (selector, headMentions) \<Rightarrow>
                        (let mentions = headMentions @ List.map_filter (argumentMention aliases commandText0) (tl commandTokens);
                             addressed = addressed0 \<or> mentions \<noteq> [];
                             commandText = TrimSpace (removeTextRanges commandText0 (map fst mentions))
                         in case Parse commandText of
                              Inl err \<Rightarrow> Inl (ErrParse err)
                            | Inr parsed \<Rightarrow>
                                (let normalizedTokens = lexInvocationTokens commandText;
                                     rest = (if normalizedTokens \<noteq> [] \<and> it_End (hd normalizedTokens) < length commandText
                                             then TrimSpace (drop (it_End (hd normalizedTokens)) commandText) else '''')
                                 in Inr \<lparr>iv_RawText = raw, iv_CommandText = commandText, iv_Selector = selector, iv_Rest = rest,
                                         iv_Parsed = parsed, iv_Directed = (ii_Directed input \<or> addressed),
                                         iv_Addressed = addressed, iv_Addressing = addressing0 @ map snd mentions\<rparr>)))))))"

end
