(* ===== verification/Slash.thy ===== *)
theory Slash
  imports Invocation ToolOutput
begin

text \<open>
  The classification of slash messages, \<^verbatim>\<open>internal/slash/classifier.go\<close>, and the
  reserved metadata keys of \<^verbatim>\<open>internal/slash/metadata.go\<close>. The registered commands and
  the web actions are functions of the caller, as in the source.
\<close>

section \<open>Decisions\<close>

datatype Surface = SurfaceChannel | SurfaceWebWS | SurfaceOther string

datatype DecisionKind =
    DecisionNormalChat
  | DecisionRejectNoop
  | DecisionCommandAction
  | DecisionUnsupportedCommand
  | DecisionSkillIntent
  | DecisionUnknownSlash
  | DecisionReject

datatype SlashCode =
    CodeUnknownSlash
  | CodeUnsupportedWebCommand
  | CodeInvalidSkillSlashSyntax
  | CodeSlashAttachmentsUnsupported
  | CodeReservedSkillMetadata

record SlashCommand =
  cm_Resource :: string
  cm_Action :: string
  cm_Raw :: string

record SkillIntent =
  sk_Names :: "string list"
  sk_Prompt :: string

text \<open>The zero values of the code, the command and the intent are \<open>None\<close>.\<close>

record Decision =
  dc_Kind :: DecisionKind
  dc_Code :: "SlashCode option"
  dc_Directed :: bool
  dc_Command :: "SlashCommand option"
  dc_SkillIntent :: "SkillIntent option"
  dc_Invocation :: "Invocation option"

record ClassifyInput =
  ci_Text :: string
  ci_HasAttachments :: bool
  ci_Surface :: Surface
  ci_IsGroup :: bool
  ci_Directed :: bool
  ci_BotAliases :: "string list"
  ci_KnownCommand :: "(string \<Rightarrow> bool) option"
  ci_WebActionSupported :: "(string \<Rightarrow> string \<Rightarrow> bool) option"

definition decide :: "DecisionKind \<Rightarrow> SlashCode option \<Rightarrow> bool \<Rightarrow> Invocation option \<Rightarrow> Decision" where
  "decide kind code directed invocation =
     \<lparr>dc_Kind = kind, dc_Code = code, dc_Directed = directed, dc_Command = None, dc_SkillIntent = None, dc_Invocation = invocation\<rparr>"

definition isKnown :: "(string \<Rightarrow> bool) option \<Rightarrow> string \<Rightarrow> bool" where
  "isKnown fn resource = (case fn of None \<Rightarrow> False | Some f \<Rightarrow> f resource)"

definition Classify :: "ClassifyInput \<Rightarrow> Decision" where
  "Classify input =
     (let txt = TrimSpace (ci_Text input) in
      if txt = '''' then decide DecisionNormalChat None (ci_Directed input) None
      else
        (case ParseInvocation \<lparr>ii_Text = txt, ii_BotAliases = ci_BotAliases input, ii_Directed = ci_Directed input\<rparr> of
           Inl err \<Rightarrow>
             (if ci_Surface input = SurfaceChannel \<and> err = ErrCommandForOtherBot
              then decide DecisionRejectNoop None False None
              else decide DecisionNormalChat None (ci_Directed input) None)
         | Inr invocation \<Rightarrow>
             (let effectiveDirected = iv_Directed invocation; parsed = iv_Parsed invocation in
              if ci_Surface input = SurfaceChannel \<and> ci_IsGroup input \<and> \<not> effectiveDirected
              then decide DecisionRejectNoop None False (Some invocation)
              else if pc_Resource parsed = ''skill'' \<and> pc_Action parsed = ''use''
              then decide DecisionReject (Some CodeInvalidSkillSlashSyntax) effectiveDirected (Some invocation)
              else if ci_Surface input = SurfaceChannel \<and> isRemovedModeCommand (pc_Resource parsed)
              then decide DecisionReject (Some CodeUnknownSlash) effectiveDirected (Some invocation)
              else if isCommandName (iv_Selector invocation) \<and> isKnown (ci_KnownCommand input) (pc_Resource parsed) then
                (let cmd = \<lparr>cm_Resource = pc_Resource parsed, cm_Action = pc_Action parsed, cm_Raw = iv_CommandText invocation\<rparr> in
                 if ci_Surface input = SurfaceWebWS then
                   (if (case ci_WebActionSupported input of None \<Rightarrow> False | Some f \<Rightarrow> f (pc_Resource parsed) (pc_Action parsed))
                    then (decide DecisionCommandAction None effectiveDirected (Some invocation))\<lparr>dc_Command := Some cmd\<rparr>
                    else (decide DecisionUnsupportedCommand (Some CodeUnsupportedWebCommand) effectiveDirected (Some invocation))\<lparr>dc_Command := Some cmd\<rparr>)
                 else (decide DecisionCommandAction None effectiveDirected (Some invocation))\<lparr>dc_Command := Some cmd\<rparr>)
              else if isValidSkillSelector (iv_Selector invocation) then
                (if ci_HasAttachments input
                 then decide DecisionReject (Some CodeSlashAttachmentsUnsupported) effectiveDirected (Some invocation)
                 else (decide DecisionSkillIntent None effectiveDirected (Some invocation))
                        \<lparr>dc_SkillIntent := Some \<lparr>sk_Names = [iv_Selector invocation], sk_Prompt = TrimSpace (iv_Rest invocation)\<rparr>\<rparr>)
              else decide DecisionNormalChat None effectiveDirected (Some invocation))))"

section \<open>Reserved metadata\<close>

text \<open>
  The three separators are ASCII bytes, so they can be dropped byte by byte; where the
  source writes U+FFFD for an ill-formed byte the model keeps the byte, and neither
  occurs in a reserved key.
\<close>

definition normalizeMetadataKey :: "string \<Rightarrow> string" where
  "normalizeMetadataKey key = filter (\<lambda>c. c \<notin> {CHR ''_'', CHR ''-'', CHR ''.''}) (ToLower (TrimSpace key))"

definition reservedMetadataKeys :: "string list" where
  "reservedMetadataKeys = map normalizeMetadataKey
     [''requested_skills'', ''requestedSkills'', ''model_requested_skills'', ''modelRequestedSkills'', ''applied_skills'',
      ''model_used_skills'', ''model_context_skills'', ''loaded_skills'', ''user_message_kind'', ''userMessageKind'',
      ''skill_activation'', ''skillActivation'', ''skill_activation_prompt'', ''skillActivationPrompt'',
      ''skill_activation_skills'', ''skillActivationSkills'', ''audit_requested_skills'']"

definition IsReservedMetadataKey :: "string \<Rightarrow> bool" where
  "IsReservedMetadataKey key \<longleftrightarrow> normalizeMetadataKey key \<in> set reservedMetadataKeys"

fun RejectReservedSkillMetadataValue :: "anyval \<Rightarrow> SlashCode option"
  and rejectList :: "anyval list \<Rightarrow> SlashCode option"
  and rejectMaps :: "(string \<times> anyval) list list \<Rightarrow> SlashCode option"
  and rejectFields :: "(string \<times> anyval) list \<Rightarrow> SlashCode option" where
  "RejectReservedSkillMetadataValue (AMap m) = rejectFields m"
| "RejectReservedSkillMetadataValue (AList xs) = rejectList xs"
| "RejectReservedSkillMetadataValue (AMaps ms) = rejectMaps ms"
| "RejectReservedSkillMetadataValue _ = None"
| "rejectList [] = None"
| "rejectList (x # xs) = (case RejectReservedSkillMetadataValue x of Some err \<Rightarrow> Some err | None \<Rightarrow> rejectList xs)"
| "rejectMaps [] = None"
| "rejectMaps (m # ms) = (case rejectFields m of Some err \<Rightarrow> Some err | None \<Rightarrow> rejectMaps ms)"
| "rejectFields [] = None"
| "rejectFields ((k, v) # m) =
     (if IsReservedMetadataKey k then Some CodeReservedSkillMetadata
      else (case RejectReservedSkillMetadataValue v of Some err \<Rightarrow> Some err | None \<Rightarrow> rejectFields m))"

definition RejectReservedSkillMetadata :: "(string \<times> anyval) list \<Rightarrow> SlashCode option" where
  "RejectReservedSkillMetadata metadata = RejectReservedSkillMetadataValue (AMap metadata)"

definition RejectReservedSkillMetadataShallow :: "(string \<times> anyval) list \<Rightarrow> SlashCode option" where
  "RejectReservedSkillMetadataShallow m =
     (if list_ex (\<lambda>(k, v). IsReservedMetadataKey k) m then Some CodeReservedSkillMetadata else None)"

section \<open>Properties\<close>

text \<open>C37 (classify_gates): A message runs a command only if its name is well formed and registered, on the web only
  if the action is supported there; it activates a skill only if its name is a safe selector, no command
  of that name is registered and there are no attachments; and in a group on a channel neither happens
  unless the message is directed at this bot.\<close>

theorem classify_gates:
  assumes "Classify input = d" "dc_Kind d = DecisionCommandAction \<or> dc_Kind d = DecisionSkillIntent"
  shows "\<exists>ivc. dc_Invocation d = Some ivc \<and> dc_Directed d = iv_Directed ivc \<and>
    (ci_Surface input = SurfaceChannel \<and> ci_IsGroup input \<longrightarrow> dc_Directed d) \<and>
    (dc_Kind d = DecisionCommandAction \<longrightarrow>
       isCommandName (iv_Selector ivc) \<and> isKnown (ci_KnownCommand input) (pc_Resource (iv_Parsed ivc)) \<and>
       (ci_Surface input = SurfaceWebWS \<longrightarrow>
          (\<exists>f. ci_WebActionSupported input = Some f \<and> f (pc_Resource (iv_Parsed ivc)) (pc_Action (iv_Parsed ivc))))) \<and>
    (dc_Kind d = DecisionSkillIntent \<longrightarrow>
       isValidSkillSelector (iv_Selector ivc) \<and> \<not> ci_HasAttachments input \<and>
       \<not> (isCommandName (iv_Selector ivc) \<and> isKnown (ci_KnownCommand input) (pc_Resource (iv_Parsed ivc))))"
proof -
  obtain ivc where ivc: "ParseInvocation \<lparr>ii_Text = TrimSpace (ci_Text input), ii_BotAliases = ci_BotAliases input,
      ii_Directed = ci_Directed input\<rparr> = Inr ivc"
    using assms by (auto simp: Classify_def Let_def decide_def split: if_splits sum.splits)
  show ?thesis
    using assms unfolding Classify_def Let_def ivc decide_def
    by (auto split: if_splits option.splits)
qed

definition webInput :: ClassifyInput where
  "webInput = \<lparr>ci_Text = ''/model list'', ci_HasAttachments = False, ci_Surface = SurfaceWebWS, ci_IsGroup = False,
     ci_Directed = True, ci_BotAliases = [''memoh''], ci_KnownCommand = Some (\<lambda>r. r = ''model''),
     ci_WebActionSupported = Some (\<lambda>r a. a = ''list'')\<rparr>"

theorem classify_gates_witness:
  "dc_Kind (Classify webInput) = DecisionCommandAction \<and>
   (\<exists>ivc. dc_Invocation (Classify webInput) = Some ivc \<and> isCommandName (iv_Selector ivc))"
proof -
  have k: "dc_Kind (Classify webInput) = DecisionCommandAction" by code_simp
  show ?thesis using classify_gates [OF refl, of webInput] k by auto
qed

text \<open>All keys of the maps inside a value.\<close>

fun metadataKeys :: "anyval \<Rightarrow> string set" and listKeys :: "anyval list \<Rightarrow> string set"
  and mapsKeys :: "(string \<times> anyval) list list \<Rightarrow> string set" and fieldKeys :: "(string \<times> anyval) list \<Rightarrow> string set" where
  "metadataKeys (AMap m) = fieldKeys m"
| "metadataKeys (AList xs) = listKeys xs"
| "metadataKeys (AMaps ms) = mapsKeys ms"
| "metadataKeys _ = {}"
| "listKeys [] = {}"
| "listKeys (x # xs) = metadataKeys x \<union> listKeys xs"
| "mapsKeys [] = {}"
| "mapsKeys (m # ms) = fieldKeys m \<union> mapsKeys ms"
| "fieldKeys [] = {}"
| "fieldKeys ((k, v) # m) = {k} \<union> metadataKeys v \<union> fieldKeys m"

lemma reject_keys:
  "RejectReservedSkillMetadataValue v = (if Collect IsReservedMetadataKey \<inter> metadataKeys v = {} then None else Some CodeReservedSkillMetadata)"
  "rejectList xs = (if Collect IsReservedMetadataKey \<inter> listKeys xs = {} then None else Some CodeReservedSkillMetadata)"
  "rejectMaps ms = (if Collect IsReservedMetadataKey \<inter> mapsKeys ms = {} then None else Some CodeReservedSkillMetadata)"
  "rejectFields m = (if Collect IsReservedMetadataKey \<inter> fieldKeys m = {} then None else Some CodeReservedSkillMetadata)"
  by (induction v and xs and ms and m rule: RejectReservedSkillMetadataValue_rejectList_rejectMaps_rejectFields.induct)
    (auto split: option.split)

text \<open>Metadata is refused exactly when some map inside it, at any depth of maps and lists, has a
  reserved key in some spelling.\<close>

theorem reserved_metadata:
  "RejectReservedSkillMetadataValue v =
     (if \<exists>k. k \<in> metadataKeys v \<and> normalizeMetadataKey k \<in> set reservedMetadataKeys then Some CodeReservedSkillMetadata else None)"
  unfolding reject_keys(1) by (auto simp: IsReservedMetadataKey_def)

text \<open>A mention of the bot at the end of a command is taken out, but not when it is written twice: the
  ranges of the two mentions overlap in the blank between them, the second range is skipped and the second
  mention is read as an argument.\<close>

theorem repeated_mention:
  "(case ParseInvocation \<lparr>ii_Text = ''/help @bot'', ii_BotAliases = [''bot''], ii_Directed = False\<rparr> of
      Inr ivc \<Rightarrow> iv_CommandText ivc = ''/help'' \<and> pc_Action (iv_Parsed ivc) = '''' | Inl _ \<Rightarrow> False) \<and>
   (case ParseInvocation \<lparr>ii_Text = ''/help @bot @bot'', ii_BotAliases = [''bot''], ii_Directed = False\<rparr> of
      Inr ivc \<Rightarrow> iv_CommandText ivc = ''/help @bot'' \<and> pc_Action (iv_Parsed ivc) = ''@bot'' | Inl _ \<Rightarrow> False)"
  by code_simp

end
