(* ===== verification/AskTypes.thy ===== *)
theory AskTypes
  imports RuntimeTypes CommandSyntax ContextLimit
begin

text \<open>
  Questions an agent asks its user: the payload of \<^verbatim>\<open>internal/agent/decision/input\<close>, its
  strict parser and its tolerant reader (\<^verbatim>\<open>types.go\<close>, \<^verbatim>\<open>payload.go\<close>, \<^verbatim>\<open>presentation.go\<close>).
  A value read from JSON is a \<open>json\<close>, the \<open>map[string]any\<close> of an object the list of its
  members. An error of the parser is the kind of its message; every one of them wraps
  \<open>ErrInvalidAskUserInput\<close>.
\<close>

section \<open>Results\<close>

definition bindE :: "'e + 'a \<Rightarrow> ('a \<Rightarrow> 'e + 'b) \<Rightarrow> 'e + 'b" where
  "bindE m f = (case m of Inl e \<Rightarrow> Inl e | Inr x \<Rightarrow> f x)"

lemma bindE_simps [simp]: "bindE (Inl e) f = Inl e" "bindE (Inr x) f = f x"
  by (simp_all add: bindE_def)

lemma bindE_Inr: "bindE m f = Inr y \<longleftrightarrow> (\<exists>x. m = Inr x \<and> f x = Inr y)"
  by (cases m) simp_all

text \<open>A loop that stops at the first error; the function also takes the position.\<close>

fun mapE :: "(nat \<Rightarrow> 'a \<Rightarrow> 'e + 'b) \<Rightarrow> nat \<Rightarrow> 'a list \<Rightarrow> 'e + 'b list" where
  "mapE f i [] = Inr []"
| "mapE f i (x # xs) = bindE (f i x) (\<lambda>y. bindE (mapE f (Suc i) xs) (\<lambda>ys. Inr (y # ys)))"

lemma mapE_Inr: "mapE f i xs = Inr ys \<longleftrightarrow> length ys = length xs \<and> (\<forall>k<length xs. f (i + k) (xs ! k) = Inr (ys ! k))"
proof (induction xs arbitrary: i ys)
  case (Cons x xs)
  show ?case
  proof (cases ys)
    case (Cons y ys')
    have "(\<forall>k<Suc (length xs). f (i + k) ((x # xs) ! k) = Inr ((y # ys') ! k)) \<longleftrightarrow>
        f i x = Inr y \<and> (\<forall>k<length xs. f (Suc i + k) (xs ! k) = Inr (ys' ! k))"
      by (auto simp: less_Suc_eq_0_disj)
    then show ?thesis using Cons Cons.IH by (simp add: bindE_Inr) auto
  qed (simp add: bindE_Inr)
qed auto

section \<open>Payloads\<close>

definition QuestionKindSingleSelect :: string where "QuestionKindSingleSelect = ''single_select''"
definition QuestionKindMultiSelect :: string where "QuestionKindMultiSelect = ''multi_select''"
definition QuestionKindText :: string where "QuestionKindText = ''text''"
definition PayloadVersion :: int where "PayloadVersion = 2"
definition MaxQuestionsPerRequest :: nat where "MaxQuestionsPerRequest = 4"
definition MinOptionsPerQuestion :: nat where "MinOptionsPerQuestion = 2"
definition MaxOptionsPerQuestion :: nat where "MaxOptionsPerQuestion = 20"

record UIOption =
  qo_LabelKey :: string
  qo_ID :: string
  qo_Label :: string
  qo_Description :: string

record UIQuestion =
  uq_ID :: string
  uq_Text :: string
  uq_Kind :: string
  uq_Options :: "UIOption list"
  uq_AllowCustom :: bool
  uq_CustomExclusive :: bool
  uq_Required :: "bool option"
  uq_Placeholder :: string

record UIPayload =
  py_Version :: int
  py_Questions :: "UIQuestion list"

definition UIPayload_Question :: "UIPayload \<Rightarrow> string \<Rightarrow> UIQuestion option" where
  "UIPayload_Question p i = List.find (\<lambda>q. uq_ID q = i) (py_Questions p)"

definition UIQuestion_Option :: "UIQuestion \<Rightarrow> string \<Rightarrow> UIOption option" where
  "UIQuestion_Option q i = List.find (\<lambda>opt. qo_ID opt = i) (uq_Options q)"

text \<open>A display copy: the labels with a key are the translator's.\<close>

definition Localized :: "(string \<Rightarrow> string) \<Rightarrow> UIPayload \<Rightarrow> UIPayload" where
  "Localized T p =
     p\<lparr>py_Questions := map (\<lambda>q. q\<lparr>uq_Options :=
        map (\<lambda>opt. if qo_LabelKey opt \<noteq> '''' then opt\<lparr>qo_Label := T (qo_LabelKey opt)\<rparr> else opt) (uq_Options q)\<rparr>) (py_Questions p)\<rparr>"

section \<open>Parsing the tool's arguments\<close>

datatype AskError =
    NotAnObject | UnknownField | QuestionsMissing | TooManyQuestions | StringRequired | TextRequired | KindInvalid
  | BooleanRequired | CustomExclusiveAlone | OptionsOnText | CustomOnText | OptionsRequired | TooFewOptions
  | TooManyOptions | LabelRequired | IndexOutOfRange

definition payloadObject :: "json \<Rightarrow> (string \<times> json) list" where
  "payloadObject input = (case input of JObject obj \<Rightarrow> obj | _ \<Rightarrow> [])"

definition rejectUnknownKeys :: "(string \<times> json) list \<Rightarrow> string list \<Rightarrow> AskError + unit" where
  "rejectUnknownKeys obj allowed = (if list_all (\<lambda>(k, _). k \<in> set allowed) obj then Inr () else Inl UnknownField)"

definition strictString :: "(string \<times> json) list \<Rightarrow> string \<Rightarrow> AskError + string" where
  "strictString obj key =
     (case map_of obj key of
        None \<Rightarrow> Inr ''''
      | Some JNull \<Rightarrow> Inr ''''
      | Some (JString s) \<Rightarrow> Inr (TrimSpace s)
      | _ \<Rightarrow> Inl StringRequired)"

text \<open>A member that must be a boolean when it is there.\<close>

definition strictBool :: "(string \<times> json) list \<Rightarrow> string \<Rightarrow> AskError + bool option" where
  "strictBool obj key =
     (case map_of obj key of
        None \<Rightarrow> Inr None
      | Some (JBool b) \<Rightarrow> Inr (Some b)
      | _ \<Rightarrow> Inl BooleanRequired)"

definition optionID :: "string \<Rightarrow> nat \<Rightarrow> string" where
  "optionID questionID idx = questionID @ ''.o'' @ decimal (idx + 1)"

definition parseOption :: "string \<Rightarrow> nat \<Rightarrow> json \<Rightarrow> AskError + UIOption" where
  "parseOption questionID idx item =
     (case item of
        JObject obj \<Rightarrow>
          bindE (rejectUnknownKeys obj [''label'', ''description'']) (\<lambda>_.
          bindE (strictString obj ''label'') (\<lambda>label.
          bindE (strictString obj ''description'') (\<lambda>description.
          if label = '''' then Inl LabelRequired
          else Inr \<lparr>qo_LabelKey = '''', qo_ID = optionID questionID idx, qo_Label = label, qo_Description = description\<rparr>)))
      | _ \<Rightarrow> Inl NotAnObject)"

definition parseOptions :: "json option \<Rightarrow> string \<Rightarrow> AskError + UIOption list" where
  "parseOptions options questionID =
     (case options of
        Some (JArray items) \<Rightarrow>
          (if items = [] then Inl OptionsRequired
           else if length items < MinOptionsPerQuestion then Inl TooFewOptions
           else if MaxOptionsPerQuestion < length items then Inl TooManyOptions
           else mapE (parseOption questionID) 0 items)
      | _ \<Rightarrow> Inl OptionsRequired)"

definition questionID :: "nat \<Rightarrow> string" where
  "questionID idx = ''q'' @ decimal (idx + 1)"

definition questionKeys :: "string list" where
  "questionKeys = [''text'', ''kind'', ''options'', ''allow_custom'', ''custom_exclusive'', ''required'', ''placeholder'']"

definition isQuestionKind :: "string \<Rightarrow> bool" where
  "isQuestionKind kind \<longleftrightarrow> kind = QuestionKindSingleSelect \<or> kind = QuestionKindMultiSelect \<or> kind = QuestionKindText"

text \<open>The end of \<open>parseQuestion\<close>: the options of a question of a valid kind.\<close>

definition questionOptions :: "(string \<times> json) list \<Rightarrow> UIQuestion \<Rightarrow> AskError + UIQuestion" where
  "questionOptions obj question =
     (if uq_Kind question = QuestionKindText then
        (if map_of obj ''options'' \<noteq> None \<and> map_of obj ''options'' \<noteq> Some JNull then Inl OptionsOnText
         else if uq_AllowCustom question then Inl CustomOnText
         else Inr question)
      else bindE (parseOptions (map_of obj ''options'') (uq_ID question)) (\<lambda>parsed. Inr (question\<lparr>uq_Options := parsed\<rparr>)))"

definition parseQuestion :: "nat \<Rightarrow> json \<Rightarrow> AskError + UIQuestion" where
  "parseQuestion idx item =
     (case item of
        JObject obj \<Rightarrow>
          bindE (rejectUnknownKeys obj questionKeys) (\<lambda>_.
          bindE (strictString obj ''text'') (\<lambda>txt.
          if txt = '''' then Inl TextRequired
          else
            (case map_of obj ''kind'' of
               Some (JString k) \<Rightarrow>
                 (if \<not> isQuestionKind (TrimSpace k) then Inl KindInvalid
                  else
                    bindE (strictBool obj ''allow_custom'') (\<lambda>allow.
                    bindE (strictBool obj ''custom_exclusive'') (\<lambda>exclusive.
                    if exclusive = Some True \<and> allow \<noteq> Some True then Inl CustomExclusiveAlone
                    else
                      bindE (strictBool obj ''required'') (\<lambda>required.
                      bindE (strictString obj ''placeholder'') (\<lambda>placeholder.
                      questionOptions obj \<lparr>uq_ID = questionID idx, uq_Text = txt, uq_Kind = TrimSpace k, uq_Options = [],
                        uq_AllowCustom = (allow = Some True), uq_CustomExclusive = (exclusive = Some True),
                        uq_Required = required, uq_Placeholder = placeholder\<rparr>)))))
             | _ \<Rightarrow> Inl KindInvalid)))
      | _ \<Rightarrow> Inl NotAnObject)"

text \<open>
  The input of the trusted constructor (\<^verbatim>\<open>elicitation_url.go\<close>) is of a type of its own, told
  by the flag \<open>trusted\<close>: its first two options get label keys. Without two options the
  assignment panics, which is the error \<open>IndexOutOfRange\<close>.
\<close>

definition setLabelKeys :: "UIQuestion list \<Rightarrow> AskError + UIQuestion list" where
  "setLabelKeys qs =
     (case qs of
        q # rest \<Rightarrow>
          (case uq_Options q of
             a # b # others \<Rightarrow>
               Inr (q\<lparr>uq_Options := a\<lparr>qo_LabelKey := ''elicitation.done''\<rparr> # b\<lparr>qo_LabelKey := ''elicitation.cancel''\<rparr> # others\<rparr> # rest)
           | _ \<Rightarrow> Inl IndexOutOfRange)
      | [] \<Rightarrow> Inl IndexOutOfRange)"

definition ParseAskUserPayload :: "bool \<Rightarrow> json \<Rightarrow> AskError + UIPayload" where
  "ParseAskUserPayload trusted input =
     (let raw = payloadObject input in
      if raw = [] then Inl NotAnObject
      else
        bindE (rejectUnknownKeys raw [''questions'']) (\<lambda>_.
        case map_of raw ''questions'' of
          Some (JArray items) \<Rightarrow>
            (if items = [] then Inl QuestionsMissing
             else if MaxQuestionsPerRequest < length items then Inl TooManyQuestions
             else
               bindE (mapE parseQuestion 0 items) (\<lambda>parsed.
               bindE (if trusted then setLabelKeys parsed else Inr parsed) (\<lambda>questions.
               Inr \<lparr>py_Version = PayloadVersion, py_Questions = questions\<rparr>)))
        | _ \<Rightarrow> Inl QuestionsMissing))"

text \<open>
  The input of a browser step. \<open>parseURL\<close> is \<open>url.Parse\<close>: the address as \<open>parsed.String()\<close>
  writes it, with its host and its scheme.
\<close>

definition ElicitationURLInput :: "(string \<Rightarrow> (string \<times> string \<times> string) option) \<Rightarrow> string \<Rightarrow> string \<Rightarrow> json option" where
  "ElicitationURLInput parseURL message address =
     (case parseURL (TrimSpace address) of
        None \<Rightarrow> None
      | Some (parsed, host, scheme) \<Rightarrow>
          if host = '''' \<or> scheme \<noteq> ''https'' \<and> scheme \<noteq> ''http'' then None
          else Some (JObject [(''questions'', JArray [JObject
                 [(''text'', JString (TrimSpace (message @ [CHR 0x0A] @ parsed))), (''kind'', JString QuestionKindSingleSelect),
                  (''options'', JArray [JObject [(''label'', JString ''Done'')], JObject [(''label'', JString ''Cancel'')]])]])]))"

section \<open>Reading a stored payload\<close>

text \<open>\<open>Sprint\<close> is \<open>fmt.Sprint\<close> of a value that is not a string.\<close>

definition stringValue :: "(json \<Rightarrow> string) \<Rightarrow> json option \<Rightarrow> string" where
  "stringValue Sprint v =
     (case v of
        None \<Rightarrow> ''''
      | Some JNull \<Rightarrow> ''''
      | Some (JString s) \<Rightarrow> TrimSpace s
      | Some other \<Rightarrow> TrimSpace (Sprint other))"

definition boolValue :: "json option \<Rightarrow> bool" where
  "boolValue v =
     (case v of
        Some (JBool b) \<Rightarrow> b
      | Some (JString s) \<Rightarrow> ToLower (TrimSpace s) \<in> {''true'', ''1'', ''yes''}
      | _ \<Rightarrow> False)"

definition optionalBool :: "(string \<times> json) list \<Rightarrow> string \<Rightarrow> bool option" where
  "optionalBool obj key = (case map_of obj key of Some (JBool b) \<Rightarrow> Some b | _ \<Rightarrow> None)"

definition orElse :: "string \<Rightarrow> string \<Rightarrow> string" where
  "orElse s fallback = (if s = '''' then fallback else s)"

definition decodeOption :: "(json \<Rightarrow> string) \<Rightarrow> string \<Rightarrow> nat \<Rightarrow> json \<Rightarrow> UIOption list" where
  "decodeOption Sprint qid optIdx item =
     (case item of
        JObject obj \<Rightarrow>
          (let i = orElse (stringValue Sprint (map_of obj ''id'')) (optionID qid optIdx)
           in [\<lparr>qo_LabelKey = stringValue Sprint (map_of obj ''label_key''), qo_ID = i,
                qo_Label = orElse (stringValue Sprint (map_of obj ''label'')) i,
                qo_Description = stringValue Sprint (map_of obj ''description'')\<rparr>])
      | _ \<Rightarrow> [])"

definition indexed :: "(nat \<Rightarrow> 'a \<Rightarrow> 'b list) \<Rightarrow> 'a list \<Rightarrow> 'b list" where
  "indexed f xs = concat (map (\<lambda>(i, x). f i x) (enumerate 0 xs))"

definition decodeQuestion :: "(json \<Rightarrow> string) \<Rightarrow> nat \<Rightarrow> json \<Rightarrow> UIQuestion list" where
  "decodeQuestion Sprint idx item =
     (case item of
        JObject obj \<Rightarrow>
          (let i = orElse (stringValue Sprint (map_of obj ''id'')) (questionID idx)
           in [\<lparr>uq_ID = i, uq_Text = stringValue Sprint (map_of obj ''text''),
                uq_Kind = orElse (stringValue Sprint (map_of obj ''kind'')) QuestionKindText,
                uq_Options = (case map_of obj ''options'' of Some (JArray options) \<Rightarrow> indexed (decodeOption Sprint i) options | _ \<Rightarrow> []),
                uq_AllowCustom = boolValue (map_of obj ''allow_custom''),
                uq_CustomExclusive = boolValue (map_of obj ''custom_exclusive''),
                uq_Required = optionalBool obj ''required'',
                uq_Placeholder = stringValue Sprint (map_of obj ''placeholder'')\<rparr>])
      | _ \<Rightarrow> [])"

definition decodeStoredV2 :: "(json \<Rightarrow> string) \<Rightarrow> json list \<Rightarrow> UIPayload" where
  "decodeStoredV2 Sprint items = \<lparr>py_Version = PayloadVersion, py_Questions = indexed (decodeQuestion Sprint) items\<rparr>"

text \<open>The single-question shape of older rows. The flag says that the option stood for a custom answer.\<close>

definition upgradeLegacyOption :: "(json \<Rightarrow> string) \<Rightarrow> json \<Rightarrow> nat \<Rightarrow> UIOption \<times> bool" where
  "upgradeLegacyOption Sprint item idx =
     (case item of
        JObject obj \<Rightarrow>
          (let val = (\<lambda>key. stringValue Sprint (map_of obj key));
               i = orElse (orElse (orElse (val ''id'') (val ''value'')) (val ''label'')) (''q1.o'' @ decimal (idx + 1));
               label = orElse (orElse (val ''label'') (val ''value'')) i;
               custom = EqualFold (TrimSpace (val ''input_type'')) ''text''
           in (\<lparr>qo_LabelKey = '''', qo_ID = i, qo_Label = label,
                 qo_Description = (if custom then val ''placeholder'' else val ''description'')\<rparr>, custom))
      | _ \<Rightarrow>
          (let txt = stringValue Sprint (Some item) in (\<lparr>qo_LabelKey = '''', qo_ID = txt, qo_Label = txt, qo_Description = ''''\<rparr>, False)))"

definition upgradeStep :: "(json \<Rightarrow> string) \<Rightarrow> UIQuestion \<Rightarrow> nat \<times> json \<Rightarrow> UIQuestion" where
  "upgradeStep Sprint question ix =
     (case upgradeLegacyOption Sprint (snd ix) (fst ix) of
        (opt, custom) \<Rightarrow>
          (if qo_ID opt = '''' \<and> qo_Label opt = '''' then question
           else if custom then
             question\<lparr>uq_AllowCustom := True, uq_Placeholder := orElse (uq_Placeholder question) (qo_Description opt)\<rparr>
           else question\<lparr>uq_Options := uq_Options question @ [opt]\<rparr>))"

definition legacyMultipleValue :: "(json \<Rightarrow> string) \<Rightarrow> (string \<times> json) list \<Rightarrow> bool" where
  "legacyMultipleValue Sprint raw \<longleftrightarrow>
     boolValue (map_of raw ''multiple'') \<or> boolValue (map_of raw ''multi_select'') \<or>
     ToLower (TrimSpace (stringValue Sprint (map_of raw ''selection_type''))) \<in> {''multiple'', ''multi'', ''multi_select''}"

definition upgradeLegacyPayload :: "(json \<Rightarrow> string) \<Rightarrow> (string \<times> json) list \<Rightarrow> UIPayload" where
  "upgradeLegacyPayload Sprint raw =
     (let question0 = \<lparr>uq_ID = ''q1'', uq_Text = orElse (stringValue Sprint (map_of raw ''question'')) ''Please choose an option.'',
            uq_Kind = '''', uq_Options = [], uq_AllowCustom = boolValue (map_of raw ''allow_custom''), uq_CustomExclusive = False,
            uq_Required = None, uq_Placeholder = stringValue Sprint (map_of raw ''placeholder'')\<rparr>;
          question = (case map_of raw ''options'' of
                        Some (JArray items) \<Rightarrow> foldl (upgradeStep Sprint) question0 (enumerate 0 items)
                      | _ \<Rightarrow> question0);
          final = (if uq_Options question = [] then question\<lparr>uq_Kind := QuestionKindText, uq_AllowCustom := False\<rparr>
                   else if legacyMultipleValue Sprint raw then question\<lparr>uq_Kind := QuestionKindMultiSelect\<rparr>
                   else question\<lparr>uq_Kind := QuestionKindSingleSelect\<rparr>)
      in \<lparr>py_Version = PayloadVersion, py_Questions = [final]\<rparr>)"

definition PayloadFromStored :: "(json \<Rightarrow> string) \<Rightarrow> json \<Rightarrow> UIPayload" where
  "PayloadFromStored Sprint v =
     (let raw = payloadObject v in
      if raw = [] then \<lparr>py_Version = PayloadVersion, py_Questions = []\<rparr>
      else (case map_of raw ''questions'' of
              Some (JArray items) \<Rightarrow> decodeStoredV2 Sprint items
            | _ \<Rightarrow> upgradeLegacyPayload Sprint raw))"

section \<open>The payload of a request\<close>

text \<open>
  The sources of requests. The options of Memoh's own question, or of one without a source, are
  shortcuts: every choice also takes a typed answer. An agent's question keeps its constraints.
\<close>

definition ProviderSourceMemohTool :: string where "ProviderSourceMemohTool = ''acp_mcp''"

definition externalSources :: "string list" where
  "externalSources =
     [''acp_elicitation'', ''acp_agent_question'', ''codex_request_user_input'', ''codex_mcp_elicitation'',
      ''claude_request_user_input'', ''claude_mcp_elicitation'']"

definition enableConversationalAnswers :: "json option \<Rightarrow> UIPayload \<Rightarrow> UIPayload" where
  "enableConversationalAnswers source p =
     (if source \<notin> {None, Some (JString ''''), Some (JString ProviderSourceMemohTool)} then p
      else
        p\<lparr>py_Questions := map (\<lambda>q.
          if uq_Kind q = QuestionKindSingleSelect \<or> uq_Kind q = QuestionKindMultiSelect then q\<lparr>uq_AllowCustom := True\<rparr> else q)
          (py_Questions p)\<rparr>)"

text \<open>What \<open>CreatePending\<close> makes of a tool's arguments, and \<open>requestFromRow\<close> of a stored payload.\<close>

definition requestPayload :: "json option \<Rightarrow> bool \<Rightarrow> json \<Rightarrow> AskError + UIPayload" where
  "requestPayload source trusted input =
     bindE (ParseAskUserPayload trusted input) (\<lambda>p. Inr (enableConversationalAnswers source p))"

definition loadedPayload :: "(json \<Rightarrow> string) \<Rightarrow> json option \<Rightarrow> json \<Rightarrow> UIPayload" where
  "loadedPayload Sprint source stored = enableConversationalAnswers source (PayloadFromStored Sprint stored)"

section \<open>Storing a payload\<close>

text \<open>\<open>json.Marshal\<close> of a payload: the members in order, those marked \<^verbatim>\<open>omitempty\<close> only when set.\<close>

definition textMember :: "string \<Rightarrow> string \<Rightarrow> (string \<times> json) list" where
  "textMember key s = (if s = '''' then [] else [(key, JString s)])"

definition boolMember :: "string \<Rightarrow> bool \<Rightarrow> (string \<times> json) list" where
  "boolMember key b = (if b then [(key, JBool True)] else [])"

definition storedOption :: "UIOption \<Rightarrow> json" where
  "storedOption opt =
     JObject (textMember ''label_key'' (qo_LabelKey opt) @ [(''id'', JString (qo_ID opt)), (''label'', JString (qo_Label opt))] @
       textMember ''description'' (qo_Description opt))"

definition storedQuestion :: "UIQuestion \<Rightarrow> json" where
  "storedQuestion q =
     JObject ([(''id'', JString (uq_ID q)), (''text'', JString (uq_Text q)), (''kind'', JString (uq_Kind q))] @
       (if uq_Options q = [] then [] else [(''options'', JArray (map storedOption (uq_Options q)))]) @
       boolMember ''allow_custom'' (uq_AllowCustom q) @ boolMember ''custom_exclusive'' (uq_CustomExclusive q) @
       (case uq_Required q of None \<Rightarrow> [] | Some b \<Rightarrow> [(''required'', JBool b)]) @
       textMember ''placeholder'' (uq_Placeholder q))"

definition storedPayload :: "UIPayload \<Rightarrow> json" where
  "storedPayload p =
     JObject [(''version'', JNumber (of_int (py_Version p))), (''questions'', JArray (map storedQuestion (py_Questions p)))]"

end
