(* ===== verification/AskAnswers.thy ===== *)
theory AskAnswers
  imports AskTypes
begin

text \<open>
  Answers to a request: the record of \<^verbatim>\<open>types.go\<close>, and the check that turns the answers into
  the tool's result when the request is submitted (\<^verbatim>\<open>service.go\<close>). An error is the kind of
  its message.
\<close>

section \<open>Answers\<close>

record QuestionAnswer =
  qa_QuestionID :: string
  qa_OptionIDs :: "string list"
  qa_CustomText :: string
  qa_Text :: string
  qa_Skipped :: bool

definition blankAnswer :: "string \<Rightarrow> QuestionAnswer" where
  "blankAnswer i = \<lparr>qa_QuestionID = i, qa_OptionIDs = [], qa_CustomText = '''', qa_Text = '''', qa_Skipped = False\<rparr>"

definition questionIsExplicitlyRequired :: "UIQuestion \<Rightarrow> bool" where
  "questionIsExplicitlyRequired q \<longleftrightarrow> uq_Required q = Some True"

section \<open>Submission\<close>

datatype AnswerError =
    NoQuestions | QuestionIDRequired | UnknownQuestion | DuplicateAnswer | MissingAnswer | SkippedAndAnswered
  | RequiredSkipped | FreeTextOnly | TextAnswerRequired | SelectOnly | CustomNotAllowed | NotBoth | ExactlyOne
  | EitherOptionOrCustom | SelectionRequired | SelectedTwice | NoSuchOption

definition StatusSubmitted :: string where "StatusSubmitted = ''submitted''"
definition StatusCanceled :: string where "StatusCanceled = ''canceled''"

definition submitInstruction :: string where
  "submitInstruction = ''The user submitted this answer for the current ask_user request. Use it only to resolve that specific question. If the user later asks for another choice, quiz, or decision, call ask_user again before grading or continuing.''"

definition cancelInstruction :: string where
  "cancelInstruction = ''The user canceled this input request. Do not ask the same question again; continue with a reasonable choice from the available context or briefly explain the next step.''"

definition cleanIDs :: "string list \<Rightarrow> string list" where
  "cleanIDs values = filter (\<lambda>v. v \<noteq> '''') (map TrimSpace values)"

text \<open>The loop over the selected options; \<open>seen\<close> holds the ids passed.\<close>

definition selectionEntry :: "UIOption \<Rightarrow> json" where
  "selectionEntry opt =
     JObject ([(''id'', JString (qo_ID opt)), (''label'', JString (qo_Label opt))] @ textMember ''label_key'' (qo_LabelKey opt))"

fun selections :: "UIQuestion \<Rightarrow> string set \<Rightarrow> string list \<Rightarrow> AnswerError + json list" where
  "selections q seen [] = Inr []"
| "selections q seen (i # ids) =
     (if i \<in> seen then Inl SelectedTwice
      else
        (case UIQuestion_Option q i of
           None \<Rightarrow> Inl NoSuchOption
         | Some opt \<Rightarrow> bindE (selections q (insert i seen) ids) (\<lambda>ss. Inr (selectionEntry opt # ss))))"

text \<open>The end of \<open>answerEntry\<close>: the answer to a select question, with its cleaned parts.\<close>

definition selectEntry :: "UIQuestion \<Rightarrow> string list \<Rightarrow> string \<Rightarrow> AnswerError + (string \<times> json) list" where
  "selectEntry q optionIDs customText =
     (if customText \<noteq> '''' \<and> \<not> uq_AllowCustom q then Inl CustomNotAllowed
      else if uq_CustomExclusive q \<and> optionIDs \<noteq> [] \<and> customText \<noteq> '''' then Inl NotBoth
      else if uq_Kind q = QuestionKindSingleSelect \<and> 1 < length optionIDs then Inl ExactlyOne
      else if uq_Kind q = QuestionKindSingleSelect \<and> length optionIDs = 1 \<and> customText \<noteq> '''' then Inl EitherOptionOrCustom
      else if optionIDs = [] \<and> customText = '''' then Inl SelectionRequired
      else
        bindE (selections q {} optionIDs) (\<lambda>selected.
          Inr ((if selected = [] then [] else [(''selected'', JArray selected)]) @ textMember ''custom_text'' customText)))"

definition answerEntry :: "UIQuestion \<Rightarrow> QuestionAnswer \<Rightarrow> AnswerError + json" where
  "answerEntry q answer =
     (let entry = [(''question_id'', JString (uq_ID q)), (''question'', JString (uq_Text q))];
          optionIDs = cleanIDs (qa_OptionIDs answer);
          customText = TrimSpace (qa_CustomText answer);
          txt = TrimSpace (qa_Text answer)
      in if qa_Skipped answer then
           (if optionIDs \<noteq> [] \<or> customText \<noteq> '''' \<or> txt \<noteq> '''' then Inl SkippedAndAnswered
            else if questionIsExplicitlyRequired q then Inl RequiredSkipped
            else Inr (JObject (entry @ [(''skipped'', JBool True)])))
         else if uq_Kind q = QuestionKindText then
           (if optionIDs \<noteq> [] \<or> customText \<noteq> '''' then Inl FreeTextOnly
            else if txt = '''' then Inl TextAnswerRequired
            else Inr (JObject (entry @ [(''text'', JString txt)])))
         else if txt \<noteq> '''' then Inl SelectOnly
         else bindE (selectEntry q optionIDs customText) (\<lambda>members. Inr (JObject (entry @ members))))"

text \<open>The answers by question: \<open>byQuestion\<close> has the id of each, trimmed.\<close>

fun byQuestion :: "UIPayload \<Rightarrow> (string \<times> QuestionAnswer) list \<Rightarrow> QuestionAnswer list \<Rightarrow> AnswerError + (string \<times> QuestionAnswer) list" where
  "byQuestion p m [] = Inr m"
| "byQuestion p m (answer # answers) =
     (let i = TrimSpace (qa_QuestionID answer) in
      if i = '''' then Inl QuestionIDRequired
      else if UIPayload_Question p i = None then Inl UnknownQuestion
      else if map_of m i \<noteq> None then Inl DuplicateAnswer
      else byQuestion p ((i, answer) # m) answers)"

definition questionEntry :: "(string \<times> QuestionAnswer) list \<Rightarrow> UIQuestion \<Rightarrow> AnswerError + json" where
  "questionEntry m q = (case map_of m (uq_ID q) of None \<Rightarrow> Inl MissingAnswer | Some answer \<Rightarrow> answerEntry q answer)"

definition submittedResult :: "UIPayload \<Rightarrow> QuestionAnswer list \<Rightarrow> AnswerError + json" where
  "submittedResult p answers =
     (if py_Questions p = [] then Inl NoQuestions
      else
        bindE (byQuestion p [] answers) (\<lambda>m.
        bindE (mapE (\<lambda>_. questionEntry m) 0 (py_Questions p)) (\<lambda>entries.
        Inr (JObject [(''status'', JString StatusSubmitted), (''answers'', JArray entries), (''instruction'', JString submitInstruction)]))))"

definition ValidateAnswers :: "UIPayload \<Rightarrow> QuestionAnswer list \<Rightarrow> AnswerError + unit" where
  "ValidateAnswers p answers = bindE (submittedResult p answers) (\<lambda>_. Inr ())"

definition canceledResult :: "string \<Rightarrow> json" where
  "canceledResult reason =
     JObject [(''status'', JString StatusCanceled), (''reason'', JString (orElse (TrimSpace reason) ''user_canceled'')),
              (''instruction'', JString cancelInstruction)]"

end
