(* ===== verification/AskFlow.thy ===== *)
theory AskFlow
  imports AskAnswers
begin

text \<open>
  Answering a request question by question: the cursor that plain-text replies
  (\<^verbatim>\<open>plain_text.go\<close>) and native buttons (\<^verbatim>\<open>interaction.go\<close>) share. Both are pure functions of the
  payload and the stored state; the service reads the state, applies one of them and writes the
  result under a revision check, only when the state changed. \<open>strings.EqualFold\<close> of an
  option's label with a reply is the argument \<open>eqFold\<close>, since labels may be in any script.
\<close>

section \<open>The stored state\<close>

record TextInteractionState =
  ti_QuestionIndex :: int
  ti_Answers :: "QuestionAnswer list"
  ti_Completed :: bool

definition newInteraction :: TextInteractionState where
  "newInteraction = \<lparr>ti_QuestionIndex = 0, ti_Answers = [], ti_Completed = False\<rparr>"

definition savedAnswer :: "QuestionAnswer list \<Rightarrow> string \<Rightarrow> QuestionAnswer option" where
  "savedAnswer answers i = List.find (\<lambda>a. qa_QuestionID a = i) answers"

text \<open>\<open>state.Answer\<close> without the flag: the zero answer when there is none.\<close>

definition answerOrZero :: "QuestionAnswer list \<Rightarrow> string \<Rightarrow> QuestionAnswer" where
  "answerOrZero answers i = (case savedAnswer answers i of Some a \<Rightarrow> a | None \<Rightarrow> blankAnswer '''')"

fun putTextAnswer :: "QuestionAnswer list \<Rightarrow> QuestionAnswer \<Rightarrow> QuestionAnswer list" where
  "putTextAnswer [] answer = [answer]"
| "putTextAnswer (a # answers) answer =
     (if qa_QuestionID a = qa_QuestionID answer then answer # answers else a # putTextAnswer answers answer)"

definition removeTextAnswer :: "QuestionAnswer list \<Rightarrow> string \<Rightarrow> QuestionAnswer list" where
  "removeTextAnswer answers i = filter (\<lambda>a. qa_QuestionID a \<noteq> i) answers"

fun keepKnown :: "string set \<Rightarrow> string set \<Rightarrow> QuestionAnswer list \<Rightarrow> QuestionAnswer list" where
  "keepKnown valid seen [] = []"
| "keepKnown valid seen (a # answers) =
     (if qa_QuestionID a \<notin> valid \<or> qa_QuestionID a \<in> seen then keepKnown valid seen answers
      else a # keepKnown valid (insert (qa_QuestionID a) seen) answers)"

definition questionCount :: "UIPayload \<Rightarrow> int" where
  "questionCount p = int (length (py_Questions p))"

definition normalizeTextInteraction :: "UIPayload \<Rightarrow> TextInteractionState \<Rightarrow> TextInteractionState" where
  "normalizeTextInteraction p s =
     (let i = (if ti_QuestionIndex s < 0 then 0 else ti_QuestionIndex s);
          j = (if questionCount p \<le> i then questionCount p - 1 else i)
      in s\<lparr>ti_QuestionIndex := j, ti_Answers := keepKnown (set (map uq_ID (py_Questions p))) {} (ti_Answers s)\<rparr>)"

text \<open>The first required question without an answer that counts, and the skips that complete the rest.\<close>

fun unansweredRequired :: "QuestionAnswer list \<Rightarrow> int \<Rightarrow> UIQuestion list \<Rightarrow> int option" where
  "unansweredRequired answers i [] = None"
| "unansweredRequired answers i (q # qs) =
     (if \<not> questionIsExplicitlyRequired q then unansweredRequired answers (i + 1) qs
      else
        (case savedAnswer answers (uq_ID q) of
           None \<Rightarrow> Some i
         | Some a \<Rightarrow> if qa_Skipped a then Some i else unansweredRequired answers (i + 1) qs))"

definition skipAnswer :: "string \<Rightarrow> QuestionAnswer" where
  "skipAnswer i = (blankAnswer i)\<lparr>qa_Skipped := True\<rparr>"

definition fillSkips :: "UIPayload \<Rightarrow> QuestionAnswer list \<Rightarrow> QuestionAnswer list" where
  "fillSkips p answers =
     answers @ map (\<lambda>q. skipAnswer (uq_ID q))
       (filter (\<lambda>q. uq_ID q \<notin> set (map qa_QuestionID answers) \<and> \<not> questionIsExplicitlyRequired q) (py_Questions p))"

definition completeOrFocusRequired :: "UIPayload \<Rightarrow> TextInteractionState \<Rightarrow> TextInteractionState" where
  "completeOrFocusRequired p s =
     (case unansweredRequired (ti_Answers s) 0 (py_Questions p) of
        Some i \<Rightarrow> s\<lparr>ti_QuestionIndex := i, ti_Completed := False\<rparr>
      | None \<Rightarrow> s\<lparr>ti_Answers := fillSkips p (ti_Answers s), ti_Completed := True\<rparr>)"

section \<open>Plain-text replies\<close>

definition isBackCommand :: "string \<Rightarrow> bool" where
  "isBackCommand txt \<longleftrightarrow>
     txt \<in> {''back'',
       [CHR 0xE8, CHR 0xBF, CHR 0x94, CHR 0xE5, CHR 0x9B, CHR 0x9E],
       [CHR 0xE4, CHR 0xB8, CHR 0x8A, CHR 0xE4, CHR 0xB8, CHR 0x80, CHR 0xE6, CHR 0xAD, CHR 0xA5],
       [CHR 0xE6, CHR 0x88, CHR 0xBB, CHR 0xE3, CHR 0x82, CHR 0x8B]}"

definition isSkipCommand :: "string \<Rightarrow> bool" where
  "isSkipCommand txt \<longleftrightarrow>
     txt \<in> {''skip'',
       [CHR 0xE8, CHR 0xB7, CHR 0xB3, CHR 0xE8, CHR 0xBF, CHR 0x87],
       [CHR 0xE7, CHR 0x95, CHR 0xA5, CHR 0xE8, CHR 0xBF, CHR 0x87],
       [CHR 0xE3, CHR 0x82, CHR 0xB9, CHR 0xE3, CHR 0x82, CHR 0xAD, CHR 0xE3, CHR 0x83, CHR 0x83, CHR 0xE3, CHR 0x83, CHR 0x97]}"

definition matchTextOption :: "(string \<Rightarrow> string \<Rightarrow> bool) \<Rightarrow> UIQuestion \<Rightarrow> string \<Rightarrow> string option" where
  "matchTextOption eqFold q raw =
     (let txt = TrimSpace raw;
          named = map_option qo_ID (List.find (\<lambda>opt. eqFold txt (TrimSpace (qo_ID opt)) \<or> eqFold txt (TrimSpace (qo_Label opt))) (uq_Options q))
      in case Atoi txt of
           Some number \<Rightarrow>
             (if 1 \<le> number \<and> number \<le> int (length (uq_Options q)) then Some (qo_ID (uq_Options q ! nat (number - 1))) else named)
         | None \<Rightarrow> named)"

text \<open>
  The runes that separate selections: comma and semicolon (ASCII and full width), line feed,
  carriage return and U+2028, by the length of their bytes.
\<close>

fun separatorLen :: "string \<Rightarrow> nat" where
  "separatorLen [] = 0"
| "separatorLen (a # s) =
     (if a \<in> {CHR 0x2C, CHR 0x3B, CHR 0x0A, CHR 0x0D} then 1
      else (case s of
              b # c # _ \<Rightarrow>
                (if a = CHR 0xEF \<and> b = CHR 0xBC \<and> c \<in> {CHR 0x8C, CHR 0x9B} \<or> a = CHR 0xE2 \<and> b = CHR 0x80 \<and> c = CHR 0xA8
                 then 3 else 0)
            | _ \<Rightarrow> 0))"

function selectionFields :: "string \<Rightarrow> string \<Rightarrow> string list" where
  "selectionFields field s =
     (if s = [] then (if field = [] then [] else [field])
      else if 0 < separatorLen s then
        (if field = [] then selectionFields [] (drop (separatorLen s) s) else field # selectionFields [] (drop (separatorLen s) s))
      else selectionFields (field @ [hd s]) (tl s))"
  by pat_completeness auto
termination
  by (relation "measure (length \<circ> snd)") auto

declare selectionFields.simps [simp del]

definition splitTextSelections :: "string \<Rightarrow> string list" where
  "splitTextSelections txt = filter (\<lambda>part. part \<noteq> '''') (map TrimSpace (selectionFields [] txt))"

datatype ReplyError = AnswerRequired | NoMatchingOption | SelectionMissing | NoMatchingSelection | UnsupportedKind

text \<open>The loop over the parts of a multiple selection; an error leaves it at the first part without an option.\<close>

fun matchParts :: "(string \<Rightarrow> string \<Rightarrow> bool) \<Rightarrow> UIQuestion \<Rightarrow> string list \<Rightarrow> string list \<Rightarrow> string list option" where
  "matchParts eqFold q ids [] = Some ids"
| "matchParts eqFold q ids (part # parts) =
     (case matchTextOption eqFold q part of
        None \<Rightarrow> None
      | Some i \<Rightarrow> matchParts eqFold q (if i \<in> set ids then ids else ids @ [i]) parts)"

definition parseTextAnswer :: "(string \<Rightarrow> string \<Rightarrow> bool) \<Rightarrow> UIQuestion \<Rightarrow> string \<Rightarrow> ReplyError + QuestionAnswer" where
  "parseTextAnswer eqFold q raw =
     (let txt = TrimSpace raw; answer = blankAnswer (uq_ID q) in
      if txt = '''' then Inl AnswerRequired
      else if uq_Kind q = QuestionKindText then Inr (answer\<lparr>qa_Text := txt\<rparr>)
      else if uq_Kind q = QuestionKindSingleSelect then
        (case matchTextOption eqFold q txt of
           Some i \<Rightarrow> Inr (answer\<lparr>qa_OptionIDs := [i]\<rparr>)
         | None \<Rightarrow> if uq_AllowCustom q then Inr (answer\<lparr>qa_CustomText := txt\<rparr>) else Inl NoMatchingOption)
      else if uq_Kind q = QuestionKindMultiSelect then
        (let parts = splitTextSelections txt in
         if parts = [] then (if uq_AllowCustom q then Inr (answer\<lparr>qa_CustomText := txt\<rparr>) else Inl SelectionMissing)
         else
           (case matchParts eqFold q [] parts of
              Some ids \<Rightarrow> Inr (answer\<lparr>qa_OptionIDs := ids\<rparr>)
            | None \<Rightarrow> if uq_AllowCustom q then Inr (answer\<lparr>qa_CustomText := txt\<rparr>) else Inl NoMatchingSelection))
      else Inl UnsupportedKind)"

text \<open>
  One reply. The result has the state, the flag for a reply that is not an answer and the flag
  for a change; a request without questions is an error.
\<close>

definition putReply :: "UIPayload \<Rightarrow> TextInteractionState \<Rightarrow> QuestionAnswer \<Rightarrow> TextInteractionState" where
  "putReply p s answer =
     (let s' = s\<lparr>ti_Answers := putTextAnswer (ti_Answers s) answer\<rparr> in
      if ti_QuestionIndex s' = questionCount p - 1 then completeOrFocusRequired p s'
      else s'\<lparr>ti_QuestionIndex := ti_QuestionIndex s' + 1\<rparr>)"

definition advanceTextState ::
  "(string \<Rightarrow> string \<Rightarrow> bool) \<Rightarrow> UIPayload \<Rightarrow> TextInteractionState \<Rightarrow> string \<Rightarrow>
   AnswerError + (TextInteractionState \<times> bool \<times> bool)" where
  "advanceTextState eqFold p state raw =
     (if py_Questions p = [] then Inl NoQuestions
      else
        (let s = normalizeTextInteraction p state;
             command = ToLower (TrimSpace raw);
             question = py_Questions p ! nat (ti_QuestionIndex s)
         in if isBackCommand command then
              (if ti_QuestionIndex s = 0 then Inr (s, False, False)
               else Inr (s\<lparr>ti_QuestionIndex := ti_QuestionIndex s - 1, ti_Completed := False\<rparr>, False, True))
            else if ti_Completed s then Inr (s, False, False)
            else if isSkipCommand command then
              (if questionIsExplicitlyRequired question then Inr (s, True, False)
               else Inr (putReply p s (skipAnswer (uq_ID question)), False, True))
            else
              (case parseTextAnswer eqFold question raw of
                 Inl _ \<Rightarrow> Inr (s, True, False)
               | Inr answer \<Rightarrow> Inr (putReply p s answer, False, True))))"

section \<open>Buttons\<close>

datatype InteractionReject = RejectNone | RejectInvalidOp | RejectCustomNotAllowed | RejectEmptyText

definition OpSelectOption :: string where "OpSelectOption = ''select''"
definition OpToggleOption :: string where "OpToggleOption = ''toggle''"
definition OpSetText :: string where "OpSetText = ''set_text''"
definition OpNavigate :: string where "OpNavigate = ''navigate''"
definition OpSubmit :: string where "OpSubmit = ''submit''"

record InteractionOp =
  op_Kind :: string
  op_QuestionIndex :: int
  op_OptionIndex :: int
  op_Page :: int
  op_QuestionID :: string
  op_Text :: string

record InteractionOutcome =
  io_Changed :: bool
  io_Reject :: InteractionReject

definition unchanged :: InteractionOutcome where "unchanged = \<lparr>io_Changed = False, io_Reject = RejectNone\<rparr>"
definition changed :: InteractionOutcome where "changed = \<lparr>io_Changed = True, io_Reject = RejectNone\<rparr>"

definition rejected :: "InteractionReject \<Rightarrow> InteractionOutcome" where
  "rejected r = \<lparr>io_Changed = False, io_Reject = r\<rparr>"

definition interactionQuestionAt :: "UIPayload \<Rightarrow> int \<Rightarrow> UIQuestion option" where
  "interactionQuestionAt p index =
     (if index < 0 \<or> questionCount p \<le> index then None else Some (py_Questions p ! nat index))"

definition interactionOptionAt :: "UIPayload \<Rightarrow> int \<Rightarrow> int \<Rightarrow> (UIQuestion \<times> UIOption) option" where
  "interactionOptionAt p index optionIndex =
     (case interactionQuestionAt p index of
        None \<Rightarrow> None
      | Some q \<Rightarrow>
          if optionIndex < 0 \<or> int (length (uq_Options q)) \<le> optionIndex then None
          else Some (q, uq_Options q ! nat optionIndex))"

definition advanceFrom :: "UIPayload \<Rightarrow> TextInteractionState \<Rightarrow> int \<Rightarrow> TextInteractionState" where
  "advanceFrom p s index =
     (if index < questionCount p - 1 then s\<lparr>ti_QuestionIndex := index + 1\<rparr> else completeOrFocusRequired p s)"

definition isChosen :: "TextInteractionState \<Rightarrow> UIQuestion \<Rightarrow> UIOption \<Rightarrow> bool" where
  "isChosen s q opt \<longleftrightarrow>
     (case savedAnswer (ti_Answers s) (uq_ID q) of
        None \<Rightarrow> False
      | Some a \<Rightarrow> qa_OptionIDs a = [qo_ID opt] \<and> qa_CustomText a = '''')"

definition applySelectOption :: "UIPayload \<Rightarrow> TextInteractionState \<Rightarrow> int \<Rightarrow> int \<Rightarrow> TextInteractionState \<times> InteractionOutcome" where
  "applySelectOption p state index optionIndex =
     (case interactionOptionAt p index optionIndex of
        None \<Rightarrow> (state, rejected RejectInvalidOp)
      | Some (q, opt) \<Rightarrow>
          let s = state\<lparr>ti_QuestionIndex := index\<rparr> in
          if isChosen s q opt then (s\<lparr>ti_Answers := removeTextAnswer (ti_Answers s) (uq_ID q)\<rparr>, changed)
          else
            (advanceFrom p (s\<lparr>ti_Answers := putTextAnswer (ti_Answers s) ((blankAnswer (uq_ID q))\<lparr>qa_OptionIDs := [qo_ID opt]\<rparr>)\<rparr>) index,
             changed))"

definition toggleOptionID :: "string list \<Rightarrow> string \<Rightarrow> string list" where
  "toggleOptionID ids target = (if target \<in> set ids then filter (\<lambda>i. i \<noteq> target) ids else ids @ [target])"

definition applyToggleOption :: "UIPayload \<Rightarrow> TextInteractionState \<Rightarrow> int \<Rightarrow> int \<Rightarrow> TextInteractionState \<times> InteractionOutcome" where
  "applyToggleOption p state index optionIndex =
     (case interactionOptionAt p index optionIndex of
        None \<Rightarrow> (state, rejected RejectInvalidOp)
      | Some (q, opt) \<Rightarrow>
          let s = state\<lparr>ti_QuestionIndex := index\<rparr>;
              a = (answerOrZero (ti_Answers s) (uq_ID q))\<lparr>qa_QuestionID := uq_ID q, qa_Skipped := False\<rparr>;
              b = (if uq_CustomExclusive q then a\<lparr>qa_CustomText := ''''\<rparr> else a);
              answer = b\<lparr>qa_OptionIDs := toggleOptionID (qa_OptionIDs b) (qo_ID opt)\<rparr>
          in (if qa_OptionIDs answer = [] \<and> TrimSpace (qa_CustomText answer) = ''''
              then s\<lparr>ti_Answers := removeTextAnswer (ti_Answers s) (uq_ID q)\<rparr>
              else s\<lparr>ti_Answers := putTextAnswer (ti_Answers s) answer\<rparr>,
              changed))"

text \<open>The question free text is bound to, with its position.\<close>

definition questionIndexOf :: "UIPayload \<Rightarrow> string \<Rightarrow> int option" where
  "questionIndexOf p i =
     map_option (\<lambda>(k, _). int k) (List.find (\<lambda>(_, q). uq_ID q = i) (enumerate 0 (py_Questions p)))"

definition applySetText :: "UIPayload \<Rightarrow> TextInteractionState \<Rightarrow> string \<Rightarrow> string \<Rightarrow> TextInteractionState \<times> InteractionOutcome" where
  "applySetText p state qid raw =
     (let txt = TrimSpace raw in
      if txt = '''' then (state, rejected RejectEmptyText)
      else
        (case questionIndexOf p (TrimSpace qid) of
           None \<Rightarrow> (state, rejected RejectInvalidOp)
         | Some index \<Rightarrow>
             let q = py_Questions p ! nat index;
                 s = state\<lparr>ti_QuestionIndex := index\<rparr>;
                 put = (\<lambda>answer. s\<lparr>ti_Answers := putTextAnswer (ti_Answers s) answer\<rparr>)
             in if uq_Kind q = QuestionKindSingleSelect then
                  (if \<not> uq_AllowCustom q then (s, rejected RejectCustomNotAllowed)
                   else (advanceFrom p (put ((blankAnswer (uq_ID q))\<lparr>qa_CustomText := txt\<rparr>)) index, changed))
                else if uq_Kind q = QuestionKindMultiSelect then
                  (if \<not> uq_AllowCustom q then (s, rejected RejectCustomNotAllowed)
                   else
                     let a = (answerOrZero (ti_Answers s) (uq_ID q))\<lparr>qa_QuestionID := uq_ID q, qa_Skipped := False\<rparr>;
                         b = (if uq_CustomExclusive q then a\<lparr>qa_OptionIDs := []\<rparr> else a)
                     in (put (b\<lparr>qa_CustomText := txt\<rparr>), changed))
                else (advanceFrom p (put ((blankAnswer (uq_ID q))\<lparr>qa_Text := txt\<rparr>)) index, changed)))"

definition ApplyInteractionOp :: "UIPayload \<Rightarrow> TextInteractionState \<Rightarrow> InteractionOp \<Rightarrow> TextInteractionState \<times> InteractionOutcome" where
  "ApplyInteractionOp p state op =
     (if py_Questions p = [] then (state, rejected RejectInvalidOp)
      else
        let s = normalizeTextInteraction p state in
        if ti_Completed s then (s, unchanged)
        else if op_Kind op = OpNavigate then
          (if op_Page op < 0 \<or> questionCount p \<le> op_Page op then (s, rejected RejectInvalidOp)
           else if ti_QuestionIndex s = op_Page op then (s, unchanged)
           else (s\<lparr>ti_QuestionIndex := op_Page op\<rparr>, changed))
        else if op_Kind op = OpSelectOption then applySelectOption p s (op_QuestionIndex op) (op_OptionIndex op)
        else if op_Kind op = OpToggleOption then applyToggleOption p s (op_QuestionIndex op) (op_OptionIndex op)
        else if op_Kind op = OpSetText then applySetText p s (op_QuestionID op) (op_Text op)
        else if op_Kind op = OpSubmit then (completeOrFocusRequired p s, changed)
        else (s, rejected RejectInvalidOp))"

section \<open>Steps of the stored state\<close>

text \<open>
  What the service stores (\<open>AdvanceText\<close>, \<open>AdvanceInteraction\<close>): the new state when it
  changed, else the old one. A text reply reads the payload in the language of its channel.
\<close>

definition storeText :: "(string \<Rightarrow> string \<Rightarrow> bool) \<Rightarrow> (string \<Rightarrow> string) \<Rightarrow> UIPayload \<Rightarrow> TextInteractionState \<Rightarrow> string \<Rightarrow> TextInteractionState" where
  "storeText eqFold T p s raw =
     (case advanceTextState eqFold (Localized T p) s raw of
        Inl _ \<Rightarrow> s
      | Inr (s', invalid, isChanged) \<Rightarrow> if invalid \<or> \<not> isChanged then s else s')"

definition storeOp :: "UIPayload \<Rightarrow> TextInteractionState \<Rightarrow> InteractionOp \<Rightarrow> TextInteractionState" where
  "storeOp p s op =
     (case ApplyInteractionOp p s op of
        (s', outcome) \<Rightarrow> if io_Reject outcome \<noteq> RejectNone \<or> \<not> io_Changed outcome then s else s')"

text \<open>A native control offers to toggle only the options of a question that takes several.\<close>

definition offered :: "UIPayload \<Rightarrow> InteractionOp \<Rightarrow> bool" where
  "offered p op \<longleftrightarrow>
     (op_Kind op = OpToggleOption \<longrightarrow>
        (case interactionQuestionAt p (op_QuestionIndex op) of Some q \<Rightarrow> uq_Kind q = QuestionKindMultiSelect | None \<Rightarrow> True))"

inductive askStep :: "(string \<Rightarrow> string \<Rightarrow> bool) \<Rightarrow> UIPayload \<Rightarrow> TextInteractionState \<Rightarrow> TextInteractionState \<Rightarrow> bool"
  for eqFold p where
  reply: "askStep eqFold p s (storeText eqFold T p s raw)"
| button: "offered p op \<Longrightarrow> askStep eqFold p s (storeOp p s op)"

inductive_cases askStepE: "askStep eqFold p s s'"

inductive askReachable :: "(string \<Rightarrow> string \<Rightarrow> bool) \<Rightarrow> UIPayload \<Rightarrow> TextInteractionState \<Rightarrow> bool"
  for eqFold p where
  start: "askReachable eqFold p newInteraction"
| move: "askReachable eqFold p s \<Longrightarrow> askStep eqFold p s s' \<Longrightarrow> askReachable eqFold p s'"

end
