(* ===== verification/AskWf.thy ===== *)
theory AskWf
  imports AskFlow Decimals
begin

text \<open>
  What the parser of a request guarantees: a payload it accepts is well formed. The identifiers
  are the parser's own (\<open>q1\<close>, \<open>q1.o2\<close>): trimmed, not empty and pairwise distinct.
\<close>

section \<open>Identifiers\<close>

lemma questionID_trimmed [simp]: "TrimSpace (questionID k) = questionID k"
  unfolding questionID_def
  by (rule decimal_end_trimmed) (simp add: asciiSpace_def space2_def space3_def split: list.split)

lemma questionID_nonempty [simp]: "questionID k \<noteq> []"
  by (simp add: questionID_def)

lemma questionID_inj [simp]: "questionID k = questionID l \<longleftrightarrow> k = l"
  by (simp add: questionID_def)

lemma optionID_inj [simp]: "optionID i k = optionID i l \<longleftrightarrow> k = l"
  by (simp add: optionID_def)

lemma optionID_nonempty [simp]: "optionID i k \<noteq> []"
  by (simp add: optionID_def)

lemma optionID_trimmed [simp]: "TrimSpace (optionID (questionID j) k) = optionID (questionID j) k"
  unfolding optionID_def questionID_def append_assoc [symmetric]
  by (rule decimal_end_trimmed) (simp add: asciiSpace_def space2_def space3_def split: list.split)

section \<open>Well-formed payloads\<close>

definition trimmedText :: "string \<Rightarrow> bool" where
  "trimmedText s \<longleftrightarrow> TrimSpace s = s"

lemma trimmedText_TrimSpace [simp]: "trimmedText (TrimSpace s)"
  by (simp add: trimmedText_def)

definition wfOption :: "UIOption \<Rightarrow> bool" where
  "wfOption opt \<longleftrightarrow>
     qo_ID opt \<noteq> '''' \<and> trimmedText (qo_ID opt) \<and> qo_Label opt \<noteq> '''' \<and> trimmedText (qo_Label opt) \<and>
     trimmedText (qo_Description opt) \<and> trimmedText (qo_LabelKey opt)"

definition wfOptions :: "UIOption list \<Rightarrow> bool" where
  "wfOptions opts \<longleftrightarrow>
     MinOptionsPerQuestion \<le> length opts \<and> length opts \<le> MaxOptionsPerQuestion \<and> list_all wfOption opts \<and> distinct (map qo_ID opts)"

definition wfQuestion :: "UIQuestion \<Rightarrow> bool" where
  "wfQuestion q \<longleftrightarrow>
     uq_ID q \<noteq> '''' \<and> trimmedText (uq_ID q) \<and> uq_Text q \<noteq> '''' \<and> trimmedText (uq_Text q) \<and> trimmedText (uq_Placeholder q) \<and>
     (uq_CustomExclusive q \<longrightarrow> uq_AllowCustom q) \<and>
     (if uq_Kind q = QuestionKindText then uq_Options q = [] \<and> \<not> uq_AllowCustom q
      else (uq_Kind q = QuestionKindSingleSelect \<or> uq_Kind q = QuestionKindMultiSelect) \<and> wfOptions (uq_Options q))"

definition wfPayload :: "UIPayload \<Rightarrow> bool" where
  "wfPayload p \<longleftrightarrow>
     py_Version p = PayloadVersion \<and> py_Questions p \<noteq> [] \<and> length (py_Questions p) \<le> MaxQuestionsPerRequest \<and>
     list_all wfQuestion (py_Questions p) \<and> distinct (map uq_ID (py_Questions p))"

lemma strictString_trimmed: "strictString obj key = Inr s \<Longrightarrow> trimmedText s"
  by (auto simp: strictString_def trimmedText_def split: option.splits json.splits)

lemma parseOption_wf:
  assumes "parseOption (questionID j) k item = Inr opt"
  shows "wfOption opt \<and> qo_ID opt = optionID (questionID j) k \<and> qo_LabelKey opt = ''''"
  using assms
  by (auto simp: parseOption_def bindE_Inr wfOption_def trimmedText_def [of "optionID (questionID j) k"]
      trimmedText_def [of "[]"] strictString_trimmed split: json.splits if_splits)

lemma nth_distinct:
  assumes "\<And>k. k < length xs \<Longrightarrow> f (xs ! k) = g k" and "inj g"
  shows "distinct (map f xs)"
  using assms by (simp add: distinct_conv_nth inj_eq)

lemma parseOptions_wf:
  assumes "parseOptions options (questionID j) = Inr opts"
  shows "wfOptions opts"
proof -
  obtain items where l: "MinOptionsPerQuestion \<le> length items" "length items \<le> MaxOptionsPerQuestion"
    and m: "mapE (parseOption (questionID j)) 0 items = Inr opts"
    using assms by (auto simp: parseOptions_def not_less split: option.split_asm json.split_asm if_split_asm)
  have n: "length opts = length items" using m by (simp add: mapE_Inr)
  have o: "wfOption (opts ! k) \<and> qo_ID (opts ! k) = optionID (questionID j) k" if "k < length opts" for k
    using m that n parseOption_wf [of j k "items ! k" "opts ! k"] by (simp add: mapE_Inr)
  have "distinct (map qo_ID opts)" by (rule nth_distinct [where g = "optionID (questionID j)"]) (auto simp: o inj_def)
  then show ?thesis using l n o by (simp add: wfOptions_def list_all_length)
qed

lemma questionOptions_wf:
  assumes "questionOptions obj q = Inr q'" and "uq_ID q = questionID j" and "uq_Options q = []" and "isQuestionKind (uq_Kind q)"
    and "uq_Text q \<noteq> ''''" and "trimmedText (uq_Text q)" and "trimmedText (uq_Placeholder q)"
    and "uq_CustomExclusive q \<longrightarrow> uq_AllowCustom q"
  shows "wfQuestion q' \<and> uq_ID q' = questionID j"
  using assms
  by (auto simp: questionOptions_def wfQuestion_def isQuestionKind_def bindE_Inr trimmedText_def [of "questionID j"]
      parseOptions_wf split: if_splits)

lemma parseQuestion_Inr:
  assumes "parseQuestion j item = Inr q"
  obtains obj tx k allow exclusive required placeholder where
    "item = JObject obj" "strictString obj ''text'' = Inr tx" "tx \<noteq> ''''" "map_of obj ''kind'' = Some (JString k)"
    "isQuestionKind (TrimSpace k)" "exclusive = Some True \<longrightarrow> allow = Some True" "strictString obj ''placeholder'' = Inr placeholder"
    "strictBool obj ''allow_custom'' = Inr allow" "strictBool obj ''custom_exclusive'' = Inr exclusive" "strictBool obj ''required'' = Inr required"
    "questionOptions obj \<lparr>uq_ID = questionID j, uq_Text = tx, uq_Kind = TrimSpace k, uq_Options = [],
       uq_AllowCustom = (allow = Some True), uq_CustomExclusive = (exclusive = Some True),
       uq_Required = required, uq_Placeholder = placeholder\<rparr> = Inr q"
proof -
  obtain obj where o: "item = JObject obj" using assms by (cases item) (simp_all add: parseQuestion_def)
  obtain tx y where t: "strictString obj ''text'' = Inr tx" "tx \<noteq> ''''" and y: "map_of obj ''kind'' = Some y"
    using assms by (auto simp: o parseQuestion_def bindE_Inr split: option.split_asm if_split_asm)
  obtain k where k: "y = JString k" using assms by (cases y) (simp_all add: o parseQuestion_def bindE_Inr t y)
  show thesis
    using assms by (auto simp: o parseQuestion_def bindE_Inr t y k split: if_split_asm intro: that [OF o t y [unfolded k]])
qed

lemma parseQuestion_wf:
  assumes "parseQuestion j item = Inr q"
  shows "wfQuestion q \<and> uq_ID q = questionID j"
proof -
  obtain obj tx k allow exclusive required placeholder where
    "strictString obj ''text'' = Inr tx" "tx \<noteq> ''''" "isQuestionKind (TrimSpace k)"
    "exclusive = Some True \<longrightarrow> allow = Some True" "strictString obj ''placeholder'' = Inr placeholder"
    and o: "questionOptions obj \<lparr>uq_ID = questionID j, uq_Text = tx, uq_Kind = TrimSpace k, uq_Options = [],
       uq_AllowCustom = (allow = Some True), uq_CustomExclusive = (exclusive = Some True),
       uq_Required = required, uq_Placeholder = placeholder\<rparr> = Inr q"
    using assms by (rule parseQuestion_Inr)
  then show ?thesis by (intro questionOptions_wf [OF o]) (auto simp: strictString_trimmed)
qed

lemma mapE_questions_wf:
  assumes "mapE parseQuestion 0 items = Inr qs"
  shows "list_all wfQuestion qs \<and> distinct (map uq_ID qs) \<and> length qs = length items"
proof -
  have n: "length qs = length items" using assms by (simp add: mapE_Inr)
  have o: "wfQuestion (qs ! k) \<and> uq_ID (qs ! k) = questionID k" if "k < length qs" for k
    using assms that n parseQuestion_wf [of k "items ! k" "qs ! k"] by (simp add: mapE_Inr)
  have "distinct (map uq_ID qs)" by (rule nth_distinct [where g = questionID]) (auto simp: o inj_def)
  then show ?thesis using n o by (simp add: list_all_length)
qed

lemma label_keys_trimmed [simp]: "trimmedText ''elicitation.done''" "trimmedText ''elicitation.cancel''"
  by (simp_all add: trimmedText_def TrimSpace_id asciiSpace_def space2_def space3_def)

lemma setLabelKeys_wf:
  assumes "setLabelKeys qs = Inr qs'" and "list_all wfQuestion qs" and "distinct (map uq_ID qs)"
  shows "list_all wfQuestion qs' \<and> distinct (map uq_ID qs') \<and> length qs' = length qs"
  using assms
  by (auto simp: setLabelKeys_def wfQuestion_def wfOptions_def wfOption_def split: list.splits if_splits)

lemma ParseAskUserPayload_wf:
  assumes "ParseAskUserPayload trusted input = Inr p"
  shows "wfPayload p"
  using assms
  by (auto simp: ParseAskUserPayload_def Let_def bindE_Inr wfPayload_def mapE_questions_wf setLabelKeys_wf
      split: option.splits json.splits if_splits dest: mapE_questions_wf setLabelKeys_wf)

section \<open>Typed answers\<close>

lemma enable_external: "src \<in> set externalSources \<Longrightarrow> enableConversationalAnswers (Some (JString src)) p = p"
  by (auto simp: enableConversationalAnswers_def externalSources_def ProviderSourceMemohTool_def)

lemma enable_idem [simp]: "enableConversationalAnswers source (enableConversationalAnswers source p) = enableConversationalAnswers source p"
  by (simp add: enableConversationalAnswers_def)

lemma enable_ids [simp]: "map uq_ID (py_Questions (enableConversationalAnswers source p)) = map uq_ID (py_Questions p)"
  by (simp add: enableConversationalAnswers_def)

lemma enable_length [simp]: "length (py_Questions (enableConversationalAnswers source p)) = length (py_Questions p)"
  by (simp add: enableConversationalAnswers_def)

lemma enable_id_nth: "k < length (py_Questions p) \<Longrightarrow> uq_ID (py_Questions (enableConversationalAnswers source p) ! k) = uq_ID (py_Questions p ! k)"
  by (simp add: enableConversationalAnswers_def)

lemma enable_wf: "wfPayload p \<Longrightarrow> wfPayload (enableConversationalAnswers source p)"
proof -
  have "wfQuestion q \<Longrightarrow> uq_Kind q = QuestionKindSingleSelect \<or> uq_Kind q = QuestionKindMultiSelect \<Longrightarrow>
      wfQuestion (q\<lparr>uq_AllowCustom := True\<rparr>)" for q
    by (auto simp: wfQuestion_def QuestionKindSingleSelect_def QuestionKindMultiSelect_def QuestionKindText_def)
  then show "wfPayload p \<Longrightarrow> wfPayload (enableConversationalAnswers source p)"
    using enable_ids [of source p] by (auto simp: wfPayload_def enableConversationalAnswers_def list_all_iff simp del: enable_ids)
qed

lemma requestPayload_wf: "requestPayload source trusted input = Inr p \<Longrightarrow> wfPayload p"
  by (auto simp: requestPayload_def bindE_Inr ParseAskUserPayload_wf enable_wf)

lemma requestPayload_external:
  "src \<in> set externalSources \<Longrightarrow> requestPayload (Some (JString src)) trusted input = ParseAskUserPayload trusted input"
  by (cases "ParseAskUserPayload trusted input") (simp_all add: requestPayload_def enable_external)

end
