(* ===== verification/AskInv.thy ===== *)
theory AskInv
  imports AskWf
begin

text \<open>
  The invariant of a stored interaction: every saved answer is one that submission accepts, no
  question has two, and a completed set answers every question. Replies and buttons keep it,
  and it is all that submission checks.
\<close>

section \<open>Answers that submission accepts\<close>

definition goodAnswer :: "UIQuestion \<Rightarrow> QuestionAnswer \<Rightarrow> bool" where
  "goodAnswer q a \<longleftrightarrow>
     (if qa_Skipped a then
        \<not> questionIsExplicitlyRequired q \<and> qa_OptionIDs a = [] \<and> qa_CustomText a = '''' \<and> qa_Text a = ''''
      else if uq_Kind q = QuestionKindText then
        qa_OptionIDs a = [] \<and> qa_CustomText a = '''' \<and> trimmedText (qa_Text a) \<and> qa_Text a \<noteq> ''''
      else
        qa_Text a = '''' \<and> trimmedText (qa_CustomText a) \<and> (qa_CustomText a \<noteq> '''' \<longrightarrow> uq_AllowCustom q) \<and>
        distinct (qa_OptionIDs a) \<and> set (qa_OptionIDs a) \<subseteq> set (map qo_ID (uq_Options q)) \<and>
        (uq_CustomExclusive q \<or> uq_Kind q = QuestionKindSingleSelect \<longrightarrow> qa_OptionIDs a = [] \<or> qa_CustomText a = '''') \<and>
        (uq_Kind q = QuestionKindSingleSelect \<longrightarrow> length (qa_OptionIDs a) \<le> 1) \<and>
        \<not> (qa_OptionIDs a = [] \<and> qa_CustomText a = ''''))"

definition knownAnswer :: "UIPayload \<Rightarrow> QuestionAnswer \<Rightarrow> bool" where
  "knownAnswer p a \<longleftrightarrow> (\<exists>q\<in>set (py_Questions p). uq_ID q = qa_QuestionID a \<and> goodAnswer q a)"

definition answersOk :: "UIPayload \<Rightarrow> QuestionAnswer list \<Rightarrow> bool" where
  "answersOk p answers \<longleftrightarrow> distinct (map qa_QuestionID answers) \<and> list_all (knownAnswer p) answers"

definition askInv :: "UIPayload \<Rightarrow> TextInteractionState \<Rightarrow> bool" where
  "askInv p s \<longleftrightarrow>
     answersOk p (ti_Answers s) \<and>
     (ti_Completed s \<longrightarrow> set (map uq_ID (py_Questions p)) \<subseteq> set (map qa_QuestionID (ti_Answers s)))"

section \<open>Lists of answers\<close>

lemma blankAnswer_simps [simp]:
  "qa_QuestionID (blankAnswer i) = i" "qa_OptionIDs (blankAnswer i) = []" "qa_CustomText (blankAnswer i) = ''''"
  "qa_Text (blankAnswer i) = ''''" "\<not> qa_Skipped (blankAnswer i)"
  by (simp_all add: blankAnswer_def)

lemma skipAnswer_simps [simp]:
  "qa_QuestionID (skipAnswer i) = i" "qa_OptionIDs (skipAnswer i) = []" "qa_CustomText (skipAnswer i) = ''''"
  "qa_Text (skipAnswer i) = ''''" "qa_Skipped (skipAnswer i)"
  by (simp_all add: skipAnswer_def)

lemma find_key:
  assumes "distinct (map f xs)" "x \<in> set xs"
  shows "List.find (\<lambda>y. f y = f x) xs = Some x"
  using assms by (induction xs) auto

lemma find_key_in: "List.find (\<lambda>y. f y = k) xs = Some x \<Longrightarrow> x \<in> set xs \<and> f x = k"
  by (induction xs) (auto split: if_splits)

lemma find_key_None: "List.find (\<lambda>y. f y = k) xs = None \<longleftrightarrow> k \<notin> set (map f xs)"
  by (auto simp: find_None_iff)

lemma map_of_rev_key:
  assumes "distinct (map f xs)" and "x \<in> set xs"
  shows "map_of (rev (map (\<lambda>a. (f a, a)) xs)) (f x) = Some x"
proof (rule map_of_is_SomeI)
  have "map fst (rev (map (\<lambda>a. (f a, a)) xs)) = rev (map f xs)" by (simp add: rev_map comp_def)
  then show "distinct (map fst (rev (map (\<lambda>a. (f a, a)) xs)))" using assms(1) by (simp only: distinct_rev)
qed (use assms(2) in simp)

lemma savedAnswer_in: "savedAnswer answers i = Some a \<Longrightarrow> a \<in> set answers \<and> qa_QuestionID a = i"
  unfolding savedAnswer_def by (rule find_key_in)

lemma put_ids: "set (map qa_QuestionID (putTextAnswer answers a)) = insert (qa_QuestionID a) (set (map qa_QuestionID answers))"
  by (induction answers) auto

lemma put_set: "set (putTextAnswer answers a) \<subseteq> insert a (set answers)"
  by (induction answers) auto

lemma put_distinct: "distinct (map qa_QuestionID answers) \<Longrightarrow> distinct (map qa_QuestionID (putTextAnswer answers a))"
proof (induction answers)
  case (Cons b answers)
  then show ?case using put_ids [of answers a] by auto
qed simp

lemma keepKnown_id:
  assumes "distinct (map qa_QuestionID answers)" and "set (map qa_QuestionID answers) \<subseteq> valid - seen"
  shows "keepKnown valid seen answers = answers"
  using assms
proof (induction answers arbitrary: seen)
  case (Cons a answers)
  then have "keepKnown valid (insert (qa_QuestionID a) seen) answers = answers" by (intro Cons.IH) (auto simp: image_iff)
  then show ?case using Cons.prems by auto
qed simp

lemma answersOk_put:
  assumes "answersOk p answers" and "q \<in> set (py_Questions p)" and "qa_QuestionID a = uq_ID q" and "goodAnswer q a"
  shows "answersOk p (putTextAnswer answers a)"
proof -
  have "knownAnswer p a" using assms by (auto simp: knownAnswer_def)
  then show ?thesis
    using assms(1) put_set [of answers a] by (auto simp: answersOk_def put_distinct list_all_iff)
qed

lemma answersOk_remove: "answersOk p answers \<Longrightarrow> answersOk p (removeTextAnswer answers i)"
  by (auto simp: answersOk_def removeTextAnswer_def list_all_iff distinct_map_filter)

lemma answersOk_saved:
  assumes "answersOk p answers" and "savedAnswer answers (uq_ID q) = Some a"
    and "distinct (map uq_ID (py_Questions p))" and "q \<in> set (py_Questions p)"
  shows "goodAnswer q a"
proof -
  have "a \<in> set answers" "qa_QuestionID a = uq_ID q" using savedAnswer_in [OF assms(2)] by auto
  then obtain q' where "q' \<in> set (py_Questions p)" "uq_ID q' = uq_ID q" "goodAnswer q' a"
    using assms(1) by (auto simp: answersOk_def list_all_iff knownAnswer_def)
  then show ?thesis using assms(3,4) by (metis distinct_map inj_onD)
qed

section \<open>Completion\<close>

lemma normalize_inv:
  assumes "askInv p s" and "py_Questions p \<noteq> []"
  shows "ti_Answers (normalizeTextInteraction p s) = ti_Answers s" "ti_Completed (normalizeTextInteraction p s) = ti_Completed s"
    "0 \<le> ti_QuestionIndex (normalizeTextInteraction p s)" "ti_QuestionIndex (normalizeTextInteraction p s) < questionCount p"
proof -
  have "keepKnown (set (map uq_ID (py_Questions p))) {} (ti_Answers s) = ti_Answers s"
    using assms(1) by (intro keepKnown_id) (force simp: askInv_def answersOk_def list_all_iff knownAnswer_def)+
  then show "ti_Answers (normalizeTextInteraction p s) = ti_Answers s" by (simp add: normalizeTextInteraction_def Let_def)
  have "0 < questionCount p" using assms(2) by (simp add: questionCount_def)
  then show "0 \<le> ti_QuestionIndex (normalizeTextInteraction p s)" "ti_QuestionIndex (normalizeTextInteraction p s) < questionCount p"
    by (auto simp: normalizeTextInteraction_def Let_def)
qed (simp add: normalizeTextInteraction_def Let_def)

lemma unansweredRequired_None:
  assumes "unansweredRequired answers i qs = None" and "q \<in> set qs" and "questionIsExplicitlyRequired q"
  shows "uq_ID q \<in> set (map qa_QuestionID answers)"
  using assms
proof (induction answers i qs rule: unansweredRequired.induct)
  case (2 answers i r qs)
  have "savedAnswer answers (uq_ID r) \<noteq> None \<Longrightarrow> uq_ID r \<in> set (map qa_QuestionID answers)"
    using savedAnswer_in by force
  then show ?case using 2 by (auto split: if_splits option.splits)
qed simp

lemma answersOk_fill:
  assumes "answersOk p answers" and "distinct (map uq_ID (py_Questions p))"
  shows "answersOk p (fillSkips p answers)"
proof -
  let ?open = "filter (\<lambda>q. uq_ID q \<notin> set (map qa_QuestionID answers) \<and> \<not> questionIsExplicitlyRequired q) (py_Questions p)"
  have "distinct (map (qa_QuestionID \<circ> (\<lambda>q. skipAnswer (uq_ID q))) ?open)"
    using assms(2) by (simp add: comp_def distinct_map_filter)
  moreover have "knownAnswer p (skipAnswer (uq_ID q))" if "q \<in> set ?open" for q
    using that by (auto simp: knownAnswer_def goodAnswer_def)
  ultimately show ?thesis
    using assms(1) by (auto simp: answersOk_def fillSkips_def list_all_iff comp_def) (metis imageI)
qed

lemma fillSkips_all:
  assumes "\<And>q. q \<in> set (py_Questions p) \<Longrightarrow> questionIsExplicitlyRequired q \<Longrightarrow> uq_ID q \<in> set (map qa_QuestionID answers)"
  shows "set (map uq_ID (py_Questions p)) \<subseteq> set (map qa_QuestionID (fillSkips p answers))"
  using assms by (auto simp: fillSkips_def)

lemma complete_inv:
  assumes "answersOk p (ti_Answers s)" and "distinct (map uq_ID (py_Questions p))"
  shows "askInv p (completeOrFocusRequired p s)"
proof (cases "unansweredRequired (ti_Answers s) 0 (py_Questions p)")
  case None
  have "set (map uq_ID (py_Questions p)) \<subseteq> set (map qa_QuestionID (fillSkips p (ti_Answers s)))"
    by (rule fillSkips_all) (rule unansweredRequired_None [OF None])
  then show ?thesis using None assms by (simp add: completeOrFocusRequired_def askInv_def answersOk_fill)
next
  case (Some i)
  then show ?thesis using assms by (simp add: completeOrFocusRequired_def askInv_def)
qed

section \<open>Replies\<close>

lemma matchTextOption_in: "matchTextOption eqFold q raw = Some i \<Longrightarrow> i \<in> set (map qo_ID (uq_Options q))"
proof -
  have f: "List.find P opts = Some opt \<Longrightarrow> qo_ID opt \<in> set (map qo_ID opts)" for P opts opt
    by (auto simp: find_Some_iff)
  have n: "1 \<le> number \<Longrightarrow> number \<le> int (length opts) \<Longrightarrow> qo_ID (opts ! nat (number - 1)) \<in> set (map qo_ID opts)"
    for number and opts :: "UIOption list"
    by (auto intro!: imageI nth_mem)
  show "matchTextOption eqFold q raw = Some i \<Longrightarrow> i \<in> set (map qo_ID (uq_Options q))"
    unfolding matchTextOption_def Let_def
    by (auto split: option.split_asm if_split_asm intro: f n simp del: set_map)
qed

lemma matchParts_ok:
  assumes "matchParts eqFold q ids parts = Some ids'" and "distinct ids" and "set ids \<subseteq> set (map qo_ID (uq_Options q))"
  shows "distinct ids' \<and> set ids' \<subseteq> set (map qo_ID (uq_Options q)) \<and> (ids \<noteq> [] \<or> parts \<noteq> [] \<longrightarrow> ids' \<noteq> [])"
  using assms
proof (induction eqFold q ids parts rule: matchParts.induct)
  case (2 eqFold q ids part parts)
  then obtain i where i: "matchTextOption eqFold q part = Some i" by (auto split: option.splits)
  have "distinct ids' \<and> set ids' \<subseteq> set (map qo_ID (uq_Options q)) \<and> ((if i \<in> set ids then ids else ids @ [i]) \<noteq> [] \<or> parts \<noteq> [] \<longrightarrow> ids' \<noteq> [])"
    using 2(2-4) matchTextOption_in [OF i] by (intro "2.IH" [OF i]) (auto simp: i)
  then show ?case by (auto split: if_splits)
qed auto

lemma parseTextAnswer_good:
  assumes "parseTextAnswer eqFold q raw = Inr a"
  shows "qa_QuestionID a = uq_ID q \<and> goodAnswer q a"
proof -
  have k: "QuestionKindSingleSelect \<noteq> QuestionKindText" "QuestionKindMultiSelect \<noteq> QuestionKindText"
    "QuestionKindMultiSelect \<noteq> QuestionKindSingleSelect"
    by (simp_all add: QuestionKindSingleSelect_def QuestionKindMultiSelect_def QuestionKindText_def)
  have t: "trimmedText []" by (simp add: trimmedText_def)
  note [simp] = k k [symmetric] t goodAnswer_def
  consider (free) "uq_Kind q = QuestionKindText" | (single) "uq_Kind q = QuestionKindSingleSelect"
    | (multi) "uq_Kind q = QuestionKindMultiSelect"
    using assms by (auto simp: parseTextAnswer_def Let_def split: if_splits)
  then show ?thesis
  proof cases
    case free
    then show ?thesis using assms by (auto simp: parseTextAnswer_def Let_def split: if_splits)
  next
    case single
    then show ?thesis using assms
      by (auto simp: parseTextAnswer_def Let_def split: if_split_asm option.split_asm dest: matchTextOption_in)
  next
    case multi
    have m: "distinct ids" "x \<in> set ids \<Longrightarrow> x \<in> qo_ID ` set (uq_Options q)" "parts \<noteq> [] \<Longrightarrow> ids \<noteq> []"
      if "matchParts eqFold q [] parts = Some ids" for parts ids x
      using matchParts_ok [OF that] by auto
    show ?thesis using multi assms
      by (auto simp: parseTextAnswer_def Let_def split: if_split_asm option.split_asm dest: m)
  qed
qed

lemma putReply_inv:
  assumes "answersOk p (ti_Answers s)" and "\<not> ti_Completed s" and "distinct (map uq_ID (py_Questions p))"
    and "q \<in> set (py_Questions p)" and "qa_QuestionID a = uq_ID q" and "goodAnswer q a"
  shows "askInv p (putReply p s a)"
  using answersOk_put [OF assms(1,4-6)] assms(2,3)
  by (simp add: putReply_def Let_def complete_inv) (simp add: askInv_def)

lemma advanceText_inv:
  assumes inv: "askInv p s" and d: "distinct (map uq_ID (py_Questions p))"
    and a: "advanceTextState eqFold p s raw = Inr (s', invalid, True)"
  shows "askInv p s'"
proof -
  have ne: "py_Questions p \<noteq> []" using a by (auto simp: advanceTextState_def)
  let ?n = "normalizeTextInteraction p s"
  let ?q = "py_Questions p ! nat (ti_QuestionIndex ?n)"
  note n = normalize_inv [OF inv ne]
  have q: "?q \<in> set (py_Questions p)" using n(3,4) by (intro nth_mem) (simp add: questionCount_def nat_less_iff)
  have ok: "answersOk p (ti_Answers ?n)" using inv n(1) by (simp add: askInv_def)
  have put: "\<not> ti_Completed ?n \<Longrightarrow> qa_QuestionID r = uq_ID ?q \<Longrightarrow> goodAnswer ?q r \<Longrightarrow> askInv p (putReply p ?n r)" for r
    by (rule putReply_inv [OF ok _ d q])
  have skip: "\<not> questionIsExplicitlyRequired ?q \<Longrightarrow> goodAnswer ?q (skipAnswer (uq_ID ?q))" by (simp add: goodAnswer_def)
  show ?thesis
    using a ok ne
    by (auto simp: advanceTextState_def Let_def askInv_def [of p "x\<lparr>ti_QuestionIndex := y, ti_Completed := False\<rparr>" for x y]
        put skip dest: parseTextAnswer_good split: if_split_asm sum.split_asm)
qed

end
