(* ===== verification/AskSteps.thy ===== *)
theory AskSteps
  imports AskInv
begin

text \<open>Buttons keep the invariant, a display copy has the same answers, and so every step keeps it.\<close>

section \<open>Buttons\<close>

lemma kinds_distinct [simp]:
  "QuestionKindSingleSelect \<noteq> QuestionKindText" "QuestionKindMultiSelect \<noteq> QuestionKindText"
  "QuestionKindMultiSelect \<noteq> QuestionKindSingleSelect" "QuestionKindText \<noteq> QuestionKindSingleSelect"
  "QuestionKindText \<noteq> QuestionKindMultiSelect" "QuestionKindSingleSelect \<noteq> QuestionKindMultiSelect"
  by (simp_all add: QuestionKindSingleSelect_def QuestionKindMultiSelect_def QuestionKindText_def)

lemma trimmedText_Nil [simp]: "trimmedText []"
  by (simp add: trimmedText_def)

lemma interactionQuestionAt_in: "interactionQuestionAt p i = Some q \<Longrightarrow> q \<in> set (py_Questions p)"
  by (auto simp: interactionQuestionAt_def questionCount_def nat_less_iff split: if_splits)

lemma interactionOptionAt_Some:
  "interactionOptionAt p i j = Some (q, opt) \<Longrightarrow> interactionQuestionAt p i = Some q \<and> opt \<in> set (uq_Options q)"
  by (auto simp: interactionOptionAt_def nat_less_iff split: option.splits if_splits)

lemma wf_question: "wfPayload p \<Longrightarrow> q \<in> set (py_Questions p) \<Longrightarrow> wfQuestion q"
  by (auto simp: wfPayload_def list_all_iff)

lemma wf_ids: "wfPayload p \<Longrightarrow> distinct (map uq_ID (py_Questions p))"
  by (simp add: wfPayload_def)

lemma wf_text_options: "wfQuestion q \<Longrightarrow> uq_Kind q = QuestionKindText \<Longrightarrow> uq_Options q = []"
  by (simp add: wfQuestion_def)

lemma askInv_open: "answersOk p (ti_Answers s) \<Longrightarrow> \<not> ti_Completed s \<Longrightarrow> askInv p s"
  by (simp add: askInv_def)

lemma advanceFrom_inv:
  assumes "answersOk p (ti_Answers s)" and "\<not> ti_Completed s" and "distinct (map uq_ID (py_Questions p))"
  shows "askInv p (advanceFrom p s i)"
  using assms by (simp add: advanceFrom_def complete_inv) (simp add: askInv_def)

lemma toggle_set: "set (toggleOptionID ids i) = (if i \<in> set ids then set ids - {i} else insert i (set ids))"
  by (auto simp: toggleOptionID_def)

lemma toggle_distinct: "distinct ids \<Longrightarrow> distinct (toggleOptionID ids i)"
  by (simp add: toggleOptionID_def)

text \<open>The saved answer of a question that takes several options, or the zero answer.\<close>

lemma answerOrZero_multi:
  assumes "answersOk p answers" and "wfPayload p" and "q \<in> set (py_Questions p)" and "uq_Kind q = QuestionKindMultiSelect"
  shows "qa_Text (answerOrZero answers (uq_ID q)) = ''''"
    "trimmedText (qa_CustomText (answerOrZero answers (uq_ID q)))"
    "qa_CustomText (answerOrZero answers (uq_ID q)) \<noteq> '''' \<Longrightarrow> uq_AllowCustom q"
    "distinct (qa_OptionIDs (answerOrZero answers (uq_ID q)))"
    "set (qa_OptionIDs (answerOrZero answers (uq_ID q))) \<subseteq> set (map qo_ID (uq_Options q))"
proof -
  have "goodAnswer q a" if "savedAnswer answers (uq_ID q) = Some a" for a
    using answersOk_saved [OF assms(1) that wf_ids [OF assms(2)] assms(3)] .
  then show "qa_Text (answerOrZero answers (uq_ID q)) = ''''"
    "trimmedText (qa_CustomText (answerOrZero answers (uq_ID q)))"
    "qa_CustomText (answerOrZero answers (uq_ID q)) \<noteq> '''' \<Longrightarrow> uq_AllowCustom q"
    "distinct (qa_OptionIDs (answerOrZero answers (uq_ID q)))"
    "set (qa_OptionIDs (answerOrZero answers (uq_ID q))) \<subseteq> set (map qo_ID (uq_Options q))"
    using assms(4) by (auto simp: answerOrZero_def goodAnswer_def split: option.splits if_split_asm)
qed

lemma applySelect_inv:
  assumes "answersOk p (ti_Answers s)" and "\<not> ti_Completed s" and wf: "wfPayload p"
    and "applySelectOption p s i j = (s', out)" and "io_Changed out"
  shows "askInv p s'"
proof -
  obtain q opt where o: "interactionOptionAt p i j = Some (q, opt)"
    using assms(4,5) by (auto simp: applySelectOption_def rejected_def split: option.splits)
  have q: "q \<in> set (py_Questions p)" and opt: "opt \<in> set (uq_Options q)"
    using interactionOptionAt_Some [OF o] interactionQuestionAt_in by auto
  have "uq_Kind q \<noteq> QuestionKindText" using wf_text_options [OF wf_question [OF wf q]] opt by auto
  then have "goodAnswer q ((blankAnswer (uq_ID q))\<lparr>qa_OptionIDs := [qo_ID opt]\<rparr>)"
    using opt by (simp add: goodAnswer_def)
  from answersOk_put [OF assms(1) q _ this] answersOk_remove [OF assms(1), of "uq_ID q"] assms(2,4) wf_ids [OF wf]
  show ?thesis by (auto simp: applySelectOption_def o Let_def advanceFrom_inv askInv_open split: if_split_asm)
qed

lemma applyToggle_inv:
  assumes ok: "answersOk p (ti_Answers s)" and "\<not> ti_Completed s" and wf: "wfPayload p"
    and multi: "\<And>q. interactionQuestionAt p i = Some q \<Longrightarrow> uq_Kind q = QuestionKindMultiSelect"
    and "applyToggleOption p s i j = (s', out)" and "io_Changed out"
  shows "askInv p s'"
proof -
  obtain q opt where o: "interactionOptionAt p i j = Some (q, opt)"
    using assms(5,6) by (auto simp: applyToggleOption_def rejected_def split: option.splits)
  have q: "q \<in> set (py_Questions p)" and opt: "opt \<in> set (uq_Options q)" and m: "uq_Kind q = QuestionKindMultiSelect"
    using interactionOptionAt_Some [OF o] interactionQuestionAt_in multi by auto
  let ?a = "(answerOrZero (ti_Answers s) (uq_ID q))\<lparr>qa_QuestionID := uq_ID q, qa_Skipped := False\<rparr>"
  let ?b = "if uq_CustomExclusive q then ?a\<lparr>qa_CustomText := ''''\<rparr> else ?a"
  let ?c = "?b\<lparr>qa_OptionIDs := toggleOptionID (qa_OptionIDs ?b) (qo_ID opt)\<rparr>"
  note z = answerOrZero_multi [OF ok wf q m]
  have "goodAnswer q ?c" if "\<not> (qa_OptionIDs ?c = [] \<and> TrimSpace (qa_CustomText ?c) = '''')"
    using that z opt m by (auto simp: goodAnswer_def toggle_set toggle_distinct)
  then have "answersOk p (putTextAnswer (ti_Answers s) ?c)" if "\<not> (qa_OptionIDs ?c = [] \<and> TrimSpace (qa_CustomText ?c) = '''')"
    using that by (intro answersOk_put [OF ok q]) auto
  then show ?thesis
    using assms(2,5) answersOk_remove [OF ok, of "uq_ID q"]
    by (auto simp: applyToggleOption_def o Let_def askInv_open split: if_split_asm)
qed

lemma questionIndexOf_in:
  assumes "questionIndexOf p i = Some k"
  shows "0 \<le> k \<and> k < questionCount p \<and> uq_ID (py_Questions p ! nat k) = i"
  using assms by (auto simp: questionIndexOf_def find_Some_iff questionCount_def nth_enumerate_eq)

lemma applySetText_inv:
  assumes ok: "answersOk p (ti_Answers s)" and opn: "\<not> ti_Completed s" and wf: "wfPayload p"
    and a: "applySetText p s qid raw = (s', out)" and c: "io_Changed out"
  shows "askInv p s'"
proof -
  obtain k where k: "questionIndexOf p (TrimSpace qid) = Some k" and t: "TrimSpace raw \<noteq> ''''"
    using a c by (auto simp: applySetText_def Let_def rejected_def split: option.splits if_split_asm)
  let ?q = "py_Questions p ! nat k"
  have q: "?q \<in> set (py_Questions p)" using questionIndexOf_in [OF k] by (intro nth_mem) (simp add: questionCount_def nat_less_iff)
  have put: "askInv p (advanceFrom p (s\<lparr>ti_QuestionIndex := k, ti_Answers := putTextAnswer (ti_Answers s) r\<rparr>) k)"
    if "qa_QuestionID r = uq_ID ?q" "goodAnswer ?q r" for r
    using answersOk_put [OF ok q that] opn wf_ids [OF wf] by (simp add: advanceFrom_inv)
  show ?thesis
  proof (cases "uq_Kind ?q = QuestionKindMultiSelect")
    case True
    let ?a = "(answerOrZero (ti_Answers s) (uq_ID ?q))\<lparr>qa_QuestionID := uq_ID ?q, qa_Skipped := False\<rparr>"
    let ?b = "(if uq_CustomExclusive ?q then ?a\<lparr>qa_OptionIDs := []\<rparr> else ?a)\<lparr>qa_CustomText := TrimSpace raw\<rparr>"
    have "uq_AllowCustom ?q" using a c True by (auto simp: applySetText_def k t rejected_def Let_def split: if_split_asm)
    then have "goodAnswer ?q ?b" using answerOrZero_multi [OF ok wf q True] t True by (auto simp: goodAnswer_def)
    then have "answersOk p (putTextAnswer (ti_Answers s) ?b)" by (intro answersOk_put [OF ok q]) auto
    then show ?thesis using a c True opn by (auto simp: applySetText_def k t rejected_def Let_def askInv_open split: if_split_asm)
  next
    case False
    have kinds: "uq_Kind ?q = QuestionKindText \<or> uq_Kind ?q = QuestionKindSingleSelect"
      using wf_question [OF wf q] False by (auto simp: wfQuestion_def split: if_splits)
    then show ?thesis
      using a c t put [of "(blankAnswer (uq_ID ?q))\<lparr>qa_Text := TrimSpace raw\<rparr>"]
        put [of "(blankAnswer (uq_ID ?q))\<lparr>qa_CustomText := TrimSpace raw\<rparr>"]
      by (auto simp: applySetText_def k Let_def rejected_def goodAnswer_def split: if_split_asm)
  qed
qed

lemma applyOp_inv:
  assumes inv: "askInv p s" and wf: "wfPayload p" and op: "offered p op"
    and a: "ApplyInteractionOp p s op = (s', out)" and c: "io_Changed out"
  shows "askInv p s'"
proof -
  have ne: "py_Questions p \<noteq> []" using wf by (simp add: wfPayload_def)
  let ?n = "normalizeTextInteraction p s"
  have ok: "answersOk p (ti_Answers ?n)" using inv normalize_inv(1) [OF inv ne] by (simp add: askInv_def)
  have opn: "\<not> ti_Completed ?n" using a c ne by (auto simp: ApplyInteractionOp_def Let_def unchanged_def)
  have multi: "op_Kind op = OpToggleOption \<Longrightarrow> interactionQuestionAt p (op_QuestionIndex op) = Some q \<Longrightarrow>
      uq_Kind q = QuestionKindMultiSelect" for q
    using op by (simp add: offered_def)
  consider "op_Kind op = OpNavigate" | "op_Kind op = OpSelectOption" | "op_Kind op = OpToggleOption" | "op_Kind op = OpSetText"
    | "op_Kind op = OpSubmit"
    using a c ne opn by (auto simp: ApplyInteractionOp_def Let_def rejected_def split: if_split_asm)
  note cs = this
  have kinds: "OpNavigate \<noteq> OpSelectOption" "OpNavigate \<noteq> OpToggleOption" "OpNavigate \<noteq> OpSetText" "OpNavigate \<noteq> OpSubmit"
    "OpSelectOption \<noteq> OpToggleOption" "OpSelectOption \<noteq> OpSetText" "OpSelectOption \<noteq> OpSubmit" "OpToggleOption \<noteq> OpSetText"
    "OpToggleOption \<noteq> OpSubmit" "OpSetText \<noteq> OpSubmit"
    by (simp_all add: OpNavigate_def OpSelectOption_def OpToggleOption_def OpSetText_def OpSubmit_def)
  note A = a [unfolded ApplyInteractionOp_def Let_def]
  from cs show ?thesis
  proof cases
    case 1
    then show ?thesis using A c ne ok opn by (auto simp: rejected_def unchanged_def askInv_open split: if_split_asm)
  next
    case 2
    then show ?thesis using A ne opn kinds by (auto intro: applySelect_inv [OF ok opn wf _ c])
  next
    case 3
    then show ?thesis using A ne opn kinds multi by (auto intro: applyToggle_inv [OF ok opn wf _ _ c])
  next
    case 4
    then show ?thesis using A ne opn kinds by (auto intro: applySetText_inv [OF ok opn wf _ c])
  next
    case 5
    then show ?thesis using A ne opn kinds ok wf_ids [OF wf] by (auto intro: complete_inv)
  qed
qed

section \<open>Display copies\<close>

definition localizeQuestion :: "(string \<Rightarrow> string) \<Rightarrow> UIQuestion \<Rightarrow> UIQuestion" where
  "localizeQuestion T q =
     q\<lparr>uq_Options := map (\<lambda>opt. if qo_LabelKey opt \<noteq> '''' then opt\<lparr>qo_Label := T (qo_LabelKey opt)\<rparr> else opt) (uq_Options q)\<rparr>"

lemma Localized_questions: "py_Questions (Localized T p) = map (localizeQuestion T) (py_Questions p)"
  by (simp add: Localized_def localizeQuestion_def)

lemma localize_simps [simp]:
  "uq_ID (localizeQuestion T q) = uq_ID q" "uq_Kind (localizeQuestion T q) = uq_Kind q"
  "uq_AllowCustom (localizeQuestion T q) = uq_AllowCustom q" "uq_CustomExclusive (localizeQuestion T q) = uq_CustomExclusive q"
  "questionIsExplicitlyRequired (localizeQuestion T q) = questionIsExplicitlyRequired q"
  "map qo_ID (uq_Options (localizeQuestion T q)) = map qo_ID (uq_Options q)"
  by (auto simp: localizeQuestion_def questionIsExplicitlyRequired_def)

lemma Localized_ids: "map uq_ID (py_Questions (Localized T p)) = map uq_ID (py_Questions p)"
  by (simp add: Localized_questions)

lemma Localized_good: "goodAnswer (localizeQuestion T q) a = goodAnswer q a"
  by (simp add: goodAnswer_def del: set_map)

lemma Localized_inv: "askInv (Localized T p) s = askInv p s"
proof -
  have "knownAnswer (Localized T p) = knownAnswer p"
    by (auto simp: knownAnswer_def Localized_questions Localized_good fun_eq_iff)
  then show ?thesis by (simp add: askInv_def answersOk_def Localized_ids del: set_map)
qed

section \<open>Every step\<close>

lemma storeText_inv:
  assumes "askInv p s" and "wfPayload p"
  shows "askInv p (storeText eqFold T p s raw)"
proof -
  have "askInv (Localized T p) s'" if "advanceTextState eqFold (Localized T p) s raw = Inr (s', invalid, True)" for s' invalid
    using assms(1) wf_ids [OF assms(2)] by (intro advanceText_inv [OF _ _ that]) (simp_all add: Localized_inv Localized_ids)
  then show ?thesis using assms(1) by (auto simp: storeText_def Localized_inv split: sum.splits)
qed

lemma storeOp_inv:
  assumes "askInv p s" and "wfPayload p" and "offered p op"
  shows "askInv p (storeOp p s op)"
  using assms by (auto simp: storeOp_def intro: applyOp_inv split: prod.splits)

text \<open>
  The contract of an input surface: what it applies to the stored interaction keeps the
  invariant. A surface whose gestures leave a completed interaction alone is sealing.
\<close>

locale surface =
  fixes apply_gesture :: "UIPayload \<Rightarrow> 'g \<Rightarrow> TextInteractionState \<Rightarrow> TextInteractionState"
    and allowed :: "UIPayload \<Rightarrow> 'g \<Rightarrow> bool"
  assumes keeps: "wfPayload p \<Longrightarrow> allowed p g \<Longrightarrow> askInv p s \<Longrightarrow> askInv p (apply_gesture p g s)"
begin

lemma keeps_all: "wfPayload p \<Longrightarrow> list_all (allowed p) gs \<Longrightarrow> askInv p s \<Longrightarrow> askInv p (fold (apply_gesture p) gs s)"
  by (induction gs arbitrary: s) (auto intro: keeps)

end

locale sealing_surface = surface +
  assumes sealed: "ti_Completed s \<Longrightarrow> apply_gesture p g s = s"
begin

lemma sealed_all: "ti_Completed s \<Longrightarrow> fold (apply_gesture p) gs s = s"
  by (induction gs) (simp_all add: sealed)

lemma completed_final:
  "ti_Completed (fold (apply_gesture p) gs s) \<Longrightarrow> fold (apply_gesture p) (gs @ hs) s = fold (apply_gesture p) gs s"
  by (simp add: sealed_all)

end

interpretation replies: surface "\<lambda>p (T, raw) s. storeText eqFold T p s raw" "\<lambda>_ _. True" for eqFold
  by unfold_locales (auto intro: storeText_inv)

interpretation buttons: sealing_surface "\<lambda>p op s. storeOp p s op" offered
proof unfold_locales
  show "askInv p (storeOp p s op)" if "wfPayload p" "offered p op" "askInv p s" for p op s
    using that by (intro storeOp_inv)
  show "storeOp p s op = s" if "ti_Completed s" for p op s
    using that by (simp add: storeOp_def ApplyInteractionOp_def normalizeTextInteraction_def Let_def rejected_def unchanged_def)
qed

lemma askStep_inv: "askStep eqFold p s s' \<Longrightarrow> wfPayload p \<Longrightarrow> askInv p s \<Longrightarrow> askInv p s'"
  by (erule askStepE) (use replies.keeps [where g = "(T, raw)" for T raw] buttons.keeps in auto)

lemma askReachable_inv: "askReachable eqFold p s \<Longrightarrow> wfPayload p \<Longrightarrow> askInv p s"
proof (induction rule: askReachable.induct)
  case (move s s')
  then show ?case by (blast intro: askStep_inv)
qed (simp add: newInteraction_def askInv_def answersOk_def)

section \<open>Submission\<close>

lemma find_qid:
  assumes "wfPayload p" and "q \<in> set (py_Questions p)"
  shows "UIPayload_Question p (uq_ID q) = Some q"
  unfolding UIPayload_Question_def by (rule find_key [OF wf_ids [OF assms(1)] assms(2)])

lemma known_id:
  assumes "wfPayload p" and "knownAnswer p a"
  shows "qa_QuestionID a \<noteq> ''''" "TrimSpace (qa_QuestionID a) = qa_QuestionID a" "UIPayload_Question p (qa_QuestionID a) \<noteq> None"
proof -
  obtain q where "q \<in> set (py_Questions p)" "uq_ID q = qa_QuestionID a" using assms(2) by (auto simp: knownAnswer_def)
  then show "qa_QuestionID a \<noteq> ''''" "TrimSpace (qa_QuestionID a) = qa_QuestionID a" "UIPayload_Question p (qa_QuestionID a) \<noteq> None"
    using find_qid [OF assms(1), of q] wf_question [OF assms(1), of q] by (auto simp: wfQuestion_def trimmedText_def)
qed

lemma byQuestion_all:
  assumes "wfPayload p" and "list_all (knownAnswer p) answers"
    and "distinct (map qa_QuestionID answers)" and "set (map qa_QuestionID answers) \<inter> fst ` set m = {}"
  shows "byQuestion p m answers = Inr (rev (map (\<lambda>a. (qa_QuestionID a, a)) answers) @ m)"
  using assms(2-)
proof (induction answers arbitrary: m)
  case (Cons a answers)
  have "map_of m (qa_QuestionID a) = None" using Cons.prems(3) by (auto simp: map_of_eq_None_iff)
  then show ?case using Cons known_id [OF assms(1), of a] by (simp add: Let_def)
qed simp

lemma selections_ok:
  assumes "distinct ids" and "set ids \<inter> seen = {}" and "set ids \<subseteq> set (map qo_ID (uq_Options q))"
  shows "\<exists>ss. selections q seen ids = Inr ss \<and> length ss = length ids"
  using assms
proof (induction ids arbitrary: seen)
  case (Cons i ids)
  obtain opt where "UIQuestion_Option q i = Some opt"
    using Cons.prems(3) by (cases "UIQuestion_Option q i") (auto simp: UIQuestion_Option_def find_None_iff)
  moreover obtain ss where "selections q (insert i seen) ids = Inr ss" "length ss = length ids"
    using Cons.IH [of "insert i seen"] Cons.prems by auto
  ultimately show ?case using Cons.prems by simp
qed simp

lemma cleanIDs_trimmed: "list_all (\<lambda>i. i \<noteq> '''' \<and> TrimSpace i = i) ids \<Longrightarrow> cleanIDs ids = ids"
  by (induction ids) (auto simp: cleanIDs_def)

lemma answerEntry_ok:
  assumes "wfQuestion q" and "goodAnswer q a"
  shows "\<exists>entry. answerEntry q a = Inr entry"
proof -
  have "list_all (\<lambda>i. i \<noteq> '''' \<and> TrimSpace i = i) (qa_OptionIDs a)"
    if "set (qa_OptionIDs a) \<subseteq> set (map qo_ID (uq_Options q))" "uq_Kind q \<noteq> QuestionKindText"
    using that assms(1) by (force simp: wfQuestion_def wfOptions_def wfOption_def list_all_iff trimmedText_def split: if_splits)
  note clean = cleanIDs_trimmed [OF this]
  show ?thesis
  proof (cases "qa_Skipped a \<or> uq_Kind q = QuestionKindText")
    case True
    then show ?thesis using assms(2) by (auto simp: answerEntry_def Let_def goodAnswer_def cleanIDs_def trimmedText_def split: if_splits)
  next
    case False
    note g = assms(2) [unfolded goodAnswer_def] False
    have c: "cleanIDs (qa_OptionIDs a) = qa_OptionIDs a" using g clean by auto
    obtain ss where "selections q {} (qa_OptionIDs a) = Inr ss" using selections_ok [of "qa_OptionIDs a" "{}" q] g by auto
    then show ?thesis using g by (auto simp: answerEntry_def Let_def c selectEntry_def trimmedText_def)
  qed
qed

lemma mapE_ok: "(\<And>i x. x \<in> set xs \<Longrightarrow> \<exists>y. f i x = Inr y) \<Longrightarrow> \<exists>ys. mapE f i xs = Inr ys \<and> length ys = length xs"
proof (induction xs arbitrary: i)
  case (Cons x xs)
  obtain y where "f i x = Inr y" using Cons.prems [of x i] by auto
  moreover obtain ys where "mapE f (Suc i) xs = Inr ys" "length ys = length xs" using Cons.IH [of "Suc i"] Cons.prems by auto
  ultimately show ?case by simp
qed simp

lemma submitted_ok:
  assumes wf: "wfPayload p" and inv: "askInv p s" and c: "ti_Completed s"
  shows "\<exists>entries. submittedResult p (ti_Answers s) =
    Inr (JObject [(''status'', JString StatusSubmitted), (''answers'', JArray entries), (''instruction'', JString submitInstruction)]) \<and>
    length entries = length (py_Questions p)"
proof -
  let ?m = "rev (map (\<lambda>a. (qa_QuestionID a, a)) (ti_Answers s))"
  have ok: "answersOk p (ti_Answers s)" and all: "set (map uq_ID (py_Questions p)) \<subseteq> set (map qa_QuestionID (ti_Answers s))"
    using inv c by (auto simp: askInv_def)
  have b: "byQuestion p [] (ti_Answers s) = Inr ?m"
    using byQuestion_all [OF wf, of "ti_Answers s" "[]"] ok by (simp add: answersOk_def)
  have e: "\<exists>entry. questionEntry ?m q = Inr entry" if q: "q \<in> set (py_Questions p)" for q
  proof -
    obtain a where a: "a \<in> set (ti_Answers s)" "qa_QuestionID a = uq_ID q" using all q by auto
    have s: "savedAnswer (ti_Answers s) (uq_ID q) = Some a"
      using find_key [of qa_QuestionID "ti_Answers s" a] ok a by (simp add: savedAnswer_def answersOk_def)
    have "map_of ?m (uq_ID q) = Some a" using map_of_rev_key [of qa_QuestionID "ti_Answers s" a] ok a by (simp add: answersOk_def)
    then show ?thesis
      using answerEntry_ok [OF wf_question [OF wf q] answersOk_saved [OF ok s wf_ids [OF wf] q]] by (simp add: questionEntry_def)
  qed
  obtain entries where "mapE (\<lambda>_. questionEntry ?m) 0 (py_Questions p) = Inr entries" "length entries = length (py_Questions p)"
    using mapE_ok [of "py_Questions p" "\<lambda>_. questionEntry ?m" 0] e by auto
  then show ?thesis using wf b by (simp add: submittedResult_def wfPayload_def)
qed

end
