(* ===== verification/AskStore.thy ===== *)
theory AskStore
  imports AskSteps
begin

text \<open>Reading back a stored payload gives the payload that was stored.\<close>

lemma map_of_textMember [simp]:
  "map_of (textMember key s @ rest) k = (if k = key \<and> s \<noteq> '''' then Some (JString s) else map_of rest k)"
  "map_of (textMember key s) k = (if k = key \<and> s \<noteq> '''' then Some (JString s) else None)"
  by (auto simp: textMember_def)

lemma map_of_boolMember [simp]:
  "map_of (boolMember key b @ rest) k = (if k = key \<and> b then Some (JBool True) else map_of rest k)"
  by (auto simp: boolMember_def)

lemma stringValue_simps [simp]:
  "stringValue Sprint None = ''''" "stringValue Sprint (Some (JString s)) = TrimSpace s"
  by (simp_all add: stringValue_def)

lemma boolValue_simps [simp]: "\<not> boolValue None" "boolValue (Some (JBool b)) = b"
  by (simp_all add: boolValue_def)

lemma indexed_single: "(\<And>i x. x \<in> set xs \<Longrightarrow> f i (g x) = [x]) \<Longrightarrow> indexed f (map g xs) = xs"
proof -
  assume f: "\<And>i x. x \<in> set xs \<Longrightarrow> f i (g x) = [x]"
  have "concat (map (\<lambda>(i, x). f i x) (enumerate n (map g xs))) = xs" for n
    using f by (induction xs arbitrary: n) auto
  then show ?thesis by (simp add: indexed_def)
qed

lemma decode_stored_option:
  assumes "wfOption opt"
  shows "decodeOption Sprint qid k (storedOption opt) = [opt]"
  using assms
  by (cases opt) (auto simp: decodeOption_def storedOption_def Let_def orElse_def wfOption_def trimmedText_def simp del: map_of_append)

lemma decode_stored_question:
  assumes "wfQuestion q"
  shows "decodeQuestion Sprint k (storedQuestion q) = [q]"
proof -
  have i: "TrimSpace (uq_ID q) = uq_ID q" "TrimSpace (uq_Text q) = uq_Text q" "TrimSpace (uq_Placeholder q) = uq_Placeholder q"
    and ne: "uq_ID q \<noteq> ''''" "uq_Text q \<noteq> ''''"
    and kind: "uq_Kind q \<in> {QuestionKindText, QuestionKindSingleSelect, QuestionKindMultiSelect}"
    using assms by (auto simp: wfQuestion_def trimmedText_def split: if_splits)
  have k: "TrimSpace (uq_Kind q) = uq_Kind q" "uq_Kind q \<noteq> ''''"
    using kind by (auto simp: QuestionKindText_def QuestionKindSingleSelect_def QuestionKindMultiSelect_def TrimSpace_id
        asciiSpace_def space2_def space3_def)
  have "list_all wfOption (uq_Options q)" using assms by (auto simp: wfQuestion_def wfOptions_def split: if_splits)
  then have opts: "indexed (decodeOption Sprint (uq_ID q)) (map storedOption (uq_Options q)) = uq_Options q"
    by (intro indexed_single decode_stored_option) (auto simp: list_all_iff)
  show ?thesis
    using opts
    by (cases "uq_Options q = []"; cases "uq_Required q")
      (simp_all add: decodeQuestion_def storedQuestion_def Let_def orElse_def i ne k optionalBool_def del: map_of_append)
qed

lemma stored_payload:
  assumes "wfPayload p"
  shows "PayloadFromStored Sprint (storedPayload p) = p"
proof -
  have "list_all wfQuestion (py_Questions p)" using assms by (simp add: wfPayload_def)
  then have "indexed (decodeQuestion Sprint) (map storedQuestion (py_Questions p)) = py_Questions p"
    by (intro indexed_single decode_stored_question) (auto simp: list_all_iff)
  then show ?thesis
    using assms by (simp add: PayloadFromStored_def storedPayload_def payloadObject_def decodeStoredV2_def wfPayload_def)
qed

end
