(* ===== verification/AskForm.thy ===== *)
theory AskForm
  imports AskStore "HOL-Library.List_Lexorder" "HOL-Library.Char_ord"
begin

text \<open>
  Forms of an external agent (\<^verbatim>\<open>elicitation.go\<close>, \<^verbatim>\<open>runtime/external/codexform.go\<close>): a JSON
  schema becomes the questions of a request, and the submitted answers become content for the
  schema again. An object is the list of its members, in the order the code's loop over the map
  takes them. An error is the kind of its message.
\<close>

section \<open>Schemas\<close>

type_synonym jobject = "(string \<times> json) list"

datatype FormError =
    UnsupportedKeyword | MustBeString | ValueRequired | UnsupportedSchemaType | NoProperties | RequiredNotArray
  | RequiredNotID | RequiredUnknown | PropertyNotObject | SecretInput | MetaNotObject | UnsupportedPropertyType
  | CustomMetadataInvalid | DuplicateCustomField | CustomRequired | CustomTargetUnknown | CustomTargetCustom
  | RequiredTakesCustom | PropertyIDInvalid | NoArrayItems | ItemsTypeUnsupported | EnumNamesWithoutEnum
  | AmbiguousChoices | ChoicesNotArray | EnumNamesMismatch | ChoiceNotString | ChoiceNotObject | NoItemChoices
  | DuplicateChoice | TextTakesCustom | CustomNotString | CustomHasChoices | PayloadInvalid AskError
  | FieldCountMismatch | OptionCountMismatch

record elicitationChoice =
  ec_value :: string
  ec_label :: string
  ec_description :: string

record elicitationField =
  ef_propertyID :: string
  ef_customPropertyID :: string
  ef_questionID :: string
  ef_kind :: string
  ef_optionValues :: "(string \<times> string) list"
  ef_required :: bool
  ef_customExclusive :: bool

text \<open>Both functions of an extension may be missing.\<close>

record ElicitationExtension =
  ee_CustomAnswer :: "(jobject \<Rightarrow> FormError + string option) option"
  ee_Secret :: "(jobject \<Rightarrow> bool) option"

definition optionalSchemaString :: "jobject \<Rightarrow> string \<Rightarrow> FormError + string" where
  "optionalSchemaString obj key =
     (case map_of obj key of
        None \<Rightarrow> Inr ''''
      | Some JNull \<Rightarrow> Inr ''''
      | Some (JString s) \<Rightarrow> Inr (TrimSpace s)
      | _ \<Rightarrow> Inl MustBeString)"

definition requiredSchemaString :: "jobject \<Rightarrow> string \<Rightarrow> FormError + string" where
  "requiredSchemaString obj key =
     bindE (optionalSchemaString obj key) (\<lambda>v. if v = '''' then Inl ValueRequired else Inr v)"

definition requireOnlySchemaKeywords :: "jobject \<Rightarrow> string list \<Rightarrow> FormError + unit" where
  "requireOnlySchemaKeywords schema allowed = (if list_all (\<lambda>(k, _). k \<in> set allowed) schema then Inr () else Inl UnsupportedKeyword)"

definition objectMember :: "jobject \<Rightarrow> string \<Rightarrow> jobject option" where
  "objectMember obj key = (case map_of obj key of Some (JObject o') \<Rightarrow> Some o' | _ \<Rightarrow> None)"

section \<open>Markers in a property's metadata\<close>

fun extensionTarget :: "jobject \<Rightarrow> ElicitationExtension list \<Rightarrow> FormError + (string \<times> bool) option" where
  "extensionTarget meta [] = Inr None"
| "extensionTarget meta (e # es) =
     (case ee_CustomAnswer e of
        None \<Rightarrow> extensionTarget meta es
      | Some f \<Rightarrow> bindE (f meta) (\<lambda>target. case target of Some t \<Rightarrow> Inr (Some (t, False)) | None \<Rightarrow> extensionTarget meta es))"

definition customAnswerTarget :: "jobject \<Rightarrow> ElicitationExtension list \<Rightarrow> FormError + (string \<times> bool) option" where
  "customAnswerTarget prop exts =
     (case objectMember prop ''_meta'' of
        None \<Rightarrow> Inr None
      | Some meta \<Rightarrow>
          (case map_of meta ''_askUserQuestionCustomAnswer'' of
             Some (JObject config) \<Rightarrow>
               (if map_of config ''isCustomAnswer'' = Some (JBool True)
                then bindE (requiredSchemaString config ''questionId'') (\<lambda>t. Inr (Some (t, True)))
                else Inl CustomMetadataInvalid)
           | Some _ \<Rightarrow> Inl CustomMetadataInvalid
           | None \<Rightarrow> extensionTarget meta exts))"

definition schemaPropertyIsSecret :: "jobject \<Rightarrow> ElicitationExtension list \<Rightarrow> bool" where
  "schemaPropertyIsSecret prop exts \<longleftrightarrow>
     (case map_of prop ''format'' of Some (JString f) \<Rightarrow> EqualFold (TrimSpace f) ''password'' | _ \<Rightarrow> False) \<or>
     list_ex (\<lambda>e. case ee_Secret e of None \<Rightarrow> False | Some f \<Rightarrow> f (case objectMember prop ''_meta'' of Some meta \<Rightarrow> meta | None \<Rightarrow> [])) exts"

text \<open>The markers of Codex.\<close>

definition CodexFormMarkers :: ElicitationExtension where
  "CodexFormMarkers =
     \<lparr>ee_CustomAnswer = Some (\<lambda>meta.
        case objectMember meta ''codex'' of
          None \<Rightarrow> Inr None
        | Some codex \<Rightarrow>
            (case map_of codex ''isOtherAnswer'' of
               None \<Rightarrow> Inr None
             | Some (JBool isOther) \<Rightarrow>
                 (if isOther then bindE (requiredSchemaString codex ''questionId'') (\<lambda>t. Inr (Some t)) else Inr None)
             | _ \<Rightarrow> Inl CustomMetadataInvalid)),
      ee_Secret = Some (\<lambda>meta.
        case objectMember meta ''codex'' of
          None \<Rightarrow> False
        | Some codex \<Rightarrow> map_of codex ''isSecret'' = Some (JBool True))\<rparr>"

section \<open>Choices\<close>

definition enumChoice :: "json list option \<Rightarrow> nat \<Rightarrow> json \<Rightarrow> FormError + elicitationChoice" where
  "enumChoice names idx raw =
     (case raw of
        JString v \<Rightarrow>
          (case names of
             None \<Rightarrow> Inr \<lparr>ec_value = v, ec_label = v, ec_description = ''''\<rparr>
           | Some ns \<Rightarrow>
               (case ns ! idx of
                  JString name \<Rightarrow> Inr \<lparr>ec_value = v, ec_label = TrimSpace name, ec_description = ''''\<rparr>
                | _ \<Rightarrow> Inl ChoiceNotString))
      | _ \<Rightarrow> Inl ChoiceNotString)"

definition enumChoices :: "jobject \<Rightarrow> json list \<Rightarrow> FormError + elicitationChoice list" where
  "enumChoices schema items =
     (case map_of schema ''enumNames'' of
        None \<Rightarrow> mapE (enumChoice None) 0 items
      | Some (JArray names) \<Rightarrow> (if length names \<noteq> length items then Inl EnumNamesMismatch else mapE (enumChoice (Some names)) 0 items)
      | Some _ \<Rightarrow> Inl EnumNamesMismatch)"

definition constChoice :: "nat \<Rightarrow> json \<Rightarrow> FormError + elicitationChoice" where
  "constChoice idx raw =
     (case raw of
        JObject option \<Rightarrow>
          bindE (requireOnlySchemaKeywords option [''const'', ''title'', ''description'']) (\<lambda>_.
          case map_of option ''const'' of
            Some (JString v) \<Rightarrow>
              bindE (optionalSchemaString option ''title'') (\<lambda>label.
              bindE (optionalSchemaString option ''description'') (\<lambda>description.
              Inr \<lparr>ec_value = v, ec_label = orElse label v, ec_description = description\<rparr>))
          | _ \<Rightarrow> Inl ChoiceNotString)
      | _ \<Rightarrow> Inl ChoiceNotObject)"

text \<open>No choices is \<open>None\<close>.\<close>

definition elicitationChoices :: "jobject \<Rightarrow> FormError + elicitationChoice list option" where
  "elicitationChoices schema =
     (case filter (\<lambda>k. map_of schema k \<noteq> None) [''oneOf'', ''anyOf'', ''enum''] of
        [] \<Rightarrow> (if map_of schema ''enumNames'' \<noteq> None then Inl EnumNamesWithoutEnum else Inr None)
      | [key] \<Rightarrow>
          (case map_of schema key of
             Some (JArray items) \<Rightarrow>
               bindE (if key = ''enum'' then enumChoices schema items else mapE constChoice 0 items) (\<lambda>choices. Inr (Some choices))
           | _ \<Rightarrow> Inl ChoicesNotArray)
      | _ \<Rightarrow> Inl AmbiguousChoices)"

definition choiceOption :: "elicitationChoice \<Rightarrow> json" where
  "choiceOption c = JObject ((''label'', JString (TrimSpace (ec_label c))) # textMember ''description'' (ec_description c))"

definition elicitationOptions :: "elicitationChoice list \<Rightarrow> FormError + (json list \<times> string list)" where
  "elicitationOptions choices =
     (if distinct (map ec_value choices) then Inr (map choiceOption choices, map ec_value choices) else Inl DuplicateChoice)"

section \<open>The properties of a form\<close>

fun requiredFrom :: "jobject \<Rightarrow> json list \<Rightarrow> FormError + string list" where
  "requiredFrom properties [] = Inr []"
| "requiredFrom properties (item # items) =
     (case item of
        JString pid \<Rightarrow>
          (if TrimSpace pid = '''' \<or> pid \<noteq> TrimSpace pid then Inl RequiredNotID
           else if map_of properties pid = None then Inl RequiredUnknown
           else bindE (requiredFrom properties items) (\<lambda>pids. Inr (pid # pids)))
      | _ \<Rightarrow> Inl RequiredNotID)"

definition elicitationRequiredProperties :: "jobject \<Rightarrow> jobject \<Rightarrow> FormError + string list" where
  "elicitationRequiredProperties schema properties =
     (case map_of schema ''required'' of
        None \<Rightarrow> Inr []
      | Some JNull \<Rightarrow> Inr []
      | Some (JArray items) \<Rightarrow> requiredFrom properties items
      | _ \<Rightarrow> Inl RequiredNotArray)"

definition validateElicitationPropertyKeywords :: "string \<Rightarrow> jobject \<Rightarrow> FormError + unit" where
  "validateElicitationPropertyKeywords propertyType prop =
     (if map_of prop ''_meta'' \<notin> {None, Some JNull} \<and> objectMember prop ''_meta'' = None then Inl MetaNotObject
      else if propertyType = ''string'' then
        requireOnlySchemaKeywords prop [''type'', ''title'', ''description'', ''enum'', ''enumNames'', ''oneOf'', ''anyOf'', ''_meta'']
      else if propertyType = ''array'' then
        requireOnlySchemaKeywords prop [''type'', ''title'', ''description'', ''items'', ''_meta'']
      else Inl UnsupportedPropertyType)"

text \<open>
  The scan over all properties: their types, and for each that a custom answer is for the property
  that takes it and whether it replaces the choices.
\<close>

type_synonym customFields = "(string \<times> (string \<times> bool)) list"

definition scanProperty :: "ElicitationExtension list \<Rightarrow> json \<Rightarrow> FormError + (string \<times> (string \<times> bool) option)" where
  "scanProperty exts raw =
     (case raw of
        JObject prop \<Rightarrow>
          bindE (requiredSchemaString prop ''type'') (\<lambda>propertyType.
          if schemaPropertyIsSecret prop exts then Inl SecretInput
          else
            bindE (validateElicitationPropertyKeywords propertyType prop) (\<lambda>_.
            bindE (customAnswerTarget prop exts) (\<lambda>target. Inr (propertyType, target))))
      | _ \<Rightarrow> Inl PropertyNotObject)"

fun scanProperties :: "ElicitationExtension list \<Rightarrow> customFields \<Rightarrow> jobject \<Rightarrow> FormError + customFields" where
  "scanProperties exts custom [] = Inr custom"
| "scanProperties exts custom ((pid, raw) # properties) =
     bindE (scanProperty exts raw) (\<lambda>(_, target).
       case target of
         None \<Rightarrow> scanProperties exts custom properties
       | Some (t, exclusive) \<Rightarrow>
           if map_of custom t \<noteq> None then Inl DuplicateCustomField
           else scanProperties exts ((t, (pid, exclusive)) # custom) properties)"

definition customIDs :: "customFields \<Rightarrow> string list" where
  "customIDs custom = map (fst \<circ> snd) custom"

definition checkCustomFields :: "jobject \<Rightarrow> string list \<Rightarrow> customFields \<Rightarrow> FormError + unit" where
  "checkCustomFields properties required custom =
     (if list_ex (\<lambda>i. i \<in> set required) (customIDs custom) then Inl CustomRequired
      else
        bindE (mapE (\<lambda>_ (target, _).
          if map_of properties target = None then Inl CustomTargetUnknown
          else if target \<in> set (customIDs custom) then Inl CustomTargetCustom
          else if target \<in> set required then Inl RequiredTakesCustom
          else Inr ()) 0 custom) (\<lambda>_. Inr ()))"

definition questionProperties :: "jobject \<Rightarrow> customFields \<Rightarrow> FormError + string list" where
  "questionProperties properties custom =
     (if list_ex (\<lambda>pid. TrimSpace pid = '''' \<or> pid \<noteq> TrimSpace pid) (map fst properties) then Inl PropertyIDInvalid
      else Inr (sort (filter (\<lambda>pid. pid \<notin> set (customIDs custom)) (map fst properties))))"

section \<open>The question of a property\<close>

text \<open>The kind of the question, its options and their values.\<close>

definition arrayChoices :: "jobject \<Rightarrow> FormError + elicitationChoice list" where
  "arrayChoices prop =
     (case objectMember prop ''items'' of
        None \<Rightarrow> Inl NoArrayItems
      | Some items \<Rightarrow>
          bindE (requireOnlySchemaKeywords items [''type'', ''enum'', ''enumNames'', ''oneOf'', ''anyOf'']) (\<lambda>_.
          bindE (optionalSchemaString items ''type'') (\<lambda>itemType.
          if itemType \<noteq> '''' \<and> itemType \<noteq> ''string'' then Inl ItemsTypeUnsupported
          else
            bindE (elicitationChoices items) (\<lambda>choices.
            case choices of None \<Rightarrow> Inl NoItemChoices | Some cs \<Rightarrow> Inr cs))))"

definition questionShape :: "string \<Rightarrow> jobject \<Rightarrow> FormError + (string \<times> jobject \<times> string list)" where
  "questionShape propertyType prop =
     (let select = (\<lambda>kind choices. bindE (elicitationOptions choices) (\<lambda>(options, values). Inr (kind, [(''options'', JArray options)], values))) in
      if propertyType = ''string'' then
        bindE (elicitationChoices prop) (\<lambda>choices.
          case choices of
            Some cs \<Rightarrow> select QuestionKindSingleSelect cs
          | None \<Rightarrow> Inr (QuestionKindText, [], []))
      else if propertyType = ''array'' then bindE (arrayChoices prop) (select QuestionKindMultiSelect)
      else Inl UnsupportedPropertyType)"

text \<open>The free-text companion of a property: the members it adds, its id and its exclusiveness.\<close>

definition customCompanion :: "jobject \<Rightarrow> customFields \<Rightarrow> string \<Rightarrow> string \<Rightarrow> FormError + (jobject \<times> string \<times> bool)" where
  "customCompanion properties custom pid kind =
     (case map_of custom pid of
        None \<Rightarrow> Inr ([], '''', False)
      | Some (customID, exclusive) \<Rightarrow>
          if customID = '''' then Inr ([], '''', False)
          else if kind = QuestionKindText then Inl TextTakesCustom
          else
            (case objectMember properties customID of
               None \<Rightarrow> Inl PropertyNotObject
             | Some customProperty \<Rightarrow>
                 bindE (requiredSchemaString customProperty ''type'') (\<lambda>customType.
                 if customType \<noteq> ''string'' then Inl CustomNotString
                 else
                   bindE (elicitationChoices customProperty) (\<lambda>choices.
                   if choices \<noteq> None then Inl CustomHasChoices
                   else
                     bindE (optionalSchemaString customProperty ''description'') (\<lambda>placeholder.
                     Inr ((''allow_custom'', JBool True) # boolMember ''custom_exclusive'' exclusive @ textMember ''placeholder'' placeholder,
                          customID, exclusive))))))"

definition questionText :: "string \<Rightarrow> nat \<Rightarrow> string \<Rightarrow> string \<Rightarrow> string \<Rightarrow> string" where
  "questionText message count pid description title =
     orElse (orElse (if description = '''' \<and> count = 1 then TrimSpace message else description) title) pid"

definition propertyQuestion ::
  "string \<Rightarrow> jobject \<Rightarrow> string list \<Rightarrow> customFields \<Rightarrow> nat \<Rightarrow> string \<Rightarrow> FormError + (json \<times> elicitationField \<times> string list)" where
  "propertyQuestion message properties required custom count pid =
     (case objectMember properties pid of
        None \<Rightarrow> Inl PropertyNotObject
      | Some prop \<Rightarrow>
          bindE (requiredSchemaString prop ''type'') (\<lambda>propertyType.
          bindE (optionalSchemaString prop ''description'') (\<lambda>description.
          bindE (optionalSchemaString prop ''title'') (\<lambda>title.
          bindE (questionShape propertyType prop) (\<lambda>(kind, options, values).
          bindE (customCompanion properties custom pid kind) (\<lambda>(members, customID, exclusive).
          Inr (JObject ([(''text'', JString (questionText message count pid description title)),
                         (''required'', JBool (pid \<in> set required)), (''kind'', JString kind)] @ options @ members),
               \<lparr>ef_propertyID = pid, ef_customPropertyID = customID, ef_questionID = '''', ef_kind = kind, ef_optionValues = [],
                ef_required = (pid \<in> set required), ef_customExclusive = exclusive\<rparr>,
               values)))))))"

section \<open>The form\<close>

text \<open>The ids that the parser gave to the questions and options.\<close>

definition assignIDs :: "elicitationField \<times> string list \<Rightarrow> UIQuestion \<Rightarrow> FormError + elicitationField" where
  "assignIDs fv parsed =
     (let field = (fst fv)\<lparr>ef_questionID := uq_ID parsed\<rparr> in
      if snd fv = [] then Inr field
      else if length (uq_Options parsed) \<noteq> length (snd fv) then Inl OptionCountMismatch
      else Inr (field\<lparr>ef_optionValues := zip (map qo_ID (uq_Options parsed)) (snd fv)\<rparr>))"

definition elicitationSchema :: "jobject \<Rightarrow> FormError + jobject" where
  "elicitationSchema schema =
     bindE (requireOnlySchemaKeywords schema [''type'', ''properties'', ''required'', ''title'', ''description'', ''$schema'']) (\<lambda>_.
     bindE (optionalSchemaString schema ''type'') (\<lambda>schemaType.
     if schemaType \<noteq> '''' \<and> schemaType \<noteq> ''object'' then Inl UnsupportedSchemaType
     else
       bindE (optionalSchemaString schema ''title'') (\<lambda>_.
       bindE (optionalSchemaString schema ''description'') (\<lambda>_.
       case objectMember schema ''properties'' of
         None \<Rightarrow> Inl NoProperties
       | Some properties \<Rightarrow> if properties = [] then Inl NoProperties else Inr properties))))"

definition mapForm :: "json list \<Rightarrow> (elicitationField \<times> string list) list \<Rightarrow> FormError + (json \<times> elicitationField list)" where
  "mapForm questions formFields =
     (let input = JObject [(''questions'', JArray questions)] in
      case ParseAskUserPayload False input of
        Inl e \<Rightarrow> Inl (PayloadInvalid e)
      | Inr payload \<Rightarrow>
          if length (py_Questions payload) \<noteq> length formFields then Inl FieldCountMismatch
          else bindE (mapE (\<lambda>_ (fv, parsed). assignIDs fv parsed) 0 (zip formFields (py_Questions payload))) (\<lambda>mapping. Inr (input, mapping)))"

definition ElicitationFormInput :: "string \<Rightarrow> jobject \<Rightarrow> ElicitationExtension list \<Rightarrow> FormError + (json \<times> elicitationField list)" where
  "ElicitationFormInput message schema exts =
     bindE (elicitationSchema schema) (\<lambda>properties.
     bindE (elicitationRequiredProperties schema properties) (\<lambda>required.
     bindE (scanProperties exts [] properties) (\<lambda>custom.
     bindE (checkCustomFields properties required custom) (\<lambda>_.
     bindE (questionProperties properties custom) (\<lambda>pids.
     bindE (mapE (\<lambda>_. propertyQuestion message properties required custom (length pids)) 0 pids) (\<lambda>built.
     mapForm (map fst built) (map snd built)))))))"

section \<open>Content\<close>

record UIAnswer =
  ua_QuestionID :: string
  ua_Question :: string
  ua_Selected :: "UIOption list"
  ua_CustomText :: string
  ua_Text :: string
  ua_Skipped :: bool

text \<open>\<open>json.Unmarshal\<close> into the answer's formFields; a value of another type is an error.\<close>

definition stringField :: "jobject \<Rightarrow> string \<Rightarrow> string option" where
  "stringField obj key =
     (case map_of obj key of None \<Rightarrow> Some '''' | Some JNull \<Rightarrow> Some '''' | Some (JString s) \<Rightarrow> Some s | _ \<Rightarrow> None)"

definition boolField :: "jobject \<Rightarrow> string \<Rightarrow> bool option" where
  "boolField obj key =
     (case map_of obj key of None \<Rightarrow> Some False | Some JNull \<Rightarrow> Some False | Some (JBool b) \<Rightarrow> Some b | _ \<Rightarrow> None)"

definition readUIOption :: "json \<Rightarrow> UIOption option" where
  "readUIOption v =
     (case v of
        JNull \<Rightarrow> Some \<lparr>qo_LabelKey = '''', qo_ID = '''', qo_Label = '''', qo_Description = ''''\<rparr>
      | JObject obj \<Rightarrow>
          (case (stringField obj ''label_key'', stringField obj ''id'', stringField obj ''label'', stringField obj ''description'') of
             (Some k, Some i, Some l, Some d) \<Rightarrow> Some \<lparr>qo_LabelKey = k, qo_ID = i, qo_Label = l, qo_Description = d\<rparr>
           | _ \<Rightarrow> None)
      | _ \<Rightarrow> None)"

definition optionsField :: "jobject \<Rightarrow> string \<Rightarrow> UIOption list option" where
  "optionsField obj key =
     (case map_of obj key of
        None \<Rightarrow> Some []
      | Some JNull \<Rightarrow> Some []
      | Some (JArray vs) \<Rightarrow> those (map readUIOption vs)
      | _ \<Rightarrow> None)"

definition readUIAnswer :: "json \<Rightarrow> UIAnswer option" where
  "readUIAnswer v =
     (case v of
        JNull \<Rightarrow> Some \<lparr>ua_QuestionID = '''', ua_Question = '''', ua_Selected = [], ua_CustomText = '''', ua_Text = '''', ua_Skipped = False\<rparr>
      | JObject obj \<Rightarrow>
          (case (stringField obj ''question_id'', stringField obj ''question'', optionsField obj ''selected'',
                 stringField obj ''custom_text'', stringField obj ''text'', boolField obj ''skipped'') of
             (Some i, Some q, Some sel, Some c, Some t, Some b) \<Rightarrow>
               Some \<lparr>ua_QuestionID = i, ua_Question = q, ua_Selected = sel, ua_CustomText = c, ua_Text = t, ua_Skipped = b\<rparr>
           | _ \<Rightarrow> None)
      | _ \<Rightarrow> None)"

definition AnswersFromStored :: "json option \<Rightarrow> UIAnswer list" where
  "AnswersFromStored v =
     (case v of Some (JArray vs) \<Rightarrow> (case those (map readUIAnswer vs) of Some answers \<Rightarrow> answers | None \<Rightarrow> []) | _ \<Rightarrow> [])"

definition AnswersFromResult :: "json \<Rightarrow> UIAnswer list" where
  "AnswersFromResult r = AnswersFromStored (map_of (payloadObject r) ''answers'')"

datatype ContentError =
    ContentMissing | ContentRequiredSkipped | ContentTextEmpty | ContentCustomNotAccepted | ContentOneSelection
  | ContentUnknownOption | ContentNotBoth | ContentUnknownKind | ContentRequiredMissing

text \<open>
  The members one answer adds, and whether the loop goes on to the next field at once
  (\<open>continue\<close>), past the check of a required field.
\<close>

definition textContent :: "elicitationField \<Rightarrow> UIAnswer \<Rightarrow> ContentError + (bool \<times> jobject)" where
  "textContent field answer =
     (if TrimSpace (ua_Text answer) = '''' then Inl ContentTextEmpty
      else Inr (False, [(ef_propertyID field, JString (ua_Text answer))]))"

definition singleContent :: "elicitationField \<Rightarrow> UIAnswer \<Rightarrow> ContentError + (bool \<times> jobject)" where
  "singleContent field answer =
     (if TrimSpace (ua_CustomText answer) \<noteq> '''' then
        (if ef_customPropertyID field = '''' then Inl ContentCustomNotAccepted
         else Inr (True, [(ef_customPropertyID field, JString (ua_CustomText answer))]))
      else
        (case ua_Selected answer of
           [opt] \<Rightarrow>
             (case map_of (ef_optionValues field) (qo_ID opt) of
                None \<Rightarrow> Inl ContentUnknownOption
              | Some v \<Rightarrow> Inr (False, [(ef_propertyID field, JString v)]))
         | _ \<Rightarrow> Inl ContentOneSelection))"

definition multiContent :: "elicitationField \<Rightarrow> UIAnswer \<Rightarrow> ContentError + (bool \<times> jobject)" where
  "multiContent field answer =
     (if ef_customExclusive field \<and> ua_Selected answer \<noteq> [] \<and> TrimSpace (ua_CustomText answer) \<noteq> '''' then Inl ContentNotBoth
      else
        (case those (map (\<lambda>opt. map_of (ef_optionValues field) (qo_ID opt)) (ua_Selected answer)) of
           None \<Rightarrow> Inl ContentUnknownOption
         | Some values \<Rightarrow>
             (let chosen = (if values = [] then [] else [(ef_propertyID field, JArray (map JString values))]) in
              if TrimSpace (ua_CustomText answer) = '''' then Inr (False, chosen)
              else if ef_customPropertyID field = '''' then Inl ContentCustomNotAccepted
              else Inr (False, chosen @ [(ef_customPropertyID field, JString (ua_CustomText answer))]))))"

definition fieldContent :: "elicitationField \<Rightarrow> UIAnswer \<Rightarrow> ContentError + (bool \<times> jobject)" where
  "fieldContent field answer =
     (if ef_kind field = QuestionKindText then textContent field answer
      else if ef_kind field = QuestionKindSingleSelect then singleContent field answer
      else if ef_kind field = QuestionKindMultiSelect then multiContent field answer
      else Inl ContentUnknownKind)"

definition putAll :: "jobject \<Rightarrow> jobject \<Rightarrow> jobject" where
  "putAll members content = foldl (\<lambda>m (k, v). mapPut k v m) content members"

fun contentFrom :: "(string \<Rightarrow> UIAnswer option) \<Rightarrow> jobject \<Rightarrow> elicitationField list \<Rightarrow> ContentError + jobject" where
  "contentFrom answerOf content [] = Inr content"
| "contentFrom answerOf content (field # formFields) =
     (case answerOf (ef_questionID field) of
        None \<Rightarrow> Inl ContentMissing
      | Some answer \<Rightarrow>
          if ua_Skipped answer then
            (if ef_required field then Inl ContentRequiredSkipped else contentFrom answerOf content formFields)
          else
            bindE (fieldContent field answer) (\<lambda>(skipCheck, members).
            let content' = putAll members content in
            if \<not> skipCheck \<and> ef_required field \<and> map_of content' (ef_propertyID field) = None then Inl ContentRequiredMissing
            else contentFrom answerOf content' formFields))"

definition Content :: "elicitationField list \<Rightarrow> json \<Rightarrow> ContentError + jobject" where
  "Content mapping result =
     (let answers = AnswersFromResult result in
      contentFrom (\<lambda>i. map_of (rev (map (\<lambda>a. (ua_QuestionID a, a)) answers)) i) [] mapping)"

end
