(* ===== verification/AskConform.thy ===== *)
theory AskConform
  imports AskForm
begin

text \<open>
  What a form promises its agent: content for the schema it sent. The specification reads the
  schema as JSON Schema does, without the code's intermediate forms.
\<close>

section \<open>Conformance\<close>

definition schemaType :: "jobject \<Rightarrow> string" where
  "schemaType prop = (case map_of prop ''type'' of Some (JString t) \<Rightarrow> TrimSpace t | _ \<Rightarrow> '''')"

definition hasConst :: "string \<Rightarrow> json \<Rightarrow> bool" where
  "hasConst s v = (case v of JObject obj \<Rightarrow> map_of obj ''const'' = Some (JString s) | _ \<Rightarrow> False)"

definition admitsEnum :: "jobject \<Rightarrow> string \<Rightarrow> bool" where
  "admitsEnum schema s = (case map_of schema ''enum'' of None \<Rightarrow> True | Some (JArray items) \<Rightarrow> JString s \<in> set items | _ \<Rightarrow> False)"

definition admitsConst :: "jobject \<Rightarrow> string \<Rightarrow> string \<Rightarrow> bool" where
  "admitsConst schema key s =
     (case map_of schema key of None \<Rightarrow> True | Some (JArray items) \<Rightarrow> length (filter (hasConst s) items) = 1 | _ \<Rightarrow> False)"

definition admits :: "jobject \<Rightarrow> string \<Rightarrow> bool" where
  "admits schema s \<longleftrightarrow> admitsEnum schema s \<and> admitsConst schema ''oneOf'' s \<and> admitsConst schema ''anyOf'' s"

definition fitsProperty :: "jobject \<Rightarrow> json \<Rightarrow> bool" where
  "fitsProperty prop v =
     (case v of
        JString s \<Rightarrow> schemaType prop = ''string'' \<and> admits prop s
      | JArray vs \<Rightarrow>
          schemaType prop = ''array'' \<and>
          (case objectMember prop ''items'' of
             None \<Rightarrow> False
           | Some items \<Rightarrow> list_all (\<lambda>x. case x of JString s \<Rightarrow> admits items s | _ \<Rightarrow> False) vs)
      | _ \<Rightarrow> False)"

definition fitsMember :: "jobject \<Rightarrow> string \<times> json \<Rightarrow> bool" where
  "fitsMember properties kv = (case objectMember properties (fst kv) of None \<Rightarrow> False | Some prop \<Rightarrow> fitsProperty prop (snd kv))"

definition requiredNames :: "jobject \<Rightarrow> json list" where
  "requiredNames schema = (case map_of schema ''required'' of Some (JArray items) \<Rightarrow> items | _ \<Rightarrow> [])"

definition conformsTo :: "jobject \<Rightarrow> jobject \<Rightarrow> bool" where
  "conformsTo schema content \<longleftrightarrow>
     (case objectMember schema ''properties'' of None \<Rightarrow> False | Some properties \<Rightarrow> list_all (fitsMember properties) content) \<and>
     list_all (\<lambda>item. item \<in> JString ` set (map fst content)) (requiredNames schema)"

section \<open>Choices\<close>

lemma filter_all2: "list_all2 (\<lambda>x y. P x \<longleftrightarrow> Q y) xs ys \<Longrightarrow> length (filter P xs) = length (filter Q ys)"
  by (induction rule: list_all2_induct) auto

lemma filter_distinct_one: "distinct (map f xs) \<Longrightarrow> x \<in> set xs \<Longrightarrow> length (filter (\<lambda>y. f y = f x) xs) = 1"
proof (induction xs)
  case (Cons y ys)
  have "filter (\<lambda>z. f z = f y) ys = []" using Cons.prems(1) by (auto simp: filter_empty_conv) (metis imageI)
  then show ?case using Cons by auto
qed simp

lemma mapE_all2: "mapE f i xs = Inr ys \<Longrightarrow> (\<And>j x y. f j x = Inr y \<Longrightarrow> P x y) \<Longrightarrow> list_all2 P xs ys"
  by (auto simp: mapE_Inr list_all2_conv_all_nth)

lemma mapE_in:
  assumes "mapE f i xs = Inr ys" and "y \<in> set ys"
  obtains j x where "x \<in> set xs" "f j x = Inr y"
  using assms by (auto simp: mapE_Inr in_set_conv_nth)

lemma constChoice_const: "constChoice i x = Inr c \<Longrightarrow> hasConst s x \<longleftrightarrow> ec_value c = s"
  by (auto simp: constChoice_def hasConst_def bindE_Inr split: json.split_asm option.split_asm)

lemma enumChoice_value: "enumChoice names i x = Inr c \<Longrightarrow> x = JString (ec_value c)"
  by (auto simp: enumChoice_def split: json.split_asm option.split_asm)

lemma const_admits:
  assumes "mapE constChoice i items = Inr cs" and "distinct (map ec_value cs)" and "c \<in> set cs"
  shows "length (filter (hasConst (ec_value c)) items) = 1"
proof -
  have "list_all2 (\<lambda>x d. hasConst (ec_value c) x \<longleftrightarrow> ec_value d = ec_value c) items cs"
    using assms(1) by (rule mapE_all2) (rule constChoice_const)
  from filter_all2 [OF this] show ?thesis using filter_distinct_one [OF assms(2,3)] by simp
qed

lemma enum_admits:
  assumes "enumChoices schema items = Inr cs" and "c \<in> set cs"
  shows "JString (ec_value c) \<in> set items"
proof -
  obtain names where "mapE (enumChoice names) 0 items = Inr cs"
    using assms(1) by (auto simp: enumChoices_def split: option.split_asm json.split_asm if_split_asm)
  then show ?thesis using assms(2) by (elim mapE_in) (auto dest: enumChoice_value)
qed

lemma carriers_cases:
  assumes "elicitationChoices schema = Inr (Some cs)"
  obtains (one) items where "map_of schema ''oneOf'' = Some (JArray items)" "map_of schema ''anyOf'' = None"
      "map_of schema ''enum'' = None" "mapE constChoice 0 items = Inr cs"
    | (any) items where "map_of schema ''anyOf'' = Some (JArray items)" "map_of schema ''oneOf'' = None"
      "map_of schema ''enum'' = None" "mapE constChoice 0 items = Inr cs"
    | (enum) items where "map_of schema ''enum'' = Some (JArray items)" "map_of schema ''oneOf'' = None"
      "map_of schema ''anyOf'' = None" "enumChoices schema items = Inr cs"
  using assms
  by (cases "map_of schema ''oneOf''"; cases "map_of schema ''anyOf''"; cases "map_of schema ''enum''")
    (auto simp: elicitationChoices_def bindE_Inr split: json.split_asm if_split_asm)

lemma choices_admit:
  assumes "elicitationChoices schema = Inr (Some cs)" and "distinct (map ec_value cs)" and "c \<in> set cs"
  shows "admits schema (ec_value c)"
  using assms(1)
proof (cases rule: carriers_cases)
  case (one items)
  then show ?thesis using const_admits [OF one(4) assms(2,3)] by (simp add: admits_def admitsEnum_def admitsConst_def)
next
  case (any items)
  then show ?thesis using const_admits [OF any(4) assms(2,3)] by (simp add: admits_def admitsEnum_def admitsConst_def)
next
  case (enum items)
  then show ?thesis using enum_admits [OF enum(4) assms(3)] by (simp add: admits_def admitsEnum_def admitsConst_def)
qed

lemma no_choices_admit: "elicitationChoices schema = Inr None \<Longrightarrow> admits schema s"
  by (auto simp: elicitationChoices_def bindE_Inr admits_def admitsEnum_def admitsConst_def
      split: json.split_asm option.split_asm if_split_asm list.split_asm)

lemma elicitationOptions_Inr:
  "elicitationOptions cs = Inr (options, values) \<longleftrightarrow>
    distinct (map ec_value cs) \<and> options = map choiceOption cs \<and> values = map ec_value cs"
  by (auto simp: elicitationOptions_def)

lemma required_type: "requiredSchemaString prop ''type'' = Inr t \<Longrightarrow> schemaType prop = t \<and> t \<noteq> ''''"
  by (auto simp: requiredSchemaString_def optionalSchemaString_def bindE_Inr schemaType_def
      split: option.split_asm json.split_asm if_split_asm)

section \<open>Fields and their questions\<close>

text \<open>A value the question of a property may take.\<close>

definition fieldValues :: "jobject \<Rightarrow> string \<Rightarrow> string list \<Rightarrow> bool" where
  "fieldValues prop kind values \<longleftrightarrow>
     (if kind = QuestionKindText then schemaType prop = ''string'' \<and> (\<forall>s. admits prop s)
      else if kind = QuestionKindSingleSelect then schemaType prop = ''string'' \<and> list_all (admits prop) values
      else kind = QuestionKindMultiSelect \<and> schemaType prop = ''array'' \<and>
        (\<exists>items. objectMember prop ''items'' = Some items \<and> list_all (admits items) values))"

lemma questionShape_values:
  assumes "questionShape (schemaType prop) prop = Inr (kind, options, values)"
  shows "fieldValues prop kind values \<and>
    (kind = QuestionKindText \<and> options = [] \<and> values = [] \<or>
     kind \<noteq> QuestionKindText \<and> (\<exists>cs. options = [(''options'', JArray (map choiceOption cs))] \<and> values = map ec_value cs))"
proof -
  have adm: "list_all (admits schema) (map ec_value cs)"
    if "elicitationChoices schema = Inr (Some cs)" "distinct (map ec_value cs)" for schema cs
    using choices_admit [OF that] by (simp add: list_all_iff)
  consider (str) "schemaType prop = ''string''" | (arr) "schemaType prop = ''array''"
    using assms by (auto simp: questionShape_def split: if_split_asm)
  then show ?thesis
  proof cases
    case str
    then obtain c where c: "elicitationChoices prop = Inr c" using assms by (auto simp: questionShape_def bindE_Inr)
    show ?thesis
      using assms adm [of "prop"] no_choices_admit [of "prop"] str c
      by (cases c) (auto simp: questionShape_def bindE_Inr elicitationOptions_Inr fieldValues_def)
  next
    case arr
    then obtain cs where cs: "arrayChoices prop = Inr cs" and d: "distinct (map ec_value cs)"
      and r: "kind = QuestionKindMultiSelect" "values = map ec_value cs" "options = [(''options'', JArray (map choiceOption cs))]"
      using assms by (auto simp: questionShape_def bindE_Inr elicitationOptions_Inr)
    obtain items where i: "objectMember prop ''items'' = Some items" "elicitationChoices items = Inr (Some cs)"
      using cs by (auto simp: arrayChoices_def bindE_Inr split: option.split_asm if_split_asm)
    show ?thesis using adm [OF i(2) d] i(1) r arr by (auto simp: fieldValues_def)
  qed
qed

lemma kinds_trimmed [simp]:
  "TrimSpace QuestionKindText = QuestionKindText" "TrimSpace QuestionKindSingleSelect = QuestionKindSingleSelect"
  "TrimSpace QuestionKindMultiSelect = QuestionKindMultiSelect"
  by (simp_all add: QuestionKindText_def QuestionKindSingleSelect_def QuestionKindMultiSelect_def TrimSpace_id
      asciiSpace_def space2_def space3_def)

text \<open>What a field keeps of the question parsed for it.\<close>

definition fieldOf :: "jobject \<Rightarrow> string list \<Rightarrow> customFields \<Rightarrow> elicitationField \<Rightarrow> UIQuestion \<Rightarrow> bool" where
  "fieldOf properties required custom f q \<longleftrightarrow>
     ef_questionID f = uq_ID q \<and> ef_kind f = uq_Kind q \<and> uq_Required q = Some (ef_required f) \<and>
     ef_required f = (ef_propertyID f \<in> set required) \<and> (uq_AllowCustom q \<longrightarrow> ef_customPropertyID f \<noteq> '''') \<and>
     uq_CustomExclusive q = ef_customExclusive f \<and>
     (\<exists>prop. objectMember properties (ef_propertyID f) = Some prop \<and> fieldValues prop (ef_kind f) (map snd (ef_optionValues f))) \<and>
     (uq_Kind q \<noteq> QuestionKindText \<longrightarrow> map fst (ef_optionValues f) = map qo_ID (uq_Options q)) \<and>
     (ef_customPropertyID f \<noteq> '''' \<longrightarrow>
        \<not> ef_required f \<and>
        (\<exists>cp. objectMember properties (ef_customPropertyID f) = Some cp \<and> schemaType cp = ''string'' \<and> (\<forall>s. admits cp s)))"

lemma checkCustom_notRequired:
  assumes "checkCustomFields properties required custom = Inr u" and "map_of custom pid = Some c"
  shows "pid \<notin> set required"
proof -
  have m: "mapE (\<lambda>_ (target, _).
      if map_of properties target = None then Inl CustomTargetUnknown
      else if target \<in> set (customIDs custom) then Inl CustomTargetCustom
      else if target \<in> set required then Inl RequiredTakesCustom else Inr ()) 0 custom \<noteq> Inl e" for e
    using assms(1) by (auto simp: checkCustomFields_def bindE_def split: if_split_asm sum.split_asm)
  obtain us where "mapE (\<lambda>_ (target, _).
      if map_of properties target = None then Inl CustomTargetUnknown
      else if target \<in> set (customIDs custom) then Inl CustomTargetCustom
      else if target \<in> set required then Inl RequiredTakesCustom else Inr ()) 0 custom = Inr us"
    using m by (meson sumE)
  moreover obtain k where "k < length custom" "custom ! k = (pid, c)"
    using map_of_SomeD [OF assms(2)] by (auto simp: in_set_conv_nth)
  ultimately show ?thesis by (auto simp: mapE_Inr split: if_split_asm dest!: spec [of _ k])
qed

lemma customCompanion_fits:
  assumes "customCompanion properties custom pid kind = Inr (members, customID, exclusive)"
    and "checkCustomFields properties required custom = Inr u"
  shows "members = [] \<and> customID = '''' \<and> \<not> exclusive \<or>
    kind \<noteq> QuestionKindText \<and> customID \<noteq> '''' \<and> pid \<notin> set required \<and>
    (\<exists>cp. objectMember properties customID = Some cp \<and> schemaType cp = ''string'' \<and> (\<forall>s. admits cp s)) \<and>
    (\<exists>placeholder. members = (''allow_custom'', JBool True) # boolMember ''custom_exclusive'' exclusive @ textMember ''placeholder'' placeholder)"
  using assms(1) checkCustom_notRequired [OF assms(2)]
  by (auto simp: customCompanion_def bindE_Inr split: option.split_asm if_split_asm
      dest!: required_type intro: no_choices_admit) blast

section \<open>The fields of an accepted form\<close>

lemma questionOptions_fields:
  assumes "questionOptions obj q0 = Inr q"
  shows "uq_ID q = uq_ID q0" "uq_Kind q = uq_Kind q0" "uq_Required q = uq_Required q0" "uq_AllowCustom q = uq_AllowCustom q0"
    "uq_CustomExclusive q = uq_CustomExclusive q0" "uq_Kind q \<noteq> QuestionKindText \<Longrightarrow> map_of obj ''options'' \<noteq> Some (JArray [])"
  using assms by (auto simp: questionOptions_def parseOptions_def bindE_Inr split: if_split_asm)

text \<open>The members of a question the form asks.\<close>

definition formQuestion :: "string \<Rightarrow> bool \<Rightarrow> string \<Rightarrow> jobject \<Rightarrow> jobject \<Rightarrow> jobject" where
  "formQuestion txt required kind options members =
     [(''text'', JString txt), (''required'', JBool required), (''kind'', JString kind)] @ options @ members"

definition companionMembers :: "jobject \<Rightarrow> bool \<Rightarrow> bool \<Rightarrow> bool" where
  "companionMembers members custom exclusive \<longleftrightarrow>
     (if custom then \<exists>placeholder. members = (''allow_custom'', JBool True) # boolMember ''custom_exclusive'' exclusive @ textMember ''placeholder'' placeholder
      else members = [] \<and> \<not> exclusive)"

lemma formQuestion_parsed:
  assumes "parseQuestion j (JObject (formQuestion tx required kind options members)) = Inr q"
    and "options = [] \<or> (\<exists>os. options = [(''options'', JArray os)])" and "companionMembers members custom exclusive"
    and kind: "kind \<in> {QuestionKindText, QuestionKindSingleSelect, QuestionKindMultiSelect}"
  shows "uq_Kind q = kind \<and> uq_Required q = Some required \<and> uq_AllowCustom q = custom \<and> uq_CustomExclusive q = exclusive \<and>
    (kind \<noteq> QuestionKindText \<longrightarrow> options \<noteq> [(''options'', JArray [])])"
proof -
  let ?obj = "formQuestion tx required kind options members"
  obtain t k allow ex req placeholder where k: "map_of ?obj ''kind'' = Some (JString k)"
    and b: "strictBool ?obj ''allow_custom'' = Inr allow" "strictBool ?obj ''custom_exclusive'' = Inr ex" "strictBool ?obj ''required'' = Inr req"
    and o: "questionOptions ?obj \<lparr>uq_ID = questionID j, uq_Text = t, uq_Kind = TrimSpace k, uq_Options = [],
       uq_AllowCustom = (allow = Some True), uq_CustomExclusive = (ex = Some True), uq_Required = req, uq_Placeholder = placeholder\<rparr> = Inr q"
    using assms(1) by (rule parseQuestion_Inr) (simp only: json.inject)
  have "req = Some required" using b(3) by (simp add: formQuestion_def strictBool_def)
  moreover have "k = kind" using k by (simp add: formQuestion_def)
  moreover have "(allow = Some True) = custom" "(ex = Some True) = exclusive"
    using b(1,2) assms(2,3)
    by (auto simp: formQuestion_def strictBool_def companionMembers_def boolMember_def simp del: map_of_append
        split: if_split_asm)
  moreover have "TrimSpace kind = kind" using kind by auto
  ultimately show ?thesis
    using questionOptions_fields [OF o] by (auto simp: formQuestion_def)
qed

end
