(* ===== verification/AskContent.thy ===== *)
theory AskContent
  imports AskConform
begin

text \<open>Every field of an accepted form belongs to its question, and a submitted answer gives content that conforms.\<close>

section \<open>Fields\<close>

lemma propertyQuestion_Inr:
  assumes "propertyQuestion message properties required custom n pid = Inr (question, f, vals)"
    and "checkCustomFields properties required custom = Inr u"
  obtains "prop" options members tx where
    "objectMember properties pid = Some prop" "fieldValues prop (ef_kind f) vals"
    "ef_kind f = QuestionKindText \<and> options = [] \<and> vals = [] \<or>
     ef_kind f \<noteq> QuestionKindText \<and> (\<exists>cs. options = [(''options'', JArray (map choiceOption cs))] \<and> vals = map ec_value cs)"
    "companionMembers members (ef_customPropertyID f \<noteq> '''') (ef_customExclusive f)"
    "question = JObject (formQuestion tx (pid \<in> set required) (ef_kind f) options members)"
    "ef_propertyID f = pid" "ef_required f = (pid \<in> set required)"
    "ef_customPropertyID f \<noteq> '''' \<Longrightarrow> pid \<notin> set required \<and>
      (\<exists>cp. objectMember properties (ef_customPropertyID f) = Some cp \<and> schemaType cp = ''string'' \<and> (\<forall>s. admits cp s))"
proof -
  obtain "prop" t d title where o: "objectMember properties pid = Some prop" and t: "requiredSchemaString prop ''type'' = Inr t"
    using assms(1) by (auto simp: propertyQuestion_def bindE_Inr split: option.split_asm)
  have ty: "schemaType prop = t" using required_type [OF t] ..
  obtain d title kind options members customID exclusive where
    s: "questionShape (schemaType prop) prop = Inr (kind, options, vals)"
    and c: "customCompanion properties custom pid kind = Inr (members, customID, exclusive)"
    and q: "question = JObject (formQuestion (questionText message n pid d title) (pid \<in> set required) kind options members)"
    and f: "f = \<lparr>ef_propertyID = pid, ef_customPropertyID = customID, ef_questionID = '''', ef_kind = kind, ef_optionValues = [],
                ef_required = (pid \<in> set required), ef_customExclusive = exclusive\<rparr>"
    using assms(1) by (auto simp: propertyQuestion_def o t ty bindE_Inr formQuestion_def)
  show thesis
    by (rule that [OF o, of options members])
      (use questionShape_values [OF s] customCompanion_fits [OF c assms(2)] q f in \<open>auto simp: companionMembers_def\<close>)
qed

lemma built_field:
  assumes b: "propertyQuestion message properties required custom n pid = Inr (question, f, vals)"
    and c: "checkCustomFields properties required custom = Inr u"
    and p: "parseQuestion j question = Inr q" and a: "assignIDs (f, vals) q = Inr f'"
  shows "fieldOf properties required custom f' q \<and> ef_propertyID f' = pid"
proof -
  obtain "prop" options members tx where o: "objectMember properties pid = Some prop" and v: "fieldValues prop (ef_kind f) vals"
    and os: "ef_kind f = QuestionKindText \<and> options = [] \<and> vals = [] \<or>
     ef_kind f \<noteq> QuestionKindText \<and> (\<exists>cs. options = [(''options'', JArray (map choiceOption cs))] \<and> vals = map ec_value cs)"
    and m: "companionMembers members (ef_customPropertyID f \<noteq> '''') (ef_customExclusive f)"
    and q: "question = JObject (formQuestion tx (pid \<in> set required) (ef_kind f) options members)"
    and f: "ef_propertyID f = pid" "ef_required f = (pid \<in> set required)"
    and cust: "ef_customPropertyID f \<noteq> '''' \<Longrightarrow> pid \<notin> set required \<and>
      (\<exists>cp. objectMember properties (ef_customPropertyID f) = Some cp \<and> schemaType cp = ''string'' \<and> (\<forall>s. admits cp s))"
    using b c by (rule propertyQuestion_Inr) blast
  have kind: "ef_kind f \<in> {QuestionKindText, QuestionKindSingleSelect, QuestionKindMultiSelect}"
    using v by (auto simp: fieldValues_def split: if_split_asm)
  have r: "uq_Kind q = ef_kind f \<and> uq_Required q = Some (pid \<in> set required) \<and> uq_AllowCustom q = (ef_customPropertyID f \<noteq> '''') \<and>
    uq_CustomExclusive q = ef_customExclusive f \<and> (ef_kind f \<noteq> QuestionKindText \<longrightarrow> options \<noteq> [(''options'', JArray [])])"
    using p os by (intro formQuestion_parsed [OF _ _ m kind]) (auto simp: q)
  show ?thesis
  proof (cases "ef_kind f = QuestionKindText")
    case True
    then have "f' = f\<lparr>ef_questionID := uq_ID q\<rparr>" using a os by (auto simp: assignIDs_def Let_def)
    then show ?thesis using r o v f cust True by (auto simp: fieldOf_def fieldValues_def)
  next
    case False
    then have ne: "vals \<noteq> []" using os r by auto
    then have "f' = f\<lparr>ef_questionID := uq_ID q, ef_optionValues := zip (map qo_ID (uq_Options q)) vals\<rparr>"
      and "length (uq_Options q) = length vals"
      using a by (auto simp: assignIDs_def Let_def split: if_split_asm)
    then show ?thesis using r o v f cust False by (auto simp: fieldOf_def)
  qed
qed

lemma mapForm_fields:
  assumes built: "mapE (\<lambda>_. propertyQuestion message properties required custom n) 0 pids = Inr built"
    and c: "checkCustomFields properties required custom = Inr u"
    and m: "mapForm (map fst built) (map snd built) = Inr (input, mapping)"
  obtains payload where "ParseAskUserPayload False input = Inr payload"
    "list_all2 (fieldOf properties required custom) mapping (py_Questions payload)" "map ef_propertyID mapping = pids"
proof -
  obtain payload where p: "ParseAskUserPayload False (JObject [(''questions'', JArray (map fst built))]) = Inr payload"
    and l: "length (py_Questions payload) = length built" and i: "input = JObject [(''questions'', JArray (map fst built))]"
    and a: "mapE (\<lambda>_ (fv, parsed). assignIDs fv parsed) 0 (zip (map snd built) (py_Questions payload)) = Inr mapping"
    using m by (auto simp: mapForm_def Let_def bindE_Inr split: sum.split_asm if_split_asm)
  have q: "mapE parseQuestion 0 (map fst built) = Inr (py_Questions payload)"
    using p by (auto simp: ParseAskUserPayload_def payloadObject_def Let_def bindE_Inr split: if_split_asm)
  have lm: "length mapping = length built" and lb: "length pids = length built" using a built l by (auto simp: mapE_Inr)
  have k: "fieldOf properties required custom (mapping ! k) (py_Questions payload ! k) \<and> ef_propertyID (mapping ! k) = pids ! k"
    if "k < length built" for k
  proof -
    obtain question f vals where bk: "built ! k = (question, f, vals)" by (cases "built ! k") auto
    have "propertyQuestion message properties required custom n (pids ! k) = Inr (question, f, vals)"
      using built that lb by (auto simp: mapE_Inr bk [symmetric])
    moreover have "parseQuestion k question = Inr (py_Questions payload ! k)"
      using q that bk by (auto simp: mapE_Inr dest!: spec [of _ k])
    moreover have "assignIDs (f, vals) (py_Questions payload ! k) = Inr (mapping ! k)"
      using a that l bk by (auto simp: mapE_Inr dest!: spec [of _ k])
    ultimately show ?thesis using c by (intro built_field)
  qed
  show thesis
  proof (rule that)
    show "ParseAskUserPayload False input = Inr payload" using p i by simp
    show "list_all2 (fieldOf properties required custom) mapping (py_Questions payload)"
      using k lm l by (simp add: list_all2_conv_all_nth)
    show "map ef_propertyID mapping = pids" using k lm lb by (intro nth_equalityI) simp_all
  qed
qed

section \<open>Submitted answers\<close>

text \<open>What the submission guarantees of the answer read back for a question.\<close>

definition answersQuestion :: "UIQuestion \<Rightarrow> UIAnswer \<Rightarrow> bool" where
  "answersQuestion q ua \<longleftrightarrow>
     ua_QuestionID ua = uq_ID q \<and>
     (if ua_Skipped ua then \<not> questionIsExplicitlyRequired q
      else if uq_Kind q = QuestionKindText then TrimSpace (ua_Text ua) \<noteq> ''''
      else
        set (map qo_ID (ua_Selected ua)) \<subseteq> set (map qo_ID (uq_Options q)) \<and>
        (TrimSpace (ua_CustomText ua) \<noteq> '''' \<longrightarrow> uq_AllowCustom q) \<and>
        (uq_CustomExclusive q \<longrightarrow> ua_Selected ua = [] \<or> TrimSpace (ua_CustomText ua) = '''') \<and>
        (uq_Kind q = QuestionKindSingleSelect \<and> TrimSpace (ua_CustomText ua) = '''' \<longrightarrow> length (ua_Selected ua) = 1) \<and>
        (TrimSpace (ua_CustomText ua) = '''' \<longrightarrow> ua_Selected ua \<noteq> []))"

lemma stringField_simps [simp]:
  "stringField [] key = Some ''''"
  "stringField ((k, JString s) # obj) key = (if k = key then Some s else stringField obj key)"
  "v \<noteq> JNull \<Longrightarrow> k \<noteq> key \<Longrightarrow> stringField ((k, v) # obj) key = stringField obj key"
  by (auto simp: stringField_def)

lemma readUIOption_selection:
  "readUIOption (selectionEntry opt) = Some \<lparr>qo_LabelKey = qo_LabelKey opt, qo_ID = qo_ID opt, qo_Label = qo_Label opt, qo_Description = ''''\<rparr>"
  by (simp add: readUIOption_def selectionEntry_def textMember_def)

lemma selections_read:
  assumes "selections q seen ids = Inr ss"
  shows "\<exists>sel. those (map readUIOption ss) = Some sel \<and> map qo_ID sel = ids \<and> set ids \<subseteq> set (map qo_ID (uq_Options q)) \<and> (ss = [] \<longleftrightarrow> ids = [])"
  using assms
proof (induction q seen ids arbitrary: ss rule: selections.induct)
  case (2 q seen i ids)
  obtain opt ss' where o: "UIQuestion_Option q i = Some opt" and s: "i \<notin> seen" "selections q (insert i seen) ids = Inr ss'"
    and ss: "ss = selectionEntry opt # ss'"
    using "2.prems" by (auto simp: bindE_Inr split: if_split_asm option.split_asm)
  have i: "opt \<in> set (uq_Options q)" "qo_ID opt = i" using find_key_in [OF o [unfolded UIQuestion_Option_def]] by auto
  obtain sel where "those (map readUIOption ss') = Some sel" "map qo_ID sel = ids" "set ids \<subseteq> set (map qo_ID (uq_Options q))"
    using "2.IH" [OF s(1) o s(2)] by auto
  then show ?case using i by (auto simp: ss readUIOption_selection)
qed simp

lemma selectEntry_read:
  assumes "selectEntry q ids customText = Inr members" and "uq_Kind q \<noteq> QuestionKindText" and "TrimSpace customText = customText"
  shows "\<exists>ua. readUIAnswer (JObject ([(''question_id'', JString (uq_ID q)), (''question'', JString (uq_Text q))] @ members)) = Some ua \<and> answersQuestion q ua"
proof -
  obtain ss where s: "selections q {} ids = Inr ss"
    and m: "members = (if ss = [] then [] else [(''selected'', JArray ss)]) @ textMember ''custom_text'' customText"
    and g: "customText \<noteq> '''' \<longrightarrow> uq_AllowCustom q" "uq_CustomExclusive q \<longrightarrow> ids = [] \<or> customText = ''''"
      "uq_Kind q = QuestionKindSingleSelect \<longrightarrow> length ids \<le> 1" "ids \<noteq> [] \<or> customText \<noteq> ''''"
    using assms(1) by (auto simp: selectEntry_def bindE_Inr split: if_split_asm)
  obtain sel where r: "those (map readUIOption ss) = Some sel" "map qo_ID sel = ids" "set ids \<subseteq> set (map qo_ID (uq_Options q))" "ss = [] \<longleftrightarrow> ids = []"
    using selections_read [OF s] by auto
  let ?ua = "\<lparr>ua_QuestionID = uq_ID q, ua_Question = uq_Text q, ua_Selected = sel, ua_CustomText = customText, ua_Text = '''', ua_Skipped = False\<rparr>"
  have "readUIAnswer (JObject ([(''question_id'', JString (uq_ID q)), (''question'', JString (uq_Text q))] @ members)) = Some ?ua"
    using r by (cases "ss = []"; cases "customText = ''''") (auto simp: m readUIAnswer_def textMember_def optionsField_def boolField_def)
  moreover have "answersQuestion q ?ua"
    using g r assms(2,3) arg_cong [OF r(2), of length]
    by (auto simp: answersQuestion_def le_Suc_eq simp del: set_map)
  ultimately show ?thesis by blast
qed

lemma answerEntry_read:
  assumes "answerEntry q a = Inr entry"
  shows "\<exists>ua. readUIAnswer entry = Some ua \<and> answersQuestion q ua"
proof -
  consider (skip) "qa_Skipped a" | (free) "\<not> qa_Skipped a" "uq_Kind q = QuestionKindText" | (select) "\<not> qa_Skipped a" "uq_Kind q \<noteq> QuestionKindText"
    by blast
  then show ?thesis
  proof cases
    case select
    then obtain members where "selectEntry q (cleanIDs (qa_OptionIDs a)) (TrimSpace (qa_CustomText a)) = Inr members"
      and e: "entry = JObject ([(''question_id'', JString (uq_ID q)), (''question'', JString (uq_Text q))] @ members)"
      using assms by (auto simp: answerEntry_def Let_def bindE_Inr split: if_split_asm)
    from selectEntry_read [OF this(1) select(2)] show ?thesis using e by simp
  qed (use assms in \<open>auto simp: answerEntry_def Let_def readUIAnswer_def optionsField_def boolField_def answersQuestion_def split: if_split_asm\<close>)
qed

lemma submitted_answers:
  assumes "submittedResult p given = Inr result"
  obtains uas where "AnswersFromResult result = uas" "list_all2 answersQuestion (py_Questions p) uas"
proof -
  obtain m entries where e: "mapE (\<lambda>_. questionEntry m) 0 (py_Questions p) = Inr entries"
    and r: "result = JObject [(''status'', JString StatusSubmitted), (''answers'', JArray entries), (''instruction'', JString submitInstruction)]"
    using assms by (auto simp: submittedResult_def bindE_Inr split: if_split_asm)
  have "list_all2 (\<lambda>q entry. \<exists>ua. readUIAnswer entry = Some ua \<and> answersQuestion q ua) (py_Questions p) entries"
    using e by (rule mapE_all2) (auto simp: questionEntry_def answerEntry_read split: option.split_asm)
  then have "\<exists>uas. those (map readUIAnswer entries) = Some uas \<and> list_all2 answersQuestion (py_Questions p) uas"
    by (induction rule: list_all2_induct) auto
  then show thesis using that by (auto simp: r AnswersFromResult_def payloadObject_def AnswersFromStored_def)
qed

lemma answered_by_id:
  assumes "list_all2 answersQuestion qs uas" and "distinct (map uq_ID qs)" and "k < length qs"
  shows "map_of (rev (map (\<lambda>a. (ua_QuestionID a, a)) uas)) (uq_ID (qs ! k)) = Some (uas ! k)"
proof -
  have l: "length uas = length qs" using assms(1) by (simp add: list_all2_lengthD)
  have ids: "ua_QuestionID (uas ! i) = uq_ID (qs ! i)" if "i < length qs" for i
    using assms(1) that by (auto simp: list_all2_conv_all_nth answersQuestion_def)
  have "map ua_QuestionID uas = map uq_ID qs" using ids l by (intro nth_equalityI) simp_all
  then have "distinct (map ua_QuestionID uas)" using assms(2) by simp
  then have "map_of (rev (map (\<lambda>a. (ua_QuestionID a, a)) uas)) (ua_QuestionID (uas ! k)) = Some (uas ! k)"
    using assms(3) l by (intro map_of_rev_key) simp_all
  then show ?thesis using ids [OF assms(3)] by (simp only:)
qed

lemma answered_question:
  assumes "list_all2 answersQuestion qs uas" and "distinct (map uq_ID qs)" and "q \<in> set qs"
  shows "\<exists>ua. map_of (rev (map (\<lambda>a. (ua_QuestionID a, a)) uas)) (uq_ID q) = Some ua \<and> answersQuestion q ua"
proof -
  obtain k where k: "k < length qs" "qs ! k = q" using assms(3) by (auto simp: in_set_conv_nth)
  then have "answersQuestion q (uas ! k)" using assms(1) by (auto simp: list_all2_conv_all_nth)
  then show ?thesis using answered_by_id [OF assms(1,2) k(1)] k(2) by auto
qed

end
