(* ===== verification/AskAccept.thy ===== *)
theory AskAccept
  imports AskContent
begin

text \<open>The content of a submitted form conforms to the schema of the form.\<close>

section \<open>One field\<close>

lemma fitsMember_string:
  assumes "objectMember properties pid = Some prop" and "schemaType prop = ''string''" and "admits prop s"
  shows "fitsMember properties (pid, JString s)"
  using assms by (simp add: fitsMember_def fitsProperty_def)

lemma fitsMember_array:
  assumes "objectMember properties pid = Some prop" and "schemaType prop = ''array''"
    and "objectMember prop ''items'' = Some items" and "list_all (admits items) ss"
  shows "fitsMember properties (pid, JArray (map JString ss))"
  using assms by (simp add: fitsMember_def fitsProperty_def list_all_iff)

lemma option_value:
  assumes "map fst vals = map qo_ID opts" and "qo_ID opt \<in> set (map qo_ID opts)"
  obtains v where "map_of vals (qo_ID opt) = Some v" "v \<in> set (map snd vals)"
proof -
  have "qo_ID opt \<in> set (map fst vals)" using assms by simp
  then obtain v where v: "map_of vals (qo_ID opt) = Some v" by (cases "map_of vals (qo_ID opt)") (auto simp: map_of_eq_None_iff)
  then show thesis using that [OF v] map_of_SomeD [OF v] by force
qed

lemma option_values:
  assumes "map fst vals = map qo_ID opts" and "set (map qo_ID sel) \<subseteq> set (map qo_ID opts)"
  obtains ss where "those (map (\<lambda>opt. map_of vals (qo_ID opt)) sel) = Some ss" "set ss \<subseteq> set (map snd vals)" "length ss = length sel"
proof -
  have "\<exists>ss. those (map (\<lambda>opt. map_of vals (qo_ID opt)) sel) = Some ss \<and> set ss \<subseteq> set (map snd vals) \<and> length ss = length sel"
    using assms(2)
  proof (induction sel)
    case (Cons opt sel)
    then have "qo_ID opt \<in> set (map qo_ID opts)" by simp
    with assms(1) obtain v where "map_of vals (qo_ID opt) = Some v" "v \<in> set (map snd vals)" by (rule option_value)
    moreover obtain ss where "those (map (\<lambda>opt. map_of vals (qo_ID opt)) sel) = Some ss" "set ss \<subseteq> set (map snd vals)" "length ss = length sel"
      using Cons by auto
    ultimately show ?case by (intro exI [of _ "v # ss"]) simp
  qed simp
  then show thesis using that by blast
qed

definition fieldDone :: "jobject \<Rightarrow> elicitationField \<Rightarrow> ContentError + (bool \<times> jobject) \<Rightarrow> bool" where
  "fieldDone properties f r \<longleftrightarrow>
     (\<exists>b members. r = Inr (b, members) \<and> list_all (fitsMember properties) members \<and>
        (ef_required f \<longrightarrow> ef_propertyID f \<in> set (map fst members)))"

text \<open>The companion of a question that takes custom answers holds the typed text.\<close>

lemma custom_member:
  assumes "fieldOf properties required custom f q" and "uq_AllowCustom q"
  shows "ef_customPropertyID f \<noteq> ''''" "\<not> ef_required f" "fitsMember properties (ef_customPropertyID f, JString s)"
  using assms by (auto simp: fieldOf_def intro: fitsMember_string)

lemma free_done:
  assumes "fieldOf properties required custom f q" and "answersQuestion q ua" and "\<not> ua_Skipped ua" and "uq_Kind q = QuestionKindText"
  shows "fieldDone properties f (textContent f ua)"
  using assms
  by (auto simp: fieldDone_def textContent_def answersQuestion_def fieldOf_def fieldValues_def intro: fitsMember_string)

lemma single_done:
  assumes f: "fieldOf properties required custom f q" and a: "answersQuestion q ua" and s: "\<not> ua_Skipped ua"
    and k: "uq_Kind q = QuestionKindSingleSelect"
  shows "fieldDone properties f (singleContent f ua)"
proof (cases "TrimSpace (ua_CustomText ua) = ''''")
  case True
  then obtain opt where o: "ua_Selected ua = [opt]" "qo_ID opt \<in> set (map qo_ID (uq_Options q))"
    using a s k by (auto simp: answersQuestion_def length_Suc_conv)
  have "map fst (ef_optionValues f) = map qo_ID (uq_Options q)" using f k by (simp add: fieldOf_def)
  then obtain w where "map_of (ef_optionValues f) (qo_ID opt) = Some w" "w \<in> set (map snd (ef_optionValues f))"
    using o(2) by (rule option_value)
  moreover obtain "prop" where pv: "objectMember properties (ef_propertyID f) = Some prop"
    "fieldValues prop QuestionKindSingleSelect (map snd (ef_optionValues f))"
    using f k by (auto simp: fieldOf_def)
  then have "schemaType prop = ''string''" "list_all (admits prop) (map snd (ef_optionValues f))" by (auto simp: fieldValues_def)
  moreover have "admits prop w" using calculation(2,4) unfolding list_all_iff by blast
  ultimately have "fitsMember properties (ef_propertyID f, JString w)" using pv(1) by (intro fitsMember_string)
  then show ?thesis using o(1) True \<open>map_of _ _ = Some w\<close> by (auto simp: fieldDone_def singleContent_def)
next
  case False
  then have "uq_AllowCustom q" using a s k by (auto simp: answersQuestion_def)
  from custom_member [OF f this] False show ?thesis by (auto simp: fieldDone_def singleContent_def)
qed

lemma multi_done:
  assumes f: "fieldOf properties required custom f q" and a: "answersQuestion q ua" and s: "\<not> ua_Skipped ua"
    and k: "uq_Kind q = QuestionKindMultiSelect"
  shows "fieldDone properties f (multiContent f ua)"
proof -
  have sub: "set (map qo_ID (ua_Selected ua)) \<subseteq> set (map qo_ID (uq_Options q))"
    and al: "TrimSpace (ua_CustomText ua) \<noteq> '''' \<Longrightarrow> uq_AllowCustom q"
    and ex: "ef_customExclusive f \<Longrightarrow> ua_Selected ua = [] \<or> TrimSpace (ua_CustomText ua) = ''''"
    and ne: "TrimSpace (ua_CustomText ua) = '''' \<Longrightarrow> ua_Selected ua \<noteq> []"
    using a s f k by (auto simp: answersQuestion_def fieldOf_def)
  have "map fst (ef_optionValues f) = map qo_ID (uq_Options q)" using f k by (simp add: fieldOf_def)
  then obtain ss where ss: "those (map (\<lambda>opt. map_of (ef_optionValues f) (qo_ID opt)) (ua_Selected ua)) = Some ss"
    "set ss \<subseteq> set (map snd (ef_optionValues f))" "length ss = length (ua_Selected ua)"
    using sub by (rule option_values)
  obtain "prop" where pv: "objectMember properties (ef_propertyID f) = Some prop"
    "fieldValues prop QuestionKindMultiSelect (map snd (ef_optionValues f))"
    using f k by (auto simp: fieldOf_def)
  then obtain items where i: "schemaType prop = ''array''" "objectMember prop ''items'' = Some items"
    "list_all (admits items) (map snd (ef_optionValues f))"
    by (auto simp: fieldValues_def)
  have "list_all (admits items) ss" using i(3) ss(2) unfolding list_all_iff by blast
  with pv(1) i(1,2) have fit: "fitsMember properties (ef_propertyID f, JArray (map JString ss))" by (rule fitsMember_array)
  show ?thesis
  proof (cases "TrimSpace (ua_CustomText ua) = ''''")
    case True
    then have "ss \<noteq> []" using ne ss(3) by auto
    then show ?thesis using True fit by (auto simp: fieldDone_def multiContent_def ss(1) Let_def)
  next
    case False
    from custom_member [OF f al [OF this]] False ex fit show ?thesis by (auto simp: fieldDone_def multiContent_def ss(1) Let_def)
  qed
qed

lemma fieldContent_done:
  assumes "fieldOf properties required custom f q" and "answersQuestion q ua" and "\<not> ua_Skipped ua"
  shows "fieldDone properties f (fieldContent f ua)"
proof -
  have "ef_kind f = uq_Kind q" "uq_Kind q \<in> {QuestionKindText, QuestionKindSingleSelect, QuestionKindMultiSelect}"
    using assms(1) by (auto simp: fieldOf_def fieldValues_def split: if_split_asm)
  then show ?thesis using free_done [OF assms] single_done [OF assms] multi_done [OF assms] by (auto simp: fieldContent_def)
qed

section \<open>All fields\<close>

lemma mapPut_keys: "set (map fst (mapPut k v m)) = insert k (set (map fst m))"
  unfolding mapPut_def by (induction m) auto

lemma putAll_fits: "list_all P content \<Longrightarrow> list_all P members \<Longrightarrow> list_all P (putAll members content)"
proof (induction members arbitrary: content)
  case (Cons kv members)
  have "set (AList.update k v m) \<subseteq> insert (k, v) (set m)" for k v and m :: jobject
    by (induction m) auto
  then have "list_all P (mapPut (fst kv) (snd kv) content)"
    using Cons.prems by (fastforce simp: list_all_iff mapPut_def)
  then show ?case using Cons by (simp add: putAll_def split_beta)
qed (simp add: putAll_def)

lemma putAll_keys: "set (map fst (putAll members content)) = set (map fst members) \<union> set (map fst content)"
proof (induction members arbitrary: content)
  case (Cons kv members)
  then show ?case by (simp add: putAll_def split_beta mapPut_keys del: set_map)
qed (simp add: putAll_def)

lemma contentFrom_done:
  assumes "list_all2 (fieldOf properties required custom) fs qs"
    and "\<And>q. q \<in> set qs \<Longrightarrow> \<exists>ua. answerOf (uq_ID q) = Some ua \<and> answersQuestion q ua"
    and "list_all (fitsMember properties) content"
  shows "\<exists>content'. contentFrom answerOf content fs = Inr content' \<and> list_all (fitsMember properties) content' \<and>
    set (map fst content) \<subseteq> set (map fst content') \<and> (\<forall>f\<in>set fs. ef_required f \<longrightarrow> ef_propertyID f \<in> set (map fst content'))"
  using assms
proof (induction arbitrary: content rule: list_all2_induct)
  case (Cons f fs q qs)
  obtain ua where ua: "answerOf (uq_ID q) = Some ua" "answersQuestion q ua" using Cons.prems(1) by auto
  have fq: "ef_questionID f = uq_ID q" "uq_Required q = Some (ef_required f)" using Cons.hyps(1) by (auto simp: fieldOf_def)
  have IH: "\<exists>content'. contentFrom answerOf c fs = Inr content' \<and> list_all (fitsMember properties) content' \<and>
    set (map fst c) \<subseteq> set (map fst content') \<and> (\<forall>f\<in>set fs. ef_required f \<longrightarrow> ef_propertyID f \<in> set (map fst content'))"
    if "list_all (fitsMember properties) c" for c
    using Cons.IH [OF _ that] Cons.prems(1) by simp
  show ?case
  proof (cases "ua_Skipped ua")
    case True
    then have "\<not> ef_required f" using ua(2) fq(2) by (simp add: answersQuestion_def questionIsExplicitlyRequired_def)
    then show ?thesis using IH [OF Cons.prems(2)] ua(1) fq(1) True by simp
  next
    case False
    obtain b members where m: "fieldContent f ua = Inr (b, members)" "list_all (fitsMember properties) members"
      "ef_required f \<longrightarrow> ef_propertyID f \<in> set (map fst members)"
      using fieldContent_done [OF Cons.hyps(1) ua(2) False] by (auto simp: fieldDone_def)
    let ?c = "putAll members content"
    have keys: "set (map fst ?c) = set (map fst members) \<union> set (map fst content)" by (rule putAll_keys)
    have "ef_required f \<Longrightarrow> map_of ?c (ef_propertyID f) \<noteq> None"
      using m(3) keys by (auto simp: map_of_eq_None_iff simp del: not_None_eq)
    then have "contentFrom answerOf content (f # fs) = contentFrom answerOf ?c fs"
      using ua(1) fq(1) False m(1) by (auto simp: Let_def simp del: not_None_eq)
    moreover obtain content' where c': "contentFrom answerOf ?c fs = Inr content'" "list_all (fitsMember properties) content'"
      "set (map fst ?c) \<subseteq> set (map fst content')" "\<forall>f\<in>set fs. ef_required f \<longrightarrow> ef_propertyID f \<in> set (map fst content')"
      using IH [OF putAll_fits [OF Cons.prems(2) m(2)]] by blast
    moreover have "ef_required f \<longrightarrow> ef_propertyID f \<in> set (map fst content')" "set (map fst content) \<subseteq> set (map fst content')"
      using m(3) c'(3) unfolding keys by blast+
    ultimately show ?thesis by simp
  qed
qed simp

section \<open>The form\<close>

lemma requiredFrom_items:
  "requiredFrom properties items = Inr required \<Longrightarrow> items = map JString required \<and> list_all (\<lambda>pid. map_of properties pid \<noteq> None) required"
proof (induction items arbitrary: required)
  case (Cons item items)
  then show ?case by (cases item) (auto simp: bindE_Inr split: if_split_asm)
qed simp

lemma required_names:
  assumes "elicitationRequiredProperties schema properties = Inr required"
  shows "requiredNames schema = map JString required \<and> list_all (\<lambda>pid. map_of properties pid \<noteq> None) required"
  using assms requiredFrom_items
  by (auto simp: elicitationRequiredProperties_def requiredNames_def split: option.split_asm json.split_asm)

lemma checkCustom_required:
  "checkCustomFields properties required custom = Inr u \<Longrightarrow> pid \<in> set required \<Longrightarrow> pid \<notin> set (customIDs custom)"
  by (auto simp: checkCustomFields_def list_ex_iff split: if_split_asm)

lemma form_content:
  assumes form: "ElicitationFormInput message schema exts = Inr (input, mapping)"
    and parsed: "ParseAskUserPayload False input = Inr p" and submitted: "submittedResult p given = Inr result"
  shows "\<exists>content. Content mapping result = Inr content \<and> conformsTo schema content"
proof -
  obtain properties required custom u pids built where sch: "elicitationSchema schema = Inr properties"
    and req: "elicitationRequiredProperties schema properties = Inr required"
    and c: "checkCustomFields properties required custom = Inr u"
    and pids: "questionProperties properties custom = Inr pids"
    and b: "mapE (\<lambda>_. propertyQuestion message properties required custom (length pids)) 0 pids = Inr built"
    and m: "mapForm (map fst built) (map snd built) = Inr (input, mapping)"
    using form by (auto simp: ElicitationFormInput_def bindE_Inr)
  have props: "objectMember schema ''properties'' = Some properties"
    using sch by (auto simp: elicitationSchema_def bindE_Inr split: option.split_asm if_split_asm)
  have f: "list_all2 (fieldOf properties required custom) mapping (py_Questions p)" and ids: "map ef_propertyID mapping = pids"
    using mapForm_fields [OF b c m] parsed by auto
  obtain uas where uas: "AnswersFromResult result = uas" "list_all2 answersQuestion (py_Questions p) uas"
    using submitted by (rule submitted_answers)
  let ?answerOf = "\<lambda>i. map_of (rev (map (\<lambda>a. (ua_QuestionID a, a)) uas)) i"
  have answered: "\<exists>ua. ?answerOf (uq_ID q) = Some ua \<and> answersQuestion q ua" if "q \<in> set (py_Questions p)" for q
    using uas(2) wf_ids [OF ParseAskUserPayload_wf [OF parsed]] that by (rule answered_question)
  have start: "list_all (fitsMember properties) []" by simp
  obtain content where content: "contentFrom ?answerOf [] mapping = Inr content" "list_all (fitsMember properties) content"
    "\<forall>f\<in>set mapping. ef_required f \<longrightarrow> ef_propertyID f \<in> set (map fst content)"
    using contentFrom_done [OF f _ start, of ?answerOf] answered by blast
  have "pid \<in> set (map fst content)" if "pid \<in> set required" for pid
  proof -
    have "pid \<in> set (map fst properties)"
      using required_names [OF req] that by (auto simp: list_all_iff map_of_eq_None_iff)
    moreover have "pids = sort (filter (\<lambda>i. i \<notin> set (customIDs custom)) (map fst properties))"
      using pids by (simp add: questionProperties_def split: if_split_asm)
    ultimately have "pid \<in> set pids" using checkCustom_required [OF c that] unfolding set_sort by auto
    then obtain fld where "fld \<in> set mapping" "ef_propertyID fld = pid" using ids by auto
    moreover have "ef_required fld" using calculation f that by (auto simp: list_all2_conv_all_nth in_set_conv_nth fieldOf_def)
    ultimately show ?thesis using content(3) by blast
  qed
  then have "conformsTo schema content"
    using content(2) props required_names [OF req] by (auto simp: conformsTo_def list_all_iff)
  then show ?thesis using content(1) uas(1) by (simp add: Content_def)
qed

end
