(* ===== verification/AskTurns.thy ===== *)
theory AskTurns
  imports AskStore
begin

text \<open>Answering the questions in turn: the replies of a user who never goes back.\<close>

definition turnCommand :: "string \<Rightarrow> bool" where
  "turnCommand raw \<longleftrightarrow> isBackCommand (ToLower (TrimSpace raw)) \<or> isSkipCommand (ToLower (TrimSpace raw))"

text \<open>The state after the answers to a first part of the questions.\<close>

definition atTurn :: "QuestionAnswer list \<Rightarrow> TextInteractionState" where
  "atTurn answers = \<lparr>ti_QuestionIndex = int (length answers), ti_Answers = answers, ti_Completed = False\<rparr>"

lemma put_new: "qa_QuestionID a \<notin> set (map qa_QuestionID answers) \<Longrightarrow> putTextAnswer answers a = answers @ [a]"
  by (induction answers) auto

lemma unansweredRequired_all:
  assumes "distinct (map qa_QuestionID answers)" and "map qa_QuestionID answers = map uq_ID qs'" and "set qs \<subseteq> set qs'"
    and "list_all (\<lambda>a. \<not> qa_Skipped a) answers"
  shows "unansweredRequired answers i qs = None"
  using assms(3)
proof (induction qs arbitrary: i)
  case (Cons q qs)
  then have "uq_ID q \<in> set (map qa_QuestionID answers)" using assms(2) by simp
  then obtain a where "a \<in> set answers" "qa_QuestionID a = uq_ID q" by auto
  then have "savedAnswer answers (uq_ID q) = Some a" "\<not> qa_Skipped a"
    using find_key [OF assms(1), of a] assms(4) by (auto simp: savedAnswer_def list_all_iff)
  then show ?case using Cons by auto
qed simp

lemma fillSkips_none: "set (map uq_ID (py_Questions p)) \<subseteq> set (map qa_QuestionID answers) \<Longrightarrow> fillSkips p answers = answers"
  by (auto simp: fillSkips_def filter_empty_conv)

lemma normalize_turn:
  assumes "distinct (map uq_ID (py_Questions p))" and "map qa_QuestionID answers = map uq_ID (take (length answers) (py_Questions p))"
    and "length answers < length (py_Questions p)"
  shows "normalizeTextInteraction p (atTurn answers) = atTurn answers"
proof -
  have "distinct (map qa_QuestionID answers)" using assms(1,2) by (metis distinct_take take_map)
  moreover have "set (map qa_QuestionID answers) \<subseteq> set (map uq_ID (py_Questions p))"
    unfolding assms(2) by (auto dest: in_set_takeD)
  ultimately have "keepKnown (set (map uq_ID (py_Questions p))) {} answers = answers" by (intro keepKnown_id) auto
  then show ?thesis using assms(3) by (simp add: normalizeTextInteraction_def atTurn_def questionCount_def Let_def)
qed

lemma nth_notin_take:
  assumes "distinct xs" and "k < length xs"
  shows "xs ! k \<notin> set (take k xs)"
proof -
  have "distinct (take k xs @ xs ! k # drop (Suc k) xs)" using assms by (simp add: id_take_nth_drop [symmetric])
  then show ?thesis by simp
qed

text \<open>One reply: the next turn, or the completed set after the last question.\<close>

lemma turn_step:
  assumes d: "distinct (map uq_ID (py_Questions p))" and m: "map qa_QuestionID answers = map uq_ID (take (length answers) (py_Questions p))"
    and l: "length answers < length (py_Questions p)" and c: "\<not> turnCommand raw"
    and r: "parseTextAnswer eqFold (py_Questions p ! length answers) raw = Inr a"
  shows "advanceTextState eqFold p (atTurn answers) raw =
    Inr (if Suc (length answers) = length (py_Questions p)
         then completeOrFocusRequired p ((atTurn answers)\<lparr>ti_Answers := answers @ [a]\<rparr>) else atTurn (answers @ [a]), False, True)"
proof -
  let ?k = "length answers"
  have ida: "qa_QuestionID a = map uq_ID (py_Questions p) ! ?k" using parseTextAnswer_good [OF r] l by simp
  have "map uq_ID (py_Questions p) ! ?k \<notin> set (take ?k (map uq_ID (py_Questions p)))"
    using d l by (intro nth_notin_take) simp_all
  then have "putTextAnswer answers a = answers @ [a]" by (intro put_new) (simp add: ida m take_map del: set_map)
  moreover have "py_Questions p \<noteq> []" using l by auto
  moreover have "int ?k = int (length (py_Questions p)) - 1 \<longleftrightarrow> Suc ?k = length (py_Questions p)" using l by auto
  ultimately show ?thesis
    using normalize_turn [OF d m l] c r
    by (simp add: advanceTextState_def Let_def turnCommand_def putReply_def atTurn_def questionCount_def)
qed

text \<open>The answers of a list of replies, one to each question.\<close>

fun turnAnswers :: "(string \<Rightarrow> string \<Rightarrow> bool) \<Rightarrow> UIQuestion list \<Rightarrow> string list \<Rightarrow> QuestionAnswer list option" where
  "turnAnswers eqFold [] [] = Some []"
| "turnAnswers eqFold (q # qs) (raw # raws) =
     (if turnCommand raw then None
      else (case parseTextAnswer eqFold q raw of
              Inl _ \<Rightarrow> None
            | Inr a \<Rightarrow> map_option ((#) a) (turnAnswers eqFold qs raws)))"
| "turnAnswers eqFold _ _ = None"

lemma turnAnswers_ids: "turnAnswers eqFold qs raws = Some as \<Longrightarrow> map qa_QuestionID as = map uq_ID qs \<and> list_all (\<lambda>a. \<not> qa_Skipped a) as"
proof (induction eqFold qs raws arbitrary: as rule: turnAnswers.induct)
  case (2 eqFold q qs raw raws)
  have "\<not> qa_Skipped a" if "parseTextAnswer eqFold q raw = Inr a" for a
    using that by (auto simp: parseTextAnswer_def Let_def split: if_split_asm option.split_asm)
  then show ?case using 2 parseTextAnswer_good [of eqFold q raw] by (fastforce split: if_split_asm sum.split_asm)
qed auto

lemma turns_from:
  assumes "distinct (map uq_ID (py_Questions (Localized T p)))" and "raws \<noteq> []"
    and "py_Questions (Localized T p) = qs0 @ qs" and "map qa_QuestionID done = map uq_ID qs0" and "list_all (\<lambda>a. \<not> qa_Skipped a) done"
    and "turnAnswers eqFold qs raws = Some as"
  shows "foldl (storeText eqFold T p) (atTurn done) raws =
    \<lparr>ti_QuestionIndex = questionCount p - 1, ti_Answers = done @ as, ti_Completed = True\<rparr>"
  using assms(2-)
proof (induction raws arbitrary: qs0 qs "done" as)
  case (Cons raw raws)
  let ?p = "Localized T p"
  obtain q qs' where qs: "qs = q # qs'" using Cons.prems by (cases qs) auto
  obtain a as' where c: "\<not> turnCommand raw" and a: "parseTextAnswer eqFold q raw = Inr a" and as': "as = a # as'"
    and t: "turnAnswers eqFold qs' raws = Some as'"
    using Cons.prems by (auto simp: qs split: if_split_asm sum.split_asm)
  have l: "length done = length qs0" using Cons.prems(3) by (metis length_map)
  have len: "length (py_Questions p) = length qs0 + Suc (length qs')"
    using arg_cong [OF Cons.prems(2), of length] by (simp add: Localized_questions qs)
  have step: "advanceTextState eqFold ?p (atTurn done) raw =
      Inr (if Suc (length done) = length (py_Questions ?p)
         then completeOrFocusRequired ?p ((atTurn done)\<lparr>ti_Answers := done @ [a]\<rparr>) else atTurn (done @ [a]), False, True)"
    using Cons.prems a qs l by (intro turn_step [OF assms(1) _ _ c]) simp_all
  have ida: "qa_QuestionID a = uq_ID q" using parseTextAnswer_good [OF a] ..
  have nsk: "\<not> qa_Skipped a" using turnAnswers_ids [OF Cons.prems(5)] by (simp add: as')
  show ?case
  proof (cases "raws = []")
    case True
    then have e: "qs' = []" "as' = []" using t by (cases qs'; simp)+
    have ids: "map qa_QuestionID (done @ [a]) = map uq_ID (py_Questions ?p)" using Cons.prems(2,3) ida qs e by simp
    have "unansweredRequired (done @ [a]) 0 (py_Questions ?p) = None"
      using Cons.prems(4) nsk ids assms(1) by (intro unansweredRequired_all [OF _ ids]) simp_all
    moreover have "fillSkips ?p (done @ [a]) = done @ [a]" by (rule fillSkips_none) (simp only: ids order_refl)
    ultimately show ?thesis
      using step l len e True as'
      by (simp add: storeText_def completeOrFocusRequired_def atTurn_def questionCount_def Localized_questions)
  next
    case False
    then have "qs' \<noteq> []" using t by (cases raws) auto
    then have "storeText eqFold T p (atTurn done) raw = atTurn (done @ [a])"
      using step l len by (simp add: storeText_def Localized_questions)
    then show ?thesis
      using Cons.IH [OF False, of "qs0 @ [q]" qs' "done @ [a]" as'] Cons.prems ida nsk t qs as' by simp
  qed
qed simp

lemma turns_all:
  assumes "wfPayload p" and "turnAnswers eqFold (py_Questions (Localized T p)) raws = Some as"
  shows "foldl (storeText eqFold T p) newInteraction raws =
    \<lparr>ti_QuestionIndex = questionCount p - 1, ti_Answers = as, ti_Completed = True\<rparr>"
proof -
  have "raws \<noteq> []" using assms by (cases raws; cases "py_Questions (Localized T p)") (auto simp: wfPayload_def Localized_questions)
  moreover have "newInteraction = atTurn []" by (simp add: newInteraction_def atTurn_def)
  ultimately show ?thesis
    using turns_from [of T p raws "[]" "py_Questions (Localized T p)" "[]" eqFold as] assms(2) wf_ids [OF assms(1)]
    by (simp add: Localized_ids)
qed

end
