(* ===== verification/AskChoice.thy ===== *)
theory AskChoice
  imports AskAccept AskTurns
begin

text \<open>
  Questions in the shape an agent's own question tool asks them (\<^verbatim>\<open>choice.go\<close>): the request they
  become, and the answers read back from the submitted result.
\<close>

record ChoiceOption =
  co_Label :: string
  co_Description :: string

record ChoiceQuestion =
  cq_Text :: string
  cq_Options :: "ChoiceOption list"
  cq_MultiSelect :: bool

definition choiceItem :: "ChoiceQuestion \<Rightarrow> json" where
  "choiceItem question =
     (if MinOptionsPerQuestion \<le> length (cq_Options question) then
        JObject [(''text'', JString (cq_Text question)),
          (''kind'', JString (if cq_MultiSelect question then QuestionKindMultiSelect else QuestionKindSingleSelect)),
          (''options'', JArray (map (\<lambda>opt. JObject [(''label'', JString (co_Label opt)), (''description'', JString (co_Description opt))])
             (take (min (length (cq_Options question)) MaxOptionsPerQuestion) (cq_Options question)))),
          (''allow_custom'', JBool True)]
      else JObject [(''text'', JString (cq_Text question)), (''kind'', JString QuestionKindText)])"

definition ChoiceQuestionsInput :: "ChoiceQuestion list \<Rightarrow> json" where
  "ChoiceQuestionsInput questions = JObject [(''questions'', JArray (map choiceItem questions))]"

fun joinComma :: "string list \<Rightarrow> string" where
  "joinComma [] = ''''"
| "joinComma [v] = v"
| "joinComma (v # vs) = v @ '', '' @ joinComma vs"

definition choiceValues :: "UIAnswer \<Rightarrow> string list" where
  "choiceValues answer =
     map qo_Label (ua_Selected answer) @ filter (\<lambda>t. t \<noteq> '''') (map TrimSpace [ua_CustomText answer, ua_Text answer])"

definition choiceAnswer :: "UIAnswer option \<Rightarrow> string option" where
  "choiceAnswer found =
     (case found of
        None \<Rightarrow> None
      | Some answer \<Rightarrow> if ua_Skipped answer \<or> choiceValues answer = [] then None else Some (joinComma (choiceValues answer)))"

definition ChoiceAnswers :: "json \<Rightarrow> nat \<Rightarrow> string list option" where
  "ChoiceAnswers result count =
     (let answers = AnswersFromResult result;
          byID = (\<lambda>i. map_of (rev (map (\<lambda>a. (ua_QuestionID a, a)) answers)) i)
      in those (map (\<lambda>i. choiceAnswer (byID (questionID i))) [0..<count]))"

section \<open>Reading the answers\<close>

lemma those_all: "(\<exists>ys. those xs = Some ys) \<longleftrightarrow> (\<forall>x\<in>set xs. x \<noteq> None)"
  by (induction xs) (auto split: option.splits)

lemma those_length: "those xs = Some ys \<Longrightarrow> length ys = length xs"
  by (induction xs arbitrary: ys) (auto split: option.splits)

lemma parsed_ids:
  assumes "requestPayload source False (JObject [(''questions'', JArray items)]) = Inr p"
  shows "length (py_Questions p) = length items" "k < length items \<Longrightarrow> uq_ID (py_Questions p ! k) = questionID k"
proof -
  obtain p0 where a: "ParseAskUserPayload False (JObject [(''questions'', JArray items)]) = Inr p0"
    and p: "p = enableConversationalAnswers source p0"
    using assms by (auto simp: requestPayload_def bindE_Inr)
  have m: "mapE parseQuestion 0 items = Inr (py_Questions p0)"
    using a by (auto simp: ParseAskUserPayload_def payloadObject_def Let_def bindE_Inr split: if_split_asm)
  have l: "length (py_Questions p0) = length items" using m by (simp add: mapE_Inr)
  then show "length (py_Questions p) = length items" by (simp add: p)
  show "uq_ID (py_Questions p ! k) = questionID k" if "k < length items"
    using m l that parseQuestion_wf [of k "items ! k" "py_Questions p0 ! k"] by (simp add: p mapE_Inr enable_id_nth)
qed

lemma choiceAnswer_some:
  assumes "answersQuestion q ua"
  shows "choiceAnswer (Some ua) \<noteq> None \<longleftrightarrow> \<not> ua_Skipped ua"
  using assms by (auto simp: choiceAnswer_def choiceValues_def answersQuestion_def split: if_splits)

text \<open>The skips of the answers read back are the skips of the answers given.\<close>

lemma answerEntry_skipped:
  assumes "answerEntry q a = Inr entry" and "readUIAnswer entry = Some ua"
  shows "ua_Skipped ua = qa_Skipped a"
proof (cases "qa_Skipped a \<or> uq_Kind q = QuestionKindText")
  case True
  then show ?thesis
    using assms by (auto simp: answerEntry_def Let_def readUIAnswer_def optionsField_def boolField_def split: if_split_asm)
next
  case False
  then obtain members where s: "selectEntry q (cleanIDs (qa_OptionIDs a)) (TrimSpace (qa_CustomText a)) = Inr members"
    and e: "entry = JObject ([(''question_id'', JString (uq_ID q)), (''question'', JString (uq_Text q))] @ members)"
    using assms(1) by (auto simp: answerEntry_def Let_def bindE_Inr split: if_split_asm)
  have "map_of members ''skipped'' = None"
    using s by (auto simp: selectEntry_def bindE_Inr textMember_def split: if_split_asm)
  then have "boolField ([(''question_id'', JString (uq_ID q)), (''question'', JString (uq_Text q))] @ members) ''skipped'' = Some False"
    by (simp add: boolField_def)
  then show ?thesis using assms(2) False by (auto simp: e readUIAnswer_def split: option.split_asm)
qed

lemma byQuestion_given:
  assumes "byQuestion p m given = Inr m'" and "distinct (map fst m)" and "set (map fst m) \<subseteq> set (map uq_ID (py_Questions p))"
  shows "set (map snd m') = set (map snd m) \<union> set given \<and> distinct (map fst m') \<and>
    set (map fst m') \<subseteq> set (map uq_ID (py_Questions p))"
  using assms
proof (induction p m given rule: byQuestion.induct)
  case (2 p m a given)
  let ?i = "TrimSpace (qa_QuestionID a)"
  have c: "?i \<noteq> ''''" "UIPayload_Question p ?i \<noteq> None" "map_of m ?i = None" "byQuestion p ((?i, a) # m) given = Inr m'"
    using "2.prems"(1) by (auto simp: Let_def split: if_split_asm)
  have k: "?i \<notin> set (map fst m)" "?i \<in> set (map uq_ID (py_Questions p))"
    using c(2,3) find_key_None [of uq_ID ?i "py_Questions p"] by (auto simp: map_of_eq_None_iff UIPayload_Question_def)
  have "set (map snd m') = set (map snd ((?i, a) # m)) \<union> set given \<and> distinct (map fst m') \<and>
      set (map fst m') \<subseteq> set (map uq_ID (py_Questions p))"
    using "2.IH" [OF refl c(1,2) _ c(4)] c(3) k "2.prems"(2,3) by simp
  then show ?case by simp
qed auto

text \<open>Each answer read back is of an answer given, and every answer given is read back.\<close>

lemma submitted_from:
  assumes "submittedResult p given = Inr result" and d: "distinct (map uq_ID (py_Questions p))"
  obtains uas m where "AnswersFromResult result = uas" "list_all2 answersQuestion (py_Questions p) uas"
    "list_all2 (\<lambda>q ua. \<exists>a. map_of m (uq_ID q) = Some a \<and> ua_Skipped ua = qa_Skipped a) (py_Questions p) uas"
    "set (map snd m) = set given" "distinct (map fst m)" "set (map fst m) \<subseteq> set (map uq_ID (py_Questions p))"
proof -
  obtain m entries where b: "byQuestion p [] given = Inr m" and e: "mapE (\<lambda>_. questionEntry m) 0 (py_Questions p) = Inr entries"
    and r: "result = JObject [(''status'', JString StatusSubmitted), (''answers'', JArray entries), (''instruction'', JString submitInstruction)]"
    using assms by (auto simp: submittedResult_def bindE_Inr split: if_split_asm)
  have "list_all2 (\<lambda>q entry. \<exists>ua. readUIAnswer entry = Some ua \<and> answersQuestion q ua \<and>
      (\<exists>a. map_of m (uq_ID q) = Some a \<and> ua_Skipped ua = qa_Skipped a)) (py_Questions p) entries"
    using e
  proof (rule mapE_all2)
    fix j q entry
    assume "questionEntry m q = Inr entry"
    then obtain a where a: "map_of m (uq_ID q) = Some a" "answerEntry q a = Inr entry"
      by (auto simp: questionEntry_def split: option.split_asm)
    obtain ua where "readUIAnswer entry = Some ua" "answersQuestion q ua" using answerEntry_read [OF a(2)] by blast
    then show "\<exists>ua. readUIAnswer entry = Some ua \<and> answersQuestion q ua \<and>
        (\<exists>a. map_of m (uq_ID q) = Some a \<and> ua_Skipped ua = qa_Skipped a)"
      using a answerEntry_skipped [OF a(2)] by blast
  qed
  then have "\<exists>uas. those (map readUIAnswer entries) = Some uas \<and> list_all2 answersQuestion (py_Questions p) uas \<and>
      list_all2 (\<lambda>q ua. \<exists>a. map_of m (uq_ID q) = Some a \<and> ua_Skipped ua = qa_Skipped a) (py_Questions p) uas"
    by (induction rule: list_all2_induct) auto
  then obtain uas where u: "those (map readUIAnswer entries) = Some uas" "list_all2 answersQuestion (py_Questions p) uas"
    "list_all2 (\<lambda>q ua. \<exists>a. map_of m (uq_ID q) = Some a \<and> ua_Skipped ua = qa_Skipped a) (py_Questions p) uas"
    by blast
  have "set (map snd m) = set given \<and> distinct (map fst m) \<and> set (map fst m) \<subseteq> set (map uq_ID (py_Questions p))"
    using byQuestion_given [OF b] by simp
  then show thesis
    using u that [of uas m] by (simp add: r AnswersFromResult_def payloadObject_def AnswersFromStored_def)
qed

lemma skips_given:
  assumes l: "list_all2 (\<lambda>q ua. \<exists>a. map_of m (uq_ID q) = Some a \<and> ua_Skipped ua = qa_Skipped a) qs uas"
    and m: "distinct (map fst m)" "set (map fst m) \<subseteq> set (map uq_ID qs)" "set (map snd m) = set given"
  shows "list_ex ua_Skipped uas \<longleftrightarrow> list_ex qa_Skipped given"
proof
  assume "list_ex ua_Skipped uas"
  then obtain k where k: "k < length uas" "ua_Skipped (uas ! k)" by (auto simp: list_ex_iff in_set_conv_nth)
  then obtain a where a: "map_of m (uq_ID (qs ! k)) = Some a" "qa_Skipped a" using l by (auto simp: list_all2_conv_all_nth)
  have "a \<in> set (map snd m)" using map_of_SomeD [OF a(1)] by force
  then show "list_ex qa_Skipped given" using a(2) m(3) unfolding list_ex_iff by blast
next
  assume "list_ex qa_Skipped given"
  then obtain a where a: "a \<in> set (map snd m)" "qa_Skipped a" using m(3) by (auto simp: list_ex_iff simp del: set_map)
  then obtain i where i: "(i, a) \<in> set m" by auto
  then have "i \<in> set (map uq_ID qs)" using m(2) by force
  then obtain k where k: "k < length qs" "uq_ID (qs ! k) = i" by (auto simp: in_set_conv_nth)
  have "map_of m i = Some a" using m(1) i by (rule map_of_is_SomeI)
  then have "ua_Skipped (uas ! k)" using l k a(2) by (auto simp: list_all2_conv_all_nth)
  moreover have "uas ! k \<in> set uas" using l k(1) by (auto simp: list_all2_conv_all_nth)
  ultimately show "list_ex ua_Skipped uas" unfolding list_ex_iff by blast
qed

lemma choice_some:
  assumes parsed: "requestPayload source False (ChoiceQuestionsInput questions) = Inr p" and submitted: "submittedResult p given = Inr result"
  shows "(\<exists>texts. ChoiceAnswers result (length questions) = Some texts) \<longleftrightarrow> \<not> list_ex qa_Skipped given"
proof -
  note d = wf_ids [OF requestPayload_wf [OF parsed]]
  obtain uas m where u: "AnswersFromResult result = uas" and l: "list_all2 answersQuestion (py_Questions p) uas"
    and s: "list_all2 (\<lambda>q ua. \<exists>a. map_of m (uq_ID q) = Some a \<and> ua_Skipped ua = qa_Skipped a) (py_Questions p) uas"
    and m: "set (map snd m) = set given" "distinct (map fst m)" "set (map fst m) \<subseteq> set (map uq_ID (py_Questions p))"
    using submitted_from [OF submitted d] by blast
  have ids: "uq_ID (py_Questions p ! k) = questionID k" if "k < length questions" for k
    using parsed_ids [OF parsed [unfolded ChoiceQuestionsInput_def]] that by simp_all
  have len: "length (py_Questions p) = length questions" using parsed_ids(1) [OF parsed [unfolded ChoiceQuestionsInput_def]] by simp
  let ?byID = "\<lambda>i. map_of (rev (map (\<lambda>a. (ua_QuestionID a, a)) uas)) i"
  have one: "choiceAnswer (?byID (questionID k)) \<noteq> None \<longleftrightarrow> \<not> ua_Skipped (uas ! k)" if "k < length questions" for k
    using answered_by_id [OF l d, of k] choiceAnswer_some [of "py_Questions p ! k" "uas ! k"] l that len ids [OF that]
    by (auto simp: list_all2_conv_all_nth simp del: not_None_eq)
  have "(\<exists>texts. ChoiceAnswers result (length questions) = Some texts) \<longleftrightarrow> (\<forall>k<length questions. \<not> ua_Skipped (uas ! k))"
    using one by (simp add: ChoiceAnswers_def u those_all Let_def del: not_None_eq) auto
  also have "... \<longleftrightarrow> \<not> list_ex ua_Skipped uas"
    using list_all2_lengthD [OF l] len by (simp add: list_ex_iff all_set_conv_all_nth)
  also have "... \<longleftrightarrow> \<not> list_ex qa_Skipped given" using skips_given [OF s m(2,3,1)] by simp
  finally show ?thesis .
qed

end
