(* ===== verification/AskProps.thy ===== *)
theory AskProps
  imports AskChoice
begin

text \<open>The properties of requests for user input, each with its witness.\<close>

section \<open>A request and its answers\<close>

definition demoOption :: "string \<Rightarrow> json" where
  "demoOption l = JObject [(''label'', JString l)]"

definition demoRequest :: json where
  "demoRequest = JObject [(''questions'', JArray
     [JObject [(''text'', JString '' Pick ''), (''kind'', JString ''multi_select''),
        (''options'', JArray [demoOption ''red'', demoOption ''blue''])],
      JObject [(''text'', JString ''Name''), (''kind'', JString ''text''), (''required'', JBool True)]])]"

definition demoPayload :: UIPayload where
  "demoPayload = \<lparr>py_Version = 2, py_Questions =
     [\<lparr>uq_ID = ''q1'', uq_Text = ''Pick'', uq_Kind = ''multi_select'',
       uq_Options = [\<lparr>qo_LabelKey = '''', qo_ID = ''q1.o1'', qo_Label = ''red'', qo_Description = ''''\<rparr>,
                     \<lparr>qo_LabelKey = '''', qo_ID = ''q1.o2'', qo_Label = ''blue'', qo_Description = ''''\<rparr>],
       uq_AllowCustom = True, uq_CustomExclusive = False, uq_Required = None, uq_Placeholder = ''''\<rparr>,
      \<lparr>uq_ID = ''q2'', uq_Text = ''Name'', uq_Kind = ''text'', uq_Options = [], uq_AllowCustom = False,
       uq_CustomExclusive = False, uq_Required = Some True, uq_Placeholder = ''''\<rparr>]\<rparr>"

lemma demo_parsed: "requestPayload None False demoRequest = Inr demoPayload"
  by code_simp

text \<open>
  C33 (ask_payload_typed): The payload of an accepted request, from a tool call of any source or
  from the trusted constructor, is well formed: one to four questions of a known kind with trimmed texts and
  pairwise distinct, trimmed and non-empty ids; a choice has two to twenty labelled options with distinct ids;
  free text has none and takes no custom answer; only a question with custom answers makes them exclusive.
\<close>

theorem ask_payload_typed:
  assumes "requestPayload source trusted input = Inr p"
  shows "wfPayload p"
  using assms by (rule requestPayload_wf)

lemma ask_payload_typed_witness: "wfPayload demoPayload"
  by (rule ask_payload_typed [OF demo_parsed])

text \<open>
  C32 (stored_roundtrip): Storing the payload of an accepted request and loading the stored value gives the payload back,
  label keys, tri-state requirements and placeholders included; the reader's upgrade of older rows never touches it.
\<close>

theorem stored_roundtrip:
  assumes "requestPayload source trusted input = Inr p"
  shows "loadedPayload Sprint source (storedPayload p) = p"
proof -
  obtain p0 where "p = enableConversationalAnswers source p0" using assms by (auto simp: requestPayload_def bindE_Inr)
  then show ?thesis using stored_payload [OF requestPayload_wf [OF assms]] by (simp add: loadedPayload_def)
qed

lemma stored_roundtrip_witness: "loadedPayload (\<lambda>_. ''?'') None (storedPayload demoPayload) = demoPayload"
  by (rule stored_roundtrip [OF demo_parsed])

section \<open>Replies and buttons\<close>

text \<open>
  C6 (completed_submits): However the user answers an accepted request, by any mix of plain-text replies in any
  display language, back and skip commands, option buttons, free text and navigation, in any order: once the
  stored interaction is completed, its submission is accepted, with one entry for every question.
\<close>

theorem completed_submits:
  assumes "requestPayload source trusted input = Inr p" and "askReachable eqFold p s" and "ti_Completed s"
  shows "\<exists>entries. submittedResult p (ti_Answers s) =
    Inr (JObject [(''status'', JString StatusSubmitted), (''answers'', JArray entries), (''instruction'', JString submitInstruction)]) \<and>
    length entries = length (py_Questions p)"
proof -
  have "wfPayload p" using assms(1) by (rule requestPayload_wf)
  then show ?thesis using askReachable_inv [OF assms(2)] assms(3) by (intro submitted_ok)
qed

definition demoSetText :: InteractionOp where
  "demoSetText = \<lparr>op_Kind = OpSetText, op_QuestionIndex = 0, op_OptionIndex = 0, op_Page = 0, op_QuestionID = ''q2'', op_Text = ''Ann''\<rparr>"

definition demoDone :: TextInteractionState where
  "demoDone = storeOp demoPayload (storeText EqualFold (\<lambda>k. k) demoPayload newInteraction ''red, 2'') demoSetText"

lemma demo_done:
  "demoDone = \<lparr>ti_QuestionIndex = 1, ti_Answers =
     [(blankAnswer ''q1'')\<lparr>qa_OptionIDs := [''q1.o1'', ''q1.o2'']\<rparr>, (blankAnswer ''q2'')\<lparr>qa_Text := ''Ann''\<rparr>], ti_Completed = True\<rparr>"
  by code_simp

lemma demo_reachable: "askReachable EqualFold demoPayload demoDone"
  unfolding demoDone_def
  by (rule askReachable.move [OF askReachable.move [OF askReachable.start askStep.reply] askStep.button])
    (simp add: offered_def demoSetText_def OpSetText_def OpToggleOption_def)

lemma completed_submits_witness:
  "\<exists>entries. submittedResult demoPayload (ti_Answers demoDone) =
    Inr (JObject [(''status'', JString StatusSubmitted), (''answers'', JArray entries), (''instruction'', JString submitInstruction)]) \<and>
    length entries = length (py_Questions demoPayload)"
  using completed_submits [OF demo_parsed demo_reachable] by (simp add: demo_done)

text \<open>
  C34 (turns_complete): A user who answers every question of a well-formed payload in turn, each with a reply its question
  accepts, completes the request, with exactly those answers.
\<close>

theorem turns_complete:
  assumes "wfPayload p" and "turnAnswers eqFold (py_Questions (Localized T p)) replies = Some given"
  shows "foldl (storeText eqFold T p) newInteraction replies =
    \<lparr>ti_QuestionIndex = questionCount p - 1, ti_Answers = given, ti_Completed = True\<rparr>"
  using assms by (rule turns_all)

lemma turns_complete_witness:
  "foldl (storeText EqualFold (\<lambda>k. k) demoPayload) newInteraction [''red, BLUE'', ''Ann''] =
    \<lparr>ti_QuestionIndex = questionCount demoPayload - 1,
     ti_Answers = [(blankAnswer ''q1'')\<lparr>qa_OptionIDs := [''q1.o1'', ''q1.o2'']\<rparr>, (blankAnswer ''q2'')\<lparr>qa_Text := ''Ann''\<rparr>],
     ti_Completed = True\<rparr>"
proof (rule turns_complete)
  show "wfPayload demoPayload" using demo_parsed by (rule requestPayload_wf)
  show "turnAnswers EqualFold (py_Questions (Localized (\<lambda>k. k) demoPayload)) [''red, BLUE'', ''Ann''] =
      Some [(blankAnswer ''q1'')\<lparr>qa_OptionIDs := [''q1.o1'', ''q1.o2'']\<rparr>, (blankAnswer ''q2'')\<lparr>qa_Text := ''Ann''\<rparr>]"
    by code_simp
qed

section \<open>Forms of external agents\<close>

text \<open>
  C7 (form_content_conforms): When a schema becomes a form of an external agent, every submission its request accepts gives content, never an
  error, and the content conforms to the schema: its members are properties of the schema, of the property's
  type, within its \<open>enum\<close>, exactly one of its \<open>oneOf\<close> or \<open>anyOf\<close> constants, and every required property is there.
\<close>

theorem form_content_conforms:
  assumes "ElicitationFormInput message schema exts = Inr (input, mapping)" and src: "src \<in> set externalSources"
    and "requestPayload (Some (JString src)) False input = Inr p" and "submittedResult p given = Inr result"
  shows "\<exists>content. Content mapping result = Inr content \<and> conformsTo schema content"
  using assms(1) assms(3) [unfolded requestPayload_external [OF src]] assms(4) by (rule form_content)

definition demoSchema :: jobject where
  "demoSchema =
     [(''type'', JString ''object''), (''required'', JArray [JString ''size'']),
      (''properties'', JObject
        [(''size'', JObject [(''type'', JString ''string''), (''enum'', JArray [JString ''s'', JString ''m''])]),
         (''note'', JObject [(''type'', JString ''string'')])])]"

definition demoMapping :: "elicitationField list" where
  "demoMapping =
     [\<lparr>ef_propertyID = ''note'', ef_customPropertyID = '''', ef_questionID = ''q1'', ef_kind = ''text'', ef_optionValues = [],
       ef_required = False, ef_customExclusive = False\<rparr>,
      \<lparr>ef_propertyID = ''size'', ef_customPropertyID = '''', ef_questionID = ''q2'', ef_kind = ''single_select'',
       ef_optionValues = [(''q2.o1'', ''s''), (''q2.o2'', ''m'')], ef_required = True, ef_customExclusive = False\<rparr>]"

definition demoFormInput :: json where
  "demoFormInput = JObject [(''questions'', JArray
     [JObject [(''text'', JString ''note''), (''required'', JBool False), (''kind'', JString ''text'')],
      JObject [(''text'', JString ''size''), (''required'', JBool True), (''kind'', JString ''single_select''),
        (''options'', JArray [demoOption ''s'', demoOption ''m''])]])]"

lemma demo_form: "ElicitationFormInput ''Order'' demoSchema [CodexFormMarkers] = Inr (demoFormInput, demoMapping)"
  by code_simp

definition demoFormPayload :: UIPayload where
  "demoFormPayload = (case requestPayload (Some (JString ''acp_elicitation'')) False demoFormInput of Inr p \<Rightarrow> p | Inl _ \<Rightarrow> demoPayload)"

definition demoFormResult :: json where
  "demoFormResult =
     (case submittedResult demoFormPayload [skipAnswer ''q1'', (blankAnswer ''q2'')\<lparr>qa_OptionIDs := [''q2.o2'']\<rparr>] of
        Inr r \<Rightarrow> r | Inl _ \<Rightarrow> JNull)"

lemma form_content_conforms_witness:
  "\<exists>content. Content demoMapping demoFormResult = Inr content \<and> conformsTo demoSchema content"
proof (rule form_content_conforms [OF demo_form])
  show "''acp_elicitation'' \<in> set externalSources" by code_simp
  show "requestPayload (Some (JString ''acp_elicitation'')) False demoFormInput = Inr demoFormPayload" by code_simp
  show "submittedResult demoFormPayload [skipAnswer ''q1'', (blankAnswer ''q2'')\<lparr>qa_OptionIDs := [''q2.o2'']\<rparr>] = Inr demoFormResult"
    by code_simp
qed

text \<open>
  The answers to an agent's own questions can be read from a submitted result exactly when the user
  skipped none of them.
\<close>

theorem choice_answers:
  assumes "requestPayload source False (ChoiceQuestionsInput questions) = Inr p" and "submittedResult p given = Inr result"
  shows "(\<exists>texts. ChoiceAnswers result (length questions) = Some texts) \<longleftrightarrow> \<not> list_ex qa_Skipped given"
  using assms by (rule choice_some)

definition demoChoice :: ChoiceQuestion where
  "demoChoice = \<lparr>cq_Text = ''Go on?'', cq_Options = [\<lparr>co_Label = ''yes'', co_Description = ''''\<rparr>, \<lparr>co_Label = ''no'', co_Description = ''''\<rparr>],
    cq_MultiSelect = False\<rparr>"

definition demoChoicePayload :: UIPayload where
  "demoChoicePayload = (case requestPayload (Some (JString ''claude_request_user_input'')) False (ChoiceQuestionsInput [demoChoice]) of Inr p \<Rightarrow> p | Inl _ \<Rightarrow> demoPayload)"

definition demoChoiceResult :: json where
  "demoChoiceResult =
     (case submittedResult demoChoicePayload [(blankAnswer ''q1'')\<lparr>qa_CustomText := ''later''\<rparr>] of Inr r \<Rightarrow> r | Inl _ \<Rightarrow> JNull)"

lemma choice_answers_witness: "\<exists>texts. ChoiceAnswers demoChoiceResult 1 = Some texts"
proof -
  have p: "requestPayload (Some (JString ''claude_request_user_input'')) False (ChoiceQuestionsInput [demoChoice]) = Inr demoChoicePayload" by code_simp
  have r: "submittedResult demoChoicePayload [(blankAnswer ''q1'')\<lparr>qa_CustomText := ''later''\<rparr>] = Inr demoChoiceResult" by code_simp
  show ?thesis using choice_answers [OF p r] by simp
qed

end
