(* ===== verification/FragTypes.thy ===== *)
theory FragTypes
  imports FoldTypes
begin

text \<open>
  Context fragments, the parts a prompt is assembled from before it becomes a provider
  request: \<^verbatim>\<open>internal/agent/context/fragment\<close> (\<^verbatim>\<open>types.go\<close>, \<^verbatim>\<open>precedence.go\<close>, \<^verbatim>\<open>tokens.go\<close>,
  \<^verbatim>\<open>hash.go\<close>, \<open>WithContextRef\<close> of \<^verbatim>\<open>contract.go\<close>, the constructors of \<^verbatim>\<open>compile.go\<close>). The
  kinds, slots and levels are the strings of the source, so values outside the lists occur.
\<close>

section \<open>Names\<close>

definition KindConversationEvent :: string where "KindConversationEvent = ''conversation_event''"
definition KindCurrentUserMessage :: string where "KindCurrentUserMessage = ''current_user_message''"
definition KindConversationSummary :: string where "KindConversationSummary = ''conversation_summary''"
definition KindSystemPolicy :: string where "KindSystemPolicy = ''system_policy''"

definition SlotSystem :: string where "SlotSystem = ''system''"
definition SlotHistory :: string where "SlotHistory = ''history''"
definition SlotCurrentUser :: string where "SlotCurrentUser = ''current_user''"

definition CacheDynamic :: string where "CacheDynamic = ''dynamic''"
definition CacheNever :: string where "CacheNever = ''never''"

definition TrustSystem :: string where "TrustSystem = ''system''"
definition TrustWorkspace :: string where "TrustWorkspace = ''workspace''"
definition TrustUser :: string where "TrustUser = ''user''"
definition TrustExternal :: string where "TrustExternal = ''external''"

definition OverflowKeep :: string where "OverflowKeep = ''keep''"
definition OverflowTrim :: string where "OverflowTrim = ''trim''"
definition OverflowSummarize :: string where "OverflowSummarize = ''summarize''"
definition OverflowDrop :: string where "OverflowDrop = ''drop''"

definition RetentionRequired :: string where "RetentionRequired = ''required''"
definition RetentionPreferred :: string where "RetentionPreferred = ''preferred''"
definition RetentionOptional :: string where "RetentionOptional = ''optional''"

definition AttentionPassive :: string where "AttentionPassive = ''passive''"

definition RenderMarkdown :: string where "RenderMarkdown = ''markdown''"
definition RenderSDKMessage :: string where "RenderSDKMessage = ''sdk_message''"

definition PartText :: string where "PartText = ''text''"
definition PartSDKMessage :: string where "PartSDKMessage = ''sdk_message''"
definition PartImage :: string where "PartImage = ''image''"

definition HashAlgoSHA256 :: string where "HashAlgoSHA256 = ''sha256''"
definition HashScopeCanonicalFragment :: string where "HashScopeCanonicalFragment = ''canonical_fragment''"
definition HashScopeSourcePayload :: string where "HashScopeSourcePayload = ''source_payload''"
definition SchemaContextRef :: string where "SchemaContextRef = ''context_ref''"

definition RefDurable :: string where "RefDurable = ''durable''"
definition RefSynthetic :: string where "RefSynthetic = ''synthetic''"
definition RefDebug :: string where "RefDebug = ''debug''"

definition IntentRunConfigPreProvider :: string where "IntentRunConfigPreProvider = ''run_config_pre_provider''"
definition IntentDiscussReply :: string where "IntentDiscussReply = ''discuss_reply''"
definition IntentExternalAgentPrompt :: string where "IntentExternalAgentPrompt = ''external_agent_prompt''"

definition EditReplace :: string where "EditReplace = ''replace''"

datatype SelectError = ErrProtectedContextOverflow | ErrBudgetUnsatisfied

lemmas slot_names = SlotSystem_def SlotHistory_def SlotCurrentUser_def
lemmas trust_names = TrustSystem_def TrustWorkspace_def TrustUser_def TrustExternal_def

section \<open>The fragment\<close>

record ContentRange =
  xg_Start :: int
  xg_End :: int

record ContextRef =
  xr_Namespace :: string
  xr_ID :: string
  xr_Version :: int
  xr_Range :: "ContentRange option"
  xr_HashAlgo :: string
  xr_ContentHash :: string
  xr_HashScope :: string
  xr_Schema :: string
  xr_Durability :: string

record FragmentHash =
  fh_Algo :: string
  fh_Scope :: string
  fh_Value :: string

record BudgetPolicy =
  bp_MaxTokens :: int
  bp_MaxChars :: int
  bp_Overflow :: string

record RenderPolicy =
  xp_Format :: string
  xp_Anchor :: string
  xp_GroupID :: string
  xp_GroupJoiner :: string

record Provenance =
  xv_Source :: string
  xv_SourceID :: string
  xv_Collector :: string
  xv_Index :: int

record FragScope =
  xs_BotID :: string
  xs_ChatID :: string
  xs_SessionID :: string
  xs_ChannelIdentityID :: string
  xs_DisplayName :: string
  xs_Platform :: string
  xs_ConversationType :: string
  xs_ConversationName :: string
  xs_ReplyTarget :: string
  xs_CurrentMessageID :: string
  xs_EventID :: string
  xs_ReplyToMessageID :: string
  xs_ReplySender :: string
  xs_MentionsBot :: bool
  xs_RepliesToBot :: bool
  xs_ForwardMessageID :: string
  xs_ForwardFromUserID :: string
  xs_ForwardFromConversationID :: string
  xs_Attention :: "string list"
  xs_Metadata :: "(string, string) gomap"

record ImageRef =
  xi_MediaType :: string
  xi_Source :: string

text \<open>A part; a pointer to an SDK message or image is an option.\<close>

record Part =
  pt_Type :: string
  pt_Text :: string
  pt_Image :: ImageRef
  pt_Message :: "SdkMessage option"
  pt_ImagePart :: "bytes option"
  pt_SDKMessage :: "SdkMessage option"
  pt_SDKImage :: "bytes option"

record ContextFrag =
  xf_ID :: string
  xf_Ref :: ContextRef
  xf_Kind :: string
  xf_Role :: string
  xf_Slot :: string
  xf_Priority :: int
  xf_RetentionTier :: string
  xf_DropPriority :: int
  xf_RequiredCapability :: string
  xf_CacheClass :: string
  xf_Trust :: string
  xf_Scope :: FragScope
  xf_Budget :: BudgetPolicy
  xf_Render :: RenderPolicy
  xf_Provenance :: Provenance
  xf_TokenEstimate :: int
  xf_ConflictKey :: string
  xf_Parts :: "Part list"

definition zeroRef :: ContextRef where
  "zeroRef = \<lparr>xr_Namespace = '''', xr_ID = '''', xr_Version = 0, xr_Range = None, xr_HashAlgo = '''',
     xr_ContentHash = '''', xr_HashScope = '''', xr_Schema = '''', xr_Durability = ''''\<rparr>"

definition zeroRender :: RenderPolicy where
  "zeroRender = \<lparr>xp_Format = '''', xp_Anchor = '''', xp_GroupID = '''', xp_GroupJoiner = ''''\<rparr>"

definition zeroBudget :: BudgetPolicy where
  "zeroBudget = \<lparr>bp_MaxTokens = 0, bp_MaxChars = 0, bp_Overflow = ''''\<rparr>"

definition zeroScope :: FragScope where
  "zeroScope = \<lparr>xs_BotID = '''', xs_ChatID = '''', xs_SessionID = '''', xs_ChannelIdentityID = '''',
     xs_DisplayName = '''', xs_Platform = '''', xs_ConversationType = '''', xs_ConversationName = '''',
     xs_ReplyTarget = '''', xs_CurrentMessageID = '''', xs_EventID = '''', xs_ReplyToMessageID = '''',
     xs_ReplySender = '''', xs_MentionsBot = False, xs_RepliesToBot = False, xs_ForwardMessageID = '''',
     xs_ForwardFromUserID = '''', xs_ForwardFromConversationID = '''', xs_Attention = [], xs_Metadata = []\<rparr>"

definition zeroPart :: Part where
  "zeroPart = \<lparr>pt_Type = '''', pt_Text = '''', pt_Image = \<lparr>xi_MediaType = '''', xi_Source = ''''\<rparr>, pt_Message = None,
     pt_ImagePart = None, pt_SDKMessage = None, pt_SDKImage = None\<rparr>"

section \<open>Precedence\<close>

definition TrustRank :: "string \<Rightarrow> nat" where
  "TrustRank trust =
     (if trust = TrustSystem then 3 else if trust = TrustWorkspace then 2 else if trust = TrustUser then 1 else 0)"

definition SpecificityRank :: "FragScope \<Rightarrow> nat" where
  "SpecificityRank s =
     (if xs_BotID s \<noteq> '''' then 1 else 0) + (if xs_ChatID s \<noteq> '''' then 2 else 0) + (if xs_SessionID s \<noteq> '''' then 4 else 0)"

section \<open>Parts and their messages\<close>

definition partMessage :: "Part \<Rightarrow> SdkMessage option" where
  "partMessage p = (case pt_SDKMessage p of Some m \<Rightarrow> Some m | None \<Rightarrow> pt_Message p)"

definition partSDKImage :: "Part \<Rightarrow> bytes option" where
  "partSDKImage p = (case pt_SDKImage p of Some m \<Rightarrow> Some m | None \<Rightarrow> pt_ImagePart p)"

text \<open>The first message among the parts.\<close>

fun firstMessage :: "Part list \<Rightarrow> SdkMessage option" where
  "firstMessage [] = None"
| "firstMessage (p # ps) = (case partMessage p of Some m \<Rightarrow> Some m | None \<Rightarrow> firstMessage ps)"

definition FragMessage :: "ContextFrag \<Rightarrow> SdkMessage option" where
  "FragMessage frag = firstMessage (xf_Parts frag)"

section \<open>What lies outside the repository\<close>

text \<open>
  The model SDK's roles and encodings, SHA-256, and the encodings of \<^verbatim>\<open>encoding/json\<close> that
  only feed a hash or a name: the part's encoding (its length is \<open>sdk_marshalPart\<close>) and the
  \<open>toolName\<close> member that decoding it again gives.
\<close>

record canonicalPart =
  kp_Type :: string
  kp_Text :: string
  kp_Image :: ImageRef
  kp_Message :: "bytes option"
  kp_ImagePart :: "bytes option"

record canonicalFragment =
  kf_Kind :: string
  kf_Role :: string
  kf_Slot :: string
  kf_Priority :: int
  kf_RetentionTier :: string
  kf_DropPriority :: int
  kf_RequiredCapability :: string
  kf_CacheClass :: string
  kf_Trust :: string
  kf_Scope :: FragScope
  kf_Budget :: BudgetPolicy
  kf_Render :: RenderPolicy
  kf_Source :: string
  kf_SourceID :: string
  kf_Collector :: string
  kf_Parts :: "canonicalPart list"

record FragEnv =
  ne_sdk :: Sdk
  ne_RoleSystem :: string
  ne_RoleUser :: string
  ne_RoleAssistant :: string
  ne_marshalMessage :: "SdkMessage \<Rightarrow> bytes option"
  ne_marshalImage :: "bytes \<Rightarrow> bytes option"
  ne_marshalPart :: "MessagePart \<Rightarrow> bytes option"
  ne_marshalFragment :: "canonicalFragment \<Rightarrow> bytes option"
  ne_Sum256 :: "bytes \<Rightarrow> bytes"
  ne_partToolName :: "MessagePart \<Rightarrow> string option"

abbreviation ne_RoleTool :: "FragEnv \<Rightarrow> string" where
  "ne_RoleTool env \<equiv> sdk_RoleTool (ne_sdk env)"

section \<open>Prices\<close>

text \<open>\<open>fragEstimate\<close>: the bytes and the images of the parts.\<close>

definition fragPartEstimate :: "FragEnv \<Rightarrow> Part \<Rightarrow> int \<times> int" where
  "fragPartEstimate env p =
     (if pt_Type p = PartText then (int (length (pt_Text p)), 0)
      else if pt_Type p = PartSDKMessage
      then (case partMessage p of None \<Rightarrow> (0, 0) | Some msg \<Rightarrow> sdkMessageEstimate (ne_sdk env) msg)
      else if pt_Type p = PartImage then (0, 1)
      else (0, 0))"

definition fragEstimate :: "FragEnv \<Rightarrow> ContextFrag \<Rightarrow> int \<times> int" where
  "fragEstimate env frag =
     (sum_list (map (fst \<circ> fragPartEstimate env) (xf_Parts frag)), sum_list (map (snd \<circ> fragPartEstimate env) (xf_Parts frag)))"

definition EstimateFragTokens :: "FragEnv \<Rightarrow> ContextFrag \<Rightarrow> int" where
  "EstimateFragTokens env frag =
     (case fragEstimate env frag of (n, images) \<Rightarrow> TokensFromBytes n + images * EstimateImageTokens)"

definition ResolveFragTokens :: "FragEnv \<Rightarrow> ContextFrag \<Rightarrow> int" where
  "ResolveFragTokens env frag =
     (if xf_TokenEstimate frag > 0 then xf_TokenEstimate frag else EstimateFragTokens env frag)"

definition ResolveProviderBudgetFragTokens :: "FragEnv \<Rightarrow> ContextFrag \<Rightarrow> int" where
  "ResolveProviderBudgetFragTokens env frag =
     (case fragEstimate env frag of (n, images) \<Rightarrow>
        let estimated = ProviderBudgetTokensFromBytes n + images * EstimateImageTokens
        in if xf_TokenEstimate frag > estimated then xf_TokenEstimate frag else estimated)"

section \<open>References\<close>

definition hexEncode :: "bytes \<Rightarrow> string" where
  "hexEncode s = concat (map (\<lambda>c. [hexDigit (byteVal c div 16), hexDigit (byteVal c mod 16)]) s)"

text \<open>An encoding that fails is an error of \<open>canonicalParts\<close>, here \<open>None\<close>.\<close>

definition canonicalPartOf :: "FragEnv \<Rightarrow> Part \<Rightarrow> canonicalPart option" where
  "canonicalPartOf env p =
     (let base = \<lparr>kp_Type = pt_Type p, kp_Text = pt_Text p, kp_Image = pt_Image p, kp_Message = None, kp_ImagePart = None\<rparr>;
          withMessage = (case partMessage p of
             None \<Rightarrow> Some base
           | Some msg \<Rightarrow> map_option (\<lambda>raw. base\<lparr>kp_Message := Some raw\<rparr>) (ne_marshalMessage env msg))
      in case withMessage of
           None \<Rightarrow> None
         | Some next1 \<Rightarrow>
             (case partSDKImage p of
                None \<Rightarrow> Some next1
              | Some img \<Rightarrow> map_option (\<lambda>raw. next1\<lparr>kp_ImagePart := Some raw\<rparr>) (ne_marshalImage env img)))"

definition canonicalParts :: "FragEnv \<Rightarrow> Part list \<Rightarrow> canonicalPart list option" where
  "canonicalParts env parts = those (map (canonicalPartOf env) parts)"

definition canonicalOf :: "ContextFrag \<Rightarrow> canonicalPart list \<Rightarrow> canonicalFragment" where
  "canonicalOf frag parts =
     \<lparr>kf_Kind = xf_Kind frag, kf_Role = xf_Role frag, kf_Slot = xf_Slot frag, kf_Priority = xf_Priority frag,
      kf_RetentionTier = xf_RetentionTier frag, kf_DropPriority = xf_DropPriority frag,
      kf_RequiredCapability = xf_RequiredCapability frag, kf_CacheClass = xf_CacheClass frag,
      kf_Trust = xf_Trust frag, kf_Scope = xf_Scope frag, kf_Budget = xf_Budget frag, kf_Render = xf_Render frag,
      kf_Source = xv_Source (xf_Provenance frag), kf_SourceID = xv_SourceID (xf_Provenance frag),
      kf_Collector = xv_Collector (xf_Provenance frag), kf_Parts = parts\<rparr>"

definition CanonicalFragmentHash :: "FragEnv \<Rightarrow> ContextFrag \<Rightarrow> FragmentHash option" where
  "CanonicalFragmentHash env frag =
     (case canonicalParts env (xf_Parts frag) of
        None \<Rightarrow> None
      | Some parts \<Rightarrow>
          (case ne_marshalFragment env (canonicalOf frag parts) of
             None \<Rightarrow> None
           | Some raw \<Rightarrow> Some \<lparr>fh_Algo = HashAlgoSHA256, fh_Scope = HashScopeCanonicalFragment,
                                fh_Value = hexEncode (ne_Sum256 env raw)\<rparr>))"

fun fragFirstNonEmpty :: "string list \<Rightarrow> string" where
  "fragFirstNonEmpty [] = ''''"
| "fragFirstNonEmpty (v # vs) = (if TrimSpace v \<noteq> '''' then TrimSpace v else fragFirstNonEmpty vs)"

definition hasPreservedSourcePayloadHash :: "ContextRef \<Rightarrow> bool" where
  "hasPreservedSourcePayloadHash ref \<longleftrightarrow>
     TrimSpace (xr_ContentHash ref) \<noteq> '''' \<and> TrimSpace (xr_HashAlgo ref) = HashAlgoSHA256 \<and>
     TrimSpace (xr_HashScope ref) = HashScopeSourcePayload"

text \<open>The reference \<open>WithContextRef\<close> computes, and the fragment with it.\<close>

definition contextRefOf :: "FragEnv \<Rightarrow> ContextFrag \<Rightarrow> ContextRef \<Rightarrow> ContextRef" where
  "contextRefOf env frag ref =
     (let hash = (case CanonicalFragmentHash env frag of Some h \<Rightarrow> if fh_Value h \<noteq> '''' then Some h else None | None \<Rightarrow> None);
          hasExplicitID = TrimSpace (xr_ID ref) \<noteq> '''';
          hasSourceID = TrimSpace (xv_SourceID (xf_Provenance frag)) \<noteq> '''';
          ref1 = ref\<lparr>xr_Namespace := fragFirstNonEmpty [xr_Namespace ref, xv_Source (xf_Provenance frag), ''context_frag'']\<rparr>;
          ref2 = ref1\<lparr>xr_ID :=
             (if hasExplicitID then TrimSpace (xr_ID ref)
              else if hasSourceID then TrimSpace (xv_SourceID (xf_Provenance frag))
              else (case hash of Some h \<Rightarrow> fh_Value h | None \<Rightarrow> TrimSpace (xf_ID frag)))\<rparr>;
          ref3 = ref2\<lparr>xr_Schema := fragFirstNonEmpty [xr_Schema ref, SchemaContextRef]\<rparr>;
          ref4 = (if xr_Durability ref3 \<noteq> '''' then ref3
                  else ref3\<lparr>xr_Durability :=
                    (if hasExplicitID \<or> hasSourceID then RefDurable
                     else (case hash of Some _ \<Rightarrow> RefSynthetic | None \<Rightarrow> RefDebug))\<rparr>)
      in case CanonicalFragmentHash env frag of
           Some h \<Rightarrow> if hasPreservedSourcePayloadHash ref4 then ref4
                     else ref4\<lparr>xr_HashAlgo := fh_Algo h, xr_HashScope := fh_Scope h, xr_ContentHash := fh_Value h\<rparr>
         | None \<Rightarrow> ref4)"

definition WithContextRef :: "FragEnv \<Rightarrow> ContextFrag \<Rightarrow> ContextRef \<Rightarrow> ContextFrag" where
  "WithContextRef env frag ref = frag\<lparr>xf_Ref := contextRefOf env frag ref\<rparr>"

definition NormalizeContextRefs :: "FragEnv \<Rightarrow> ContextFrag list \<Rightarrow> ContextFrag list" where
  "NormalizeContextRefs env frags = map (\<lambda>frag. WithContextRef env frag (xf_Ref frag)) frags"

text \<open>The hash fields of a reference are cleared before it is computed again.\<close>

definition clearHash :: "ContextRef \<Rightarrow> ContextRef" where
  "clearHash ref = ref\<lparr>xr_HashAlgo := '''', xr_HashScope := '''', xr_ContentHash := ''''\<rparr>"

lemma WithContextRef_simps [simp]:
  "xf_ID (WithContextRef env frag ref) = xf_ID frag"
  "xf_Kind (WithContextRef env frag ref) = xf_Kind frag"
  "xf_Role (WithContextRef env frag ref) = xf_Role frag"
  "xf_Slot (WithContextRef env frag ref) = xf_Slot frag"
  "xf_Trust (WithContextRef env frag ref) = xf_Trust frag"
  "xf_Scope (WithContextRef env frag ref) = xf_Scope frag"
  "xf_Budget (WithContextRef env frag ref) = xf_Budget frag"
  "xf_Render (WithContextRef env frag ref) = xf_Render frag"
  "xf_Priority (WithContextRef env frag ref) = xf_Priority frag"
  "xf_RetentionTier (WithContextRef env frag ref) = xf_RetentionTier frag"
  "xf_TokenEstimate (WithContextRef env frag ref) = xf_TokenEstimate frag"
  "xf_ConflictKey (WithContextRef env frag ref) = xf_ConflictKey frag"
  "xf_Parts (WithContextRef env frag ref) = xf_Parts frag"
  by (simp_all add: WithContextRef_def)

section \<open>Building fragments\<close>

definition trimCutLeft :: "string \<Rightarrow> string \<Rightarrow> string" where
  "trimCutLeft cutset s = dropWhile (\<lambda>c. c \<in> set cutset) s"

definition trimCutRight :: "string \<Rightarrow> string \<Rightarrow> string" where
  "trimCutRight cutset s = rev (dropWhile (\<lambda>c. c \<in> set cutset) (rev s))"

definition RenderText :: "string \<Rightarrow> RenderPolicy \<Rightarrow> string" where
  "RenderText text0 policy =
     (if xp_GroupID policy \<noteq> ''''
      then trimCutRight [CHR '' '', CHR 0x09, CHR 0x0D] (trimCutLeft [CHR '' '', CHR 0x09, CHR 0x0D] text0)
      else TrimSpace text0)"

definition RenderSeparator :: "RenderPolicy \<Rightarrow> RenderPolicy \<Rightarrow> string" where
  "RenderSeparator prev current =
     (if xp_GroupID prev = '''' \<or> xp_GroupID prev \<noteq> xp_GroupID current then [newline, newline]
      else if xp_GroupJoiner current \<noteq> '''' then xp_GroupJoiner current
      else if xp_GroupJoiner prev \<noteq> '''' then xp_GroupJoiner prev
      else [newline, newline])"

text \<open>
  \<open>normalizeScope\<close> makes empty lists and maps nil, which the model does not tell apart.
  \<open>TextFrag\<close> and \<open>MessageFrag\<close> take the fragment with the fields of their input; the fields
  they trim or compute are set here.
\<close>

definition trimProvenance :: "Provenance \<Rightarrow> Provenance" where
  "trimProvenance p = p\<lparr>xv_Source := TrimSpace (xv_Source p), xv_SourceID := TrimSpace (xv_SourceID p),
     xv_Collector := TrimSpace (xv_Collector p)\<rparr>"

definition TextFrag :: "ContextFrag \<Rightarrow> string \<Rightarrow> ContextFrag" where
  "TextFrag input text0 =
     input\<lparr>xf_ID := TrimSpace (xf_ID input), xf_Ref := zeroRef, xf_TokenEstimate := 0,
       xf_RequiredCapability := TrimSpace (xf_RequiredCapability input),
       xf_Provenance := trimProvenance (xf_Provenance input),
       xf_Parts := [zeroPart\<lparr>pt_Type := PartText, pt_Text := RenderText text0 (xf_Render input)\<rparr>]\<rparr>"

definition MessageFrag :: "ContextFrag \<Rightarrow> SdkMessage \<Rightarrow> ContextFrag" where
  "MessageFrag input msg =
     input\<lparr>xf_ID := TrimSpace (xf_ID input), xf_Ref := zeroRef, xf_Role := ms_Role msg,
       xf_RequiredCapability := TrimSpace (xf_RequiredCapability input),
       xf_Render := (if xp_Format (xf_Render input) = '''' then (xf_Render input)\<lparr>xp_Format := RenderSDKMessage\<rparr> else xf_Render input),
       xf_Provenance := trimProvenance (xf_Provenance input), xf_ConflictKey := '''',
       xf_Parts := [zeroPart\<lparr>pt_Type := PartSDKMessage, pt_Message := Some msg, pt_SDKMessage := Some msg\<rparr>]\<rparr>"

definition RebuildFragMessage :: "FragEnv \<Rightarrow> ContextFrag \<Rightarrow> SdkMessage \<Rightarrow> ContextFrag" where
  "RebuildFragMessage env frag msg =
     (let rebuilt = frag\<lparr>xf_Role := ms_Role msg, xf_TokenEstimate := 0, xf_Ref := zeroRef,
            xf_Parts := [zeroPart\<lparr>pt_Type := PartSDKMessage, pt_Message := Some msg, pt_SDKMessage := Some msg\<rparr>]\<rparr>
      in WithContextRef env rebuilt (clearHash (xf_Ref frag)))"

definition PriorityForMessage :: "FragEnv \<Rightarrow> SdkMessage \<Rightarrow> int" where
  "PriorityForMessage env msg =
     (if ms_Role msg = ne_RoleSystem env then 30 else if ms_Role msg = ne_RoleTool env then 55 else 70)"

lemma message_part_simps [simp]:
  "partMessage (zeroPart\<lparr>pt_Type := PartSDKMessage, pt_Message := Some msg, pt_SDKMessage := Some msg\<rparr>) = Some msg"
  "pt_Type (zeroPart\<lparr>pt_Type := PartSDKMessage, pt_Message := Some msg, pt_SDKMessage := Some msg\<rparr>) = PartSDKMessage"
  by (simp_all add: partMessage_def)

lemma FragMessage_MessageFrag [simp]: "FragMessage (MessageFrag input msg) = Some msg"
  by (simp add: FragMessage_def MessageFrag_def)

lemma RebuildFragMessage_simps [simp]:
  "xf_ID (RebuildFragMessage env frag msg) = xf_ID frag"
  "xf_Kind (RebuildFragMessage env frag msg) = xf_Kind frag"
  "xf_Slot (RebuildFragMessage env frag msg) = xf_Slot frag"
  "xf_Trust (RebuildFragMessage env frag msg) = xf_Trust frag"
  "xf_Scope (RebuildFragMessage env frag msg) = xf_Scope frag"
  "xf_Budget (RebuildFragMessage env frag msg) = xf_Budget frag"
  "xf_ConflictKey (RebuildFragMessage env frag msg) = xf_ConflictKey frag"
  "FragMessage (RebuildFragMessage env frag msg) = Some msg"
  by (simp_all add: RebuildFragMessage_def FragMessage_def Let_def)

end
