(* ===== verification/SelectTags.thy ===== *)
theory SelectTags
  imports FragTypes
begin

text \<open>
  What selection may drop: the profile of an intent and the tags of a fragment,
  \<^verbatim>\<open>internal/contextview/selection_tag.go\<close> and \<open>ProfileFor\<close> of \<^verbatim>\<open>selector.go\<close>. Must-keep
  fragments and the recent turn are protected, the others can be dropped.
\<close>

section \<open>Profiles\<close>

record IntentProfile =
  ip_Intent :: string
  ip_MustKeepSlots :: "string list"
  ip_MustKeepFrag :: "(ContextFrag \<Rightarrow> bool) option"
  ip_SlotTrustFloors :: "(string, string) gomap"

definition mustKeepProviderSystemFrag :: "ContextFrag \<Rightarrow> bool" where
  "mustKeepProviderSystemFrag frag \<longleftrightarrow> xf_Slot frag = SlotSystem"

definition ProfileFor :: "string \<Rightarrow> IntentProfile" where
  "ProfileFor intent =
     (if intent = IntentRunConfigPreProvider \<or> intent = IntentDiscussReply
      then \<lparr>ip_Intent = intent, ip_MustKeepSlots = [SlotCurrentUser], ip_MustKeepFrag = Some mustKeepProviderSystemFrag,
             ip_SlotTrustFloors = [(SlotSystem, TrustWorkspace)]\<rparr>
      else if intent = IntentExternalAgentPrompt
      then \<lparr>ip_Intent = intent, ip_MustKeepSlots = [SlotCurrentUser], ip_MustKeepFrag = None, ip_SlotTrustFloors = []\<rparr>
      else \<lparr>ip_Intent = intent, ip_MustKeepSlots = [], ip_MustKeepFrag = None, ip_SlotTrustFloors = []\<rparr>)"

section \<open>Tags\<close>

definition TagMustKeep :: string where "TagMustKeep = ''must_keep''"
definition TagPreserveRecent :: string where "TagPreserveRecent = ''preserve_recent''"
definition TagPreserveToolClosure :: string where "TagPreserveToolClosure = ''preserve_tool_closure''"
definition TagCanDrop :: string where "TagCanDrop = ''can_drop''"

lemmas tag_names = TagMustKeep_def TagPreserveRecent_def TagPreserveToolClosure_def TagCanDrop_def

record TaggedFrag =
  tf_Frag :: ContextFrag
  tf_Tags :: "string list"
  tf_Tokens :: int

definition HasTag :: "TaggedFrag \<Rightarrow> string \<Rightarrow> bool" where
  "HasTag t tag \<longleftrightarrow> tag \<in> set (tf_Tags t)"

definition appendSelectionTag :: "string list \<Rightarrow> string \<Rightarrow> string list" where
  "appendSelectionTag tags tag = (if tag \<in> set tags then tags else tags @ [tag])"

definition addTag :: "string \<Rightarrow> TaggedFrag \<Rightarrow> TaggedFrag" where
  "addTag tag t = t\<lparr>tf_Tags := appendSelectionTag (tf_Tags t) tag\<rparr>"

lemma addTag_simps [simp]:
  "tf_Frag (addTag tag t) = tf_Frag t"
  "tf_Tokens (addTag tag t) = tf_Tokens t"
  "HasTag (addTag tag t) tag' \<longleftrightarrow> tag' = tag \<or> HasTag t tag'"
  by (auto simp: addTag_def HasTag_def appendSelectionTag_def)

section \<open>The shape of a fragment\<close>

definition isToolExchangeFrag :: "FragEnv \<Rightarrow> ContextFrag \<Rightarrow> bool" where
  "isToolExchangeFrag env frag \<longleftrightarrow>
     (case FragMessage frag of
        None \<Rightarrow> False
      | Some msg \<Rightarrow> ms_Role msg = ne_RoleTool env \<or>
          list_ex (\<lambda>part. case part of ToolCallPart _ _ _ _ \<Rightarrow> True | ToolResultPart _ _ _ _ \<Rightarrow> True | _ \<Rightarrow> False) (ms_Content msg))"

definition isRole :: "string \<Rightarrow> string \<Rightarrow> bool" where
  "isRole got want \<longleftrightarrow> EqualFold (TrimSpace got) want"

definition equalToolName :: "string \<Rightarrow> string \<Rightarrow> bool" where
  "equalToolName got want \<longleftrightarrow> EqualFold (TrimSpace got) (TrimSpace want)"

definition rawToolName :: "FragEnv \<Rightarrow> MessagePart \<Rightarrow> string" where
  "rawToolName env part = (case ne_partToolName env part of None \<Rightarrow> '''' | Some name \<Rightarrow> TrimSpace name)"

definition messageHasToolName :: "FragEnv \<Rightarrow> SdkMessage \<Rightarrow> string \<Rightarrow> bool" where
  "messageHasToolName env msg name =
     list_ex (\<lambda>part. case part of
         ToolCallPart _ n _ _ \<Rightarrow> equalToolName n name
       | ToolResultPart _ n _ _ \<Rightarrow> equalToolName n name
       | _ \<Rightarrow> equalToolName (rawToolName env part) name) (ms_Content msg)"

definition hasAskUserTool :: "FragEnv \<Rightarrow> ContextFrag \<Rightarrow> bool" where
  "hasAskUserTool env frag =
     list_ex (\<lambda>p. case partMessage p of None \<Rightarrow> False | Some msg \<Rightarrow> messageHasToolName env msg ''ask_user'') (xf_Parts frag)"

text \<open>A role of the fragment itself or of a message among its parts.\<close>

definition fragHasRole :: "ContextFrag \<Rightarrow> string \<Rightarrow> bool" where
  "fragHasRole frag role \<longleftrightarrow>
     isRole (xf_Role frag) role \<or>
     list_ex (\<lambda>p. case partMessage p of None \<Rightarrow> False | Some msg \<Rightarrow> isRole (ms_Role msg) role) (xf_Parts frag)"

definition isToolResultFrag :: "FragEnv \<Rightarrow> ContextFrag \<Rightarrow> bool" where
  "isToolResultFrag env frag = fragHasRole frag (ne_RoleTool env)"

definition isToolClosureResult :: "FragEnv \<Rightarrow> TaggedFrag \<Rightarrow> bool" where
  "isToolClosureResult env t \<longleftrightarrow> HasTag t TagPreserveToolClosure \<and> isToolResultFrag env (tf_Frag t)"

section \<open>Tagging\<close>

definition isMustKeepFrag :: "ContextFrag \<Rightarrow> IntentProfile \<Rightarrow> bool" where
  "isMustKeepFrag frag profile \<longleftrightarrow>
     bp_Overflow (xf_Budget frag) = OverflowKeep \<or> xf_Kind frag = KindConversationSummary \<or>
     (case ip_MustKeepFrag profile of None \<Rightarrow> False | Some keep \<Rightarrow> keep frag) \<or>
     xf_Slot frag \<in> set (ip_MustKeepSlots profile)"

text \<open>\<open>-1\<close>, no user message, is \<open>None\<close>.\<close>

definition latestUserIndex :: "FragEnv \<Rightarrow> TaggedFrag list \<Rightarrow> nat option" where
  "latestUserIndex env tagged =
     List.find (\<lambda>i. fragHasRole (tf_Frag (tagged ! i)) (ne_RoleUser env)) (rev [0..<length tagged])"

fun tailLoop :: "FragEnv \<Rightarrow> TaggedFrag list \<Rightarrow> nat \<Rightarrow> nat \<Rightarrow> nat" where
  "tailLoop env tagged minStart start =
     (if start > minStart \<and> isToolClosureResult env (tagged ! start) then tailLoop env tagged minStart (start - 1) else start)"

declare tailLoop.simps [simp del]

definition recentTailProtectedStart :: "FragEnv \<Rightarrow> TaggedFrag list \<Rightarrow> nat \<Rightarrow> nat" where
  "recentTailProtectedStart env tagged minStart = tailLoop env tagged minStart (length tagged - 1)"

definition recentProtectedStart :: "FragEnv \<Rightarrow> TaggedFrag list \<Rightarrow> nat" where
  "recentProtectedStart env tagged =
     (if tagged = [] then 0
      else (case latestUserIndex env tagged of Some i \<Rightarrow> i | None \<Rightarrow> recentTailProtectedStart env tagged 0))"

definition markRecentAndDropTags :: "FragEnv \<Rightarrow> TaggedFrag list \<Rightarrow> TaggedFrag list" where
  "markRecentAndDropTags env tagged =
     (if tagged = [] then []
      else if latestUserIndex env tagged = Some 0 \<and> length tagged > 1 then
        (let tailStart = recentTailProtectedStart env tagged 1
         in map (\<lambda>(i, t). if i = 0 \<or> i \<ge> tailStart \<or> HasTag t TagMustKeep then addTag TagPreserveRecent t else addTag TagCanDrop t)
              (enumerate 0 tagged))
      else
        (let start = recentProtectedStart env tagged
         in map (\<lambda>(i, t). if HasTag t TagMustKeep then addTag TagPreserveRecent t
                          else if i < start then addTag TagCanDrop t
                          else addTag TagPreserveRecent t)
              (enumerate 0 tagged)))"

definition tagFragment :: "FragEnv \<Rightarrow> IntentProfile \<Rightarrow> ContextFrag \<Rightarrow> TaggedFrag" where
  "tagFragment env profile frag =
     (let t0 = \<lparr>tf_Frag = frag, tf_Tags = [], tf_Tokens = ResolveFragTokens env frag\<rparr>;
          t1 = (if isMustKeepFrag frag profile then addTag TagMustKeep t0 else t0);
          t2 = (if isToolExchangeFrag env frag then addTag TagPreserveToolClosure t1 else t1)
      in if hasAskUserTool env frag then addTag TagPreserveToolClosure (addTag TagMustKeep t2) else t2)"

definition tagFragments :: "FragEnv \<Rightarrow> ContextFrag list \<Rightarrow> IntentProfile \<Rightarrow> TaggedFrag list" where
  "tagFragments env frags profile = markRecentAndDropTags env (map (tagFragment env profile) frags)"

definition selectionDropReason :: "TaggedFrag \<Rightarrow> string" where
  "selectionDropReason t =
     (case List.find (HasTag t) [TagMustKeep, TagPreserveRecent, TagCanDrop, TagPreserveToolClosure] of
        Some tag \<Rightarrow> tag
      | None \<Rightarrow> if xf_ID (tf_Frag t) \<noteq> '''' then ''not_selected'' else TagCanDrop)"

section \<open>Facts\<close>

lemma tagFragment_simps [simp]:
  "tf_Frag (tagFragment env profile frag) = frag"
  "tf_Tokens (tagFragment env profile frag) = ResolveFragTokens env frag"
  by (simp_all add: tagFragment_def Let_def)

lemma HasTag_tagFragment [simp]:
  "HasTag (tagFragment env profile frag) TagMustKeep \<longleftrightarrow> isMustKeepFrag frag profile \<or> hasAskUserTool env frag"
  "\<not> HasTag (tagFragment env profile frag) TagCanDrop"
  by (simp_all add: tagFragment_def Let_def tag_names) (simp_all add: HasTag_def)

lemma mark_length [simp]: "length (markRecentAndDropTags env tagged) = length tagged"
  by (simp add: markRecentAndDropTags_def Let_def)

lemma mark_nth:
  assumes "i < length tagged"
  shows "tf_Frag (markRecentAndDropTags env tagged ! i) = tf_Frag (tagged ! i)"
    and "HasTag (tagged ! i) TagMustKeep \<Longrightarrow> \<not> HasTag (tagged ! i) TagCanDrop \<Longrightarrow>
      HasTag (markRecentAndDropTags env tagged ! i) TagMustKeep \<and> \<not> HasTag (markRecentAndDropTags env tagged ! i) TagCanDrop"
  using assms by (auto simp: markRecentAndDropTags_def Let_def nth_enumerate_eq tag_names)

lemma tagFragments_frags [simp]: "map tf_Frag (tagFragments env frags profile) = frags"
  by (intro nth_equalityI) (simp_all add: tagFragments_def mark_nth)

lemma tagFragments_length [simp]: "length (tagFragments env frags profile) = length frags"
  by (simp add: tagFragments_def)

text \<open>A must-keep fragment is never droppable.\<close>

lemma must_keep_protected:
  assumes "i < length frags" and "isMustKeepFrag (frags ! i) profile"
  shows "\<not> HasTag (tagFragments env frags profile ! i) TagCanDrop"
  using assms mark_nth(2) [of i "map (tagFragment env profile) frags" env] by (simp add: tagFragments_def)

end
