(* ===== verification/SystemBudget.thy ===== *)
theory SystemBudget
  imports SelectTags "HOL-Library.Product_Lexorder"
begin

text \<open>
  The system sections under a budget, \<^verbatim>\<open>internal/contextview/system_budget.go\<close>: the budget plan
  of a turn, the cost of the rendered system prompt, and the loop that drops optional sections
  until the rest fits, with a marker naming what is gone. A plan changed through its pointer
  is returned.
\<close>

section \<open>The plan\<close>

record ContextBudgetPlan =
  bl_Estimator :: string
  bl_EstimatorSafetyFactorPercent :: int
  bl_Window :: int
  bl_OutputReserve :: int
  bl_OutputReserveResolution :: string
  bl_ToolDefsCost :: int
  bl_CurrentRequestCost :: int
  bl_SystemBudget :: int
  bl_ActualSystemCost :: int
  bl_HistoryBudget :: int

definition MinimumSystemBudgetTokens :: int where "MinimumSystemBudgetTokens = 256"

definition ProviderBudgetEstimator :: string where "ProviderBudgetEstimator = ''bytes_ceil_div4_margin_v1''"

definition ComputeContextBudgetPlan :: "int \<Rightarrow> int \<Rightarrow> int \<Rightarrow> int \<Rightarrow> ContextBudgetPlan option \<times> SelectError option" where
  "ComputeContextBudgetPlan window outputReserve toolDefsCost currentRequestCost =
     (if window = 0 then (None, None)
      else
        (let plan = \<lparr>bl_Estimator = ProviderBudgetEstimator,
               bl_EstimatorSafetyFactorPercent = ProviderBudgetSafetyFactorPercent, bl_Window = window,
               bl_OutputReserve = outputReserve, bl_OutputReserveResolution = '''', bl_ToolDefsCost = toolDefsCost,
               bl_CurrentRequestCost = currentRequestCost, bl_SystemBudget = 0, bl_ActualSystemCost = 0, bl_HistoryBudget = 0\<rparr>;
             remaining = window - outputReserve - toolDefsCost - currentRequestCost
         in if window < 0 \<or> outputReserve < 0 \<or> toolDefsCost < 0 \<or> currentRequestCost < 0 \<or>
               remaining < MinimumSystemBudgetTokens
            then (Some (plan\<lparr>bl_SystemBudget := MinimumSystemBudgetTokens\<rparr>), Some ErrBudgetUnsatisfied)
            else (Some (plan\<lparr>bl_SystemBudget := remaining\<rparr>), None)))"

definition systemBudgetPlanActive :: "IntentProfile \<Rightarrow> ContextBudgetPlan option \<Rightarrow> bool" where
  "systemBudgetPlanActive profile plan \<longleftrightarrow>
     plan \<noteq> None \<and> (ip_Intent profile = IntentRunConfigPreProvider \<or> ip_Intent profile = IntentDiscussReply)"

definition finishSystemBudgetPlan :: "ContextBudgetPlan \<Rightarrow> int \<Rightarrow> ContextBudgetPlan" where
  "finishSystemBudgetPlan plan actual =
     plan\<lparr>bl_ActualSystemCost := actual, bl_HistoryBudget := max (bl_SystemBudget plan - actual) 0\<rparr>"

section \<open>The cost of the system prompt\<close>

abbreviation isSystem :: "ContextFrag \<Rightarrow> bool" where
  "isSystem frag \<equiv> xf_Slot frag = SlotSystem"

definition sortSystemFragsByPriority :: "ContextFrag list \<Rightarrow> ContextFrag list" where
  "sortSystemFragsByPriority ordered =
     (if filter isSystem ordered = [] then ordered
      else sort_key xf_Priority (filter isSystem ordered) @ filter (\<lambda>f. \<not> isSystem f) ordered)"

text \<open>The bytes of the rendered sections and the separators between them.\<close>

fun systemRenderedBytes :: "RenderPolicy option \<Rightarrow> ContextFrag list \<Rightarrow> int" where
  "systemRenderedBytes prev [] = 0"
| "systemRenderedBytes prev (frag # frags) =
     (case prev of None \<Rightarrow> 0 | Some policy \<Rightarrow> int (length (RenderSeparator policy (xf_Render frag)))) +
     sum_list (map (\<lambda>p. if pt_Type p = PartText then int (length (RenderText (pt_Text p) (xf_Render frag))) else 0) (xf_Parts frag)) +
     systemRenderedBytes (Some (xf_Render frag)) frags"

definition systemFragCost :: "FragEnv \<Rightarrow> ContextFrag list \<Rightarrow> int" where
  "systemFragCost env frags =
     (let fs = filter isSystem (sortSystemFragsByPriority frags);
          conservative = sum_list (map (ResolveFragTokens env) fs) + (if length fs > 1 then int (length fs) - 1 else 0);
          rendered = ProviderBudgetTokensFromBytes (systemRenderedBytes None fs)
      in if rendered > conservative then rendered else conservative)"

section \<open>The marker\<close>

definition systemBudgetDropReason :: string where "systemBudgetDropReason = ''system_budget''"
definition systemBudgetMarkerID :: string where "systemBudgetMarkerID = ''system.budget_notice''"
definition systemBudgetMarkerMaxBytes :: nat where "systemBudgetMarkerMaxBytes = 512"
definition systemBudgetMarkerIDMaxBytes :: nat where "systemBudgetMarkerIDMaxBytes = 80"

definition systemBudgetMarkerIDByte :: "char \<Rightarrow> bool" where
  "systemBudgetMarkerIDByte c \<longleftrightarrow>
     (byteVal c \<ge> 97 \<and> byteVal c \<le> 122) \<or> (byteVal c \<ge> 65 \<and> byteVal c \<le> 90) \<or> (byteVal c \<ge> 48 \<and> byteVal c \<le> 57) \<or>
     c = CHR ''-'' \<or> c = CHR ''_'' \<or> c = CHR ''.'' \<or> c = CHR '':''"

definition systemBudgetMarkerDisplayID :: "FragEnv \<Rightarrow> string \<Rightarrow> string" where
  "systemBudgetMarkerDisplayID env raw0 =
     (let raw = TrimSpace raw0 in
      if raw = '''' then ''unnamed''
      else
        (let token = take systemBudgetMarkerIDMaxBytes (map (\<lambda>c. if systemBudgetMarkerIDByte c then c else CHR ''-'') raw);
             changed = (list_ex (\<lambda>c. \<not> systemBudgetMarkerIDByte c) raw \<or> length raw > systemBudgetMarkerIDMaxBytes)
         in if \<not> changed then token
            else
              (let tail = hexEncode (take 4 (ne_Sum256 env raw));
                   shown = trimCutRight ''-._:'' (take (systemBudgetMarkerIDMaxBytes - length tail - 1) token)
               in (if shown = '''' then ''section'' else shown) @ ''-'' @ tail)))"

definition systemBudgetMarkerTail :: "nat \<Rightarrow> string" where
  "systemBudgetMarkerTail omitted = (if omitted = 0 then ''.'' else '', ... (+'' @ decimal omitted @ '' more).'')"

fun joinIDs :: "string list \<Rightarrow> string" where
  "joinIDs [] = ''''"
| "joinIDs [s] = s"
| "joinIDs (s # t # ts) = s @ '', '' @ joinIDs (t # ts)"

definition systemBudgetMarkerPrefix :: string where
  "systemBudgetMarkerPrefix = ''[System Notice] Some system sections were omitted to fit the context window: ''"

text \<open>The loop over the ids lists those that fit the marker.\<close>

fun markerListed :: "FragEnv \<Rightarrow> string list \<Rightarrow> string list \<Rightarrow> string list" where
  "markerListed env [] listed = listed"
| "markerListed env (x # xs) listed =
     (let shown = listed @ [systemBudgetMarkerDisplayID env x];
          candidate = systemBudgetMarkerPrefix @ joinIDs shown @ systemBudgetMarkerTail (length xs)
      in if length candidate > systemBudgetMarkerMaxBytes then listed else markerListed env xs shown)"

definition systemBudgetMarkerText :: "FragEnv \<Rightarrow> string list \<Rightarrow> string" where
  "systemBudgetMarkerText env droppedIDs =
     (if droppedIDs = [] then systemBudgetMarkerPrefix @ ''details unavailable.''
      else
        (let listed = markerListed env droppedIDs [] in
         if listed = [] then systemBudgetMarkerPrefix @ decimal (length droppedIDs) @ '' section IDs not shown.''
         else systemBudgetMarkerPrefix @ joinIDs listed @ systemBudgetMarkerTail (length droppedIDs - length listed)))"

definition systemBudgetMarkerFrag :: "FragEnv \<Rightarrow> string list \<Rightarrow> FragScope \<Rightarrow> ContextFrag" where
  "systemBudgetMarkerFrag env droppedIDs scope =
     (let frag = TextFrag
        \<lparr>xf_ID = systemBudgetMarkerID, xf_Ref = zeroRef, xf_Kind = KindSystemPolicy, xf_Role = ne_RoleSystem env,
         xf_Slot = SlotSystem, xf_Priority = 2 ^ 63 - 1, xf_RetentionTier = RetentionRequired, xf_DropPriority = 0,
         xf_RequiredCapability = '''', xf_CacheClass = CacheDynamic, xf_Trust = TrustSystem, xf_Scope = scope,
         xf_Budget = zeroBudget\<lparr>bp_Overflow := OverflowKeep\<rparr>, xf_Render = zeroRender\<lparr>xp_Format := RenderMarkdown\<rparr>,
         xf_Provenance = \<lparr>xv_Source = ''run_config'', xv_SourceID = '''', xv_Collector = ''system_budget'', xv_Index = 0\<rparr>,
         xf_TokenEstimate = 0, xf_ConflictKey = '''', xf_Parts = []\<rparr>
        (systemBudgetMarkerText env droppedIDs)
      in WithContextRef env frag (xf_Ref frag))"

section \<open>Dropping sections\<close>

definition isRenderGroupHeader :: "ContextFrag \<Rightarrow> bool" where
  "isRenderGroupHeader frag \<longleftrightarrow> xp_GroupID (xf_Render frag) \<noteq> '''' \<and> xf_ID frag = xp_GroupID (xf_Render frag) @ ''.header''"

text \<open>A candidate is an index with its fragment; dropped indexes are listed in the order of their drops.\<close>

definition systemGroupMembers :: "ContextFrag list \<Rightarrow> nat list \<Rightarrow> (nat \<times> ContextFrag) list" where
  "systemGroupMembers frags droppedIndexes =
     filter (\<lambda>(i, frag). i \<notin> set droppedIndexes \<and> isSystem frag \<and> xp_GroupID (xf_Render frag) \<noteq> '''') (enumerate 0 frags)"

definition sweepEmptySystemGroupHeaders :: "ContextFrag list \<Rightarrow> nat list \<Rightarrow> (nat \<times> ContextFrag) list" where
  "sweepEmptySystemGroupHeaders frags droppedIndexes =
     (let members = systemGroupMembers frags droppedIndexes;
          headers = foldl (\<lambda>m (i, frag). mapPut (xp_GroupID (xf_Render frag)) (i, frag) m) []
                      (filter (\<lambda>(i, frag). isRenderGroupHeader frag) members);
          items = filter (\<lambda>(i, frag). \<not> isRenderGroupHeader frag) members;
          swept = filter (\<lambda>(groupID, header). \<not> list_ex (\<lambda>(i, frag). xp_GroupID (xf_Render frag) = groupID) items) headers
      in sort_key (\<lambda>(i, frag). xf_ID frag) (map snd swept))"

definition firstSystemScope :: "ContextFrag list \<Rightarrow> FragScope" where
  "firstSystemScope frags = (case List.find isSystem frags of Some frag \<Rightarrow> xf_Scope frag | None \<Rightarrow> zeroScope)"

definition keepIndexes :: "'a list \<Rightarrow> (nat \<Rightarrow> bool) \<Rightarrow> 'a list" where
  "keepIndexes xs gone = map snd (filter (\<lambda>(i, x). \<not> gone i) (enumerate 0 xs))"

definition systemBudgetSelection :: "ContextFrag list \<Rightarrow> nat list \<Rightarrow> ContextFrag option \<Rightarrow> ContextFrag list" where
  "systemBudgetSelection frags droppedIndexes marker =
     (let kept = keepIndexes frags (\<lambda>i. i \<in> set droppedIndexes) in
      case marker of
        None \<Rightarrow> kept
      | Some frag \<Rightarrow> (let insertAt = afterLast isSystem kept in take insertAt kept @ frag # drop insertAt kept))"

definition systemBudgetCandidates :: "ContextFrag list \<Rightarrow> (nat \<times> ContextFrag) list" where
  "systemBudgetCandidates frags =
     sort_key (\<lambda>(i, frag). (if xf_RetentionTier frag = RetentionOptional then 0 else 1 :: nat, - xf_DropPriority frag,
                 - xf_Priority frag, xf_ID frag))
       (filter (\<lambda>(i, frag). isSystem frag \<and> \<not> isRenderGroupHeader frag \<and> bp_Overflow (xf_Budget frag) \<noteq> OverflowKeep \<and>
                  (xf_RetentionTier frag = RetentionOptional \<or> xf_RetentionTier frag = RetentionPreferred))
         (enumerate 0 frags))"

text \<open>The state of the loop: dropped indexes, dropped fragments and the ids the marker names.\<close>

type_synonym systemDrops = "nat list \<times> ContextFrag list \<times> string list"

definition addSystemDrop :: "systemDrops \<Rightarrow> nat \<times> ContextFrag \<Rightarrow> systemDrops" where
  "addSystemDrop st candidate =
     (case st of (indexes, dropped, ids) \<Rightarrow>
        (indexes @ [fst candidate], dropped @ [snd candidate], ids @ [xf_ID (snd candidate)]))"

definition markerOf :: "FragEnv \<Rightarrow> FragScope \<Rightarrow> systemDrops \<Rightarrow> ContextFrag option" where
  "markerOf env scope st =
     (if snd (snd st) = [] then None else Some (systemBudgetMarkerFrag env (snd (snd st)) scope))"

definition systemSelected :: "FragEnv \<Rightarrow> FragScope \<Rightarrow> ContextFrag list \<Rightarrow> systemDrops \<Rightarrow> ContextFrag list" where
  "systemSelected env scope frags st = systemBudgetSelection frags (fst st) (markerOf env scope st)"

definition sweepDrops :: "ContextFrag list \<Rightarrow> systemDrops \<Rightarrow> systemDrops" where
  "sweepDrops frags st = foldl addSystemDrop st (sweepEmptySystemGroupHeaders frags (fst st))"

text \<open>The loop over the candidates; the flag says that the rest fits.\<close>

fun systemDropLoop :: "FragEnv \<Rightarrow> FragScope \<Rightarrow> ContextFrag list \<Rightarrow> int \<Rightarrow> (nat \<times> ContextFrag) list \<Rightarrow> systemDrops \<Rightarrow> systemDrops \<times> bool" where
  "systemDropLoop env scope frags budget [] st = (st, False)"
| "systemDropLoop env scope frags budget (candidate # candidates) st =
     (if fst candidate \<in> set (fst st) then systemDropLoop env scope frags budget candidates st
      else
        (let st1 = sweepDrops frags (addSystemDrop st candidate) in
         if systemFragCost env (systemSelected env scope frags st1) \<le> budget then (st1, True)
         else systemDropLoop env scope frags budget candidates st1))"

text \<open>\<open>fragBudgetDropped\<close> is the list of fragments the fragment budgets dropped.\<close>

definition enforceSystemBudget ::
  "FragEnv \<Rightarrow> ContextFrag list \<Rightarrow> IntentProfile \<Rightarrow> ContextBudgetPlan option \<Rightarrow> ContextFrag list \<Rightarrow>
    ContextFrag list \<times> ContextFrag list \<times> ContextBudgetPlan option \<times> SelectError option" where
  "enforceSystemBudget env frags profile plan0 fragBudgetDropped =
     (case (if systemBudgetPlanActive profile plan0 then plan0 else None) of
        None \<Rightarrow> (frags, [], plan0, None)
      | Some plan \<Rightarrow>
          (let gone = filter isSystem fragBudgetDropped;
               scope = (if list_ex isSystem frags then firstSystemScope frags
                        else (case gone of [] \<Rightarrow> zeroScope | frag # _ \<Rightarrow> xf_Scope frag));
               st0 = sweepDrops frags ([], [], map xf_ID gone);
               total0 = systemFragCost env (systemSelected env scope frags st0)
           in if total0 \<le> bl_SystemBudget plan
              then (systemSelected env scope frags st0, fst (snd st0), Some (finishSystemBudgetPlan plan total0), None)
              else
                (case systemDropLoop env scope frags (bl_SystemBudget plan) (systemBudgetCandidates frags) st0 of
                   (st, enough) \<Rightarrow>
                     (let selected = systemSelected env scope frags st
                      in (selected, fst (snd st), Some (finishSystemBudgetPlan plan (systemFragCost env selected)),
                          if enough then None else Some ErrProtectedContextOverflow)))))"

end
