(* ===== verification/FragBudget.thy ===== *)
theory FragBudget
  imports SystemBudget
begin

text \<open>
  Fragments over their own budget, \<^verbatim>\<open>internal/contextview/selector_frag_budget.go\<close>, and protected
  summaries over the history budget, \<^verbatim>\<open>selector_summary_shrink.go\<close>: such a fragment is
  dropped, shortened or kept with a warning.
\<close>

section \<open>Edits and warnings\<close>

record ContextEditTrace =
  xe_EditID :: string
  xe_Op :: string
  xe_Slot :: string
  xe_Refs :: "ContextRef list"

record ValidationWarning =
  xw_Code :: string
  xw_Ref :: ContextRef

record fragBudgetEdit =
  ed_trace :: ContextEditTrace
  ed_fragID :: string
  ed_reason :: string

type_synonym fragBudgetDrop = "ContextFrag \<times> string"

section \<open>Fragment budgets\<close>

definition fragPartChars :: "FragEnv \<Rightarrow> MessagePart \<Rightarrow> int" where
  "fragPartChars env part =
     (case part of
        TextPart t _ \<Rightarrow> int (RuneCountInString t)
      | ReasoningPart t _ \<Rightarrow> int (RuneCountInString t)
      | ImagePart _ \<Rightarrow> 0
      | _ \<Rightarrow> (case ne_marshalPart env part of None \<Rightarrow> 0 | Some raw \<Rightarrow> int (RuneCountInString raw)))"

definition fragCharCount :: "FragEnv \<Rightarrow> ContextFrag \<Rightarrow> int" where
  "fragCharCount env frag =
     sum_list (map (\<lambda>p.
       if pt_Type p = PartText then int (RuneCountInString (pt_Text p))
       else if pt_Type p = PartSDKMessage
       then (case partMessage p of None \<Rightarrow> 0 | Some msg \<Rightarrow> sum_list (map (fragPartChars env) (ms_Content msg)))
       else 0) (xf_Parts frag))"

definition fragBudgetExceeded :: "FragEnv \<Rightarrow> ContextFrag \<Rightarrow> string option" where
  "fragBudgetExceeded env frag =
     (if bp_MaxTokens (xf_Budget frag) > 0 \<and> ResolveFragTokens env frag > bp_MaxTokens (xf_Budget frag)
      then Some ''frag_budget:max_tokens''
      else if bp_MaxChars (xf_Budget frag) > 0 \<and> fragCharCount env frag > bp_MaxChars (xf_Budget frag)
      then Some ''frag_budget:max_chars''
      else None)"

definition droppableSystemBudgetFrag :: "ContextFrag \<Rightarrow> bool" where
  "droppableSystemBudgetFrag frag \<longleftrightarrow>
     xf_Slot frag = SlotSystem \<and> (xf_RetentionTier frag = RetentionOptional \<or> xf_RetentionTier frag = RetentionPreferred)"

text \<open>The cut moves back to the start of a rune.\<close>

fun runeCutBack :: "string \<Rightarrow> nat \<Rightarrow> nat" where
  "runeCutBack s 0 = 0"
| "runeCutBack s (Suc n) = (if RuneStart (s ! Suc n) then Suc n else runeCutBack s n)"

definition safeUTF8BytePrefix :: "string \<Rightarrow> int \<Rightarrow> string" where
  "safeUTF8BytePrefix s maxBytes =
     (if maxBytes \<le> 0 \<or> s = '''' then '''' else if maxBytes \<ge> int (length s) then s
      else take (runeCutBack s (nat maxBytes)) s)"

definition keptText :: "bool \<Rightarrow> string \<Rightarrow> int \<Rightarrow> string" where
  "keptText byBytes s remaining = (if byBytes then safeUTF8BytePrefix s remaining else TruncateRunes s remaining)"

definition textSize :: "bool \<Rightarrow> string \<Rightarrow> int" where
  "textSize byBytes s = (if byBytes then int (length s) else int (RuneCountInString s))"

text \<open>The loop over the parts: the kept texts and the last part that was cut.\<close>

fun trimTexts :: "bool \<Rightarrow> string list \<Rightarrow> nat \<Rightarrow> int \<Rightarrow> nat option \<Rightarrow> string list \<times> nat option" where
  "trimTexts byBytes [] i remaining lastChanged = ([], lastChanged)"
| "trimTexts byBytes (s # ss) i remaining lastChanged =
     (let kept = keptText byBytes s remaining in
      case trimTexts byBytes ss (Suc i) (remaining - textSize byBytes kept) (if kept \<noteq> s then Some i else lastChanged) of
        (rest, final) \<Rightarrow> (kept # rest, final))"

definition trimMarker :: "string list \<Rightarrow> string" where
  "trimMarker texts = ''[trimmed from '' @ decimal (sum_list (map length texts)) @ '' bytes]''"

text \<open>\<open>trimPartsToLimit\<close> works on the texts of the parts; \<open>None\<close> when nothing is cut.\<close>

definition trimPartsToLimit :: "string list \<Rightarrow> int \<Rightarrow> bool \<Rightarrow> string list option" where
  "trimPartsToLimit texts limit byBytes =
     (let marker = trimMarker texts; appendMarker = limit > int (length marker);
          contentLimit = (if appendMarker then limit - int (length marker) else limit)
      in case trimTexts byBytes texts 0 contentLimit None of
           (next1, None) \<Rightarrow> None
         | (next1, Some k) \<Rightarrow> Some (if appendMarker then next1[k := next1 ! k @ marker] else next1))"

definition withTexts :: "Part list \<Rightarrow> string list \<Rightarrow> Part list" where
  "withTexts parts texts = map2 (\<lambda>p t. p\<lparr>pt_Text := t\<rparr>) parts texts"

definition fragTrimLimit :: "BudgetPolicy \<Rightarrow> int \<times> int" where
  "fragTrimLimit budget =
     (if bp_MaxChars budget > 0 then bp_MaxChars budget else 0,
      if bp_MaxTokens budget > 0 then bp_MaxTokens budget * EstimateBytesPerToken else 0)"

definition trimByLimit :: "int \<Rightarrow> bool \<Rightarrow> string list \<times> bool \<Rightarrow> string list \<times> bool" where
  "trimByLimit limit byBytes st =
     (if limit > 0
      then (case trimPartsToLimit (fst st) limit byBytes of Some next1 \<Rightarrow> (next1, True) | None \<Rightarrow> st)
      else st)"

definition trimFragText :: "FragEnv \<Rightarrow> ContextFrag \<Rightarrow> ContextFrag option" where
  "trimFragText env frag =
     (if xf_Parts frag = [] \<or> list_ex (\<lambda>p. pt_Type p \<noteq> PartText) (xf_Parts frag) then None
      else
        (case fragTrimLimit (xf_Budget frag) of
           (charLimit, tokenByteLimit) \<Rightarrow>
             (case trimByLimit tokenByteLimit True (trimByLimit charLimit False (map pt_Text (xf_Parts frag), False)) of
                (texts, changed) \<Rightarrow>
                  if \<not> changed then None
                  else
                    (let next1 = frag\<lparr>xf_Parts := withTexts (xf_Parts frag) texts, xf_TokenEstimate := 0,
                                      xf_Ref := clearHash (xf_Ref frag)\<rparr>
                     in Some (WithContextRef env next1 (xf_Ref next1))))))"

definition fragBudgetTrimEdit :: "ContextFrag \<Rightarrow> ContextEditTrace" where
  "fragBudgetTrimEdit frag =
     \<lparr>xe_EditID = ''frag_budget.trim.'' @ xf_ID frag, xe_Op = EditReplace, xe_Slot = xf_Slot frag, xe_Refs = [xf_Ref frag]\<rparr>"

text \<open>What becomes of one fragment.\<close>

datatype fragOutcome =
    Kept ContextFrag
  | KeptWarned ContextFrag string
  | KeptTrimmed ContextFrag fragBudgetEdit
  | DroppedFor string

definition fragBudgetOutcome :: "FragEnv \<Rightarrow> IntentProfile \<Rightarrow> bool \<Rightarrow> ContextFrag \<Rightarrow> fragOutcome" where
  "fragBudgetOutcome env profile systemPlanActive frag =
     (case fragBudgetExceeded env frag of
        None \<Rightarrow> Kept frag
      | Some reason \<Rightarrow>
          (let overflow = bp_Overflow (xf_Budget frag) in
           if overflow = OverflowKeep then Kept frag
           else if overflow = OverflowDrop then
             (if isToolExchangeFrag env frag then KeptWarned frag ''frag_budget_drop_blocked_tool_closure''
              else if isMustKeepFrag frag profile \<and> (\<not> systemPlanActive \<or> \<not> droppableSystemBudgetFrag frag)
              then KeptWarned frag ''frag_budget_drop_blocked_must_keep''
              else DroppedFor reason)
           else if overflow = OverflowTrim then
             (case trimFragText env frag of
                None \<Rightarrow> KeptWarned frag ''overflow_trim_unsupported''
              | Some trimmed \<Rightarrow> KeptTrimmed trimmed
                  \<lparr>ed_trace = fragBudgetTrimEdit trimmed, ed_fragID = xf_ID frag, ed_reason = reason\<rparr>)
           else if overflow = OverflowSummarize then KeptWarned frag ''overflow_summarize_unsupported''
           else Kept frag))"

record fragBudgetResult =
  fx_kept :: "ContextFrag list"
  fx_dropped :: "fragBudgetDrop list"
  fx_edits :: "fragBudgetEdit list"
  fx_warnings :: "ValidationWarning list"

definition addOutcome :: "fragBudgetResult \<Rightarrow> ContextFrag \<times> fragOutcome \<Rightarrow> fragBudgetResult" where
  "addOutcome r x =
     (case snd x of
        Kept frag \<Rightarrow> r\<lparr>fx_kept := fx_kept r @ [frag]\<rparr>
      | KeptWarned frag code \<Rightarrow>
          r\<lparr>fx_kept := fx_kept r @ [frag], fx_warnings := fx_warnings r @ [\<lparr>xw_Code = code, xw_Ref = xf_Ref frag\<rparr>]\<rparr>
      | KeptTrimmed frag edit \<Rightarrow> r\<lparr>fx_kept := fx_kept r @ [frag], fx_edits := fx_edits r @ [edit]\<rparr>
      | DroppedFor reason \<Rightarrow> r\<lparr>fx_dropped := fx_dropped r @ [(fst x, reason)]\<rparr>)"

definition enforceFragBudgets :: "FragEnv \<Rightarrow> ContextFrag list \<Rightarrow> IntentProfile \<Rightarrow> bool \<Rightarrow> fragBudgetResult" where
  "enforceFragBudgets env frags profile systemPlanActive =
     foldl addOutcome \<lparr>fx_kept = [], fx_dropped = [], fx_edits = [], fx_warnings = []\<rparr>
       (map (\<lambda>frag. (frag, fragBudgetOutcome env profile systemPlanActive frag)) frags)"

section \<open>Summaries\<close>

definition summaryTruncateNotice :: string where
  "summaryTruncateNotice = [newline, newline] @ ''[The rest of this summary was truncated to fit the context window.]''"

definition minSummaryKeepRunes :: int where "minSummaryKeepRunes = 200"

definition summaryBudgetEditReason :: string where "summaryBudgetEditReason = ''summary_budget_truncate''"

definition rebuildMessageFrag :: "FragEnv \<Rightarrow> ContextFrag \<Rightarrow> SdkMessage \<Rightarrow> ContextFrag" where
  "rebuildMessageFrag env frag msg =
     (let rebuilt = (RebuildFragMessage env frag msg)\<lparr>xf_ConflictKey := xf_ConflictKey frag, xf_TokenEstimate := 0\<rparr>;
          cleared = rebuilt\<lparr>xf_Ref := clearHash (xf_Ref rebuilt)\<rparr>
      in WithContextRef env cleared (xf_Ref cleared))"

definition rebuildTextFrag :: "FragEnv \<Rightarrow> ContextFrag \<Rightarrow> Part \<Rightarrow> string \<Rightarrow> ContextFrag" where
  "rebuildTextFrag env frag p t =
     (let next1 = frag\<lparr>xf_Parts := [p\<lparr>pt_Text := t\<rparr>], xf_TokenEstimate := 0, xf_Ref := clearHash (xf_Ref frag)\<rparr>
      in WithContextRef env next1 (xf_Ref next1))"

text \<open>The text of a summary with one text body, and how to put another in its place.\<close>

definition summaryFragText :: "FragEnv \<Rightarrow> ContextFrag \<Rightarrow> (string \<times> (string \<Rightarrow> ContextFrag)) option" where
  "summaryFragText env frag =
     (case xf_Parts frag of
        [p] \<Rightarrow>
          if pt_Type p = PartText then Some (pt_Text p, rebuildTextFrag env frag p)
          else
            (case partMessage p of
               None \<Rightarrow> None
             | Some msg \<Rightarrow>
                 (case ms_Content msg of
                    [TextPart t r] \<Rightarrow> Some (t, \<lambda>s. rebuildMessageFrag env frag \<lparr>ms_Role = ms_Role msg, ms_Content = [TextPart s '''']\<rparr>)
                  | _ \<Rightarrow> None))
      | _ \<Rightarrow> None)"

fun shrinkLoop :: "FragEnv \<Rightarrow> (string \<Rightarrow> ContextFrag) \<Rightarrow> string \<Rightarrow> string \<Rightarrow> int \<Rightarrow> nat \<Rightarrow> int \<Rightarrow> (ContextFrag \<times> int) option" where
  "shrinkLoop env rebuild t ending target 0 keepRunes = None"
| "shrinkLoop env rebuild t ending target (Suc attempts) keepRunes =
     (if keepRunes < minSummaryKeepRunes then None
      else
        (let next1 = rebuild (TruncateRunesWithSuffix t keepRunes ending);
             tokens = ResolveProviderBudgetFragTokens env next1
         in if tokens \<le> target then Some (next1, tokens)
            else shrinkLoop env rebuild t ending target attempts (keepRunes * 4 div 5)))"

definition summaryEnding :: "string \<Rightarrow> string" where
  "summaryEnding t =
     (if suffix ''</summary>'' (trimCutRight [CHR '' '', CHR 0x09, newline] t)
      then summaryTruncateNotice @ [newline] @ ''</summary>'' else summaryTruncateNotice)"

definition shrinkSummaryFragToTokens :: "FragEnv \<Rightarrow> ContextFrag \<Rightarrow> int \<Rightarrow> (ContextFrag \<times> int) option" where
  "shrinkSummaryFragToTokens env frag target =
     (case summaryFragText env frag of
        None \<Rightarrow> None
      | Some (t, rebuild) \<Rightarrow>
          (let current = ResolveProviderBudgetFragTokens env frag in
           if target \<le> 0 \<or> current \<le> 0 then None
           else
             (case shrinkLoop env rebuild t (summaryEnding t) target 8 (int (RuneCountInString t) * target div current) of
                Some found \<Rightarrow> Some found
              | None \<Rightarrow>
                  (let next1 = rebuild (TruncateRunesWithSuffix t minSummaryKeepRunes (summaryEnding t));
                       tokens = ResolveProviderBudgetFragTokens env next1
                   in if tokens \<le> target then Some (next1, tokens) else None))))"

text \<open>The settling loop: the indexes still over their share, and the share.\<close>

fun settleLoop :: "TaggedFrag list \<Rightarrow> nat \<Rightarrow> nat list \<Rightarrow> int \<Rightarrow> int \<Rightarrow> (nat list \<times> int) option" where
  "settleLoop tagged 0 pending available target = Some (pending, target)"
| "settleLoop tagged (Suc rounds) pending available target =
     (let settled = filter (\<lambda>i. tf_Tokens (tagged ! i) \<le> target) pending;
          oversized = filter (\<lambda>i. \<not> tf_Tokens (tagged ! i) \<le> target) pending;
          available1 = available - sum_list (map (\<lambda>i. tf_Tokens (tagged ! i)) settled)
      in if oversized = [] \<or> available1 \<le> 0 then None
         else
           (let target1 = available1 div int (length oversized)
            in if settled = [] then Some (oversized, target1) else settleLoop tagged rounds oversized available1 target1))"

definition shrinkEntry :: "FragEnv \<Rightarrow> int \<Rightarrow> TaggedFrag list \<times> fragBudgetEdit list \<Rightarrow> nat \<Rightarrow> TaggedFrag list \<times> fragBudgetEdit list" where
  "shrinkEntry env target st i =
     (case shrinkSummaryFragToTokens env (tf_Frag (fst st ! i)) target of
        None \<Rightarrow> st
      | Some (next1, tokens) \<Rightarrow>
          ((fst st)[i := (fst st ! i)\<lparr>tf_Frag := next1, tf_Tokens := tokens\<rparr>],
           snd st @ [\<lparr>ed_trace = \<lparr>xe_EditID = ''summary.budget_truncate.'' @ xf_ID next1, xe_Op = EditReplace,
                        xe_Slot = xf_Slot next1, xe_Refs = [xf_Ref next1]\<rparr>,
                      ed_fragID = xf_ID next1, ed_reason = summaryBudgetEditReason\<rparr>]))"

definition shrinkOversizedProtectedSummaries ::
  "FragEnv \<Rightarrow> TaggedFrag list \<Rightarrow> int \<Rightarrow> int \<Rightarrow> TaggedFrag list \<times> fragBudgetEdit list" where
  "shrinkOversizedProtectedSummaries env tagged protectedCost topCost =
     (let summaries = filter (\<lambda>i. xf_Kind (tf_Frag (tagged ! i)) = KindConversationSummary \<and> HasTag (tagged ! i) TagMustKeep)
                        [0..<length tagged];
          summaryCost = sum_list (map (\<lambda>i. tf_Tokens (tagged ! i)) summaries);
          available = topCost - (protectedCost - summaryCost)
      in if summaries = [] \<or> available \<le> 0 then (tagged, [])
         else
           (case settleLoop tagged (length summaries) summaries available (available div int (length summaries)) of
              None \<Rightarrow> (tagged, [])
            | Some (pending, target) \<Rightarrow> foldl (shrinkEntry env target) (tagged, []) pending))"

end
