(* ===== verification/SelectBudget.thy ===== *)
theory SelectBudget
  imports SelectTags
begin

text \<open>
  Trimming history to a budget, \<^verbatim>\<open>internal/contextview/selector_budget.go\<close>: fragments are
  grouped into units that drop together, a tool call with the results that answer it, and
  units drop in a fixed order until the droppable tokens fit. The maps \<open>drops\<close> and
  \<open>reasons\<close> of the code always have the same keys; the model keeps the second.
\<close>

section \<open>Attention\<close>

definition attentionTierPassive :: nat where "attentionTierPassive = 0"
definition attentionTierUntiered :: nat where "attentionTierUntiered = 1"
definition attentionTierDirected :: nat where "attentionTierDirected = 2"

lemmas tier_names = attentionTierPassive_def attentionTierUntiered_def attentionTierDirected_def

definition fragAttentionTier :: "ContextFrag \<Rightarrow> nat" where
  "fragAttentionTier frag =
     (if xs_Attention (xf_Scope frag) = [] then attentionTierUntiered
      else if \<exists>reason\<in>set (xs_Attention (xf_Scope frag)). reason \<noteq> AttentionPassive then attentionTierDirected
      else attentionTierPassive)"

definition budgetDropReasonPassive :: string where "budgetDropReasonPassive = ''budget:passive''"
definition budgetDropReasonUntiered :: string where "budgetDropReasonUntiered = ''budget:untiered''"
definition budgetDropReasonDirected :: string where "budgetDropReasonDirected = ''budget:directed''"
definition budgetDropReasonRecentWindow :: string where "budgetDropReasonRecentWindow = ''budget:recent_window''"
definition budgetDropReasonOrphanExchange :: string where "budgetDropReasonOrphanExchange = ''budget:orphan_tool_exchange''"

lemmas drop_reason_names = budgetDropReasonPassive_def budgetDropReasonUntiered_def budgetDropReasonDirected_def
  budgetDropReasonRecentWindow_def budgetDropReasonOrphanExchange_def

definition budgetDropReasonForTier :: "nat \<Rightarrow> string" where
  "budgetDropReasonForTier tier =
     (if tier = attentionTierPassive then budgetDropReasonPassive
      else if tier = attentionTierDirected then budgetDropReasonDirected
      else budgetDropReasonUntiered)"

section \<open>Calls and results of a fragment\<close>

definition partCallID :: "MessagePart \<Rightarrow> string list" where
  "partCallID part = (case part of ToolCallPart cid _ _ _ \<Rightarrow> if TrimSpace cid = '''' then [] else [TrimSpace cid] | _ \<Rightarrow> [])"

definition partResultID :: "MessagePart \<Rightarrow> string list" where
  "partResultID part = (case part of ToolResultPart cid _ _ _ \<Rightarrow> if TrimSpace cid = '''' then [] else [TrimSpace cid] | _ \<Rightarrow> [])"

definition fragToolCallIDs :: "ContextFrag \<Rightarrow> string list" where
  "fragToolCallIDs frag =
     concat (map (\<lambda>p. case partMessage p of None \<Rightarrow> [] | Some msg \<Rightarrow> concat (map partCallID (ms_Content msg))) (xf_Parts frag))"

definition fragToolResultCallIDs :: "ContextFrag \<Rightarrow> string list" where
  "fragToolResultCallIDs frag =
     concat (map (\<lambda>p. case partMessage p of None \<Rightarrow> [] | Some msg \<Rightarrow> concat (map partResultID (ms_Content msg))) (xf_Parts frag))"

section \<open>Units\<close>

record budgetUnit =
  bu_indexes :: "nat list"
  bu_tokens :: int
  bu_attentionTier :: nat
  bu_hasAttention :: bool
  bu_droppable :: bool
  bu_hasCall :: bool
  bu_hasResult :: bool

definition zeroUnit :: budgetUnit where
  "zeroUnit = \<lparr>bu_indexes = [], bu_tokens = 0, bu_attentionTier = 0, bu_hasAttention = False, bu_droppable = False,
     bu_hasCall = False, bu_hasResult = False\<rparr>"

definition unitTier :: "budgetUnit \<Rightarrow> nat" where
  "unitTier u = (if bu_hasAttention u then bu_attentionTier u else attentionTierUntiered)"

definition orphanToolExchange :: "budgetUnit \<Rightarrow> bool" where
  "orphanToolExchange u \<longleftrightarrow> bu_hasCall u \<noteq> bu_hasResult u"

type_synonym openCalls = "(string, nat) gomap"

text \<open>What \<open>mergeBudgetUnits\<close> makes of the destination.\<close>

definition joinUnit :: "budgetUnit \<Rightarrow> budgetUnit \<Rightarrow> budgetUnit" where
  "joinUnit to from1 =
     \<lparr>bu_indexes = bu_indexes to @ bu_indexes from1, bu_tokens = bu_tokens to + bu_tokens from1,
      bu_attentionTier =
        (if bu_hasAttention from1 \<and> (\<not> bu_hasAttention to \<or> bu_attentionTier from1 > bu_attentionTier to)
         then bu_attentionTier from1 else bu_attentionTier to),
      bu_hasAttention = (bu_hasAttention to \<or> bu_hasAttention from1),
      bu_droppable = (bu_droppable to \<and> bu_droppable from1),
      bu_hasCall = (bu_hasCall to \<or> bu_hasCall from1), bu_hasResult = (bu_hasResult to \<or> bu_hasResult from1)\<rparr>"

definition mergeBudgetUnits :: "budgetUnit list \<Rightarrow> nat \<Rightarrow> nat \<Rightarrow> openCalls \<Rightarrow> budgetUnit list \<times> openCalls" where
  "mergeBudgetUnits units dest src opened =
     (units[dest := joinUnit (units ! dest) (units ! src), src := zeroUnit],
      map (\<lambda>(cid, idx). (cid, if idx = src then dest else idx)) opened)"

definition addFragToBudgetUnit :: "budgetUnit \<Rightarrow> nat \<Rightarrow> TaggedFrag \<Rightarrow> bool \<Rightarrow> bool \<Rightarrow> budgetUnit" where
  "addFragToBudgetUnit u i t hasCall hasResult =
     (let tier = fragAttentionTier (tf_Frag t); attentive = (xs_Attention (xf_Scope (tf_Frag t)) \<noteq> [])
      in \<lparr>bu_indexes = bu_indexes u @ [i], bu_tokens = bu_tokens u + tf_Tokens t,
          bu_attentionTier = (if attentive \<and> (\<not> bu_hasAttention u \<or> tier > bu_attentionTier u) then tier else bu_attentionTier u),
          bu_hasAttention = (bu_hasAttention u \<or> attentive),
          bu_droppable = (bu_droppable u \<and> HasTag t TagCanDrop),
          bu_hasCall = (bu_hasCall u \<or> hasCall), bu_hasResult = (bu_hasResult u \<or> hasResult)\<rparr>)"

text \<open>The loop over the results of a fragment: each closes the open call of its id.\<close>

fun closeResults :: "string list \<Rightarrow> budgetUnit list \<Rightarrow> openCalls \<Rightarrow> nat option \<Rightarrow> budgetUnit list \<times> openCalls \<times> nat option" where
  "closeResults [] units opened home = (units, opened, home)"
| "closeResults (rid # rids) units opened home =
     (case map_of opened rid of
        None \<Rightarrow> closeResults rids units opened home
      | Some idx \<Rightarrow>
          (let opened1 = mapDel rid opened in
           case home of
             None \<Rightarrow> closeResults rids units opened1 (Some idx)
           | Some h \<Rightarrow>
               if h \<noteq> idx
               then (case mergeBudgetUnits units h idx opened1 of (units2, opened2) \<Rightarrow> closeResults rids units2 opened2 home)
               else closeResults rids units opened1 home))"

definition unitStep :: "TaggedFrag list \<Rightarrow> budgetUnit list \<times> openCalls \<Rightarrow> nat \<Rightarrow> budgetUnit list \<times> openCalls" where
  "unitStep tagged st i =
     (let t = tagged ! i; callIDs = fragToolCallIDs (tf_Frag t); resultIDs = fragToolResultCallIDs (tf_Frag t) in
      case closeResults resultIDs (fst st) (snd st) None of
        (units1, opened1, home) \<Rightarrow>
          (let units2 = (case home of None \<Rightarrow> units1 @ [zeroUnit\<lparr>bu_droppable := True\<rparr>] | Some _ \<Rightarrow> units1);
               h = (case home of None \<Rightarrow> length units1 | Some h \<Rightarrow> h)
           in (units2[h := addFragToBudgetUnit (units2 ! h) i t (callIDs \<noteq> []) (resultIDs \<noteq> [])],
               foldl (\<lambda>m cid. mapPut cid h m) opened1 callIDs)))"

definition buildBudgetUnits :: "TaggedFrag list \<Rightarrow> budgetUnit list" where
  "buildBudgetUnits tagged = fst (foldl (unitStep tagged) ([], []) [0..<length tagged])"

section \<open>Trimming\<close>

type_synonym dropReasons = "(nat, string) gomap"

definition dropUnit :: "string \<Rightarrow> dropReasons \<Rightarrow> budgetUnit \<Rightarrow> dropReasons" where
  "dropUnit reason m u = foldl (\<lambda>m idx. mapPut idx reason m) m (bu_indexes u)"

definition poolIndexes :: "budgetUnit list \<Rightarrow> nat list" where
  "poolIndexes units =
     filter (\<lambda>k. bu_droppable (units ! k) \<and> \<not> orphanToolExchange (units ! k)) [0..<length units]"

definition orphanDrops :: "budgetUnit list \<Rightarrow> dropReasons" where
  "orphanDrops units =
     foldl (dropUnit budgetDropReasonOrphanExchange) [] (filter (\<lambda>u. bu_droppable u \<and> orphanToolExchange u) units)"

text \<open>The start of the recent window: the newest units of the pool whose tokens fit in it.\<close>

fun windowStart :: "budgetUnit list \<Rightarrow> nat list \<Rightarrow> int \<Rightarrow> int \<Rightarrow> nat \<Rightarrow> nat" where
  "windowStart units pool recent acc 0 = 0"
| "windowStart units pool recent acc (Suc n) =
     (if acc + bu_tokens (units ! (pool ! n)) \<le> recent
      then windowStart units pool recent (acc + bu_tokens (units ! (pool ! n))) n
      else Suc n)"

text \<open>\<open>dropTier\<close> over one band; the state is the drops and the droppable total.\<close>

fun dropTier :: "budgetUnit list \<Rightarrow> int \<Rightarrow> nat \<Rightarrow> string \<Rightarrow> nat list \<Rightarrow> dropReasons \<times> int \<Rightarrow> dropReasons \<times> int" where
  "dropTier units maxTokens tier reason [] st = st"
| "dropTier units maxTokens tier reason (k # band) (m, left) =
     (if left \<le> maxTokens then (m, left)
      else if unitTier (units ! k) \<noteq> tier then dropTier units maxTokens tier reason band (m, left)
      else dropTier units maxTokens tier reason band (dropUnit reason m (units ! k), left - bu_tokens (units ! k)))"

definition tierStep :: "budgetUnit list \<Rightarrow> int \<Rightarrow> nat list \<Rightarrow> nat list \<Rightarrow> dropReasons \<times> int \<Rightarrow> nat \<Rightarrow> dropReasons \<times> int" where
  "tierStep units maxTokens outside inside st tier =
     (if snd st \<le> maxTokens then st
      else dropTier units maxTokens tier budgetDropReasonRecentWindow inside
             (dropTier units maxTokens tier (budgetDropReasonForTier tier) outside st))"

definition budgetTrimDropsEnabled :: "TaggedFrag list \<Rightarrow> int \<Rightarrow> int \<Rightarrow> dropReasons" where
  "budgetTrimDropsEnabled tagged maxTokens0 recentProtectTokens =
     (let maxTokens = max 0 maxTokens0; units = buildBudgetUnits tagged;
          drops = orphanDrops units; pool = poolIndexes units;
          total = sum_list (map (\<lambda>k. bu_tokens (units ! k)) pool)
      in if total \<le> maxTokens then drops
         else (let start = windowStart units pool recentProtectTokens 0 (length pool)
               in fst (foldl (tierStep units maxTokens (take start pool) (drop start pool)) (drops, total)
                         [attentionTierPassive, attentionTierUntiered, attentionTierDirected])))"

definition budgetTrimDrops :: "TaggedFrag list \<Rightarrow> int \<Rightarrow> int \<Rightarrow> dropReasons" where
  "budgetTrimDrops tagged maxTokens recentProtectTokens =
     (if maxTokens \<le> 0 then [] else budgetTrimDropsEnabled tagged maxTokens recentProtectTokens)"

definition orphanExchangeDrops :: "TaggedFrag list \<Rightarrow> dropReasons" where
  "orphanExchangeDrops tagged = orphanDrops (buildBudgetUnits tagged)"

section \<open>What the budget is charged\<close>

definition chargedHistory :: "ContextFrag \<Rightarrow> bool" where
  "chargedHistory frag \<longleftrightarrow>
     xf_Slot frag \<noteq> SlotSystem \<and> xf_Slot frag \<noteq> SlotCurrentUser \<and> xf_Kind frag \<noteq> KindCurrentUserMessage"

definition protectedHistoryTokenCost :: "TaggedFrag list \<Rightarrow> int" where
  "protectedHistoryTokenCost tagged =
     sum_list (map (\<lambda>u. if bu_droppable u then 0
                        else sum_list (map (\<lambda>i. if chargedHistory (tf_Frag (tagged ! i)) then tf_Tokens (tagged ! i) else 0) (bu_indexes u)))
              (buildBudgetUnits tagged))"

definition droppableHistoryTokenCost :: "TaggedFrag list \<Rightarrow> int" where
  "droppableHistoryTokenCost tagged = sum_list (map bu_tokens (filter bu_droppable (buildBudgetUnits tagged)))"

definition hasSpatialBudgetDrop :: "dropReasons \<Rightarrow> bool" where
  "hasSpatialBudgetDrop m = list_ex (\<lambda>(_, reason). reason \<noteq> budgetDropReasonOrphanExchange) m"

section \<open>The trim notice\<close>

definition HistoryTrimNotice :: string where
  "HistoryTrimNotice = ''[System Notice] Some earlier and intervening messages were trimmed to fit the context window. If you need information from the trimmed messages, use the available tools (such as memory_read or web search) to retrieve it.''"

definition historyTrimNoticeID :: string where "historyTrimNoticeID = ''history.trim_notice''"

definition TrimNoticeFrag :: "FragEnv \<Rightarrow> FragScope \<Rightarrow> ContextFrag" where
  "TrimNoticeFrag env scope =
     MessageFrag
       \<lparr>xf_ID = historyTrimNoticeID, xf_Ref = zeroRef, xf_Kind = KindSystemPolicy, xf_Role = '''', xf_Slot = SlotHistory,
        xf_Priority = 30, xf_RetentionTier = '''', xf_DropPriority = 0, xf_RequiredCapability = '''', xf_CacheClass = CacheNever,
        xf_Trust = TrustSystem, xf_Scope = scope, xf_Budget = zeroBudget, xf_Render = zeroRender,
        xf_Provenance = \<lparr>xv_Source = ''context_select'', xv_SourceID = historyTrimNoticeID, xv_Collector = ''budget_trim'', xv_Index = 0\<rparr>,
        xf_TokenEstimate = 0, xf_ConflictKey = '''', xf_Parts = []\<rparr>
       \<lparr>ms_Role = ne_RoleSystem env, ms_Content = [TextPart HistoryTrimNotice '''']\<rparr>"

end
