(* ===== verification/BudgetUnits.thy ===== *)
theory BudgetUnits
  imports SelectBudget "HOL-Library.Multiset"
begin

text \<open>
  What the units of a budget are: they partition the fragments, carry the tokens, the tier
  and the droppability of their members, and hold a result together with the call it
  answers. The ghost map \<open>callers\<close> names the fragment that opened a call.
\<close>

section \<open>One unit\<close>

abbreviation attentive :: "TaggedFrag \<Rightarrow> bool" where
  "attentive t \<equiv> xs_Attention (xf_Scope (tf_Frag t)) \<noteq> []"

text \<open>The highest tier among the members with attention data, 0 without one.\<close>

definition topTier :: "TaggedFrag list \<Rightarrow> nat list \<Rightarrow> nat" where
  "topTier tagged idx = Max (insert 0 (fragAttentionTier ` tf_Frag ` {t \<in> (!) tagged ` set idx. attentive t}))"

definition unitOk :: "TaggedFrag list \<Rightarrow> budgetUnit \<Rightarrow> bool" where
  "unitOk tagged u \<longleftrightarrow>
     bu_tokens u = sum_list (map (\<lambda>i. tf_Tokens (tagged ! i)) (bu_indexes u)) \<and>
     bu_droppable u = (bu_indexes u \<noteq> [] \<and> (\<forall>i\<in>set (bu_indexes u). HasTag (tagged ! i) TagCanDrop)) \<and>
     bu_hasAttention u = (\<exists>i\<in>set (bu_indexes u). attentive (tagged ! i)) \<and>
     bu_attentionTier u = topTier tagged (bu_indexes u) \<and>
     bu_hasCall u = (\<exists>i\<in>set (bu_indexes u). fragToolCallIDs (tf_Frag (tagged ! i)) \<noteq> []) \<and>
     bu_hasResult u = (\<exists>i\<in>set (bu_indexes u). fragToolResultCallIDs (tf_Frag (tagged ! i)) \<noteq> [])"

lemma topTier_simps:
  "topTier tagged [] = 0"
  "topTier tagged (xs @ ys) = max (topTier tagged xs) (topTier tagged ys)"
  "topTier tagged [i] = (if attentive (tagged ! i) then fragAttentionTier (tf_Frag (tagged ! i)) else 0)"
proof -
  show "topTier tagged [] = 0" by (simp add: topTier_def)
  have "{t \<in> (!) tagged ` set [i]. attentive t} = (if attentive (tagged ! i) then {tagged ! i} else {})" by auto
  then show "topTier tagged [i] = (if attentive (tagged ! i) then fragAttentionTier (tf_Frag (tagged ! i)) else 0)"
    by (simp add: topTier_def)
  let ?tiers = "\<lambda>zs. insert 0 (fragAttentionTier ` tf_Frag ` {t \<in> (!) tagged ` set zs. attentive t})"
  have "?tiers (xs @ ys) = ?tiers xs \<union> ?tiers ys" by auto
  then show "topTier tagged (xs @ ys) = max (topTier tagged xs) (topTier tagged ys)"
    by (simp only: topTier_def) (rule Max_Un, auto)
qed

lemma topTier_inattentive: "\<forall>i\<in>set idx. \<not> attentive (tagged ! i) \<Longrightarrow> topTier tagged idx = 0"
  by (auto simp: topTier_def intro!: Max_eqI)

lemma unitOk_zero [simp]: "unitOk tagged zeroUnit"
  by (simp add: unitOk_def zeroUnit_def topTier_simps)

lemma unitOk_inattentive: "unitOk tagged u \<Longrightarrow> \<not> bu_hasAttention u \<Longrightarrow> bu_attentionTier u = 0"
  using topTier_inattentive [of "bu_indexes u" tagged] unfolding unitOk_def by metis

lemma unitOk_join:
  assumes "unitOk tagged u" "unitOk tagged v" "bu_indexes u \<noteq> []" "bu_indexes v \<noteq> []"
  shows "unitOk tagged (joinUnit u v)"
proof -
  have "bu_attentionTier (joinUnit u v) = max (bu_attentionTier u) (bu_attentionTier v)"
    using assms(1,2) [THEN unitOk_inattentive]
    by (cases "bu_hasAttention u"; cases "bu_hasAttention v") (auto simp: joinUnit_def max_def)
  then have "bu_attentionTier (joinUnit u v) = topTier tagged (bu_indexes u @ bu_indexes v)"
    using assms by (simp add: unitOk_def topTier_simps)
  with assms show ?thesis
    by (simp add: unitOk_def joinUnit_def ball_Un bex_Un)
qed

lemma unitOk_add:
  assumes "unitOk tagged u \<or> u = zeroUnit\<lparr>bu_droppable := True\<rparr>" "bu_indexes u = [] \<longrightarrow> u = zeroUnit\<lparr>bu_droppable := True\<rparr>"
  shows "unitOk tagged (addFragToBudgetUnit u i (tagged ! i) (fragToolCallIDs (tf_Frag (tagged ! i)) \<noteq> [])
           (fragToolResultCallIDs (tf_Frag (tagged ! i)) \<noteq> []))"
proof (cases "bu_indexes u = []")
  case True
  then show ?thesis
    using assms by (simp add: unitOk_def addFragToBudgetUnit_def zeroUnit_def Let_def topTier_simps)
next
  case False
  then have u: "unitOk tagged u" using assms by (auto simp: zeroUnit_def)
  let ?v = "addFragToBudgetUnit u i (tagged ! i) (fragToolCallIDs (tf_Frag (tagged ! i)) \<noteq> [])
           (fragToolResultCallIDs (tf_Frag (tagged ! i)) \<noteq> [])"
  have "bu_attentionTier ?v = max (bu_attentionTier u) (topTier tagged [i])"
    using unitOk_inattentive [OF u]
    by (cases "bu_hasAttention u") (auto simp: addFragToBudgetUnit_def Let_def topTier_simps max_def)
  then have "bu_attentionTier ?v = topTier tagged (bu_indexes u @ [i])"
    using u by (simp add: unitOk_def topTier_simps)
  with u False show ?thesis
    by (simp add: unitOk_def addFragToBudgetUnit_def Let_def disj_commute conj_commute)
qed

section \<open>All units\<close>

definition unitIndexes :: "budgetUnit list \<Rightarrow> nat list" where
  "unitIndexes units = concat (map bu_indexes units)"

definition sameUnit :: "budgetUnit list \<Rightarrow> nat \<Rightarrow> nat \<Rightarrow> bool" where
  "sameUnit units i j \<longleftrightarrow> (\<exists>u\<in>set units. i \<in> set (bu_indexes u) \<and> j \<in> set (bu_indexes u))"

definition openOk :: "(string \<Rightarrow> nat option) \<Rightarrow> budgetUnit list \<Rightarrow> openCalls \<Rightarrow> bool" where
  "openOk callers units opened \<longleftrightarrow>
     (\<forall>cid. callers cid = None \<longrightarrow> map_of opened cid = None) \<and>
     (\<forall>cid c. callers cid = Some c \<longrightarrow>
        (\<exists>k. map_of opened cid = Some k \<and> k < length units \<and> c \<in> set (bu_indexes (units ! k))))"

definition unitsInv :: "TaggedFrag list \<Rightarrow> nat \<Rightarrow> (string \<Rightarrow> nat option) \<Rightarrow> budgetUnit list \<Rightarrow> openCalls \<Rightarrow> bool" where
  "unitsInv tagged n callers units opened \<longleftrightarrow>
     (\<forall>u\<in>set units. unitOk tagged u) \<and> mset (unitIndexes units) = mset [0..<n] \<and> openOk callers units opened"

text \<open>Merging two units of the list.\<close>

lemma mset_concat_update:
  "k < length xss \<Longrightarrow> mset (concat (xss[k := ys])) + mset (xss ! k) = mset (concat xss) + mset ys"
  by (induction xss arbitrary: k) (auto simp: nth_Cons split: nat.split)

lemma unitIndexes_update:
  "k < length units \<Longrightarrow>
    mset (unitIndexes (units[k := u])) + mset (bu_indexes (units ! k)) = mset (unitIndexes units) + mset (bu_indexes u)"
  using mset_concat_update [of k "map bu_indexes units" "bu_indexes u"] by (simp add: unitIndexes_def map_update)

lemma joinUnit_indexes [simp]: "bu_indexes (joinUnit u v) = bu_indexes u @ bu_indexes v"
  by (simp add: joinUnit_def)

lemma zeroUnit_indexes [simp]: "bu_indexes zeroUnit = []"
  by (simp add: zeroUnit_def)

lemma merge_indexes:
  assumes "dest < length units" "src < length units" "dest \<noteq> src"
  shows "mset (unitIndexes (units[dest := joinUnit (units ! dest) (units ! src), src := zeroUnit])) = mset (unitIndexes units)"
proof -
  let ?us = "units[dest := joinUnit (units ! dest) (units ! src)]"
  have "mset (unitIndexes (?us[src := zeroUnit])) + mset (bu_indexes (units ! src)) = mset (unitIndexes ?us)"
    using unitIndexes_update [of src ?us zeroUnit] assms by simp
  moreover have "mset (unitIndexes ?us) = mset (unitIndexes units) + mset (bu_indexes (units ! src))"
    using unitIndexes_update [of dest units "joinUnit (units ! dest) (units ! src)"] assms by (simp add: ac_simps)
  ultimately show ?thesis by simp
qed

lemma merge_sameUnit:
  assumes "dest < length units" "src < length units" "dest \<noteq> src" "sameUnit units i j"
  shows "sameUnit (units[dest := joinUnit (units ! dest) (units ! src), src := zeroUnit]) i j"
proof -
  obtain k where k: "k < length units" "i \<in> set (bu_indexes (units ! k))" "j \<in> set (bu_indexes (units ! k))"
    using assms(4) unfolding sameUnit_def by (metis in_set_conv_nth)
  let ?us = "units[dest := joinUnit (units ! dest) (units ! src), src := zeroUnit]"
  let ?k = "if k = src then dest else k"
  have "?us ! ?k \<in> set ?us" using k assms by (intro nth_mem) simp
  moreover have "i \<in> set (bu_indexes (?us ! ?k)) \<and> j \<in> set (bu_indexes (?us ! ?k))"
    using k assms by (auto simp: nth_list_update)
  ultimately show ?thesis unfolding sameUnit_def by blast
qed

lemma map_of_redirect:
  "map_of (map (\<lambda>(cid, idx). (cid, if idx = src then dest else idx)) m) cid =
    map_option (\<lambda>idx. if idx = src then dest else idx) (map_of m cid)"
  by (simp add: map_of_map)

lemma merge_inv:
  assumes inv: "unitsInv tagged n callers units opened" and d: "dest < length units" "src < length units" "dest \<noteq> src"
    and ne: "bu_indexes (units ! dest) \<noteq> []" "bu_indexes (units ! src) \<noteq> []"
    and m: "mergeBudgetUnits units dest src opened = (units', opened')"
  shows "unitsInv tagged n callers units' opened'"
proof -
  have us: "units' = units[dest := joinUnit (units ! dest) (units ! src), src := zeroUnit]"
    and os: "opened' = map (\<lambda>(cid, idx). (cid, if idx = src then dest else idx)) opened"
    using m by (simp_all add: mergeBudgetUnits_def)
  have "unitOk tagged (joinUnit (units ! dest) (units ! src))"
    using inv d ne by (intro unitOk_join) (auto simp: unitsInv_def)
  then have "\<forall>u\<in>set units'. unitOk tagged u"
    using inv by (auto simp: us unitsInv_def dest!: set_update_subset_insert [THEN subsetD])
  moreover have "openOk callers units' opened'"
    unfolding openOk_def
  proof (intro conjI allI impI)
    fix cid assume "callers cid = None"
    then show "map_of opened' cid = None" using inv by (simp add: unitsInv_def openOk_def os map_of_redirect)
  next
    fix cid c assume "callers cid = Some c"
    then obtain k where "map_of opened cid = Some k" "k < length units" "c \<in> set (bu_indexes (units ! k))"
      using inv unfolding unitsInv_def openOk_def by blast
    then show "\<exists>k. map_of opened' cid = Some k \<and> k < length units' \<and> c \<in> set (bu_indexes (units' ! k))"
      using d by (intro exI [of _ "if k = src then dest else k"]) (auto simp: us os map_of_redirect nth_list_update)
  qed
  ultimately show ?thesis
    using inv merge_indexes [OF d] by (simp add: unitsInv_def us)
qed

text \<open>The results of a fragment: every answered call ends up in the fragment's home.\<close>

lemma openOk_delete: "openOk callers units opened \<Longrightarrow> openOk (callers(cid := None)) units (mapDel cid opened)"
  by (auto simp: openOk_def)

lemma openOk_Some:
  "openOk callers units opened \<Longrightarrow> map_of opened cid = Some k \<Longrightarrow>
    \<exists>c. callers cid = Some c \<and> k < length units \<and> c \<in> set (bu_indexes (units ! k))"
  unfolding openOk_def by (cases "callers cid") fastforce+

definition closeOk :: "string list \<Rightarrow> (string \<Rightarrow> nat option) \<Rightarrow> budgetUnit list \<Rightarrow> nat option \<Rightarrow> budgetUnit list \<Rightarrow> nat option \<Rightarrow> bool" where
  "closeOk rids callers units home units' home' \<longleftrightarrow>
     (\<forall>i j. sameUnit units i j \<longrightarrow> sameUnit units' i j) \<and>
     (\<forall>h. home = Some h \<longrightarrow> home' = Some h \<and> set (bu_indexes (units ! h)) \<subseteq> set (bu_indexes (units' ! h))) \<and>
     (\<forall>rid\<in>set rids. \<forall>c. callers rid = Some c \<longrightarrow> (\<exists>h. home' = Some h \<and> c \<in> set (bu_indexes (units' ! h)))) \<and>
     (\<forall>h. home' = Some h \<longrightarrow> h < length units' \<and> bu_indexes (units' ! h) \<noteq> [])"

lemma closeOk_Cons:
  assumes "closeOk rids (callers(rid := None)) units2 (Some h) units' home'"
    and "\<And>i j. sameUnit units i j \<Longrightarrow> sameUnit units2 i j"
    and "callers rid = Some c" "c \<in> set (bu_indexes (units2 ! h))"
    and "\<And>h0. home = Some h0 \<Longrightarrow> h0 = h \<and> set (bu_indexes (units ! h)) \<subseteq> set (bu_indexes (units2 ! h))"
  shows "closeOk (rid # rids) callers units home units' home'"
proof -
  have home': "home' = Some h" "set (bu_indexes (units2 ! h)) \<subseteq> set (bu_indexes (units' ! h))"
    and ans: "\<And>r d. r \<in> set rids \<Longrightarrow> r \<noteq> rid \<Longrightarrow> callers r = Some d \<Longrightarrow> d \<in> set (bu_indexes (units' ! h))"
    using assms(1) unfolding closeOk_def by (auto split: if_splits)
  have "d \<in> set (bu_indexes (units' ! h))" if "r \<in> set (rid # rids)" "callers r = Some d" for r d
    using that ans home' assms(3,4) by (cases "r = rid") auto
  then show ?thesis
    using assms(1,2) assms(5) home' unfolding closeOk_def by blast
qed

lemma closeResults_inv:
  "closeResults rids units opened home = (units', opened', home') \<Longrightarrow> unitsInv tagged n callers units opened \<Longrightarrow>
    (\<forall>h. home = Some h \<longrightarrow> h < length units \<and> bu_indexes (units ! h) \<noteq> []) \<Longrightarrow>
    unitsInv tagged n (callers |` (- set rids)) units' opened' \<and> closeOk rids callers units home units' home'"
proof (induction rids units opened home arbitrary: callers rule: closeResults.induct)
  case (1 units opened home)
  then show ?case by (simp add: closeOk_def)
next
  case (2 rid rids units opened home)
  have os: "openOk callers units opened" using "2.prems"(2) by (simp add: unitsInv_def)
  have restrict: "callers(rid := None) |` (- set rids) = callers |` (- set (rid # rids))"
    by (auto simp: restrict_map_def fun_eq_iff)
  show ?case
  proof (cases "map_of opened rid")
    case None
    then have c: "callers rid = None" using os unfolding openOk_def by (cases "callers rid") fastforce+
    then have "callers |` (- set (rid # rids)) = callers |` (- set rids)"
      by (auto simp: restrict_map_def fun_eq_iff)
    then show ?thesis using 2 None c by (simp add: closeOk_def)
  next
    case (Some idx)
    let ?opened = "mapDel rid opened" and ?callers = "callers(rid := None)"
    obtain c where c: "callers rid = Some c" "idx < length units" "c \<in> set (bu_indexes (units ! idx))"
      using openOk_Some [OF os Some] by blast
    have inv1: "unitsInv tagged n ?callers units ?opened"
      using "2.prems"(2) openOk_delete [OF os] by (simp add: unitsInv_def)
    show ?thesis
    proof (cases home)
      case None
      have "unitsInv tagged n (?callers |` (- set rids)) units' opened' \<and> closeOk rids ?callers units (Some idx) units' home'"
        using "2.prems"(1) c by (intro "2.IH"(2) [OF Some refl None _ inv1]) (auto simp: Some None)
      then have one: "unitsInv tagged n (?callers |` (- set rids)) units' opened'"
        and two: "closeOk rids ?callers units (Some idx) units' home'" by blast+
      have "closeOk (rid # rids) callers units home units' home'"
        by (rule closeOk_Cons [OF two _ c(1,3)]) (simp_all add: None)
      with one show ?thesis unfolding restrict by blast
    next
      case (Some h)
      note home = Some
      have h: "h < length units" "bu_indexes (units ! h) \<noteq> []" using "2.prems"(3) home by auto
      show ?thesis
      proof (cases "h = idx")
        case True
        have "unitsInv tagged n (?callers |` (- set rids)) units' opened' \<and> closeOk rids ?callers units home units' home'"
          using "2.prems"(1,3) \<open>map_of opened rid = Some idx\<close> home True
          by (intro "2.IH"(4) [OF \<open>map_of opened rid = Some idx\<close> refl home _ _ inv1]) auto
        then have one: "unitsInv tagged n (?callers |` (- set rids)) units' opened'"
          and two: "closeOk rids ?callers units (Some idx) units' home'" unfolding home True by blast+
        have "closeOk (rid # rids) callers units home units' home'"
          by (rule closeOk_Cons [OF two _ c(1,3)]) (simp_all add: home True)
        with one show ?thesis unfolding restrict by blast
      next
        case False
        obtain units2 opened2 where m: "mergeBudgetUnits units h idx ?opened = (units2, opened2)" by fastforce
        have us: "units2 = units[h := joinUnit (units ! h) (units ! idx), idx := zeroUnit]"
          using m by (simp add: mergeBudgetUnits_def)
        have inv2: "unitsInv tagged n ?callers units2 opened2"
          using c h False by (intro merge_inv [OF inv1 _ _ _ _ _ m]) auto
        have "unitsInv tagged n (?callers |` (- set rids)) units' opened' \<and> closeOk rids ?callers units2 home units' home'"
          using "2.prems"(1) \<open>map_of opened rid = Some idx\<close> home False h m
          by (intro "2.IH"(3) [OF \<open>map_of opened rid = Some idx\<close> refl home False m [symmetric] _ inv2]) (auto simp: us)
        then have one: "unitsInv tagged n (?callers |` (- set rids)) units' opened'"
          and two: "closeOk rids ?callers units2 (Some h) units' home'" unfolding home by blast+
        have u2: "units2 ! h = joinUnit (units ! h) (units ! idx)" using h False by (simp add: us)
        have "closeOk (rid # rids) callers units home units' home'"
          by (rule closeOk_Cons [OF two _ c(1)])
            (use c h False merge_sameUnit [OF h(1) c(2) False] in \<open>simp_all add: home u2 flip: us\<close>)
        with one show ?thesis unfolding restrict by blast
      qed
    qed
  qed
qed

section \<open>The pass over the fragments\<close>

definition callerStep :: "TaggedFrag list \<Rightarrow> (string \<Rightarrow> nat option) \<Rightarrow> nat \<Rightarrow> string \<Rightarrow> nat option" where
  "callerStep tagged callers i cid =
     (if cid \<in> set (fragToolCallIDs (tf_Frag (tagged ! i))) then Some i
      else if cid \<in> set (fragToolResultCallIDs (tf_Frag (tagged ! i))) then None
      else callers cid)"

lemma map_of_opened:
  "map_of (foldl (\<lambda>m cid. mapPut cid h m) m cids) cid = (if cid \<in> set cids then Some h else map_of m cid)"
  by (induction cids arbitrary: m) auto

lemma sameUnit_set: "k < length units \<Longrightarrow> i \<in> set (bu_indexes (units ! k)) \<Longrightarrow> j \<in> set (bu_indexes (units ! k)) \<Longrightarrow> sameUnit units i j"
  unfolding sameUnit_def by (meson nth_mem)

lemma addFrag_indexes [simp]: "bu_indexes (addFragToBudgetUnit u i t a b) = bu_indexes u @ [i]"
  by (simp add: addFragToBudgetUnit_def Let_def)

lemma add_sameUnit:
  assumes "sameUnit units i j" "h < length units"
  shows "sameUnit (units[h := addFragToBudgetUnit (units ! h) k t a b]) i j"
proof -
  obtain m where m: "m < length units" "i \<in> set (bu_indexes (units ! m))" "j \<in> set (bu_indexes (units ! m))"
    using assms(1) unfolding sameUnit_def by (metis in_set_conv_nth)
  then show ?thesis by (intro sameUnit_set [of m]) (cases "m = h"; simp)+
qed

lemma openOk_mono:
  assumes "openOk callers units opened" "length units \<le> length units2" "\<forall>k<length units. units2 ! k = units ! k"
  shows "openOk callers units2 opened"
  unfolding openOk_def
proof (intro conjI allI impI)
  fix cid c assume "callers cid = Some c"
  then obtain k where "map_of opened cid = Some k" "k < length units" "c \<in> set (bu_indexes (units ! k))"
    using assms(1) unfolding openOk_def by blast
  then show "\<exists>k. map_of opened cid = Some k \<and> k < length units2 \<and> c \<in> set (bu_indexes (units2 ! k))"
    using assms(2,3) by (intro exI [of _ k]) simp
qed (use assms(1) in \<open>simp add: openOk_def\<close>)

text \<open>Adding the fragment to its home, an existing unit or the fresh one.\<close>

lemma add_inv:
  assumes inv: "\<forall>u\<in>set units. unitOk tagged u \<or> u = zeroUnit\<lparr>bu_droppable := True\<rparr>"
      "mset (unitIndexes units) = mset [0..<n]" "openOk callers units opened"
    and h: "h < length units" "\<forall>k<length units. k \<noteq> h \<longrightarrow> unitOk tagged (units ! k)"
      "bu_indexes (units ! h) = [] \<longrightarrow> units ! h = zeroUnit\<lparr>bu_droppable := True\<rparr>"
    and cs: "callers' = (\<lambda>cid. if cid \<in> set (fragToolCallIDs (tf_Frag (tagged ! n))) then Some n else callers cid)"
  shows "unitsInv tagged (Suc n) callers'
    (units[h := addFragToBudgetUnit (units ! h) n (tagged ! n) (fragToolCallIDs (tf_Frag (tagged ! n)) \<noteq> [])
              (fragToolResultCallIDs (tf_Frag (tagged ! n)) \<noteq> [])])
    (foldl (\<lambda>m cid. mapPut cid h m) opened (fragToolCallIDs (tf_Frag (tagged ! n))))"
    (is "unitsInv tagged (Suc n) callers' ?us ?os")
proof -
  have "unitOk tagged (?us ! k)" if "k < length units" for k
    using that h inv(1) unitOk_add [of tagged "units ! h" n] by (cases "k = h") auto
  then have "\<forall>u\<in>set ?us. unitOk tagged u" by (auto simp: in_set_conv_nth)
  moreover have "mset (unitIndexes ?us) = mset [0..<Suc n]"
    using unitIndexes_update [OF h(1), of "?us ! h"] h(1) inv(2) by simp
  moreover have "openOk callers' ?us ?os"
    unfolding openOk_def
  proof (intro conjI allI impI)
    fix cid assume "callers' cid = None"
    then show "map_of ?os cid = None" using inv(3) by (simp add: map_of_opened cs openOk_def split: if_splits)
  next
    fix cid c assume c: "callers' cid = Some c"
    show "\<exists>k. map_of ?os cid = Some k \<and> k < length ?us \<and> c \<in> set (bu_indexes (?us ! k))"
    proof (cases "cid \<in> set (fragToolCallIDs (tf_Frag (tagged ! n)))")
      case True
      then show ?thesis using c h(1) by (simp add: map_of_opened cs)
    next
      case False
      then obtain k where "map_of opened cid = Some k" "k < length units" "c \<in> set (bu_indexes (units ! k))"
        using c inv(3) unfolding openOk_def cs by (metis (full_types))
      then show ?thesis using False by (intro exI [of _ k]) (cases "k = h"; simp add: map_of_opened)
    qed
  qed
  ultimately show ?thesis by (simp add: unitsInv_def)
qed

lemma unitStep_inv:
  assumes inv: "unitsInv tagged n callers units opened" and st: "unitStep tagged (units, opened) n = (units', opened')"
  shows "unitsInv tagged (Suc n) (callerStep tagged callers n) units' opened' \<and>
    (\<forall>i j. sameUnit units i j \<longrightarrow> sameUnit units' i j) \<and>
    (\<forall>rid\<in>set (fragToolResultCallIDs (tf_Frag (tagged ! n))). \<forall>c. callers rid = Some c \<longrightarrow> sameUnit units' c n)"
proof -
  let ?calls = "fragToolCallIDs (tf_Frag (tagged ! n))" and ?results = "fragToolResultCallIDs (tf_Frag (tagged ! n))"
  obtain units1 opened1 home where close: "closeResults ?results units opened None = (units1, opened1, home)"
    by (metis prod_cases3)
  define units2 where "units2 = (case home of None \<Rightarrow> units1 @ [zeroUnit\<lparr>bu_droppable := True\<rparr>] | Some _ \<Rightarrow> units1)"
  define h where "h = (case home of None \<Rightarrow> length units1 | Some h \<Rightarrow> h)"
  have us: "units' = units2[h := addFragToBudgetUnit (units2 ! h) n (tagged ! n) (?calls \<noteq> []) (?results \<noteq> [])]"
    and os: "opened' = foldl (\<lambda>m cid. mapPut cid h m) opened1 ?calls"
    using st close by (auto simp: unitStep_def Let_def units2_def h_def)
  have closed: "unitsInv tagged n (callers |` (- set ?results)) units1 opened1 \<and> closeOk ?results callers units None units1 home"
    using closeResults_inv [OF close inv] by simp
  have h: "h < length units2" and grown: "\<forall>k<length units1. units2 ! k = units1 ! k" "length units1 \<le> length units2"
    and fresh: "home = None \<Longrightarrow> units2 ! h = zeroUnit\<lparr>bu_droppable := True\<rparr>"
    and kept: "\<And>g. home = Some g \<Longrightarrow> h = g \<and> units2 = units1 \<and> bu_indexes (units1 ! g) \<noteq> []"
    using closed by (auto simp: closeOk_def units2_def h_def nth_append split: option.splits)
  have cs: "callerStep tagged callers n = (\<lambda>cid. if cid \<in> set ?calls then Some n else (callers |` (- set ?results)) cid)"
    by (simp add: callerStep_def restrict_map_def fun_eq_iff)
  have inv1: "\<forall>u\<in>set units1. unitOk tagged u" "mset (unitIndexes units1) = mset [0..<n]"
      "openOk (callers |` (- set ?results)) units1 opened1"
    using closed unfolding unitsInv_def by blast+
  have op2: "openOk (callers |` (- set ?results)) units2 opened1"
    by (rule openOk_mono [OF inv1(3) grown(2,1)])
  have ix2: "mset (unitIndexes units2) = mset [0..<n]"
    using inv1(2) by (simp add: units2_def unitIndexes_def split: option.split)
  have ok2: "\<forall>u\<in>set units2. unitOk tagged u \<or> u = zeroUnit\<lparr>bu_droppable := True\<rparr>"
    using inv1(1) by (auto simp: units2_def split: option.split)
  have rest2: "\<forall>k<length units2. k \<noteq> h \<longrightarrow> unitOk tagged (units2 ! k)"
    using inv1(1) by (auto simp: units2_def h_def nth_append split: option.splits)
  have new2: "bu_indexes (units2 ! h) = [] \<longrightarrow> units2 ! h = zeroUnit\<lparr>bu_droppable := True\<rparr>"
    using fresh kept by (cases home) auto
  have "unitsInv tagged (Suc n) (callerStep tagged callers n) units' opened'"
    unfolding us os by (rule add_inv [OF ok2 ix2 op2 h rest2 new2 cs])
  moreover have "sameUnit units' i j" if "sameUnit units i j" for i j
  proof -
    have "sameUnit units1 i j" using closed that by (simp add: closeOk_def)
    then have "sameUnit units2 i j" by (auto simp: sameUnit_def units2_def split: option.split)
    then show ?thesis unfolding us by (rule add_sameUnit [OF _ h])
  qed
  moreover have "sameUnit units' c n" if "rid \<in> set ?results" "callers rid = Some c" for rid c
  proof -
    note answered = that
    obtain g where g: "home = Some g" "c \<in> set (bu_indexes (units1 ! g))"
      using closed answered unfolding closeOk_def by blast
    then show ?thesis using h kept [OF g(1)] unfolding us by (intro sameUnit_set [of h]) auto
  qed
  ultimately show ?thesis by blast
qed

definition buildTo :: "TaggedFrag list \<Rightarrow> nat \<Rightarrow> budgetUnit list \<times> openCalls" where
  "buildTo tagged n = foldl (unitStep tagged) ([], []) [0..<n]"

fun callersAt :: "TaggedFrag list \<Rightarrow> nat \<Rightarrow> string \<Rightarrow> nat option" where
  "callersAt tagged 0 = (\<lambda>_. None)"
| "callersAt tagged (Suc n) = callerStep tagged (callersAt tagged n) n"

lemma buildTo_simps:
  "buildTo tagged 0 = ([], [])"
  "buildTo tagged (Suc n) = unitStep tagged (buildTo tagged n) n"
  by (simp_all add: buildTo_def)

lemma buildTo_inv: "unitsInv tagged n (callersAt tagged n) (fst (buildTo tagged n)) (snd (buildTo tagged n))"
proof (induction n)
  case 0
  then show ?case by (simp add: buildTo_simps unitsInv_def unitIndexes_def openOk_def)
next
  case (Suc n)
  then show ?case
    using unitStep_inv [of tagged n "callersAt tagged n" "fst (buildTo tagged n)" "snd (buildTo tagged n)"]
    by (simp add: buildTo_simps del: One_nat_def)
qed

lemma buildTo_step:
  "sameUnit (fst (buildTo tagged n)) i j \<Longrightarrow> sameUnit (fst (buildTo tagged (Suc n))) i j"
  "rid \<in> set (fragToolResultCallIDs (tf_Frag (tagged ! n))) \<Longrightarrow> callersAt tagged n rid = Some c \<Longrightarrow>
    sameUnit (fst (buildTo tagged (Suc n))) c n"
  using unitStep_inv [OF buildTo_inv, of tagged n "fst (buildTo tagged (Suc n))" "snd (buildTo tagged (Suc n))"]
  unfolding buildTo_simps prod.collapse by blast+

lemma buildTo_mono: "n \<le> m \<Longrightarrow> sameUnit (fst (buildTo tagged n)) i j \<Longrightarrow> sameUnit (fst (buildTo tagged m)) i j"
  by (induction m rule: dec_induct) (auto dest: buildTo_step(1))

lemma build_units: "buildBudgetUnits tagged = fst (buildTo tagged (length tagged))"
  by (simp add: buildBudgetUnits_def buildTo_def)

text \<open>The units partition the fragments and are described by their members.\<close>

lemma units_ok: "u \<in> set (buildBudgetUnits tagged) \<Longrightarrow> unitOk tagged u"
  using buildTo_inv [of tagged "length tagged"] by (simp add: unitsInv_def build_units)

lemma units_partition: "mset (unitIndexes (buildBudgetUnits tagged)) = mset [0..<length tagged]"
  using buildTo_inv [of tagged "length tagged"] by (simp add: unitsInv_def build_units)

lemma units_distinct: "distinct (unitIndexes (buildBudgetUnits tagged))"
  using units_partition [of tagged] by (metis distinct_upt mset_eq_imp_distinct_iff)

lemma units_set: "set (unitIndexes (buildBudgetUnits tagged)) = {..<length tagged}"
  using arg_cong [OF units_partition [of tagged], of set_mset] by (simp add: atLeast0LessThan)

lemma concat_disjoint:
  assumes "distinct (concat xss)" "k < length xss" "j < length xss" "x \<in> set (xss ! k)" "x \<in> set (xss ! j)"
  shows "k = j"
  using assms
proof (induction xss arbitrary: k j)
  case (Cons xs xss)
  have in_rest: "x \<in> \<Union> (set ` set xss)" if "m < length xss" "x \<in> set (xss ! m)" for m
    using that nth_mem by blast
  show ?case
    using Cons.prems Cons.IH [of "k - 1" "j - 1"] in_rest [of "k - 1"] in_rest [of "j - 1"]
    by (cases k; cases j) auto
qed simp

lemma unit_unique:
  assumes "k < length (buildBudgetUnits tagged)" "j < length (buildBudgetUnits tagged)"
    and "i \<in> set (bu_indexes (buildBudgetUnits tagged ! k))" "i \<in> set (bu_indexes (buildBudgetUnits tagged ! j))"
  shows "k = j"
  using concat_disjoint [of "map bu_indexes (buildBudgetUnits tagged)" k j i] units_distinct [of tagged] assms
  by (simp add: unitIndexes_def)

text \<open>A result and the call it answers are in the same unit.\<close>

lemma answered_together:
  assumes "n < length tagged" "rid \<in> set (fragToolResultCallIDs (tf_Frag (tagged ! n)))" "callersAt tagged n rid = Some c"
  shows "sameUnit (buildBudgetUnits tagged) c n"
  unfolding build_units using assms by (intro buildTo_mono [OF _ buildTo_step(2)]) auto

end
