(* ===== verification/BudgetTrim.thy ===== *)
theory BudgetTrim
  imports BudgetUnits
begin

text \<open>
  Trimming is a walk along one fixed list of units, of which only the length depends on the
  budget: \<open>dropOrder\<close>, orphaned exchanges aside. The nested loops of the code are shown to
  be this walk; what trimming keeps, loses and costs follows from it.
\<close>

section \<open>The walk\<close>

type_synonym unitDrop = "nat \<times> string"

definition stepDrop :: "budgetUnit list \<Rightarrow> dropReasons \<Rightarrow> unitDrop \<Rightarrow> dropReasons" where
  "stepDrop units m d = dropUnit (snd d) m (units ! fst d)"

fun walk :: "budgetUnit list \<Rightarrow> int \<Rightarrow> unitDrop list \<Rightarrow> dropReasons \<times> int \<Rightarrow> dropReasons \<times> int" where
  "walk units budget [] st = st"
| "walk units budget (d # ds) (m, left) =
     (if left \<le> budget then (m, left) else walk units budget ds (stepDrop units m d, left - bu_tokens (units ! fst d)))"

definition bandOrder :: "budgetUnit list \<Rightarrow> nat \<Rightarrow> string \<Rightarrow> nat list \<Rightarrow> unitDrop list" where
  "bandOrder units tier reason band = map (\<lambda>k. (k, reason)) (filter (\<lambda>k. unitTier (units ! k) = tier) band)"

definition tierOrder :: "budgetUnit list \<Rightarrow> nat list \<Rightarrow> nat list \<Rightarrow> nat \<Rightarrow> unitDrop list" where
  "tierOrder units outside inside tier =
     bandOrder units tier (budgetDropReasonForTier tier) outside @ bandOrder units tier budgetDropReasonRecentWindow inside"

definition dropOrder :: "budgetUnit list \<Rightarrow> int \<Rightarrow> unitDrop list" where
  "dropOrder units recent =
     (let pool = poolIndexes units; start = windowStart units pool recent 0 (length pool)
      in concat (map (tierOrder units (take start pool) (drop start pool))
           [attentionTierPassive, attentionTierUntiered, attentionTierDirected]))"

lemma walk_stop: "snd st \<le> budget \<Longrightarrow> walk units budget ds st = st"
  by (cases st; cases ds) auto

lemma walk_append: "walk units budget (xs @ ys) st = walk units budget ys (walk units budget xs st)"
  by (induction units budget xs st rule: walk.induct) (auto simp: walk_stop)

lemma dropTier_walk: "dropTier units budget tier reason band st = walk units budget (bandOrder units tier reason band) st"
  by (induction units budget tier reason band st rule: dropTier.induct)
    (auto simp: bandOrder_def stepDrop_def walk_stop)

lemma tierStep_walk: "tierStep units budget outside inside st tier = walk units budget (tierOrder units outside inside tier) st"
  by (simp add: tierStep_def tierOrder_def walk_append dropTier_walk walk_stop)

lemma tierSteps_walk:
  "foldl (tierStep units budget outside inside) st tiers =
    walk units budget (concat (map (tierOrder units outside inside) tiers)) st"
  by (induction tiers arbitrary: st) (simp_all add: tierStep_walk walk_append)

text \<open>How many units the walk drops, and what it then leaves.\<close>

fun walkLength :: "budgetUnit list \<Rightarrow> int \<Rightarrow> unitDrop list \<Rightarrow> int \<Rightarrow> nat" where
  "walkLength units budget [] left = 0"
| "walkLength units budget (d # ds) left =
     (if left \<le> budget then 0 else Suc (walkLength units budget ds (left - bu_tokens (units ! fst d))))"

definition dropCost :: "budgetUnit list \<Rightarrow> unitDrop list \<Rightarrow> int" where
  "dropCost units ds = sum_list (map (\<lambda>d. bu_tokens (units ! fst d)) ds)"

lemma walk_take:
  "walk units budget ds (m, left) =
    (foldl (stepDrop units) m (take (walkLength units budget ds left) ds),
     left - dropCost units (take (walkLength units budget ds left) ds))"
  by (induction ds arbitrary: m left) (auto simp: dropCost_def)

lemma walk_antimono: "budget \<le> budget' \<Longrightarrow> walkLength units budget' ds left \<le> walkLength units budget ds left"
  by (induction ds arbitrary: left) auto

lemma walk_fits:
  "left - dropCost units (take (walkLength units budget ds left) ds) \<le> budget \<or> walkLength units budget ds left = length ds"
proof (induction ds arbitrary: left)
  case (Cons d ds)
  then show ?case using Cons.IH [of "left - bu_tokens (units ! fst d)"] by (auto simp: dropCost_def algebra_simps)
qed simp

section \<open>What is dropped\<close>

definition poolTotal :: "budgetUnit list \<Rightarrow> int" where
  "poolTotal units = sum_list (map (\<lambda>k. bu_tokens (units ! k)) (poolIndexes units))"

definition orphanList :: "budgetUnit list \<Rightarrow> unitDrop list" where
  "orphanList units =
     map (\<lambda>k. (k, budgetDropReasonOrphanExchange))
       (filter (\<lambda>k. bu_droppable (units ! k) \<and> orphanToolExchange (units ! k)) [0..<length units])"

definition spatialDrops :: "TaggedFrag list \<Rightarrow> int \<Rightarrow> int \<Rightarrow> unitDrop list" where
  "spatialDrops tagged budget recent =
     (let units = buildBudgetUnits tagged
      in take (walkLength units (max 0 budget) (dropOrder units recent) (poolTotal units)) (dropOrder units recent))"

lemma filter_nth: "filter P xs = map ((!) xs) (filter (\<lambda>k. P (xs ! k)) [0..<length xs])"
  by (subst (1) map_nth [of xs, symmetric]) (simp add: filter_map comp_def)

lemma orphanDrops_list: "orphanDrops units = foldl (stepDrop units) [] (orphanList units)"
  unfolding orphanDrops_def orphanList_def filter_nth [of _ units] foldl_map by (simp add: stepDrop_def)

lemma trim_list:
  "budgetTrimDropsEnabled tagged budget recent =
    foldl (stepDrop (buildBudgetUnits tagged)) []
      (orphanList (buildBudgetUnits tagged) @ spatialDrops tagged budget recent)"
proof -
  let ?units = "buildBudgetUnits tagged"
  have steps: "foldl (tierStep ?units (max 0 budget)
        (take (windowStart ?units (poolIndexes ?units) recent 0 (length (poolIndexes ?units))) (poolIndexes ?units))
        (drop (windowStart ?units (poolIndexes ?units) recent 0 (length (poolIndexes ?units))) (poolIndexes ?units)))
        st [attentionTierPassive, attentionTierUntiered, attentionTierDirected] =
      walk ?units (max 0 budget) (dropOrder ?units recent) st" for st
    by (simp only: tierSteps_walk dropOrder_def Let_def)
  show ?thesis
  proof (cases "poolTotal ?units \<le> max 0 budget")
    case True
    then have "walkLength ?units (max 0 budget) ds (poolTotal ?units) = 0" for ds by (cases ds) auto
    with True show ?thesis
      by (simp add: budgetTrimDropsEnabled_def Let_def orphanDrops_list spatialDrops_def poolTotal_def)
  next
    case False
    then show ?thesis
      unfolding budgetTrimDropsEnabled_def Let_def steps
      by (simp add: orphanDrops_list walk_take spatialDrops_def poolTotal_def Let_def)
  qed
qed

lemma dropUnit_lookup: "map_of (dropUnit reason m u) i = (if i \<in> set (bu_indexes u) then Some reason else map_of m i)"
proof -
  have "map_of (foldl (\<lambda>m idx. mapPut idx reason m) m idx) i = (if i \<in> set idx then Some reason else map_of m i)" for idx
    by (induction idx arbitrary: m) auto
  then show ?thesis by (simp add: dropUnit_def)
qed

lemma drops_lookup:
  assumes "distinct (map fst ds)" "\<And>d. d \<in> set ds \<Longrightarrow> fst d < length units"
    and "\<And>k j. k < length units \<Longrightarrow> j < length units \<Longrightarrow> i \<in> set (bu_indexes (units ! k)) \<Longrightarrow> i \<in> set (bu_indexes (units ! j)) \<Longrightarrow> k = j"
  shows "map_of (foldl (stepDrop units) [] ds) i = Some r \<longleftrightarrow> (\<exists>k. (k, r) \<in> set ds \<and> i \<in> set (bu_indexes (units ! k)))"
  using assms(1,2)
proof (induction ds rule: rev_induct)
  case (snoc d ds)
  show ?case
  proof (cases "i \<in> set (bu_indexes (units ! fst d))")
    case True
    have "k = fst d \<and> r = snd d" if "(k, r) \<in> set (ds @ [d])" "i \<in> set (bu_indexes (units ! k))" for k r
    proof -
      have "k < length units" "fst d < length units" using snoc.prems(2) [of "(k, r)"] snoc.prems(2) [of d] that(1) by simp_all
      then have k: "k = fst d" using assms(3) that(2) True by blast
      moreover have "fst d \<notin> fst ` set ds" using snoc.prems(1) by simp
      ultimately have "(k, r) \<notin> set ds" by (metis fst_conv image_eqI)
      then show ?thesis using that(1) k by (cases d) auto
    qed
    moreover have "(fst d, snd d) \<in> set (ds @ [d])" by simp
    moreover have "map_of (foldl (stepDrop units) [] (ds @ [d])) i = Some (snd d)"
      using True by (simp add: stepDrop_def dropUnit_lookup)
    ultimately show ?thesis using True by (metis option.inject)
  next
    case False
    then have "map_of (foldl (stepDrop units) [] (ds @ [d])) i = map_of (foldl (stepDrop units) [] ds) i"
      by (simp add: stepDrop_def dropUnit_lookup)
    moreover have "(k, r) \<in> set (ds @ [d]) \<and> i \<in> set (bu_indexes (units ! k)) \<longleftrightarrow>
        (k, r) \<in> set ds \<and> i \<in> set (bu_indexes (units ! k))" for k
      using False by auto
    ultimately show ?thesis using snoc by simp
  qed
qed simp

text \<open>The walk passes every unit of the pool exactly once.\<close>

lemma tier_bound:
  assumes "unitOk tagged u"
  shows "unitTier u \<in> {attentionTierPassive, attentionTierUntiered, attentionTierDirected}"
proof -
  have "fragAttentionTier frag \<le> 2" for frag by (simp add: fragAttentionTier_def tier_names)
  then have "topTier tagged idx \<le> 2" for idx by (auto simp: topTier_def)
  then have "bu_attentionTier u \<le> 2" using assms by (simp add: unitOk_def)
  then show ?thesis by (auto simp: unitTier_def tier_names)
qed

lemma tierOrder_fst:
  "mset (map fst (tierOrder units outside inside tier)) = mset (filter (\<lambda>k. unitTier (units ! k) = tier) (outside @ inside))"
  by (simp add: tierOrder_def bandOrder_def comp_def)

lemma filter_three:
  "\<forall>k\<in>set xs. f k \<in> {a, b, c} \<Longrightarrow> distinct [a, b, c] \<Longrightarrow>
    mset (filter (\<lambda>k. f k = a) xs) + mset (filter (\<lambda>k. f k = b) xs) + mset (filter (\<lambda>k. f k = c) xs) = mset xs"
  by (induction xs) auto

lemma dropOrder_pool: "mset (map fst (dropOrder (buildBudgetUnits tagged) recent)) = mset (poolIndexes (buildBudgetUnits tagged))"
proof -
  let ?units = "buildBudgetUnits tagged"
  let ?pool = "poolIndexes ?units"
  have "\<forall>k\<in>set ?pool. unitTier (?units ! k) \<in> {attentionTierPassive, attentionTierUntiered, attentionTierDirected}"
    using tier_bound [OF units_ok, OF nth_mem] by (auto simp: poolIndexes_def)
  from filter_three [OF this] show ?thesis
    by (simp only: dropOrder_def Let_def list.map concat.simps map_append mset_append tierOrder_fst append_take_drop_id
        append_Nil2 add.assoc) (simp add: tier_names)
qed

lemma orphan_pool_distinct:
  "distinct (map fst (orphanList (buildBudgetUnits tagged) @ dropOrder (buildBudgetUnits tagged) recent))"
proof -
  have "distinct (map fst (dropOrder (buildBudgetUnits tagged) recent))"
    using dropOrder_pool [of tagged recent] by (metis distinct_filter distinct_upt mset_eq_imp_distinct_iff poolIndexes_def)
  moreover have "set (map fst (dropOrder (buildBudgetUnits tagged) recent)) = set (poolIndexes (buildBudgetUnits tagged))"
    by (rule mset_eq_setD [OF dropOrder_pool])
  ultimately show ?thesis by (auto simp: orphanList_def poolIndexes_def comp_def simp del: set_map)
qed

section \<open>Consequences\<close>

lemma dropOrder_set: "set (map fst (dropOrder (buildBudgetUnits tagged) recent)) = set (poolIndexes (buildBudgetUnits tagged))"
  by (rule mset_eq_setD [OF dropOrder_pool])

lemma spatial_prefix: "\<exists>n. spatialDrops tagged budget recent = take n (dropOrder (buildBudgetUnits tagged) recent)"
  by (auto simp: spatialDrops_def Let_def)

lemma spatial_subset: "set (spatialDrops tagged budget recent) \<subseteq> set (dropOrder (buildBudgetUnits tagged) recent)"
  using spatial_prefix [of tagged budget recent] by (auto dest: in_set_takeD)

text \<open>The drop map, by units.\<close>

lemma trim_lookup:
  "map_of (budgetTrimDropsEnabled tagged budget recent) i = Some r \<longleftrightarrow>
    (\<exists>k. (k, r) \<in> set (orphanList (buildBudgetUnits tagged) @ spatialDrops tagged budget recent) \<and>
         i \<in> set (bu_indexes (buildBudgetUnits tagged ! k)))"
proof -
  let ?units = "buildBudgetUnits tagged"
  obtain n where n: "spatialDrops tagged budget recent = take n (dropOrder ?units recent)" using spatial_prefix by blast
  have "distinct (map fst (orphanList ?units @ spatialDrops tagged budget recent))"
    using orphan_pool_distinct [of tagged recent] unfolding n map_append take_map [symmetric]
    by (auto dest: in_set_takeD simp del: set_map)
  moreover have "fst d < length ?units" if "d \<in> set (orphanList ?units @ spatialDrops tagged budget recent)" for d
  proof -
    have "fst d \<in> set (map fst (orphanList ?units)) \<union> set (poolIndexes ?units)"
      using that spatial_subset [of tagged budget recent] dropOrder_set [of tagged recent] by auto
    then show ?thesis by (auto simp: orphanList_def poolIndexes_def)
  qed
  ultimately show ?thesis
    unfolding trim_list by (rule drops_lookup) (auto intro: unit_unique)
qed

lemma orphan_lookup:
  "map_of (orphanExchangeDrops tagged) i = Some r \<longleftrightarrow>
    (\<exists>k. (k, r) \<in> set (orphanList (buildBudgetUnits tagged)) \<and> i \<in> set (bu_indexes (buildBudgetUnits tagged ! k)))"
proof -
  have "distinct (map fst (orphanList (buildBudgetUnits tagged)))" using orphan_pool_distinct [of tagged 0] by simp
  then show ?thesis
    unfolding orphanExchangeDrops_def orphanDrops_list
    by (rule drops_lookup) (auto simp: orphanList_def intro: unit_unique)
qed

lemma spatial_antimono:
  assumes "budget \<le> budget'"
  shows "set (spatialDrops tagged budget' recent) \<subseteq> set (spatialDrops tagged budget recent)"
proof -
  have "max 0 budget \<le> max 0 budget'" using assms by simp
  from walk_antimono [OF this] show ?thesis
    unfolding spatialDrops_def Let_def by (rule set_take_subset_set_take)
qed

lemma trim_antimono:
  "budget \<le> budget' \<Longrightarrow> map_of (budgetTrimDropsEnabled tagged budget' recent) i = Some r \<Longrightarrow>
    map_of (budgetTrimDropsEnabled tagged budget recent) i = Some r"
  using spatial_antimono [of budget budget' tagged recent] unfolding trim_lookup by auto

text \<open>A unit is dropped whole or not at all.\<close>

definition droppedUnits :: "TaggedFrag list \<Rightarrow> int \<Rightarrow> int \<Rightarrow> nat set" where
  "droppedUnits tagged budget recent =
     fst ` set (orphanList (buildBudgetUnits tagged) @ spatialDrops tagged budget recent)"

lemma trim_units:
  "map_of (budgetTrimDropsEnabled tagged budget recent) i \<noteq> None \<longleftrightarrow>
    (\<exists>k\<in>droppedUnits tagged budget recent. i \<in> set (bu_indexes (buildBudgetUnits tagged ! k)))"
  unfolding droppedUnits_def not_None_eq trim_lookup by force

lemma dropped_range:
  "droppedUnits tagged budget recent \<subseteq> {k. k < length (buildBudgetUnits tagged) \<and> bu_droppable (buildBudgetUnits tagged ! k)}"
proof -
  let ?units = "buildBudgetUnits tagged"
  have "fst ` set (spatialDrops tagged budget recent) \<subseteq> set (poolIndexes ?units)"
    using image_mono [OF spatial_subset, of fst tagged budget recent] dropOrder_set [of tagged recent] by simp
  moreover have "fst ` set (orphanList ?units) \<subseteq> {k. k < length ?units \<and> bu_droppable (?units ! k)}"
    by (auto simp: orphanList_def)
  moreover have "set (poolIndexes ?units) \<subseteq> {k. k < length ?units \<and> bu_droppable (?units ! k)}"
    by (auto simp: poolIndexes_def)
  ultimately show ?thesis unfolding droppedUnits_def set_append image_Un by blast
qed

lemma trim_unit:
  assumes "k < length (buildBudgetUnits tagged)" "i \<in> set (bu_indexes (buildBudgetUnits tagged ! k))"
  shows "map_of (budgetTrimDropsEnabled tagged budget recent) i \<noteq> None \<longleftrightarrow> k \<in> droppedUnits tagged budget recent"
proof
  assume "map_of (budgetTrimDropsEnabled tagged budget recent) i \<noteq> None"
  then obtain j where "j \<in> droppedUnits tagged budget recent" "i \<in> set (bu_indexes (buildBudgetUnits tagged ! j))"
    unfolding trim_units by blast
  moreover from this have "j < length (buildBudgetUnits tagged)" using dropped_range by auto
  ultimately show "k \<in> droppedUnits tagged budget recent" using unit_unique assms by blast
next
  assume "k \<in> droppedUnits tagged budget recent"
  then show "map_of (budgetTrimDropsEnabled tagged budget recent) i \<noteq> None" unfolding trim_units using assms(2) by blast
qed

lemma trim_atomic:
  "sameUnit (buildBudgetUnits tagged) i j \<Longrightarrow>
    map_of (budgetTrimDropsEnabled tagged budget recent) i = None \<longleftrightarrow> map_of (budgetTrimDropsEnabled tagged budget recent) j = None"
  unfolding sameUnit_def by (metis in_set_conv_nth trim_unit)

end
