(* ===== verification/BudgetCost.thy ===== *)
theory BudgetCost
  imports BudgetTrim
begin

text \<open>
  The order of the walk and its price: units leave by attention tier and then by age, whatever
  the recent window, and what stays fits the budget.
\<close>

section \<open>The order\<close>

definition flatOrder :: "budgetUnit list \<Rightarrow> nat list" where
  "flatOrder units =
     concat (map (\<lambda>tier. filter (\<lambda>k. unitTier (units ! k) = tier) (poolIndexes units))
       [attentionTierPassive, attentionTierUntiered, attentionTierDirected])"

text \<open>Lower tiers first, and within a tier the older unit first.\<close>

definition leavesFirst :: "budgetUnit list \<Rightarrow> nat \<Rightarrow> nat \<Rightarrow> bool" where
  "leavesFirst units a b \<longleftrightarrow>
     unitTier (units ! a) < unitTier (units ! b) \<or> unitTier (units ! a) = unitTier (units ! b) \<and> a < b"

lemma dropOrder_flat: "map fst (dropOrder units recent) = flatOrder units"
proof -
  have "map fst (tierOrder units (take n xs) (drop n xs) tier) = filter (\<lambda>k. unitTier (units ! k) = tier) xs" for n xs tier
    by (simp add: tierOrder_def bandOrder_def comp_def flip: filter_append)
  then show ?thesis by (simp add: dropOrder_def flatOrder_def Let_def)
qed

lemma flatOrder_sorted: "sorted_wrt (leavesFirst units) (flatOrder units)"
proof -
  have "sorted_wrt (<) (poolIndexes units)"
    unfolding poolIndexes_def by (intro sorted_wrt_filter) simp
  then have filtered: "sorted_wrt (<) (filter P (poolIndexes units))" for P by (rule sorted_wrt_filter)
  have band: "sorted_wrt (leavesFirst units) (filter (\<lambda>k. unitTier (units ! k) = tier) (poolIndexes units))" for tier
    by (rule sorted_wrt_mono_rel [OF _ filtered]) (simp add: leavesFirst_def)
  have across: "leavesFirst units a b"
    if "a \<in> set (filter (\<lambda>k. unitTier (units ! k) = s) xs)" "b \<in> set (filter (\<lambda>k. unitTier (units ! k) = t) ys)" "s < t"
    for a b s t xs ys
    using that by (simp add: leavesFirst_def)
  show ?thesis
    unfolding flatOrder_def list.map concat.simps append_Nil2 sorted_wrt_append set_append ball_Un
    using band across by (intro conjI ballI) (assumption | (rule band) | (rule across, assumption, assumption, simp add: tier_names))+
qed

lemma walkLength_fst: "map fst ds = map fst ds' \<Longrightarrow> walkLength units budget ds left = walkLength units budget ds' left"
proof (induction ds arbitrary: ds' left)
  case (Cons d ds)
  obtain e es where es: "ds' = e # es" "fst e = fst d" "map fst ds = map fst es"
    using Cons.prems by (cases ds') simp_all
  show ?case by (simp add: es(1,2) Cons.IH [OF es(3)])
qed simp

lemma droppedUnits_flat:
  "\<exists>n. \<forall>recent. droppedUnits tagged budget recent =
     fst ` set (orphanList (buildBudgetUnits tagged)) \<union> set (take n (flatOrder (buildBudgetUnits tagged)))"
proof -
  let ?units = "buildBudgetUnits tagged"
  let ?n = "\<lambda>recent. walkLength ?units (max 0 budget) (dropOrder ?units recent) (poolTotal ?units)"
  have n: "?n recent = ?n 0" for recent by (rule walkLength_fst) (simp add: dropOrder_flat)
  have f: "fst ` set (spatialDrops tagged budget recent) = set (take (?n recent) (flatOrder ?units))" for recent
    by (simp add: spatialDrops_def Let_def flip: set_map take_map dropOrder_flat [of _ recent])
  have "droppedUnits tagged budget recent = fst ` set (orphanList ?units) \<union> set (take (?n 0) (flatOrder ?units))" for recent
    unfolding droppedUnits_def set_append image_Un f [of recent] n [of recent] ..
  then show ?thesis by blast
qed

lemma sorted_prefix:
  assumes "sorted_wrt R xs" "x \<in> set (take n xs)" "y \<in> set xs" "\<not> R x y" "x \<noteq> y"
  shows "y \<in> set (take n xs)"
proof (rule ccontr)
  assume "y \<notin> set (take n xs)"
  then have "y \<in> set (drop n xs)" using assms(3) by (metis Un_iff append_take_drop_id set_append)
  moreover have "sorted_wrt R (take n xs @ drop n xs)" using assms(1) by simp
  ultimately show False using assms(2,4) unfolding sorted_wrt_append by blast
qed

lemma leavesFirst_antisym: "leavesFirst units a b \<Longrightarrow> \<not> leavesFirst units b a \<and> a \<noteq> b"
  by (auto simp: leavesFirst_def)

lemma flatOrder_set: "set (flatOrder (buildBudgetUnits tagged)) = set (poolIndexes (buildBudgetUnits tagged))"
  using dropOrder_set [of tagged 0] by (simp only: dropOrder_flat)

lemma orphans_outside: "k \<in> set (poolIndexes units) \<Longrightarrow> k \<notin> fst ` set (orphanList units)"
  by (auto simp: poolIndexes_def orphanList_def)

text \<open>A unit of the pool leaves only after every unit that leaves first.\<close>

lemma leaves_in_order:
  assumes "a \<in> set (poolIndexes (buildBudgetUnits tagged))" "b \<in> set (poolIndexes (buildBudgetUnits tagged))"
    and "leavesFirst (buildBudgetUnits tagged) a b" "b \<in> droppedUnits tagged budget recent"
  shows "a \<in> droppedUnits tagged budget recent"
proof -
  let ?units = "buildBudgetUnits tagged"
  obtain n where n: "droppedUnits tagged budget recent = fst ` set (orphanList ?units) \<union> set (take n (flatOrder ?units))"
    using droppedUnits_flat [of tagged budget] by blast
  then have "b \<in> set (take n (flatOrder ?units))" using assms(4) orphans_outside [OF assms(2)] by blast
  from sorted_prefix [OF flatOrder_sorted this] have "a \<in> set (take n (flatOrder ?units))"
    using assms leavesFirst_antisym [OF assms(3)] by (simp add: flatOrder_set)
  then show ?thesis by (simp add: n)
qed

lemma window_irrelevant: "droppedUnits tagged budget recent = droppedUnits tagged budget recent'"
  using droppedUnits_flat [of tagged budget] by auto

section \<open>The price\<close>

definition keptCost :: "TaggedFrag list \<Rightarrow> dropReasons \<Rightarrow> int" where
  "keptCost tagged drops =
     sum_list (map (\<lambda>i. if map_of drops i = None \<and> chargedHistory (tf_Frag (tagged ! i)) then tf_Tokens (tagged ! i) else 0)
       [0..<length tagged])"

lemma spatial_fits: "poolTotal (buildBudgetUnits tagged) - dropCost (buildBudgetUnits tagged) (spatialDrops tagged budget recent) \<le> max 0 budget"
proof -
  let ?units = "buildBudgetUnits tagged"
  have "dropCost ?units (dropOrder ?units recent) = sum_list (map (\<lambda>k. bu_tokens (?units ! k)) (map fst (dropOrder ?units recent)))"
    by (simp add: dropCost_def comp_def)
  also have "\<dots> = sum_mset (image_mset (\<lambda>k. bu_tokens (?units ! k)) (mset (map fst (dropOrder ?units recent))))"
    by (metis mset_map sum_mset_sum_list)
  also have "\<dots> = poolTotal ?units"
    unfolding dropOrder_pool poolTotal_def by (metis mset_map sum_mset_sum_list)
  finally show ?thesis
    using walk_fits [of "poolTotal ?units" ?units "max 0 budget" "dropOrder ?units recent"]
    by (auto simp: spatialDrops_def Let_def)
qed

lemma sum_concat: "sum_list (map f (concat xss)) = sum_list (map (\<lambda>xs. sum_list (map f xs)) xss)"
  by (induction xss) simp_all

lemma sum_partition:
  "sum_list (map f [0..<length tagged]) =
    (\<Sum>k<length (buildBudgetUnits tagged). sum_list (map f (bu_indexes (buildBudgetUnits tagged ! k))))"
proof -
  let ?units = "buildBudgetUnits tagged"
  have "sum_list (map f [0..<length tagged]) = sum_list (map f (unitIndexes ?units))"
    using units_partition [of tagged] by (metis mset_map sum_mset_sum_list)
  also have "\<dots> = sum_list (map (\<lambda>u. sum_list (map f (bu_indexes u))) ?units)"
    by (simp add: unitIndexes_def sum_concat comp_def)
  also have "\<dots> = (\<Sum>k<length ?units. sum_list (map f (bu_indexes (?units ! k))))"
    by (simp add: sum_list_sum_nth atLeast0LessThan)
  finally show ?thesis .
qed

text \<open>The parts of the units that the budget is charged for.\<close>

definition chargedTokens :: "TaggedFrag list \<Rightarrow> nat \<Rightarrow> int" where
  "chargedTokens tagged i = (if chargedHistory (tf_Frag (tagged ! i)) then tf_Tokens (tagged ! i) else 0)"

lemma protected_sum:
  "protectedHistoryTokenCost tagged =
    (\<Sum>k<length (buildBudgetUnits tagged). if bu_droppable (buildBudgetUnits tagged ! k) then 0
       else sum_list (map (chargedTokens tagged) (bu_indexes (buildBudgetUnits tagged ! k))))"
  by (simp only: protectedHistoryTokenCost_def sum_list_sum_nth length_map atLeast0LessThan chargedTokens_def)
    (rule sum.cong, simp_all add: chargedTokens_def comp_def cong: if_cong)

lemma charged_le:
  assumes "u \<in> set (buildBudgetUnits tagged)" "\<forall>i<length tagged. 0 \<le> tf_Tokens (tagged ! i)"
  shows "sum_list (map (chargedTokens tagged) (bu_indexes u)) \<le> bu_tokens u"
proof -
  have "set (bu_indexes u) \<subseteq> {..<length tagged}" using assms(1) units_set [of tagged] by (auto simp: unitIndexes_def)
  then have "chargedTokens tagged i \<le> tf_Tokens (tagged ! i)" if "i \<in> set (bu_indexes u)" for i
    using assms(2) that by (auto simp: chargedTokens_def)
  then show ?thesis using units_ok [OF assms(1)] by (simp add: unitOk_def sum_list_mono)
qed

lemma pool_kept:
  "(\<Sum>k\<in>set (poolIndexes (buildBudgetUnits tagged)) - droppedUnits tagged budget recent. bu_tokens (buildBudgetUnits tagged ! k)) =
    poolTotal (buildBudgetUnits tagged) - dropCost (buildBudgetUnits tagged) (spatialDrops tagged budget recent)"
proof -
  let ?units = "buildBudgetUnits tagged"
  let ?S = "fst ` set (spatialDrops tagged budget recent)"
  have d: "distinct (map fst (dropOrder ?units recent))" using orphan_pool_distinct [of tagged recent] by simp
  obtain n where "spatialDrops tagged budget recent = take n (dropOrder ?units recent)" using spatial_prefix by blast
  with d have ds: "distinct (map fst (spatialDrops tagged budget recent))" by (simp add: distinct_take flip: take_map)
  have sub: "?S \<subseteq> set (poolIndexes ?units)"
    using image_mono [OF spatial_subset, of fst tagged budget recent] dropOrder_set [of tagged recent] by simp
  have "set (poolIndexes ?units) - droppedUnits tagged budget recent = set (poolIndexes ?units) - ?S"
    using orphans_outside by (auto simp: droppedUnits_def)
  moreover have "(\<Sum>k\<in>set (poolIndexes ?units). bu_tokens (?units ! k)) = poolTotal ?units"
    by (simp add: poolTotal_def poolIndexes_def sum_list_distinct_conv_sum_set)
  moreover have "(\<Sum>k\<in>?S. bu_tokens (?units ! k)) = dropCost ?units (spatialDrops tagged budget recent)"
    using sum_list_distinct_conv_sum_set [OF ds, of "\<lambda>k. bu_tokens (?units ! k)"] by (simp add: dropCost_def comp_def)
  ultimately show ?thesis using sub by (simp add: sum_diff)
qed

text \<open>What a trimmed history costs.\<close>

lemma kept_cost:
  assumes "\<forall>i<length tagged. 0 \<le> tf_Tokens (tagged ! i)"
  shows "keptCost tagged (budgetTrimDropsEnabled tagged budget recent) \<le> protectedHistoryTokenCost tagged + max 0 budget"
proof -
  let ?units = "buildBudgetUnits tagged" and ?D = "budgetTrimDropsEnabled tagged budget recent"
  let ?dropped = "droppedUnits tagged budget recent"
  let ?c = "\<lambda>k. sum_list (map (chargedTokens tagged) (bu_indexes (?units ! k)))"
  let ?pool = "set (poolIndexes ?units)"
  let ?f = "\<lambda>i. if map_of ?D i = None \<and> chargedHistory (tf_Frag (tagged ! i)) then tf_Tokens (tagged ! i) else 0"
  have unit: "sum_list (map ?f (bu_indexes (?units ! k))) = (if k \<in> ?dropped then 0 else ?c k)" if k: "k < length ?units" for k
  proof -
    have "?f i = (if k \<in> ?dropped then 0 else chargedTokens tagged i)" if "i \<in> set (bu_indexes (?units ! k))" for i
      using trim_unit [OF k that, of budget recent] by (auto simp: chargedTokens_def)
    then have "map ?f (bu_indexes (?units ! k)) =
        map (\<lambda>i. if k \<in> ?dropped then 0 else chargedTokens tagged i) (bu_indexes (?units ! k))"
      by (rule map_cong [OF refl])
    then show ?thesis by (simp only:) simp
  qed
  have "keptCost tagged ?D = (\<Sum>k<length ?units. if k \<in> ?dropped then 0 else ?c k)"
    unfolding keptCost_def sum_partition by (rule sum.cong) (simp_all only: unit lessThan_iff)
  also have "\<dots> \<le> (\<Sum>k<length ?units. (if bu_droppable (?units ! k) then 0 else ?c k) +
      (if k \<in> ?pool - ?dropped then bu_tokens (?units ! k) else 0))"
  proof (rule sum_mono)
    fix k assume k: "k \<in> {..<length ?units}"
    have "?c k \<le> bu_tokens (?units ! k)" using k charged_le [OF nth_mem assms] by simp
    moreover have "k \<in> ?dropped \<Longrightarrow> bu_droppable (?units ! k)" using dropped_range by blast
    moreover have "k \<in> ?pool \<or> k \<in> ?dropped" if "bu_droppable (?units ! k)"
      using k that by (force simp: poolIndexes_def droppedUnits_def orphanList_def)
    moreover have "bu_droppable (?units ! k)" if "k \<in> ?pool" using that by (simp add: poolIndexes_def)
    ultimately show "(if k \<in> ?dropped then 0 else ?c k) \<le> (if bu_droppable (?units ! k) then 0 else ?c k) +
        (if k \<in> ?pool - ?dropped then bu_tokens (?units ! k) else 0)" by auto
  qed
  also have "\<dots> = protectedHistoryTokenCost tagged + (\<Sum>k<length ?units. if k \<in> ?pool - ?dropped then bu_tokens (?units ! k) else 0)"
    by (simp add: sum.distrib protected_sum)
  also have "(\<Sum>k<length ?units. if k \<in> ?pool - ?dropped then bu_tokens (?units ! k) else 0) =
      (\<Sum>k\<in>?pool - ?dropped. bu_tokens (?units ! k))"
    by (rule sum.mono_neutral_cong_right) (auto simp: poolIndexes_def)
  finally show ?thesis
    using spatial_fits [of tagged budget recent] unfolding pool_kept by simp
qed

end
