(* ===== verification/Selector.thy ===== *)
theory Selector
  imports FragBudget BudgetCost
begin

text \<open>
  Choosing the fragments of a prompt, \<^verbatim>\<open>internal/contextview/selector.go\<close>: the trust gate, one
  winner per conflict key, the budgets of fragments and of the system prompt, and the history
  budget with its trim notice; and the selector wrapped around it that holds back sections of
  tools a run does not have, \<^verbatim>\<open>capability_gate.go\<close>.
\<close>

section \<open>Results\<close>

record DropRecord =
  dx_FragID :: string
  dx_Ref :: ContextRef
  dx_Reason :: string

record SelectionSummary =
  sy_TotalCollected :: int
  sy_TotalSelected :: int
  sy_TotalDropped :: int
  sy_DropReasons :: "DropRecord list"

record SelectionResult =
  sz_Selected :: "ContextFrag list"
  sz_Dropped :: "ContextFrag list"
  sz_FatalError :: "SelectError option"
  sz_TrimNotice :: bool
  sz_TrimNoticeIndex :: int
  sz_Edited :: "ContextEditTrace list"
  sz_EditReasons :: "(string, string) gomap"
  sz_Warnings :: "ValidationWarning list"
  sz_Summary :: SelectionSummary

record BudgetEnvelope =
  be_MaxTokens :: int
  be_Plan :: "ContextBudgetPlan option"
  be_RecentProtectTokens :: int
  be_KeepHistory :: bool

definition dropRecordOf :: "ContextFrag \<Rightarrow> string \<Rightarrow> DropRecord" where
  "dropRecordOf frag reason = \<lparr>dx_FragID = xf_ID frag, dx_Ref = xf_Ref frag, dx_Reason = reason\<rparr>"

definition recordDrop :: "SelectionResult \<Rightarrow> ContextFrag \<times> string \<Rightarrow> SelectionResult" where
  "recordDrop r d =
     r\<lparr>sz_Dropped := sz_Dropped r @ [fst d],
       sz_Summary := (sz_Summary r)\<lparr>sy_DropReasons := sy_DropReasons (sz_Summary r) @ [dropRecordOf (fst d) (snd d)]\<rparr>\<rparr>"

text \<open>The reason recorded for a fragment: that of the budget, or what its tags say.\<close>

definition reasonFor :: "TaggedFrag list \<Rightarrow> dropReasons \<Rightarrow> nat \<Rightarrow> string" where
  "reasonFor tagged reasons i =
     (let reason = mapGet '''' reasons i in if reason = '''' then selectionDropReason (tagged ! i) else reason)"

definition selectionResultFromTaggedReasons :: "TaggedFrag list \<Rightarrow> (nat \<Rightarrow> bool) \<Rightarrow> dropReasons \<Rightarrow> SelectionResult" where
  "selectionResultFromTaggedReasons tagged selected reasons =
     (let keep = filter selected [0..<length tagged]; lose = filter (\<lambda>i. \<not> selected i) [0..<length tagged] in
      \<lparr>sz_Selected = map (\<lambda>i. tf_Frag (tagged ! i)) keep, sz_Dropped = map (\<lambda>i. tf_Frag (tagged ! i)) lose,
       sz_FatalError = None, sz_TrimNotice = False, sz_TrimNoticeIndex = 0, sz_Edited = [], sz_EditReasons = [], sz_Warnings = [],
       sz_Summary = \<lparr>sy_TotalCollected = int (length tagged), sy_TotalSelected = int (length keep),
         sy_TotalDropped = int (length lose),
         sy_DropReasons = map (\<lambda>i. dropRecordOf (tf_Frag (tagged ! i)) (reasonFor tagged reasons i)) lose\<rparr>\<rparr>)"

definition keptIndexes :: "dropReasons \<Rightarrow> nat \<Rightarrow> bool" where
  "keptIndexes drops i \<longleftrightarrow> map_of drops i = None"

definition allSelectedIndexes :: "nat \<Rightarrow> bool" where
  "allSelectedIndexes i = True"

section \<open>The trust gate and conflicts\<close>

definition belowFloor :: "IntentProfile \<Rightarrow> ContextFrag \<Rightarrow> bool" where
  "belowFloor profile frag \<longleftrightarrow>
     (case map_of (ip_SlotTrustFloors profile) (xf_Slot frag) of
        None \<Rightarrow> False
      | Some trustFloor \<Rightarrow> TrustRank (xf_Trust frag) < TrustRank trustFloor)"

definition applyTrustGate :: "ContextFrag list \<Rightarrow> IntentProfile \<Rightarrow> ContextFrag list \<times> ContextFrag list" where
  "applyTrustGate frags profile =
     (if ip_SlotTrustFloors profile = [] then (frags, [])
      else (filter (\<lambda>f. \<not> belowFloor profile f) frags, filter (belowFloor profile) frags))"

definition conflictBeats :: "ContextFrag \<Rightarrow> ContextFrag \<Rightarrow> bool" where
  "conflictBeats challenger incumbent =
     (if SpecificityRank (xf_Scope challenger) \<noteq> SpecificityRank (xf_Scope incumbent)
      then SpecificityRank (xf_Scope challenger) > SpecificityRank (xf_Scope incumbent)
      else if TrustRank (xf_Trust challenger) \<noteq> TrustRank (xf_Trust incumbent)
      then TrustRank (xf_Trust challenger) > TrustRank (xf_Trust incumbent)
      else True)"

definition winnerStep :: "ContextFrag list \<Rightarrow> (string, nat) gomap \<Rightarrow> nat \<Rightarrow> (string, nat) gomap" where
  "winnerStep frags winners i =
     (let frag = frags ! i in
      if xf_ConflictKey frag = '''' then winners
      else (case map_of winners (xf_ConflictKey frag) of
              None \<Rightarrow> mapPut (xf_ConflictKey frag) i winners
            | Some current \<Rightarrow> if conflictBeats frag (frags ! current) then mapPut (xf_ConflictKey frag) i winners else winners))"

definition conflictWinners :: "ContextFrag list \<Rightarrow> (string, nat) gomap" where
  "conflictWinners frags = foldl (winnerStep frags) [] [0..<length frags]"

definition isLoser :: "ContextFrag list \<Rightarrow> (string, nat) gomap \<Rightarrow> nat \<Rightarrow> bool" where
  "isLoser frags winners i \<longleftrightarrow>
     xf_ConflictKey (frags ! i) \<noteq> '''' \<and> mapGet 0 winners (xf_ConflictKey (frags ! i)) \<noteq> i"

definition resolveConflictGroups :: "ContextFrag list \<Rightarrow> ContextFrag list \<times> (ContextFrag \<times> string) list" where
  "resolveConflictGroups frags =
     (let winners = conflictWinners frags in
      if winners = [] then (frags, [])
      else
        (map ((!) frags) (filter (\<lambda>i. \<not> isLoser frags winners i) [0..<length frags]),
         map (\<lambda>i. (frags ! i, xf_ID (frags ! mapGet 0 winners (xf_ConflictKey (frags ! i)))))
           (filter (isLoser frags winners) [0..<length frags])))"

section \<open>The place of the notice\<close>

definition closeOne :: "(string, nat) gomap \<Rightarrow> string \<Rightarrow> (string, nat) gomap" where
  "closeOne m cid =
     (case map_of m cid of None \<Rightarrow> m | Some k \<Rightarrow> if k \<le> 1 then mapDel cid m else mapPut cid (k - 1) m)"

definition exchangeStep :: "(string, nat) gomap \<Rightarrow> ContextFrag \<Rightarrow> (string, nat) gomap" where
  "exchangeStep m frag =
     foldl closeOne (foldl (\<lambda>m cid. mapPut cid (mapGet 0 m cid + 1) m) m (fragToolCallIDs frag)) (fragToolResultCallIDs frag)"

fun noticeLoop :: "nat \<Rightarrow> (string, nat) gomap \<Rightarrow> nat \<Rightarrow> nat \<Rightarrow> ContextFrag list \<Rightarrow> nat" where
  "noticeLoop base m fallback pos kept =
     (if m = [] \<and> pos \<ge> base then pos
      else
        (let fallback1 = (if m = [] then pos else fallback) in
         case kept of [] \<Rightarrow> fallback1 | frag # rest \<Rightarrow> noticeLoop base (exchangeStep m frag) fallback1 (Suc pos) rest))"

declare noticeLoop.simps [simp del]

definition closureSafeNoticeIndex :: "ContextFrag list \<Rightarrow> nat \<Rightarrow> nat" where
  "closureSafeNoticeIndex kept base = noticeLoop base [] 0 0 kept"

definition trimNoticeIndex :: "TaggedFrag list \<Rightarrow> dropReasons \<Rightarrow> int" where
  "trimNoticeIndex tagged drops =
     (case List.find (\<lambda>i. map_of drops i \<noteq> None) (rev [0..<length tagged]) of
        None \<Rightarrow> - 1
      | Some lastDropped \<Rightarrow>
          (let kept = map (\<lambda>i. tf_Frag (tagged ! i)) (filter (keptIndexes drops) [0..<length tagged]);
               base = length (filter (keptIndexes drops) [0..<Suc lastDropped])
           in int (closureSafeNoticeIndex kept base)))"

section \<open>Selection\<close>

definition finalizeSelection ::
  "SelectionResult \<Rightarrow> IntentProfile \<Rightarrow> ContextFrag list \<Rightarrow> (ContextFrag \<times> string) list \<Rightarrow> fragBudgetDrop list \<Rightarrow>
    fragBudgetEdit list \<Rightarrow> ValidationWarning list \<Rightarrow> ContextFrag list \<Rightarrow> SelectionResult" where
  "finalizeSelection result profile gated superseded fragBudgetDropped edits warnings systemBudgetDropped =
     (let edited = result\<lparr>sz_Edited := sz_Edited result @ map ed_trace edits,
            sz_EditReasons := foldl (\<lambda>m e. mapPut (ed_fragID e) (ed_reason e) m) (sz_EditReasons result) edits,
            sz_Warnings := sz_Warnings result @ warnings\<rparr>;
          r = foldl recordDrop edited
            (map (\<lambda>f. (f, ''trust_gate:'' @ xf_Slot f @ ''_requires_'' @ mapGet '''' (ip_SlotTrustFloors profile) (xf_Slot f))) gated @
             map (\<lambda>(f, winnerID). (f, ''precedence:superseded_by_'' @ winnerID)) superseded @
             fragBudgetDropped @
             map (\<lambda>f. (f, systemBudgetDropReason)) systemBudgetDropped)
      in r\<lparr>sz_Summary := (sz_Summary r)
             \<lparr>sy_TotalCollected := int (length (sz_Selected r)) + int (length (sz_Dropped r)),
              sy_TotalSelected := int (length (sz_Selected r)), sy_TotalDropped := int (length (sz_Dropped r))\<rparr>\<rparr>)"

definition fatal :: "SelectError \<Rightarrow> SelectionResult \<Rightarrow> SelectionResult" where
  "fatal e r = r\<lparr>sz_FatalError := Some e\<rparr>"

text \<open>The tokens a hard provider budget charges.\<close>

definition providerPriced :: "FragEnv \<Rightarrow> TaggedFrag list \<Rightarrow> TaggedFrag list" where
  "providerPriced env tagged = map (\<lambda>t. t\<lparr>tf_Tokens := ResolveProviderBudgetFragTokens env (tf_Frag t)\<rparr>) tagged"

definition noticeTokens :: "FragEnv \<Rightarrow> int" where
  "noticeTokens env = ResolveProviderBudgetFragTokens env (TrimNoticeFrag env zeroScope)"

text \<open>Shortening summaries when the protected history leaves too little: the fragments, the cost, the edits.\<close>

definition shrinkProtected :: "FragEnv \<Rightarrow> TaggedFrag list \<Rightarrow> int \<Rightarrow> TaggedFrag list \<times> int \<times> fragBudgetEdit list" where
  "shrinkProtected env tagged historyBudget =
     (let protectedCost = protectedHistoryTokenCost tagged; droppableCost = droppableHistoryTokenCost tagged;
          summaryCeiling = (if droppableCost > 0 \<and> droppableCost > historyBudget - protectedCost
                            then historyBudget - noticeTokens env else historyBudget)
      in if protectedCost > summaryCeiling
         then (case shrinkOversizedProtectedSummaries env tagged protectedCost summaryCeiling of
                 (tagged1, edits) \<Rightarrow> if edits \<noteq> [] then (tagged1, protectedHistoryTokenCost tagged1, edits)
                                    else (tagged1, protectedCost, []))
         else (tagged, protectedCost, []))"

text \<open>The result of a trim, with the notice when the budget removed something.\<close>

definition trimmedResult :: "TaggedFrag list \<Rightarrow> dropReasons \<Rightarrow> SelectionResult" where
  "trimmedResult tagged drops =
     (let result = selectionResultFromTaggedReasons tagged (keptIndexes drops) drops in
      if hasSpatialBudgetDrop drops
      then result\<lparr>sz_TrimNotice := True, sz_TrimNoticeIndex := trimNoticeIndex tagged drops\<rparr> else result)"

definition selectAll :: "TaggedFrag list \<Rightarrow> SelectionResult" where
  "selectAll tagged = selectionResultFromTaggedReasons tagged allSelectedIndexes []"

text \<open>The history part of \<open>Select\<close> under a plan.\<close>

definition selectUnderPlan :: "FragEnv \<Rightarrow> TaggedFrag list \<Rightarrow> int \<Rightarrow> int \<Rightarrow> SelectionResult \<times> fragBudgetEdit list" where
  "selectUnderPlan env tagged0 historyBudget0 recent =
     (case shrinkProtected env (providerPriced env tagged0) historyBudget0 of
        (tagged, protectedCost, edits) \<Rightarrow>
          if protectedCost > historyBudget0 then (fatal ErrProtectedContextOverflow (selectAll tagged), edits)
          else
            (let historyBudget = historyBudget0 - protectedCost;
                 drops = budgetTrimDropsEnabled tagged historyBudget recent
             in if drops = [] then (selectAll tagged, edits)
                else if hasSpatialBudgetDrop drops then
                  (if noticeTokens env > historyBudget
                   then (fatal ErrProtectedContextOverflow
                           (selectionResultFromTaggedReasons tagged (keptIndexes drops) drops), edits)
                   else (trimmedResult tagged (budgetTrimDropsEnabled tagged (historyBudget - noticeTokens env) recent), edits))
                else (trimmedResult tagged drops, edits)))"

definition selectLegacy :: "TaggedFrag list \<Rightarrow> int \<Rightarrow> int \<Rightarrow> SelectionResult" where
  "selectLegacy tagged maxTokens recent =
     (let drops = budgetTrimDrops tagged maxTokens recent
      in if drops = [] then selectAll tagged else trimmedResult tagged drops)"

definition SelectFrags ::
  "FragEnv \<Rightarrow> ContextFrag list \<Rightarrow> IntentProfile \<Rightarrow> BudgetEnvelope \<Rightarrow> SelectionResult \<times> ContextBudgetPlan option" where
  "SelectFrags env frags0 profile budget =
     (case applyTrustGate frags0 profile of (frags1, gated) \<Rightarrow>
      case resolveConflictGroups frags1 of (frags2, superseded) \<Rightarrow>
        (let fb = enforceFragBudgets env frags2 profile (systemBudgetPlanActive profile (be_Plan budget)) in
         case enforceSystemBudget env (fx_kept fb) profile (be_Plan budget) (map fst (fx_dropped fb)) of
           (frags3, systemDropped, plan, fatalError) \<Rightarrow>
             (let tagged = tagFragments env frags3 profile;
                  finish = (\<lambda>(result, edits). finalizeSelection result profile gated superseded (fx_dropped fb)
                              (fx_edits fb @ edits) (fx_warnings fb) systemDropped)
              in (case fatalError of
                    Some e \<Rightarrow> finish (fatal e (selectAll tagged), [])
                  | None \<Rightarrow>
                      if be_KeepHistory budget
                      then finish (selectionResultFromTaggedReasons tagged (keptIndexes (orphanExchangeDrops tagged))
                                     (orphanExchangeDrops tagged), [])
                      else (case plan of
                              Some p \<Rightarrow> finish (selectUnderPlan env tagged (bl_HistoryBudget p) (be_RecentProtectTokens budget))
                            | None \<Rightarrow> finish (selectLegacy tagged (be_MaxTokens budget) (be_RecentProtectTokens budget), [])),
                  plan))))"

section \<open>Capabilities\<close>

definition requiresUnavailableCapability :: "ContextFrag \<Rightarrow> string list \<Rightarrow> bool" where
  "requiresUnavailableCapability frag available \<longleftrightarrow>
     xf_Slot frag = SlotSystem \<and> TrimSpace (xf_RequiredCapability frag) \<noteq> '''' \<and>
     TrimSpace (xf_RequiredCapability frag) \<notin> set available"

definition groupItems :: "ContextFrag list \<Rightarrow> string \<Rightarrow> ContextFrag list" where
  "groupItems frags groupID =
     filter (\<lambda>f. xp_GroupID (xf_Render f) \<noteq> '''' \<and> \<not> isRenderGroupHeader f \<and> xp_GroupID (xf_Render f) = groupID) frags"

definition capabilityGated :: "ContextFrag list \<Rightarrow> string list \<Rightarrow> ContextFrag \<Rightarrow> bool" where
  "capabilityGated frags available frag =
     (if \<not> isRenderGroupHeader frag then requiresUnavailableCapability frag available
      else
        (let items = groupItems frags (xp_GroupID (xf_Render frag)) in
         if items \<noteq> [] then filter (\<lambda>f. \<not> requiresUnavailableCapability f available) items = []
         else requiresUnavailableCapability frag available))"

definition filterUnavailableCapabilities :: "ContextFrag list \<Rightarrow> string list \<Rightarrow> ContextFrag list \<times> ContextFrag list" where
  "filterUnavailableCapabilities frags available =
     (filter (\<lambda>f. \<not> capabilityGated frags available f) frags, filter (capabilityGated frags available) frags)"

definition capabilityGateDropReason :: string where "capabilityGateDropReason = ''capability_gated''"

definition appendCapabilityGateDrops :: "SelectionResult \<Rightarrow> ContextFrag list \<Rightarrow> SelectionResult" where
  "appendCapabilityGateDrops result gated =
     (let r = foldl recordDrop result (map (\<lambda>f. (f, capabilityGateDropReason)) gated)
      in r\<lparr>sz_Summary := (sz_Summary r)
             \<lparr>sy_TotalCollected := sy_TotalCollected (sz_Summary r) + int (length gated),
              sy_TotalDropped := sy_TotalDropped (sz_Summary r) + int (length gated)\<rparr>\<rparr>)"

text \<open>The available names are the trimmed, nonempty names of the tool definitions.\<close>

definition capabilityNames :: "string list \<Rightarrow> string list" where
  "capabilityNames defs = filter (\<lambda>name. name \<noteq> '''') (map TrimSpace defs)"

definition gatedSelect ::
  "FragEnv \<Rightarrow> string list \<Rightarrow> ContextFrag list \<Rightarrow> IntentProfile \<Rightarrow> BudgetEnvelope \<Rightarrow> SelectionResult \<times> ContextBudgetPlan option" where
  "gatedSelect env defs frags profile budget =
     (case filterUnavailableCapabilities frags (capabilityNames defs) of (kept, gated) \<Rightarrow>
        (case SelectFrags env kept profile budget of (result, plan) \<Rightarrow> (appendCapabilityGateDrops result gated, plan)))"

end
