(* ===== verification/SelectAccounts.thy ===== *)
theory SelectAccounts
  imports Selector
begin

text \<open>
  Every stage of selection splits what it gets: a fragment goes on or is dropped, once, with
  its id, slot, trust and conflict key unchanged; only the system budget adds a fragment, its
  marker.
\<close>

section \<open>What stays of a fragment\<close>

definition fragKey :: "ContextFrag \<Rightarrow> string \<times> string \<times> string \<times> string \<times> string" where
  "fragKey frag = (xf_ID frag, xf_Kind frag, xf_Slot frag, xf_Trust frag, xf_ConflictKey frag)"

definition fragKeys :: "ContextFrag list \<Rightarrow> (string \<times> string \<times> string \<times> string \<times> string) multiset" where
  "fragKeys frags = mset (map fragKey frags)"

lemma fragKeys_simps [simp]:
  "fragKeys [] = {#}"
  "fragKeys (frag # frags) = add_mset (fragKey frag) (fragKeys frags)"
  "fragKeys (frags @ frags') = fragKeys frags + fragKeys frags'"
  by (simp_all add: fragKeys_def)

lemma fragKey_WithContextRef [simp]: "fragKey (WithContextRef env frag ref) = fragKey frag"
  by (simp add: fragKey_def)

lemma fragKey_rebuilt [simp]:
  "fragKey (rebuildMessageFrag env frag msg) = fragKey frag"
  "fragKey (rebuildTextFrag env frag p t) = fragKey frag"
  by (simp_all add: fragKey_def rebuildMessageFrag_def rebuildTextFrag_def Let_def)

lemma trimFragText_key: "trimFragText env frag = Some next1 \<Longrightarrow> fragKey next1 = fragKey frag"
  by (auto simp: trimFragText_def Let_def fragKey_def split: if_splits prod.splits)

lemma fragKeys_split: "fragKeys (filter P frags) + fragKeys (filter (\<lambda>f. \<not> P f) frags) = fragKeys frags"
  by (induction frags) auto

lemma fragKeys_indexes:
  "fragKeys (map ((!) frags) (filter (\<lambda>i. \<not> P i) is)) + fragKeys (map ((!) frags) (filter P is)) = fragKeys (map ((!) frags) is)"
  by (induction "is") auto

lemma fragKeys_nth:
  "fragKeys (map ((!) frags) (filter (\<lambda>i. \<not> P i) [0..<length frags])) +
    fragKeys (map ((!) frags) (filter P [0..<length frags])) = fragKeys frags"
  using fragKeys_indexes [of frags P "[0..<length frags]"] by (simp only: map_nth)

section \<open>The stages\<close>

lemma trust_keys: "applyTrustGate frags profile = (kept, gated) \<Longrightarrow> fragKeys kept + fragKeys gated = fragKeys frags"
  using fragKeys_split [of "belowFloor profile" frags]
  by (auto simp: applyTrustGate_def ac_simps split: if_splits)

lemma conflict_keys:
  "resolveConflictGroups frags = (kept, losers) \<Longrightarrow> fragKeys kept + fragKeys (map fst losers) = fragKeys frags"
  using fragKeys_nth [of frags "isLoser frags (conflictWinners frags)"]
  by (auto simp: resolveConflictGroups_def Let_def comp_def simp del: upt_Suc split: if_splits)

lemma outcome_key:
  "fragBudgetOutcome env profile active frag = Kept f \<Longrightarrow> f = frag"
  "fragBudgetOutcome env profile active frag = KeptWarned f code \<Longrightarrow> f = frag"
  "fragBudgetOutcome env profile active frag = KeptTrimmed f edit \<Longrightarrow> fragKey f = fragKey frag"
  by (auto simp: fragBudgetOutcome_def Let_def trimFragText_key split: option.splits if_splits)

lemma budget_keys_from:
  "fragKeys (fx_kept (foldl addOutcome r (map (\<lambda>frag. (frag, fragBudgetOutcome env profile active frag)) frags))) +
    fragKeys (map fst (fx_dropped (foldl addOutcome r (map (\<lambda>frag. (frag, fragBudgetOutcome env profile active frag)) frags)))) =
    fragKeys (fx_kept r) + fragKeys (map fst (fx_dropped r)) + fragKeys frags"
proof (induction frags arbitrary: r)
  case (Cons frag frags)
  have "fragKeys (fx_kept (addOutcome r (frag, fragBudgetOutcome env profile active frag))) +
      fragKeys (map fst (fx_dropped (addOutcome r (frag, fragBudgetOutcome env profile active frag)))) =
      fragKeys (fx_kept r) + fragKeys (map fst (fx_dropped r)) + {#fragKey frag#}"
    by (cases "fragBudgetOutcome env profile active frag") (auto simp: addOutcome_def dest: outcome_key)
  with Cons show ?case by simp
qed simp

lemma budget_keys:
  "fragKeys (fx_kept (enforceFragBudgets env frags profile active)) +
    fragKeys (map fst (fx_dropped (enforceFragBudgets env frags profile active))) = fragKeys frags"
  unfolding enforceFragBudgets_def budget_keys_from by simp

text \<open>
  The contract of a stage: it splits its fragments into those that go on and those it drops.
  The gates and the fragment budgets keep it; the system budget adds its marker.
\<close>

locale selection_stage =
  fixes stage :: "ContextFrag list \<Rightarrow> ContextFrag list \<times> ContextFrag list"
  assumes accounts: "fragKeys (fst (stage frags)) + fragKeys (snd (stage frags)) = fragKeys frags"
begin

lemma kept_keys: "set (map fragKey (fst (stage frags))) \<subseteq> set (map fragKey frags)"
proof -
  have "set_mset (fragKeys (fst (stage frags))) \<subseteq> set_mset (fragKeys frags)" unfolding accounts [of frags, symmetric] by simp
  then show ?thesis by (simp add: fragKeys_def)
qed

lemma stage_sizes: "length (fst (stage frags)) + length (snd (stage frags)) = length frags"
  using arg_cong [OF accounts [of frags], of size] by (simp add: fragKeys_def)

end

interpretation trust_gate: selection_stage "\<lambda>frags. applyTrustGate frags profile" for profile
  by unfold_locales (simp add: trust_keys [OF prod.collapse [symmetric]])

interpretation conflict_groups: selection_stage "\<lambda>frags. map_prod id (map fst) (resolveConflictGroups frags)"
  by unfold_locales (simp add: conflict_keys [OF prod.collapse [symmetric]])

interpretation frag_budgets: selection_stage
  "\<lambda>frags. (fx_kept (enforceFragBudgets env frags profile active), map fst (fx_dropped (enforceFragBudgets env frags profile active)))"
  for env profile active
  by unfold_locales (simp add: budget_keys)

interpretation capability_gate: selection_stage "\<lambda>frags. filterUnavailableCapabilities frags available" for available
proof unfold_locales
  fix frags
  show "fragKeys (fst (filterUnavailableCapabilities frags available)) + fragKeys (snd (filterUnavailableCapabilities frags available)) =
      fragKeys frags"
    using fragKeys_split [of "capabilityGated frags available" frags] by (simp add: filterUnavailableCapabilities_def ac_simps)
qed

section \<open>The system budget\<close>

definition markerKey :: "string \<times> string \<times> string \<times> string \<times> string" where
  "markerKey = (systemBudgetMarkerID, KindSystemPolicy, SlotSystem, TrustSystem, '''')"

lemma marker_id: "TrimSpace systemBudgetMarkerID = systemBudgetMarkerID"
  by code_simp

lemma marker_key: "fragKey (systemBudgetMarkerFrag env ids scope) = markerKey"
  by (simp add: systemBudgetMarkerFrag_def Let_def fragKey_def TextFrag_def marker_id markerKey_def)

text \<open>The drops of the loop name distinct system fragments of the list.\<close>

definition systemDropsOk :: "ContextFrag list \<Rightarrow> systemDrops \<Rightarrow> bool" where
  "systemDropsOk frags st \<longleftrightarrow>
     distinct (fst st) \<and> set (fst st) \<subseteq> {i. i < length frags \<and> isSystem (frags ! i)} \<and> fst (snd st) = map ((!) frags) (fst st)"

lemma add_ok:
  "systemDropsOk frags st \<Longrightarrow> i < length frags \<Longrightarrow> isSystem (frags ! i) \<Longrightarrow> i \<notin> set (fst st) \<Longrightarrow> systemDropsOk frags (addSystemDrop st (i, frags ! i))"
  by (auto simp: systemDropsOk_def addSystemDrop_def split: prod.split)

lemma adds_ok:
  "systemDropsOk frags st \<Longrightarrow> distinct (map fst cs) \<Longrightarrow>
    \<forall>c\<in>set cs. fst c < length frags \<and> snd c = frags ! fst c \<and> isSystem (frags ! fst c) \<and> fst c \<notin> set (fst st) \<Longrightarrow> systemDropsOk frags (foldl addSystemDrop st cs)"
proof (induction cs arbitrary: st)
  case (Cons c cs)
  obtain i where c: "c = (i, frags ! i)" "i < length frags" "isSystem (frags ! i)" "i \<notin> set (fst st)"
    using Cons.prems(3) by (metis list.set_intros(1) prod.collapse)
  have "systemDropsOk frags (addSystemDrop st c)" unfolding c using Cons.prems(1) c by (intro add_ok) auto
  moreover have "\<forall>d\<in>set cs. fst d < length frags \<and> snd d = frags ! fst d \<and> isSystem (frags ! fst d) \<and> fst d \<notin> set (fst (addSystemDrop st c))"
  proof
    fix d assume d: "d \<in> set cs"
    then have "fst d \<noteq> fst c" using Cons.prems(2) by (metis distinct.simps(2) image_eqI list.set_map list.simps(9))
    moreover have "fst (addSystemDrop st c) = fst st @ [fst c]" by (simp add: addSystemDrop_def split: prod.split)
    ultimately show "fst d < length frags \<and> snd d = frags ! fst d \<and> isSystem (frags ! fst d) \<and> fst d \<notin> set (fst (addSystemDrop st c))"
      using Cons.prems(3) d by simp
  qed
  ultimately show ?case using Cons.IH Cons.prems(2) by simp
qed simp

lemma set_enumerate0: "(i, x) \<in> set (enumerate 0 xs) \<longleftrightarrow> i < length xs \<and> x = xs ! i"
  by (auto simp: in_set_enumerate_eq)

text \<open>The header map holds, under its group, a member of the group.\<close>

lemma headers_in:
  "set (foldl (\<lambda>m (i, frag). mapPut (xp_GroupID (xf_Render frag)) (i, frag) m) m members) \<subseteq>
    set m \<union> {(xp_GroupID (xf_Render frag), i, frag) | i frag. (i, frag) \<in> set members}"
proof (induction members arbitrary: m)
  case (Cons x members)
  obtain i frag where x: "x = (i, frag)" by fastforce
  show ?case
    using Cons.IH [of "mapPut (xp_GroupID (xf_Render frag)) (i, frag) m"] set_mapPut_subset [of "xp_GroupID (xf_Render frag)" "(i, frag)" m]
    by (auto simp: x) blast+
qed simp

lemma headers_wf: "wfMap m \<Longrightarrow> wfMap (foldl (\<lambda>m (i, frag). mapPut (xp_GroupID (xf_Render frag)) (i, frag) m) m members)"
  by (induction members arbitrary: m) (auto split: prod.split)

lemma members_in: "(i, frag) \<in> set (systemGroupMembers frags gone) \<Longrightarrow> i < length frags \<and> frag = frags ! i \<and> isSystem frag \<and> i \<notin> set gone"
  by (auto simp: systemGroupMembers_def set_enumerate0)

lemma sweep_candidates:
  "distinct (map fst (sweepEmptySystemGroupHeaders frags gone))"
  "\<forall>c\<in>set (sweepEmptySystemGroupHeaders frags gone). fst c < length frags \<and> snd c = frags ! fst c \<and> isSystem (frags ! fst c) \<and> fst c \<notin> set gone"
proof -
  define members where "members = systemGroupMembers frags gone"
  define headers where "headers = foldl (\<lambda>m (i, frag). mapPut (xp_GroupID (xf_Render frag)) (i, frag) m) []
    (filter (\<lambda>(i, frag). isRenderGroupHeader frag) members)"
  obtain P where sweep: "sweepEmptySystemGroupHeaders frags gone = sort_key (\<lambda>(i, frag). xf_ID frag) (map snd (filter P headers))"
    by (auto simp: sweepEmptySystemGroupHeaders_def Let_def members_def headers_def)
  have entry: "i < length frags \<and> frag = frags ! i \<and> isSystem frag \<and> i \<notin> set gone \<and> g = xp_GroupID (xf_Render frag)"
    if "(g, i, frag) \<in> set headers" for g i frag
    using that headers_in [of "[]" "filter (\<lambda>(i, frag). isRenderGroupHeader frag) members"] members_in
    unfolding headers_def members_def by fastforce
  have d: "distinct (map fst headers)" using headers_wf [of "[]"] by (simp add: headers_def wfMap_def)
  then have "distinct headers" by (simp add: distinct_map)
  moreover have "inj_on (\<lambda>x. fst (snd x)) (set headers)"
  proof (rule inj_onI)
    fix x y assume xy: "x \<in> set headers" "y \<in> set headers" "fst (snd x) = fst (snd y)"
    obtain g i frag h j frag' where "x = (g, i, frag)" "y = (h, j, frag')" by (metis prod_cases3)
    then show "x = y" using xy entry [of g i frag] entry [of h j frag'] by simp
  qed
  ultimately have "distinct (map (\<lambda>x. fst (snd x)) (filter P headers))"
    by (auto simp: distinct_map intro: inj_on_subset)
  then have "distinct (map fst (map snd (filter P headers)))" by (simp add: comp_def)
  then show "distinct (map fst (sweepEmptySystemGroupHeaders frags gone))"
    unfolding sweep by (metis mset_eq_imp_distinct_iff mset_map mset_sort)
  show "\<forall>c\<in>set (sweepEmptySystemGroupHeaders frags gone). fst c < length frags \<and> snd c = frags ! fst c \<and> isSystem (frags ! fst c) \<and> fst c \<notin> set gone"
    unfolding sweep using entry by force
qed

lemma sweep_ok: "systemDropsOk frags st \<Longrightarrow> systemDropsOk frags (sweepDrops frags st)"
  unfolding sweepDrops_def by (rule adds_ok) (use sweep_candidates in blast)+

lemma candidates_in: "c \<in> set (systemBudgetCandidates frags) \<Longrightarrow> fst c < length frags \<and> snd c = frags ! fst c \<and> isSystem (frags ! fst c)"
  by (auto simp: systemBudgetCandidates_def set_enumerate0)

lemma loop_ok:
  "systemDropsOk frags st \<Longrightarrow> \<forall>c\<in>set cs. fst c < length frags \<and> snd c = frags ! fst c \<and> isSystem (frags ! fst c) \<Longrightarrow>
    systemDropLoop env scope frags budget cs st = (st', enough) \<Longrightarrow>
    systemDropsOk frags st' \<and> (enough \<longrightarrow> systemFragCost env (systemSelected env scope frags st') \<le> budget)"
proof (induction cs arbitrary: st)
  case (Cons c cs)
  have step: "systemDropsOk frags (sweepDrops frags (addSystemDrop st c))" if "fst c \<notin> set (fst st)"
    using that Cons.prems(1,2) add_ok [of frags st "fst c"] by (intro sweep_ok) (metis list.set_intros(1) prod.collapse)
  have rest: "\<forall>c\<in>set cs. fst c < length frags \<and> snd c = frags ! fst c \<and> isSystem (frags ! fst c)" using Cons.prems(2) by simp
  show ?case
    using Cons.prems(1,3) Cons.IH [of st, OF _ rest] Cons.IH [of "sweepDrops frags (addSystemDrop st c)", OF _ rest] step
    by (auto simp: Let_def split: if_splits)
qed simp

text \<open>The selection is what is not dropped, and the marker.\<close>

lemma keepIndexes_nth: "keepIndexes xs gone = map ((!) xs) (filter (\<lambda>i. \<not> gone i) [0..<length xs])"
proof -
  have "enumerate 0 xs = map (\<lambda>i. (i, xs ! i)) [0..<length xs]"
    by (intro nth_equalityI) (simp_all add: nth_enumerate_eq)
  then show ?thesis by (simp add: keepIndexes_def filter_map comp_def)
qed

lemma insert_keys: "fragKeys (take n xs @ frag # drop n xs) = add_mset (fragKey frag) (fragKeys xs)"
proof -
  have "fragKeys xs = fragKeys (take n xs) + fragKeys (drop n xs)" by (metis append_take_drop_id fragKeys_simps(3))
  then show ?thesis by simp
qed

definition markerKeys :: "ContextFrag option \<Rightarrow> (string \<times> string \<times> string \<times> string \<times> string) multiset" where
  "markerKeys m = (case m of None \<Rightarrow> {#} | Some frag \<Rightarrow> {#fragKey frag#})"

lemma system_keys:
  assumes "systemDropsOk frags st"
  shows "fragKeys (systemSelected env scope frags st) + fragKeys (fst (snd st)) =
    fragKeys frags + markerKeys (markerOf env scope st)"
proof -
  have "mset (filter (\<lambda>i. i \<in> set (fst st)) [0..<length frags]) = mset (fst st)"
    using assms by (intro set_eq_iff_mset_eq_distinct [THEN iffD1]) (auto simp: systemDropsOk_def)
  then have "fragKeys (map ((!) frags) (filter (\<lambda>i. i \<in> set (fst st)) [0..<length frags])) = fragKeys (map ((!) frags) (fst st))"
    unfolding fragKeys_def by (simp only: mset_map)
  then have "fragKeys (keepIndexes frags (\<lambda>i. i \<in> set (fst st))) + fragKeys (fst (snd st)) = fragKeys frags"
    using fragKeys_nth [of frags "\<lambda>i. i \<in> set (fst st)"] assms by (simp add: keepIndexes_nth systemDropsOk_def)
  then show ?thesis
    by (cases "markerOf env scope st")
      (simp_all add: systemSelected_def systemBudgetSelection_def Let_def markerKeys_def insert_keys del: fragKeys_simps)
qed

lemma enforce_shape:
  assumes "enforceSystemBudget env frags profile plan0 gone = (selected, dropped, plan, e)"
  shows "\<not> systemBudgetPlanActive profile plan0 \<and> selected = frags \<and> dropped = [] \<and> plan = plan0 \<and> e = None \<or>
    (\<exists>p0 scope st. plan0 = Some p0 \<and> systemDropsOk frags st \<and> selected = systemSelected env scope frags st \<and>
       dropped = fst (snd st) \<and> plan = Some (finishSystemBudgetPlan p0 (systemFragCost env selected)) \<and>
       (e = None \<longrightarrow> systemFragCost env selected \<le> bl_SystemBudget p0))"
proof (cases "systemBudgetPlanActive profile plan0")
  case False
  then show ?thesis using assms by (auto simp: enforceSystemBudget_def)
next
  case True
  note active = this
  then obtain p0 where p0: "plan0 = Some p0" by (auto simp: systemBudgetPlanActive_def)
  define scope where "scope = (if list_ex isSystem frags then firstSystemScope frags
      else (case filter isSystem gone of [] \<Rightarrow> zeroScope | frag # _ \<Rightarrow> xf_Scope frag))"
  define st0 where "st0 = sweepDrops frags ([], [], map xf_ID (filter isSystem gone))"
  have ok0: "systemDropsOk frags st0" unfolding st0_def by (rule sweep_ok) (simp add: systemDropsOk_def)
  obtain st1 enough where loop: "systemDropLoop env scope frags (bl_SystemBudget p0) (systemBudgetCandidates frags) st0 = (st1, enough)"
    by fastforce
  have ok1: "systemDropsOk frags st1 \<and> (enough \<longrightarrow> systemFragCost env (systemSelected env scope frags st1) \<le> bl_SystemBudget p0)"
    using loop_ok [OF ok0 _ loop] candidates_in by blast
  show ?thesis
  proof (cases "systemFragCost env (systemSelected env scope frags st0) \<le> bl_SystemBudget p0")
    case True
    then have "selected = systemSelected env scope frags st0" "dropped = fst (snd st0)"
        "plan = Some (finishSystemBudgetPlan p0 (systemFragCost env selected))"
      using assms active by (auto simp: enforceSystemBudget_def p0 Let_def scope_def [symmetric] st0_def [symmetric])
    then show ?thesis using ok0 True p0 by blast
  next
    case False
    then have "selected = systemSelected env scope frags st1" "dropped = fst (snd st1)"
        "plan = Some (finishSystemBudgetPlan p0 (systemFragCost env selected))" "e = None \<longrightarrow> enough"
      using assms active
      by (auto simp: enforceSystemBudget_def p0 Let_def scope_def [symmetric] st0_def [symmetric] loop split: if_splits)
    then show ?thesis using ok1 p0 by blast
  qed
qed

lemma enforce_system:
  assumes "enforceSystemBudget env frags profile plan0 gone = (selected, dropped, plan, e)"
  shows "(\<exists>marker. marker \<in> {{#}, {#markerKey#}} \<and> fragKeys selected + fragKeys dropped = fragKeys frags + marker) \<and>
    (e = None \<longrightarrow> systemBudgetPlanActive profile plan0 \<longrightarrow>
       (\<exists>p0 p. plan0 = Some p0 \<and> plan = Some p \<and> p = finishSystemBudgetPlan p0 (systemFragCost env selected) \<and>
          systemFragCost env selected \<le> bl_SystemBudget p0))"
proof -
  have marker: "markerKeys (markerOf env scope st) \<in> {{#}, {#markerKey#}}" for scope st
    by (simp add: markerKeys_def markerOf_def marker_key)
  from enforce_shape [OF assms] show ?thesis
  proof (elim disjE exE conjE)
    fix p0 scope st
    assume a: "plan0 = Some p0" "systemDropsOk frags st" "selected = systemSelected env scope frags st" "dropped = fst (snd st)"
      "plan = Some (finishSystemBudgetPlan p0 (systemFragCost env selected))"
      "e = None \<longrightarrow> systemFragCost env selected \<le> bl_SystemBudget p0"
    show ?thesis
      using system_keys [OF a(2), of env scope] marker [of scope st] a unfolding a(3) [symmetric] a(4) [symmetric] by blast
  qed simp
qed

end
