(* ===== verification/Exchanges.thy ===== *)
theory Exchanges
  imports BudgetTrim
begin

text \<open>
  Tool exchanges in a list of fragments: every result answers an open call, no call is opened
  twice at a time, and no call stays open. Cutting whole units keeps a list this way.
\<close>

fun exchangesClosed :: "string list \<Rightarrow> ContextFrag list \<Rightarrow> bool" where
  "exchangesClosed opened [] \<longleftrightarrow> opened = []"
| "exchangesClosed opened (frag # frags) \<longleftrightarrow>
     (let results = fragToolResultCallIDs frag; calls = fragToolCallIDs frag;
          rest = filter (\<lambda>cid. cid \<notin> set results) opened
      in distinct results \<and> set results \<subseteq> set opened \<and> distinct calls \<and> set calls \<inter> set rest = {} \<and>
         exchangesClosed (rest @ calls) frags)"

text \<open>What is left after cutting the fragments in a set.\<close>

definition keptFrags :: "TaggedFrag list \<Rightarrow> (nat \<Rightarrow> bool) \<Rightarrow> nat \<Rightarrow> ContextFrag list" where
  "keptFrags tagged gone n = map (\<lambda>i. tf_Frag (tagged ! i)) (filter (\<lambda>i. \<not> gone i) [n..<length tagged])"

lemma keptFrags_step:
  "n < length tagged \<Longrightarrow> keptFrags tagged gone n = (if gone n then [] else [tf_Frag (tagged ! n)]) @ keptFrags tagged gone (Suc n)"
  by (simp add: keptFrags_def upt_conv_Cons)

definition keptOpen :: "TaggedFrag list \<Rightarrow> (nat \<Rightarrow> bool) \<Rightarrow> nat \<Rightarrow> string list \<Rightarrow> string list" where
  "keptOpen tagged gone n opened = filter (\<lambda>cid. \<not> gone (the (callersAt tagged n cid))) opened"

lemma exchanges_from:
  assumes atomic: "\<And>i j. sameUnit (buildBudgetUnits tagged) i j \<Longrightarrow> gone i = gone j"
  shows "n \<le> length tagged \<Longrightarrow> set opened = {cid. callersAt tagged n cid \<noteq> None} \<Longrightarrow>
    exchangesClosed opened (map tf_Frag (drop n tagged)) \<Longrightarrow>
    exchangesClosed (keptOpen tagged gone n opened) (keptFrags tagged gone n)"
proof (induction "length tagged - n" arbitrary: n opened)
  case 0
  then show ?case by (simp add: keptFrags_def keptOpen_def)
next
  case (Suc d)
  then have n: "n < length tagged" by simp
  let ?f = "tf_Frag (tagged ! n)"
  let ?results = "fragToolResultCallIDs ?f" and ?calls = "fragToolCallIDs ?f"
  let ?rest = "filter (\<lambda>cid. cid \<notin> set ?results) opened"
  have split: "map tf_Frag (drop n tagged) = ?f # map tf_Frag (drop (Suc n) tagged)"
    using n by (simp add: Cons_nth_drop_Suc [symmetric])
  have closed: "distinct ?results" "set ?results \<subseteq> set opened" "distinct ?calls" "set ?calls \<inter> set ?rest = {}"
    "exchangesClosed (?rest @ ?calls) (map tf_Frag (drop (Suc n) tagged))"
    using Suc.prems(3) unfolding split by (simp_all add: Let_def)
  have dom: "set (?rest @ ?calls) = {cid. callersAt tagged (Suc n) cid \<noteq> None}"
    using Suc.prems(2) by (auto simp: callerStep_def)
  have IH: "exchangesClosed (keptOpen tagged gone (Suc n) (?rest @ ?calls)) (keptFrags tagged gone (Suc n))"
    using n Suc.hyps(2) by (intro Suc.hyps(1) [OF _ _ dom closed(5)]) simp_all
  have results: "gone (the (callersAt tagged n cid)) = gone n" if cid: "cid \<in> set ?results" for cid
  proof -
    obtain c where "callersAt tagged n cid = Some c" using cid closed(2) Suc.prems(2) by auto
    then show ?thesis using atomic [OF answered_together [OF n cid]] by simp
  qed
  have rest: "keptOpen tagged gone (Suc n) ?rest = filter (\<lambda>cid. cid \<notin> set ?results) (keptOpen tagged gone n opened)"
    using closed(4) by (auto simp: keptOpen_def callerStep_def intro!: filter_cong)
  have calls: "keptOpen tagged gone (Suc n) ?calls = (if gone n then [] else ?calls)"
    by (auto simp: keptOpen_def callerStep_def filter_id_conv filter_empty_conv)
  have new: "keptOpen tagged gone (Suc n) (?rest @ ?calls) =
      filter (\<lambda>cid. cid \<notin> set ?results) (keptOpen tagged gone n opened) @ (if gone n then [] else ?calls)"
    using rest calls by (simp add: keptOpen_def)
  show ?case
  proof (cases "gone n")
    case True
    then have "filter (\<lambda>cid. cid \<notin> set ?results) (keptOpen tagged gone n opened) = keptOpen tagged gone n opened"
      using results by (auto simp: keptOpen_def intro!: filter_cong)
    with IH new True show ?thesis by (simp add: keptFrags_step [OF n])
  next
    case False
    then have "set ?results \<subseteq> set (keptOpen tagged gone n opened)"
      using closed(2) results by (auto simp: keptOpen_def)
    moreover have "set ?calls \<inter> set (filter (\<lambda>cid. cid \<notin> set ?results) (keptOpen tagged gone n opened)) = {}"
      using closed(4) by (auto simp: keptOpen_def)
    ultimately show ?thesis
      using IH closed(1,3) False unfolding new by (simp add: keptFrags_step [OF n] Let_def)
  qed
qed

lemma exchanges_kept:
  assumes "\<And>i j. sameUnit (buildBudgetUnits tagged) i j \<Longrightarrow> gone i = gone j"
    and "exchangesClosed [] (map tf_Frag tagged)"
  shows "exchangesClosed [] (keptFrags tagged gone 0)"
  using exchanges_from [of tagged gone 0 "[]", OF assms(1)] assms(2) by (simp add: keptOpen_def)

end
