(* ===== verification/SelectFacts.thy ===== *)
theory SelectFacts
  imports SelectAccounts Exchanges
begin

text \<open>
  From the stages to the result of a selection: what is selected and what is dropped, the
  audit records, and the history that was charged.
\<close>

section \<open>Results from tagged fragments\<close>

definition resultOk :: "ContextFrag list \<Rightarrow> SelectionResult \<Rightarrow> bool" where
  "resultOk frags r \<longleftrightarrow>
     fragKeys (sz_Selected r) + fragKeys (sz_Dropped r) = fragKeys frags \<and>
     map dx_FragID (sy_DropReasons (sz_Summary r)) = map xf_ID (sz_Dropped r)"

lemma tagged_result: "resultOk (map tf_Frag tagged) (selectionResultFromTaggedReasons tagged selected reasons)"
proof -
  have nth: "map (\<lambda>i. tf_Frag (tagged ! i)) (filter P [0..<length tagged]) =
      map ((!) (map tf_Frag tagged)) (filter P [0..<length tagged])" for P by auto
  show ?thesis
    using fragKeys_nth [of "map tf_Frag tagged" "\<lambda>i. \<not> selected i"] unfolding length_map
    by (simp add: resultOk_def selectionResultFromTaggedReasons_def Let_def dropRecordOf_def nth)
qed

lemma resultOk_simps [simp]:
  "resultOk frags (fatal e r) = resultOk frags r"
  "resultOk frags (r\<lparr>sz_TrimNotice := b, sz_TrimNoticeIndex := i\<rparr>) = resultOk frags r"
  by (simp_all add: resultOk_def fatal_def)

lemma trimmed_ok [simp]: "resultOk (map tf_Frag tagged) (trimmedResult tagged drops)"
  using tagged_result [of tagged] by (simp add: trimmedResult_def Let_def)

lemma all_ok [simp]: "resultOk (map tf_Frag tagged) (selectAll tagged)"
  by (simp add: selectAll_def tagged_result)

lemma resultOk_cong: "map fragKey frags = map fragKey frags' \<Longrightarrow> resultOk frags r = resultOk frags' r"
  by (simp add: resultOk_def fragKeys_def)

section \<open>Shortened summaries\<close>

lemma summary_text_key: "summaryFragText env frag = Some (t, rebuild) \<Longrightarrow> fragKey (rebuild s) = fragKey frag"
  by (auto simp: summaryFragText_def split: list.splits if_splits option.splits MessagePart.splits)

lemma shrinkLoop_rebuilt:
  "shrinkLoop env rebuild t ending target attempts keepRunes = Some (next1, tokens) \<Longrightarrow>
    (\<exists>s. next1 = rebuild s) \<and> tokens = ResolveProviderBudgetFragTokens env next1 \<and> tokens \<le> target"
  by (induction attempts arbitrary: keepRunes) (auto simp: Let_def split: if_splits)

lemma shrink_summary:
  assumes "shrinkSummaryFragToTokens env frag target = Some (next1, tokens)"
  shows "fragKey next1 = fragKey frag \<and> tokens = ResolveProviderBudgetFragTokens env next1 \<and> tokens \<le> target \<and>
    (\<exists>t rebuild s. summaryFragText env frag = Some (t, rebuild) \<and> next1 = rebuild s)"
proof -
  obtain t rebuild where t: "summaryFragText env frag = Some (t, rebuild)"
    using assms by (auto simp: shrinkSummaryFragToTokens_def split: option.splits)
  then have "(\<exists>s. next1 = rebuild s) \<and> tokens = ResolveProviderBudgetFragTokens env next1 \<and> tokens \<le> target"
    using assms by (auto simp: shrinkSummaryFragToTokens_def Let_def dest: shrinkLoop_rebuilt split: if_splits option.splits)
  then show ?thesis using t summary_text_key [OF t] by auto
qed

text \<open>A property of single entries that shortening keeps.\<close>

lemma shrink_entries:
  assumes "\<And>frag next1 tokens target. shrinkSummaryFragToTokens env frag target = Some (next1, tokens) \<Longrightarrow> P next1 = P frag"
  shows "map (\<lambda>t. (P (tf_Frag t) :: 'a)) (fst (foldl (shrinkEntry env target) (tagged, edits) is)) = map (\<lambda>t. P (tf_Frag t)) tagged"
proof (induction "is" arbitrary: tagged edits)
  case (Cons i "is")
  obtain tagged1 edits1 where e: "shrinkEntry env target (tagged, edits) i = (tagged1, edits1)" by fastforce
  have same: "map f (xs[i := x]) = map f xs" if "f x = f (xs ! i)" for f :: "TaggedFrag \<Rightarrow> 'a" and xs x
    using that by (cases "i < length xs") (simp add: map_update list_update_same_conv, simp add: list_update_beyond)
  have "map (\<lambda>t. P (tf_Frag t)) tagged1 = map (\<lambda>t. P (tf_Frag t)) tagged"
  proof (cases "shrinkSummaryFragToTokens env (tf_Frag (tagged ! i)) target")
    case None
    then show ?thesis using e by (simp add: shrinkEntry_def)
  next
    case (Some found)
    obtain next1 tokens where f: "found = (next1, tokens)" by fastforce
    have "tagged1 = tagged[i := (tagged ! i)\<lparr>tf_Frag := next1, tf_Tokens := tokens\<rparr>]"
      using e Some by (simp add: shrinkEntry_def f)
    then show ?thesis using assms [of "tf_Frag (tagged ! i)" target next1 tokens] Some by (simp add: f same)
  qed
  then show ?case using Cons.IH [of tagged1 edits1] by (simp add: e)
qed simp

lemma shrink_shape:
  "\<exists>target is. shrinkOversizedProtectedSummaries env tagged cost upper = foldl (shrinkEntry env target) (tagged, []) is"
proof -
  have none: "\<exists>target is. (tagged, []) = foldl (shrinkEntry env target) (tagged, []) is"
    by (intro exI [of _ 0] exI [of _ "[]"]) simp
  show ?thesis
    unfolding shrinkOversizedProtectedSummaries_def Let_def by (auto simp: none split: option.split)
qed

lemma shrink_protected:
  assumes "\<And>frag next1 tokens target. shrinkSummaryFragToTokens env frag target = Some (next1, tokens) \<Longrightarrow> P next1 = P frag"
    and "shrinkProtected env tagged budget = (tagged1, cost, edits)"
  shows "map (\<lambda>t. P (tf_Frag t)) tagged1 = map (\<lambda>t. P (tf_Frag t)) tagged"
proof -
  have "map (\<lambda>t. P (tf_Frag t)) (fst (shrinkOversizedProtectedSummaries env tagged c upper)) = map (\<lambda>t. P (tf_Frag t)) tagged" for c upper
    using shrink_shape [of env tagged c upper] shrink_entries [of env P, OF assms(1)] by fastforce
  from this [of "protectedHistoryTokenCost tagged"] show ?thesis
    using assms(2) unfolding shrinkProtected_def Let_def
    by (auto split: if_splits prod.splits) (metis (no_types, lifting) fst_conv)+
qed

lemma shrink_prices:
  assumes "\<forall>t\<in>set tagged. tf_Tokens t = ResolveProviderBudgetFragTokens env (tf_Frag t)"
  shows "\<forall>t\<in>set (fst (foldl (shrinkEntry env target) (tagged, edits) is)). tf_Tokens t = ResolveProviderBudgetFragTokens env (tf_Frag t)"
  using assms
proof (induction "is" arbitrary: tagged edits)
  case (Cons i "is")
  obtain tagged1 edits1 where e: "shrinkEntry env target (tagged, edits) i = (tagged1, edits1)" by fastforce
  have "\<forall>t\<in>set tagged1. tf_Tokens t = ResolveProviderBudgetFragTokens env (tf_Frag t)"
    using e Cons.prems shrink_summary
    by (auto simp: shrinkEntry_def split: option.splits dest!: set_update_subset_insert [THEN subsetD])
  then show ?case using Cons.IH [of tagged1 edits1] by (simp add: e)
qed simp

lemma shrink_unedited:
  "length es \<le> length (snd (foldl (shrinkEntry env target) (xs, es) is)) \<and>
    (length (snd (foldl (shrinkEntry env target) (xs, es) is)) = length es \<longrightarrow> fst (foldl (shrinkEntry env target) (xs, es) is) = xs)"
proof (induction "is" arbitrary: xs es)
  case (Cons i "is")
  show ?case
  proof (cases "shrinkSummaryFragToTokens env (tf_Frag (xs ! i)) target")
    case None
    then show ?thesis using Cons.IH [of es xs] by (simp add: shrinkEntry_def)
  next
    case (Some found)
    then obtain ys e where "shrinkEntry env target (xs, es) i = (ys, es @ [e])"
      by (cases found) (simp add: shrinkEntry_def)
    then show ?thesis using Cons.IH [of "es @ [e]" ys] by auto
  qed
qed simp

lemma shrunk_priced:
  assumes "shrinkProtected env (providerPriced env tagged) budget = (tagged1, cost, edits)"
  shows "(\<forall>t\<in>set tagged1. tf_Tokens t = ResolveProviderBudgetFragTokens env (tf_Frag t)) \<and>
    cost = protectedHistoryTokenCost tagged1"
proof -
  let ?tagged = "providerPriced env tagged"
  have p: "\<forall>t\<in>set ?tagged. tf_Tokens t = ResolveProviderBudgetFragTokens env (tf_Frag t)"
    by (auto simp: providerPriced_def)
  have shrunk: "(\<forall>t\<in>set xs. tf_Tokens t = ResolveProviderBudgetFragTokens env (tf_Frag t)) \<and> (es = [] \<longrightarrow> xs = ?tagged)"
    if "shrinkOversizedProtectedSummaries env ?tagged c upper = (xs, es)" for c upper xs es
  proof -
    note fold = that
    obtain target "is" where "foldl (shrinkEntry env target) (?tagged, []) is = (xs, es)"
      using shrink_shape [of env ?tagged c upper] unfolding fold by metis
    then show ?thesis
      using shrink_prices [OF p, of target "[]" "is"] shrink_unedited [of "[]" env target ?tagged "is"] by simp
  qed
  then show ?thesis
    using assms p by (auto simp: shrinkProtected_def Let_def dest: shrunk split: if_splits prod.splits)
qed

section \<open>The whole selection\<close>

lemma foldl_recordDrop:
  "sz_Selected (foldl recordDrop r ds) = sz_Selected r \<and> sz_FatalError (foldl recordDrop r ds) = sz_FatalError r \<and>
   sz_TrimNotice (foldl recordDrop r ds) = sz_TrimNotice r \<and> sz_TrimNoticeIndex (foldl recordDrop r ds) = sz_TrimNoticeIndex r \<and>
   sz_Dropped (foldl recordDrop r ds) = sz_Dropped r @ map fst ds \<and>
   map dx_FragID (sy_DropReasons (sz_Summary (foldl recordDrop r ds))) =
     map dx_FragID (sy_DropReasons (sz_Summary r)) @ map (xf_ID \<circ> fst) ds"
  by (induction ds arbitrary: r) (simp_all add: recordDrop_def dropRecordOf_def)

lemma finalize:
  "sz_Selected (finalizeSelection result profile gated superseded fragDropped edits warnings systemDropped) = sz_Selected result" "sz_FatalError (finalizeSelection result profile gated superseded fragDropped edits warnings systemDropped) = sz_FatalError result"
  "sz_TrimNotice (finalizeSelection result profile gated superseded fragDropped edits warnings systemDropped) = sz_TrimNotice result" "sz_TrimNoticeIndex (finalizeSelection result profile gated superseded fragDropped edits warnings systemDropped) = sz_TrimNoticeIndex result"
  "sz_Dropped (finalizeSelection result profile gated superseded fragDropped edits warnings systemDropped) = sz_Dropped result @ gated @ map fst superseded @ map fst fragDropped @ systemDropped"
  using foldl_recordDrop unfolding finalizeSelection_def Let_def by (simp_all add: comp_def case_prod_unfold)

lemma finalize_records:
  "map dx_FragID (sy_DropReasons (sz_Summary result)) = map xf_ID (sz_Dropped result) \<Longrightarrow>
   map dx_FragID (sy_DropReasons (sz_Summary (finalizeSelection result profile gated superseded fragDropped edits warnings systemDropped))) = map xf_ID (sz_Dropped (finalizeSelection result profile gated superseded fragDropped edits warnings systemDropped))"
  using foldl_recordDrop unfolding finalizeSelection_def Let_def by (simp add: comp_def case_prod_unfold)

lemma finalize_totals:
  "sy_TotalSelected (sz_Summary (finalizeSelection result profile gated superseded fragDropped edits warnings systemDropped)) = int (length (sz_Selected (finalizeSelection result profile gated superseded fragDropped edits warnings systemDropped)))" "sy_TotalDropped (sz_Summary (finalizeSelection result profile gated superseded fragDropped edits warnings systemDropped)) = int (length (sz_Dropped (finalizeSelection result profile gated superseded fragDropped edits warnings systemDropped)))"
  "sy_TotalCollected (sz_Summary (finalizeSelection result profile gated superseded fragDropped edits warnings systemDropped)) = int (length (sz_Selected (finalizeSelection result profile gated superseded fragDropped edits warnings systemDropped))) + int (length (sz_Dropped (finalizeSelection result profile gated superseded fragDropped edits warnings systemDropped)))"
  unfolding finalizeSelection_def Let_def by simp_all

text \<open>The parts of a selection, named.\<close>

definition historyResult ::
  "FragEnv \<Rightarrow> TaggedFrag list \<Rightarrow> BudgetEnvelope \<Rightarrow> ContextBudgetPlan option \<Rightarrow> SelectError option \<Rightarrow> SelectionResult \<times> fragBudgetEdit list" where
  "historyResult env tagged budget plan e =
     (case e of
        Some e \<Rightarrow> (fatal e (selectAll tagged), [])
      | None \<Rightarrow>
          if be_KeepHistory budget
          then (selectionResultFromTaggedReasons tagged (keptIndexes (orphanExchangeDrops tagged)) (orphanExchangeDrops tagged), [])
          else (case plan of
                  Some p \<Rightarrow> selectUnderPlan env tagged (bl_HistoryBudget p) (be_RecentProtectTokens budget)
                | None \<Rightarrow> (selectLegacy tagged (be_MaxTokens budget) (be_RecentProtectTokens budget), [])))"

lemma select_parts:
  assumes "SelectFrags env frags0 profile budget = (r, plan)"
  obtains frags1 gated frags2 superseded fb frags3 systemDropped e result edits where
    "applyTrustGate frags0 profile = (frags1, gated)" "resolveConflictGroups frags1 = (frags2, superseded)"
    "fb = enforceFragBudgets env frags2 profile (systemBudgetPlanActive profile (be_Plan budget))"
    "enforceSystemBudget env (fx_kept fb) profile (be_Plan budget) (map fst (fx_dropped fb)) = (frags3, systemDropped, plan, e)"
    "historyResult env (tagFragments env frags3 profile) budget plan e = (result, edits)"
    "r = finalizeSelection result profile gated superseded (fx_dropped fb) (fx_edits fb @ edits) (fx_warnings fb) systemDropped"
proof -
  obtain frags1 gated where a: "applyTrustGate frags0 profile = (frags1, gated)" by fastforce
  obtain frags2 superseded where b: "resolveConflictGroups frags1 = (frags2, superseded)" by fastforce
  define fb where "fb = enforceFragBudgets env frags2 profile (systemBudgetPlanActive profile (be_Plan budget))"
  obtain frags3 systemDropped plan' e where
    c: "enforceSystemBudget env (fx_kept fb) profile (be_Plan budget) (map fst (fx_dropped fb)) = (frags3, systemDropped, plan', e)"
    by (metis prod_cases4)
  obtain result edits where d: "historyResult env (tagFragments env frags3 profile) budget plan' e = (result, edits)" by fastforce
  have "SelectFrags env frags0 profile budget =
      (finalizeSelection result profile gated superseded (fx_dropped fb) (fx_edits fb @ edits) (fx_warnings fb) systemDropped, plan')"
    using d unfolding SelectFrags_def a b prod.case fb_def [symmetric] Let_def c historyResult_def
    by (cases e; cases "be_KeepHistory budget"; cases plan') simp_all
  then have "plan' = plan" "r = finalizeSelection result profile gated superseded (fx_dropped fb) (fx_edits fb @ edits) (fx_warnings fb) systemDropped"
    using assms by simp_all
  then show ?thesis using that [OF a b fb_def] c d by blast
qed

text \<open>The fragments of a history result are those it was given, some shortened.\<close>

lemma under_plan_ok:
  assumes "selectUnderPlan env tagged budget recent = (r, edits)"
  shows "resultOk (map tf_Frag tagged) r"
proof -
  obtain tagged1 cost edits1 where s: "shrinkProtected env (providerPriced env tagged) budget = (tagged1, cost, edits1)"
    by (metis prod_cases3)
  have "map (\<lambda>t. fragKey (tf_Frag t)) tagged1 = map (\<lambda>t. fragKey (tf_Frag t)) (providerPriced env tagged)"
    by (rule shrink_protected [OF _ s]) (auto dest: shrink_summary)
  then have "map fragKey (map tf_Frag tagged1) = map fragKey (map tf_Frag tagged)"
    by (simp add: providerPriced_def comp_def)
  note same = resultOk_cong [OF this]
  have "resultOk (map tf_Frag tagged1) r"
    using assms by (auto simp: selectUnderPlan_def s Let_def tagged_result split: if_splits)
  then show ?thesis unfolding same .
qed

lemma history_ok: "historyResult env tagged budget plan e = (r, edits) \<Longrightarrow> resultOk (map tf_Frag tagged) r"
  by (auto simp: historyResult_def selectLegacy_def Let_def tagged_result under_plan_ok split: option.splits if_splits)

text \<open>Where every fragment goes.\<close>

lemma select_keys:
  assumes "SelectFrags env frags profile budget = (r, plan)"
  obtains kept gated marker where "applyTrustGate frags profile = (kept, gated)" "marker \<in> {{#}, {#markerKey#}}"
    "fragKeys (sz_Selected r) \<subseteq># fragKeys kept + marker"
    "fragKeys (sz_Selected r) + fragKeys (sz_Dropped r) = fragKeys frags + marker"
    "map dx_FragID (sy_DropReasons (sz_Summary r)) = map xf_ID (sz_Dropped r)"
proof -
  obtain frags1 gated frags2 superseded fb frags3 systemDropped e result edits where
    a: "applyTrustGate frags profile = (frags1, gated)" and b: "resolveConflictGroups frags1 = (frags2, superseded)"
    and fb: "fb = enforceFragBudgets env frags2 profile (systemBudgetPlanActive profile (be_Plan budget))"
    and c: "enforceSystemBudget env (fx_kept fb) profile (be_Plan budget) (map fst (fx_dropped fb)) = (frags3, systemDropped, plan, e)"
    and d: "historyResult env (tagFragments env frags3 profile) budget plan e = (result, edits)"
    and r: "r = finalizeSelection result profile gated superseded (fx_dropped fb) (fx_edits fb @ edits) (fx_warnings fb) systemDropped"
    by (rule select_parts [OF assms])
  obtain marker where m: "marker \<in> {{#}, {#markerKey#}}" "fragKeys frags3 + fragKeys systemDropped = fragKeys (fx_kept fb) + marker"
    using enforce_system [OF c] by blast
  have ok: "resultOk frags3 result" using history_ok [OF d] by simp
  let ?superseded = "fragKeys (map fst superseded)" and ?over = "fragKeys (map fst (fx_dropped fb))"
  have "fragKeys (sz_Selected r) + (fragKeys (sz_Dropped result) + ?superseded + ?over + fragKeys systemDropped) =
      fragKeys (sz_Selected result) + fragKeys (sz_Dropped result) + fragKeys systemDropped + ?over + ?superseded"
    unfolding r finalize by (simp only: ac_simps)
  also have "\<dots> = fragKeys (fx_kept fb) + ?over + ?superseded + marker"
    using ok m(2) by (simp add: resultOk_def ac_simps)
  also have "\<dots> = fragKeys frags1 + marker"
    using conflict_keys [OF b] budget_keys [of env frags2 profile "systemBudgetPlanActive profile (be_Plan budget)"]
    unfolding fb [symmetric] by simp
  finally have "fragKeys (sz_Selected r) + (fragKeys (sz_Dropped result) + ?superseded + ?over + fragKeys systemDropped) =
      fragKeys frags1 + marker" .
  moreover have "fragKeys (sz_Dropped r) = fragKeys (sz_Dropped result) + fragKeys gated + fragKeys (map fst superseded) +
      fragKeys (map fst (fx_dropped fb)) + fragKeys systemDropped"
    unfolding r finalize by (simp add: ac_simps)
  ultimately have "fragKeys (sz_Selected r) + fragKeys (sz_Dropped r) = fragKeys frags1 + marker + fragKeys gated"
      and sub: "fragKeys (sz_Selected r) \<subseteq># fragKeys frags1 + marker"
    by (simp only: ac_simps, metis mset_subset_eq_add_left)
  then have "fragKeys (sz_Selected r) + fragKeys (sz_Dropped r) = fragKeys frags + marker"
    using trust_keys [OF a] by (simp only: ac_simps)
  moreover have "map dx_FragID (sy_DropReasons (sz_Summary r)) = map xf_ID (sz_Dropped r)"
    using ok unfolding r by (intro finalize_records) (simp add: resultOk_def)
  ultimately show ?thesis using that [OF a m(1) sub] by blast
qed

end
