(* ===== verification/SelectFits.thy ===== *)
theory SelectFits
  imports SelectFacts
begin

text \<open>
  The price of a selection under a plan: what is selected of the history, the trim notice and
  the system prompt together stay within what the plan leaves for them.
\<close>

section \<open>The history\<close>

definition historyCharge :: "FragEnv \<Rightarrow> ContextFrag \<Rightarrow> int" where
  "historyCharge env frag = (if chargedHistory frag then ResolveProviderBudgetFragTokens env frag else 0)"

definition noticeCharge :: "FragEnv \<Rightarrow> SelectionResult \<Rightarrow> int" where
  "noticeCharge env r = (if sz_TrimNotice r then noticeTokens env else 0)"

lemma provider_nonneg: "0 \<le> ResolveProviderBudgetFragTokens env frag"
proof -
  have "0 \<le> snd (fragPartEstimate env p)" for p
    by (auto simp: fragPartEstimate_def sdkMessageEstimate_def images_nonneg split: option.split intro!: sum_list_nonneg)
  then have "0 \<le> snd (fragEstimate env frag)" by (auto simp: fragEstimate_def intro!: sum_list_nonneg)
  then have "0 \<le> ProviderBudgetTokensFromBytes (fst (fragEstimate env frag)) + snd (fragEstimate env frag) * EstimateImageTokens"
    by (simp add: EstimateImageTokens_def)
  then show ?thesis
    unfolding ResolveProviderBudgetFragTokens_def Let_def case_prod_beta by (split if_split, intro conjI impI) linarith+
qed

lemma kept_charge:
  assumes "\<forall>t\<in>set tagged. tf_Tokens t = ResolveProviderBudgetFragTokens env (tf_Frag t)"
  shows "keptCost tagged drops =
    sum_list (map (historyCharge env) (sz_Selected (selectionResultFromTaggedReasons tagged (keptIndexes drops) reasons)))"
proof -
  have "(if map_of drops i = None \<and> chargedHistory (tf_Frag (tagged ! i)) then tf_Tokens (tagged ! i) else 0) =
      (if keptIndexes drops i then historyCharge env (tf_Frag (tagged ! i)) else 0)" if "i \<in> set [0..<length tagged]" for i
    using assms that by (auto simp: keptIndexes_def historyCharge_def)
  then have "keptCost tagged drops =
      sum_list (map (\<lambda>i. if keptIndexes drops i then historyCharge env (tf_Frag (tagged ! i)) else 0) [0..<length tagged])"
    unfolding keptCost_def by (intro arg_cong [where f = sum_list] map_cong refl)
  then show ?thesis
    by (simp add: selectionResultFromTaggedReasons_def Let_def comp_def sum_list_map_filter')
qed

lemma all_charge:
  "sum_list (map (historyCharge env) (sz_Selected (selectAll tagged))) =
    sum_list (map (historyCharge env) (sz_Selected (selectionResultFromTaggedReasons tagged (keptIndexes []) reasons)))"
  by (simp add: selectAll_def selectionResultFromTaggedReasons_def allSelectedIndexes_def keptIndexes_def Let_def)

lemma result_flags [simp]:
  "sz_FatalError (selectionResultFromTaggedReasons tagged P reasons) = None"
  "sz_TrimNotice (selectionResultFromTaggedReasons tagged P reasons) = False"
  "sz_FatalError (fatal e r) = Some e"
  "sz_FatalError (selectAll tagged) = None"
  "sz_TrimNotice (selectAll tagged) = False"
  by (simp_all add: selectionResultFromTaggedReasons_def Let_def fatal_def selectAll_def)

lemma trimmed_flags [simp]:
  "sz_Selected (trimmedResult tagged drops) = sz_Selected (selectionResultFromTaggedReasons tagged (keptIndexes drops) drops)"
  "sz_FatalError (trimmedResult tagged drops) = None"
  "sz_TrimNotice (trimmedResult tagged drops) = hasSpatialBudgetDrop drops"
  by (simp_all add: trimmedResult_def Let_def)

lemma under_plan_fits:
  assumes "selectUnderPlan env tagged budget recent = (r, edits)" "sz_FatalError r = None"
  shows "sum_list (map (historyCharge env) (sz_Selected r)) + noticeCharge env r \<le> budget"
proof -
  obtain tagged1 cost edits1 where s: "shrinkProtected env (providerPriced env tagged) budget = (tagged1, cost, edits1)"
    by (metis prod_cases3)
  have priced: "\<forall>t\<in>set tagged1. tf_Tokens t = ResolveProviderBudgetFragTokens env (tf_Frag t)"
    and cost: "cost = protectedHistoryTokenCost tagged1"
    using shrunk_priced [OF s] by blast+
  have nonneg: "\<forall>i<length tagged1. 0 \<le> tf_Tokens (tagged1 ! i)" using priced provider_nonneg by simp
  let ?D = "\<lambda>b. budgetTrimDropsEnabled tagged1 b recent"
  have kept: "sum_list (map (historyCharge env) (sz_Selected (selectionResultFromTaggedReasons tagged1 (keptIndexes (?D b)) reasons))) \<le>
      cost + max 0 b" for b reasons
    using kept_cost [OF nonneg, of b recent] kept_charge [OF priced, of "?D b" reasons] by (simp add: cost)
  have notice: "0 \<le> noticeTokens env" by (simp add: noticeTokens_def provider_nonneg)
  have fits: "cost \<le> budget" using assms by (auto simp: selectUnderPlan_def s split: if_splits)
  show ?thesis
  proof (cases "?D (budget - cost) = []")
    case True
    then have "r = selectAll tagged1" using assms fits by (simp add: selectUnderPlan_def s)
    then show ?thesis using kept [of "budget - cost" "[]"] fits True all_charge [of env tagged1 "[]"] by (simp add: noticeCharge_def)
  next
    case False
    note some = this
    show ?thesis
    proof (cases "hasSpatialBudgetDrop (?D (budget - cost))")
      case True
      then have "noticeTokens env \<le> budget - cost" "r = trimmedResult tagged1 (?D (budget - cost - noticeTokens env))"
        using assms fits some by (auto simp: selectUnderPlan_def s Let_def split: if_splits)
      then show ?thesis
        using kept [of "budget - cost - noticeTokens env" "?D (budget - cost - noticeTokens env)"] notice
        by (simp add: noticeCharge_def)
    next
      case False
      then have "r = trimmedResult tagged1 (?D (budget - cost))"
        using assms fits some by (simp add: selectUnderPlan_def s Let_def)
      then show ?thesis using kept [of "budget - cost" "?D (budget - cost)"] fits False by (simp add: noticeCharge_def)
    qed
  qed
qed

section \<open>The system prompt\<close>

text \<open>The cost looks at the system fragments only.\<close>

lemma systemFragCost_filter:
  assumes "filter isSystem frags = filter isSystem frags'"
  shows "systemFragCost env frags = systemFragCost env frags'"
proof -
  have "filter isSystem (sortSystemFragsByPriority xs) = sort_key xf_Priority (filter isSystem xs)" for xs
    by (cases "filter isSystem xs = []") (auto simp: sortSystemFragsByPriority_def filter_empty_conv filter_id_conv)
  then show ?thesis using assms by (simp add: systemFragCost_def)
qed

text \<open>A protected fragment is in a protected unit, so the trim keeps it.\<close>

lemma protected_kept:
  assumes "i < length tagged" "\<not> HasTag (tagged ! i) TagCanDrop"
  shows "map_of (budgetTrimDropsEnabled tagged budget recent) i = None"
proof (rule ccontr)
  assume "map_of (budgetTrimDropsEnabled tagged budget recent) i \<noteq> None"
  then obtain k where k: "k \<in> droppedUnits tagged budget recent" "i \<in> set (bu_indexes (buildBudgetUnits tagged ! k))"
    unfolding trim_units by blast
  then have "k < length (buildBudgetUnits tagged)" "bu_droppable (buildBudgetUnits tagged ! k)" using dropped_range by blast+
  then show False using units_ok [OF nth_mem] k(2) assms(2) unfolding unitOk_def by blast
qed

text \<open>Neither does the removal of orphaned exchanges, where all history is kept.\<close>

lemma protected_orphan:
  assumes "i < length tagged" "\<not> HasTag (tagged ! i) TagCanDrop"
  shows "map_of (orphanExchangeDrops tagged) i = None"
proof (rule ccontr)
  assume "map_of (orphanExchangeDrops tagged) i \<noteq> None"
  then obtain k r where k: "(k, r) \<in> set (orphanList (buildBudgetUnits tagged))" "i \<in> set (bu_indexes (buildBudgetUnits tagged ! k))"
    using orphan_lookup by blast
  then have "k < length (buildBudgetUnits tagged)" "bu_droppable (buildBudgetUnits tagged ! k)" by (auto simp: orphanList_def)
  then show False using units_ok [OF nth_mem] k(2) assms(2) unfolding unitOk_def by blast
qed

text \<open>Shortening touches summaries only, and no tags.\<close>

lemma shrink_others:
  "\<forall>i\<in>set is. xf_Kind (tf_Frag (tagged ! i)) = KindConversationSummary \<Longrightarrow>
    xf_Kind (tf_Frag (tagged ! j)) \<noteq> KindConversationSummary \<Longrightarrow>
    fst (foldl (shrinkEntry env target) (tagged, edits) is) ! j = tagged ! j"
proof (induction "is" arbitrary: tagged edits)
  case (Cons i "is")
  obtain tagged1 edits1 where e: "shrinkEntry env target (tagged, edits) i = (tagged1, edits1)" by fastforce
  have kinds: "xf_Kind (tf_Frag (tagged1 ! k)) = xf_Kind (tf_Frag (tagged ! k))" for k
    using e shrink_summary by (cases "k = i \<and> i < length tagged")
      (auto simp: shrinkEntry_def fragKey_def nth_list_update list_update_beyond split: option.splits)
  have "tagged1 ! j = tagged ! j"
    using e Cons.prems by (cases "j = i") (auto simp: shrinkEntry_def split: option.splits)
  moreover have "fst (foldl (shrinkEntry env target) (tagged1, edits1) is) ! j = tagged1 ! j"
    using Cons.prems by (intro Cons.IH) (auto simp: kinds)
  ultimately show ?case by (simp add: e)
qed simp

lemma protected_others:
  assumes "shrinkProtected env tagged budget = (tagged1, cost, edits)" "xf_Kind (tf_Frag (tagged ! j)) \<noteq> KindConversationSummary"
  shows "tagged1 ! j = tagged ! j"
proof -
  have settled: "settleLoop tagged n is available target = Some (pending, target1) \<Longrightarrow> set pending \<subseteq> set is"
    for n "is" available target pending target1
    by (induction n arbitrary: "is" available target) (fastforce simp: Let_def split: if_splits)+
  have "fst (shrinkOversizedProtectedSummaries env tagged c upper) ! j = tagged ! j" for c upper
    using assms(2) settled unfolding shrinkOversizedProtectedSummaries_def Let_def
    by (auto split: option.split intro!: shrink_others dest!: settled)
  from this [of "protectedHistoryTokenCost tagged"] show ?thesis
    using assms(1) unfolding shrinkProtected_def Let_def
    by (auto split: if_splits prod.splits) (metis (no_types, lifting) fst_conv)+
qed

abbreviation providerIntent :: "string \<Rightarrow> bool" where
  "providerIntent intent \<equiv> intent = IntentRunConfigPreProvider \<or> intent = IntentDiscussReply"

lemma ProfileFor_provider:
  assumes "providerIntent intent"
  shows "ip_Intent (ProfileFor intent) = intent" "isSystem frag \<Longrightarrow> isMustKeepFrag frag (ProfileFor intent)"
    "ip_SlotTrustFloors (ProfileFor intent) = [(SlotSystem, TrustWorkspace)]"
  using assms by (auto simp: ProfileFor_def isMustKeepFrag_def mustKeepProviderSystemFrag_def)

definition noSystemSummary :: "ContextFrag list \<Rightarrow> bool" where
  "noSystemSummary frags \<longleftrightarrow> (\<forall>f\<in>set frags. isSystem f \<longrightarrow> xf_Kind f \<noteq> KindConversationSummary)"

lemma under_plan_system:
  assumes r: "selectUnderPlan env (tagFragments env frags (ProfileFor intent)) budget recent = (r, edits)"
    and i: "providerIntent intent" and none: "noSystemSummary frags" and ok: "sz_FatalError r = None"
  shows "filter isSystem (sz_Selected r) = filter isSystem frags"
proof -
  let ?tagged = "tagFragments env frags (ProfileFor intent)"
  obtain tagged1 cost edits1 where s: "shrinkProtected env (providerPriced env ?tagged) budget = (tagged1, cost, edits1)"
    by (metis prod_cases3)
  have keys: "map (\<lambda>t. fragKey (tf_Frag t)) tagged1 = map (\<lambda>t. fragKey (tf_Frag t)) (providerPriced env ?tagged)"
    by (rule shrink_protected [OF _ s]) (auto dest: shrink_summary)
  have len: "length tagged1 = length frags" using arg_cong [OF keys, of length] by (simp add: providerPriced_def)
  have frag: "tf_Frag (?tagged ! k) = frags ! k" if "k < length frags" for k
    using that nth_map [of k ?tagged tf_Frag] by simp
  have slot: "isSystem (tf_Frag (tagged1 ! k)) \<longleftrightarrow> isSystem (frags ! k)" if "k < length frags" for k
    using that arg_cong [OF keys, of "\<lambda>xs. xs ! k"] by (simp add: len providerPriced_def fragKey_def frag)
  have same: "tf_Frag (tagged1 ! k) = frags ! k \<and> \<not> HasTag (tagged1 ! k) TagCanDrop" if k: "k < length frags" "isSystem (frags ! k)" for k
  proof -
    have "xf_Kind (tf_Frag (providerPriced env ?tagged ! k)) \<noteq> KindConversationSummary"
      using k none by (simp add: providerPriced_def frag noSystemSummary_def)
    from protected_others [OF s this] have "tagged1 ! k = providerPriced env ?tagged ! k" .
    moreover have "\<not> HasTag (?tagged ! k) TagCanDrop"
      using k by (intro must_keep_protected ProfileFor_provider(2) [OF i])
    ultimately show ?thesis using k by (simp add: providerPriced_def frag HasTag_def)
  qed
  have chosen: "filter isSystem (sz_Selected (selectionResultFromTaggedReasons tagged1 P reasons)) = filter isSystem frags"
    if P: "\<And>k. k < length frags \<Longrightarrow> isSystem (frags ! k) \<Longrightarrow> P k" for P reasons
  proof -
    have "filter (\<lambda>k. isSystem (tf_Frag (tagged1 ! k)) \<and> P k) [0..<length frags] = filter (\<lambda>k. isSystem (frags ! k)) [0..<length frags]"
      using slot P by (intro filter_cong) auto
    then have "filter isSystem (sz_Selected (selectionResultFromTaggedReasons tagged1 P reasons)) =
        map (\<lambda>k. tf_Frag (tagged1 ! k)) (filter (\<lambda>k. isSystem (frags ! k)) [0..<length frags])"
      by (simp add: selectionResultFromTaggedReasons_def Let_def len filter_map comp_def conj_commute)
    also have "\<dots> = map ((!) frags) (filter (\<lambda>k. isSystem (frags ! k)) [0..<length frags])"
      using same by (intro map_cong) auto
    finally show ?thesis by (simp add: filter_nth [of isSystem frags])
  qed
  have kept: "keptIndexes (budgetTrimDropsEnabled tagged1 b recent) k" if "k < length frags" "isSystem (frags ! k)" for k b
    using protected_kept [of k tagged1 b recent] same [OF that] that len by (simp add: keptIndexes_def)
  have trimmed: "filter isSystem (sz_Selected (trimmedResult tagged1 (budgetTrimDropsEnabled tagged1 b recent))) = filter isSystem frags" for b
    unfolding trimmed_flags by (rule chosen [OF kept])
  have all: "filter isSystem (sz_Selected (selectAll tagged1)) = filter isSystem frags"
    unfolding selectAll_def by (rule chosen) (simp add: allSelectedIndexes_def)
  have "r = selectAll tagged1 \<or> (\<exists>b. r = trimmedResult tagged1 (budgetTrimDropsEnabled tagged1 b recent))"
    using r ok by (auto simp: selectUnderPlan_def s Let_def split: if_splits)
  then show ?thesis using trimmed all by auto
qed

text \<open>The fragments that reach the budgets come from the input, but for the marker.\<close>

lemma stages_keys:
  assumes "applyTrustGate frags0 profile = (frags1, gated)" "resolveConflictGroups frags1 = (frags2, superseded)"
    and "enforceSystemBudget env (fx_kept (enforceFragBudgets env frags2 profile active)) profile plan0 gone = (frags3, dropped, plan, e)"
  shows "set (map fragKey frags3) \<subseteq> insert markerKey (set (map fragKey frags0))"
proof -
  let ?kept = "fragKeys (fx_kept (enforceFragBudgets env frags2 profile active))"
  obtain marker where m: "marker \<in> {{#}, {#markerKey#}}" "fragKeys frags3 + fragKeys dropped = ?kept + marker"
    using enforce_system [OF assms(3)] by blast
  have "set_mset (fragKeys frags3) \<subseteq> set_mset (?kept + marker)" unfolding m(2) [symmetric] by simp
  moreover have "set_mset (?kept + marker) \<subseteq> insert markerKey (set_mset ?kept)" using m(1) by auto
  moreover have "set (map fragKey (fx_kept (enforceFragBudgets env frags2 profile active))) \<subseteq> set (map fragKey frags2)"
    using frag_budgets.kept_keys [of env frags2 profile active] by simp
  moreover have "set (map fragKey frags2) \<subseteq> set (map fragKey frags1)"
    using conflict_groups.kept_keys [of frags1] assms(2) by simp
  moreover have "set (map fragKey frags1) \<subseteq> set (map fragKey frags0)"
    using trust_gate.kept_keys [of frags0 profile] assms(1) by simp
  moreover have "set_mset (fragKeys xs) = set (map fragKey xs)" for xs by (simp add: fragKeys_def)
  ultimately show ?thesis by blast
qed

lemma noSystemSummary_keys:
  assumes "noSystemSummary frags0" "set (map fragKey frags) \<subseteq> insert markerKey (set (map fragKey frags0))"
  shows "noSystemSummary frags"
  unfolding noSystemSummary_def
proof (intro ballI impI)
  fix f assume f: "f \<in> set frags" "isSystem f"
  then have "fragKey f \<in> insert markerKey (set (map fragKey frags0))" using assms(2) by auto
  then show "xf_Kind f \<noteq> KindConversationSummary"
    using assms(1) f(2)
    by (auto simp: fragKey_def markerKey_def noSystemSummary_def KindSystemPolicy_def KindConversationSummary_def)
qed

text \<open>Where all history is kept, so is the system prompt.\<close>

lemma keep_history_system:
  assumes "providerIntent intent"
  shows "filter isSystem (sz_Selected (selectionResultFromTaggedReasons (tagFragments env frags (ProfileFor intent))
      (keptIndexes (orphanExchangeDrops (tagFragments env frags (ProfileFor intent)))) reasons)) = filter isSystem frags"
proof -
  let ?tagged = "tagFragments env frags (ProfileFor intent)"
  let ?P = "keptIndexes (orphanExchangeDrops ?tagged)"
  have len: "length ?tagged = length frags" by simp
  have frag: "tf_Frag (?tagged ! k) = frags ! k" if "k < length frags" for k
    using that nth_map [of k ?tagged tf_Frag] by simp
  have kept: "?P k" if k: "k < length frags" "isSystem (frags ! k)" for k
  proof -
    have "\<not> HasTag (?tagged ! k) TagCanDrop"
      using k by (intro must_keep_protected ProfileFor_provider(2) [OF assms])
    with k show ?thesis by (simp add: keptIndexes_def protected_orphan)
  qed
  have "filter (\<lambda>k. isSystem (tf_Frag (?tagged ! k)) \<and> ?P k) [0..<length frags] = filter (\<lambda>k. isSystem (frags ! k)) [0..<length frags]"
    using frag kept by (intro filter_cong) auto
  then have "filter isSystem (sz_Selected (selectionResultFromTaggedReasons ?tagged ?P reasons)) =
      map (\<lambda>k. tf_Frag (?tagged ! k)) (filter (\<lambda>k. isSystem (frags ! k)) [0..<length frags])"
    by (simp add: selectionResultFromTaggedReasons_def Let_def filter_map comp_def conj_commute)
  also have "\<dots> = map ((!) frags) (filter (\<lambda>k. isSystem (frags ! k)) [0..<length frags])"
    using frag by (intro map_cong) auto
  finally show ?thesis by (simp add: filter_nth [of isSystem frags])
qed

text \<open>
  The system prompt within what the plan leaves for it and the history, and unless all history is
  kept, system prompt, history and notice together.
\<close>

lemma selection_cost:
  assumes s: "SelectFrags env frags (ProfileFor intent) budget = (r, plan)" and i: "providerIntent intent"
    and p0: "be_Plan budget = Some p0" and none: "noSystemSummary frags" and ok: "sz_FatalError r = None"
  shows "systemFragCost env (sz_Selected r) \<le> bl_SystemBudget p0 \<and>
    (\<not> be_KeepHistory budget \<longrightarrow>
      systemFragCost env (sz_Selected r) + sum_list (map (historyCharge env) (sz_Selected r)) + noticeCharge env r \<le> bl_SystemBudget p0)"
proof -
  let ?profile = "ProfileFor intent"
  obtain frags1 gated frags2 superseded fb frags3 systemDropped e result edits where
    a: "applyTrustGate frags ?profile = (frags1, gated)" and b: "resolveConflictGroups frags1 = (frags2, superseded)"
    and fb: "fb = enforceFragBudgets env frags2 ?profile (systemBudgetPlanActive ?profile (be_Plan budget))"
    and c: "enforceSystemBudget env (fx_kept fb) ?profile (be_Plan budget) (map fst (fx_dropped fb)) = (frags3, systemDropped, plan, e)"
    and d: "historyResult env (tagFragments env frags3 ?profile) budget plan e = (result, edits)"
    and r: "r = finalizeSelection result ?profile gated superseded (fx_dropped fb) (fx_edits fb @ edits) (fx_warnings fb) systemDropped"
    by (rule select_parts [OF s])
  have result: "sz_Selected r = sz_Selected result" "noticeCharge env r = noticeCharge env result" "sz_FatalError result = None"
    using ok unfolding r noticeCharge_def finalize by simp_all
  have e: "e = None" using d result(3) by (cases e) (auto simp: historyResult_def)
  have "systemBudgetPlanActive ?profile (be_Plan budget)" using i p0 ProfileFor_provider(1) [OF i] by (auto simp: systemBudgetPlanActive_def)
  then have plan: "plan = Some (finishSystemBudgetPlan p0 (systemFragCost env frags3))" "systemFragCost env frags3 \<le> bl_SystemBudget p0"
    using enforce_system [OF c] e p0 by auto
  show ?thesis
  proof (cases "be_KeepHistory budget")
    case True
    then have "filter isSystem (sz_Selected result) = filter isSystem frags3"
      using d e keep_history_system [OF i, of env frags3] by (auto simp: historyResult_def)
    then have "systemFragCost env (sz_Selected result) = systemFragCost env frags3" by (rule systemFragCost_filter)
    then show ?thesis using plan(2) True by (simp add: result)
  next
    case False
    then have u: "selectUnderPlan env (tagFragments env frags3 ?profile) (bl_SystemBudget p0 - systemFragCost env frags3)
        (be_RecentProtectTokens budget) = (result, edits)"
      using d e plan by (simp add: historyResult_def finishSystemBudgetPlan_def)
    have "noSystemSummary frags3" using noSystemSummary_keys [OF none] stages_keys [OF a b] c unfolding fb by blast
    then have "systemFragCost env (sz_Selected result) = systemFragCost env frags3"
      by (intro systemFragCost_filter under_plan_system [OF u i _ result(3)])
    then show ?thesis using under_plan_fits [OF u result(3)] plan(2) by (simp add: result)
  qed
qed

end
