(* ===== verification/SelectExchanges.thy ===== *)
theory SelectExchanges
  imports SelectFits
begin

text \<open>
  Tool exchanges through a whole selection: when the collected fragments hold closed exchanges,
  so do the selected ones, and the trim notice stands between exchanges. Only what a fragment
  opens and answers matters, its view.
\<close>

section \<open>Views\<close>

definition exchangeView :: "ContextFrag \<Rightarrow> string list \<times> string list" where
  "exchangeView frag = (fragToolResultCallIDs frag, fragToolCallIDs frag)"

definition bearing :: "string list \<times> string list \<Rightarrow> bool" where
  "bearing v \<longleftrightarrow> v \<noteq> ([], [])"

definition exchangeViews :: "ContextFrag list \<Rightarrow> (string list \<times> string list) list" where
  "exchangeViews frags = filter bearing (map exchangeView frags)"

fun viewsClosed :: "string list \<Rightarrow> (string list \<times> string list) list \<Rightarrow> bool" where
  "viewsClosed opened [] \<longleftrightarrow> opened = []"
| "viewsClosed opened ((results, calls) # vs) \<longleftrightarrow>
     distinct results \<and> set results \<subseteq> set opened \<and> distinct calls \<and>
     set calls \<inter> set (filter (\<lambda>cid. cid \<notin> set results) opened) = {} \<and>
     viewsClosed (filter (\<lambda>cid. cid \<notin> set results) opened @ calls) vs"

lemma closed_views: "exchangesClosed opened frags \<longleftrightarrow> viewsClosed opened (exchangeViews frags)"
proof (induction frags arbitrary: opened)
  case (Cons frag frags)
  show ?case
  proof (cases "bearing (exchangeView frag)")
    case True
    then show ?thesis using Cons by (simp add: exchangeViews_def exchangeView_def Let_def)
  next
    case False
    then have "fragToolResultCallIDs frag = []" "fragToolCallIDs frag = []" by (simp_all add: bearing_def exchangeView_def)
    with False Cons show ?thesis by (simp add: exchangeViews_def Let_def)
  qed
qed (simp add: exchangeViews_def)

lemma exchangeViews_simps [simp]:
  "exchangeViews [] = []"
  "exchangeViews (frag # frags) = (if bearing (exchangeView frag) then [exchangeView frag] else []) @ exchangeViews frags"
  "exchangeViews (xs @ ys) = exchangeViews xs @ exchangeViews ys"
  by (simp_all add: exchangeViews_def)

lemma exchangeViews_filter:
  "(\<And>f. f \<in> set frags \<Longrightarrow> bearing (exchangeView f) \<Longrightarrow> P f) \<Longrightarrow> exchangeViews (filter P frags) = exchangeViews frags"
  by (induction frags) auto

lemma exchangeViews_indexes:
  "(\<And>i. i \<in> set is \<Longrightarrow> bearing (exchangeView (frags ! i)) \<Longrightarrow> P i) \<Longrightarrow>
    exchangeViews (map ((!) frags) (filter P is)) = exchangeViews (map ((!) frags) is)"
  by (induction "is") auto

lemma exchangeViews_map: "map exchangeView xs = map exchangeView ys \<Longrightarrow> exchangeViews xs = exchangeViews ys"
  by (simp add: exchangeViews_def)

text \<open>What is asked of the fragments that carry calls or results: they are history messages.\<close>

definition plainExchange :: "FragEnv \<Rightarrow> ContextFrag \<Rightarrow> bool" where
  "plainExchange env frag \<longleftrightarrow>
     (fragToolCallIDs frag \<noteq> [] \<or> fragToolResultCallIDs frag \<noteq> []) \<longrightarrow>
       \<not> isSystem frag \<and> xf_ConflictKey frag = '''' \<and> isToolExchangeFrag env frag"

lemma plain_bearing:
  "plainExchange env frag \<Longrightarrow> bearing (exchangeView frag) \<Longrightarrow>
    \<not> isSystem frag \<and> xf_ConflictKey frag = '''' \<and> isToolExchangeFrag env frag"
  by (auto simp: plainExchange_def bearing_def exchangeView_def)

section \<open>The stages\<close>

lemma trust_views:
  assumes "providerIntent intent" "\<forall>f\<in>set frags. plainExchange env f" "applyTrustGate frags (ProfileFor intent) = (kept, gated)"
  shows "exchangeViews kept = exchangeViews frags \<and> set kept \<subseteq> set frags"
proof -
  have "exchangeViews (filter (\<lambda>f. \<not> belowFloor (ProfileFor intent) f) frags) = exchangeViews frags"
    using assms(2) plain_bearing by (intro exchangeViews_filter)
      (fastforce simp: belowFloor_def ProfileFor_provider(3) [OF assms(1)] split: if_splits)
  then show ?thesis using assms(3) by (auto simp: applyTrustGate_def split: if_splits)
qed

lemma conflict_views:
  assumes "\<forall>f\<in>set frags. plainExchange env f" "resolveConflictGroups frags = (kept, losers)"
  shows "exchangeViews kept = exchangeViews frags \<and> set kept \<subseteq> set frags"
proof -
  have "exchangeViews (map ((!) frags) (filter (\<lambda>i. \<not> isLoser frags (conflictWinners frags) i) [0..<length frags])) =
      exchangeViews (map ((!) frags) [0..<length frags])"
  proof (rule exchangeViews_indexes)
    fix i assume "i \<in> set [0..<length frags]" "bearing (exchangeView (frags ! i))"
    then have "xf_ConflictKey (frags ! i) = ''''" using assms(1) plain_bearing [of env "frags ! i"] by simp
    then show "\<not> isLoser frags (conflictWinners frags) i" by (simp add: isLoser_def)
  qed
  then show ?thesis
    using assms(2) by (auto simp: resolveConflictGroups_def Let_def map_nth split: if_splits)
qed

lemma withTexts_messages: "length texts = length parts \<Longrightarrow> map partMessage (withTexts parts texts) = map partMessage parts"
  unfolding withTexts_def by (induction parts texts rule: list_induct2') (simp_all add: partMessage_def split: option.split)

lemma exchangeView_parts: "map partMessage (xf_Parts f) = map partMessage (xf_Parts g) \<Longrightarrow> exchangeView f = exchangeView g"
proof -
  assume same: "map partMessage (xf_Parts f) = map partMessage (xf_Parts g)"
  have "map (\<lambda>p. case partMessage p of None \<Rightarrow> [] | Some msg \<Rightarrow> h msg) (xf_Parts f) =
      map (\<lambda>p. case partMessage p of None \<Rightarrow> [] | Some msg \<Rightarrow> h msg) (xf_Parts g)" for h :: "SdkMessage \<Rightarrow> string list"
    using arg_cong [OF same, of "map (\<lambda>m. case m of None \<Rightarrow> [] | Some msg \<Rightarrow> h msg)"] by (simp add: comp_def)
  then show ?thesis by (simp add: exchangeView_def fragToolCallIDs_def fragToolResultCallIDs_def)
qed

lemma trimTexts_length: "length (fst (trimTexts byBytes texts i remaining lastChanged)) = length texts"
  by (induction texts arbitrary: i remaining lastChanged) (simp_all add: Let_def case_prod_beta)

lemma trimByLimit_length: "length (fst (trimByLimit limit byBytes st)) = length (fst st)"
  using trimTexts_length [of byBytes "fst st" 0]
  by (auto simp: trimByLimit_def trimPartsToLimit_def Let_def split: option.splits prod.splits) (metis fst_conv)+

lemma trim_view: "trimFragText env frag = Some next1 \<Longrightarrow> exchangeView next1 = exchangeView frag"
proof -
  assume t: "trimFragText env frag = Some next1"
  obtain charLimit byteLimit where l: "fragTrimLimit (xf_Budget frag) = (charLimit, byteLimit)" by fastforce
  define st where "st = trimByLimit byteLimit True (trimByLimit charLimit False (map pt_Text (xf_Parts frag), False))"
  have "length (fst st) = length (xf_Parts frag)" by (simp add: st_def trimByLimit_length)
  moreover have "xf_Parts next1 = withTexts (xf_Parts frag) (fst st)"
    using t by (auto simp: trimFragText_def l st_def [symmetric] Let_def split: if_splits prod.splits)
  ultimately show ?thesis by (intro exchangeView_parts) (simp add: withTexts_messages)
qed

lemma outcome_view:
  "fragBudgetOutcome env profile active frag = KeptTrimmed f edit \<Longrightarrow> exchangeView f = exchangeView frag"
  "fragBudgetOutcome env profile active frag = DroppedFor reason \<Longrightarrow> \<not> isToolExchangeFrag env frag"
proof -
  assume "fragBudgetOutcome env profile active frag = KeptTrimmed f edit"
  then have "trimFragText env frag = Some f" by (auto simp: fragBudgetOutcome_def Let_def split: option.splits if_splits)
  then show "exchangeView f = exchangeView frag" by (rule trim_view)
qed (auto simp: fragBudgetOutcome_def Let_def split: option.splits if_splits)

lemma addOutcome_kept:
  "fx_kept (addOutcome r (frag, out)) = fx_kept r @ (case out of Kept f \<Rightarrow> [f] | KeptWarned f _ \<Rightarrow> [f] | KeptTrimmed f _ \<Rightarrow> [f] | DroppedFor _ \<Rightarrow> [])"
  by (cases out) (simp_all add: addOutcome_def)

lemma budget_views_from:
  assumes "\<forall>f\<in>set frags. plainExchange env f"
  shows "exchangeViews (fx_kept (foldl addOutcome r (map (\<lambda>frag. (frag, fragBudgetOutcome env profile active frag)) frags))) =
    exchangeViews (fx_kept r) @ exchangeViews frags"
  using assms
proof (induction frags arbitrary: r)
  case (Cons frag frags)
  have "plainExchange env frag" using Cons.prems by simp
  then have "exchangeViews (case fragBudgetOutcome env profile active frag of
      Kept f \<Rightarrow> [f] | KeptWarned f _ \<Rightarrow> [f] | KeptTrimmed f _ \<Rightarrow> [f] | DroppedFor _ \<Rightarrow> []) = exchangeViews [frag]"
  proof (cases "fragBudgetOutcome env profile active frag")
    case (DroppedFor reason)
    then have "\<not> bearing (exchangeView frag)"
      using outcome_view(2) [OF DroppedFor] plain_bearing [OF \<open>plainExchange env frag\<close>] by blast
    with DroppedFor show ?thesis by simp
  next
    case (Kept f)
    then show ?thesis using outcome_key(1) [OF Kept] by simp
  next
    case (KeptWarned f code)
    then show ?thesis using outcome_key(2) [OF KeptWarned] by simp
  next
    case (KeptTrimmed f edit)
    then show ?thesis using outcome_view(1) [OF KeptTrimmed] by simp
  qed
  then show ?case using Cons by (simp add: addOutcome_kept del: exchangeViews_simps(2)) simp
qed simp

lemma budget_views:
  "\<forall>f\<in>set frags. plainExchange env f \<Longrightarrow> exchangeViews (fx_kept (enforceFragBudgets env frags profile active)) = exchangeViews frags"
  unfolding enforceFragBudgets_def by (simp add: budget_views_from)

text \<open>A fragment that passes its budget comes from one with the same key and view.\<close>

lemma budget_source_from:
  "f \<in> set (fx_kept (foldl addOutcome r (map (\<lambda>frag. (frag, fragBudgetOutcome env profile active frag)) frags))) \<Longrightarrow>
    f \<in> set (fx_kept r) \<or> (\<exists>g\<in>set frags. exchangeView f = exchangeView g \<and> fragKey f = fragKey g)"
proof (induction frags arbitrary: r)
  case (Cons frag frags)
  let ?r = "addOutcome r (frag, fragBudgetOutcome env profile active frag)"
  have "exchangeView g = exchangeView frag \<and> fragKey g = fragKey frag" if "g \<in> set (fx_kept ?r)" "g \<notin> set (fx_kept r)" for g
    using that by (cases "fragBudgetOutcome env profile active frag")
      (auto simp: addOutcome_kept outcome_view(1) dest: outcome_key)
  moreover have "f \<in> set (fx_kept ?r) \<or> (\<exists>g\<in>set frags. exchangeView f = exchangeView g \<and> fragKey f = fragKey g)"
    using Cons.prems by (intro Cons.IH) simp
  ultimately show ?case by (metis list.set_intros)
qed simp

lemma budget_source:
  "f \<in> set (fx_kept (enforceFragBudgets env frags profile active)) \<Longrightarrow>
    \<exists>g\<in>set frags. exchangeView f = exchangeView g \<and> fragKey f = fragKey g"
  unfolding enforceFragBudgets_def by (drule budget_source_from) simp

lemma marker_view: "\<not> bearing (exchangeView (systemBudgetMarkerFrag env ids scope))"
  by (simp add: systemBudgetMarkerFrag_def Let_def bearing_def exchangeView_def fragToolCallIDs_def fragToolResultCallIDs_def
      TextFrag_def partMessage_def zeroPart_def)

lemma exchangeViews_insert: "\<not> bearing (exchangeView m) \<Longrightarrow> exchangeViews (take n xs @ m # drop n xs) = exchangeViews xs"
  using exchangeViews_simps(3) [of "take n xs" "drop n xs"] by simp

lemma system_views:
  assumes "\<forall>f\<in>set frags. bearing (exchangeView f) \<longrightarrow> \<not> isSystem f"
    and "enforceSystemBudget env frags profile plan0 gone = (selected, dropped, plan, e)"
  shows "exchangeViews selected = exchangeViews frags"
proof -
  have "exchangeViews (systemSelected env scope frags st) = exchangeViews frags" if ok: "systemDropsOk frags st" for scope st
  proof -
    have kept: "exchangeViews (keepIndexes frags (\<lambda>i. i \<in> set (fst st))) = exchangeViews (map ((!) frags) [0..<length frags])"
      unfolding keepIndexes_nth using ok assms(1) by (intro exchangeViews_indexes) (auto simp: systemDropsOk_def)
    show ?thesis
      using kept by (auto simp: systemSelected_def systemBudgetSelection_def markerOf_def Let_def marker_view map_nth
          exchangeViews_insert simp del: exchangeViews_simps)
  qed
  then show ?thesis using enforce_shape [OF assms(2)] by blast
qed

text \<open>A shortened summary opens and answers nothing new.\<close>

lemma shrunk_view:
  assumes "shrinkSummaryFragToTokens env frag target = Some (next1, tokens)"
  shows "exchangeView next1 = exchangeView frag"
proof -
  obtain t rebuild s where "summaryFragText env frag = Some (t, rebuild)" and n: "next1 = rebuild s"
    using shrink_summary [OF assms] by blast
  then consider (onText) p where "xf_Parts frag = [p]" "rebuild = rebuildTextFrag env frag p"
    | (onMessage) p msg r where "xf_Parts frag = [p]" "partMessage p = Some msg" "ms_Content msg = [TextPart t r]"
        "rebuild = (\<lambda>s. rebuildMessageFrag env frag \<lparr>ms_Role = ms_Role msg, ms_Content = [TextPart s '''']\<rparr>)"
    by (auto simp: summaryFragText_def split: list.splits if_splits option.splits MessagePart.splits)
  then show ?thesis
  proof cases
    case onText
    then show ?thesis unfolding n by (intro exchangeView_parts) (simp add: rebuildTextFrag_def Let_def partMessage_def split: option.split)
  next
    case onMessage
    then show ?thesis
      by (simp add: n rebuildMessageFrag_def RebuildFragMessage_def Let_def exchangeView_def fragToolCallIDs_def
          fragToolResultCallIDs_def partCallID_def partResultID_def)
  qed
qed

section \<open>The place of the notice\<close>

fun openAfter :: "string list \<Rightarrow> ContextFrag list \<Rightarrow> string list" where
  "openAfter opened [] = opened"
| "openAfter opened (frag # frags) =
     openAfter (filter (\<lambda>cid. cid \<notin> set (fragToolResultCallIDs frag)) opened @ fragToolCallIDs frag) frags"

lemma openAfter_append: "openAfter opened (xs @ ys) = openAfter (openAfter opened xs) ys"
  by (induction xs arbitrary: opened) simp_all

lemma closed_append:
  "exchangesClosed opened (xs @ ys) \<Longrightarrow>
    exchangesClosed (openAfter opened xs) ys \<and> (openAfter opened xs = [] \<longrightarrow> exchangesClosed opened xs)"
  by (induction xs arbitrary: opened) (simp_all add: Let_def)

lemma closed_end: "exchangesClosed opened xs \<Longrightarrow> openAfter opened xs = []"
  by (induction xs arbitrary: opened) (simp_all add: Let_def)

text \<open>The counts of the loop are one for every open call.\<close>

definition counts :: "(string, nat) gomap \<Rightarrow> string list \<Rightarrow> bool" where
  "counts m opened \<longleftrightarrow> (\<forall>cid. map_of m cid = (if cid \<in> set opened then Some 1 else None))"

lemma counts_empty: "counts m opened \<Longrightarrow> m = [] \<longleftrightarrow> opened = []"
  unfolding counts_def by (cases opened; cases m) (force split: if_splits)+

lemma opened_counts:
  "distinct calls \<Longrightarrow> map_of (foldl (\<lambda>m cid. mapPut cid (mapGet 0 m cid + 1) m) m calls) cid =
    (if cid \<in> set calls then Some (mapGet 0 m cid + 1) else map_of m cid)"
  by (induction calls arbitrary: m) (auto simp: mapGet_def)

lemma closed_counts:
  "distinct results \<Longrightarrow> wfMap m \<Longrightarrow> map_of (foldl closeOne m results) cid =
    (if cid \<in> set results then (case map_of m cid of None \<Rightarrow> None | Some k \<Rightarrow> if k \<le> 1 then None else Some (k - 1)) else map_of m cid)"
proof (induction results arbitrary: m)
  case (Cons rid results)
  have "wfMap (closeOne m rid)" using Cons.prems(2) by (simp add: closeOne_def split: option.split)
  then show ?case using Cons by (auto simp: closeOne_def split: option.split)
qed simp

lemma step_counts:
  assumes "counts m opened" "wfMap m" "exchangesClosed opened (frag # frags)"
  shows "counts (exchangeStep m frag) (filter (\<lambda>cid. cid \<notin> set (fragToolResultCallIDs frag)) opened @ fragToolCallIDs frag) \<and>
    wfMap (exchangeStep m frag)"
proof -
  let ?m = "foldl (\<lambda>m cid. mapPut cid (mapGet 0 m cid + 1) m) m (fragToolCallIDs frag)"
  have wf: "wfMap (foldl (\<lambda>m cid. mapPut cid (mapGet 0 m cid + 1) m) m calls)" if "wfMap m" for m :: "(string, nat) gomap" and calls
    using that by (induction calls arbitrary: m) simp_all
  have wf': "wfMap (foldl closeOne m results)" if "wfMap m" for m results
    using that by (induction results arbitrary: m) (simp_all add: closeOne_def split: option.split)
  have d: "distinct (fragToolResultCallIDs frag)" "set (fragToolResultCallIDs frag) \<subseteq> set opened" "distinct (fragToolCallIDs frag)"
    "set (fragToolCallIDs frag) \<inter> set (filter (\<lambda>cid. cid \<notin> set (fragToolResultCallIDs frag)) opened) = {}"
    using assms(3) by (simp_all add: Let_def)
  have look: "map_of (exchangeStep m frag) cid =
      (if cid \<in> set (fragToolResultCallIDs frag)
       then (case if cid \<in> set (fragToolCallIDs frag) then Some (mapGet 0 m cid + 1) else map_of m cid of
               None \<Rightarrow> None | Some k \<Rightarrow> if k \<le> 1 then None else Some (k - 1))
       else if cid \<in> set (fragToolCallIDs frag) then Some (mapGet 0 m cid + 1) else map_of m cid)" for cid
    unfolding exchangeStep_def closed_counts [OF d(1) wf [OF assms(2)]] opened_counts [OF d(3)] ..
  have "counts (exchangeStep m frag) (filter (\<lambda>cid. cid \<notin> set (fragToolResultCallIDs frag)) opened @ fragToolCallIDs frag)"
    using assms(1) d(2,4) unfolding counts_def look by (auto simp: mapGet_def)
  then show ?thesis using wf [OF assms(2)] wf' by (simp add: exchangeStep_def)
qed

text \<open>The loop finds the first place at or after the base where no exchange is open.\<close>

lemma notice_pos:
  assumes "counts m (openAfter [] (take pos frags))" "wfMap m" "exchangesClosed [] frags" "pos \<le> length frags" "base \<le> length frags"
  shows "\<exists>p. noticeLoop base m fallback pos (drop pos frags) = p \<and> pos \<le> p \<and> base \<le> p \<and> p \<le> length frags \<and>
    openAfter [] (take p frags) = [] \<and> (\<forall>q. pos \<le> q \<longrightarrow> base \<le> q \<longrightarrow> q < p \<longrightarrow> openAfter [] (take q frags) \<noteq> [])"
  using assms
proof (induction "length frags - pos" arbitrary: m fallback pos)
  case 0
  then have pos: "pos = length frags" by simp
  then have "m = []" using 0 closed_end counts_empty by fastforce
  with pos 0 show ?case using closed_end [of "[]" frags] by (simp add: noticeLoop.simps)
next
  case (Suc d)
  then have pos: "pos < length frags" by simp
  show ?case
  proof (cases "m = [] \<and> base \<le> pos")
    case True
    then show ?thesis using Suc.prems counts_empty [of m] by (simp add: noticeLoop.simps [of base m])
  next
    case False
    have split: "drop pos frags = frags ! pos # drop (Suc pos) frags" using pos by (simp add: Cons_nth_drop_Suc)
    have closed: "exchangesClosed (openAfter [] (take pos frags)) (frags ! pos # drop (Suc pos) frags)"
      using closed_append [of "[]" "take pos frags" "drop pos frags"] Suc.prems(3)
      by (simp only: append_take_drop_id) (simp only: split)
    have after: "openAfter [] (take (Suc pos) frags) =
        filter (\<lambda>cid. cid \<notin> set (fragToolResultCallIDs (frags ! pos))) (openAfter [] (take pos frags)) @ fragToolCallIDs (frags ! pos)"
      using pos by (simp add: take_Suc_conv_app_nth openAfter_append)
    have step: "counts (exchangeStep m (frags ! pos)) (openAfter [] (take (Suc pos) frags))" "wfMap (exchangeStep m (frags ! pos))"
      using step_counts [OF Suc.prems(1,2) closed] unfolding after by blast+
    have loop: "noticeLoop base m fallback pos (drop pos frags) =
        noticeLoop base (exchangeStep m (frags ! pos)) (if m = [] then pos else fallback) (Suc pos) (drop (Suc pos) frags)"
      using False unfolding split by (subst noticeLoop.simps) auto
    have here: "openAfter [] (take pos frags) \<noteq> []" if "base \<le> pos" using False that counts_empty [OF Suc.prems(1)] by blast
    obtain p where p: "noticeLoop base (exchangeStep m (frags ! pos)) (if m = [] then pos else fallback) (Suc pos) (drop (Suc pos) frags) = p"
        "Suc pos \<le> p" "base \<le> p" "p \<le> length frags" "openAfter [] (take p frags) = []"
        "\<forall>q. Suc pos \<le> q \<longrightarrow> base \<le> q \<longrightarrow> q < p \<longrightarrow> openAfter [] (take q frags) \<noteq> []"
      using Suc.hyps(1) [of "Suc pos", OF _ step] Suc.hyps(2) Suc.prems(3,5) pos by fastforce
    moreover have "openAfter [] (take q frags) \<noteq> []" if "pos \<le> q" "base \<le> q" "q < p" for q
      using p(6) here that by (cases "q = pos") auto
    ultimately show ?thesis unfolding loop by (intro exI [of _ p]) auto
  qed
qed

lemma notice_index:
  assumes "exchangesClosed [] frags" "base \<le> length frags"
  shows "base \<le> closureSafeNoticeIndex frags base" "closureSafeNoticeIndex frags base \<le> length frags"
    "openAfter [] (take (closureSafeNoticeIndex frags base) frags) = []"
    "base \<le> q \<Longrightarrow> q < closureSafeNoticeIndex frags base \<Longrightarrow> openAfter [] (take q frags) \<noteq> []"
proof -
  have "counts [] (openAfter [] (take 0 frags))" by (simp add: counts_def)
  from notice_pos [OF this, of base 0] assms
  show "base \<le> closureSafeNoticeIndex frags base" "closureSafeNoticeIndex frags base \<le> length frags"
    "openAfter [] (take (closureSafeNoticeIndex frags base) frags) = []"
    "base \<le> q \<Longrightarrow> q < closureSafeNoticeIndex frags base \<Longrightarrow> openAfter [] (take q frags) \<noteq> []"
    unfolding closureSafeNoticeIndex_def by (auto simp: wfMap_def)
qed

lemma notice_splits:
  assumes "exchangesClosed [] frags" "openAfter [] (take n frags) = []"
  shows "exchangesClosed [] (take n frags) \<and> exchangesClosed [] (drop n frags)"
  using closed_append [of "[]" "take n frags" "drop n frags"] assms by simp

section \<open>The history\<close>

lemma orphan_atomic:
  assumes "sameUnit (buildBudgetUnits tagged) i j"
  shows "(map_of (orphanExchangeDrops tagged) i \<noteq> None) = (map_of (orphanExchangeDrops tagged) j \<noteq> None)"
proof -
  have "map_of (orphanExchangeDrops tagged) b \<noteq> None"
    if "map_of (orphanExchangeDrops tagged) a \<noteq> None" "u \<in> set (buildBudgetUnits tagged)" "a \<in> set (bu_indexes u)" "b \<in> set (bu_indexes u)"
    for a b u
  proof -
    note some = that(1) and unit = that(2)
    obtain r k where k: "(k, r) \<in> set (orphanList (buildBudgetUnits tagged))" "a \<in> set (bu_indexes (buildBudgetUnits tagged ! k))"
      using some unfolding not_None_eq orphan_lookup by blast
    obtain j where j: "j < length (buildBudgetUnits tagged)" "u = buildBudgetUnits tagged ! j" using unit by (metis in_set_conv_nth)
    have "k < length (buildBudgetUnits tagged)" using k(1) by (auto simp: orphanList_def)
    then have "k = j" using unit_unique [of k tagged j a] j k(2) that(3) by blast
    then have "map_of (orphanExchangeDrops tagged) b = Some r" using orphan_lookup k(1) j(2) that(4) by blast
    then show ?thesis by simp
  qed
  then show ?thesis using assms unfolding sameUnit_def by blast
qed

definition noticeOk :: "SelectionResult \<Rightarrow> bool" where
  "noticeOk r \<longleftrightarrow>
     exchangesClosed [] (sz_Selected r) \<and>
     (sz_TrimNotice r \<longrightarrow>
        (\<exists>n. sz_TrimNoticeIndex r = int n \<and> n \<le> length (sz_Selected r) \<and>
           exchangesClosed [] (take n (sz_Selected r)) \<and> exchangesClosed [] (drop n (sz_Selected r))))"

lemma noticeOk_fatal [simp]: "noticeOk (fatal e r) = noticeOk r"
  by (simp add: noticeOk_def fatal_def)

lemma selected_kept:
  "sz_Selected (selectionResultFromTaggedReasons tagged (keptIndexes drops) reasons) =
    keptFrags tagged (\<lambda>i. map_of drops i \<noteq> None) 0"
  by (simp add: selectionResultFromTaggedReasons_def Let_def keptFrags_def keptIndexes_def [abs_def])

lemma cut_ok:
  assumes "\<And>i j. sameUnit (buildBudgetUnits tagged) i j \<Longrightarrow> (map_of drops i \<noteq> None) = (map_of drops j \<noteq> None)"
    and "exchangesClosed [] (map tf_Frag tagged)"
  shows "noticeOk (selectionResultFromTaggedReasons tagged (keptIndexes drops) reasons)"
  using exchanges_kept [OF assms] by (simp add: noticeOk_def selected_kept)

lemma all_notice: "exchangesClosed [] (map tf_Frag tagged) \<Longrightarrow> noticeOk (selectAll tagged)"
proof -
  assume closed: "exchangesClosed [] (map tf_Frag tagged)"
  have "sz_Selected (selectAll tagged) = map tf_Frag tagged"
    by (rule nth_equalityI) (simp_all add: selectAll_def selectionResultFromTaggedReasons_def allSelectedIndexes_def Let_def)
  with closed show ?thesis by (simp add: noticeOk_def)
qed

lemma find_last:
  assumes "i < n" "P i"
  obtains k where "List.find P (rev [0..<n]) = Some k" "k < n"
proof (cases "List.find P (rev [0..<n])")
  case None
  then show ?thesis using assms by (auto simp: find_None_iff)
next
  case (Some k)
  then have "k < n" by (auto simp: find_Some_iff rev_nth)
  with Some show ?thesis by (rule that)
qed

lemma filter_upt_mono: "n \<le> m \<Longrightarrow> length (filter P [0..<n]) \<le> length (filter P [0..<m])"
proof -
  assume "n \<le> m"
  then obtain k where k: "m = n + k" unfolding le_iff_add by blast
  show ?thesis using upt_add_eq_append [of 0 n k] by (simp only: k filter_append length_append)
qed

lemma trimmed_notice:
  assumes "exchangesClosed [] (map tf_Frag tagged)"
  shows "noticeOk (trimmedResult tagged (budgetTrimDropsEnabled tagged budget recent))"
proof -
  let ?drops = "budgetTrimDropsEnabled tagged budget recent"
  let ?kept = "keptFrags tagged (\<lambda>i. map_of ?drops i \<noteq> None) 0"
  have closed: "exchangesClosed [] ?kept" using trim_atomic by (intro exchanges_kept [OF _ assms]) simp
  have "\<exists>n. trimNoticeIndex tagged ?drops = int n \<and> n \<le> length ?kept \<and> openAfter [] (take n ?kept) = []"
    if spatial: "hasSpatialBudgetDrop ?drops"
  proof -
    obtain i where i: "map_of ?drops i \<noteq> None"
      using spatial by (cases ?drops) (fastforce simp: hasSpatialBudgetDrop_def)+
    then obtain k where "k < length (buildBudgetUnits tagged)" "i \<in> set (bu_indexes (buildBudgetUnits tagged ! k))"
      using dropped_range unfolding trim_units by blast
    then have "i \<in> set (unitIndexes (buildBudgetUnits tagged))" unfolding unitIndexes_def by force
    then have "i < length tagged" using units_set [of tagged] by auto
    then obtain lst where lst: "List.find (\<lambda>i. map_of ?drops i \<noteq> None) (rev [0..<length tagged]) = Some lst" "lst < length tagged"
      using i by (rule find_last)
    have "length (filter (keptIndexes ?drops) [0..<Suc lst]) \<le> length (filter (keptIndexes ?drops) [0..<length tagged])"
      using lst(2) by (intro filter_upt_mono) simp
    then have base: "length (filter (keptIndexes ?drops) [0..<Suc lst]) \<le> length ?kept"
      by (simp add: keptFrags_def keptIndexes_def [abs_def])
    have "trimNoticeIndex tagged ?drops = int (closureSafeNoticeIndex ?kept (length (filter (keptIndexes ?drops) [0..<Suc lst])))"
      using lst(1) by (simp add: trimNoticeIndex_def Let_def keptFrags_def keptIndexes_def [abs_def])
    then show ?thesis using notice_index [OF closed base] by blast
  qed
  then show ?thesis
    using closed notice_splits [OF closed] by (auto simp: noticeOk_def trimmedResult_def Let_def selected_kept)
qed

lemma history_notice:
  assumes "historyResult env tagged budget plan e = (r, edits)" "exchangesClosed [] (map tf_Frag tagged)"
  shows "noticeOk r"
proof -
  have legacy: "noticeOk (selectLegacy tagged n recent)" for n recent
    using assms(2) by (auto simp: selectLegacy_def budgetTrimDrops_def Let_def all_notice trimmed_notice)
  have orphans: "noticeOk (selectionResultFromTaggedReasons tagged (keptIndexes (orphanExchangeDrops tagged)) (orphanExchangeDrops tagged))"
    using orphan_atomic assms(2) by (intro cut_ok)
  have plan: "noticeOk r" if "selectUnderPlan env tagged n recent = (r, edits)" for n recent
  proof -
    note run = that
    obtain tagged1 cost edits1 where s: "shrinkProtected env (providerPriced env tagged) n = (tagged1, cost, edits1)"
      by (metis prod_cases3)
    have "map (\<lambda>t. exchangeView (tf_Frag t)) tagged1 = map (\<lambda>t. exchangeView (tf_Frag t)) (providerPriced env tagged)"
      by (rule shrink_protected [OF _ s]) (rule shrunk_view)
    then have "map exchangeView (map tf_Frag tagged1) = map exchangeView (map tf_Frag tagged)"
      by (simp add: providerPriced_def comp_def)
    then have closed: "exchangesClosed [] (map tf_Frag tagged1)"
      using assms(2) unfolding closed_views by (metis exchangeViews_map)
    have "noticeOk (selectionResultFromTaggedReasons tagged1 (keptIndexes (budgetTrimDropsEnabled tagged1 b recent)) reasons)" for b reasons
      using trim_atomic closed by (intro cut_ok) simp_all
    then show ?thesis
      using run closed by (auto simp: selectUnderPlan_def s Let_def all_notice trimmed_notice split: if_splits)
  qed
  show ?thesis
    using assms(1) legacy orphans plan all_notice [OF assms(2)]
    by (auto simp: historyResult_def split: option.splits if_splits)
qed

lemma selected_notice:
  assumes s: "SelectFrags env frags (ProfileFor intent) budget = (r, plan)" and i: "providerIntent intent"
    and plain: "\<forall>f\<in>set frags. plainExchange env f" and closed: "exchangesClosed [] frags"
  shows "noticeOk r"
proof -
  let ?profile = "ProfileFor intent"
  obtain frags1 gated frags2 superseded fb frags3 systemDropped e result edits where
    a: "applyTrustGate frags ?profile = (frags1, gated)" and b: "resolveConflictGroups frags1 = (frags2, superseded)"
    and fb: "fb = enforceFragBudgets env frags2 ?profile (systemBudgetPlanActive ?profile (be_Plan budget))"
    and c: "enforceSystemBudget env (fx_kept fb) ?profile (be_Plan budget) (map fst (fx_dropped fb)) = (frags3, systemDropped, plan, e)"
    and d: "historyResult env (tagFragments env frags3 ?profile) budget plan e = (result, edits)"
    and r: "r = finalizeSelection result ?profile gated superseded (fx_dropped fb) (fx_edits fb @ edits) (fx_warnings fb) systemDropped"
    by (rule select_parts [OF s])
  have 1: "exchangeViews frags1 = exchangeViews frags \<and> set frags1 \<subseteq> set frags" by (rule trust_views [OF i plain a])
  then have plain1: "\<forall>f\<in>set frags1. plainExchange env f" using plain by blast
  have 2: "exchangeViews frags2 = exchangeViews frags1 \<and> set frags2 \<subseteq> set frags1" by (rule conflict_views [OF plain1 b])
  then have plain2: "\<forall>f\<in>set frags2. plainExchange env f" using plain1 by blast
  have 3: "exchangeViews (fx_kept fb) = exchangeViews frags2" unfolding fb by (rule budget_views [OF plain2])
  have "\<forall>f\<in>set (fx_kept fb). bearing (exchangeView f) \<longrightarrow> \<not> isSystem f"
  proof (intro ballI impI)
    fix f assume f: "f \<in> set (fx_kept fb)" "bearing (exchangeView f)"
    then obtain g where "g \<in> set frags2" "exchangeView f = exchangeView g" "fragKey f = fragKey g"
      using budget_source unfolding fb by blast
    then show "\<not> isSystem f" using plain2 f(2) plain_bearing [of env g] by (simp add: fragKey_def)
  qed
  then have "exchangeViews frags3 = exchangeViews (fx_kept fb)" by (rule system_views [OF _ c])
  then have "exchangesClosed [] (map tf_Frag (tagFragments env frags3 ?profile))" using closed 1 2 3 by (simp add: closed_views)
  from history_notice [OF d this] show ?thesis unfolding noticeOk_def r finalize .
qed

end
