(* ===== verification/SelectConflict.thy ===== *)
theory SelectConflict
  imports SelectAccounts
begin

text \<open>
  Fragments with the same conflict key: one survives, the most specific, then the most
  trusted, then the last.
\<close>

definition conflictRank :: "ContextFrag list \<Rightarrow> nat \<Rightarrow> nat \<times> nat \<times> nat" where
  "conflictRank frags i = (SpecificityRank (xf_Scope (frags ! i)), TrustRank (xf_Trust (frags ! i)), i)"

text \<open>No fragment with the key of \<open>i\<close> outranks it.\<close>

definition leadsItsKey :: "ContextFrag list \<Rightarrow> nat \<Rightarrow> nat \<Rightarrow> bool" where
  "leadsItsKey frags n i \<longleftrightarrow>
     (\<forall>j\<in>set [0..<n]. xf_ConflictKey (frags ! j) = xf_ConflictKey (frags ! i) \<longrightarrow> conflictRank frags j \<le> conflictRank frags i)"

lemma beats_rank: "j < i \<Longrightarrow> conflictBeats (frags ! i) (frags ! j) \<longleftrightarrow> conflictRank frags j < conflictRank frags i"
  by (auto simp: conflictBeats_def conflictRank_def)

lemma rank_inj: "conflictRank frags i = conflictRank frags j \<Longrightarrow> i = j"
  by (simp add: conflictRank_def)

lemma leads_unique:
  assumes "leadsItsKey frags n i" "leadsItsKey frags n j" "i < n" "j < n" "xf_ConflictKey (frags ! i) = xf_ConflictKey (frags ! j)"
  shows "i = j"
  using assms by (auto simp: leadsItsKey_def intro!: rank_inj [of frags i j] order_antisym)

text \<open>After \<open>n\<close> fragments the map holds, under each key among them, the one that leads it.\<close>

definition leadersUpTo :: "ContextFrag list \<Rightarrow> nat \<Rightarrow> (string, nat) gomap \<Rightarrow> bool" where
  "leadersUpTo frags n m \<longleftrightarrow>
     (\<forall>k. map_of m k = None \<longrightarrow> k = '''' \<or> (\<forall>j<n. xf_ConflictKey (frags ! j) \<noteq> k)) \<and>
     (\<forall>k w. map_of m k = Some w \<longrightarrow> k \<noteq> '''' \<and> w < n \<and> xf_ConflictKey (frags ! w) = k \<and> leadsItsKey frags n w)"

lemma leads_Suc:
  "leadsItsKey frags (Suc n) i \<longleftrightarrow>
    leadsItsKey frags n i \<and> (xf_ConflictKey (frags ! n) = xf_ConflictKey (frags ! i) \<longrightarrow> conflictRank frags n \<le> conflictRank frags i)"
  by (auto simp: leadsItsKey_def)

lemma leaders_step:
  assumes "leadersUpTo frags n m"
  shows "leadersUpTo frags (Suc n) (winnerStep frags m n)"
proof -
  let ?k = "xf_ConflictKey (frags ! n)"
  have none: "\<And>k. map_of m k = None \<Longrightarrow> k = '''' \<or> (\<forall>j<n. xf_ConflictKey (frags ! j) \<noteq> k)"
    and some: "\<And>k w. map_of m k = Some w \<Longrightarrow> k \<noteq> '''' \<and> w < n \<and> xf_ConflictKey (frags ! w) = k \<and> leadsItsKey frags n w"
    using assms unfolding leadersUpTo_def by blast+
  consider (bare) "?k = ''''" | (fresh) "?k \<noteq> ''''" "map_of m ?k = None"
    | (won) w where "?k \<noteq> ''''" "map_of m ?k = Some w" "conflictBeats (frags ! n) (frags ! w)"
    | (lost) w where "?k \<noteq> ''''" "map_of m ?k = Some w" "\<not> conflictBeats (frags ! n) (frags ! w)"
    by (cases "?k = ''''"; cases "map_of m ?k") auto
  then show ?thesis
  proof cases
    case bare
    then have step: "winnerStep frags m n = m" by (simp add: winnerStep_def)
    show ?thesis unfolding step leadersUpTo_def
    proof (intro conjI allI impI)
      fix k assume "map_of m k = None"
      then show "k = '''' \<or> (\<forall>j<Suc n. xf_ConflictKey (frags ! j) \<noteq> k)" using none [of k] bare by (auto simp: less_Suc_eq)
    next
      fix k w assume "map_of m k = Some w"
      then show "k \<noteq> ''''" "w < Suc n" "xf_ConflictKey (frags ! w) = k" "leadsItsKey frags (Suc n) w"
        using some [of k w] bare by (auto simp: leads_Suc)
    qed
  next
    case fresh
    then have step: "winnerStep frags m n = mapPut ?k n m" by (simp add: winnerStep_def Let_def)
    have new: "leadsItsKey frags (Suc n) n"
      using none [OF fresh(2)] fresh(1) unfolding leads_Suc by (auto simp: leadsItsKey_def)
    show ?thesis unfolding step leadersUpTo_def
    proof (intro conjI allI impI)
      fix k assume "map_of (mapPut ?k n m) k = None"
      then show "k = '''' \<or> (\<forall>j<Suc n. xf_ConflictKey (frags ! j) \<noteq> k)"
        using none [of k] by (auto simp: less_Suc_eq split: if_splits)
    next
      fix k w assume "map_of (mapPut ?k n m) k = Some w"
      then show "k \<noteq> ''''" "w < Suc n" "xf_ConflictKey (frags ! w) = k" "leadsItsKey frags (Suc n) w"
        using some [of k w] fresh new by (auto simp: leads_Suc split: if_splits)
    qed
  next
    case (won w)
    note w = some [OF won(2)]
    have beaten: "conflictRank frags w < conflictRank frags n" using won(3) w beats_rank by blast
    have step: "winnerStep frags m n = mapPut ?k n m" using won by (simp add: winnerStep_def Let_def)
    have new: "leadsItsKey frags (Suc n) n"
      using w beaten unfolding leads_Suc by (fastforce simp: leadsItsKey_def)
    show ?thesis unfolding step leadersUpTo_def
    proof (intro conjI allI impI)
      fix k assume "map_of (mapPut ?k n m) k = None"
      then show "k = '''' \<or> (\<forall>j<Suc n. xf_ConflictKey (frags ! j) \<noteq> k)"
        using none [of k] by (auto simp: less_Suc_eq split: if_splits)
    next
      fix k v assume "map_of (mapPut ?k n m) k = Some v"
      then show "k \<noteq> ''''" "v < Suc n" "xf_ConflictKey (frags ! v) = k" "leadsItsKey frags (Suc n) v"
        using some [of k v] won new by (auto simp: leads_Suc split: if_splits)
    qed
  next
    case (lost w)
    note w = some [OF lost(2)]
    have kept: "conflictRank frags n \<le> conflictRank frags w" using lost(3) w beats_rank [of w n] by (meson not_le)
    have step: "winnerStep frags m n = m" using lost by (simp add: winnerStep_def Let_def)
    show ?thesis unfolding step leadersUpTo_def
    proof (intro conjI allI impI)
      fix k assume "map_of m k = None"
      then show "k = '''' \<or> (\<forall>j<Suc n. xf_ConflictKey (frags ! j) \<noteq> k)" using none [of k] lost(2) by (auto simp: less_Suc_eq)
    next
      fix k v assume kv: "map_of m k = Some v"
      then have "v = w" if "k = ?k" using that lost(2) by simp
      then show "k \<noteq> ''''" "v < Suc n" "xf_ConflictKey (frags ! v) = k" "leadsItsKey frags (Suc n) v"
        using some [OF kv] kept by (auto simp: leads_Suc)
    qed
  qed
qed

lemma leaders: "leadersUpTo frags (length frags) (conflictWinners frags)"
proof -
  have "leadersUpTo frags n (foldl (winnerStep frags) [] [0..<n])" for n
    by (induction n) (simp_all add: leaders_step, simp add: leadersUpTo_def)
  then show ?thesis unfolding conflictWinners_def .
qed

lemma loser_iff:
  assumes "i < length frags"
  shows "isLoser frags (conflictWinners frags) i \<longleftrightarrow> xf_ConflictKey (frags ! i) \<noteq> '''' \<and> \<not> leadsItsKey frags (length frags) i"
proof (cases "map_of (conflictWinners frags) (xf_ConflictKey (frags ! i))")
  case None
  then have "xf_ConflictKey (frags ! i) = ''''" using leaders [of frags] assms unfolding leadersUpTo_def by blast
  then show ?thesis by (simp add: isLoser_def)
next
  case (Some w)
  then have "xf_ConflictKey (frags ! i) \<noteq> ''''" "w < length frags" "xf_ConflictKey (frags ! w) = xf_ConflictKey (frags ! i)"
      "leadsItsKey frags (length frags) w"
    using leaders [of frags] unfolding leadersUpTo_def by blast+
  then show ?thesis using Some assms leads_unique [of frags "length frags" i w] by (auto simp: isLoser_def mapGet_def)
qed

lemma conflict_survivors:
  "fst (resolveConflictGroups frags) =
    map ((!) frags) (filter (\<lambda>i. xf_ConflictKey (frags ! i) = '''' \<or> leadsItsKey frags (length frags) i) [0..<length frags])"
proof -
  have eq: "filter (\<lambda>i. \<not> isLoser frags (conflictWinners frags) i) [0..<length frags] =
      filter (\<lambda>i. xf_ConflictKey (frags ! i) = '''' \<or> leadsItsKey frags (length frags) i) [0..<length frags]"
    by (intro filter_cong) (auto simp: loser_iff)
  show ?thesis
  proof (cases "conflictWinners frags = []")
    case True
    then have "\<forall>i<length frags. xf_ConflictKey (frags ! i) = ''''"
      using leaders [of frags] unfolding leadersUpTo_def by fastforce
    then have "filter (\<lambda>i. xf_ConflictKey (frags ! i) = '''' \<or> leadsItsKey frags (length frags) i) [0..<length frags] = [0..<length frags]"
      by (simp add: filter_id_conv)
    then show ?thesis using True by (simp add: resolveConflictGroups_def map_nth)
  next
    case False
    then show ?thesis by (simp add: resolveConflictGroups_def Let_def eq)
  qed
qed

text \<open>One survivor for every key.\<close>

lemma conflict_keys_distinct: "distinct (filter (\<lambda>k. k \<noteq> '''') (map xf_ConflictKey (fst (resolveConflictGroups frags))))"
proof -
  let ?is = "filter (\<lambda>i. xf_ConflictKey (frags ! i) \<noteq> '''' \<and> (xf_ConflictKey (frags ! i) = '''' \<or> leadsItsKey frags (length frags) i))
    [0..<length frags]"
  have "filter (\<lambda>k. k \<noteq> '''') (map xf_ConflictKey (fst (resolveConflictGroups frags))) = map (\<lambda>i. xf_ConflictKey (frags ! i)) ?is"
    by (simp add: conflict_survivors filter_map comp_def conj_commute)
  moreover have "inj_on (\<lambda>i. xf_ConflictKey (frags ! i)) (set ?is)"
    by (intro inj_onI leads_unique [of frags "length frags"]) auto
  ultimately show ?thesis by (simp add: distinct_map)
qed

lemma key_led:
  assumes "i < length frags" "xf_ConflictKey (frags ! i) \<noteq> ''''"
  obtains w where "w < length frags" "xf_ConflictKey (frags ! w) = xf_ConflictKey (frags ! i)" "leadsItsKey frags (length frags) w"
proof -
  have "map_of (conflictWinners frags) (xf_ConflictKey (frags ! i)) \<noteq> None"
    using leaders [of frags] assms unfolding leadersUpTo_def by blast
  then obtain w where "map_of (conflictWinners frags) (xf_ConflictKey (frags ! i)) = Some w" by blast
  then show ?thesis using leaders [of frags] that unfolding leadersUpTo_def by blast
qed

lemma conflict_keys_all: "set (map xf_ConflictKey (fst (resolveConflictGroups frags))) = set (map xf_ConflictKey frags)"
proof -
  have "xf_ConflictKey (frags ! i) \<in> set (map xf_ConflictKey (fst (resolveConflictGroups frags)))" if "i < length frags" for i
  proof (cases "xf_ConflictKey (frags ! i) = ''''")
    case True
    then show ?thesis using that unfolding conflict_survivors by force
  next
    case False
    obtain w where "w < length frags" "xf_ConflictKey (frags ! w) = xf_ConflictKey (frags ! i)" "leadsItsKey frags (length frags) w"
      using \<open>i < length frags\<close> False by (rule key_led)
    then have "frags ! w \<in> set (fst (resolveConflictGroups frags))" unfolding conflict_survivors by auto
    then show ?thesis using \<open>xf_ConflictKey (frags ! w) = _\<close> by (metis image_eqI list.set_map)
  qed
  then have "set (map xf_ConflictKey frags) \<subseteq> set (map xf_ConflictKey (fst (resolveConflictGroups frags)))"
    by (force simp: set_conv_nth)
  moreover have "set (fst (resolveConflictGroups frags)) \<subseteq> set frags" unfolding conflict_survivors by auto
  ultimately show ?thesis by auto
qed

text \<open>A loser is recorded with the fragment that leads its key.\<close>

lemma conflict_losers:
  assumes "(frag, winnerID) \<in> set (snd (resolveConflictGroups frags))"
  shows "\<exists>g\<in>set (fst (resolveConflictGroups frags)). xf_ID g = winnerID \<and> xf_ConflictKey g = xf_ConflictKey frag \<and> xf_ConflictKey g \<noteq> ''''"
proof -
  obtain i where i: "i < length frags" "frag = frags ! i" "isLoser frags (conflictWinners frags) i"
      "winnerID = xf_ID (frags ! mapGet 0 (conflictWinners frags) (xf_ConflictKey (frags ! i)))"
    using assms by (auto simp: resolveConflictGroups_def Let_def split: if_splits)
  let ?k = "xf_ConflictKey (frags ! i)"
  have k: "?k \<noteq> ''''" using i by (simp add: isLoser_def)
  then have "map_of (conflictWinners frags) ?k \<noteq> None" using leaders [of frags] i(1) unfolding leadersUpTo_def by blast
  then obtain w where w: "map_of (conflictWinners frags) ?k = Some w" by blast
  then have "w < length frags" "xf_ConflictKey (frags ! w) = ?k" "leadsItsKey frags (length frags) w"
    using leaders [of frags] unfolding leadersUpTo_def by blast+
  then have "frags ! w \<in> set (fst (resolveConflictGroups frags))" unfolding conflict_survivors by auto
  then show ?thesis using w i k \<open>xf_ConflictKey (frags ! w) = ?k\<close> by (intro bexI [of _ "frags ! w"]) (simp_all add: mapGet_def)
qed

end
