(* ===== verification/ToolClosure.thy ===== *)
theory ToolClosure
  imports Exchanges
begin

text \<open>
  Repairing the tool exchanges of a history, \<^verbatim>\<open>internal/agent/context/fragment/repair.go\<close>: a
  result without a pending call goes, and a call that the next message does not answer gets
  a result that says so. The pending ids and their names are one list.
\<close>

section \<open>The repair\<close>

definition SourceToolClosureRepair :: string where "SourceToolClosureRepair = ''context_repair''"

definition ToolClosureRepairText :: string where
  "ToolClosureRepairText = ''tool execution interrupted before a response was recorded''"

definition threeDigits :: "nat \<Rightarrow> string" where
  "threeDigits n = replicate (3 - length (decimal n)) (CHR ''0'') @ decimal n"

text \<open>\<open>failed\<close> is what a tool result carries beside its fields when only \<open>IsError\<close> is set.\<close>

definition syntheticToolClosureFrag :: "FragEnv \<Rightarrow> bytes \<Rightarrow> FragScope \<Rightarrow> string \<Rightarrow> string \<times> string \<Rightarrow> nat \<Rightarrow> ContextFrag" where
  "syntheticToolClosureFrag env failed scope collector call idx =
     (let msg = \<lparr>ms_Role = ne_RoleTool env,
            ms_Content = [ToolResultPart (fst call) (snd call) (TextOutput ToolClosureRepairText) failed]\<rparr>
      in MessageFrag
        \<lparr>xf_ID = ''history.tool_closure.'' @ threeDigits idx, xf_Ref = zeroRef, xf_Kind = KindConversationEvent, xf_Role = '''',
         xf_Slot = SlotHistory, xf_Priority = PriorityForMessage env msg, xf_RetentionTier = '''', xf_DropPriority = 0,
         xf_RequiredCapability = '''', xf_CacheClass = CacheNever, xf_Trust = TrustWorkspace, xf_Scope = scope,
         xf_Budget = zeroBudget, xf_Render = zeroRender,
         xf_Provenance = \<lparr>xv_Source = SourceToolClosureRepair, xv_SourceID = ''tool_closure.'' @ fst call,
           xv_Collector = collector, xv_Index = int idx\<rparr>,
         xf_TokenEstimate = 0, xf_ConflictKey = '''', xf_Parts = []\<rparr>
        msg)"

text \<open>What is repaired so far, the pending calls, and the next index of a synthetic result.\<close>

type_synonym repairState = "ContextFrag list \<times> (string \<times> string) list \<times> nat"

definition flushPending :: "FragEnv \<Rightarrow> bytes \<Rightarrow> FragScope \<Rightarrow> string \<Rightarrow> repairState \<Rightarrow> repairState" where
  "flushPending env failed scope collector st =
     (case st of (repaired, pending, idx) \<Rightarrow>
        (repaired @ map (\<lambda>(call, i). syntheticToolClosureFrag env failed scope collector call i) (zip pending [idx..<idx + length pending]),
         [], idx + length pending))"

definition addPending :: "(string \<times> string) list \<Rightarrow> MessagePart \<Rightarrow> (string \<times> string) list" where
  "addPending pending part =
     (case part of
        ToolCallPart cid toolName _ _ \<Rightarrow>
          if TrimSpace cid = '''' \<or> TrimSpace cid \<in> fst ` set pending then pending
          else pending @ [(TrimSpace cid, TrimSpace toolName)]
      | _ \<Rightarrow> pending)"

definition takeResult :: "MessagePart list \<times> (string \<times> string) list \<Rightarrow> MessagePart \<Rightarrow> MessagePart list \<times> (string \<times> string) list" where
  "takeResult st part =
     (case part of
        ToolResultPart cid _ _ _ \<Rightarrow>
          if TrimSpace cid \<in> fst ` set (snd st)
          then (fst st @ [part], filter (\<lambda>call. fst call \<noteq> TrimSpace cid) (snd st)) else st
      | _ \<Rightarrow> st)"

definition repairStep :: "FragEnv \<Rightarrow> bytes \<Rightarrow> FragScope \<Rightarrow> string \<Rightarrow> repairState \<Rightarrow> ContextFrag \<Rightarrow> repairState" where
  "repairStep env failed scope collector st frag =
     (let flushed = flushPending env failed scope collector st in
      case FragMessage frag of
        None \<Rightarrow> (fst flushed @ [frag], snd flushed)
      | Some msg \<Rightarrow>
          if ms_Role msg = ne_RoleAssistant env
          then (fst flushed @ [frag], foldl addPending (fst (snd flushed)) (ms_Content msg), snd (snd flushed))
          else if ms_Role msg = ne_RoleTool env
          then (case foldl takeResult ([], fst (snd st)) (ms_Content msg) of
                  (kept, pending) \<Rightarrow>
                    if kept = [] then (fst st, pending, snd (snd st))
                    else
                      (fst st @ [if length kept \<noteq> length (ms_Content msg)
                                 then RebuildFragMessage env frag \<lparr>ms_Role = ne_RoleTool env, ms_Content = kept\<rparr> else frag],
                       pending, snd (snd st)))
          else (fst flushed @ [frag], snd flushed))"

definition RepairToolClosureFrags :: "FragEnv \<Rightarrow> bytes \<Rightarrow> ContextFrag list \<Rightarrow> FragScope \<Rightarrow> string \<Rightarrow> ContextFrag list" where
  "RepairToolClosureFrags env failed frags scope collector =
     fst (flushPending env failed scope collector (foldl (repairStep env failed scope collector) ([], [], 0) frags))"

section \<open>Pending calls\<close>

definition pendingOk :: "(string \<times> string) list \<Rightarrow> bool" where
  "pendingOk pending \<longleftrightarrow> distinct (map fst pending) \<and> (\<forall>cid\<in>fst ` set pending. cid \<noteq> '''' \<and> TrimSpace cid = cid)"

lemma addPending_ok: "pendingOk pending \<Longrightarrow> pendingOk (foldl addPending pending parts)"
proof (induction parts arbitrary: pending)
  case (Cons part parts)
  have "pendingOk (addPending pending part)"
    using Cons.prems by (auto simp: addPending_def pendingOk_def split: MessagePart.split)
  then show ?case using Cons.IH by simp
qed simp

lemma addPending_ids:
  "fst ` set (foldl addPending pending parts) = fst ` set pending \<union> set (concat (map partCallID parts))"
proof (induction parts arbitrary: pending)
  case (Cons part parts)
  have "fst ` set (addPending pending part) = fst ` set pending \<union> set (partCallID part)"
    by (auto simp: addPending_def partCallID_def split: MessagePart.split)
  then show ?case by (simp add: Cons.IH Un_assoc)
qed simp

text \<open>The results that stay answer pending calls, each one once.\<close>

lemma takeResults:
  assumes "pendingOk pending" "foldl takeResult (kept0, pending) parts = (kept, pending1)"
  shows "\<exists>new. kept = kept0 @ new \<and> subseq new parts \<and> concat (map partCallID new) = [] \<and>
    distinct (concat (map partResultID new)) \<and> set (concat (map partResultID new)) \<subseteq> fst ` set pending \<and>
    pending1 = filter (\<lambda>call. fst call \<notin> set (concat (map partResultID new))) pending \<and>
    (\<forall>k. foldl takeResult (k, pending) new = (k @ new, pending1)) \<and> length new = length (concat (map partResultID new))"
  using assms
proof (induction parts arbitrary: kept0 pending)
  case Nil
  then show ?case by (intro exI [of _ "[]"]) simp
next
  case (Cons part parts)
  show ?case
  proof (cases "takeResult (kept0, pending) part = (kept0, pending)")
    case True
    then obtain new where "kept = kept0 @ new \<and> subseq new parts \<and> concat (map partCallID new) = [] \<and>
        distinct (concat (map partResultID new)) \<and> set (concat (map partResultID new)) \<subseteq> fst ` set pending \<and>
        pending1 = filter (\<lambda>call. fst call \<notin> set (concat (map partResultID new))) pending \<and>
        (\<forall>k. foldl takeResult (k, pending) new = (k @ new, pending1)) \<and> length new = length (concat (map partResultID new))"
      using Cons.IH [OF Cons.prems(1), of kept0] Cons.prems(2) by auto
    then show ?thesis by (intro exI [of _ new]) (auto intro: subseq_Cons')
  next
    case False
    then obtain cid toolName out extra where part: "part = ToolResultPart cid toolName out extra" "TrimSpace cid \<in> fst ` set pending"
      by (auto simp: takeResult_def split: MessagePart.splits if_splits)
    let ?rest = "filter (\<lambda>call. fst call \<noteq> TrimSpace cid) pending"
    have ids: "partResultID part = [TrimSpace cid]" "partCallID part = []"
      using Cons.prems(1) part by (auto simp: partResultID_def partCallID_def pendingOk_def)
    have step: "takeResult (k, pending) part = (k @ [part], ?rest)" for k using part by (simp add: takeResult_def)
    have "pendingOk ?rest" using Cons.prems(1) by (auto simp: pendingOk_def distinct_map_filter)
    from Cons.IH [OF this, of "kept0 @ [part]"] Cons.prems(2) step obtain new where new:
        "kept = kept0 @ [part] @ new" "subseq new parts" "concat (map partCallID new) = []"
        "distinct (concat (map partResultID new))" "set (concat (map partResultID new)) \<subseteq> fst ` set ?rest"
        "pending1 = filter (\<lambda>call. fst call \<notin> set (concat (map partResultID new))) ?rest"
        "\<forall>k. foldl takeResult (k, ?rest) new = (k @ new, pending1)" "length new = length (concat (map partResultID new))"
      by auto
    have "TrimSpace cid \<notin> set (concat (map partResultID new))" using new(5) by auto
    moreover have "pending1 = filter (\<lambda>call. fst call \<notin> set (concat (map partResultID (part # new)))) pending"
      using new(6) ids by (simp add: conj_commute)
    ultimately show ?thesis
      using new part(2) ids step by (intro exI [of _ "part # new"]) auto
  qed
qed

section \<open>Closed exchanges\<close>

text \<open>
  What is asked of a fragment: one message at most, no results in a message of the assistant,
  and neither calls nor results in a message of another role than the assistant's and the tool's.
\<close>

definition historyFrag :: "FragEnv \<Rightarrow> ContextFrag \<Rightarrow> bool" where
  "historyFrag env frag \<longleftrightarrow>
     (case List.map_filter partMessage (xf_Parts frag) of
        [] \<Rightarrow> True
      | [msg] \<Rightarrow>
          if ms_Role msg = ne_RoleAssistant env
          then concat (map partResultID (ms_Content msg)) = []
          else if ms_Role msg = ne_RoleTool env then True
          else concat (map partResultID (ms_Content msg)) = [] \<and> concat (map partCallID (ms_Content msg)) = []
      | _ \<Rightarrow> False)"

text \<open>
  Every result answers an open id, once in its message, no message calls an id that an earlier one left
  open, and none is open at the end. A message that calls one id twice opens it once.
\<close>

fun exchangesAnswered :: "string set \<Rightarrow> ContextFrag list \<Rightarrow> bool" where
  "exchangesAnswered opened [] \<longleftrightarrow> opened = {}"
| "exchangesAnswered opened (frag # frags) \<longleftrightarrow>
     (let results = fragToolResultCallIDs frag; calls = set (fragToolCallIDs frag); rest = opened - set results
      in distinct results \<and> set results \<subseteq> opened \<and> calls \<inter> rest = {} \<and> exchangesAnswered (rest \<union> calls) frags)"

text \<open>Where no message calls an id twice, the exchanges are closed.\<close>

lemma answered_closed:
  "exchangesAnswered (set opened) frags \<Longrightarrow> distinct opened \<Longrightarrow> \<forall>f\<in>set frags. distinct (fragToolCallIDs f) \<Longrightarrow>
    exchangesClosed opened frags"
proof (induction frags arbitrary: opened)
  case (Cons frag frags)
  let ?rest = "filter (\<lambda>cid. cid \<notin> set (fragToolResultCallIDs frag)) opened"
  have rest: "set ?rest = set opened - set (fragToolResultCallIDs frag)" by auto
  have h: "distinct (fragToolResultCallIDs frag)" "set (fragToolResultCallIDs frag) \<subseteq> set opened"
    "set (fragToolCallIDs frag) \<inter> set ?rest = {}" "exchangesAnswered (set (?rest @ fragToolCallIDs frag)) frags"
    using Cons.prems(1) unfolding exchangesAnswered.simps Let_def set_append rest by blast+
  have d: "distinct (?rest @ fragToolCallIDs frag)" using Cons.prems(2,3) h(3) by (auto simp: distinct_append)
  have "exchangesClosed (?rest @ fragToolCallIDs frag) frags"
    using Cons.IH [OF h(4) d] Cons.prems(3) by simp
  then show ?case using h(1-3) d unfolding exchangesClosed.simps Let_def by auto
qed simp

lemma part_messages:
  "fragToolCallIDs frag = concat (map (\<lambda>msg. concat (map partCallID (ms_Content msg))) (List.map_filter partMessage (xf_Parts frag)))"
  "fragToolResultCallIDs frag = concat (map (\<lambda>msg. concat (map partResultID (ms_Content msg))) (List.map_filter partMessage (xf_Parts frag)))"
proof -
  have "concat (map (\<lambda>p. case partMessage p of None \<Rightarrow> [] | Some msg \<Rightarrow> h msg) parts) = concat (map h (List.map_filter partMessage parts))"
    for h :: "SdkMessage \<Rightarrow> string list" and parts
    by (induction parts) (auto simp: map_filter_simps split: option.split)
  then show "fragToolCallIDs frag = concat (map (\<lambda>msg. concat (map partCallID (ms_Content msg))) (List.map_filter partMessage (xf_Parts frag)))"
    "fragToolResultCallIDs frag = concat (map (\<lambda>msg. concat (map partResultID (ms_Content msg))) (List.map_filter partMessage (xf_Parts frag)))"
    by (simp_all add: fragToolCallIDs_def fragToolResultCallIDs_def)
qed

lemma first_message:
  "FragMessage frag = (case List.map_filter partMessage (xf_Parts frag) of [] \<Rightarrow> None | msg # _ \<Rightarrow> Some msg)"
proof -
  have "firstMessage parts = (case List.map_filter partMessage parts of [] \<Rightarrow> None | msg # _ \<Rightarrow> Some msg)" for parts
    by (induction parts) (auto simp: map_filter_simps split: option.split)
  then show ?thesis by (simp add: FragMessage_def)
qed

text \<open>A list of fragments goes on from the pending calls to a list that closes what is still pending.\<close>

definition continues :: "repairState \<Rightarrow> bool" where
  "continues st \<longleftrightarrow>
     (\<forall>rest. exchangesAnswered (fst ` set (fst (snd st))) rest \<longrightarrow> exchangesAnswered {} (fst st @ rest))"

lemma synthetic_ids:
  "pendingOk (call # pending) \<Longrightarrow> fragToolResultCallIDs (syntheticToolClosureFrag env failed scope collector call i) = [fst call]"
  "fragToolCallIDs (syntheticToolClosureFrag env failed scope collector call i) = []"
  by (auto simp: fragToolResultCallIDs_def fragToolCallIDs_def syntheticToolClosureFrag_def MessageFrag_def Let_def
      partResultID_def partCallID_def pendingOk_def)

lemma pending_Cons:
  assumes "pendingOk (call # pending)"
  shows "pendingOk pending" "TrimSpace (fst call) = fst call" "fst call \<notin> fst ` set pending"
    "filter (\<lambda>cid. cid \<noteq> fst call) (map fst pending) = map fst pending" "filter (\<lambda>c. fst c \<noteq> fst call) pending = pending"
proof -
  show new: "fst call \<notin> fst ` set pending" and "pendingOk pending" "TrimSpace (fst call) = fst call"
    using assms by (simp_all add: pendingOk_def)
  from new have "\<forall>c\<in>set pending. fst c \<noteq> fst call" by (metis image_eqI)
  then show "filter (\<lambda>cid. cid \<noteq> fst call) (map fst pending) = map fst pending" "filter (\<lambda>c. fst c \<noteq> fst call) pending = pending"
    by (simp_all add: filter_id_conv)
qed

lemma synthetics_close:
  "pendingOk pending \<Longrightarrow> length is = length pending \<Longrightarrow> exchangesAnswered {} rest \<Longrightarrow>
    exchangesAnswered (fst ` set pending) (map (\<lambda>(call, i). syntheticToolClosureFrag env failed scope collector call i) (zip pending is) @ rest)"
proof (induction pending arbitrary: "is")
  case (Cons call pending)
  obtain i js where js: "is = i # js" "length js = length pending" using Cons.prems(2) by (cases "is") auto
  show ?case
    using pending_Cons [OF Cons.prems(1)] Cons.IH [OF _ js(2) Cons.prems(3)] synthetic_ids(1) [OF Cons.prems(1)]
    by (simp add: js(1) synthetic_ids(2) Let_def)
qed simp

lemma flush_continues:
  assumes "continues st" "pendingOk (fst (snd st))"
  shows "continues (flushPending env failed scope collector st)" "fst (snd (flushPending env failed scope collector st)) = []"
proof -
  obtain repaired pending idx where st: "st = (repaired, pending, idx)" by (metis prod_cases3)
  show "continues (flushPending env failed scope collector st)"
    using assms synthetics_close [of pending "[idx..<idx + length pending]"] unfolding st continues_def flushPending_def by simp
  show "fst (snd (flushPending env failed scope collector st)) = []" by (simp add: st flushPending_def)
qed

lemma message_ids:
  assumes "historyFrag env frag" "FragMessage frag = Some msg"
  shows "fragToolCallIDs frag = concat (map partCallID (ms_Content msg))"
    "fragToolResultCallIDs frag = concat (map partResultID (ms_Content msg))"
    "ms_Role msg = ne_RoleAssistant env \<Longrightarrow> concat (map partResultID (ms_Content msg)) = []"
    "ms_Role msg \<noteq> ne_RoleAssistant env \<Longrightarrow> ms_Role msg \<noteq> ne_RoleTool env \<Longrightarrow>
      concat (map partResultID (ms_Content msg)) = [] \<and> concat (map partCallID (ms_Content msg)) = []"
  using assms unfolding historyFrag_def first_message part_messages by (auto split: list.splits if_splits)

lemma no_message_ids:
  "FragMessage frag = None \<Longrightarrow> fragToolCallIDs frag = [] \<and> fragToolResultCallIDs frag = []"
  unfolding first_message part_messages by (simp split: list.splits)

lemma rebuilt_ids:
  "fragToolCallIDs (RebuildFragMessage env frag msg) = concat (map partCallID (ms_Content msg))"
  "fragToolResultCallIDs (RebuildFragMessage env frag msg) = concat (map partResultID (ms_Content msg))"
  by (simp_all add: fragToolCallIDs_def fragToolResultCallIDs_def RebuildFragMessage_def Let_def)

lemma repair_step:
  assumes st: "continues st" "pendingOk (fst (snd st))" and frag: "historyFrag env frag"
  shows "continues (repairStep env failed scope collector st frag) \<and> pendingOk (fst (snd (repairStep env failed scope collector st frag)))"
proof -
  let ?flushed = "flushPending env failed scope collector st"
  note flushed = flush_continues [OF st, of env failed scope collector]
  have plain: "continues (fst ?flushed @ [frag], snd ?flushed)" if "fragToolCallIDs frag = []" "fragToolResultCallIDs frag = []"
    using flushed that by (simp add: continues_def)
  have none: "pendingOk []" by (simp add: pendingOk_def)
  show ?thesis
  proof (cases "FragMessage frag")
    case None
    then show ?thesis using plain no_message_ids [OF None] none flushed(2) by (simp add: repairStep_def Let_def)
  next
    case (Some msg)
    note ids = message_ids [OF frag Some]
    consider (assistant) "ms_Role msg = ne_RoleAssistant env" | (tool) "ms_Role msg \<noteq> ne_RoleAssistant env" "ms_Role msg = ne_RoleTool env"
      | (other) "ms_Role msg \<noteq> ne_RoleAssistant env" "ms_Role msg \<noteq> ne_RoleTool env" by blast
    then show ?thesis
    proof cases
      case assistant
      have step: "repairStep env failed scope collector st frag =
          (fst ?flushed @ [frag], foldl addPending [] (ms_Content msg), snd (snd ?flushed))"
        using assistant Some flushed(2) by (simp add: repairStep_def Let_def)
      have calls: "fst ` set (foldl addPending [] (ms_Content msg)) = set (fragToolCallIDs frag)"
        using addPending_ids [of "[]" "ms_Content msg"] ids(1) by simp
      have "continues (repairStep env failed scope collector st frag)"
        using flushed ids assistant unfolding step by (simp add: continues_def calls)
      then show ?thesis using addPending_ok [OF none] unfolding step by simp
    next
      case tool
      obtain kept pending1 where k: "foldl takeResult ([], fst (snd st)) (ms_Content msg) = (kept, pending1)" by fastforce
      obtain new where new: "kept = new" "subseq new (ms_Content msg)" "concat (map partCallID new) = []"
          "distinct (concat (map partResultID new))" "set (concat (map partResultID new)) \<subseteq> fst ` set (fst (snd st))"
          "pending1 = filter (\<lambda>call. fst call \<notin> set (concat (map partResultID new))) (fst (snd st))"
        using takeResults [OF st(2) k] by auto
      let ?frag = "if length kept \<noteq> length (ms_Content msg)
        then RebuildFragMessage env frag \<lparr>ms_Role = ne_RoleTool env, ms_Content = kept\<rparr> else frag"
      have "kept = ms_Content msg" if "length kept = length (ms_Content msg)" using new(1,2) that by (simp add: subseq_same_length)
      then have results: "fragToolResultCallIDs ?frag = concat (map partResultID new)" "fragToolCallIDs ?frag = []"
        using new(1,3) ids(1,2) by (auto simp: rebuilt_ids)
      have ok: "pendingOk pending1" using st(2) new(6) by (auto simp: pendingOk_def distinct_map_filter)
      have fsts: "fst ` set pending1 = fst ` set (fst (snd st)) - set (concat (map partResultID new))"
        by (auto simp: new(6))
      have step: "repairStep env failed scope collector st frag =
          (if kept = [] then (fst st, pending1, snd (snd st)) else (fst st @ [?frag], pending1, snd (snd st)))"
        using tool Some by (simp add: repairStep_def Let_def k)
      have "continues (repairStep env failed scope collector st frag)"
      proof (cases "kept = []")
        case True
        then have "pending1 = fst (snd st)" using new(1,6) by simp
        then show ?thesis using st(1) True unfolding step by (simp add: continues_def)
      next
        case False
        have "exchangesAnswered (fst ` set (fst (snd st))) (?frag # rest)" if "exchangesAnswered (fst ` set pending1) rest" for rest
          using that new(4,5) unfolding exchangesAnswered.simps results Let_def fsts by simp
        then show ?thesis using st(1) False unfolding step continues_def by simp
      qed
      then show ?thesis using ok unfolding step by simp
    next
      case other
      then show ?thesis using plain ids none flushed(2) Some by (simp add: repairStep_def Let_def)
    qed
  qed
qed

lemma repair_answers:
  assumes "\<forall>f\<in>set frags. historyFrag env f"
  shows "exchangesAnswered {} (RepairToolClosureFrags env failed frags scope collector)"
proof -
  have "continues (foldl (repairStep env failed scope collector) st frags) \<and>
      pendingOk (fst (snd (foldl (repairStep env failed scope collector) st frags)))"
    if "continues st" "pendingOk (fst (snd st))" for st
    using that assms
  proof (induction frags arbitrary: st)
    case (Cons frag frags)
    have "continues (repairStep env failed scope collector st frag) \<and> pendingOk (fst (snd (repairStep env failed scope collector st frag)))"
      using Cons.prems by (intro repair_step) simp_all
    then show ?case using Cons.IH Cons.prems(3) by simp
  qed simp
  from this [of "([], [], 0)"] have end1: "continues (foldl (repairStep env failed scope collector) ([], [], 0) frags)"
      "pendingOk (fst (snd (foldl (repairStep env failed scope collector) ([], [], 0) frags)))"
    by (simp_all add: continues_def pendingOk_def)
  from flush_continues [OF this, of env failed scope collector] show ?thesis
    unfolding RepairToolClosureFrags_def continues_def by (metis append_Nil2 exchangesAnswered.simps(1) image_empty list.set(1))
qed

text \<open>What the repair adds or rewrites calls nothing.\<close>

lemma takeResult_no_calls:
  "foldl takeResult (kept0, pending) parts = (kept, pending1) \<Longrightarrow> concat (map partCallID kept0) = [] \<Longrightarrow> concat (map partCallID kept) = []"
proof (induction parts arbitrary: kept0 pending)
  case (Cons part parts)
  obtain k p where k: "takeResult (kept0, pending) part = (k, p)" by fastforce
  then have "k = kept0 \<or> k = kept0 @ [part] \<and> partCallID part = []"
    by (cases part) (auto simp: takeResult_def partCallID_def split: if_splits)
  then have "concat (map partCallID k) = []" using Cons.prems(2) by (elim disjE conjE) simp_all
  then show ?case using Cons.IH [of k p] Cons.prems(1) k by simp
qed simp

definition callsOf :: "ContextFrag list \<Rightarrow> ContextFrag list \<Rightarrow> bool" where
  "callsOf frags repaired \<longleftrightarrow> (\<forall>f\<in>set repaired. f \<in> set frags \<or> fragToolCallIDs f = [])"

lemma flush_calls:
  "callsOf frags (fst st) \<Longrightarrow> callsOf frags (fst (flushPending env failed scope collector st))"
  by (auto simp: callsOf_def flushPending_def synthetic_ids(2) split: prod.split)

lemma step_calls:
  assumes "callsOf frags (fst st)" "frag \<in> set frags"
  shows "callsOf frags (fst (repairStep env failed scope collector st frag))"
proof -
  note flushed = flush_calls [OF assms(1), of env failed scope collector]
  show ?thesis
  proof (cases "FragMessage frag")
    case None
    then show ?thesis using flushed assms(2) by (simp add: repairStep_def Let_def callsOf_def)
  next
    case (Some msg)
    obtain kept pending where k: "foldl takeResult ([], fst (snd st)) (ms_Content msg) = (kept, pending)" by fastforce
    have "concat (map partCallID kept) = []" by (rule takeResult_no_calls [OF k]) simp
    then have "fragToolCallIDs (RebuildFragMessage env frag \<lparr>ms_Role = ne_RoleTool env, ms_Content = kept\<rparr>) = []"
      by (simp add: rebuilt_ids)
    then show ?thesis
      using flushed assms Some k by (auto simp: repairStep_def Let_def callsOf_def)
  qed
qed

lemma repair_calls: "callsOf frags (RepairToolClosureFrags env failed frags scope collector)"
proof -
  have "callsOf frags (fst (foldl (repairStep env failed scope collector) st fs))"
    if "callsOf frags (fst st)" "set fs \<subseteq> set frags" for st fs
    using that by (induction fs arbitrary: st) (simp_all add: step_calls)
  from this [of "([], [], 0)" frags] show ?thesis
    unfolding RepairToolClosureFrags_def by (intro flush_calls) (simp add: callsOf_def)
qed

lemma repair_closes:
  assumes "\<forall>f\<in>set frags. historyFrag env f" "\<forall>f\<in>set frags. distinct (fragToolCallIDs f)"
  shows "exchangesClosed [] (RepairToolClosureFrags env failed frags scope collector)"
proof (rule answered_closed)
  show "\<forall>f\<in>set (RepairToolClosureFrags env failed frags scope collector). distinct (fragToolCallIDs f)"
    using repair_calls [of frags env failed scope collector] assms(2) by (metis callsOf_def distinct.simps(1))
qed (simp_all add: repair_answers [OF assms(1)])

section \<open>Repairing twice\<close>

text \<open>Repairing what is repaired so far gives it again, with the same calls pending.\<close>

definition repairSettled :: "FragEnv \<Rightarrow> bytes \<Rightarrow> FragScope \<Rightarrow> string \<Rightarrow> repairState \<Rightarrow> bool" where
  "repairSettled env failed scope collector st \<longleftrightarrow>
     foldl (repairStep env failed scope collector) ([], [], 0) (fst st) = (fst st, fst (snd st), 0)"

lemma synthetic_message:
  "FragMessage (syntheticToolClosureFrag env failed scope collector call i) =
    Some \<lparr>ms_Role = ne_RoleTool env, ms_Content = [ToolResultPart (fst call) (snd call) (TextOutput ToolClosureRepairText) failed]\<rparr>"
  by (simp add: syntheticToolClosureFrag_def Let_def)

lemma synthetics_settle:
  assumes "ne_RoleAssistant env \<noteq> ne_RoleTool env"
  shows "pendingOk pending \<Longrightarrow> length is = length pending \<Longrightarrow>
    foldl (repairStep env failed scope collector) (repaired, pending, n)
      (map (\<lambda>(call, i). syntheticToolClosureFrag env failed scope' collector' call i) (zip pending is)) =
    (repaired @ map (\<lambda>(call, i). syntheticToolClosureFrag env failed scope' collector' call i) (zip pending is), [], n)"
proof (induction pending arbitrary: "is" repaired)
  case (Cons call pending)
  obtain i js where js: "is = i # js" "length js = length pending" using Cons.prems(2) by (cases "is") auto
  note rest = pending_Cons [OF Cons.prems(1)]
  show ?case
    using Cons.IH [OF rest(1) js(2)] assms rest(2,5)
    by (simp add: js(1) repairStep_def synthetic_message Let_def takeResult_def)
qed simp

lemma flush_settled:
  assumes "ne_RoleAssistant env \<noteq> ne_RoleTool env" "repairSettled env failed scope collector st" "pendingOk (fst (snd st))"
  shows "repairSettled env failed scope collector (flushPending env failed scope collector st)"
proof -
  obtain repaired pending idx where st: "st = (repaired, pending, idx)" by (metis prod_cases3)
  show ?thesis
    using assms(2) synthetics_settle [OF assms(1), of pending "[idx..<idx + length pending]"] assms(3)
    unfolding st repairSettled_def flushPending_def by simp
qed

lemma step_settled:
  assumes roles: "ne_RoleAssistant env \<noteq> ne_RoleTool env"
    and st: "repairSettled env failed scope collector st" "pendingOk (fst (snd st))"
  shows "repairSettled env failed scope collector (repairStep env failed scope collector st frag) \<and>
    pendingOk (fst (snd (repairStep env failed scope collector st frag)))"
proof -
  let ?flushed = "flushPending env failed scope collector st"
  have flushed: "repairSettled env failed scope collector ?flushed" by (rule flush_settled [OF roles st])
  have empty: "fst (snd ?flushed) = []" by (simp add: flushPending_def split: prod.split)
  have none: "pendingOk []" by (simp add: pendingOk_def)
  have calm: "flushPending env failed scope collector (repaired, [], n) = (repaired, [], n)" for repaired n
    by (simp add: flushPending_def)
  show ?thesis
  proof (cases "FragMessage frag")
    case None
    then show ?thesis using flushed empty none by (simp add: repairSettled_def repairStep_def Let_def calm)
  next
    case (Some msg)
    consider (flushes) "ms_Role msg = ne_RoleAssistant env \<or> ms_Role msg \<noteq> ne_RoleTool env"
      | (tool) "ms_Role msg \<noteq> ne_RoleAssistant env" "ms_Role msg = ne_RoleTool env" by blast
    then show ?thesis
    proof cases
      case flushes
      then show ?thesis
        using flushed empty none Some addPending_ok [OF none, of "ms_Content msg"] by (auto simp: repairSettled_def repairStep_def Let_def calm)
    next
      case tool
      obtain kept pending1 where k: "foldl takeResult ([], fst (snd st)) (ms_Content msg) = (kept, pending1)" by fastforce
      obtain new where new: "kept = new" "subseq new (ms_Content msg)"
          "pending1 = filter (\<lambda>call. fst call \<notin> set (concat (map partResultID new))) (fst (snd st))"
          "foldl takeResult ([], fst (snd st)) new = (new, pending1)"
        using takeResults [OF st(2) k] by auto
      let ?frag = "if length kept \<noteq> length (ms_Content msg)
        then RebuildFragMessage env frag \<lparr>ms_Role = ne_RoleTool env, ms_Content = kept\<rparr> else frag"
      have ok: "pendingOk pending1" using st(2) new(3) by (auto simp: pendingOk_def distinct_map_filter)
      have step: "repairStep env failed scope collector st frag =
          (if kept = [] then (fst st, pending1, snd (snd st)) else (fst st @ [?frag], pending1, snd (snd st)))"
        using tool Some by (simp add: repairStep_def Let_def k)
      have "repairSettled env failed scope collector (repairStep env failed scope collector st frag)"
      proof (cases "kept = []")
        case True
        then have "pending1 = fst (snd st)" using new(1,3) by simp
        then show ?thesis using st(1) True unfolding step by (simp add: repairSettled_def)
      next
        case False
        have "kept = ms_Content msg" if "length kept = length (ms_Content msg)" using new(1,2) that by (simp add: subseq_same_length)
        then have "FragMessage ?frag = Some \<lparr>ms_Role = ne_RoleTool env, ms_Content = kept\<rparr>"
          using Some tool by (cases msg) auto
        then have "repairStep env failed scope collector (fst st, fst (snd st), 0) ?frag = (fst st @ [?frag], pending1, 0)"
          using roles new(1,4) False by (simp add: repairStep_def Let_def del: RebuildFragMessage_simps)
        then show ?thesis using st(1) False unfolding step by (simp add: repairSettled_def)
      qed
      then show ?thesis using ok unfolding step by simp
    qed
  qed
qed

lemma repair_idempotent:
  assumes "ne_RoleAssistant env \<noteq> ne_RoleTool env"
  shows "RepairToolClosureFrags env failed (RepairToolClosureFrags env failed frags scope collector) scope collector =
    RepairToolClosureFrags env failed frags scope collector"
proof -
  let ?run = "foldl (repairStep env failed scope collector)"
  have "repairSettled env failed scope collector (?run st frags) \<and> pendingOk (fst (snd (?run st frags)))"
    if "repairSettled env failed scope collector st" "pendingOk (fst (snd st))" for st
    using that
  proof (induction frags arbitrary: st)
    case (Cons frag frags)
    then show ?case using step_settled [OF assms Cons.prems, of frag] by simp
  qed simp
  from this [of "([], [], 0)"] have "repairSettled env failed scope collector (?run ([], [], 0) frags)" "pendingOk (fst (snd (?run ([], [], 0) frags)))"
    by (simp_all add: repairSettled_def pendingOk_def)
  from flush_settled [OF assms this] show ?thesis
    unfolding RepairToolClosureFrags_def repairSettled_def by (simp add: flushPending_def split: prod.split)
qed

end
