(* ===== verification/SelectProps.thy ===== *)
theory SelectProps
  imports SelectExchanges SelectConflict ToolClosure
begin

text \<open>
  What a context selection promises: it fits the window of the model, keeps tool exchanges
  whole, accounts for every fragment, and lets only trusted text into the system prompt; how
  history is trimmed, how conflicts are settled, and what a repair of tool exchanges leaves.
\<close>

section \<open>A small context\<close>

definition demoFragSdk :: Sdk where
  "demoFragSdk = \<lparr>sdk_marshalPart = (\<lambda>_. Some 8000), sdk_marshalMessage = (\<lambda>_. None), sdk_marshalTool = (\<lambda>_. None),
     sdk_UserMessage = (\<lambda>t. \<lparr>ms_Role = ''user'', ms_Content = [TextPart t '''']\<rparr>), sdk_RoleTool = ''tool'',
     sdk_outputString = (\<lambda>_. ''''), sdk_unmarshalOutput = (\<lambda>_. None), sdk_JSONOutput = (\<lambda>_. None), sdk_argumentsString = id,
     sdk_argumentsObject = AString, sdk_unmarshalArguments = (\<lambda>_. None), sdk_marshalValue = (\<lambda>_. None),
     sdk_ParseToolArguments = id\<rparr>"

definition demoFragEnv :: FragEnv where
  "demoFragEnv = \<lparr>ne_sdk = demoFragSdk, ne_RoleSystem = ''system'', ne_RoleUser = ''user'', ne_RoleAssistant = ''assistant'',
     ne_marshalMessage = (\<lambda>_. None), ne_marshalImage = (\<lambda>_. None), ne_marshalPart = (\<lambda>_. None), ne_marshalFragment = (\<lambda>_. None),
     ne_Sum256 = id, ne_partToolName = (\<lambda>_. None)\<rparr>"

definition demoInput :: "string \<Rightarrow> string \<Rightarrow> string \<Rightarrow> ContextFrag" where
  "demoInput fragID kind slot =
     \<lparr>xf_ID = fragID, xf_Ref = zeroRef, xf_Kind = kind, xf_Role = '''', xf_Slot = slot, xf_Priority = 0, xf_RetentionTier = '''',
      xf_DropPriority = 0, xf_RequiredCapability = '''', xf_CacheClass = CacheNever, xf_Trust = TrustWorkspace, xf_Scope = zeroScope,
      xf_Budget = zeroBudget, xf_Render = zeroRender,
      xf_Provenance = \<lparr>xv_Source = '''', xv_SourceID = '''', xv_Collector = '''', xv_Index = 0\<rparr>, xf_TokenEstimate = 0,
      xf_ConflictKey = '''', xf_Parts = []\<rparr>"

definition demoHistory :: "string \<Rightarrow> string \<Rightarrow> MessagePart list \<Rightarrow> ContextFrag" where
  "demoHistory fragID role parts = MessageFrag (demoInput fragID KindConversationEvent SlotHistory) \<lparr>ms_Role = role, ms_Content = parts\<rparr>"

definition demoFrags :: "ContextFrag list" where
  "demoFrags =
     [TextFrag (demoInput ''s'' KindSystemPolicy SlotSystem) ''Be brief.'',
      demoHistory ''u1'' ''user'' [TextPart ''hi'' ''''],
      demoHistory ''c'' ''assistant'' [ToolCallPart ''c1'' ''read'' '''' ''''],
      demoHistory ''r'' ''tool'' [ToolResultPart ''c1'' ''read'' (TextOutput '''') ''''],
      demoHistory ''u2'' ''user'' [TextPart ''go on'' ''''],
      demoHistory ''a2'' ''assistant'' [TextPart ''done'' ''''],
      MessageFrag (demoInput ''now'' KindCurrentUserMessage SlotCurrentUser) \<lparr>ms_Role = ''user'', ms_Content = [TextPart ''next'' '''']\<rparr>]"

definition demoPlan :: ContextBudgetPlan where
  "demoPlan = the (fst (ComputeContextBudgetPlan 8000 1000 1000 1000))"

definition demoEnvelope :: BudgetEnvelope where
  "demoEnvelope = \<lparr>be_MaxTokens = 0, be_Plan = Some demoPlan, be_RecentProtectTokens = 0, be_KeepHistory = False\<rparr>"

definition demoSelection :: SelectionResult where
  "demoSelection = fst (SelectFrags demoFragEnv demoFrags (ProfileFor IntentDiscussReply) demoEnvelope)"

lemma demo_select: "SelectFrags demoFragEnv demoFrags (ProfileFor IntentDiscussReply) demoEnvelope =
    (demoSelection, snd (SelectFrags demoFragEnv demoFrags (ProfileFor IntentDiscussReply) demoEnvelope))"
  by (simp add: demoSelection_def)

lemma demo_selected: "map xf_ID (sz_Selected demoSelection) = [''s'', ''u2'', ''a2'', ''now'']"
  by code_simp

lemma demo_flags: "sz_FatalError demoSelection = None" "sz_TrimNotice demoSelection"
  by code_simp+

lemma demo_budget: "ComputeContextBudgetPlan 8000 1000 1000 1000 = (Some demoPlan, None)" "be_Plan demoEnvelope = Some demoPlan"
    "\<not> be_KeepHistory demoEnvelope"
  by code_simp+

lemma demo_provider: "providerIntent IntentDiscussReply"
  by simp

lemma demo_summaries: "noSystemSummary demoFrags"
  by code_simp

section \<open>The budget\<close>

text \<open>
  C8 (selection_fits_window): When a selection for a provider succeeds under a budget plan and no fragment of the system slot
  is a conversation summary, the system prompt, the tool definitions, the current request and the
  reserve for the answer fit the window of the model, and unless the budget says to keep history
  whatever it costs (KeepHistory), the selected history and the trim notice, if there is one, fit
  with them, all at the prices of the budget.
\<close>

theorem selection_fits_window:
  assumes "ComputeContextBudgetPlan window outputReserve toolDefsCost currentRequestCost = (Some p, None)"
    and "SelectFrags env frags (ProfileFor intent) budget = (r, plan)" "providerIntent intent"
    and "be_Plan budget = Some p" "noSystemSummary frags" "sz_FatalError r = None"
  shows "systemFragCost env (sz_Selected r) + toolDefsCost + currentRequestCost + outputReserve \<le> window \<and>
    (\<not> be_KeepHistory budget \<longrightarrow>
      systemFragCost env (sz_Selected r) + sum_list (map (historyCharge env) (sz_Selected r)) + noticeCharge env r +
      toolDefsCost + currentRequestCost + outputReserve \<le> window)"
proof -
  have "bl_SystemBudget p = window - outputReserve - toolDefsCost - currentRequestCost"
    using assms(1) by (auto simp: ComputeContextBudgetPlan_def Let_def split: if_splits)
  then show ?thesis using selection_cost [OF assms(2-6)] by auto
qed

lemma selection_fits_window_witness:
  "systemFragCost demoFragEnv (sz_Selected demoSelection) + sum_list (map (historyCharge demoFragEnv) (sz_Selected demoSelection)) +
    noticeCharge demoFragEnv demoSelection + 1000 + 1000 + 1000 \<le> 8000"
  using selection_fits_window [OF demo_budget(1) demo_select demo_provider demo_budget(2) demo_summaries demo_flags(1)] demo_budget(3)
  by blast

text \<open>
  C28 (trim_order): History leaves in one order: passive attention first, then none, then directed, and within a
  tier the older unit first. A unit that leaves before a dropped one, or is it, is dropped too,
  also when the budget is smaller, and whatever the window of recent tokens: the window
  changes reasons, never what is kept.
\<close>

theorem trim_order:
  assumes "a \<in> set (poolIndexes (buildBudgetUnits tagged))" "b \<in> set (poolIndexes (buildBudgetUnits tagged))"
    and "a = b \<or> leavesFirst (buildBudgetUnits tagged) a b"
    and "i \<in> set (bu_indexes (buildBudgetUnits tagged ! a))" "j \<in> set (bu_indexes (buildBudgetUnits tagged ! b))"
    and "map_of (budgetTrimDropsEnabled tagged budget' recent') j \<noteq> None" "budget \<le> budget'"
  shows "map_of (budgetTrimDropsEnabled tagged budget recent) i \<noteq> None"
proof -
  have range: "a < length (buildBudgetUnits tagged)" "b < length (buildBudgetUnits tagged)"
    using assms(1,2) by (simp_all add: poolIndexes_def)
  have "b \<in> droppedUnits tagged budget' recent'" using assms(6) trim_unit [OF range(2) assms(5)] by simp
  then have "b \<in> droppedUnits tagged budget' recent" using window_irrelevant by blast
  then have "map_of (budgetTrimDropsEnabled tagged budget' recent) j \<noteq> None" using trim_unit [OF range(2) assms(5)] by simp
  then have "map_of (budgetTrimDropsEnabled tagged budget recent) j \<noteq> None" using trim_antimono [OF assms(7)] by blast
  then have "b \<in> droppedUnits tagged budget recent" using trim_unit [OF range(2) assms(5)] by simp
  then have "a \<in> droppedUnits tagged budget recent" using assms(3) leaves_in_order [OF assms(1,2)] by blast
  then show ?thesis using trim_unit [OF range(1) assms(4)] by simp
qed

definition demoTagged :: "TaggedFrag list" where
  "demoTagged = map (\<lambda>(fragID, scope). \<lparr>tf_Frag = (demoHistory fragID ''user'' [])\<lparr>xf_Scope := scope\<rparr>, tf_Tags = [TagCanDrop], tf_Tokens = 10\<rparr>)
     [(''old'', zeroScope\<lparr>xs_Attention := [''mention'']\<rparr>), (''new'', zeroScope)]"

lemma demo_units:
  "poolIndexes (buildBudgetUnits demoTagged) = [0, 1]" "bu_indexes (buildBudgetUnits demoTagged ! 0) = [0]"
  "bu_indexes (buildBudgetUnits demoTagged ! 1) = [1]" "leavesFirst (buildBudgetUnits demoTagged) 1 0"
  "map_of (budgetTrimDropsEnabled demoTagged 5 100) 0 \<noteq> None"
  by code_simp+

lemma trim_order_witness: "map_of (budgetTrimDropsEnabled demoTagged 0 0) 1 \<noteq> None"
  by (rule trim_order [of 1 demoTagged 0 1 0 5 100 0 0]) (use demo_units in simp_all)

section \<open>Tool exchanges\<close>

text \<open>
  C9 (selection_keeps_exchanges): A selection never breaks a tool exchange: if every result among the collected history
  fragments answers an open call and no call stays open, the same holds of the selected ones, whatever
  the budgets cut, trim or shorten; and the trim notice, if there is one, stands between exchanges.
\<close>

theorem selection_keeps_exchanges:
  assumes "SelectFrags env frags (ProfileFor intent) budget = (r, plan)" "providerIntent intent"
    and "\<forall>frag\<in>set frags. plainExchange env frag" "exchangesClosed [] frags"
  shows "noticeOk r"
  using assms by (rule selected_notice)

lemma demo_exchanges: "\<forall>frag\<in>set demoFrags. plainExchange demoFragEnv frag" "exchangesClosed [] demoFrags"
  by code_simp+

lemma selection_keeps_exchanges_witness: "noticeOk demoSelection"
  by (rule selection_keeps_exchanges [OF demo_select demo_provider demo_exchanges])

text \<open>
  C29 (repair_closes_exchanges): Repairing a history leaves only answered tool calls: every result answers an open call and
  answers it once in its message, no message calls an id that an earlier one left open, and none stays
  open, whatever results were missing, doubled or out of place. When moreover no message of the history
  calls an id twice the exchanges are closed, each call with its one result; a message that does so
  keeps both calls, and they get one result. The history has one message at most in a fragment, no
  results in a message of the assistant, and neither calls nor results in messages of other roles than
  the assistant's and the tool's.
\<close>

theorem repair_closes_exchanges:
  assumes "\<forall>frag\<in>set frags. historyFrag env frag"
  shows "exchangesAnswered {} (RepairToolClosureFrags env failed frags scope collector) \<and>
    ((\<forall>frag\<in>set frags. distinct (fragToolCallIDs frag)) \<longrightarrow>
      exchangesClosed [] (RepairToolClosureFrags env failed frags scope collector))"
  using repair_answers [OF assms] repair_closes [OF assms] by blast

definition demoBroken :: "ContextFrag list" where
  "demoBroken =
     [demoHistory ''c'' ''assistant'' [ToolCallPart ''c1'' ''read'' '''' '''', ToolCallPart ''c2'' ''read'' '''' ''''],
      demoHistory ''r'' ''tool'' [ToolResultPart ''c2'' ''read'' (TextOutput '''') '''', ToolResultPart ''c9'' ''read'' (TextOutput '''') ''''],
      demoHistory ''u'' ''user'' [TextPart ''go on'' '''']]"

definition doubledCall :: "ContextFrag list" where
  "doubledCall = [demoHistory ''c'' ''assistant'' [ToolCallPart ''c1'' ''read'' '''' '''', ToolCallPart ''c1'' ''read'' '''' '''']]"

lemma demo_broken: "\<forall>frag\<in>set demoBroken. historyFrag demoFragEnv frag" "\<forall>frag\<in>set demoBroken. distinct (fragToolCallIDs frag)"
  by code_simp+

lemma repair_closes_exchanges_witness: "exchangesClosed [] (RepairToolClosureFrags demoFragEnv '''' demoBroken zeroScope ''demo'')"
  using repair_closes_exchanges [OF demo_broken(1)] demo_broken(2) by blast

text \<open>A message that calls an id twice: one result answers both, and the calls stay doubled.\<close>

lemma doubled_call_stays:
  "exchangesAnswered {} (RepairToolClosureFrags demoFragEnv '''' doubledCall zeroScope ''demo'')"
  "\<not> exchangesClosed [] (RepairToolClosureFrags demoFragEnv '''' doubledCall zeroScope ''demo'')"
  by code_simp+

section \<open>Every fragment\<close>

text \<open>
  C27 (selection_accounts): A selection loses nothing and invents nothing: each collected fragment is selected or dropped,
  once, with its id, kind, slot, trust and conflict key; the only other fragment is the marker of
  the system budget, at most one. The audit names the dropped fragments in order, and its totals are theirs.
\<close>

theorem selection_accounts:
  "let r = fst (SelectFrags env frags profile budget) in
   (\<exists>n. n \<le> 1 \<and> mset (map fragKey (sz_Selected r @ sz_Dropped r)) = mset (map fragKey frags @ replicate n markerKey)) \<and>
   map dx_FragID (sy_DropReasons (sz_Summary r)) = map xf_ID (sz_Dropped r) \<and>
   sy_TotalSelected (sz_Summary r) = int (length (sz_Selected r)) \<and> sy_TotalDropped (sz_Summary r) = int (length (sz_Dropped r)) \<and>
   sy_TotalCollected (sz_Summary r) = sy_TotalSelected (sz_Summary r) + sy_TotalDropped (sz_Summary r)"
proof -
  obtain r plan where r: "SelectFrags env frags profile budget = (r, plan)" by fastforce
  obtain marker where m: "marker \<in> {{#}, {#markerKey#}}" "fragKeys (sz_Selected r) + fragKeys (sz_Dropped r) = fragKeys frags + marker"
      "map dx_FragID (sy_DropReasons (sz_Summary r)) = map xf_ID (sz_Dropped r)"
    by (rule select_keys [OF r])
  obtain n :: nat where "n \<le> 1" "marker = replicate_mset n markerKey"
    using m(1) by (cases "marker = {#}") (force intro: that [of 0] that [of 1])+
  then have "\<exists>n. n \<le> 1 \<and> mset (map fragKey (sz_Selected r @ sz_Dropped r)) = mset (map fragKey frags @ replicate n markerKey)"
    using m(2) by (intro exI [of _ n]) (simp add: fragKeys_def)
  then show ?thesis
    using m(3) finalize_totals select_parts [OF r] unfolding r Let_def fst_conv by metis
qed

text \<open>
  C30 (trusted_system_prompt): Whatever is collected, in a provider's system prompt every fragment is of the system or the
  workspace: nothing of a user or of the outside gets there.
\<close>

theorem trusted_system_prompt:
  assumes "SelectFrags env frags (ProfileFor intent) budget = (r, plan)" "providerIntent intent"
    and "frag \<in> set (sz_Selected r)" "isSystem frag"
  shows "xf_Trust frag = TrustSystem \<or> xf_Trust frag = TrustWorkspace"
proof -
  obtain kept gated marker where k: "applyTrustGate frags (ProfileFor intent) = (kept, gated)" "marker \<in> {{#}, {#markerKey#}}"
      "fragKeys (sz_Selected r) \<subseteq># fragKeys kept + marker"
    by (rule select_keys [OF assms(1)])
  have "fragKey frag \<in># fragKeys kept + marker"
    using k(3) assms(3) by (intro mset_subset_eqD [OF k(3)]) (simp add: fragKeys_def)
  then consider (collected) g where "g \<in> set kept" "fragKey g = fragKey frag" | (marker) "fragKey frag = markerKey"
    using k(2) by (auto simp: fragKeys_def)
  then show ?thesis
  proof cases
    case collected
    then have "isSystem g" "xf_Trust g = xf_Trust frag" using assms(4) by (simp_all add: fragKey_def)
    then have "\<not> TrustRank (xf_Trust frag) < TrustRank TrustWorkspace"
      using collected(1) k(1) ProfileFor_provider(3) [OF assms(2)] by (auto simp: applyTrustGate_def belowFloor_def)
    then show ?thesis by (auto simp: TrustRank_def split: if_splits)
  next
    case marker
    then show ?thesis by (simp add: fragKey_def markerKey_def)
  qed
qed

lemma trusted_system_prompt_witness: "\<exists>frag\<in>set (sz_Selected demoSelection). xf_Trust frag = TrustSystem \<or> xf_Trust frag = TrustWorkspace"
proof -
  have "list_ex isSystem (sz_Selected demoSelection)" by code_simp
  then obtain frag where "frag \<in> set (sz_Selected demoSelection)" "isSystem frag" by (auto simp: list_ex_iff)
  with trusted_system_prompt [OF demo_select demo_provider this] show ?thesis by blast
qed

section \<open>Conflicts\<close>

text \<open>
  C31 (conflict_winner): Of the fragments with the same conflict key exactly one goes on, the most specific one, then
  the most trusted, then the last; the fragments without a key all go on, and the order is kept.
\<close>

theorem conflict_winner:
  "fst (resolveConflictGroups frags) =
     map ((!) frags) (filter (\<lambda>i. xf_ConflictKey (frags ! i) = '''' \<or> leadsItsKey frags (length frags) i) [0..<length frags]) \<and>
   distinct (filter (\<lambda>k. k \<noteq> '''') (map xf_ConflictKey (fst (resolveConflictGroups frags)))) \<and>
   set (map xf_ConflictKey (fst (resolveConflictGroups frags))) = set (map xf_ConflictKey frags)"
  by (intro conjI conflict_survivors conflict_keys_distinct conflict_keys_all)

end
