(* ===== verification/Spec2Isabelle.thy ===== *)
theory Spec2Isabelle
  imports DecisionProps LifecycleProps FoldRows FoldBudget ReasoningProps CommandProps TextProps ModelRetry Slash AskProps SelectProps
begin

text \<open>
  \<^bold>\<open>The live session runtime of Memoh\<close>

  Memoh runs agents for chat bots. While an agent run is active, messages keep
  arriving: some steer the run that is going on, some wait until it is over. The
  package \<^verbatim>\<open>internal/agent/runtime/session\<close> keeps this live state, its in-process
  implementation is one struct behind one mutex, \<^verbatim>\<open>MemoryBackend\<close>, and every
  operation takes the mutex, drops what has expired, checks its guards and changes
  the state. This development models that backend in full, with the value types and
  pure functions it uses, the updates by which the session manager drives a run
  through its life in the session's snapshot, and the pure packages that decide what goes into and out of
  a run: the reasoning decisions (\<^verbatim>\<open>internal/reasoning\<close>), the command parser and
  classifier (\<^verbatim>\<open>internal/commandsyntax\<close>, \<^verbatim>\<open>internal/slash\<close>), the limits on tool output
  (\<^verbatim>\<open>internal/prune\<close>, \<^verbatim>\<open>internal/agent/context/limit\<close>, \<^verbatim>\<open>internal/textutil\<close>), the
  compaction of a request that outgrew its window (\<^verbatim>\<open>internal/agent/context/compaction\<close>),
  the selection of what a prompt holds (\<^verbatim>\<open>internal/contextview\<close>, \<^verbatim>\<open>internal/agent/context/fragment\<close>),
  the retries of model calls (\<^verbatim>\<open>internal/models/modelretry\<close>) and the questions an agent asks
  its user (\<^verbatim>\<open>internal/agent/decision/input\<close>).

  \<^bold>\<open>Parts and theories\<close>

  \<^item> \<open>GoPrelude\<close>: Go values. Strings are byte strings, \<open>TrimSpace\<close>, \<open>ToLower\<close> and
    \<open>EqualFold\<close> work on UTF-8 bytes, Go maps are association lists with distinct keys
    (\<open>wfMap\<close>, \<open>mapPut\<close>, \<open>mapDel\<close>), time is an \<open>int\<close> of nanoseconds with 0 as the zero
    time, a duration saturates at 64 bits.
  \<^item> \<open>RuntimeTypes\<close>: \<^verbatim>\<open>session/types.go\<close>, with the view types of \<^verbatim>\<open>agent/view\<close> and the
    stream events of \<^verbatim>\<open>agent/event\<close> it carries. Structs are records, enumerations are
    datatypes or strings as in the source, errors are the datatype \<open>GoError\<close>.
  \<^item> \<open>RuntimeState\<close>: the pure functions of \<^verbatim>\<open>session/state.go\<close>, the wire form of
    \<^verbatim>\<open>run_view_codec.go\<close> and the timings of \<^verbatim>\<open>tuning.go\<close>.
  \<^item> \<open>QueueOps\<close>, \<open>LiveQueue\<close>: \<^verbatim>\<open>session/live_queue.go\<close> and
    \<^verbatim>\<open>session/live_queue_transitions.go\<close>. \<open>steerQueueState\<close> and \<open>followUpQueueState\<close> are the
    two queues of a session; \<open>steer_claimNext\<close>, \<open>followUp_apply\<close>, \<open>queue_promote\<close> and the
    others are the methods of the same name.
  \<^item> \<open>MemoryBackend\<close>, \<open>LiveQueueBackend\<close>, \<open>DecisionOutput\<close>: \<^verbatim>\<open>session/memory.go\<close>,
    \<^verbatim>\<open>memory_live_queue.go\<close> and \<^verbatim>\<open>memory_decision_output.go\<close>. The state is the record
    \<open>MemoryBackend\<close> with the struct's fields; an operation takes the clock's value, the
    state and its arguments and returns the new state and a result or error. Event
    channels live in an explicit heap, since a subscriber and the set of subscribers
    share them; a send to a closed channel and a second close are the value \<open>None\<close>.
  \<^item> \<open>RunLifecycle\<close>: the updates of \<^verbatim>\<open>session/manager.go\<close>, \<^verbatim>\<open>commands.go\<close>, \<^verbatim>\<open>user_turns.go\<close>,
    \<^verbatim>\<open>live_queue_manager.go\<close>, \<^verbatim>\<open>recovery.go\<close> and \<^verbatim>\<open>reset.go\<close> that the manager passes to
    the backend: \<open>claimRun\<close>, \<open>activateRun\<close>, \<open>agentEventUpdate\<close>, \<open>requestAbort\<close>,
    \<open>finishRunState\<close>, \<open>publishUserTurns\<close> and the others, and \<open>updateActive\<close>, which guards
    them by the handle of the active run.
  \<^item> \<open>Reasoning\<close>: \<^verbatim>\<open>reasoning/vocabulary.go\<close>, \<^verbatim>\<open>mode.go\<close>, \<^verbatim>\<open>options.go\<close>, \<^verbatim>\<open>resolve.go\<close>,
    \<^verbatim>\<open>selection.go\<close> and \<^verbatim>\<open>merge.go\<close>. It also holds what a model declares about its
    reasoning (\<^verbatim>\<open>models/types.go\<close>, \<^verbatim>\<open>model_reasoning.go\<close>), the options its picker shows
    (\<open>ReasoningOptions\<close>) and the decision of a call (\<open>resolveReasoningConfig\<close>).
  \<^item> \<open>CommandSyntax\<close>, \<open>Invocation\<close>, \<open>Slash\<close>: \<^verbatim>\<open>commandsyntax/parser.go\<close>,
    \<^verbatim>\<open>commandsyntax/invocation.go\<close>, \<^verbatim>\<open>slash/classifier.go\<close> and \<^verbatim>\<open>slash/metadata.go\<close>. A message
    is lexed with byte positions, mentions of the bot are cut out by ranges, the rest is
    parsed and classified. The registered commands are a function of the caller.
    \<open>CommandFallback\<close>: how hints and buttons print a command (\<^verbatim>\<open>command/fallback.go\<close>,
    \<open>SyntheticCommand\<close> of \<^verbatim>\<open>command/callback.go\<close>); \<open>Decimals\<close>: facts on printed numbers.
  \<^item> \<open>Utf8\<close>, \<open>TextUtil\<close>, \<open>Prune\<close>, \<open>ContextLimit\<close>, \<open>ToolOutput\<close>: UTF-8 as
    \<^verbatim>\<open>unicode/utf8\<close> reads it, \<^verbatim>\<open>textutil/storage.go\<close> (\<open>StorageText\<close>) and \<^verbatim>\<open>truncate.go\<close>,
    \<^verbatim>\<open>prune/text.go\<close>, and \<^verbatim>\<open>limit/output.go\<close> and \<^verbatim>\<open>tier.go\<close>. Structured tool output is the
    datatype \<open>anyval\<close> of the shapes the code tells apart; \<open>MarshalString\<close> is the JSON
    encoding with sorted keys and escapes.
  \<^item> \<open>FoldTypes\<close>, \<open>FoldEvent\<close>, \<open>FoldInstruction\<close>, \<open>FoldRead\<close>, \<open>FoldPlan\<close>, \<open>Fold\<close>: compaction,
    that is \<^verbatim>\<open>compaction/fold.go\<close>, \<^verbatim>\<open>fold_plan.go\<close>, \<^verbatim>\<open>fold_read.go\<close>, \<^verbatim>\<open>fold_instruction.go\<close>,
    \<^verbatim>\<open>summary.go\<close> and \<^verbatim>\<open>splice\<close> of \<^verbatim>\<open>synthesize.go\<close>, with the prices of
    \<^verbatim>\<open>context/fragment/tokens.go\<close>, the place of a summary (\<^verbatim>\<open>agent/turn/summary.go\<close>) and the
    checkpoint a pass commits (\<^verbatim>\<open>chat/checkpoint/checkpoint.go\<close>, \<^verbatim>\<open>commit.go\<close>). \<open>retain\<close>
    decides what of a request stays, \<open>planFold\<close> plans a pass, \<open>foldPass\<close> runs it, \<open>passes\<close>
    runs the event. The model SDK is a module outside the repository: its encodings and
    constructors are the record \<open>Sdk\<close>, an argument. What a pass meets outside (the active
    checkpoint, the summarizer's answer, the queries of the commit) is the record \<open>passEnv\<close>.
    The closure \<open>plan\<close> of \<open>planFold\<close> returns the plan as \<open>size\<close> left it (\<open>planAt\<close>).
  \<^item> \<open>FragTypes\<close>, \<open>SelectTags\<close>, \<open>SelectBudget\<close>, \<open>SystemBudget\<close>, \<open>FragBudget\<close>, \<open>Selector\<close>: choosing
    the fragments of a prompt. A \<open>ContextFrag\<close> is a section, a message or an image with where it
    goes, whom it comes from and what it may cost (\<^verbatim>\<open>fragment/types.go\<close>, with the references,
    hashes and prices of fragments). \<open>SelectFrags\<close> is \<open>Select\<close> of \<^verbatim>\<open>contextview/selector.go\<close>:
    trust gate, conflict groups, fragment budgets (\<^verbatim>\<open>selector_frag_budget.go\<close>), system budget
    (\<^verbatim>\<open>system_budget.go\<close>), tags (\<^verbatim>\<open>selection_tag.go\<close>), and the trimming of history by units
    (\<^verbatim>\<open>selector_budget.go\<close>) after summaries are shortened (\<^verbatim>\<open>selector_summary_shrink.go\<close>);
    \<open>gatedSelect\<close> puts \<^verbatim>\<open>capability_gate.go\<close> in front. A plan changed through its pointer is
    returned; SHA-256 and the encodings it hashes are the record \<open>FragEnv\<close>, an argument.
  \<^item> \<open>ToolClosure\<close>: the repair of tool exchanges, \<^verbatim>\<open>fragment/repair.go\<close>.
  \<^item> \<open>ModelRetry\<close>: \<^verbatim>\<open>modelretry/modelretry.go\<close>. A failure is what \<open>errors.Is\<close> and \<open>errors.As\<close>
    find in it; the outcomes of the calls and the jitter are arguments.
  \<^item> \<open>AskTypes\<close>, \<open>AskAnswers\<close>, \<open>AskFlow\<close>: a request for user input. \<open>AskTypes\<close> is the payload
    with its parser and reader (\<^verbatim>\<open>decision/input/types.go\<close>, \<^verbatim>\<open>payload.go\<close>), \<open>AskAnswers\<close> the
    submission (\<open>submittedResult\<close> of \<^verbatim>\<open>service.go\<close>), \<open>AskFlow\<close> the stored interaction with the
    two surfaces that drive it: text replies (\<^verbatim>\<open>plain_text.go\<close>) and buttons
    (\<^verbatim>\<open>interaction.go\<close>). Values read from JSON are the datatype \<open>json\<close>; strings in them are
    valid UTF-8, so that encoding keeps them.
  \<^item> \<open>AskForm\<close>, \<open>AskChoice\<close>: forms of external agents (\<^verbatim>\<open>elicitation.go\<close>, \<^verbatim>\<open>codexform.go\<close>) and
    their own questions (\<^verbatim>\<open>choice.go\<close>).

  \<^bold>\<open>Interfaces and what is shown\<close>

  \<^item> \<open>queue_item\<close> (\<open>QueueOps\<close>) is the view of an item that reordering and compaction
    take through function parameters; it is interpreted on steers and on follow-ups
    (\<open>LiveQueueInv\<close>).
  \<^item> \<open>claim_ledger\<close> (\<open>ClaimLedger\<close>) is exactly-once consumption: from what one step
    does to the outstanding claim tokens it derives, for every sequence of steps, that
    a settlement follows the issue of its claim and is the only one. It is interpreted
    on the pair of queues (\<open>QueueLedger\<close>), on one session of the backend, where an
    operation is an expiry and at most one queue step (\<open>BackendLedger\<close>), and on one
    session among operations of all others (\<open>BackendProps\<close>).
  \<^item> \<open>fifo\<close> (\<open>QueueOrder\<close>) is the order of service, interpreted on follow-ups and, for
    each run, on steers.
  \<^item> \<open>QueueProps\<close> and \<open>QueueContracts\<close>: the queues. Exactly-once, the invariant of the
    reachable states, terminal items stay, first come first served, claim and release,
    takeover by a new owner, one follow-up per run, reordering, compaction, promotion,
    closing a run.
  \<^item> \<open>BackendProps\<close>: the same through the backend, isolation of sessions, idempotent
    admission, sealing of closed runs.
  \<^item> \<open>StoreProps\<close>, over \<open>MemoryExpiry\<close>, \<open>MemoryResets\<close> and \<open>MemorySubs\<close>: lazy expiry
    answers like eager expiry, mutual exclusion of history resets and of run starts,
    subscriptions that never panic, delivery of events, closing.
  \<^item> \<open>LifecycleProps\<close>: the state machine of a run (\<open>life_step\<close>) over those updates: the
    moves of its status, one active run per session, ended generations stay ended, the
    cursor, stale owners are fenced, and the backend refines the machine.
  \<^item> \<open>DecisionProps\<close>: the decision output log as an idempotent, gap-free copy of a
    stream, complete when every append arrives in order at least once.
  \<^item> \<open>FoldProps\<close>, \<open>FoldRetain\<close>, \<open>FoldRows\<close>, \<open>FoldBudget\<close>: a compaction event ends, every
    pass makes the request smaller and the last one makes it fit; what is kept verbatim
    stays within its budget; a pass never ends between a call and its results, so they stay
    together where both may be folded; no history row is lost and
    the request left renders the checkpoint committed; the summary's length is the best.
  \<^item> \<open>ReasoningProps\<close>: what a picker offers is what the wire gets, but for the default a model
    declares, which calls ignore; a stored choice survives a change
    of model as something the model offers, nothing unadvertised is sent.
  \<^item> \<open>CommandProps\<close> and \<open>Slash\<close>: a printed command parses back, unless an argument without a
    blank has a quote in it, flags, ranges; which messages run
    commands or activate skills, and which metadata is refused.
  \<^item> \<open>TextProps\<close>: pruned text and limited tool output stay within their budgets of bytes
    and lines, a pruning without edges replaces every text by a note, cuts never split a rune, what is limited for storage can be stored, and
    errors stay errors.
  \<^item> \<open>surface\<close> and \<open>sealing_surface\<close> (\<open>AskSteps\<close>) are the contract of a surface that drives a
    stored interaction; the first is interpreted on text replies, the second on buttons.
  \<^item> \<open>AskProps\<close>, over \<open>AskWf\<close>, \<open>AskInv\<close>, \<open>AskSteps\<close>, \<open>AskStore\<close>, \<open>AskTurns\<close>, \<open>AskConform\<close>,
    \<open>AskContent\<close>, \<open>AskAccept\<close>: an accepted request is well formed and survives storage;
    a completed interaction is one that submission accepts; answering in turn completes;
    the content of a submitted form conforms to the schema of the form (\<open>conformsTo\<close>).
  \<^item> \<open>selection_stage\<close> (\<open>SelectAccounts\<close>) is the contract of a stage of selection: it splits its
    fragments and keeps their keys. It is interpreted on the trust gate, the conflict groups, the
    fragment budgets and the capability gate.
  \<^item> \<open>SelectProps\<close>, over \<open>BudgetUnits\<close>, \<open>BudgetTrim\<close>, \<open>BudgetCost\<close>, \<open>Exchanges\<close>, \<open>SelectAccounts\<close>,
    \<open>SelectFacts\<close>, \<open>SelectFits\<close>, \<open>SelectExchanges\<close> and \<open>SelectConflict\<close>: a selection fits the
    window of the model (only its system prompt where the run keeps its history whatever it
    costs), keeps tool exchanges whole with the trim notice between them, accounts
    for every fragment and lets only trusted text into the system prompt; the order in which
    history leaves; one winner per conflict key. A repaired history has only answered calls, and
    closed exchanges where no message calls one id twice, and repairing it again changes nothing (\<open>repair_idempotent\<close>).
  \<^item> \<open>ModelRetry\<close>: the retry loop ends within its number of attempts, and its delays are
    bounded.

  Some theorems record where the code does less than it is meant to:
  \<open>release_over_capacity\<close>, \<open>close_without_queue\<close>, \<open>off_only_active\<close>, \<open>repeated_mention\<close> and
  \<open>doubled_call_stays\<close>, the last two on concrete inputs, and \<open>stray_quote\<close> on printed commands.

  \<^bold>\<open>Choices and bounds\<close>

  All functions of the model are total; loops that are not structural (trimming, rune
  by rune scans, the shrinking of pruned text, the retry loop, the cutting of call
  groups, the passes of a compaction event, which end because each makes the request
  smaller) have a measure. No fuel is used. Token counts, far below the range of a Go
  \<open>int\<close>, are \<open>int\<close>s. An operation under
  the mutex is one step, so sequences of steps cover all interleavings of concurrent
  callers; the two critical sections of \<open>Subscribe\<close> are two steps. The clock is an
  argument of each operation, and the theorems say where they need it not to go back.
  Random tokens and IDs are arguments; where a theorem needs a fresh one, freshness is
  a hypothesis. Queue positions and computed delays wrap at 64 bits as in Go. The JSON
  encoding of snapshots is not part of the in-process backend. Lower-casing and case
  folding are exact for ASCII names.

  \<^bold>\<open>Not modelled\<close>

  The manager's local controls, goroutines, timers, callbacks and durable ledger, the
  Redis backend (scripts on an external server; it shares the queue transitions and the
  updates modelled here, whose distributed branches no property uses), the reaper and
  recovery loops, the service around compaction (candidates read from the database, hooks,
  logs), the service around a request for user input (its rows, fences, waiters and expiry),
  the agent loops and tools, the chat channels, the database
  services, the HTTP layer, workspaces and containers, and the web and desktop clients:
  their behaviour is I/O, orchestration of external services, or generated code.
\<close>

end
